(* ===== verification/Prelude.thy ===== *)
theory Prelude
  imports Main "HOL-Library.Word"
begin

text \<open>
  Shared vocabulary of the development: the machine integers of the Rust sources as words, byte
  strings as lists of bytes, \<^verbatim>\<open>Result\<close> as a sum type, the interfaces (locales) that several
  components implement, and the generic lemmas on lists and words their proofs use.

  \<^item> \<open>u8\<close>, \<open>u16\<close>, \<open>u32\<close>, \<open>u64\<close> are words of that width (their arithmetic wraps); \<open>usize\<close> is
    \<open>nat\<close>, since every size that occurs is bounded by the length of a buffer in memory.
  \<^item> a Rust slice that a loop reads with an index is the list of its remaining bytes.
  \<^item> \<^verbatim>\<open>Result<T, E>\<close> is \<open>E + T\<close> with \<open>Inl\<close> the error; the operator \<^verbatim>\<open>?\<close> is \<open>and_then\<close>.
  \<^item> a Rust \<^verbatim>\<open>String\<close> is the list of its Unicode scalar values.
\<close>

unbundle bit_operations_syntax

section \<open>Types\<close>

type_synonym u8 = "8 word"
type_synonym u16 = "16 word"
type_synonym u32 = "32 word"
type_synonym u64 = "64 word"
type_synonym usize = nat
type_synonym bytes = "u8 list"
type_synonym ('e, 'a) result = "'e + 'a"
type_synonym rstring = "nat list"

section \<open>Results\<close>

definition and_then :: "('e, 'a) result \<Rightarrow> ('a \<Rightarrow> ('e, 'b) result) \<Rightarrow> ('e, 'b) result" where
  "and_then m f = (case m of Inl e \<Rightarrow> Inl e | Inr x \<Rightarrow> f x)"

definition ok_or :: "'e \<Rightarrow> 'a option \<Rightarrow> ('e, 'a) result" where
  "ok_or e m = (case m of None \<Rightarrow> Inl e | Some x \<Rightarrow> Inr x)"

definition map_err :: "('e \<Rightarrow> 'f) \<Rightarrow> ('e, 'a) result \<Rightarrow> ('f, 'a) result" where
  "map_err h m = (case m of Inl e \<Rightarrow> Inl (h e) | Inr x \<Rightarrow> Inr x)"

fun collect_results :: "('e, 'a) result list \<Rightarrow> ('e, 'a list) result" where
  "collect_results [] = Inr []"
| "collect_results (Inl e # ms) = Inl e"
| "collect_results (Inr x # ms) =
     (case collect_results ms of Inl e \<Rightarrow> Inl e | Inr xs \<Rightarrow> Inr (x # xs))"

lemma and_then_simps [simp]:
  "and_then (Inl e) f = Inl e"
  "and_then (Inr x) f = f x"
  by (simp_all add: and_then_def)

lemma and_then_eq_Inr: "and_then m f = Inr y \<longleftrightarrow> (\<exists>x. m = Inr x \<and> f x = Inr y)"
  by (cases m) simp_all

lemma and_then_cong [fundef_cong]:
  "m = m' \<Longrightarrow> (\<And>x. m' = Inr x \<Longrightarrow> f x = g x) \<Longrightarrow> and_then m f = and_then m' g"
  by (cases m') simp_all

lemma ok_or_simps [simp]:
  "ok_or e None = Inl e"
  "ok_or e (Some x) = Inr x"
  by (simp_all add: ok_or_def)

lemma ok_or_eq_Inr [simp]: "ok_or e m = Inr x \<longleftrightarrow> m = Some x"
  by (cases m) simp_all

lemma map_err_simps [simp]:
  "map_err h (Inl e) = Inl (h e)"
  "map_err h (Inr x) = Inr x"
  by (simp_all add: map_err_def)

lemma collect_results_Inr_map: "collect_results (map Inr xs) = Inr xs"
  by (induction xs) simp_all

lemma collect_results_map_ok:
  "(\<And>x. x \<in> set xs \<Longrightarrow> f x = Inr (g x)) \<Longrightarrow> collect_results (map f xs) = Inr (map g xs)"
  by (induction xs) simp_all

section \<open>Big-endian integers\<close>

text \<open>\<^verbatim>\<open>u16::to_be_bytes\<close>, \<^verbatim>\<open>u16::from_be_bytes\<close> and the cast \<^verbatim>\<open>n as u16\<close> of a size.\<close>

definition to_be_bytes16 :: "u16 \<Rightarrow> bytes" where
  "to_be_bytes16 w = [ucast (drop_bit 8 w), ucast w]"

definition from_be_bytes16 :: "u8 \<Rightarrow> u8 \<Rightarrow> u16" where
  "from_be_bytes16 hi lo = push_bit 8 (ucast hi) OR ucast lo"

definition u16_of_usize :: "usize \<Rightarrow> u16" where
  "u16_of_usize n = word_of_nat n"

definition be_len :: "u8 \<Rightarrow> u8 \<Rightarrow> usize" where
  \<comment> \<open>\<^verbatim>\<open>usize::from(u16::from_be_bytes([hi, lo]))\<close>\<close>
  "be_len hi lo = unat (from_be_bytes16 hi lo)"

lemma length_to_be_bytes16 [simp]: "length (to_be_bytes16 w) = 2"
  by (simp add: to_be_bytes16_def)

lemma from_be_bytes16_to_be_bytes16 [simp]:
  "from_be_bytes16 (ucast (drop_bit 8 w)) (ucast w) = w"
  by (rule bit_word_eqI)
    (auto simp: from_be_bytes16_def bit_or_iff bit_push_bit_iff bit_ucast_iff bit_drop_bit_eq)

lemma be_len_alt: "be_len hi lo = 256 * unat hi + unat lo"
proof -
  have disj: "push_bit 8 (ucast hi :: u16) AND ucast lo = 0"
    by (rule bit_word_eqI)
      (auto simp: bit_and_iff bit_push_bit_iff bit_ucast_iff dest: bit_imp_le_length)
  have "from_be_bytes16 hi lo = push_bit 8 (ucast hi) + ucast lo"
    using disj by (simp add: from_be_bytes16_def disjunctive_add_eq_or)
  moreover have "unat hi < 256" "unat lo < 256"
    using unsigned_less [of hi] unsigned_less [of lo] by simp_all
  ultimately show ?thesis
    by (simp add: be_len_def push_bit_eq_mult unat_word_ariths unsigned_ucast_eq take_bit_nat_eq_self)
qed

lemma be_len_less [simp]: "be_len hi lo < 65536"
  using unsigned_less [of "from_be_bytes16 hi lo"] by (simp add: be_len_def)

lemma be_len_u16_of_usize [simp]:
  "n < 65536 \<Longrightarrow> be_len (ucast (drop_bit 8 (u16_of_usize n))) (ucast (u16_of_usize n)) = n"
  by (simp add: be_len_def u16_of_usize_def unat_of_nat)

lemma ucast_up_down:
  "LENGTH('a) \<le> LENGTH('b) \<Longrightarrow> ucast (ucast (w :: 'a::len word) :: 'b::len word) = w"
  by (rule bit_word_eqI) (auto simp: bit_ucast_iff dest: bit_imp_le_length)

section \<open>Wire codes: the interface of the enumerations carried in parameters\<close>

text \<open>
  Most enumerations of the protocol come with a pair \<^verbatim>\<open>code\<close>/\<^verbatim>\<open>from_code\<close>. The contract is
  that decoding is the partial inverse of encoding.
\<close>

locale wire_code =
  fixes code :: "'a \<Rightarrow> 'c"
    and from_code :: "'c \<Rightarrow> 'a option"
  assumes from_code_code: "from_code (code x) = Some x"
    and code_from_code: "from_code c = Some x \<Longrightarrow> code x = c"
begin

lemma code_inj: "code x = code y \<longleftrightarrow> x = y"
  by (metis from_code_code option.inject)

lemma from_code_iff: "from_code c = Some x \<longleftrightarrow> c = code x"
  using from_code_code code_from_code by blast

lemma from_code_None_iff: "from_code c = None \<longleftrightarrow> c \<notin> range code"
  using from_code_iff by (metis not_Some_eq rangeE rangeI)

lemma from_code_inj: "from_code c = Some x \<Longrightarrow> from_code d = Some x \<Longrightarrow> c = d"
  by (simp add: from_code_iff)

end

text \<open>
  The macros of the sources generate such a pair from a table: \<^verbatim>\<open>code\<close> reads the row of a
  constructor, \<^verbatim>\<open>from_code\<close> is a match whose arms are the rows in order. Both laws then follow
  from the table listing every constructor and giving distinct codes.
\<close>

lemma find_eq_SomeD: "find P xs = Some x \<Longrightarrow> x \<in> set xs \<and> P x"
  by (induction xs) (auto split: if_splits)

lemma find_distinct_code:
  "distinct (map f xs) \<Longrightarrow> x \<in> set xs \<Longrightarrow> find (\<lambda>y. f y = f x) xs = Some x"
  by (induction xs) (auto simp: image_iff)

lemma wire_code_table:
  assumes "\<And>x. x \<in> set xs" and "distinct (map f xs)"
  shows "wire_code f (\<lambda>c. find (\<lambda>y. f y = c) xs)"
proof
  fix x show "find (\<lambda>y. f y = f x) xs = Some x"
    using assms by (simp add: find_distinct_code)
next
  fix c x assume "find (\<lambda>y. f y = c) xs = Some x"
  then show "f x = c" by (auto dest: find_eq_SomeD)
qed

section \<open>Streams of delimited items\<close>

text \<open>
  Parameter units, articles of a multi-article DTF, FPDUs of an entity and entities of a byte
  stream are all read by a loop that takes one item off the front of the remaining bytes until
  none is left. The interface: the writer of one item, the reader of one item, and the loop;
  reading back what was written gives the same items.
\<close>

locale item_stream =
  fixes ok :: "'a \<Rightarrow> bool"
    and emit :: "'a \<Rightarrow> bytes"
    and read_item :: "bytes \<Rightarrow> ('e, 'a \<times> bytes) result"
    and read_all :: "bytes \<Rightarrow> ('e, 'a list) result"
  assumes read_emit: "ok x \<Longrightarrow> read_item (emit x @ rest) = Inr (x, rest)"
    and emit_not_Nil: "ok x \<Longrightarrow> emit x \<noteq> []"
    and read_all_Nil: "read_all [] = Inr []"
    and read_all_step: "bs \<noteq> [] \<Longrightarrow> read_item bs = Inr (x, rest) \<Longrightarrow>
      read_all bs = (case read_all rest of Inl e \<Rightarrow> Inl e | Inr xs \<Rightarrow> Inr (x # xs))"
begin

lemma read_all_emit: "list_all ok xs \<Longrightarrow> read_all (concat (map emit xs)) = Inr xs"
proof (induction xs)
  case Nil
  show ?case by (simp add: read_all_Nil)
next
  case (Cons x xs)
  then have ok: "ok x" "list_all ok xs" by simp_all
  have "read_item (emit x @ concat (map emit xs)) = Inr (x, concat (map emit xs))"
    using ok(1) by (rule read_emit)
  with ok Cons.IH show ?case
    by (simp add: read_all_step emit_not_Nil)
qed

lemma read_all_emit_append:
  "list_all ok xs \<Longrightarrow> read_all rest = Inr ys \<Longrightarrow>
    read_all (concat (map emit xs) @ rest) = Inr (xs @ ys)"
proof (induction xs)
  case Nil
  then show ?case by simp
next
  case (Cons x xs)
  then have ok: "ok x" "list_all ok xs" by simp_all
  have "read_item (emit x @ concat (map emit xs) @ rest) = Inr (x, concat (map emit xs) @ rest)"
    using ok(1) by (rule read_emit)
  with ok Cons show ?case
    by (simp add: read_all_step emit_not_Nil)
qed

lemma emit_stream_inj:
  "list_all ok xs \<Longrightarrow> list_all ok ys \<Longrightarrow>
    concat (map emit xs) = concat (map emit ys) \<Longrightarrow> xs = ys"
  by (metis read_all_emit sum.inject(2))

end

section \<open>Lists and words\<close>

text \<open>\<^verbatim>\<open>slice::chunks(n)\<close>: consecutive pieces of \<open>n\<close> bytes, the last one possibly shorter.\<close>

function chunks :: "nat \<Rightarrow> 'a list \<Rightarrow> 'a list list" where
  "chunks n xs = (if xs = [] \<or> n = 0 then [] else take n xs # chunks n (drop n xs))"
  by pat_completeness auto
termination
  by (relation "measure (\<lambda>(n, xs). length xs)") auto

declare chunks.simps [simp del]

lemma chunks_Nil [simp]: "chunks n [] = []"
  by (simp add: chunks.simps)

lemma chunks_step: "xs \<noteq> [] \<Longrightarrow> 0 < n \<Longrightarrow> chunks n xs = take n xs # chunks n (drop n xs)"
  by (subst chunks.simps) simp

lemma concat_chunks: "0 < n \<Longrightarrow> concat (chunks n xs) = xs"
proof (induction n xs rule: chunks.induct)
  case (1 n xs)
  then show ?case by (cases "xs = []") (simp_all add: chunks_step)
qed

lemma chunks_length: "c \<in> set (chunks n xs) \<Longrightarrow> 0 < length c \<and> length c \<le> n"
proof (induction n xs rule: chunks.induct)
  case (1 n xs)
  then show ?case by (cases "xs = [] \<or> n = 0") (auto simp: chunks.simps [of n xs])
qed

lemma chunks_eq_Nil [simp]: "chunks n xs = [] \<longleftrightarrow> xs = [] \<or> n = 0"
  by (simp add: chunks.simps)

lemma length_take_le [simp]: "length (take n xs) \<le> n"
  by simp

lemma u8_less_256 [simp]: "unat (b :: u8) < 256"
  using unsigned_less [of b] by simp

lemma unat_ucast_up:
  "LENGTH('a) \<le> LENGTH('b) \<Longrightarrow> unat (ucast (w :: 'a::len word) :: 'b::len word) = unat w"
  by (metis min_absorb1 take_bit_nat_eq_self_iff unsigned_less unsigned_ucast_eq
      unsigned_take_bit_eq take_bit_take_bit)

lemma unat_of_nat_u8 [simp]: "n < 256 \<Longrightarrow> unat (word_of_nat n :: u8) = n"
  by (simp add: unat_of_nat)

end
