(* ===== verification/Crc.thy ===== *)
theory Crc
  imports Prelude
begin

text \<open>
  The error-control checksum of \<^verbatim>\<open>crates/pesit-core/src/crc.rs\<close>: the ISO 8073 Fletcher checksum
  modulo 255 with its two check bytes at the end of the FPDU. The loop runs on \<open>u32\<close>
  accumulators; the lemmas relate it to the two weighted sums it computes modulo 255.
\<close>

section \<open>Definitions\<close>

definition CRC_LEN :: usize where
  "CRC_LEN = 2"

fun sums_loop :: "u32 \<Rightarrow> u32 \<Rightarrow> bytes \<Rightarrow> u32 \<times> u32" where
  "sums_loop s1 s2 [] = (s1, s2)"
| "sums_loop s1 s2 (b # bs) =
     (let s1' = (s1 + ucast b) mod 255; s2' = (s2 + s1') mod 255 in sums_loop s1' s2' bs)"

definition sums :: "bytes \<Rightarrow> u32 \<times> u32" where
  "sums bs = sums_loop 0 0 bs"

definition crc_compute :: "bytes \<Rightarrow> bytes" where
  "crc_compute fpdu =
     (let (s1, s2) = sums (fpdu @ [0, 0]);
          x = (s1 + 255 - s2) mod 255;
          y = (s2 + 2 * (255 - s1)) mod 255
      in [ucast x, ucast y])"

definition crc_verify :: "bytes \<Rightarrow> bool" where
  "crc_verify fpdu_with_crc =
     (if length fpdu_with_crc < CRC_LEN then False
      else let (s1, s2) = sums fpdu_with_crc in s1 = 0 \<and> s2 = 0)"

definition crc_append :: "bytes \<Rightarrow> bytes" where
  "crc_append fpdu = fpdu @ crc_compute fpdu"

section \<open>The sums the loop computes\<close>

fun byte_sum :: "bytes \<Rightarrow> nat" where
  "byte_sum [] = 0"
| "byte_sum (b # bs) = unat b + byte_sum bs"

fun weighted_sum :: "bytes \<Rightarrow> nat" where
  "weighted_sum [] = 0"
| "weighted_sum (b # bs) = Suc (length bs) * unat b + weighted_sum bs"

lemma byte_sum_append [simp]: "byte_sum (xs @ ys) = byte_sum xs + byte_sum ys"
  by (induction xs) simp_all

lemma weighted_sum_append [simp]:
  "weighted_sum (xs @ ys) = weighted_sum xs + length ys * byte_sum xs + weighted_sum ys"
  by (induction xs) (simp_all add: algebra_simps)

lemma unat_step_s1:
  assumes "unat (s1 :: u32) < 255"
  shows "unat ((s1 + ucast (b :: u8)) mod 255) = (unat s1 + unat b) mod 255"
proof -
  have "unat b < 256" by simp
  with assms have "unat s1 + unat b < 4294967296" by linarith
  then have "unat (s1 + ucast b :: u32) = unat s1 + unat b"
    by (simp add: unat_word_ariths unat_ucast_up)
  then show ?thesis by (simp add: unat_mod_distrib)
qed

lemma unat_step_s2:
  assumes "unat (s1 :: u32) < 255" "unat (s2 :: u32) < 255"
  shows "unat ((s2 + s1) mod 255) = (unat s2 + unat s1) mod 255"
  using assms by (simp add: unat_mod_distrib unat_word_ariths)

lemma fletcher_step_mod:
  "((s2 + (s1 + b) mod 255) mod 255 + n * ((s1 + b) mod 255) + w) mod 255 =
     (s2 + (s1 + n * s1) + (b + n * b + w)) mod (255::nat)"
proof -
  have "(s2 + (s1 + b) mod 255) mod 255 mod 255 = (s2 + (s1 + b)) mod 255"
    by (simp add: mod_simps)
  moreover have "n * ((s1 + b) mod 255) mod 255 = n * (s1 + b) mod 255"
    by (simp add: mod_simps)
  ultimately have "((s2 + (s1 + b) mod 255) mod 255 + n * ((s1 + b) mod 255)) mod 255 =
      (s2 + (s1 + b) + n * (s1 + b)) mod 255"
    by (rule mod_add_cong)
  from mod_add_cong [OF this refl, of w] show ?thesis
    by (simp add: algebra_simps)
qed

lemma sums_loop_spec:
  assumes "unat s1 < 255" "unat s2 < 255"
  shows "unat (fst (sums_loop s1 s2 bs)) = (unat s1 + byte_sum bs) mod 255 \<and>
         unat (snd (sums_loop s1 s2 bs)) =
           (unat s2 + length bs * unat s1 + weighted_sum bs) mod 255"
  using assms
proof (induction bs arbitrary: s1 s2)
  case Nil
  then show ?case by simp
next
  case (Cons b bs)
  define t1 where "t1 = (s1 + ucast b) mod 255"
  define t2 where "t2 = (s2 + t1) mod 255"
  have t1: "unat t1 = (unat s1 + unat b) mod 255"
    using Cons.prems(1) by (simp add: t1_def unat_step_s1)
  have t2: "unat t2 = (unat s2 + unat t1) mod 255"
    using Cons.prems(2) t1 by (simp add: t2_def unat_step_s2)
  have IH: "unat (fst (sums_loop t1 t2 bs)) = (unat t1 + byte_sum bs) mod 255"
    "unat (snd (sums_loop t1 t2 bs)) = (unat t2 + length bs * unat t1 + weighted_sum bs) mod 255"
    using Cons.IH [of t1 t2] t1 t2 by simp_all
  have step: "sums_loop s1 s2 (b # bs) = sums_loop t1 t2 bs"
    by (simp add: t1_def t2_def Let_def)
  have "(unat t2 + length bs * unat t1 + weighted_sum bs) mod 255 =
      (unat s2 + length (b # bs) * unat s1 + weighted_sum (b # bs)) mod 255"
    unfolding t1 t2 by (simp add: fletcher_step_mod)
  then have "unat (snd (sums_loop s1 s2 (b # bs))) =
      (unat s2 + length (b # bs) * unat s1 + weighted_sum (b # bs)) mod 255"
    using IH(2) step by simp
  moreover have "unat (fst (sums_loop s1 s2 (b # bs))) = (unat s1 + byte_sum (b # bs)) mod 255"
    using IH(1) t1 step by (simp add: mod_simps add.assoc)
  ultimately show ?case by (rule conjI [rotated])
qed

lemma sums_spec:
  "unat (fst (sums bs)) = byte_sum bs mod 255"
  "unat (snd (sums bs)) = weighted_sum bs mod 255"
  using sums_loop_spec [of 0 0 bs] by (simp_all add: sums_def)

lemma crc_verify_iff:
  "crc_verify v \<longleftrightarrow> 2 \<le> length v \<and> byte_sum v mod 255 = 0 \<and> weighted_sum v mod 255 = 0"
proof -
  have "fst (sums v) = 0 \<longleftrightarrow> byte_sum v mod 255 = 0"
    using sums_spec(1) [of v] by (metis unat_0 unat_eq_zero)
  moreover have "snd (sums v) = 0 \<longleftrightarrow> weighted_sum v mod 255 = 0"
    using sums_spec(2) [of v] by (metis unat_0 unat_eq_zero)
  ultimately show ?thesis
    by (auto simp: crc_verify_def CRC_LEN_def split: prod.splits)
qed

lemma check_byte_x: "(a mod 255 + 255 - (w + 2 * a) mod 255) mod 255 = (- a - w) mod (255::int)"
proof -
  have "(a mod 255 + 255 - (w + 2 * a) mod 255) mod 255 =
      (a mod 255 - (w + 2 * a) mod 255 + 255) mod 255"
    by (simp add: algebra_simps)
  also have "\<dots> = (a - (w + 2 * a)) mod 255"
    by (simp only: mod_add_self2 mod_diff_eq)
  finally show ?thesis by (simp add: algebra_simps)
qed

lemma check_byte_y: "((w + 2 * a) mod 255 + 2 * (255 - a mod 255)) mod 255 = w mod (255::int)"
proof -
  have "((w + 2 * a) mod 255 + 2 * (255 - a mod 255)) mod 255 =
      ((w + 2 * a) mod 255 - 2 * (a mod 255) + 255 * 2) mod 255"
    by (simp add: algebra_simps)
  also have "\<dots> = ((w + 2 * a) mod 255 - 2 * (a mod 255)) mod 255"
    by (simp only: mod_mult_self2)
  also have "\<dots> = (w + 2 * a - 2 * a) mod 255"
    by (rule mod_diff_cong) (simp_all add: mod_mult_right_eq)
  finally show ?thesis by simp
qed

lemma crc_compute_bytes:
  obtains x y where "crc_compute m = [x, y]"
    "int (unat x) mod 255 = (- int (byte_sum m) - int (weighted_sum m)) mod 255"
    "int (unat y) mod 255 = int (weighted_sum m) mod 255"
proof -
  obtain s1 s2 where s: "sums (m @ [0, 0]) = (s1, s2)" by fastforce
  have u1: "unat s1 = byte_sum m mod 255"
    using sums_spec(1) [of "m @ [0, 0]"] s by simp
  have u2: "unat s2 = (weighted_sum m + 2 * byte_sum m) mod 255"
    using sums_spec(2) [of "m @ [0, 0]"] s by (simp add: mult_2)
  have lt: "unat s1 < 255" "unat s2 < 255" by (simp_all add: u1 u2)
  define x where "x = (s1 + 255 - s2) mod 255"
  define y where "y = (s2 + 2 * (255 - s1)) mod 255"
  have "unat (s1 + 255) = unat s1 + 255"
    using lt by (simp add: unat_word_ariths)
  then have "unat (s1 + 255 - s2) = unat s1 + 255 - unat s2"
    using lt by (subst unat_sub) (simp_all add: word_le_nat_alt)
  then have x: "unat x = (unat s1 + 255 - unat s2) mod 255"
    by (simp add: x_def unat_mod_distrib)
  have "unat (255 - s1) = 255 - unat s1"
    using lt by (subst unat_sub) (simp_all add: word_le_nat_alt)
  then have "unat (s2 + 2 * (255 - s1)) = unat s2 + 2 * (255 - unat s1)"
    using lt by (simp only: unat_word_ariths) (simp add: unat_numeral)
  then have y: "unat y = (unat s2 + 2 * (255 - unat s1)) mod 255"
    by (simp add: y_def unat_mod_distrib)
  have ux: "unat (ucast x :: u8) = unat x" and uy: "unat (ucast y :: u8) = unat y"
    using x y by (simp_all add: unsigned_ucast_eq take_bit_nat_eq_self)
  have "int (unat x) = (int (unat s1) + 255 - int (unat s2)) mod 255"
    using x lt by (simp add: zmod_int of_nat_diff)
  also have "\<dots> = (- int (byte_sum m) - int (weighted_sum m)) mod 255"
    unfolding u1 u2 by (simp only: zmod_int of_nat_add of_nat_mult of_nat_numeral check_byte_x)
  finally have X: "int (unat x) = (- int (byte_sum m) - int (weighted_sum m)) mod 255" .
  have "int (unat y) = (int (unat s2) + 2 * (255 - int (unat s1))) mod 255"
    using y lt by (simp add: zmod_int of_nat_diff)
  also have "\<dots> = int (weighted_sum m) mod 255"
    unfolding u1 u2 by (simp only: zmod_int of_nat_add of_nat_mult of_nat_numeral check_byte_y)
  finally have Y: "int (unat y) = int (weighted_sum m) mod 255" .
  have "crc_compute m = [ucast x, ucast y]"
    by (simp add: crc_compute_def s x_def y_def Let_def)
  moreover have "int (unat (ucast x :: u8)) mod 255 =
      (- int (byte_sum m) - int (weighted_sum m)) mod 255"
    unfolding ux X by (rule mod_mod_trivial)
  moreover have "int (unat (ucast y :: u8)) mod 255 = int (weighted_sum m) mod 255"
    unfolding uy Y by (rule mod_mod_trivial)
  ultimately show ?thesis by (rule that)
qed

section \<open>Replacing one byte\<close>

lemma byte_sum_split:
  "i < length v \<Longrightarrow>
    int (byte_sum (v[i := b])) = int (byte_sum v) + (int (unat b) - int (unat (v ! i)))"
  by (induction v arbitrary: i) (auto split: nat.splits)

lemma weighted_sum_split:
  "i < length v \<Longrightarrow> int (weighted_sum (v[i := b])) =
    int (weighted_sum v) + int (length v - i) * (int (unat b) - int (unat (v ! i)))"
proof (induction v arbitrary: i)
  case Nil
  then show ?case by simp
next
  case (Cons a v)
  then show ?case by (cases i) (simp_all add: algebra_simps)
qed

lemma dvd_255_iff: "(n::nat) mod 255 = 0 \<longleftrightarrow> (255::int) dvd int n"
  by presburger

lemma crc_append_ok: "crc_verify (crc_append fpdu)"
proof -
  obtain x y where xy: "crc_compute fpdu = [x, y]"
    and x: "int (unat x) mod 255 = (- int (byte_sum fpdu) - int (weighted_sum fpdu)) mod 255"
    and y: "int (unat y) mod 255 = int (weighted_sum fpdu) mod 255"
    by (rule crc_compute_bytes)
  obtain k where k: "int (unat x) = - int (byte_sum fpdu) - int (weighted_sum fpdu) + 255 * k"
    using x by (metis mod_eqE mult.commute add_diff_eq diff_add_cancel add.commute)
  obtain l where l: "int (unat y) = int (weighted_sum fpdu) + 255 * l"
    using y by (metis mod_eqE mult.commute add_diff_eq diff_add_cancel add.commute)
  have "int (byte_sum (crc_append fpdu)) = 255 * (k + l)"
    using k l by (simp add: crc_append_def xy algebra_simps)
  moreover have "int (weighted_sum (crc_append fpdu)) = 255 * (2 * k + l)"
    using k l by (simp add: crc_append_def xy algebra_simps)
  ultimately show ?thesis
    by (simp add: crc_verify_iff dvd_255_iff) (simp add: crc_append_def xy)
qed

lemma crc_byte_change:
  assumes "crc_verify v" and "i < length v"
  shows "crc_verify (v[i := b]) \<longleftrightarrow> unat b mod 255 = unat (v ! i) mod 255"
proof -
  define d where "d = int (unat b) - int (unat (v ! i))"
  from assms(1) have v: "255 dvd int (byte_sum v)" "255 dvd int (weighted_sum v)" "2 \<le> length v"
    by (simp_all add: crc_verify_iff dvd_255_iff)
  have "crc_verify (v[i := b]) \<longleftrightarrow> 255 dvd d \<and> 255 dvd int (length v - i) * d"
    using v assms(2)
    by (simp add: crc_verify_iff dvd_255_iff byte_sum_split weighted_sum_split d_def
        dvd_add_right_iff)
  also have "\<dots> \<longleftrightarrow> 255 dvd d"
    by auto
  also have "\<dots> \<longleftrightarrow> unat b mod 255 = unat (v ! i) mod 255"
    unfolding d_def mod_eq_dvd_iff [symmetric]
    by (metis nat_int of_nat_numeral zmod_int)
  finally show ?thesis .
qed

section \<open>Properties\<close>

text \<open>the check bytes that \<^verbatim>\<open>crc::append\<close> puts behind any FPDU are accepted by
  \<^verbatim>\<open>crc::verify\<close>.
\<close>

theorem crc_append_verifies: "crc_verify (crc_append fpdu)"
  by (rule crc_append_ok)

text \<open>replacing one byte of a sealed FPDU (check bytes included) is detected exactly when the two
  bytes differ modulo 255: the only undetected change swaps 0x00 and 0xFF.
\<close>

theorem crc_detects_byte_change:
  assumes "crc_verify v" and "i < length v"
  shows "crc_verify (v[i := b]) \<longleftrightarrow> unat b mod 255 = unat (v ! i) mod 255"
  by (rule crc_byte_change [OF assms])

theorem crc_detects_byte_change_witness:
  "crc_verify (crc_append [0, 6, 192, 2, 5, 0]) \<and>
   \<not> crc_verify ((crc_append [0, 6, 192, 2, 5, 0])[3 := 3])"
proof -
  have len: "length (crc_append [0, 6, 192, 2, 5, 0]) = 8"
    by (simp add: crc_append_def crc_compute_def split: prod.splits)
  have "crc_append [0, 6, 192, 2, 5, 0] ! 3 = 2"
    by (simp add: crc_append_def)
  with crc_detects_byte_change [of "crc_append [0, 6, 192, 2, 5, 0]" 3 3]
    crc_append_ok [of "[0, 6, 192, 2, 5, 0]"] len
  show ?thesis by simp
qed

end
