(* ===== verification/Diag.thy ===== *)
theory Diag
  imports Prelude
begin

text \<open>
  Diagnostics, \<^verbatim>\<open>crates/pesit-core/src/diag.rs\<close>: the pair of an error type and a reason code
  carried by PI 2, the constants of the \<^verbatim>\<open>diags!\<close> table (prefixed \<open>D_\<close> here) and their texts.
\<close>

section \<open>Definitions\<close>

record diagnostic =
  d_kind :: u8
  d_code :: u16

definition diagnostic_new :: "u8 \<Rightarrow> u16 \<Rightarrow> diagnostic" where
  "diagnostic_new k c = \<lparr>d_kind = k, d_code = c\<rparr>"

definition D_OK :: diagnostic where
  "D_OK = diagnostic_new 0 0"

definition D_TRANSMISSION_ERROR :: diagnostic where
  "D_TRANSMISSION_ERROR = diagnostic_new 1 100"

definition D_INSUFFICIENT_FILE_CHARACTERISTICS :: diagnostic where
  "D_INSUFFICIENT_FILE_CHARACTERISTICS = diagnostic_new 2 200"

definition D_SYSTEM_RESOURCES :: diagnostic where
  "D_SYSTEM_RESOURCES = diagnostic_new 2 201"

definition D_USER_RESOURCES :: diagnostic where
  "D_USER_RESOURCES = diagnostic_new 2 202"

definition D_NON_PRIORITY_TRANSFER :: diagnostic where
  "D_NON_PRIORITY_TRANSFER = diagnostic_new 2 203"

definition D_FILE_EXISTS :: diagnostic where
  "D_FILE_EXISTS = diagnostic_new 2 204"

definition D_FILE_NOT_FOUND :: diagnostic where
  "D_FILE_NOT_FOUND = diagnostic_new 2 205"

definition D_DISK_QUOTA :: diagnostic where
  "D_DISK_QUOTA = diagnostic_new 2 206"

definition D_FILE_BUSY :: diagnostic where
  "D_FILE_BUSY = diagnostic_new 2 207"

definition D_FILE_TOO_OLD :: diagnostic where
  "D_FILE_TOO_OLD = diagnostic_new 2 208"

definition D_MESSAGE_NOT_ACCEPTED :: diagnostic where
  "D_MESSAGE_NOT_ACCEPTED = diagnostic_new 2 209"

definition D_PRESENTATION_NEGOTIATION :: diagnostic where
  "D_PRESENTATION_NEGOTIATION = diagnostic_new 2 210"

definition D_CANNOT_OPEN :: diagnostic where
  "D_CANNOT_OPEN = diagnostic_new 2 211"

definition D_CANNOT_CLOSE :: diagnostic where
  "D_CANNOT_CLOSE = diagnostic_new 2 212"

definition D_IO_ERROR :: diagnostic where
  "D_IO_ERROR = diagnostic_new 2 213"

definition D_RESTART_POINT_NEGOTIATION :: diagnostic where
  "D_RESTART_POINT_NEGOTIATION = diagnostic_new 2 214"

definition D_SYSTEM_ERROR :: diagnostic where
  "D_SYSTEM_ERROR = diagnostic_new 2 215"

definition D_VOLUNTARY_STOP :: diagnostic where
  "D_VOLUNTARY_STOP = diagnostic_new 2 216"

definition D_TOO_MANY_UNACKED_SYNC :: diagnostic where
  "D_TOO_MANY_UNACKED_SYNC = diagnostic_new 2 217"

definition D_RESYNC_IMPOSSIBLE :: diagnostic where
  "D_RESYNC_IMPOSSIBLE = diagnostic_new 2 218"

definition D_FILE_SPACE_EXHAUSTED :: diagnostic where
  "D_FILE_SPACE_EXHAUSTED = diagnostic_new 2 219"

definition D_RECORD_TOO_LONG :: diagnostic where
  "D_RECORD_TOO_LONG = diagnostic_new 2 220"

definition D_END_OF_TRANSMISSION_TIMEOUT :: diagnostic where
  "D_END_OF_TRANSMISSION_TIMEOUT = diagnostic_new 2 221"

definition D_TOO_MUCH_DATA_WITHOUT_SYNC :: diagnostic where
  "D_TOO_MUCH_DATA_WITHOUT_SYNC = diagnostic_new 2 222"

definition D_ABNORMAL_END :: diagnostic where
  "D_ABNORMAL_END = diagnostic_new 2 223"

definition D_FILE_LARGER_THAN_ANNOUNCED :: diagnostic where
  "D_FILE_LARGER_THAN_ANNOUNCED = diagnostic_new 2 224"

definition D_APPLICATION_CONGESTED :: diagnostic where
  "D_APPLICATION_CONGESTED = diagnostic_new 2 225"

definition D_TRANSFER_REFUSED :: diagnostic where
  "D_TRANSFER_REFUSED = diagnostic_new 2 226"

definition D_RESTART_NOT_RESTARTABLE :: diagnostic where
  "D_RESTART_NOT_RESTARTABLE = diagnostic_new 2 227"

definition D_RESTART_UNKNOWN_SYNC :: diagnostic where
  "D_RESTART_UNKNOWN_SYNC = diagnostic_new 2 228"

definition D_RESTART_FILE_MODIFIED :: diagnostic where
  "D_RESTART_FILE_MODIFIED = diagnostic_new 2 229"

definition D_RESTART_DELAY_EXCEEDED :: diagnostic where
  "D_RESTART_DELAY_EXCEEDED = diagnostic_new 2 230"

definition D_NO_RESTART_CONTEXT :: diagnostic where
  "D_NO_RESTART_CONTEXT = diagnostic_new 2 233"

definition D_OTHER_FILE_ERROR :: diagnostic where
  "D_OTHER_FILE_ERROR = diagnostic_new 2 299"

definition D_LOCAL_CONGESTION :: diagnostic where
  "D_LOCAL_CONGESTION = diagnostic_new 3 300"

definition D_CALLER_UNKNOWN :: diagnostic where
  "D_CALLER_UNKNOWN = diagnostic_new 3 301"

definition D_NOT_ATTACHED_TO_SSAP :: diagnostic where
  "D_NOT_ATTACHED_TO_SSAP = diagnostic_new 3 302"

definition D_REMOTE_CONGESTION :: diagnostic where
  "D_REMOTE_CONGESTION = diagnostic_new 3 303"

definition D_CALLER_NOT_AUTHORISED :: diagnostic where
  "D_CALLER_NOT_AUTHORISED = diagnostic_new 3 304"

definition D_SELECT_NEGOTIATION :: diagnostic where
  "D_SELECT_NEGOTIATION = diagnostic_new 3 305"

definition D_RESYNC_NEGOTIATION :: diagnostic where
  "D_RESYNC_NEGOTIATION = diagnostic_new 3 306"

definition D_SYNC_NEGOTIATION :: diagnostic where
  "D_SYNC_NEGOTIATION = diagnostic_new 3 307"

definition D_VERSION_NOT_SUPPORTED :: diagnostic where
  "D_VERSION_NOT_SUPPORTED = diagnostic_new 3 308"

definition D_TOO_MANY_CONNECTIONS :: diagnostic where
  "D_TOO_MANY_CONNECTIONS = diagnostic_new 3 309"

definition D_NETWORK_INCIDENT :: diagnostic where
  "D_NETWORK_INCIDENT = diagnostic_new 3 310"

definition D_REMOTE_PROTOCOL_ERROR :: diagnostic where
  "D_REMOTE_PROTOCOL_ERROR = diagnostic_new 3 311"

definition D_SERVICE_CLOSED :: diagnostic where
  "D_SERVICE_CLOSED = diagnostic_new 3 312"

definition D_IDLE_CONNECTION_CUT :: diagnostic where
  "D_IDLE_CONNECTION_CUT = diagnostic_new 3 313"

definition D_UNUSED_CONNECTION_CUT :: diagnostic where
  "D_UNUSED_CONNECTION_CUT = diagnostic_new 3 314"

definition D_NEGOTIATION_FAILURE :: diagnostic where
  "D_NEGOTIATION_FAILURE = diagnostic_new 3 315"

definition D_ADMINISTRATIVE_CUT :: diagnostic where
  "D_ADMINISTRATIVE_CUT = diagnostic_new 3 316"

definition D_TIMEOUT :: diagnostic where
  "D_TIMEOUT = diagnostic_new 3 317"

definition D_INVALID_PARAMETER :: diagnostic where
  "D_INVALID_PARAMETER = diagnostic_new 3 318"

definition D_INVALID_COUNTS :: diagnostic where
  "D_INVALID_COUNTS = diagnostic_new 3 319"

definition D_TOO_MANY_RESYNC :: diagnostic where
  "D_TOO_MANY_RESYNC = diagnostic_new 3 320"

definition D_CALL_BACKUP_NUMBER :: diagnostic where
  "D_CALL_BACKUP_NUMBER = diagnostic_new 3 321"

definition D_CALL_BACK_LATER :: diagnostic where
  "D_CALL_BACK_LATER = diagnostic_new 3 322"

definition D_OTHER_CONNECTION_ERROR :: diagnostic where
  "D_OTHER_CONNECTION_ERROR = diagnostic_new 3 399"

definition diag_table :: "(diagnostic \<times> string) list" where
  "diag_table = [
     (D_OK, ''Success''),
     (D_TRANSMISSION_ERROR, ''Transmission error''),
     (D_INSUFFICIENT_FILE_CHARACTERISTICS, ''Insufficient file characteristics''),
     (D_SYSTEM_RESOURCES, ''System resources temporarily insufficient''),
     (D_USER_RESOURCES, ''User resources temporarily insufficient''),
     (D_NON_PRIORITY_TRANSFER, ''Non-priority transfer''),
     (D_FILE_EXISTS, ''File already exists''),
     (D_FILE_NOT_FOUND, ''File not found''),
     (D_DISK_QUOTA, ''Disk quota would be exceeded''),
     (D_FILE_BUSY, ''File busy''),
     (D_FILE_TOO_OLD, ''File too old''),
     (D_MESSAGE_NOT_ACCEPTED, ''Message of this type not accepted''),
     (D_PRESENTATION_NEGOTIATION, ''Presentation context negotiation failed''),
     (D_CANNOT_OPEN, ''Cannot open file''),
     (D_CANNOT_CLOSE, ''Cannot close file normally''),
     (D_IO_ERROR, ''Blocking input/output error''),
     (D_RESTART_POINT_NEGOTIATION, ''Restart point negotiation failed''),
     (D_SYSTEM_ERROR, ''System-specific error''),
     (D_VOLUNTARY_STOP, ''Voluntary premature stop''),
     (D_TOO_MANY_UNACKED_SYNC, ''Too many synchronisation points without acknowledgement''),
     (D_RESYNC_IMPOSSIBLE, ''Resynchronisation impossible''),
     (D_FILE_SPACE_EXHAUSTED, ''File space exhausted''),
     (D_RECORD_TOO_LONG, ''Article longer than expected''),
     (D_END_OF_TRANSMISSION_TIMEOUT, ''End of transmission timer expired''),
     (D_TOO_MUCH_DATA_WITHOUT_SYNC, ''Too much data without synchronisation point''),
     (D_ABNORMAL_END, ''Abnormal end of transfer''),
     (D_FILE_LARGER_THAN_ANNOUNCED, ''File larger than announced in F.CREATE''),
     (D_APPLICATION_CONGESTED, ''Application congested, file received but not delivered''),
     (D_TRANSFER_REFUSED, ''Transfer refused''),
     (D_RESTART_NOT_RESTARTABLE, ''Restart impossible: transfer not restartable''),
     (D_RESTART_UNKNOWN_SYNC, ''Restart impossible: unknown synchronisation point''),
     (D_RESTART_FILE_MODIFIED, ''Restart impossible: file modified''),
     (D_RESTART_DELAY_EXCEEDED, ''Restart impossible: delay exceeded''),
     (D_NO_RESTART_CONTEXT, ''No transfer restart context available''),
     (D_OTHER_FILE_ERROR, ''Other file/transfer error''),
     (D_LOCAL_CONGESTION, ''Local communication system congested''),
     (D_CALLER_UNKNOWN, ''Requested identification unknown''),
     (D_NOT_ATTACHED_TO_SSAP, ''Requester not attached to an SSAP / unauthorised caller''),
     (D_REMOTE_CONGESTION, ''Remote communication system congested / called partner unknown''),
     (D_CALLER_NOT_AUTHORISED, ''Requester identification not authorised (security)''),
     (D_SELECT_NEGOTIATION, ''Negotiation failure: SELECT''),
     (D_RESYNC_NEGOTIATION, ''Negotiation failure: RESYNC''),
     (D_SYNC_NEGOTIATION, ''Negotiation failure: SYNC''),
     (D_VERSION_NOT_SUPPORTED, ''Version number not supported''),
     (D_TOO_MANY_CONNECTIONS, ''Too many connections already in progress''),
     (D_NETWORK_INCIDENT, ''Network incident''),
     (D_REMOTE_PROTOCOL_ERROR, ''Remote PeSIT protocol error''),
     (D_SERVICE_CLOSED, ''Closure of service requested by user''),
     (D_IDLE_CONNECTION_CUT, ''Connection cut at end of inactivity timer''),
     (D_UNUSED_CONNECTION_CUT, ''Unused connection cut to accept a new one''),
     (D_NEGOTIATION_FAILURE, ''Negotiation failure''),
     (D_ADMINISTRATIVE_CUT, ''Connection cut by administration''),
     (D_TIMEOUT, ''Timer expired''),
     (D_INVALID_PARAMETER, ''Mandatory parameter absent or illegal parameter content''),
     (D_INVALID_COUNTS, ''Incorrect number of bytes or articles''),
     (D_TOO_MANY_RESYNC, ''Too many resynchronisations for a transfer''),
     (D_CALL_BACKUP_NUMBER, ''Call the backup number''),
     (D_CALL_BACK_LATER, ''Call back later''),
     (D_OTHER_CONNECTION_ERROR, ''Other connection/protocol error'')]"

lemmas diag_const_defs =
  D_OK_def D_TRANSMISSION_ERROR_def D_INSUFFICIENT_FILE_CHARACTERISTICS_def
  D_SYSTEM_RESOURCES_def D_USER_RESOURCES_def D_NON_PRIORITY_TRANSFER_def
  D_FILE_EXISTS_def D_FILE_NOT_FOUND_def D_DISK_QUOTA_def
  D_FILE_BUSY_def D_FILE_TOO_OLD_def D_MESSAGE_NOT_ACCEPTED_def
  D_PRESENTATION_NEGOTIATION_def D_CANNOT_OPEN_def D_CANNOT_CLOSE_def
  D_IO_ERROR_def D_RESTART_POINT_NEGOTIATION_def D_SYSTEM_ERROR_def
  D_VOLUNTARY_STOP_def D_TOO_MANY_UNACKED_SYNC_def D_RESYNC_IMPOSSIBLE_def
  D_FILE_SPACE_EXHAUSTED_def D_RECORD_TOO_LONG_def D_END_OF_TRANSMISSION_TIMEOUT_def
  D_TOO_MUCH_DATA_WITHOUT_SYNC_def D_ABNORMAL_END_def D_FILE_LARGER_THAN_ANNOUNCED_def
  D_APPLICATION_CONGESTED_def D_TRANSFER_REFUSED_def D_RESTART_NOT_RESTARTABLE_def
  D_RESTART_UNKNOWN_SYNC_def D_RESTART_FILE_MODIFIED_def D_RESTART_DELAY_EXCEEDED_def
  D_NO_RESTART_CONTEXT_def D_OTHER_FILE_ERROR_def D_LOCAL_CONGESTION_def
  D_CALLER_UNKNOWN_def D_NOT_ATTACHED_TO_SSAP_def D_REMOTE_CONGESTION_def
  D_CALLER_NOT_AUTHORISED_def D_SELECT_NEGOTIATION_def D_RESYNC_NEGOTIATION_def
  D_SYNC_NEGOTIATION_def D_VERSION_NOT_SUPPORTED_def D_TOO_MANY_CONNECTIONS_def
  D_NETWORK_INCIDENT_def D_REMOTE_PROTOCOL_ERROR_def D_SERVICE_CLOSED_def
  D_IDLE_CONNECTION_CUT_def D_UNUSED_CONNECTION_CUT_def D_NEGOTIATION_FAILURE_def
  D_ADMINISTRATIVE_CUT_def D_TIMEOUT_def D_INVALID_PARAMETER_def
  D_INVALID_COUNTS_def D_TOO_MANY_RESYNC_def D_CALL_BACKUP_NUMBER_def
  D_CALL_BACK_LATER_def D_OTHER_CONNECTION_ERROR_def

definition known_description :: "diagnostic \<Rightarrow> string option" where
  "known_description d = map_of diag_table d"

definition diag_from_bytes :: "bytes \<Rightarrow> diagnostic option" where
  "diag_from_bytes bs =
     (case bs of
        [] \<Rightarrow> None
      | [k] \<Rightarrow> Some (diagnostic_new k 0)
      | [k, c] \<Rightarrow> Some (diagnostic_new k (ucast c))
      | k # hi # lo # _ \<Rightarrow> Some (diagnostic_new k (from_be_bytes16 hi lo)))"

definition diag_to_bytes :: "diagnostic \<Rightarrow> bytes" where
  "diag_to_bytes d = d_kind d # to_be_bytes16 (d_code d)"

definition diag_is_ok :: "diagnostic \<Rightarrow> bool" where
  "diag_is_ok d \<longleftrightarrow> d_kind d = 0 \<and> d_code d = 0"

definition diag_description :: "diagnostic \<Rightarrow> string" where
  "diag_description d =
     (case known_description d of
        Some s \<Rightarrow> s
      | None \<Rightarrow>
         (if d_kind d = 0 then ''Success''
          else if d_kind d = 1 then ''Transmission error''
          else if d_kind d = 2 then ''File or transfer error''
          else if d_kind d = 3 then ''Connection or protocol error''
          else ''Unknown diagnostic''))"

definition forbids_restart :: "diagnostic \<Rightarrow> bool" where
  "forbids_restart d \<longleftrightarrow> d_code d \<in> {214, 218, 227, 228, 229, 230, 233} \<and> d_kind d = 2"

section \<open>Lemmas\<close>

lemma diagnostic_new_simps [simp]:
  "d_kind (diagnostic_new k c) = k"
  "d_code (diagnostic_new k c) = c"
  "diagnostic_new (d_kind d) (d_code d) = d"
  by (simp_all add: diagnostic_new_def)

lemma diagnostic_new_inject [simp]:
  "diagnostic_new k c = diagnostic_new k' c' \<longleftrightarrow> k = k' \<and> c = c'"
  by (simp add: diagnostic_new_def)

lemma diag_to_bytes_not_Nil [simp]: "diag_to_bytes d \<noteq> []"
  by (simp add: diag_to_bytes_def)

lemma length_diag_to_bytes [simp]: "length (diag_to_bytes d) = 3"
  by (simp add: diag_to_bytes_def)

lemma diag_from_to_bytes [simp]: "diag_from_bytes (diag_to_bytes d) = Some d"
  by (simp add: diag_from_bytes_def diag_to_bytes_def to_be_bytes16_def)

lemma diag_is_ok_iff: "diag_is_ok d \<longleftrightarrow> d = D_OK"
  by (cases d) (simp add: diag_is_ok_def D_OK_def diagnostic_new_def)

lemma diag_is_ok_D_OK [simp]: "diag_is_ok D_OK"
  by (simp add: diag_is_ok_iff)

text \<open>The wire form as an instance of the code contract, restricted to 3-byte values.\<close>

lemma diag_from_bytes_to_bytes:
  "diag_from_bytes bs = Some d \<Longrightarrow> length bs = 3 \<Longrightarrow> diag_to_bytes d = bs"
proof -
  assume a: "diag_from_bytes bs = Some d" "length bs = 3"
  then obtain k hi lo where bs: "bs = [k, hi, lo]"
    by (auto simp: length_Suc_conv eval_nat_numeral)
  have "ucast (drop_bit 8 (from_be_bytes16 hi lo)) = hi"
    by (rule bit_word_eqI)
      (auto simp: from_be_bytes16_def bit_or_iff bit_push_bit_iff bit_ucast_iff bit_drop_bit_eq
        dest: bit_imp_le_length)
  moreover have "ucast (from_be_bytes16 hi lo) = lo"
    by (rule bit_word_eqI)
      (auto simp: from_be_bytes16_def bit_or_iff bit_push_bit_iff bit_ucast_iff
        dest: bit_imp_le_length)
  ultimately show ?thesis
    using a bs by (auto simp: diag_from_bytes_def diag_to_bytes_def to_be_bytes16_def)
qed

lemma diag_table_distinct: "distinct (map fst diag_table)"
  by (simp add: diag_table_def diag_const_defs)

lemma known_description_table:
  "(d, s) \<in> set diag_table \<Longrightarrow> known_description d = Some s"
  using diag_table_distinct by (simp add: known_description_def)

end
