(* ===== verification/Pi.thy ===== *)
theory Pi
  imports Prelude
begin

text \<open>
  The parameter catalogue, \<^verbatim>\<open>crates/pesit-core/src/pi.rs\<close>: parameter identifiers (PI) with their
  wire code, value kind, maximum length and label, as the table of the macro \<^verbatim>\<open>define_pi!\<close>
  (\<open>pi_row\<close>), and the parameter groups (PGI) with their members.
\<close>

section \<open>Definitions\<close>

datatype value_kind = Text | Number | Symbol | Mask | DateTime | Aggregate

datatype (plugins only: code size) pi =
    Pi_Crc | Pi_Diag | Pi_Requester | Pi_Server | Pi_AccessControl | Pi_Version |
    Pi_SyncOption | Pi_FileType | Pi_FileName | Pi_TransferId | Pi_RequestedAttributes |
    Pi_Restarted | Pi_DataCode | Pi_Priority | Pi_RestartPoint | Pi_EndCode | Pi_SyncNumber |
    Pi_Compression | Pi_AccessType | Pi_Resync | Pi_MaxEntitySize | Pi_Timeout | Pi_ByteCount |
    Pi_ArticleCount | Pi_DiagComplement | Pi_ArticleFormat | Pi_ArticleLength |
    Pi_FileOrganisation | Pi_SignatureFlag | Pi_SitSeal | Pi_FileLabel | Pi_KeyLength |
    Pi_KeyOffset | Pi_ReservationUnit | Pi_MaxReservation | Pi_CreationDate |
    Pi_ExtractionDate | Pi_ClientId | Pi_BankId | Pi_FileAccessControl | Pi_ServerDate |
    Pi_AuthType | Pi_AuthElements | Pi_SealType | Pi_SealElements | Pi_CipherType |
    Pi_CipherElements | Pi_SignatureType | Pi_Seal | Pi_Signature | Pi_Accreditation |
    Pi_SignatureAck | Pi_SecondSignature | Pi_SecondAccreditation | Pi_Message | Pi_FreeMessage

definition pi_row :: "pi \<Rightarrow> u8 \<times> value_kind \<times> usize \<times> string" where
  "pi_row p = (case p of
     Pi_Crc \<Rightarrow> (1, Symbol, 1, ''CRC usage'')
   | Pi_Diag \<Rightarrow> (2, Aggregate, 3, ''Diagnostic'')
   | Pi_Requester \<Rightarrow> (3, Text, 24, ''Requester identification'')
   | Pi_Server \<Rightarrow> (4, Text, 24, ''Server identification'')
   | Pi_AccessControl \<Rightarrow> (5, Text, 16, ''Access control (password)'')
   | Pi_Version \<Rightarrow> (6, Number, 2, ''Protocol version'')
   | Pi_SyncOption \<Rightarrow> (7, Aggregate, 3, ''Synchronisation points option'')
   | Pi_FileType \<Rightarrow> (11, Number, 8, ''File type'')
   | Pi_FileName \<Rightarrow> (12, Text, 76, ''File name'')
   | Pi_TransferId \<Rightarrow> (13, Number, 3, ''Transfer identifier'')
   | Pi_RequestedAttributes \<Rightarrow> (14, Mask, 1, ''Requested attributes'')
   | Pi_Restarted \<Rightarrow> (15, Symbol, 1, ''Transfer restarted'')
   | Pi_DataCode \<Rightarrow> (16, Symbol, 1, ''Data code'')
   | Pi_Priority \<Rightarrow> (17, Symbol, 1, ''Transfer priority'')
   | Pi_RestartPoint \<Rightarrow> (18, Number, 3, ''Restart point'')
   | Pi_EndCode \<Rightarrow> (19, Symbol, 1, ''End of transfer code'')
   | Pi_SyncNumber \<Rightarrow> (20, Number, 3, ''Synchronisation point number'')
   | Pi_Compression \<Rightarrow> (21, Aggregate, 2, ''Compression'')
   | Pi_AccessType \<Rightarrow> (22, Symbol, 1, ''Access type'')
   | Pi_Resync \<Rightarrow> (23, Symbol, 1, ''Resynchronisation'')
   | Pi_MaxEntitySize \<Rightarrow> (25, Number, 2, ''Maximum data entity size'')
   | Pi_Timeout \<Rightarrow> (26, Number, 2, ''Watchdog timer'')
   | Pi_ByteCount \<Rightarrow> (27, Number, 8, ''Number of data bytes'')
   | Pi_ArticleCount \<Rightarrow> (28, Number, 4, ''Number of articles'')
   | Pi_DiagComplement \<Rightarrow> (29, Aggregate, 254, ''Diagnostic complement'')
   | Pi_ArticleFormat \<Rightarrow> (31, Mask, 1, ''Article format'')
   | Pi_ArticleLength \<Rightarrow> (32, Number, 2, ''Article length'')
   | Pi_FileOrganisation \<Rightarrow> (33, Symbol, 1, ''File organisation'')
   | Pi_SignatureFlag \<Rightarrow> (34, Number, 2, ''Signature taken into account'')
   | Pi_SitSeal \<Rightarrow> (36, Number, 64, ''SIT seal'')
   | Pi_FileLabel \<Rightarrow> (37, Text, 80, ''File label'')
   | Pi_KeyLength \<Rightarrow> (38, Number, 2, ''Key length'')
   | Pi_KeyOffset \<Rightarrow> (39, Number, 2, ''Key offset'')
   | Pi_ReservationUnit \<Rightarrow> (41, Symbol, 1, ''Space reservation unit'')
   | Pi_MaxReservation \<Rightarrow> (42, Number, 4, ''Maximum space reservation'')
   | Pi_CreationDate \<Rightarrow> (51, DateTime, 12, ''Creation date and time'')
   | Pi_ExtractionDate \<Rightarrow> (52, DateTime, 12, ''Last extraction date and time'')
   | Pi_ClientId \<Rightarrow> (61, Text, 24, ''Client identifier'')
   | Pi_BankId \<Rightarrow> (62, Text, 24, ''Bank identifier'')
   | Pi_FileAccessControl \<Rightarrow> (63, Text, 16, ''File access control'')
   | Pi_ServerDate \<Rightarrow> (64, DateTime, 12, ''Server date and time'')
   | Pi_AuthType \<Rightarrow> (71, Aggregate, 3, ''Authentication type'')
   | Pi_AuthElements \<Rightarrow> (72, Number, 0, ''Authentication elements'')
   | Pi_SealType \<Rightarrow> (73, Aggregate, 4, ''Sealing type'')
   | Pi_SealElements \<Rightarrow> (74, Number, 0, ''Sealing elements'')
   | Pi_CipherType \<Rightarrow> (75, Aggregate, 4, ''Encryption type'')
   | Pi_CipherElements \<Rightarrow> (76, Number, 0, ''Encryption elements'')
   | Pi_SignatureType \<Rightarrow> (77, Aggregate, 4, ''Signature type'')
   | Pi_Seal \<Rightarrow> (78, Number, 0, ''Seal'')
   | Pi_Signature \<Rightarrow> (79, Number, 0, ''Signature'')
   | Pi_Accreditation \<Rightarrow> (80, Number, 0, ''Accreditation'')
   | Pi_SignatureAck \<Rightarrow> (81, Number, 0, ''Signature acknowledgement'')
   | Pi_SecondSignature \<Rightarrow> (82, Number, 0, ''Second signature'')
   | Pi_SecondAccreditation \<Rightarrow> (83, Number, 0, ''Second accreditation'')
   | Pi_Message \<Rightarrow> (91, Text, 4096, ''Message'')
   | Pi_FreeMessage \<Rightarrow> (99, Text, 254, ''Free message''))"

definition pi_ALL :: "pi list" where
  "pi_ALL = [
     Pi_Crc, Pi_Diag, Pi_Requester, Pi_Server, Pi_AccessControl, Pi_Version, Pi_SyncOption,
     Pi_FileType, Pi_FileName, Pi_TransferId, Pi_RequestedAttributes, Pi_Restarted,
     Pi_DataCode, Pi_Priority, Pi_RestartPoint, Pi_EndCode, Pi_SyncNumber, Pi_Compression,
     Pi_AccessType, Pi_Resync, Pi_MaxEntitySize, Pi_Timeout, Pi_ByteCount, Pi_ArticleCount,
     Pi_DiagComplement, Pi_ArticleFormat, Pi_ArticleLength, Pi_FileOrganisation,
     Pi_SignatureFlag, Pi_SitSeal, Pi_FileLabel, Pi_KeyLength, Pi_KeyOffset,
     Pi_ReservationUnit, Pi_MaxReservation, Pi_CreationDate, Pi_ExtractionDate, Pi_ClientId,
     Pi_BankId, Pi_FileAccessControl, Pi_ServerDate, Pi_AuthType, Pi_AuthElements, Pi_SealType,
     Pi_SealElements, Pi_CipherType, Pi_CipherElements, Pi_SignatureType, Pi_Seal,
     Pi_Signature, Pi_Accreditation, Pi_SignatureAck, Pi_SecondSignature,
     Pi_SecondAccreditation, Pi_Message, Pi_FreeMessage]"

definition pi_code :: "pi \<Rightarrow> u8" where
  "pi_code p = fst (pi_row p)"

definition pi_from_code :: "u8 \<Rightarrow> pi option" where
  "pi_from_code c = find (\<lambda>p. pi_code p = c) pi_ALL"

definition pi_kind :: "pi \<Rightarrow> value_kind" where
  "pi_kind p = fst (snd (pi_row p))"

definition pi_max_len :: "pi \<Rightarrow> usize" where
  "pi_max_len p = fst (snd (snd (pi_row p)))"

definition pi_name :: "pi \<Rightarrow> string" where
  "pi_name p = snd (snd (snd (pi_row p)))"

datatype pgi =
  Pgi_FileId | Pgi_LogicalAttributes | Pgi_PhysicalAttributes | Pgi_HistoricalAttributes

definition pgi_ALL :: "pgi list" where
  "pgi_ALL = [Pgi_FileId, Pgi_LogicalAttributes, Pgi_PhysicalAttributes, Pgi_HistoricalAttributes]"

definition pgi_from_code :: "u8 \<Rightarrow> pgi option" where
  "pgi_from_code c =
     (if c = 9 then Some Pgi_FileId
      else if c = 30 then Some Pgi_LogicalAttributes
      else if c = 40 then Some Pgi_PhysicalAttributes
      else if c = 50 then Some Pgi_HistoricalAttributes
      else None)"

fun pgi_code :: "pgi \<Rightarrow> u8" where
  "pgi_code Pgi_FileId = 9"
| "pgi_code Pgi_LogicalAttributes = 30"
| "pgi_code Pgi_PhysicalAttributes = 40"
| "pgi_code Pgi_HistoricalAttributes = 50"

fun pgi_name :: "pgi \<Rightarrow> string" where
  "pgi_name Pgi_FileId = ''File identifier''"
| "pgi_name Pgi_LogicalAttributes = ''Logical attributes''"
| "pgi_name Pgi_PhysicalAttributes = ''Physical attributes''"
| "pgi_name Pgi_HistoricalAttributes = ''Historical attributes''"

fun pgi_members :: "pgi \<Rightarrow> (pi \<times> bool) list" where
  "pgi_members Pgi_FileId =
     [(Pi_Requester, False), (Pi_Server, False), (Pi_FileType, True), (Pi_FileName, True)]"
| "pgi_members Pgi_LogicalAttributes =
     [(Pi_ArticleFormat, False), (Pi_ArticleLength, True), (Pi_FileOrganisation, False),
      (Pi_SignatureFlag, False), (Pi_SitSeal, False), (Pi_FileLabel, False),
      (Pi_KeyLength, False), (Pi_KeyOffset, False)]"
| "pgi_members Pgi_PhysicalAttributes = [(Pi_ReservationUnit, False), (Pi_MaxReservation, True)]"
| "pgi_members Pgi_HistoricalAttributes = [(Pi_CreationDate, True), (Pi_ExtractionDate, False)]"

definition pgi_contains :: "pgi \<Rightarrow> pi \<Rightarrow> bool" where
  "pgi_contains g p \<longleftrightarrow> list_ex (\<lambda>(m, _). m = p) (pgi_members g)"

definition pgi_of :: "pi \<Rightarrow> pgi option" where
  "pgi_of p = find (\<lambda>g. pgi_contains g p) pgi_ALL"

section \<open>The catalogue is well formed\<close>

lemma pi_ALL_complete: "p \<in> set pi_ALL"
  by (cases p) (simp_all add: pi_ALL_def)

lemma pi_ALL_ascending: "sorted_wrt (<) (map pi_code pi_ALL)"
  by (simp add: pi_ALL_def pi_code_def pi_row_def)

lemma pi_codes_distinct: "distinct (map pi_code pi_ALL)"
  using pi_ALL_ascending by (simp add: strict_sorted_iff)

interpretation pi_wire: wire_code pi_code pi_from_code
  unfolding pi_from_code_def
  by (rule wire_code_table [OF pi_ALL_complete pi_codes_distinct])

interpretation pgi_wire: wire_code pgi_code pgi_from_code
proof
  fix g show "pgi_from_code (pgi_code g) = Some g"
    by (cases g) (simp_all add: pgi_from_code_def)
next
  fix c g show "pgi_from_code c = Some g \<Longrightarrow> pgi_code g = c"
    by (auto simp: pgi_from_code_def split: if_splits)
qed

lemma pi_code_nonzero: "pi_code p \<noteq> 0"
  by (cases p) (simp_all add: pi_code_def pi_row_def)

lemma pgi_code_nonzero: "pgi_code g \<noteq> 0"
  by (cases g) simp_all

lemma pi_code_not_pgi_code: "pi_code p \<noteq> pgi_code g"
  by (cases g; cases p) (simp_all add: pi_code_def pi_row_def)

lemma pgi_from_code_pi_code [simp]: "pgi_from_code (pi_code p) = None"
  using pi_code_not_pgi_code by (simp add: pgi_wire.from_code_None_iff image_iff)

lemma pi_from_code_pgi_code [simp]: "pi_from_code (pgi_code g) = None"
  using pi_code_not_pgi_code by (metis not_None_eq pi_wire.code_from_code)

lemmas wire_codes [simp] = pi_wire.from_code_code pgi_wire.from_code_code
  pi_wire.code_inj pgi_wire.code_inj

lemma pgi_members_ascending: "sorted_wrt (<) (map (pi_code \<circ> fst) (pgi_members g))"
  by (cases g) (simp_all add: pi_code_def pi_row_def)

lemma pgi_has_mandatory_member: "\<exists>p. (p, True) \<in> set (pgi_members g)"
  by (cases g) auto

lemma pgi_contains_iff: "pgi_contains g p \<longleftrightarrow> p \<in> fst ` set (pgi_members g)"
  by (force simp: pgi_contains_def list_ex_iff)

lemma pgi_contains_unique: "pgi_contains g p \<Longrightarrow> pgi_contains h p \<Longrightarrow> g = h"
  by (cases g; cases h) (auto simp: pgi_contains_iff)

lemma pgi_of_eq_Some: "pgi_of p = Some g \<longleftrightarrow> pgi_contains g p"
proof
  assume "pgi_of p = Some g"
  then show "pgi_contains g p" unfolding pgi_of_def by (auto dest: find_eq_SomeD)
next
  assume g: "pgi_contains g p"
  have "g \<in> set pgi_ALL" by (cases g) (simp_all add: pgi_ALL_def)
  with g obtain h where "pgi_of p = Some h" unfolding pgi_of_def
    by (metis find_None_iff not_None_eq)
  moreover from this have "pgi_contains h p" unfolding pgi_of_def by (auto dest: find_eq_SomeD)
  ultimately show "pgi_of p = Some g" using g pgi_contains_unique by blast
qed

end
