(* ===== verification/Fpdu_Kind.thy ===== *)
theory Fpdu_Kind
  imports Pi
begin

text \<open>
  FPDU kinds and their parameter templates, the first part of
  \<^verbatim>\<open>crates/pesit-core/src/fpdu.rs\<close>: the table of the macro \<^verbatim>\<open>define_kinds!\<close> (phase byte, type
  byte and name of each kind, constructors prefixed \<open>K_\<close>), the classification predicates, and
  for each kind the list of allowed top-level parameter codes with their mandatory flag.
\<close>

section \<open>Definitions\<close>

definition HEADER_LEN :: usize where
  "HEADER_LEN = 6"

definition MAX_FPDU_LEN :: usize where
  "MAX_FPDU_LEN = 0xFFFF"

datatype (plugins only: code size) fpdu_kind =
    K_Connect | K_Aconnect | K_Rconnect | K_Release | K_Relconf | K_Abort | K_Read | K_Write |
    K_Syn | K_DtfEnd | K_Resyn | K_Idt | K_TransEnd | K_Create | K_Select | K_Deselect |
    K_Orf | K_Crf | K_Msg | K_MsgDm | K_MsgMm | K_MsgFm | K_AckCreate | K_AckSelect |
    K_AckDeselect | K_AckOrf | K_AckCrf | K_AckRead | K_AckWrite | K_AckTransEnd | K_AckSyn |
    K_AckResyn | K_AckIdt | K_AckMsg | K_Dtf | K_DtfMa | K_DtfDa | K_DtfFa

definition kind_row :: "fpdu_kind \<Rightarrow> u8 \<times> u8 \<times> string" where
  "kind_row k = (case k of
     K_Connect \<Rightarrow> (0x40, 0x20, ''FPDU.CONNECT'')
   | K_Aconnect \<Rightarrow> (0x40, 0x21, ''FPDU.ACONNECT'')
   | K_Rconnect \<Rightarrow> (0x40, 0x22, ''FPDU.RCONNECT'')
   | K_Release \<Rightarrow> (0x40, 0x23, ''FPDU.RELEASE'')
   | K_Relconf \<Rightarrow> (0x40, 0x24, ''FPDU.RELCONF'')
   | K_Abort \<Rightarrow> (0x40, 0x25, ''FPDU.ABORT'')
   | K_Read \<Rightarrow> (0xC0, 0x01, ''FPDU.READ'')
   | K_Write \<Rightarrow> (0xC0, 0x02, ''FPDU.WRITE'')
   | K_Syn \<Rightarrow> (0xC0, 0x03, ''FPDU.SYN'')
   | K_DtfEnd \<Rightarrow> (0xC0, 0x04, ''FPDU.DTF.END'')
   | K_Resyn \<Rightarrow> (0xC0, 0x05, ''FPDU.RESYN'')
   | K_Idt \<Rightarrow> (0xC0, 0x06, ''FPDU.IDT'')
   | K_TransEnd \<Rightarrow> (0xC0, 0x08, ''FPDU.TRANS.END'')
   | K_Create \<Rightarrow> (0xC0, 0x11, ''FPDU.CREATE'')
   | K_Select \<Rightarrow> (0xC0, 0x12, ''FPDU.SELECT'')
   | K_Deselect \<Rightarrow> (0xC0, 0x13, ''FPDU.DESELECT'')
   | K_Orf \<Rightarrow> (0xC0, 0x14, ''FPDU.ORF'')
   | K_Crf \<Rightarrow> (0xC0, 0x15, ''FPDU.CRF'')
   | K_Msg \<Rightarrow> (0xC0, 0x16, ''FPDU.MSG'')
   | K_MsgDm \<Rightarrow> (0xC0, 0x17, ''FPDU.MSGDM'')
   | K_MsgMm \<Rightarrow> (0xC0, 0x18, ''FPDU.MSGMM'')
   | K_MsgFm \<Rightarrow> (0xC0, 0x19, ''FPDU.MSGFM'')
   | K_AckCreate \<Rightarrow> (0xC0, 0x30, ''FPDU.ACK(CREATE)'')
   | K_AckSelect \<Rightarrow> (0xC0, 0x31, ''FPDU.ACK(SELECT)'')
   | K_AckDeselect \<Rightarrow> (0xC0, 0x32, ''FPDU.ACK(DESELECT)'')
   | K_AckOrf \<Rightarrow> (0xC0, 0x33, ''FPDU.ACK(ORF)'')
   | K_AckCrf \<Rightarrow> (0xC0, 0x34, ''FPDU.ACK(CRF)'')
   | K_AckRead \<Rightarrow> (0xC0, 0x35, ''FPDU.ACK(READ)'')
   | K_AckWrite \<Rightarrow> (0xC0, 0x36, ''FPDU.ACK(WRITE)'')
   | K_AckTransEnd \<Rightarrow> (0xC0, 0x37, ''FPDU.ACK(TRANS.END)'')
   | K_AckSyn \<Rightarrow> (0xC0, 0x38, ''FPDU.ACK(SYN)'')
   | K_AckResyn \<Rightarrow> (0xC0, 0x39, ''FPDU.ACK(RESYN)'')
   | K_AckIdt \<Rightarrow> (0xC0, 0x3A, ''FPDU.ACK(IDT)'')
   | K_AckMsg \<Rightarrow> (0xC0, 0x3B, ''FPDU.ACK(MSG)'')
   | K_Dtf \<Rightarrow> (0x00, 0x00, ''FPDU.DTF'')
   | K_DtfMa \<Rightarrow> (0x00, 0x40, ''FPDU.DTFMA'')
   | K_DtfDa \<Rightarrow> (0x00, 0x41, ''FPDU.DTFDA'')
   | K_DtfFa \<Rightarrow> (0x00, 0x42, ''FPDU.DTFFA''))"

definition kind_ALL :: "fpdu_kind list" where
  "kind_ALL = [
     K_Connect, K_Aconnect, K_Rconnect, K_Release, K_Relconf, K_Abort, K_Read, K_Write, K_Syn,
     K_DtfEnd, K_Resyn, K_Idt, K_TransEnd, K_Create, K_Select, K_Deselect, K_Orf, K_Crf, K_Msg,
     K_MsgDm, K_MsgMm, K_MsgFm, K_AckCreate, K_AckSelect, K_AckDeselect, K_AckOrf, K_AckCrf,
     K_AckRead, K_AckWrite, K_AckTransEnd, K_AckSyn, K_AckResyn, K_AckIdt, K_AckMsg, K_Dtf,
     K_DtfMa, K_DtfDa, K_DtfFa]"

definition kind_phase :: "fpdu_kind \<Rightarrow> u8" where
  "kind_phase k = fst (kind_row k)"

definition kind_type_code :: "fpdu_kind \<Rightarrow> u8" where
  "kind_type_code k = fst (snd (kind_row k))"

definition kind_name :: "fpdu_kind \<Rightarrow> string" where
  "kind_name k = snd (snd (kind_row k))"

definition kind_from_codes :: "u8 \<Rightarrow> u8 \<Rightarrow> fpdu_kind option" where
  "kind_from_codes ph ty = find (\<lambda>k. (kind_phase k, kind_type_code k) = (ph, ty)) kind_ALL"

definition is_data :: "fpdu_kind \<Rightarrow> bool" where
  "is_data k \<longleftrightarrow> k \<in> {K_Dtf, K_DtfDa, K_DtfMa, K_DtfFa}"

definition kind_ack :: "fpdu_kind \<Rightarrow> fpdu_kind option" where
  "kind_ack k = (case k of
     K_Connect \<Rightarrow> Some K_Aconnect
   | K_Release \<Rightarrow> Some K_Relconf
   | K_Create \<Rightarrow> Some K_AckCreate
   | K_Select \<Rightarrow> Some K_AckSelect
   | K_Deselect \<Rightarrow> Some K_AckDeselect
   | K_Orf \<Rightarrow> Some K_AckOrf
   | K_Crf \<Rightarrow> Some K_AckCrf
   | K_Read \<Rightarrow> Some K_AckRead
   | K_Write \<Rightarrow> Some K_AckWrite
   | K_TransEnd \<Rightarrow> Some K_AckTransEnd
   | K_Syn \<Rightarrow> Some K_AckSyn
   | K_Resyn \<Rightarrow> Some K_AckResyn
   | K_Idt \<Rightarrow> Some K_AckIdt
   | K_Msg \<Rightarrow> Some K_AckMsg
   | K_MsgFm \<Rightarrow> Some K_AckMsg
   | _ \<Rightarrow> None)"

definition is_ack :: "fpdu_kind \<Rightarrow> bool" where
  "is_ack k \<longleftrightarrow> k \<in> {K_Aconnect, K_Rconnect, K_Relconf, K_AckCreate, K_AckSelect, K_AckDeselect,
     K_AckOrf, K_AckCrf, K_AckRead, K_AckWrite, K_AckTransEnd, K_AckSyn, K_AckResyn, K_AckIdt,
     K_AckMsg}"

definition concatenable :: "fpdu_kind \<Rightarrow> bool" where
  "concatenable k \<longleftrightarrow> k \<in> {K_Dtf, K_DtfDa, K_DtfMa, K_DtfFa, K_DtfEnd, K_Syn}"

record param_rule =
  rule_code :: u8
  rule_mandatory :: bool

definition rule_m :: "u8 \<Rightarrow> param_rule" where
  "rule_m c = \<lparr>rule_code = c, rule_mandatory = True\<rparr>"

definition rule_o :: "u8 \<Rightarrow> param_rule" where
  "rule_o c = \<lparr>rule_code = c, rule_mandatory = False\<rparr>"

definition T_CONNECT :: "param_rule list" where
  "T_CONNECT = [
     rule_o 1, rule_m 3, rule_m 4, rule_o 5, rule_m 6, rule_o 7, rule_m 22, rule_o 23,
     rule_o 26, rule_o 99]"

definition T_ACONNECT :: "param_rule list" where
  "T_ACONNECT = [
     rule_o 5, rule_m 6, rule_o 7, rule_o 23, rule_o 99]"

definition T_DIAG_ONLY :: "param_rule list" where
  "T_DIAG_ONLY = [
     rule_m 2, rule_o 29]"

definition T_DIAG_MSG :: "param_rule list" where
  "T_DIAG_MSG = [
     rule_m 2, rule_o 29, rule_o 99]"

definition T_RELCONF :: "param_rule list" where
  "T_RELCONF = [
     rule_o 99]"

definition T_CREATE :: "param_rule list" where
  "T_CREATE = [
     rule_m 9, rule_m 13, rule_o 15, rule_o 16, rule_m 17, rule_m 25, rule_m 30, rule_m 40,
     rule_o 50, rule_o 61, rule_o 62, rule_o 63, rule_o 71, rule_o 72, rule_o 73, rule_o 75,
     rule_o 77, rule_o 80, rule_o 99]"

definition T_ACK_CREATE :: "param_rule list" where
  "T_ACK_CREATE = [
     rule_m 2, rule_o 13, rule_o 25, rule_o 29, rule_o 64, rule_o 72, rule_o 80, rule_o 83,
     rule_o 99]"

definition T_SELECT :: "param_rule list" where
  "T_SELECT = [
     rule_m 9, rule_m 13, rule_o 14, rule_o 15, rule_m 17, rule_m 25, rule_o 61, rule_o 62,
     rule_o 63, rule_o 71, rule_o 72, rule_o 73, rule_o 75, rule_o 77, rule_o 80, rule_o 99]"

definition T_ACK_SELECT :: "param_rule list" where
  "T_ACK_SELECT = [
     rule_m 2, rule_o 9, rule_o 13, rule_o 16, rule_o 25, rule_o 29, rule_o 30, rule_o 40,
     rule_o 50, rule_o 61, rule_o 62, rule_o 64, rule_o 72, rule_o 80, rule_o 83, rule_o 99]"

definition T_ORF :: "param_rule list" where
  "T_ORF = [
     rule_o 21, rule_o 72, rule_o 74, rule_o 76, rule_o 80, rule_o 83]"

definition T_ACK_ORF :: "param_rule list" where
  "T_ACK_ORF = [
     rule_m 2, rule_o 21, rule_o 29, rule_o 74, rule_o 76]"

definition T_READ :: "param_rule list" where
  "T_READ = [
     rule_m 18]"

definition T_ACK_WRITE :: "param_rule list" where
  "T_ACK_WRITE = [
     rule_m 2, rule_m 18, rule_o 29]"

definition T_DTF_END :: "param_rule list" where
  "T_DTF_END = [
     rule_m 2, rule_o 29, rule_o 78, rule_o 79, rule_o 82]"

definition T_SYN :: "param_rule list" where
  "T_SYN = [
     rule_m 20, rule_o 78]"

definition T_ACK_SYN :: "param_rule list" where
  "T_ACK_SYN = [
     rule_m 20]"

definition T_RESYN :: "param_rule list" where
  "T_RESYN = [
     rule_m 2, rule_m 18, rule_o 29]"

definition T_ACK_RESYN :: "param_rule list" where
  "T_ACK_RESYN = [
     rule_m 18]"

definition T_IDT :: "param_rule list" where
  "T_IDT = [
     rule_m 2, rule_o 19, rule_o 29]"

definition T_TRANS_END :: "param_rule list" where
  "T_TRANS_END = [
     rule_o 27, rule_o 28, rule_o 81]"

definition T_ACK_TRANS_END :: "param_rule list" where
  "T_ACK_TRANS_END = [
     rule_m 2, rule_o 27, rule_o 28, rule_o 29, rule_o 81]"

definition T_MSG :: "param_rule list" where
  "T_MSG = [
     rule_m 9, rule_m 13, rule_o 14, rule_o 16, rule_m 17, rule_o 30, rule_o 40, rule_o 50,
     rule_o 61, rule_o 62, rule_o 73, rule_o 74, rule_o 77, rule_o 78, rule_o 79, rule_o 80,
     rule_o 81, rule_o 91]"

definition T_MSG_SEGMENT :: "param_rule list" where
  "T_MSG_SEGMENT = [
     rule_o 91]"

definition T_ACK_MSG :: "param_rule list" where
  "T_ACK_MSG = [
     rule_m 2, rule_o 13, rule_o 16, rule_o 29, rule_o 79, rule_o 80, rule_o 81, rule_o 91]"

definition T_NONE :: "param_rule list" where
  "T_NONE = []"

lemmas template_defs =
  T_CONNECT_def T_ACONNECT_def T_DIAG_ONLY_def T_DIAG_MSG_def T_RELCONF_def
  T_CREATE_def T_ACK_CREATE_def T_SELECT_def T_ACK_SELECT_def T_ORF_def
  T_ACK_ORF_def T_READ_def T_ACK_WRITE_def T_DTF_END_def T_SYN_def
  T_ACK_SYN_def T_RESYN_def T_ACK_RESYN_def T_IDT_def T_TRANS_END_def
  T_ACK_TRANS_END_def T_MSG_def T_MSG_SEGMENT_def T_ACK_MSG_def T_NONE_def

definition kind_template :: "fpdu_kind \<Rightarrow> param_rule list" where
  "kind_template k = (case k of
     K_Connect \<Rightarrow> T_CONNECT
   | K_Aconnect \<Rightarrow> T_ACONNECT
   | K_Rconnect \<Rightarrow> T_DIAG_MSG
   | K_Release \<Rightarrow> T_DIAG_MSG
   | K_Deselect \<Rightarrow> T_DIAG_MSG
   | K_AckDeselect \<Rightarrow> T_DIAG_MSG
   | K_Relconf \<Rightarrow> T_RELCONF
   | K_Abort \<Rightarrow> T_DIAG_ONLY
   | K_Crf \<Rightarrow> T_DIAG_ONLY
   | K_AckCrf \<Rightarrow> T_DIAG_ONLY
   | K_AckRead \<Rightarrow> T_DIAG_ONLY
   | K_Create \<Rightarrow> T_CREATE
   | K_AckCreate \<Rightarrow> T_ACK_CREATE
   | K_Select \<Rightarrow> T_SELECT
   | K_AckSelect \<Rightarrow> T_ACK_SELECT
   | K_Orf \<Rightarrow> T_ORF
   | K_AckOrf \<Rightarrow> T_ACK_ORF
   | K_Read \<Rightarrow> T_READ
   | K_Write \<Rightarrow> T_NONE
   | K_AckIdt \<Rightarrow> T_NONE
   | K_Dtf \<Rightarrow> T_NONE
   | K_DtfDa \<Rightarrow> T_NONE
   | K_DtfMa \<Rightarrow> T_NONE
   | K_DtfFa \<Rightarrow> T_NONE
   | K_AckWrite \<Rightarrow> T_ACK_WRITE
   | K_DtfEnd \<Rightarrow> T_DTF_END
   | K_Syn \<Rightarrow> T_SYN
   | K_AckSyn \<Rightarrow> T_ACK_SYN
   | K_Resyn \<Rightarrow> T_RESYN
   | K_AckResyn \<Rightarrow> T_ACK_RESYN
   | K_Idt \<Rightarrow> T_IDT
   | K_TransEnd \<Rightarrow> T_TRANS_END
   | K_AckTransEnd \<Rightarrow> T_ACK_TRANS_END
   | K_Msg \<Rightarrow> T_MSG
   | K_MsgDm \<Rightarrow> T_MSG
   | K_MsgMm \<Rightarrow> T_MSG_SEGMENT
   | K_MsgFm \<Rightarrow> T_MSG_SEGMENT
   | K_AckMsg \<Rightarrow> T_ACK_MSG)"

section \<open>The kind table is well formed\<close>

lemma rule_simps [simp]:
  "rule_code (rule_m c) = c" "rule_mandatory (rule_m c)"
  "rule_code (rule_o c) = c" "\<not> rule_mandatory (rule_o c)"
  by (simp_all add: rule_m_def rule_o_def)

lemma kind_ALL_complete: "k \<in> set kind_ALL"
  by (cases k) (simp_all add: kind_ALL_def)

lemma kind_codes_distinct: "distinct (map (\<lambda>k. (kind_phase k, kind_type_code k)) kind_ALL)"
  by (simp add: kind_ALL_def kind_phase_def kind_type_code_def kind_row_def)

interpretation kind_wire: wire_code "\<lambda>k. (kind_phase k, kind_type_code k)"
  "\<lambda>(ph, ty). kind_from_codes ph ty"
proof -
  have "(\<lambda>(ph, ty). kind_from_codes ph ty) =
      (\<lambda>c. find (\<lambda>k. (kind_phase k, kind_type_code k) = c) kind_ALL)"
    by (auto simp: kind_from_codes_def)
  then show "wire_code (\<lambda>k. (kind_phase k, kind_type_code k)) (\<lambda>(ph, ty). kind_from_codes ph ty)"
    using wire_code_table [OF kind_ALL_complete kind_codes_distinct] by simp
qed

lemma kind_from_codes_iff:
  "kind_from_codes ph ty = Some k \<longleftrightarrow> ph = kind_phase k \<and> ty = kind_type_code k"
  using kind_wire.from_code_iff [of "(ph, ty)" k] by auto

lemma kind_from_codes_self [simp]: "kind_from_codes (kind_phase k) (kind_type_code k) = Some k"
  by (simp add: kind_from_codes_iff)

lemma template_ascending: "sorted_wrt (<) (map rule_code (kind_template k))"
  by (cases k) (simp_all add: kind_template_def template_defs)

lemma template_known:
  "r \<in> set (kind_template k) \<Longrightarrow>
    pi_from_code (rule_code r) \<noteq> None \<or> pgi_from_code (rule_code r) \<noteq> None"
proof -
  have "list_all (\<lambda>r. rule_code r \<in> set (map pi_code pi_ALL) \<union> set (map pgi_code pgi_ALL))
      (kind_template k)"
    by (cases k) (simp_all add: kind_template_def template_defs pi_ALL_def pgi_ALL_def pi_code_def
        pi_row_def)
  moreover assume "r \<in> set (kind_template k)"
  ultimately have "rule_code r \<in> range pi_code \<union> range pgi_code"
    by (auto simp: list_all_iff)
  then show ?thesis
    by (auto simp: pi_wire.from_code_None_iff pgi_wire.from_code_None_iff)
qed

lemma kind_ack_is_ack: "kind_ack k = Some a \<Longrightarrow> is_ack a \<and> \<not> is_ack k"
  by (cases k) (auto simp: kind_ack_def is_ack_def)

lemma data_is_concatenable: "is_data k \<Longrightarrow> concatenable k"
  by (auto simp: is_data_def concatenable_def)

lemma template_data: "is_data k \<Longrightarrow> kind_template k = []"
  by (auto simp: is_data_def kind_template_def T_NONE_def)

end
