(* ===== verification/Fpdu.thy ===== *)
theory Fpdu
  imports Fpdu_Kind Diag
begin

text \<open>
  The FPDU structure with its encoder and decoder, the second part of
  \<^verbatim>\<open>crates/pesit-core/src/fpdu.rs\<close>. A decoding error keeps the diagnostic of the source and, in
  place of its formatted text, a constructor of \<open>decode_detail\<close> with the values the text
  mentions. The byte cursor of the decoding loops is the list of remaining bytes.
\<close>

section \<open>Text values\<close>

text \<open>\<^verbatim>\<open>char::is_whitespace\<close> (Unicode White_Space) and \<^verbatim>\<open>str::trim_end\<close> of the standard library.\<close>

definition is_whitespace :: "nat \<Rightarrow> bool" where
  "is_whitespace c \<longleftrightarrow> (9 \<le> c \<and> c \<le> 13) \<or> c = 32 \<or> c = 0x85 \<or> c = 0xA0 \<or> c = 0x1680 \<or>
     (0x2000 \<le> c \<and> c \<le> 0x200A) \<or> c = 0x2028 \<or> c = 0x2029 \<or> c = 0x202F \<or> c = 0x205F \<or> c = 0x3000"

definition trim_end :: "rstring \<Rightarrow> rstring" where
  "trim_end s = rev (dropWhile is_whitespace (rev s))"

definition latin1_byte :: "nat \<Rightarrow> u8" where
  "latin1_byte c = (if c < 256 then word_of_nat c else 63)"

definition text_to_bytes :: "rstring \<Rightarrow> bytes" where
  "text_to_bytes s = map latin1_byte (trim_end s)"

definition text_from_bytes :: "bytes \<Rightarrow> rstring" where
  "text_from_bytes v = trim_end (map unat v)"

section \<open>Numeric values\<close>

definition to_be_bytes64 :: "u64 \<Rightarrow> bytes" where
  "to_be_bytes64 w = map (\<lambda>i. ucast (drop_bit (8 * i) w)) [7, 6, 5, 4, 3, 2, 1, 0]"

fun position :: "('a \<Rightarrow> bool) \<Rightarrow> 'a list \<Rightarrow> nat option" where
  "position P [] = None"
| "position P (x # xs) = (if P x then Some 0 else map_option Suc (position P xs))"

definition encode_num :: "u64 \<Rightarrow> bytes" where
  "encode_num value =
     (let bs = to_be_bytes64 value;
          first = (case position (\<lambda>b. b \<noteq> 0) bs of Some i \<Rightarrow> i | None \<Rightarrow> 7)
      in drop first bs)"

definition decode_num :: "bytes \<Rightarrow> u64" where
  "decode_num bs = foldl (\<lambda>acc b. push_bit 8 acc OR ucast b) 0 bs"

section \<open>Parameters and FPDUs\<close>

datatype param =
    Param_Pi pi bytes
  | Param_Pgi pgi "(pi \<times> bytes) list"

fun param_code :: "param \<Rightarrow> u8" where
  "param_code (Param_Pi p _) = pi_code p"
| "param_code (Param_Pgi g _) = pgi_code g"

record fpdu =
  f_kind :: fpdu_kind
  id_dst :: u8
  id_src :: u8
  f_params :: "param list"
  f_data :: bytes

definition fpdu_new :: "fpdu_kind \<Rightarrow> fpdu" where
  "fpdu_new k = \<lparr>f_kind = k, id_dst = 0, id_src = 0, f_params = [], f_data = []\<rparr>"

definition fpdu_data :: "fpdu_kind \<Rightarrow> u8 \<Rightarrow> u8 \<Rightarrow> bytes \<Rightarrow> fpdu" where
  "fpdu_data k dst src d = \<lparr>f_kind = k, id_dst = dst, id_src = src, f_params = [], f_data = d\<rparr>"

definition with_ids :: "fpdu \<Rightarrow> u8 \<Rightarrow> u8 \<Rightarrow> fpdu" where
  "with_ids f dst src = f\<lparr>id_dst := dst, id_src := src\<rparr>"

text \<open>
  \<^verbatim>\<open>slice::binary_search_by_key\<close> of the standard library: the halving loop and the final
  comparison. \<open>Inr i\<close> is \<^verbatim>\<open>Ok(i)\<close> (found), \<open>Inl i\<close> is \<^verbatim>\<open>Err(i)\<close> (insertion point).
\<close>

function binary_search_loop :: "'k::linorder \<Rightarrow> ('a \<Rightarrow> 'k) \<Rightarrow> 'a list \<Rightarrow> nat \<Rightarrow> nat \<Rightarrow> nat" where
  "binary_search_loop k f xs base sz =
     (if sz \<le> 1 then base
      else let half = sz div 2; mid = base + half
           in binary_search_loop k f xs (if f (xs ! mid) > k then base else mid) (sz - half))"
  by pat_completeness auto
termination
  by (relation "measure (\<lambda>(k, f, xs, base, sz). sz)") auto

definition binary_search_by_key :: "'k::linorder \<Rightarrow> ('a \<Rightarrow> 'k) \<Rightarrow> 'a list \<Rightarrow> nat + nat" where
  "binary_search_by_key k f xs =
     (if xs = [] then Inl 0
      else let base = binary_search_loop k f xs 0 (length xs)
           in if f (xs ! base) = k then Inr base
              else Inl (base + (if f (xs ! base) < k then 1 else 0)))"

definition insert_param :: "param \<Rightarrow> param list \<Rightarrow> param list" where
  "insert_param p ps =
     (case binary_search_by_key (param_code p) param_code ps of
        Inr i \<Rightarrow> ps[i := p]
      | Inl i \<Rightarrow> take i ps @ p # drop i ps)"

definition fpdu_set :: "pi \<Rightarrow> bytes \<Rightarrow> fpdu \<Rightarrow> fpdu" where
  "fpdu_set p v f = f\<lparr>f_params := insert_param (Param_Pi p v) (f_params f)\<rparr>"

definition fpdu_set_num :: "pi \<Rightarrow> u64 \<Rightarrow> fpdu \<Rightarrow> fpdu" where
  "fpdu_set_num p n f = fpdu_set p (encode_num n) f"

definition fpdu_set_text :: "pi \<Rightarrow> rstring \<Rightarrow> fpdu \<Rightarrow> fpdu" where
  "fpdu_set_text p s f = fpdu_set p (text_to_bytes s) f"

definition fpdu_set_diag :: "diagnostic \<Rightarrow> fpdu \<Rightarrow> fpdu" where
  "fpdu_set_diag d f = fpdu_set Pi_Diag (diag_to_bytes d) f"

definition fpdu_set_pgi :: "pgi \<Rightarrow> (pi \<times> bytes) list \<Rightarrow> fpdu \<Rightarrow> fpdu" where
  "fpdu_set_pgi g items f =
     f\<lparr>f_params := insert_param (Param_Pgi g (sort_key (\<lambda>(p, _). pi_code p) items)) (f_params f)\<rparr>"

fun is_param_pi :: "pi \<Rightarrow> param \<Rightarrow> bool" where
  "is_param_pi p (Param_Pi q _) = (q = p)"
| "is_param_pi p (Param_Pgi _ _) = False"

definition fpdu_remove :: "pi \<Rightarrow> fpdu \<Rightarrow> bytes option \<times> fpdu" where
  "fpdu_remove p f =
     (case position (is_param_pi p) (f_params f) of
        None \<Rightarrow> (None, f)
      | Some i \<Rightarrow>
         ((case f_params f ! i of Param_Pi _ v \<Rightarrow> Some v | Param_Pgi _ _ \<Rightarrow> None),
          f\<lparr>f_params := take i (f_params f) @ drop (Suc i) (f_params f)\<rparr>))"

fun get_param :: "pi \<Rightarrow> param list \<Rightarrow> bytes option" where
  "get_param p [] = None"
| "get_param p (Param_Pi q v # ps) = (if q = p then Some v else get_param p ps)"
| "get_param p (Param_Pgi _ items # ps) =
     (case find (\<lambda>(q, _). q = p) items of
        Some (_, v) \<Rightarrow> Some v
      | None \<Rightarrow> get_param p ps)"

definition fpdu_get :: "fpdu \<Rightarrow> pi \<Rightarrow> bytes option" where
  "fpdu_get f p = get_param p (f_params f)"

definition fpdu_has :: "fpdu \<Rightarrow> pi \<Rightarrow> bool" where
  "fpdu_has f p \<longleftrightarrow> fpdu_get f p \<noteq> None"

fun find_pgi :: "pgi \<Rightarrow> param list \<Rightarrow> (pi \<times> bytes) list option" where
  "find_pgi g [] = None"
| "find_pgi g (Param_Pi _ _ # ps) = find_pgi g ps"
| "find_pgi g (Param_Pgi h items # ps) = (if h = g then Some items else find_pgi g ps)"

definition fpdu_pgi :: "fpdu \<Rightarrow> pgi \<Rightarrow> (pi \<times> bytes) list option" where
  "fpdu_pgi f g = find_pgi g (f_params f)"

definition fpdu_get_num :: "fpdu \<Rightarrow> pi \<Rightarrow> u64 option" where
  "fpdu_get_num f p = map_option decode_num (fpdu_get f p)"

definition fpdu_get_text :: "fpdu \<Rightarrow> pi \<Rightarrow> rstring option" where
  "fpdu_get_text f p = map_option text_from_bytes (fpdu_get f p)"

definition fpdu_diag :: "fpdu \<Rightarrow> diagnostic option" where
  "fpdu_diag f = Option.bind (fpdu_get f Pi_Diag) diag_from_bytes"

definition fpdu_is_negative :: "fpdu \<Rightarrow> bool" where
  "fpdu_is_negative f \<longleftrightarrow> is_ack (f_kind f) \<and>
     (case fpdu_diag f of None \<Rightarrow> False | Some d \<Rightarrow> \<not> diag_is_ok d)"

section \<open>Encoding\<close>

datatype encode_error = TooLong usize | EmptyValue u8

definition unit_len :: "usize \<Rightarrow> usize" where
  "unit_len value_len = 1 + (if value_len < 255 then 1 else 3) + value_len"

definition push_unit :: "bytes \<Rightarrow> u8 \<Rightarrow> bytes \<Rightarrow> bytes" where
  "push_unit out c value =
     (let out = out @ [c];
          out = (if length value < 255 then out @ [word_of_nat (length value)]
                 else out @ [0xFF] @ to_be_bytes16 (u16_of_usize (length value)))
      in out @ value)"

fun param_len :: "param \<Rightarrow> usize" where
  "param_len (Param_Pi _ value) = unit_len (length value)"
| "param_len (Param_Pgi _ items) = unit_len (sum_list (map (\<lambda>(_, v). unit_len (length v)) items))"

definition encoded_len :: "fpdu \<Rightarrow> usize" where
  "encoded_len f =
     (if is_data (f_kind f) then HEADER_LEN + length (f_data f)
      else HEADER_LEN + sum_list (map param_len (f_params f)))"

fun encode_items :: "bytes \<Rightarrow> (pi \<times> bytes) list \<Rightarrow> (encode_error, bytes) result" where
  "encode_items inner [] = Inr inner"
| "encode_items inner ((p, value) # items) =
     (if value = [] then Inl (EmptyValue (pi_code p))
      else encode_items (push_unit inner (pi_code p) value) items)"

text \<open>
  The encoder appends to a buffer it borrows: on an error the bytes written so far stay in the
  buffer, so the model returns the buffer with the result.
\<close>

fun encode_params :: "bytes \<Rightarrow> param list \<Rightarrow> bytes \<times> (encode_error, unit) result" where
  "encode_params out [] = (out, Inr ())"
| "encode_params out (Param_Pi p value # ps) =
     (if value = [] then (out, Inl (EmptyValue (pi_code p)))
      else encode_params (push_unit out (pi_code p) value) ps)"
| "encode_params out (Param_Pgi g items # ps) =
     (case encode_items [] items of
        Inl e \<Rightarrow> (out, Inl e)
      | Inr inner \<Rightarrow> encode_params (push_unit out (pgi_code g) inner) ps)"

definition encode_into :: "fpdu \<Rightarrow> bytes \<Rightarrow> bytes \<times> (encode_error, unit) result" where
  "encode_into f out =
     (let total = encoded_len f in
      if total > MAX_FPDU_LEN then (out, Inl (TooLong total))
      else
        let out = out @ to_be_bytes16 (u16_of_usize total)
                      @ [kind_phase (f_kind f), kind_type_code (f_kind f), id_dst f, id_src f]
        in if is_data (f_kind f) then (out @ f_data f, Inr ())
           else encode_params out (f_params f))"

definition encode :: "fpdu \<Rightarrow> (encode_error, bytes) result" where
  "encode f = (let (out, r) = encode_into f [] in and_then r (\<lambda>_. Inr out))"

section \<open>Decoding\<close>

datatype decode_detail =
    FpduTooShort usize
  | LengthMismatch usize usize
  | UnknownKind u8 u8
  | WrongOrder u8 u8
  | UnknownInGroup u8 pgi
  | NotAllowedInGroup pi pgi
  | OutOfOrderInGroup pi pgi
  | UnknownParameter u8
  | NotAllowed u8 fpdu_kind
  | ValueTooLong pi usize usize
  | MandatoryMissingInGroup pi pgi
  | MandatoryMissing u8 fpdu_kind
  | MissingLengthIndicator u8
  | TruncatedExtendedLength u8
  | ZeroLength u8
  | DeclaredLengthExceeds u8 usize usize
  | TrailingBytes usize
  | InvalidFpduLength usize usize usize
  | MissingCrc
  | CrcError
  | TruncatedArticleLength
  | ArticleLengthExceeds
  | ArticleCountMismatch u8 usize
  | CrcParameterMismatch

record decode_error =
  e_diag :: diagnostic
  e_detail :: decode_detail

definition err_param :: "decode_detail \<Rightarrow> decode_error" where
  "err_param d = \<lparr>e_diag = D_INVALID_PARAMETER, e_detail = d\<rparr>"

definition err_protocol :: "decode_detail \<Rightarrow> decode_error" where
  "err_protocol d = \<lparr>e_diag = D_REMOTE_PROTOCOL_ERROR, e_detail = d\<rparr>"

text \<open>
  \<open>read_unit c buf\<close> reads the unit whose code byte \<open>c\<close> the loop has just seen; \<open>buf\<close> are the
  bytes after it. It returns the value and the bytes after the unit.
\<close>

definition read_length :: "u8 \<Rightarrow> bytes \<Rightarrow> (decode_error, usize \<times> bytes) result" where
  "read_length c buf =
     (case buf of
        [] \<Rightarrow> Inl (err_param (MissingLengthIndicator c))
      | li # rest \<Rightarrow>
         (if li = 0xFF then
            (case rest of
               b0 # b1 # start \<Rightarrow> Inr (be_len b0 b1, start)
             | _ \<Rightarrow> Inl (err_param (TruncatedExtendedLength c)))
          else Inr (unat li, rest)))"

definition read_unit :: "u8 \<Rightarrow> bytes \<Rightarrow> (decode_error, bytes \<times> bytes) result" where
  "read_unit c buf =
     and_then (read_length c buf) (\<lambda>(len, start).
       if len = 0 then Inl (err_param (ZeroLength c))
       else if len > length start
            then Inl (err_param (DeclaredLengthExceeds c len (length start)))
       else Inr (take len start, drop len start))"

lemma read_unit_shorter:
  "read_unit c buf = Inr (value, rest) \<Longrightarrow> length rest < length buf"
  by (auto simp: read_unit_def read_length_def and_then_eq_Inr split: list.splits if_splits)

function (sequential) decode_items ::
    "bool \<Rightarrow> pgi \<Rightarrow> (pi \<times> bytes) list \<Rightarrow> u8 \<Rightarrow> bytes \<Rightarrow> (decode_error, (pi \<times> bytes) list) result" where
  "decode_items strict g items last_inner [] = Inr items"
| "decode_items strict g items last_inner (icode # buf) =
     and_then (read_unit icode buf) (\<lambda>(ivalue, rest).
     and_then (ok_or (err_param (UnknownInGroup icode g)) (pi_from_code icode)) (\<lambda>p.
       if strict \<and> \<not> pgi_contains g p then Inl (err_param (NotAllowedInGroup p g))
       else if strict \<and> icode \<le> last_inner \<and> items \<noteq> []
            then Inl (err_param (OutOfOrderInGroup p g))
       else decode_items strict g (items @ [(p, ivalue)]) icode rest))"
  by pat_completeness auto
termination
  by (relation "measure (\<lambda>(strict, g, items, l, buf). length buf)")
    (auto dest!: read_unit_shorter)

function (sequential) decode_params ::
    "bool \<Rightarrow> param list \<Rightarrow> u8 \<Rightarrow> bytes \<Rightarrow> (decode_error, param list) result" where
  "decode_params strict ps last_code [] = Inr ps"
| "decode_params strict ps last_code (c # buf) =
     and_then (read_unit c buf) (\<lambda>(value, rest).
       let misplaced = (c \<le> last_code \<and> ps \<noteq> []);
           last' = (if misplaced then last_code else c)
       in if misplaced \<and> strict then Inl (err_param (WrongOrder c last_code))
          else case pgi_from_code c of
                 Some g \<Rightarrow>
                   and_then (decode_items strict g [] 0 value) (\<lambda>items.
                     decode_params strict (ps @ [Param_Pgi g items]) last' rest)
               | None \<Rightarrow>
                   (case pi_from_code c of
                      Some p \<Rightarrow> decode_params strict (ps @ [Param_Pi p value]) last' rest
                    | None \<Rightarrow> Inl (err_param (UnknownParameter c))))"
  by pat_completeness auto
termination
  by (relation "measure (\<lambda>(strict, ps, l, buf). length buf)")
    (auto dest!: read_unit_shorter)

fun check_members :: "pgi \<Rightarrow> (pi \<times> bytes) list \<Rightarrow> (pi \<times> bool) list \<Rightarrow> (decode_error, unit) result" where
  "check_members g items [] = Inr ()"
| "check_members g items ((p, mandatory) # ms) =
     (if mandatory \<and> \<not> list_ex (\<lambda>(q, _). q = p) items
      then Inl (err_param (MandatoryMissingInGroup p g))
      else check_members g items ms)"

fun check_param :: "param \<Rightarrow> (decode_error, unit) result" where
  "check_param (Param_Pi p value) =
     (let m = pi_max_len p in
      if m \<noteq> 0 \<and> length value > m then Inl (err_param (ValueTooLong p (length value) m))
      else Inr ())"
| "check_param (Param_Pgi g items) = check_members g items (pgi_members g)"

fun check_params :: "fpdu_kind \<Rightarrow> param list \<Rightarrow> (decode_error, unit) result" where
  "check_params k [] = Inr ()"
| "check_params k (p # ps) =
     (if \<not> list_ex (\<lambda>r. rule_code r = param_code p) (kind_template k)
      then Inl (err_param (NotAllowed (param_code p) k))
      else and_then (check_param p) (\<lambda>_. check_params k ps))"

fun check_mandatory :: "fpdu_kind \<Rightarrow> param list \<Rightarrow> param_rule list \<Rightarrow> (decode_error, unit) result" where
  "check_mandatory k ps [] = Inr ()"
| "check_mandatory k ps (r # rs) =
     (if \<not> list_ex (\<lambda>p. param_code p = rule_code r) ps
      then Inl (err_param (MandatoryMissing (rule_code r) k))
      else check_mandatory k ps rs)"

definition validate_template :: "fpdu \<Rightarrow> (decode_error, unit) result" where
  "validate_template f =
     and_then (check_params (f_kind f) (f_params f)) (\<lambda>_.
       check_mandatory (f_kind f) (f_params f) (filter rule_mandatory (kind_template (f_kind f))))"

definition decode_with :: "bytes \<Rightarrow> bool \<Rightarrow> (decode_error, fpdu) result" where
  "decode_with bs strict =
     (case bs of
        b0 # b1 # b2 # b3 # b4 # b5 # body \<Rightarrow>
          (let declared = be_len b0 b1 in
           if declared \<noteq> length bs then Inl (err_protocol (LengthMismatch declared (length bs)))
           else
             and_then (ok_or (err_protocol (UnknownKind b2 b3)) (kind_from_codes b2 b3)) (\<lambda>k.
               let f = \<lparr>f_kind = k, id_dst = b4, id_src = b5, f_params = [], f_data = []\<rparr> in
               if is_data k then Inr (f\<lparr>f_data := body\<rparr>)
               else
                 and_then (decode_params strict [] 0 body) (\<lambda>ps.
                   let f = f\<lparr>f_params := ps\<rparr> in
                   if strict then and_then (validate_template f) (\<lambda>_. Inr f) else Inr f)))
      | _ \<Rightarrow> Inl (err_protocol (FpduTooShort (length bs))))"

definition decode :: "bytes \<Rightarrow> (decode_error, fpdu) result" where
  "decode bs = decode_with bs True"

definition decode_lenient :: "bytes \<Rightarrow> (decode_error, fpdu) result" where
  "decode_lenient bs = decode_with bs False"

end
