(* ===== verification/Fpdu_Params.thy ===== *)
theory Fpdu_Params
  imports Fpdu
begin

text \<open>
  Laws of the parameter list of an FPDU: the binary search behind \<^verbatim>\<open>Fpdu::set\<close> agrees with ordered
  insertion, every setter keeps the canonical (ascending) order, and the getters return what the
  setters stored. Also the round trips of numeric and text values.
\<close>

section \<open>Binary search\<close>

lemma sorted_keys_less:
  "sorted_wrt (<) (map f xs) \<Longrightarrow> i < j \<Longrightarrow> j < length xs \<Longrightarrow> f (xs ! i) < (f (xs ! j) :: 'k::linorder)"
  by (simp add: sorted_wrt_iff_nth_less)

lemma sorted_keys_le:
  "sorted_wrt (<) (map f xs) \<Longrightarrow> i \<le> j \<Longrightarrow> j < length xs \<Longrightarrow> f (xs ! i) \<le> (f (xs ! j) :: 'k::linorder)"
  by (cases "i = j") (auto dest: sorted_keys_less [of f xs i j])

declare binary_search_loop.simps [simp del]

lemma binary_search_loop_spec:
  fixes k :: "'k::linorder"
  assumes "sorted_wrt (<) (map f xs)" and "0 < sz" and "base + sz \<le> length xs"
    and "base = 0 \<or> f (xs ! base) \<le> k"
    and "\<And>j. base + sz \<le> j \<Longrightarrow> j < length xs \<Longrightarrow> k < f (xs ! j)"
  shows "binary_search_loop k f xs base sz < length xs \<and>
    (binary_search_loop k f xs base sz = 0 \<or> f (xs ! binary_search_loop k f xs base sz) \<le> k) \<and>
    (\<forall>j. binary_search_loop k f xs base sz < j \<and> j < length xs \<longrightarrow> k < f (xs ! j))"
  using assms
proof (induction k f xs base sz rule: binary_search_loop.induct)
  case (1 k f xs base sz)
  show ?case
  proof (cases "sz \<le> 1")
    case True
    with "1.prems" have "sz = 1" by simp
    moreover have "binary_search_loop k f xs base sz = base"
      using True by (simp add: binary_search_loop.simps [of k f xs base sz])
    ultimately show ?thesis using "1.prems" by auto
  next
    case False
    define half where "half = sz div 2"
    define base' where "base' = (if f (xs ! (base + half)) > k then base else base + half)"
    have half: "0 < half" "half \<le> sz - half" "half < sz"
      using False by (auto simp: half_def)
    have upper: "k < f (xs ! j)" if "base' + (sz - half) \<le> j" "j < length xs" for j
    proof (cases "f (xs ! (base + half)) > k")
      case True
      with that half have "base + half \<le> j" by (simp add: base'_def)
      with "1.prems"(1) that have "f (xs ! (base + half)) \<le> f (xs ! j)"
        by (intro sorted_keys_le)
      with True show ?thesis by (rule less_le_trans)
    next
      case False
      with that half "1.prems"(5) show ?thesis by (simp add: base'_def)
    qed
    have "binary_search_loop k f xs base' (sz - half) < length xs \<and>
      (binary_search_loop k f xs base' (sz - half) = 0 \<or>
       f (xs ! binary_search_loop k f xs base' (sz - half)) \<le> k) \<and>
      (\<forall>j. binary_search_loop k f xs base' (sz - half) < j \<and> j < length xs \<longrightarrow> k < f (xs ! j))"
      unfolding base'_def
    proof (rule "1.IH" [OF False half_def refl])
      show "sorted_wrt (<) (map f xs)" by (rule "1.prems"(1))
      show "0 < sz - half" using half by simp
      show "(if k < f (xs ! (base + half)) then base else base + half) + (sz - half) \<le> length xs"
        using half "1.prems"(3) by (cases "k < f (xs ! (base + half))") auto
      show "(if k < f (xs ! (base + half)) then base else base + half) = 0 \<or>
        f (xs ! (if k < f (xs ! (base + half)) then base else base + half)) \<le> k"
        using "1.prems"(4) by auto
      show "k < f (xs ! j)"
        if "(if k < f (xs ! (base + half)) then base else base + half) + (sz - half) \<le> j"
          "j < length xs" for j
        using that upper [of j] by (simp add: base'_def)
    qed
    moreover have "binary_search_loop k f xs base sz = binary_search_loop k f xs base' (sz - half)"
      using False by (simp add: binary_search_loop.simps [of k f xs base sz] half_def base'_def Let_def)
    ultimately show ?thesis by simp
  qed
qed

lemma binary_search_by_key_cases:
  fixes k :: "'k::linorder"
  assumes "sorted_wrt (<) (map f xs)"
  shows "case binary_search_by_key k f xs of
      Inr i \<Rightarrow> i < length xs \<and> f (xs ! i) = k
    | Inl i \<Rightarrow> i \<le> length xs \<and> (\<forall>j<i. f (xs ! j) < k) \<and> (\<forall>j. i \<le> j \<and> j < length xs \<longrightarrow> k < f (xs ! j))"
proof (cases "xs = []")
  case True
  then show ?thesis by (simp add: binary_search_by_key_def)
next
  case False
  define r where "r = binary_search_loop k f xs 0 (length xs)"
  have r: "r < length xs" "r = 0 \<or> f (xs ! r) \<le> k" "\<And>j. r < j \<Longrightarrow> j < length xs \<Longrightarrow> k < f (xs ! j)"
    using binary_search_loop_spec [of f xs "length xs" 0 k] assms False by (auto simp: r_def)
  have low: "f (xs ! j) < f (xs ! r)" if "j < r" for j
    using assms that r(1) by (rule sorted_keys_less)
  consider "f (xs ! r) = k" | "f (xs ! r) < k" | "k < f (xs ! r)" "r = 0"
    using r(2) by fastforce
  then show ?thesis
  proof cases
    case 1
    then show ?thesis using False r by (simp add: binary_search_by_key_def Let_def flip: r_def)
  next
    case 2
    then show ?thesis using False r low
      by (auto simp: binary_search_by_key_def Let_def less_Suc_eq Suc_le_eq simp flip: r_def
          intro: less_trans)
  next
    case 3
    have "k < f (xs ! j)" if "j < length xs" for j
      using 3 r(3) that by (cases "j = 0") auto
    moreover from 3 have "\<not> f (xs ! r) < k" "f (xs ! r) \<noteq> k" by auto
    ultimately show ?thesis using False 3
      by (auto simp: binary_search_by_key_def Let_def simp flip: r_def)
  qed
qed

section \<open>Ordered insertion\<close>

text \<open>The reference behaviour of \<^verbatim>\<open>Fpdu::set\<close>: replace the unit of that code or insert in order.\<close>

fun put_param :: "param \<Rightarrow> param list \<Rightarrow> param list" where
  "put_param p [] = [p]"
| "put_param p (q # qs) =
     (if param_code p < param_code q then p # q # qs
      else if param_code p = param_code q then p # qs
      else q # put_param p qs)"

definition canonical :: "param list \<Rightarrow> bool" where
  "canonical ps \<longleftrightarrow> sorted_wrt (<) (map param_code ps)"

lemma canonical_Nil [simp]: "canonical []"
  by (simp add: canonical_def)

lemma put_param_at:
  "sorted_wrt (<) (map param_code ps) \<Longrightarrow> i < length ps \<Longrightarrow> param_code (ps ! i) = param_code p \<Longrightarrow>
    put_param p ps = ps[i := p]"
proof (induction ps arbitrary: i)
  case Nil
  then show ?case by simp
next
  case (Cons q qs)
  show ?case
  proof (cases i)
    case 0
    with Cons.prems show ?thesis by simp
  next
    case (Suc n)
    with Cons.prems have q: "param_code q < param_code p"
      by simp (metis nth_mem)
    then have "\<not> param_code p < param_code q" "param_code p \<noteq> param_code q" by auto
    moreover have "put_param p qs = qs[n := p]"
      using Suc Cons.prems by (intro Cons.IH) auto
    ultimately show ?thesis using Suc by simp
  qed
qed

lemma put_param_between:
  "i \<le> length ps \<Longrightarrow> \<forall>j<i. param_code (ps ! j) < param_code p \<Longrightarrow>
    \<forall>j. i \<le> j \<and> j < length ps \<longrightarrow> param_code p < param_code (ps ! j) \<Longrightarrow>
    put_param p ps = take i ps @ p # drop i ps"
proof (induction ps arbitrary: i)
  case Nil
  then show ?case by simp
next
  case (Cons q qs)
  show ?case
  proof (cases i)
    case 0
    with Cons.prems(3) have "param_code p < param_code ((q # qs) ! 0)" by blast
    with 0 show ?thesis by simp
  next
    case (Suc n)
    with Cons.prems(2) have q: "param_code q < param_code p" by auto
    have "put_param p qs = take n qs @ p # drop n qs"
    proof (rule Cons.IH)
      show "n \<le> length qs" using Cons.prems(1) Suc by simp
      show "\<forall>j<n. param_code (qs ! j) < param_code p" using Cons.prems(2) Suc by auto
      show "\<forall>j. n \<le> j \<and> j < length qs \<longrightarrow> param_code p < param_code (qs ! j)"
        using Cons.prems(3) Suc by (metis Suc_le_mono Suc_less_eq length_Cons nth_Cons_Suc)
    qed
    with q Suc show ?thesis by (simp add: less_not_sym)
  qed
qed

lemma insert_param_eq_put_param: "canonical ps \<Longrightarrow> insert_param p ps = put_param p ps"
  using binary_search_by_key_cases [of param_code ps "param_code p"]
  by (auto simp: canonical_def insert_param_def put_param_at put_param_between split: sum.splits)

lemma put_param_codes:
  "set (map param_code (put_param p ps)) = insert (param_code p) (set (map param_code ps))"
  by (induction ps) auto

lemma canonical_put_param: "canonical ps \<Longrightarrow> canonical (put_param p ps)"
proof (induction ps)
  case Nil
  then show ?case by (simp add: canonical_def)
next
  case (Cons q qs)
  then have IH: "canonical (put_param p qs)"
    and q: "\<forall>x\<in>set (map param_code qs). param_code q < x"
    by (simp_all add: canonical_def)
  consider "param_code p < param_code q" | "param_code p = param_code q" | "param_code q < param_code p"
    by (rule linorder_cases)
  then show ?case
  proof cases
    case 1
    with Cons.prems show ?thesis by (auto simp: canonical_def)
  next
    case 2
    with Cons.prems show ?thesis by (simp add: canonical_def)
  next
    case 3
    then have "\<forall>x\<in>set (map param_code (put_param p qs)). param_code q < x"
      using q unfolding put_param_codes by simp
    with 3 IH show ?thesis by (simp add: canonical_def less_not_sym)
  qed
qed

lemma canonical_insert_param: "canonical ps \<Longrightarrow> canonical (insert_param p ps)"
  by (simp add: insert_param_eq_put_param canonical_put_param)

lemma put_param_append:
  "\<forall>q\<in>set ps. param_code q < param_code p \<Longrightarrow> put_param p ps = ps @ [p]"
  by (induction ps) (auto simp: less_not_sym)

lemma insert_param_append:
  "canonical ps \<Longrightarrow> \<forall>q\<in>set ps. param_code q < param_code p \<Longrightarrow> insert_param p ps = ps @ [p]"
  by (simp add: insert_param_eq_put_param put_param_append)

section \<open>Reading back\<close>

fun in_group :: "pi \<Rightarrow> param \<Rightarrow> bool" where
  "in_group p (Param_Pi _ _) = False"
| "in_group p (Param_Pgi _ items) = (p \<in> fst ` set items)"

lemma find_fst_None: "p \<notin> fst ` set items \<Longrightarrow> find (\<lambda>(q, _). q = p) items = None"
  by (induction items) auto

lemma get_put_param_same:
  "\<forall>q\<in>set ps. \<not> in_group p q \<Longrightarrow> get_param p (put_param (Param_Pi p v) ps) = Some v"
proof (induction ps)
  case Nil
  then show ?case by simp
next
  case (Cons q qs)
  then show ?case by (cases q) (auto simp: find_fst_None)
qed

lemma get_put_param_other:
  "p \<noteq> p' \<Longrightarrow> get_param p' (put_param (Param_Pi p v) ps) = get_param p' ps"
proof (induction ps)
  case Nil
  then show ?case by simp
next
  case (Cons q qs)
  then show ?case
    by (cases q) (auto simp: pi_code_not_pgi_code split: option.splits)
qed

lemma get_param_append:
  "get_param p (ps @ qs) = (case get_param p ps of None \<Rightarrow> get_param p qs | Some v \<Rightarrow> Some v)"
  by (induction p ps rule: get_param.induct) (auto split: option.splits)

section \<open>Values\<close>

lemma decode_num_Nil [simp]: "decode_num [] = 0"
  by (simp add: decode_num_def)

lemma decode_num_0 [simp]: "decode_num (0 # bs) = decode_num bs"
  by (simp add: decode_num_def)

lemma decode_num_single [simp]: "decode_num [b] = ucast b"
  by (simp add: decode_num_def)

lemma decode_num_drop_zeros:
  "\<forall>b\<in>set (take n bs). b = 0 \<Longrightarrow> n \<le> length bs \<Longrightarrow> decode_num (drop n bs) = decode_num bs"
proof (induction n arbitrary: bs)
  case 0
  then show ?case by simp
next
  case (Suc n)
  then show ?case by (cases bs) auto
qed

lemma shift_in_byte:
  fixes v :: u64
  shows "push_bit 8 (drop_bit 8 v) OR ucast (ucast v :: u8) = v"
  by (rule bit_word_eqI) (auto simp: bit_or_iff bit_push_bit_iff bit_drop_bit_eq bit_ucast_iff)

lemma shift_in_byte_at:
  fixes w :: u64
  shows "push_bit 8 (drop_bit (8 + n) w) OR ucast (ucast (drop_bit n w) :: u8) = drop_bit n w"
  using shift_in_byte [of "drop_bit n w"] by simp

lemma decode_num_to_be_bytes64: "decode_num (to_be_bytes64 w) = w"
proof -
  have "drop_bit 64 w = 0"
    by (rule bit_word_eqI) (auto simp: bit_drop_bit_eq dest: bit_imp_le_length)
  then show ?thesis
    using shift_in_byte_at [of 56 w] shift_in_byte_at [of 48 w] shift_in_byte_at [of 40 w]
      shift_in_byte_at [of 32 w] shift_in_byte_at [of 24 w] shift_in_byte_at [of 16 w]
      shift_in_byte_at [of 8 w] shift_in_byte_at [of 0 w]
    by (simp add: decode_num_def to_be_bytes64_def)
qed

lemma position_None: "position P xs = None \<longleftrightarrow> (\<forall>x\<in>set xs. \<not> P x)"
  by (induction xs) auto

lemma position_Some:
  "position P xs = Some i \<Longrightarrow> i < length xs \<and> P (xs ! i) \<and> (\<forall>x\<in>set (take i xs). \<not> P x)"
proof (induction xs arbitrary: i)
  case Nil
  then show ?case by simp
next
  case (Cons a xs)
  then show ?case by (cases "P a") auto
qed

lemma length_to_be_bytes64 [simp]: "length (to_be_bytes64 w) = 8"
  by (simp add: to_be_bytes64_def)

lemma encode_num_cut:
  obtains n where "n \<le> 7" "encode_num w = drop n (to_be_bytes64 w)"
    "\<forall>b\<in>set (take n (to_be_bytes64 w)). b = 0"
    "n = 7 \<or> to_be_bytes64 w ! n \<noteq> 0"
proof (cases "position (\<lambda>b. b \<noteq> 0) (to_be_bytes64 w)")
  case None
  then have "\<forall>b\<in>set (to_be_bytes64 w). b = 0" by (simp add: position_None)
  then have "\<forall>b\<in>set (take 7 (to_be_bytes64 w)). b = 0" by (meson in_set_takeD)
  with None that [of 7] show ?thesis by (simp add: encode_num_def)
next
  case (Some i)
  from position_Some [OF this] that [of i] Some show ?thesis by (auto simp: encode_num_def)
qed

lemma decode_encode_num [simp]: "decode_num (encode_num w) = w"
proof -
  obtain n where n: "n \<le> 7" "encode_num w = drop n (to_be_bytes64 w)"
    "\<forall>b\<in>set (take n (to_be_bytes64 w)). b = 0"
    by (rule encode_num_cut)
  then have "decode_num (encode_num w) = decode_num (to_be_bytes64 w)"
    by (simp add: decode_num_drop_zeros)
  then show ?thesis by (simp add: decode_num_to_be_bytes64)
qed

lemma encode_num_not_Nil [simp]: "encode_num w \<noteq> []"
  by (rule encode_num_cut [of w]) simp

lemma trim_end_idem [simp]: "trim_end (trim_end s) = trim_end s"
  by (simp add: trim_end_def)

lemma set_trim_end: "c \<in> set (trim_end s) \<Longrightarrow> c \<in> set s"
  by (auto simp: trim_end_def dest: set_dropWhileD)

lemma unat_latin1_byte [simp]: "c < 256 \<Longrightarrow> unat (latin1_byte c) = c"
  by (simp add: latin1_byte_def)

lemma text_round_trip:
  "\<forall>c\<in>set s. c < 256 \<Longrightarrow> text_from_bytes (text_to_bytes s) = trim_end s"
proof -
  assume a: "\<forall>c\<in>set s. c < 256"
  have "map (unat \<circ> latin1_byte) (trim_end s) = trim_end s"
    using a by (intro map_idI) (auto dest!: set_trim_end)
  then show ?thesis by (simp add: text_from_bytes_def text_to_bytes_def)
qed

lemma text_to_bytes_eq_Nil: "text_to_bytes s = [] \<longleftrightarrow> (\<forall>c\<in>set s. is_whitespace c)"
  by (simp add: text_to_bytes_def trim_end_def)

end
