(* ===== verification/Fpdu_Codec.thy ===== *)
theory Fpdu_Codec
  imports Fpdu_Params
begin

text \<open>
  Correctness of the FPDU encoder and decoder: what the encoder writes and when it fails, the round
  trip of well-formed FPDUs, what a successfully decoded FPDU satisfies, and which diagnostics a
  decoding error carries.
\<close>

section \<open>The bytes the encoder writes\<close>

definition unit_header :: "usize \<Rightarrow> bytes" where
  "unit_header n = (if n < 255 then [word_of_nat n] else 0xFF # to_be_bytes16 (u16_of_usize n))"

definition unit_bytes :: "u8 \<Rightarrow> bytes \<Rightarrow> bytes" where
  "unit_bytes c v = c # unit_header (length v) @ v"

definition item_bytes :: "pi \<times> bytes \<Rightarrow> bytes" where
  "item_bytes i = unit_bytes (pi_code (fst i)) (snd i)"

fun param_value :: "param \<Rightarrow> bytes" where
  "param_value (Param_Pi _ v) = v"
| "param_value (Param_Pgi _ items) = concat (map item_bytes items)"

definition param_bytes :: "param \<Rightarrow> bytes" where
  "param_bytes p = unit_bytes (param_code p) (param_value p)"

definition header_bytes :: "fpdu \<Rightarrow> bytes" where
  "header_bytes f = to_be_bytes16 (u16_of_usize (encoded_len f))
     @ [kind_phase (f_kind f), kind_type_code (f_kind f), id_dst f, id_src f]"

definition body_bytes :: "fpdu \<Rightarrow> bytes" where
  "body_bytes f = (if is_data (f_kind f) then f_data f else concat (map param_bytes (f_params f)))"

lemma push_unit_eq: "push_unit out c v = out @ unit_bytes c v"
  by (simp add: push_unit_def unit_bytes_def unit_header_def Let_def)

lemma length_unit_bytes [simp]: "length (unit_bytes c v) = unit_len (length v)"
  by (simp add: unit_bytes_def unit_header_def unit_len_def)

lemma length_items: "length (concat (map item_bytes items)) = sum_list (map (\<lambda>(_, v). unit_len (length v)) items)"
  by (induction items) (auto simp: item_bytes_def)

lemma length_param_bytes [simp]: "length (param_bytes p) = param_len p"
  by (cases p) (simp_all add: param_bytes_def length_items)

lemma length_header_bytes [simp]: "length (header_bytes f) = 6"
  by (simp add: header_bytes_def)

lemma length_body_bytes: "length (header_bytes f @ body_bytes f) = encoded_len f"
  by (simp add: body_bytes_def encoded_len_def HEADER_LEN_def length_concat comp_def)

subsection \<open>When encoding succeeds\<close>

fun no_empty_value :: "param \<Rightarrow> bool" where
  "no_empty_value (Param_Pi _ v) = (v \<noteq> [])"
| "no_empty_value (Param_Pgi _ items) = list_all (\<lambda>i. snd i \<noteq> []) items"

lemma encode_items_ok:
  "list_all (\<lambda>i. snd i \<noteq> []) items \<Longrightarrow>
    encode_items inner items = Inr (inner @ concat (map item_bytes items))"
  by (induction inner items rule: encode_items.induct) (auto simp: push_unit_eq item_bytes_def)

text \<open>The values of a parameter list in the order they are written; \<open>c\<close> is the code of the first one that is empty.\<close>

fun param_values :: "param \<Rightarrow> (pi \<times> bytes) list" where
  "param_values (Param_Pi p v) = [(p, v)]"
| "param_values (Param_Pgi _ items) = items"

definition first_empty :: "(pi \<times> bytes) list \<Rightarrow> u8 \<Rightarrow> bool" where
  "first_empty items c \<longleftrightarrow>
     (\<exists>before p after. items = before @ (p, []) # after \<and> list_all (\<lambda>i. snd i \<noteq> []) before \<and> c = pi_code p)"

lemma first_empty_append:
  assumes "list_all (\<lambda>i. snd i \<noteq> []) xs" "first_empty ys c"
  shows "first_empty (xs @ ys) c"
proof -
  from assms(2) obtain before p after where "ys = before @ (p, []) # after" "list_all (\<lambda>i. snd i \<noteq> []) before" "c = pi_code p"
    by (auto simp: first_empty_def)
  with assms(1) show ?thesis unfolding first_empty_def by (intro exI [of _ "xs @ before"] exI [of _ p] exI [of _ after]) simp
qed

lemma first_empty_more:
  assumes "first_empty xs c"
  shows "first_empty (xs @ ys) c"
proof -
  from assms obtain before p after where "xs = before @ (p, []) # after" "list_all (\<lambda>i. snd i \<noteq> []) before" "c = pi_code p"
    by (auto simp: first_empty_def)
  then show ?thesis unfolding first_empty_def by (intro exI [of _ before] exI [of _ p] exI [of _ "after @ ys"]) simp
qed

lemma first_empty_here: "first_empty ((p, []) # xs) (pi_code p)"
  unfolding first_empty_def by (intro exI [of _ "[]"] exI [of _ p] exI [of _ xs]) simp

lemma first_empty_Cons: "v \<noteq> [] \<Longrightarrow> first_empty xs c \<Longrightarrow> first_empty ((p, v) # xs) c"
  using first_empty_append [of "[(p, v)]" xs c] by simp

lemma encode_items_fails:
  "\<not> list_all (\<lambda>i. snd i \<noteq> []) items \<Longrightarrow> \<exists>c. encode_items inner items = Inl (EmptyValue c) \<and> first_empty items c"
  by (induction inner items rule: encode_items.induct) (auto intro: first_empty_here first_empty_Cons)

lemma encode_params_ok:
  "list_all no_empty_value ps \<Longrightarrow> encode_params out ps = (out @ concat (map param_bytes ps), Inr ())"
  by (induction out ps rule: encode_params.induct)
    (auto simp: push_unit_eq encode_items_ok param_bytes_def)

lemma encode_params_fails:
  "\<not> list_all no_empty_value ps \<Longrightarrow>
    \<exists>out' c. encode_params out ps = (out', Inl (EmptyValue c)) \<and> first_empty (concat (map param_values ps)) c"
proof (induction out ps rule: encode_params.induct)
  case (2 out p v ps)
  then show ?case by (cases "v = []") (auto intro: first_empty_here first_empty_Cons)
next
  case (3 out g items ps)
  show ?case
  proof (cases "list_all (\<lambda>i. snd i \<noteq> []) items")
    case True
    with 3 obtain out' c where "encode_params (push_unit out (pgi_code g) (concat (map item_bytes items))) ps = (out', Inl (EmptyValue c))"
      "first_empty (concat (map param_values ps)) c" by (auto simp: encode_items_ok)
    with True first_empty_append [of items] show ?thesis by (auto simp: encode_items_ok)
  next
    case False
    with encode_items_fails [OF False, of "[]"] show ?thesis by (auto intro: first_empty_more)
  qed
qed simp

lemma encode_into_ok:
  assumes "encoded_len f \<le> MAX_FPDU_LEN" and "is_data (f_kind f) \<or> list_all no_empty_value (f_params f)"
  shows "encode_into f out = (out @ header_bytes f @ body_bytes f, Inr ())"
  using assms
  by (auto simp: encode_into_def Let_def header_bytes_def body_bytes_def encode_params_ok)

lemma encode_ok:
  assumes "encoded_len f \<le> MAX_FPDU_LEN" and "is_data (f_kind f) \<or> list_all no_empty_value (f_params f)"
  shows "encode f = Inr (header_bytes f @ body_bytes f)"
  by (simp add: encode_def encode_into_ok [OF assms])

lemma encode_too_long: "encoded_len f > MAX_FPDU_LEN \<Longrightarrow> encode f = Inl (TooLong (encoded_len f))"
  by (simp add: encode_def encode_into_def)

lemma encode_empty_value:
  assumes "encoded_len f \<le> MAX_FPDU_LEN" "\<not> is_data (f_kind f)" "\<not> list_all no_empty_value (f_params f)"
  shows "\<exists>c. encode f = Inl (EmptyValue c) \<and> first_empty (concat (map param_values (f_params f))) c"
proof -
  let ?out = "to_be_bytes16 (u16_of_usize (encoded_len f))
    @ [kind_phase (f_kind f), kind_type_code (f_kind f), id_dst f, id_src f]"
  obtain out' c where "encode_params ?out (f_params f) = (out', Inl (EmptyValue c))" "first_empty (concat (map param_values (f_params f))) c"
    using encode_params_fails [OF assms(3), of ?out] by blast
  with assms(1,2) show ?thesis
    by (auto simp: encode_def encode_into_def Let_def)
qed

lemma encode_eq_Inr:
  "encode f = Inr bs \<longleftrightarrow> encoded_len f \<le> MAX_FPDU_LEN \<and>
     (is_data (f_kind f) \<or> list_all no_empty_value (f_params f)) \<and> bs = header_bytes f @ body_bytes f"
  (is "?L \<longleftrightarrow> ?R")
proof
  assume L: ?L
  show ?R
    using L encode_too_long [of f] encode_empty_value [of f] encode_ok [of f] by fastforce
next
  assume ?R
  then show ?L using encode_ok by blast
qed

section \<open>Reading back\<close>

lemma read_unit_emit:
  assumes "v \<noteq> []" and "length v < 65536"
  shows "read_unit c (unit_header (length v) @ v @ rest) = Inr (v, rest)"
proof (cases "length v < 255")
  case True
  then have "unat (word_of_nat (length v) :: u8) \<noteq> unat (0xFF :: u8)" by simp
  then have "(word_of_nat (length v) :: u8) \<noteq> 0xFF" by metis
  with True assms show ?thesis
    by (simp add: unit_header_def read_unit_def read_length_def)
next
  case False
  with assms show ?thesis
    by (simp add: unit_header_def read_unit_def read_length_def to_be_bytes16_def)
qed

definition items_ok :: "bool \<Rightarrow> pgi \<Rightarrow> (pi \<times> bytes) list \<Rightarrow> bool" where
  "items_ok strict g items \<longleftrightarrow>
     list_all (\<lambda>i. snd i \<noteq> [] \<and> length (snd i) < 65536) items \<and>
     (strict \<longrightarrow> list_all (\<lambda>i. pgi_contains g (fst i)) items \<and>
        sorted_wrt (<) (map (\<lambda>i. pi_code (fst i)) items))"

fun param_ok :: "bool \<Rightarrow> param \<Rightarrow> bool" where
  "param_ok strict (Param_Pi p v) = (v \<noteq> [] \<and> length v < 65536)"
| "param_ok strict (Param_Pgi g items) =
     (items \<noteq> [] \<and> items_ok strict g items \<and> length (concat (map item_bytes items)) < 65536)"

definition params_ok :: "bool \<Rightarrow> param list \<Rightarrow> bool" where
  "params_ok strict ps \<longleftrightarrow> list_all (param_ok strict) ps \<and> (strict \<longrightarrow> canonical ps)"

lemma item_bytes_Cons: "item_bytes i = pi_code (fst i) # unit_header (length (snd i)) @ snd i"
  by (simp add: item_bytes_def unit_bytes_def)

lemma decode_items_emit:
  assumes "items_ok strict g items"
    and "strict \<Longrightarrow> acc = [] \<or> (\<forall>i\<in>set items. last_inner < pi_code (fst i))"
  shows "decode_items strict g acc last_inner (concat (map item_bytes items)) = Inr (acc @ items)"
  using assms
proof (induction items arbitrary: acc last_inner)
  case Nil
  then show ?case by simp
next
  case (Cons i items)
  obtain p v where i: "i = (p, v)" by (cases i)
  have ok: "v \<noteq> []" "length v < 65536" "items_ok strict g items" "strict \<Longrightarrow> pgi_contains g p"
    using Cons.prems(1) by (auto simp: items_ok_def i)
  have later: "strict \<Longrightarrow> \<forall>j\<in>set items. pi_code p < pi_code (fst j)"
    using Cons.prems(1) by (auto simp: items_ok_def i)
  have order: "\<not> (strict \<and> pi_code p \<le> last_inner \<and> acc \<noteq> [])"
    using Cons.prems(2) by (auto simp: i)
  have "decode_items strict g (acc @ [(p, v)]) (pi_code p) (concat (map item_bytes items))
      = Inr ((acc @ [(p, v)]) @ items)"
    using ok(3) later by (intro Cons.IH) auto
  with ok order show ?case
    by (auto simp: i item_bytes_Cons [of "(p, v)"] read_unit_emit)
qed

lemma param_bytes_Cons: "param_bytes p = param_code p # unit_header (length (param_value p)) @ param_value p"
  by (simp add: param_bytes_def unit_bytes_def)

lemma item_bytes_not_Nil [simp]: "item_bytes i \<noteq> []"
  by (simp add: item_bytes_Cons)

lemma param_value_ok:
  assumes "param_ok strict p"
  shows "param_value p \<noteq> [] \<and> length (param_value p) < 65536"
proof (cases p)
  case (Param_Pgi g items)
  with assms show ?thesis by (cases items) auto
qed (use assms in simp)

lemma decode_params_emit:
  assumes "params_ok strict ps"
    and "strict \<Longrightarrow> acc = [] \<or> (\<forall>p\<in>set ps. last_code < param_code p)"
  shows "decode_params strict acc last_code (concat (map param_bytes ps)) = Inr (acc @ ps)"
  using assms
proof (induction ps arbitrary: acc last_code)
  case Nil
  then show ?case by simp
next
  case (Cons p ps)
  let ?last = "if param_code p \<le> last_code \<and> acc \<noteq> [] then last_code else param_code p"
  have ok: "param_ok strict p" "params_ok strict ps"
    and later: "strict \<Longrightarrow> \<forall>q\<in>set ps. param_code p < param_code q"
    using Cons.prems(1) by (auto simp: params_ok_def canonical_def)
  have order: "\<not> (strict \<and> param_code p \<le> last_code \<and> acc \<noteq> [])"
    using Cons.prems(2) by auto
  have IH: "decode_params strict (acc @ [p]) ?last (concat (map param_bytes ps)) = Inr ((acc @ [p]) @ ps)"
    using ok(2) later order by (intro Cons.IH) (auto split: if_splits)
  have unit: "read_unit (param_code p) (unit_header (length (param_value p)) @ param_value p @
      concat (map param_bytes ps)) = Inr (param_value p, concat (map param_bytes ps))"
    using param_value_ok [OF ok(1)] by (intro read_unit_emit) auto
  show ?case
  proof (cases p)
    case (Param_Pi q v)
    then show ?thesis
      using unit order IH
      by (auto simp: param_bytes_Cons [of "Param_Pi q v"] Let_def)
  next
    case (Param_Pgi g items)
    moreover have "decode_items strict g [] 0 (concat (map item_bytes items)) = Inr items"
      using ok(1) Param_Pgi decode_items_emit [of strict g items "[]" 0] by simp
    ultimately show ?thesis
      using unit order IH by (auto simp: param_bytes_Cons [of "Param_Pgi g items"] Let_def)
  qed
qed

section \<open>What decoding accepts\<close>

lemma read_length_bounds:
  assumes "read_length c buf = Inr (n, start)"
  shows "n < 65536 \<and> unit_len n + length start \<le> length (c # buf) + n"
proof (cases buf)
  case Nil
  with assms show ?thesis by (simp add: read_length_def)
next
  case (Cons li rest)
  show ?thesis
  proof (cases "li = 0xFF")
    case True
    with assms Cons show ?thesis
      by (auto simp: read_length_def unit_len_def split: list.splits)
  next
    case False
    then have "unat li \<noteq> unat (0xFF :: u8)" by (metis unsigned_word_eqI)
    then have "unat li < 255" using u8_less_256 [of li] by (simp del: u8_less_256)
    with False assms Cons show ?thesis by (auto simp: read_length_def unit_len_def)
  qed
qed

lemma read_unit_value:
  assumes "read_unit c buf = Inr (value, rest)"
  shows "value \<noteq> []" "length value < 65536" "unit_len (length value) + length rest \<le> length (c # buf)"
proof -
  from assms obtain n start where n: "read_length c buf = Inr (n, start)" "0 < n" "n \<le> length start"
    "value = take n start" "rest = drop n start"
    by (auto simp: read_unit_def and_then_eq_Inr split: if_splits)
  then show "value \<noteq> []" by auto
  have "length value = n" "length rest = length start - n" using n by simp_all
  with read_length_bounds [OF n(1)] n(3)
  show "length value < 65536" "unit_len (length value) + length rest \<le> length (c # buf)" by auto
qed

lemma decode_items_sound:
  assumes "decode_items strict g acc last_inner bs = Inr items"
  shows "\<exists>new. items = acc @ new \<and> items_ok strict g new \<and> (bs \<noteq> [] \<longrightarrow> new \<noteq> []) \<and>
    (strict \<and> acc \<noteq> [] \<longrightarrow> (\<forall>i\<in>set new. last_inner < pi_code (fst i))) \<and>
    length (concat (map item_bytes new)) \<le> length bs"
  using assms
proof (induction strict g acc last_inner bs rule: decode_items.induct)
  case (1 strict g acc last_inner)
  then show ?case by (simp add: items_ok_def)
next
  case (2 strict g acc last_inner icode buf)
  from "2.prems" obtain v rest p where u: "read_unit icode buf = Inr (v, rest)"
    and p: "pi_from_code icode = Some p" "icode = pi_code p"
    and s: "strict \<Longrightarrow> pgi_contains g p" "strict \<Longrightarrow> acc \<noteq> [] \<Longrightarrow> last_inner < icode"
    and d: "decode_items strict g (acc @ [(p, v)]) icode rest = Inr items"
    by (auto simp: and_then_eq_Inr pi_wire.from_code_iff not_le split: if_splits)
  have "\<exists>new. items = (acc @ [(p, v)]) @ new \<and> items_ok strict g new \<and> (rest \<noteq> [] \<longrightarrow> new \<noteq> []) \<and>
    (strict \<and> acc @ [(p, v)] \<noteq> [] \<longrightarrow> (\<forall>i\<in>set new. icode < pi_code (fst i))) \<and>
    length (concat (map item_bytes new)) \<le> length rest"
    using p(1) s d by (intro "2.IH" [OF u refl]) (auto simp: not_le)
  then obtain new where new: "items = acc @ (p, v) # new" "items_ok strict g new"
    "strict \<longrightarrow> (\<forall>i\<in>set new. icode < pi_code (fst i))"
    "length (concat (map item_bytes new)) \<le> length rest"
    by auto
  have "items_ok strict g ((p, v) # new)"
    using new(2,3) s(1) p(2) read_unit_value(1,2) [OF u] by (auto simp: items_ok_def)
  moreover have "strict \<and> acc \<noteq> [] \<longrightarrow> (\<forall>i\<in>set ((p, v) # new). last_inner < pi_code (fst i))"
    using s(2) p(2) new(3) by (auto intro: less_trans)
  moreover have "length (concat (map item_bytes ((p, v) # new))) \<le> length (icode # buf)"
    using read_unit_value(3) [OF u] new(4) by (simp add: item_bytes_def)
  ultimately show ?case using new(1) by blast
qed

lemma decode_params_sound:
  assumes "decode_params strict acc last_code bs = Inr ps"
  shows "\<exists>new. ps = acc @ new \<and> params_ok strict new \<and>
    (strict \<and> acc \<noteq> [] \<longrightarrow> (\<forall>p\<in>set new. last_code < param_code p)) \<and>
    sum_list (map param_len new) \<le> length bs"
  using assms
proof (induction strict acc last_code bs rule: decode_params.induct)
  case (1 strict acc last_code)
  then show ?case by (simp add: params_ok_def)
next
  case (2 strict acc last_code c buf)
  let ?mis = "c \<le> last_code \<and> acc \<noteq> []"
  let ?last = "if ?mis then last_code else c"
  from "2.prems" obtain v rest where u: "read_unit c buf = Inr (v, rest)"
    and s: "\<not> (?mis \<and> strict)"
    by (auto simp: and_then_eq_Inr Let_def split: if_splits)
  have step: "\<exists>p. param_ok strict p \<and> param_code p = c \<and> param_len p + length rest \<le> length (c # buf) \<and>
    (\<exists>new. ps = (acc @ [p]) @ new \<and> params_ok strict new \<and>
      (strict \<and> acc @ [p] \<noteq> [] \<longrightarrow> (\<forall>q\<in>set new. ?last < param_code q)) \<and>
      sum_list (map param_len new) \<le> length rest)"
  proof (cases "pgi_from_code c")
    case None
    with "2.prems" u s obtain p where p: "pi_from_code c = Some p" "c = pi_code p"
      and d: "decode_params strict (acc @ [Param_Pi p v]) ?last rest = Inr ps"
      by (auto simp: Let_def pi_wire.from_code_iff split: option.splits if_splits)
    note IH = "2.IH"(1) [OF u refl refl refl s None p(1) d]
    show ?thesis
      by (rule exI [of _ "Param_Pi p v"]) (use IH p(2) read_unit_value [OF u] in auto)
  next
    case (Some g)
    with "2.prems" u s obtain items where i: "decode_items strict g [] 0 v = Inr items"
      and d: "decode_params strict (acc @ [Param_Pgi g items]) ?last rest = Inr ps"
      by (auto simp: Let_def and_then_eq_Inr split: if_splits)
    note IH = "2.IH"(2) [OF u refl refl refl s Some i d]
    have c: "c = pgi_code g" using Some by (simp add: pgi_wire.from_code_iff)
    from decode_items_sound [OF i] read_unit_value(1,2) [OF u]
    have ok: "items \<noteq> []" "items_ok strict g items" "length (concat (map item_bytes items)) < 65536"
      "length (concat (map item_bytes items)) \<le> length v" by auto
    have "unit_len (length (concat (map item_bytes items))) \<le> unit_len (length v)"
      using ok(4) by (auto simp: unit_len_def)
    then show ?thesis
      using IH c ok read_unit_value(3) [OF u]
      by (intro exI [of _ "Param_Pgi g items"]) (auto simp: length_items)
  qed
  then obtain p new where p: "param_ok strict p" "param_code p = c"
      "param_len p + length rest \<le> length (c # buf)"
    and new: "ps = acc @ p # new" "params_ok strict new"
      "strict \<longrightarrow> (\<forall>q\<in>set new. ?last < param_code q)" "sum_list (map param_len new) \<le> length rest"
    by auto
  have l: "strict \<Longrightarrow> ?last = c" "strict \<Longrightarrow> acc \<noteq> [] \<Longrightarrow> last_code < c" using s by auto
  have "params_ok strict (p # new)"
    using p new(2,3) l(1) by (auto simp: params_ok_def canonical_def)
  moreover have "strict \<and> acc \<noteq> [] \<longrightarrow> (\<forall>q\<in>set (p # new). last_code < param_code q)"
    using p(2) l new(3) by (auto intro: less_trans)
  moreover have "sum_list (map param_len (p # new)) \<le> length (c # buf)"
    using p(3) new(4) by simp
  ultimately show ?case using new(1) by blast
qed

section \<open>Whole FPDUs\<close>

text \<open>
  A well-formed FPDU: a data FPDU has no parameters, any other has no data and a parameter list in
  which every value is present and representable and, for the strict format, the units are in
  ascending code order and every group holds only its members, in order.
\<close>

definition fpdu_wf :: "bool \<Rightarrow> fpdu \<Rightarrow> bool" where
  "fpdu_wf strict f \<longleftrightarrow>
     (if is_data (f_kind f) then f_params f = [] else f_data f = [] \<and> params_ok strict (f_params f))"

definition template_ok :: "fpdu \<Rightarrow> bool" where
  "template_ok f \<longleftrightarrow> is_data (f_kind f) \<or> validate_template f = Inr ()"

lemma param_ok_no_empty_value: "param_ok strict p \<Longrightarrow> no_empty_value p"
  by (cases p) (auto simp: items_ok_def list_all_iff)

lemma fpdu_wf_no_empty_value:
  "fpdu_wf strict f \<Longrightarrow> is_data (f_kind f) \<or> list_all no_empty_value (f_params f)"
  by (auto simp: fpdu_wf_def params_ok_def list_all_iff intro: param_ok_no_empty_value split: if_splits)

lemma encode_wf:
  "fpdu_wf strict f \<Longrightarrow> encoded_len f \<le> MAX_FPDU_LEN \<Longrightarrow> encode f = Inr (header_bytes f @ body_bytes f)"
  using encode_ok fpdu_wf_no_empty_value by blast

lemma decode_with_header:
  assumes "encoded_len f \<le> MAX_FPDU_LEN"
  shows "decode_with (header_bytes f @ body_bytes f) strict =
    (let g = \<lparr>f_kind = f_kind f, id_dst = id_dst f, id_src = id_src f, f_params = [], f_data = []\<rparr> in
     if is_data (f_kind f) then Inr (g\<lparr>f_data := body_bytes f\<rparr>)
     else and_then (decode_params strict [] 0 (body_bytes f)) (\<lambda>ps.
       let h = g\<lparr>f_params := ps\<rparr> in
       if strict then and_then (validate_template h) (\<lambda>_. Inr h) else Inr h))"
proof -
  have "length (header_bytes f @ body_bytes f) = encoded_len f" by (rule length_body_bytes)
  then have len: "Suc (Suc (Suc (Suc (Suc (Suc (length (body_bytes f))))))) = encoded_len f"
    by simp
  have "kind_from_codes (kind_phase (f_kind f)) (kind_type_code (f_kind f)) = Some (f_kind f)"
    by (simp add: kind_from_codes_iff)
  with assms len show ?thesis
    by (simp add: decode_with_def header_bytes_def to_be_bytes16_def MAX_FPDU_LEN_def Let_def)
qed

lemma decode_with_encode:
  assumes "fpdu_wf strict f" and "strict \<Longrightarrow> template_ok f" and "encoded_len f \<le> MAX_FPDU_LEN"
  shows "decode_with (header_bytes f @ body_bytes f) strict = Inr f"
proof (cases "is_data (f_kind f)")
  case True
  with assms(1) show ?thesis
    unfolding decode_with_header [OF assms(3)] by (simp add: fpdu_wf_def body_bytes_def)
next
  case False
  then have "decode_params strict [] 0 (body_bytes f) = Inr (f_params f)"
    using assms(1) decode_params_emit [of strict "f_params f" "[]" 0]
    by (simp add: fpdu_wf_def body_bytes_def)
  moreover have "f\<lparr>f_data := []\<rparr> = f"
    using False assms(1) by (cases f) (simp add: fpdu_wf_def)
  moreover have "\<lparr>f_kind = f_kind f, id_dst = id_dst f, id_src = id_src f, f_params = f_params f, f_data = []\<rparr>
      = f\<lparr>f_data := []\<rparr>" by simp
  ultimately show ?thesis
    using False assms(2) unfolding decode_with_header [OF assms(3)]
    by (auto simp: template_ok_def Let_def)
qed

lemma decode_with_sound:
  assumes "decode_with bs strict = Inr f"
  shows "fpdu_wf strict f \<and> (strict \<longrightarrow> template_ok f) \<and> encoded_len f \<le> length bs \<and> length bs \<le> MAX_FPDU_LEN"
proof -
  obtain b0 b1 b2 b3 b4 b5 body where bs: "bs = b0 # b1 # b2 # b3 # b4 # b5 # body"
    using assms by (auto simp: decode_with_def split: list.splits)
  then have len: "length bs = be_len b0 b1"
    and k: "kind_from_codes b2 b3 = Some (f_kind f)"
    using assms by (auto simp: decode_with_def Let_def and_then_eq_Inr split: if_splits)
  have max: "length bs \<le> MAX_FPDU_LEN"
    using be_len_less [of b0 b1] by (simp add: len MAX_FPDU_LEN_def del: be_len_less)
  show ?thesis
  proof (cases "is_data (f_kind f)")
    case True
    with assms k max show ?thesis
      by (cases f) (auto simp: bs decode_with_def Let_def fpdu_wf_def template_ok_def encoded_len_def
          HEADER_LEN_def split: if_splits)
  next
    case False
    with assms k obtain ps where ps: "decode_params strict [] 0 body = Inr ps"
      and f: "f_params f = ps" "f_data f = []" and v: "strict \<Longrightarrow> validate_template f = Inr ()"
      by (cases f) (auto simp: bs decode_with_def Let_def and_then_eq_Inr split: if_splits)
    from decode_params_sound [OF ps] False f v max show ?thesis
      by (auto simp: fpdu_wf_def template_ok_def encoded_len_def HEADER_LEN_def bs)
  qed
qed

subsection \<open>Strict and lenient decoding\<close>

lemma decode_items_lenient:
  "decode_items True g acc last_inner bs = Inr items \<Longrightarrow> decode_items False g acc last_inner bs = Inr items"
proof (induction "True" g acc last_inner bs rule: decode_items.induct)
  case (2 g acc last_inner icode buf)
  then obtain v rest p where u: "read_unit icode buf = Inr (v, rest)" "pi_from_code icode = Some p"
    "pgi_contains g p" "\<not> (icode \<le> last_inner \<and> acc \<noteq> [])"
    "decode_items True g (acc @ [(p, v)]) icode rest = Inr items"
    by (auto simp: and_then_eq_Inr split: if_splits)
  from u(2-5) have "decode_items False g (acc @ [(p, v)]) icode rest = Inr items"
    by (intro "2.hyps" [OF u(1) refl]) auto
  with u(1,2) show ?case by simp
qed simp

lemma decode_params_lenient:
  "decode_params True acc last_code bs = Inr ps \<Longrightarrow> decode_params False acc last_code bs = Inr ps"
proof (induction "True" acc last_code bs rule: decode_params.induct)
  case (2 acc last_code c buf)
  let ?last = "if c \<le> last_code \<and> acc \<noteq> [] then last_code else c"
  from "2.prems" obtain v rest where u: "read_unit c buf = Inr (v, rest)"
    and s: "\<not> ((c \<le> last_code \<and> acc \<noteq> []) \<and> True)"
    by (auto simp: and_then_eq_Inr Let_def split: if_splits)
  show ?case
  proof (cases "pgi_from_code c")
    case None
    with "2.prems" u s obtain p where p: "pi_from_code c = Some p"
      and d: "decode_params True (acc @ [Param_Pi p v]) ?last rest = Inr ps"
      by (auto simp: Let_def split: option.splits if_splits)
    from "2.hyps"(1) [OF u refl refl refl s None p d] u p None show ?thesis
      by (simp add: Let_def)
  next
    case (Some g)
    with "2.prems" u s obtain items where i: "decode_items True g [] 0 v = Inr items"
      and d: "decode_params True (acc @ [Param_Pgi g items]) ?last rest = Inr ps"
      by (auto simp: Let_def and_then_eq_Inr split: if_splits)
    from "2.hyps"(2) [OF u refl refl refl s Some i d] u Some decode_items_lenient [OF i] show ?thesis
      by (simp add: Let_def)
  qed
qed simp

lemma decode_with_lenient: "decode_with bs True = Inr f \<Longrightarrow> decode_with bs False = Inr f"
  by (auto simp: decode_with_def Let_def and_then_eq_Inr dest!: decode_params_lenient
      split: list.splits if_splits)

subsection \<open>Diagnostics of decoding errors\<close>

lemma e_diag_err [simp]:
  "e_diag (err_param d) = D_INVALID_PARAMETER" "e_diag (err_protocol d) = D_REMOTE_PROTOCOL_ERROR"
  by (simp_all add: err_param_def err_protocol_def)

lemma and_then_eq_Inl: "and_then m f = Inl e \<longleftrightarrow> m = Inl e \<or> (\<exists>x. m = Inr x \<and> f x = Inl e)"
  by (cases m) simp_all

lemma ok_or_eq_Inl [simp]: "ok_or e m = Inl e' \<longleftrightarrow> m = None \<and> e = e'"
  by (cases m) auto

lemma read_unit_diag: "read_unit c buf = Inl e \<Longrightarrow> e_diag e = D_INVALID_PARAMETER"
  by (auto simp: read_unit_def read_length_def and_then_eq_Inl split: list.splits if_splits)

lemma decode_items_diag:
  "decode_items strict g acc last_inner bs = Inl e \<Longrightarrow> e_diag e = D_INVALID_PARAMETER"
proof (induction strict g acc last_inner bs rule: decode_items.induct)
  case (2 strict g acc last_inner icode buf)
  show ?case
  proof (cases "read_unit icode buf")
    case (Inl e')
    with "2.prems" read_unit_diag show ?thesis by auto
  next
    case (Inr vr)
    then obtain v rest where u: "read_unit icode buf = Inr (v, rest)" by (cases vr) auto
    from "2.IH" [OF u refl] "2.prems" u show ?thesis
      by (cases "pi_from_code icode") (auto split: if_splits)
  qed
qed simp

lemma decode_params_diag:
  "decode_params strict acc last_code bs = Inl e \<Longrightarrow> e_diag e = D_INVALID_PARAMETER"
proof (induction strict acc last_code bs rule: decode_params.induct)
  case (2 strict acc last_code c buf)
  show ?case
  proof (cases "read_unit c buf")
    case (Inl e')
    with "2.prems" read_unit_diag show ?thesis by auto
  next
    case (Inr vr)
    then obtain v rest where u: "read_unit c buf = Inr (v, rest)" by (cases vr) auto
    note IH = "2.IH" [OF u refl refl refl]
    show ?thesis
      using "2.prems" u IH
      by (auto simp: Let_def and_then_eq_Inl split: if_splits option.splits dest: decode_items_diag)
  qed
qed simp

lemma check_params_diag: "check_params k ps = Inl e \<Longrightarrow> e_diag e = D_INVALID_PARAMETER"
proof (induction k ps rule: check_params.induct)
  case (2 k p ps)
  have "check_members g items ms = Inl e \<Longrightarrow> e_diag e = D_INVALID_PARAMETER" for g items ms
    by (induction g items ms rule: check_members.induct) (auto split: if_splits)
  then have "check_param p = Inl e \<Longrightarrow> e_diag e = D_INVALID_PARAMETER"
    by (cases p) (auto simp: Let_def split: if_splits)
  with 2 show ?case by (auto simp: and_then_eq_Inl split: if_splits)
qed simp

lemma validate_template_diag: "validate_template f = Inl e \<Longrightarrow> e_diag e = D_INVALID_PARAMETER"
proof -
  have "check_mandatory k ps rs = Inl e \<Longrightarrow> e_diag e = D_INVALID_PARAMETER" for k ps rs
    by (induction k ps rs rule: check_mandatory.induct) (auto split: if_splits)
  then show "validate_template f = Inl e \<Longrightarrow> e_diag e = D_INVALID_PARAMETER"
    by (auto simp: validate_template_def and_then_eq_Inl dest: check_params_diag)
qed

section \<open>Properties\<close>

text \<open>C7: the round trip of the wire format. A well-formed FPDU that satisfies the template of its
  kind and fits the 16-bit length field is encoded, in exactly the length \<^verbatim>\<open>encoded_len\<close>
  announces, and strict decoding of those bytes gives the same FPDU back.\<close>

theorem fpdu_round_trip:
  assumes "fpdu_wf True f" and "template_ok f" and "encoded_len f \<le> MAX_FPDU_LEN"
  shows "\<exists>bs. encode f = Inr bs \<and> length bs = encoded_len f \<and> decode bs = Inr f"
  using encode_wf [OF assms(1,3)] decode_with_encode [OF assms(1) _ assms(3)] assms(2) length_body_bytes
  unfolding decode_def by blast

definition sample_release :: fpdu where
  "sample_release = fpdu_set_diag D_OK (with_ids (fpdu_new K_Release) 1 2)"

lemma sample_release_params: "f_params sample_release = [Param_Pi Pi_Diag [0, 0, 0]]"
  by (simp add: sample_release_def fpdu_set_diag_def fpdu_set_def with_ids_def fpdu_new_def
      insert_param_def binary_search_by_key_def diag_to_bytes_def D_OK_def to_be_bytes16_def)

lemma sample_release_wf:
  "fpdu_wf True sample_release" "template_ok sample_release" "encoded_len sample_release \<le> MAX_FPDU_LEN"
proof -
  have k: "f_kind sample_release = K_Release" "f_data sample_release = []"
    by (simp_all add: sample_release_def fpdu_set_diag_def fpdu_set_def with_ids_def fpdu_new_def)
  show "fpdu_wf True sample_release"
    by (simp add: fpdu_wf_def k sample_release_params params_ok_def canonical_def is_data_def)
  show "template_ok sample_release"
    by (simp add: template_ok_def validate_template_def k sample_release_params kind_template_def
        template_defs rule_m_def rule_o_def pi_code_def pi_row_def pi_max_len_def)
  show "encoded_len sample_release \<le> MAX_FPDU_LEN"
    by (simp add: encoded_len_def k sample_release_params is_data_def unit_len_def HEADER_LEN_def
        MAX_FPDU_LEN_def)
qed

theorem fpdu_round_trip_witness:
  "\<exists>bs. encode sample_release = Inr bs \<and> length bs = encoded_len sample_release \<and>
     decode bs = Inr sample_release"
  by (rule fpdu_round_trip [OF sample_release_wf])

text \<open>C33: soundness of strict decoding. An accepted FPDU is well formed, satisfies the template of
  its kind, and can be encoded again, in at most as many bytes as were received, into bytes that
  decode to the same FPDU.\<close>

theorem fpdu_decode_sound:
  assumes "decode bs = Inr f"
  shows "fpdu_wf True f \<and> template_ok f \<and>
    (\<exists>bs'. encode f = Inr bs' \<and> length bs' \<le> length bs \<and> decode bs' = Inr f)"
proof -
  have d: "fpdu_wf True f" "template_ok f" "encoded_len f \<le> length bs" "length bs \<le> MAX_FPDU_LEN"
    using decode_with_sound assms by (auto simp: decode_def)
  then have "encoded_len f \<le> MAX_FPDU_LEN" by simp
  with d encode_wf [OF d(1)] decode_with_encode [OF d(1)] length_body_bytes [of f] show ?thesis
    unfolding decode_def by fastforce
qed

definition sample_write_bytes :: bytes where
  "sample_write_bytes = [0, 6, 0xC0, 2, 5, 0]"

lemma decode_sample_write: "decode sample_write_bytes = Inr (with_ids (fpdu_new K_Write) 5 0)"
  by code_simp

theorem fpdu_decode_sound_witness:
  "let f = with_ids (fpdu_new K_Write) 5 0 in fpdu_wf True f \<and> template_ok f \<and>
    (\<exists>bs'. encode f = Inr bs' \<and> length bs' \<le> length sample_write_bytes \<and> decode bs' = Inr f)"
  unfolding Let_def by (rule fpdu_decode_sound [OF decode_sample_write])

text \<open>C36: exactly when encoding fails, and how. An FPDU longer than 65535 bytes is refused with its
  length, one with an empty parameter value with \<^verbatim>\<open>EmptyValue\<close> and the code of the first such parameter in the order of
  writing (inside a group as well), and any other is encoded in the announced length.\<close>

theorem fpdu_encode_total:
  "case encode f of
     Inr bs \<Rightarrow> encoded_len f \<le> MAX_FPDU_LEN \<and>
       (is_data (f_kind f) \<or> list_all no_empty_value (f_params f)) \<and> length bs = encoded_len f
   | Inl (TooLong n) \<Rightarrow> n = encoded_len f \<and> n > MAX_FPDU_LEN
   | Inl (EmptyValue c) \<Rightarrow> encoded_len f \<le> MAX_FPDU_LEN \<and> \<not> is_data (f_kind f) \<and>
       \<not> list_all no_empty_value (f_params f) \<and>
       (\<exists>before p after. concat (map param_values (f_params f)) = before @ (p, []) # after \<and>
         list_all (\<lambda>i. snd i \<noteq> []) before \<and> c = pi_code p)"
proof (cases "encoded_len f \<le> MAX_FPDU_LEN")
  case False
  then show ?thesis by (simp add: encode_too_long)
next
  case True
  show ?thesis
  proof (cases "is_data (f_kind f) \<or> list_all no_empty_value (f_params f)")
    case ok: True
    have "encode f = Inr (header_bytes f @ body_bytes f)" by (rule encode_ok [OF True ok])
    with True ok length_body_bytes [of f] show ?thesis by simp
  next
    case False
    with encode_empty_value [OF True] True show ?thesis unfolding first_empty_def by force
  qed
qed

text \<open>lenient decoding accepts everything strict decoding accepts, with the same result.\<close>

theorem decode_strict_lenient: "decode bs = Inr f \<Longrightarrow> decode_lenient bs = Inr f"
  by (simp add: decode_def decode_lenient_def decode_with_lenient)

theorem decode_strict_lenient_witness:
  "decode_lenient sample_write_bytes = Inr (with_ids (fpdu_new K_Write) 5 0)"
  by (rule decode_strict_lenient [OF decode_sample_write])

text \<open>a decoding error carries one of the two diagnostics of the annex: a protocol error
  (D3-311) when the header is wrong, otherwise an invalid parameter (D3-318).\<close>

theorem decode_error_diag:
  assumes "decode_with bs strict = Inl e"
  shows "e_diag e = (case bs of
      b0 # b1 # b2 # b3 # b4 # b5 # body \<Rightarrow>
        if be_len b0 b1 = length bs \<and> kind_from_codes b2 b3 \<noteq> None then D_INVALID_PARAMETER
        else D_REMOTE_PROTOCOL_ERROR
    | _ \<Rightarrow> D_REMOTE_PROTOCOL_ERROR)"
  using assms
  by (auto simp: decode_with_def Let_def and_then_eq_Inl split: list.splits if_splits
      dest: decode_params_diag validate_template_diag)

theorem decode_error_diag_witness:
  "\<exists>e. decode_with [0, 7, 0xC0, 2, 5, 0] True = Inl e \<and> e_diag e = D_REMOTE_PROTOCOL_ERROR"
proof -
  have "\<exists>e. decode_with [0, 7, 0xC0, 2, 5, 0] True = Inl e"
    by (simp add: decode_with_def be_len_alt)
  then obtain e where "decode_with [0, 7, 0xC0, 2, 5, 0] True = Inl e" by blast
  with decode_error_diag [OF this] show ?thesis by (simp add: be_len_alt)
qed

end
