(* ===== verification/Ebcdic.thy ===== *)
theory Ebcdic
  imports Fpdu_Params
begin

text \<open>
  \<^verbatim>\<open>crates/pesit-core/src/ebcdic.rs\<close>: the code page 037 translation and the 24-byte pre-connection
  message of the Hors-SIT profile. A \<^verbatim>\<open>&str\<close> is the list of its scalar values; its \<^verbatim>\<open>bytes()\<close> are
  the UTF-8 encoding.
\<close>

section \<open>Translation tables\<close>

definition EBCDIC_TO_LATIN1 :: bytes where
  "EBCDIC_TO_LATIN1 = [
     0x00, 0x01, 0x02, 0x03, 0x9C, 0x09, 0x86, 0x7F, 0x97, 0x8D, 0x8E, 0x0B, 0x0C, 0x0D, 0x0E, 0x0F,
     0x10, 0x11, 0x12, 0x13, 0x9D, 0x85, 0x08, 0x87, 0x18, 0x19, 0x92, 0x8F, 0x1C, 0x1D, 0x1E, 0x1F,
     0x80, 0x81, 0x82, 0x83, 0x84, 0x0A, 0x17, 0x1B, 0x88, 0x89, 0x8A, 0x8B, 0x8C, 0x05, 0x06, 0x07,
     0x90, 0x91, 0x16, 0x93, 0x94, 0x95, 0x96, 0x04, 0x98, 0x99, 0x9A, 0x9B, 0x14, 0x15, 0x9E, 0x1A,
     0x20, 0xA0, 0xE2, 0xE4, 0xE0, 0xE1, 0xE3, 0xE5, 0xE7, 0xF1, 0xA2, 0x2E, 0x3C, 0x28, 0x2B, 0x7C,
     0x26, 0xE9, 0xEA, 0xEB, 0xE8, 0xED, 0xEE, 0xEF, 0xEC, 0xDF, 0x21, 0x24, 0x2A, 0x29, 0x3B, 0xAC,
     0x2D, 0x2F, 0xC2, 0xC4, 0xC0, 0xC1, 0xC3, 0xC5, 0xC7, 0xD1, 0xA6, 0x2C, 0x25, 0x5F, 0x3E, 0x3F,
     0xF8, 0xC9, 0xCA, 0xCB, 0xC8, 0xCD, 0xCE, 0xCF, 0xCC, 0x60, 0x3A, 0x23, 0x40, 0x27, 0x3D, 0x22,
     0xD8, 0x61, 0x62, 0x63, 0x64, 0x65, 0x66, 0x67, 0x68, 0x69, 0xAB, 0xBB, 0xF0, 0xFD, 0xFE, 0xB1,
     0xB0, 0x6A, 0x6B, 0x6C, 0x6D, 0x6E, 0x6F, 0x70, 0x71, 0x72, 0xAA, 0xBA, 0xE6, 0xB8, 0xC6, 0xA4,
     0xB5, 0x7E, 0x73, 0x74, 0x75, 0x76, 0x77, 0x78, 0x79, 0x7A, 0xA1, 0xBF, 0xD0, 0xDD, 0xDE, 0xAE,
     0x5E, 0xA3, 0xA5, 0xB7, 0xA9, 0xA7, 0xB6, 0xBC, 0xBD, 0xBE, 0x5B, 0x5D, 0xAF, 0xA8, 0xB4, 0xD7,
     0x7B, 0x41, 0x42, 0x43, 0x44, 0x45, 0x46, 0x47, 0x48, 0x49, 0xAD, 0xF4, 0xF6, 0xF2, 0xF3, 0xF5,
     0x7D, 0x4A, 0x4B, 0x4C, 0x4D, 0x4E, 0x4F, 0x50, 0x51, 0x52, 0xB9, 0xFB, 0xFC, 0xF9, 0xFA, 0xFF,
     0x5C, 0xF7, 0x53, 0x54, 0x55, 0x56, 0x57, 0x58, 0x59, 0x5A, 0xB2, 0xD4, 0xD6, 0xD2, 0xD3, 0xD5,
     0x30, 0x31, 0x32, 0x33, 0x34, 0x35, 0x36, 0x37, 0x38, 0x39, 0xB3, 0xDB, 0xDC, 0xD9, 0xDA, 0x9F]"

fun invert_loop :: "bytes \<Rightarrow> nat \<Rightarrow> bytes \<Rightarrow> bytes" where
  "invert_loop [] i out = out"
| "invert_loop (t # ts) i out = invert_loop ts (Suc i) (out[unat t := word_of_nat i])"

definition ebcdic_invert :: "bytes \<Rightarrow> bytes" where
  "ebcdic_invert table = invert_loop table 0 (replicate 256 0)"

definition LATIN1_TO_EBCDIC :: bytes where
  "LATIN1_TO_EBCDIC = ebcdic_invert EBCDIC_TO_LATIN1"

definition to_latin1 :: "bytes \<Rightarrow> bytes" where
  "to_latin1 buf = map (\<lambda>b. EBCDIC_TO_LATIN1 ! unat b) buf"

definition to_ebcdic :: "bytes \<Rightarrow> bytes" where
  "to_ebcdic buf = map (\<lambda>b. LATIN1_TO_EBCDIC ! unat b) buf"

section \<open>Pre-connection message\<close>

definition utf8_char :: "nat \<Rightarrow> bytes" where
  "utf8_char c = map word_of_nat
     (if c < 0x80 then [c]
      else if c < 0x800 then [0xC0 + c div 64, 0x80 + c mod 64]
      else if c < 0x10000 then [0xE0 + c div 4096, 0x80 + c div 64 mod 64, 0x80 + c mod 64]
      else [0xF0 + c div 262144, 0x80 + c div 4096 mod 64, 0x80 + c div 64 mod 64, 0x80 + c mod 64])"

definition str_bytes :: "rstring \<Rightarrow> bytes" where
  "str_bytes s = concat (map utf8_char s)"

definition PRECONNECT_LEN :: usize where
  "PRECONNECT_LEN = 24"

definition PRECONNECT_MAGIC :: bytes where
  "PRECONNECT_MAGIC = [0xD7, 0xC5, 0xE2, 0xC9, 0xE3, 0x40, 0x40, 0x40]"

definition PRECONNECT_ACK :: bytes where
  "PRECONNECT_ACK = [0xC1, 0xC3, 0xD2, 0xF0]"

definition PRECONNECT_NAK :: bytes where
  "PRECONNECT_NAK = [0xD5, 0xC1, 0xD2, 0xF0]"

text \<open>
  \<open>copy_field\<close> is the loop \<^verbatim>\<open>for (dst, src) in field.iter_mut().zip(bytes.take(8))\<close>: the first bytes of
  the field are overwritten by the translated source bytes, the rest keep their value.
\<close>

fun copy_field :: "bytes \<Rightarrow> bytes \<Rightarrow> bytes" where
  "copy_field (d # ds) (s # ss) = LATIN1_TO_EBCDIC ! unat s # copy_field ds ss"
| "copy_field ds _ = ds"

definition preconnect_message :: "rstring \<Rightarrow> rstring \<Rightarrow> bytes" where
  "preconnect_message identifier password =
     (let msg = replicate PRECONNECT_LEN 0x40;
          msg = PRECONNECT_MAGIC @ drop 8 msg;
          msg = take 8 msg @ copy_field (take 8 (drop 8 msg)) (take 8 (str_bytes identifier)) @ drop 16 msg;
          msg = take 16 msg @ copy_field (take 8 (drop 16 msg)) (take 8 (str_bytes password)) @ drop 24 msg
      in msg)"

definition is_preconnect :: "bytes \<Rightarrow> bool" where
  "is_preconnect data \<longleftrightarrow> length data \<ge> 5 \<and> take 5 data = take 5 PRECONNECT_MAGIC"

definition preconnect_field :: "bytes \<Rightarrow> rstring" where
  "preconnect_field bs = trim_end (map (\<lambda>b. unat (EBCDIC_TO_LATIN1 ! unat b)) bs)"

definition parse_preconnect :: "bytes \<Rightarrow> (rstring \<times> rstring) option" where
  "parse_preconnect data =
     (if \<not> is_preconnect data \<or> length data < PRECONNECT_LEN then None
      else Some (preconnect_field (take 8 (drop 8 data)), preconnect_field (take 8 (drop 16 data))))"

section \<open>The tables are inverse permutations\<close>

lemma length_EBCDIC [simp]: "length EBCDIC_TO_LATIN1 = 256"
  by (simp add: EBCDIC_TO_LATIN1_def)

lemma distinct_EBCDIC: "distinct EBCDIC_TO_LATIN1"
proof -
  have "distinct (map uint EBCDIC_TO_LATIN1)"
    by (simp add: EBCDIC_TO_LATIN1_def)
  then show ?thesis by (simp add: distinct_map)
qed

lemma length_invert_loop [simp]: "length (invert_loop ts i out) = length out"
  by (induction ts i out rule: invert_loop.induct) simp_all

lemma invert_loop_keep:
  "x \<notin> set ts \<Longrightarrow> invert_loop ts i out ! unat x = out ! unat x"
proof (induction ts i out rule: invert_loop.induct)
  case (2 t ts i out)
  then have "unat t \<noteq> unat x" by (metis list.set_intros(1) unsigned_word_eqI)
  with 2 show ?case by simp
qed simp

lemma invert_loop_nth:
  "distinct ts \<Longrightarrow> length out = 256 \<Longrightarrow> j < length ts \<Longrightarrow>
    invert_loop ts i out ! unat (ts ! j) = word_of_nat (i + j)"
proof (induction ts i out arbitrary: j rule: invert_loop.induct)
  case (2 t ts i out)
  then show ?case
    by (cases j) (simp_all add: invert_loop_keep)
qed simp

lemma length_LATIN1 [simp]: "length LATIN1_TO_EBCDIC = 256"
  by (simp add: LATIN1_TO_EBCDIC_def ebcdic_invert_def)

lemma ebcdic_latin1_byte: "LATIN1_TO_EBCDIC ! unat (EBCDIC_TO_LATIN1 ! unat b) = b"
  using invert_loop_nth [OF distinct_EBCDIC, of "replicate 256 0" "unat b" 0]
  by (simp add: LATIN1_TO_EBCDIC_def ebcdic_invert_def)

lemma latin1_ebcdic_byte: "EBCDIC_TO_LATIN1 ! unat (LATIN1_TO_EBCDIC ! unat b) = b"
proof -
  have "inj (\<lambda>c :: u8. EBCDIC_TO_LATIN1 ! unat c)"
    by (rule inj_on_inverseI [where g = "\<lambda>c. LATIN1_TO_EBCDIC ! unat c"]) (rule ebcdic_latin1_byte)
  then have "surj (\<lambda>c :: u8. EBCDIC_TO_LATIN1 ! unat c)"
    by (intro finite_UNIV_inj_surj) simp_all
  then obtain c where "b = EBCDIC_TO_LATIN1 ! unat (c :: u8)" by (metis surjD)
  then show ?thesis by (simp add: ebcdic_latin1_byte)
qed

text \<open>The two code page translations are inverse to each other on every byte string.\<close>

theorem ebcdic_latin1_inverse: "to_latin1 (to_ebcdic buf) = buf \<and> to_ebcdic (to_latin1 buf) = buf"
  by (simp add: to_latin1_def to_ebcdic_def comp_def latin1_ebcdic_byte ebcdic_latin1_byte)

section \<open>Round trip of the pre-connection message\<close>

lemma copy_field_eq:
  "length ss \<le> length ds \<Longrightarrow> copy_field ds ss = to_ebcdic ss @ drop (length ss) ds"
  by (induction ds ss rule: copy_field.induct) (simp_all add: to_ebcdic_def)

lemma preconnect_message_eq:
  "preconnect_message i p = PRECONNECT_MAGIC
     @ to_ebcdic (take 8 (str_bytes i)) @ replicate (8 - length (str_bytes i)) 0x40
     @ to_ebcdic (take 8 (str_bytes p)) @ replicate (8 - length (str_bytes p)) 0x40"
proof -
  have f: "copy_field (replicate 8 0x40) (take 8 (str_bytes s)) =
      to_ebcdic (take 8 (str_bytes s)) @ replicate (8 - length (str_bytes s)) 0x40" for s
    by (simp add: copy_field_eq)
  have l: "length (copy_field (replicate 8 0x40) (take 8 (str_bytes s))) = 8" for s
    by (simp add: f to_ebcdic_def)
  show ?thesis
    by (simp add: preconnect_message_def PRECONNECT_LEN_def Let_def PRECONNECT_MAGIC_def l flip: f)
qed

lemma length_preconnect_message: "length (preconnect_message i p) = PRECONNECT_LEN"
  by (simp add: preconnect_message_eq PRECONNECT_LEN_def PRECONNECT_MAGIC_def to_ebcdic_def)

lemma str_bytes_ascii: "\<forall>c\<in>set s. c < 128 \<Longrightarrow> str_bytes s = map word_of_nat s"
  by (induction s) (auto simp: str_bytes_def utf8_char_def)

lemma trim_end_blanks: "trim_end (s @ replicate n 32) = trim_end s"
proof -
  have "dropWhile is_whitespace (replicate n 32 @ xs) = dropWhile is_whitespace xs" for xs
    by (induction n) (simp_all add: is_whitespace_def)
  then show ?thesis by (simp add: trim_end_def)
qed

lemma EBCDIC_blank: "EBCDIC_TO_LATIN1 ! 64 = 32"
  by code_simp

lemma preconnect_field_eq:
  "preconnect_field (to_ebcdic bs @ replicate n 0x40) = trim_end (map unat bs)"
proof -
  have "map (\<lambda>b. unat (EBCDIC_TO_LATIN1 ! unat b)) (to_ebcdic bs) = map unat bs"
    by (simp add: to_ebcdic_def latin1_ebcdic_byte)
  then show ?thesis by (simp add: preconnect_field_def EBCDIC_blank trim_end_blanks)
qed

lemma parse_preconnect_message:
  "parse_preconnect (preconnect_message i p) =
     Some (trim_end (map unat (take 8 (str_bytes i))), trim_end (map unat (take 8 (str_bytes p))))"
proof -
  let ?f = "\<lambda>s. to_ebcdic (take 8 (str_bytes s)) @ replicate (8 - length (str_bytes s)) 0x40"
  have m: "preconnect_message i p = PRECONNECT_MAGIC @ ?f i @ ?f p"
    by (simp add: preconnect_message_eq)
  have len: "length PRECONNECT_MAGIC = 8" "\<And>s. length (?f s) = 8"
    by (simp_all add: PRECONNECT_MAGIC_def to_ebcdic_def)
  have take: "take 8 (x @ y) = x" "drop 8 (x @ y) = y" "drop 16 (x @ y) = drop 8 y" if "length x = 8"
    for x y :: bytes using that by simp_all
  have "take 8 (drop 8 (preconnect_message i p)) = ?f i"
    unfolding m take(2) [OF len(1)] by (rule take(1) [OF len(2)])
  moreover have "take 8 (drop 16 (preconnect_message i p)) = ?f p"
    unfolding m take(3) [OF len(1)] take(2) [OF len(2)] using len(2) [of p] by simp
  moreover have "is_preconnect (preconnect_message i p)"
    unfolding m is_preconnect_def using len(1) by simp
  ultimately show ?thesis
    using length_preconnect_message [of i p]
    by (simp add: parse_preconnect_def preconnect_field_eq)
qed

lemma parse_preconnect_ascii:
  assumes "\<forall>c\<in>set i \<union> set p. c < 128" and "length i \<le> 8" and "length p \<le> 8"
  shows "parse_preconnect (preconnect_message i p) = Some (trim_end i, trim_end p)"
proof -
  have "map unat (map word_of_nat s :: bytes) = s" if "\<forall>c\<in>set s. c < 128" for s
    using that by (induction s) auto
  with assms show ?thesis
    by (simp add: parse_preconnect_message str_bytes_ascii ball_Un)
qed

text \<open>an ASCII identifier and password of at most 8 characters survive the pre-connection
  message: the server reads back both, trailing blanks trimmed.\<close>

theorem preconnect_round_trip:
  assumes "\<forall>c\<in>set i \<union> set p. c < 128" and "length i \<le> 8" and "length p \<le> 8"
  shows "parse_preconnect (preconnect_message i p) = Some (trim_end i, trim_end p)"
  by (rule parse_preconnect_ascii [OF assms])

theorem preconnect_round_trip_witness:
  "parse_preconnect (preconnect_message [80, 87, 49] [83, 69, 67, 32]) = Some ([80, 87, 49], [83, 69, 67])"
  using preconnect_round_trip [of "[80, 87, 49]" "[83, 69, 67, 32]"]
  by (simp add: trim_end_def is_whitespace_def)

text \<open>A character outside ASCII does not survive: the message is built from the UTF-8 bytes of the
  string while it is parsed as ISO-8859-1, so one accented letter comes back as two characters.\<close>

lemma preconnect_non_ascii:
  "parse_preconnect (preconnect_message [0xE9] []) = Some ([0xC3, 0xA9], [])"
  by (simp add: parse_preconnect_message str_bytes_def utf8_char_def trim_end_def is_whitespace_def)

end
