(* ===== verification/Params.thy ===== *)
theory Params
  imports Fpdu_Params
begin

text \<open>
  \<^verbatim>\<open>crates/pesit-core/src/params.rs\<close>: typed views of the parameter values negotiated at connection
  and file opening, with the negotiation rules of the server.
\<close>

section \<open>Versions and access types\<close>

datatype pesit_version = Version_D | Version_E

fun version_code :: "pesit_version \<Rightarrow> u64" where
  "version_code Version_D = 1"
| "version_code Version_E = 2"

definition version_from_code :: "u64 \<Rightarrow> pesit_version option" where
  "version_from_code c = (if c = 1 then Some Version_D else if c = 2 then Some Version_E else None)"

datatype access_type = Access_Write | Access_Read | Access_Mixed

fun access_code :: "access_type \<Rightarrow> u64" where
  "access_code Access_Write = 0"
| "access_code Access_Read = 1"
| "access_code Access_Mixed = 2"

definition access_from_code :: "u64 \<Rightarrow> access_type option" where
  "access_from_code c =
     (if c = 0 then Some Access_Write else if c = 1 then Some Access_Read
      else if c = 2 then Some Access_Mixed else None)"

definition allows_write :: "access_type \<Rightarrow> bool" where
  "allows_write a \<longleftrightarrow> a \<in> {Access_Write, Access_Mixed}"

definition allows_read :: "access_type \<Rightarrow> bool" where
  "allows_read a \<longleftrightarrow> a \<in> {Access_Read, Access_Mixed}"

interpretation version_wire: wire_code version_code version_from_code
proof
  show "version_from_code (version_code x) = Some x" for x
    by (cases x) (simp_all add: version_from_code_def)
  show "version_from_code c = Some x \<Longrightarrow> version_code x = c" for c x
    by (auto simp: version_from_code_def split: if_splits)
qed

interpretation access_wire: wire_code access_code access_from_code
proof
  show "access_from_code (access_code x) = Some x" for x
    by (cases x) (simp_all add: access_from_code_def)
  show "access_from_code c = Some x \<Longrightarrow> access_code x = c" for c x
    by (auto simp: access_from_code_def split: if_splits)
qed

section \<open>Synchronisation points\<close>

record sync_option =
  interval_kb :: u16
  so_window :: u8

definition UNDEFINED_INTERVAL :: u16 where
  "UNDEFINED_INTERVAL = 0xFFFF"

definition SYNC_NONE :: sync_option where
  "SYNC_NONE = \<lparr>interval_kb = 0, so_window = 0\<rparr>"

definition sync_to_bytes :: "sync_option \<Rightarrow> bytes" where
  "sync_to_bytes s = to_be_bytes16 (interval_kb s) @ [so_window s]"

fun sync_from_bytes :: "bytes \<Rightarrow> sync_option option" where
  "sync_from_bytes [hi, lo] = Some \<lparr>interval_kb = from_be_bytes16 hi lo, so_window = 0\<rparr>"
| "sync_from_bytes (hi # lo # w # _) = Some \<lparr>interval_kb = from_be_bytes16 hi lo, so_window = w\<rparr>"
| "sync_from_bytes _ = None"

definition sync_enabled :: "sync_option \<Rightarrow> bool" where
  "sync_enabled s \<longleftrightarrow> interval_kb s \<noteq> 0"

definition interval_bytes :: "sync_option \<Rightarrow> u64 option" where
  "interval_bytes s =
     (if interval_kb s = 0 \<or> interval_kb s = UNDEFINED_INTERVAL then None
      else Some (ucast (interval_kb s) * 1024))"

definition sync_negotiate :: "sync_option \<Rightarrow> sync_option \<Rightarrow> sync_option" where
  "sync_negotiate proposed l =
     (if \<not> sync_enabled proposed \<or> \<not> sync_enabled l then SYNC_NONE
      else
        let interval =
          (if interval_kb proposed = UNDEFINED_INTERVAL then interval_kb l
           else if interval_kb l = UNDEFINED_INTERVAL then interval_kb proposed
           else min (interval_kb proposed) (interval_kb l))
        in \<lparr>interval_kb = interval, so_window = min (so_window proposed) (so_window l)\<rparr>)"

section \<open>Compression\<close>

datatype compression = Comp_None | Comp_Horizontal | Comp_Vertical | Comp_Mixed

fun compression_to_bytes :: "compression \<Rightarrow> bytes" where
  "compression_to_bytes Comp_None = [0, 0]"
| "compression_to_bytes Comp_Horizontal = [1, 1]"
| "compression_to_bytes Comp_Vertical = [1, 2]"
| "compression_to_bytes Comp_Mixed = [1, 3]"

definition compression_from_bytes :: "bytes \<Rightarrow> compression option" where
  "compression_from_bytes v =
     (if v = [] \<or> hd v = 0 then Some Comp_None
      else if v = [1, 1] \<or> v = [1] then Some Comp_Horizontal
      else if v = [1, 2] then Some Comp_Vertical
      else if v = [1, 3] then Some Comp_Mixed
      else None)"

definition compression_negotiate :: "compression \<Rightarrow> compression \<Rightarrow> compression" where
  "compression_negotiate requested l =
     (if requested = Comp_None \<or> l = Comp_None then Comp_None
      else if requested = l then requested
      else if requested = Comp_Mixed then l
      else if l = Comp_Mixed then requested
      else Comp_None)"

fun compression_code :: "compression \<Rightarrow> u8" where
  "compression_code Comp_None = 0"
| "compression_code Comp_Horizontal = 1"
| "compression_code Comp_Vertical = 2"
| "compression_code Comp_Mixed = 3"

definition compression_from_code :: "u8 \<Rightarrow> compression option" where
  "compression_from_code c =
     (if c = 0 then Some Comp_None else if c = 1 then Some Comp_Horizontal
      else if c = 2 then Some Comp_Vertical else if c = 3 then Some Comp_Mixed else None)"

interpretation compression_wire: wire_code compression_code compression_from_code
proof
  show "compression_from_code (compression_code x) = Some x" for x
    by (cases x) (simp_all add: compression_from_code_def)
  show "compression_from_code c = Some x \<Longrightarrow> compression_code x = c" for c x
    by (auto simp: compression_from_code_def split: if_splits)
qed

section \<open>Article format, end code, requested attributes\<close>

datatype article_format = Format_Fixed | Format_Variable

fun format_code :: "article_format \<Rightarrow> u8" where
  "format_code Format_Fixed = 0x00"
| "format_code Format_Variable = 0x80"

definition format_from_bytes :: "bytes \<Rightarrow> article_format" where
  "format_from_bytes v =
     (case v of [] \<Rightarrow> Format_Fixed
      | b # _ \<Rightarrow> if b AND 0x80 \<noteq> 0 then Format_Variable else Format_Fixed)"

datatype end_code = End_Error | End_Suspension | End_CancelByServer | End_CancelByRequester | End_Other u8

fun end_code_code :: "end_code \<Rightarrow> u8" where
  "end_code_code End_Error = 4"
| "end_code_code End_Suspension = 8"
| "end_code_code End_CancelByServer = 12"
| "end_code_code End_CancelByRequester = 16"
| "end_code_code (End_Other c) = c"

definition end_code_from_code :: "u8 \<Rightarrow> end_code" where
  "end_code_from_code c =
     (if c = 4 then End_Error else if c = 8 then End_Suspension
      else if c = 12 then End_CancelByServer else if c = 16 then End_CancelByRequester
      else End_Other c)"

record requested_attributes =
  ra_logical :: bool
  ra_physical :: bool
  ra_historical :: bool

definition ATTRIBUTES_ALL :: requested_attributes where
  "ATTRIBUTES_ALL = \<lparr>ra_logical = True, ra_physical = True, ra_historical = True\<rparr>"

definition attributes_code :: "requested_attributes \<Rightarrow> u8" where
  "attributes_code a =
     of_bool (ra_logical a) OR push_bit 1 (of_bool (ra_physical a)) OR push_bit 2 (of_bool (ra_historical a))"

definition attributes_from_code :: "u8 \<Rightarrow> requested_attributes" where
  "attributes_from_code c =
     \<lparr>ra_logical = (c AND 1 \<noteq> 0), ra_physical = (c AND 2 \<noteq> 0), ra_historical = (c AND 4 \<noteq> 0)\<rparr>"

section \<open>Typed access to an FPDU\<close>

definition get_sync_option :: "fpdu \<Rightarrow> sync_option option" where
  "get_sync_option f = Option.bind (fpdu_get f Pi_SyncOption) sync_from_bytes"

definition get_compression :: "fpdu \<Rightarrow> compression option" where
  "get_compression f = Option.bind (fpdu_get f Pi_Compression) compression_from_bytes"

definition get_access_type :: "fpdu \<Rightarrow> access_type option" where
  "get_access_type f = Option.bind (fpdu_get_num f Pi_AccessType) access_from_code"

definition get_version :: "fpdu \<Rightarrow> pesit_version option" where
  "get_version f = Option.bind (fpdu_get_num f Pi_Version) version_from_code"

definition diag_or_ok :: "fpdu \<Rightarrow> diagnostic" where
  "diag_or_ok f = (case fpdu_diag f of None \<Rightarrow> D_OK | Some d \<Rightarrow> d)"

definition get_max_entity_size :: "fpdu \<Rightarrow> u16 option" where
  "get_max_entity_size f = map_option (\<lambda>v. ucast (min v 0xFFFF)) (fpdu_get_num f Pi_MaxEntitySize)"

definition get_transfer_id :: "fpdu \<Rightarrow> u32 option" where
  "get_transfer_id f = map_option (\<lambda>v. ucast (decode_num v)) (fpdu_get f Pi_TransferId)"

definition get_restart_point :: "fpdu \<Rightarrow> u32 option" where
  "get_restart_point f = map_option (\<lambda>v. ucast (decode_num v)) (fpdu_get f Pi_RestartPoint)"

definition get_sync_number :: "fpdu \<Rightarrow> u32 option" where
  "get_sync_number f = map_option (\<lambda>v. ucast (decode_num v)) (fpdu_get f Pi_SyncNumber)"

definition get_end_code :: "fpdu \<Rightarrow> end_code option" where
  "get_end_code f =
     Option.bind (fpdu_get f Pi_EndCode) (\<lambda>v. case v of [] \<Rightarrow> None | c # _ \<Rightarrow> Some (end_code_from_code c))"

section \<open>Round trips of the values\<close>

lemma sync_from_to_bytes [simp]: "sync_from_bytes (sync_to_bytes s) = Some s"
  by (simp add: sync_to_bytes_def to_be_bytes16_def)

lemma compression_from_to_bytes [simp]: "compression_from_bytes (compression_to_bytes c) = Some c"
  by (cases c) (simp_all add: compression_from_bytes_def)

lemma format_from_code [simp]: "format_from_bytes [format_code f] = f"
  by (cases f) (simp_all add: format_from_bytes_def)

lemma end_code_code_from_code [simp]: "end_code_code (end_code_from_code c) = c"
  by (simp add: end_code_from_code_def)

lemma attributes_from_code_code [simp]: "attributes_from_code (attributes_code a) = a"
  by (cases a) (auto simp: attributes_code_def attributes_from_code_def)

section \<open>Negotiation\<close>

text \<open>What a compression setting promises: the set of techniques a peer may use.\<close>

fun techniques :: "compression \<Rightarrow> bool set" where
  "techniques Comp_None = {}"
| "techniques Comp_Horizontal = {False}"
| "techniques Comp_Vertical = {True}"
| "techniques Comp_Mixed = {False, True}"

lemma techniques_inj: "techniques c = techniques d \<Longrightarrow> c = d"
  by (cases c; cases d) auto

text \<open>Compression negotiation yields exactly the techniques both sides support.\<close>

theorem compression_negotiate_meet:
  "techniques (compression_negotiate r l) = techniques r \<inter> techniques l"
  by (cases r; cases l) (simp_all add: compression_negotiate_def)

text \<open>The interval as a bound on the bytes between two points: none when the option is undefined.\<close>

definition interval_bound :: "sync_option \<Rightarrow> nat option" where
  "interval_bound s = (if interval_kb s = UNDEFINED_INTERVAL then None else Some (unat (interval_kb s)))"

text \<open>negotiation of the synchronisation option. The result is in use exactly when both sides
  want it; then its interval is the smaller of the two (an undefined interval yields to the other
  side), its window the smaller of the two, and the result is the same whichever side proposes.\<close>

theorem sync_negotiate_spec:
  "sync_enabled (sync_negotiate p l) = (sync_enabled p \<and> sync_enabled l) \<and>
   (sync_enabled (sync_negotiate p l) \<longrightarrow>
      so_window (sync_negotiate p l) = min (so_window p) (so_window l) \<and>
      interval_bound (sync_negotiate p l) =
        (case (interval_bound p, interval_bound l) of
           (None, b) \<Rightarrow> b | (a, None) \<Rightarrow> a | (Some a, Some b) \<Rightarrow> Some (min a b))) \<and>
   sync_negotiate p l = sync_negotiate l p"
proof -
  have "unat (min a b) = min (unat a) (unat b)" for a b :: u16
    by (simp add: min_def word_le_nat_alt)
  moreover have "min a b \<noteq> UNDEFINED_INTERVAL" if "a \<noteq> UNDEFINED_INTERVAL" "b \<noteq> UNDEFINED_INTERVAL"
    for a b :: u16 using that by (simp add: min_def)
  moreover have "min a b \<noteq> 0" if "a \<noteq> 0" "b \<noteq> 0" for a b :: u16
    using that by (simp add: min_def)
  moreover have "UNDEFINED_INTERVAL \<noteq> 0" by (simp add: UNDEFINED_INTERVAL_def)
  ultimately show ?thesis
    by (auto simp: sync_negotiate_def sync_enabled_def interval_bound_def SYNC_NONE_def Let_def
        min.commute)
qed

theorem sync_negotiate_spec_witness:
  "let p = \<lparr>interval_kb = 64, so_window = 4\<rparr>; l = \<lparr>interval_kb = UNDEFINED_INTERVAL, so_window = 2\<rparr>
   in sync_enabled (sync_negotiate p l) \<and> so_window (sync_negotiate p l) = 2"
  using sync_negotiate_spec [of "\<lparr>interval_kb = 64, so_window = 4\<rparr>"
      "\<lparr>interval_kb = UNDEFINED_INTERVAL, so_window = 2\<rparr>", THEN conjunct1]
    sync_negotiate_spec [of "\<lparr>interval_kb = 64, so_window = 4\<rparr>"
      "\<lparr>interval_kb = UNDEFINED_INTERVAL, so_window = 2\<rparr>", THEN conjunct2, THEN conjunct1]
  unfolding Let_def by (simp add: sync_enabled_def UNDEFINED_INTERVAL_def)

lemma interval_bytes_no_wrap:
  "interval_bytes s = Some n \<Longrightarrow> unat n = unat (interval_kb s) * 1024"
proof -
  assume a: "interval_bytes s = Some n"
  have "unat (interval_kb s) < 65536" using unsigned_less [of "interval_kb s"] by simp
  moreover have "unat (ucast (interval_kb s) :: u64) = unat (interval_kb s)"
    by (rule unat_ucast_up) simp
  ultimately show ?thesis
    using a by (auto simp: interval_bytes_def unat_word_ariths split: if_splits)
qed

end
