(* ===== verification/Compress.thy ===== *)
theory Compress
  imports Params
begin

text \<open>
  \<^verbatim>\<open>crates/pesit-core/src/compress.rs\<close>: horizontal, vertical and mixed compression of articles, the
  decompressor, and the reference article both ends keep. A slice access that would panic in the
  source (a reference shorter than the article) is the value \<open>None\<close> of \<open>compress\<close>; the theorems show
  that the stateful compressor never reaches it. \<open>decompress\<close> returns the output buffer with the
  result, since the source leaves the bytes written so far in the buffer on an error.
\<close>

section \<open>Compression of one article\<close>

definition CHUNK :: usize where
  "CHUNK = 63"

datatype comp_mode = Mode_Literal | Mode_Horizontal | Mode_Vertical | Mode_Mixed

fun mode_from :: "compression \<Rightarrow> comp_mode" where
  "mode_from Comp_None = Mode_Literal"
| "mode_from Comp_Horizontal = Mode_Horizontal"
| "mode_from Comp_Vertical = Mode_Vertical"
| "mode_from Comp_Mixed = Mode_Mixed"

datatype decompress_error = InvalidHeader u8 | Truncated | DecompressTooLong usize

fun horizontal_loop :: "bytes \<Rightarrow> nat \<Rightarrow> bool \<Rightarrow> u8 \<Rightarrow> bytes \<Rightarrow> bytes" where
  "horizontal_loop out header literal cur [] = out"
| "horizontal_loop out header literal cur (b # bs) =
     (if b = cur then
        if literal then
          if out ! header = 1 then horizontal_loop (out[header := 0x82]) header False cur bs
          else
            let out = out[header := out ! header - 1];
                header = length out - 1;
                out = out[header := 0x82] @ [cur]
            in horizontal_loop out header False cur bs
        else horizontal_loop (out[header := out ! header + 1]) header literal cur bs
      else if literal then horizontal_loop (out[header := out ! header + 1] @ [b]) header literal b bs
      else horizontal_loop (out @ [1, b]) (length out) True b bs)"

definition horizontal :: "bytes \<Rightarrow> bytes \<Rightarrow> bytes" where
  "horizontal out chunk =
     (case chunk of
        [] \<Rightarrow> out
      | first # rest \<Rightarrow> horizontal_loop (out @ [1, first]) (length out) True first rest)"

definition count_while :: "(u8 \<Rightarrow> u8 \<Rightarrow> bool) \<Rightarrow> bytes \<Rightarrow> bytes \<Rightarrow> nat" where
  "count_while P xs ys = length (takeWhile (\<lambda>(a, b). P a b) (zip xs ys))"

text \<open>
  The loop of \<^verbatim>\<open>vertical\<close>; \<open>chunk\<close> and \<open>reference\<close> are the slices from the current position. The
  guard on a zero count only matters for a reference shorter than the chunk, where the source
  would not advance; callers pass slices of equal length.
\<close>

function vertical_loop :: "bytes \<Rightarrow> bytes \<Rightarrow> bytes \<Rightarrow> bool \<Rightarrow> bytes" where
  "vertical_loop out chunk reference mixed =
     (if chunk = [] then out
      else
        let eq = count_while (=) chunk reference in
        if eq > 0
        then vertical_loop (out @ [0xC0 OR word_of_nat eq]) (drop eq chunk) (drop eq reference) mixed
        else
          let diff = count_while (\<noteq>) chunk reference;
              piece = take diff chunk;
              out = (if mixed then horizontal out piece else out @ [word_of_nat diff] @ piece)
          in if diff = 0 then out
             else vertical_loop out (drop diff chunk) (drop diff reference) mixed)"
  by pat_completeness auto
termination
  by (relation "measure (\<lambda>(out, chunk, reference, mixed). length chunk)") auto

definition vertical :: "bytes \<Rightarrow> bytes \<Rightarrow> bytes \<Rightarrow> bool \<Rightarrow> bytes" where
  "vertical out chunk reference mixed = vertical_loop out chunk reference mixed"

definition compress_chunk :: "comp_mode \<Rightarrow> bytes \<Rightarrow> bytes \<Rightarrow> bytes \<Rightarrow> bytes" where
  "compress_chunk mode out chunk refc =
     (case mode of
        Mode_Literal \<Rightarrow> out @ [word_of_nat (length chunk)] @ chunk
      | Mode_Horizontal \<Rightarrow> horizontal out chunk
      | Mode_Vertical \<Rightarrow> vertical out chunk refc False
      | Mode_Mixed \<Rightarrow> vertical out chunk refc True)"

function compress_loop :: "comp_mode \<Rightarrow> bytes \<Rightarrow> bytes \<Rightarrow> bytes \<Rightarrow> bytes option" where
  "compress_loop mode out article reference =
     (if article = [] then Some out
      else
        let n = min CHUNK (length article) in
        if n > length reference then None
        else compress_loop mode (compress_chunk mode out (take n article) (take n reference))
               (drop n article) (drop n reference))"
  by pat_completeness auto
termination
  by (relation "measure (\<lambda>(mode, out, article, reference). length article)") (auto simp: CHUNK_def)

definition compress :: "comp_mode \<Rightarrow> bytes \<Rightarrow> bytes \<Rightarrow> bytes option" where
  "compress mode article reference = compress_loop mode [] article reference"

section \<open>Decompression\<close>

function decompress_loop ::
    "bytes \<Rightarrow> usize \<Rightarrow> bytes \<Rightarrow> bytes \<Rightarrow> bytes \<times> (decompress_error, unit) result" where
  "decompress_loop reference max_len out compressed =
     (case compressed of
        [] \<Rightarrow> (out, Inr ())
      | h # rest \<Rightarrow>
         (let n = unat (h AND 0x3F) in
          if h AND 0xC0 = 0xC0 then
            (if length out + n > max_len then (out, Inl (DecompressTooLong max_len))
             else if length out + n > length reference
                  then (out, Inl (DecompressTooLong (length reference)))
             else decompress_loop reference max_len (out @ take n (drop (length out) reference)) rest)
          else if h AND 0xC0 = 0x80 then
            (case rest of
               [] \<Rightarrow> (out, Inl Truncated)
             | b # rest' \<Rightarrow>
                (let n = unat (h AND 0x7F) in
                 if length out + n > max_len then (out, Inl (DecompressTooLong max_len))
                 else decompress_loop reference max_len (out @ replicate n b) rest'))
          else if h AND 0xC0 = 0 then
            (if n > length rest then (out, Inl Truncated)
             else if length out + n > max_len then (out, Inl (DecompressTooLong max_len))
             else decompress_loop reference max_len (out @ take n rest) (drop n rest))
          else (out, Inl (InvalidHeader h))))"
  by pat_completeness auto
termination
  by (relation "measure (\<lambda>(reference, max_len, out, compressed). length compressed)") auto

definition decompress :: "bytes \<Rightarrow> bytes \<Rightarrow> usize \<Rightarrow> bytes \<times> (decompress_error, unit) result" where
  "decompress compressed reference max_len = decompress_loop reference max_len [] compressed"

section \<open>The reference article and the stateful ends\<close>

type_synonym reference = bytes

definition resize :: "nat \<Rightarrow> bytes \<Rightarrow> bytes" where
  \<comment> \<open>\<^verbatim>\<open>Vec::resize(n, 0)\<close>\<close>
  "resize n buf = take n buf @ replicate (n - length buf) 0"

definition reference_new :: "usize \<Rightarrow> reference" where
  "reference_new max_article = replicate (max max_article 1) 0"

definition reference_update :: "bytes \<Rightarrow> reference \<Rightarrow> reference" where
  "reference_update article buf =
     (let buf = (if length article > length buf then resize (length article) buf else buf)
      in article @ drop (length article) buf)"

record compressor =
  c_compression :: compression
  c_reference :: reference
  c_after_sync :: bool

definition compressor_new :: "compression \<Rightarrow> usize \<Rightarrow> compressor" where
  "compressor_new c max_article =
     \<lparr>c_compression = c, c_reference = reference_new max_article, c_after_sync = True\<rparr>"

definition compressor_enabled :: "compressor \<Rightarrow> bool" where
  "compressor_enabled c \<longleftrightarrow> c_compression c \<noteq> Comp_None"

definition compressor_sync_point :: "compressor \<Rightarrow> compressor" where
  "compressor_sync_point c = c\<lparr>c_after_sync := True\<rparr>"

definition compressor_compress :: "bytes \<Rightarrow> compressor \<Rightarrow> (bytes \<times> compressor) option" where
  "compressor_compress article c =
     (let c = (if length article > length (c_reference c)
               then c\<lparr>c_reference := resize (length article) (c_reference c)\<rparr> else c);
          mode = (if c_after_sync c then Mode_Literal else mode_from (c_compression c))
      in case compress mode article (c_reference c) of
           None \<Rightarrow> None
         | Some out \<Rightarrow>
             Some (out, c\<lparr>c_reference := reference_update article (c_reference c), c_after_sync := False\<rparr>))"

record decompressor =
  d_reference :: reference
  d_max_article :: usize
  d_scratch :: bytes

definition decompressor_new :: "usize \<Rightarrow> decompressor" where
  "decompressor_new max_article =
     \<lparr>d_reference = reference_new max_article, d_max_article = max max_article 1, d_scratch = []\<rparr>"

definition decompressor_decompress ::
    "bytes \<Rightarrow> decompressor \<Rightarrow> (decompress_error, bytes) result \<times> decompressor" where
  "decompressor_decompress compressed d =
     (let (out, res) = decompress compressed (d_reference d) (d_max_article d);
          d = d\<lparr>d_scratch := out\<rparr>
      in case res of
           Inl e \<Rightarrow> (Inl e, d)
         | Inr _ \<Rightarrow>
             (Inr (d_scratch d), d\<lparr>d_reference := reference_update (d_scratch d) (d_reference d)\<rparr>))"

section \<open>Strings\<close>

declare decompress_loop.simps [simp del] vertical_loop.simps [simp del] compress_loop.simps [simp del]

text \<open>The header bytes of the three kinds of strings, read back by the masks of the decompressor.\<close>

lemma header_literal:
  assumes "n < 64"
  shows "(word_of_nat n :: u8) AND 0xC0 = 0" "unat ((word_of_nat n :: u8) AND 0x3F) = n"
proof -
  have *: "n \<in> set [0..<64]" using assms by simp
  have "list_all (\<lambda>n. (word_of_nat n :: u8) AND 0xC0 = 0 \<and> unat ((word_of_nat n :: u8) AND 0x3F) = n) [0..<64]"
    by (simp add: upt_rec)
  with * show "(word_of_nat n :: u8) AND 0xC0 = 0" "unat ((word_of_nat n :: u8) AND 0x3F) = n"
    by (simp_all only: list_all_iff)
qed

lemma header_run:
  assumes "n < 64"
  shows "(0x80 + word_of_nat n :: u8) AND 0xC0 = 0x80" "unat ((0x80 + word_of_nat n :: u8) AND 0x7F) = n"
proof -
  have *: "n \<in> set [0..<64]" using assms by simp
  have "list_all (\<lambda>n. (0x80 + word_of_nat n :: u8) AND 0xC0 = 0x80 \<and>
      unat ((0x80 + word_of_nat n :: u8) AND 0x7F) = n) [0..<64]"
    by (simp add: upt_rec)
  with * show "(0x80 + word_of_nat n :: u8) AND 0xC0 = 0x80" "unat ((0x80 + word_of_nat n :: u8) AND 0x7F) = n"
    by (simp_all only: list_all_iff)
qed

lemma header_vertical:
  assumes "n < 64"
  shows "(0xC0 OR word_of_nat n :: u8) AND 0xC0 = 0xC0" "unat ((0xC0 OR word_of_nat n :: u8) AND 0x3F) = n"
proof -
  have *: "n \<in> set [0..<64]" using assms by simp
  have "list_all (\<lambda>n. (0xC0 OR word_of_nat n :: u8) AND 0xC0 = 0xC0 \<and>
      unat ((0xC0 OR word_of_nat n :: u8) AND 0x3F) = n) [0..<64]"
    by (simp add: upt_rec)
  with * show "(0xC0 OR word_of_nat n :: u8) AND 0xC0 = 0xC0" "unat ((0xC0 OR word_of_nat n :: u8) AND 0x3F) = n"
    by (simp_all only: list_all_iff)
qed

lemma decompress_Nil [simp]: "decompress_loop ref m out [] = (out, Inr ())"
  by (simp add: decompress_loop.simps)

lemma decompress_literal:
  assumes "length lits < 64" and "length out + length lits \<le> m"
  shows "decompress_loop ref m out (word_of_nat (length lits) # lits @ rest) =
    decompress_loop ref m (out @ lits) rest"
  using assms header_literal [OF assms(1)]
  by (subst decompress_loop.simps) (simp add: Let_def)

lemma decompress_run:
  assumes "n < 64" and "length out + n \<le> m"
  shows "decompress_loop ref m out ((0x80 + word_of_nat n) # b # rest) =
    decompress_loop ref m (out @ replicate n b) rest"
  using assms header_run [OF assms(1)]
  by (subst decompress_loop.simps) (simp add: Let_def)

lemma decompress_vertical:
  assumes "n < 64" and "length out + n \<le> m" and "length out + n \<le> length ref"
  shows "decompress_loop ref m out ((0xC0 OR word_of_nat n) # rest) =
    decompress_loop ref m (out @ take n (drop (length out) ref)) rest"
  using assms header_vertical [OF assms(1)]
  by (subst decompress_loop.simps) (simp add: Let_def)

section \<open>Horizontal strings\<close>

text \<open>The string under construction at the end of the buffer and the bytes it stands for.\<close>

definition open_string :: "bool \<Rightarrow> bytes \<Rightarrow> bytes" where
  "open_string literal content =
     (if literal then word_of_nat (length content) # content
      else [0x80 + word_of_nat (length content), last content])"

definition open_ok :: "bool \<Rightarrow> u8 \<Rightarrow> bytes \<Rightarrow> bool" where
  "open_ok literal cur content \<longleftrightarrow> content \<noteq> [] \<and> last content = cur \<and>
     (\<not> literal \<longrightarrow> content = replicate (length content) cur)"

text \<open>\<open>expands w bs\<close>: the strings \<open>w\<close> decompress to \<open>bs\<close> whatever precedes and follows them.\<close>

definition expands :: "bytes \<Rightarrow> usize \<Rightarrow> bytes \<Rightarrow> bytes \<Rightarrow> bytes \<Rightarrow> bool" where
  "expands ref m out w bs \<longleftrightarrow>
     (\<forall>rest. decompress_loop ref m out (w @ rest) = decompress_loop ref m (out @ bs) rest)"

lemma expands_Nil [simp]: "expands ref m out [] []"
  by (simp add: expands_def)

lemma expands_append:
  "expands ref m out w bs \<Longrightarrow> expands ref m (out @ bs) w' bs' \<Longrightarrow> expands ref m out (w @ w') (bs @ bs')"
  by (simp add: expands_def)

lemma expands_open_string:
  assumes "open_ok literal cur content" and "length content < 64" and "length out + length content \<le> m"
  shows "expands ref m out (open_string literal content) content"
proof (cases literal)
  case True
  with assms show ?thesis by (simp add: expands_def open_string_def decompress_literal)
next
  case False
  with assms(1) have "content = replicate (length content) cur" "last content = cur"
    by (simp_all add: open_ok_def)
  with False decompress_run [OF assms(2,3)] show ?thesis
    by (simp add: expands_def open_string_def)
qed

lemma horizontal_loop_expands:
  assumes "open_ok literal cur content" and "length content + length bs < 64"
  shows "\<exists>w. horizontal_loop (pre @ open_string literal content) (length pre) literal cur bs = pre @ w \<and>
    (\<forall>out. length out + length content + length bs \<le> m \<longrightarrow> expands ref m out w (content @ bs))"
  using assms
proof (induction bs arbitrary: pre literal cur content)
  case Nil
  then show ?case by (auto intro!: expands_open_string)
next
  case (Cons b bs)
  have ne: "content \<noteq> []" and last: "last content = cur"
    using Cons.prems(1) by (simp_all add: open_ok_def)
  obtain c where split: "content = c @ [cur]"
    using ne last append_butlast_last_id by metis
  consider (run_start) "b = cur" "literal" "length content = 1"
    | (detach) "b = cur" "literal" "length content > 1"
    | (run) "b = cur" "\<not> literal"
    | (extend) "b \<noteq> cur" "literal"
    | (fresh) "b \<noteq> cur" "\<not> literal"
    using ne by (cases content) auto
  then show ?case
  proof cases
    case run_start
    with split have c: "content = [cur]" by (cases content) auto
    from Cons.IH [of False cur "[cur, cur]" pre] Cons.prems run_start c show ?thesis
      by (simp add: open_string_def open_ok_def numeral_2_eq_2)
  next
    case detach
    have l: "length content = Suc (length c)" "c \<noteq> []" using detach split by auto
    have "pre @ open_string literal content = pre @ word_of_nat (Suc (length c)) # c @ [cur]"
      using detach split l(1) by (simp add: open_string_def)
    moreover have "(word_of_nat (Suc (length c)) :: u8) \<noteq> 1"
    proof -
      have "unat (word_of_nat (Suc (length c)) :: u8) = Suc (length c)"
        using Cons.prems(2) l(1) by (intro unat_of_nat_u8) simp
      with l(2) show ?thesis by (metis One_nat_def Suc_inject length_0_conv unsigned_1)
    qed
    ultimately have step: "horizontal_loop (pre @ open_string literal content) (length pre) literal cur (b # bs)
        = horizontal_loop ((pre @ open_string True c) @ open_string False [cur, cur])
            (length (pre @ open_string True c)) False cur bs"
      using detach by (simp add: open_string_def Let_def list_update_append)
    obtain w where w: "horizontal_loop ((pre @ open_string True c) @ open_string False [cur, cur])
            (length (pre @ open_string True c)) False cur bs = (pre @ open_string True c) @ w"
        "\<And>out. length out + 2 + length bs \<le> m \<Longrightarrow> expands ref m out w ([cur, cur] @ bs)"
      using Cons.IH [of False cur "[cur, cur]" "pre @ open_string True c"] Cons.prems(2) l
      by (auto simp: open_ok_def numeral_2_eq_2)
    have "expands ref m out (open_string True c @ w) (content @ b # bs)"
      if o: "length out + length content + length (b # bs) \<le> m" for out
    proof -
      have "expands ref m out (open_string True c) c"
        using o l Cons.prems(2) by (intro expands_open_string) (auto simp: open_ok_def)
      moreover have "expands ref m (out @ c) w ([cur, cur] @ bs)"
        using o l by (intro w(2)) simp
      ultimately have "expands ref m out (open_string True c @ w) (c @ [cur, cur] @ bs)"
        by (rule expands_append)
      then show ?thesis using split detach(1) by simp
    qed
    with step w(1) show ?thesis by (intro exI [of _ "open_string True c @ w"]) auto
  next
    case run
    with Cons.prems(1) have c: "content = replicate (length content) cur" by (simp add: open_ok_def)
    then have c': "content @ [b] = replicate (length (content @ [b])) cur"
      using run by (metis length_append_singleton replicate_Suc replicate_append_same)
    have "horizontal_loop (pre @ open_string literal content) (length pre) literal cur (b # bs)
        = horizontal_loop (pre @ open_string False (content @ [b])) (length pre) False cur bs"
      using run last by (simp add: open_string_def list_update_append add.assoc add.commute)
    moreover have "open_ok False cur (content @ [b])"
      using c' run(1) unfolding open_ok_def by simp
    ultimately show ?thesis
      using Cons.IH [of False cur "content @ [b]" pre] Cons.prems(2) by simp
  next
    case extend
    have "horizontal_loop (pre @ open_string literal content) (length pre) literal cur (b # bs)
        = horizontal_loop (pre @ open_string True (content @ [b])) (length pre) True b bs"
      using extend by (simp add: open_string_def list_update_append add.commute)
    with Cons.IH [of True b "content @ [b]" pre] Cons.prems(2) extend show ?thesis
      by (simp add: open_ok_def)
  next
    case fresh
    let ?p = "pre @ open_string literal content"
    have "horizontal_loop ?p (length pre) literal cur (b # bs)
        = horizontal_loop (?p @ open_string True [b]) (length ?p) True b bs"
      using fresh by (simp add: open_string_def)
    moreover obtain w where w: "horizontal_loop (?p @ open_string True [b]) (length ?p) True b bs = ?p @ w"
        "\<And>out. length out + 1 + length bs \<le> m \<Longrightarrow> expands ref m out w ([b] @ bs)"
      using Cons.IH [of True b "[b]" ?p] Cons.prems(2) ne by (auto simp: open_ok_def Suc_le_eq)
    moreover have "expands ref m out (open_string literal content @ w) (content @ [b] @ bs)"
      if "length out + length content + length (b # bs) \<le> m" for out
      using that Cons.prems
      by (intro expands_append w(2) expands_open_string [OF Cons.prems(1)]) simp_all
    ultimately show ?thesis by (intro exI [of _ "open_string literal content @ w"]) auto
  qed
qed

lemma horizontal_expands:
  assumes "length chunk < 64"
  shows "\<exists>w. horizontal out chunk = out @ w \<and>
    (\<forall>o'. length o' + length chunk \<le> m \<longrightarrow> expands ref m o' w chunk)"
proof (cases chunk)
  case Nil
  then show ?thesis by (simp add: horizontal_def)
next
  case (Cons b bs)
  with assms horizontal_loop_expands [of True b "[b]" bs out m ref] show ?thesis
    by (simp add: horizontal_def open_ok_def open_string_def)
qed

section \<open>Vertical strings\<close>

lemma count_while_le: "count_while P xs ys \<le> length xs"
  using length_takeWhile_le [of "\<lambda>(a, b). P a b" "zip xs ys"] by (simp add: count_while_def)

lemma count_while_eq_take: "take (count_while (=) xs ys) xs = take (count_while (=) xs ys) ys"
proof (induction xs arbitrary: ys)
  case (Cons x xs)
  then show ?case by (cases ys) (auto simp: count_while_def)
qed (simp add: count_while_def)

lemma count_while_pos:
  "xs \<noteq> [] \<Longrightarrow> length ys = length xs \<Longrightarrow> count_while (=) xs ys = 0 \<Longrightarrow> 0 < count_while (\<noteq>) xs ys"
  by (cases xs; cases ys) (auto simp: count_while_def split: if_splits)

lemma vertical_loop_expands:
  assumes "length chunk < 64" and "length out' + length chunk \<le> m"
    and "length out' + length chunk \<le> length ref" and "refc = take (length chunk) (drop (length out') ref)"
  shows "\<exists>w. vertical_loop out chunk refc mixed = out @ w \<and> expands ref m out' w chunk"
  using assms
proof (induction out chunk refc mixed arbitrary: out' rule: vertical_loop.induct)
  case (1 out chunk refc mixed)
  show ?case
  proof (cases "chunk = []")
    case True
    then show ?thesis by (simp add: vertical_loop.simps)
  next
    case False
    have len: "length refc = length chunk" using "1.prems"(3,4) by simp
    have rest: "length (drop n chunk) < 64" "length (out' @ take n chunk) + length (drop n chunk) \<le> m"
        "length (out' @ take n chunk) + length (drop n chunk) \<le> length ref"
        "drop n refc = take (length (drop n chunk)) (drop (length (out' @ take n chunk)) ref)"
      if "n \<le> length chunk" for n
      using "1.prems" that by (simp_all add: drop_take min_absorb2 add.commute)
    let ?e = "count_while (=) chunk refc"
    let ?d = "count_while (\<noteq>) chunk refc"
    show ?thesis
    proof (cases "0 < ?e")
      case True
      have e: "?e \<le> length chunk" by (rule count_while_le)
      have "take ?e chunk = take ?e (drop (length out') ref)"
        using count_while_eq_take [of chunk refc] "1.prems"(4) e by (simp add: min_def)
      moreover have "expands ref m out' [0xC0 OR word_of_nat ?e] (take ?e (drop (length out') ref))"
        using "1.prems" e unfolding expands_def by (auto intro!: decompress_vertical)
      ultimately have hd: "expands ref m out' [0xC0 OR word_of_nat ?e] (take ?e chunk)" by simp
      obtain w where "vertical_loop (out @ [0xC0 OR word_of_nat ?e]) (drop ?e chunk) (drop ?e refc) mixed
            = (out @ [0xC0 OR word_of_nat ?e]) @ w"
          "expands ref m (out' @ take ?e chunk) w (drop ?e chunk)"
        using "1.IH"(1) [OF False refl True rest [OF e]] by blast
      with expands_append [OF hd, of w "drop ?e chunk"] False True show ?thesis
        by (intro exI [of _ "(0xC0 OR word_of_nat ?e) # w"])
          (simp add: vertical_loop.simps [of out chunk])
    next
      case e0: False
      then have d: "0 < ?d" "?d \<le> length chunk"
        using count_while_pos [OF False len] count_while_le by simp_all
      define out1 where "out1 = (if mixed then horizontal out (take ?d chunk)
          else out @ [word_of_nat ?d] @ take ?d chunk)"
      obtain w1 where w1: "out1 = out @ w1" "expands ref m out' w1 (take ?d chunk)"
      proof (cases mixed)
        case True
        with horizontal_expands [of "take ?d chunk" out m ref] "1.prems"(1,2) d that show ?thesis
          by (auto simp: out1_def)
      next
        case False
        then have "out1 = out @ open_string True (take ?d chunk)"
          using d by (simp add: out1_def open_string_def min_absorb2)
        moreover have "expands ref m out' (open_string True (take ?d chunk)) (take ?d chunk)"
          using "1.prems"(1,2) d False
          by (intro expands_open_string [of _ "last (take ?d chunk)"]) (auto simp: open_ok_def)
        ultimately show ?thesis by (rule that)
      qed
      obtain w where "vertical_loop out1 (drop ?d chunk) (drop ?d refc) mixed = out1 @ w"
          "expands ref m (out' @ take ?d chunk) w (drop ?d chunk)"
        using "1.IH"(2) [OF False refl e0 refl refl out1_def _ rest [OF d(2)]] d(1) by blast
      moreover have "vertical_loop out chunk refc mixed = vertical_loop out1 (drop ?d chunk) (drop ?d refc) mixed"
        using False e0 d by (simp add: vertical_loop.simps [of out chunk] out1_def Let_def)
      moreover note expands_append [OF w1(2), of w "drop ?d chunk"]
      ultimately show ?thesis using w1(1) by (intro exI [of _ "w1 @ w"]) auto
    qed
  qed
qed

section \<open>Whole articles\<close>

lemma compress_chunk_expands:
  assumes "length chunk < 64" and "length out' + length chunk \<le> m"
    and "length out' + length chunk \<le> length ref"
  shows "\<exists>w. compress_chunk mode out chunk (take (length chunk) (drop (length out') ref)) = out @ w \<and>
    expands ref m out' w chunk"
proof (cases mode)
  case Mode_Literal
  have "expands ref m out' (word_of_nat (length chunk) # chunk) chunk"
    using assms by (simp add: expands_def decompress_literal)
  with Mode_Literal show ?thesis by (simp add: compress_chunk_def)
next
  case Mode_Horizontal
  with horizontal_expands [OF assms(1), of out m ref] assms(2) show ?thesis
    by (auto simp: compress_chunk_def)
next
  case Mode_Vertical
  with vertical_loop_expands [OF assms refl, of out False] show ?thesis
    by (simp add: compress_chunk_def vertical_def)
next
  case Mode_Mixed
  with vertical_loop_expands [OF assms refl, of out True] show ?thesis
    by (simp add: compress_chunk_def vertical_def)
qed

lemma compress_loop_expands:
  assumes "length out' + length article \<le> m" and "length out' + length article \<le> length ref"
    and "refs = drop (length out') ref"
  shows "\<exists>w. compress_loop mode out article refs = Some (out @ w) \<and> expands ref m out' w article"
  using assms
proof (induction mode out article refs arbitrary: out' rule: compress_loop.induct)
  case (1 mode out article refs)
  show ?case
  proof (cases "article = []")
    case True
    then show ?thesis by (simp add: compress_loop.simps)
  next
    case False
    define n where "n = min CHUNK (length article)"
    have n: "n < 64" "n \<le> length article" "n \<le> length refs" "length (take n article) = n"
      using "1.prems" by (auto simp: n_def CHUNK_def)
    obtain w1 where w1: "compress_chunk mode out (take n article) (take n refs) = out @ w1"
        "expands ref m out' w1 (take n article)"
      using compress_chunk_expands [of "take n article" out' m ref mode out] "1.prems" n by auto
    have "\<exists>w. compress_loop mode (out @ w1) (drop n article) (drop n refs) = Some ((out @ w1) @ w) \<and>
        expands ref m (out' @ take n article) w (drop n article)"
      using "1.IH" [OF False n_def, of "out' @ take n article"] "1.prems" n w1(1)
      by (auto simp: add.commute)
    then obtain w where w: "compress_loop mode (out @ w1) (drop n article) (drop n refs) = Some ((out @ w1) @ w)"
        "expands ref m (out' @ take n article) w (drop n article)" by blast
    have "compress_loop mode out article refs = Some (out @ w1 @ w)"
      using False n(3) w w1(1) by (subst compress_loop.simps) (simp add: Let_def flip: n_def)
    with expands_append [OF w1(2) w(2)] show ?thesis by auto
  qed
qed

lemma compress_decompress:
  assumes "length article \<le> length ref" and "length article \<le> m"
  shows "\<exists>w. compress mode article ref = Some w \<and> decompress w ref m = (article, Inr ())"
proof -
  obtain w where "compress mode article ref = Some w" "expands ref m [] w article"
    using compress_loop_expands [of "[]" article m ref ref mode "[]"] assms by (auto simp: compress_def)
  moreover from this(2) have "decompress_loop ref m [] (w @ []) = decompress_loop ref m ([] @ article) []"
    unfolding expands_def by blast
  ultimately show ?thesis by (simp add: decompress_def)
qed

text \<open>No string is more than twice as long as the bytes it stands for.\<close>

lemma horizontal_loop_length: "length (horizontal_loop out h lit cur bs) \<le> length out + 2 * length bs"
proof (induction bs arbitrary: out h lit cur)
  case (Cons b bs)
  show ?case by (auto simp: Let_def intro!: order_trans [OF Cons.IH])
qed simp

lemma horizontal_length: "length (horizontal out chunk) \<le> length out + 2 * length chunk"
  using horizontal_loop_length [of "out @ [1, hd chunk]" "length out" True "hd chunk" "tl chunk"]
  by (auto simp: horizontal_def split: list.splits)

lemma vertical_loop_length: "length (vertical_loop out chunk refc mixed) \<le> length out + 2 * length chunk"
proof (induction out chunk refc mixed rule: vertical_loop.induct)
  case (1 out chunk refc mixed)
  show ?case
  proof (cases "chunk = []")
    case False
    let ?e = "count_while (=) chunk refc" and ?d = "count_while (\<noteq>) chunk refc"
    have le: "?e \<le> length chunk" "?d \<le> length chunk" by (rule count_while_le)+
    have piece: "length (if mixed then horizontal out (take ?d chunk) else out @ [word_of_nat ?d] @ take ?d chunk)
        \<le> length out + (if ?d = 0 then 1 else 2 * ?d)"
      using horizontal_length [of out "take ?d chunk"] le(2) by auto
    show ?thesis
    proof (cases "?e > 0")
      case True
      with "1.IH"(1) [OF False refl True] False le(1) show ?thesis
        by (subst vertical_loop.simps) (simp add: Let_def)
    next
      case e: False
      show ?thesis
      proof (cases "?d = 0")
        case True
        with False e show ?thesis
          by (subst vertical_loop.simps) (simp add: Let_def horizontal_def Suc_le_eq)
      next
        case d: False
        from "1.IH"(2) [OF False refl e refl refl refl d] False e d piece le(2) show ?thesis
          by (subst vertical_loop.simps) (simp add: Let_def)
      qed
    qed
  qed (simp add: vertical_loop.simps)
qed

lemma compress_chunk_length: "chunk \<noteq> [] \<Longrightarrow> length (compress_chunk mode out chunk refc) \<le> length out + 2 * length chunk"
  using horizontal_length [of out chunk] vertical_loop_length [of out chunk refc]
  by (cases mode) (auto simp: compress_chunk_def vertical_def Suc_le_eq)

lemma compress_loop_length: "compress_loop mode out article refs = Some w \<Longrightarrow> length w \<le> length out + 2 * length article"
proof (induction mode out article refs rule: compress_loop.induct)
  case (1 mode out article refs)
  show ?case
  proof (cases "article = []")
    case False
    define n where "n = min CHUNK (length article)"
    have n: "0 < n" "n \<le> length article" "n \<le> length refs"
      using False "1.prems" by (auto simp: n_def CHUNK_def Let_def compress_loop.simps [of mode out article refs] split: if_splits)
    let ?out = "compress_chunk mode out (take n article) (take n refs)"
    have "compress_loop mode ?out (drop n article) (drop n refs) = Some w"
      using "1.prems" False n(3) by (subst (asm) compress_loop.simps) (simp add: Let_def flip: n_def)
    with "1.IH" [OF False n_def] n(3) have "length w \<le> length ?out + 2 * length (drop n article)" by simp
    moreover have "length ?out \<le> length out + 2 * n"
      using compress_chunk_length [of "take n article" mode out "take n refs"] n(1,2) False by simp
    ultimately show ?thesis using n(2) by simp
  qed (use "1.prems" in \<open>simp add: compress_loop.simps\<close>)
qed

lemma compressor_compress_length: "compressor_compress a c = Some (w, c') \<Longrightarrow> length w \<le> 2 * length a"
  by (auto simp: compressor_compress_def compress_def Let_def dest!: compress_loop_length split: option.splits if_splits)

text \<open>Literal strings do not look at the reference.\<close>

lemma compress_loop_literal:
  "length article \<le> length refs \<Longrightarrow> length article \<le> length refs' \<Longrightarrow>
    compress_loop Mode_Literal out article refs = compress_loop Mode_Literal out article refs'"
proof (induction "Mode_Literal" out article refs arbitrary: refs' rule: compress_loop.induct)
  case (1 out article refs)
  define n where "n = min CHUNK (length article)"
  show ?case
  proof (cases "article = []")
    case False
    have "n \<le> length refs" "n \<le> length refs'" using "1.prems" by (auto simp: n_def)
    with "1.hyps" [OF False n_def, of "drop n refs'"] False "1.prems" show ?thesis
      by (subst (1 2) compress_loop.simps) (simp add: Let_def compress_chunk_def flip: n_def)
  qed (simp add: compress_loop.simps)
qed

text \<open>Whatever the mode, compressing an article against a reference at least as long and
  decompressing the result against the same reference gives the article back, and the compressor
  does not run past the reference.\<close>

theorem compress_round_trip:
  assumes "length article \<le> length ref" and "length article \<le> m"
  shows "\<exists>w. compress mode article ref = Some w \<and> decompress w ref m = (article, Inr ())"
  by (rule compress_decompress [OF assms])

theorem compress_round_trip_witness:
  "\<exists>w. compress Mode_Mixed [1, 1, 1, 2, 3] [1, 0, 0, 0, 0, 0] = Some w \<and>
     decompress w [1, 0, 0, 0, 0, 0] 80 = ([1, 1, 1, 2, 3], Inr ())"
  by (rule compress_round_trip) simp_all

lemma decompress_loop_bound:
  "length out \<le> m \<Longrightarrow> length (fst (decompress_loop ref m out bs)) \<le> m"
proof (induction ref m out bs rule: decompress_loop.induct)
  case (1 ref m out bs)
  show ?case
  proof (cases bs)
    case (Cons h rest)
    with 1 show ?thesis
      by (subst decompress_loop.simps) (auto simp: Let_def split: list.splits)
  qed (use "1.prems" in simp)
qed

text \<open>C34: whatever bytes the peer sends, the decompressor never produces more than the negotiated
  maximum article length, not even in the partial output of a failed call.\<close>

theorem decompress_bounded: "length (fst (decompress bs ref m)) \<le> m"
  by (simp add: decompress_def decompress_loop_bound)

section \<open>The two ends of a compressed transfer\<close>

datatype stream_event = Ev_Article bytes | Ev_SyncPoint

fun compress_stream :: "compressor \<Rightarrow> stream_event list \<Rightarrow> bytes list option" where
  "compress_stream c [] = Some []"
| "compress_stream c (Ev_SyncPoint # evs) = compress_stream (compressor_sync_point c) evs"
| "compress_stream c (Ev_Article a # evs) =
     (case compressor_compress a c of
        None \<Rightarrow> None
      | Some (w, c') \<Rightarrow> map_option ((#) w) (compress_stream c' evs))"

fun decompress_stream :: "decompressor \<Rightarrow> bytes list \<Rightarrow> (decompress_error, bytes list) result" where
  "decompress_stream d [] = Inr []"
| "decompress_stream d (w # ws) =
     (case decompressor_decompress w d of
        (Inl e, d') \<Rightarrow> Inl e
      | (Inr a, d') \<Rightarrow> and_then (decompress_stream d' ws) (\<lambda>as. Inr (a # as)))"

fun event_articles :: "stream_event list \<Rightarrow> bytes list" where
  "event_articles [] = []"
| "event_articles (Ev_SyncPoint # evs) = event_articles evs"
| "event_articles (Ev_Article a # evs) = a # event_articles evs"

text \<open>The simulation relation: both ends hold the same reference, of the negotiated length.\<close>

definition in_step :: "usize \<Rightarrow> compressor \<Rightarrow> decompressor \<Rightarrow> bool" where
  "in_step m c d \<longleftrightarrow> c_reference c = d_reference d \<and> length (d_reference d) = max m 1 \<and>
     d_max_article d = max m 1"

lemma in_step_new: "in_step m (compressor_new c m) (decompressor_new m)"
  by (simp add: in_step_def compressor_new_def decompressor_new_def reference_new_def)

lemma in_step_sync_point: "in_step m c d \<Longrightarrow> in_step m (compressor_sync_point c) d"
  by (simp add: in_step_def compressor_sync_point_def)

lemma in_step_article:
  assumes "in_step m c d" and "length a \<le> max m 1"
  shows "\<exists>w c' d'. compressor_compress a c = Some (w, c') \<and> decompressor_decompress w d = (Inr a, d') \<and>
    in_step m c' d'"
proof -
  let ?mode = "if c_after_sync c then Mode_Literal else mode_from (c_compression c)"
  obtain w where w: "compress ?mode a (c_reference c) = Some w"
      "decompress w (c_reference c) (max m 1) = (a, Inr ())"
    using compress_decompress [of a "c_reference c" "max m 1" ?mode] assms by (auto simp: in_step_def)
  with assms show ?thesis
    by (auto simp: in_step_def compressor_compress_def decompressor_decompress_def Let_def
        reference_update_def)
qed

text \<open>
  An article that is compressed once more after a synchronisation point, as the sender does when the
  first result would exceed the interval, leaves both ends in step.
\<close>

lemma in_step_again:
  assumes "in_step m c d" and "length a \<le> max m 1" and "compressor_compress a c = Some (w1, c1)"
  shows "\<exists>w c' d'. compressor_compress a (compressor_sync_point c1) = Some (w, c') \<and>
    decompressor_decompress w d = (Inr a, d') \<and> in_step m c' d'"
proof -
  let ?r = "reference_update a (c_reference c)"
  have c1: "c_reference c1 = ?r"
    using assms by (auto simp: compressor_compress_def in_step_def Let_def split: option.splits)
  have len: "length (c_reference c) = max m 1" "length ?r = max m 1"
    using assms by (auto simp: in_step_def reference_update_def)
  obtain w where w: "compress Mode_Literal a (c_reference c) = Some w"
      "decompress w (c_reference c) (max m 1) = (a, Inr ())"
    using compress_decompress [of a "c_reference c" "max m 1" Mode_Literal] assms len by auto
  have "compress Mode_Literal a ?r = Some w"
    using w(1) compress_loop_literal [of a "c_reference c" ?r "[]"] assms(2) len by (simp add: compress_def)
  with w(2) assms c1 len show ?thesis
    by (auto simp: in_step_def compressor_compress_def compressor_sync_point_def decompressor_decompress_def Let_def
        reference_update_def)
qed

lemma in_step_stream:
  assumes "in_step m c d" and "list_all (\<lambda>a. length a \<le> max m 1) (event_articles evs)"
  shows "\<exists>ws. compress_stream c evs = Some ws \<and> decompress_stream d ws = Inr (event_articles evs)"
  using assms
proof (induction c evs arbitrary: d rule: compress_stream.induct)
  case (3 c a evs)
  then obtain w c' d' where s: "compressor_compress a c = Some (w, c')"
      "decompressor_decompress w d = (Inr a, d')" "in_step m c' d'"
    using in_step_article [of m c d a] by auto
  with "3.IH" [OF s(1) refl s(3)] "3.prems"(2) show ?case by auto
qed (auto simp: in_step_sync_point)

text \<open>C10: the stateful compressor and decompressor stay in step. For every negotiated compression
  and every sequence of articles no longer than the negotiated maximum, with synchronisation
  points anywhere, the compressor produces a wire form for each article and the decompressor at the
  other end restores exactly the articles, in order.\<close>

theorem compressed_transfer_round_trip:
  assumes "list_all (\<lambda>a. length a \<le> m) (event_articles evs)"
  shows "\<exists>ws. compress_stream (compressor_new c m) evs = Some ws \<and>
    decompress_stream (decompressor_new m) ws = Inr (event_articles evs)"
  by (rule in_step_stream [OF in_step_new]) (use assms in \<open>auto simp: list_all_iff\<close>)

theorem compressed_transfer_round_trip_witness:
  "\<exists>ws. compress_stream (compressor_new Comp_Vertical 4)
       [Ev_Article [1, 2, 3], Ev_Article [1, 2, 4, 4], Ev_SyncPoint, Ev_Article [1]] = Some ws \<and>
     decompress_stream (decompressor_new 4) ws = Inr [[1, 2, 3], [1, 2, 4, 4], [1]]"
  using compressed_transfer_round_trip
    [of 4 "[Ev_Article [1, 2, 3], Ev_Article [1, 2, 4, 4], Ev_SyncPoint, Ev_Article [1]]" Comp_Vertical]
  by simp

end
