(* ===== verification/Article.thy ===== *)
theory Article
  imports Params
begin

text \<open>
  \<^verbatim>\<open>crates/pesit-core/src/article.rs\<close>: record formats, cutting a file into articles, packing articles
  into data FPDUs (multi-article and segmented), and their reassembly.
\<close>

section \<open>Record formats\<close>

datatype record_format = Bu | Bf | Bv | Tv | Tf

fun rf_article_format :: "record_format \<Rightarrow> article_format" where
  "rf_article_format Bf = Format_Fixed"
| "rf_article_format Tf = Format_Fixed"
| "rf_article_format Bu = Format_Variable"
| "rf_article_format Bv = Format_Variable"
| "rf_article_format Tv = Format_Variable"

definition rf_is_text :: "record_format \<Rightarrow> bool" where
  "rf_is_text f \<longleftrightarrow> f = Tv \<or> f = Tf"

definition rstr :: "string \<Rightarrow> rstring" where
  "rstr s = map of_char s"

fun rf_code :: "record_format \<Rightarrow> rstring" where
  "rf_code Bu = rstr ''BU''"
| "rf_code Bf = rstr ''BF''"
| "rf_code Bv = rstr ''BV''"
| "rf_code Tv = rstr ''TV''"
| "rf_code Tf = rstr ''TF''"

definition to_ascii_uppercase :: "rstring \<Rightarrow> rstring" where
  "to_ascii_uppercase s = map (\<lambda>c. if 97 \<le> c \<and> c \<le> 122 then c - 32 else c) s"

definition rf_parse :: "rstring \<Rightarrow> record_format option" where
  "rf_parse code =
     (let u = to_ascii_uppercase code in
      if u = rstr ''BU'' then Some Bu
      else if u = rstr ''BF'' then Some Bf
      else if u = rstr ''BV'' then Some Bv
      else if u = rstr ''TV'' then Some Tv
      else if u = rstr ''TF'' then Some Tf
      else None)"

section \<open>Cutting a byte stream into articles\<close>

datatype record_error = UnfilledRecord usize usize | LineTooLong usize usize

record article_cutter =
  ac_format :: record_format
  ac_record_len :: usize
  ac_buf :: bytes
  ac_pos :: usize

definition cutter_new :: "record_format \<Rightarrow> usize \<Rightarrow> article_cutter" where
  "cutter_new format record_len =
     \<lparr>ac_format = format, ac_record_len = max record_len 1, ac_buf = [], ac_pos = 0\<rparr>"

definition cutter_push :: "bytes \<Rightarrow> article_cutter \<Rightarrow> article_cutter" where
  "cutter_push data c =
     (let c = (if ac_pos c > 0 \<and> ac_pos c \<ge> length (ac_buf c) div 2
               then c\<lparr>ac_buf := drop (ac_pos c) (ac_buf c), ac_pos := 0\<rparr> else c)
      in c\<lparr>ac_buf := ac_buf c @ data\<rparr>)"

definition strip_cr :: "bytes \<Rightarrow> bytes" where
  \<comment> \<open>\<^verbatim>\<open>line.strip_suffix(b"\\r").unwrap_or(line)\<close>\<close>
  "strip_cr line = (if line \<noteq> [] \<and> last line = 13 then butlast line else line)"

definition text_article :: "article_cutter \<Rightarrow> bytes \<Rightarrow> (record_error, bytes) result" where
  "text_article c line =
     (if length line > ac_record_len c then Inl (LineTooLong (length line) (ac_record_len c))
      else
        let a = (if ac_format c = Tf then line @ replicate (ac_record_len c - length line) 32 else line);
            a = (if a = [] then [32] else a)
        in Inr a)"

definition next_article :: "article_cutter \<Rightarrow> (record_error, bytes option \<times> article_cutter) result" where
  "next_article c =
     (let avail = drop (ac_pos c) (ac_buf c) in
      if ac_format c = Bu \<or> ac_format c = Bf \<or> ac_format c = Bv then
        (if length avail \<ge> ac_record_len c
         then Inr (Some (take (ac_record_len c) avail), c\<lparr>ac_pos := ac_pos c + ac_record_len c\<rparr>)
         else Inr (None, c))
      else
        (case position (\<lambda>b. b = 10) avail of
           Some nl \<Rightarrow>
             and_then (text_article c (strip_cr (take nl avail))) (\<lambda>article.
               Inr (Some article, c\<lparr>ac_pos := ac_pos c + (nl + 1)\<rparr>))
         | None \<Rightarrow> Inr (None, c)))"

definition cutter_buffered :: "article_cutter \<Rightarrow> usize" where
  "cutter_buffered c = length (ac_buf c) - ac_pos c"

definition cutter_finish :: "article_cutter \<Rightarrow> (record_error, bytes option) result \<times> article_cutter" where
  "cutter_finish c =
     (let rest = drop (ac_pos c) (ac_buf c);
          c = c\<lparr>ac_pos := length (ac_buf c)\<rparr>
      in if rest = [] then (Inr None, c)
         else case ac_format c of
             Bu \<Rightarrow> (Inr (Some rest), c)
           | Bv \<Rightarrow> (Inr (Some rest), c)
           | Bf \<Rightarrow> (Inl (UnfilledRecord (length rest) (ac_record_len c)), c)
           | _ \<Rightarrow> (and_then (text_article c (strip_cr rest)) (\<lambda>a. Inr (Some a)), c))"

section \<open>Articles back to file bytes\<close>

definition trim_trailing_spaces :: "bytes \<Rightarrow> bytes" where
  "trim_trailing_spaces a = rev (dropWhile (\<lambda>b. b = 32) (rev a))"

definition article_to_bytes :: "record_format \<Rightarrow> bytes \<Rightarrow> bytes" where
  "article_to_bytes format article =
     (if rf_is_text format
      then (if format = Tf then trim_trailing_spaces article else article) @ [10]
      else article)"

section \<open>Packing\<close>

definition MAX_ARTICLES_PER_DTF :: usize where
  "MAX_ARTICLES_PER_DTF = 255"

record article_packer =
  ap_id_dst :: u8
  ap_max_dtf_len :: usize
  ap_multi_article :: bool
  ap_pending :: bytes
  ap_pending_count :: usize

definition packer_new :: "u8 \<Rightarrow> usize \<Rightarrow> bool \<Rightarrow> article_packer" where
  "packer_new dst max_dtf_len multi =
     \<lparr>ap_id_dst = dst, ap_max_dtf_len = max max_dtf_len (HEADER_LEN + 1), ap_multi_article = multi,
      ap_pending = [], ap_pending_count = 0\<rparr>"

definition packer_max_single :: "article_packer \<Rightarrow> usize" where
  "packer_max_single p = ap_max_dtf_len p - HEADER_LEN"

definition packer_flush_into :: "fpdu list \<Rightarrow> article_packer \<Rightarrow> fpdu list \<times> article_packer" where
  "packer_flush_into out p =
     (if ap_pending_count p = 0 then (out, p)
      else
        let data = ap_pending p;
            f = (if ap_pending_count p = 1 then fpdu_data K_Dtf (ap_id_dst p) 0 (drop 2 data)
                 else fpdu_data K_Dtf (ap_id_dst p) (word_of_nat (ap_pending_count p)) data)
        in (out @ [f], p\<lparr>ap_pending := [], ap_pending_count := 0\<rparr>))"

fun packer_segments :: "u8 \<Rightarrow> bool \<Rightarrow> bytes list \<Rightarrow> fpdu list" where
  "packer_segments dst first [] = []"
| "packer_segments dst first (c # cs) =
     (let last = (cs = []);
          kind = (if first then K_DtfDa else if last then K_DtfFa else K_DtfMa)
      in fpdu_data kind dst 0 c # packer_segments dst False cs)"

definition packer_push :: "bytes \<Rightarrow> article_packer \<Rightarrow> fpdu list \<times> article_packer" where
  "packer_push article p =
     (let max_single = packer_max_single p in
      if length article > max_single then
        let (out, p) = packer_flush_into [] p
        in (out @ packer_segments (ap_id_dst p) True (chunks max_single article), p)
      else if \<not> ap_multi_article p then ([fpdu_data K_Dtf (ap_id_dst p) 0 article], p)
      else
        let needed = 2 + length article;
            (out, p) =
              (if ap_pending_count p > 0 \<and>
                  (HEADER_LEN + length (ap_pending p) + needed > ap_max_dtf_len p \<or>
                   ap_pending_count p \<ge> MAX_ARTICLES_PER_DTF)
               then packer_flush_into [] p else ([], p))
        in (out, p\<lparr>ap_pending := ap_pending p @ to_be_bytes16 (u16_of_usize (length article)) @ article,
                   ap_pending_count := ap_pending_count p + 1\<rparr>))"

definition packer_flush :: "article_packer \<Rightarrow> fpdu option \<times> article_packer" where
  "packer_flush p =
     (let (v, p) = packer_flush_into [] p in ((if v = [] then None else Some (last v)), p))"

definition packer_has_pending :: "article_packer \<Rightarrow> bool" where
  "packer_has_pending p \<longleftrightarrow> ap_pending_count p > 0"

section \<open>Unpacking\<close>

definition bad_multi :: "decode_detail \<Rightarrow> decode_error" where
  "bad_multi d = \<lparr>e_diag = D_REMOTE_PROTOCOL_ERROR, e_detail = d\<rparr>"

definition read_article :: "bytes \<Rightarrow> (decode_error, bytes \<times> bytes) result" where
  "read_article data =
     (case data of
        hi # lo # start \<Rightarrow>
          (let len = be_len hi lo in
           if len > length start then Inl (bad_multi ArticleLengthExceeds)
           else Inr (take len start, drop len start))
      | _ \<Rightarrow> Inl (bad_multi TruncatedArticleLength))"

lemma read_article_shorter: "read_article data = Inr (a, rest) \<Longrightarrow> length rest < length data"
  by (auto simp: read_article_def Let_def split: list.splits if_splits)

function read_articles :: "bytes \<Rightarrow> (decode_error, bytes list) result" where
  "read_articles data =
     (if data = [] then Inr []
      else and_then (read_article data) (\<lambda>(a, rest).
        and_then (read_articles rest) (\<lambda>as. Inr (a # as))))"
  by pat_completeness auto
termination
  by (relation "measure length") (auto dest: read_article_shorter)

definition articles_of :: "fpdu \<Rightarrow> (decode_error, bytes list) result" where
  "articles_of f =
     (if f_kind f = K_Dtf \<and> id_src f > 0 then
        and_then (read_articles (f_data f)) (\<lambda>out.
          if length out \<noteq> unat (id_src f)
          then Inl (bad_multi (ArticleCountMismatch (id_src f) (length out)))
          else Inr out)
      else Inr [f_data f])"

datatype reassembly_error = NoStart fpdu_kind | Interleaved fpdu_kind | ReassemblyTooLong usize

record reassembler =
  ra_partial :: "bytes option"
  ra_max_len :: usize

definition reassembler_new :: "usize \<Rightarrow> reassembler" where
  "reassembler_new max_len = \<lparr>ra_partial = None, ra_max_len = max_len\<rparr>"

definition reassembler_in_progress :: "reassembler \<Rightarrow> bool" where
  "reassembler_in_progress r \<longleftrightarrow> ra_partial r \<noteq> None"

definition reassembler_check :: "reassembler \<Rightarrow> usize \<Rightarrow> (reassembly_error, unit) result" where
  "reassembler_check r len =
     (if ra_max_len r > 0 \<and> len > ra_max_len r then Inl (ReassemblyTooLong (ra_max_len r)) else Inr ())"

definition feed_segment :: "fpdu \<Rightarrow> reassembler \<Rightarrow> (reassembly_error, bytes list) result \<times> reassembler" where
  "feed_segment f r =
     (case ra_partial r of
        None \<Rightarrow> (Inl (NoStart (f_kind f)), r)
      | Some p \<Rightarrow>
         (let r = r\<lparr>ra_partial := None\<rparr> in
          case reassembler_check r (length p + length (f_data f)) of
            Inl e \<Rightarrow> (Inl e, r)
          | Inr _ \<Rightarrow>
             (let p = p @ f_data f in
              if f_kind f = K_DtfMa then (Inr [], r\<lparr>ra_partial := Some p\<rparr>) else (Inr [p], r))))"

definition reassembler_feed ::
    "fpdu \<Rightarrow> reassembler \<Rightarrow> (reassembly_error, bytes list) result \<times> reassembler" where
  "reassembler_feed f r =
     (if f_kind f = K_Dtf then
        (if ra_partial r \<noteq> None then (Inl (Interleaved (f_kind f)), r)
         else (map_err (\<lambda>_. Interleaved (f_kind f)) (articles_of f), r))
      else if f_kind f = K_DtfDa then
        (if ra_partial r \<noteq> None then (Inl (Interleaved (f_kind f)), r)
         else case reassembler_check r (length (f_data f)) of
            Inl e \<Rightarrow> (Inl e, r)
          | Inr _ \<Rightarrow> (Inr [], r\<lparr>ra_partial := Some (f_data f)\<rparr>))
      else if f_kind f = K_DtfMa \<or> f_kind f = K_DtfFa then feed_segment f r
      else (Inr [], r))"

end
