(* ===== verification/Article_Pack.thy ===== *)
theory Article_Pack
  imports Article Fpdu_Codec
begin

text \<open>
  Packing and reassembly are inverse: the data FPDUs the packer emits for a sequence of articles
  fit the negotiated entity size and give, through the reassembler of the peer, exactly those
  articles. The abstract view of a packer is the list of articles it holds back.
\<close>

section \<open>Multi-article content as an item stream\<close>

definition article_emit :: "bytes \<Rightarrow> bytes" where
  "article_emit a = to_be_bytes16 (u16_of_usize (length a)) @ a"

declare read_articles.simps [simp del]

interpretation article_stream: item_stream "\<lambda>a. length a < 65536" article_emit read_article read_articles
proof
  show "read_article (article_emit x @ rest) = Inr (x, rest)" if "length x < 65536" for x rest
    using that by (simp add: read_article_def article_emit_def to_be_bytes16_def)
  show "article_emit x \<noteq> []" for x
    by (simp add: article_emit_def to_be_bytes16_def)
  show "read_articles [] = Inr []"
    by (simp add: read_articles.simps)
  show "read_articles bs = (case read_articles rest of Inl e \<Rightarrow> Inl e | Inr xs \<Rightarrow> Inr (x # xs))"
    if "bs \<noteq> []" "read_article bs = Inr (x, rest)" for bs x rest
    using that by (simp add: read_articles.simps [of bs] and_then_def)
qed

section \<open>Feeding a sequence of FPDUs\<close>

fun feed_all :: "reassembler \<Rightarrow> fpdu list \<Rightarrow> (reassembly_error, bytes list) result \<times> reassembler" where
  "feed_all r [] = (Inr [], r)"
| "feed_all r (f # fs) =
     (case reassembler_feed f r of
        (Inl e, r') \<Rightarrow> (Inl e, r')
      | (Inr as, r') \<Rightarrow>
         (case feed_all r' fs of
            (Inl e, r'') \<Rightarrow> (Inl e, r'')
          | (Inr bs, r'') \<Rightarrow> (Inr (as @ bs), r'')))"

lemma feed_all_append:
  "feed_all r fs = (Inr as, r') \<Longrightarrow> feed_all r' gs = (Inr bs, r'') \<Longrightarrow>
    feed_all r (fs @ gs) = (Inr (as @ bs), r'')"
proof (induction fs arbitrary: r as)
  case (Cons f fs)
  then obtain cs r1 ds where "reassembler_feed f r = (Inr cs, r1)" "feed_all r1 fs = (Inr ds, r')" "as = cs @ ds"
    by (auto split: sum.splits prod.splits)
  with Cons show ?case by simp
qed simp

definition accepts :: "reassembler \<Rightarrow> bytes \<Rightarrow> bool" where
  "accepts r a \<longleftrightarrow> ra_max_len r = 0 \<or> length a \<le> ra_max_len r"

lemma feed_segment_ok:
  assumes "ra_partial r = Some p" and "accepts r (p @ c)" and "k = K_DtfMa \<or> k = K_DtfFa"
  shows "reassembler_feed (fpdu_data k dst 0 c) r =
    (if k = K_DtfMa then (Inr [], r\<lparr>ra_partial := Some (p @ c)\<rparr>) else (Inr [p @ c], r\<lparr>ra_partial := None\<rparr>))"
  using assms
  by (auto simp: reassembler_feed_def feed_segment_def fpdu_data_def accepts_def reassembler_check_def Let_def)

lemma feed_segments:
  assumes "cs \<noteq> []" and "ra_partial r = Some p" and "accepts r (p @ concat cs)"
  shows "feed_all r (packer_segments dst False cs) = (Inr [p @ concat cs], r\<lparr>ra_partial := None\<rparr>)"
  using assms
proof (induction cs arbitrary: r p)
  case (Cons c cs)
  have ok: "accepts r (p @ c)" using Cons.prems(3) by (auto simp: accepts_def)
  show ?case
  proof (cases "cs = []")
    case True
    with feed_segment_ok [OF Cons.prems(2) ok, of K_DtfFa dst] show ?thesis by simp
  next
    case False
    have "feed_all (r\<lparr>ra_partial := Some (p @ c)\<rparr>) (packer_segments dst False cs) =
        (Inr [(p @ c) @ concat cs], r\<lparr>ra_partial := Some (p @ c)\<rparr>\<lparr>ra_partial := None\<rparr>)"
      using False Cons.prems by (intro Cons.IH) (auto simp: accepts_def)
    with False feed_segment_ok [OF Cons.prems(2) ok, of K_DtfMa dst] show ?thesis by simp
  qed
qed simp

lemma feed_segmented_article:
  assumes "ra_partial r = None" and "accepts r a" and "cs = c # cs'" and "cs' \<noteq> []" and "concat cs = a"
  shows "feed_all r (packer_segments dst True cs) = (Inr [a], r)"
proof -
  have "reassembler_feed (fpdu_data K_DtfDa dst 0 c) r = (Inr [], r\<lparr>ra_partial := Some c\<rparr>)"
    using assms by (auto simp: reassembler_feed_def fpdu_data_def reassembler_check_def accepts_def)
  moreover have "feed_all (r\<lparr>ra_partial := Some c\<rparr>) (packer_segments dst False cs') =
      (Inr [c @ concat cs'], r\<lparr>ra_partial := Some c\<rparr>\<lparr>ra_partial := None\<rparr>)"
    using assms by (intro feed_segments) (auto simp: accepts_def)
  moreover have "r\<lparr>ra_partial := None\<rparr> = r" using assms(1) by (cases r) simp
  ultimately show ?thesis using assms(3,5) by simp
qed

section \<open>The packer invariant\<close>

definition packer_inv :: "article_packer \<Rightarrow> bytes list \<Rightarrow> bool" where
  "packer_inv p as \<longleftrightarrow>
     HEADER_LEN < ap_max_dtf_len p \<and> ap_max_dtf_len p \<le> MAX_FPDU_LEN \<and>
     ap_pending p = concat (map article_emit as) \<and> ap_pending_count p = length as \<and>
     list_all (\<lambda>a. length a \<le> packer_max_single p) as \<and> length as \<le> MAX_ARTICLES_PER_DTF \<and>
     (2 \<le> length as \<longrightarrow> HEADER_LEN + length (ap_pending p) \<le> ap_max_dtf_len p)"

definition fits_entity :: "usize \<Rightarrow> fpdu \<Rightarrow> bool" where
  "fits_entity n f \<longleftrightarrow> is_data (f_kind f) \<and> fpdu_wf True f \<and> encoded_len f \<le> n"

lemma fits_fpdu_data: "is_data k \<Longrightarrow> HEADER_LEN + length d \<le> n \<Longrightarrow> fits_entity n (fpdu_data k i j d)"
  by (simp add: fits_entity_def fpdu_data_def fpdu_wf_def encoded_len_def)

lemma is_data_dtf [simp]: "is_data K_Dtf" "is_data K_DtfDa" "is_data K_DtfMa" "is_data K_DtfFa"
  by (simp_all add: is_data_def)

lemma packer_inv_new:
  "n \<le> MAX_FPDU_LEN \<Longrightarrow> packer_inv (packer_new dst n multi) []"
  by (simp add: packer_inv_def packer_new_def HEADER_LEN_def MAX_FPDU_LEN_def MAX_ARTICLES_PER_DTF_def)

lemma articles_of_mono: "articles_of (fpdu_data K_Dtf dst 0 a) = Inr [a]"
  by (simp add: articles_of_def fpdu_data_def)

lemma articles_of_multi:
  assumes "0 < length as" "length as < 256" "list_all (\<lambda>a. length a < 65536) as"
  shows "articles_of (fpdu_data K_Dtf dst (word_of_nat (length as)) (concat (map article_emit as))) = Inr as"
proof -
  have "unat (word_of_nat (length as) :: u8) = length as" using assms(2) by simp
  moreover from this have "(0 :: u8) < word_of_nat (length as)"
    using assms(1) by (metis unat_0 less_numeral_extra(3) word_gt_0)
  ultimately show ?thesis
    using article_stream.read_all_emit [OF assms(3)] by (simp add: articles_of_def fpdu_data_def)
qed

lemma flush_into_spec:
  assumes "packer_inv p as" and "ra_partial r = None"
  shows "\<exists>fs p'. packer_flush_into out p = (out @ fs, p') \<and> feed_all r fs = (Inr as, r) \<and>
    list_all (fits_entity (ap_max_dtf_len p)) fs \<and> packer_inv p' [] \<and> length fs \<le> 1 \<and>
    ap_max_dtf_len p' = ap_max_dtf_len p \<and> ap_id_dst p' = ap_id_dst p \<and>
    ap_multi_article p' = ap_multi_article p"
proof (cases "as = []")
  case True
  with assms show ?thesis by (auto simp: packer_flush_into_def packer_inv_def)
next
  case False
  note inv = assms(1) [unfolded packer_inv_def]
  let ?p = "p\<lparr>ap_pending := [], ap_pending_count := 0\<rparr>"
  have p': "packer_inv ?p []" using inv by (simp add: packer_inv_def)
  have feed: "feed_all r [f] = (Inr as, r)" if "f_kind f = K_Dtf" "articles_of f = Inr as" for f
    using that assms(2) by (simp add: reassembler_feed_def)
  show ?thesis
  proof (cases "length as = 1")
    case True
    then obtain a where a: "as = [a]" by (cases as) auto
    let ?f = "fpdu_data K_Dtf (ap_id_dst p) 0 a"
    have "packer_flush_into out p = (out @ [?f], ?p)"
      using inv a by (simp add: packer_flush_into_def article_emit_def)
    moreover have "feed_all r [?f] = (Inr as, r)"
      using a by (intro feed) (simp_all add: articles_of_mono, simp add: fpdu_data_def)
    moreover have "fits_entity (ap_max_dtf_len p) ?f"
      using inv a by (intro fits_fpdu_data) (auto simp: packer_max_single_def)
    ultimately show ?thesis using p' by (intro exI [of _ "[?f]"]) auto
  next
    case f: False
    let ?f = "fpdu_data K_Dtf (ap_id_dst p) (word_of_nat (length as)) (ap_pending p)"
    have "list_all (\<lambda>a. length a < 65536) as"
      using inv by (auto simp: list_all_iff packer_max_single_def MAX_FPDU_LEN_def)
    then have "articles_of ?f = Inr as"
      using inv False articles_of_multi [of as "ap_id_dst p"] by (simp add: MAX_ARTICLES_PER_DTF_def)
    then have "feed_all r [?f] = (Inr as, r)"
      by (intro feed) (simp_all add: fpdu_data_def)
    moreover have "packer_flush_into out p = (out @ [?f], ?p)"
      using inv f False by (simp add: packer_flush_into_def)
    moreover have "2 \<le> length as" using f False by (cases as; cases "tl as") auto
    then have "fits_entity (ap_max_dtf_len p) ?f"
      using inv by (intro fits_fpdu_data is_data_dtf) blast
    ultimately show ?thesis using p' by (intro exI [of _ "[?f]"]) auto
  qed
qed

lemma segments_fit:
  assumes "\<forall>c\<in>set cs. HEADER_LEN + length c \<le> n"
  shows "list_all (fits_entity n) (packer_segments dst first cs)"
  using assms by (induction dst first cs rule: packer_segments.induct) (auto simp: Let_def fits_fpdu_data)

lemma chunks_two:
  assumes "0 < n" and "n < length xs"
  shows "\<exists>c cs. chunks n xs = c # cs \<and> cs \<noteq> []"
  using assms chunks_step [of xs n] by (cases xs) (auto simp: chunks_eq_Nil)

lemma push_spec:
  assumes "packer_inv p as" and "ra_partial r = None" and "packer_max_single p < length a \<Longrightarrow> accepts r a"
    and "\<not> ap_multi_article p \<Longrightarrow> as = []"
  shows "\<exists>fs p' done held. packer_push a p = (fs, p') \<and> feed_all r fs = (Inr done, r) \<and>
    done @ held = as @ [a] \<and> packer_inv p' held \<and> list_all (fits_entity (ap_max_dtf_len p)) fs \<and>
    ap_max_dtf_len p' = ap_max_dtf_len p \<and> ap_multi_article p' = ap_multi_article p \<and>
    (\<not> ap_multi_article p \<longrightarrow> held = [])"
proof -
  note inv = assms(1) [unfolded packer_inv_def]
  have ms: "0 < packer_max_single p" using inv by (auto simp: packer_max_single_def)
  obtain fl p1 where fl: "packer_flush_into [] p = (fl, p1)" "feed_all r fl = (Inr as, r)"
      "list_all (fits_entity (ap_max_dtf_len p)) fl" "packer_inv p1 []"
      "ap_max_dtf_len p1 = ap_max_dtf_len p" "ap_id_dst p1 = ap_id_dst p"
      "ap_multi_article p1 = ap_multi_article p"
    using flush_into_spec [OF assms(1,2), of "[]"] by auto
  consider (segmented) "length a > packer_max_single p"
    | (mono) "length a \<le> packer_max_single p" "\<not> ap_multi_article p"
    | (multi) "length a \<le> packer_max_single p" "ap_multi_article p" by linarith
  then show ?thesis
  proof cases
    case segmented
    let ?cs = "chunks (packer_max_single p) a"
    let ?seg = "packer_segments (ap_id_dst p) True ?cs"
    obtain c cs where cs: "?cs = c # cs" "cs \<noteq> []" using chunks_two [OF ms segmented] by blast
    have "feed_all r ?seg = (Inr [a], r)"
      by (rule feed_segmented_article [OF assms(2) assms(3) [OF segmented] cs]) (rule concat_chunks [OF ms])
    then have "feed_all r (fl @ ?seg) = (Inr (as @ [a]), r)" by (rule feed_all_append [OF fl(2)])
    moreover have "list_all (fits_entity (ap_max_dtf_len p)) ?seg"
      using inv by (intro segments_fit) (auto simp: packer_max_single_def dest!: chunks_length)
    moreover have "packer_push a p = (fl @ ?seg, p1)"
      using segmented fl(1,6) by (simp add: packer_push_def Let_def)
    ultimately show ?thesis using fl by (intro exI [of _ "fl @ ?seg"]) auto
  next
    case mono
    then have "packer_push a p = ([fpdu_data K_Dtf (ap_id_dst p) 0 a], p)"
      by (simp add: packer_push_def Let_def)
    moreover have "feed_all r [fpdu_data K_Dtf (ap_id_dst p) 0 a] = (Inr [a], r)"
      using assms(2) by (simp add: reassembler_feed_def articles_of_mono) (simp add: fpdu_data_def)
    moreover have "fits_entity (ap_max_dtf_len p) (fpdu_data K_Dtf (ap_id_dst p) 0 a)"
      using inv mono by (intro fits_fpdu_data) (auto simp: packer_max_single_def)
    ultimately show ?thesis using assms(1,4) mono by (intro exI [of _ "[fpdu_data K_Dtf (ap_id_dst p) 0 a]"]) auto
  next
    case multi
    let ?add = "\<lambda>q. q\<lparr>ap_pending := ap_pending q @ article_emit a, ap_pending_count := ap_pending_count q + 1\<rparr>"
    let ?full = "ap_pending_count p > 0 \<and> (HEADER_LEN + length (ap_pending p) + (2 + length a) > ap_max_dtf_len p \<or>
        ap_pending_count p \<ge> MAX_ARTICLES_PER_DTF)"
    have step: "packer_push a p = (if ?full then (fl, ?add p1) else ([], ?add p))"
      using multi fl(1) by (auto simp: packer_push_def Let_def article_emit_def)
    show ?thesis
    proof (cases ?full)
      case True
      have "packer_inv (?add p1) [a]"
        using fl(4,5) multi(1) by (simp add: packer_inv_def packer_max_single_def MAX_ARTICLES_PER_DTF_def)
      with True step fl multi show ?thesis
        by (intro exI [of _ fl] exI [of _ "?add p1"] exI [of _ as] exI [of _ "[a]"]) simp
    next
      case False
      have "packer_inv (?add p) (as @ [a])"
        using inv False multi(1)
        by (auto simp: packer_inv_def packer_max_single_def article_emit_def not_le Suc_le_eq
            MAX_ARTICLES_PER_DTF_def)
      moreover have "packer_push a p = ([], ?add p)" unfolding step if_not_P [OF False] by (rule refl)
      ultimately show ?thesis using multi
        by (intro exI [of _ "[]"] exI [of _ "?add p"] exI [of _ "[]"] exI [of _ "as @ [a]"]) simp
    qed
  qed
qed

section \<open>Streams of articles\<close>

fun pack_stream :: "article_packer \<Rightarrow> bytes list \<Rightarrow> fpdu list" where
  "pack_stream p [] = (case packer_flush p of (None, _) \<Rightarrow> [] | (Some f, _) \<Rightarrow> [f])"
| "pack_stream p (a # as) = (let (out, p') = packer_push a p in out @ pack_stream p' as)"

lemma pack_stream_spec:
  assumes "packer_inv p held" and "ra_partial r = None" and "list_all (accepts r) as"
    and "\<not> ap_multi_article p \<Longrightarrow> held = []"
  shows "feed_all r (pack_stream p as) = (Inr (held @ as), r) \<and>
    list_all (fits_entity (ap_max_dtf_len p)) (pack_stream p as)"
  using assms
proof (induction as arbitrary: p held)
  case Nil
  obtain fs p' where fs: "packer_flush_into [] p = (fs, p')" "feed_all r fs = (Inr held, r)"
      "list_all (fits_entity (ap_max_dtf_len p)) fs" "length fs \<le> 1"
    using flush_into_spec [OF Nil.prems(1,2), of "[]"] by auto
  then have "pack_stream p [] = fs"
    by (cases fs) (auto simp: packer_flush_def)
  with fs show ?case by simp
next
  case (Cons a as)
  from push_spec [OF Cons.prems(1,2), of a] Cons.prems(3,4)
  obtain fs p' d h where s: "packer_push a p = (fs, p')" "feed_all r fs = (Inr d, r)"
      "d @ h = held @ [a]" "packer_inv p' h" "list_all (fits_entity (ap_max_dtf_len p)) fs"
      "ap_max_dtf_len p' = ap_max_dtf_len p" "ap_multi_article p' = ap_multi_article p"
      "\<not> ap_multi_article p \<longrightarrow> h = []"
    by auto
  have "feed_all r (pack_stream p' as) = (Inr (h @ as), r) \<and>
      list_all (fits_entity (ap_max_dtf_len p')) (pack_stream p' as)"
    using s Cons.prems by (intro Cons.IH) auto
  moreover from this have "feed_all r (fs @ pack_stream p' as) = (Inr (d @ h @ as), r)"
    using feed_all_append [OF s(2)] by blast
  moreover have "d @ h @ as = held @ a # as" using s(3) by (metis append.assoc append_Cons append_Nil)
  ultimately show ?case using s by simp
qed

text \<open>C9: packing then reassembling is the identity on articles. For any entity size that fits the
  16-bit length field, with or without multi-article DTFs, the data FPDUs emitted for a sequence of
  articles (the final flush included) yield exactly those articles, in order, at a reassembler
  whose limit admits them, which ends with no article in progress.\<close>

theorem pack_reassemble:
  assumes "n \<le> MAX_FPDU_LEN" and "list_all (\<lambda>a. m = 0 \<or> length a \<le> m) as"
  shows "feed_all (reassembler_new m) (pack_stream (packer_new dst n multi) as) =
    (Inr as, reassembler_new m)"
  using pack_stream_spec [OF packer_inv_new [OF assms(1)], of "reassembler_new m" as dst multi] assms(2)
  by (simp add: accepts_def [abs_def] reassembler_new_def)

theorem pack_reassemble_witness:
  "feed_all (reassembler_new 0) (pack_stream (packer_new 1 10 True) [[1, 2], [], [1, 2, 3, 4, 5, 6, 7, 8, 9]]) =
    (Inr [[1, 2], [], [1, 2, 3, 4, 5, 6, 7, 8, 9]], reassembler_new 0)"
  by (rule pack_reassemble) (simp_all add: MAX_FPDU_LEN_def)

text \<open>Every FPDU the packer emits is a well-formed data FPDU no longer than the negotiated
  entity size (the packer raises sizes below 7 to 7).\<close>

theorem pack_bounds:
  assumes "n \<le> MAX_FPDU_LEN"
  shows "list_all (\<lambda>f. is_data (f_kind f) \<and> fpdu_wf True f \<and> encoded_len f \<le> max n (HEADER_LEN + 1))
    (pack_stream (packer_new dst n multi) as)"
  using pack_stream_spec [OF packer_inv_new [OF assms], of "reassembler_new 0" as dst multi]
  by (simp add: accepts_def [abs_def] reassembler_new_def packer_new_def list_all_iff fits_entity_def)

theorem pack_bounds_witness:
  "list_all (\<lambda>f. is_data (f_kind f) \<and> fpdu_wf True f \<and> encoded_len f \<le> max 10 (HEADER_LEN + 1))
    (pack_stream (packer_new 1 10 False) [[1, 2, 3, 4, 5, 6, 7]])"
  by (rule pack_bounds) (simp add: MAX_FPDU_LEN_def)

section \<open>Protection of the reassembler\<close>

lemma feed_partial_bounded:
  assumes "case ra_partial r of None \<Rightarrow> True | Some p \<Rightarrow> accepts r p"
  shows "case ra_partial (snd (reassembler_feed f r)) of None \<Rightarrow> True | Some p \<Rightarrow> accepts r p"
  using assms
  by (auto simp: reassembler_feed_def feed_segment_def reassembler_check_def accepts_def Let_def
      split: option.splits sum.splits if_splits)

lemma feed_max_len: "ra_max_len (snd (reassembler_feed f r)) = ra_max_len r"
  by (auto simp: reassembler_feed_def feed_segment_def reassembler_check_def Let_def
      split: option.splits sum.splits if_splits)

text \<open>whatever data FPDUs a peer sends, the article a reassembler holds never exceeds the
  announced article length.\<close>

theorem reassembler_memory_bound:
  "case ra_partial (snd (feed_all (reassembler_new m) fs)) of
     None \<Rightarrow> True | Some p \<Rightarrow> m = 0 \<or> length p \<le> m"
proof -
  have "case ra_partial (snd (feed_all r fs)) of None \<Rightarrow> True | Some p \<Rightarrow> accepts r p"
    if "case ra_partial r of None \<Rightarrow> True | Some p \<Rightarrow> accepts r p" for r
    using that
  proof (induction fs arbitrary: r)
    case (Cons f fs)
    have eq: "accepts (snd (reassembler_feed f r)) = accepts r"
      by (simp add: accepts_def feed_max_len fun_eq_iff)
    have "case ra_partial (snd (feed_all (snd (reassembler_feed f r)) fs)) of None \<Rightarrow> True | Some p \<Rightarrow> accepts r p"
      using Cons.IH [of "snd (reassembler_feed f r)"] feed_partial_bounded [OF Cons.prems, of f]
      unfolding eq by blast
    with feed_partial_bounded [OF Cons.prems, of f] show ?case
      by (auto split: prod.splits sum.splits)
  qed simp
  from this [of "reassembler_new m"] show ?thesis
    by (auto simp: reassembler_new_def accepts_def split: option.splits)
qed

end
