(* ===== verification/Article_Cut.thy ===== *)
theory Article_Cut
  imports Article Fpdu_Params
begin

text \<open>
  The article cutter refines a queue of unread bytes: its buffer with a read position stands for
  the bytes not yet cut. The articles it yields do not depend on how the file is split into reads,
  they are the file in pieces of the record length (binary formats) or its lines (text formats),
  and writing them out on the other side restores the file.
\<close>

section \<open>The abstract cutter\<close>

definition cutter_avail :: "article_cutter \<Rightarrow> bytes" where
  "cutter_avail c = drop (ac_pos c) (ac_buf c)"

definition cutter_inv :: "article_cutter \<Rightarrow> bool" where
  "cutter_inv c \<longleftrightarrow> ac_pos c \<le> length (ac_buf c) \<and> 0 < ac_record_len c"

definition text_of :: "record_format \<Rightarrow> usize \<Rightarrow> bytes \<Rightarrow> (record_error, bytes) result" where
  "text_of fmt rl line =
     text_article \<lparr>ac_format = fmt, ac_record_len = rl, ac_buf = [], ac_pos = 0\<rparr> line"

text \<open>One article off the front of the unread bytes.\<close>

definition cut_next :: "record_format \<Rightarrow> usize \<Rightarrow> bytes \<Rightarrow> (record_error, (bytes \<times> bytes) option) result" where
  "cut_next fmt rl avail =
     (if rf_is_text fmt then
        (case position (\<lambda>b. b = 10) avail of
           None \<Rightarrow> Inr None
         | Some nl \<Rightarrow> and_then (text_of fmt rl (strip_cr (take nl avail)))
             (\<lambda>a. Inr (Some (a, drop (Suc nl) avail))))
      else if length avail \<ge> rl then Inr (Some (take rl avail, drop rl avail))
      else Inr None)"

lemma text_article_of: "text_article c line = text_of (ac_format c) (ac_record_len c) line"
  by (simp add: text_of_def text_article_def)

lemma not_text: "\<not> rf_is_text f \<longleftrightarrow> f = Bu \<or> f = Bf \<or> f = Bv"
  by (cases f) (simp_all add: rf_is_text_def)

lemma cutter_push_avail:
  "cutter_inv c \<Longrightarrow> cutter_avail (cutter_push d c) = cutter_avail c @ d \<and> cutter_inv (cutter_push d c) \<and>
    ac_format (cutter_push d c) = ac_format c \<and> ac_record_len (cutter_push d c) = ac_record_len c"
  by (auto simp: cutter_inv_def cutter_push_def cutter_avail_def Let_def)

lemma next_article_refines:
  assumes "cutter_inv c"
  shows "case cut_next (ac_format c) (ac_record_len c) (cutter_avail c) of
      Inl e \<Rightarrow> next_article c = Inl e
    | Inr None \<Rightarrow> next_article c = Inr (None, c)
    | Inr (Some (a, rest)) \<Rightarrow> \<exists>c'. next_article c = Inr (Some a, c') \<and> cutter_avail c' = rest \<and>
        cutter_inv c' \<and> ac_format c' = ac_format c \<and> ac_record_len c' = ac_record_len c"
proof (cases "rf_is_text (ac_format c)")
  case False
  then have "ac_format c = Bu \<or> ac_format c = Bf \<or> ac_format c = Bv" by (simp add: not_text)
  with False assms show ?thesis
    by (auto simp: cut_next_def next_article_def cutter_avail_def cutter_inv_def Let_def add.commute)
next
  case True
  then have f: "\<not> (ac_format c = Bu \<or> ac_format c = Bf \<or> ac_format c = Bv)"
    using not_text by blast
  show ?thesis
  proof (cases "position (\<lambda>b. b = 10) (cutter_avail c)")
    case None
    with True f show ?thesis
      by (simp add: cut_next_def next_article_def cutter_avail_def Let_def)
  next
    case (Some nl)
    then have "nl < length (cutter_avail c)" by (auto dest: position_Some)
    then have "ac_pos c + Suc nl \<le> length (ac_buf c)" by (simp add: cutter_avail_def)
    with True f Some assms show ?thesis
      by (cases "text_of (ac_format c) (ac_record_len c) (strip_cr (take nl (cutter_avail c)))")
        (auto simp: cut_next_def next_article_def cutter_avail_def Let_def text_article_of
          cutter_inv_def add.commute)
  qed
qed

lemma cut_next_shorter:
  "cut_next fmt rl avail = Inr (Some (a, rest)) \<Longrightarrow> 0 < rl \<Longrightarrow> length rest < length avail"
  by (auto simp: cut_next_def and_then_eq_Inr split: if_splits option.splits dest!: position_Some)

section \<open>Draining\<close>

text \<open>
  The client loop: take articles until none is complete. \<open>drain\<close> works on the cutter, \<open>cut_all\<close> on
  the abstract bytes; both return the articles and the error that stopped them, if any.
\<close>

function cut_all :: "record_format \<Rightarrow> usize \<Rightarrow> bytes \<Rightarrow> bytes list \<times> record_error option \<times> bytes" where
  "cut_all fmt rl avail =
     (if rl = 0 then ([], None, avail)
      else case cut_next fmt rl avail of
        Inl e \<Rightarrow> ([], Some e, avail)
      | Inr None \<Rightarrow> ([], None, avail)
      | Inr (Some (a, rest)) \<Rightarrow> (let (as, e, r) = cut_all fmt rl rest in (a # as, e, r)))"
  by pat_completeness auto
termination
  by (relation "measure (\<lambda>(fmt, rl, avail). length avail)") (auto dest: cut_next_shorter)

declare cut_all.simps [simp del]

lemma cut_all_step:
  "0 < rl \<Longrightarrow> cut_all fmt rl avail =
     (case cut_next fmt rl avail of
        Inl e \<Rightarrow> ([], Some e, avail)
      | Inr None \<Rightarrow> ([], None, avail)
      | Inr (Some (a, rest)) \<Rightarrow> (let (as, e, r) = cut_all fmt rl rest in (a # as, e, r)))"
  by (subst cut_all.simps) simp

lemma position_append:
  "position P (xs @ ys) =
     (case position P xs of Some i \<Rightarrow> Some i | None \<Rightarrow> map_option (\<lambda>i. length xs + i) (position P ys))"
  by (induction xs; cases "position P ys") (auto split: option.splits)

lemma cut_next_append:
  "cut_next fmt rl avail = Inr (Some (a, rest)) \<Longrightarrow> cut_next fmt rl (avail @ d) = Inr (Some (a, rest @ d))"
  by (auto simp: cut_next_def and_then_eq_Inr position_append split: if_splits option.splits
      dest!: position_Some)

lemma cut_next_append_error:
  "cut_next fmt rl avail = Inl e \<Longrightarrow> cut_next fmt rl (avail @ d) = Inl e"
  by (auto simp: cut_next_def and_then_def position_append split: if_splits option.splits sum.splits
      dest!: position_Some)

lemma cut_all_append:
  assumes "0 < rl"
  shows "cut_all fmt rl (avail @ d) =
    (case cut_all fmt rl avail of
       (as, Some e, r) \<Rightarrow> (as, Some e, r @ d)
     | (as, None, r) \<Rightarrow> (let (bs, e, r') = cut_all fmt rl (r @ d) in (as @ bs, e, r')))"
proof (induction "length avail" arbitrary: avail rule: less_induct)
  case less
  consider (error) e where "cut_next fmt rl avail = Inl e"
    | (stop) "cut_next fmt rl avail = Inr None"
    | (article) a rest where "cut_next fmt rl avail = Inr (Some (a, rest))"
    by (metis old.sum.exhaust option.exhaust surj_pair)
  then show ?case
  proof cases
    case error
    with cut_next_append_error [OF error, of d] assms show ?thesis
      by (simp add: cut_all_step [of rl fmt avail] cut_all_step [of rl fmt "avail @ d"])
  next
    case stop
    then show ?thesis using assms
      by (simp add: cut_all_step [of rl fmt avail] split: prod.splits)
  next
    case article
    have "length rest < length avail" using article assms by (rule cut_next_shorter)
    note IH = less [OF this]
    from article cut_next_append [OF article, of d] assms IH show ?thesis
      by (auto simp: cut_all_step [of rl fmt avail] cut_all_step [of rl fmt "avail @ d"] Let_def
          split: prod.splits option.splits)
  qed
qed

lemma cut_all_rest:
  "0 < rl \<Longrightarrow> cut_all fmt rl avail = (as, None, r) \<Longrightarrow> cut_next fmt rl r = Inr None"
proof (induction "length avail" arbitrary: avail as rule: less_induct)
  case less
  show ?case
  proof (cases "cut_next fmt rl avail")
    case (Inl e)
    with less.prems show ?thesis by (simp add: cut_all_step [of rl fmt avail])
  next
    case (Inr o1)
    show ?thesis
    proof (cases o1)
      case None
      with Inr less.prems show ?thesis by (simp add: cut_all_step [of rl fmt avail])
    next
      case (Some ar)
      obtain a rest where ar: "ar = (a, rest)" by (cases ar)
      with Inr Some have n: "cut_next fmt rl avail = Inr (Some (a, rest))" by simp
      with less.prems obtain bs where "cut_all fmt rl rest = (bs, None, r)"
        by (auto simp: cut_all_step [of rl fmt avail] split: prod.splits)
      with less.hyps [OF cut_next_shorter [OF n less.prems(1)] less.prems(1)] show ?thesis by blast
    qed
  qed
qed

section \<open>The client loop on the concrete cutter\<close>

lemma next_article_shorter:
  assumes "next_article c = Inr (Some a, c')" and "cutter_inv c"
  shows "length (cutter_avail c') < length (cutter_avail c)"
proof -
  have "0 < ac_record_len c" using assms(2) by (simp add: cutter_inv_def)
  with next_article_refines [OF assms(2)] assms(1)
    cut_next_shorter [of "ac_format c" "ac_record_len c" "cutter_avail c"]
  show ?thesis by (auto split: sum.splits option.splits)
qed

function drain :: "article_cutter \<Rightarrow> bytes list \<times> record_error option \<times> article_cutter" where
  "drain c =
     (if \<not> cutter_inv c then ([], None, c)
      else case next_article c of
        Inl e \<Rightarrow> ([], Some e, c)
      | Inr (None, c') \<Rightarrow> ([], None, c')
      | Inr (Some a, c') \<Rightarrow> (let (as, e, c'') = drain c' in (a # as, e, c'')))"
  by pat_completeness auto
termination
  by (relation "measure (\<lambda>c. length (cutter_avail c))") (auto dest: next_article_shorter)

declare drain.simps [simp del]

lemma drain_refines:
  "cutter_inv c \<Longrightarrow> \<exists>c'. drain c = (fst (cut_all (ac_format c) (ac_record_len c) (cutter_avail c)),
      fst (snd (cut_all (ac_format c) (ac_record_len c) (cutter_avail c))), c') \<and>
    cutter_avail c' = snd (snd (cut_all (ac_format c) (ac_record_len c) (cutter_avail c))) \<and>
    cutter_inv c' \<and> ac_format c' = ac_format c \<and> ac_record_len c' = ac_record_len c"
proof (induction "length (cutter_avail c)" arbitrary: c rule: less_induct)
  case less
  have rl: "0 < ac_record_len c" using less.prems by (simp add: cutter_inv_def)
  note ref = next_article_refines [OF less.prems]
  note step = cut_all_step [OF rl, of "ac_format c" "cutter_avail c"]
  consider (error) e where "cut_next (ac_format c) (ac_record_len c) (cutter_avail c) = Inl e"
    | (stop) "cut_next (ac_format c) (ac_record_len c) (cutter_avail c) = Inr None"
    | (article) a rest where "cut_next (ac_format c) (ac_record_len c) (cutter_avail c) = Inr (Some (a, rest))"
    by (metis old.sum.exhaust option.exhaust surj_pair)
  then show ?case
  proof cases
    case article
    with ref obtain c1 where c1: "next_article c = Inr (Some a, c1)" "cutter_avail c1 = rest" "cutter_inv c1"
        "ac_format c1 = ac_format c" "ac_record_len c1 = ac_record_len c" by auto
    have "length (cutter_avail c1) < length (cutter_avail c)"
      using c1(1) less.prems by (rule next_article_shorter)
    from less.hyps [OF this c1(3)] c1 step article less.prems show ?thesis
      by (auto simp: drain.simps [of c] Let_def split: prod.splits)
  qed (use ref step less.prems in \<open>auto simp: drain.simps [of c]\<close>)
qed

text \<open>\<open>run_cutter\<close>: push each block read from the file, take the complete articles, finish at the end.\<close>

fun run_cutter :: "article_cutter \<Rightarrow> bytes list \<Rightarrow> bytes list \<times> record_error option" where
  "run_cutter c [] =
     (case fst (cutter_finish c) of
        Inl e \<Rightarrow> ([], Some e) | Inr None \<Rightarrow> ([], None) | Inr (Some a) \<Rightarrow> ([a], None))"
| "run_cutter c (d # ds) =
     (case drain (cutter_push d c) of
        (as, Some e, c') \<Rightarrow> (as, Some e)
      | (as, None, c') \<Rightarrow> (let (bs, e) = run_cutter c' ds in (as @ bs, e)))"

definition finish_of :: "record_format \<Rightarrow> usize \<Rightarrow> bytes \<Rightarrow> bytes list \<times> record_error option" where
  "finish_of fmt rl rest =
     (if rest = [] then ([], None)
      else if fmt = Bf then ([], Some (UnfilledRecord (length rest) rl))
      else if rf_is_text fmt then
        (case text_of fmt rl (strip_cr rest) of Inl e \<Rightarrow> ([], Some e) | Inr a \<Rightarrow> ([a], None))
      else ([rest], None))"

definition cut_file :: "record_format \<Rightarrow> usize \<Rightarrow> bytes \<Rightarrow> bytes list \<times> record_error option" where
  "cut_file fmt rl data =
     (case cut_all fmt rl data of
        (as, Some e, r) \<Rightarrow> (as, Some e)
      | (as, None, r) \<Rightarrow> (let (bs, e) = finish_of fmt rl r in (as @ bs, e)))"

lemma run_cutter_finish: "run_cutter c [] = finish_of (ac_format c) (ac_record_len c) (cutter_avail c)"
proof -
  have "text_article (c\<lparr>ac_pos := n\<rparr>) l = text_of (ac_format c) (ac_record_len c) l" for n l
    by (simp add: text_article_of)
  then show ?thesis
    by (cases "ac_format c")
      (auto simp: cutter_finish_def finish_of_def cutter_avail_def rf_is_text_def Let_def and_then_def
        split: sum.splits)
qed

lemma run_cutter_eq:
  assumes "cutter_inv c" and "cut_next (ac_format c) (ac_record_len c) (cutter_avail c) = Inr None"
  shows "run_cutter c ds = cut_file (ac_format c) (ac_record_len c) (cutter_avail c @ concat ds)"
  using assms
proof (induction ds arbitrary: c)
  case Nil
  then have "cut_all (ac_format c) (ac_record_len c) (cutter_avail c) = ([], None, cutter_avail c)"
    by (simp add: cut_all_step cutter_inv_def)
  then show ?case by (simp add: cut_file_def run_cutter_finish del: run_cutter.simps)
next
  case (Cons d ds)
  let ?f = "ac_format c" and ?n = "ac_record_len c"
  have rl: "0 < ?n" using Cons.prems(1) by (simp add: cutter_inv_def)
  note p = cutter_push_avail [OF Cons.prems(1), of d]
  obtain as e r where ca: "cut_all ?f ?n (cutter_avail c @ d) = (as, e, r)" by (metis surj_pair)
  obtain c' where c': "drain (cutter_push d c) = (as, e, c')" "cutter_avail c' = r" "cutter_inv c'"
      "ac_format c' = ?f" "ac_record_len c' = ?n"
    using drain_refines [of "cutter_push d c"] p ca by auto
  show ?case
  proof (cases e)
    case (Some x)
    with ca c' cut_all_append [OF rl, of ?f "cutter_avail c @ d" "concat ds"] show ?thesis
      by (simp add: cut_file_def)
  next
    case None
    with ca have "cut_next ?f ?n r = Inr None" using cut_all_rest [OF rl] by blast
    with Cons.IH [OF c'(3)] c' have "run_cutter c' ds = cut_file ?f ?n (r @ concat ds)" by simp
    with None ca c' cut_all_append [OF rl, of ?f "cutter_avail c @ d" "concat ds"] show ?thesis
      by (auto simp: cut_file_def Let_def split: prod.splits option.splits)
  qed
qed

declare run_cutter.simps [simp del]

lemma max_one_pos [simp]: "0 < max n (Suc 0)"
  by (simp add: less_max_iff_disj)

lemma cutter_new_run:
  "run_cutter (cutter_new fmt n) ds = cut_file fmt (max n 1) (concat ds)"
proof -
  have "cutter_inv (cutter_new fmt n)" "cutter_avail (cutter_new fmt n) = []"
    by (simp_all add: cutter_inv_def cutter_new_def cutter_avail_def)
  then show ?thesis
    using run_cutter_eq [of "cutter_new fmt n" ds] by (simp add: cutter_new_def cut_next_def)
qed

text \<open>C31: the articles cut from a file, and the error if there is one, depend only on the bytes of
  the file and not on the sizes of the blocks in which it is read.\<close>

theorem cutter_block_independent:
  assumes "concat ds = concat ds'"
  shows "run_cutter (cutter_new fmt n) ds = run_cutter (cutter_new fmt n) ds'"
  by (simp add: cutter_new_run assms)

theorem cutter_block_independent_witness:
  "run_cutter (cutter_new Tv 80) [[72, 105, 13], [10, 33]] = run_cutter (cutter_new Tv 80) [[72, 105, 13, 10, 33]]"
  by (rule cutter_block_independent) simp

section \<open>Binary formats\<close>

lemma cut_all_binary:
  assumes "0 < rl" and "\<not> rf_is_text fmt"
  shows "\<exists>as r. cut_all fmt rl data = (as, None, r) \<and> length r < rl \<and> as @ (if r = [] then [] else [r]) = chunks rl data \<and>
    list_all (\<lambda>a. length a = rl) as"
proof (induction "length data" arbitrary: data rule: less_induct)
  case less
  show ?case
  proof (cases "rl \<le> length data")
    case True
    then have "length (drop rl data) < length data" "data \<noteq> []" using assms(1) by auto
    with less obtain as r where "cut_all fmt rl (drop rl data) = (as, None, r)" "length r < rl"
        "as @ (if r = [] then [] else [r]) = chunks rl (drop rl data)" "list_all (\<lambda>a. length a = rl) as"
      by blast
    with assms True \<open>data \<noteq> []\<close> show ?thesis
      by (simp add: cut_all_step [of rl fmt data] cut_next_def chunks_step)
  next
    case False
    with assms have "cut_all fmt rl data = ([], None, data)"
      by (simp add: cut_all_step cut_next_def)
    with False show ?thesis by (cases "data = []") (auto simp: chunks.simps [of rl data])
  qed
qed

lemma concat_nonempty_last: "concat (as @ (if r = [] then [] else [r])) = concat as @ r"
  by simp

text \<open>a binary file (format BU or BV) is cut into consecutive pieces of the record length, the
  last one possibly shorter, without error, and writing the articles out restores the file.\<close>

theorem cutter_binary:
  assumes "fmt = Bu \<or> fmt = Bv"
  shows "run_cutter (cutter_new fmt n) ds = (chunks (max n 1) (concat ds), None) \<and>
    concat (map (article_to_bytes fmt) (chunks (max n 1) (concat ds))) = concat ds"
proof -
  have nt: "\<not> rf_is_text fmt" "fmt \<noteq> Bf" using assms by (auto simp: rf_is_text_def)
  obtain as r where c: "cut_all fmt (max n 1) (concat ds) = (as, None, r)"
      "as @ (if r = [] then [] else [r]) = chunks (max n 1) (concat ds)"
    using cut_all_binary [of "max n 1" fmt "concat ds"] nt by auto
  have "map (article_to_bytes fmt) xs = xs" for xs
    using nt by (simp add: article_to_bytes_def map_idI)
  then have "concat (map (article_to_bytes fmt) (chunks (max n 1) (concat ds))) = concat ds"
    by (simp add: concat_chunks)
  with c nt show ?thesis by (auto simp: cutter_new_run cut_file_def finish_of_def)
qed

theorem cutter_binary_witness:
  "run_cutter (cutter_new Bu 2) [[1, 2, 3], [4, 5]] = (chunks 2 [1, 2, 3, 4, 5], None)"
  using cutter_binary [of Bu 2 "[[1, 2, 3], [4, 5]]"] by (simp add: numeral_2_eq_2)

text \<open>A fixed-format file (BF) is accepted exactly when its size is a multiple of the record
  length, every article then has exactly that length, and otherwise the error reports the bytes left
  over.\<close>

theorem cutter_fixed:
  "let (as, e) = run_cutter (cutter_new Bf n) ds; left = length (concat ds) mod max n 1
   in list_all (\<lambda>a. length a = max n 1) as \<and>
      (e = None \<longleftrightarrow> left = 0) \<and> (left \<noteq> 0 \<longrightarrow> e = Some (UnfilledRecord left (max n 1))) \<and>
      (e = None \<longrightarrow> concat as = concat ds)"
proof -
  let ?n = "max n 1"
  obtain as r where c: "cut_all Bf ?n (concat ds) = (as, None, r)" "length r < ?n"
      "as @ (if r = [] then [] else [r]) = chunks ?n (concat ds)" "list_all (\<lambda>a. length a = ?n) as"
    using cut_all_binary [of ?n Bf "concat ds"] by (auto simp: rf_is_text_def)
  have data: "concat as @ r = concat ds"
    using c(3) concat_chunks [of ?n "concat ds"] concat_nonempty_last [of as r] by simp
  have "sum_list (map length as) = length as * ?n"
    using c(4) by (induction as) auto
  then have "length (concat ds) = length as * ?n + length r"
    by (simp add: data [symmetric] length_concat)
  then have "length (concat ds) mod ?n = length r" using c(2) by simp
  moreover have "run_cutter (cutter_new Bf n) ds =
      (if r = [] then (as, None) else (as, Some (UnfilledRecord (length r) ?n)))"
    using c(1) by (simp add: cutter_new_run cut_file_def finish_of_def)
  ultimately show ?thesis using c(4) data by (auto simp: Let_def)
qed

theorem cutter_fixed_witness:
  "\<exists>as. run_cutter (cutter_new Bf 2) [[1, 2, 3]] = (as, Some (UnfilledRecord 1 2))"
  using cutter_fixed [of 2 "[[1, 2, 3]]"] by (auto simp: Let_def numeral_2_eq_2 mod_Suc)

section \<open>Text formats\<close>

definition line_ok :: "record_format \<Rightarrow> usize \<Rightarrow> bytes \<Rightarrow> bool" where
  "line_ok fmt rl l \<longleftrightarrow> 10 \<notin> set l \<and> length l \<le> rl \<and> (l = [] \<or> last l \<noteq> 13) \<and>
     (if fmt = Tf then l = [] \<or> last l \<noteq> 32 else l \<noteq> [])"

definition text_record :: "record_format \<Rightarrow> usize \<Rightarrow> bytes \<Rightarrow> bytes" where
  "text_record fmt rl l = (if fmt = Tf then l @ replicate (rl - length l) 32 else l)"

lemma position_first: "x \<notin> set l \<Longrightarrow> position (\<lambda>b. b = x) (l @ x # rest) = Some (length l)"
  by (induction l) auto

lemma trim_trailing_spaces_pad:
  "l = [] \<or> last l \<noteq> 32 \<Longrightarrow> trim_trailing_spaces (l @ replicate n 32) = l"
proof -
  assume a: "l = [] \<or> last l \<noteq> 32"
  have "dropWhile (\<lambda>b. b = 32) (replicate n 32 @ xs) = dropWhile (\<lambda>b. b = 32) xs" for xs :: bytes
    by (induction n) simp_all
  moreover have "dropWhile (\<lambda>b. b = 32) (rev l) = rev l"
    using a by (cases l rule: rev_cases) simp_all
  ultimately show ?thesis by (simp add: trim_trailing_spaces_def)
qed

lemma cut_all_lines:
  assumes "0 < rl" and "rf_is_text fmt" and "list_all (line_ok fmt rl) ls"
  shows "cut_all fmt rl (concat (map (\<lambda>l. l @ [10]) ls)) = (map (text_record fmt rl) ls, None, [])"
  using assms(3)
proof (induction ls)
  case Nil
  with assms show ?case by (simp add: cut_all_step cut_next_def)
next
  case (Cons l ls)
  let ?rest = "concat (map (\<lambda>l. l @ [10]) ls)"
  have l: "line_ok fmt rl l" using Cons.prems by simp
  have nl: "position (\<lambda>b. b = 10) (l @ 10 # ?rest) = Some (length l)"
    using l by (intro position_first) (simp add: line_ok_def)
  have "strip_cr l = l" using l by (auto simp: line_ok_def strip_cr_def)
  moreover have "text_of fmt rl l = Inr (text_record fmt rl l)"
    using l assms(1,2) by (auto simp: line_ok_def text_of_def text_article_def text_record_def rf_is_text_def)
  ultimately have "cut_next fmt rl (l @ 10 # ?rest) = Inr (Some (text_record fmt rl l, ?rest))"
    using assms(2) nl by (simp add: cut_next_def)
  with assms(1) Cons show ?case by (simp add: cut_all_step [of rl fmt "l @ 10 # ?rest"])
qed

text \<open>a text file (format TV or TF) made of lines that end in a line feed, are no longer than the
  record length and need no repair (no carriage return before the line feed, not empty for TV, no
  trailing blank for TF) goes through unchanged: one article per line, and writing the received
  articles gives the file back.\<close>

theorem cutter_text_round_trip:
  assumes "fmt = Tv \<or> fmt = Tf" and "list_all (line_ok fmt (max n 1)) ls"
    and "concat ds = concat (map (\<lambda>l. l @ [10]) ls)"
  shows "\<exists>as. run_cutter (cutter_new fmt n) ds = (as, None) \<and> length as = length ls \<and>
    concat (map (article_to_bytes fmt) as) = concat ds"
proof -
  let ?n = "max n 1"
  have t: "rf_is_text fmt" using assms(1) by (auto simp: rf_is_text_def)
  have c: "cut_all fmt ?n (concat ds) = (map (text_record fmt ?n) ls, None, [])"
    unfolding assms(3) by (rule cut_all_lines [OF _ t assms(2)]) simp
  have "article_to_bytes fmt (text_record fmt ?n l) = l @ [10]" if "line_ok fmt ?n l" for l
    using that t by (auto simp: article_to_bytes_def text_record_def line_ok_def trim_trailing_spaces_pad)
  then have "concat (map (article_to_bytes fmt) (map (text_record fmt ?n) ls)) = concat ds"
    using assms(2) unfolding assms(3) by (induction ls) auto
  with c show ?thesis
    by (intro exI [of _ "map (text_record fmt ?n) ls"]) (simp add: cutter_new_run cut_file_def finish_of_def)
qed

theorem cutter_text_round_trip_witness:
  "\<exists>as. run_cutter (cutter_new Tf 4) [[72, 105], [10, 10]] = (as, None) \<and> length as = Suc (Suc 0) \<and>
    concat (map (article_to_bytes Tf) as) = [72, 105, 10, 10]"
  using cutter_text_round_trip [of Tf 4 "[[72, 105], []]" "[[72, 105], [10, 10]]"]
  by (simp add: line_ok_def)

end
