(* ===== verification/Frame.thy ===== *)
theory Frame
  imports Crc Fpdu_Codec
begin

text \<open>
  \<^verbatim>\<open>crates/pesit-core/src/frame.rs\<close>: data entities, i.e. FPDUs concatenated up to the negotiated
  entity size, each followed by its check bytes when error control is in use. The position in the
  entity is the entity length minus the bytes that remain.
\<close>

section \<open>Splitting a received entity\<close>

definition split_item :: "usize \<Rightarrow> bool \<Rightarrow> bytes \<Rightarrow> (decode_error, bytes \<times> bytes) result" where
  "split_item entity_len crc rest =
     (case rest of
        b0 # b1 # _ # _ # _ # _ # _ \<Rightarrow>
          (let len = be_len b0 b1; pos = entity_len - length rest in
           if len < HEADER_LEN \<or> len > length rest
           then Inl \<lparr>e_diag = D_REMOTE_PROTOCOL_ERROR, e_detail = InvalidFpduLength len pos entity_len\<rparr>
           else
             let fpdu = take len rest in
             if crc then
               (if length rest < len + CRC_LEN
                then Inl \<lparr>e_diag = D_TRANSMISSION_ERROR, e_detail = MissingCrc\<rparr>
                else if \<not> crc_verify (take (len + CRC_LEN) rest)
                     then Inl \<lparr>e_diag = D_TRANSMISSION_ERROR, e_detail = CrcError\<rparr>
                else Inr (fpdu, drop (len + CRC_LEN) rest))
             else Inr (fpdu, drop len rest))
      | _ \<Rightarrow> Inl \<lparr>e_diag = D_REMOTE_PROTOCOL_ERROR, e_detail = TrailingBytes (length rest)\<rparr>)"

lemma split_item_shorter: "split_item n crc rest = Inr (f, rest') \<Longrightarrow> length rest' < length rest"
  by (auto simp: split_item_def Let_def HEADER_LEN_def split: list.splits if_splits)

function split_loop :: "usize \<Rightarrow> bool \<Rightarrow> bytes \<Rightarrow> (decode_error, bytes list) result" where
  "split_loop entity_len crc rest =
     (if rest = [] then Inr []
      else and_then (split_item entity_len crc rest) (\<lambda>(f, rest').
        and_then (split_loop entity_len crc rest') (\<lambda>fs. Inr (f # fs))))"
  by pat_completeness auto
termination
  by (relation "measure (\<lambda>(n, crc, rest). length rest)") (auto dest: split_item_shorter)

declare split_loop.simps [simp del]

definition split_entity :: "bytes \<Rightarrow> bool \<Rightarrow> (decode_error, bytes list) result" where
  "split_entity entity crc = split_loop (length entity) crc entity"

definition decode_entity :: "bytes \<Rightarrow> bool \<Rightarrow> (decode_error, fpdu list) result" where
  "decode_entity entity crc =
     and_then (split_entity entity crc) (\<lambda>slices. collect_results (map decode slices))"

section \<open>Building an entity\<close>

record entity_builder =
  eb_buf :: bytes
  eb_max_len :: usize
  eb_crc :: bool
  eb_count :: usize

definition builder_new :: "usize \<Rightarrow> bool \<Rightarrow> entity_builder" where
  "builder_new max_len crc = \<lparr>eb_buf = [], eb_max_len = max_len, eb_crc = crc, eb_count = 0\<rparr>"

definition builder_cost :: "entity_builder \<Rightarrow> usize \<Rightarrow> usize" where
  "builder_cost b fpdu_len = (if eb_crc b then fpdu_len + CRC_LEN else fpdu_len)"

definition builder_fits :: "entity_builder \<Rightarrow> usize \<Rightarrow> bool" where
  "builder_fits b fpdu_len =
     (if eb_crc b \<and> eb_count b > 0 then False
      else length (eb_buf b) + builder_cost b fpdu_len \<le> eb_max_len b)"

definition builder_remaining :: "entity_builder \<Rightarrow> usize" where
  "builder_remaining b =
     (if eb_crc b \<and> eb_count b > 0 then 0
      else eb_max_len b - (length (eb_buf b) + (if eb_crc b then CRC_LEN else 0)))"

definition builder_push_encoded :: "bytes \<Rightarrow> entity_builder \<Rightarrow> entity_builder" where
  "builder_push_encoded f b =
     b\<lparr>eb_buf := eb_buf b @ f @ (if eb_crc b then crc_compute f else []), eb_count := eb_count b + 1\<rparr>"

definition builder_push :: "fpdu \<Rightarrow> entity_builder \<Rightarrow> (encode_error, unit) result \<times> entity_builder" where
  "builder_push f b =
     (let start = length (eb_buf b);
          (out, r) = encode_into f (eb_buf b);
          b = b\<lparr>eb_buf := out\<rparr>
      in case r of
           Inl e \<Rightarrow> (Inl e, b)
         | Inr _ \<Rightarrow>
             (Inr (), b\<lparr>eb_buf := eb_buf b @ (if eb_crc b then crc_compute (drop start (eb_buf b)) else []),
                       eb_count := eb_count b + 1\<rparr>))"

definition builder_is_empty :: "entity_builder \<Rightarrow> bool" where
  "builder_is_empty b \<longleftrightarrow> eb_count b = 0"

definition builder_take :: "entity_builder \<Rightarrow> bytes \<times> entity_builder" where
  "builder_take b = (eb_buf b, b\<lparr>eb_buf := [], eb_count := 0\<rparr>)"

definition single_entity :: "fpdu \<Rightarrow> bool \<Rightarrow> (encode_error, bytes) result" where
  "single_entity f crc = and_then (encode f) (\<lambda>v. Inr (if crc then crc_append v else v))"

definition peek_kind :: "bytes \<Rightarrow> fpdu_kind option" where
  "peek_kind entity =
     (case entity of _ # _ # b0 # b1 # _ \<Rightarrow> kind_from_codes b0 b1 | _ \<Rightarrow> None)"

section \<open>Entities as item streams\<close>

definition framed :: "bytes \<Rightarrow> bool" where
  "framed f \<longleftrightarrow> HEADER_LEN \<le> length f \<and> length f < 65536 \<and>
     take 2 f = to_be_bytes16 (u16_of_usize (length f))"

definition entity_emit :: "bool \<Rightarrow> bytes \<Rightarrow> bytes" where
  "entity_emit crc f = f @ (if crc then crc_compute f else [])"

lemma length_crc_compute [simp]: "length (crc_compute f) = CRC_LEN"
  by (simp add: crc_compute_def CRC_LEN_def Let_def split: prod.splits)

lemma six_bytes:
  assumes "6 \<le> length f"
  obtains b0 b1 b2 b3 b4 b5 body where "f = b0 # b1 # b2 # b3 # b4 # b5 # body"
proof -
  from assms have "\<exists>b0 b1 b2 b3 b4 b5 body. f = b0 # b1 # b2 # b3 # b4 # b5 # body"
    by (auto simp: numeral_eq_Suc Suc_le_length_iff)
  with that show ?thesis by blast
qed

lemma framed_cases:
  assumes "framed f"
  obtains b0 b1 b2 b3 b4 b5 body where "f = b0 # b1 # b2 # b3 # b4 # b5 # body" "be_len b0 b1 = length f"
proof -
  from assms have "6 \<le> length f" by (simp add: framed_def HEADER_LEN_def)
  then obtain b0 b1 b2 b3 b4 b5 body where f: "f = b0 # b1 # b2 # b3 # b4 # b5 # body"
    by (rule six_bytes)
  have "take 2 f = to_be_bytes16 (u16_of_usize (length f))" "length f < 65536"
    using assms by (simp_all add: framed_def)
  then have "b0 = ucast (drop_bit 8 (u16_of_usize (length f)))" "b1 = ucast (u16_of_usize (length f))"
    unfolding to_be_bytes16_def by (simp_all add: f)
  with \<open>length f < 65536\<close> have "be_len b0 b1 = length f" by (metis be_len_u16_of_usize)
  with f show ?thesis by (rule that)
qed

lemma split_item_ok:
  assumes "rest = b0 # b1 # b2 # b3 # b4 # b5 # body" and "HEADER_LEN \<le> be_len b0 b1"
    and "be_len b0 b1 \<le> length rest"
    and "crc \<Longrightarrow> be_len b0 b1 + CRC_LEN \<le> length rest \<and> crc_verify (take (be_len b0 b1 + CRC_LEN) rest)"
  shows "split_item n crc rest =
    Inr (take (be_len b0 b1) rest, drop (be_len b0 b1 + (if crc then CRC_LEN else 0)) rest)"
  using assms by (auto simp: split_item_def Let_def)

lemma split_item_crc_error:
  assumes "rest = b0 # b1 # b2 # b3 # b4 # b5 # body" and "HEADER_LEN \<le> be_len b0 b1"
    and "length rest = be_len b0 b1 + CRC_LEN" and "\<not> crc_verify rest"
  shows "split_item n True rest = Inl \<lparr>e_diag = D_TRANSMISSION_ERROR, e_detail = CrcError\<rparr>"
proof -
  have "take (be_len b0 b1 + CRC_LEN) rest = rest" using assms(3) by simp
  with assms show ?thesis by (simp add: split_item_def Let_def)
qed

lemma split_item_emit:
  assumes "framed f"
  shows "split_item n crc (entity_emit crc f @ rest) = Inr (f, rest)"
proof -
  obtain b0 b1 b2 b3 b4 b5 body where f: "f = b0 # b1 # b2 # b3 # b4 # b5 # body"
    and len: "be_len b0 b1 = length f" using assms by (rule framed_cases)
  let ?e = "entity_emit crc f @ rest"
  have e: "?e = b0 # b1 # b2 # b3 # b4 # b5 # (body @ (if crc then crc_compute f else []) @ rest)"
    unfolding entity_emit_def by (subst f) simp
  have h: "HEADER_LEN \<le> be_len b0 b1" using assms by (simp add: framed_def len)
  have v: "crc_verify (f @ crc_compute f)"
    using crc_append_ok [of f] by (simp add: crc_append_def)
  have "split_item n crc ?e = Inr (take (be_len b0 b1) ?e, drop (be_len b0 b1 + (if crc then CRC_LEN else 0)) ?e)"
    by (rule split_item_ok [OF e h]) (use v in \<open>auto simp: len entity_emit_def\<close>)
  then show ?thesis by (simp add: len entity_emit_def)
qed

interpretation entity_stream: item_stream framed "entity_emit crc" "split_item n crc" "split_loop n crc"
  for n crc
proof
  show "split_item n crc (entity_emit crc f @ rest) = Inr (f, rest)" if "framed f" for f rest
    using that by (rule split_item_emit)
  show "entity_emit crc f \<noteq> []" if "framed f" for f
    using that by (auto simp: entity_emit_def framed_def HEADER_LEN_def)
  show "split_loop n crc [] = Inr []"
    by (simp add: split_loop.simps)
  show "split_loop n crc bs = (case split_loop n crc rest of Inl e \<Rightarrow> Inl e | Inr fs \<Rightarrow> Inr (f # fs))"
    if "bs \<noteq> []" "split_item n crc bs = Inr (f, rest)" for bs f rest
    using that by (simp add: split_loop.simps [of n crc bs] and_then_def)
qed

lemma framed_encode:
  assumes "encode f = Inr bs"
  shows "framed bs"
proof -
  have "encoded_len f \<le> MAX_FPDU_LEN" "bs = header_bytes f @ body_bytes f" "length bs = encoded_len f"
    using assms length_body_bytes [of f] by (auto simp: encode_eq_Inr)
  moreover have "HEADER_LEN \<le> encoded_len f" by (simp add: encoded_len_def)
  ultimately show ?thesis
    by (simp add: framed_def MAX_FPDU_LEN_def header_bytes_def)
qed

text \<open>An FPDU that the strict decoder accepts back.\<close>

definition sendable :: "fpdu \<Rightarrow> bool" where
  "sendable f \<longleftrightarrow> fpdu_wf True f \<and> template_ok f \<and> encoded_len f \<le> MAX_FPDU_LEN"

definition fpdu_bytes :: "fpdu \<Rightarrow> bytes" where
  "fpdu_bytes f = header_bytes f @ body_bytes f"

lemma sendable_encode: "sendable f \<Longrightarrow> encode f = Inr (fpdu_bytes f)"
  unfolding sendable_def fpdu_bytes_def using encode_wf by blast

lemma sendable_encode_into: "sendable f \<Longrightarrow> encode_into f out = (out @ fpdu_bytes f, Inr ())"
  unfolding sendable_def fpdu_bytes_def using encode_into_ok fpdu_wf_no_empty_value by blast

lemma sendable_framed: "sendable f \<Longrightarrow> framed (fpdu_bytes f)"
  by (rule framed_encode [OF sendable_encode])

lemma sendable_decode: "sendable f \<Longrightarrow> decode (fpdu_bytes f) = Inr f"
  by (simp add: sendable_def fpdu_bytes_def decode_def decode_with_encode)

lemma length_fpdu_bytes [simp]: "length (fpdu_bytes f) = encoded_len f"
  unfolding fpdu_bytes_def by (rule length_body_bytes)

definition entity_of :: "bool \<Rightarrow> fpdu list \<Rightarrow> bytes" where
  "entity_of crc fs = concat (map (\<lambda>f. entity_emit crc (fpdu_bytes f)) fs)"

lemma decode_entity_of:
  assumes "list_all sendable fs"
  shows "decode_entity (entity_of crc fs) crc = Inr fs"
proof -
  have "list_all framed (map fpdu_bytes fs)"
    using assms by (auto simp: list_all_iff sendable_framed)
  then have "split_entity (entity_of crc fs) crc = Inr (map fpdu_bytes fs)"
    using entity_stream.read_all_emit by (fastforce simp: split_entity_def entity_of_def comp_def)
  moreover have "collect_results (map (\<lambda>f. decode (fpdu_bytes f)) fs) = Inr (map (\<lambda>f. f) fs)"
    using assms by (intro collect_results_map_ok) (simp add: list_all_iff sendable_decode)
  ultimately show ?thesis by (simp add: decode_entity_def comp_def)
qed

section \<open>The builder\<close>

definition builder_holds :: "entity_builder \<Rightarrow> fpdu list \<Rightarrow> bool" where
  "builder_holds b fs \<longleftrightarrow> eb_buf b = entity_of (eb_crc b) fs \<and> eb_count b = length fs \<and>
     list_all sendable fs \<and> length (eb_buf b) \<le> eb_max_len b \<and> (eb_crc b \<longrightarrow> length fs \<le> 1)"

lemma builder_holds_new: "builder_holds (builder_new n crc) []"
  by (simp add: builder_holds_def builder_new_def entity_of_def)

lemma builder_push_spec:
  assumes "builder_holds b fs" and "sendable f" and "builder_fits b (encoded_len f)"
  shows "\<exists>b'. builder_push f b = (Inr (), b') \<and> builder_holds b' (fs @ [f]) \<and>
    eb_max_len b' = eb_max_len b \<and> eb_crc b' = eb_crc b"
  using assms
  by (auto simp: builder_push_def sendable_encode_into builder_holds_def entity_of_def entity_emit_def
      builder_fits_def builder_cost_def CRC_LEN_def split: if_splits)

lemma builder_take_spec:
  assumes "builder_holds b fs"
  shows "\<exists>b'. builder_take b = (entity_of (eb_crc b) fs, b') \<and> builder_holds b' [] \<and>
    eb_max_len b' = eb_max_len b \<and> eb_crc b' = eb_crc b"
  using assms by (auto simp: builder_take_def builder_holds_def entity_of_def)

text \<open>\<open>fill_entities\<close>: append each FPDU to the current entity, starting a new one when it does not fit.\<close>

fun fill_entities :: "entity_builder \<Rightarrow> fpdu list \<Rightarrow> (encode_error, bytes list) result" where
  "fill_entities b [] = Inr (if builder_is_empty b then [] else [fst (builder_take b)])"
| "fill_entities b (f # fs) =
     (let (done, b) = (if builder_fits b (encoded_len f) then ([], b)
                       else let (e, b') = builder_take b in ([e], b'))
      in case builder_push f b of
           (Inl e, _) \<Rightarrow> Inl e
         | (Inr _, b') \<Rightarrow> and_then (fill_entities b' fs) (\<lambda>es. Inr (done @ es)))"

definition entity_ok :: "usize \<Rightarrow> bool \<Rightarrow> fpdu list \<Rightarrow> bool" where
  "entity_ok n crc gs \<longleftrightarrow> gs \<noteq> [] \<and> list_all sendable gs \<and> length (entity_of crc gs) \<le> n \<and>
     (crc \<longrightarrow> length gs = 1)"

lemma fill_entities_spec:
  assumes "builder_holds b gs"
    and "list_all (\<lambda>f. sendable f \<and> builder_cost b (encoded_len f) \<le> eb_max_len b) fs"
  shows "\<exists>ess. fill_entities b fs = Inr (map (entity_of (eb_crc b)) ess) \<and> concat ess = gs @ fs \<and>
    list_all (entity_ok (eb_max_len b) (eb_crc b)) ess"
  using assms
proof (induction fs arbitrary: b gs)
  case Nil
  show ?case
  proof (cases gs)
    case Nil
    with \<open>builder_holds b gs\<close> show ?thesis by (simp add: builder_holds_def builder_is_empty_def)
  next
    case (Cons g gs')
    with \<open>builder_holds b gs\<close> show ?thesis
      by (intro exI [of _ "[gs]"])
        (auto simp: builder_holds_def builder_is_empty_def builder_take_def entity_ok_def)
  qed
next
  case (Cons f fs)
  let ?m = "eb_max_len b" and ?c = "eb_crc b"
  have f: "sendable f" "builder_cost b (encoded_len f) \<le> ?m" using Cons.prems(2) by simp_all
  have fill: "\<exists>ess. fill_entities b2 fs = Inr (map (entity_of ?c) ess) \<and> concat ess = gs2 @ fs \<and>
      list_all (entity_ok ?m ?c) ess"
    if "builder_holds b2 gs2" "eb_max_len b2 = ?m" "eb_crc b2 = ?c" for b2 gs2
    using Cons.IH [OF that(1)] Cons.prems(2) that(2,3) by (simp add: builder_cost_def)
  show ?case
  proof (cases "builder_fits b (encoded_len f)")
    case True
    obtain b' where b': "builder_push f b = (Inr (), b')" "builder_holds b' (gs @ [f])"
        "eb_max_len b' = ?m" "eb_crc b' = ?c"
      using builder_push_spec [OF Cons.prems(1) f(1) True] by blast
    with fill [OF b'(2-4)] True show ?thesis by auto
  next
    case False
    obtain b1 where b1: "builder_take b = (entity_of ?c gs, b1)" "builder_holds b1 []"
        "eb_max_len b1 = ?m" "eb_crc b1 = ?c"
      using builder_take_spec [OF Cons.prems(1)] by blast
    have "gs \<noteq> []"
      using False f(2) Cons.prems(1) by (auto simp: builder_holds_def builder_fits_def entity_of_def)
    moreover from this have "?c \<longrightarrow> length gs = 1"
      using Cons.prems(1) by (cases gs) (auto simp: builder_holds_def)
    ultimately have gs: "entity_ok ?m ?c gs"
      using Cons.prems(1) by (auto simp: builder_holds_def entity_ok_def)
    have "builder_fits b1 (encoded_len f)"
      using b1 f(2) by (simp add: builder_fits_def builder_cost_def builder_holds_def entity_of_def)
    then obtain b' where b': "builder_push f b1 = (Inr (), b')" "builder_holds b' [f]"
        "eb_max_len b' = ?m" "eb_crc b' = ?c"
      using builder_push_spec [OF b1(2) f(1)] b1(3,4) by auto
    from fill [OF b'(2-4)] obtain ess where "fill_entities b' fs = Inr (map (entity_of ?c) ess)"
        "concat ess = f # fs" "list_all (entity_ok ?m ?c) ess" by auto
    with False b1 b' gs show ?thesis by (intro exI [of _ "gs # ess"]) auto
  qed
qed

section \<open>Properties\<close>

text \<open>An entity made of any number of sendable FPDUs, with or without check bytes, is split and
  decoded into the same FPDUs.\<close>

theorem entity_round_trip:
  assumes "list_all sendable fs"
  shows "decode_entity (concat (map (\<lambda>f. entity_emit crc (fpdu_bytes f)) fs)) crc = Inr fs"
  using decode_entity_of [OF assms] by (simp add: entity_of_def)

lemma sendable_sample: "sendable sample_release"
  by (simp add: sendable_def sample_release_wf)

theorem entity_round_trip_witness:
  "decode_entity (entity_emit True (fpdu_bytes sample_release)) True = Inr [sample_release]"
  using entity_round_trip [of "[sample_release]" True] by (simp add: sendable_sample)

text \<open>C12: filling entities. When every FPDU alone fits the negotiated entity size, appending them
  with a new entity whenever the next one does not fit never fails, every entity is non-empty and
  within the size, carries a single FPDU when error control is in use, and decoding the entities in
  order gives back the FPDUs in order.\<close>

theorem fill_entities_round_trip:
  assumes "list_all (\<lambda>f. sendable f \<and> encoded_len f + (if crc then CRC_LEN else 0) \<le> n) fs"
  shows "\<exists>es ess. fill_entities (builder_new n crc) fs = Inr es \<and>
    list_all (\<lambda>e. e \<noteq> [] \<and> length e \<le> n) es \<and>
    map (\<lambda>e. decode_entity e crc) es = map Inr ess \<and> concat ess = fs \<and>
    (crc \<longrightarrow> list_all (\<lambda>gs. length gs = 1) ess)"
proof -
  obtain ess where e: "fill_entities (builder_new n crc) fs = Inr (map (entity_of crc) ess)"
      "concat ess = fs" "list_all (entity_ok n crc) ess"
    using fill_entities_spec [OF builder_holds_new [of n crc], of fs] assms
    by (auto simp: builder_cost_def builder_new_def split: if_splits)
  have "entity_of crc gs \<noteq> []" if "entity_ok n crc gs" for gs
    using that by (cases gs) (auto simp: entity_ok_def entity_of_def entity_emit_def dest!: sendable_framed
        simp: framed_def HEADER_LEN_def)
  moreover have "decode_entity (entity_of crc gs) crc = Inr gs" if "entity_ok n crc gs" for gs
    using that by (simp add: entity_ok_def decode_entity_of)
  ultimately show ?thesis using e
    by (intro exI [of _ "map (entity_of crc) ess"] exI [of _ ess]) (auto simp: list_all_iff entity_ok_def)
qed

theorem fill_entities_round_trip_witness:
  "\<exists>es ess. fill_entities (builder_new 64 True) [sample_release, sample_release] = Inr es \<and>
    list_all (\<lambda>e. e \<noteq> [] \<and> length e \<le> 64) es \<and>
    map (\<lambda>e. decode_entity e True) es = map Inr ess \<and> concat ess = [sample_release, sample_release] \<and>
    (True \<longrightarrow> list_all (\<lambda>gs. length gs = 1) ess)"
proof (rule fill_entities_round_trip)
  have "f_kind sample_release = K_Release"
    by (simp add: sample_release_def fpdu_set_diag_def fpdu_set_def with_ids_def fpdu_new_def)
  then show "list_all (\<lambda>f. sendable f \<and> encoded_len f + (if True then CRC_LEN else 0) \<le> 64)
      [sample_release, sample_release]"
    by (simp add: sendable_sample encoded_len_def sample_release_params is_data_def unit_len_def
        HEADER_LEN_def CRC_LEN_def)
qed

text \<open>C35: with error control, changing one byte of a single-FPDU entity to a value that differs
  modulo 255 makes the receiver reject the entity, unless the changed byte is one of the two length
  bytes that delimit the FPDU.\<close>

theorem entity_corruption_detected:
  assumes "sendable f" and "single_entity f True = Inr e" and "2 \<le> i" and "i < length e"
    and "unat b mod 255 \<noteq> unat (e ! i) mod 255"
  shows "decode_entity (e[i := b]) True = Inl \<lparr>e_diag = D_TRANSMISSION_ERROR, e_detail = CrcError\<rparr>"
proof -
  let ?f = "fpdu_bytes f"
  have e: "e = ?f @ crc_compute ?f"
    using assms(2) sendable_encode [OF assms(1)] by (simp add: single_entity_def crc_append_def)
  have "\<not> crc_verify (e[i := b])"
    using crc_byte_change [of e i b] assms(4,5) crc_append_ok [of ?f] by (simp add: e crc_append_def)
  moreover obtain b0 b1 b2 b3 b4 b5 body where f: "?f = b0 # b1 # b2 # b3 # b4 # b5 # body"
    and len: "be_len b0 b1 = length ?f" using sendable_framed [OF assms(1)] by (rule framed_cases)
  moreover have "\<exists>b2 b3 b4 b5 body. e[i := b] = b0 # b1 # b2 # b3 # b4 # b5 # body"
  proof -
    have "6 \<le> length (e[i := b])" unfolding length_list_update by (simp add: e f)
    then obtain c0 c1 c2 c3 c4 c5 u where u: "e[i := b] = c0 # c1 # c2 # c3 # c4 # c5 # u"
      by (rule six_bytes)
    have "c0 = e[i := b] ! 0" "c1 = e[i := b] ! 1" by (simp_all add: u)
    moreover have "e ! 0 = b0" "e ! 1 = b1" by (simp_all add: e f)
    then have "e[i := b] ! 0 = b0" "e[i := b] ! 1 = b1" using assms(3) by simp_all
    ultimately show ?thesis using u by blast
  qed
  moreover have "length (e[i := b]) = be_len b0 b1 + CRC_LEN" "HEADER_LEN \<le> be_len b0 b1"
    using sendable_framed [OF assms(1)] by (simp_all add: e len framed_def del: length_fpdu_bytes)
  ultimately have "split_item (length e) True (e[i := b]) =
      Inl \<lparr>e_diag = D_TRANSMISSION_ERROR, e_detail = CrcError\<rparr>"
    using split_item_crc_error by metis
  moreover have "e[i := b] \<noteq> []" using assms(4) by auto
  ultimately show ?thesis
    by (simp add: decode_entity_def split_entity_def split_loop.simps [of "length e" True "e[i := b]"])
qed

theorem entity_corruption_detected_witness:
  "\<exists>e. single_entity sample_release True = Inr e \<and>
     decode_entity (e[4 := 9]) True = Inl \<lparr>e_diag = D_TRANSMISSION_ERROR, e_detail = CrcError\<rparr>"
proof -
  let ?f = "fpdu_bytes sample_release"
  have e: "single_entity sample_release True = Inr (?f @ crc_compute ?f)"
    using sendable_encode [OF sendable_sample] by (simp add: single_entity_def crc_append_def)
  have len: "6 \<le> length ?f" by (simp add: encoded_len_def HEADER_LEN_def)
  have "?f ! 4 = 1"
    by (simp add: fpdu_bytes_def header_bytes_def to_be_bytes16_def sample_release_def fpdu_set_diag_def
        fpdu_set_def with_ids_def fpdu_new_def)
  then have "(?f @ crc_compute ?f) ! 4 = 1" using len by (simp add: nth_append)
  with entity_corruption_detected [OF sendable_sample e, of 4 9] e len show ?thesis by simp
qed

end
