(* ===== verification/State.thy ===== *)
theory State
  imports Fpdu_Kind
begin

text \<open>
  \<^verbatim>\<open>crates/pesit-core/src/state.rs\<close>: the protocol state tables of one end of a connection and the
  machine that holds the current state. There is one definition per arm of the match of
  \<^verbatim>\<open>State::apply\<close>.
\<close>

section \<open>States, events, outcomes\<close>

datatype role = Requester | Server

datatype (plugins only: code size) state =
    Cn01 | Cn02A | Cn02B | Cn03 | Cn04A | Cn04B | Sf01A | Sf01B | Sf02A
  | Sf02B | Sf03 | Sf04A | Sf04B | Of01A | Of01B | Of02 | Of03A | Of03B
  | Tde01A | Tde02A | Tde03A | Tde04A | Tde05A | Tde06A | Tde07A | Tde08A | Tde01B
  | Tde02B | Tde03B | Tde04B | Tde05B | Tde06B | Tde07B | Tde08B | Tdl01A | Tdl02A
  | Tdl03A | Tdl04A | Tdl05A | Tdl06A | Tdl07A | Tdl08A | Tdl01B | Tdl02B | Tdl03B
  | Tdl04B | Tdl05B | Tdl06B | Tdl07B | Tdl08B | Mg01A | Mg01B | Mg04A | Mg04B

definition state_row :: "state \<Rightarrow> string \<times> string" where
  "state_row s = (case s of
     Cn01 \<Rightarrow> (''Cn01'', ''Idle (not connected)'')
   | Cn02A \<Rightarrow> (''Cn02A'', ''Connection pending (waiting for ACONNECT/RCONNECT)'')
   | Cn02B \<Rightarrow> (''Cn02B'', ''Connection pending (waiting for the local F.CONNECT response)'')
   | Cn03 \<Rightarrow> (''Cn03'', ''Connected'')
   | Cn04A \<Rightarrow> (''Cn04A'', ''Release pending (waiting for RELCONF)'')
   | Cn04B \<Rightarrow> (''Cn04B'', ''Release pending (waiting for the local F.RELEASE response)'')
   | Sf01A \<Rightarrow> (''Sf01A'', ''File creation pending (waiting for ACK(CREATE))'')
   | Sf01B \<Rightarrow> (''Sf01B'', ''File creation pending (waiting for the local F.CREATE response)'')
   | Sf02A \<Rightarrow> (''Sf02A'', ''File selection pending (waiting for ACK(SELECT))'')
   | Sf02B \<Rightarrow> (''Sf02B'', ''File selection pending (waiting for the local F.SELECT response)'')
   | Sf03 \<Rightarrow> (''Sf03'', ''File selected'')
   | Sf04A \<Rightarrow> (''Sf04A'', ''File deselection pending (waiting for ACK(DESELECT))'')
   | Sf04B \<Rightarrow> (''Sf04B'', ''File deselection pending (waiting for the local F.DESELECT response)'')
   | Of01A \<Rightarrow> (''Of01A'', ''File open pending (waiting for ACK(ORF))'')
   | Of01B \<Rightarrow> (''Of01B'', ''File open pending (waiting for the local F.OPEN response)'')
   | Of02 \<Rightarrow> (''Of02'', ''Data transfer idle (file open)'')
   | Of03A \<Rightarrow> (''Of03A'', ''File close pending (waiting for ACK(CRF))'')
   | Of03B \<Rightarrow> (''Of03B'', ''File close pending (waiting for the local F.CLOSE response)'')
   | Tde01A \<Rightarrow> (''Tde01A'', ''Write start pending (waiting for ACK(WRITE))'')
   | Tde02A \<Rightarrow> (''Tde02A'', ''Writing: sending data'')
   | Tde03A \<Rightarrow> (''Tde03A'', ''Writing: resynchronisation pending (waiting for ACK(RESYN))'')
   | Tde04A \<Rightarrow> (''Tde04A'', ''Writing: resynchronisation pending (waiting for the local F.RESTART response)'')
   | Tde05A \<Rightarrow> (''Tde05A'', ''Writing: interruption pending (waiting for ACK(IDT))'')
   | Tde06A \<Rightarrow> (''Tde06A'', ''Writing: interruption pending (waiting for the local F.CANCEL response)'')
   | Tde07A \<Rightarrow> (''Tde07A'', ''Writing: end of data sent'')
   | Tde08A \<Rightarrow> (''Tde08A'', ''Writing: end of transfer pending (waiting for ACK(TRANS.END))'')
   | Tde01B \<Rightarrow> (''Tde01B'', ''Write start pending (waiting for the local F.WRITE response)'')
   | Tde02B \<Rightarrow> (''Tde02B'', ''Writing: receiving data'')
   | Tde03B \<Rightarrow> (''Tde03B'', ''Receiving: resynchronisation pending (waiting for ACK(RESYN))'')
   | Tde04B \<Rightarrow> (''Tde04B'', ''Receiving: resynchronisation pending (waiting for the local F.RESTART response)'')
   | Tde05B \<Rightarrow> (''Tde05B'', ''Receiving: interruption pending (waiting for ACK(IDT))'')
   | Tde06B \<Rightarrow> (''Tde06B'', ''Receiving: interruption pending (waiting for the local F.CANCEL response)'')
   | Tde07B \<Rightarrow> (''Tde07B'', ''Receiving: end of data received'')
   | Tde08B \<Rightarrow> (''Tde08B'', ''Receiving: end of transfer pending (waiting for the local F.TRANSFER.END response)'')
   | Tdl01A \<Rightarrow> (''Tdl01A'', ''Read start pending (waiting for ACK(READ))'')
   | Tdl02A \<Rightarrow> (''Tdl02A'', ''Reading: receiving data'')
   | Tdl03A \<Rightarrow> (''Tdl03A'', ''Reading: resynchronisation pending (waiting for ACK(RESYN))'')
   | Tdl04A \<Rightarrow> (''Tdl04A'', ''Reading: resynchronisation pending (waiting for the local F.RESTART response)'')
   | Tdl05A \<Rightarrow> (''Tdl05A'', ''Reading: interruption pending (waiting for ACK(IDT))'')
   | Tdl06A \<Rightarrow> (''Tdl06A'', ''Reading: interruption pending (waiting for the local F.CANCEL response)'')
   | Tdl07A \<Rightarrow> (''Tdl07A'', ''Reading: end of data received'')
   | Tdl08A \<Rightarrow> (''Tdl08A'', ''Reading: end of transfer pending (waiting for ACK(TRANS.END))'')
   | Tdl01B \<Rightarrow> (''Tdl01B'', ''Read start pending (waiting for the local F.READ response)'')
   | Tdl02B \<Rightarrow> (''Tdl02B'', ''Reading: sending data'')
   | Tdl03B \<Rightarrow> (''Tdl03B'', ''Sending: resynchronisation pending (waiting for ACK(RESYN))'')
   | Tdl04B \<Rightarrow> (''Tdl04B'', ''Sending: resynchronisation pending (waiting for the local F.RESTART response)'')
   | Tdl05B \<Rightarrow> (''Tdl05B'', ''Sending: interruption pending (waiting for ACK(IDT))'')
   | Tdl06B \<Rightarrow> (''Tdl06B'', ''Sending: interruption pending (waiting for the local F.CANCEL response)'')
   | Tdl07B \<Rightarrow> (''Tdl07B'', ''Sending: end of data sent'')
   | Tdl08B \<Rightarrow> (''Tdl08B'', ''Sending: end of transfer pending (waiting for the local F.TRANSFER.END response)'')
   | Mg01A \<Rightarrow> (''Mg01A'', ''Message: sending segments'')
   | Mg01B \<Rightarrow> (''Mg01B'', ''Message: receiving segments'')
   | Mg04A \<Rightarrow> (''Mg04A'', ''Message sent (waiting for ACK(MSG))'')
   | Mg04B \<Rightarrow> (''Mg04B'', ''Message received (waiting for the local F.MESSAGE response)''))"

definition state_name :: "state \<Rightarrow> string" where
  "state_name s = fst (state_row s)"

definition state_description :: "state \<Rightarrow> string" where
  "state_description s = snd (state_row s)"

datatype local_event =
    L_Abort | L_Connect | L_Release | L_Create | L_Select | L_Deselect | L_Open
  | L_Close | L_Write | L_Read | L_Message | L_Cancel | L_SendData | L_Sync
  | L_DataEnd | L_TransferEnd | L_Resync | L_Accept | L_Reject

datatype event = Received fpdu_kind bool | Local local_event

datatype outcome = Next state | Ignore | Error

definition INITIAL :: state where
  "INITIAL = Cn01"

definition is_sending :: "state \<Rightarrow> bool" where
  "is_sending s \<longleftrightarrow> s = Tde02A \<or> s = Tdl02B"

definition is_receiving :: "state \<Rightarrow> bool" where
  "is_receiving s \<longleftrightarrow> s = Tde02B \<or> s = Tdl02A"

definition is_connected :: "state \<Rightarrow> bool" where
  "is_connected s \<longleftrightarrow> \<not> (s = Cn01 \<or> s = Cn02A \<or> s = Cn02B)"

definition in_transfer :: "state \<Rightarrow> bool" where
  "in_transfer s \<longleftrightarrow> take 2 (state_name s) = ''Td''"

section \<open>The transition tables\<close>

definition recv :: "fpdu_kind \<Rightarrow> event" where
  "recv k = Received k False"

definition nack :: "fpdu_kind \<Rightarrow> event" where
  "nack k = Received k True"

definition is_abort :: "event \<Rightarrow> bool" where
  "is_abort e = (case e of Local l \<Rightarrow> l = L_Abort | Received k _ \<Rightarrow> k = K_Abort)"

definition is_data_event :: "event \<Rightarrow> bool" where
  "is_data_event e = (case e of Received k _ \<Rightarrow> is_data k | Local _ \<Rightarrow> False)"

definition apply_Cn01 :: "event \<Rightarrow> outcome" where
  "apply_Cn01 e =
     (if e = Local L_Connect then Next Cn02A
      else if e = recv K_Connect then Next Cn02B
      else Error)"

definition apply_Cn02A :: "event \<Rightarrow> outcome" where
  "apply_Cn02A e =
     (if e = recv K_Aconnect then Next Cn03
      else if e = recv K_Rconnect \<or> e = nack K_Rconnect \<or> e = nack K_Aconnect then Next Cn01
      else Error)"

definition apply_Cn02B :: "event \<Rightarrow> outcome" where
  "apply_Cn02B e =
     (if e = Local L_Accept then Next Cn03
      else if e = Local L_Reject then Next Cn01
      else Error)"

definition apply_Cn03 :: "event \<Rightarrow> outcome" where
  "apply_Cn03 e =
     (if e = Local L_Release then Next Cn04A
      else if e = recv K_Release then Next Cn04B
      else if e = Local L_Select then Next Sf02A
      else if e = Local L_Create then Next Sf01A
      else if e = recv K_Select then Next Sf02B
      else if e = recv K_Create then Next Sf01B
      else if e = Local L_Message then Next Mg01A
      else if e = recv K_Msg then Next Mg04B
      else if e = recv K_MsgDm then Next Mg01B
      else Error)"

definition apply_Cn04A :: "event \<Rightarrow> outcome" where
  "apply_Cn04A e =
     (if e = recv K_Relconf then Next Cn01
      else Error)"

definition apply_Cn04B :: "event \<Rightarrow> outcome" where
  "apply_Cn04B e =
     (if e = Local L_Accept \<or> e = Local L_Reject then Next Cn01
      else Error)"

definition apply_Sf01A :: "event \<Rightarrow> outcome" where
  "apply_Sf01A e =
     (if e = recv K_AckCreate then Next Sf03
      else if e = nack K_AckCreate then Next Cn03
      else Error)"

definition apply_Sf01B_Sf02B :: "event \<Rightarrow> outcome" where
  "apply_Sf01B_Sf02B e =
     (if e = Local L_Accept then Next Sf03
      else if e = Local L_Reject then Next Cn03
      else Error)"

definition apply_Sf02A :: "event \<Rightarrow> outcome" where
  "apply_Sf02A e =
     (if e = recv K_AckSelect then Next Sf03
      else if e = nack K_AckSelect then Next Cn03
      else Error)"

definition apply_Sf03 :: "event \<Rightarrow> outcome" where
  "apply_Sf03 e =
     (if e = Local L_Deselect then Next Sf04A
      else if e = recv K_Deselect then Next Sf04B
      else if e = Local L_Open then Next Of01A
      else if e = recv K_Orf then Next Of01B
      else Error)"

definition apply_Sf04A :: "event \<Rightarrow> outcome" where
  "apply_Sf04A e =
     (if e = recv K_AckDeselect \<or> e = nack K_AckDeselect then Next Cn03
      else Error)"

definition apply_Of01A :: "event \<Rightarrow> outcome" where
  "apply_Of01A e =
     (if e = recv K_AckOrf then Next Of02
      else if e = nack K_AckOrf then Next Sf03
      else Error)"

definition apply_Of01B :: "event \<Rightarrow> outcome" where
  "apply_Of01B e =
     (if e = Local L_Accept then Next Of02
      else if e = Local L_Reject then Next Sf03
      else Error)"

definition apply_Of02 :: "event \<Rightarrow> outcome" where
  "apply_Of02 e =
     (if e = Local L_Close then Next Of03A
      else if e = recv K_Crf then Next Of03B
      else if e = Local L_Write then Next Tde01A
      else if e = recv K_Write then Next Tde01B
      else if e = Local L_Read then Next Tdl01A
      else if e = recv K_Read then Next Tdl01B
      else Error)"

definition apply_Of03A :: "event \<Rightarrow> outcome" where
  "apply_Of03A e =
     (if e = recv K_AckCrf \<or> e = nack K_AckCrf then Next Sf03
      else Error)"

definition apply_Of03B :: "event \<Rightarrow> outcome" where
  "apply_Of03B e =
     (if e = Local L_Accept \<or> e = Local L_Reject then Next Sf03
      else Error)"

definition apply_Tde01A :: "event \<Rightarrow> outcome" where
  "apply_Tde01A e =
     (if e = recv K_AckWrite then Next Tde02A
      else if e = nack K_AckWrite then Next Of02
      else Error)"

definition apply_Tde01B :: "event \<Rightarrow> outcome" where
  "apply_Tde01B e =
     (if e = Local L_Accept then Next Tde02B
      else if e = Local L_Reject then Next Of02
      else Error)"

definition apply_Tdl01A :: "event \<Rightarrow> outcome" where
  "apply_Tdl01A e =
     (if e = recv K_AckRead then Next Tdl02A
      else if e = nack K_AckRead then Next Of02
      else Error)"

definition apply_Tdl01B :: "event \<Rightarrow> outcome" where
  "apply_Tdl01B e =
     (if e = Local L_Accept then Next Tdl02B
      else if e = Local L_Reject then Next Of02
      else Error)"

definition apply_Tde02A_Tdl02B :: "state \<Rightarrow> event \<Rightarrow> outcome" where
  "apply_Tde02A_Tdl02B s e =
     (let (s_resync_sent, s_resync_rcvd, s_idt_sent, s_idt_rcvd, s_end) =
           (if s = Tde02A then (Tde03A, Tde04A, Tde05A, Tde06A, Tde07A)
            else (Tdl03B, Tdl04B, Tdl05B, Tdl06B, Tdl07B)) in
      if e = Local L_SendData \<or> e = Local L_Sync \<or> e = recv K_AckSyn then Next s
      else if e = Local L_DataEnd then Next s_end
      else if e = Local L_Resync then Next s_resync_sent
      else if e = recv K_Resyn then Next s_resync_rcvd
      else if e = Local L_Cancel then Next s_idt_sent
      else if e = recv K_Idt then Next s_idt_rcvd
      else Error)"

definition apply_Tde03A_Tdl03B :: "state \<Rightarrow> event \<Rightarrow> outcome" where
  "apply_Tde03A_Tdl03B s e =
     (let (s_data, s_resync_rcvd, s_idt_sent, s_idt_rcvd) =
           (if s = Tde03A then (Tde02A, Tde04A, Tde05A, Tde06A)
            else (Tdl02B, Tdl04B, Tdl05B, Tdl06B)) in
      if e = recv K_AckResyn then Next s_data
      else if e = recv K_AckSyn \<or> e = recv K_AckTransEnd then Ignore
      else if e = recv K_Resyn then Next s_resync_rcvd
      else if e = Local L_Cancel then Next s_idt_sent
      else if e = recv K_Idt then Next s_idt_rcvd
      else Error)"

definition apply_Tde04A_Tdl04B :: "state \<Rightarrow> event \<Rightarrow> outcome" where
  "apply_Tde04A_Tdl04B s e =
     (let (s_data, s_resync_sent, s_idt_sent, s_idt_rcvd) =
           (if s = Tde04A then (Tde02A, Tde03A, Tde05A, Tde06A)
            else (Tdl02B, Tdl03B, Tdl05B, Tdl06B)) in
      if e = Local L_Accept then Next s_data
      else if e = Local L_Resync then Next s_resync_sent
      else if e = Local L_DataEnd \<or> e = Local L_SendData \<or> e = Local L_Sync \<or> e = Local L_TransferEnd then Ignore
      else if e = recv K_AckSyn then Ignore
      else if e = Local L_Cancel then Next s_idt_sent
      else if e = recv K_Idt then Next s_idt_rcvd
      else Error)"

definition apply_Tde07A :: "event \<Rightarrow> outcome" where
  "apply_Tde07A e =
     (if e = Local L_TransferEnd then Next Tde08A
      else if e = recv K_AckSyn then Next Tde07A
      else if e = recv K_Resyn then Next Tde04A
      else if e = Local L_Cancel then Next Tde05A
      else if e = recv K_Idt then Next Tde06A
      else Error)"

definition apply_Tde08A :: "event \<Rightarrow> outcome" where
  "apply_Tde08A e =
     (if e = recv K_AckTransEnd \<or> e = nack K_AckTransEnd then Next Of02
      else if e = recv K_AckSyn then Ignore
      else if e = recv K_Resyn then Next Tde04A
      else if e = Local L_Cancel then Next Tde05A
      else if e = recv K_Idt then Next Tde06A
      else Error)"

definition apply_Tdl07B :: "event \<Rightarrow> outcome" where
  "apply_Tdl07B e =
     (if e = recv K_TransEnd then Next Tdl08B
      else if e = recv K_AckSyn then Ignore
      else if e = recv K_Resyn then Next Tdl04B
      else if e = Local L_Cancel then Next Tdl05B
      else if e = recv K_Idt then Next Tdl06B
      else Error)"

definition apply_Tdl08B :: "event \<Rightarrow> outcome" where
  "apply_Tdl08B e =
     (if e = Local L_Accept \<or> e = Local L_Reject then Next Of02
      else if e = Local L_Resync then Next Tdl03B
      else if e = recv K_AckSyn then Ignore
      else Error)"

definition apply_Tde02B_Tdl02A :: "state \<Rightarrow> event \<Rightarrow> outcome" where
  "apply_Tde02B_Tdl02A s e =
     (let (s_resync_sent, s_resync_rcvd, s_idt_sent, s_idt_rcvd, s_end) =
           (if s = Tde02B then (Tde03B, Tde04B, Tde05B, Tde06B, Tde07B)
            else (Tdl03A, Tdl04A, Tdl05A, Tdl06A, Tdl07A)) in
      if is_data_event e then Next s
      else if e = recv K_Syn \<or> e = Local L_Accept then Next s
      else if e = recv K_DtfEnd then Next s_end
      else if e = Local L_Resync then Next s_resync_sent
      else if e = recv K_Resyn then Next s_resync_rcvd
      else if e = Local L_Cancel then Next s_idt_sent
      else if e = recv K_Idt then Next s_idt_rcvd
      else Error)"

definition apply_Tde03B_Tdl03A :: "state \<Rightarrow> event \<Rightarrow> outcome" where
  "apply_Tde03B_Tdl03A s e =
     (let (s_data, s_resync_rcvd, s_idt_sent, s_idt_rcvd) =
           (if s = Tde03B then (Tde02B, Tde04B, Tde05B, Tde06B)
            else (Tdl02A, Tdl04A, Tdl05A, Tdl06A)) in
      if e = recv K_AckResyn then Next s_data
      else if is_data_event e then Ignore
      else if e = recv K_Syn \<or> e = recv K_DtfEnd \<or> e = recv K_TransEnd then Ignore
      else if e = recv K_Resyn then Next s_resync_rcvd
      else if e = Local L_Cancel then Next s_idt_sent
      else if e = recv K_Idt then Next s_idt_rcvd
      else Error)"

definition apply_Tde04B_Tdl04A :: "state \<Rightarrow> event \<Rightarrow> outcome" where
  "apply_Tde04B_Tdl04A s e =
     (let (s_data, s_resync_sent, s_idt_sent, s_idt_rcvd) =
           (if s = Tde04B then (Tde02B, Tde03B, Tde05B, Tde06B)
            else (Tdl02A, Tdl03A, Tdl05A, Tdl06A)) in
      if e = Local L_Accept then Next s_data
      else if e = Local L_Resync then Next s_resync_sent
      else if e = Local L_Sync then Ignore
      else if e = Local L_Cancel then Next s_idt_sent
      else if e = recv K_Idt then Next s_idt_rcvd
      else Error)"

definition apply_Tde07B :: "event \<Rightarrow> outcome" where
  "apply_Tde07B e =
     (if e = recv K_TransEnd then Next Tde08B
      else if e = Local L_Accept then Next Tde07B
      else if e = Local L_Resync then Next Tde03B
      else if e = Local L_Cancel then Next Tde05B
      else if e = recv K_Idt then Next Tde06B
      else Error)"

definition apply_Tde08B :: "event \<Rightarrow> outcome" where
  "apply_Tde08B e =
     (if e = Local L_Accept \<or> e = Local L_Reject then Next Of02
      else if e = Local L_Resync then Next Tde03B
      else Error)"

definition apply_Tdl07A :: "event \<Rightarrow> outcome" where
  "apply_Tdl07A e =
     (if e = Local L_TransferEnd then Next Tdl08A
      else if e = Local L_Accept then Next Tdl07A
      else if e = Local L_Resync then Next Tdl03A
      else if e = Local L_Cancel then Next Tdl05A
      else if e = recv K_Idt then Next Tdl06A
      else Error)"

definition apply_Tdl08A :: "event \<Rightarrow> outcome" where
  "apply_Tdl08A e =
     (if e = recv K_AckTransEnd \<or> e = nack K_AckTransEnd then Next Of02
      else if e = Local L_Cancel then Next Tdl05A
      else if e = recv K_Idt then Next Tdl06A
      else Error)"

definition apply_idt_sent :: "state \<Rightarrow> event \<Rightarrow> outcome" where
  "apply_idt_sent s e =
     (if e = recv K_AckIdt then Next Of02
      else if e = recv K_Idt then
        Next (if s = Tde05A then Tde06A else if s = Tde05B then Tde06B
              else if s = Tdl05A then Tdl06A else Tdl06B)
      else case e of Received _ _ \<Rightarrow> Ignore | Local _ \<Rightarrow> Error)"

definition apply_idt_received :: "event \<Rightarrow> outcome" where
  "apply_idt_received e =
     (if e = Local L_Accept then Next Of02
      else case e of Received _ _ \<Rightarrow> Ignore | Local _ \<Rightarrow> Error)"

definition apply_Mg01A :: "event \<Rightarrow> outcome" where
  "apply_Mg01A e =
     (if e = Local L_SendData then Next Mg01A
      else if e = Local L_DataEnd then Next Mg04A
      else if e = recv K_AckMsg \<or> e = nack K_AckMsg then Next Cn03
      else Error)"

definition apply_Mg04A :: "event \<Rightarrow> outcome" where
  "apply_Mg04A e =
     (if e = recv K_AckMsg \<or> e = nack K_AckMsg then Next Cn03
      else Error)"

definition apply_Mg01B :: "event \<Rightarrow> outcome" where
  "apply_Mg01B e =
     (if e = recv K_MsgMm then Next Mg01B
      else if e = recv K_MsgFm then Next Mg04B
      else Error)"

definition apply_Sf04B_Mg04B :: "event \<Rightarrow> outcome" where
  "apply_Sf04B_Mg04B e =
     (if e = Local L_Accept \<or> e = Local L_Reject then Next Cn03
      else Error)"

definition state_apply :: "state \<Rightarrow> event \<Rightarrow> outcome" where
  "state_apply s e = (if is_abort e then Next Cn01 else case s of
     Cn01 \<Rightarrow> apply_Cn01 e
   | Cn02A \<Rightarrow> apply_Cn02A e
   | Cn02B \<Rightarrow> apply_Cn02B e
   | Cn03 \<Rightarrow> apply_Cn03 e
   | Cn04A \<Rightarrow> apply_Cn04A e
   | Cn04B \<Rightarrow> apply_Cn04B e
   | Sf01A \<Rightarrow> apply_Sf01A e
   | Sf01B \<Rightarrow> apply_Sf01B_Sf02B e
   | Sf02A \<Rightarrow> apply_Sf02A e
   | Sf02B \<Rightarrow> apply_Sf01B_Sf02B e
   | Sf03 \<Rightarrow> apply_Sf03 e
   | Sf04A \<Rightarrow> apply_Sf04A e
   | Sf04B \<Rightarrow> apply_Sf04B_Mg04B e
   | Of01A \<Rightarrow> apply_Of01A e
   | Of01B \<Rightarrow> apply_Of01B e
   | Of02 \<Rightarrow> apply_Of02 e
   | Of03A \<Rightarrow> apply_Of03A e
   | Of03B \<Rightarrow> apply_Of03B e
   | Tde01A \<Rightarrow> apply_Tde01A e
   | Tde02A \<Rightarrow> apply_Tde02A_Tdl02B s e
   | Tde03A \<Rightarrow> apply_Tde03A_Tdl03B s e
   | Tde04A \<Rightarrow> apply_Tde04A_Tdl04B s e
   | Tde05A \<Rightarrow> apply_idt_sent s e
   | Tde06A \<Rightarrow> apply_idt_received e
   | Tde07A \<Rightarrow> apply_Tde07A e
   | Tde08A \<Rightarrow> apply_Tde08A e
   | Tde01B \<Rightarrow> apply_Tde01B e
   | Tde02B \<Rightarrow> apply_Tde02B_Tdl02A s e
   | Tde03B \<Rightarrow> apply_Tde03B_Tdl03A s e
   | Tde04B \<Rightarrow> apply_Tde04B_Tdl04A s e
   | Tde05B \<Rightarrow> apply_idt_sent s e
   | Tde06B \<Rightarrow> apply_idt_received e
   | Tde07B \<Rightarrow> apply_Tde07B e
   | Tde08B \<Rightarrow> apply_Tde08B e
   | Tdl01A \<Rightarrow> apply_Tdl01A e
   | Tdl02A \<Rightarrow> apply_Tde02B_Tdl02A s e
   | Tdl03A \<Rightarrow> apply_Tde03B_Tdl03A s e
   | Tdl04A \<Rightarrow> apply_Tde04B_Tdl04A s e
   | Tdl05A \<Rightarrow> apply_idt_sent s e
   | Tdl06A \<Rightarrow> apply_idt_received e
   | Tdl07A \<Rightarrow> apply_Tdl07A e
   | Tdl08A \<Rightarrow> apply_Tdl08A e
   | Tdl01B \<Rightarrow> apply_Tdl01B e
   | Tdl02B \<Rightarrow> apply_Tde02A_Tdl02B s e
   | Tdl03B \<Rightarrow> apply_Tde03A_Tdl03B s e
   | Tdl04B \<Rightarrow> apply_Tde04A_Tdl04B s e
   | Tdl05B \<Rightarrow> apply_idt_sent s e
   | Tdl06B \<Rightarrow> apply_idt_received e
   | Tdl07B \<Rightarrow> apply_Tdl07B e
   | Tdl08B \<Rightarrow> apply_Tdl08B e
   | Mg01A \<Rightarrow> apply_Mg01A e
   | Mg01B \<Rightarrow> apply_Mg01B e
   | Mg04A \<Rightarrow> apply_Mg04A e
   | Mg04B \<Rightarrow> apply_Sf04B_Mg04B e)"

section \<open>The machine\<close>

record machine =
  m_role :: role
  m_state :: state

record transition_error =
  te_state :: state
  te_event :: event

definition machine_new :: "role \<Rightarrow> machine" where
  "machine_new r = \<lparr>m_role = r, m_state = INITIAL\<rparr>"

definition machine_apply :: "event \<Rightarrow> machine \<Rightarrow> (transition_error, bool) result \<times> machine" where
  "machine_apply e m =
     (case state_apply (m_state m) e of
        Next s \<Rightarrow> (Inr False, m\<lparr>m_state := s\<rparr>)
      | Ignore \<Rightarrow> (Inr True, m)
      | Error \<Rightarrow> (Inl \<lparr>te_state = m_state m, te_event = e\<rparr>, m))"

definition machine_accepts :: "event \<Rightarrow> machine \<Rightarrow> bool" where
  "machine_accepts e m \<longleftrightarrow> state_apply (m_state m) e \<noteq> Error"

definition machine_reset :: "machine \<Rightarrow> machine" where
  "machine_reset m = m\<lparr>m_state := INITIAL\<rparr>"

lemmas apply_defs = recv_def nack_def is_abort_def is_data_event_def
  apply_Cn01_def apply_Cn02A_def apply_Cn02B_def
  apply_Cn03_def apply_Cn04A_def apply_Cn04B_def
  apply_Sf01A_def apply_Sf01B_Sf02B_def apply_Sf02A_def
  apply_Sf03_def apply_Sf04A_def apply_Of01A_def
  apply_Of01B_def apply_Of02_def apply_Of03A_def
  apply_Of03B_def apply_Tde01A_def apply_Tde01B_def
  apply_Tdl01A_def apply_Tdl01B_def apply_Tde02A_Tdl02B_def
  apply_Tde03A_Tdl03B_def apply_Tde04A_Tdl04B_def apply_Tde07A_def
  apply_Tde08A_def apply_Tdl07B_def apply_Tdl08B_def
  apply_Tde02B_Tdl02A_def apply_Tde03B_Tdl03A_def apply_Tde04B_Tdl04A_def
  apply_Tde07B_def apply_Tde08B_def apply_Tdl07A_def
  apply_Tdl08A_def apply_idt_sent_def apply_idt_received_def
  apply_Mg01A_def apply_Mg04A_def apply_Mg01B_def
  apply_Sf04B_Mg04B_def

lemmas state_apply_defs = state_apply_def apply_defs

end
