(* ===== verification/State_Machine.thy ===== *)
theory State_Machine
  imports State
begin

text \<open>
  Properties of the protocol state tables: the nesting of the phases, the direction of a transfer,
  where data is accepted, that every state can be reached and left gracefully, and that the tables of
  the two ends of a connection agree when FPDUs are exchanged one at a time.
\<close>

section \<open>Runs\<close>

fun run_events :: "state \<Rightarrow> event list \<Rightarrow> state option" where
  "run_events s [] = Some s"
| "run_events s (e # es) =
     (case state_apply s e of
        Next s' \<Rightarrow> run_events s' es
      | Ignore \<Rightarrow> run_events s es
      | Error \<Rightarrow> None)"

inductive step :: "state \<Rightarrow> event \<Rightarrow> state \<Rightarrow> bool" where
  step_next: "state_apply s e = Next s' \<Longrightarrow> step s e s'"
| step_ignore: "state_apply s e = Ignore \<Longrightarrow> step s e s"

inductive_simps step_iff: "step s e s'"
inductive_cases stepE: "step s e s'"

inductive reachable :: "state \<Rightarrow> bool" where
  reachable_init: "reachable INITIAL"
| reachable_step: "reachable s \<Longrightarrow> step s e s' \<Longrightarrow> reachable s'"

lemma run_events_append:
  "run_events s (es @ fs) = Option.bind (run_events s es) (\<lambda>s'. run_events s' fs)"
  by (induction es arbitrary: s) (simp_all split: outcome.splits)

lemma run_events_snoc:
  "run_events s (es @ [e]) = Some s' \<longleftrightarrow> (\<exists>m. run_events s es = Some m \<and> step m e s')"
  by (cases "run_events s es")
    (auto simp: run_events_append step_iff split: outcome.splits)

lemma reachable_run: "run_events INITIAL es = Some s \<Longrightarrow> reachable s"
proof (induction es arbitrary: s rule: rev_induct)
  case Nil
  then show ?case by (simp add: reachable_init)
next
  case (snoc e es)
  then show ?case using reachable_step by (auto simp: run_events_snoc)
qed

lemma machine_apply_run:
  "machine_apply e m = (Inr b, m') \<Longrightarrow> run_events (m_state m) [e] = Some (m_state m') \<and> m_role m' = m_role m"
  by (auto simp: machine_apply_def split: outcome.splits)

section \<open>Tables used in the statements\<close>

text \<open>
  \<open>level\<close>: depth of nesting of a state: idle, connection or release pending, connected, selection
  (or message) pending, file selected, opening or closing, file open, transfer. \<open>dual\<close>: the state of
  the peer that corresponds to a state. \<open>way_to\<close>, \<open>way_home\<close>: events that lead from the idle state to
  a state and back.
\<close>

definition state_ALL :: "state list" where
  "state_ALL = [Cn01, Cn02A, Cn02B, Cn03, Cn04A, Cn04B, Sf01A, Sf01B, Sf02A,
     Sf02B, Sf03, Sf04A, Sf04B, Of01A, Of01B, Of02, Of03A, Of03B,
     Tde01A, Tde02A, Tde03A, Tde04A, Tde05A, Tde06A, Tde07A, Tde08A, Tde01B,
     Tde02B, Tde03B, Tde04B, Tde05B, Tde06B, Tde07B, Tde08B, Tdl01A, Tdl02A,
     Tdl03A, Tdl04A, Tdl05A, Tdl06A, Tdl07A, Tdl08A, Tdl01B, Tdl02B, Tdl03B,
     Tdl04B, Tdl05B, Tdl06B, Tdl07B, Tdl08B, Mg01A, Mg01B, Mg04A, Mg04B]"

primrec level :: "state \<Rightarrow> nat" where
  "level Cn01 = 0"
| "level Cn02A = 1"
| "level Cn02B = 1"
| "level Cn03 = 2"
| "level Cn04A = 1"
| "level Cn04B = 1"
| "level Sf01A = 3"
| "level Sf01B = 3"
| "level Sf02A = 3"
| "level Sf02B = 3"
| "level Sf03 = 4"
| "level Sf04A = 3"
| "level Sf04B = 3"
| "level Of01A = 5"
| "level Of01B = 5"
| "level Of02 = 6"
| "level Of03A = 5"
| "level Of03B = 5"
| "level Tde01A = 7"
| "level Tde02A = 7"
| "level Tde03A = 7"
| "level Tde04A = 7"
| "level Tde05A = 7"
| "level Tde06A = 7"
| "level Tde07A = 7"
| "level Tde08A = 7"
| "level Tde01B = 7"
| "level Tde02B = 7"
| "level Tde03B = 7"
| "level Tde04B = 7"
| "level Tde05B = 7"
| "level Tde06B = 7"
| "level Tde07B = 7"
| "level Tde08B = 7"
| "level Tdl01A = 7"
| "level Tdl02A = 7"
| "level Tdl03A = 7"
| "level Tdl04A = 7"
| "level Tdl05A = 7"
| "level Tdl06A = 7"
| "level Tdl07A = 7"
| "level Tdl08A = 7"
| "level Tdl01B = 7"
| "level Tdl02B = 7"
| "level Tdl03B = 7"
| "level Tdl04B = 7"
| "level Tdl05B = 7"
| "level Tdl06B = 7"
| "level Tdl07B = 7"
| "level Tdl08B = 7"
| "level Mg01A = 3"
| "level Mg01B = 3"
| "level Mg04A = 3"
| "level Mg04B = 3"

primrec dual :: "state \<Rightarrow> state" where
  "dual Cn01 = Cn01"
| "dual Cn02A = Cn02B"
| "dual Cn02B = Cn02A"
| "dual Cn03 = Cn03"
| "dual Cn04A = Cn04B"
| "dual Cn04B = Cn04A"
| "dual Sf01A = Sf01B"
| "dual Sf01B = Sf01A"
| "dual Sf02A = Sf02B"
| "dual Sf02B = Sf02A"
| "dual Sf03 = Sf03"
| "dual Sf04A = Sf04B"
| "dual Sf04B = Sf04A"
| "dual Of01A = Of01B"
| "dual Of01B = Of01A"
| "dual Of02 = Of02"
| "dual Of03A = Of03B"
| "dual Of03B = Of03A"
| "dual Tde01A = Tde01B"
| "dual Tde02A = Tde02B"
| "dual Tde03A = Tde04B"
| "dual Tde04A = Tde03B"
| "dual Tde05A = Tde06B"
| "dual Tde06A = Tde05B"
| "dual Tde07A = Tde07B"
| "dual Tde08A = Tde08B"
| "dual Tde01B = Tde01A"
| "dual Tde02B = Tde02A"
| "dual Tde03B = Tde04A"
| "dual Tde04B = Tde03A"
| "dual Tde05B = Tde06A"
| "dual Tde06B = Tde05A"
| "dual Tde07B = Tde07A"
| "dual Tde08B = Tde08A"
| "dual Tdl01A = Tdl01B"
| "dual Tdl02A = Tdl02B"
| "dual Tdl03A = Tdl04B"
| "dual Tdl04A = Tdl03B"
| "dual Tdl05A = Tdl06B"
| "dual Tdl06A = Tdl05B"
| "dual Tdl07A = Tdl07B"
| "dual Tdl08A = Tdl08B"
| "dual Tdl01B = Tdl01A"
| "dual Tdl02B = Tdl02A"
| "dual Tdl03B = Tdl04A"
| "dual Tdl04B = Tdl03A"
| "dual Tdl05B = Tdl06A"
| "dual Tdl06B = Tdl05A"
| "dual Tdl07B = Tdl07A"
| "dual Tdl08B = Tdl08A"
| "dual Mg01A = Mg01B"
| "dual Mg01B = Mg01A"
| "dual Mg04A = Mg04B"
| "dual Mg04B = Mg04A"

primrec way_to :: "state \<Rightarrow> event list" where
  "way_to Cn01 = []"
| "way_to Cn02A = [Local L_Connect]"
| "way_to Cn02B = [recv K_Connect]"
| "way_to Cn03 = [Local L_Connect, recv K_Aconnect]"
| "way_to Cn04A = [Local L_Connect, recv K_Aconnect, Local L_Release]"
| "way_to Cn04B = [Local L_Connect, recv K_Aconnect, recv K_Release]"
| "way_to Sf01A = [Local L_Connect, recv K_Aconnect, Local L_Create]"
| "way_to Sf01B = [Local L_Connect, recv K_Aconnect, recv K_Create]"
| "way_to Sf02A = [Local L_Connect, recv K_Aconnect, Local L_Select]"
| "way_to Sf02B = [Local L_Connect, recv K_Aconnect, recv K_Select]"
| "way_to Sf03 = [Local L_Connect, recv K_Aconnect, Local L_Select, recv K_AckSelect]"
| "way_to Sf04A = [Local L_Connect, recv K_Aconnect, Local L_Select, recv K_AckSelect, Local L_Deselect]"
| "way_to Sf04B = [Local L_Connect, recv K_Aconnect, Local L_Select, recv K_AckSelect, recv K_Deselect]"
| "way_to Of01A = [Local L_Connect, recv K_Aconnect, Local L_Select, recv K_AckSelect, Local L_Open]"
| "way_to Of01B = [Local L_Connect, recv K_Aconnect, Local L_Select, recv K_AckSelect, recv K_Orf]"
| "way_to Of02 = [Local L_Connect, recv K_Aconnect, Local L_Select, recv K_AckSelect, Local L_Open, recv K_AckOrf]"
| "way_to Of03A = [Local L_Connect, recv K_Aconnect, Local L_Select, recv K_AckSelect, Local L_Open, recv K_AckOrf, Local L_Close]"
| "way_to Of03B = [Local L_Connect, recv K_Aconnect, Local L_Select, recv K_AckSelect, Local L_Open, recv K_AckOrf, recv K_Crf]"
| "way_to Tde01A = [Local L_Connect, recv K_Aconnect, Local L_Select, recv K_AckSelect, Local L_Open, recv K_AckOrf, Local L_Write]"
| "way_to Tde02A = [Local L_Connect, recv K_Aconnect, Local L_Select, recv K_AckSelect, Local L_Open, recv K_AckOrf, Local L_Write, recv K_AckWrite]"
| "way_to Tde03A = [Local L_Connect, recv K_Aconnect, Local L_Select, recv K_AckSelect, Local L_Open, recv K_AckOrf, Local L_Write, recv K_AckWrite, Local L_Resync]"
| "way_to Tde04A = [Local L_Connect, recv K_Aconnect, Local L_Select, recv K_AckSelect, Local L_Open, recv K_AckOrf, Local L_Write, recv K_AckWrite, recv K_Resyn]"
| "way_to Tde05A = [Local L_Connect, recv K_Aconnect, Local L_Select, recv K_AckSelect, Local L_Open, recv K_AckOrf, Local L_Write, recv K_AckWrite, Local L_Cancel]"
| "way_to Tde06A = [Local L_Connect, recv K_Aconnect, Local L_Select, recv K_AckSelect, Local L_Open, recv K_AckOrf, Local L_Write, recv K_AckWrite, recv K_Idt]"
| "way_to Tde07A = [Local L_Connect, recv K_Aconnect, Local L_Select, recv K_AckSelect, Local L_Open, recv K_AckOrf, Local L_Write, recv K_AckWrite, Local L_DataEnd]"
| "way_to Tde08A = [Local L_Connect, recv K_Aconnect, Local L_Select, recv K_AckSelect, Local L_Open, recv K_AckOrf, Local L_Write, recv K_AckWrite, Local L_DataEnd, Local L_TransferEnd]"
| "way_to Tde01B = [Local L_Connect, recv K_Aconnect, Local L_Select, recv K_AckSelect, Local L_Open, recv K_AckOrf, recv K_Write]"
| "way_to Tde02B = [Local L_Connect, recv K_Aconnect, Local L_Select, recv K_AckSelect, Local L_Open, recv K_AckOrf, recv K_Write, Local L_Accept]"
| "way_to Tde03B = [Local L_Connect, recv K_Aconnect, Local L_Select, recv K_AckSelect, Local L_Open, recv K_AckOrf, recv K_Write, Local L_Accept, Local L_Resync]"
| "way_to Tde04B = [Local L_Connect, recv K_Aconnect, Local L_Select, recv K_AckSelect, Local L_Open, recv K_AckOrf, recv K_Write, Local L_Accept, recv K_Resyn]"
| "way_to Tde05B = [Local L_Connect, recv K_Aconnect, Local L_Select, recv K_AckSelect, Local L_Open, recv K_AckOrf, recv K_Write, Local L_Accept, Local L_Cancel]"
| "way_to Tde06B = [Local L_Connect, recv K_Aconnect, Local L_Select, recv K_AckSelect, Local L_Open, recv K_AckOrf, recv K_Write, Local L_Accept, recv K_Idt]"
| "way_to Tde07B = [Local L_Connect, recv K_Aconnect, Local L_Select, recv K_AckSelect, Local L_Open, recv K_AckOrf, recv K_Write, Local L_Accept, recv K_DtfEnd]"
| "way_to Tde08B = [Local L_Connect, recv K_Aconnect, Local L_Select, recv K_AckSelect, Local L_Open, recv K_AckOrf, recv K_Write, Local L_Accept, recv K_DtfEnd, recv K_TransEnd]"
| "way_to Tdl01A = [Local L_Connect, recv K_Aconnect, Local L_Select, recv K_AckSelect, Local L_Open, recv K_AckOrf, Local L_Read]"
| "way_to Tdl02A = [Local L_Connect, recv K_Aconnect, Local L_Select, recv K_AckSelect, Local L_Open, recv K_AckOrf, Local L_Read, recv K_AckRead]"
| "way_to Tdl03A = [Local L_Connect, recv K_Aconnect, Local L_Select, recv K_AckSelect, Local L_Open, recv K_AckOrf, Local L_Read, recv K_AckRead, Local L_Resync]"
| "way_to Tdl04A = [Local L_Connect, recv K_Aconnect, Local L_Select, recv K_AckSelect, Local L_Open, recv K_AckOrf, Local L_Read, recv K_AckRead, recv K_Resyn]"
| "way_to Tdl05A = [Local L_Connect, recv K_Aconnect, Local L_Select, recv K_AckSelect, Local L_Open, recv K_AckOrf, Local L_Read, recv K_AckRead, Local L_Cancel]"
| "way_to Tdl06A = [Local L_Connect, recv K_Aconnect, Local L_Select, recv K_AckSelect, Local L_Open, recv K_AckOrf, Local L_Read, recv K_AckRead, recv K_Idt]"
| "way_to Tdl07A = [Local L_Connect, recv K_Aconnect, Local L_Select, recv K_AckSelect, Local L_Open, recv K_AckOrf, Local L_Read, recv K_AckRead, recv K_DtfEnd]"
| "way_to Tdl08A = [Local L_Connect, recv K_Aconnect, Local L_Select, recv K_AckSelect, Local L_Open, recv K_AckOrf, Local L_Read, recv K_AckRead, recv K_DtfEnd, Local L_TransferEnd]"
| "way_to Tdl01B = [Local L_Connect, recv K_Aconnect, Local L_Select, recv K_AckSelect, Local L_Open, recv K_AckOrf, recv K_Read]"
| "way_to Tdl02B = [Local L_Connect, recv K_Aconnect, Local L_Select, recv K_AckSelect, Local L_Open, recv K_AckOrf, recv K_Read, Local L_Accept]"
| "way_to Tdl03B = [Local L_Connect, recv K_Aconnect, Local L_Select, recv K_AckSelect, Local L_Open, recv K_AckOrf, recv K_Read, Local L_Accept, Local L_Resync]"
| "way_to Tdl04B = [Local L_Connect, recv K_Aconnect, Local L_Select, recv K_AckSelect, Local L_Open, recv K_AckOrf, recv K_Read, Local L_Accept, recv K_Resyn]"
| "way_to Tdl05B = [Local L_Connect, recv K_Aconnect, Local L_Select, recv K_AckSelect, Local L_Open, recv K_AckOrf, recv K_Read, Local L_Accept, Local L_Cancel]"
| "way_to Tdl06B = [Local L_Connect, recv K_Aconnect, Local L_Select, recv K_AckSelect, Local L_Open, recv K_AckOrf, recv K_Read, Local L_Accept, recv K_Idt]"
| "way_to Tdl07B = [Local L_Connect, recv K_Aconnect, Local L_Select, recv K_AckSelect, Local L_Open, recv K_AckOrf, recv K_Read, Local L_Accept, Local L_DataEnd]"
| "way_to Tdl08B = [Local L_Connect, recv K_Aconnect, Local L_Select, recv K_AckSelect, Local L_Open, recv K_AckOrf, recv K_Read, Local L_Accept, Local L_DataEnd, recv K_TransEnd]"
| "way_to Mg01A = [Local L_Connect, recv K_Aconnect, Local L_Message]"
| "way_to Mg01B = [Local L_Connect, recv K_Aconnect, recv K_MsgDm]"
| "way_to Mg04A = [Local L_Connect, recv K_Aconnect, Local L_Message, Local L_DataEnd]"
| "way_to Mg04B = [Local L_Connect, recv K_Aconnect, recv K_Msg]"

primrec way_home :: "state \<Rightarrow> event list" where
  "way_home Cn01 = []"
| "way_home Cn02A = [recv K_Rconnect]"
| "way_home Cn02B = [Local L_Reject]"
| "way_home Cn03 = [Local L_Release, recv K_Relconf]"
| "way_home Cn04A = [recv K_Relconf]"
| "way_home Cn04B = [Local L_Accept]"
| "way_home Sf01A = [nack K_AckCreate, Local L_Release, recv K_Relconf]"
| "way_home Sf01B = [Local L_Reject, Local L_Release, recv K_Relconf]"
| "way_home Sf02A = [nack K_AckSelect, Local L_Release, recv K_Relconf]"
| "way_home Sf02B = [Local L_Reject, Local L_Release, recv K_Relconf]"
| "way_home Sf03 = [Local L_Deselect, recv K_AckDeselect, Local L_Release, recv K_Relconf]"
| "way_home Sf04A = [recv K_AckDeselect, Local L_Release, recv K_Relconf]"
| "way_home Sf04B = [Local L_Accept, Local L_Release, recv K_Relconf]"
| "way_home Of01A = [nack K_AckOrf, Local L_Deselect, recv K_AckDeselect, Local L_Release, recv K_Relconf]"
| "way_home Of01B = [Local L_Reject, Local L_Deselect, recv K_AckDeselect, Local L_Release, recv K_Relconf]"
| "way_home Of02 = [Local L_Close, recv K_AckCrf, Local L_Deselect, recv K_AckDeselect, Local L_Release, recv K_Relconf]"
| "way_home Of03A = [recv K_AckCrf, Local L_Deselect, recv K_AckDeselect, Local L_Release, recv K_Relconf]"
| "way_home Of03B = [Local L_Accept, Local L_Deselect, recv K_AckDeselect, Local L_Release, recv K_Relconf]"
| "way_home Tde01A = [nack K_AckWrite, Local L_Close, recv K_AckCrf, Local L_Deselect, recv K_AckDeselect, Local L_Release, recv K_Relconf]"
| "way_home Tde02A = [Local L_Cancel, recv K_AckIdt, Local L_Close, recv K_AckCrf, Local L_Deselect, recv K_AckDeselect, Local L_Release, recv K_Relconf]"
| "way_home Tde03A = [Local L_Cancel, recv K_AckIdt, Local L_Close, recv K_AckCrf, Local L_Deselect, recv K_AckDeselect, Local L_Release, recv K_Relconf]"
| "way_home Tde04A = [Local L_Cancel, recv K_AckIdt, Local L_Close, recv K_AckCrf, Local L_Deselect, recv K_AckDeselect, Local L_Release, recv K_Relconf]"
| "way_home Tde05A = [recv K_AckIdt, Local L_Close, recv K_AckCrf, Local L_Deselect, recv K_AckDeselect, Local L_Release, recv K_Relconf]"
| "way_home Tde06A = [Local L_Accept, Local L_Close, recv K_AckCrf, Local L_Deselect, recv K_AckDeselect, Local L_Release, recv K_Relconf]"
| "way_home Tde07A = [Local L_TransferEnd, recv K_AckTransEnd, Local L_Close, recv K_AckCrf, Local L_Deselect, recv K_AckDeselect, Local L_Release, recv K_Relconf]"
| "way_home Tde08A = [recv K_AckTransEnd, Local L_Close, recv K_AckCrf, Local L_Deselect, recv K_AckDeselect, Local L_Release, recv K_Relconf]"
| "way_home Tde01B = [Local L_Reject, Local L_Close, recv K_AckCrf, Local L_Deselect, recv K_AckDeselect, Local L_Release, recv K_Relconf]"
| "way_home Tde02B = [Local L_Cancel, recv K_AckIdt, Local L_Close, recv K_AckCrf, Local L_Deselect, recv K_AckDeselect, Local L_Release, recv K_Relconf]"
| "way_home Tde03B = [Local L_Cancel, recv K_AckIdt, Local L_Close, recv K_AckCrf, Local L_Deselect, recv K_AckDeselect, Local L_Release, recv K_Relconf]"
| "way_home Tde04B = [Local L_Cancel, recv K_AckIdt, Local L_Close, recv K_AckCrf, Local L_Deselect, recv K_AckDeselect, Local L_Release, recv K_Relconf]"
| "way_home Tde05B = [recv K_AckIdt, Local L_Close, recv K_AckCrf, Local L_Deselect, recv K_AckDeselect, Local L_Release, recv K_Relconf]"
| "way_home Tde06B = [Local L_Accept, Local L_Close, recv K_AckCrf, Local L_Deselect, recv K_AckDeselect, Local L_Release, recv K_Relconf]"
| "way_home Tde07B = [recv K_TransEnd, Local L_Accept, Local L_Close, recv K_AckCrf, Local L_Deselect, recv K_AckDeselect, Local L_Release, recv K_Relconf]"
| "way_home Tde08B = [Local L_Accept, Local L_Close, recv K_AckCrf, Local L_Deselect, recv K_AckDeselect, Local L_Release, recv K_Relconf]"
| "way_home Tdl01A = [nack K_AckRead, Local L_Close, recv K_AckCrf, Local L_Deselect, recv K_AckDeselect, Local L_Release, recv K_Relconf]"
| "way_home Tdl02A = [Local L_Cancel, recv K_AckIdt, Local L_Close, recv K_AckCrf, Local L_Deselect, recv K_AckDeselect, Local L_Release, recv K_Relconf]"
| "way_home Tdl03A = [Local L_Cancel, recv K_AckIdt, Local L_Close, recv K_AckCrf, Local L_Deselect, recv K_AckDeselect, Local L_Release, recv K_Relconf]"
| "way_home Tdl04A = [Local L_Cancel, recv K_AckIdt, Local L_Close, recv K_AckCrf, Local L_Deselect, recv K_AckDeselect, Local L_Release, recv K_Relconf]"
| "way_home Tdl05A = [recv K_AckIdt, Local L_Close, recv K_AckCrf, Local L_Deselect, recv K_AckDeselect, Local L_Release, recv K_Relconf]"
| "way_home Tdl06A = [Local L_Accept, Local L_Close, recv K_AckCrf, Local L_Deselect, recv K_AckDeselect, Local L_Release, recv K_Relconf]"
| "way_home Tdl07A = [Local L_TransferEnd, recv K_AckTransEnd, Local L_Close, recv K_AckCrf, Local L_Deselect, recv K_AckDeselect, Local L_Release, recv K_Relconf]"
| "way_home Tdl08A = [recv K_AckTransEnd, Local L_Close, recv K_AckCrf, Local L_Deselect, recv K_AckDeselect, Local L_Release, recv K_Relconf]"
| "way_home Tdl01B = [Local L_Reject, Local L_Close, recv K_AckCrf, Local L_Deselect, recv K_AckDeselect, Local L_Release, recv K_Relconf]"
| "way_home Tdl02B = [Local L_Cancel, recv K_AckIdt, Local L_Close, recv K_AckCrf, Local L_Deselect, recv K_AckDeselect, Local L_Release, recv K_Relconf]"
| "way_home Tdl03B = [Local L_Cancel, recv K_AckIdt, Local L_Close, recv K_AckCrf, Local L_Deselect, recv K_AckDeselect, Local L_Release, recv K_Relconf]"
| "way_home Tdl04B = [Local L_Cancel, recv K_AckIdt, Local L_Close, recv K_AckCrf, Local L_Deselect, recv K_AckDeselect, Local L_Release, recv K_Relconf]"
| "way_home Tdl05B = [recv K_AckIdt, Local L_Close, recv K_AckCrf, Local L_Deselect, recv K_AckDeselect, Local L_Release, recv K_Relconf]"
| "way_home Tdl06B = [Local L_Accept, Local L_Close, recv K_AckCrf, Local L_Deselect, recv K_AckDeselect, Local L_Release, recv K_Relconf]"
| "way_home Tdl07B = [recv K_TransEnd, Local L_Accept, Local L_Close, recv K_AckCrf, Local L_Deselect, recv K_AckDeselect, Local L_Release, recv K_Relconf]"
| "way_home Tdl08B = [Local L_Accept, Local L_Close, recv K_AckCrf, Local L_Deselect, recv K_AckDeselect, Local L_Release, recv K_Relconf]"
| "way_home Mg01A = [recv K_AckMsg, Local L_Release, recv K_Relconf]"
| "way_home Mg01B = [recv K_MsgFm, Local L_Accept, Local L_Release, recv K_Relconf]"
| "way_home Mg04A = [recv K_AckMsg, Local L_Release, recv K_Relconf]"
| "way_home Mg04B = [Local L_Accept, Local L_Release, recv K_Relconf]"

lemma state_ALL_complete: "s \<in> set state_ALL"
  by (cases s) (simp_all add: state_ALL_def)

section \<open>Nesting of the phases\<close>

lemma apply_level:
  assumes "state_apply s e = Next s'" and "\<not> is_abort e"
  shows "level s' \<le> Suc (level s) \<and> level s \<le> Suc (level s')"
  using assms
  by (cases s) (auto simp: state_apply_defs split: if_splits event.splits)

lemma apply_abort: "is_abort e \<Longrightarrow> state_apply s e = Next Cn01"
  by (simp add: state_apply_def)

lemma step_level_up: "step s e s' \<Longrightarrow> level s' \<le> Suc (level s)"
  using apply_level [of s e s'] apply_abort [of e s] by (cases "is_abort e") (auto simp: step_iff)

lemma level_gate:
  "level s = 2 \<Longrightarrow> s = Cn03" "level s = 4 \<Longrightarrow> s = Sf03" "level s = 6 \<Longrightarrow> s = Of02"
  by (cases s; simp)+

lemma in_transfer_level: "in_transfer s \<longleftrightarrow> level s = 7"
  by (cases s) (simp_all add: in_transfer_def state_name_def state_row_def)

text \<open>A run that gets deeper than a level passes through that level.\<close>

lemma run_through_level:
  assumes "run_events s es = Some s'" and "level s \<le> n" and "n < level s'"
  shows "\<exists>es1 es2 g. es = es1 @ es2 \<and> run_events s es1 = Some g \<and> level g = n \<and> run_events g es2 = Some s'"
  using assms
proof (induction es arbitrary: s' rule: rev_induct)
  case Nil
  then show ?case by simp
next
  case (snoc e es)
  then obtain m where m: "run_events s es = Some m" "step m e s'" by (auto simp: run_events_snoc)
  have one: "run_events m [e] = Some s'" using m(2) by (auto simp: step_iff)
  show ?case
  proof (cases "n < level m")
    case True
    with snoc.IH [OF m(1) snoc.prems(2)] obtain es1 es2 g where
      "es = es1 @ es2" "run_events s es1 = Some g" "level g = n" "run_events g es2 = Some m" by blast
    with one show ?thesis
      by (intro exI [of _ es1] exI [of _ "es2 @ [e]"] exI [of _ g]) (simp add: run_events_append)
  next
    case False
    with step_level_up [OF m(2)] snoc.prems(3) have "level m = n" by simp
    with m one show ?thesis by (intro exI [of _ es] exI [of _ "[e]"] exI [of _ m]) simp
  qed
qed

text \<open>C32: the phases are nested. Whatever events occur, aborts included, an end of the connection is
  in the data transfer phase only after it was connected, then had a file selected, then had the
  file open: every run from the idle state to a transfer state goes through CN03, SF03 and OF02 in
  this order.\<close>

theorem transfer_only_in_open_file:
  assumes "run_events INITIAL es = Some s" and "in_transfer s"
  shows "\<exists>es1 es2 es3 es4. es = es1 @ es2 @ es3 @ es4 \<and> run_events INITIAL es1 = Some Cn03 \<and>
    run_events Cn03 es2 = Some Sf03 \<and> run_events Sf03 es3 = Some Of02 \<and> run_events Of02 es4 = Some s"
proof -
  have l: "level s = 7" "level INITIAL = 0" using assms(2) by (simp_all add: in_transfer_level INITIAL_def)
  obtain a es4 g6 where a: "es = a @ es4" "run_events INITIAL a = Some g6" "level g6 = 6" "run_events g6 es4 = Some s"
    using run_through_level [OF assms(1), of 6] l by auto
  obtain b es3 g4 where b: "a = b @ es3" "run_events INITIAL b = Some g4" "level g4 = 4" "run_events g4 es3 = Some g6"
    using run_through_level [OF a(2), of 4] l a(3) by auto
  obtain es1 es2 g2 where c: "b = es1 @ es2" "run_events INITIAL es1 = Some g2" "level g2 = 2" "run_events g2 es2 = Some g4"
    using run_through_level [OF b(2), of 2] l b(3) by auto
  have "g6 = Of02" "g4 = Sf03" "g2 = Cn03" using a(3) b(3) c(3) level_gate by blast+
  with a b c show ?thesis by auto
qed

theorem transfer_only_in_open_file_witness:
  "\<exists>es1 es2 es3 es4. way_to Tde02A = es1 @ es2 @ es3 @ es4 \<and> run_events INITIAL es1 = Some Cn03 \<and>
    run_events Cn03 es2 = Some Sf03 \<and> run_events Sf03 es3 = Some Of02 \<and> run_events Of02 es4 = Some Tde02A"
  by (rule transfer_only_in_open_file)
    (simp_all add: INITIAL_def state_apply_defs in_transfer_level)

section \<open>Direction of a transfer\<close>

definition transfer_side :: "state \<Rightarrow> string \<times> char" where
  "transfer_side s = (take 3 (state_name s), last (state_name s))"

lemma transfer_side_simps [simp]:
  "transfer_side Tde01A = (''Tde'', CHR ''A'')"
  "transfer_side Tde01B = (''Tde'', CHR ''B'')"
  "transfer_side Tde02A = (''Tde'', CHR ''A'')"
  "transfer_side Tde02B = (''Tde'', CHR ''B'')"
  "transfer_side Tde03A = (''Tde'', CHR ''A'')"
  "transfer_side Tde03B = (''Tde'', CHR ''B'')"
  "transfer_side Tde04A = (''Tde'', CHR ''A'')"
  "transfer_side Tde04B = (''Tde'', CHR ''B'')"
  "transfer_side Tde05A = (''Tde'', CHR ''A'')"
  "transfer_side Tde05B = (''Tde'', CHR ''B'')"
  "transfer_side Tde06A = (''Tde'', CHR ''A'')"
  "transfer_side Tde06B = (''Tde'', CHR ''B'')"
  "transfer_side Tde07A = (''Tde'', CHR ''A'')"
  "transfer_side Tde07B = (''Tde'', CHR ''B'')"
  "transfer_side Tde08A = (''Tde'', CHR ''A'')"
  "transfer_side Tde08B = (''Tde'', CHR ''B'')"
  "transfer_side Tdl01A = (''Tdl'', CHR ''A'')"
  "transfer_side Tdl01B = (''Tdl'', CHR ''B'')"
  "transfer_side Tdl02A = (''Tdl'', CHR ''A'')"
  "transfer_side Tdl02B = (''Tdl'', CHR ''B'')"
  "transfer_side Tdl03A = (''Tdl'', CHR ''A'')"
  "transfer_side Tdl03B = (''Tdl'', CHR ''B'')"
  "transfer_side Tdl04A = (''Tdl'', CHR ''A'')"
  "transfer_side Tdl04B = (''Tdl'', CHR ''B'')"
  "transfer_side Tdl05A = (''Tdl'', CHR ''A'')"
  "transfer_side Tdl05B = (''Tdl'', CHR ''B'')"
  "transfer_side Tdl06A = (''Tdl'', CHR ''A'')"
  "transfer_side Tdl06B = (''Tdl'', CHR ''B'')"
  "transfer_side Tdl07A = (''Tdl'', CHR ''A'')"
  "transfer_side Tdl07B = (''Tdl'', CHR ''B'')"
  "transfer_side Tdl08A = (''Tdl'', CHR ''A'')"
  "transfer_side Tdl08B = (''Tdl'', CHR ''B'')"
  by (simp_all add: transfer_side_def state_name_def state_row_def)

lemma transfer_side_step:
  assumes "state_apply s e = Next s'" and "in_transfer s" and "in_transfer s'"
  shows "transfer_side s' = transfer_side s"
  using assms
  by (cases s)
    (auto simp: state_apply_defs in_transfer_level split: if_splits event.splits)

text \<open>the direction of a transfer and the side of the local entity never change during the
  transfer: as long as a run stays in the transfer phase, it stays in the same family of states
  (writing or reading, requester or server).\<close>

theorem transfer_direction_fixed:
  assumes "run_events s es = Some s'" and "in_transfer s"
    and "\<forall>i \<le> length es. \<exists>m. run_events s (take i es) = Some m \<and> in_transfer m"
  shows "transfer_side s' = transfer_side s"
  using assms
proof (induction es arbitrary: s' rule: rev_induct)
  case Nil
  then show ?case by simp
next
  case (snoc e es)
  obtain m where m: "run_events s es = Some m" "step m e s'"
    using snoc.prems(1) by (auto simp: run_events_snoc)
  have pre: "\<exists>m. run_events s (take i es) = Some m \<and> in_transfer m" if "i \<le> length es" for i
    using snoc.prems(3) [rule_format, of i] that by simp
  have "transfer_side m = transfer_side s"
    using pre by (intro snoc.IH [OF m(1) snoc.prems(2)]) blast
  moreover have "in_transfer m" using pre [of "length es"] m(1) by simp
  moreover have "in_transfer s'"
    using snoc.prems(1,3) by (auto dest: spec [of _ "length (es @ [e])"])
  ultimately show ?case using m(2) transfer_side_step [of m e s'] by (auto simp: step_iff)
qed

theorem transfer_direction_fixed_witness:
  "transfer_side Tde07A = transfer_side Tde02A"
proof (rule transfer_direction_fixed [of _ "[Local L_SendData, Local L_DataEnd]"])
  show "\<forall>i \<le> length [Local L_SendData, Local L_DataEnd].
      \<exists>m. run_events Tde02A (take i [Local L_SendData, Local L_DataEnd]) = Some m \<and> in_transfer m"
    by (auto simp: le_Suc_eq state_apply_defs in_transfer_level)
qed (simp_all add: state_apply_defs in_transfer_level)

section \<open>Where data is accepted\<close>

text \<open>file data is taken only by an end that is receiving: a received data FPDU leads to a
  state exactly in the two receiving states, which it does not change; it is ignored only while a
  resynchronisation or an interruption is pending, and is a protocol error everywhere else.\<close>

theorem data_accepted_iff:
  assumes "is_data k"
  shows "state_apply s (Received k neg) =
    (if is_receiving s then Next s
     else if s \<in> {Tde03B, Tdl03A, Tde05A, Tde05B, Tdl05A, Tdl05B, Tde06A, Tde06B, Tdl06A, Tdl06B} then Ignore
     else Error)"
proof -
  have k: "k = K_Dtf \<or> k = K_DtfDa \<or> k = K_DtfMa \<or> k = K_DtfFa" using assms by (simp add: is_data_def)
  then show ?thesis
    by (cases s) (auto simp: state_apply_defs is_receiving_def is_data_def)
qed

theorem data_accepted_iff_witness: "state_apply Of02 (Received K_Dtf False) = Error"
  using data_accepted_iff [of K_Dtf Of02 False] by (simp add: is_data_def is_receiving_def)

text \<open>Local emission of data is possible exactly in the two sending states.\<close>

lemma send_data_iff:
  "state_apply s (Local L_SendData) = Next s' \<and> in_transfer s \<longleftrightarrow> is_sending s \<and> s' = s"
  by (cases s) (auto simp: state_apply_defs is_sending_def in_transfer_level)

section \<open>No dead states, no traps\<close>

lemma way_to_run: "run_events INITIAL (way_to s) = Some s"
  by (cases s) (simp_all add: INITIAL_def state_apply_defs is_data_def)

lemma way_home_run: "run_events s (way_home s) = Some Cn01 \<and> list_all (\<lambda>e. \<not> is_abort e) (way_home s)"
  by (cases s) (simp_all add: state_apply_defs is_data_def)

text \<open>every state of the tables is reachable from the idle state, and from every state the
  connection can be brought back to the idle state without an abort in at most eight events; an
  abort, local or received, brings it there at once.\<close>

theorem every_state_reachable_and_leaves:
  "reachable s \<and>
   (\<exists>es. length es \<le> 8 \<and> list_all (\<lambda>e. \<not> is_abort e) es \<and> run_events s es = Some INITIAL) \<and>
   run_events s [Local L_Abort] = Some INITIAL \<and> run_events s [Received K_Abort neg] = Some INITIAL"
proof -
  have "length (way_home s) \<le> 8" by (cases s) simp_all
  with way_home_run [of s] have "\<exists>es. length es \<le> 8 \<and> list_all (\<lambda>e. \<not> is_abort e) es \<and> run_events s es = Some INITIAL"
    by (auto simp: INITIAL_def)
  moreover have "reachable s" by (rule reachable_run [OF way_to_run])
  ultimately show ?thesis by (simp add: apply_abort is_abort_def INITIAL_def)
qed

section \<open>The two ends of a connection\<close>

text \<open>
  The FPDU an end sends with a local event, as the comments of \<^verbatim>\<open>LocalEvent\<close> and the descriptions
  of the states give it: a request sends the FPDU of its name, an answer (\<open>L_Accept\<close>,
  \<open>L_Reject\<close>) sends the acknowledgement of the indication that is pending in the state. A message is
  the segmented form (MSGDM, MSGMM, MSGFM).
\<close>

definition request_fpdu :: "state \<Rightarrow> local_event \<Rightarrow> fpdu_kind option" where
  "request_fpdu s l = (case l of
     L_Abort \<Rightarrow> Some K_Abort
   | L_Connect \<Rightarrow> Some K_Connect
   | L_Release \<Rightarrow> Some K_Release
   | L_Create \<Rightarrow> Some K_Create
   | L_Select \<Rightarrow> Some K_Select
   | L_Deselect \<Rightarrow> Some K_Deselect
   | L_Open \<Rightarrow> Some K_Orf
   | L_Close \<Rightarrow> Some K_Crf
   | L_Write \<Rightarrow> Some K_Write
   | L_Read \<Rightarrow> Some K_Read
   | L_Message \<Rightarrow> Some K_MsgDm
   | L_Cancel \<Rightarrow> Some K_Idt
   | L_SendData \<Rightarrow> Some (if s = Mg01A then K_MsgMm else K_Dtf)
   | L_Sync \<Rightarrow> Some K_Syn
   | L_DataEnd \<Rightarrow> Some (if s = Mg01A then K_MsgFm else K_DtfEnd)
   | L_TransferEnd \<Rightarrow> Some K_TransEnd
   | L_Resync \<Rightarrow> Some K_Resyn
   | L_Accept \<Rightarrow> None
   | L_Reject \<Rightarrow> None)"

definition answer_fpdu :: "state \<Rightarrow> fpdu_kind option" where
  "answer_fpdu s =
     (if s = Cn02B then Some K_Aconnect
      else if s = Cn04B then Some K_Relconf
      else if s = Sf01B then Some K_AckCreate
      else if s = Sf02B then Some K_AckSelect
      else if s = Sf04B then Some K_AckDeselect
      else if s = Of01B then Some K_AckOrf
      else if s = Of03B then Some K_AckCrf
      else if s = Tde01B then Some K_AckWrite
      else if s = Tdl01B then Some K_AckRead
      else if s \<in> {Tde02B, Tdl02A, Tde07B, Tdl07A} then Some K_AckSyn
      else if s \<in> {Tde04A, Tde04B, Tdl04A, Tdl04B} then Some K_AckResyn
      else if s \<in> {Tde06A, Tde06B, Tdl06A, Tdl06B} then Some K_AckIdt
      else if s \<in> {Tde08B, Tdl08B} then Some K_AckTransEnd
      else if s = Mg04B then Some K_AckMsg
      else None)"

definition sent_event :: "state \<Rightarrow> local_event \<Rightarrow> event option" where
  "sent_event s l =
     (if l = L_Accept then map_option recv (answer_fpdu s)
      else if l = L_Reject then
        (if s = Cn02B then Some (nack K_Rconnect)
         else if s = Cn04B then Some (recv K_Relconf)
         else map_option nack (answer_fpdu s))
      else map_option recv (request_fpdu s l))"

lemma dual_dual [simp]: "dual (dual s) = s"
  by (cases s) simp_all

text \<open>C8: the tables of the two ends agree. When one end in a state performs a local event its table
  allows and the other end, in the dual state, receives the FPDU that the event sends, then the
  receiver accepts it and both ends are in dual states again. There are exactly three exceptions, in
  which the receiver reports a protocol error: a requester that waits for ACK(TRANS.END) cancels,
  writing (TDE08A) or reading (TDL08A), and a reading server that has received TRANS.END
  resynchronises (TDL08B).\<close>

theorem peers_stay_in_step:
  assumes "state_apply s (Local l) = Next s'" and "sent_event s l = Some e"
  shows "if (s, l) \<in> {(Tde08A, L_Cancel), (Tdl08A, L_Cancel), (Tdl08B, L_Resync)}
    then state_apply (dual s) e = Error
    else step (dual s) e (dual s')"
  using assms
  by (cases s)
    (auto simp: state_apply_defs sent_event_def request_fpdu_def answer_fpdu_def step_iff is_data_def
      split: if_splits)

theorem peers_stay_in_step_witness: "step (dual Tde04B) (recv K_AckResyn) (dual Tde02B)"
  using peers_stay_in_step [of Tde04B L_Accept Tde02B "recv K_AckResyn"]
  by (simp add: state_apply_defs sent_event_def answer_fpdu_def)

text \<open>
  Simultaneous interruption. When both ends cancel at the same time, each receives the IDT of the
  other, acknowledges it and considers the file open again; the acknowledgement of its own IDT then
  arrives in a state that does not allow it.
\<close>

lemma idt_collision:
  "run_events Tde02A [Local L_Cancel, recv K_Idt, Local L_Accept] = Some Of02"
  "run_events Tde02B [Local L_Cancel, recv K_Idt, Local L_Accept] = Some Of02"
  "state_apply Of02 (recv K_AckIdt) = Error"
  by (simp_all add: state_apply_defs is_data_def)

end
