(* ===== verification/Builder.thy ===== *)
theory Builder
  imports Params Fpdu_Codec
begin

text \<open>
  \<^verbatim>\<open>crates/pesit-core/src/builder.rs\<close>: the constructors of the FPDUs a session exchanges, and the
  extraction of a file specification from a received FPDU. A chain of setters on a mutable FPDU is
  the composition of the setters in the same order.
\<close>

section \<open>Helpers\<close>

definition non_empty :: "'a list option \<Rightarrow> 'a list option" where
  \<comment> \<open>\<^verbatim>\<open>.filter(|m| !m.is_empty())\<close>\<close>
  "non_empty m = (case m of Some s \<Rightarrow> (if s = [] then None else Some s) | None \<Rightarrow> None)"

definition on_some :: "'a option \<Rightarrow> ('a \<Rightarrow> fpdu \<Rightarrow> fpdu) \<Rightarrow> fpdu \<Rightarrow> fpdu" where
  \<comment> \<open>\<^verbatim>\<open>if let Some(x) = m { ... }\<close> on the FPDU under construction\<close>
  "on_some m act f = (case m of Some x \<Rightarrow> act x f | None \<Rightarrow> f)"

definition on_flag :: "bool \<Rightarrow> (fpdu \<Rightarrow> fpdu) \<Rightarrow> fpdu \<Rightarrow> fpdu" where
  "on_flag c act f = (if c then act f else f)"

definition builder_text :: "rstring \<Rightarrow> bytes" where
  "builder_text s = map latin1_byte (trim_end s)"

definition builder_text_of :: "bytes \<Rightarrow> rstring" where
  "builder_text_of v = trim_end (map unat v)"

section \<open>Connection\<close>

record connect_params =
  cp_requester :: rstring
  cp_server :: rstring
  cp_password :: "rstring option"
  cp_version :: pesit_version
  cp_sync :: sync_option
  cp_access :: access_type
  cp_resync :: bool
  cp_crc :: bool
  cp_timeout :: "u16 option"
  cp_free_message :: "rstring option"

definition connect_build :: "connect_params \<Rightarrow> u8 \<Rightarrow> fpdu" where
  "connect_build c src =
     (let f = with_ids (fpdu_new K_Connect) 0 src;
          f = on_flag (cp_crc c) (fpdu_set_num Pi_Crc 1) f;
          f = fpdu_set_text Pi_Server (cp_server c) (fpdu_set_text Pi_Requester (cp_requester c) f);
          f = on_some (non_empty (cp_password c)) (fpdu_set_text Pi_AccessControl) f;
          f = fpdu_set_num Pi_Version (version_code (cp_version c)) f;
          f = on_flag (sync_enabled (cp_sync c)) (fpdu_set Pi_SyncOption (sync_to_bytes (cp_sync c))) f;
          f = fpdu_set_num Pi_AccessType (access_code (cp_access c)) f;
          f = on_flag (cp_resync c) (fpdu_set_num Pi_Resync 1) f;
          f = on_some (cp_timeout c) (\<lambda>t. fpdu_set_num Pi_Timeout (ucast t)) f;
          f = on_some (non_empty (cp_free_message c)) (fpdu_set_text Pi_FreeMessage) f
      in f)"

definition aconnect :: "u8 \<Rightarrow> u8 \<Rightarrow> pesit_version \<Rightarrow> sync_option \<Rightarrow> bool \<Rightarrow> rstring option \<Rightarrow> fpdu" where
  "aconnect dst src version sync resync free_message =
     (let f = fpdu_set_num Pi_Version (version_code version) (with_ids (fpdu_new K_Aconnect) dst src);
          f = on_flag (sync_enabled sync) (fpdu_set Pi_SyncOption (sync_to_bytes sync)) f;
          f = on_flag resync (fpdu_set_num Pi_Resync 1) f;
          f = on_some (non_empty free_message) (fpdu_set_text Pi_FreeMessage) f
      in f)"

definition rconnect :: "u8 \<Rightarrow> diagnostic \<Rightarrow> rstring option \<Rightarrow> fpdu" where
  "rconnect dst diag free_message =
     (let f = fpdu_set_diag diag (with_ids (fpdu_new K_Rconnect) dst 0)
      in on_some (non_empty free_message) (fpdu_set_text Pi_FreeMessage) f)"

definition release :: "u8 \<Rightarrow> u8 \<Rightarrow> diagnostic \<Rightarrow> fpdu" where
  "release dst src diag = fpdu_set_diag diag (with_ids (fpdu_new K_Release) dst src)"

definition relconf :: "u8 \<Rightarrow> u8 \<Rightarrow> fpdu" where
  "relconf dst src = with_ids (fpdu_new K_Relconf) dst src"

definition abort :: "u8 \<Rightarrow> u8 \<Rightarrow> diagnostic \<Rightarrow> fpdu" where
  "abort dst src diag = fpdu_set_diag diag (with_ids (fpdu_new K_Abort) dst src)"

section \<open>File selection\<close>

record file_spec =
  fs_requester :: "rstring option"
  fs_server :: "rstring option"
  fs_file_type :: u64
  fs_file_name :: rstring
  fs_transfer_id :: u32
  fs_restarted :: bool
  fs_data_code :: "u8 option"
  fs_priority :: u8
  fs_max_entity_size :: u16
  fs_article_format :: article_format
  fs_article_length :: u16
  fs_organisation :: "u8 option"
  fs_label :: "rstring option"
  fs_reservation_unit :: "u8 option"
  fs_max_reservation :: u64
  fs_creation_date :: "rstring option"
  fs_extraction_date :: "rstring option"
  fs_client_id :: "rstring option"
  fs_bank_id :: "rstring option"
  fs_file_access_control :: "rstring option"
  fs_free_message :: "rstring option"

definition opt_item :: "pi \<Rightarrow> bytes option \<Rightarrow> (pi \<times> bytes) list" where
  "opt_item p m = (case m of Some v \<Rightarrow> [(p, v)] | None \<Rightarrow> [])"

definition file_id_group :: "file_spec \<Rightarrow> (pi \<times> bytes) list" where
  "file_id_group s =
     opt_item Pi_Requester (map_option builder_text (fs_requester s)) @
     opt_item Pi_Server (map_option builder_text (fs_server s)) @
     [(Pi_FileType, encode_num (fs_file_type s)), (Pi_FileName, builder_text (fs_file_name s))]"

definition logical_group :: "file_spec \<Rightarrow> (pi \<times> bytes) list" where
  "logical_group s =
     [(Pi_ArticleFormat, [format_code (fs_article_format s)]),
      (Pi_ArticleLength, encode_num (ucast (fs_article_length s)))] @
     opt_item Pi_FileOrganisation (map_option (\<lambda>x. [x]) (fs_organisation s)) @
     opt_item Pi_FileLabel (map_option builder_text (non_empty (fs_label s)))"

definition physical_group :: "file_spec \<Rightarrow> (pi \<times> bytes) list" where
  "physical_group s =
     opt_item Pi_ReservationUnit (map_option (\<lambda>x. [x]) (fs_reservation_unit s)) @
     [(Pi_MaxReservation, encode_num (fs_max_reservation s))]"

definition historical_group :: "file_spec \<Rightarrow> (pi \<times> bytes) list option" where
  "historical_group s =
     (case fs_creation_date s of
        None \<Rightarrow> None
      | Some created \<Rightarrow>
         Some ((Pi_CreationDate, builder_text created) #
               opt_item Pi_ExtractionDate (map_option builder_text (fs_extraction_date s))))"

definition common_tail :: "file_spec \<Rightarrow> fpdu \<Rightarrow> fpdu" where
  "common_tail s f =
     (let f = on_some (fs_client_id s) (fpdu_set_text Pi_ClientId) f;
          f = on_some (fs_bank_id s) (fpdu_set_text Pi_BankId) f;
          f = on_some (fs_file_access_control s) (fpdu_set_text Pi_FileAccessControl) f
      in on_some (non_empty (fs_free_message s)) (fpdu_set_text Pi_FreeMessage) f)"

definition spec_create :: "file_spec \<Rightarrow> u8 \<Rightarrow> fpdu" where
  "spec_create s dst =
     (let f = with_ids (fpdu_new K_Create) dst 0;
          f = fpdu_set_num Pi_TransferId (ucast (fs_transfer_id s)) (fpdu_set_pgi Pgi_FileId (file_id_group s) f);
          f = on_flag (fs_restarted s) (fpdu_set_num Pi_Restarted 1) f;
          f = on_some (fs_data_code s) (\<lambda>c. fpdu_set Pi_DataCode [c]) f;
          f = fpdu_set_num Pi_MaxEntitySize (ucast (fs_max_entity_size s)) (fpdu_set Pi_Priority [fs_priority s] f);
          f = fpdu_set_pgi Pgi_PhysicalAttributes (physical_group s)
                (fpdu_set_pgi Pgi_LogicalAttributes (logical_group s) f);
          f = on_some (historical_group s) (fpdu_set_pgi Pgi_HistoricalAttributes) f
      in common_tail s f)"

definition spec_select :: "file_spec \<Rightarrow> u8 \<Rightarrow> requested_attributes \<Rightarrow> fpdu" where
  "spec_select s dst attributes =
     (let f = with_ids (fpdu_new K_Select) dst 0;
          f = fpdu_set_num Pi_TransferId (ucast (fs_transfer_id s)) (fpdu_set_pgi Pgi_FileId (file_id_group s) f);
          f = on_flag (attributes_code attributes \<noteq> 0)
                (fpdu_set Pi_RequestedAttributes [attributes_code attributes]) f;
          f = on_flag (fs_restarted s) (fpdu_set_num Pi_Restarted 1) f;
          f = fpdu_set_num Pi_MaxEntitySize (ucast (fs_max_entity_size s)) (fpdu_set Pi_Priority [fs_priority s] f)
      in common_tail s f)"

definition spec_ack_select :: "file_spec \<Rightarrow> u8 \<Rightarrow> requested_attributes \<Rightarrow> fpdu" where
  "spec_ack_select s dst attributes =
     (let f = fpdu_set_diag D_OK (with_ids (fpdu_new K_AckSelect) dst 0);
          f = fpdu_set_num Pi_TransferId (ucast (fs_transfer_id s)) (fpdu_set_pgi Pgi_FileId (file_id_group s) f);
          f = on_some (fs_data_code s) (\<lambda>c. fpdu_set Pi_DataCode [c]) f;
          f = fpdu_set_num Pi_MaxEntitySize (ucast (fs_max_entity_size s)) f;
          f = on_flag (ra_logical attributes) (fpdu_set_pgi Pgi_LogicalAttributes (logical_group s)) f;
          f = on_flag (ra_physical attributes) (fpdu_set_pgi Pgi_PhysicalAttributes (physical_group s)) f;
          f = on_flag (ra_historical attributes)
                (on_some (historical_group s) (fpdu_set_pgi Pgi_HistoricalAttributes)) f;
          f = on_some (fs_client_id s) (fpdu_set_text Pi_ClientId) f;
          f = on_some (fs_bank_id s) (fpdu_set_text Pi_BankId) f
      in on_some (non_empty (fs_free_message s)) (fpdu_set_text Pi_FreeMessage) f)"

definition group_text :: "fpdu \<Rightarrow> pi \<Rightarrow> rstring option" where
  "group_text f p =
     map_option (\<lambda>(_, v). builder_text_of v)
       (Option.bind (fpdu_pgi f Pgi_FileId) (find (\<lambda>(q, _). q = p)))"

definition first_byte :: "bytes option \<Rightarrow> u8 option" where
  "first_byte m = Option.bind m (\<lambda>v. case v of [] \<Rightarrow> None | b # _ \<Rightarrow> Some b)"

definition unwrap_or :: "'a \<Rightarrow> 'a option \<Rightarrow> 'a" where
  "unwrap_or d m = (case m of Some x \<Rightarrow> x | None \<Rightarrow> d)"

definition spec_from_fpdu :: "fpdu \<Rightarrow> file_spec" where
  "spec_from_fpdu f =
     \<lparr>fs_requester = group_text f Pi_Requester,
      fs_server = group_text f Pi_Server,
      fs_file_type = unwrap_or 0 (fpdu_get_num f Pi_FileType),
      fs_file_name = unwrap_or [] (fpdu_get_text f Pi_FileName),
      fs_transfer_id = unwrap_or 0 (get_transfer_id f),
      fs_restarted = (fpdu_get_num f Pi_Restarted = Some 1),
      fs_data_code = first_byte (fpdu_get f Pi_DataCode),
      fs_priority = unwrap_or 0 (first_byte (fpdu_get f Pi_Priority)),
      fs_max_entity_size = unwrap_or 0 (get_max_entity_size f),
      fs_article_format = unwrap_or Format_Fixed (map_option format_from_bytes (fpdu_get f Pi_ArticleFormat)),
      fs_article_length = ucast (min (unwrap_or 0 (fpdu_get_num f Pi_ArticleLength)) 0xFFFF),
      fs_organisation = first_byte (fpdu_get f Pi_FileOrganisation),
      fs_label = fpdu_get_text f Pi_FileLabel,
      fs_reservation_unit = first_byte (fpdu_get f Pi_ReservationUnit),
      fs_max_reservation = unwrap_or 0 (fpdu_get_num f Pi_MaxReservation),
      fs_creation_date = fpdu_get_text f Pi_CreationDate,
      fs_extraction_date = fpdu_get_text f Pi_ExtractionDate,
      fs_client_id = fpdu_get_text f Pi_ClientId,
      fs_bank_id = fpdu_get_text f Pi_BankId,
      fs_file_access_control = fpdu_get_text f Pi_FileAccessControl,
      fs_free_message = fpdu_get_text f Pi_FreeMessage\<rparr>"

definition ack_create :: "u8 \<Rightarrow> diagnostic \<Rightarrow> u32 option \<Rightarrow> u16 \<Rightarrow> rstring option \<Rightarrow> fpdu" where
  "ack_create dst diag transfer_id max_entity_size free_message =
     (let f = fpdu_set_diag diag (with_ids (fpdu_new K_AckCreate) dst 0);
          f = on_some transfer_id (\<lambda>t. fpdu_set_num Pi_TransferId (ucast t)) f;
          f = fpdu_set_num Pi_MaxEntitySize (ucast max_entity_size) f
      in on_some (non_empty free_message) (fpdu_set_text Pi_FreeMessage) f)"

definition nack_select :: "u8 \<Rightarrow> diagnostic \<Rightarrow> rstring option \<Rightarrow> fpdu" where
  "nack_select dst diag free_message =
     (let f = fpdu_set_diag diag (with_ids (fpdu_new K_AckSelect) dst 0)
      in on_some (non_empty free_message) (fpdu_set_text Pi_FreeMessage) f)"

section \<open>Service FPDUs\<close>

definition deselect :: "u8 \<Rightarrow> diagnostic \<Rightarrow> fpdu" where
  "deselect dst diag = fpdu_set_diag diag (with_ids (fpdu_new K_Deselect) dst 0)"

definition ack_deselect :: "u8 \<Rightarrow> diagnostic \<Rightarrow> fpdu" where
  "ack_deselect dst diag = fpdu_set_diag diag (with_ids (fpdu_new K_AckDeselect) dst 0)"

definition orf :: "u8 \<Rightarrow> compression \<Rightarrow> fpdu" where
  "orf dst c =
     on_flag (c \<noteq> Comp_None) (fpdu_set Pi_Compression (compression_to_bytes c)) (with_ids (fpdu_new K_Orf) dst 0)"

definition ack_orf :: "u8 \<Rightarrow> diagnostic \<Rightarrow> compression \<Rightarrow> fpdu" where
  "ack_orf dst diag c =
     on_flag (c \<noteq> Comp_None) (fpdu_set Pi_Compression (compression_to_bytes c))
       (fpdu_set_diag diag (with_ids (fpdu_new K_AckOrf) dst 0))"

definition crf :: "u8 \<Rightarrow> diagnostic \<Rightarrow> fpdu" where
  "crf dst diag = fpdu_set_diag diag (with_ids (fpdu_new K_Crf) dst 0)"

definition ack_crf :: "u8 \<Rightarrow> diagnostic \<Rightarrow> fpdu" where
  "ack_crf dst diag = fpdu_set_diag diag (with_ids (fpdu_new K_AckCrf) dst 0)"

definition read_fpdu :: "u8 \<Rightarrow> u32 \<Rightarrow> fpdu" where
  "read_fpdu dst restart_point =
     fpdu_set_num Pi_RestartPoint (ucast restart_point) (with_ids (fpdu_new K_Read) dst 0)"

definition ack_read :: "u8 \<Rightarrow> diagnostic \<Rightarrow> fpdu" where
  "ack_read dst diag = fpdu_set_diag diag (with_ids (fpdu_new K_AckRead) dst 0)"

definition write_fpdu :: "u8 \<Rightarrow> fpdu" where
  "write_fpdu dst = with_ids (fpdu_new K_Write) dst 0"

definition ack_write :: "u8 \<Rightarrow> diagnostic \<Rightarrow> u32 \<Rightarrow> fpdu" where
  "ack_write dst diag restart_point =
     fpdu_set_num Pi_RestartPoint (ucast restart_point)
       (fpdu_set_diag diag (with_ids (fpdu_new K_AckWrite) dst 0))"

definition dtf_end :: "u8 \<Rightarrow> diagnostic \<Rightarrow> fpdu" where
  "dtf_end dst diag = fpdu_set_diag diag (with_ids (fpdu_new K_DtfEnd) dst 0)"

definition syn :: "u8 \<Rightarrow> u32 \<Rightarrow> fpdu" where
  "syn dst number = fpdu_set_num Pi_SyncNumber (ucast number) (with_ids (fpdu_new K_Syn) dst 0)"

definition ack_syn :: "u8 \<Rightarrow> u32 \<Rightarrow> fpdu" where
  "ack_syn dst number = fpdu_set_num Pi_SyncNumber (ucast number) (with_ids (fpdu_new K_AckSyn) dst 0)"

definition resyn :: "u8 \<Rightarrow> diagnostic \<Rightarrow> u32 \<Rightarrow> fpdu" where
  "resyn dst diag restart_point =
     fpdu_set_num Pi_RestartPoint (ucast restart_point)
       (fpdu_set_diag diag (with_ids (fpdu_new K_Resyn) dst 0))"

definition ack_resyn :: "u8 \<Rightarrow> u32 \<Rightarrow> fpdu" where
  "ack_resyn dst restart_point =
     fpdu_set_num Pi_RestartPoint (ucast restart_point) (with_ids (fpdu_new K_AckResyn) dst 0)"

definition idt :: "u8 \<Rightarrow> diagnostic \<Rightarrow> end_code \<Rightarrow> fpdu" where
  "idt dst diag code =
     fpdu_set Pi_EndCode [end_code_code code] (fpdu_set_diag diag (with_ids (fpdu_new K_Idt) dst 0))"

definition ack_idt :: "u8 \<Rightarrow> fpdu" where
  "ack_idt dst = with_ids (fpdu_new K_AckIdt) dst 0"

definition trans_end :: "u8 \<Rightarrow> u64 option \<Rightarrow> u64 option \<Rightarrow> fpdu" where
  "trans_end dst byte_count article_count =
     on_some article_count (fpdu_set_num Pi_ArticleCount)
       (on_some byte_count (fpdu_set_num Pi_ByteCount) (with_ids (fpdu_new K_TransEnd) dst 0))"

definition ack_trans_end :: "u8 \<Rightarrow> diagnostic \<Rightarrow> u64 option \<Rightarrow> u64 option \<Rightarrow> fpdu" where
  "ack_trans_end dst diag byte_count article_count =
     on_some article_count (fpdu_set_num Pi_ArticleCount)
       (on_some byte_count (fpdu_set_num Pi_ByteCount)
         (fpdu_set_diag diag (with_ids (fpdu_new K_AckTransEnd) dst 0)))"

section \<open>Messages\<close>

definition msg :: "fpdu_kind \<Rightarrow> u8 \<Rightarrow> file_spec \<Rightarrow> bool \<Rightarrow> bytes option \<Rightarrow> fpdu" where
  "msg kind dst spec expects_reply message =
     (let f = with_ids (fpdu_new kind) dst 0;
          f = fpdu_set_num Pi_TransferId (ucast (fs_transfer_id spec))
                (fpdu_set_pgi Pgi_FileId (file_id_group spec) f);
          f = on_flag expects_reply (fpdu_set Pi_RequestedAttributes [1]) f;
          f = on_some (fs_data_code spec) (\<lambda>c. fpdu_set Pi_DataCode [c]) f;
          f = fpdu_set Pi_Priority [fs_priority spec] f;
          f = on_some (historical_group spec) (fpdu_set_pgi Pgi_HistoricalAttributes) f;
          f = on_some (fs_client_id spec) (fpdu_set_text Pi_ClientId) f;
          f = on_some (fs_bank_id spec) (fpdu_set_text Pi_BankId) f
      in on_some (non_empty message) (fpdu_set Pi_Message) f)"

definition msg_segment :: "fpdu_kind \<Rightarrow> u8 \<Rightarrow> bytes \<Rightarrow> fpdu" where
  "msg_segment kind dst segment =
     on_flag (segment \<noteq> []) (fpdu_set Pi_Message segment) (with_ids (fpdu_new kind) dst 0)"

definition ack_msg :: "u8 \<Rightarrow> diagnostic \<Rightarrow> u32 option \<Rightarrow> bytes option \<Rightarrow> fpdu" where
  "ack_msg dst diag transfer_id reply =
     (let f = fpdu_set_diag diag (with_ids (fpdu_new K_AckMsg) dst 0);
          f = on_some transfer_id (\<lambda>t. fpdu_set_num Pi_TransferId (ucast t)) f
      in on_some (non_empty reply) (fpdu_set Pi_Message) f)"

end
