(* ===== verification/Builder_Props.thy ===== *)
theory Builder_Props
  imports Builder Frame
begin

text \<open>
  What the FPDU constructors guarantee: their parameters come out in the canonical order, the FPDUs
  pass the strict validation of the peer under explicit bounds on the values, and a file
  specification sent in a CREATE is read back by the peer.
\<close>

section \<open>Length of numeric values\<close>

lemma drop_bit_zero: "unat (w :: u64) < 2 ^ k \<Longrightarrow> drop_bit k w = 0"
proof -
  assume w: "unat w < 2 ^ k"
  have "unat (drop_bit k w) = drop_bit k (unat w)" 
    by (simp add: unsigned_drop_bit_eq take_bit_nat_eq_self order_less_le_trans [OF unsigned_less])
  also have "\<dots> = 0" using w by (simp add: drop_bit_eq_div)
  finally show ?thesis by (rule unat_0_iff [THEN iffD1])
qed

lemma to_be_bytes64_nth: "m < 8 \<Longrightarrow> to_be_bytes64 w ! m = ucast (drop_bit (8 * (7 - m)) w)"
  by (auto simp: to_be_bytes64_def numeral_eq_Suc less_Suc_eq)

lemma length_encode_num:
  assumes "unat w < 2 ^ (8 * n)" and "1 \<le> n"
  shows "length (encode_num w) \<le> n"
proof -
  obtain m where m: "m \<le> 7" "encode_num w = drop m (to_be_bytes64 w)"
    "m = 7 \<or> to_be_bytes64 w ! m \<noteq> 0"
    by (rule encode_num_cut)
  show ?thesis
  proof (cases "m = 7 \<or> 8 - m \<le> n")
    case True
    with m(2) assms(2) show ?thesis by auto
  next
    case False
    with m(1) have "n \<le> 7 - m" by linarith
    then have "unat w < 2 ^ (8 * (7 - m))"
      using assms(1) by (meson less_le_trans mult_le_mono2 one_le_numeral power_increasing)
    then have "to_be_bytes64 w ! m = 0"
      using m(1) by (simp add: to_be_bytes64_nth drop_bit_zero)
    with m(3) False show ?thesis by simp
  qed
qed

lemma length_encode_num_8 [simp]: "length (encode_num w) \<le> 8"
  by (rule encode_num_cut [of w]) simp

lemma length_encode_num_u16 [simp]: "length (encode_num (ucast (w :: u16))) \<le> 2"
  using unsigned_less [of w] by (intro length_encode_num) (simp_all add: unat_ucast_up)

lemma length_encode_num_u32 [simp]: "length (encode_num (ucast (w :: u32))) \<le> 4"
  using unsigned_less [of w] by (intro length_encode_num) (simp_all add: unat_ucast_up)

lemma length_encode_num_24: "unat (w :: u32) < 2 ^ 24 \<Longrightarrow> length (encode_num (ucast w)) \<le> 3"
  by (intro length_encode_num) (simp_all add: unat_ucast_up)

section \<open>Parameters appended in ascending order\<close>

definition ends_below :: "u8 \<Rightarrow> fpdu \<Rightarrow> bool" where
  "ends_below n f \<longleftrightarrow> canonical (f_params f) \<and> (\<forall>q\<in>set (f_params f). param_code q < n)"

lemma canonical_append_one:
  "canonical ps \<Longrightarrow> \<forall>q\<in>set ps. param_code q < param_code p \<Longrightarrow> canonical (ps @ [p])"
  by (simp add: canonical_def sorted_wrt_append)

lemma ends_below_new [simp]: "ends_below n (with_ids (fpdu_new k) i j)"
  by (simp add: ends_below_def with_ids_def fpdu_new_def)

lemma params_new [simp]: "f_params (with_ids (fpdu_new k) i j) = []"
  by (simp add: with_ids_def fpdu_new_def)

lemma params_set [simp]:
  "ends_below (pi_code p) f \<Longrightarrow> f_params (fpdu_set p v f) = f_params f @ [Param_Pi p v]"
  by (simp add: ends_below_def fpdu_set_def insert_param_append)

lemma ends_below_set [simp]:
  "ends_below (pi_code p) f \<Longrightarrow> pi_code p < n \<Longrightarrow> ends_below n (fpdu_set p v f)"
  unfolding ends_below_def
  by (auto simp: fpdu_set_def insert_param_append canonical_append_one)

definition sorted_items :: "(pi \<times> bytes) list \<Rightarrow> bool" where
  "sorted_items items \<longleftrightarrow> sorted_wrt (<) (map (\<lambda>i. pi_code (fst i)) items)"

lemma sort_sorted_items:
  "sorted_items items \<Longrightarrow> sort_key (\<lambda>(p, _). pi_code p) items = items"
proof -
  assume "sorted_items items"
  then have "sorted_wrt (<) (map (\<lambda>(p, _). pi_code p) items)"
    by (simp add: sorted_items_def split_def)
  then have "sorted (map (\<lambda>(p, _). pi_code p) items)" by (rule strict_sorted_imp_sorted)
  then show ?thesis by (rule sort_key_id_if_sorted)
qed


lemma params_set_pgi [simp]:
  "ends_below (pgi_code g) f \<Longrightarrow> sorted_items items \<Longrightarrow>
    f_params (fpdu_set_pgi g items f) = f_params f @ [Param_Pgi g items]"
  by (simp add: ends_below_def fpdu_set_pgi_def insert_param_append sort_sorted_items)

lemma ends_below_set_pgi [simp]:
  "ends_below (pgi_code g) f \<Longrightarrow> pgi_code g < n \<Longrightarrow> ends_below n (fpdu_set_pgi g items f)"
  unfolding ends_below_def
  by (auto simp: fpdu_set_pgi_def insert_param_append canonical_append_one)

lemma header_set [simp]:
  "f_kind (fpdu_set p v f) = f_kind f" "f_data (fpdu_set p v f) = f_data f"
  "f_kind (fpdu_set_pgi g items f) = f_kind f" "f_data (fpdu_set_pgi g items f) = f_data f"
  "f_kind (with_ids f i j) = f_kind f" "f_data (with_ids f i j) = f_data f"
  "f_kind (fpdu_new k) = k" "f_data (fpdu_new k) = []"
  "id_dst (fpdu_set p v f) = id_dst f" "id_src (fpdu_set p v f) = id_src f"
  "id_dst (with_ids f i j) = i" "id_src (with_ids f i j) = j"
  by (simp_all add: fpdu_set_def fpdu_set_pgi_def with_ids_def fpdu_new_def)

text \<open>A conditional setter appends its parameter when the condition holds.\<close>

lemma params_on_flag [simp]:
  "ends_below (pi_code p) f \<Longrightarrow>
    f_params (on_flag c (fpdu_set p v) f) = f_params f @ (if c then [Param_Pi p v] else [])"
  by (simp add: on_flag_def)

lemma params_on_flag_pgi [simp]:
  "ends_below (pgi_code g) f \<Longrightarrow> sorted_items items \<Longrightarrow>
    f_params (on_flag c (fpdu_set_pgi g items) f) = f_params f @ (if c then [Param_Pgi g items] else [])"
  by (simp add: on_flag_def)

lemma params_on_some [simp]:
  "ends_below (pi_code p) f \<Longrightarrow>
    f_params (on_some m (\<lambda>x. fpdu_set p (v x)) f) =
      f_params f @ (case m of Some x \<Rightarrow> [Param_Pi p (v x)] | None \<Rightarrow> [])"
  by (simp add: on_some_def split: option.split)

lemma params_on_some_pgi [simp]:
  "ends_below (pgi_code g) f \<Longrightarrow> (\<And>items. m = Some items \<Longrightarrow> sorted_items items) \<Longrightarrow>
    f_params (on_some m (fpdu_set_pgi g) f) =
      f_params f @ (case m of Some items \<Rightarrow> [Param_Pgi g items] | None \<Rightarrow> [])"
  by (simp add: on_some_def split: option.split)

lemma ends_below_mono: "ends_below m f \<Longrightarrow> m \<le> n \<Longrightarrow> ends_below n f"
  by (auto simp: ends_below_def intro: less_le_trans)

lemma ends_below_on_flag [simp]:
  "ends_below (pi_code p) f \<Longrightarrow> pi_code p < n \<Longrightarrow> ends_below n (on_flag c (fpdu_set p v) f)"
  by (auto simp: on_flag_def intro: ends_below_mono)

lemma ends_below_on_some [simp]:
  "ends_below (pi_code p) f \<Longrightarrow> pi_code p < n \<Longrightarrow> ends_below n (on_some m (\<lambda>x. fpdu_set p (v x)) f)"
  by (auto simp: on_some_def intro: ends_below_mono split: option.split)

lemma ends_below_on_some_pgi [simp]:
  "ends_below (pgi_code g) f \<Longrightarrow> pgi_code g < n \<Longrightarrow> ends_below n (on_some m (fpdu_set_pgi g) f)"
  by (auto simp: on_some_def intro: ends_below_mono split: option.split)

lemma header_on [simp]:
  "f_kind (on_flag c (fpdu_set p v) f) = f_kind f" "f_data (on_flag c (fpdu_set p v) f) = f_data f"
  "f_kind (on_some m (\<lambda>x. fpdu_set p (w x)) f) = f_kind f"
  "f_data (on_some m (\<lambda>x. fpdu_set p (w x)) f) = f_data f"
  "f_kind (on_some mi (fpdu_set_pgi g) f) = f_kind f"
  "f_data (on_some mi (fpdu_set_pgi g) f) = f_data f"
  "id_dst (on_flag c (fpdu_set p v) f) = id_dst f" "id_src (on_flag c (fpdu_set p v) f) = id_src f"
  "id_dst (on_some m (\<lambda>x. fpdu_set p (w x)) f) = id_dst f"
  "id_src (on_some m (\<lambda>x. fpdu_set p (w x)) f) = id_src f"
  by (simp_all add: on_flag_def on_some_def split: option.split)

text \<open>Every derived setter is \<open>fpdu_set\<close> at its bytes.\<close>

lemma set_num_fun: "fpdu_set_num p n = fpdu_set p (encode_num n)"
  by (rule ext) (simp add: fpdu_set_num_def)

lemma set_text_fun: "fpdu_set_text p = (\<lambda>s. fpdu_set p (text_to_bytes s))"
  by (intro ext) (simp add: fpdu_set_text_def)

lemma set_diag_fun: "fpdu_set_diag d = fpdu_set Pi_Diag (diag_to_bytes d)"
  by (rule ext) (simp add: fpdu_set_diag_def)

lemma set_num_of_fun: "fpdu_set_num p = (\<lambda>n. fpdu_set p (encode_num n))"
  by (intro ext) (simp add: fpdu_set_num_def)

lemmas setter_funs = set_num_of_fun set_text_fun set_diag_fun

lemmas pi_tables = pi_code_def pi_row_def pi_max_len_def

section \<open>What the strict decoder requires\<close>

definition admitted :: "fpdu_kind \<Rightarrow> param \<Rightarrow> bool" where
  "admitted k p \<longleftrightarrow> param_ok True p \<and> check_param p = Inr () \<and>
     list_ex (\<lambda>r. rule_code r = param_code p) (kind_template k)"

lemma check_params_ok: "list_all (admitted k) ps \<Longrightarrow> check_params k ps = Inr ()"
  by (induction ps) (auto simp: admitted_def)

lemma check_mandatory_ok:
  "list_all (\<lambda>r. list_ex (\<lambda>p. param_code p = rule_code r) ps) rs \<Longrightarrow> check_mandatory k ps rs = Inr ()"
  by (induction rs) auto

lemma sendableI:
  assumes "\<not> is_data (f_kind f)" and "f_data f = []" and "ends_below n f"
    and "list_all (admitted (f_kind f)) (f_params f)"
    and "list_all (\<lambda>r. rule_mandatory r \<longrightarrow> list_ex (\<lambda>p. param_code p = rule_code r) (f_params f))
           (kind_template (f_kind f))"
    and "sum_list (map param_len (f_params f)) \<le> MAX_FPDU_LEN - HEADER_LEN"
  shows "sendable f"
proof -
  have "fpdu_wf True f"
    using assms(1-4) by (auto simp: fpdu_wf_def params_ok_def ends_below_def admitted_def list_all_iff)
  moreover have "check_mandatory (f_kind f) (f_params f) (filter rule_mandatory (kind_template (f_kind f))) = Inr ()"
    using assms(5) by (intro check_mandatory_ok) (auto simp: list_all_iff)
  ultimately show ?thesis using assms
    by (simp add: sendable_def template_ok_def validate_template_def check_params_ok encoded_len_def
        MAX_FPDU_LEN_def HEADER_LEN_def)
qed


lemma admitted_Pi:
  "v \<noteq> [] \<Longrightarrow> length v \<le> pi_max_len p \<Longrightarrow> pi_max_len p < 65536 \<Longrightarrow>
    list_ex (\<lambda>r. rule_code r = pi_code p) (kind_template k) \<Longrightarrow> admitted k (Param_Pi p v)"
  by (auto simp: admitted_def)

lemma unit_len_le: "n \<le> m \<Longrightarrow> unit_len n \<le> m + 4"
  by (simp add: unit_len_def)

text \<open>
  The length condition of \<open>sendableI\<close> for FPDUs of parameters of bounded length.
\<close>

lemma small_params:
  "list_all (\<lambda>p. param_len p \<le> 340) ps \<Longrightarrow> length ps \<le> 16 \<Longrightarrow> sum_list (map param_len ps) \<le> 5440"
proof -
  assume a: "list_all (\<lambda>p. param_len p \<le> 340) ps" "length ps \<le> 16"
  then have "sum_list (map param_len ps) \<le> sum_list (map (\<lambda>_. 340) ps)"
    by (intro sum_list_mono) (auto simp: list_all_iff)
  with a(2) show ?thesis by (simp add: sum_list_triv)
qed

definition short :: "fpdu_kind \<Rightarrow> param \<Rightarrow> bool" where
  "short k p \<longleftrightarrow> admitted k p \<and> param_len p \<le> 340"

text \<open>What a session sends outside the data phase is sendable and short.\<close>

definition compact :: "fpdu \<Rightarrow> bool" where
  "compact f \<longleftrightarrow> sendable f \<and> encoded_len f \<le> 6000"

lemma compactI:
  assumes "\<not> is_data (f_kind f)" and "f_data f = []" and "ends_below 100 f"
    and "list_all (short (f_kind f)) (f_params f)"
    and "list_all (\<lambda>r. rule_mandatory r \<longrightarrow> list_ex (\<lambda>p. param_code p = rule_code r) (f_params f))
           (kind_template (f_kind f))"
    and "length (f_params f) \<le> 16"
  shows "compact f"
proof -
  have "list_all (\<lambda>p. param_len p \<le> 340) (f_params f)" "list_all (admitted (f_kind f)) (f_params f)"
    using assms(4) by (simp_all add: list_all_iff short_def)
  note len = small_params [OF this(1) assms(6)] and ad = this(2)
  have "sendable f" by (rule sendableI [OF assms(1-3) ad assms(5)]) (use len in \<open>simp add: MAX_FPDU_LEN_def HEADER_LEN_def\<close>)
  with len assms(1) show ?thesis by (simp add: compact_def encoded_len_def HEADER_LEN_def)
qed

lemma compact_sendable: "compact f \<Longrightarrow> sendable f"
  by (simp add: compact_def)

lemmas sendable_smallI = compact_sendable [OF compactI]

lemma short_Pi:
  "v \<noteq> [] \<Longrightarrow> length v \<le> pi_max_len p \<Longrightarrow> pi_max_len p \<le> 296 \<Longrightarrow>
    list_ex (\<lambda>r. rule_code r = pi_code p) (kind_template k) \<Longrightarrow> short k (Param_Pi p v)"
  using admitted_Pi [of v p k] unit_len_le [of "length v" 296] by (simp add: short_def)

lemma compression_not_Nil [simp]: "compression_to_bytes c \<noteq> []"
  by (cases c) simp_all

lemma pair_length [simp]: "length (compression_to_bytes c) = 2"
  by (cases c) simp_all

lemmas template_tables = kind_template_def template_defs rule_m_def rule_o_def is_data_def

section \<open>Service FPDUs\<close>

lemmas service_simps = setter_funs short_Pi pi_tables template_tables length_encode_num_24

lemmas service_defs = release_def relconf_def abort_def deselect_def ack_deselect_def orf_def ack_orf_def
  crf_def ack_crf_def read_fpdu_def ack_read_def write_fpdu_def ack_write_def dtf_end_def syn_def
  ack_syn_def resyn_def ack_resyn_def idt_def ack_idt_def trans_end_def ack_trans_end_def

lemma service_compact:
  assumes "unat n < 2 ^ 24" and "\<And>a. arts = Some a \<Longrightarrow> unat a < 2 ^ 32"
  shows "list_all compact
    [release dst src d, relconf dst src, abort dst src d, deselect dst d, ack_deselect dst d,
     orf dst c, ack_orf dst d c, crf dst d, ack_crf dst d, read_fpdu dst n, ack_read dst d,
     write_fpdu dst, ack_write dst d n, dtf_end dst d, syn dst n, ack_syn dst n, resyn dst d n,
     ack_resyn dst n, idt dst d e, ack_idt dst, trans_end dst bs arts, ack_trans_end dst d bs arts]"
  unfolding list.pred_inject
  by (intro conjI TrueI compactI)
    (use assms in \<open>simp_all add: service_defs service_simps length_encode_num split: option.split\<close>)

text \<open>every FPDU of the file-open, transfer, synchronisation and termination services that the
  session builds is accepted by a strict peer: it encodes, fits the length field and decodes back to
  itself, provided restart points and synchronisation numbers fit three bytes and article counts
  four, for all diagnostics, compressions and end codes.\<close>

theorem service_fpdus_sendable:
  assumes "unat n < 2 ^ 24" and "\<And>a. arts = Some a \<Longrightarrow> unat a < 2 ^ 32"
  shows "list_all sendable
    [release dst src d, relconf dst src, abort dst src d, deselect dst d, ack_deselect dst d,
     orf dst c, ack_orf dst d c, crf dst d, ack_crf dst d, read_fpdu dst n, ack_read dst d,
     write_fpdu dst, ack_write dst d n, dtf_end dst d, syn dst n, ack_syn dst n, resyn dst d n,
     ack_resyn dst n, idt dst d e, ack_idt dst, trans_end dst bs arts, ack_trans_end dst d bs arts]"
  by (rule list.pred_mono_strong [OF service_compact [OF assms]]) (assumption | erule compact_sendable)+

theorem service_fpdus_sendable_witness:
  "list_all sendable
    [release 1 2 D_OK, relconf 1 2, abort 1 2 D_OK, deselect 1 D_OK, ack_deselect 1 D_OK,
     orf 1 Comp_Mixed, ack_orf 1 D_OK Comp_Mixed, crf 1 D_OK, ack_crf 1 D_OK, read_fpdu 1 70000, ack_read 1 D_OK,
     write_fpdu 1, ack_write 1 D_OK 70000, dtf_end 1 D_OK, syn 1 70000, ack_syn 1 70000, resyn 1 D_OK 70000,
     ack_resyn 1 70000, idt 1 D_OK End_Suspension, ack_idt 1, trans_end 1 (Some 9) (Some 2),
     ack_trans_end 1 D_OK (Some 9) (Some 2)]"
  by (rule service_fpdus_sendable) simp_all

section \<open>Texts\<close>

definition plain :: "nat \<Rightarrow> rstring \<Rightarrow> bool" where
  "plain n s \<longleftrightarrow> s \<noteq> [] \<and> trim_end s = s \<and> list_all (\<lambda>c. c < 256) s \<and> length s \<le> n"

lemma plain_bytes:
  assumes "plain n s"
  shows "text_to_bytes s \<noteq> []" and "length (text_to_bytes s) \<le> n"
    and "text_from_bytes (text_to_bytes s) = s"
  using assms text_round_trip [of s] by (auto simp: plain_def text_to_bytes_def list_all_iff)

lemma builder_text_eq: "builder_text = text_to_bytes" "builder_text_of = text_from_bytes"
  by (auto simp: builder_text_def text_to_bytes_def builder_text_of_def text_from_bytes_def)

lemma short_text:
  "plain (pi_max_len p) s \<Longrightarrow> pi_max_len p \<le> 296 \<Longrightarrow>
    list_ex (\<lambda>r. rule_code r = pi_code p) (kind_template k) \<Longrightarrow> short k (Param_Pi p (text_to_bytes s))"
  by (rule short_Pi) (auto simp: plain_bytes)

definition plain_opt :: "nat \<Rightarrow> rstring option \<Rightarrow> bool" where
  "plain_opt n m \<longleftrightarrow> (case m of None \<Rightarrow> True | Some s \<Rightarrow> plain n s)"

lemma plain_opt_non_empty: "plain_opt n m \<Longrightarrow> non_empty m = m"
  by (auto simp: plain_opt_def plain_def non_empty_def split: option.splits)

lemma plain_opt_round_trip:
  "plain_opt n m \<Longrightarrow> map_option (\<lambda>s. text_from_bytes (text_to_bytes s)) m = m"
  by (auto simp: plain_opt_def plain_bytes(3) split: option.splits)

section \<open>CONNECT\<close>

definition connect_ok :: "connect_params \<Rightarrow> bool" where
  "connect_ok c \<longleftrightarrow> plain 24 (cp_requester c) \<and> plain 24 (cp_server c) \<and>
     plain_opt 16 (cp_password c) \<and> plain_opt 254 (cp_free_message c)"

lemma length_version_num [simp]: "length (encode_num (version_code v)) \<le> 2"
  by (cases v) (auto intro!: length_encode_num)

lemma length_access_num [simp]: "length (encode_num (access_code a)) \<le> Suc 0"
  using length_encode_num [of "access_code a" 1] by (cases a) simp_all

lemma length_num_1 [simp]: "length (encode_num 1) \<le> Suc 0"
  using length_encode_num [of 1 1] by simp

lemma length_sync_to_bytes [simp]: "length (sync_to_bytes s) = 3"
  by (simp add: sync_to_bytes_def)

lemma sync_to_bytes_not_Nil [simp]: "sync_to_bytes s \<noteq> []"
  by (simp add: sync_to_bytes_def)

lemma connect_params_of:
  assumes "connect_ok c"
  shows "f_params (connect_build c src) =
    (if cp_crc c then [Param_Pi Pi_Crc (encode_num 1)] else []) @
    [Param_Pi Pi_Requester (text_to_bytes (cp_requester c)), Param_Pi Pi_Server (text_to_bytes (cp_server c))] @
    (case cp_password c of None \<Rightarrow> [] | Some s \<Rightarrow> [Param_Pi Pi_AccessControl (text_to_bytes s)]) @
    [Param_Pi Pi_Version (encode_num (version_code (cp_version c)))] @
    (if sync_enabled (cp_sync c) then [Param_Pi Pi_SyncOption (sync_to_bytes (cp_sync c))] else []) @
    [Param_Pi Pi_AccessType (encode_num (access_code (cp_access c)))] @
    (if cp_resync c then [Param_Pi Pi_Resync (encode_num 1)] else []) @
    (case cp_timeout c of None \<Rightarrow> [] | Some t \<Rightarrow> [Param_Pi Pi_Timeout (encode_num (ucast t))]) @
    (case cp_free_message c of None \<Rightarrow> [] | Some s \<Rightarrow> [Param_Pi Pi_FreeMessage (text_to_bytes s)])"
    and "ends_below 100 (connect_build c src)"
  using assms plain_opt_non_empty [of 16 "cp_password c"] plain_opt_non_empty [of 254 "cp_free_message c"]
  by (simp_all add: connect_build_def connect_ok_def setter_funs pi_tables split: option.split)

lemma connect_compact:
  assumes "connect_ok c"
  shows "compact (connect_build c src)"
  by (rule compactI)
    (use assms in \<open>simp_all add: connect_params_of\<close>,
     auto simp: connect_ok_def connect_build_def plain_opt_def setter_funs short_text short_Pi
       pi_tables template_tables Let_def split: option.splits)


lemmas connect_sendable = compact_sendable [OF connect_compact]

lemma sendable_wire: "sendable f \<Longrightarrow> \<exists>bs. encode f = Inr bs \<and> decode bs = Inr f"
  using sendable_encode sendable_decode by blast

text \<open>a CONNECT built from parameters whose texts respect the catalogue's lengths encodes, and a
  strict peer decodes from it the requester, the server, the password, the version, the
  synchronisation option, the access type, the resynchronisation and CRC flags, the watchdog timer
  and the free message that were asked for.\<close>

theorem connect_carries:
  assumes "connect_ok c"
  shows "\<exists>bs f. encode (connect_build c src) = Inr bs \<and> decode bs = Inr f \<and>
    f_kind f = K_Connect \<and> id_dst f = 0 \<and> id_src f = src \<and>
    fpdu_get_text f Pi_Requester = Some (cp_requester c) \<and>
    fpdu_get_text f Pi_Server = Some (cp_server c) \<and>
    fpdu_get_text f Pi_AccessControl = cp_password c \<and>
    get_version f = Some (cp_version c) \<and>
    get_sync_option f = (if sync_enabled (cp_sync c) then Some (cp_sync c) else None) \<and>
    get_access_type f = Some (cp_access c) \<and>
    (fpdu_get_num f Pi_Resync = Some 1 \<longleftrightarrow> cp_resync c) \<and>
    (fpdu_get_num f Pi_Crc = Some 1 \<longleftrightarrow> cp_crc c) \<and>
    fpdu_get_num f Pi_Timeout = map_option ucast (cp_timeout c) \<and>
    fpdu_get_text f Pi_FreeMessage = cp_free_message c"
proof -
  let ?f = "connect_build c src"
  obtain bs where bs: "encode ?f = Inr bs" "decode bs = Inr ?f"
    using sendable_wire [OF compact_sendable [OF connect_compact [OF assms]]] by blast
  have texts: "text_from_bytes (text_to_bytes s) = s"
    if "s = cp_requester c \<or> s = cp_server c \<or> cp_password c = Some s \<or> cp_free_message c = Some s" for s
    using assms that by (auto simp: connect_ok_def plain_opt_def intro: plain_bytes(3))
  have ids: "f_kind ?f = K_Connect" "id_dst ?f = 0" "id_src ?f = src"
    by (simp_all add: connect_build_def setter_funs)
  show ?thesis
    by (intro exI [of _ bs] exI [of _ ?f] conjI)
      (simp_all add: bs ids connect_params_of(1) [OF assms] texts fpdu_get_text_def fpdu_get_num_def
        fpdu_get_def get_version_def get_sync_option_def get_access_type_def get_param_append
        version_wire.from_code_code access_wire.from_code_code split: option.split)
qed


definition sample_connect :: connect_params where
  "sample_connect = \<lparr>cp_requester = [65, 66], cp_server = [67], cp_password = Some [80], cp_version = Version_E,
     cp_sync = \<lparr>interval_kb = 64, so_window = 3\<rparr>, cp_access = Access_Mixed, cp_resync = True,
     cp_crc = False, cp_timeout = Some 300, cp_free_message = None\<rparr>"

theorem connect_carries_witness:
  "\<exists>bs f. encode (connect_build sample_connect 7) = Inr bs \<and> decode bs = Inr f \<and>
    id_src f = 7 \<and> fpdu_get_text f Pi_Requester = Some [65, 66] \<and>
    fpdu_get_num f Pi_Timeout = Some 300"
proof -
  have "connect_ok sample_connect"
    by (simp add: connect_ok_def sample_connect_def plain_def plain_opt_def trim_end_def is_whitespace_def)
  from connect_carries [OF this, of 7] show ?thesis
    by (auto simp: sample_connect_def)
qed

section \<open>CREATE\<close>

text \<open>
  The file specifications a CREATE can carry: texts within the catalogue's lengths, a transfer
  identifier of three bytes, and an extraction date only next to a creation date.
\<close>

definition spec_ok :: "file_spec \<Rightarrow> bool" where
  "spec_ok s \<longleftrightarrow> plain_opt 24 (fs_requester s) \<and> plain_opt 24 (fs_server s) \<and> plain 76 (fs_file_name s) \<and>
     unat (fs_transfer_id s) < 2 ^ 24 \<and> plain_opt 80 (fs_label s) \<and>
     plain_opt 12 (fs_creation_date s) \<and> plain_opt 12 (fs_extraction_date s) \<and>
     (fs_creation_date s = None \<longrightarrow> fs_extraction_date s = None) \<and>
     plain_opt 24 (fs_client_id s) \<and> plain_opt 24 (fs_bank_id s) \<and>
     plain_opt 16 (fs_file_access_control s) \<and> plain_opt 254 (fs_free_message s)"

lemma sorted_groups [simp]:
  "sorted_items (file_id_group s)" "sorted_items (logical_group s)" "sorted_items (physical_group s)"
  "historical_group s = Some items \<Longrightarrow> sorted_items items"
  by (auto simp: sorted_items_def file_id_group_def logical_group_def physical_group_def
      historical_group_def opt_item_def pi_tables split: option.splits)

definition member_ok :: "pgi \<Rightarrow> pi \<times> bytes \<Rightarrow> bool" where
  "member_ok g i \<longleftrightarrow> snd i \<noteq> [] \<and> length (snd i) \<le> 80 \<and> pgi_contains g (fst i)"

lemma items_okI:
  "list_all (member_ok g) items \<Longrightarrow> sorted_items items \<Longrightarrow> items_ok True g items"
  by (auto simp: items_ok_def sorted_items_def list_all_iff member_ok_def)

lemma items_length:
  "list_all (\<lambda>i. length (snd i) \<le> 80) items \<Longrightarrow>
    sum_list (map (\<lambda>(_, v). unit_len (length v)) items) \<le> 84 * length items"
  by (induction items) (auto simp: unit_len_def)

lemma short_group:
  assumes "list_all (member_ok g) items" and "sorted_items items" and "items \<noteq> []" and "length items \<le> 4"
    and "check_members g items (pgi_members g) = Inr ()"
    and "list_ex (\<lambda>r. rule_code r = pgi_code g) (kind_template k)"
  shows "short k (Param_Pgi g items)"
proof -
  have len: "sum_list (map (\<lambda>(_, v). unit_len (length v)) items) \<le> 336"
    using items_length [of items] assms(1,4) by (fastforce simp: list_all_iff member_ok_def)
  then have "param_len (Param_Pgi g items) \<le> 340"
    using unit_len_le [OF len] by simp
  moreover have "admitted k (Param_Pgi g items)"
    using assms items_okI len by (simp add: admitted_def length_items)
  ultimately show ?thesis by (simp add: short_def)
qed

lemma encode_num_80 [simp]: "length (encode_num w) \<le> 80"
  using length_encode_num_8 [of w] by linarith

lemma member_text:
  "plain n t \<Longrightarrow> n \<le> 80 \<Longrightarrow> pgi_contains g p \<Longrightarrow> member_ok g (p, builder_text t)"
  using plain_bytes [of n t] by (simp add: member_ok_def builder_text_eq)

lemma member_texts:
  "plain_opt n m \<Longrightarrow> n \<le> 80 \<Longrightarrow> pgi_contains g p \<Longrightarrow>
    list_all (member_ok g) (opt_item p (map_option builder_text m))"
  by (auto simp: opt_item_def plain_opt_def intro: member_text split: option.splits)

lemma member_byte: "pgi_contains g p \<Longrightarrow> list_all (member_ok g) (opt_item p (map_option (\<lambda>x. [x]) m))"
  by (simp add: opt_item_def member_ok_def split: option.split)

lemma length_groups:
  "length (file_id_group s) \<le> 4" "length (logical_group s) \<le> 4" "length (physical_group s) \<le> 4"
  "historical_group s = Some items \<Longrightarrow> length items \<le> 4"
  by (auto simp: file_id_group_def logical_group_def physical_group_def historical_group_def
      opt_item_def split: option.splits)

lemma create_groups:
  assumes "spec_ok s"
  shows "short K_Create (Param_Pgi Pgi_FileId (file_id_group s))"
    and "short K_Create (Param_Pgi Pgi_LogicalAttributes (logical_group s))"
    and "short K_Create (Param_Pgi Pgi_PhysicalAttributes (physical_group s))"
    and "historical_group s = Some items \<Longrightarrow> short K_Create (Param_Pgi Pgi_HistoricalAttributes items)"
proof -
  have texts: "list_all (member_ok Pgi_FileId) (opt_item Pi_Requester (map_option builder_text (fs_requester s)))"
    "list_all (member_ok Pgi_FileId) (opt_item Pi_Server (map_option builder_text (fs_server s)))"
    "member_ok Pgi_FileId (Pi_FileName, builder_text (fs_file_name s))"
    "list_all (member_ok Pgi_LogicalAttributes)
       (opt_item Pi_FileLabel (map_option builder_text (non_empty (fs_label s))))"
    "list_all (member_ok Pgi_HistoricalAttributes)
       (opt_item Pi_ExtractionDate (map_option builder_text (fs_extraction_date s)))"
    "fs_creation_date s = Some t \<Longrightarrow> member_ok Pgi_HistoricalAttributes (Pi_CreationDate, builder_text t)" for t
    using assms plain_opt_non_empty [of 80 "fs_label s"]
    by (auto simp: spec_ok_def plain_opt_def pgi_contains_def
        intro!: member_texts intro: member_text [of 12] member_text [of 76])
  show "short K_Create (Param_Pgi Pgi_FileId (file_id_group s))"
    by (rule short_group [OF _ sorted_groups(1) _ length_groups(1)], unfold file_id_group_def)
      (use texts in \<open>simp_all add: template_tables member_ok_def pgi_contains_def\<close>)
  show "short K_Create (Param_Pgi Pgi_LogicalAttributes (logical_group s))"
    by (rule short_group [OF _ sorted_groups(2) _ length_groups(2)], unfold logical_group_def)
      (use texts in \<open>simp_all add: template_tables member_ok_def pgi_contains_def member_byte\<close>)
  show "short K_Create (Param_Pgi Pgi_PhysicalAttributes (physical_group s))"
    by (rule short_group [OF _ sorted_groups(3) _ length_groups(3)], unfold physical_group_def)
      (simp_all add: template_tables member_ok_def pgi_contains_def member_byte)
  show "short K_Create (Param_Pgi Pgi_HistoricalAttributes items)" if "historical_group s = Some items"
    by (rule short_group [OF _ sorted_groups(4) [OF that] _ length_groups(4) [OF that]])
      (use texts that in \<open>auto simp: template_tables historical_group_def split: option.splits\<close>)
qed

lemma create_params_of:
  assumes "spec_ok s"
  shows "f_params (spec_create s dst) =
    [Param_Pgi Pgi_FileId (file_id_group s), Param_Pi Pi_TransferId (encode_num (ucast (fs_transfer_id s)))] @
    (if fs_restarted s then [Param_Pi Pi_Restarted (encode_num 1)] else []) @
    (case fs_data_code s of None \<Rightarrow> [] | Some c \<Rightarrow> [Param_Pi Pi_DataCode [c]]) @
    [Param_Pi Pi_Priority [fs_priority s], Param_Pi Pi_MaxEntitySize (encode_num (ucast (fs_max_entity_size s))),
     Param_Pgi Pgi_LogicalAttributes (logical_group s), Param_Pgi Pgi_PhysicalAttributes (physical_group s)] @
    (case historical_group s of None \<Rightarrow> [] | Some items \<Rightarrow> [Param_Pgi Pgi_HistoricalAttributes items]) @
    (case fs_client_id s of None \<Rightarrow> [] | Some t \<Rightarrow> [Param_Pi Pi_ClientId (text_to_bytes t)]) @
    (case fs_bank_id s of None \<Rightarrow> [] | Some t \<Rightarrow> [Param_Pi Pi_BankId (text_to_bytes t)]) @
    (case fs_file_access_control s of None \<Rightarrow> [] | Some t \<Rightarrow> [Param_Pi Pi_FileAccessControl (text_to_bytes t)]) @
    (case fs_free_message s of None \<Rightarrow> [] | Some t \<Rightarrow> [Param_Pi Pi_FreeMessage (text_to_bytes t)])"
    and "ends_below 100 (spec_create s dst)" and "f_kind (spec_create s dst) = K_Create"
    and "f_data (spec_create s dst) = []"
  using assms plain_opt_non_empty [of 254 "fs_free_message s"]
  by (simp_all add: spec_create_def common_tail_def spec_ok_def setter_funs pi_tables)

lemma list_all_opt: "(\<And>x. m = Some x \<Longrightarrow> P (f x)) \<Longrightarrow> list_all P (case m of None \<Rightarrow> [] | Some x \<Rightarrow> [f x])"
  by (simp split: option.split)

lemma length_opt: "length (case m of None \<Rightarrow> [] | Some x \<Rightarrow> [f x]) \<le> Suc 0"
  by (simp split: option.split)

lemma create_compact:
  assumes "spec_ok s"
  shows "compact (spec_create s dst)"
proof (rule compactI)
  note create = create_params_of [OF assms]
  note facts = assms [unfolded spec_ok_def plain_opt_def]
  show "\<not> is_data (f_kind (spec_create s dst))" "f_data (spec_create s dst) = []"
    "ends_below 100 (spec_create s dst)"
    by (simp_all add: create is_data_def)
  show "list_all (short (f_kind (spec_create s dst))) (f_params (spec_create s dst))"
    unfolding create list_all_append
    by (intro conjI list_all_opt)
      (use facts in \<open>auto simp: create_groups [OF assms] short_text short_Pi length_encode_num_24
         pi_tables template_tables\<close>)
  show "list_all (\<lambda>r. rule_mandatory r \<longrightarrow>
      list_ex (\<lambda>p. param_code p = rule_code r) (f_params (spec_create s dst)))
    (kind_template (f_kind (spec_create s dst)))"
    unfolding create by (simp add: template_tables pi_tables)
  show "length (f_params (spec_create s dst)) \<le> 16"
    unfolding create by (simp split: option.split)
qed


subsection \<open>Reading the specification back\<close>

lemma find_opt_item:
  "find (\<lambda>(q, _). q = p) (opt_item p' m @ xs) =
    (if p' = p \<and> m \<noteq> None then map_option (Pair p) m else find (\<lambda>(q, _). q = p) xs)"
  "find (\<lambda>(q, _). q = p) (opt_item p' m) = (if p' = p then map_option (Pair p) m else None)"
  by (auto simp: opt_item_def split: option.split)

lemma get_param_opt:
  "get_param p (case m of None \<Rightarrow> [] | Some x \<Rightarrow> [Param_Pi q (v x)]) = (if q = p then map_option v m else None)"
  by (simp split: option.split)

lemma get_param_flag:
  "get_param p (if c then [Param_Pi q v] else []) = (if c \<and> q = p then Some v else None)"
  by simp

lemma get_param_historical:
  "get_param p (case historical_group s of None \<Rightarrow> [] | Some items \<Rightarrow> [Param_Pgi Pgi_HistoricalAttributes items]) =
    (if fs_creation_date s = None then None
     else if p = Pi_CreationDate then map_option builder_text (fs_creation_date s)
     else if p = Pi_ExtractionDate then map_option builder_text (fs_extraction_date s) else None)"
  by (auto simp: historical_group_def find_opt_item split: option.split)

lemma create_get:
  assumes "spec_ok s"
  shows "fpdu_get (spec_create s dst) Pi_FileType = Some (encode_num (fs_file_type s))"
    and "fpdu_get (spec_create s dst) Pi_FileName = Some (text_to_bytes (fs_file_name s))"
    and "fpdu_get (spec_create s dst) Pi_TransferId = Some (encode_num (ucast (fs_transfer_id s)))"
    and "fpdu_get (spec_create s dst) Pi_Restarted = (if fs_restarted s then Some (encode_num 1) else None)"
    and "fpdu_get (spec_create s dst) Pi_DataCode = map_option (\<lambda>x. [x]) (fs_data_code s)"
    and "fpdu_get (spec_create s dst) Pi_Priority = Some [fs_priority s]"
    and "fpdu_get (spec_create s dst) Pi_MaxEntitySize = Some (encode_num (ucast (fs_max_entity_size s)))"
    and "fpdu_get (spec_create s dst) Pi_ArticleFormat = Some [format_code (fs_article_format s)]"
    and "fpdu_get (spec_create s dst) Pi_ArticleLength = Some (encode_num (ucast (fs_article_length s)))"
    and "fpdu_get (spec_create s dst) Pi_FileOrganisation = map_option (\<lambda>x. [x]) (fs_organisation s)"
    and "fpdu_get (spec_create s dst) Pi_FileLabel = map_option text_to_bytes (fs_label s)"
    and "fpdu_get (spec_create s dst) Pi_ReservationUnit = map_option (\<lambda>x. [x]) (fs_reservation_unit s)"
    and "fpdu_get (spec_create s dst) Pi_MaxReservation = Some (encode_num (fs_max_reservation s))"
    and "fpdu_get (spec_create s dst) Pi_CreationDate = map_option text_to_bytes (fs_creation_date s)"
    and "fpdu_get (spec_create s dst) Pi_ExtractionDate = map_option text_to_bytes (fs_extraction_date s)"
    and "fpdu_get (spec_create s dst) Pi_ClientId = map_option text_to_bytes (fs_client_id s)"
    and "fpdu_get (spec_create s dst) Pi_BankId = map_option text_to_bytes (fs_bank_id s)"
    and "fpdu_get (spec_create s dst) Pi_FileAccessControl = map_option text_to_bytes (fs_file_access_control s)"
    and "fpdu_get (spec_create s dst) Pi_FreeMessage = map_option text_to_bytes (fs_free_message s)"
  using assms plain_opt_non_empty [of 80 "fs_label s"]
  by (auto simp: fpdu_get_def create_params_of(1) [OF assms] get_param_append get_param_opt
      get_param_flag get_param_historical file_id_group_def logical_group_def physical_group_def
      find_opt_item builder_text_eq spec_ok_def simp del: option.case_distrib split: option.split)


lemma create_group_texts:
  assumes "spec_ok s"
  shows "group_text (spec_create s dst) Pi_Requester = fs_requester s"
    and "group_text (spec_create s dst) Pi_Server = fs_server s"
proof -
  have pgi: "fpdu_pgi (spec_create s dst) Pgi_FileId = Some (file_id_group s)"
    by (simp add: fpdu_pgi_def create_params_of(1) [OF assms])
  have plains: "plain_opt 24 (fs_requester s)" "plain_opt 24 (fs_server s)"
    using assms by (simp_all add: spec_ok_def)
  show "group_text (spec_create s dst) Pi_Requester = fs_requester s"
    "group_text (spec_create s dst) Pi_Server = fs_server s"
    using plains [THEN plain_opt_round_trip]
    by (auto simp: group_text_def pgi file_id_group_def find_opt_item builder_text_eq option.map_comp comp_def)
qed

lemma first_byte_singleton [simp]: "first_byte (map_option (\<lambda>x. [x]) m) = m" "first_byte (Some [b]) = Some b"
  by (simp_all add: first_byte_def split: option.split) (cases m; simp)

lemma num_u16 [simp]: "ucast (min (ucast (w :: u16)) (0xFFFF :: u64)) = w"
proof -
  have "unat w < 65536" by (rule order_less_le_trans [OF unsigned_less]) simp
  then have "(ucast w :: u64) \<le> 0xFFFF" by (simp add: word_le_nat_alt unat_ucast_up)
  then show ?thesis by (simp add: min_def ucast_up_down)
qed

lemma num_u32 [simp]: "ucast (ucast (w :: u32) :: u64) = w"
  by (simp add: ucast_up_down)

lemma spec_from_create:
  assumes "spec_ok s"
  shows "spec_from_fpdu (spec_create s dst) = s"
proof -
  note texts = plain_opt_round_trip [of 80 "fs_label s"] plain_opt_round_trip [of 12 "fs_creation_date s"]
    plain_opt_round_trip [of 12 "fs_extraction_date s"] plain_opt_round_trip [of 24 "fs_client_id s"]
    plain_opt_round_trip [of 24 "fs_bank_id s"] plain_opt_round_trip [of 16 "fs_file_access_control s"]
    plain_opt_round_trip [of 254 "fs_free_message s"] plain_bytes(3) [of 76 "fs_file_name s"]
  show ?thesis
    using assms [unfolded spec_ok_def] texts
    by (intro file_spec.equality)
      (simp_all add: spec_from_fpdu_def create_get [OF assms] create_group_texts [OF assms] unwrap_or_def
        fpdu_get_num_def fpdu_get_text_def get_transfer_id_def get_max_entity_size_def
        option.map_comp comp_def)
qed

text \<open>C11: a file specification whose texts respect the catalogue's lengths survives the trip: the
  CREATE built from it encodes, a strict peer decodes it, and the specification the peer extracts
  from the FPDU is the one that was sent, in all its fields.\<close>

theorem create_carries_spec:
  assumes "spec_ok s"
  shows "\<exists>bs f. encode (spec_create s dst) = Inr bs \<and> decode bs = Inr f \<and> spec_from_fpdu f = s"
  using sendable_wire [OF compact_sendable [OF create_compact [OF assms]]] spec_from_create [OF assms] by blast

definition sample_spec :: file_spec where
  "sample_spec = \<lparr>fs_requester = Some [65], fs_server = None, fs_file_type = 0, fs_file_name = [70, 73, 76, 69],
     fs_transfer_id = 42, fs_restarted = True, fs_data_code = Some 0, fs_priority = 1, fs_max_entity_size = 4096,
     fs_article_format = Format_Variable, fs_article_length = 256, fs_organisation = Some 0, fs_label = None,
     fs_reservation_unit = Some 0, fs_max_reservation = 100, fs_creation_date = Some [50, 54],
     fs_extraction_date = None, fs_client_id = None, fs_bank_id = Some [66], fs_file_access_control = None,
     fs_free_message = Some [72, 105]\<rparr>"

theorem create_carries_spec_witness:
  "\<exists>bs f. encode (spec_create sample_spec 3) = Inr bs \<and> decode bs = Inr f \<and> spec_from_fpdu f = sample_spec"
proof (rule create_carries_spec)
  show "spec_ok sample_spec"
    by (simp add: spec_ok_def sample_spec_def plain_def plain_opt_def trim_end_def is_whitespace_def)
qed

section \<open>Answers\<close>

lemma ack_create_params:
  assumes "plain_opt 254 m"
  shows "f_params (ack_create dst d (Some t) n m) =
    [Param_Pi Pi_Diag (diag_to_bytes d), Param_Pi Pi_TransferId (encode_num (ucast t)),
     Param_Pi Pi_MaxEntitySize (encode_num (ucast n))] @
    (case m of None \<Rightarrow> [] | Some x \<Rightarrow> [Param_Pi Pi_FreeMessage (text_to_bytes x)])"
    and "ends_below 100 (ack_create dst d (Some t) n m)" and "f_kind (ack_create dst d (Some t) n m) = K_AckCreate"
    and "f_data (ack_create dst d (Some t) n m) = []"
  using plain_opt_non_empty [OF assms]
  by (simp_all add: ack_create_def setter_funs pi_tables on_some_def [of "Some t"] split: option.split)

lemma ack_create_compact:
  assumes "plain_opt 254 m" and "unat t < 2 ^ 24"
  shows "compact (ack_create dst d (Some t) n m)"
  by (rule compactI)
    (use assms in \<open>auto simp: ack_create_params [OF assms(1)] plain_opt_def short_text service_simps split: option.splits\<close>)

lemma ack_create_gets:
  assumes "plain_opt 254 m"
  shows "get_max_entity_size (ack_create dst d (Some t) n m) = Some n"
    and "get_transfer_id (ack_create dst d (Some t) n m) = Some t"
    and "diag_or_ok (ack_create dst D_OK (Some t) n m) = D_OK"
  by (simp_all add: get_max_entity_size_def get_transfer_id_def fpdu_get_num_def fpdu_get_def diag_or_ok_def fpdu_diag_def
      ack_create_params [OF assms] get_param_append)

lemma aconnect_params:
  assumes "plain_opt 254 m"
  shows "f_params (aconnect dst src v sync resync m) =
    [Param_Pi Pi_Version (encode_num (version_code v))] @
    (if sync_enabled sync then [Param_Pi Pi_SyncOption (sync_to_bytes sync)] else []) @
    (if resync then [Param_Pi Pi_Resync (encode_num 1)] else []) @
    (case m of None \<Rightarrow> [] | Some s \<Rightarrow> [Param_Pi Pi_FreeMessage (text_to_bytes s)])"
    and "ends_below 100 (aconnect dst src v sync resync m)" and "f_kind (aconnect dst src v sync resync m) = K_Aconnect"
    and "f_data (aconnect dst src v sync resync m) = []" and "id_src (aconnect dst src v sync resync m) = src"
  using plain_opt_non_empty [OF assms] by (simp_all add: aconnect_def setter_funs pi_tables split: option.split)

lemma aconnect_compact:
  assumes "plain_opt 254 m"
  shows "compact (aconnect dst src v sync resync m)"
  by (rule compactI)
    (use assms in \<open>auto simp: aconnect_params [OF assms] plain_opt_def short_text service_simps split: option.splits\<close>)

lemma aconnect_gets:
  assumes "plain_opt 254 m"
  shows "get_version (aconnect dst src v sync resync m) = Some v"
    and "get_sync_option (aconnect dst src v sync resync m) = (if sync_enabled sync then Some sync else None)"
    and "fpdu_get_num (aconnect dst src v sync resync m) Pi_Resync = (if resync then Some 1 else None)"
  by (simp_all add: fpdu_get_num_def fpdu_get_def get_version_def get_sync_option_def aconnect_params [OF assms] get_param_append
      version_wire.from_code_code split: option.split)

end
