(* ===== verification/Checkpoint.thy ===== *)
theory Checkpoint
  imports Fpdu_Params
begin

text \<open>
  \<^verbatim>\<open>crates/pesit-io/src/checkpoint.rs\<close>: the bookkeeping of synchronisation points. The trait
  \<^verbatim>\<open>CheckpointStore\<close> is the locale \<open>checkpoint_store\<close>, interpreted on the memory store and on the
  file store. A \<^verbatim>\<open>BTreeMap\<close> is the list of its entries in ascending order of the keys.

  The file store keeps its JSON text in one file that it replaces by writing a temporary file and
  renaming it. The two files are the record \<open>disk\<close>; what the operating system does with an
  operation is the argument \<open>fault\<close>; the JSON library is a pair of parameters \<open>to_vec\<close> and
  \<open>from_slice\<close>.
\<close>

section \<open>Ordered maps\<close>

fun bt_insert :: "'k::linorder \<Rightarrow> 'v \<Rightarrow> ('k \<times> 'v) list \<Rightarrow> ('k \<times> 'v) list" where
  "bt_insert k v [] = [(k, v)]"
| "bt_insert k v ((k', v') # es) =
     (if k < k' then (k, v) # (k', v') # es
      else if k = k' then (k, v) # es
      else (k', v') # bt_insert k v es)"

definition bt_range_from :: "'k::linorder \<Rightarrow> ('k \<times> 'v) list \<Rightarrow> ('k \<times> 'v) list" where
  "bt_range_from k es = filter (\<lambda>e. k \<le> fst e) es"

definition bt_last :: "('k \<times> 'v) list \<Rightarrow> 'v option" where
  "bt_last es = (if es = [] then None else Some (snd (last es)))"

definition bt_wf :: "('k::linorder \<times> 'v) list \<Rightarrow> bool" where
  "bt_wf es \<longleftrightarrow> sorted_wrt (<) (map fst es)"

section \<open>The memory store\<close>

datatype io_kind = Io_NotFound | Io_PermissionDenied | Io_Other nat

record checkpoint =
  cp_sync :: u32
  cp_file_offset :: u64
  cp_data_bytes :: u64
  cp_articles :: u64

definition checkpoint_default :: checkpoint where
  "checkpoint_default = \<lparr>cp_sync = 0, cp_file_offset = 0, cp_data_bytes = 0, cp_articles = 0\<rparr>"

record memory_checkpoints =
  mc_points :: "(u32 \<times> checkpoint) list"
  mc_acknowledged :: u32

definition mc_new :: memory_checkpoints where
  "mc_new = \<lparr>mc_points = [], mc_acknowledged = 0\<rparr>"

definition mc_all :: "memory_checkpoints \<Rightarrow> checkpoint list" where
  "mc_all m = map snd (mc_points m)"

definition mc_record :: "checkpoint \<Rightarrow> memory_checkpoints \<Rightarrow> (io_kind, unit) result \<times> memory_checkpoints" where
  "mc_record cp m = (Inr (), m\<lparr>mc_points := bt_insert (cp_sync cp) cp (mc_points m)\<rparr>)"

definition mc_get :: "u32 \<Rightarrow> memory_checkpoints \<Rightarrow> checkpoint option" where
  "mc_get sync m = (if sync = 0 then Some checkpoint_default else map_of (mc_points m) sync)"

definition mc_last :: "memory_checkpoints \<Rightarrow> checkpoint option" where
  "mc_last m = bt_last (mc_points m)"

definition mc_last_acknowledged :: "memory_checkpoints \<Rightarrow> checkpoint option" where
  "mc_last_acknowledged m =
     (if mc_acknowledged m = 0 then None else map_of (mc_points m) (mc_acknowledged m))"

definition mc_acknowledge :: "u32 \<Rightarrow> memory_checkpoints \<Rightarrow> (io_kind, unit) result \<times> memory_checkpoints" where
  "mc_acknowledge sync m =
     (let m = m\<lparr>mc_acknowledged := max (mc_acknowledged m) sync\<rparr>
      in (Inr (), m\<lparr>mc_points := bt_range_from (mc_acknowledged m) (mc_points m)\<rparr>))"

definition mc_clear :: "memory_checkpoints \<Rightarrow> (io_kind, unit) result \<times> memory_checkpoints" where
  "mc_clear m = (Inr (), m\<lparr>mc_points := [], mc_acknowledged := 0\<rparr>)"

section \<open>The file store\<close>

datatype fault =
    No_Fault
  | Fault_CreateDir io_kind
  | Fault_Serialize
  | Fault_Write bytes io_kind
  | Fault_Rename io_kind
  | Fault_Remove io_kind
  | Fault_Read io_kind

record disk =
  dk_file :: "bytes option"
  dk_tmp :: "bytes option"

record file_checkpoints =
  fc_mem :: memory_checkpoints
  fc_disk :: disk

definition fc_open ::
    "(bytes \<Rightarrow> memory_checkpoints option) \<Rightarrow> fault \<Rightarrow> disk \<Rightarrow> (io_kind, file_checkpoints) result" where
  "fc_open from_slice fault d =
     (case fault of
        Fault_Read e \<Rightarrow> (if e = Io_NotFound then Inr \<lparr>fc_mem = mc_new, fc_disk = d\<rparr> else Inl e)
      | _ \<Rightarrow>
         (case dk_file d of
            Some data \<Rightarrow>
              Inr \<lparr>fc_mem = (case from_slice data of Some m \<Rightarrow> m | None \<Rightarrow> mc_new), fc_disk = d\<rparr>
          | None \<Rightarrow> Inr \<lparr>fc_mem = mc_new, fc_disk = d\<rparr>))"

definition fc_save ::
    "(memory_checkpoints \<Rightarrow> bytes) \<Rightarrow> fault \<Rightarrow> file_checkpoints \<Rightarrow> (io_kind, unit) result \<times> file_checkpoints" where
  "fc_save to_vec fault s =
     (case fault of
        Fault_CreateDir e \<Rightarrow> (Inl e, s)
      | Fault_Serialize \<Rightarrow> (Inl (Io_Other 0), s)
      | Fault_Write partial e \<Rightarrow> (Inl e, s\<lparr>fc_disk := (fc_disk s)\<lparr>dk_tmp := Some partial\<rparr>\<rparr>)
      | Fault_Rename e \<Rightarrow> (Inl e, s\<lparr>fc_disk := (fc_disk s)\<lparr>dk_tmp := Some (to_vec (fc_mem s))\<rparr>\<rparr>)
      | _ \<Rightarrow> (Inr (), s\<lparr>fc_disk := \<lparr>dk_file = Some (to_vec (fc_mem s)), dk_tmp = None\<rparr>\<rparr>))"

definition fc_record ::
    "(memory_checkpoints \<Rightarrow> bytes) \<Rightarrow> fault \<Rightarrow> checkpoint \<Rightarrow> file_checkpoints \<Rightarrow>
     (io_kind, unit) result \<times> file_checkpoints" where
  "fc_record to_vec fault cp s =
     (case mc_record cp (fc_mem s) of
        (Inl e, m) \<Rightarrow> (Inl e, s\<lparr>fc_mem := m\<rparr>)
      | (Inr _, m) \<Rightarrow> fc_save to_vec fault (s\<lparr>fc_mem := m\<rparr>))"

definition fc_get :: "u32 \<Rightarrow> file_checkpoints \<Rightarrow> checkpoint option" where
  "fc_get sync s = mc_get sync (fc_mem s)"

definition fc_last :: "file_checkpoints \<Rightarrow> checkpoint option" where
  "fc_last s = mc_last (fc_mem s)"

definition fc_last_acknowledged :: "file_checkpoints \<Rightarrow> checkpoint option" where
  "fc_last_acknowledged s = mc_last_acknowledged (fc_mem s)"

definition fc_acknowledge ::
    "(memory_checkpoints \<Rightarrow> bytes) \<Rightarrow> fault \<Rightarrow> u32 \<Rightarrow> file_checkpoints \<Rightarrow>
     (io_kind, unit) result \<times> file_checkpoints" where
  "fc_acknowledge to_vec fault sync s =
     (case mc_acknowledge sync (fc_mem s) of
        (Inl e, m) \<Rightarrow> (Inl e, s\<lparr>fc_mem := m\<rparr>)
      | (Inr _, m) \<Rightarrow> fc_save to_vec fault (s\<lparr>fc_mem := m\<rparr>))"

definition fc_clear :: "fault \<Rightarrow> file_checkpoints \<Rightarrow> (io_kind, unit) result \<times> file_checkpoints" where
  "fc_clear fault s =
     (case mc_clear (fc_mem s) of
        (Inl e, m) \<Rightarrow> (Inl e, s\<lparr>fc_mem := m\<rparr>)
      | (Inr _, m) \<Rightarrow>
         (let s = s\<lparr>fc_mem := m\<rparr> in
          case fault of
            Fault_Remove e \<Rightarrow> (if e = Io_NotFound then (Inr (), s) else (Inl e, s))
          | _ \<Rightarrow> (Inr (), s\<lparr>fc_disk := (fc_disk s)\<lparr>dk_file := None\<rparr>\<rparr>)))"

section \<open>Laws of ordered maps\<close>

lemma set_bt_insert: "set (map fst (bt_insert k v es)) = insert k (set (map fst es))"
  by (induction k v es rule: bt_insert.induct) auto

lemma bt_wf_insert: "bt_wf es \<Longrightarrow> bt_wf (bt_insert k v es)"
proof (induction k v es rule: bt_insert.induct)
  case (2 k v k' v' es)
  then have IH: "bt_wf (bt_insert k v es)" and k': "\<forall>x\<in>set (map fst es). k' < x"
    if "\<not> k < k'" "k \<noteq> k'"
    using that by (auto simp: bt_wf_def)
  consider "k < k'" | "k = k'" | "k' < k" by (rule linorder_cases)
  then show ?case
  proof cases
    case 3
    then have "\<not> k < k'" "k \<noteq> k'" by auto
    moreover from this have "\<forall>x\<in>set (map fst (bt_insert k v es)). k' < x"
      using k' 3 unfolding set_bt_insert by simp
    ultimately show ?thesis using IH by (simp add: bt_wf_def)
  qed (use 2(2) in \<open>auto simp: bt_wf_def\<close>)
qed (simp add: bt_wf_def)

lemma map_of_bt_insert: "map_of (bt_insert k v es) = (map_of es)(k \<mapsto> v)"
  by (induction k v es rule: bt_insert.induct) (auto simp: fun_eq_iff)

lemma bt_wf_range_from: "bt_wf es \<Longrightarrow> bt_wf (bt_range_from k es)"
  by (induction es) (auto simp: bt_wf_def bt_range_from_def)

lemma map_of_bt_range_from: "map_of (bt_range_from k es) n = (if k \<le> n then map_of es n else None)"
  by (induction es) (auto simp: bt_range_from_def)

lemma bt_last_Some:
  assumes "bt_wf es" and "bt_last es = Some v"
  obtains k where "map_of es k = Some v" "\<And>n. map_of es n \<noteq> None \<Longrightarrow> n \<le> k"
proof -
  from assms(2) obtain xs k where es: "es = xs @ [(k, v)]"
    by (cases es rule: rev_cases) (auto simp: bt_last_def split: if_splits)
  with assms(1) have less: "\<forall>x\<in>set (map fst xs). x < k"
    by (simp add: bt_wf_def sorted_wrt_append)
  have "n \<le> k" if "map_of es n \<noteq> None" for n
    using that less by (auto simp: es map_add_def dest!: map_of_SomeD split: option.splits if_splits)
  moreover from less have "map_of xs k = None" by (force simp: map_of_eq_None_iff)
  then have "map_of es k = Some v" by (simp add: es map_add_def)
  ultimately show ?thesis using that by blast
qed


section \<open>The contract of a store\<close>

text \<open>
  The laws the data path relies on, for operations that succeed; \<open>acked\<close> is the highest
  acknowledged number. An acknowledgement forgets the points below it.
\<close>

locale checkpoint_store =
  fixes store_inv :: "'s \<Rightarrow> bool"
    and acked :: "'s \<Rightarrow> u32"
    and record_cp :: "checkpoint \<Rightarrow> 's \<Rightarrow> ('e, unit) result \<times> 's"
    and get_cp :: "u32 \<Rightarrow> 's \<Rightarrow> checkpoint option"
    and last_cp :: "'s \<Rightarrow> checkpoint option"
    and last_acked :: "'s \<Rightarrow> checkpoint option"
    and acknowledge_cp :: "u32 \<Rightarrow> 's \<Rightarrow> ('e, unit) result \<times> 's"
    and clear_cp :: "'s \<Rightarrow> ('e, unit) result \<times> 's"
  assumes inv_record: "store_inv s \<Longrightarrow> store_inv (snd (record_cp cp s))"
    and inv_acknowledge: "store_inv s \<Longrightarrow> store_inv (snd (acknowledge_cp n s))"
    and inv_clear: "store_inv s \<Longrightarrow> store_inv (snd (clear_cp s))"
    and get_start: "get_cp 0 s = Some checkpoint_default"
    and get_sync: "store_inv s \<Longrightarrow> get_cp n s = Some cp \<Longrightarrow> cp_sync cp = n"
    and get_record: "store_inv s \<Longrightarrow> record_cp cp s = (Inr (), s') \<Longrightarrow> n \<noteq> 0 \<Longrightarrow>
      get_cp n s' = (if n = cp_sync cp then Some cp else get_cp n s)"
    and acked_record: "record_cp cp s = (Inr (), s') \<Longrightarrow> acked s' = acked s"
    and get_acknowledge: "store_inv s \<Longrightarrow> acknowledge_cp m s = (Inr (), s') \<Longrightarrow> n \<noteq> 0 \<Longrightarrow>
      get_cp n s' = (if max (acked s) m \<le> n then get_cp n s else None)"
    and acked_acknowledge: "acknowledge_cp m s = (Inr (), s') \<Longrightarrow> acked s' = max (acked s) m"
    and get_clear: "clear_cp s = (Inr (), s') \<Longrightarrow> n \<noteq> 0 \<Longrightarrow> get_cp n s' = None"
    and last_acked_get: "last_acked s = (if acked s = 0 then None else get_cp (acked s) s)"
    and last_None: "last_cp s = None \<Longrightarrow> n \<noteq> 0 \<Longrightarrow> get_cp n s = None"
    and last_Some: "store_inv s \<Longrightarrow> last_cp s = Some cp \<Longrightarrow> cp_sync cp \<noteq> 0 \<Longrightarrow>
      get_cp (cp_sync cp) s = Some cp \<and> (\<forall>n. get_cp n s \<noteq> None \<longrightarrow> n \<le> cp_sync cp)"
begin

text \<open>Recording ever higher numbers keeps the last one at hand.\<close>

lemma last_after_record:
  assumes "store_inv s" and "record_cp cp s = (Inr (), s')" and "cp_sync cp \<noteq> 0"
    and "\<And>n. get_cp n s \<noteq> None \<Longrightarrow> n \<le> cp_sync cp"
    and "last_cp s' = Some cp'" and "cp_sync cp' \<noteq> 0"
  shows "cp' = cp"
proof -
  have inv: "store_inv s'" using inv_record [OF assms(1), of cp] assms(2) by simp
  note l = conjunct1 [OF last_Some [OF inv assms(5,6)]] conjunct2 [OF last_Some [OF inv assms(5,6)]]
  have "get_cp (cp_sync cp) s' = Some cp" using get_record [OF assms(1-3)] by simp
  with l have le: "cp_sync cp \<le> cp_sync cp'" by auto
  have "cp' = cp \<or> get_cp (cp_sync cp') s = Some cp'"
  proof (cases "cp_sync cp' = cp_sync cp")
    case True
    with l(1) \<open>get_cp (cp_sync cp) s' = Some cp\<close> show ?thesis by (metis option.inject)
  next
    case False
    with l(1) get_record [OF assms(1,2,6)] show ?thesis by metis
  qed
  then show ?thesis
  proof
    assume a: "get_cp (cp_sync cp') s = Some cp'"
    then have "cp_sync cp' \<le> cp_sync cp" using assms(4) by simp
    with le have "cp_sync cp' = cp_sync cp" by simp
    with l(1) \<open>get_cp (cp_sync cp) s' = Some cp\<close> show ?thesis by (metis option.inject)
  qed blast
qed

text \<open>
  An acknowledged point, and every later one, can still be used for a restart.
\<close>

lemma restart_after_acknowledge:
  assumes "store_inv s" and "acknowledge_cp m s = (Inr (), s')" and "acked s \<le> m" and "m \<le> n"
    and "get_cp n s = Some cp"
  shows "get_cp n s' = Some cp"
proof (cases "n = 0")
  case True
  with assms(5) show ?thesis by (simp add: get_start)
next
  case False
  with get_acknowledge [OF assms(1,2)] assms(3-5) show ?thesis by simp
qed

lemma last_acked_after_acknowledge:
  assumes "store_inv s" and "acknowledge_cp m s = (Inr (), s')" and "acked s \<le> m" and "m \<noteq> 0"
    and "get_cp m s = Some cp"
  shows "last_acked s' = Some cp"
proof -
  have "acked s' = m" using acked_acknowledge [OF assms(2)] assms(3) by simp
  moreover have "get_cp m s' = Some cp"
    using restart_after_acknowledge [OF assms(1,2,3) order.refl assms(5)] .
  ultimately show ?thesis using assms(4) by (simp add: last_acked_get)
qed

end

definition mc_wf :: "memory_checkpoints \<Rightarrow> bool" where
  "mc_wf m \<longleftrightarrow> bt_wf (mc_points m) \<and> list_all (\<lambda>(k, cp). cp_sync cp = k) (mc_points m)"

lemma bt_insert_keys:
  "list_all (\<lambda>(k, cp). cp_sync cp = k) es \<Longrightarrow> list_all (\<lambda>(k, cp). cp_sync cp = k) (bt_insert (cp_sync cp) cp es)"
  by (induction "cp_sync cp" cp es rule: bt_insert.induct) auto

lemma mc_wf_record: "mc_wf m \<Longrightarrow> mc_wf (snd (mc_record cp m))"
  by (simp add: mc_wf_def mc_record_def bt_wf_insert bt_insert_keys)

lemma bt_range_from_keys: "list_all P es \<Longrightarrow> list_all P (bt_range_from k es)"
  by (auto simp: bt_range_from_def list_all_iff)

lemma mc_wf_acknowledge: "mc_wf m \<Longrightarrow> mc_wf (snd (mc_acknowledge n m))"
  by (simp add: mc_wf_def mc_acknowledge_def Let_def bt_wf_range_from bt_range_from_keys)

lemma mc_wf_clear: "mc_wf (snd (mc_clear m))"
  by (simp add: mc_wf_def mc_clear_def bt_wf_def)

lemma mc_get_sync: "mc_wf m \<Longrightarrow> mc_get n m = Some cp \<Longrightarrow> cp_sync cp = n"
  by (auto simp: mc_wf_def mc_get_def checkpoint_default_def list_all_iff dest!: map_of_SomeD
      split: if_splits)

lemma mc_last_Some:
  assumes "mc_wf m" and "mc_last m = Some cp" and "cp_sync cp \<noteq> 0"
  shows "mc_get (cp_sync cp) m = Some cp \<and> (\<forall>n. mc_get n m \<noteq> None \<longrightarrow> n \<le> cp_sync cp)"
proof -
  from assms(1,2) obtain k where k: "map_of (mc_points m) k = Some cp"
    "\<And>n. map_of (mc_points m) n \<noteq> None \<Longrightarrow> n \<le> k"
    by (auto simp: mc_wf_def mc_last_def elim: bt_last_Some)
  from k(1) assms(1) have "k = cp_sync cp"
    by (auto simp: mc_wf_def list_all_iff dest!: map_of_SomeD)
  with k assms(3) show ?thesis by (auto simp: mc_get_def)
qed

lemma mc_last_None: "mc_last m = None \<Longrightarrow> n \<noteq> 0 \<Longrightarrow> mc_get n m = None"
  by (simp add: mc_last_def bt_last_def mc_get_def split: if_splits)

interpretation memory_store: checkpoint_store mc_wf mc_acknowledged mc_record mc_get mc_last
  mc_last_acknowledged mc_acknowledge mc_clear
  by unfold_locales
    (auto simp: mc_wf_record mc_wf_acknowledge mc_wf_clear mc_get_sync mc_last_Some mc_last_None,
     auto simp: mc_record_def mc_acknowledge_def mc_clear_def mc_get_def mc_last_acknowledged_def
       map_of_bt_insert map_of_bt_range_from Let_def)


lemma fc_save_mem [simp]: "fc_mem (snd (fc_save to_vec fault s)) = fc_mem s"
  by (simp add: fc_save_def split: fault.split)

lemma fc_record_mem [simp]: "fc_mem (snd (fc_record to_vec fault cp s)) = snd (mc_record cp (fc_mem s))"
  by (simp add: fc_record_def mc_record_def)

lemma fc_acknowledge_mem [simp]:
  "fc_mem (snd (fc_acknowledge to_vec fault n s)) = snd (mc_acknowledge n (fc_mem s))"
  by (simp add: fc_acknowledge_def mc_acknowledge_def Let_def)

lemma fc_clear_mem [simp]: "fc_mem (snd (fc_clear fault s)) = snd (mc_clear (fc_mem s))"
  by (auto simp: fc_clear_def mc_clear_def Let_def split: fault.split)

lemma fc_memD:
  "fc_record to_vec fault cp s = (r, s') \<Longrightarrow> fc_mem s' = snd (mc_record cp (fc_mem s))"
  "fc_acknowledge to_vec fault n s = (r, s') \<Longrightarrow> fc_mem s' = snd (mc_acknowledge n (fc_mem s))"
  "fc_clear fault s = (r, s') \<Longrightarrow> fc_mem s' = snd (mc_clear (fc_mem s))"
  by (metis fc_record_mem snd_conv, metis fc_acknowledge_mem snd_conv, metis fc_clear_mem snd_conv)

lemma mc_record_ok: "mc_record cp m = (Inr (), snd (mc_record cp m))"
  by (simp add: mc_record_def)

lemma mc_acknowledge_ok: "mc_acknowledge n m = (Inr (), snd (mc_acknowledge n m))"
  by (simp add: mc_acknowledge_def Let_def)

lemma mc_clear_ok: "mc_clear m = (Inr (), snd (mc_clear m))"
  by (simp add: mc_clear_def)

text \<open>The file store answers from its memory store, so it inherits the contract.\<close>

interpretation file_store: checkpoint_store "\<lambda>s. mc_wf (fc_mem s)" "\<lambda>s. mc_acknowledged (fc_mem s)"
  "fc_record to_vec fault" fc_get fc_last fc_last_acknowledged "fc_acknowledge to_vec fault" "fc_clear fault"
  for to_vec fault
  by unfold_locales
    (auto simp: mc_wf_record mc_wf_acknowledge mc_wf_clear fc_get_def fc_last_def fc_last_acknowledged_def
      mc_get_sync mc_last_None mc_last_Some memory_store.get_start memory_store.last_acked_get
      memory_store.get_record [OF _ mc_record_ok] memory_store.acked_record [OF mc_record_ok]
      memory_store.get_acknowledge [OF _ mc_acknowledge_ok] memory_store.get_clear [OF mc_clear_ok]
      memory_store.acked_acknowledge [OF mc_acknowledge_ok] dest!: fc_memD)

section \<open>The memory store as an abstract map\<close>

datatype store_op = Op_Record checkpoint | Op_Acknowledge u32 | Op_Clear

fun mc_apply :: "store_op \<Rightarrow> memory_checkpoints \<Rightarrow> memory_checkpoints" where
  "mc_apply (Op_Record cp) m = snd (mc_record cp m)"
| "mc_apply (Op_Acknowledge n) m = snd (mc_acknowledge n m)"
| "mc_apply Op_Clear m = snd (mc_clear m)"

text \<open>The abstract store: the known points as a partial map, and the highest acknowledged number.\<close>

type_synonym abstract_store = "(u32 \<rightharpoonup> checkpoint) \<times> u32"

fun spec_apply :: "store_op \<Rightarrow> abstract_store \<Rightarrow> abstract_store" where
  "spec_apply (Op_Record cp) (points, a) = (points(cp_sync cp \<mapsto> cp), a)"
| "spec_apply (Op_Acknowledge n) (points, a) = (points |` {max a n..}, max a n)"
| "spec_apply Op_Clear (points, a) = (Map.empty, 0)"

definition store_abs :: "memory_checkpoints \<Rightarrow> abstract_store" where
  "store_abs m = (map_of (mc_points m), mc_acknowledged m)"

lemma store_abs_apply: "store_abs (mc_apply op m) = spec_apply op (store_abs m)"
  by (cases op)
    (auto simp: store_abs_def mc_record_def mc_acknowledge_def mc_clear_def Let_def map_of_bt_insert
      map_of_bt_range_from restrict_map_def fun_eq_iff)

lemma mc_wf_apply: "mc_wf m \<Longrightarrow> mc_wf (mc_apply op m)"
  by (cases op) (simp_all add: mc_wf_record mc_wf_acknowledge mc_wf_clear)

lemma store_abs_run: "store_abs (fold mc_apply ops m) = fold spec_apply ops (store_abs m)"
  by (induction ops arbitrary: m) (simp_all add: store_abs_apply)

lemma mc_wf_run: "mc_wf m \<Longrightarrow> mc_wf (fold mc_apply ops m)"
  by (induction ops arbitrary: m) (simp_all add: mc_wf_apply)

lemma bt_last_Max:
  assumes "bt_wf es"
  shows "bt_last es = (if dom (map_of es) = {} then None else map_of es (Max (dom (map_of es))))"
proof (cases "bt_last es")
  case None
  then show ?thesis by (auto simp: bt_last_def split: if_splits)
next
  case (Some v)
  obtain k where k: "map_of es k = Some v" "\<And>n. map_of es n \<noteq> None \<Longrightarrow> n \<le> k"
    using bt_last_Some [OF assms Some] by metis
  then have "Max (dom (map_of es)) = k"
    by (intro Max_eqI) (auto simp: finite_dom_map_of)
  with k(1) Some show ?thesis by auto
qed

text \<open>the memory store implements the abstract store. After any sequence of recordings,
  acknowledgements and clearings of a new store, looking a number up, asking for the last point and
  asking for the last acknowledged point give what the abstract map gives: zero is the beginning of
  the file, the last point is the one with the greatest number, and points below the highest
  acknowledged number are forgotten.\<close>

theorem memory_checkpoints_refine:
  "let m = fold mc_apply ops mc_new; (points, a) = fold spec_apply ops (Map.empty, 0) in
    mc_get n m = (if n = 0 then Some checkpoint_default else points n) \<and>
    mc_last m = (if dom points = {} then None else points (Max (dom points))) \<and>
    mc_last_acknowledged m = (if a = 0 then None else points a)"
proof -
  let ?m = "fold mc_apply ops mc_new"
  have "store_abs mc_new = (Map.empty, 0)" by (simp add: store_abs_def mc_new_def)
  then have "fold spec_apply ops (Map.empty, 0) = (map_of (mc_points ?m), mc_acknowledged ?m)"
    using store_abs_run [of ops mc_new] by (simp add: store_abs_def)
  moreover have "bt_wf (mc_points ?m)"
    using mc_wf_run [of mc_new ops] by (simp add: mc_wf_def mc_new_def bt_wf_def)
  ultimately show ?thesis
    by (simp add: mc_get_def mc_last_def mc_last_acknowledged_def bt_last_Max)
qed

section \<open>The file store survives a crash\<close>

fun fc_apply ::
    "(memory_checkpoints \<Rightarrow> bytes) \<Rightarrow> fault \<Rightarrow> store_op \<Rightarrow> file_checkpoints \<Rightarrow>
     (io_kind, unit) result \<times> file_checkpoints" where
  "fc_apply to_vec fault (Op_Record cp) s = fc_record to_vec fault cp s"
| "fc_apply to_vec fault (Op_Acknowledge n) s = fc_acknowledge to_vec fault n s"
| "fc_apply to_vec fault Op_Clear s = fc_clear fault s"

text \<open>
  A run of operations, each with its fault, next to the memory as of the last operation that
  reported success.
\<close>

fun fc_run ::
    "(memory_checkpoints \<Rightarrow> bytes) \<Rightarrow> (store_op \<times> fault) list \<Rightarrow> file_checkpoints \<times> memory_checkpoints \<Rightarrow>
     file_checkpoints \<times> memory_checkpoints" where
  "fc_run to_vec [] p = p"
| "fc_run to_vec ((op, fault) # ops) (s, saved) =
     (case fc_apply to_vec fault op s of
        (Inl _, s') \<Rightarrow> fc_run to_vec ops (s', saved)
      | (Inr _, s') \<Rightarrow> fc_run to_vec ops (s', fc_mem s'))"

definition stored :: "(bytes \<Rightarrow> memory_checkpoints option) \<Rightarrow> disk \<Rightarrow> memory_checkpoints \<Rightarrow> bool" where
  "stored from_slice d m \<longleftrightarrow> fc_open from_slice No_Fault d = Inr \<lparr>fc_mem = m, fc_disk = d\<rparr>"

lemma fc_apply_stored:
  assumes "\<And>m. from_slice (to_vec m) = Some m" and "stored from_slice (fc_disk s) saved"
    and "fault \<noteq> Fault_Remove Io_NotFound"
  shows "case fc_apply to_vec fault op s of
      (Inl _, s') \<Rightarrow> stored from_slice (fc_disk s') saved
    | (Inr _, s') \<Rightarrow> stored from_slice (fc_disk s') (fc_mem s')"
  using assms
  by (cases op; cases fault)
    (auto simp: stored_def fc_open_def fc_record_def fc_acknowledge_def fc_clear_def fc_save_def
      mc_record_def mc_acknowledge_def mc_clear_def mc_new_def Let_def split: option.splits)

lemma fc_run_stored:
  assumes "\<And>m. from_slice (to_vec m) = Some m" and "stored from_slice (fc_disk s) saved"
    and "\<forall>(op, fault)\<in>set ops. fault \<noteq> Fault_Remove Io_NotFound"
  shows "stored from_slice (fc_disk (fst (fc_run to_vec ops (s, saved)))) (snd (fc_run to_vec ops (s, saved)))"
  using assms(2,3)
proof (induction ops arbitrary: s saved)
  case (Cons opf ops)
  obtain op fault where opf: "opf = (op, fault)" by (cases opf)
  obtain r s' where r: "fc_apply to_vec fault op s = (r, s')" by (cases "fc_apply to_vec fault op s")
  have "case r of Inl _ \<Rightarrow> stored from_slice (fc_disk s') saved
      | Inr _ \<Rightarrow> stored from_slice (fc_disk s') (fc_mem s')"
    using fc_apply_stored [where op = op, OF assms(1) Cons.prems(1), of fault] Cons.prems(2)
    by (simp add: opf r split: sum.splits)
  with Cons.IH Cons.prems(2) show ?case by (cases r) (auto simp: opf r)
qed simp

text \<open>C37: the file store is crash safe. Whatever operations are performed, whatever faults the file
  system raises in them (creating the directory, writing the temporary file in part, renaming it,
  removing the file), opening the store again gives the points as of the last operation that
  reported success, provided the JSON library reads back what it wrote.\<close>

theorem file_checkpoints_durable:
  assumes "\<And>m. from_slice (to_vec m) = Some m"
    and "fc_open from_slice No_Fault d = Inr s"
    and "\<forall>(op, fault)\<in>set ops. fault \<noteq> Fault_Remove Io_NotFound"
    and "fc_run to_vec ops (s, fc_mem s) = (s', saved)"
  shows "\<exists>s''. fc_open from_slice No_Fault (fc_disk s') = Inr s'' \<and> fc_mem s'' = saved"
proof -
  have "stored from_slice (fc_disk s) (fc_mem s)"
    using assms(2) by (auto simp: stored_def fc_open_def split: option.splits)
  from fc_run_stored [OF assms(1) this assms(3)] assms(4)
  show ?thesis by (auto simp: stored_def)
qed


subsection \<open>A concrete serialisation\<close>

text \<open>
  A serialiser with the property assumed of the JSON library, to show that it can hold: every number
  as eight bytes.
\<close>

definition point_words :: "u32 \<times> checkpoint \<Rightarrow> u64 list" where
  "point_words p = [ucast (fst p), ucast (cp_sync (snd p)), cp_file_offset (snd p), cp_data_bytes (snd p),
     cp_articles (snd p)]"

fun words_points :: "u64 list \<Rightarrow> (u32 \<times> checkpoint) list" where
  "words_points (k # s # f # d # a # ws) =
     (ucast k, \<lparr>cp_sync = ucast s, cp_file_offset = f, cp_data_bytes = d, cp_articles = a\<rparr>) # words_points ws"
| "words_points _ = []"

fun bytes_words :: "bytes \<Rightarrow> u64 list" where
  "bytes_words (b0 # b1 # b2 # b3 # b4 # b5 # b6 # b7 # bs) =
     decode_num [b0, b1, b2, b3, b4, b5, b6, b7] # bytes_words bs"
| "bytes_words _ = []"

definition plain_to_vec :: "memory_checkpoints \<Rightarrow> bytes" where
  "plain_to_vec m =
     concat (map to_be_bytes64 (ucast (mc_acknowledged m) # concat (map point_words (mc_points m))))"

definition plain_from_slice :: "bytes \<Rightarrow> memory_checkpoints option" where
  "plain_from_slice bs =
     (case bytes_words bs of
        [] \<Rightarrow> None
      | a # ws \<Rightarrow> Some \<lparr>mc_points = words_points ws, mc_acknowledged = ucast a\<rparr>)"

lemma bytes_words_emit: "bytes_words (concat (map to_be_bytes64 ws)) = ws"
proof (induction ws)
  case (Cons w ws)
  obtain b0 b1 b2 b3 b4 b5 b6 b7 where b: "to_be_bytes64 w = [b0, b1, b2, b3, b4, b5, b6, b7]"
    by (simp add: to_be_bytes64_def)
  from Cons decode_num_to_be_bytes64 [of w] show ?case by (simp add: b)
qed simp

lemma words_points_emit: "words_points (concat (map point_words ps)) = ps"
  by (induction ps) (auto simp: point_words_def ucast_up_down)

lemma plain_from_to: "plain_from_slice (plain_to_vec m) = Some m"
  unfolding plain_from_slice_def plain_to_vec_def bytes_words_emit
  by (simp add: words_points_emit ucast_up_down)

definition sample_point :: checkpoint where
  "sample_point = \<lparr>cp_sync = 1, cp_file_offset = 100, cp_data_bytes = 90, cp_articles = 3\<rparr>"

text \<open>One point recorded, then an acknowledgement whose temporary file is only written in part.\<close>

theorem file_checkpoints_durable_witness:
  "\<exists>s''. fc_open plain_from_slice No_Fault
     (fc_disk (fst (fc_run plain_to_vec
        [(Op_Record sample_point, No_Fault), (Op_Acknowledge 1, Fault_Write [0] (Io_Other 28))]
        (\<lparr>fc_mem = mc_new, fc_disk = \<lparr>dk_file = None, dk_tmp = None\<rparr>\<rparr>, mc_new)))) = Inr s'' \<and>
     fc_mem s'' = \<lparr>mc_points = [(1, sample_point)], mc_acknowledged = 0\<rparr>"
  by (rule file_checkpoints_durable [where to_vec = plain_to_vec and
        d = "\<lparr>dk_file = None, dk_tmp = None\<rparr>" and s = "\<lparr>fc_mem = mc_new, fc_disk = \<lparr>dk_file = None, dk_tmp = None\<rparr>\<rparr>"
        and ops = "[(Op_Record sample_point, No_Fault), (Op_Acknowledge 1, Fault_Write [0] (Io_Other 28))]"])
    (auto simp: plain_from_to fc_open_def fc_record_def fc_acknowledge_def fc_save_def mc_record_def
      mc_acknowledge_def mc_new_def sample_point_def Let_def)

text \<open>
  Acknowledging a number below one that was acknowledged before forgets the new point: the numbers
  must not start again below an acknowledged one.
\<close>

lemma renumbered_point_forgotten:
  "mc_get 1 (fold mc_apply [Op_Acknowledge 5, Op_Record sample_point, Op_Acknowledge 1] mc_new) = None"
  by (simp add: mc_get_def mc_record_def mc_acknowledge_def mc_new_def sample_point_def Let_def bt_range_from_def
      word_le_nat_alt max_def)

end
