(* ===== verification/Article_Io.thy ===== *)
theory Article_Io
  imports Checkpoint Article_Cut Ebcdic
begin

text \<open>
  \<^verbatim>\<open>crates/pesit-io/src/io.rs\<close>: the article sources and sinks, on files and in memory. What the
  operating system answers is a script of results (\<open>os_result\<close>) consumed by one system call each:
  success, for a read with the number of bytes it returned, or an error. An exhausted script
  answers with success and full reads. A call that fails leaves the file unchanged.
\<close>

section \<open>Positions and the operating system\<close>

datatype io_error = Io_Kind io_kind | Io_InvalidData record_error

record io_position =
  po_file_offset :: u64
  po_data_bytes :: u64
  po_articles :: u64

definition position_default :: io_position where
  "position_default = \<lparr>po_file_offset = 0, po_data_bytes = 0, po_articles = 0\<rparr>"

datatype os_result = Os_Ok usize | Os_Err io_kind

definition IO_BUF :: usize where
  "IO_BUF = 65536"

definition os_call :: "os_result list \<Rightarrow> (io_error, usize) result \<times> os_result list" where
  "os_call script =
     (case script of
        [] \<Rightarrow> (Inr IO_BUF, [])
      | Os_Ok n # rest \<Rightarrow> (Inr n, rest)
      | Os_Err e # rest \<Rightarrow> (Inl (Io_Kind e), rest))"

record os_file =
  of_data :: bytes
  of_cursor :: usize

definition os_write :: "bytes \<Rightarrow> os_file \<Rightarrow> os_file" where
  "os_write bs f =
     (let d = of_data f; d = d @ replicate (of_cursor f - length d) 0
      in f\<lparr>of_data := take (of_cursor f) d @ bs @ drop (of_cursor f + length bs) d,
           of_cursor := of_cursor f + length bs\<rparr>)"

definition os_set_len :: "usize \<Rightarrow> os_file \<Rightarrow> os_file" where
  "os_set_len n f = f\<lparr>of_data := take n (of_data f) @ replicate (n - length (of_data f)) 0\<rparr>"

definition os_seek :: "usize \<Rightarrow> os_file \<Rightarrow> os_file" where
  "os_seek n f = f\<lparr>of_cursor := n\<rparr>"

section \<open>File source\<close>

record file_source =
  fr_file :: bytes
  fr_rest :: bytes
  fr_script :: "os_result list"
  fr_format :: record_format
  fr_record_len :: usize
  fr_cutter :: article_cutter
  fr_pos :: io_position
  fr_file_pos :: u64
  fr_eof :: bool
  fr_size :: u64
  fr_ebcdic :: bool

text \<open>The file is given by its bytes, \<open>None\<close> when it cannot be opened.\<close>

definition source_open ::
    "(io_kind, bytes) result \<Rightarrow> record_format \<Rightarrow> usize \<Rightarrow> os_result list \<Rightarrow> (io_error, file_source) result" where
  "source_open file format record_len script =
     and_then (map_err Io_Kind file) (\<lambda>data.
     and_then (fst (os_call script)) (\<lambda>_.
       Inr \<lparr>fr_file = data, fr_rest = data, fr_script = snd (os_call script), fr_format = format,
            fr_record_len = record_len, fr_cutter = cutter_new format record_len,
            fr_pos = position_default, fr_file_pos = 0, fr_eof = False,
            fr_size = word_of_nat (length data), fr_ebcdic = False\<rparr>))"

definition source_with_ebcdic :: "bool \<Rightarrow> file_source \<Rightarrow> file_source" where
  "source_with_ebcdic e s = s\<lparr>fr_ebcdic := e\<rparr>"

definition source_fill :: "file_source \<Rightarrow> (io_error, bool) result \<times> file_source" where
  "source_fill s =
     (case os_call (fr_script s) of
        (Inl e, script) \<Rightarrow> (Inl e, s\<lparr>fr_script := script\<rparr>)
      | (Inr got, script) \<Rightarrow>
         (let s = s\<lparr>fr_script := script\<rparr>;
              buf = take (min (max got 1) IO_BUF) (fr_rest s)
          in if buf = [] then (Inr False, s\<lparr>fr_eof := True\<rparr>)
             else (Inr True,
                s\<lparr>fr_cutter := cutter_push buf (fr_cutter s),
                  fr_rest := drop (length buf) (fr_rest s),
                  fr_file_pos := fr_file_pos s + word_of_nat (length buf)\<rparr>)))"

definition source_took :: "bytes \<Rightarrow> u64 \<Rightarrow> file_source \<Rightarrow> bytes \<times> file_source" where
  "source_took a offset s =
     (if fr_ebcdic s then to_ebcdic a else a,
      s\<lparr>fr_pos := \<lparr>po_file_offset = offset,
                   po_data_bytes = po_data_bytes (fr_pos s) + word_of_nat (length a),
                   po_articles = po_articles (fr_pos s) + 1\<rparr>\<rparr>)"

lemma source_fill_shorter:
  "source_fill s = (Inr b, s') \<Longrightarrow> \<not> fr_eof s \<Longrightarrow>
    length (fr_rest s') + (if fr_eof s' then 0 else 1) < length (fr_rest s) + 1"
  by (auto simp: source_fill_def IO_BUF_def Let_def split: prod.splits sum.splits if_splits)

lemma source_fill_eof: "source_fill s = (r, s') \<Longrightarrow> fr_eof s \<Longrightarrow> fr_eof s'"
  by (auto simp: source_fill_def Let_def split: prod.splits sum.splits if_splits)

function source_next :: "file_source \<Rightarrow> (io_error, bytes option) result \<times> file_source" where
  "source_next s =
     (case next_article (fr_cutter s) of
        Inl e \<Rightarrow> (Inl (Io_InvalidData e), s)
      | Inr (Some a, c) \<Rightarrow>
         (let s = s\<lparr>fr_cutter := c\<rparr>;
              (a, s) = source_took a (fr_file_pos s - word_of_nat (cutter_buffered c)) s
          in (Inr (Some a), s))
      | Inr (None, c) \<Rightarrow>
         (let s = s\<lparr>fr_cutter := c\<rparr> in
          if fr_eof s then
            (case cutter_finish (fr_cutter s) of
               (Inl e, c) \<Rightarrow> (Inl (Io_InvalidData e), s\<lparr>fr_cutter := c\<rparr>)
             | (Inr None, c) \<Rightarrow> (Inr None, s\<lparr>fr_cutter := c\<rparr>)
             | (Inr (Some a), c) \<Rightarrow>
                (let s = s\<lparr>fr_cutter := c\<rparr>;
                     (a, s) = source_took a (fr_file_pos s) s
                 in (Inr (Some a), s)))
          else
            (case source_fill s of
               (Inl e, s') \<Rightarrow> (Inl e, s')
             | (Inr _, s') \<Rightarrow> source_next s')))"
  by pat_completeness auto
termination
  by (relation "measure (\<lambda>s. length (fr_rest s) + (if fr_eof s then 0 else 1))")
    (auto dest!: source_fill_shorter [OF sym])

declare source_next.simps [simp del]

definition source_position :: "file_source \<Rightarrow> io_position" where
  "source_position s = fr_pos s"

definition source_rewind :: "io_position \<Rightarrow> file_source \<Rightarrow> (io_error, unit) result \<times> file_source" where
  "source_rewind pos s =
     (case os_call (fr_script s) of
        (Inl e, script) \<Rightarrow> (Inl e, s\<lparr>fr_script := script\<rparr>)
      | (Inr _, script) \<Rightarrow>
         (Inr (), s\<lparr>fr_script := script, fr_rest := drop (unat (po_file_offset pos)) (fr_file s),
                    fr_cutter := cutter_new (fr_format s) (fr_record_len s),
                    fr_file_pos := po_file_offset pos, fr_pos := pos, fr_eof := False\<rparr>))"

definition source_size_hint :: "file_source \<Rightarrow> u64 option" where
  "source_size_hint s = Some (fr_size s)"


section \<open>File sink\<close>

text \<open>
  The temporary file is \<open>fw_file\<close>, \<open>fw_buf\<close> the content of the \<^verbatim>\<open>BufWriter\<close> in front of it,
  \<open>fw_final\<close> the file under its final name.
\<close>

record file_sink =
  fw_file :: os_file
  fw_part :: bool
  fw_final :: "bytes option"
  fw_script :: "os_result list"
  fw_buf :: bytes
  fw_format :: record_format
  fw_pos :: io_position
  fw_finished :: bool
  fw_ebcdic :: bool

definition sink_call :: "file_sink \<Rightarrow> (io_error, unit) result \<times> file_sink" where
  "sink_call s =
     (case os_call (fw_script s) of (r, script) \<Rightarrow> (and_then r (\<lambda>_. Inr ()), s\<lparr>fw_script := script\<rparr>))"

definition then_sink ::
    "(io_error, unit) result \<times> file_sink \<Rightarrow> (file_sink \<Rightarrow> (io_error, 'a) result \<times> file_sink) \<Rightarrow>
     (io_error, 'a) result \<times> file_sink" where
  \<comment> \<open>sequencing with \<^verbatim>\<open>?\<close>\<close>
  "then_sink r f = (case r of (Inl e, s) \<Rightarrow> (Inl e, s) | (Inr _, s) \<Rightarrow> f s)"

text \<open>
  \<open>FileSink::create\<close>: the directory is created, the temporary file opened (and cut to the restart
  position when resuming), opened again and positioned. \<open>part\<close> is the temporary file found.
\<close>

definition sink_create ::
    "bytes option \<Rightarrow> bytes option \<Rightarrow> record_format \<Rightarrow> io_position option \<Rightarrow> os_result list \<Rightarrow>
     (io_error, unit) result \<times> file_sink" where
  "sink_create part final format resume_from script =
     (let pos = (case resume_from of Some p \<Rightarrow> p | None \<Rightarrow> position_default);
          existing = (case part of Some d \<Rightarrow> d | None \<Rightarrow> []);
          s = \<lparr>fw_file = \<lparr>of_data = existing, of_cursor = 0\<rparr>, fw_part = (part \<noteq> None), fw_final = final,
               fw_script = script, fw_buf = [], fw_format = format, fw_pos = pos, fw_finished = False,
               fw_ebcdic = False\<rparr>
      in then_sink (sink_call s) (\<lambda>s.
         then_sink
           (case resume_from of
              Some p \<Rightarrow>
                then_sink (sink_call s) (\<lambda>s.
                  let s = s\<lparr>fw_part := True\<rparr> in
                  then_sink (sink_call s) (\<lambda>s.
                    (Inr (), s\<lparr>fw_file := os_set_len (unat (po_file_offset p)) (fw_file s)\<rparr>)))
            | None \<Rightarrow> (Inr (), s))
           (\<lambda>s. then_sink (sink_call s) (\<lambda>s.
             let s = s\<lparr>fw_part := True,
                       fw_file := (if resume_from = None then \<lparr>of_data = [], of_cursor = 0\<rparr> else fw_file s)\<rparr> in
             then_sink (sink_call s) (\<lambda>s.
               (Inr (), s\<lparr>fw_file := os_seek (unat (po_file_offset pos)) (fw_file s)\<rparr>))))))"

definition sink_with_ebcdic :: "bool \<Rightarrow> file_sink \<Rightarrow> file_sink" where
  "sink_with_ebcdic e s = s\<lparr>fw_ebcdic := e\<rparr>"

text \<open>\<^verbatim>\<open>BufWriter::flush\<close> and \<^verbatim>\<open>BufWriter::write_all\<close> with a buffer of \<open>IO_BUF\<close> bytes.\<close>

definition sink_flush :: "file_sink \<Rightarrow> (io_error, unit) result \<times> file_sink" where
  "sink_flush s =
     (if fw_buf s = [] then (Inr (), s)
      else then_sink (sink_call s) (\<lambda>s.
        (Inr (), s\<lparr>fw_file := os_write (fw_buf s) (fw_file s), fw_buf := []\<rparr>)))"

definition sink_write_all :: "bytes \<Rightarrow> file_sink \<Rightarrow> (io_error, unit) result \<times> file_sink" where
  "sink_write_all bs s =
     (if length bs < IO_BUF - length (fw_buf s) then (Inr (), s\<lparr>fw_buf := fw_buf s @ bs\<rparr>)
      else
        then_sink (if length bs > IO_BUF - length (fw_buf s) then sink_flush s else (Inr (), s)) (\<lambda>s.
          if length bs \<ge> IO_BUF
          then then_sink (sink_call s) (\<lambda>s. (Inr (), s\<lparr>fw_file := os_write bs (fw_file s)\<rparr>))
          else (Inr (), s\<lparr>fw_buf := fw_buf s @ bs\<rparr>)))"

definition sink_write_article :: "bytes \<Rightarrow> file_sink \<Rightarrow> (io_error, unit) result \<times> file_sink" where
  "sink_write_article article s =
     (let article = (if fw_ebcdic s then to_latin1 article else article);
          bs = article_to_bytes (fw_format s) article
      in then_sink (sink_write_all bs s) (\<lambda>s.
           (Inr (), s\<lparr>fw_pos :=
              \<lparr>po_file_offset = po_file_offset (fw_pos s) + word_of_nat (length bs),
               po_data_bytes = po_data_bytes (fw_pos s) + word_of_nat (length article),
               po_articles = po_articles (fw_pos s) + 1\<rparr>\<rparr>)))"

definition sink_checkpoint :: "file_sink \<Rightarrow> (io_error, io_position) result \<times> file_sink" where
  "sink_checkpoint s =
     then_sink (sink_flush s) (\<lambda>s. then_sink (sink_call s) (\<lambda>s. (Inr (fw_pos s), s)))"

definition sink_truncate :: "io_position \<Rightarrow> file_sink \<Rightarrow> (io_error, unit) result \<times> file_sink" where
  "sink_truncate pos s =
     then_sink (sink_flush s) (\<lambda>s.
     then_sink (sink_call s) (\<lambda>s.
       let s = s\<lparr>fw_file := os_set_len (unat (po_file_offset pos)) (fw_file s)\<rparr> in
     then_sink (sink_call s) (\<lambda>s.
       (Inr (), s\<lparr>fw_file := os_seek (unat (po_file_offset pos)) (fw_file s), fw_pos := pos\<rparr>))))"

definition sink_position :: "file_sink \<Rightarrow> io_position" where
  "sink_position s = fw_pos s"

definition sink_finish :: "file_sink \<Rightarrow> (io_error, unit) result \<times> file_sink" where
  "sink_finish s =
     (if fw_finished s then (Inr (), s)
      else
        then_sink (sink_flush s) (\<lambda>s.
        then_sink (sink_call s) (\<lambda>s.
        then_sink (sink_call s) (\<lambda>s.
          (Inr (), s\<lparr>fw_final := Some (of_data (fw_file s)), fw_part := False, fw_finished := True\<rparr>)))))"

definition sink_discard :: "file_sink \<Rightarrow> (io_error, unit) result \<times> file_sink" where
  \<comment> \<open>dropping the writer flushes it and ignores an error\<close>
  "sink_discard s =
     (let s = snd (sink_flush s) in
      case sink_call s of
        (Inl e, s) \<Rightarrow> (if e = Io_Kind Io_NotFound then (Inr (), s) else (Inl e, s))
      | (Inr _, s) \<Rightarrow> (Inr (), s\<lparr>fw_part := False\<rparr>))"

section \<open>Memory source and sink\<close>

record vec_source =
  vs_articles :: "bytes list"
  vs_index :: usize
  vs_pos :: io_position

definition vec_source_new :: "bytes list \<Rightarrow> vec_source" where
  "vec_source_new articles = \<lparr>vs_articles = articles, vs_index = 0, vs_pos = position_default\<rparr>"

definition vec_source_from_bytes :: "bytes \<Rightarrow> usize \<Rightarrow> vec_source" where
  "vec_source_from_bytes data record_len = vec_source_new (chunks (max record_len 1) data)"

definition vec_next :: "vec_source \<Rightarrow> (io_error, bytes option) result \<times> vec_source" where
  "vec_next s =
     (if vs_index s < length (vs_articles s) then
        (let a = vs_articles s ! vs_index s;
             d = po_data_bytes (vs_pos s) + word_of_nat (length a)
         in (Inr (Some a),
             s\<lparr>vs_index := vs_index s + 1,
               vs_pos := \<lparr>po_file_offset = d, po_data_bytes = d, po_articles = po_articles (vs_pos s) + 1\<rparr>\<rparr>))
      else (Inr None, s))"

definition vec_rewind :: "io_position \<Rightarrow> vec_source \<Rightarrow> (io_error, unit) result \<times> vec_source" where
  "vec_rewind pos s = (Inr (), s\<lparr>vs_index := unat (po_articles pos), vs_pos := pos\<rparr>)"

definition vec_size_hint :: "vec_source \<Rightarrow> u64 option" where
  "vec_size_hint s = Some (word_of_nat (sum_list (map length (vs_articles s))))"

record vec_sink =
  vk_articles :: "bytes list"
  vk_pos :: io_position
  vk_finished :: bool

definition vec_sink_new :: vec_sink where
  "vec_sink_new = \<lparr>vk_articles = [], vk_pos = position_default, vk_finished = False\<rparr>"

definition vec_sink_bytes :: "vec_sink \<Rightarrow> bytes" where
  "vec_sink_bytes s = concat (vk_articles s)"

definition vec_write_article :: "bytes \<Rightarrow> vec_sink \<Rightarrow> (io_error, unit) result \<times> vec_sink" where
  "vec_write_article article s =
     (let d = po_data_bytes (vk_pos s) + word_of_nat (length article)
      in (Inr (), s\<lparr>vk_articles := vk_articles s @ [article],
            vk_pos := \<lparr>po_file_offset = d, po_data_bytes = d, po_articles = po_articles (vk_pos s) + 1\<rparr>\<rparr>))"

definition vec_checkpoint :: "vec_sink \<Rightarrow> (io_error, io_position) result \<times> vec_sink" where
  "vec_checkpoint s = (Inr (vk_pos s), s)"

definition vec_truncate :: "io_position \<Rightarrow> vec_sink \<Rightarrow> (io_error, unit) result \<times> vec_sink" where
  "vec_truncate pos s =
     (Inr (), s\<lparr>vk_articles := take (unat (po_articles pos)) (vk_articles s), vk_pos := pos\<rparr>)"

definition vec_finish :: "vec_sink \<Rightarrow> (io_error, unit) result \<times> vec_sink" where
  "vec_finish s = (Inr (), s\<lparr>vk_finished := True\<rparr>)"

end
