(* ===== verification/Article_Io_Props.thy ===== *)
theory Article_Io_Props
  imports Article_Io
begin

text \<open>
  The contracts of article sources and sinks as locales, and their interpretations. A file source
  yields the articles of the file whatever the sizes of the reads, and continues from any position
  it reported earlier; a file sink holds exactly the articles written since its position, and can be
  cut back to any earlier one. A file read by a source and written by a sink is copied.
\<close>

section \<open>The file source\<close>

definition remaining :: "file_source \<Rightarrow> bytes" where
  "remaining s = cutter_avail (fr_cutter s) @ fr_rest s"

definition source_ok :: "file_source \<Rightarrow> bool" where
  "source_ok s \<longleftrightarrow> cutter_inv (fr_cutter s) \<and> ac_format (fr_cutter s) = fr_format s \<and>
     ac_record_len (fr_cutter s) = max (fr_record_len s) 1 \<and> length (fr_file s) < 2 ^ 64 \<and>
     unat (fr_file_pos s) \<le> length (fr_file s) \<and> fr_rest s = drop (unat (fr_file_pos s)) (fr_file s) \<and>
     unat (fr_file_pos s) = unat (po_file_offset (fr_pos s)) + length (cutter_avail (fr_cutter s)) \<and>
     remaining s = drop (unat (po_file_offset (fr_pos s))) (fr_file s) \<and> (fr_eof s \<longrightarrow> fr_rest s = [])"

lemma source_okI:
  assumes "cutter_inv (fr_cutter s)" and "ac_format (fr_cutter s) = fr_format s"
    and "ac_record_len (fr_cutter s) = max (fr_record_len s) 1" and "length (fr_file s) < 2 ^ 64"
    and "unat (fr_file_pos s) \<le> length (fr_file s)" and "fr_rest s = drop (unat (fr_file_pos s)) (fr_file s)"
    and "unat (fr_file_pos s) = unat (po_file_offset (fr_pos s)) + length (cutter_avail (fr_cutter s))"
    and "remaining s = drop (unat (po_file_offset (fr_pos s))) (fr_file s)"
    and "fr_eof s \<longrightarrow> fr_rest s = []"
  shows "source_ok s"
  unfolding source_ok_def by (intro conjI assms)

lemma source_okD:
  assumes "source_ok s"
  shows "cutter_inv (fr_cutter s)" and "ac_format (fr_cutter s) = fr_format s"
    and "ac_record_len (fr_cutter s) = max (fr_record_len s) 1" and "length (fr_file s) < 2 ^ 64"
    and "unat (fr_file_pos s) \<le> length (fr_file s)" and "fr_rest s = drop (unat (fr_file_pos s)) (fr_file s)"
    and "unat (fr_file_pos s) = unat (po_file_offset (fr_pos s)) + length (cutter_avail (fr_cutter s))"
    and "remaining s = drop (unat (po_file_offset (fr_pos s))) (fr_file s)"
    and "fr_eof s \<longrightarrow> fr_rest s = []"
  using assms unfolding source_ok_def by blast+

definition script_ok :: "os_result list \<Rightarrow> bool" where
  "script_ok script \<longleftrightarrow> (\<forall>e. Os_Err e \<notin> set script)"

definition same_file :: "file_source \<Rightarrow> file_source \<Rightarrow> bool" where
  "same_file s s' \<longleftrightarrow> fr_file s' = fr_file s \<and> fr_format s' = fr_format s \<and>
     fr_record_len s' = fr_record_len s \<and> fr_ebcdic s' = fr_ebcdic s"

lemma same_file_refl [simp]: "same_file s s"
  by (simp add: same_file_def)

lemma same_file_trans: "same_file s s' \<Longrightarrow> same_file s' s'' \<Longrightarrow> same_file s s''"
  by (simp add: same_file_def)

lemma os_call_ok: "script_ok script \<Longrightarrow> \<exists>n script'. os_call script = (Inr n, script') \<and> script_ok script'"
  by (auto simp: os_call_def script_ok_def split: list.splits os_result.splits)

text \<open>The next article of a file given by its unread bytes, the last incomplete one included.\<close>

definition file_next :: "record_format \<Rightarrow> usize \<Rightarrow> bytes \<Rightarrow> (record_error, (bytes \<times> bytes) option) result" where
  "file_next fmt rl data =
     (case cut_next fmt rl data of
        Inl e \<Rightarrow> Inl e
      | Inr (Some x) \<Rightarrow> Inr (Some x)
      | Inr None \<Rightarrow>
         (case finish_of fmt rl data of
            (_, Some e) \<Rightarrow> Inl e
          | ([], None) \<Rightarrow> Inr None
          | (a # _, None) \<Rightarrow> Inr (Some (a, []))))"

lemma word_add_nat:
  "unat (w :: u64) + n < 2 ^ 64 \<Longrightarrow> unat (w + word_of_nat n) = unat w + n"
  by (simp add: unat_word_ariths unat_of_nat)

lemma word_sub_nat:
  "n \<le> unat (w :: u64) \<Longrightarrow> unat (w - word_of_nat n) = unat w - n"
proof -
  assume n: "n \<le> unat w"
  moreover have "unat w < 2 ^ 64" by (rule order_less_le_trans [OF unsigned_less]) simp
  ultimately have "unat (word_of_nat n :: u64) = n" by (simp add: unat_of_nat)
  with n show ?thesis by (metis unat_sub word_le_nat_alt)
qed

lemma take_append_drop_length: "take n xs @ drop (length (take n xs)) xs = xs"
  by (cases "n \<le> length xs") simp_all

lemma source_fill_ok:
  assumes "source_ok s" and "script_ok (fr_script s)" and "\<not> fr_eof s"
  shows "\<exists>b s'. source_fill s = (Inr b, s') \<and> source_ok s' \<and> remaining s' = remaining s \<and>
    same_file s s' \<and> fr_pos s' = fr_pos s \<and> script_ok (fr_script s')"
proof -
  obtain n script where call: "os_call (fr_script s) = (Inr n, script)" "script_ok script"
    using os_call_ok [OF assms(2)] by blast
  define buf where "buf = take (min (max n 1) IO_BUF) (fr_rest s)"
  show ?thesis
  proof (cases "buf = []")
    case True
    then have "fr_rest s = []" by (auto simp: IO_BUF_def buf_def)
    with True call assms show ?thesis
      by (intro exI [of _ False]) (simp add: source_fill_def source_ok_def remaining_def same_file_def buf_def)
  next
    case False
    note ok = source_okD [OF assms(1)]
    have len: "unat (fr_file_pos s) + length buf \<le> length (fr_file s)"
      using ok(5) by (simp add: ok(6) buf_def)
    have pos: "unat (fr_file_pos s + word_of_nat (length buf)) = unat (fr_file_pos s) + length buf"
      using len ok(4) by (intro word_add_nat) linarith
    note push = cutter_push_avail [OF ok(1), of buf]
    have split: "buf @ drop (length buf) (fr_rest s) = fr_rest s"
      unfolding buf_def by (rule take_append_drop_length)
    let ?s' = "s\<lparr>fr_script := script, fr_cutter := cutter_push buf (fr_cutter s),
        fr_rest := drop (length buf) (fr_rest s), fr_file_pos := fr_file_pos s + word_of_nat (length buf)\<rparr>"
    have rem: "remaining ?s' = remaining s" using push split by (simp add: remaining_def)
    have rest: "drop (length buf) (fr_rest s) = drop (unat (fr_file_pos s) + length buf) (fr_file s)"
      unfolding ok(6) by (simp only: drop_drop add.commute)
    have avail: "unat (fr_file_pos s) + length buf =
        unat (po_file_offset (fr_pos s)) + length (cutter_avail (cutter_push buf (fr_cutter s)))"
      using push ok(7) by simp
    have "source_ok ?s'"
    proof (rule source_okI)
      show "fr_rest ?s' = drop (unat (fr_file_pos ?s')) (fr_file ?s')"
        using rest pos by simp
      show "unat (fr_file_pos ?s') = unat (po_file_offset (fr_pos ?s')) + length (cutter_avail (fr_cutter ?s'))"
        using avail pos by simp
      show "remaining ?s' = drop (unat (po_file_offset (fr_pos ?s'))) (fr_file ?s')"
        unfolding rem using ok(8) by simp
      show "unat (fr_file_pos ?s') \<le> length (fr_file ?s')" using pos len by simp
      show "fr_eof ?s' \<longrightarrow> fr_rest ?s' = []" using assms(3) by simp
    qed (use ok(1-4) push in simp_all)
    moreover have "source_fill s = (Inr True, ?s')"
      using False call by (simp add: source_fill_def Let_def buf_def)
    ultimately show ?thesis using rem call(2) by (intro exI [of _ True] exI [of _ ?s']) (simp add: same_file_def)
  qed
qed


lemma cut_next_suffix:
  "cut_next fmt rl data = Inr (Some (a, r)) \<Longrightarrow> \<exists>k\<le>length data. r = drop k data"
  by (auto simp: cut_next_def and_then_eq_Inr split: if_splits option.splits dest!: position_Some)
    (metis Suc_leI)

lemma cutter_finish_refines:
  "fst (cutter_finish c) =
     (case finish_of (ac_format c) (ac_record_len c) (cutter_avail c) of
        (_, Some e) \<Rightarrow> Inl e | ([], None) \<Rightarrow> Inr None | (a # _, None) \<Rightarrow> Inr (Some a))"
  "snd (cutter_finish c) = c\<lparr>ac_pos := length (ac_buf c)\<rparr>"
proof -
  show "fst (cutter_finish c) =
     (case finish_of (ac_format c) (ac_record_len c) (cutter_avail c) of
        (_, Some e) \<Rightarrow> Inl e | ([], None) \<Rightarrow> Inr None | (a # _, None) \<Rightarrow> Inr (Some a))"
    unfolding run_cutter_finish [symmetric]
    by (cases "fst (cutter_finish c)") (auto simp: run_cutter.simps split: option.splits)
  show "snd (cutter_finish c) = c\<lparr>ac_pos := length (ac_buf c)\<rparr>"
    by (cases "ac_format c") (simp_all add: cutter_finish_def Let_def)
qed

text \<open>What \<open>source_next\<close> does to the position when it yields the article \<open>a\<close> and leaves \<open>r\<close>.\<close>

definition advanced :: "file_source \<Rightarrow> bytes \<Rightarrow> bytes \<Rightarrow> file_source \<Rightarrow> bool" where
  "advanced s a r s' \<longleftrightarrow> source_ok s' \<and> script_ok (fr_script s') \<and> remaining s' = r \<and> same_file s s' \<and>
     po_articles (fr_pos s') = po_articles (fr_pos s) + 1 \<and>
     po_data_bytes (fr_pos s') = po_data_bytes (fr_pos s) + word_of_nat (length a)"

lemma source_took_ok:
  assumes "source_ok s" and "script_ok (fr_script s)" and "cutter_inv c"
    and "ac_format c = fr_format s" and "ac_record_len c = max (fr_record_len s) 1"
    and "cutter_avail c = drop k (cutter_avail (fr_cutter s))" and "k \<le> length (cutter_avail (fr_cutter s))"
    and "unat offset = unat (fr_file_pos s) - length (cutter_avail c)"
  shows "advanced s a (cutter_avail c @ fr_rest s) (snd (source_took a offset (s\<lparr>fr_cutter := c\<rparr>)))"
proof -
  note ok = source_okD [OF assms(1)]
  let ?s' = "snd (source_took a offset (s\<lparr>fr_cutter := c\<rparr>))"
  have off: "unat offset = unat (po_file_offset (fr_pos s)) + k"
    using assms(6-8) ok(7) by simp
  have "cutter_avail c @ fr_rest s = drop k (remaining s)"
    using assms(6,7) by (simp add: remaining_def)
  also have "\<dots> = drop (unat offset) (fr_file s)"
    unfolding ok(8) off by (simp only: drop_drop add.commute)
  finally have rem: "cutter_avail c @ fr_rest s = drop (unat offset) (fr_file s)" .
  have fields: "fr_cutter ?s' = c" "fr_rest ?s' = fr_rest s" "fr_file_pos ?s' = fr_file_pos s"
    "fr_file ?s' = fr_file s" "fr_format ?s' = fr_format s" "fr_record_len ?s' = fr_record_len s"
    "po_file_offset (fr_pos ?s') = offset" "fr_eof ?s' = fr_eof s" "fr_script ?s' = fr_script s"
    "po_articles (fr_pos ?s') = po_articles (fr_pos s) + 1"
    "po_data_bytes (fr_pos ?s') = po_data_bytes (fr_pos s) + word_of_nat (length a)"
    "fr_ebcdic ?s' = fr_ebcdic s"
    by (simp_all add: source_took_def)
  have "source_ok ?s'"
  proof (rule source_okI, unfold fields)
    show "unat (fr_file_pos s) = unat offset + length (cutter_avail c)"
      using assms(8) off ok(7) assms(6,7) by simp
    show "remaining ?s' = drop (unat offset) (fr_file s)"
      unfolding remaining_def fields by (rule rem)
  qed (use assms ok(4-6,9) in blast)+
  then show ?thesis
    unfolding advanced_def same_file_def remaining_def fields using assms(2) by simp
qed


definition on_wire :: "file_source \<Rightarrow> bytes \<Rightarrow> bytes" where
  "on_wire s a = (if fr_ebcdic s then to_ebcdic a else a)"

definition next_spec :: "file_source \<Rightarrow> (io_error, bytes option) result \<times> file_source \<Rightarrow> bool" where
  "next_spec s res \<longleftrightarrow>
     (case file_next (fr_format s) (max (fr_record_len s) 1) (remaining s) of
        Inl e \<Rightarrow> fst res = Inl (Io_InvalidData e)
      | Inr None \<Rightarrow> fst res = Inr None \<and> source_ok (snd res) \<and> script_ok (fr_script (snd res)) \<and>
          remaining (snd res) = [] \<and> same_file s (snd res) \<and> fr_pos (snd res) = fr_pos s
      | Inr (Some (a, r)) \<Rightarrow> fst res = Inr (Some (on_wire s a)) \<and> advanced s a r (snd res))"

lemma next_spec_cong:
  "same_file s s' \<Longrightarrow> remaining s' = remaining s \<Longrightarrow> fr_pos s' = fr_pos s \<Longrightarrow> next_spec s' res = next_spec s res"
  by (simp add: next_spec_def advanced_def same_file_def on_wire_def split: sum.split option.split)

lemma source_next_eof:
  assumes "source_ok s" and "script_ok (fr_script s)" and "fr_eof s"
    and stop: "cut_next (fr_format s) (max (fr_record_len s) 1) (cutter_avail (fr_cutter s)) = Inr None"
  shows "next_spec s (source_next s)"
proof -
  note ok = source_okD [OF assms(1)]
  let ?c = "fr_cutter s"
  let ?c' = "?c\<lparr>ac_pos := length (ac_buf ?c)\<rparr>"
  have rest: "fr_rest s = []" using ok(9) assms(3) by simp
  then have rem: "remaining s = cutter_avail ?c" by (simp add: remaining_def)
  have end_pos: "unat (fr_file_pos s) = length (fr_file s)" using ok(5,6) rest by simp
  have c': "cutter_avail ?c' = []" "cutter_inv ?c'" "ac_format ?c' = fr_format s"
    "ac_record_len ?c' = max (fr_record_len s) 1"
    using ok(1-3) by (simp_all add: cutter_avail_def cutter_inv_def)
  have next_none: "next_article ?c = Inr (None, ?c)"
    using next_article_refines [OF ok(1)] stop ok(2,3) by simp
  obtain as e where fin: "finish_of (fr_format s) (max (fr_record_len s) 1) (cutter_avail ?c) = (as, e)"
    by (cases "finish_of (fr_format s) (max (fr_record_len s) 1) (cutter_avail ?c)")
  have cf: "cutter_finish ?c = (case (as, e) of (_, Some e) \<Rightarrow> Inl e | ([], None) \<Rightarrow> Inr None | (a # _, None) \<Rightarrow> Inr (Some a), ?c')"
    using cutter_finish_refines [of ?c] fin ok(2,3) by (metis prod.collapse)
  have nil: "as = [] \<and> e = None \<Longrightarrow> cutter_avail ?c = []"
    using fin by (auto simp: finish_of_def split: if_splits sum.splits)
  consider (error) x where "e = Some x" | (none) "e = None" "as = []" | (one) a bs where "e = None" "as = a # bs"
    by (cases e; cases as) auto
  then show ?thesis
  proof cases
    case error
    then show ?thesis using next_none cf assms(3) stop fin rem
      by (cases as) (simp_all add: source_next.simps [of s] next_spec_def file_next_def)
  next
    case none
    then have av: "cutter_avail ?c = []" using nil by simp
    have "source_ok (s\<lparr>fr_cutter := ?c'\<rparr>)"
      by (rule source_okI) (use ok rest c' av end_pos rem in \<open>simp_all add: remaining_def\<close>)
    with none show ?thesis using next_none cf assms(2,3) stop fin rem rest c'
      by (simp add: source_next.simps [of s] next_spec_def file_next_def same_file_def remaining_def [of "s\<lparr>fr_cutter := ?c'\<rparr>"])
  next
    case one
    have "advanced s a (cutter_avail ?c' @ fr_rest s) (snd (source_took a (fr_file_pos s) (s\<lparr>fr_cutter := ?c'\<rparr>)))"
      by (rule source_took_ok [OF assms(1,2) c'(2-4), of "length (cutter_avail ?c)"]) (simp_all add: c')
    then have "advanced s a [] (snd (source_took a (fr_file_pos s) (s\<lparr>fr_cutter := ?c'\<rparr>)))"
      using c' rest by simp
    with one show ?thesis using next_none cf assms(3) stop fin rem
      by (simp add: source_next.simps [of s] next_spec_def file_next_def on_wire_def source_took_def)
  qed
qed

lemma source_next_ok: "source_ok s \<Longrightarrow> script_ok (fr_script s) \<Longrightarrow> next_spec s (source_next s)"
proof (induction "length (fr_rest s) + (if fr_eof s then 0 else 1)" arbitrary: s rule: less_induct)
  case less
  note ok = source_okD [OF less.prems(1)]
  let ?c = "fr_cutter s"
  let ?cut = "cut_next (fr_format s) (max (fr_record_len s) 1)"
  note ref = next_article_refines [OF ok(1), unfolded ok(2,3)]
  consider (error) e where "?cut (cutter_avail ?c) = Inl e" | (stop) "?cut (cutter_avail ?c) = Inr None"
    | (article) a r where "?cut (cutter_avail ?c) = Inr (Some (a, r))"
    by (metis old.sum.exhaust option.exhaust surj_pair)
  then show ?case
  proof cases
    case error
    with ref have "next_article ?c = Inl e" by simp
    with cut_next_append_error [OF error, of "fr_rest s"] show ?thesis
      by (simp add: source_next.simps [of s] next_spec_def file_next_def remaining_def)
  next
    case article
    with ref obtain c where c: "next_article ?c = Inr (Some a, c)" "cutter_avail c = r" "cutter_inv c"
      "ac_format c = fr_format s" "ac_record_len c = max (fr_record_len s) 1" by auto
    obtain k where k: "k \<le> length (cutter_avail ?c)" "r = drop k (cutter_avail ?c)"
      using cut_next_suffix [OF article] by blast
    have buffered: "cutter_buffered c = length (cutter_avail c)"
      by (simp add: cutter_buffered_def cutter_avail_def)
    let ?off = "fr_file_pos s - word_of_nat (cutter_buffered c)"
    have "unat ?off = unat (fr_file_pos s) - length (cutter_avail c)"
      unfolding buffered by (rule word_sub_nat) (use k c(2) ok(7) in simp)
    then have "advanced s a (r @ fr_rest s) (snd (source_took a ?off (s\<lparr>fr_cutter := c\<rparr>)))"
      using source_took_ok [OF less.prems c(3-5), of k ?off a] k c(2) by simp
    with c(1) cut_next_append [OF article, of "fr_rest s"] show ?thesis
      by (simp add: source_next.simps [of s] next_spec_def file_next_def remaining_def on_wire_def
          source_took_def)
  next
    case stop
    show ?thesis
    proof (cases "fr_eof s")
      case True
      with less.prems stop show ?thesis by (intro source_next_eof)
    next
      case False
      have n: "next_article ?c = Inr (None, ?c)" using ref stop by simp
      obtain b s' where fill: "source_fill s = (Inr b, s')" "source_ok s'" "remaining s' = remaining s"
        "same_file s s'" "fr_pos s' = fr_pos s" "script_ok (fr_script s')"
        using source_fill_ok [OF less.prems False] by blast
      have "next_spec s' (source_next s')"
        by (rule less.hyps [OF _ fill(2,6)]) (use source_fill_shorter [OF fill(1) False] False in simp)
      moreover have "source_next s = source_next s'"
        using n False fill(1) by (simp add: source_next.simps [of s])
      ultimately show ?thesis using next_spec_cong [OF fill(4,3,5)] by simp
    qed
  qed
qed


subsection \<open>Reading a whole file\<close>

text \<open>The client loop: take articles until the end of the file or an error; \<open>None\<close> when out of fuel.\<close>

fun source_collect :: "nat \<Rightarrow> file_source \<Rightarrow> (bytes list \<times> io_error option) option" where
  "source_collect 0 s = None"
| "source_collect (Suc n) s =
     (case source_next s of
        (Inl e, _) \<Rightarrow> Some ([], Some e)
      | (Inr None, _) \<Rightarrow> Some ([], None)
      | (Inr (Some a), s') \<Rightarrow> map_option (\<lambda>(as, e). (a # as, e)) (source_collect n s'))"

lemma cut_all_Nil: "0 < rl \<Longrightarrow> cut_all fmt rl [] = ([], None, [])"
  by (simp add: cut_all_step cut_next_def)

lemma cut_file_Nil: "0 < rl \<Longrightarrow> cut_file fmt rl [] = ([], None)"
  by (simp add: cut_file_def cut_all_Nil finish_of_def)

lemma cut_file_step:
  assumes "0 < rl"
  shows "cut_file fmt rl data =
    (case file_next fmt rl data of
       Inl e \<Rightarrow> ([], Some e)
     | Inr None \<Rightarrow> ([], None)
     | Inr (Some (a, r)) \<Rightarrow> (let (as, e) = cut_file fmt rl r in (a # as, e)))"
proof (cases "cut_next fmt rl data")
  case (Inl e)
  with assms show ?thesis by (simp add: cut_file_def file_next_def cut_all_step [of rl fmt data])
next
  case (Inr x)
  show ?thesis
  proof (cases x)
    case None
    have single: "fst (finish_of fmt rl data) = [] \<or> (\<exists>a. finish_of fmt rl data = ([a], None))"
      by (auto simp: finish_of_def split: sum.splits)
    from None Inr assms single show ?thesis
      by (cases "finish_of fmt rl data"; cases "snd (finish_of fmt rl data)")
        (auto simp: cut_file_def file_next_def cut_all_step [of rl fmt data] cut_all_Nil
          finish_of_def [of fmt rl "[]"])
  next
    case (Some ar)
    with Inr assms show ?thesis
      by (cases ar)
        (auto simp: cut_file_def file_next_def cut_all_step [of rl fmt data] Let_def split: prod.splits option.splits)
  qed
qed

lemma file_next_shorter:
  assumes "file_next fmt rl data = Inr (Some (a, r))" and "0 < rl"
  shows "length r < length data"
  using assms cut_next_shorter [of fmt rl data a r]
  by (auto simp: file_next_def finish_of_def split: sum.splits option.splits prod.splits list.splits if_splits)

lemma source_collect_eq:
  assumes "source_ok s" and "script_ok (fr_script s)" and "length (remaining s) < n"
  shows "source_collect n s =
    (let (as, e) = cut_file (fr_format s) (max (fr_record_len s) 1) (remaining s)
     in Some (map (on_wire s) as, map_option Io_InvalidData e))"
  using assms
proof (induction n arbitrary: s)
  case (Suc n)
  let ?rl = "max (fr_record_len s) 1"
  have rl: "0 < ?rl" by simp
  obtain res s' where next_s: "source_next s = (res, s')" by (cases "source_next s")
  have spec: "next_spec s (res, s')" using source_next_ok [OF Suc.prems(1,2)] next_s by simp
  note step = cut_file_step [OF rl, of "fr_format s" "remaining s"]
  consider (error) e where "file_next (fr_format s) ?rl (remaining s) = Inl e"
    | (stop) "file_next (fr_format s) ?rl (remaining s) = Inr None"
    | (article) a r where "file_next (fr_format s) ?rl (remaining s) = Inr (Some (a, r))"
    by (metis old.sum.exhaust option.exhaust surj_pair)
  then show ?case
  proof cases
    case article
    then have adv: "res = Inr (Some (on_wire s a))" "advanced s a r s'" using spec by (simp_all add: next_spec_def)
    have "length r < length (remaining s)" using article rl by (rule file_next_shorter)
    then have "source_collect n s' =
        (let (as, e) = cut_file (fr_format s') (max (fr_record_len s') 1) (remaining s')
         in Some (map (on_wire s') as, map_option Io_InvalidData e))"
      using adv(2) Suc.prems(3) by (intro Suc.IH) (simp_all add: advanced_def)
    moreover have "on_wire s' = on_wire s" "fr_format s' = fr_format s" "fr_record_len s' = fr_record_len s"
      "remaining s' = r"
      using adv(2) by (simp_all add: advanced_def same_file_def on_wire_def fun_eq_iff)
    ultimately show ?thesis using next_s adv(1) step article by (simp add: Let_def split: prod.splits)
  qed (use spec next_s step in \<open>simp_all add: next_spec_def\<close>)
qed simp

lemma source_open_ok:
  assumes "source_open (Inr data) fmt rl script = Inr s" and "script_ok script" and "length data < 2 ^ 64"
  shows "source_ok s \<and> script_ok (fr_script s) \<and> remaining s = data \<and> fr_format s = fmt \<and>
    fr_record_len s = rl \<and> fr_file s = data \<and> fr_ebcdic s = False"
proof -
  obtain n script' where call: "os_call script = (Inr n, script')" "script_ok script'"
    using os_call_ok [OF assms(2)] by blast
  with assms(1) have s: "s = \<lparr>fr_file = data, fr_rest = data, fr_script = script', fr_format = fmt,
      fr_record_len = rl, fr_cutter = cutter_new fmt rl, fr_pos = position_default, fr_file_pos = 0,
      fr_eof = False, fr_size = word_of_nat (length data), fr_ebcdic = False\<rparr>"
    by (simp add: source_open_def map_err_def)
  have "cutter_inv (cutter_new fmt rl)" "cutter_avail (cutter_new fmt rl) = []"
    "ac_format (cutter_new fmt rl) = fmt" "ac_record_len (cutter_new fmt rl) = max rl 1"
    by (simp_all add: cutter_inv_def cutter_new_def cutter_avail_def)
  then have "source_ok s"
    using assms(3) by (intro source_okI) (simp_all add: s remaining_def position_default_def)
  with call \<open>cutter_avail (cutter_new fmt rl) = []\<close> show ?thesis by (simp add: s remaining_def)
qed

lemma source_with_ebcdic_ok [simp]:
  "source_ok (source_with_ebcdic e s) = source_ok s" "remaining (source_with_ebcdic e s) = remaining s"
  "fr_script (source_with_ebcdic e s) = fr_script s" "fr_format (source_with_ebcdic e s) = fr_format s"
  "fr_record_len (source_with_ebcdic e s) = fr_record_len s" "fr_ebcdic (source_with_ebcdic e s) = e"
  by (simp_all add: source_with_ebcdic_def source_ok_def remaining_def)

text \<open>reading a file through the file source ends and gives the articles the file is cut into
  (translated when the data code asks for EBCDIC) and the format error if there is one, whatever
  numbers of bytes the reads return.\<close>

theorem file_source_articles:
  assumes "source_open (Inr data) fmt rl script = Inr s" and "script_ok script" and "length data < 2 ^ 64"
    and "length data < n"
  shows "source_collect n (source_with_ebcdic ebcdic s) =
    (let (as, e) = run_cutter (cutter_new fmt rl) [data]
     in Some (map (if ebcdic then to_ebcdic else (\<lambda>a. a)) as, map_option Io_InvalidData e))"
proof -
  let ?s = "source_with_ebcdic ebcdic s"
  have ok: "source_ok ?s" "script_ok (fr_script ?s)" "length (remaining ?s) < n"
    using source_open_ok [OF assms(1-3)] assms(4) by simp_all
  have "on_wire ?s = (if ebcdic then to_ebcdic else (\<lambda>a. a))" by (simp add: on_wire_def fun_eq_iff)
  with source_collect_eq [OF ok] source_open_ok [OF assms(1-3)] show ?thesis
    by (simp add: cutter_new_run)
qed

theorem file_source_articles_witness:
  "\<exists>s. source_open (Inr [72, 105, 10, 33]) Tv 80 [Os_Ok 0, Os_Ok 3] = Inr s \<and>
     source_collect 5 (source_with_ebcdic False s) = Some ([[72, 105], [33]], None)"
proof -
  obtain s where s: "source_open (Inr [72, 105, 10, 33]) Tv 80 [Os_Ok 0, Os_Ok 3] = Inr s"
    by (simp add: source_open_def map_err_def os_call_def)
  have "run_cutter (cutter_new Tv 80) [[72, 105, 10, 33]] = ([[72, 105], [33]], None)" by code_simp
  with file_source_articles [OF s, of 5 False] s show ?thesis by (simp add: script_ok_def)
qed


section \<open>The contract of a source\<close>

text \<open>
  \<open>yields s as\<close>: the articles still to come are \<open>as\<close>, and then the end of the file. \<open>origin\<close>
  identifies the file, so that a position reported by one state can be used in another.
\<close>

locale article_source =
  fixes yields :: "'s \<Rightarrow> bytes list \<Rightarrow> bool"
    and origin :: "'s \<Rightarrow> 'o"
    and next_art :: "'s \<Rightarrow> (io_error, bytes option) result \<times> 's"
    and pos :: "'s \<Rightarrow> io_position"
    and rewind :: "io_position \<Rightarrow> 's \<Rightarrow> (io_error, unit) result \<times> 's"
  assumes next_some: "yields s (a # as) \<Longrightarrow> next_art s = (Inr r, s') \<Longrightarrow>
      r = Some a \<and> yields s' as \<and> origin s' = origin s"
    and next_none: "yields s [] \<Longrightarrow> next_art s = (Inr r, s') \<Longrightarrow>
      r = None \<and> yields s' [] \<and> origin s' = origin s"
    and rewind_yields: "yields s as \<Longrightarrow> yields s2 bs \<Longrightarrow> origin s2 = origin s \<Longrightarrow>
      rewind (pos s) s2 = (Inr (), s3) \<Longrightarrow> yields s3 as \<and> origin s3 = origin s \<and> pos s3 = pos s"
begin

text \<open>A run of the client: articles taken, and returns to positions seen before.\<close>

inductive source_run :: "'s \<Rightarrow> 's \<Rightarrow> bool" for s0 where
  run_init: "source_run s0 s0"
| run_next: "source_run s0 s \<Longrightarrow> next_art s = (Inr r, s') \<Longrightarrow> source_run s0 s'"
| run_rewind: "source_run s0 s \<Longrightarrow> source_run s0 s1 \<Longrightarrow> rewind (pos s1) s = (Inr (), s') \<Longrightarrow> source_run s0 s'"

lemma run_yields:
  assumes "source_run s0 s" and "yields s0 as"
  shows "(\<exists>k. yields s (drop k as)) \<and> origin s = origin s0"
  using assms(1)
proof (induction rule: source_run.induct)
  case run_init
  then show ?case using assms(2) by (metis drop0)
next
  case (run_next s r s')
  then obtain k where k: "yields s (drop k as)" by blast
  show ?case
  proof (cases "drop k as")
    case Nil
    with k run_next next_none show ?thesis by metis
  next
    case (Cons a bs)
    then have "drop (Suc k) as = bs" by (metis drop_Suc drop_tl list.sel(3))
    with k run_next next_some Cons show ?thesis by metis
  qed
next
  case (run_rewind s s1 s')
  then show ?case using rewind_yields by metis
qed

lemma run_resumes:
  assumes "source_run s0 s1" and "source_run s0 s2" and "yields s0 as" and "rewind (pos s1) s2 = (Inr (), s3)"
  obtains k where "yields s1 (drop k as)" and "yields s3 (drop k as)" and "pos s3 = pos s1"
  using run_yields [OF assms(1,3)] run_yields [OF assms(2,3)] rewind_yields assms(4) by metis

end

definition file_yields :: "file_source \<Rightarrow> bytes list \<Rightarrow> bool" where
  "file_yields s as \<longleftrightarrow> source_ok s \<and> script_ok (fr_script s) \<and>
     (\<exists>bs. cut_file (fr_format s) (max (fr_record_len s) 1) (remaining s) = (bs, None) \<and> as = map (on_wire s) bs)"

definition file_origin :: "file_source \<Rightarrow> bytes \<times> record_format \<times> usize \<times> bool" where
  "file_origin s = (fr_file s, fr_format s, fr_record_len s, fr_ebcdic s)"

lemma same_file_origin: "same_file s s' \<longleftrightarrow> file_origin s' = file_origin s"
  by (auto simp: same_file_def file_origin_def)

lemma file_yields_step:
  assumes "file_yields s as"
  shows "file_next (fr_format s) (max (fr_record_len s) 1) (remaining s) = Inr None \<and> as = [] \<or>
    (\<exists>a r bs. file_next (fr_format s) (max (fr_record_len s) 1) (remaining s) = Inr (Some (a, r)) \<and>
       cut_file (fr_format s) (max (fr_record_len s) 1) r = (bs, None) \<and> as = on_wire s a # map (on_wire s) bs)"
proof -
  obtain cs where c: "cut_file (fr_format s) (max (fr_record_len s) 1) (remaining s) = (cs, None)"
    "as = map (on_wire s) cs"
    using assms by (auto simp: file_yields_def)
  show ?thesis
    using c cut_file_step [of "max (fr_record_len s) 1" "fr_format s" "remaining s"]
    by (auto split: sum.splits option.splits prod.splits)
qed

lemma file_next_yields:
  assumes "file_yields s as" and "source_next s = (Inr r, s')"
  shows "r = (case as of [] \<Rightarrow> None | a # _ \<Rightarrow> Some a) \<and> file_yields s' (tl as) \<and> file_origin s' = file_origin s"
proof -
  have spec: "next_spec s (Inr r, s')"
    using source_next_ok assms by (metis file_yields_def)
  from file_yields_step [OF assms(1)] show ?thesis
  proof (elim disjE conjE exE)
    assume "file_next (fr_format s) (max (fr_record_len s) 1) (remaining s) = Inr None" "as = []"
    then show ?thesis using spec
      by (simp add: next_spec_def file_yields_def same_file_origin cut_file_Nil)
  next
    fix a r1 bs
    assume a: "file_next (fr_format s) (max (fr_record_len s) 1) (remaining s) = Inr (Some (a, r1))"
      "cut_file (fr_format s) (max (fr_record_len s) 1) r1 = (bs, None)" "as = on_wire s a # map (on_wire s) bs"
    then have r: "r = Some (on_wire s a)" "advanced s a r1 s'" using spec by (simp_all add: next_spec_def)
    then have "on_wire s' = on_wire s" by (simp add: advanced_def same_file_def on_wire_def fun_eq_iff)
    with r a show ?thesis by (simp add: advanced_def file_yields_def same_file_origin file_origin_def)
  qed
qed

lemma file_rewind_yields:
  assumes "file_yields s as" and "file_yields s2 bs" and "file_origin s2 = file_origin s"
    and "source_rewind (source_position s) s2 = (Inr (), s3)"
  shows "file_yields s3 as \<and> file_origin s3 = file_origin s \<and> source_position s3 = source_position s"
proof -
  have ok: "source_ok s" "script_ok (fr_script s2)" using assms(1,2) by (simp_all add: file_yields_def)
  note okD = source_okD [OF ok(1)]
  obtain n script where call: "os_call (fr_script s2) = (Inr n, script)" "script_ok script"
    using os_call_ok [OF ok(2)] by blast
  have same: "fr_file s2 = fr_file s" "fr_format s2 = fr_format s" "fr_record_len s2 = fr_record_len s"
    "fr_ebcdic s2 = fr_ebcdic s"
    using assms(3) by (simp_all add: file_origin_def)
  have s3: "s3 = s2\<lparr>fr_script := script, fr_rest := drop (unat (po_file_offset (fr_pos s))) (fr_file s),
      fr_cutter := cutter_new (fr_format s) (fr_record_len s), fr_file_pos := po_file_offset (fr_pos s),
      fr_pos := fr_pos s, fr_eof := False\<rparr>"
    using assms(4) call(1) same by (simp add: source_rewind_def source_position_def)
  have cutter: "cutter_inv (cutter_new (fr_format s) (fr_record_len s))"
    "cutter_avail (cutter_new (fr_format s) (fr_record_len s)) = []"
    "ac_format (cutter_new (fr_format s) (fr_record_len s)) = fr_format s"
    "ac_record_len (cutter_new (fr_format s) (fr_record_len s)) = max (fr_record_len s) 1"
    by (simp_all add: cutter_inv_def cutter_new_def cutter_avail_def)
  have rem: "remaining s3 = remaining s" 
    unfolding okD(8) using cutter(2) by (simp add: s3 remaining_def)
  have "source_ok s3"
  proof (rule source_okI)
    show "remaining s3 = drop (unat (po_file_offset (fr_pos s3))) (fr_file s3)"
      unfolding rem using okD(8) same by (simp add: s3)
  qed (use okD(4,5,7) same cutter in \<open>simp_all add: s3\<close>)
  moreover have "on_wire s3 = on_wire s" using same by (simp add: s3 on_wire_def fun_eq_iff)
  ultimately show ?thesis using assms(1) call(2) same rem
    by (simp add: file_yields_def file_origin_def source_position_def) (simp add: s3)
qed

interpretation file_src: article_source file_yields file_origin source_next source_position source_rewind
proof
  show "r = Some a \<and> file_yields s' as \<and> file_origin s' = file_origin s"
    if "file_yields s (a # as)" "source_next s = (Inr r, s')" for s a as r s'
    using file_next_yields [OF that] by simp
  show "r = None \<and> file_yields s' [] \<and> file_origin s' = file_origin s"
    if "file_yields s []" "source_next s = (Inr r, s')" for s r s'
    using file_next_yields [OF that] by simp
qed (rule file_rewind_yields)


lemma file_yields_collect:
  "file_yields s as \<Longrightarrow> length (remaining s) < n \<Longrightarrow> source_collect n s = Some (as, None)"
  using source_collect_eq [of s n] by (auto simp: file_yields_def)

lemma file_yields_rewind_ok:
  "file_yields s as \<Longrightarrow> \<exists>s'. source_rewind p s = (Inr (), s')"
  using os_call_ok [of "fr_script s"] by (auto simp: file_yields_def source_rewind_def)

lemma file_yields_remaining: "file_yields s as \<Longrightarrow> length (remaining s) \<le> length (fr_file s)"
  using source_okD(8) by (fastforce simp: file_yields_def)

text \<open>a transfer can be resumed. Let a file without format error be read by a source, in any way:
  articles taken, and returns to positions reported before. From every state of such a run, the
  source can go back to the position of every other state of the run, and the articles it yields
  then are exactly those that state had still to yield.\<close>

theorem file_source_resumes:
  assumes "source_open (Inr data) fmt rl script = Inr s" and "script_ok script" and "length data < 2 ^ 64"
    and "run_cutter (cutter_new fmt rl) [data] = (as, None)"
    and "file_src.source_run (source_with_ebcdic ebcdic s) s1"
    and "file_src.source_run (source_with_ebcdic ebcdic s) s2"
  shows "\<exists>s3 bs. source_rewind (source_position s1) s2 = (Inr (), s3) \<and> source_position s3 = source_position s1 \<and>
    source_collect (length data + 1) s1 = Some (bs, None) \<and> source_collect (length data + 1) s3 = Some (bs, None)"
proof -
  let ?s = "source_with_ebcdic ebcdic s"
  note o = source_open_ok [OF assms(1-3)]
  have y: "file_yields ?s (map (on_wire ?s) as)"
    using o assms(4) by (simp add: file_yields_def cutter_new_run)
  have fl: "fr_file ?s = data" using o by (simp add: source_with_ebcdic_def)
  obtain s3 where s3: "source_rewind (source_position s1) s2 = (Inr (), s3)"
    using file_src.run_yields [OF assms(6) y] file_yields_rewind_ok by metis
  obtain k where k: "file_yields s1 (drop k (map (on_wire ?s) as))" "file_yields s3 (drop k (map (on_wire ?s) as))"
    "source_position s3 = source_position s1"
    by (rule file_src.run_resumes [OF assms(5,6) y s3])
  have "fr_file s1 = data" "fr_file s3 = data"
    using file_src.run_yields [OF assms(5) y] file_src.run_yields [OF file_src.run_rewind [OF assms(6,5) s3] y] fl
    by (auto simp: file_origin_def)
  then have "length (remaining s1) < length data + 1" "length (remaining s3) < length data + 1"
    using file_yields_remaining [OF k(1)] file_yields_remaining [OF k(2)] by auto
  with k s3 file_yields_collect show ?thesis by metis
qed

text \<open>Two articles read, then back to the position after the first.\<close>

theorem file_source_resumes_witness:
  "\<exists>s s1 s2 s3 bs r1 r2. source_open (Inr [1, 2, 3, 4, 5]) Bv 2 [] = Inr s \<and> source_next s = (Inr r1, s1) \<and>
     source_next s1 = (Inr r2, s2) \<and> source_rewind (source_position s1) s2 = (Inr (), s3) \<and>
     source_collect (length ([1, 2, 3, 4, 5] :: bytes) + 1) s3 = Some (bs, None) \<and>
     source_collect (length ([1, 2, 3, 4, 5] :: bytes) + 1) s1 = Some (bs, None)"
proof -
  obtain s where s: "source_open (Inr [1, 2, 3, 4, 5]) Bv 2 [] = Inr s"
    by (simp add: source_open_def map_err_def os_call_def)
  have cut: "run_cutter (cutter_new Bv 2) [[1, 2, 3, 4, 5]] = ([[1, 2], [3, 4], [5]], None)" by code_simp
  have e: "source_with_ebcdic False s = s"
    using source_open_ok [OF s] by (simp add: source_with_ebcdic_def script_ok_def)
  have y: "file_yields s (map (on_wire s) [[1, 2], [3, 4], [5]])"
    using source_open_ok [OF s] cut by (simp add: file_yields_def cutter_new_run script_ok_def)
  obtain res1 s1 where n1: "source_next s = (res1, s1)" by (cases "source_next s")
  have r1: "\<exists>r1. res1 = Inr r1"
    using source_next_ok [of s] file_yields_step [OF y] y n1 by (auto simp: next_spec_def file_yields_def)
  then obtain r1 where r1: "source_next s = (Inr r1, s1)" using n1 by blast
  have y1: "file_yields s1 (map (on_wire s) [[3, 4], [5]])" using file_next_yields [OF y r1] by simp
  obtain res2 s2 where n2: "source_next s1 = (res2, s2)" by (cases "source_next s1")
  have "\<exists>r2. res2 = Inr r2"
    using source_next_ok [of s1] file_yields_step [OF y1] y1 n2 by (auto simp: next_spec_def file_yields_def)
  then obtain r2 where r2: "source_next s1 = (Inr r2, s2)" using n2 by blast
  note runs = file_src.run_next [OF file_src.run_init r1] 
  have "\<exists>s3 bs. source_rewind (source_position s1) s2 = (Inr (), s3) \<and> source_position s3 = source_position s1 \<and>
    source_collect (length ([1, 2, 3, 4, 5] :: bytes) + 1) s1 = Some (bs, None) \<and>
    source_collect (length ([1, 2, 3, 4, 5] :: bytes) + 1) s3 = Some (bs, None)"
    by (rule file_source_resumes [OF s _ _ cut, where ebcdic = False])
      (use runs file_src.run_next [OF runs r2] in \<open>simp_all add: e script_ok_def\<close>)
  with s r1 r2 show ?thesis by blast
qed

end
