(* ===== verification/Article_Sink.thy ===== *)
theory Article_Sink
  imports Article_Io_Props
begin

text \<open>
  The contract of article sinks, its interpretation on the file sink and on the memory sink, and
  the composition of a file source with a file sink.
\<close>

section \<open>The contract of a sink\<close>

text \<open>
  \<open>holds s as\<close>: the sink holds the articles \<open>as\<close>, those before a restart included. \<open>pos_of s as\<close> is the
  position after them, and \<open>room\<close> bounds what fits the 64-bit counters. The laws are about
  operations that succeed.
\<close>

locale article_sink =
  fixes holds :: "'s \<Rightarrow> bytes list \<Rightarrow> bool"
    and pos_of :: "'s \<Rightarrow> bytes list \<Rightarrow> io_position"
    and room :: "'s \<Rightarrow> bytes list \<Rightarrow> bool"
    and write_art :: "bytes \<Rightarrow> 's \<Rightarrow> (io_error, unit) result \<times> 's"
    and checkpoint :: "'s \<Rightarrow> (io_error, io_position) result \<times> 's"
    and truncate :: "io_position \<Rightarrow> 's \<Rightarrow> (io_error, unit) result \<times> 's"
  assumes write_holds: "holds s as \<Longrightarrow> room s (as @ [a]) \<Longrightarrow> write_art a s = (Inr (), s') \<Longrightarrow>
      holds s' (as @ [a]) \<and> pos_of s' = pos_of s \<and> room s' = room s"
    and checkpoint_holds: "holds s as \<Longrightarrow> checkpoint s = (Inr p, s') \<Longrightarrow>
      p = pos_of s as \<and> holds s' as \<and> pos_of s' = pos_of s \<and> room s' = room s"
    and truncate_holds: "holds s (as @ bs) \<Longrightarrow> truncate (pos_of s as) s = (Inr (), s') \<Longrightarrow>
      holds s' as \<and> pos_of s' = pos_of s \<and> room s' = room s"
    and room_prefix: "room s (as @ bs) \<Longrightarrow> room s as"
begin

fun write_arts :: "bytes list \<Rightarrow> 's \<Rightarrow> (io_error, unit) result \<times> 's" where
  "write_arts [] s = (Inr (), s)"
| "write_arts (a # as) s = (case write_art a s of (Inl e, s') \<Rightarrow> (Inl e, s') | (Inr _, s') \<Rightarrow> write_arts as s')"

lemma write_arts_holds:
  "holds s as \<Longrightarrow> room s (as @ bs) \<Longrightarrow> write_arts bs s = (Inr (), s') \<Longrightarrow>
    holds s' (as @ bs) \<and> pos_of s' = pos_of s \<and> room s' = room s"
proof (induction bs arbitrary: s as)
  case (Cons b bs)
  from Cons.prems(3) obtain s1 where s1: "write_art b s = (Inr (), s1)" "write_arts bs s1 = (Inr (), s')"
    by (auto split: prod.splits sum.splits)
  have "room s (as @ [b])" using room_prefix [of s "as @ [b]" bs] Cons.prems(2) by simp
  from write_holds [OF Cons.prems(1) this s1(1)] Cons.IH [of s1 "as @ [b]"] s1(2) Cons.prems(2)
  show ?case by simp
qed simp

text \<open>
  A restart: articles written after a checkpoint are replaced by those written after going back.
\<close>

lemma restart_holds:
  assumes "holds s as" and "checkpoint s = (Inr p, s1)" and "write_arts bs s1 = (Inr (), s2)"
    and "truncate p s2 = (Inr (), s3)" and "write_arts cs s3 = (Inr (), s4)"
    and "room s (as @ bs)" and "room s (as @ cs)"
  shows "holds s4 (as @ cs)"
proof -
  from checkpoint_holds [OF assms(1,2)] have 1: "p = pos_of s as" "holds s1 as" "pos_of s1 = pos_of s" "room s1 = room s"
    by auto
  from write_arts_holds [OF 1(2) _ assms(3)] assms(6) 1 have 2: "holds s2 (as @ bs)" "pos_of s2 = pos_of s" "room s2 = room s"
    by auto
  from truncate_holds [OF 2(1), of s3] assms(4) 1 2 have 3: "holds s3 as" "room s3 = room s" by auto
  from write_arts_holds [OF 3(1) _ assms(5)] assms(7) 3(2) show ?thesis by auto
qed

end

section \<open>The file sink\<close>

definition off_wire :: "file_sink \<Rightarrow> bytes \<Rightarrow> bytes" where
  "off_wire s a = (if fw_ebcdic s then to_latin1 a else a)"

definition sink_bytes :: "file_sink \<Rightarrow> bytes list \<Rightarrow> bytes" where
  "sink_bytes s as = concat (map (\<lambda>a. article_to_bytes (fw_format s) (off_wire s a)) as)"

definition sink_pos :: "file_sink \<Rightarrow> bytes list \<Rightarrow> io_position" where
  "sink_pos s as = \<lparr>po_file_offset = word_of_nat (length (sink_bytes s as)),
     po_data_bytes = word_of_nat (sum_list (map length as)), po_articles = word_of_nat (length as)\<rparr>"

definition sink_room :: "file_sink \<Rightarrow> bytes list \<Rightarrow> bool" where
  "sink_room s as \<longleftrightarrow> length (sink_bytes s as) < 2 ^ 64"

definition sink_holds :: "file_sink \<Rightarrow> bytes list \<Rightarrow> bool" where
  "sink_holds s as \<longleftrightarrow> of_cursor (fw_file s) = length (of_data (fw_file s)) \<and>
     of_data (fw_file s) @ fw_buf s = sink_bytes s as \<and> fw_pos s = sink_pos s as \<and> sink_room s as \<and>
     \<not> fw_finished s"

definition sink_same :: "file_sink \<Rightarrow> file_sink \<Rightarrow> bool" where
  "sink_same s s' \<longleftrightarrow> fw_format s' = fw_format s \<and> fw_ebcdic s' = fw_ebcdic s"

lemma sink_same_fun:
  "sink_same s s' \<Longrightarrow> sink_bytes s' = sink_bytes s \<and> sink_pos s' = sink_pos s \<and> sink_room s' = sink_room s"
  by (simp add: sink_same_def sink_bytes_def sink_pos_def sink_room_def off_wire_def fun_eq_iff)

lemma length_to_latin1 [simp]: "length (to_latin1 a) = length a" "length (to_ebcdic a) = length a"
  by (simp_all add: to_latin1_def to_ebcdic_def)

lemma length_off_wire [simp]: "length (off_wire s a) = length a"
  by (simp add: off_wire_def)

lemma sink_bytes_append [simp]: "sink_bytes s (as @ bs) = sink_bytes s as @ sink_bytes s bs"
  by (simp add: sink_bytes_def)

lemma os_write_end: "of_cursor f = length (of_data f) \<Longrightarrow>
    of_data (os_write bs f) = of_data f @ bs \<and> of_cursor (os_write bs f) = length (of_data f @ bs)"
  by (simp add: os_write_def Let_def)

lemma sink_call_Inr:
  "sink_call s = (Inr x, s') \<Longrightarrow> \<exists>script. s' = s\<lparr>fw_script := script\<rparr>"
  by (auto simp: sink_call_def split: prod.splits)

lemma then_sink_Inr:
  "then_sink r f = (Inr x, s') \<longleftrightarrow> (\<exists>s1. r = (Inr (), s1) \<and> f s1 = (Inr x, s'))"
  by (auto simp: then_sink_def split: prod.splits sum.splits)

text \<open>The bytes the sink stands for, and how each part of it keeps them.\<close>

lemma sink_flush_Inr:
  assumes "sink_flush s = (Inr (), s')" and "of_cursor (fw_file s) = length (of_data (fw_file s))"
  shows "of_data (fw_file s') = of_data (fw_file s) @ fw_buf s" and "fw_buf s' = []"
    and "of_cursor (fw_file s') = length (of_data (fw_file s'))" and "sink_same s s'"
    and "fw_pos s' = fw_pos s" and "fw_finished s' = fw_finished s" and "fw_final s' = fw_final s"
  using assms os_write_end [OF assms(2), of "fw_buf s"]
  by (auto simp: sink_flush_def then_sink_Inr sink_same_def split: if_splits dest!: sink_call_Inr)

lemma sink_write_all_Inr:
  assumes "sink_write_all bs s = (Inr (), s')" and "of_cursor (fw_file s) = length (of_data (fw_file s))"
  shows "of_data (fw_file s') @ fw_buf s' = of_data (fw_file s) @ fw_buf s @ bs"
    and "of_cursor (fw_file s') = length (of_data (fw_file s'))" and "sink_same s s'"
    and "fw_pos s' = fw_pos s" and "fw_finished s' = fw_finished s"
proof -
  have "of_data (fw_file s') @ fw_buf s' = of_data (fw_file s) @ fw_buf s @ bs \<and>
    of_cursor (fw_file s') = length (of_data (fw_file s')) \<and> sink_same s s' \<and> fw_pos s' = fw_pos s \<and>
    fw_finished s' = fw_finished s"
  proof (cases "length bs < IO_BUF - length (fw_buf s)")
    case True
    with assms show ?thesis by (auto simp: sink_write_all_def sink_same_def)
  next
    case False
    define r where "r = (if length bs > IO_BUF - length (fw_buf s) then sink_flush s else (Inr (), s))"
    from assms(1) False obtain s1 where s1: "r = (Inr (), s1)"
      "(if length bs \<ge> IO_BUF
        then then_sink (sink_call s1) (\<lambda>s. (Inr (), s\<lparr>fw_file := os_write bs (fw_file s)\<rparr>))
        else (Inr (), s1\<lparr>fw_buf := fw_buf s1 @ bs\<rparr>)) = (Inr (), s')"
      by (auto simp: sink_write_all_def r_def [symmetric] then_sink_Inr)
    have 1: "of_data (fw_file s1) @ fw_buf s1 = of_data (fw_file s) @ fw_buf s"
      "of_cursor (fw_file s1) = length (of_data (fw_file s1))" "sink_same s s1" "fw_pos s1 = fw_pos s"
      "fw_finished s1 = fw_finished s"
      using s1(1) assms(2) sink_flush_Inr [of s s1] by (auto simp: r_def sink_same_def split: if_splits)
    have direct: "fw_buf s1 = []" if "length bs \<ge> IO_BUF"
    proof (cases "length bs > IO_BUF - length (fw_buf s)")
      case True
      with s1(1) assms(2) sink_flush_Inr(2) [of s s1] show ?thesis by (simp add: r_def)
    next
      case False
      with that have "length (fw_buf s) = 0" unfolding IO_BUF_def by linarith
      with s1(1) False show ?thesis by (simp add: r_def)
    qed
    show ?thesis
    proof (cases "length bs \<ge> IO_BUF")
      case True
      with s1(2) obtain script where "s' = s1\<lparr>fw_script := script, fw_file := os_write bs (fw_file s1)\<rparr>"
        by (auto simp: then_sink_Inr dest!: sink_call_Inr)
      with 1 direct [OF True] os_write_end [OF 1(2), of bs] show ?thesis by (auto simp: sink_same_def)
    next
      case False
      with s1(2) 1 show ?thesis by (auto simp: sink_same_def)
    qed
  qed
  then show "of_data (fw_file s') @ fw_buf s' = of_data (fw_file s) @ fw_buf s @ bs"
    "of_cursor (fw_file s') = length (of_data (fw_file s'))" "sink_same s s'"
    "fw_pos s' = fw_pos s" "fw_finished s' = fw_finished s" by auto
qed


lemma word_of_nat_add: "(word_of_nat m :: u64) + word_of_nat n = word_of_nat (m + n)"
  by simp

lemma file_write_holds:
  assumes "sink_holds s as" and "sink_room s (as @ [a])" and "sink_write_article a s = (Inr (), s')"
  shows "sink_holds s' (as @ [a]) \<and> sink_same s s'"
proof -
  let ?bs = "article_to_bytes (fw_format s) (off_wire s a)"
  from assms(3) obtain s1 where s1: "sink_write_all ?bs s = (Inr (), s1)"
    "s' = s1\<lparr>fw_pos := \<lparr>po_file_offset = po_file_offset (fw_pos s1) + word_of_nat (length ?bs),
       po_data_bytes = po_data_bytes (fw_pos s1) + word_of_nat (length a),
       po_articles = po_articles (fw_pos s1) + 1\<rparr>\<rparr>"
    by (auto simp: sink_write_article_def Let_def then_sink_Inr off_wire_def split: if_splits)
  have cursor: "of_cursor (fw_file s) = length (of_data (fw_file s))" using assms(1) by (simp add: sink_holds_def)
  note w = sink_write_all_Inr [OF s1(1) cursor]
  have same: "sink_same s s'" using w(3) by (simp add: sink_same_def s1(2))
  have "of_data (fw_file s') @ fw_buf s' = sink_bytes s (as @ [a])"
    using w(1) assms(1) by (simp add: s1(2) sink_holds_def sink_bytes_def)
  moreover have "fw_pos s' = sink_pos s (as @ [a])"
    using w(4) assms(1) by (simp add: s1(2) sink_holds_def sink_pos_def sink_bytes_def)
  ultimately show ?thesis
    using w(2,5) assms(1,2) same sink_same_fun [OF same] by (simp add: sink_holds_def s1(2))
qed

lemma sink_holds_script: "sink_holds (s\<lparr>fw_script := x\<rparr>) as = sink_holds s as"
  by (simp add: sink_holds_def sink_bytes_def sink_pos_def sink_room_def off_wire_def)

lemma sink_same_script: "sink_same s (s'\<lparr>fw_script := x\<rparr>) = sink_same s s'"
  by (simp add: sink_same_def)

lemma file_flush_holds:
  assumes "sink_holds s as" and "sink_flush s = (Inr (), s')"
  shows "sink_holds s' as \<and> sink_same s s' \<and> fw_buf s' = [] \<and> of_data (fw_file s') = sink_bytes s as \<and>
    fw_final s' = fw_final s"
proof -
  have cursor: "of_cursor (fw_file s) = length (of_data (fw_file s))" using assms(1) by (simp add: sink_holds_def)
  note f = sink_flush_Inr [OF assms(2) cursor]
  with assms(1) sink_same_fun [OF f(4)] show ?thesis by (simp add: sink_holds_def)
qed

lemma file_checkpoint_holds:
  assumes "sink_holds s as" and "sink_checkpoint s = (Inr p, s')"
  shows "p = sink_pos s as \<and> sink_holds s' as \<and> sink_same s s'"
proof -
  from assms(2) obtain s1 script where s1: "sink_flush s = (Inr (), s1)" "s' = s1\<lparr>fw_script := script\<rparr>" "p = fw_pos s1"
    by (auto simp: sink_checkpoint_def then_sink_Inr dest!: sink_call_Inr)
  have f: "sink_holds s1 as" "sink_same s s1" using file_flush_holds [OF assms(1) s1(1)] by auto
  then have "fw_pos s1 = sink_pos s as" using sink_same_fun [of s s1] by (simp add: sink_holds_def)
  with f s1 show ?thesis by (simp add: sink_holds_script sink_same_script)
qed

lemma file_truncate_holds:
  assumes "sink_holds s (as @ bs)" and "sink_truncate (sink_pos s as) s = (Inr (), s')"
  shows "sink_holds s' as \<and> sink_same s s'"
proof -
  let ?n = "unat (po_file_offset (sink_pos s as))"
  from assms(2) obtain s1 sc where s1: "sink_flush s = (Inr (), s1)"
    "s' = s1\<lparr>fw_script := sc, fw_file := os_seek ?n (os_set_len ?n (fw_file s1)), fw_pos := sink_pos s as\<rparr>"
    by (auto simp: sink_truncate_def then_sink_Inr Let_def dest!: sink_call_Inr)
  note f = file_flush_holds [OF assms(1) s1(1)]
  have room: "length (sink_bytes s (as @ bs)) < 2 ^ 64" using assms(1) by (simp add: sink_holds_def sink_room_def)
  then have n: "?n = length (sink_bytes s as)" by (simp add: sink_pos_def unat_of_nat)
  have same: "sink_same s s'" using f by (simp add: sink_same_def s1(2))
  have "of_data (fw_file s') = sink_bytes s as" using f n by (simp add: s1(2) os_seek_def os_set_len_def)
  moreover have "of_cursor (fw_file s') = length (sink_bytes s as)" using n by (simp add: s1(2) os_seek_def)
  moreover have "fw_buf s' = []" "\<not> fw_finished s'" using f by (simp_all add: s1(2) sink_holds_def)
  ultimately show ?thesis
    using same sink_same_fun [OF same] room by (simp add: sink_holds_def sink_room_def s1(2))
qed

interpretation file_snk: article_sink sink_holds sink_pos sink_room sink_write_article sink_checkpoint sink_truncate
proof
  show "sink_room s (as @ bs) \<Longrightarrow> sink_room s as" for s as bs by (simp add: sink_room_def)
qed (use file_write_holds file_checkpoint_holds file_truncate_holds sink_same_fun in metis)+

subsection \<open>Finishing\<close>

lemma file_finish_holds:
  assumes "sink_holds s as" and "sink_finish s = (Inr (), s')"
  shows "fw_final s' = Some (sink_bytes s as) \<and> fw_finished s' \<and> \<not> fw_part s'"
proof -
  from assms obtain s1 sc where s1: "sink_flush s = (Inr (), s1)"
    "s' = s1\<lparr>fw_script := sc, fw_final := Some (of_data (fw_file s1)), fw_part := False, fw_finished := True\<rparr>"
    by (auto simp: sink_finish_def sink_holds_def then_sink_Inr dest!: sink_call_Inr)
  with file_flush_holds [OF assms(1) s1(1)] show ?thesis by simp
qed

lemma file_unfinished_final:
  "sink_write_article a s = (r, s') \<Longrightarrow> fw_final s' = fw_final s"
  "sink_checkpoint s = (r2, s') \<Longrightarrow> fw_final s' = fw_final s"
  "sink_truncate p s = (r, s') \<Longrightarrow> fw_final s' = fw_final s"
  by (auto simp: sink_write_article_def sink_write_all_def sink_checkpoint_def sink_truncate_def sink_flush_def
      sink_call_def then_sink_def Let_def split: prod.splits sum.splits if_splits)

lemma file_create_holds:
  assumes "sink_create part final fmt None script = (Inr (), s)"
  shows "sink_holds s [] \<and> fw_format s = fmt \<and> fw_ebcdic s = False \<and> fw_final s = final"
proof -
  from assms obtain sc where "s = \<lparr>fw_file = \<lparr>of_data = [], of_cursor = 0\<rparr>, fw_part = True, fw_final = final,
      fw_script = sc, fw_buf = [], fw_format = fmt, fw_pos = position_default, fw_finished = False, fw_ebcdic = False\<rparr>"
    by (auto simp: sink_create_def Let_def then_sink_Inr os_seek_def position_default_def dest!: sink_call_Inr)
  then show ?thesis
    by (simp add: sink_holds_def sink_bytes_def sink_pos_def sink_room_def position_default_def)
qed

lemma file_resume_holds:
  assumes "sink_create (Some (sink_bytes t as @ rest)) final fmt (Some (sink_pos t as)) script = (Inr (), s)"
    and "fw_format t = fmt" and "fw_ebcdic t = False" and "sink_room t as"
  shows "sink_holds s as"
proof -
  let ?n = "unat (po_file_offset (sink_pos t as))"
  have n: "?n = length (sink_bytes t as)" using assms(4) by (simp add: sink_pos_def sink_room_def unat_of_nat)
  from assms(1) obtain sc where s: "s = \<lparr>fw_file = \<lparr>of_data = take ?n (sink_bytes t as @ rest) @ replicate (?n - length (sink_bytes t as @ rest)) 0,
      of_cursor = ?n\<rparr>, fw_part = True, fw_final = final, fw_script = sc, fw_buf = [], fw_format = fmt,
      fw_pos = sink_pos t as, fw_finished = False, fw_ebcdic = False\<rparr>"
    by (auto simp: sink_create_def Let_def then_sink_Inr os_seek_def os_set_len_def dest!: sink_call_Inr)
  have "sink_same t s" using assms(2,3) by (simp add: sink_same_def s)
  from sink_same_fun [OF this] assms(4) n show ?thesis by (simp add: sink_holds_def s)
qed


subsection \<open>Writing a file\<close>

fun sink_write_articles :: "bytes list \<Rightarrow> file_sink \<Rightarrow> (io_error, unit) result \<times> file_sink" where
  "sink_write_articles [] s = (Inr (), s)"
| "sink_write_articles (a # as) s = then_sink (sink_write_article a s) (sink_write_articles as)"

lemma sink_write_articles_eq: "sink_write_articles as s = file_snk.write_arts as s"
  by (induction as arbitrary: s) (auto simp: then_sink_def split: prod.splits sum.splits)

lemma sink_writes_same: "sink_write_articles xs s = (Inr (), s') \<Longrightarrow> sink_same s s'"
proof (induction xs arbitrary: s)
  case (Cons x xs)
  then obtain s'' where w: "sink_write_article x s = (Inr (), s'')" "sink_write_articles xs s'' = (Inr (), s')"
    by (auto simp: then_sink_Inr)
  have "sink_same s s''" using w(1)
    by (auto simp: sink_write_article_def sink_write_all_def sink_flush_def then_sink_Inr Let_def sink_same_def
        split: if_splits dest!: sink_call_Inr)
  with Cons.IH [OF w(2)] show ?case by (simp add: sink_same_def)
qed (simp add: sink_same_def)

text \<open>C38: restarting a reception. Articles are written to a new file sink, a checkpoint is taken, more
  articles follow, the sink is cut back to the checkpoint, other articles are written, and the sink
  is finished. If every step succeeds, the file under its final name holds exactly the articles
  before the checkpoint and those after the restart.\<close>

theorem file_sink_restart:
  assumes "sink_create part final fmt None script = (Inr (), s0)"
    and "sink_write_articles as (sink_with_ebcdic e s0) = (Inr (), s1)"
    and "sink_checkpoint s1 = (Inr p, s2)" and "sink_write_articles bs s2 = (Inr (), s3)"
    and "sink_truncate p s3 = (Inr (), s4)" and "sink_write_articles cs s4 = (Inr (), s5)"
    and "sink_finish s5 = (Inr (), s6)"
    and "sink_room s1 (as @ bs)" and "sink_room s1 (as @ cs)"
  shows "fw_final s6 = Some (concat (map (\<lambda>a. article_to_bytes fmt (if e then to_latin1 a else a)) (as @ cs)))"
proof -
  let ?s = "sink_with_ebcdic e s0"
  have new: "sink_holds ?s []" "fw_format ?s = fmt" "fw_ebcdic ?s = e"
    using file_create_holds [OF assms(1)]
    by (simp_all add: sink_with_ebcdic_def sink_holds_def sink_bytes_def sink_pos_def sink_room_def)
  note same = sink_writes_same
  have fmt: "fw_format s1 = fmt" "fw_ebcdic s1 = e" using same [OF assms(2)] new by (simp_all add: sink_same_def)
  have room: "sink_room ?s xs = sink_room s1 xs" for xs
    using sink_same_fun [OF same [OF assms(2)]] by simp
  have 1: "sink_holds s1 as"
    using file_snk.write_arts_holds [OF new(1), of as s1] assms(2,8) room [of as]
      file_snk.room_prefix [of s1 as bs] by (simp add: sink_write_articles_eq)
  have 5: "sink_holds s5 (as @ cs)"
    using file_snk.restart_holds [OF 1 assms(3) _ assms(5)] assms(4,6,8,9) by (simp add: sink_write_articles_eq)
  have "sink_same s1 s5"
    using file_checkpoint_holds [OF 1 assms(3)] same [OF assms(4)] same [OF assms(6)] assms(5)
    by (auto simp: sink_same_def sink_truncate_def sink_flush_def then_sink_Inr Let_def split: if_splits dest!: sink_call_Inr)
  then have "sink_bytes s5 (as @ cs) = concat (map (\<lambda>a. article_to_bytes fmt (if e then to_latin1 a else a)) (as @ cs))"
    using fmt by (simp add: sink_bytes_def off_wire_def sink_same_def)
  with file_finish_holds [OF 5 assms(7)] show ?thesis by simp
qed

subsection \<open>Without faults every operation succeeds\<close>

definition runs :: "(io_error, 'a) result \<times> file_sink \<Rightarrow> bool" where
  "runs r \<longleftrightarrow> (\<exists>x s. r = (Inr x, s) \<and> script_ok (fw_script s))"

lemma runs_call: "script_ok (fw_script s) \<Longrightarrow> runs (sink_call s)"
  using os_call_ok [of "fw_script s"] by (auto simp: runs_def sink_call_def)

lemma runs_then: "runs r \<Longrightarrow> (\<And>s. script_ok (fw_script s) \<Longrightarrow> runs (f s)) \<Longrightarrow> runs (then_sink r f)"
  by (auto simp: runs_def then_sink_def)

lemma runs_return [simp]: "runs (Inr x, s) \<longleftrightarrow> script_ok (fw_script s)"
  by (simp add: runs_def)

lemma runs_flush: "script_ok (fw_script s) \<Longrightarrow> runs (sink_flush s)"
  by (auto simp: sink_flush_def intro!: runs_then runs_call)

lemma runs_write: "script_ok (fw_script s) \<Longrightarrow> runs (sink_write_article a s)"
  by (auto simp: sink_write_article_def sink_write_all_def Let_def intro!: runs_then runs_call runs_flush)

lemma runs_finish: "script_ok (fw_script s) \<Longrightarrow> runs (sink_finish s)"
  by (auto simp: sink_finish_def intro!: runs_then runs_call runs_flush)

lemma runs_checkpoint: "script_ok (fw_script s) \<Longrightarrow> runs (sink_checkpoint s)"
  by (auto simp: sink_checkpoint_def intro!: runs_then runs_call runs_flush)

lemma runs_truncate: "script_ok (fw_script s) \<Longrightarrow> runs (sink_truncate p s)"
  by (auto simp: sink_truncate_def Let_def intro!: runs_then runs_call runs_flush)

lemma runs_create: "script_ok script \<Longrightarrow> runs (sink_create part final fmt resume script)"
  by (auto simp: sink_create_def Let_def intro!: runs_then runs_call split: option.split)

lemma runs_writes: "script_ok (fw_script s) \<Longrightarrow> runs (sink_write_articles as s)"
  by (induction as arbitrary: s) (auto intro!: runs_then runs_write)


theorem file_sink_restart_witness:
  "\<exists>s0 s1 s2 s3 s4 s5 s6 p.
     sink_create None None Tv None [] = (Inr (), s0) \<and> sink_write_articles [[72, 105]] (sink_with_ebcdic False s0) = (Inr (), s1) \<and>
     sink_checkpoint s1 = (Inr p, s2) \<and> sink_write_articles [[1], [2, 3]] s2 = (Inr (), s3) \<and>
     sink_truncate p s3 = (Inr (), s4) \<and> sink_write_articles [[33]] s4 = (Inr (), s5) \<and>
     sink_finish s5 = (Inr (), s6) \<and> fw_final s6 = Some [72, 105, 10, 33, 10]"
proof -
  have nil: "script_ok []" by (simp add: script_ok_def)
  obtain s0 where s0: "sink_create None None Tv None [] = (Inr (), s0)" "script_ok (fw_script s0)"
    using runs_create [OF nil, of None None Tv None] by (auto simp: runs_def)
  then have k: "fw_format (sink_with_ebcdic False s0) = Tv" "fw_ebcdic (sink_with_ebcdic False s0) = False"
    "script_ok (fw_script (sink_with_ebcdic False s0))"
    using file_create_holds [OF s0(1)] by (simp_all add: sink_with_ebcdic_def)
  obtain s1 where s1: "sink_write_articles [[72, 105]] (sink_with_ebcdic False s0) = (Inr (), s1)" "script_ok (fw_script s1)"
    using runs_writes [OF k(3), of "[[72, 105]]"] by (auto simp: runs_def)
  obtain p s2 where s2: "sink_checkpoint s1 = (Inr p, s2)" "script_ok (fw_script s2)"
    using runs_checkpoint [OF s1(2)] by (auto simp: runs_def)
  obtain s3 where s3: "sink_write_articles [[1], [2, 3]] s2 = (Inr (), s3)" "script_ok (fw_script s3)"
    using runs_writes [OF s2(2), of "[[1], [2, 3]]"] by (auto simp: runs_def)
  obtain s4 where s4: "sink_truncate p s3 = (Inr (), s4)" "script_ok (fw_script s4)"
    using runs_truncate [OF s3(2), of p] by (auto simp: runs_def)
  obtain s5 where s5: "sink_write_articles [[33]] s4 = (Inr (), s5)" "script_ok (fw_script s5)"
    using runs_writes [OF s4(2), of "[[33]]"] by (auto simp: runs_def)
  obtain s6 where s6: "sink_finish s5 = (Inr (), s6)" using runs_finish [OF s5(2)] by (auto simp: runs_def)
  note steps = s0(1) s1(1) s2(1) s3(1) s4(1) s5(1) s6
  have "fw_format s1 = Tv" "fw_ebcdic s1 = False"
    using sink_writes_same [OF s1(1)] k by (simp_all add: sink_same_def)
  then have room: "sink_room s1 ([[72, 105]] @ [[1], [2, 3]])" "sink_room s1 ([[72, 105]] @ [[33]])"
    by (simp_all add: sink_room_def sink_bytes_def off_wire_def article_to_bytes_def rf_is_text_def)
  have "fw_final s6 = Some (concat (map (\<lambda>a. article_to_bytes Tv (if False then to_latin1 a else a)) ([[72, 105]] @ [[33]])))"
    by (rule file_sink_restart [OF steps room])
  then have "fw_final s6 = Some [72, 105, 10, 33, 10]"
    by (simp add: article_to_bytes_def rf_is_text_def)
  with steps show ?thesis by blast
qed

section \<open>Copying a file\<close>

lemma cut_file_binary:
  "0 < rl \<Longrightarrow> \<not> rf_is_text fmt \<Longrightarrow> cut_file fmt rl data = (as, None) \<Longrightarrow> concat as = data"
proof -
  assume a: "0 < rl" "\<not> rf_is_text fmt" "cut_file fmt rl data = (as, None)"
  obtain bs r where c: "cut_all fmt rl data = (bs, None, r)" "bs @ (if r = [] then [] else [r]) = chunks rl data"
    using cut_all_binary [OF a(1,2), of data] by blast
  with a(2,3) have "as = bs @ (if r = [] then [] else [r])"
    by (auto simp: cut_file_def finish_of_def split: if_splits)
  with c(2) a(1) show ?thesis by (simp add: concat_chunks)
qed

lemma to_latin1_to_ebcdic [simp]: "to_latin1 (to_ebcdic a) = a"
  by (simp add: to_latin1_def to_ebcdic_def latin1_ebcdic_byte map_idI)

text \<open>C39: a transfer through files. Without I/O faults, and whatever numbers of bytes the reads return, a
  file without format error that is read through a file source and written through a new file sink
  of the same format, with the EBCDIC translation at both ends or at none, ends up under its final
  name as the concatenation of its articles; for the binary formats this is the file itself.\<close>

theorem file_copy:
  assumes "source_open (Inr data) fmt rl script = Inr s" and "script_ok script" and "script_ok script'"
    and "length data < 2 ^ 64" and "run_cutter (cutter_new fmt rl) [data] = (as, None)"
    and "length (concat (map (article_to_bytes fmt) as)) < 2 ^ 64"
  shows "\<exists>ws s1 s2 s3. source_collect (length data + 1) (source_with_ebcdic e s) = Some (ws, None) \<and>
    sink_create part final fmt None script' = (Inr (), s1) \<and>
    sink_write_articles ws (sink_with_ebcdic e s1) = (Inr (), s2) \<and> sink_finish s2 = (Inr (), s3) \<and>
    fw_final s3 = Some (concat (map (article_to_bytes fmt) as)) \<and>
    (\<not> rf_is_text fmt \<longrightarrow> concat (map (article_to_bytes fmt) as) = data)"
proof -
  let ?src = "source_with_ebcdic e s"
  let ?ws = "map (on_wire ?src) as"
  note o = source_open_ok [OF assms(1,2,4)]
  have cut: "cut_file fmt (max rl 1) data = (as, None)" using assms(5) by (simp add: cutter_new_run)
  have collect: "source_collect (length data + 1) ?src = Some (?ws, None)"
    using o cut by (intro file_yields_collect) (simp_all add: file_yields_def)
  obtain s1 where s1: "sink_create part final fmt None script' = (Inr (), s1)" "script_ok (fw_script s1)"
    using runs_create [OF assms(3), of part final fmt None] by (auto simp: runs_def)
  let ?k = "sink_with_ebcdic e s1"
  have k: "sink_holds ?k []" "fw_format ?k = fmt" "fw_ebcdic ?k = e" "script_ok (fw_script ?k)"
    using file_create_holds [OF s1(1)] s1(2)
    by (simp_all add: sink_with_ebcdic_def sink_holds_def sink_bytes_def sink_pos_def sink_room_def)
  obtain s2 where s2: "sink_write_articles ?ws ?k = (Inr (), s2)" "script_ok (fw_script s2)"
    using runs_writes [OF k(4), of ?ws] by (auto simp: runs_def)
  have "off_wire ?k (on_wire ?src a) = a" for a
    by (simp add: off_wire_def on_wire_def k(3))
  then have bytes: "sink_bytes ?k ?ws = concat (map (article_to_bytes fmt) as)"
    by (simp add: sink_bytes_def k(2) comp_def)
  have holds: "sink_holds s2 ?ws \<and> sink_pos s2 = sink_pos ?k"
    using file_snk.write_arts_holds [OF k(1), of ?ws s2] s2(1) assms(6) bytes
    by (simp add: sink_write_articles_eq sink_room_def)
  obtain s3 where s3: "sink_finish s2 = (Inr (), s3)" using runs_finish [OF s2(2)] by (auto simp: runs_def)
  have "sink_bytes s2 ?ws = sink_bytes ?k ?ws"
  proof -
    have "sink_same ?k s2"
      using s2(1) by (rule sink_writes_same)
    then show ?thesis using sink_same_fun by simp
  qed
  with file_finish_holds [OF _ s3] holds bytes have fin: "fw_final s3 = Some (concat (map (article_to_bytes fmt) as))" by metis
  have "concat (map (article_to_bytes fmt) as) = data" if "\<not> rf_is_text fmt"
    using cut_file_binary [OF _ that cut] that by (simp add: article_to_bytes_def map_idI)
  with collect s1 s2 s3 fin show ?thesis by blast
qed

theorem file_copy_witness:
  "\<exists>s ws s1 s2 s3. source_open (Inr [1, 2, 3, 4, 5]) Bu 2 [Os_Ok 0, Os_Ok 1] = Inr s \<and>
     source_collect (length ([1, 2, 3, 4, 5] :: bytes) + 1) (source_with_ebcdic True s) = Some (ws, None) \<and>
     sink_create None None Bu None [] = (Inr (), s1) \<and>
     sink_write_articles ws (sink_with_ebcdic True s1) = (Inr (), s2) \<and> sink_finish s2 = (Inr (), s3) \<and>
     fw_final s3 = Some [1, 2, 3, 4, 5]"
proof -
  obtain s where s: "source_open (Inr [1, 2, 3, 4, 5]) Bu 2 [Os_Ok 0, Os_Ok 1] = Inr s"
    by (simp add: source_open_def map_err_def os_call_def)
  have cut: "run_cutter (cutter_new Bu 2) [[1, 2, 3, 4, 5]] = ([[1, 2], [3, 4], [5]], None)" by code_simp
  have fit: "length (concat (map (article_to_bytes Bu) [[1, 2], [3, 4], [5]])) < 2 ^ 64"
    by (simp add: article_to_bytes_def rf_is_text_def)
  have same: "concat (map (article_to_bytes Bu) [[1, 2], [3, 4], [5]]) = [1, 2, 3, 4, 5]" by code_simp
  from file_copy [OF s _ _ _ cut fit, of "[]" True None None] same s show ?thesis
    by (simp add: script_ok_def)
qed


section \<open>The memory source and sink\<close>

definition vec_pos :: "bytes list \<Rightarrow> io_position" where
  "vec_pos as = \<lparr>po_file_offset = word_of_nat (sum_list (map length as)),
     po_data_bytes = word_of_nat (sum_list (map length as)), po_articles = word_of_nat (length as)\<rparr>"

definition vec_yields :: "vec_source \<Rightarrow> bytes list \<Rightarrow> bool" where
  "vec_yields s as \<longleftrightarrow> length (vs_articles s) < 2 ^ 64 \<and> vs_index s \<le> length (vs_articles s) \<and>
     as = drop (vs_index s) (vs_articles s) \<and> vs_pos s = vec_pos (take (vs_index s) (vs_articles s))"

lemma vec_pos_snoc:
  "vec_pos (as @ [a]) = \<lparr>po_file_offset = po_data_bytes (vec_pos as) + word_of_nat (length a),
     po_data_bytes = po_data_bytes (vec_pos as) + word_of_nat (length a), po_articles = po_articles (vec_pos as) + 1\<rparr>"
  by (simp add: vec_pos_def)

interpretation vec_src: article_source vec_yields vs_articles vec_next vs_pos vec_rewind
proof
  show "r = Some a \<and> vec_yields s' as \<and> vs_articles s' = vs_articles s"
    if y: "vec_yields s (a # as)" and n: "vec_next s = (Inr r, s')" for s a as r s'
  proof -
    have i: "vs_index s < length (vs_articles s)" using y by (auto simp: vec_yields_def intro: ccontr)
    then have "vs_articles s ! vs_index s = a" "as = drop (Suc (vs_index s)) (vs_articles s)"
      using y by (auto simp: vec_yields_def simp flip: Cons_nth_drop_Suc)
    moreover from i have "take (Suc (vs_index s)) (vs_articles s) = take (vs_index s) (vs_articles s) @ [vs_articles s ! vs_index s]"
      by (rule take_Suc_conv_app_nth)
    ultimately show ?thesis using y n i by (auto simp: vec_yields_def vec_next_def Let_def vec_pos_snoc)
  qed
  show "r = None \<and> vec_yields s' [] \<and> vs_articles s' = vs_articles s"
    if "vec_yields s []" and "vec_next s = (Inr r, s')" for s r s'
    using that by (auto simp: vec_yields_def vec_next_def)
  show "vec_yields s3 as \<and> vs_articles s3 = vs_articles s \<and> vs_pos s3 = vs_pos s"
    if "vec_yields s as" and "vec_yields s2 bs" and "vs_articles s2 = vs_articles s"
      and "vec_rewind (vs_pos s) s2 = (Inr (), s3)" for s as s2 bs s3
    using that by (auto simp: vec_yields_def vec_rewind_def vec_pos_def unat_of_nat)
qed

definition vec_holds :: "vec_sink \<Rightarrow> bytes list \<Rightarrow> bool" where
  "vec_holds s as \<longleftrightarrow> vk_articles s = as \<and> vk_pos s = vec_pos as \<and> length as < 2 ^ 64"

interpretation vec_snk: article_sink vec_holds "\<lambda>_. vec_pos" "\<lambda>_ as. length as < 2 ^ 64"
  vec_write_article vec_checkpoint vec_truncate
  by unfold_locales
    (auto simp: vec_holds_def vec_write_article_def vec_checkpoint_def vec_truncate_def Let_def vec_pos_snoc,
     auto simp: vec_pos_def unat_of_nat)

end
