(* ===== verification/Transport.thy ===== *)
theory Transport
  imports Builder_Props Ebcdic Article_Io
begin

text \<open>
  \<^verbatim>\<open>crates/pesit-io/src/transport.rs\<close>: entities over a byte stream. The read half of the stream is
  the bytes still to arrive (\<open>rd_inner\<close>) and what happens after them (\<open>rd_end\<close>: end of stream, or a
  socket error); the write half is the bytes written, with a script of results of the system calls.
  The check-byte flag that reader and writer share is a field of the reader.
\<close>

section \<open>Framing\<close>

datatype framing = LengthPrefixed | Raw

definition MAX_ENTITY :: usize where
  "MAX_ENTITY = 0xFFFF + 2 + CRC_LEN"

datatype transport_error = T_Io io_error | T_Closed | T_TooLarge usize usize | T_Invalid usize

record frame_reader =
  rd_inner :: bytes
  rd_end :: "io_kind option"
  rd_framing :: framing
  rd_crc :: bool
  rd_max_len :: usize
  rd_first :: bool
  rd_probe_crc :: bool

definition read_exact_or_closed ::
    "usize \<Rightarrow> frame_reader \<Rightarrow> (transport_error, bytes) result \<times> frame_reader" where
  "read_exact_or_closed n r =
     (if n \<le> length (rd_inner r) then (Inr (take n (rd_inner r)), r\<lparr>rd_inner := drop n (rd_inner r)\<rparr>)
      else (Inl (case rd_end r of None \<Rightarrow> T_Closed | Some e \<Rightarrow> T_Io (Io_Kind e)), r\<lparr>rd_inner := []\<rparr>))"

definition then_read ::
    "(transport_error, 'a) result \<times> frame_reader \<Rightarrow>
     ('a \<Rightarrow> frame_reader \<Rightarrow> (transport_error, 'b) result \<times> frame_reader) \<Rightarrow>
     (transport_error, 'b) result \<times> frame_reader" where
  "then_read m f = (case m of (Inl e, r) \<Rightarrow> (Inl e, r) | (Inr x, r) \<Rightarrow> f x r)"

definition connect_requests_crc :: "bytes \<Rightarrow> bool" where
  "connect_requests_crc fpdu =
     (case decode_lenient fpdu of Inl _ \<Rightarrow> False | Inr f \<Rightarrow> fpdu_get_num f Pi_Crc = Some 1)"

definition read_prefixed :: "usize \<Rightarrow> frame_reader \<Rightarrow> (transport_error, bytes) result \<times> frame_reader" where
  "read_prefixed declared r =
     (if declared > rd_max_len r then (Inl (T_TooLarge declared (rd_max_len r)), r)
      else if declared = 0 then (Inl (T_Invalid 0), r)
      else read_exact_or_closed declared r)"

definition read_raw :: "bytes \<Rightarrow> usize \<Rightarrow> frame_reader \<Rightarrow> (transport_error, bytes) result \<times> frame_reader" where
  "read_raw head declared r =
     (if declared < HEADER_LEN then (Inl (T_Invalid declared), r)
      else
        let extra = (if rd_crc r then CRC_LEN else 0) in
        if declared + extra > rd_max_len r then (Inl (T_TooLarge (declared + extra) (rd_max_len r)), r)
        else then_read (read_exact_or_closed (declared + extra - 2) r) (\<lambda>rest r.
          let v = head @ rest;
              probe = rd_probe_crc r;
              r = r\<lparr>rd_probe_crc := False\<rparr>
          in if probe \<and> extra = 0 \<and> take 2 (drop 2 v) = [0x40, 0x20] \<and> connect_requests_crc v
             then then_read (read_exact_or_closed CRC_LEN r) (\<lambda>crc r.
                    (Inr (v @ crc), r\<lparr>rd_crc := True\<rparr>))
             else (Inr v, r)))"

definition read_entity :: "frame_reader \<Rightarrow> (transport_error, bytes) result \<times> frame_reader" where
  "read_entity r =
     then_read (read_exact_or_closed 2 r) (\<lambda>head r.
       let first = rd_first r;
           r = r\<lparr>rd_first := False\<rparr>
       in if first \<and> head = take 2 PRECONNECT_MAGIC
          then then_read (read_exact_or_closed (PRECONNECT_LEN - 2) r) (\<lambda>rest r. (Inr (head @ rest), r))
          else if first \<and> (head = take 2 PRECONNECT_ACK \<or> head = take 2 PRECONNECT_NAK)
          then then_read (read_exact_or_closed 2 r) (\<lambda>rest r. (Inr (head @ rest), r))
          else
            let declared = be_len (head ! 0) (head ! 1) in
            case rd_framing r of
              LengthPrefixed \<Rightarrow> read_prefixed declared r
            | Raw \<Rightarrow> read_raw head declared r)"

section \<open>The writer\<close>

record frame_writer =
  wr_out :: bytes
  wr_script :: "os_result list"
  wr_framing :: framing

definition wr_call :: "frame_writer \<Rightarrow> (transport_error, unit) result \<times> frame_writer" where
  "wr_call w =
     (case os_call (wr_script w) of
        (Inl e, script) \<Rightarrow> (Inl (T_Io e), w\<lparr>wr_script := script\<rparr>)
      | (Inr _, script) \<Rightarrow> (Inr (), w\<lparr>wr_script := script\<rparr>))"

definition wr_all :: "bytes \<Rightarrow> frame_writer \<Rightarrow> (transport_error, unit) result \<times> frame_writer" where
  \<comment> \<open>\<^verbatim>\<open>write_all\<close> followed by \<^verbatim>\<open>flush\<close>\<close>
  "wr_all bs w =
     (case wr_call w of
        (Inl e, w) \<Rightarrow> (Inl e, w)
      | (Inr _, w) \<Rightarrow> wr_call (w\<lparr>wr_out := wr_out w @ bs\<rparr>))"

definition write_entity :: "bytes \<Rightarrow> frame_writer \<Rightarrow> (transport_error, unit) result \<times> frame_writer" where
  "write_entity entity w =
     (if length entity > 0xFFFF then (Inl (T_TooLarge (length entity) 0xFFFF), w)
      else case wr_framing w of
        LengthPrefixed \<Rightarrow> wr_all (to_be_bytes16 (u16_of_usize (length entity)) @ entity) w
      | Raw \<Rightarrow> wr_all entity w)"

definition write_raw :: "bytes \<Rightarrow> frame_writer \<Rightarrow> (transport_error, unit) result \<times> frame_writer" where
  "write_raw bs w = wr_all bs w"

text \<open>\<open>split\<close>: \<open>arriving\<close> and \<open>ending\<close> describe the read half, \<open>script\<close> the write half.\<close>

definition transport_split ::
    "bytes \<Rightarrow> io_kind option \<Rightarrow> os_result list \<Rightarrow> framing \<Rightarrow> usize \<Rightarrow> frame_reader \<times> frame_writer" where
  "transport_split arriving ending script framing max_len =
     (\<lparr>rd_inner = arriving, rd_end = ending, rd_framing = framing, rd_crc = False,
       rd_max_len = min max_len MAX_ENTITY, rd_first = True, rd_probe_crc = True\<rparr>,
      \<lparr>wr_out = [], wr_script = script, wr_framing = framing\<rparr>)"

section \<open>Reading back what was written\<close>

text \<open>The loops around the two halves: write a list of entities, read a number of entities.\<close>

fun write_entities :: "bytes list \<Rightarrow> frame_writer \<Rightarrow> (transport_error, unit) result \<times> frame_writer" where
  "write_entities [] w = (Inr (), w)"
| "write_entities (e # es) w =
     (case write_entity e w of (Inl x, w') \<Rightarrow> (Inl x, w') | (Inr _, w') \<Rightarrow> write_entities es w')"

fun read_entities :: "nat \<Rightarrow> frame_reader \<Rightarrow> (transport_error, bytes list) result \<times> frame_reader" where
  "read_entities 0 r = (Inr [], r)"
| "read_entities (Suc n) r =
     then_read (read_entity r) (\<lambda>e r. then_read (read_entities n r) (\<lambda>es r. (Inr (e # es), r)))"

lemma then_read_simps [simp]:
  "then_read (Inl e, r) f = (Inl e, r)" "then_read (Inr x, r) f = f x r"
  by (simp_all add: then_read_def)

lemma read_exact_append:
  "rd_inner r = xs @ ys \<Longrightarrow> read_exact_or_closed (length xs) r = (Inr xs, r\<lparr>rd_inner := ys\<rparr>)"
  by (simp add: read_exact_or_closed_def)

lemma read_exact_2: "rd_inner r = a # b # ys \<Longrightarrow> read_exact_or_closed 2 r = (Inr [a, b], r\<lparr>rd_inner := ys\<rparr>)"
  using read_exact_append [of r "[a, b]" ys] by (simp add: numeral_2_eq_2)

definition special_head :: "bytes \<Rightarrow> bool" where
  "special_head head \<longleftrightarrow> head = take 2 PRECONNECT_MAGIC \<or> head = take 2 PRECONNECT_ACK \<or> head = take 2 PRECONNECT_NAK"

lemma read_entity_prefixed:
  assumes "rd_framing r = LengthPrefixed" and "e \<noteq> []" and "length e < 65536" and "65535 \<le> rd_max_len r"
    and "rd_first r \<Longrightarrow> \<not> special_head (to_be_bytes16 (u16_of_usize (length e)))"
    and "rd_inner r = to_be_bytes16 (u16_of_usize (length e)) @ e @ rest"
  shows "read_entity r = (Inr e, r\<lparr>rd_inner := rest, rd_first := False\<rparr>)"
proof -
  let ?n = "u16_of_usize (length e)"
  let ?r = "r\<lparr>rd_inner := e @ rest, rd_first := False\<rparr>"
  have head: "read_exact_or_closed 2 r = (Inr (to_be_bytes16 ?n), r\<lparr>rd_inner := e @ rest\<rparr>)"
    using assms(6) by (simp add: to_be_bytes16_def read_exact_2)
  have len: "be_len (to_be_bytes16 ?n ! 0) (to_be_bytes16 ?n ! 1) = length e"
    using assms(3) by (simp add: to_be_bytes16_def)
  have "read_prefixed (length e) ?r = (Inr e, r\<lparr>rd_inner := rest, rd_first := False\<rparr>)"
    using assms(2-4) read_exact_append [of ?r e rest] by (simp add: read_prefixed_def)
  with head len assms(1,5) show ?thesis
    by (auto simp: read_entity_def Let_def special_head_def)
qed

lemma write_entity_prefixed:
  assumes "write_entity e w = (Inr (), w')" and "wr_framing w = LengthPrefixed"
  shows "wr_out w' = wr_out w @ to_be_bytes16 (u16_of_usize (length e)) @ e" and "wr_framing w' = LengthPrefixed"
    and "length e < 65536"
  using assms by (auto simp: write_entity_def wr_all_def wr_call_def split: if_splits prod.splits sum.splits)

lemma write_entities_prefixed:
  "write_entities es w = (Inr (), w') \<Longrightarrow> wr_framing w = LengthPrefixed \<Longrightarrow>
    wr_out w' = wr_out w @ concat (map (\<lambda>e. to_be_bytes16 (u16_of_usize (length e)) @ e) es) \<and>
    list_all (\<lambda>e. length e < 65536) es"
proof (induction es arbitrary: w)
  case (Cons e es)
  then obtain w1 where w1: "write_entity e w = (Inr (), w1)" "write_entities es w1 = (Inr (), w')"
    by (auto split: prod.splits sum.splits)
  from write_entity_prefixed [OF w1(1) Cons.prems(2)] Cons.IH [OF w1(2)] show ?case by simp
qed simp

lemma read_entities_prefixed:
  assumes "rd_framing r = LengthPrefixed" and "65535 \<le> rd_max_len r"
    and "list_all (\<lambda>e. e \<noteq> [] \<and> length e < 65536) es"
    and "rd_first r \<Longrightarrow> es \<noteq> [] \<Longrightarrow> \<not> special_head (to_be_bytes16 (u16_of_usize (length (hd es))))"
    and "rd_inner r = concat (map (\<lambda>e. to_be_bytes16 (u16_of_usize (length e)) @ e) es) @ rest"
  shows "\<exists>r'. read_entities (length es) r = (Inr es, r') \<and> rd_inner r' = rest \<and> rd_end r' = rd_end r"
  using assms
proof (induction es arbitrary: r)
  case (Cons e es)
  let ?rest = "concat (map (\<lambda>e. to_be_bytes16 (u16_of_usize (length e)) @ e) es) @ rest"
  let ?r = "r\<lparr>rd_inner := ?rest, rd_first := False\<rparr>"
  have "read_entity r = (Inr e, ?r)"
    using Cons.prems by (intro read_entity_prefixed) simp_all
  moreover have "\<exists>r'. read_entities (length es) ?r = (Inr es, r') \<and> rd_inner r' = rest \<and> rd_end r' = rd_end r"
    using Cons.IH [of ?r] Cons.prems by simp
  ultimately show ?case by auto
qed simp


text \<open>C40: length-prefixed framing is transparent. Entities that were written one after the other are
  read back one by one, in order and unchanged, and then the reader reports that the peer has closed
  the connection, provided no entity is empty and the first one has none of the three lengths
  (55237, 49603, 54721) whose bytes open a pre-connection message or its answers.\<close>

theorem transport_round_trip:
  assumes "transport_split [] None script LengthPrefixed MAX_ENTITY = (r0, w0)"
    and "write_entities es w0 = (Inr (), w)" and "[] \<notin> set es"
    and "es \<noteq> [] \<Longrightarrow> length (hd es) \<notin> {55237, 49603, 54721}"
  shows "\<exists>r r'. read_entities (length es) (fst (transport_split (wr_out w) None script' LengthPrefixed MAX_ENTITY)) = (Inr es, r) \<and>
    read_entity r = (Inl T_Closed, r')"
proof -
  let ?r = "fst (transport_split (wr_out w) None script' LengthPrefixed MAX_ENTITY)"
  have w: "wr_out w = concat (map (\<lambda>e. to_be_bytes16 (u16_of_usize (length e)) @ e) es)"
    "list_all (\<lambda>e. length e < 65536) es"
    using write_entities_prefixed [OF assms(2)] assms(1) by (auto simp: transport_split_def)
  have head: "\<not> special_head (to_be_bytes16 (u16_of_usize (length (hd es))))" if "es \<noteq> []"
  proof -
    have len: "length (hd es) < 65536" using that w(2) by (cases es) auto
    have "be_len a b = length (hd es)" if "to_be_bytes16 (u16_of_usize (length (hd es))) = [a, b]" for a b
      using that len be_len_u16_of_usize [OF len] by (simp add: to_be_bytes16_def)
    with assms(4) [OF that] show ?thesis
      by (auto simp: special_head_def PRECONNECT_MAGIC_def PRECONNECT_ACK_def PRECONNECT_NAK_def be_len_def
          from_be_bytes16_def)
  qed
  obtain r where r: "read_entities (length es) ?r = (Inr es, r)" "rd_inner r = []" "rd_end r = None"
    using read_entities_prefixed [of ?r es "[]"] w assms(3) head
    by (auto simp: transport_split_def MAX_ENTITY_def list_all_iff)
  moreover have "fst (read_entity r) = Inl T_Closed"
    using r(2,3) by (simp add: read_entity_def read_exact_or_closed_def)
  ultimately show ?thesis by (metis prod.collapse)
qed

theorem transport_round_trip_witness:
  "\<exists>r w r0 w0 r1. transport_split [] None [] LengthPrefixed MAX_ENTITY = (r0, w0) \<and>
     write_entities [[1, 2, 3], [4]] w0 = (Inr (), w) \<and>
     read_entities 2 (fst (transport_split (wr_out w) None [] LengthPrefixed MAX_ENTITY)) = (Inr [[1, 2, 3], [4]], r) \<and>
     read_entity r = (Inl T_Closed, r1)"
proof -
  obtain r0 w0 where s: "transport_split [] None [] LengthPrefixed MAX_ENTITY = (r0, w0)"
    by (simp add: transport_split_def)
  then obtain w where w: "write_entities [[1, 2, 3], [4]] w0 = (Inr (), w)"
    by (auto simp: transport_split_def write_entity_def wr_all_def wr_call_def os_call_def)
  from transport_round_trip [OF s w, of "[]"] s w show ?thesis by (auto simp: numeral_2_eq_2)
qed


section \<open>Raw framing\<close>

lemma read_entity_raw:
  assumes "rd_framing r = Raw" and "framed f" and "MAX_ENTITY \<le> rd_max_len r"
    and "rd_first r \<Longrightarrow> \<not> special_head (take 2 f)"
    and "rd_probe_crc r \<and> \<not> rd_crc r \<Longrightarrow> \<not> (take 2 (drop 2 f) = [0x40, 0x20] \<and> connect_requests_crc f)"
    and "rd_inner r = entity_emit (rd_crc r) f @ rest"
  shows "read_entity r = (Inr (entity_emit (rd_crc r) f), r\<lparr>rd_inner := rest, rd_first := False, rd_probe_crc := False\<rparr>)"
proof -
  obtain b0 b1 b2 b3 b4 b5 body where f: "f = b0 # b1 # b2 # b3 # b4 # b5 # body" and len: "be_len b0 b1 = length f"
    using assms(2) by (rule framed_cases)
  define tail where "tail = drop 2 (entity_emit (rd_crc r) f)"
  have emit: "entity_emit (rd_crc r) f = [b0, b1] @ tail" by (simp add: tail_def entity_emit_def f)
  have head: "read_exact_or_closed 2 r = (Inr [b0, b1], r\<lparr>rd_inner := tail @ rest\<rparr>)"
    using assms(6) emit by (simp add: read_exact_2)
  have tl: "length tail = length f + (if rd_crc r then CRC_LEN else 0) - 2"
    by (simp add: tail_def entity_emit_def f)
  have big: "HEADER_LEN \<le> length f" "length f + (if rd_crc r then CRC_LEN else 0) \<le> rd_max_len r"
    using assms(2,3) by (auto simp: framed_def MAX_ENTITY_def)
  let ?r = "r\<lparr>rd_inner := tail @ rest, rd_first := False\<rparr>"
  define extra where "extra = (if rd_crc r then CRC_LEN else 0)"
  define e where "e = entity_emit (rd_crc r) f"
  have v: "b0 # b1 # tail = e" by (simp add: e_def emit)
  have exact: "read_exact_or_closed (length f + extra - 2) ?r = (Inr tail, ?r\<lparr>rd_inner := rest\<rparr>)"
    using read_exact_append [of ?r tail rest] tl by (simp add: extra_def)
  have "\<not> (rd_probe_crc r \<and> extra = 0 \<and> take 2 (drop 2 e) = [0x40, 0x20] \<and> connect_requests_crc e)"
    using assms(5) by (cases "rd_crc r") (auto simp: extra_def e_def entity_emit_def CRC_LEN_def)
  moreover have "drop 2 e = tail" by (simp flip: v)
  ultimately have "\<not> (rd_probe_crc r \<and> extra = 0 \<and> take 2 tail = [0x40, 0x20] \<and> connect_requests_crc e)"
    by simp
  then have "read_raw [b0, b1] (length f) ?r = (Inr e, r\<lparr>rd_inner := rest, rd_first := False, rd_probe_crc := False\<rparr>)"
    using big exact v by (auto simp: read_raw_def Let_def simp flip: extra_def)
  with head len assms(1,4) f show ?thesis by (auto simp: read_entity_def Let_def special_head_def e_def)
qed

lemma read_entities_raw:
  assumes "rd_framing r = Raw" and "MAX_ENTITY \<le> rd_max_len r" and "\<not> rd_first r" and "\<not> rd_probe_crc r"
    and "list_all framed fs" and "rd_inner r = concat (map (entity_emit (rd_crc r)) fs)"
  shows "\<exists>r'. read_entities (length fs) r = (Inr (map (entity_emit (rd_crc r)) fs), r') \<and> rd_inner r' = [] \<and>
    rd_crc r' = rd_crc r \<and> rd_end r' = rd_end r"
  using assms
proof (induction fs arbitrary: r)
  case (Cons f fs)
  let ?r = "r\<lparr>rd_inner := concat (map (entity_emit (rd_crc r)) fs), rd_first := False, rd_probe_crc := False\<rparr>"
  have "read_entity r = (Inr (entity_emit (rd_crc r) f), ?r)"
    using Cons.prems by (intro read_entity_raw) simp_all
  moreover have "\<exists>r'. read_entities (length fs) ?r = (Inr (map (entity_emit (rd_crc r)) fs), r') \<and>
      rd_inner r' = [] \<and> rd_crc r' = rd_crc r \<and> rd_end r' = rd_end r"
    using Cons.IH [of ?r] Cons.prems by simp
  ultimately show ?case by auto
qed simp

text \<open>The CONNECT of a session, as the first FPDU on a raw stream.\<close>

lemma sendable_lenient:
  assumes "sendable f" and "\<not> is_data (f_kind f)"
  shows "decode_lenient (fpdu_bytes f) = Inr f"
proof -
  have "items_ok True g items \<Longrightarrow> items_ok False g items" for g items by (simp add: items_ok_def)
  then have "param_ok True p \<Longrightarrow> param_ok False p" for p by (cases p) auto
  then have "fpdu_wf False f" using assms by (auto simp: sendable_def fpdu_wf_def params_ok_def list_all_iff)
  then show ?thesis using assms(1) by (simp add: decode_lenient_def fpdu_bytes_def sendable_def decode_with_encode)
qed

lemma connect_crc:
  assumes "connect_ok c"
  shows "connect_requests_crc (fpdu_bytes (connect_build c src)) = cp_crc c"
proof -
  have "f_kind (connect_build c src) = K_Connect" by (simp add: connect_build_def setter_funs)
  then have "decode_lenient (fpdu_bytes (connect_build c src)) = Inr (connect_build c src)"
    by (intro sendable_lenient [OF connect_sendable [OF assms]]) (simp add: is_data_def)
  moreover have "fpdu_get_num (connect_build c src) Pi_Crc = Some 1 \<longleftrightarrow> cp_crc c"
    by (simp add: fpdu_get_num_def fpdu_get_def connect_params_of(1) [OF assms] get_param_append split: option.split)
  ultimately show ?thesis by (simp add: connect_requests_crc_def)
qed

lemma connect_length: "connect_ok c \<Longrightarrow> encoded_len (connect_build c src) \<le> 6000"
  using connect_compact [of c src] by (simp add: compact_def)

lemma connect_head:
  assumes "connect_ok c"
  shows "\<not> special_head (take 2 (fpdu_bytes (connect_build c src)))"
proof -
  let ?f = "connect_build c src"
  let ?n = "u16_of_usize (encoded_len ?f)"
  have len: "encoded_len ?f < 49603" using connect_length [OF assms, of src] by simp
  have "take 2 (fpdu_bytes ?f) = to_be_bytes16 ?n" by (simp add: fpdu_bytes_def header_bytes_def to_be_bytes16_def)
  moreover have "be_len a b = encoded_len ?f" if "to_be_bytes16 ?n = [a, b]" for a b
    using that len be_len_u16_of_usize [of "encoded_len ?f"] by (simp add: to_be_bytes16_def)
  ultimately show ?thesis using len
    by (fastforce simp: special_head_def PRECONNECT_MAGIC_def PRECONNECT_ACK_def PRECONNECT_NAK_def be_len_def from_be_bytes16_def)
qed

text \<open>raw framing and the detection of error control. A client opens a raw stream with a CONNECT,
  followed by check bytes when the CONNECT asks for error control, and goes on with FPDUs that carry
  check bytes exactly in that case. A server that knows nothing of the stream reads the CONNECT with
  its check bytes, switches error control on exactly when it was asked for, and reads every later
  FPDU with its check bytes as one entity.\<close>

theorem raw_stream_crc_detected:
  assumes "connect_ok c" and "list_all framed fs"
  shows "\<exists>r. read_entities (Suc (length fs))
      (fst (transport_split (entity_emit (cp_crc c) (fpdu_bytes (connect_build c src)) @
              concat (map (entity_emit (cp_crc c)) fs)) ending script Raw MAX_ENTITY)) =
      (Inr (entity_emit (cp_crc c) (fpdu_bytes (connect_build c src)) # map (entity_emit (cp_crc c)) fs), r) \<and>
    rd_crc r = cp_crc c \<and> rd_inner r = []"
proof -
  let ?f = "fpdu_bytes (connect_build c src)"
  let ?tail = "concat (map (entity_emit (cp_crc c)) fs)"
  let ?r = "fst (transport_split (entity_emit (cp_crc c) ?f @ ?tail) ending script Raw MAX_ENTITY)"
  let ?r' = "?r\<lparr>rd_inner := ?tail, rd_first := False, rd_probe_crc := False, rd_crc := cp_crc c\<rparr>"
  have framed: "framed ?f" by (rule sendable_framed [OF connect_sendable [OF assms(1)]])
  obtain b0 b1 b2 b3 b4 b5 body where f: "?f = b0 # b1 # b2 # b3 # b4 # b5 # body" and len: "be_len b0 b1 = length ?f"
    using framed by (rule framed_cases)
  have r: "rd_framing ?r = Raw" "rd_max_len ?r = MAX_ENTITY" "rd_first ?r" "rd_probe_crc ?r" "\<not> rd_crc ?r"
    by (simp_all add: transport_split_def)
  have first: "read_entity ?r = (Inr (entity_emit (cp_crc c) ?f), ?r')"
  proof (cases "cp_crc c")
    case False
    then show ?thesis using read_entity_raw [of ?r ?f ?tail] framed r connect_head [OF assms(1), of src]
        connect_crc [OF assms(1), of src]
      by (simp add: transport_split_def entity_emit_def)
  next
    case True
    have kind: "take 2 (drop 2 ?f) = [0x40, 0x20]"
      by (simp add: fpdu_bytes_def header_bytes_def connect_build_def setter_funs to_be_bytes16_def kind_phase_def
          kind_type_code_def kind_row_def)
    have sizes: "\<not> length ?f < HEADER_LEN" "\<not> MAX_ENTITY < length ?f"
      using framed by (simp_all add: framed_def MAX_ENTITY_def del: length_fpdu_bytes)
    define crc where "crc = crc_compute ?f"
    have "length crc = CRC_LEN" by (simp add: crc_def)
    have inner: "rd_inner ?r = b0 # b1 # (drop 2 ?f @ crc @ ?tail)"
      using True f by (simp add: transport_split_def entity_emit_def crc_def)
    have "read_exact_or_closed 2 ?r = (Inr [b0, b1], ?r\<lparr>rd_inner := drop 2 ?f @ crc @ ?tail\<rparr>)"
      using inner by (rule read_exact_2)
    moreover have "read_exact_or_closed (length (drop 2 ?f)) (?r\<lparr>rd_inner := drop 2 ?f @ crc @ ?tail, rd_first := False\<rparr>) =
        (Inr (drop 2 ?f), ?r\<lparr>rd_inner := crc @ ?tail, rd_first := False\<rparr>)"
      by (subst read_exact_append [where ys = "crc @ ?tail"]) simp_all
    moreover have "read_exact_or_closed CRC_LEN (?r\<lparr>rd_inner := crc @ ?tail, rd_first := False, rd_probe_crc := False\<rparr>) =
        (Inr crc, ?r\<lparr>rd_inner := ?tail, rd_first := False, rd_probe_crc := False\<rparr>)"
      using read_exact_append [of "?r\<lparr>rd_inner := crc @ ?tail, rd_first := False, rd_probe_crc := False\<rparr>" crc ?tail]
        \<open>length crc = CRC_LEN\<close> by simp
    moreover have "[b0, b1] @ drop 2 ?f = ?f" by (simp add: f)
    moreover have "\<not> special_head [b0, b1]" using connect_head [OF assms(1), of src] by (simp add: f)
    moreover have "connect_requests_crc ?f" using connect_crc [OF assms(1), of src] True by simp
    ultimately show ?thesis using r len kind sizes True
      by (simp add: read_entity_def read_raw_def Let_def special_head_def entity_emit_def crc_def transport_split_def
          del: length_fpdu_bytes)
  qed
  have "\<exists>r''. read_entities (length fs) ?r' = (Inr (map (entity_emit (cp_crc c)) fs), r'') \<and> rd_inner r'' = [] \<and> rd_crc r'' = cp_crc c"
    using read_entities_raw [of ?r' fs] assms(2) by (auto simp: transport_split_def)
  with first show ?thesis by auto
qed

theorem raw_stream_crc_detected_witness:
  "\<exists>r. read_entities (Suc (length [fpdu_bytes (relconf 1 2)]))
      (fst (transport_split (entity_emit True (fpdu_bytes (connect_build (sample_connect\<lparr>cp_crc := True\<rparr>) 7)) @
              concat (map (entity_emit True) [fpdu_bytes (relconf 1 2)])) None [] Raw MAX_ENTITY)) =
      (Inr [entity_emit True (fpdu_bytes (connect_build (sample_connect\<lparr>cp_crc := True\<rparr>) 7)),
            entity_emit True (fpdu_bytes (relconf 1 2))], r) \<and> rd_crc r"
proof -
  have ok: "connect_ok (sample_connect\<lparr>cp_crc := True\<rparr>)"
    by (simp add: connect_ok_def sample_connect_def plain_def plain_opt_def trim_end_def is_whitespace_def)
  have "framed (fpdu_bytes (relconf 1 2))"
    by (rule sendable_framed, rule sendable_smallI) (simp_all add: relconf_def service_simps)
  then show ?thesis
    using raw_stream_crc_detected [OF ok, of "[fpdu_bytes (relconf 1 2)]" 7 None "[]"] by auto
qed

end
