(* ===== verification/Session.thy ===== *)
theory Session
  imports Transport State_Machine Compress Article_Pack
begin

text \<open>
  \<^verbatim>\<open>crates/pesit-io/src/error.rs\<close> and \<^verbatim>\<open>link.rs\<close>: the errors of a session, and the link that sends
  FPDUs and receives them from the queue of a reader task. An operation on a state \<open>'s\<close> that may fail
  is an action, a function from the state to a result and the state it leaves, also on failure.

  The queue between the reader task and the session is the list of what each access to it finds
  (\<open>rx_event\<close>): an entity, an error of the reader, nothing (an empty queue, which lets a waiting
  access run into its timeout) or the end of the channel. After the list there is nothing. Texts
  that are built for an error message are the values they are built from.
\<close>

section \<open>Errors\<close>

datatype negotiation_detail =
    N_Encode encode_error
  | N_Transition transition_error
  | N_ResynNotNegotiated
  | N_UnknownRestart u32
  | N_Text string
  | N_Invalid string u64

datatype counts_detail = Counts_Bytes u64 u64 | Counts_Articles u64 u64

text \<open>
  \<open>S_Panic\<close> stands for a panic of the task. It is no value of the source and has no diagnostic: the
  last equation of \<open>abort_diag\<close> only makes the function total, and no action of a session yields it.
\<close>

datatype session_error =
    S_Transport transport_error
  | S_Decode decode_error
  | S_Protocol state fpdu_kind
  | S_Aborted diagnostic "rstring option"
  | S_Refused fpdu_kind diagnostic "rstring option"
  | S_PreconnectRefused
  | S_Io io_error
  | S_Record record_error
  | S_Reassembly reassembly_error
  | S_Decompress decompress_error
  | S_Cancelled
  | S_Timeout string
  | S_Negotiation negotiation_detail
  | S_Counts counts_detail
  | S_Panic

fun abort_diag :: "session_error \<Rightarrow> diagnostic" where
  "abort_diag (S_Transport _) = D_NETWORK_INCIDENT"
| "abort_diag (S_Decode e) = e_diag e"
| "abort_diag (S_Aborted diag _) = diag"
| "abort_diag (S_Refused _ diag _) = diag"
| "abort_diag S_PreconnectRefused = D_CALLER_NOT_AUTHORISED"
| "abort_diag (S_Io _) = D_IO_ERROR"
| "abort_diag (S_Record _) = D_RECORD_TOO_LONG"
| "abort_diag (S_Protocol _ _) = D_REMOTE_PROTOCOL_ERROR"
| "abort_diag (S_Reassembly _) = D_REMOTE_PROTOCOL_ERROR"
| "abort_diag (S_Decompress _) = D_REMOTE_PROTOCOL_ERROR"
| "abort_diag S_Cancelled = D_VOLUNTARY_STOP"
| "abort_diag (S_Timeout _) = D_TIMEOUT"
| "abort_diag (S_Negotiation _) = D_NEGOTIATION_FAILURE"
| "abort_diag (S_Counts _) = D_INVALID_COUNTS"
| "abort_diag S_Panic = D_IO_ERROR"

section \<open>Actions\<close>

type_synonym ('s, 'a) act = "'s \<Rightarrow> (session_error, 'a) result \<times> 's"

definition act_return :: "'a \<Rightarrow> ('s, 'a) act" where
  "act_return x s = (Inr x, s)"

definition act_fail :: "session_error \<Rightarrow> ('s, 'a) act" where
  "act_fail e s = (Inl e, s)"

definition act_bind :: "('s, 'a) act \<Rightarrow> ('a \<Rightarrow> ('s, 'b) act) \<Rightarrow> ('s, 'b) act" where
  "act_bind m f s = (case m s of (Inl e, s') \<Rightarrow> (Inl e, s') | (Inr x, s') \<Rightarrow> f x s')"

definition act_then :: "('s, 'a) act \<Rightarrow> ('s, 'b) act \<Rightarrow> ('s, 'b) act" where
  "act_then m n = act_bind m (\<lambda>_. n)"

definition act_get :: "('s, 's) act" where
  "act_get s = (Inr s, s)"

definition act_modify :: "('s \<Rightarrow> 's) \<Rightarrow> ('s, unit) act" where
  "act_modify f s = (Inr (), f s)"

definition act_when :: "bool \<Rightarrow> ('s, unit) act \<Rightarrow> ('s, unit) act" where
  "act_when b m = (if b then m else act_return ())"

fun act_each :: "('a \<Rightarrow> ('s, unit) act) \<Rightarrow> 'a list \<Rightarrow> ('s, unit) act" where
  "act_each f [] = act_return ()"
| "act_each f (x # xs) = act_then (f x) (act_each f xs)"

text \<open>An operation on a part of the state, with its errors converted (\<^verbatim>\<open>#[from]\<close>, \<^verbatim>\<open>map_err\<close>).\<close>

definition act_on :: "('s \<Rightarrow> 'p) \<Rightarrow> ('p \<Rightarrow> 's \<Rightarrow> 's) \<Rightarrow> ('e \<Rightarrow> session_error) \<Rightarrow>
    ('p \<Rightarrow> ('e, 'a) result \<times> 'p) \<Rightarrow> ('s, 'a) act" where
  "act_on get put h f s = (case f (get s) of (r, p) \<Rightarrow> (map_err h r, put p s))"

lemma act_simps [simp]:
  "act_bind (act_return x) f = f x" "act_bind (act_fail e) f = act_fail e"
  "act_then (act_return x) n = n" "act_then (act_fail e) n = act_fail e"
  "act_when True m = m" "act_when False m = act_return ()"
  by (auto simp: fun_eq_iff act_bind_def act_return_def act_fail_def act_then_def act_when_def)

lemma act_get_bind [simp]: "act_bind act_get f s = f s s"
  by (simp add: act_bind_def act_get_def)

lemma act_modify_then [simp]: "act_then (act_modify g) n s = n (g s)"
  by (simp add: act_bind_def act_modify_def act_then_def)

lemma act_bind_ok: "m s = (Inr x, s') \<Longrightarrow> act_bind m f s = f x s'"
  by (simp add: act_bind_def)

lemma act_then_ok: "m s = (Inr x, s') \<Longrightarrow> act_then m n s = n s'"
  by (simp add: act_then_def act_bind_def)

lemma act_bind_err: "m s = (Inl e, s') \<Longrightarrow> act_bind m f s = (Inl e, s')"
  by (simp add: act_bind_def)

lemma act_then_err: "m s = (Inl e, s') \<Longrightarrow> act_then m n s = (Inl e, s')"
  by (simp add: act_then_def act_bind_def)

lemma act_bind_eq_Inr:
  "act_bind m f s = (Inr y, s') \<longleftrightarrow> (\<exists>x s1. m s = (Inr x, s1) \<and> f x s1 = (Inr y, s'))"
  by (auto simp: act_bind_def split: prod.splits sum.splits)

lemma act_then_eq_Inr:
  "act_then m n s = (Inr y, s') \<longleftrightarrow> (\<exists>x s1. m s = (Inr x, s1) \<and> n s1 = (Inr y, s'))"
  by (simp add: act_then_def act_bind_eq_Inr)

lemma act_on_ok: "f (get s) = (Inr x, p) \<Longrightarrow> act_on get put h f s = (Inr x, put p s)"
  by (simp add: act_on_def)

lemma act_on_eq_Inr:
  "act_on get put h f s = (Inr x, s') \<longleftrightarrow> (\<exists>p. f (get s) = (Inr x, p) \<and> s' = put p s)"
  by (auto simp: act_on_def map_err_def split: prod.splits sum.splits)

lemma act_return_eq [simp]: "act_return x s = (r, s') \<longleftrightarrow> r = Inr x \<and> s' = s"
  by (auto simp: act_return_def)

lemma act_fail_eq [simp]: "act_fail e s = (r, s') \<longleftrightarrow> r = Inl e \<and> s' = s"
  by (auto simp: act_fail_def)

lemma act_modify_eq [simp]: "act_modify g s = (r, s') \<longleftrightarrow> r = Inr () \<and> s' = g s"
  by (auto simp: act_modify_def)

lemma act_get_eq [simp]: "act_get s = (r, s') \<longleftrightarrow> r = Inr s \<and> s' = s"
  by (auto simp: act_get_def)

text \<open>What every step of an action keeps: a relation between the states before and after.\<close>

definition act_keeps :: "('s \<Rightarrow> 's \<Rightarrow> bool) \<Rightarrow> ('s, 'a) act \<Rightarrow> bool" where
  "act_keeps R m \<longleftrightarrow> (\<forall>s. R s (snd (m s)))"

named_theorems act_keeps

lemma act_keepsD: "act_keeps R m \<Longrightarrow> m s = (r, s') \<Longrightarrow> R s s'"
  unfolding act_keeps_def by (metis snd_conv)

lemma act_keeps_bind:
  assumes "transp R" and "act_keeps R m" and "\<And>x. act_keeps R (f x)"
  shows "act_keeps R (act_bind m f)"
  using assms unfolding act_keeps_def act_bind_def transp_def
  by (auto split: prod.splits sum.splits) (metis snd_conv)+

lemma act_keeps_then: "transp R \<Longrightarrow> act_keeps R m \<Longrightarrow> act_keeps R n \<Longrightarrow> act_keeps R (act_then m n)"
  unfolding act_then_def by (rule act_keeps_bind)

lemma act_keeps_pure:
  "reflp R \<Longrightarrow> act_keeps R (act_return x)" "reflp R \<Longrightarrow> act_keeps R (act_fail e)" "reflp R \<Longrightarrow> act_keeps R act_get"
  by (auto simp: act_keeps_def act_return_def act_fail_def act_get_def reflp_def)

section \<open>The link\<close>

datatype rx_event = Rx_Entity bytes bool | Rx_Error transport_error | Rx_Nothing | Rx_Disconnected

text \<open>The flag of \<open>Rx_Entity\<close> tells that the reader switched error control on while it read the entity.\<close>

record link =
  lk_writer :: frame_writer
  lk_rx :: "rx_event list"
  lk_pending :: "fpdu list"
  lk_crc :: bool
  lk_max_entity :: usize
  lk_closed :: bool

text \<open>The reader task: entities until the first error, with what it does to the shared flag.\<close>

lemma then_read_shorter:
  assumes "then_read m f = (Inr x, r')" and "\<And>y r. m = (Inr y, r) \<Longrightarrow> length (rd_inner r) \<le> n"
    and "\<And>y r. f y r = (Inr x, r') \<Longrightarrow> length (rd_inner r') \<le> length (rd_inner r)"
  shows "length (rd_inner r') \<le> n"
  using assms by (fastforce simp: then_read_def split: prod.splits sum.splits)

lemma read_exact_shorter:
  "read_exact_or_closed n r = (Inr x, r') \<Longrightarrow> length (rd_inner r') = length (rd_inner r) - n \<and> n \<le> length (rd_inner r)"
  by (auto simp: read_exact_or_closed_def split: if_splits)

lemma read_raw_shorter: "read_raw h d r = (Inr x, r') \<Longrightarrow> length (rd_inner r') \<le> length (rd_inner r)"
  by (auto simp: read_raw_def then_read_def Let_def dest!: read_exact_shorter split: prod.splits sum.splits if_splits)

lemma read_prefixed_shorter: "read_prefixed d r = (Inr x, r') \<Longrightarrow> length (rd_inner r') \<le> length (rd_inner r)"
  by (auto simp: read_prefixed_def dest!: read_exact_shorter split: if_splits)

lemma read_entity_shorter:
  assumes "read_entity r = (Inr e, r')"
  shows "length (rd_inner r') < length (rd_inner r)"
proof -
  obtain h r1 where 1: "read_exact_or_closed 2 r = (Inr h, r1)"
    using assms by (cases "read_exact_or_closed 2 r") (auto simp: read_entity_def then_read_def split: sum.splits)
  have "length (rd_inner r') \<le> length (rd_inner r1)"
    using assms 1
    by (auto simp: read_entity_def then_read_def Let_def
        dest!: read_exact_shorter read_prefixed_shorter read_raw_shorter
        split: prod.splits sum.splits if_splits framing.splits)
  with read_exact_shorter [OF 1] show ?thesis by linarith
qed

function reader_task :: "frame_reader \<Rightarrow> rx_event list" where
  "reader_task r =
     (case read_entity r of
        (Inl e, r') \<Rightarrow> [Rx_Error e, Rx_Disconnected]
      | (Inr entity, r') \<Rightarrow> Rx_Entity entity (\<not> rd_crc r \<and> rd_crc r') # reader_task r')"
  by pat_completeness auto
termination
  by (relation "measure (\<lambda>r. length (rd_inner r))") (auto dest: read_entity_shorter [OF sym])

declare reader_task.simps [simp del]

definition link_new :: "frame_writer \<Rightarrow> rx_event list \<Rightarrow> link" where
  "link_new w rx = \<lparr>lk_writer = w, lk_rx = rx, lk_pending = [], lk_crc = False,
     lk_max_entity = 0xFFFF, lk_closed = False\<rparr>"

definition set_crc :: "bool \<Rightarrow> link \<Rightarrow> link" where
  "set_crc on l = l\<lparr>lk_crc := on\<rparr>"

definition set_max_entity :: "usize \<Rightarrow> link \<Rightarrow> link" where
  "set_max_entity m l = l\<lparr>lk_max_entity := min (max m (HEADER_LEN + 1)) 0xFFFF\<rparr>"

definition link_send_entity :: "bytes \<Rightarrow> (link, unit) act" where
  "link_send_entity entity =
     act_on lk_writer (\<lambda>w l. l\<lparr>lk_writer := w\<rparr>) S_Transport (write_entity entity)"

definition link_send_raw :: "bytes \<Rightarrow> (link, unit) act" where
  "link_send_raw bs = act_on lk_writer (\<lambda>w l. l\<lparr>lk_writer := w\<rparr>) S_Transport (write_raw bs)"

definition link_send :: "fpdu \<Rightarrow> (link, unit) act" where
  "link_send f l =
     (case single_entity f (lk_crc l) of
        Inl e \<Rightarrow> (Inl (S_Negotiation (N_Encode e)), l)
      | Inr entity \<Rightarrow> link_send_entity entity l)"

definition link_next_event :: "link \<Rightarrow> rx_event \<times> link" where
  "link_next_event l =
     (case lk_rx l of
        [] \<Rightarrow> (Rx_Nothing, l)
      | Rx_Entity e on # rx \<Rightarrow> (Rx_Entity e on, l\<lparr>lk_rx := rx, lk_crc := lk_crc l \<or> on\<rparr>)
      | ev # rx \<Rightarrow> (ev, l\<lparr>lk_rx := rx\<rparr>))"

definition link_recv_entity :: "(link, bytes) act" where
  "link_recv_entity l =
     (if lk_closed l then (Inl (S_Transport T_Closed), l)
      else case link_next_event l of
        (Rx_Entity e _, l) \<Rightarrow> (Inr e, l)
      | (Rx_Error e, l) \<Rightarrow> (Inl (S_Transport e), l\<lparr>lk_closed := True\<rparr>)
      | (Rx_Disconnected, l) \<Rightarrow> (Inl (S_Transport T_Closed), l\<lparr>lk_closed := True\<rparr>)
      | (Rx_Nothing, l) \<Rightarrow> (Inl (S_Timeout ''data from the peer''), l))"

fun queue_slices :: "bytes list \<Rightarrow> (link, unit) act" where
  "queue_slices [] l = (Inr (), l)"
| "queue_slices (bs # rest) l =
     (case decode bs of
        Inl e \<Rightarrow> (Inl (S_Decode e), l)
      | Inr f \<Rightarrow> queue_slices rest (l\<lparr>lk_pending := lk_pending l @ [f]\<rparr>))"

definition queue_entity :: "bytes \<Rightarrow> (link, unit) act" where
  "queue_entity entity l =
     (case split_entity entity (lk_crc l) of
        Inl e \<Rightarrow> (Inl (S_Decode e), l)
      | Inr slices \<Rightarrow> queue_slices slices l)"

definition pop_pending :: "link \<Rightarrow> fpdu option \<times> link" where
  "pop_pending l = (case lk_pending l of [] \<Rightarrow> (None, l) | f # fs \<Rightarrow> (Some f, l\<lparr>lk_pending := fs\<rparr>))"

definition link_recv :: "(link, fpdu) act" where
  "link_recv l =
     (case pop_pending l of
        (Some f, l) \<Rightarrow> (Inr f, l)
      | (None, l) \<Rightarrow>
         act_bind link_recv_entity (\<lambda>entity.
           act_then (queue_entity entity) (\<lambda>l.
             case pop_pending l of
               (Some f, l) \<Rightarrow> (Inr f, l)
             | (None, l) \<Rightarrow> (Inl (S_Transport (T_Invalid (length entity))), l))) l)"

definition link_try_recv :: "(link, fpdu option) act" where
  "link_try_recv l =
     (case pop_pending l of
        (Some f, l) \<Rightarrow> (Inr (Some f), l)
      | (None, l) \<Rightarrow>
         if lk_closed l then (Inr None, l)
         else case link_next_event l of
           (Rx_Entity entity _, l) \<Rightarrow>
             act_then (queue_entity entity) (\<lambda>l. case pop_pending l of (f, l) \<Rightarrow> (Inr f, l)) l
         | (Rx_Error e, l) \<Rightarrow> (Inl (S_Transport e), l\<lparr>lk_closed := True\<rparr>)
         | (Rx_Nothing, l) \<Rightarrow> (Inr None, l)
         | (Rx_Disconnected, l) \<Rightarrow> (Inl (S_Transport T_Closed), l\<lparr>lk_closed := True\<rparr>))"

definition link_unread :: "fpdu \<Rightarrow> link \<Rightarrow> link" where
  "link_unread f l = l\<lparr>lk_pending := f # lk_pending l\<rparr>"

end
