(* ===== verification/Datapath.thy ===== *)
theory Datapath
  imports Session Article_Sink
begin

text \<open>
  \<^verbatim>\<open>crates/pesit-io/src/datapath.rs\<close>: the data transfer phase of both roles. The local variables of
  the two loops and the objects they borrow are the fields of one state (\<open>send_state\<close>,
  \<open>recv_state\<close>); both extend \<open>conn\<close>, the link and the protocol machine. A trait object is the record of
  its operations. The cancellation flag is the list of the values its successive readings give,
  and the calls of the progress callback are collected in a list.
\<close>

section \<open>The objects a transfer works on\<close>

record 's source_ops =
  so_next :: "'s \<Rightarrow> (io_error, bytes option) result \<times> 's"
  so_position :: "'s \<Rightarrow> io_position"
  so_rewind :: "io_position \<Rightarrow> 's \<Rightarrow> (io_error, unit) result \<times> 's"
  so_size_hint :: "'s \<Rightarrow> u64 option"

record 'k sink_ops =
  ko_write :: "bytes \<Rightarrow> 'k \<Rightarrow> (io_error, unit) result \<times> 'k"
  ko_checkpoint :: "'k \<Rightarrow> (io_error, io_position) result \<times> 'k"
  ko_truncate :: "io_position \<Rightarrow> 'k \<Rightarrow> (io_error, unit) result \<times> 'k"
  ko_finish :: "'k \<Rightarrow> (io_error, unit) result \<times> 'k"

record 'c store_ops =
  to_record :: "checkpoint \<Rightarrow> 'c \<Rightarrow> (io_error, unit) result \<times> 'c"
  to_get :: "u32 \<Rightarrow> 'c \<Rightarrow> checkpoint option"
  to_last :: "'c \<Rightarrow> checkpoint option"
  to_last_acknowledged :: "'c \<Rightarrow> checkpoint option"
  to_acknowledge :: "u32 \<Rightarrow> 'c \<Rightarrow> (io_error, unit) result \<times> 'c"
  to_clear :: "'c \<Rightarrow> (io_error, unit) result \<times> 'c"

definition DEFAULT_SYNC_INTERVAL :: u64 where
  "DEFAULT_SYNC_INTERVAL = 1024 * 1024"

record data_params =
  dp_peer_id :: u8
  dp_sync :: sync_option
  dp_resync :: bool
  dp_compression :: compression
  dp_crc :: bool
  dp_max_entity :: usize
  dp_multi_article :: bool
  dp_max_article :: usize
  dp_role :: role

record progress =
  pg_data_bytes :: u64
  pg_articles :: u64
  pg_sync :: u32
  pg_total_hint :: "u64 option"

datatype data_end =
    Completed
  | EndedWithError diagnostic
  | Interrupted end_code diagnostic bool

record data_result =
  dr_end :: data_end
  dr_data_bytes :: u64
  dr_articles :: u64
  dr_last_sync :: u32

definition position_of :: "checkpoint \<Rightarrow> io_position" where
  "position_of cp = \<lparr>po_file_offset = cp_file_offset cp, po_data_bytes = cp_data_bytes cp,
     po_articles = cp_articles cp\<rparr>"

definition peer_message :: "fpdu \<Rightarrow> rstring option" where
  "peer_message f =
     (case fpdu_get_text f Pi_FreeMessage of
        Some t \<Rightarrow> Some t
      | None \<Rightarrow> fpdu_get_text f Pi_DiagComplement)"

section \<open>Link and machine together\<close>

record conn =
  cn_link :: link
  cn_machine :: machine

definition on_link :: "(link, 'a) act \<Rightarrow> ('x conn_scheme, 'a) act" where
  "on_link m s = (case m (cn_link s) of (r, l) \<Rightarrow> (r, s\<lparr>cn_link := l\<rparr>))"

definition conn_send :: "fpdu \<Rightarrow> ('x conn_scheme, unit) act" where
  "conn_send f = on_link (link_send f)"

definition conn_recv :: "('x conn_scheme, fpdu) act" where
  "conn_recv = on_link link_recv"

definition apply_local :: "local_event \<Rightarrow> ('x conn_scheme, unit) act" where
  "apply_local e =
     act_bind (act_on cn_machine (\<lambda>m s. s\<lparr>cn_machine := m\<rparr>) (\<lambda>x. S_Negotiation (N_Transition x))
       (machine_apply (Local e))) (\<lambda>_. act_return ())"

definition protocol_error :: "machine \<Rightarrow> fpdu_kind \<Rightarrow> session_error" where
  "protocol_error m k = S_Protocol (m_state m) k"

definition apply_received :: "fpdu \<Rightarrow> ('x conn_scheme, bool) act" where
  "apply_received f s =
     (if f_kind f = K_Abort then
        (Inl (S_Aborted (diag_or_ok f) (peer_message f)),
         s\<lparr>cn_machine := snd (machine_apply (Received K_Abort False) (cn_machine s))\<rparr>)
      else
        case machine_apply (Received (f_kind f) (fpdu_is_negative f)) (cn_machine s) of
          (Inl _, m) \<Rightarrow> (Inl (protocol_error m (f_kind f)), s\<lparr>cn_machine := m\<rparr>)
        | (Inr ignored, m) \<Rightarrow> (Inr ignored, s\<lparr>cn_machine := m\<rparr>))"

text \<open>
  What may still arrive: the FPDUs queued and, for every access to the queue, its entity. Receiving
  makes it smaller, sending leaves it alone; the loops that wait for the peer end because of it.
\<close>

fun event_size :: "rx_event \<Rightarrow> nat" where
  "event_size (Rx_Entity e _) = Suc (length e)"
| "event_size _ = 1"

definition link_backlog :: "link \<Rightarrow> nat" where
  "link_backlog l = length (lk_pending l) + sum_list (map event_size (lk_rx l))"

definition backlog :: "'x conn_scheme \<Rightarrow> nat" where
  "backlog s = link_backlog (cn_link s)"

lemma split_loop_slices: "split_loop n crc rest = Inr fs \<Longrightarrow> length fs \<le> length rest"
proof (induction n crc rest arbitrary: fs rule: split_loop.induct)
  case (1 n crc rest)
  show ?case
  proof (cases "rest = []")
    case False
    then obtain f rest' gs where g: "split_item n crc rest = Inr (f, rest')" "split_loop n crc rest' = Inr gs" "fs = f # gs"
      using "1.prems" by (subst (asm) split_loop.simps) (auto simp: and_then_eq_Inr)
    from "1.IH" [OF False g(1) refl g(2)] split_item_shorter [OF g(1)] g(3) show ?thesis by simp
  qed (use "1.prems" in \<open>simp add: split_loop.simps\<close>)
qed

lemma queue_slices_link:
  "queue_slices bss l = (r, l') \<Longrightarrow> lk_rx l' = lk_rx l \<and> length (lk_pending l') \<le> length (lk_pending l) + length bss"
  by (induction bss l rule: queue_slices.induct) (fastforce split: sum.splits)+

lemma queue_entity_backlog:
  assumes "queue_entity e l = (r, l')"
  shows "link_backlog l' \<le> link_backlog l + length e"
proof (cases "split_entity e (lk_crc l)")
  case (Inr slices)
  then have "length slices \<le> length e" unfolding split_entity_def by (rule split_loop_slices)
  with assms Inr show ?thesis
    by (auto simp: queue_entity_def link_backlog_def dest!: queue_slices_link)
qed (use assms in \<open>auto simp: queue_entity_def\<close>)

lemma next_event_backlog:
  "link_next_event l = (ev, l') \<Longrightarrow> lk_rx l \<noteq> [] \<Longrightarrow> link_backlog l' + event_size ev \<le> link_backlog l"
  "link_next_event l = (ev, l') \<Longrightarrow> lk_rx l = [] \<Longrightarrow> l' = l \<and> ev = Rx_Nothing"
  by (auto simp: link_next_event_def link_backlog_def split: list.splits rx_event.splits)

lemma pop_pending_backlog:
  "pop_pending l = (Some f, l') \<Longrightarrow> link_backlog l' < link_backlog l"
  "pop_pending l = (None, l') \<Longrightarrow> l' = l"
  by (auto simp: pop_pending_def link_backlog_def split: list.splits)

lemma recv_entity_backlog:
  assumes "link_recv_entity l = (r, l')"
  shows "case r of Inr e \<Rightarrow> link_backlog l' + Suc (length e) \<le> link_backlog l
    | Inl e \<Rightarrow> link_backlog l' \<le> link_backlog l \<and> \<not> (\<exists>d. e = S_Decode d)"
proof (cases "lk_closed l \<or> lk_rx l = []")
  case False
  obtain ev l1 where ev: "link_next_event l = (ev, l1)" by fastforce
  from next_event_backlog(1) [OF this] False assms ev show ?thesis
    by (auto simp: link_recv_entity_def link_backlog_def split: rx_event.splits)
qed (use assms next_event_backlog(2) [of l] in
    \<open>auto simp: link_recv_entity_def split: prod.splits rx_event.splits if_splits\<close>)

lemma link_recv_backlog:
  assumes "link_recv l = (r, l')"
  shows "link_backlog l' \<le> link_backlog l \<and> (r = Inr f \<or> r = Inl (S_Decode d) \<longrightarrow> link_backlog l' < link_backlog l)"
proof (cases "pop_pending l")
  case (Pair p l1)
  show ?thesis
  proof (cases p)
    case None
    then have [simp]: "l1 = l" using pop_pending_backlog(2) Pair by simp
    obtain re l2 where re: "link_recv_entity l = (re, l2)" by fastforce
    show ?thesis
    proof (cases re)
      case (Inl e)
      with assms Pair None re recv_entity_backlog [OF re] show ?thesis
        by (auto simp: link_recv_def act_bind_def)
    next
      case (Inr e)
      obtain rq l3 where rq: "queue_entity e l2 = (rq, l3)" by fastforce
      from recv_entity_backlog [OF re] queue_entity_backlog [OF rq] Inr
      have "link_backlog l3 < link_backlog l" by simp
      moreover have "link_backlog l' \<le> link_backlog l3"
        using assms Pair None re Inr rq
        by (auto simp: link_recv_def act_bind_def act_then_def
            dest: pop_pending_backlog split: prod.splits sum.splits option.splits)
      ultimately show ?thesis by linarith
    qed
  qed (use assms Pair in \<open>auto simp: link_recv_def dest: pop_pending_backlog\<close>)
qed

lemma conn_recv_backlog:
  "conn_recv s = (Inr f, s') \<Longrightarrow> backlog s' < backlog s"
  "conn_recv s = (Inl (S_Decode d), s') \<Longrightarrow> backlog s' < backlog s"
  using link_recv_backlog [of "cn_link s"]
  by (auto simp: conn_recv_def on_link_def backlog_def split: prod.splits)

definition no_growth :: "'x conn_scheme \<Rightarrow> 'x conn_scheme \<Rightarrow> bool" where
  "no_growth s s' \<longleftrightarrow> backlog s' \<le> backlog s"

lemma no_growth_order: "reflp no_growth" "transp no_growth"
  by (auto simp: no_growth_def reflp_def transp_def)

lemma conn_send_backlog: "conn_send f s = (r, s') \<Longrightarrow> backlog s' = backlog s"
  by (auto simp: conn_send_def on_link_def link_send_def link_send_entity_def act_on_def backlog_def link_backlog_def
      split: prod.splits sum.splits)

lemma apply_received_backlog: "apply_received f s = (r, s') \<Longrightarrow> backlog s' = backlog s"
  by (auto simp: apply_received_def backlog_def split: prod.splits sum.splits if_splits)

lemma apply_local_backlog: "apply_local e s = (r, s') \<Longrightarrow> backlog s' = backlog s"
  by (auto simp: apply_local_def act_bind_def act_on_def backlog_def split: prod.splits sum.splits)

lemmas same_backlog = conn_send_backlog apply_received_backlog apply_local_backlog

section \<open>Interruption\<close>

text \<open>The loop that waits for the answer to an IDT.\<close>

function await_idt :: "u8 \<Rightarrow> ('x conn_scheme, unit) act" where
  "await_idt peer s =
     (case conn_recv s of
        (Inl e, s') \<Rightarrow> (Inl e, s')
      | (Inr f, s') \<Rightarrow>
         (case apply_received f s' of
            (Inl e, s'') \<Rightarrow> (Inl e, s'')
          | (Inr _, s'') \<Rightarrow>
             if f_kind f = K_AckIdt then (Inr (), s'')
             else if f_kind f = K_Idt then
               act_then (conn_send (ack_idt peer)) (\<lambda>s.
                 (Inr (), s\<lparr>cn_machine := snd (machine_apply (Local L_Accept) (cn_machine s))\<rparr>)) s''
             else await_idt peer s''))"
  by pat_completeness auto
termination
  by (relation "measure (\<lambda>(peer, s). backlog s)")
    (auto dest!: conn_recv_backlog(1) [OF sym] apply_received_backlog [OF sym])

declare await_idt.simps [simp del]

definition interrupt :: "data_params \<Rightarrow> diagnostic \<Rightarrow> end_code \<Rightarrow> ('x conn_scheme, unit) act" where
  "interrupt p diag code =
     act_then (apply_local L_Cancel)
     (act_then (conn_send (idt (dp_peer_id p) diag code))
     (await_idt (dp_peer_id p)))"

definition cancel_code :: "data_params \<Rightarrow> end_code" where
  "cancel_code p = (if dp_role p = Requester then End_CancelByRequester else End_CancelByServer)"

section \<open>Sending\<close>

record ('s, 'c) send_state = conn +
  sn_source :: 's
  sn_store :: 'c
  sn_cancel :: "bool list"
  sn_progress :: "progress list"
  sn_packer :: article_packer
  sn_entity :: entity_builder
  sn_compressor :: "compressor option"
  sn_total_hint :: "u64 option"
  sn_data_bytes :: u64
  sn_articles :: u64
  sn_sync_no :: u32
  sn_bytes_since_sync :: u64
  sn_unacked :: "u32 list"
  sn_prev_pos :: io_position

datatype send_ctl = Tx_Continue | Tx_Eof | Tx_End data_end

definition send_interval :: "data_params \<Rightarrow> u64 option" where
  "send_interval p =
     (if sync_enabled (dp_sync p)
      then Some (case interval_bytes (dp_sync p) of Some n \<Rightarrow> n | None \<Rightarrow> DEFAULT_SYNC_INTERVAL)
      else None)"

definition send_window :: "data_params \<Rightarrow> usize" where
  "send_window p = unat (so_window (dp_sync p))"

definition sn_on_source :: "('s \<Rightarrow> (io_error, 'a) result \<times> 's) \<Rightarrow> (('s, 'c) send_state, 'a) act" where
  "sn_on_source = act_on sn_source (\<lambda>x s. s\<lparr>sn_source := x\<rparr>) S_Io"

definition sn_on_store :: "('c \<Rightarrow> (io_error, 'a) result \<times> 'c) \<Rightarrow> (('s, 'c) send_state, 'a) act" where
  "sn_on_store = act_on sn_store (\<lambda>x s. s\<lparr>sn_store := x\<rparr>) S_Io"

definition sn_send_entity :: "(('s, 'c) send_state, unit) act" where
  \<comment> \<open>\<^verbatim>\<open>link.send_entity(&entity.take()).await?\<close>\<close>
  "sn_send_entity s =
     (let (e, b) = builder_take (sn_entity s)
      in on_link (link_send_entity e) (s\<lparr>sn_entity := b\<rparr>))"

definition sn_push :: "fpdu \<Rightarrow> (('s, 'c) send_state, unit) act" where
  "sn_push f s =
     act_then (act_when (\<not> builder_fits (sn_entity s) (encoded_len f)) sn_send_entity)
       (act_on sn_entity (\<lambda>b s. s\<lparr>sn_entity := b\<rparr>) (\<lambda>e. S_Negotiation (N_Encode e)) (builder_push f)) s"

definition sn_flush_packer :: "(('s, 'c) send_state, unit) act" where
  "sn_flush_packer s =
     (let (f, p) = packer_flush (sn_packer s); s = s\<lparr>sn_packer := p\<rparr>
      in case f of None \<Rightarrow> (Inr (), s) | Some f \<Rightarrow> sn_push f s)"

definition sn_compress :: "bytes \<Rightarrow> (('s, 'c) send_state, bytes) act" where
  "sn_compress a s =
     (case sn_compressor s of
        None \<Rightarrow> (Inr a, s)
      | Some c \<Rightarrow>
         (case compressor_compress a c of
            None \<Rightarrow> (Inl S_Panic, s)
          | Some (w, c) \<Rightarrow> (Inr w, s\<lparr>sn_compressor := Some c\<rparr>)))"

definition sn_report :: "(('s, 'c) send_state, unit) act" where
  "sn_report = act_modify (\<lambda>s. s\<lparr>sn_progress := sn_progress s @
     [\<lparr>pg_data_bytes = sn_data_bytes s, pg_articles = sn_articles s, pg_sync = sn_sync_no s,
       pg_total_hint = sn_total_hint s\<rparr>]\<rparr>)"

definition sn_handle_ack_syn :: "'c store_ops \<Rightarrow> fpdu \<Rightarrow> (('s, 'c) send_state, unit) act" where
  "sn_handle_ack_syn st f =
     act_then (apply_received f)
       (let n = unwrap_or 0 (get_sync_number f)
        in act_then (act_modify (\<lambda>s. s\<lparr>sn_unacked := dropWhile (\<lambda>u. u \<le> n) (sn_unacked s)\<rparr>))
           (sn_on_store (to_acknowledge st n)))"

definition sn_restart_at :: "'s source_ops \<Rightarrow> checkpoint \<Rightarrow> (('s, 'c) send_state, unit) act" where
  "sn_restart_at so cp =
     act_then (sn_on_source (so_rewind so (position_of cp)))
       (act_modify (\<lambda>s. s\<lparr>sn_prev_pos := so_position so (sn_source s),
          sn_packer := snd (packer_flush (sn_packer s)),
          sn_entity := snd (builder_take (sn_entity s)),
          sn_compressor := map_option compressor_sync_point (sn_compressor s),
          sn_data_bytes := cp_data_bytes cp, sn_articles := cp_articles cp, sn_sync_no := cp_sync cp,
          sn_bytes_since_sync := 0, sn_unacked := []\<rparr>))"

definition sn_handle_resyn ::
    "data_params \<Rightarrow> 's source_ops \<Rightarrow> 'c store_ops \<Rightarrow> fpdu \<Rightarrow> (('s, 'c) send_state, unit) act" where
  "sn_handle_resyn p so st f =
     act_then (apply_received f)
     (if \<not> dp_resync p then act_fail (S_Negotiation N_ResynNotNegotiated)
      else act_bind act_get (\<lambda>s.
        let requested = unwrap_or 0 (get_restart_point f);
            cp = (if requested = 0 then checkpoint_default
                  else unwrap_or checkpoint_default (to_get st requested (sn_store s)))
        in act_then (conn_send (ack_resyn (dp_peer_id p) (cp_sync cp)))
           (act_then (apply_local L_Accept) (sn_restart_at so cp))))"

definition sn_handle_idt :: "data_params \<Rightarrow> fpdu \<Rightarrow> (('s, 'c) send_state, data_end) act" where
  "sn_handle_idt p f =
     act_then (apply_received f)
     (act_then (act_modify (\<lambda>s. s\<lparr>sn_entity := snd (builder_take (sn_entity s))\<rparr>))
     (act_then (conn_send (ack_idt (dp_peer_id p)))
     (act_then (apply_local L_Accept)
     (act_return (Interrupted (unwrap_or (End_Other 0) (get_end_code f)) (diag_or_ok f) True)))))"

definition handle_async ::
    "data_params \<Rightarrow> 's source_ops \<Rightarrow> 'c store_ops \<Rightarrow> fpdu \<Rightarrow> (('s, 'c) send_state, data_end option) act" where
  "handle_async p so st f =
     (if f_kind f = K_AckSyn then act_then (sn_handle_ack_syn st f) (act_return None)
      else if f_kind f = K_Resyn then act_then (sn_handle_resyn p so st f) (act_return None)
      else if f_kind f = K_Idt then act_bind (sn_handle_idt p f) (\<lambda>e. act_return (Some e))
      else act_then (apply_received f) (act_return None))"

definition sn_put_syn :: "data_params \<Rightarrow> (('s, 'c) send_state, unit) act" where
  "sn_put_syn p =
     act_then sn_flush_packer
     (act_then (act_modify (\<lambda>s. s\<lparr>sn_sync_no := sn_sync_no s + 1\<rparr>))
     (act_bind act_get (\<lambda>s.
      act_then (sn_push (syn (dp_peer_id p) (sn_sync_no s))) sn_send_entity)))"

definition sn_mark_sync :: "data_params \<Rightarrow> 'c store_ops \<Rightarrow> (('s, 'c) send_state, unit) act" where
  "sn_mark_sync p st =
     act_then (apply_local L_Sync)
     (act_bind act_get (\<lambda>s.
      act_then (sn_on_store (to_record st
         \<lparr>cp_sync = sn_sync_no s, cp_file_offset = po_file_offset (sn_prev_pos s),
          cp_data_bytes = sn_data_bytes s, cp_articles = sn_articles s\<rparr>))
     (act_modify (\<lambda>s. s\<lparr>
         sn_unacked := (if send_window p > 0 then sn_unacked s @ [sn_sync_no s] else sn_unacked s),
         sn_bytes_since_sync := 0\<rparr>))))"

definition sn_sync_point ::
    "data_params \<Rightarrow> 'c store_ops \<Rightarrow> bytes \<Rightarrow> bytes \<Rightarrow> (('s, 'c) send_state, bytes) act" where
  "sn_sync_point p st article wire =
     act_then (sn_put_syn p)
     (act_then (sn_mark_sync p st)
     (act_bind act_get (\<lambda>s.
       if sn_compressor s = None then act_return wire
       else act_then (act_modify (\<lambda>s. s\<lparr>sn_compressor := map_option compressor_sync_point (sn_compressor s)\<rparr>))
            (sn_compress article))))"

definition sn_pack :: "bytes \<Rightarrow> (('s, 'c) send_state, unit) act" where
  "sn_pack wire =
     act_bind (\<lambda>s. let (fs, q) = packer_push wire (sn_packer s) in (Inr fs, s\<lparr>sn_packer := q\<rparr>)) (\<lambda>fs.
     act_then (act_each sn_push fs)
     (act_bind act_get (\<lambda>s.
      act_when (builder_remaining (sn_entity s) < HEADER_LEN + 1) sn_send_entity)))"

text \<open>The wire form of an article, with a synchronisation point before it when it would exceed the interval.\<close>

definition sn_wire :: "data_params \<Rightarrow> 'c store_ops \<Rightarrow> bytes \<Rightarrow> (('s, 'c) send_state, bytes) act" where
  "sn_wire p st article =
     act_bind (sn_compress article) (\<lambda>wire.
     act_bind act_get (\<lambda>s.
     case send_interval p of
         None \<Rightarrow> act_return wire
       | Some iv \<Rightarrow>
           if sn_bytes_since_sync s > 0 \<and> sn_bytes_since_sync s + word_of_nat (length wire) > iv
           then sn_sync_point p st article wire else act_return wire))"

definition sn_article ::
    "data_params \<Rightarrow> 's source_ops \<Rightarrow> 'c store_ops \<Rightarrow> bytes \<Rightarrow> (('s, 'c) send_state, unit) act" where
  "sn_article p so st article =
     act_bind (sn_wire p st article) (\<lambda>wire.
     act_then (sn_pack wire)
     (act_then (apply_local L_SendData)
     (act_then (act_modify (\<lambda>s. s\<lparr>
         sn_data_bytes := sn_data_bytes s + word_of_nat (length wire),
         sn_articles := sn_articles s + 1,
         sn_bytes_since_sync := sn_bytes_since_sync s + word_of_nat (length wire),
         sn_prev_pos := so_position so (sn_source s)\<rparr>))
       sn_report)))"

text \<open>
  One turn of the loop. The inner loop that takes the FPDUs already queued comes first in the body,
  so a turn that takes one of them goes back to the head of the loop.
\<close>

definition send_step ::
    "data_params \<Rightarrow> 's source_ops \<Rightarrow> 'c store_ops \<Rightarrow> (('s, 'c) send_state, send_ctl) act" where
  "send_step p so st =
     act_bind (on_link link_try_recv) (\<lambda>queued.
     case queued of
       Some f \<Rightarrow> act_bind (handle_async p so st f) (\<lambda>e.
         act_return (case e of None \<Rightarrow> Tx_Continue | Some e \<Rightarrow> Tx_End e))
     | None \<Rightarrow>
       act_bind (\<lambda>s. (Inr (case sn_cancel s of [] \<Rightarrow> False | c # _ \<Rightarrow> c), s\<lparr>sn_cancel := tl (sn_cancel s)\<rparr>)) (\<lambda>cancelled.
       if cancelled then
         act_bind act_get (\<lambda>s.
         act_then (act_when (\<not> builder_is_empty (sn_entity s)) sn_send_entity)
         (act_then (interrupt p D_VOLUNTARY_STOP (cancel_code p))
         (act_return (Tx_End (Interrupted (cancel_code p) D_VOLUNTARY_STOP False)))))
       else
         act_bind act_get (\<lambda>s.
         if send_window p > 0 \<and> length (sn_unacked s) \<ge> send_window p then
           act_bind conn_recv (\<lambda>f.
           act_bind (handle_async p so st f) (\<lambda>e.
           act_return (case e of None \<Rightarrow> Tx_Continue | Some e \<Rightarrow> Tx_End e)))
         else
           act_bind (sn_on_source (so_next so)) (\<lambda>a.
           case a of
             None \<Rightarrow> act_return Tx_Eof
           | Some article \<Rightarrow> act_then (sn_article p so st article) (act_return Tx_Continue)))))"

definition sn_finish :: "data_params \<Rightarrow> (('s, 'c) send_state, unit) act" where
  "sn_finish p =
     act_then sn_flush_packer
     (act_then (sn_push (dtf_end (dp_peer_id p) D_OK))
     (act_then sn_send_entity
     (act_then (apply_local L_DataEnd) sn_report)))"

definition sn_result :: "data_end \<Rightarrow> ('s, 'c) send_state \<Rightarrow> data_result" where
  "sn_result e s = \<lparr>dr_end = e, dr_data_bytes = sn_data_bytes s, dr_articles = sn_articles s,
     dr_last_sync = sn_sync_no s\<rparr>"

text \<open>The loop, with a bound on the number of its turns: \<open>None\<close> when the bound is too small.\<close>

fun send_loop :: "nat \<Rightarrow> data_params \<Rightarrow> 's source_ops \<Rightarrow> 'c store_ops \<Rightarrow>
    ('s, 'c) send_state \<Rightarrow> ((session_error, data_result) result \<times> ('s, 'c) send_state) option" where
  "send_loop 0 p so st s = None"
| "send_loop (Suc n) p so st s =
     (case send_step p so st s of
        (Inl e, s) \<Rightarrow> Some (Inl e, s)
      | (Inr Tx_Continue, s) \<Rightarrow> send_loop n p so st s
      | (Inr (Tx_End e), s) \<Rightarrow> Some (Inr (sn_result e s), s)
      | (Inr Tx_Eof, s) \<Rightarrow> Some (act_bind (sn_finish p) (\<lambda>_ s. (Inr (sn_result Completed s), s)) s))"

definition send_init :: "data_params \<Rightarrow> 's source_ops \<Rightarrow> checkpoint \<Rightarrow> conn \<Rightarrow> 's \<Rightarrow> 'c \<Rightarrow> bool list \<Rightarrow>
    ('s, 'c) send_state" where
  "send_init p so start c source store cancel =
     conn.extend c \<lparr>sn_source = source, sn_store = store, sn_cancel = cancel, sn_progress = [],
       sn_packer = packer_new (dp_peer_id p) (dp_max_entity p - (if dp_crc p then CRC_LEN else 0)) (dp_multi_article p),
       sn_entity = builder_new (dp_max_entity p) (dp_crc p),
       sn_compressor = (if dp_compression p \<noteq> Comp_None
                        then Some (compressor_new (dp_compression p) (max (dp_max_article p) 1)) else None),
       sn_total_hint = so_size_hint so source,
       sn_data_bytes = cp_data_bytes start, sn_articles = cp_articles start, sn_sync_no = cp_sync start,
       sn_bytes_since_sync = 0, sn_unacked = [], sn_prev_pos = position_default\<rparr>"

definition send_data :: "nat \<Rightarrow> data_params \<Rightarrow> 's source_ops \<Rightarrow> 'c store_ops \<Rightarrow> checkpoint \<Rightarrow> conn \<Rightarrow> 's \<Rightarrow> 'c \<Rightarrow>
    bool list \<Rightarrow> ((session_error, data_result) result \<times> ('s, 'c) send_state) option" where
  "send_data fuel p so st start c source store cancel =
     (case sn_on_source (so_rewind so (position_of start)) (send_init p so start c source store cancel) of
        (Inl e, s) \<Rightarrow> Some (Inl e, s)
      | (Inr _, s) \<Rightarrow> send_loop fuel p so st (s\<lparr>sn_prev_pos := so_position so (sn_source s)\<rparr>))"

section \<open>Receiving\<close>

record ('k, 'c) recv_state = conn +
  rv_sink :: 'k
  rv_store :: 'c
  rv_cancel :: "bool list"
  rv_progress :: "progress list"
  rv_reassembler :: reassembler
  rv_decompressor :: "decompressor option"
  rv_data_bytes :: u64
  rv_articles :: u64
  rv_last_sync :: u32

definition rv_on_sink :: "('k \<Rightarrow> (io_error, 'a) result \<times> 'k) \<Rightarrow> (('k, 'c) recv_state, 'a) act" where
  "rv_on_sink = act_on rv_sink (\<lambda>x s. s\<lparr>rv_sink := x\<rparr>) S_Io"

definition rv_on_store :: "('c \<Rightarrow> (io_error, 'a) result \<times> 'c) \<Rightarrow> (('k, 'c) recv_state, 'a) act" where
  "rv_on_store = act_on rv_store (\<lambda>x s. s\<lparr>rv_store := x\<rparr>) S_Io"

definition rv_report :: "(('k, 'c) recv_state, unit) act" where
  "rv_report = act_modify (\<lambda>s. s\<lparr>rv_progress := rv_progress s @
     [\<lparr>pg_data_bytes = rv_data_bytes s, pg_articles = rv_articles s, pg_sync = rv_last_sync s,
       pg_total_hint = None\<rparr>]\<rparr>)"

text \<open>The loop that waits for ACK(RESYN): everything but an ABORT is dropped.\<close>

function await_ack_resyn :: "('x conn_scheme, fpdu) act" where
  "await_ack_resyn s =
     (case conn_recv s of
        (Inl e, s') \<Rightarrow> (Inl e, s')
      | (Inr g, s') \<Rightarrow>
         if f_kind g = K_AckResyn then (Inr g, s')
         else if f_kind g = K_Abort then
           (case apply_received g s' of
              (Inl e, s'') \<Rightarrow> (Inl e, s'')
            | (Inr _, s'') \<Rightarrow> await_ack_resyn s'')
         else await_ack_resyn s')"
  by pat_completeness auto
termination
  by (relation "measure backlog")
    (auto dest!: conn_recv_backlog(1) [OF sym] apply_received_backlog [OF sym])

declare await_ack_resyn.simps [simp del]

definition rv_restart_at :: "data_params \<Rightarrow> 'k sink_ops \<Rightarrow> checkpoint \<Rightarrow> (('k, 'c) recv_state, unit) act" where
  "rv_restart_at p ko cp =
     act_then (rv_on_sink (ko_truncate ko (position_of cp)))
       (act_modify (\<lambda>s. s\<lparr>rv_data_bytes := cp_data_bytes cp, rv_articles := cp_articles cp,
          rv_last_sync := cp_sync cp, rv_reassembler := reassembler_new (dp_max_article p)\<rparr>))"

definition rv_resynchronise ::
    "data_params \<Rightarrow> 'k sink_ops \<Rightarrow> 'c store_ops \<Rightarrow> (('k, 'c) recv_state, unit) act" where
  "rv_resynchronise p ko st =
     act_then (apply_local L_Resync)
     (act_bind act_get (\<lambda>s.
      act_then (conn_send (resyn (dp_peer_id p) D_TRANSMISSION_ERROR (rv_last_sync s)))
     (act_bind await_ack_resyn (\<lambda>ack.
      act_then (apply_received ack)
     (act_bind act_get (\<lambda>s.
      let point = unwrap_or 0 (get_restart_point ack)
      in act_bind (if point = 0 then act_return checkpoint_default
           else case to_get st point (rv_store s) of
             None \<Rightarrow> act_fail (S_Negotiation (N_UnknownRestart point))
           | Some cp \<Rightarrow> act_return cp) (rv_restart_at p ko)))))))"

definition rv_article :: "'k sink_ops \<Rightarrow> bytes \<Rightarrow> (('k, 'c) recv_state, unit) act" where
  "rv_article ko article =
     act_bind (\<lambda>s. case rv_decompressor s of
         None \<Rightarrow> (Inr article, s)
       | Some d \<Rightarrow> (case decompressor_decompress article d of
           (r, d) \<Rightarrow> (map_err S_Decompress r, s\<lparr>rv_decompressor := Some d\<rparr>))) (\<lambda>data.
     act_then (rv_on_sink (ko_write ko data))
     (act_modify (\<lambda>s. s\<lparr>rv_data_bytes := rv_data_bytes s + word_of_nat (length article),
        rv_articles := rv_articles s + 1\<rparr>)))"

definition rv_data :: "'k sink_ops \<Rightarrow> fpdu \<Rightarrow> (('k, 'c) recv_state, unit) act" where
  "rv_data ko f =
     act_then (apply_received f)
     (act_bind (act_on rv_reassembler (\<lambda>r s. s\<lparr>rv_reassembler := r\<rparr>) S_Reassembly (reassembler_feed f)) (\<lambda>as.
      act_then (act_each (rv_article ko) as) rv_report))"

definition rv_syn :: "data_params \<Rightarrow> 'k sink_ops \<Rightarrow> 'c store_ops \<Rightarrow> fpdu \<Rightarrow> (('k, 'c) recv_state, unit) act" where
  "rv_syn p ko st f =
     act_then (apply_received f)
     (act_bind act_get (\<lambda>s.
      let n = unwrap_or (rv_last_sync s + 1) (get_sync_number f)
      in act_bind (rv_on_sink (ko_checkpoint ko)) (\<lambda>pos.
         act_then (rv_on_store (to_record st
           \<lparr>cp_sync = n, cp_file_offset = po_file_offset pos, cp_data_bytes = rv_data_bytes s,
            cp_articles = rv_articles s\<rparr>))
        (act_then (act_modify (\<lambda>s. s\<lparr>rv_last_sync := n\<rparr>))
        (act_when (so_window (dp_sync p) \<noteq> 0 \<or> \<not> sync_enabled (dp_sync p))
          (act_then (conn_send (ack_syn (dp_peer_id p) n)) (apply_local L_Accept)))))))"

definition rv_resyn :: "data_params \<Rightarrow> 'k sink_ops \<Rightarrow> 'c store_ops \<Rightarrow> fpdu \<Rightarrow> (('k, 'c) recv_state, unit) act" where
  "rv_resyn p ko st f =
     act_then (apply_received f)
     (act_bind act_get (\<lambda>s.
      let requested = unwrap_or 0 (get_restart_point f);
          cp = unwrap_or checkpoint_default
                 (if requested = 0 then Some checkpoint_default else to_get st requested (rv_store s))
      in act_then (rv_restart_at p ko cp)
        (act_then (conn_send (ack_resyn (dp_peer_id p) (cp_sync cp))) (apply_local L_Accept))))"

definition rv_handle ::
    "data_params \<Rightarrow> 'k sink_ops \<Rightarrow> 'c store_ops \<Rightarrow> fpdu \<Rightarrow> (('k, 'c) recv_state, data_end option) act" where
  "rv_handle p ko st f =
     (if is_data (f_kind f) then act_then (rv_data ko f) (act_return None)
      else if f_kind f = K_Syn then act_then (rv_syn p ko st f) (act_return None)
      else if f_kind f = K_DtfEnd then
        act_then (apply_received f)
        (act_then rv_report
        (act_return (Some (if diag_is_ok (diag_or_ok f) then Completed else EndedWithError (diag_or_ok f)))))
      else if f_kind f = K_Resyn then act_then (rv_resyn p ko st f) (act_return None)
      else if f_kind f = K_Idt then
        act_then (apply_received f)
        (act_then (conn_send (ack_idt (dp_peer_id p)))
        (act_then (apply_local L_Accept)
        (act_return (Some (Interrupted (unwrap_or (End_Other 0) (get_end_code f)) (diag_or_ok f) True)))))
      else act_then (apply_received f) (act_return None))"

definition recv_step ::
    "data_params \<Rightarrow> 'k sink_ops \<Rightarrow> 'c store_ops \<Rightarrow> (('k, 'c) recv_state, data_end option) act" where
  "recv_step p ko st =
     act_bind (\<lambda>s. (Inr (case rv_cancel s of [] \<Rightarrow> False | c # _ \<Rightarrow> c), s\<lparr>rv_cancel := tl (rv_cancel s)\<rparr>)) (\<lambda>cancelled.
     if cancelled then
       act_then (interrupt p D_VOLUNTARY_STOP (cancel_code p))
         (act_return (Some (Interrupted (cancel_code p) D_VOLUNTARY_STOP False)))
     else
       (\<lambda>s. case conn_recv s of
          (Inr f, s) \<Rightarrow> rv_handle p ko st f s
        | (Inl e, s) \<Rightarrow>
           (case e of
              S_Decode d \<Rightarrow>
                if e_diag d = D_TRANSMISSION_ERROR \<and> dp_resync p
                then act_then (rv_resynchronise p ko st) (act_return None) s
                else (Inl e, s)
            | _ \<Rightarrow> (Inl e, s))))"

text \<open>No action of the receiver makes more arrive, and every turn of its loop takes something.\<close>

lemma no_growthI: "(\<And>s r s'. m s = (r, s') \<Longrightarrow> backlog s' \<le> backlog s) \<Longrightarrow> act_keeps no_growth m"
  unfolding act_keeps_def no_growth_def by (metis prod.collapse)

lemma no_growth_same: "(\<And>s r s'. m s = (r, s') \<Longrightarrow> backlog s' = backlog s) \<Longrightarrow> act_keeps no_growth m"
  by (rule no_growthI) fastforce

lemma act_keeps_when: "reflp R \<Longrightarrow> act_keeps R m \<Longrightarrow> act_keeps R (act_when b m)"
  by (cases b) (simp_all add: act_keeps_pure)

lemma act_keeps_each: "reflp R \<Longrightarrow> transp R \<Longrightarrow> (\<And>x. act_keeps R (f x)) \<Longrightarrow> act_keeps R (act_each f xs)"
  by (induction xs) (simp_all add: act_keeps_pure act_keeps_then)

lemmas keeps_intros = act_keeps_bind [OF no_growth_order(2)] act_keeps_then [OF no_growth_order(2)]
  act_keeps_pure [OF no_growth_order(1)] act_keeps_when [OF no_growth_order(1)]
  act_keeps_each [OF no_growth_order]

lemma keeps_basic:
  "act_keeps no_growth (conn_send f)" "act_keeps no_growth (apply_received f)" "act_keeps no_growth (apply_local l)"
  by (rule no_growth_same, erule same_backlog)+

lemma keeps_recv: "act_keeps no_growth conn_recv"
  using link_recv_backlog
  by (fastforce intro!: no_growthI simp: conn_recv_def on_link_def backlog_def split: prod.splits)

lemma keeps_on:
  "act_keeps no_growth (rv_on_sink f)" "act_keeps no_growth (rv_on_store g)" "act_keeps no_growth rv_report"
  by (auto intro!: no_growth_same simp: rv_on_sink_def rv_on_store_def rv_report_def act_on_def backlog_def
      split: prod.splits)

lemma await_ack_resyn_backlog: "backlog (snd (await_ack_resyn s)) \<le> backlog s"
proof (induction s rule: await_ack_resyn.induct)
  case (1 s)
  obtain r s' where r: "conn_recv s = (r, s')" by fastforce
  have le: "backlog s' \<le> backlog s" using act_keepsD [OF keeps_recv r] by (simp add: no_growth_def)
  show ?case
  proof (cases r)
    case (Inr g)
    show ?thesis
    proof (cases "f_kind g = K_AckResyn \<or> f_kind g \<noteq> K_Abort")
      case True
      with "1.IH"(2) [OF r [symmetric] Inr] le r Inr show ?thesis
        by (subst await_ack_resyn.simps) auto
    next
      case False
      obtain q s'' where "apply_received g s' = (q, s'')" by fastforce
      with False le r Inr apply_received_backlog [OF this] show ?thesis
        by (subst await_ack_resyn.simps) (auto simp: apply_received_def)
    qed
  qed (use r le in \<open>subst await_ack_resyn.simps, simp\<close>)
qed

lemma keeps_await: "act_keeps no_growth await_ack_resyn"
  by (simp add: act_keeps_def no_growth_def await_ack_resyn_backlog)

lemma keeps_restart_at: "act_keeps no_growth (rv_restart_at p ko cp)"
  unfolding rv_restart_at_def
  by (intro keeps_intros keeps_on) (auto intro!: no_growth_same simp: backlog_def)

lemma keeps_article: "act_keeps no_growth (rv_article ko a)"
  unfolding rv_article_def
  by (intro keeps_intros keeps_on) (auto intro!: no_growth_same simp: backlog_def split: prod.splits option.splits)

lemmas keeps_parts = keeps_restart_at keeps_article

lemma keeps_resynchronise: "act_keeps no_growth (rv_resynchronise p ko st)"
  unfolding rv_resynchronise_def Let_def
  by (intro keeps_intros keeps_basic keeps_await keeps_parts)
    (auto intro!: keeps_intros split: option.splits)

lemma keeps_handle: "act_keeps no_growth (rv_handle p ko st f)"
proof -
  have "act_keeps no_growth (rv_data ko f)"
    unfolding rv_data_def
    by (intro keeps_intros keeps_basic keeps_on keeps_parts)
      (auto intro!: no_growth_same simp: act_on_def backlog_def split: prod.splits)
  moreover have "act_keeps no_growth (rv_syn p ko st f)"
    unfolding rv_syn_def Let_def
    by (intro keeps_intros keeps_basic keeps_on keeps_parts)
      (auto intro!: no_growth_same simp: backlog_def)
  moreover have "act_keeps no_growth (rv_resyn p ko st f)"
    unfolding rv_resyn_def Let_def by (intro keeps_intros keeps_basic keeps_on keeps_parts)
  ultimately show ?thesis
    unfolding rv_handle_def by (auto intro!: keeps_intros keeps_basic keeps_on)
qed

lemma recv_step_backlog:
  assumes "recv_step p ko st s = (Inr None, s')"
  shows "backlog s' < backlog s"
proof -
  let ?s = "s\<lparr>rv_cancel := tl (rv_cancel s)\<rparr>"
  have nc: "\<not> (case rv_cancel s of [] \<Rightarrow> False | c # _ \<Rightarrow> c)"
    using assms by (auto simp: recv_step_def act_bind_def act_then_eq_Inr)
  obtain r s1 where r: "conn_recv ?s = (r, s1)" by fastforce
  have "backlog ?s = backlog s" by (simp add: backlog_def)
  moreover have "backlog s' \<le> backlog s1 \<and> backlog s1 < backlog ?s"
  proof (cases r)
    case (Inr f)
    with assms nc r have "rv_handle p ko st f s1 = (Inr None, s')"
      by (simp add: recv_step_def act_bind_def)
    from act_keepsD [OF keeps_handle this] conn_recv_backlog(1) r Inr show ?thesis
      by (auto simp: no_growth_def)
  next
    case (Inl e)
    with assms nc r obtain d where d: "e = S_Decode d" and "rv_resynchronise p ko st s1 = (Inr (), s')"
      by (auto simp: recv_step_def act_bind_def act_then_eq_Inr split: session_error.splits if_splits)
    from act_keepsD [OF keeps_resynchronise this(2)] conn_recv_backlog(2) [of ?s d s1] r Inl d show ?thesis
      by (auto simp: no_growth_def)
  qed
  ultimately show ?thesis by linarith
qed

definition rv_result :: "data_end \<Rightarrow> ('k, 'c) recv_state \<Rightarrow> data_result" where
  "rv_result e s = \<lparr>dr_end = e, dr_data_bytes = rv_data_bytes s, dr_articles = rv_articles s,
     dr_last_sync = rv_last_sync s\<rparr>"

function receive_loop ::
    "data_params \<Rightarrow> 'k sink_ops \<Rightarrow> 'c store_ops \<Rightarrow> (('k, 'c) recv_state, data_result) act" where
  "receive_loop p ko st s =
     (case recv_step p ko st s of
        (Inl e, s') \<Rightarrow> (Inl e, s')
      | (Inr (Some e), s') \<Rightarrow> (Inr (rv_result e s'), s')
      | (Inr None, s') \<Rightarrow> receive_loop p ko st s')"
  by pat_completeness auto
termination
  by (relation "measure (\<lambda>(p, ko, st, s). backlog s)") (auto dest: recv_step_backlog [OF sym])

declare receive_loop.simps [simp del]

definition recv_init :: "data_params \<Rightarrow> checkpoint \<Rightarrow> conn \<Rightarrow> 'k \<Rightarrow> 'c \<Rightarrow> bool list \<Rightarrow> ('k, 'c) recv_state" where
  "recv_init p start c sink store cancel =
     conn.extend c \<lparr>rv_sink = sink, rv_store = store, rv_cancel = cancel, rv_progress = [],
       rv_reassembler = reassembler_new (dp_max_article p),
       rv_decompressor = (if dp_compression p \<noteq> Comp_None
                          then Some (decompressor_new (max (dp_max_article p) 1)) else None),
       rv_data_bytes = cp_data_bytes start, rv_articles = cp_articles start, rv_last_sync = cp_sync start\<rparr>"

definition receive_data :: "data_params \<Rightarrow> 'k sink_ops \<Rightarrow> 'c store_ops \<Rightarrow> checkpoint \<Rightarrow> conn \<Rightarrow> 'k \<Rightarrow> 'c \<Rightarrow>
    bool list \<Rightarrow> (session_error, data_result) result \<times> ('k, 'c) recv_state" where
  "receive_data p ko st start c sink store cancel =
     receive_loop p ko st (recv_init p start c sink store cancel)"

section \<open>The counters at the end of a transfer\<close>

definition check_counts :: "fpdu \<Rightarrow> u64 \<Rightarrow> u64 \<Rightarrow> (session_error, unit) result" where
  "check_counts f data_bytes articles =
     and_then (case fpdu_get_num f Pi_ByteCount of
         None \<Rightarrow> Inr ()
       | Some b \<Rightarrow> if b \<noteq> data_bytes then Inl (S_Counts (Counts_Bytes b data_bytes)) else Inr ()) (\<lambda>_.
     case fpdu_get_num f Pi_ArticleCount of
       None \<Rightarrow> Inr ()
     | Some a \<Rightarrow> if a \<noteq> articles then Inl (S_Counts (Counts_Articles a articles)) else Inr ())"

end
