(* ===== verification/Datapath_Send.thy ===== *)
theory Datapath_Send
  imports Datapath
begin

text \<open>
  What a sender has put on the wire. The articles of the source become wire articles (compressed or
  not) with synchronisation points between them; the packer turns them into data FPDUs, the entity
  builder collects FPDUs into entities and the link writes these with their length. The invariant of
  the sending loop relates all of these to the articles the source has yielded.
\<close>

section \<open>The FPDUs of the data phase\<close>

lemma transfer_sendable:
  "unat n < 2 ^ 24 \<Longrightarrow> sendable (syn dst n)" "unat n < 2 ^ 24 \<Longrightarrow> sendable (ack_syn dst n)"
  "sendable (dtf_end dst d)"
  unfolding service_defs
  by (rule sendable_smallI; simp add: service_simps split: option.split)+

lemma transfer_kinds [simp]:
  "f_kind (syn dst n) = K_Syn" "f_kind (ack_syn dst n) = K_AckSyn" "f_kind (dtf_end dst d) = K_DtfEnd"
  by (simp_all add: service_defs service_simps)

lemma syn_number [simp]: "get_sync_number (syn dst n) = Some n"
  by (simp add: get_sync_number_def fpdu_get_def syn_def setter_funs pi_tables ucast_up_down)

lemma dtf_end_diag [simp]: "diag_or_ok (dtf_end dst D_OK) = D_OK"
  by (simp add: diag_or_ok_def fpdu_diag_def fpdu_get_def dtf_end_def setter_funs pi_tables)

lemma short_sync_number: "unat (n :: u32) < 2 ^ 24 \<Longrightarrow> length (encode_num (ucast n)) < 255"
  by (rule le_less_trans [OF length_encode_num_24]) simp_all

lemma transfer_lengths:
  "unat n < 2 ^ 24 \<Longrightarrow> encoded_len (syn dst n) \<le> 11" "encoded_len (dtf_end dst d) \<le> 11"
  using short_sync_number [of n]
  by (simp_all add: service_defs service_simps encoded_len_def HEADER_LEN_def unit_len_def is_data_def)

lemma data_sendable: "fits_entity n f \<Longrightarrow> n \<le> MAX_FPDU_LEN \<Longrightarrow> sendable f"
  by (auto simp: fits_entity_def sendable_def template_ok_def validate_template_def)

section \<open>Wire articles and synchronisation points\<close>

datatype tx_item = Tx_Wire bytes | Tx_Sync u32

fun wires_of :: "tx_item list \<Rightarrow> bytes list" where
  "wires_of [] = []"
| "wires_of (Tx_Wire w # its) = w # wires_of its"
| "wires_of (Tx_Sync n # its) = wires_of its"

fun last_sync_of :: "u32 \<Rightarrow> tx_item list \<Rightarrow> u32" where
  "last_sync_of n [] = n"
| "last_sync_of n (Tx_Wire w # its) = last_sync_of n its"
| "last_sync_of n (Tx_Sync m # its) = last_sync_of m its"

lemma wires_of_append [simp]: "wires_of (xs @ ys) = wires_of xs @ wires_of ys"
  by (induction xs rule: wires_of.induct) simp_all

lemma wires_of_wires [simp]: "wires_of (map Tx_Wire ws) = ws"
  by (induction ws) simp_all

lemma last_sync_of_append [simp]: "last_sync_of n (xs @ ys) = last_sync_of (last_sync_of n xs) ys"
  by (induction n xs rule: last_sync_of.induct) simp_all

lemma last_sync_of_wires [simp]: "last_sync_of n (map Tx_Wire ws) = n"
  by (induction ws) simp_all

text \<open>The FPDUs that carry a sequence of wire articles and synchronisation points to the reassembler \<open>r\<close>.\<close>

inductive transmits :: "u8 \<Rightarrow> reassembler \<Rightarrow> fpdu list \<Rightarrow> tx_item list \<Rightarrow> bool" for peer r where
  tr_nil: "transmits peer r [] []"
| tr_data: "transmits peer r fs its \<Longrightarrow> list_all (\<lambda>f. is_data (f_kind f)) gs \<Longrightarrow> feed_all r gs = (Inr ws, r) \<Longrightarrow>
    transmits peer r (fs @ gs) (its @ map Tx_Wire ws)"
| tr_syn: "transmits peer r fs its \<Longrightarrow> unat n < 2 ^ 24 \<Longrightarrow>
    transmits peer r (fs @ [syn peer n]) (its @ [Tx_Sync n])"

text \<open>What the receiver makes of the wire articles.\<close>

fun unwire :: "decompressor option \<Rightarrow> bytes list \<Rightarrow> (bytes list \<times> decompressor option) option" where
  "unwire None ws = Some (ws, None)"
| "unwire (Some d) [] = Some ([], Some d)"
| "unwire (Some d) (w # ws) =
     (case decompressor_decompress w d of
        (Inl _, _) \<Rightarrow> None
      | (Inr a, d') \<Rightarrow> map_option (apfst ((#) a)) (unwire (Some d') ws))"

lemma unwire_append:
  "unwire d ws = Some (as, d') \<Longrightarrow> unwire d' vs = Some (bs, d'') \<Longrightarrow> unwire d (ws @ vs) = Some (as @ bs, d'')"
proof (induction d ws arbitrary: as rule: unwire.induct)
  case (3 d w ws)
  then obtain a d1 cs where s: "decompressor_decompress w d = (Inr a, d1)" "unwire (Some d1) ws = Some (cs, d')" "as = a # cs"
    by (auto split: prod.splits sum.splits)
  with "3.IH" [OF s(1) [symmetric] refl s(2) "3.prems"(2)] show ?case by simp
qed auto

lemma unwire_append_split:
  "unwire d (ws @ vs) = Some (cs, d'') \<Longrightarrow>
    \<exists>as bs d'. cs = as @ bs \<and> unwire d ws = Some (as, d') \<and> unwire d' vs = Some (bs, d'')"
proof (induction d ws arbitrary: cs rule: unwire.induct)
  case (3 d w ws)
  then obtain a d1 es where s: "decompressor_decompress w d = (Inr a, d1)" "unwire (Some d1) (ws @ vs) = Some (es, d'')"
      "cs = a # es"
    by (auto split: prod.splits sum.splits)
  from "3.IH" [OF s(1) [symmetric] refl s(2)] obtain as bs d' where
    "es = as @ bs" "unwire (Some d1) ws = Some (as, d')" "unwire d' vs = Some (bs, d'')" by blast
  with s show ?case by (intro exI [of _ "a # as"] exI [of _ bs] exI [of _ d']) simp
qed auto

lemma unwire_length: "unwire d ws = Some (as, d') \<Longrightarrow> length as = length ws"
  by (induction d ws arbitrary: as rule: unwire.induct) (auto split: prod.splits sum.splits)

lemma unwire_None: "unwire d ws = Some (as, d') \<Longrightarrow> (d' = None) = (d = None)"
  by (induction d ws arbitrary: as rule: unwire.induct) (auto split: prod.splits sum.splits)

definition coupled :: "usize \<Rightarrow> compressor option \<Rightarrow> decompressor option \<Rightarrow> bool" where
  "coupled m c d \<longleftrightarrow>
     (case (c, d) of (None, None) \<Rightarrow> True | (Some c, Some d) \<Rightarrow> in_step m c d | _ \<Rightarrow> False)"

lemma coupled_cases:
  assumes "coupled m c d"
  obtains "c = None" "d = None" | c' d' where "c = Some c'" "d = Some d'" "in_step m c' d'"
  using assms by (auto simp: coupled_def split: option.splits)

section \<open>Entities on their way\<close>

definition prefixed :: "bytes \<Rightarrow> bytes" where
  "prefixed e = to_be_bytes16 (u16_of_usize (length e)) @ e"

text \<open>
  The FPDUs \<open>fs\<close> have left the packer: all but the last ones, \<open>pend\<close>, have been written after \<open>out\<close>, in
  entities that respect the negotiated size.
\<close>

definition tx_out :: "data_params \<Rightarrow> bytes \<Rightarrow> ('s, 'c) send_state \<Rightarrow> fpdu list \<Rightarrow> fpdu list \<Rightarrow> bool" where
  "tx_out p out s fs pend \<longleftrightarrow>
     (\<exists>gss. fs = concat gss @ pend \<and> wr_framing (lk_writer (cn_link s)) = LengthPrefixed \<and>
        wr_out (lk_writer (cn_link s)) = out @ concat (map (\<lambda>gs. prefixed (entity_of (dp_crc p) gs)) gss) \<and>
        list_all (entity_ok (dp_max_entity p) (dp_crc p)) gss) \<and>
     builder_holds (sn_entity s) pend \<and> eb_max_len (sn_entity s) = dp_max_entity p \<and>
     eb_crc (sn_entity s) = dp_crc p"

text \<open>What the output actions leave alone.\<close>

definition tx_same :: "('s, 'c) send_state \<Rightarrow> ('s, 'c) send_state \<Rightarrow> bool" where
  "tx_same s s' \<longleftrightarrow> (\<exists>w b. s' = s\<lparr>cn_link := (cn_link s)\<lparr>lk_writer := w\<rparr>, sn_entity := b\<rparr>)"

lemma tx_same_refl: "tx_same s s"
  unfolding tx_same_def by (rule exI [of _ "lk_writer (cn_link s)"], rule exI [of _ "sn_entity s"]) simp

lemma tx_same_trans: "tx_same s s' \<Longrightarrow> tx_same s' s'' \<Longrightarrow> tx_same s s''"
  unfolding tx_same_def by (elim exE) (rule exI, rule exI, simp)

lemma sn_send_entity_out:
  assumes "tx_out p out s fs pend" and "pend \<noteq> []" and "sn_send_entity s = (Inr (), s')"
  shows "tx_out p out s' fs [] \<and> tx_same s s'"
proof -
  from assms(1) obtain gss where g: "fs = concat gss @ pend" "wr_framing (lk_writer (cn_link s)) = LengthPrefixed"
      "wr_out (lk_writer (cn_link s)) = out @ concat (map (\<lambda>gs. prefixed (entity_of (dp_crc p) gs)) gss)"
      "list_all (entity_ok (dp_max_entity p) (dp_crc p)) gss"
    and b: "builder_holds (sn_entity s) pend" "eb_max_len (sn_entity s) = dp_max_entity p"
      "eb_crc (sn_entity s) = dp_crc p"
    by (auto simp: tx_out_def)
  obtain b' where b': "builder_take (sn_entity s) = (entity_of (dp_crc p) pend, b')" "builder_holds b' []"
      "eb_max_len b' = dp_max_entity p" "eb_crc b' = dp_crc p"
    using builder_take_spec [OF b(1)] b by auto
  obtain w where w: "write_entity (entity_of (dp_crc p) pend) (lk_writer (cn_link s)) = (Inr (), w)"
    and s': "s' = s\<lparr>cn_link := (cn_link s)\<lparr>lk_writer := w\<rparr>, sn_entity := b'\<rparr>"
    using assms(3) b'(1)
    by (auto simp: sn_send_entity_def on_link_def link_send_entity_def act_on_def map_err_def
        split: prod.splits sum.splits)
  have ok: "entity_ok (dp_max_entity p) (dp_crc p) pend"
    using b assms(2) by (auto simp: builder_holds_def entity_ok_def le_Suc_eq)
  note wr = write_entity_prefixed [OF w g(2)]
  show ?thesis
  proof
    show "tx_out p out s' fs []"
      unfolding tx_out_def using g wr ok b'(2-4)
      by (intro conjI exI [of _ "gss @ [pend]"]) (simp_all add: s' prefixed_def)
    show "tx_same s s'" unfolding tx_same_def s' by blast
  qed
qed

definition fpdu_fits :: "data_params \<Rightarrow> fpdu \<Rightarrow> bool" where
  "fpdu_fits p f \<longleftrightarrow> sendable f \<and> encoded_len f + (if dp_crc p then CRC_LEN else 0) \<le> dp_max_entity p"

lemma sn_push_out:
  assumes "tx_out p out s fs pend" and "fpdu_fits p f" and "sn_push f s = (Inr (), s')"
  shows "\<exists>pend'. pend' \<noteq> [] \<and> tx_out p out s' (fs @ [f]) pend' \<and> tx_same s s'"
proof -
  have push: "\<exists>pend'. pend' \<noteq> [] \<and> tx_out p out s' (fs @ [f]) pend' \<and> tx_same s1 s'"
    if 1: "tx_out p out s1 fs pend1" "builder_fits (sn_entity s1) (encoded_len f)"
      "act_on sn_entity (\<lambda>b s. s\<lparr>sn_entity := b\<rparr>) (\<lambda>e. S_Negotiation (N_Encode e)) (builder_push f) s1 = (Inr (), s')"
    for s1 pend1
  proof -
    have b: "builder_holds (sn_entity s1) pend1" using 1(1) by (simp add: tx_out_def)
    from builder_push_spec [OF b _ 1(2)] assms(2) obtain b' where
      b': "builder_push f (sn_entity s1) = (Inr (), b')" "builder_holds b' (pend1 @ [f])"
        "eb_max_len b' = eb_max_len (sn_entity s1)" "eb_crc b' = eb_crc (sn_entity s1)"
      by (auto simp: fpdu_fits_def)
    with 1(3) have s': "s' = s1\<lparr>sn_entity := b'\<rparr>" by (simp add: act_on_def)
    have "tx_out p out s' (fs @ [f]) (pend1 @ [f])"
      using 1(1) b' by (auto simp: tx_out_def s')
    moreover have "tx_same s1 s'"
      unfolding tx_same_def s' by (rule exI [of _ "lk_writer (cn_link s1)"], rule exI [of _ b']) simp
    ultimately show ?thesis by blast
  qed
  show ?thesis
  proof (cases "builder_fits (sn_entity s) (encoded_len f)")
    case True
    with push [OF assms(1)] assms(3) show ?thesis by (simp add: sn_push_def)
  next
    case False
    have "pend \<noteq> []"
    proof
      assume "pend = []"
      with assms(1,2) have "builder_fits (sn_entity s) (encoded_len f)"
        by (auto simp: tx_out_def builder_holds_def builder_fits_def builder_cost_def fpdu_fits_def entity_of_def)
      with False show False by simp
    qed
    from False assms(3) obtain s1 where s1: "sn_send_entity s = (Inr (), s1)"
      "act_on sn_entity (\<lambda>b s. s\<lparr>sn_entity := b\<rparr>) (\<lambda>e. S_Negotiation (N_Encode e)) (builder_push f) s1 = (Inr (), s')"
      by (auto simp: sn_push_def act_then_eq_Inr)
    note o = sn_send_entity_out [OF assms(1) \<open>pend \<noteq> []\<close> s1(1)]
    from o assms(2) have "builder_fits (sn_entity s1) (encoded_len f)"
      by (auto simp: tx_out_def builder_holds_def builder_fits_def builder_cost_def fpdu_fits_def entity_of_def)
    from push [OF conjunct1 [OF o] this s1(2)] o show ?thesis by (blast intro: tx_same_trans)
  qed
qed

lemma sn_push_all_out:
  assumes "tx_out p out s fs pend" and "list_all (fpdu_fits p) gs" and "act_each sn_push gs s = (Inr (), s')"
  shows "\<exists>pend'. tx_out p out s' (fs @ gs) pend' \<and> tx_same s s'"
  using assms
proof (induction gs arbitrary: s fs pend)
  case (Cons g gs)
  then obtain s1 where s1: "sn_push g s = (Inr (), s1)" "act_each sn_push gs s1 = (Inr (), s')"
    by (auto simp: act_then_eq_Inr)
  from sn_push_out [OF Cons.prems(1) _ s1(1)] Cons.prems(2) obtain pend1 where
    1: "tx_out p out s1 (fs @ [g]) pend1" "tx_same s s1" by auto
  from Cons.IH [OF 1(1) _ s1(2)] Cons.prems(2) 1(2) show ?case by (auto intro: tx_same_trans)
qed (auto intro: tx_same_refl)

section \<open>The packer\<close>

definition packer_ok :: "data_params \<Rightarrow> article_packer \<Rightarrow> bytes list \<Rightarrow> bool" where
  "packer_ok p q held \<longleftrightarrow> packer_inv q held \<and>
     ap_max_dtf_len q = dp_max_entity p - (if dp_crc p then CRC_LEN else 0) \<and>
     (\<not> ap_multi_article q \<longrightarrow> held = [])"

lemma packer_ok_fits:
  assumes "packer_ok p q held" and "list_all (fits_entity (ap_max_dtf_len q)) gs"
  shows "list_all (fpdu_fits p) gs" and "list_all (\<lambda>f. is_data (f_kind f)) gs"
proof -
  have n: "ap_max_dtf_len q \<le> MAX_FPDU_LEN" using assms(1) by (simp add: packer_ok_def packer_inv_def)
  then show "list_all (fpdu_fits p) gs"
    using assms data_sendable [OF _ n]
    by (auto simp: list_all_iff fpdu_fits_def packer_ok_def packer_inv_def fits_entity_def)
  show "list_all (\<lambda>f. is_data (f_kind f)) gs" using assms(2) by (auto simp: list_all_iff fits_entity_def)
qed

text \<open>What the output actions leave alone when the packer is involved as well.\<close>

definition tx_moved :: "('s, 'c) send_state \<Rightarrow> ('s, 'c) send_state \<Rightarrow> bool" where
  "tx_moved s s' \<longleftrightarrow> (\<exists>w b q. s' = s\<lparr>cn_link := (cn_link s)\<lparr>lk_writer := w\<rparr>, sn_entity := b, sn_packer := q\<rparr>)"

lemma tx_same_moved: "tx_same s s' \<Longrightarrow> tx_moved s s' \<and> sn_packer s' = sn_packer s"
  unfolding tx_same_def tx_moved_def by (elim exE, rule conjI, rule exI, rule exI, rule exI [of _ "sn_packer s"]) simp_all

lemma tx_moved_trans: "tx_moved s s' \<Longrightarrow> tx_moved s' s'' \<Longrightarrow> tx_moved s s''"
  unfolding tx_moved_def by (elim exE) (rule exI, rule exI, rule exI, simp)

lemma tx_moved_packer: "tx_moved s (s\<lparr>sn_packer := q\<rparr>)"
  unfolding tx_moved_def
  by (rule exI [of _ "lk_writer (cn_link s)"], rule exI [of _ "sn_entity s"], rule exI [of _ q]) simp

lemma tx_out_packer [simp]: "tx_out p out (s\<lparr>sn_packer := q\<rparr>) fs pend = tx_out p out s fs pend"
  by (simp add: tx_out_def)

lemma sn_flush_out:
  assumes "tx_out p out s fs pend" and "packer_ok p (sn_packer s) held" and "ra_partial r = None"
    and "sn_flush_packer s = (Inr (), s')"
  shows "\<exists>gs pend'. tx_out p out s' (fs @ gs) pend' \<and> feed_all r gs = (Inr held, r) \<and>
    list_all (\<lambda>f. is_data (f_kind f)) gs \<and> packer_ok p (sn_packer s') [] \<and> tx_moved s s'"
proof -
  have inv: "packer_inv (sn_packer s) held" using assms(2) by (simp add: packer_ok_def)
  from flush_into_spec [OF inv assms(3), of "[]"] obtain gs q where
    q: "packer_flush_into [] (sn_packer s) = (gs, q)" "feed_all r gs = (Inr held, r)"
      "list_all (fits_entity (ap_max_dtf_len (sn_packer s))) gs" "packer_inv q []" "length gs \<le> 1"
      "ap_max_dtf_len q = ap_max_dtf_len (sn_packer s)"
    by auto
  note fits = packer_ok_fits [OF assms(2) q(3)]
  have ok: "packer_ok p q []" using assms(2) q by (simp add: packer_ok_def)
  show ?thesis
  proof (cases gs)
    case Nil
    with assms(4) q(1) have s': "s' = s\<lparr>sn_packer := q\<rparr>" by (simp add: sn_flush_packer_def packer_flush_def)
    with assms(1) q(2) ok Nil show ?thesis
      by (intro exI [of _ "[]"] exI [of _ pend]) (simp add: tx_moved_packer)
  next
    case (Cons g gs')
    with q(5) have g: "gs = [g]" by simp
    with assms(4) q(1) have push: "sn_push g (s\<lparr>sn_packer := q\<rparr>) = (Inr (), s')"
      by (simp add: sn_flush_packer_def packer_flush_def)
    from sn_push_out [OF _ _ push, of p out fs pend] assms(1) fits(1) g obtain pend' where
      "tx_out p out s' (fs @ [g]) pend'" "tx_same (s\<lparr>sn_packer := q\<rparr>) s'" by auto
    with tx_same_moved [OF this(2)] g q(2) fits(2) ok show ?thesis
      by (intro exI [of _ gs] exI [of _ pend']) (auto intro: tx_moved_trans [OF tx_moved_packer])
  qed
qed

section \<open>The invariant of the loop\<close>

definition wire_bound :: "data_params \<Rightarrow> bytes \<Rightarrow> nat" where
  "wire_bound p a = (if dp_compression p = Comp_None then length a else 2 * length a)"

text \<open>
  Articles a receiver with the article limit \<open>m\<close> can take: when the wire form needs several FPDUs, it
  must not exceed the limit of the reassembler, which counts compressed bytes, and a compressed
  article must not exceed the reference.
\<close>

definition admissible :: "data_params \<Rightarrow> usize \<Rightarrow> bytes \<Rightarrow> bool" where
  "admissible p m a \<longleftrightarrow>
     (m = 0 \<or> wire_bound p a \<le> m \<or>
      wire_bound p a + HEADER_LEN + (if dp_crc p then CRC_LEN else 0) \<le> dp_max_entity p) \<and>
     (dp_compression p \<noteq> Comp_None \<longrightarrow> length a \<le> max m 1)"

definition tx_base :: "data_params \<Rightarrow> reassembler \<Rightarrow> checkpoint \<Rightarrow> bytes \<Rightarrow> ('s, 'c) send_state \<Rightarrow>
    fpdu list \<Rightarrow> fpdu list \<Rightarrow> tx_item list \<Rightarrow> bytes list \<Rightarrow> nat \<Rightarrow> bool" where
  "tx_base p r start out s fs pend its held n \<longleftrightarrow>
     tx_out p out s fs pend \<and> transmits (dp_peer_id p) r fs its \<and> packer_ok p (sn_packer s) held \<and>
     sn_data_bytes s = cp_data_bytes start + word_of_nat (sum_list (map length (wires_of its @ held))) \<and>
     sn_articles s = cp_articles start + word_of_nat (length (wires_of its @ held)) \<and>
     sn_sync_no s = last_sync_of (cp_sync start) its \<and>
     unat (last_sync_of (cp_sync start) its) \<le> unat (cp_sync start) + n"

definition tx_inv :: "data_params \<Rightarrow> reassembler \<Rightarrow> decompressor option \<Rightarrow> checkpoint \<Rightarrow> bytes \<Rightarrow>
    ('s, 'c) send_state \<Rightarrow> bytes list \<Rightarrow> bool" where
  "tx_inv p r d0 start out s sent \<longleftrightarrow>
     (\<exists>fs pend its held d. tx_base p r start out s fs pend its held (length sent) \<and>
        unwire d0 (wires_of its @ held) = Some (sent, d) \<and>
        coupled (ra_max_len r) (sn_compressor s) d)"

text \<open>The link up to its writer.\<close>

definition link_rest :: "('s, 'c) send_state \<Rightarrow> link" where
  "link_rest s = (cn_link s)\<lparr>lk_writer := \<lparr>wr_out = [], wr_script = [], wr_framing = Raw\<rparr>\<rparr>"

lemma moved_fields:
  assumes "tx_moved s s'"
  shows "sn_source s' = sn_source s" and "link_rest s' = link_rest s" and "sn_compressor s' = sn_compressor s"
    and "sn_data_bytes s' = sn_data_bytes s" and "sn_articles s' = sn_articles s"
    and "sn_sync_no s' = sn_sync_no s" and "sn_bytes_since_sync s' = sn_bytes_since_sync s"
  using assms by (auto simp: tx_moved_def link_rest_def)

lemma sn_push_moved:
  assumes "tx_out p out s fs pend" and "fpdu_fits p f" and "sn_push f s = (Inr (), s')"
  shows "\<exists>pend'. pend' \<noteq> [] \<and> tx_out p out s' (fs @ [f]) pend' \<and> tx_moved s s' \<and> sn_packer s' = sn_packer s"
  using sn_push_out [OF assms] tx_same_moved by blast

lemma apply_local_Inr: "apply_local e s = (Inr u, s') \<longleftrightarrow> (\<exists>m x. machine_apply (Local e) (cn_machine s) = (Inr x, m) \<and> s' = s\<lparr>cn_machine := m\<rparr>)"
  by (auto simp: apply_local_def act_bind_eq_Inr act_on_eq_Inr)

lemma tx_out_sync_no [simp]: "tx_out p out (s\<lparr>sn_sync_no := n\<rparr>) fs pend = tx_out p out s fs pend"
  by (simp add: tx_out_def)

lemma sn_put_syn_base:
  assumes base: "tx_base p r start out s fs pend its held n" and r: "ra_partial r = None"
    and run: "sn_put_syn p s = (Inr (), s')"
    and bound: "unat (cp_sync start) + n + 1 < 2 ^ 24" and size: "13 \<le> dp_max_entity p"
  shows "\<exists>fs' its'. tx_base p r start out s' fs' [] its' [] (n + 1) \<and> wires_of its' = wires_of its @ held \<and>
    sn_source s' = sn_source s \<and> link_rest s' = link_rest s \<and> sn_compressor s' = sn_compressor s"
proof -
  let ?n = "sn_sync_no s + 1"
  have n: "unat ?n = unat (sn_sync_no s) + 1" "unat ?n < 2 ^ 24"
    using base bound by (auto simp: tx_base_def unat_word_ariths)
  from run obtain s1 s2 where
    1: "sn_flush_packer s = (Inr (), s1)" and
    2: "sn_push (syn (dp_peer_id p) (sn_sync_no s1 + 1)) (s1\<lparr>sn_sync_no := sn_sync_no s1 + 1\<rparr>) = (Inr (), s2)" and
    3: "sn_send_entity s2 = (Inr (), s')"
    by (auto simp: sn_put_syn_def act_then_eq_Inr act_bind_eq_Inr)
  obtain gs pend1 where f: "tx_out p out s1 (fs @ gs) pend1" "feed_all r gs = (Inr held, r)"
      "list_all (\<lambda>f. is_data (f_kind f)) gs" "packer_ok p (sn_packer s1) []" "tx_moved s s1"
    using sn_flush_out [OF _ _ r 1, of p out fs pend held] base by (auto simp: tx_base_def)
  note m1 = moved_fields [OF f(5)]
  have fit: "fpdu_fits p (syn (dp_peer_id p) ?n)"
    using transfer_sendable(1) [OF n(2)] transfer_lengths(1) [OF n(2), of "dp_peer_id p"] size
    by (simp add: fpdu_fits_def CRC_LEN_def)
  from sn_push_moved [OF _ fit, of out "s1\<lparr>sn_sync_no := ?n\<rparr>" "fs @ gs" pend1 s2] 2 m1(6) f(1) obtain pend2 where
    p2: "pend2 \<noteq> []" "tx_out p out s2 (fs @ gs @ [syn (dp_peer_id p) ?n]) pend2" "tx_moved (s1\<lparr>sn_sync_no := ?n\<rparr>) s2"
      "sn_packer s2 = sn_packer s1"
    by auto
  from sn_send_entity_out [OF p2(2,1) 3] have p3: "tx_out p out s' (fs @ gs @ [syn (dp_peer_id p) ?n]) []"
    and same: "tx_same s2 s'" by auto
  note m2 = moved_fields [OF p2(3)] and m3 = moved_fields [OF conjunct1 [OF tx_same_moved [OF same]]]
  have "transmits (dp_peer_id p) r (fs @ gs @ [syn (dp_peer_id p) ?n]) (its @ map Tx_Wire held @ [Tx_Sync ?n])"
    using tr_syn [OF tr_data [OF _ f(3,2)] n(2)] base by (simp add: tx_base_def)
  with p3 base m1 m2 m3 f(4) p2(4) conjunct2 [OF tx_same_moved [OF same]] n(1) show ?thesis
    by (intro exI [of _ "fs @ gs @ [syn (dp_peer_id p) ?n]"] exI [of _ "its @ map Tx_Wire held @ [Tx_Sync ?n]"])
      (simp add: tx_base_def link_rest_def)
qed

lemma tx_out_other [simp]:
  "tx_out p out (s\<lparr>cn_machine := m\<rparr>) fs pend = tx_out p out s fs pend"
  "tx_out p out (s\<lparr>sn_store := x1\<rparr>) fs pend = tx_out p out s fs pend"
  "tx_out p out (s\<lparr>sn_source := x2\<rparr>) fs pend = tx_out p out s fs pend"
  "tx_out p out (s\<lparr>sn_unacked := x3\<rparr>) fs pend = tx_out p out s fs pend"
  "tx_out p out (s\<lparr>sn_bytes_since_sync := x4\<rparr>) fs pend = tx_out p out s fs pend"
  "tx_out p out (s\<lparr>sn_compressor := x5\<rparr>) fs pend = tx_out p out s fs pend"
  "tx_out p out (s\<lparr>sn_cancel := x6\<rparr>) fs pend = tx_out p out s fs pend"
  "tx_out p out (s\<lparr>sn_progress := x7\<rparr>) fs pend = tx_out p out s fs pend"
  "tx_out p out (s\<lparr>sn_data_bytes := x8\<rparr>) fs pend = tx_out p out s fs pend"
  "tx_out p out (s\<lparr>sn_articles := x9\<rparr>) fs pend = tx_out p out s fs pend"
  "tx_out p out (s\<lparr>sn_prev_pos := x10\<rparr>) fs pend = tx_out p out s fs pend"
  by (simp_all add: tx_out_def)

lemma sn_sync_point_base:
  assumes "tx_base p r start out s fs pend its held n" and "ra_partial r = None"
    and "sn_sync_point p st a w s = (Inr w', s')"
    and "unat (cp_sync start) + n + 1 < 2 ^ 24" and "13 \<le> dp_max_entity p"
  shows "\<exists>fs' its'. tx_base p r start out s' fs' [] its' [] (n + 1) \<and> wires_of its' = wires_of its @ held \<and>
    sn_source s' = sn_source s \<and> link_rest s' = link_rest s \<and>
    (case sn_compressor s of
       None \<Rightarrow> w' = w \<and> sn_compressor s' = None
     | Some c \<Rightarrow> \<exists>c'. compressor_compress a (compressor_sync_point c) = Some (w', c') \<and> sn_compressor s' = Some c')"
proof -
  from assms(3) obtain s1 s2 where 1: "sn_put_syn p s = (Inr (), s1)" and 2: "sn_mark_sync p st s1 = (Inr (), s2)" and
    3: "(if sn_compressor s2 = None then act_return w
        else act_then (act_modify (\<lambda>s. s\<lparr>sn_compressor := map_option compressor_sync_point (sn_compressor s)\<rparr>))
             (sn_compress a)) s2 = (Inr w', s')"
    by (auto simp: sn_sync_point_def act_then_eq_Inr act_bind_eq_Inr)
  from sn_put_syn_base [OF assms(1,2) 1 assms(4,5)] obtain fs' its' where
    b: "tx_base p r start out s1 fs' [] its' [] (n + 1)" "wires_of its' = wires_of its @ held"
      "sn_source s1 = sn_source s" "link_rest s1 = link_rest s" "sn_compressor s1 = sn_compressor s" by blast
  from 2 obtain m x y z where s2: "s2 = s1\<lparr>cn_machine := m, sn_store := x, sn_unacked := y, sn_bytes_since_sync := z\<rparr>"
    by (auto simp: sn_mark_sync_def act_then_eq_Inr act_bind_eq_Inr apply_local_Inr sn_on_store_def act_on_eq_Inr)
  have b2: "tx_base p r start out s2 fs' [] its' [] (n + 1)" "sn_source s2 = sn_source s" "link_rest s2 = link_rest s"
    "sn_compressor s2 = sn_compressor s"
    using b by (simp_all add: s2 tx_base_def link_rest_def)
  show ?thesis
  proof (cases "sn_compressor s")
    case None
    with 3 b2(4) have "w' = w" "s' = s2" by auto
    with None b(2) b2 show ?thesis by (intro exI [of _ fs'] exI [of _ its']) simp
  next
    case (Some c)
    with 3 b2(4) obtain c' where c': "compressor_compress a (compressor_sync_point c) = Some (w', c')"
      "s' = s2\<lparr>sn_compressor := Some c'\<rparr>"
      by (auto simp: sn_compress_def split: option.splits)
    with Some b(2) b2 show ?thesis
      by (intro exI [of _ fs'] exI [of _ its']) (simp add: tx_base_def link_rest_def)
  qed
qed

lemma sn_send_entity_moved:
  "tx_out p out s fs pend \<Longrightarrow> pend \<noteq> [] \<Longrightarrow> sn_send_entity s = (Inr (), s') \<Longrightarrow>
    tx_out p out s' fs [] \<and> tx_moved s s' \<and> sn_packer s' = sn_packer s"
  using sn_send_entity_out tx_same_moved by blast

lemma sn_pack_out:
  assumes out: "tx_out p out s fs pend" and tr: "transmits (dp_peer_id p) r fs its"
    and ok: "packer_ok p (sn_packer s) held" and r: "ra_partial r = None"
    and acc: "packer_max_single (sn_packer s) < length w \<Longrightarrow> accepts r w"
    and run: "sn_pack w s = (Inr (), s')" and size: "13 \<le> dp_max_entity p"
  shows "\<exists>fs' pend' ws held'. tx_out p out s' fs' pend' \<and> transmits (dp_peer_id p) r fs' (its @ map Tx_Wire ws) \<and>
    packer_ok p (sn_packer s') held' \<and> ws @ held' = held @ [w] \<and> tx_moved s s'"
proof -
  have inv: "packer_inv (sn_packer s) held" "\<not> ap_multi_article (sn_packer s) \<Longrightarrow> held = []"
    using ok by (auto simp: packer_ok_def)
  from push_spec [OF inv(1) r acc inv(2)] obtain gs q ws held' where
    q: "packer_push w (sn_packer s) = (gs, q)" "feed_all r gs = (Inr ws, r)" "ws @ held' = held @ [w]"
      "packer_inv q held'" "list_all (fits_entity (ap_max_dtf_len (sn_packer s))) gs"
      "ap_max_dtf_len q = ap_max_dtf_len (sn_packer s)" "ap_multi_article q = ap_multi_article (sn_packer s)"
      "\<not> ap_multi_article (sn_packer s) \<longrightarrow> held' = []"
    by auto
  note fits = packer_ok_fits [OF ok q(5)]
  have okq: "packer_ok p q held'" using ok q by (simp add: packer_ok_def)
  let ?s = "s\<lparr>sn_packer := q\<rparr>"
  from run q(1) obtain s1 where 1: "act_each sn_push gs ?s = (Inr (), s1)"
    and 2: "act_when (builder_remaining (sn_entity s1) < HEADER_LEN + 1) sn_send_entity s1 = (Inr (), s')"
    by (auto simp: sn_pack_def act_bind_eq_Inr act_then_eq_Inr)
  from sn_push_all_out [OF _ fits(1) 1, of out fs pend] out obtain pend1 where
    o1: "tx_out p out s1 (fs @ gs) pend1" "tx_same ?s s1" by auto
  have m1: "tx_moved s s1" "sn_packer s1 = q"
    using tx_same_moved [OF o1(2)] tx_moved_trans [OF tx_moved_packer] by auto
  have tr1: "transmits (dp_peer_id p) r (fs @ gs) (its @ map Tx_Wire ws)" by (rule tr_data [OF tr fits(2) q(2)])
  show ?thesis
  proof (cases "builder_remaining (sn_entity s1) < HEADER_LEN + 1")
    case True
    have "pend1 \<noteq> []"
    proof
      assume "pend1 = []"
      with o1(1) size have "builder_remaining (sn_entity s1) \<ge> 11"
        by (auto simp: tx_out_def builder_holds_def builder_remaining_def entity_of_def CRC_LEN_def)
      with True show False by (simp add: HEADER_LEN_def)
    qed
    with sn_send_entity_moved [OF o1(1)] 2 True m1 have
      "tx_out p out s' (fs @ gs) []" "tx_moved s s'" "sn_packer s' = q" by (auto intro: tx_moved_trans)
    with tr1 okq q(3) show ?thesis
      by (intro exI [of _ "fs @ gs"] exI [of _ "[]"] exI [of _ ws] exI [of _ held']) simp
  next
    case False
    with 2 have "s' = s1" by simp
    with o1 m1 tr1 okq q(3) show ?thesis by blast
  qed
qed

text \<open>
  An article leaves the source: its wire form decodes to it at the receiver, after everything that
  was sent before.
\<close>

lemma sn_compress_coupled:
  assumes "coupled m (sn_compressor s) d" and "sn_compressor s \<noteq> None \<Longrightarrow> length a \<le> max m 1"
    and "sn_compress a s = (Inr w, s')"
  shows "\<exists>c' d'. s' = s\<lparr>sn_compressor := c'\<rparr> \<and> unwire d [w] = Some ([a], d') \<and> coupled m c' d' \<and>
    length w \<le> (if sn_compressor s = None then length a else 2 * length a)"
  using assms(1)
proof (cases rule: coupled_cases)
  case 1
  with assms(3) show ?thesis by (intro exI [of _ None]) (simp add: sn_compress_def coupled_def)
next
  case (2 c e)
  from in_step_article [OF 2(3), of a] assms(2) 2 obtain w1 c' e' where
    "compressor_compress a c = Some (w1, c')" "decompressor_decompress w1 e = (Inr a, e')" "in_step m c' e'" by auto
  with 2 assms(3) show ?thesis
    by (intro exI [of _ "Some c'"] exI [of _ "Some e'"])
      (auto simp: sn_compress_def coupled_def dest: compressor_compress_length)
qed

lemma sn_wire_base:
  assumes b: "tx_base p r start out s fs pend its held (length sent)" "coupled (ra_max_len r) (sn_compressor s) d"
    and r: "ra_partial r = None" and comp: "(sn_compressor s = None) = (dp_compression p = Comp_None)"
    and adm: "admissible p (ra_max_len r) a" and run: "sn_wire p st a s = (Inr w', s2)"
    and bound: "unat (cp_sync start) + length sent + 1 < 2 ^ 24" and size: "13 \<le> dp_max_entity p"
  shows "\<exists>fs' pend' its' held' d'. tx_base p r start out s2 fs' pend' its' held' (length sent + 1) \<and>
      wires_of its' @ held' = wires_of its @ held \<and> unwire d [w'] = Some ([a], d') \<and>
      coupled (ra_max_len r) (sn_compressor s2) d' \<and> length w' \<le> wire_bound p a \<and>
      sn_source s2 = sn_source s \<and> link_rest s2 = link_rest s"
proof -
  have len: "sn_compressor s \<noteq> None \<Longrightarrow> length a \<le> max (ra_max_len r) 1"
    using adm comp by (simp add: admissible_def)
  from run obtain w s1 where 1: "sn_compress a s = (Inr w, s1)"
    and 2: "(case send_interval p of None \<Rightarrow> act_return w
       | Some iv \<Rightarrow> if sn_bytes_since_sync s1 > 0 \<and> sn_bytes_since_sync s1 + word_of_nat (length w) > iv
           then sn_sync_point p st a w else act_return w) s1 = (Inr w', s2)"
    by (auto simp: sn_wire_def act_bind_eq_Inr)
  from sn_compress_coupled [OF b(2) len 1] obtain c1 d1 where
    c1: "s1 = s\<lparr>sn_compressor := c1\<rparr>" "unwire d [w] = Some ([a], d1)" "coupled (ra_max_len r) c1 d1"
      "length w \<le> (if sn_compressor s = None then length a else 2 * length a)" by blast
  have b1: "tx_base p r start out s1 fs pend its held (length sent)" using b(1) by (simp add: c1 tx_base_def)
  show ?thesis
  proof (cases "s2 = s1 \<and> w' = w")
    case True
    with b1 c1 comp show ?thesis
      by (intro exI [of _ fs] exI [of _ pend] exI [of _ its] exI [of _ held] exI [of _ d1])
        (auto simp: tx_base_def wire_bound_def link_rest_def)
  next
    case False
    with 2 have sp: "sn_sync_point p st a w s1 = (Inr w', s2)" by (auto split: option.splits if_splits)
    from sn_sync_point_base [OF b1 r sp bound size] obtain fs' its' where
      sy: "tx_base p r start out s2 fs' [] its' [] (length sent + 1)" "wires_of its' = wires_of its @ held"
        "sn_source s2 = sn_source s1" "link_rest s2 = link_rest s1"
      and rc: "case sn_compressor s1 of None \<Rightarrow> w' = w \<and> sn_compressor s2 = None
        | Some c \<Rightarrow> \<exists>c'. compressor_compress a (compressor_sync_point c) = Some (w', c') \<and> sn_compressor s2 = Some c'"
      by blast
    have "\<exists>d'. unwire d [w'] = Some ([a], d') \<and> coupled (ra_max_len r) (sn_compressor s2) d' \<and> length w' \<le> wire_bound p a"
      using b(2)
    proof (cases rule: coupled_cases)
      case 1
      with c1 rc comp show ?thesis by (auto simp: coupled_def wire_bound_def split: option.splits)
    next
      case (2 c e)
      with 1 obtain c1' where cc: "compressor_compress a c = Some (w, c1')" "sn_compressor s1 = Some c1'"
        by (auto simp: sn_compress_def split: option.splits)
      from in_step_again [OF 2(3) _ cc(1)] len 2(1) obtain w2 c2 e2 where
        a2: "compressor_compress a (compressor_sync_point c1') = Some (w2, c2)"
          "decompressor_decompress w2 e = (Inr a, e2)" "in_step (ra_max_len r) c2 e2" by auto
      with rc cc(2) have "w' = w2" "sn_compressor s2 = Some c2" by auto
      with a2 2 compressor_compress_length [OF a2(1)] comp show ?thesis
        by (intro exI [of _ "Some e2"]) (simp add: coupled_def wire_bound_def)
    qed
    then obtain d' where "unwire d [w'] = Some ([a], d')" "coupled (ra_max_len r) (sn_compressor s2) d'"
      "length w' \<le> wire_bound p a" by blast
    moreover have "sn_source s1 = sn_source s" "link_rest s1 = link_rest s" by (simp_all add: c1(1) link_rest_def)
    moreover have "wires_of its' @ [] = wires_of its @ held" using sy(2) by simp
    ultimately show ?thesis using sy(1,3,4) by metis
  qed
qed

lemma sn_article_inv:
  assumes inv: "tx_inv p r d0 start out s sent" and r: "ra_partial r = None"
    and d0: "(d0 = None) = (dp_compression p = Comp_None)"
    and adm: "admissible p (ra_max_len r) a"
    and run: "sn_article p so st a s = (Inr (), s')"
    and bound: "unat (cp_sync start) + length sent + 1 < 2 ^ 24" and size: "13 \<le> dp_max_entity p"
  shows "tx_inv p r d0 start out s' (sent @ [a]) \<and> sn_source s' = sn_source s \<and> link_rest s' = link_rest s"
proof -
  from inv obtain fs pend its held d where
    b: "tx_base p r start out s fs pend its held (length sent)" "unwire d0 (wires_of its @ held) = Some (sent, d)"
      "coupled (ra_max_len r) (sn_compressor s) d"
    by (auto simp: tx_inv_def)
  have comp: "(sn_compressor s = None) = (dp_compression p = Comp_None)"
    using b(3) unwire_None [OF b(2)] d0 by (auto simp: coupled_def split: option.splits)
  from run obtain w' s2 s3 m x where 2: "sn_wire p st a s = (Inr w', s2)" and 3: "sn_pack w' s2 = (Inr (), s3)"
    and s': "s' = s3\<lparr>cn_machine := m, sn_data_bytes := sn_data_bytes s3 + word_of_nat (length w'),
         sn_articles := sn_articles s3 + 1,
         sn_bytes_since_sync := sn_bytes_since_sync s3 + word_of_nat (length w'),
         sn_prev_pos := so_position so (sn_source s3), sn_progress := x\<rparr>"
    by (auto simp: sn_article_def act_bind_eq_Inr act_then_eq_Inr apply_local_Inr sn_report_def)
  from sn_wire_base [OF b(1,3) r comp adm 2 bound size] obtain fs' pend' its' held' d' where
    b2: "tx_base p r start out s2 fs' pend' its' held' (length sent + 1)"
      "wires_of its' @ held' = wires_of its @ held" "unwire d [w'] = Some ([a], d')"
      "coupled (ra_max_len r) (sn_compressor s2) d'" "length w' \<le> wire_bound p a"
      "sn_source s2 = sn_source s" "link_rest s2 = link_rest s" by blast
  have base: "tx_out p out s2 fs' pend'" "transmits (dp_peer_id p) r fs' its'" "packer_ok p (sn_packer s2) held'"
    using b2(1) by (simp_all add: tx_base_def)
  have acc: "accepts r w'" if "packer_max_single (sn_packer s2) < length w'"
    using that adm b2(5) base(3) by (auto simp: accepts_def admissible_def packer_ok_def packer_max_single_def)
  from sn_pack_out [OF base r acc 3 size] obtain fs3 pend3 ws held3 where
    b3: "tx_out p out s3 fs3 pend3" "transmits (dp_peer_id p) r fs3 (its' @ map Tx_Wire ws)"
      "packer_ok p (sn_packer s3) held3" "ws @ held3 = held' @ [w']" "tx_moved s2 s3" by blast
  note m3 = moved_fields [OF b3(5)]
  have all: "wires_of (its' @ map Tx_Wire ws) @ held3 = (wires_of its @ held) @ [w']"
    using b2(2) b3(4) by (metis append.assoc wires_of_append wires_of_wires)
  have "tx_base p r start out s' fs3 pend3 (its' @ map Tx_Wire ws) held3 (length (sent @ [a]))"
    unfolding tx_base_def all using b2(1) b3 m3
    by (simp add: s' tx_base_def flip: b2(2))
  moreover have "unwire d0 (wires_of (its' @ map Tx_Wire ws) @ held3) = Some (sent @ [a], d')"
    unfolding all by (rule unwire_append [OF b(2) b2(3)])
  moreover have "coupled (ra_max_len r) (sn_compressor s') d'" using b2(4) m3(3) by (simp add: s')
  moreover have "sn_source s' = sn_source s \<and> link_rest s' = link_rest s" using b2(6,7) m3 by (simp add: s' link_rest_def)
  ultimately show ?thesis unfolding tx_inv_def by blast
qed

section \<open>FPDUs that arrive meanwhile\<close>

text \<open>No RESYN is among what may arrive, whether or not check bytes are expected.\<close>

fun no_resyn_event :: "rx_event \<Rightarrow> bool" where
  "no_resyn_event (Rx_Entity e _) =
     list_all (\<lambda>crc. case split_entity e crc of
         Inl _ \<Rightarrow> True
       | Inr slices \<Rightarrow> list_all (\<lambda>bs. case decode bs of Inl _ \<Rightarrow> True | Inr f \<Rightarrow> f_kind f \<noteq> K_Resyn) slices)
       [False, True]"
| "no_resyn_event _ = True"

definition no_resyn :: "link \<Rightarrow> bool" where
  "no_resyn l \<longleftrightarrow> list_all (\<lambda>f. f_kind f \<noteq> K_Resyn) (lk_pending l) \<and> list_all no_resyn_event (lk_rx l)"

lemma queue_slices_no_resyn:
  "queue_slices slices l = (r, l') \<Longrightarrow> no_resyn l \<Longrightarrow>
    list_all (\<lambda>bs. case decode bs of Inl _ \<Rightarrow> True | Inr f \<Rightarrow> f_kind f \<noteq> K_Resyn) slices \<Longrightarrow>
    no_resyn l' \<and> lk_writer l' = lk_writer l"
proof (induction slices l rule: queue_slices.induct)
  case (2 bs rest l)
  show ?case
  proof (cases "decode bs")
    case (Inr f)
    with "2.prems" have "no_resyn (l\<lparr>lk_pending := lk_pending l @ [f]\<rparr>)" by (simp add: no_resyn_def)
    with "2.IH" [OF Inr] "2.prems" Inr show ?thesis by simp
  qed (use "2.prems" in auto)
qed auto

lemma queue_entity_no_resyn:
  assumes "queue_entity e l = (r, l')" and "no_resyn l" and "no_resyn_event (Rx_Entity e on)"
  shows "no_resyn l' \<and> lk_writer l' = lk_writer l"
proof (cases "split_entity e (lk_crc l)")
  case (Inr slices)
  with assms(3) have "list_all (\<lambda>bs. case decode bs of Inl _ \<Rightarrow> True | Inr f \<Rightarrow> f_kind f \<noteq> K_Resyn) slices"
    by (cases "lk_crc l") auto
  with queue_slices_no_resyn [of slices l r l'] assms(1,2) Inr show ?thesis by (simp add: queue_entity_def)
qed (use assms in \<open>auto simp: queue_entity_def\<close>)

lemma pop_pending_no_resyn:
  "pop_pending l = (x, l') \<Longrightarrow> no_resyn l \<Longrightarrow>
    no_resyn l' \<and> lk_writer l' = lk_writer l \<and> (\<forall>f. x = Some f \<longrightarrow> f_kind f \<noteq> K_Resyn)"
  by (auto simp: pop_pending_def no_resyn_def split: list.splits)

lemma next_event_no_resyn:
  "link_next_event l = (ev, l') \<Longrightarrow> no_resyn l \<Longrightarrow> no_resyn l' \<and> lk_writer l' = lk_writer l \<and> no_resyn_event ev"
  by (auto simp: link_next_event_def no_resyn_def split: list.splits rx_event.splits)

lemma pop_pending_case:
  "(case pop_pending l of (f, l2) \<Rightarrow> (Inr f, l2)) = (Inr x, l') \<longleftrightarrow> pop_pending l = (x, l')"
  "(case pop_pending l of (Some f, l2) \<Rightarrow> (Inr f, l2) | (None, l2) \<Rightarrow> (Inl e, l2)) = (Inr f, l') \<longleftrightarrow>
    pop_pending l = (Some f, l')"
  by (cases "pop_pending l"; force split: option.splits)+

lemma try_recv_no_resyn:
  assumes "link_try_recv l = (Inr x, l')" and "no_resyn l"
  shows "no_resyn l' \<and> lk_writer l' = lk_writer l \<and> (\<forall>f. x = Some f \<longrightarrow> f_kind f \<noteq> K_Resyn)"
proof (cases "pop_pending l")
  case (Pair q l1)
  note p = pop_pending_no_resyn [OF this assms(2)]
  show ?thesis
  proof (cases q)
    case None
    obtain ev l2 where ev: "link_next_event l1 = (ev, l2)" by fastforce
    note e = next_event_no_resyn [OF ev conjunct1 [OF p]]
    show ?thesis
    proof (cases ev)
      case (Rx_Entity en on)
      show ?thesis
      proof (cases "lk_closed l1")
        case False
        with assms(1) Pair None ev Rx_Entity obtain l3 where
          "queue_entity en l2 = (Inr (), l3)" "pop_pending l3 = (x, l')"
          by (auto simp: link_try_recv_def act_then_eq_Inr pop_pending_case)
        with queue_entity_no_resyn [OF this(1) _, of on] pop_pending_no_resyn [OF this(2)] e p Rx_Entity
        show ?thesis by auto
      qed (use assms(1) Pair None ev Rx_Entity p in \<open>auto simp: link_try_recv_def\<close>)
    qed (use assms(1) Pair None ev p e in \<open>auto simp: link_try_recv_def split: if_splits\<close>)
  qed (use assms(1) Pair p in \<open>auto simp: link_try_recv_def\<close>)
qed

lemma recv_no_resyn:
  assumes "link_recv l = (Inr f, l')" and "no_resyn l"
  shows "no_resyn l' \<and> lk_writer l' = lk_writer l \<and> f_kind f \<noteq> K_Resyn"
proof (cases "pop_pending l")
  case (Pair q l1)
  note p = pop_pending_no_resyn [OF this assms(2)]
  show ?thesis
  proof (cases q)
    case None
    obtain ev l2 where ev: "link_next_event l1 = (ev, l2)" by fastforce
    note e = next_event_no_resyn [OF ev conjunct1 [OF p]]
    from assms(1) Pair None ev obtain en on l3 where
      "ev = Rx_Entity en on" "queue_entity en l2 = (Inr (), l3)" "pop_pending l3 = (Some f, l')"
      by (auto simp: link_recv_def link_recv_entity_def act_then_eq_Inr act_bind_eq_Inr pop_pending_case
          split: rx_event.splits if_splits)
    with queue_entity_no_resyn [OF this(2) _, of on] pop_pending_no_resyn [OF this(3)] e p show ?thesis by auto
  qed (use assms(1) Pair p in \<open>auto simp: link_recv_def\<close>)
qed

lemma queue_slices_writer: "queue_slices slices l = (r, l') \<Longrightarrow> lk_writer l' = lk_writer l"
  by (induction slices l rule: queue_slices.induct) (auto split: sum.splits)

lemma queue_entity_writer: "queue_entity e l = (r, l') \<Longrightarrow> lk_writer l' = lk_writer l"
  by (auto simp: queue_entity_def dest: queue_slices_writer split: sum.splits)

lemma pop_next_writer:
  "pop_pending l = (x, l') \<Longrightarrow> lk_writer l' = lk_writer l"
  "link_next_event l = (ev, l') \<Longrightarrow> lk_writer l' = lk_writer l"
  by (auto simp: pop_pending_def link_next_event_def split: list.splits rx_event.splits)

lemma recv_writer:
  shows "link_try_recv l = (Inr x, l') \<Longrightarrow> lk_writer l' = lk_writer l"
    and "link_recv l = (Inr f, l') \<Longrightarrow> lk_writer l' = lk_writer l"
proof -
  obtain q l1 where 1: "pop_pending l = (q, l1)" by fastforce
  obtain ev l2 where 2: "link_next_event l1 = (ev, l2)" by fastforce
  note w = pop_next_writer(1) [OF 1] pop_next_writer(2) [OF 2]
  show "lk_writer l' = lk_writer l" if "link_try_recv l = (Inr x, l')"
    using that 1 2 w
    by (auto simp: link_try_recv_def act_then_eq_Inr pop_pending_case
        split: option.splits rx_event.splits if_splits)
      (metis queue_entity_writer pop_next_writer(1))
  show "lk_writer l' = lk_writer l" if "link_recv l = (Inr f, l')"
    using that 1 2 w
    by (auto simp: link_recv_def link_recv_entity_def act_then_eq_Inr act_bind_eq_Inr pop_pending_case
        split: option.splits rx_event.splits if_splits)
      (metis queue_entity_writer pop_next_writer(1))
qed

text \<open>An FPDU that is neither RESYN nor the end of the phase changes nothing on the wire.\<close>

lemma handle_async_quiet:
  assumes "handle_async p so st f s = (Inr None, s')" and "dp_resync p \<Longrightarrow> f_kind f \<noteq> K_Resyn"
  shows "\<exists>m x y. s' = s\<lparr>cn_machine := m, sn_store := x, sn_unacked := y\<rparr>"
proof -
  have rcv: "\<exists>m. s1 = s\<lparr>cn_machine := m\<rparr>" if "apply_received f s = (Inr b, s1)" for b s1
    using that by (auto simp: apply_received_def split: if_splits prod.splits sum.splits)
  show ?thesis
  proof (cases "f_kind f = K_AckSyn")
    case True
    with assms(1) obtain b s1 x y where 1: "apply_received f s = (Inr b, s1)" "s' = s1\<lparr>sn_unacked := y, sn_store := x\<rparr>"
      by (auto simp: handle_async_def sn_handle_ack_syn_def act_then_eq_Inr sn_on_store_def act_on_eq_Inr Let_def)
    from rcv [OF 1(1)] obtain m where "s1 = s\<lparr>cn_machine := m\<rparr>" by blast
    with 1(2) have "s' = s\<lparr>cn_machine := m, sn_store := x, sn_unacked := y\<rparr>" by simp
    then show ?thesis by blast
  next
    case False
    with assms obtain b s1 where 1: "apply_received f s = (Inr b, s1)" "f_kind f \<noteq> K_Resyn"
        "f_kind f \<noteq> K_Idt" "s' = s1"
      by (auto simp: handle_async_def sn_handle_resyn_def act_then_eq_Inr act_bind_eq_Inr split: if_splits)
    from rcv [OF 1(1)] 1(4) obtain m where "s' = s\<lparr>cn_machine := m\<rparr>" by blast
    then show ?thesis
      by (intro exI [of _ m] exI [of _ "sn_store s"] exI [of _ "sn_unacked s"]) simp
  qed
qed

section \<open>The loop\<close>

definition tx_done :: "data_params \<Rightarrow> reassembler \<Rightarrow> decompressor option \<Rightarrow> checkpoint \<Rightarrow> bytes \<Rightarrow>
    ('s, 'c) send_state \<Rightarrow> data_result \<Rightarrow> bytes list \<Rightarrow> bool" where
  "tx_done p r d0 start out s res as \<longleftrightarrow>
     (\<exists>fs its d. tx_out p out s (fs @ [dtf_end (dp_peer_id p) D_OK]) [] \<and> transmits (dp_peer_id p) r fs its \<and>
        unwire d0 (wires_of its) = Some (as, d) \<and>
        res = \<lparr>dr_end = Completed,
          dr_data_bytes = cp_data_bytes start + word_of_nat (sum_list (map length (wires_of its))),
          dr_articles = cp_articles start + word_of_nat (length (wires_of its)),
          dr_last_sync = last_sync_of (cp_sync start) its\<rparr>)"

lemma sn_finish_done:
  assumes inv: "tx_inv p r d0 start out s sent" and r: "ra_partial r = None" and size: "13 \<le> dp_max_entity p"
    and run: "sn_finish p s = (Inr (), s')"
  shows "tx_done p r d0 start out s' (sn_result Completed s') sent"
proof -
  from inv obtain fs pend its held d where
    b: "tx_base p r start out s fs pend its held (length sent)" "unwire d0 (wires_of its @ held) = Some (sent, d)"
    by (auto simp: tx_inv_def)
  from run obtain s1 s2 s3 m x where 1: "sn_flush_packer s = (Inr (), s1)"
    and 2: "sn_push (dtf_end (dp_peer_id p) D_OK) s1 = (Inr (), s2)" and 3: "sn_send_entity s2 = (Inr (), s3)"
    and s': "s' = s3\<lparr>cn_machine := m, sn_progress := x\<rparr>"
    by (auto simp: sn_finish_def act_then_eq_Inr apply_local_Inr sn_report_def)
  obtain gs pend1 where f: "tx_out p out s1 (fs @ gs) pend1" "feed_all r gs = (Inr held, r)"
      "list_all (\<lambda>f. is_data (f_kind f)) gs" "tx_moved s s1"
    using sn_flush_out [OF _ _ r 1, of p out fs pend held] b(1) by (auto simp: tx_base_def)
  have fit: "fpdu_fits p (dtf_end (dp_peer_id p) D_OK)"
    using transfer_sendable(3) transfer_lengths(2) [of "dp_peer_id p" D_OK] size by (simp add: fpdu_fits_def CRC_LEN_def)
  from sn_push_moved [OF f(1) fit 2] obtain pend2 where
    p2: "pend2 \<noteq> []" "tx_out p out s2 (fs @ gs @ [dtf_end (dp_peer_id p) D_OK]) pend2" "tx_moved s1 s2" by auto
  from sn_send_entity_moved [OF p2(2,1) 3] have
    p3: "tx_out p out s3 (fs @ gs @ [dtf_end (dp_peer_id p) D_OK]) []" "tx_moved s2 s3" by auto
  note mv = moved_fields [OF tx_moved_trans [OF f(4) tx_moved_trans [OF p2(3) p3(2)]]]
  have "transmits (dp_peer_id p) r (fs @ gs) (its @ map Tx_Wire held)"
    using tr_data [OF _ f(3,2)] b(1) by (simp add: tx_base_def)
  with p3 b mv show ?thesis
    unfolding tx_done_def
    by (intro exI [of _ "fs @ gs"] exI [of _ "its @ map Tx_Wire held"] exI [of _ d])
      (simp add: s' sn_result_def tx_base_def)
qed

lemma tx_inv_other [simp]:
  "tx_inv p r d0 start out (s\<lparr>cn_machine := m\<rparr>) sent = tx_inv p r d0 start out s sent"
  "tx_inv p r d0 start out (s\<lparr>sn_store := x1\<rparr>) sent = tx_inv p r d0 start out s sent"
  "tx_inv p r d0 start out (s\<lparr>sn_source := x2\<rparr>) sent = tx_inv p r d0 start out s sent"
  "tx_inv p r d0 start out (s\<lparr>sn_unacked := x3\<rparr>) sent = tx_inv p r d0 start out s sent"
  "tx_inv p r d0 start out (s\<lparr>sn_cancel := x4\<rparr>) sent = tx_inv p r d0 start out s sent"
  "tx_inv p r d0 start out (s\<lparr>sn_prev_pos := x5\<rparr>) sent = tx_inv p r d0 start out s sent"
  by (simp_all add: tx_inv_def tx_base_def)

lemma tx_inv_link:
  "lk_writer l = lk_writer (cn_link s) \<Longrightarrow>
    tx_inv p r d0 start out (s\<lparr>cn_link := l\<rparr>) sent = tx_inv p r d0 start out s sent"
  by (simp add: tx_inv_def tx_base_def tx_out_def)

text \<open>
  The sender in front of a source: what a completed phase has put on the wire decodes to the articles
  the source had to yield.
\<close>

definition receiver_decompressor :: "data_params \<Rightarrow> decompressor option" where
  "receiver_decompressor p =
     (if dp_compression p \<noteq> Comp_None then Some (decompressor_new (max (dp_max_article p) 1)) else None)"

locale sending_source = article_source yields origin "so_next so" "so_position so" "so_rewind so"
  for yields :: "'s \<Rightarrow> bytes list \<Rightarrow> bool" and origin :: "'s \<Rightarrow> 'o" and so :: "'s source_ops"
begin

definition ready :: "data_params \<Rightarrow> reassembler \<Rightarrow> decompressor option \<Rightarrow> checkpoint \<Rightarrow> bytes \<Rightarrow>
    ('s, 'c) send_state \<Rightarrow> bytes list \<Rightarrow> bytes list \<Rightarrow> bool" where
  "ready p r d0 start out s sent rest \<longleftrightarrow>
     tx_inv p r d0 start out s sent \<and> yields (sn_source s) rest \<and> list_all (admissible p (ra_max_len r)) rest \<and>
     unat (cp_sync start) + length sent + length rest < 2 ^ 24 \<and> (dp_resync p \<longrightarrow> no_resyn (cn_link s))"

lemma ready_link:
  assumes "ready p r d0 start out s sent rest" and "lk_writer l = lk_writer (cn_link s)" and "dp_resync p \<Longrightarrow> no_resyn l"
  shows "ready p r d0 start out (s\<lparr>cn_link := l\<rparr>) sent rest"
  using assms by (simp add: ready_def tx_inv_link)

lemma handle_async_ready:
  assumes "handle_async p so st f s = (Inr e, s')" and "ready p r d0 start out s sent rest"
    and "dp_resync p \<Longrightarrow> f_kind f \<noteq> K_Resyn"
  shows "(e = None \<longrightarrow> ready p r d0 start out s' sent rest) \<and> e \<noteq> Some Completed"
proof (cases e)
  case None
  with handle_async_quiet [of p so st f s s'] assms obtain m x y where
    "s' = s\<lparr>cn_machine := m, sn_store := x, sn_unacked := y\<rparr>" by blast
  with assms(2) None show ?thesis by (simp add: ready_def)
next
  case (Some d)
  with assms(1) show ?thesis
    by (auto simp: handle_async_def act_then_eq_Inr act_bind_eq_Inr sn_handle_idt_def split: if_splits)
qed

lemma send_article_ready:
  assumes "sn_on_source (so_next so) s = (Inr (Some a), s1)" and "sn_article p so st a s1 = (Inr (), s')"
    and "ready p r d0 start out s sent rest"
    and "ra_partial r = None" and "(d0 = None) = (dp_compression p = Comp_None)" and "13 \<le> dp_max_entity p"
  shows "\<exists>rest'. rest = a # rest' \<and> ready p r d0 start out s' (sent @ [a]) rest'"
proof -
  from assms(1) obtain x where x: "so_next so (sn_source s) = (Inr (Some a), x)" "s1 = s\<lparr>sn_source := x\<rparr>"
    by (auto simp: sn_on_source_def act_on_eq_Inr)
  have y: "yields (sn_source s) rest" using assms(3) by (simp add: ready_def)
  obtain rest' where rest': "rest = a # rest'" "yields x rest'"
  proof (cases rest)
    case (Cons b bs)
    with next_some [of "sn_source s" b bs] y x(1) that show ?thesis by auto
  qed (use next_none y x(1) in force)
  have "tx_inv p r d0 start out s1 sent" "admissible p (ra_max_len r) a"
    using assms(3) rest' by (simp_all add: ready_def x(2))
  from sn_article_inv [OF this(1) assms(4,5) this(2) assms(2) _ assms(6)] assms(3) rest'
  have inv: "tx_inv p r d0 start out s' (sent @ [a])" "sn_source s' = x" "link_rest s' = link_rest s1"
    by (auto simp: ready_def x(2))
  moreover have "no_resyn (cn_link s') = no_resyn (cn_link s)"
    using arg_cong [OF inv(3), of no_resyn] by (simp add: link_rest_def no_resyn_def x(2))
  ultimately have "ready p r d0 start out s' (sent @ [a]) rest'"
    using assms(3) rest' by (simp add: ready_def)
  with rest'(1) show ?thesis by blast
qed

lemma send_step_ready:
  assumes step: "send_step p so st s = (Inr ctl, s')" and inv: "ready p r d0 start out s sent rest"
    and r: "ra_partial r = None" and d0: "(d0 = None) = (dp_compression p = Comp_None)" and size: "13 \<le> dp_max_entity p"
  shows "(ctl = Tx_Continue \<longrightarrow> (\<exists>sent' rest'. sent' @ rest' = sent @ rest \<and> ready p r d0 start out s' sent' rest')) \<and>
    (ctl = Tx_Eof \<longrightarrow> rest = [] \<and> tx_inv p r d0 start out s' sent) \<and> ctl \<noteq> Tx_End Completed"
proof -
  from step obtain q s1 where 1: "on_link link_try_recv s = (Inr q, s1)"
    by (auto simp: send_step_def act_bind_eq_Inr)
  then obtain l1 where l1: "link_try_recv (cn_link s) = (Inr q, l1)" "s1 = s\<lparr>cn_link := l1\<rparr>"
    by (auto simp: on_link_def split: prod.splits)
  have q: "dp_resync p \<Longrightarrow> q = Some f \<Longrightarrow> f_kind f \<noteq> K_Resyn" for f
    using try_recv_no_resyn [OF l1(1)] inv by (auto simp: ready_def)
  have inv1: "ready p r d0 start out s1 sent rest"
    unfolding l1(2)
    using try_recv_no_resyn [OF l1(1)] inv by (intro ready_link [OF inv recv_writer(1) [OF l1(1)]]) (auto simp: ready_def)
  show ?thesis
  proof (cases q)
    case (Some f)
    with step 1 obtain e where e: "handle_async p so st f s1 = (Inr e, s')"
      "ctl = (case e of None \<Rightarrow> Tx_Continue | Some e \<Rightarrow> Tx_End e)"
      by (auto simp: send_step_def act_bind_eq_Inr)
    from handle_async_ready [OF e(1) inv1] q Some e(2) show ?thesis by (auto split: option.splits)
  next
    case None
    let ?s = "s1\<lparr>sn_cancel := tl (sn_cancel s1)\<rparr>"
    have inv2: "ready p r d0 start out ?s sent rest" using inv1 by (simp add: ready_def)
    show ?thesis
    proof (cases "case sn_cancel s1 of [] \<Rightarrow> False | c # _ \<Rightarrow> c")
      case True
      with step 1 None show ?thesis
        by (auto simp: send_step_def act_bind_eq_Inr act_then_eq_Inr)
    next
      case nc: False
      show ?thesis
      proof (cases "send_window p > 0 \<and> length (sn_unacked ?s) \<ge> send_window p")
        case True
        with step 1 None nc obtain f s2 e where e: "conn_recv ?s = (Inr f, s2)" "handle_async p so st f s2 = (Inr e, s')"
          "ctl = (case e of None \<Rightarrow> Tx_Continue | Some e \<Rightarrow> Tx_End e)"
          by (auto simp: send_step_def act_bind_eq_Inr)
        then obtain l2 where l2: "link_recv (cn_link ?s) = (Inr f, l2)" "s2 = ?s\<lparr>cn_link := l2\<rparr>"
          by (auto simp: conn_recv_def on_link_def split: prod.splits)
        have "ready p r d0 start out s2 sent rest"
          unfolding l2(2) using recv_no_resyn [OF l2(1)] inv2
          by (intro ready_link [OF inv2 recv_writer(2) [OF l2(1)]]) (auto simp: ready_def)
        from handle_async_ready [OF e(2) this] recv_no_resyn [OF l2(1)] inv2 e(3) show ?thesis
          by (auto simp: ready_def split: option.splits)
      next
        case False
        with step 1 None nc obtain a s2 where a: "sn_on_source (so_next so) ?s = (Inr a, s2)"
          and rest: "(case a of None \<Rightarrow> act_return Tx_Eof
             | Some article \<Rightarrow> act_then (sn_article p so st article) (act_return Tx_Continue)) s2 = (Inr ctl, s')"
          by (auto simp: send_step_def act_bind_eq_Inr)
        show ?thesis
        proof (cases a)
          case (Some b)
          with rest have "sn_article p so st b s2 = (Inr (), s')" "ctl = Tx_Continue" by (auto simp: act_then_eq_Inr)
          moreover from this obtain rest' where "rest = b # rest'" "ready p r d0 start out s' (sent @ [b]) rest'"
            using send_article_ready [OF a [unfolded Some] _ inv2 r d0 size] by blast
          ultimately show ?thesis by (metis append.assoc append_Cons append_Nil send_ctl.distinct(1,3))
        next
          case n: None
          from a obtain x where x: "so_next so (sn_source s1) = (Inr None, x)" "s2 = ?s\<lparr>sn_source := x\<rparr>"
            by (auto simp: sn_on_source_def act_on_eq_Inr n)
          have "rest = []"
          proof (cases rest)
            case (Cons b bs)
            with next_some [of "sn_source s1" b bs "None" x] x(1) inv1 show ?thesis by (simp add: ready_def)
          qed
          with rest n inv2 x(2) show ?thesis by (auto simp: ready_def)
        qed
      qed
    qed
  qed
qed

lemma send_loop_done:
  assumes "send_loop n p so st s = Some (Inr res, s')" and "dr_end res = Completed"
    and "ready p r d0 start out s sent rest"
    and "ra_partial r = None" and "(d0 = None) = (dp_compression p = Comp_None)" and "13 \<le> dp_max_entity p"
  shows "tx_done p r d0 start out s' res (sent @ rest)"
  using assms(1-3)
proof (induction n arbitrary: s sent rest)
  case (Suc n)
  obtain c s1 where step: "send_step p so st s = (c, s1)" by fastforce
  show ?case
  proof (cases c)
    case (Inr ctl)
    note R = send_step_ready [OF step [unfolded Inr] Suc.prems(3) assms(4-6)]
    show ?thesis
    proof (cases ctl)
      case Tx_Continue
      with Suc.prems(1) step Inr have "send_loop n p so st s1 = Some (Inr res, s')" by simp
      with R Tx_Continue Suc.IH Suc.prems(2) show ?thesis by metis
    next
      case Tx_Eof
      with Suc.prems(1) step Inr have fin: "sn_finish p s1 = (Inr (), s')" and res: "res = sn_result Completed s'"
        by (auto simp: act_bind_eq_Inr)
      from R Tx_Eof have "tx_inv p r d0 start out s1 sent" "rest = []" by auto
      with sn_finish_done [OF this(1) assms(4,6) fin] res show ?thesis by simp
    next
      case (Tx_End e)
      with Suc.prems step Inr R show ?thesis by (auto simp: sn_result_def)
    qed
  qed (use Suc.prems(1) step in simp)
qed simp

text \<open>The state the loop starts from.\<close>

lemma send_init_inv:
  assumes "wr_framing (lk_writer (cn_link c)) = LengthPrefixed" and "13 \<le> dp_max_entity p" "dp_max_entity p \<le> MAX_FPDU_LEN"
  shows "tx_inv p (reassembler_new (dp_max_article p)) (receiver_decompressor p) start (wr_out (lk_writer (cn_link c)))
    (send_init p so start c src store cancel) []"
proof -
  define s0 where "s0 = send_init p so start c src store cancel"
  let ?n = "dp_max_entity p - (if dp_crc p then CRC_LEN else 0)"
  have "packer_inv (packer_new (dp_peer_id p) ?n (dp_multi_article p)) []"
    using assms(3) by (intro packer_inv_new) simp
  moreover have "ap_max_dtf_len (packer_new (dp_peer_id p) ?n (dp_multi_article p)) = ?n"
    using assms(2) by (auto simp: packer_new_def HEADER_LEN_def CRC_LEN_def)
  ultimately have pk: "packer_ok p (sn_packer s0) []"
    by (simp add: packer_ok_def s0_def send_init_def conn.defs)
  have out: "tx_out p (wr_out (lk_writer (cn_link c))) s0 [] []"
    using assms(1) builder_holds_new [of "dp_max_entity p" "dp_crc p"]
    by (auto simp: tx_out_def s0_def send_init_def conn.defs builder_new_def intro!: exI [of _ "[]"])
  have base: "tx_base p (reassembler_new (dp_max_article p)) start (wr_out (lk_writer (cn_link c))) s0 [] [] [] [] 0"
    using pk out tr_nil by (simp add: tx_base_def) (simp add: s0_def send_init_def conn.defs)
  have "coupled (dp_max_article p) (sn_compressor s0) (receiver_decompressor p)"
    using in_step_new [of "max (dp_max_article p) 1"]
    by (simp add: s0_def send_init_def conn.defs coupled_def receiver_decompressor_def in_step_def)
  moreover have "unwire (receiver_decompressor p) [] = Some ([], receiver_decompressor p)"
    by (cases "receiver_decompressor p") simp_all
  ultimately show ?thesis
    unfolding tx_inv_def s0_def [symmetric] using base
    by (intro exI [of _ "[]"] exI [of _ "receiver_decompressor p"]) (simp add: reassembler_new_def)
qed

lemma send_data_done:
  assumes run: "send_data fuel p so st start c src store cancel = Some (Inr res, s')" and "dr_end res = Completed"
    and y: "yields src as" and pos: "position_of start = so_position so src"
    and "list_all (admissible p (dp_max_article p)) as" and "unat (cp_sync start) + length as < 2 ^ 24"
    and "dp_resync p \<Longrightarrow> no_resyn (cn_link c)" and fr: "wr_framing (lk_writer (cn_link c)) = LengthPrefixed"
    and size: "13 \<le> dp_max_entity p" "dp_max_entity p \<le> MAX_FPDU_LEN"
  shows "tx_done p (reassembler_new (dp_max_article p)) (receiver_decompressor p) start
    (wr_out (lk_writer (cn_link c))) s' res as"
proof -
  let ?s = "send_init p so start c src store cancel"
  from run obtain x where x: "so_rewind so (position_of start) src = (Inr (), x)"
    and loop: "send_loop fuel p so st (?s\<lparr>sn_source := x, sn_prev_pos := so_position so x\<rparr>) = Some (Inr res, s')"
    by (auto simp: send_data_def sn_on_source_def act_on_def map_err_def send_init_def conn.defs split: prod.splits sum.splits)
  have "yields x as" using rewind_yields [OF y y refl] x pos by simp
  with send_init_inv [OF fr size, of start src store cancel] assms(5-7)
  have "ready p (reassembler_new (dp_max_article p)) (receiver_decompressor p) start (wr_out (lk_writer (cn_link c)))
      (?s\<lparr>sn_source := x, sn_prev_pos := so_position so x\<rparr>) [] as"
    by (simp add: ready_def reassembler_new_def) (simp add: send_init_def conn.defs)
  from send_loop_done [OF loop assms(2) this _ _ size(1)] show ?thesis
    by (simp add: reassembler_new_def receiver_decompressor_def)
qed

end

end
