(* ===== verification/Datapath_Recv.thy ===== *)
theory Datapath_Recv
  imports Datapath_Send
begin

text \<open>
  What a receiver makes of the FPDUs of a data phase: the articles in its sink, the checkpoints and the
  counters. The receiver takes the FPDUs one by one from a link that delivers them.
\<close>

section \<open>A link that delivers FPDUs\<close>

definition delivers :: "link \<Rightarrow> fpdu list \<Rightarrow> bool" where
  "delivers l fs \<longleftrightarrow> \<not> lk_closed l \<and>
     (\<exists>gss tail. lk_rx l = map (\<lambda>gs. Rx_Entity (entity_of (lk_crc l) gs) False) gss @ tail \<and>
        list_all (\<lambda>gs. gs \<noteq> [] \<and> list_all sendable gs) gss \<and> fs = lk_pending l @ concat gss)"

lemma queue_slices_ok:
  "collect_results (map decode slices) = Inr fs \<Longrightarrow>
    queue_slices slices l = (Inr (), l\<lparr>lk_pending := lk_pending l @ fs\<rparr>)"
proof (induction slices l arbitrary: fs rule: queue_slices.induct)
  case (2 bs rest l)
  then obtain g gs where g: "decode bs = Inr g" "collect_results (map decode rest) = Inr gs" "fs = g # gs"
    by (cases "decode bs") (auto split: sum.splits)
  with "2.IH" [OF g(1,2)] show ?case by simp
qed simp

lemma queue_entity_ok:
  assumes "list_all sendable fs"
  shows "queue_entity (entity_of (lk_crc l) fs) l = (Inr (), l\<lparr>lk_pending := lk_pending l @ fs\<rparr>)"
proof -
  from decode_entity_of [OF assms, of "lk_crc l"] obtain slices where
    "split_entity (entity_of (lk_crc l) fs) (lk_crc l) = Inr slices" "collect_results (map decode slices) = Inr fs"
    by (auto simp: decode_entity_def and_then_eq_Inr)
  with queue_slices_ok show ?thesis by (simp add: queue_entity_def)
qed

lemma link_recv_delivers:
  assumes "delivers l (f # fs)"
  shows "\<exists>l'. link_recv l = (Inr f, l') \<and> delivers l' fs \<and> lk_writer l' = lk_writer l \<and> lk_crc l' = lk_crc l"
proof -
  from assms obtain gss tail where
    g: "\<not> lk_closed l" "lk_rx l = map (\<lambda>gs. Rx_Entity (entity_of (lk_crc l) gs) False) gss @ tail"
      "list_all (\<lambda>gs. gs \<noteq> [] \<and> list_all sendable gs) gss" "f # fs = lk_pending l @ concat gss"
    by (auto simp: delivers_def)
  show ?thesis
  proof (cases "lk_pending l")
    case (Cons h hs)
    with g have "link_recv l = (Inr f, l\<lparr>lk_pending := hs\<rparr>)" "delivers (l\<lparr>lk_pending := hs\<rparr>) fs"
      by (auto simp: link_recv_def pop_pending_def delivers_def)
    then show ?thesis by force
  next
    case Nil
    with g obtain gs rest where gss: "gss = gs # rest" by (cases gss) auto
    with g Nil obtain hs where gs: "gs = f # hs" "fs = hs @ concat rest" "list_all sendable gs" by (cases gs) auto
    let ?l = "l\<lparr>lk_rx := map (\<lambda>gs. Rx_Entity (entity_of (lk_crc l) gs) False) rest @ tail\<rparr>"
    have "queue_entity (entity_of (lk_crc l) gs) ?l = (Inr (), ?l\<lparr>lk_pending := f # hs\<rparr>)"
      using queue_entity_ok [OF gs(3), of ?l] Nil gs(1) by simp
    then have "link_recv l = (Inr f, ?l\<lparr>lk_pending := hs\<rparr>)"
      using g(1,2) gss Nil
      by (simp add: link_recv_def pop_pending_def act_bind_def act_then_def link_recv_entity_def link_next_event_def)
    moreover have "delivers (?l\<lparr>lk_pending := hs\<rparr>) fs"
      using g(1,3) gss gs by (auto simp: delivers_def)
    ultimately show ?thesis by force
  qed
qed

lemma wr_all_ok:
  assumes "script_ok (wr_script w)"
  shows "\<exists>w'. wr_all bs w = (Inr (), w') \<and> script_ok (wr_script w')"
proof -
  obtain n sc where 1: "os_call (wr_script w) = (Inr n, sc)" "script_ok sc" using os_call_ok [OF assms] by blast
  obtain n' sc' where 2: "os_call sc = (Inr n', sc')" "script_ok sc'" using os_call_ok [OF 1(2)] by blast
  from 1 2 show ?thesis by (simp add: wr_all_def wr_call_def)
qed

lemma write_entity_ok:
  assumes "script_ok (wr_script w)" and "length e \<le> 65535"
  shows "\<exists>w'. write_entity e w = (Inr (), w') \<and> script_ok (wr_script w')"
proof (cases "wr_framing w")
  case LengthPrefixed
  with wr_all_ok [OF assms(1), of "to_be_bytes16 (u16_of_usize (length e)) @ e"] assms(2) show ?thesis
    by (simp add: write_entity_def)
next
  case Raw
  with wr_all_ok [OF assms(1), of e] assms(2) show ?thesis by (simp add: write_entity_def)
qed

lemma link_send_ok:
  assumes "sendable f" and "encoded_len f \<le> 1000" and "script_ok (wr_script (lk_writer l))"
  shows "\<exists>w. link_send f l = (Inr (), l\<lparr>lk_writer := w\<rparr>) \<and> script_ok (wr_script w)"
proof -
  let ?e = "if lk_crc l then crc_append (fpdu_bytes f) else fpdu_bytes f"
  have e: "single_entity f (lk_crc l) = Inr ?e" using sendable_encode [OF assms(1)] by (simp add: single_entity_def)
  have len: "length ?e \<le> 65535" using assms(2) by (simp add: crc_append_def CRC_LEN_def)
  from write_entity_ok [OF assms(3) len] e show ?thesis by (auto simp: link_send_def link_send_entity_def act_on_def)
qed

lemma delivers_writer [simp]: "delivers (l\<lparr>lk_writer := w\<rparr>) fs = delivers l fs"
  by (simp add: delivers_def)

section \<open>The state of a reception\<close>

definition receiving :: "machine \<Rightarrow> bool" where
  "receiving m \<longleftrightarrow> is_receiving (m_state m)"

lemma receiving_data:
  "receiving m \<Longrightarrow> is_data k \<Longrightarrow> machine_apply (Received k b) m = (Inr False, m)"
  by (cases k) (auto simp: receiving_def is_receiving_def machine_apply_def state_apply_def apply_Tde02B_Tdl02A_def
      is_data_def is_data_event_def is_abort_def Let_def)

lemma receiving_syn:
  "receiving m \<Longrightarrow> machine_apply (Received K_Syn False) m = (Inr False, m)"
  "receiving m \<Longrightarrow> machine_apply (Local L_Accept) m = (Inr False, m)"
  by (auto simp: receiving_def is_receiving_def machine_apply_def state_apply_def apply_Tde02B_Tdl02A_def
      is_data_def is_data_event_def is_abort_def Let_def recv_def)

text \<open>The machine after the end of the data.\<close>

definition after_data :: "machine \<Rightarrow> machine" where
  "after_data m = m\<lparr>m_state := (if m_state m = Tde02B then Tde07B else Tdl07A)\<rparr>"

lemma receiving_end: "receiving m \<Longrightarrow> machine_apply (Received K_DtfEnd False) m = (Inr False, after_data m)"
  by (auto simp: receiving_def is_receiving_def machine_apply_def state_apply_def apply_Tde02B_Tdl02A_def
      is_data_def is_data_event_def is_abort_def Let_def recv_def after_data_def)

definition acknowledges :: "data_params \<Rightarrow> bool" where
  "acknowledges p \<longleftrightarrow> so_window (dp_sync p) \<noteq> 0 \<or> \<not> sync_enabled (dp_sync p)"

text \<open>The sink and the store of a reception, and that their operations succeed.\<close>

locale receiving_sink =
  article_sink holds pos_of room "ko_write ko" "ko_checkpoint ko" "ko_truncate ko"
  for holds :: "'k \<Rightarrow> bytes list \<Rightarrow> bool" and pos_of :: "'k \<Rightarrow> bytes list \<Rightarrow> io_position"
    and room :: "'k \<Rightarrow> bytes list \<Rightarrow> bool" and ko :: "'k sink_ops" +
  fixes live :: "'k \<Rightarrow> bool" and view :: "'k \<Rightarrow> 'v" and st :: "'c store_ops" and store_live :: "'c \<Rightarrow> bool"
  assumes live_write: "live k \<Longrightarrow> \<exists>k'. ko_write ko a k = (Inr (), k') \<and> live k' \<and> view k' = view k"
    and live_checkpoint: "live k \<Longrightarrow> \<exists>q k'. ko_checkpoint ko k = (Inr q, k') \<and> live k' \<and> view k' = view k"
    and live_record: "store_live c \<Longrightarrow> \<exists>c'. to_record st cp c = (Inr (), c') \<and> store_live c'"
begin

text \<open>
  The state of a reception that began in the state \<open>K\<close>: the FPDUs \<open>up\<close> are still to come, the sink holds
  \<open>bs\<close>. Unless synchronisation points are acknowledged, nothing is written.
\<close>

definition rv_ok :: "data_params \<Rightarrow> ('k, 'c) recv_state \<Rightarrow> fpdu list \<Rightarrow> bytes list \<Rightarrow> ('k, 'c) recv_state \<Rightarrow> bool" where
  "rv_ok p s up bs K \<longleftrightarrow> delivers (cn_link s) up \<and> script_ok (wr_script (lk_writer (cn_link s))) \<and>
     lk_crc (cn_link s) = lk_crc (cn_link K) \<and> (acknowledges p \<or> lk_writer (cn_link s) = lk_writer (cn_link K)) \<and>
     receiving (cn_machine K) \<and> cn_machine s = cn_machine K \<and>
     list_all Not (rv_cancel s) \<and> live (rv_sink s) \<and> store_live (rv_store s) \<and>
     holds (rv_sink s) bs \<and> room (rv_sink s) = room (rv_sink K) \<and> view (rv_sink s) = view (rv_sink K)"

lemma rv_article_ok:
  assumes "rv_ok p s up bs K" and "room (rv_sink K) (bs @ [a])" and "unwire (rv_decompressor s) [w] = Some ([a], d')"
  shows "\<exists>s'. rv_article ko w s = (Inr (), s') \<and> rv_ok p s' up (bs @ [a]) K \<and> rv_decompressor s' = d' \<and>
    rv_data_bytes s' = rv_data_bytes s + word_of_nat (length w) \<and> rv_articles s' = rv_articles s + 1 \<and>
    rv_last_sync s' = rv_last_sync s \<and> rv_reassembler s' = rv_reassembler s"
proof -
  from live_write [of "rv_sink s" a] assms(1) obtain k where k: "ko_write ko a (rv_sink s) = (Inr (), k)" "live k" "view k = view (rv_sink s)"
    by (auto simp: rv_ok_def)
  have h: "holds k (bs @ [a]) \<and> room k = room (rv_sink K)"
    using write_holds [OF _ _ k(1), of bs] assms(1,2) by (auto simp: rv_ok_def)
  show ?thesis
  proof (cases "rv_decompressor s")
    case None
    with assms(3) have [simp]: "w = a" "d' = None" by auto
    from None k h assms(1) show ?thesis
      by (simp add: rv_article_def act_bind_def act_then_def rv_on_sink_def act_on_def act_modify_def rv_ok_def)
  next
    case (Some d)
    with assms(3) obtain d1 where d1: "decompressor_decompress w d = (Inr a, d1)" "d' = Some d1"
      by (auto split: prod.splits sum.splits)
    with Some k h assms(1) show ?thesis
      by (simp add: rv_article_def act_bind_def act_then_def rv_on_sink_def act_on_def act_modify_def rv_ok_def)
  qed
qed

lemma rv_articles_ok:
  assumes "rv_ok p s up bs K" and "room (rv_sink K) (bs @ as)" and "unwire (rv_decompressor s) ws = Some (as, d')"
  shows "\<exists>s'. act_each (rv_article ko) ws s = (Inr (), s') \<and> rv_ok p s' up (bs @ as) K \<and> rv_decompressor s' = d' \<and>
    rv_data_bytes s' = rv_data_bytes s + word_of_nat (sum_list (map length ws)) \<and>
    rv_articles s' = rv_articles s + word_of_nat (length ws) \<and> rv_last_sync s' = rv_last_sync s \<and>
    rv_reassembler s' = rv_reassembler s"
  using assms
proof (induction ws arbitrary: s bs as)
  case Nil
  then show ?case by (cases "rv_decompressor s") auto
next
  case (Cons w ws)
  from unwire_append_split [of "rv_decompressor s" "[w]" ws as d'] Cons.prems(3) obtain xs as' d1 where
    x: "as = xs @ as'" "unwire (rv_decompressor s) [w] = Some (xs, d1)" "unwire d1 ws = Some (as', d')" by auto
  then obtain a where a: "xs = [a]" using unwire_length [OF x(2)] by (cases xs) auto
  have R: "room (rv_sink K) (bs @ [a])"
  proof -
    have "room (rv_sink s) (bs @ [a] @ as')" using Cons.prems(1,2) x(1) a by (simp add: rv_ok_def)
    with room_prefix [of "rv_sink s" "bs @ [a]" as'] Cons.prems(1) show ?thesis by (simp add: rv_ok_def)
  qed
  from rv_article_ok [OF Cons.prems(1) R x(2) [unfolded a]] obtain s1 where
    1: "rv_article ko w s = (Inr (), s1)" "rv_ok p s1 up (bs @ [a]) K" "rv_decompressor s1 = d1"
      "rv_data_bytes s1 = rv_data_bytes s + word_of_nat (length w)" "rv_articles s1 = rv_articles s + 1"
      "rv_last_sync s1 = rv_last_sync s" "rv_reassembler s1 = rv_reassembler s" by blast
  from Cons.IH [OF 1(2), of as'] x a Cons.prems(2) 1(3) obtain s2 where
    2: "act_each (rv_article ko) ws s1 = (Inr (), s2)" "rv_ok p s2 up ((bs @ [a]) @ as') K" "rv_decompressor s2 = d'"
      "rv_data_bytes s2 = rv_data_bytes s1 + word_of_nat (sum_list (map length ws))"
      "rv_articles s2 = rv_articles s1 + word_of_nat (length ws)" "rv_last_sync s2 = rv_last_sync s1"
      "rv_reassembler s2 = rv_reassembler s1" by auto
  have "act_each (rv_article ko) (w # ws) s = (Inr (), s2)" using 1(1) 2(1) by (simp add: act_then_def act_bind_def)
  with 1 2 x(1) a show ?case by (intro exI [of _ s2]) simp
qed

text \<open>The FPDU that is taken from the link at a turn of the loop.\<close>

lemma recv_step_next:
  assumes "rv_ok p s (f # up) bs K"
  shows "\<exists>l. recv_step p ko st s = rv_handle p ko st f (s\<lparr>rv_cancel := tl (rv_cancel s), cn_link := l\<rparr>) \<and>
    rv_ok p (s\<lparr>rv_cancel := tl (rv_cancel s), cn_link := l\<rparr>) up bs K"
proof -
  from link_recv_delivers [of "cn_link s" f up] assms obtain l where
    l: "link_recv (cn_link s) = (Inr f, l)" "delivers l up" "lk_writer l = lk_writer (cn_link s)"
      "lk_crc l = lk_crc (cn_link s)"
    by (auto simp: rv_ok_def)
  have nc: "\<not> (case rv_cancel s of [] \<Rightarrow> False | c # _ \<Rightarrow> c)" "list_all Not (tl (rv_cancel s))"
    using assms by (cases "rv_cancel s"; auto simp: rv_ok_def)+
  have "recv_step p ko st s = rv_handle p ko st f (s\<lparr>rv_cancel := tl (rv_cancel s), cn_link := l\<rparr>)"
    using l(1) nc(1) by (simp add: recv_step_def act_bind_def conn_recv_def on_link_def)
  moreover have "rv_ok p (s\<lparr>rv_cancel := tl (rv_cancel s), cn_link := l\<rparr>) up bs K"
    using assms l nc(2) by (simp add: rv_ok_def)
  ultimately show ?thesis by blast
qed

lemma recv_step_data:
  assumes "rv_ok p s (f # up) bs K" and "is_data (f_kind f)" and "reassembler_feed f (rv_reassembler s) = (Inr ws, r')"
    and "unwire (rv_decompressor s) ws = Some (as, d')" and "room (rv_sink K) (bs @ as)"
  shows "\<exists>s'. recv_step p ko st s = (Inr None, s') \<and> rv_ok p s' up (bs @ as) K \<and> rv_decompressor s' = d' \<and>
    rv_data_bytes s' = rv_data_bytes s + word_of_nat (sum_list (map length ws)) \<and>
    rv_articles s' = rv_articles s + word_of_nat (length ws) \<and> rv_last_sync s' = rv_last_sync s \<and>
    rv_reassembler s' = r'"
proof -
  from recv_step_next [OF assms(1)] obtain l where
    l: "recv_step p ko st s = rv_handle p ko st f (s\<lparr>rv_cancel := tl (rv_cancel s), cn_link := l\<rparr>)"
      "rv_ok p (s\<lparr>rv_cancel := tl (rv_cancel s), cn_link := l\<rparr>) up bs K" by blast
  have m: "machine_apply (Received (f_kind f) (fpdu_is_negative f)) (cn_machine s) = (Inr False, cn_machine s)"
    using receiving_data [OF _ assms(2)] assms(1) by (auto simp: rv_ok_def)
  let ?s = "s\<lparr>rv_cancel := tl (rv_cancel s), cn_link := l, rv_reassembler := r'\<rparr>"
  have ok: "rv_ok p ?s up bs K" using l(2) by (simp add: rv_ok_def)
  from rv_articles_ok [OF ok assms(5), of ws d'] assms(4) obtain s1 where
    1: "act_each (rv_article ko) ws ?s = (Inr (), s1)" "rv_ok p s1 up (bs @ as) K" "rv_decompressor s1 = d'"
      "rv_data_bytes s1 = rv_data_bytes s + word_of_nat (sum_list (map length ws))"
      "rv_articles s1 = rv_articles s + word_of_nat (length ws)" "rv_last_sync s1 = rv_last_sync s" "rv_reassembler s1 = r'"
    by auto
  let ?s' = "snd (rv_report s1)"
  have na: "f_kind f \<noteq> K_Abort" using assms(2) by (auto simp: is_data_def)
  have "rv_handle p ko st f (s\<lparr>rv_cancel := tl (rv_cancel s), cn_link := l\<rparr>) = (Inr None, ?s')"
    using assms(2,3) m na 1(1)
    by (simp add: rv_handle_def rv_data_def apply_received_def act_then_def act_bind_def act_on_def act_return_def
        rv_report_def act_modify_def)
  moreover have "rv_ok p ?s' up (bs @ as) K" "rv_decompressor ?s' = d'" "rv_reassembler ?s' = r'"
    "rv_data_bytes ?s' = rv_data_bytes s1" "rv_articles ?s' = rv_articles s1" "rv_last_sync ?s' = rv_last_sync s1"
    using 1 by (simp_all add: rv_report_def act_modify_def rv_ok_def)
  ultimately show ?thesis using l(1) 1 by metis
qed

lemma recv_step_syn:
  assumes "rv_ok p s (syn peer n # up) bs K" and "unat n < 2 ^ 24"
  shows "\<exists>s'. recv_step p ko st s = (Inr None, s') \<and> rv_ok p s' up bs K \<and> rv_decompressor s' = rv_decompressor s \<and>
    rv_data_bytes s' = rv_data_bytes s \<and> rv_articles s' = rv_articles s \<and> rv_last_sync s' = n \<and>
    rv_reassembler s' = rv_reassembler s"
proof -
  from recv_step_next [OF assms(1)] obtain l where
    l: "recv_step p ko st s = rv_handle p ko st (syn peer n) (s\<lparr>rv_cancel := tl (rv_cancel s), cn_link := l\<rparr>)"
      "rv_ok p (s\<lparr>rv_cancel := tl (rv_cancel s), cn_link := l\<rparr>) up bs K" by blast
  have neg: "fpdu_is_negative (syn peer n) = False" by (simp add: fpdu_is_negative_def is_ack_def)
  have m: "machine_apply (Received K_Syn False) (cn_machine s) = (Inr False, cn_machine s)"
    "machine_apply (Local L_Accept) (cn_machine s) = (Inr False, cn_machine s)"
    using receiving_syn assms(1) by (auto simp: rv_ok_def)
  obtain q k where k: "ko_checkpoint ko (rv_sink s) = (Inr q, k)" "live k" "view k = view (rv_sink s)"
    using live_checkpoint [of "rv_sink s"] assms(1) by (auto simp: rv_ok_def)
  have hk: "holds k bs" "room k = room (rv_sink K)"
    using checkpoint_holds [OF _ k(1), of bs] assms(1) by (auto simp: rv_ok_def)
  obtain c where c: "to_record st \<lparr>cp_sync = n, cp_file_offset = po_file_offset q, cp_data_bytes = rv_data_bytes s,
      cp_articles = rv_articles s\<rparr> (rv_store s) = (Inr (), c)" "store_live c"
    using live_record assms(1) by (auto simp: rv_ok_def)
  have len: "encoded_len (ack_syn (dp_peer_id p) n) \<le> 1000"
    using short_sync_number [OF assms(2)]
    by (simp add: service_defs service_simps encoded_len_def HEADER_LEN_def unit_len_def is_data_def)
  obtain w where w: "link_send (ack_syn (dp_peer_id p) n) l = (Inr (), l\<lparr>lk_writer := w\<rparr>)" "script_ok (wr_script w)"
    using link_send_ok [OF transfer_sendable(2) [OF assms(2)] len, of l] l(2) by (auto simp: rv_ok_def)
  let ?s1 = "s\<lparr>rv_cancel := tl (rv_cancel s), cn_link := l, rv_sink := k, rv_store := c, rv_last_sync := n\<rparr>"
  let ?s' = "if acknowledges p then ?s1\<lparr>cn_link := l\<lparr>lk_writer := w\<rparr>\<rparr> else ?s1"
  have "rv_handle p ko st (syn peer n) (s\<lparr>rv_cancel := tl (rv_cancel s), cn_link := l\<rparr>) = (Inr None, ?s')"
    using m k(1) c(1) w(1) neg
    by (simp add: rv_handle_def acknowledges_def rv_syn_def apply_received_def act_then_def act_bind_def act_on_def act_return_def
        act_modify_def rv_on_sink_def rv_on_store_def conn_send_def on_link_def apply_local_def act_get_def
        Let_def unwrap_or_def act_when_def is_data_def)
  moreover have "rv_ok p ?s' up bs K" using l(2) k hk c(2) w(2) by (auto simp: rv_ok_def)
  ultimately show ?thesis using l(1) by auto
qed

text \<open>What holds of a reception that has ended.\<close>

definition rv_ended :: "data_params \<Rightarrow> ('k, 'c) recv_state \<Rightarrow> fpdu list \<Rightarrow> bytes list \<Rightarrow> ('k, 'c) recv_state \<Rightarrow> bool" where
  "rv_ended p s up bs K \<longleftrightarrow> delivers (cn_link s) up \<and> script_ok (wr_script (lk_writer (cn_link s))) \<and>
     lk_crc (cn_link s) = lk_crc (cn_link K) \<and> (acknowledges p \<or> lk_writer (cn_link s) = lk_writer (cn_link K)) \<and>
     cn_machine s = after_data (cn_machine K) \<and> live (rv_sink s) \<and> store_live (rv_store s) \<and>
     holds (rv_sink s) bs \<and> view (rv_sink s) = view (rv_sink K)"

lemma recv_step_end:
  assumes "rv_ok p s (dtf_end peer D_OK # up) bs K"
  shows "\<exists>s'. recv_step p ko st s = (Inr (Some Completed), s') \<and> rv_ended p s' up bs K \<and>
    rv_data_bytes s' = rv_data_bytes s \<and> rv_articles s' = rv_articles s \<and> rv_last_sync s' = rv_last_sync s"
proof -
  from recv_step_next [OF assms(1)] obtain l where
    l: "recv_step p ko st s = rv_handle p ko st (dtf_end peer D_OK) (s\<lparr>rv_cancel := tl (rv_cancel s), cn_link := l\<rparr>)"
      "rv_ok p (s\<lparr>rv_cancel := tl (rv_cancel s), cn_link := l\<rparr>) up bs K"
    by blast
  have neg: "fpdu_is_negative (dtf_end peer D_OK) = False" by (simp add: fpdu_is_negative_def is_ack_def)
  have m: "machine_apply (Received K_DtfEnd False) (cn_machine s) = (Inr False, after_data (cn_machine K))"
    using receiving_end assms(1) by (auto simp: rv_ok_def)
  with neg l(2) show ?thesis
    by (simp add: l(1) rv_handle_def apply_received_def act_then_def act_bind_def act_return_def rv_report_def act_modify_def
        is_data_def diag_is_ok_iff rv_ok_def rv_ended_def)
qed

text \<open>A whole phase.\<close>

lemma receive_loop_continue: "recv_step p ko st s = (Inr None, s') \<Longrightarrow> receive_loop p ko st s = receive_loop p ko st s'"
  by (subst receive_loop.simps) simp

lemma receive_group:
  assumes "list_all (\<lambda>f. is_data (f_kind f)) gs" and "feed_all (rv_reassembler s) gs = (Inr ws, r')"
    and "rv_ok p s (gs @ up) bs K" and "unwire (rv_decompressor s) ws = Some (as, d')" and "room (rv_sink K) (bs @ as)"
  shows "\<exists>s'. receive_loop p ko st s = receive_loop p ko st s' \<and> rv_ok p s' up (bs @ as) K \<and> rv_decompressor s' = d' \<and>
    rv_data_bytes s' = rv_data_bytes s + word_of_nat (sum_list (map length ws)) \<and>
    rv_articles s' = rv_articles s + word_of_nat (length ws) \<and> rv_last_sync s' = rv_last_sync s \<and>
    rv_reassembler s' = r'"
  using assms
proof (induction gs arbitrary: s ws bs as)
  case Nil
  then show ?case by (cases "rv_decompressor s") auto
next
  case (Cons g gs)
  then obtain ws1 r1 ws2 where f: "reassembler_feed g (rv_reassembler s) = (Inr ws1, r1)" "feed_all r1 gs = (Inr ws2, r')"
      "ws = ws1 @ ws2"
    by (auto split: prod.splits sum.splits)
  from unwire_append_split [of "rv_decompressor s" ws1 ws2 as d'] Cons.prems(4) f(3) obtain as1 as2 d1 where
    u: "as = as1 @ as2" "unwire (rv_decompressor s) ws1 = Some (as1, d1)" "unwire d1 ws2 = Some (as2, d')" by auto
  have R: "room (rv_sink K) (bs @ as1)"
    using room_prefix [of "rv_sink s" "bs @ as1" as2] Cons.prems(3,5) u(1) by (simp add: rv_ok_def)
  from recv_step_data [of p s g "gs @ up" bs K, OF _ _ f(1) u(2) R] Cons.prems(1,3) obtain s1 where
    1: "recv_step p ko st s = (Inr None, s1)" "rv_ok p s1 (gs @ up) (bs @ as1) K" "rv_decompressor s1 = d1"
      "rv_data_bytes s1 = rv_data_bytes s + word_of_nat (sum_list (map length ws1))"
      "rv_articles s1 = rv_articles s + word_of_nat (length ws1)" "rv_last_sync s1 = rv_last_sync s"
      "rv_reassembler s1 = r1" by auto
  from Cons.IH [OF _ _ 1(2), of ws2 as2] Cons.prems(1,5) f(2) u 1(3,7) obtain s2 where
    2: "receive_loop p ko st s1 = receive_loop p ko st s2" "rv_ok p s2 up ((bs @ as1) @ as2) K" "rv_decompressor s2 = d'"
      "rv_data_bytes s2 = rv_data_bytes s1 + word_of_nat (sum_list (map length ws2))"
      "rv_articles s2 = rv_articles s1 + word_of_nat (length ws2)" "rv_last_sync s2 = rv_last_sync s1"
      "rv_reassembler s2 = r'" by auto
  from 1 2 f(3) u(1) show ?case
    by (intro exI [of _ s2]) (simp add: receive_loop_continue [OF 1(1)])
qed

lemma receive_transmits:
  assumes "transmits peer r fs its" and "rv_reassembler s = r" and "rv_ok p s (fs @ up) bs K"
    and "unwire (rv_decompressor s) (wires_of its) = Some (as, d')" and "room (rv_sink K) (bs @ as)"
  shows "\<exists>s'. receive_loop p ko st s = receive_loop p ko st s' \<and> rv_ok p s' up (bs @ as) K \<and> rv_decompressor s' = d' \<and>
    rv_data_bytes s' = rv_data_bytes s + word_of_nat (sum_list (map length (wires_of its))) \<and>
    rv_articles s' = rv_articles s + word_of_nat (length (wires_of its)) \<and>
    rv_last_sync s' = last_sync_of (rv_last_sync s) its \<and> rv_reassembler s' = r"
  using assms
proof (induction arbitrary: as d' up rule: transmits.induct)
  case tr_nil
  then show ?case by (cases "rv_decompressor s") auto
next
  case (tr_data fs its gs ws)
  from unwire_append_split [of "rv_decompressor s" "wires_of its" ws as d'] tr_data.prems(3) obtain as1 as2 d1 where
    u: "as = as1 @ as2" "unwire (rv_decompressor s) (wires_of its) = Some (as1, d1)" "unwire d1 ws = Some (as2, d')" by auto
  have R: "room (rv_sink K) (bs @ as1)"
    using room_prefix [of "rv_sink s" "bs @ as1" as2] tr_data.prems(2,4) u(1) by (simp add: rv_ok_def)
  from tr_data.IH [OF tr_data.prems(1) _ u(2) R, of "gs @ up"] tr_data.prems(2) obtain s1 where
    1: "receive_loop p ko st s = receive_loop p ko st s1" "rv_ok p s1 (gs @ up) (bs @ as1) K" "rv_decompressor s1 = d1"
      "rv_data_bytes s1 = rv_data_bytes s + word_of_nat (sum_list (map length (wires_of its)))"
      "rv_articles s1 = rv_articles s + word_of_nat (length (wires_of its))"
      "rv_last_sync s1 = last_sync_of (rv_last_sync s) its" "rv_reassembler s1 = r" by auto
  from receive_group [of gs s1 ws r p up "bs @ as1" K as2 d'] tr_data.hyps(2,3) 1 u tr_data.prems(4) obtain s2 where
    "receive_loop p ko st s1 = receive_loop p ko st s2" "rv_ok p s2 up (bs @ as) K" "rv_decompressor s2 = d'"
      "rv_data_bytes s2 = rv_data_bytes s1 + word_of_nat (sum_list (map length ws))"
      "rv_articles s2 = rv_articles s1 + word_of_nat (length ws)" "rv_last_sync s2 = rv_last_sync s1"
      "rv_reassembler s2 = r" by auto
  with 1 show ?case by (intro exI [of _ s2]) simp
next
  case (tr_syn fs its n)
  from tr_syn.IH [OF tr_syn.prems(1), of "syn peer n # up" as d'] tr_syn.prems obtain s1 where
    1: "receive_loop p ko st s = receive_loop p ko st s1" "rv_ok p s1 (syn peer n # up) (bs @ as) K" "rv_decompressor s1 = d'"
      "rv_data_bytes s1 = rv_data_bytes s + word_of_nat (sum_list (map length (wires_of its)))"
      "rv_articles s1 = rv_articles s + word_of_nat (length (wires_of its))" "rv_reassembler s1 = r" by auto
  from recv_step_syn [OF 1(2) tr_syn.hyps(2)] obtain s2 where
    2: "recv_step p ko st s1 = (Inr None, s2)" "rv_ok p s2 up (bs @ as) K" "rv_decompressor s2 = rv_decompressor s1"
      "rv_data_bytes s2 = rv_data_bytes s1" "rv_articles s2 = rv_articles s1" "rv_last_sync s2 = n"
      "rv_reassembler s2 = rv_reassembler s1" by blast
  with 1 receive_loop_continue [OF 2(1)] show ?case by (intro exI [of _ s2]) simp
qed

lemma receive_data_done:
  assumes "transmits peer (reassembler_new (dp_max_article p)) fs its"
    and "unwire (receiver_decompressor p) (wires_of its) = Some (as, d')"
    and "rv_ok p (recv_init p start c sink store cancel) (fs @ dtf_end peer' D_OK # up) bs (recv_init p start c sink store cancel)"
    and "room sink (bs @ as)"
  shows "\<exists>s'. receive_data p ko st start c sink store cancel =
      (Inr \<lparr>dr_end = Completed,
          dr_data_bytes = cp_data_bytes start + word_of_nat (sum_list (map length (wires_of its))),
          dr_articles = cp_articles start + word_of_nat (length (wires_of its)),
          dr_last_sync = last_sync_of (cp_sync start) its\<rparr>, s') \<and>
    rv_ended p s' up (bs @ as) (recv_init p start c sink store cancel)"
proof -
  let ?s = "recv_init p start c sink store cancel"
  have i: "rv_reassembler ?s = reassembler_new (dp_max_article p)" "rv_decompressor ?s = receiver_decompressor p"
    "rv_data_bytes ?s = cp_data_bytes start" "rv_articles ?s = cp_articles start" "rv_last_sync ?s = cp_sync start"
    "rv_sink ?s = sink"
    by (simp_all add: recv_init_def conn.defs receiver_decompressor_def)
  from receive_transmits [OF assms(1) i(1) assms(3), of as d'] assms(2,4) i obtain s1 where
    1: "receive_loop p ko st ?s = receive_loop p ko st s1" "rv_ok p s1 (dtf_end peer' D_OK # up) (bs @ as) ?s"
      "rv_data_bytes s1 = cp_data_bytes start + word_of_nat (sum_list (map length (wires_of its)))"
      "rv_articles s1 = cp_articles start + word_of_nat (length (wires_of its))"
      "rv_last_sync s1 = last_sync_of (cp_sync start) its" by auto
  from recv_step_end [OF 1(2)] obtain s2 where
    2: "recv_step p ko st s1 = (Inr (Some Completed), s2)" "rv_ended p s2 up (bs @ as) ?s"
      "rv_data_bytes s2 = rv_data_bytes s1" "rv_articles s2 = rv_articles s1" "rv_last_sync s2 = rv_last_sync s1" by blast
  have "receive_loop p ko st s1 = (Inr (rv_result Completed s2), s2)"
    using 2(1) by (subst receive_loop.simps) simp
  with 1 2 show ?thesis
    by (intro exI [of _ s2]) (simp add: receive_data_def rv_result_def)
qed

end

end
