(* ===== verification/Datapath_Props.thy ===== *)
theory Datapath_Props
  imports Datapath_Recv
begin

text \<open>
  The data phase with the sources, sinks and stores of the development: the operations behind the trait
  objects, the contracts they fulfil, and what follows for whole transfers.
\<close>

section \<open>The trait implementations\<close>

definition file_source_ops :: "file_source source_ops" where
  "file_source_ops = \<lparr>so_next = source_next, so_position = source_position, so_rewind = source_rewind,
     so_size_hint = source_size_hint\<rparr>"

definition vec_source_ops :: "vec_source source_ops" where
  "vec_source_ops = \<lparr>so_next = vec_next, so_position = vs_pos, so_rewind = vec_rewind, so_size_hint = vec_size_hint\<rparr>"

definition file_sink_ops :: "file_sink sink_ops" where
  "file_sink_ops = \<lparr>ko_write = sink_write_article, ko_checkpoint = sink_checkpoint, ko_truncate = sink_truncate,
     ko_finish = sink_finish\<rparr>"

definition vec_sink_ops :: "vec_sink sink_ops" where
  "vec_sink_ops = \<lparr>ko_write = vec_write_article, ko_checkpoint = vec_checkpoint, ko_truncate = vec_truncate,
     ko_finish = vec_finish\<rparr>"

definition memory_store_ops :: "memory_checkpoints store_ops" where
  "memory_store_ops = \<lparr>to_record = (\<lambda>cp m. apfst (map_err Io_Kind) (mc_record cp m)), to_get = mc_get, to_last = mc_last,
     to_last_acknowledged = mc_last_acknowledged,
     to_acknowledge = (\<lambda>n m. apfst (map_err Io_Kind) (mc_acknowledge n m)),
     to_clear = (\<lambda>m. apfst (map_err Io_Kind) (mc_clear m))\<rparr>"

lemmas ops_defs = file_source_ops_def vec_source_ops_def file_sink_ops_def vec_sink_ops_def memory_store_ops_def

interpretation file_sending: sending_source file_yields file_origin file_source_ops
  using file_src.article_source_axioms by (simp add: sending_source_def file_source_ops_def)

interpretation vec_sending: sending_source vec_yields vs_articles vec_source_ops
  using vec_src.article_source_axioms by (simp add: sending_source_def vec_source_ops_def)

lemma memory_record_ok: "\<exists>c'. to_record memory_store_ops cp c = (Inr (), c')"
  by (simp add: memory_store_ops_def mc_record_def)

lemma sink_write_same: "sink_write_article a s = (Inr (), s') \<Longrightarrow> sink_same s s'"
  using sink_writes_same [of "[a]" s s'] by (simp add: then_sink_def)

lemma sink_checkpoint_same: "sink_checkpoint s = (Inr q, s') \<Longrightarrow> sink_same s s'"
  by (auto simp: sink_checkpoint_def sink_flush_def then_sink_Inr sink_same_def dest!: sink_call_Inr split: if_splits)

interpretation file_receiving: receiving_sink sink_holds sink_pos sink_room file_sink_ops
  "\<lambda>k. script_ok (fw_script k)" "\<lambda>k. (fw_format k, fw_ebcdic k)" memory_store_ops "\<lambda>_. True"
proof (rule receiving_sink.intro)
  show "article_sink sink_holds sink_pos sink_room (ko_write file_sink_ops) (ko_checkpoint file_sink_ops)
      (ko_truncate file_sink_ops)"
    using file_snk.article_sink_axioms by (simp add: file_sink_ops_def)
  show "receiving_sink_axioms file_sink_ops (\<lambda>k. script_ok (fw_script k)) (\<lambda>k. (fw_format k, fw_ebcdic k))
      memory_store_ops (\<lambda>_. True)"
  proof
    show "\<exists>k'. ko_write file_sink_ops a k = (Inr (), k') \<and> script_ok (fw_script k') \<and>
        (fw_format k', fw_ebcdic k') = (fw_format k, fw_ebcdic k)" if "script_ok (fw_script k)" for k a
      using runs_write [OF that, of a] sink_write_same [of a k] by (auto simp: file_sink_ops_def runs_def sink_same_def)
    show "\<exists>q k'. ko_checkpoint file_sink_ops k = (Inr q, k') \<and> script_ok (fw_script k') \<and>
        (fw_format k', fw_ebcdic k') = (fw_format k, fw_ebcdic k)" if "script_ok (fw_script k)" for k
      using runs_checkpoint [OF that] sink_checkpoint_same [of k] by (auto simp: file_sink_ops_def runs_def sink_same_def)
  qed (use memory_record_ok in simp)
qed

interpretation vec_receiving: receiving_sink vec_holds "\<lambda>_. vec_pos" "\<lambda>_ as. length as < 2 ^ 64" vec_sink_ops
  "\<lambda>_. True" "\<lambda>_. ()" memory_store_ops "\<lambda>_. True"
proof (rule receiving_sink.intro)
  show "article_sink vec_holds (\<lambda>_. vec_pos) (\<lambda>_ as. length as < 2 ^ 64) (ko_write vec_sink_ops)
      (ko_checkpoint vec_sink_ops) (ko_truncate vec_sink_ops)"
    using vec_snk.article_sink_axioms by (simp add: vec_sink_ops_def)
  show "receiving_sink_axioms vec_sink_ops (\<lambda>_. True) (\<lambda>_. ()) memory_store_ops (\<lambda>_. True)"
    using memory_record_ok
    by (unfold_locales) (auto simp: vec_sink_ops_def vec_write_article_def vec_checkpoint_def Let_def)
qed

section \<open>From the sender's stream to the receiver's queue\<close>

lemma reader_task_prefixed:
  assumes "rd_framing r = LengthPrefixed" and "65535 \<le> rd_max_len r" and "\<not> rd_first r"
    and "list_all (\<lambda>e. e \<noteq> [] \<and> length e < 65536) es" and "rd_inner r = concat (map prefixed es)"
  shows "\<exists>e. reader_task r = map (\<lambda>e. Rx_Entity e False) es @ [Rx_Error e, Rx_Disconnected]"
  using assms
proof (induction es arbitrary: r)
  case Nil
  then have "\<exists>e r'. read_entity r = (Inl e, r')" by (simp add: read_entity_def read_exact_or_closed_def then_read_def)
  then show ?case by (subst reader_task.simps) auto
next
  case (Cons e es)
  let ?r = "r\<lparr>rd_inner := concat (map prefixed es), rd_first := False\<rparr>"
  have "read_entity r = (Inr e, ?r)"
    using Cons.prems prefixed_def [of e] by (intro read_entity_prefixed) auto
  moreover from Cons.IH [of ?r] Cons.prems obtain x where
    "reader_task ?r = map (\<lambda>e. Rx_Entity e False) es @ [Rx_Error x, Rx_Disconnected]" by auto
  ultimately show ?case by (subst reader_task.simps) simp
qed

text \<open>A link at the other end of the stream: what its reader task reads is what was written since \<open>from\<close>.\<close>

definition reads_from :: "link \<Rightarrow> frame_writer \<Rightarrow> usize \<Rightarrow> bool" where
  "reads_from l w from \<longleftrightarrow> lk_pending l = [] \<and> \<not> lk_closed l \<and>
     (\<exists>r. rd_framing r = LengthPrefixed \<and> 65535 \<le> rd_max_len r \<and> \<not> rd_first r \<and>
        rd_inner r = drop from (wr_out w) \<and> lk_rx l = reader_task r)"

lemma entity_ok_bounds:
  assumes "entity_ok n crc gs" and "n \<le> MAX_FPDU_LEN"
  shows "entity_of crc gs \<noteq> [] \<and> length (entity_of crc gs) < 65536"
proof -
  obtain g gs' where "gs = g # gs'" using assms(1) by (cases gs) (auto simp: entity_ok_def)
  then have "length (entity_of crc gs) \<ge> HEADER_LEN"
    by (simp add: entity_of_def entity_emit_def encoded_len_def)
  then show ?thesis using assms by (auto simp: entity_ok_def MAX_FPDU_LEN_def HEADER_LEN_def)
qed

lemma tx_done_delivers:
  assumes "tx_out p out s fs []" and "reads_from l (lk_writer (cn_link s)) (length out)" and "lk_crc l = dp_crc p"
    and "dp_max_entity p \<le> MAX_FPDU_LEN"
  shows "delivers l fs"
proof -
  from assms(1) obtain gss where
    g: "fs = concat gss" "wr_out (lk_writer (cn_link s)) = out @ concat (map (\<lambda>gs. prefixed (entity_of (dp_crc p) gs)) gss)"
      "list_all (entity_ok (dp_max_entity p) (dp_crc p)) gss"
    by (auto simp: tx_out_def)
  from assms(2) obtain r where r: "rd_framing r = LengthPrefixed" "65535 \<le> rd_max_len r" "\<not> rd_first r"
      "rd_inner r = drop (length out) (wr_out (lk_writer (cn_link s)))" "lk_rx l = reader_task r"
      "lk_pending l = []" "\<not> lk_closed l"
    by (auto simp: reads_from_def)
  have "list_all (\<lambda>e. e \<noteq> [] \<and> length e < 65536) (map (entity_of (dp_crc p)) gss)"
    using g(3) entity_ok_bounds [OF _ assms(4)] by (auto simp: list_all_iff)
  from reader_task_prefixed [OF r(1-3) this] r(4) g(2) obtain x where
    "reader_task r = map (\<lambda>e. Rx_Entity e False) (map (entity_of (dp_crc p)) gss) @ [Rx_Error x, Rx_Disconnected]"
    by (auto simp: comp_def)
  with g r(5-7) assms(3) show ?thesis
    by (auto simp: delivers_def entity_ok_def list_all_iff intro!: exI [of _ gss])
qed

lemma admissible_length: "length a = length b \<Longrightarrow> admissible p m a = admissible p m b"
  by (simp add: admissible_def wire_bound_def)

end
