(* ===== verification/Datapath_Term.thy ===== *)
theory Datapath_Term
  imports Datapath_Props
begin

text \<open>
  The sending loop ends: every turn takes something from the finite number of FPDUs that may arrive, or
  an article from a source that has finitely many left. Resynchronisation puts articles back, but each
  one costs an FPDU.
\<close>

section \<open>Sources that run dry\<close>

locale finite_source =
  fixes so :: "'s source_ops" and good :: "'s \<Rightarrow> bool" and left :: "'s \<Rightarrow> nat" and most :: "'s \<Rightarrow> nat"
  assumes next_smaller: "good x \<Longrightarrow> so_next so x = (Inr (Some a), x') \<Longrightarrow> good x' \<and> left x' < left x \<and> most x' = most x"
    and rewind_good: "good x \<Longrightarrow> so_rewind so pos x = (Inr (), x') \<Longrightarrow> good x' \<and> most x' = most x"
    and left_most: "good x \<Longrightarrow> left x \<le> most x"

section \<open>What the actions of the sender keep\<close>

definition tx_steady :: "('s, 'c) send_state \<Rightarrow> ('s, 'c) send_state \<Rightarrow> bool" where
  "tx_steady s s' \<longleftrightarrow> backlog s' \<le> backlog s \<and> sn_source s' = sn_source s"

lemma tx_steady_order: "reflp tx_steady" "transp tx_steady"
  by (auto simp: tx_steady_def reflp_def transp_def)

lemmas steady_intros = act_keeps_bind [OF tx_steady_order(2)] act_keeps_then [OF tx_steady_order(2)]
  act_keeps_pure [OF tx_steady_order(1)] act_keeps_when [OF tx_steady_order(1)]
  act_keeps_each [OF tx_steady_order]

lemma steadyI: "(\<And>s r s'. m s = (r, s') \<Longrightarrow> backlog s' = backlog s \<and> sn_source s' = sn_source s) \<Longrightarrow> act_keeps tx_steady m"
  unfolding act_keeps_def tx_steady_def by (metis order_refl prod.collapse)

lemma steady_modify:
  "(\<And>s. backlog (g s) = backlog s \<and> sn_source (g s) = sn_source s) \<Longrightarrow> act_keeps tx_steady (act_modify g)"
  by (rule steadyI) auto

lemma steady_link:
  "act_keeps tx_steady (conn_send f)" "act_keeps tx_steady (apply_received f)" "act_keeps tx_steady (apply_local e)"
  "act_keeps tx_steady sn_send_entity"
proof -
  show "act_keeps tx_steady (conn_send f)"
    by (rule steadyI, rule conjI, erule conn_send_backlog) (auto simp: conn_send_def on_link_def split: prod.splits)
  show "act_keeps tx_steady (apply_received f)"
    by (rule steadyI, rule conjI, erule apply_received_backlog)
      (auto simp: apply_received_def split: if_splits prod.splits sum.splits)
  show "act_keeps tx_steady (apply_local e)"
    by (rule steadyI, rule conjI, erule apply_local_backlog)
      (auto simp: apply_local_def act_bind_def act_on_def split: prod.splits sum.splits)
  show "act_keeps tx_steady sn_send_entity"
    by (rule steadyI)
      (auto simp: sn_send_entity_def on_link_def link_send_entity_def act_on_def backlog_def link_backlog_def Let_def
        split: prod.splits sum.splits)
qed

lemma steady_field:
  "act_keeps tx_steady (sn_on_store g)" "act_keeps tx_steady sn_report" "act_keeps tx_steady (sn_compress a)"
  "act_keeps tx_steady (act_on sn_entity (\<lambda>b s. s\<lparr>sn_entity := b\<rparr>) h k)"
  by (rule steadyI; auto simp: sn_on_store_def sn_report_def sn_compress_def act_on_def backlog_def
      split: prod.splits option.splits)+

lemma sn_push_get:
  "sn_push f = act_bind act_get (\<lambda>s.
     act_then (act_when (\<not> builder_fits (sn_entity s) (encoded_len f)) sn_send_entity)
       (act_on sn_entity (\<lambda>b s. s\<lparr>sn_entity := b\<rparr>) (\<lambda>e. S_Negotiation (N_Encode e)) (builder_push f)))"
  by (rule ext) (simp add: sn_push_def)

lemma steady_push: "act_keeps tx_steady (sn_push f)"
  unfolding sn_push_get by (intro steady_intros steady_link steady_field)

lemma sn_flush_get:
  "sn_flush_packer =
     act_bind (\<lambda>s. (Inr (fst (packer_flush (sn_packer s))), s\<lparr>sn_packer := snd (packer_flush (sn_packer s))\<rparr>))
       (\<lambda>f. case f of None \<Rightarrow> act_return () | Some f \<Rightarrow> sn_push f)"
  by (rule ext) (auto simp: sn_flush_packer_def act_bind_def act_return_def Let_def split: prod.splits option.splits)

lemma steady_flush: "act_keeps tx_steady sn_flush_packer"
  unfolding sn_flush_get
  by (intro steady_intros) (auto intro!: steadyI steady_intros steady_push simp: backlog_def split: option.splits)

lemma steady_article: "act_keeps tx_steady (sn_article p so st a)"
proof -
  have syn: "act_keeps tx_steady (sn_put_syn p)" "act_keeps tx_steady (sn_mark_sync p st)"
    unfolding sn_put_syn_def sn_mark_sync_def
    by (intro steady_intros steady_flush steady_push steady_link steady_field steady_modify; simp add: backlog_def)+
  have sync: "act_keeps tx_steady (sn_sync_point p st a w)" for w
    unfolding sn_sync_point_def
    by (intro steady_intros syn) (auto intro!: steady_intros steady_field steady_modify simp: backlog_def)
  have pack: "act_keeps tx_steady (sn_pack w)" for w
    unfolding sn_pack_def
    by (intro steady_intros steady_push steady_link) (auto intro!: steadyI simp: backlog_def Let_def split: prod.splits)
  have wire: "act_keeps tx_steady (sn_wire p st a)"
    unfolding sn_wire_def by (intro steady_intros steady_field) (auto intro!: steady_intros sync split: option.splits)
  show ?thesis
    unfolding sn_article_def
    by (intro steady_intros steady_field steady_link pack wire steady_modify) (simp add: backlog_def)
qed

section \<open>The loop ends\<close>

lemma try_recv_backlog:
  assumes "link_try_recv l = (Inr q, l')"
  shows "link_backlog l' \<le> link_backlog l \<and> (q \<noteq> None \<longrightarrow> link_backlog l' < link_backlog l)"
proof -
  obtain x l1 where 1: "pop_pending l = (x, l1)" by fastforce
  show ?thesis
  proof (cases x)
    case (Some f)
    with assms 1 pop_pending_backlog(1) [of l f l1] show ?thesis by (auto simp: link_try_recv_def)
  next
    case None
    then have [simp]: "l1 = l" using pop_pending_backlog(2) 1 by simp
    obtain ev l2 where 2: "link_next_event l = (ev, l2)" by fastforce
    show ?thesis
    proof (cases "lk_closed l \<or> lk_rx l = []")
      case True
      with assms 1 None 2 next_event_backlog(2) [OF 2] show ?thesis
        by (auto simp: link_try_recv_def split: if_splits)
    next
      case False
      note le = next_event_backlog(1) [OF 2]
      show ?thesis
      proof (cases ev)
        case (Rx_Entity e on)
        with assms 1 None 2 False obtain l3 where 3: "queue_entity e l2 = (Inr (), l3)" "pop_pending l3 = (q, l')"
          by (auto simp: link_try_recv_def act_then_eq_Inr pop_pending_case)
        from queue_entity_backlog [OF 3(1)] le Rx_Entity False have "link_backlog l3 < link_backlog l" by simp
        moreover have "link_backlog l' \<le> link_backlog l3"
          using pop_pending_backlog [of l3] 3(2) by (cases q) (auto simp: less_imp_le)
        ultimately show ?thesis by linarith
      qed (use assms 1 None 2 False le in \<open>auto simp: link_try_recv_def\<close>)
    qed
  qed
qed

context finite_source
begin

definition stock :: "('s, 'c) send_state \<Rightarrow> nat" where
  "stock s = backlog s * Suc (most (sn_source s)) + left (sn_source s)"

definition fair :: "nat \<Rightarrow> ('s, 'c) send_state \<Rightarrow> bool" where
  "fair m s \<longleftrightarrow> good (sn_source s) \<and> most (sn_source s) = m"

lemma stock_less:
  assumes "fair m s" and "fair m s'" and "backlog s' < backlog s"
  shows "stock s' < stock s"
proof -
  have "left (sn_source s') \<le> m" using assms(2) left_most by (auto simp: fair_def)
  moreover have "Suc (backlog s') * Suc m \<le> backlog s * Suc m" using assms(3) by (intro mult_le_mono1) simp
  ultimately show ?thesis using assms(1,2) by (simp add: stock_def fair_def)
qed

lemma handle_async_fair:
  assumes "handle_async p so st f s = (Inr e, s')" and "fair m s"
  shows "fair m s' \<and> backlog s' \<le> backlog s"
proof (cases "f_kind f = K_Resyn")
  case False
  have ack: "act_keeps tx_steady (sn_handle_ack_syn st f)" and idt: "act_keeps tx_steady (sn_handle_idt p f)"
    unfolding sn_handle_ack_syn_def sn_handle_idt_def Let_def
    by (intro steady_intros steady_link steady_field steady_modify; simp add: backlog_def)+
  have "act_keeps tx_steady (handle_async p so st f)"
    using False unfolding handle_async_def by (auto intro!: steady_intros steady_link ack idt)
  from act_keepsD [OF this assms(1)] assms(2) show ?thesis by (simp add: tx_steady_def fair_def)
next
  case True
  from True assms(1) obtain b s1 x s2 s3 cp where 1: "apply_received f s = (Inr b, s1)"
    and 2: "conn_send x s1 = (Inr (), s2)" and 3: "apply_local L_Accept s2 = (Inr (), s3)"
    and 4: "sn_restart_at so cp s3 = (Inr (), s')"
    by (auto simp: handle_async_def sn_handle_resyn_def act_then_eq_Inr act_bind_eq_Inr Let_def split: if_splits)
  from 4 obtain y where y: "so_rewind so (position_of cp) (sn_source s3) = (Inr (), y)" "sn_source s' = y"
      "cn_link s' = cn_link s3"
    by (auto simp: sn_restart_at_def act_then_eq_Inr sn_on_source_def act_on_eq_Inr)
  have "tx_steady s s3"
    using act_keepsD [OF steady_link(2) 1] act_keepsD [OF steady_link(1) 2] act_keepsD [OF steady_link(3) 3]
    by (simp add: tx_steady_def)
  with y rewind_good [OF _ y(1)] assms(2) show ?thesis by (auto simp: tx_steady_def fair_def backlog_def)
qed

lemma send_step_stock:
  assumes step: "send_step p so st s = (Inr Tx_Continue, s')" and fair: "fair m s"
  shows "fair m s' \<and> stock s' < stock s"
proof -
  from step obtain q l1 where l1: "link_try_recv (cn_link s) = (Inr q, l1)"
    by (auto simp: send_step_def act_bind_eq_Inr on_link_def split: prod.splits)
  let ?s1 = "s\<lparr>cn_link := l1\<rparr>"
  let ?s = "?s1\<lparr>sn_cancel := tl (sn_cancel s)\<rparr>"
  have f1: "fair m ?s1" "fair m ?s" using fair by (simp_all add: fair_def)
  have b1: "backlog ?s1 \<le> backlog s" "q \<noteq> None \<Longrightarrow> backlog ?s1 < backlog s" "backlog ?s = backlog ?s1"
    using try_recv_backlog [OF l1] by (auto simp: backlog_def)
  show ?thesis
  proof (cases q)
    case (Some f)
    with step l1 obtain e where "handle_async p so st f ?s1 = (Inr e, s')"
      by (auto simp: send_step_def act_bind_eq_Inr on_link_def)
    from handle_async_fair [OF this f1(1)] b1(2) Some stock_less [OF fair, of s'] show ?thesis by auto
  next
    case None
    have nc: "\<not> (case sn_cancel s of [] \<Rightarrow> False | c # _ \<Rightarrow> c)"
      using step l1 None by (auto simp: send_step_def act_bind_eq_Inr on_link_def act_then_eq_Inr)
    show ?thesis
    proof (cases "send_window p > 0 \<and> length (sn_unacked s) \<ge> send_window p")
      case True
      with step l1 None nc obtain f s2 e where e: "conn_recv ?s = (Inr f, s2)" "handle_async p so st f s2 = (Inr e, s')"
        by (auto simp: send_step_def act_bind_eq_Inr on_link_def)
      have "fair m s2" using e(1) f1(2) by (auto simp: conn_recv_def on_link_def fair_def split: prod.splits)
      from handle_async_fair [OF e(2) this] conn_recv_backlog(1) [OF e(1)] b1 stock_less [OF fair, of s'] show ?thesis
        by auto
    next
      case False
      with step l1 None nc obtain a s2 where a: "sn_on_source (so_next so) ?s = (Inr (Some a), s2)" "sn_article p so st a s2 = (Inr (), s')"
        by (auto simp: send_step_def act_bind_eq_Inr on_link_def act_then_eq_Inr split: option.splits)
      then obtain y where y: "so_next so (sn_source s) = (Inr (Some a), y)" "s2 = ?s\<lparr>sn_source := y\<rparr>"
        by (auto simp: sn_on_source_def act_on_eq_Inr)
      from act_keepsD [OF steady_article a(2)] have st: "backlog s' \<le> backlog s2" "sn_source s' = sn_source s2"
        by (auto simp: tx_steady_def)
      have "backlog s2 = backlog ?s" by (simp add: y(2) backlog_def)
      with st b1 have le: "backlog s' \<le> backlog s" by linarith
      have n: "good y \<and> left y < left (sn_source s) \<and> most y = m"
        using next_smaller [OF _ y(1)] fair by (simp add: fair_def)
      have "sn_source s' = y" using st(2) by (simp add: y(2))
      moreover have "backlog s' * Suc m \<le> backlog s * Suc m" using le by (rule mult_le_mono1)
      ultimately show ?thesis using n fair by (simp add: stock_def fair_def)
    qed
  qed
qed

lemma send_loop_returns: "fair m s \<Longrightarrow> stock s < n \<Longrightarrow> send_loop n p so st s \<noteq> None"
proof (induction n arbitrary: s)
  case (Suc n)
  obtain c s1 where step: "send_step p so st s = (c, s1)" by fastforce
  show ?case
  proof (cases "c = Inr Tx_Continue")
    case True
    with send_step_stock [OF step [unfolded True] Suc.prems(1)] Suc step show ?thesis by simp
  qed (use step in \<open>auto split: sum.splits send_ctl.splits\<close>)
qed simp

lemma send_data_ends:
  assumes "good x" and "(backlog c + 1) * (most x + 1) \<le> fuel"
  shows "send_data fuel p so st start c x store cancel \<noteq> None"
proof -
  let ?s = "send_init p so start c x store cancel"
  obtain r s1 where r: "sn_on_source (so_rewind so (position_of start)) ?s = (r, s1)" by fastforce
  show ?thesis
  proof (cases r)
    case (Inr u)
    then obtain y where y: "so_rewind so (position_of start) x = (Inr (), y)" "s1 = ?s\<lparr>sn_source := y\<rparr>"
      using r by (auto simp: sn_on_source_def act_on_eq_Inr send_init_def conn.defs)
    let ?s1 = "s1\<lparr>sn_prev_pos := so_position so (sn_source s1)\<rparr>"
    have g: "good y" "most y = most x" using rewind_good [OF assms(1) y(1)] by auto
    then have f: "fair (most x) ?s1" by (simp add: fair_def y(2))
    have "stock ?s1 = backlog c * Suc (most x) + left y"
      by (simp add: stock_def y(2) g backlog_def send_init_def conn.defs)
    also have "\<dots> < Suc (backlog c) * Suc (most x)" using left_most [OF g(1)] g(2) by simp
    also have "\<dots> \<le> fuel" using assms(2) by simp
    finally show ?thesis using send_loop_returns [OF f] r Inr by (simp add: send_data_def)
  qed (use r in \<open>simp add: send_data_def\<close>)
qed

end

section \<open>Files and article lists\<close>

definition file_good :: "file_source \<Rightarrow> bool" where
  "file_good s \<longleftrightarrow> cutter_inv (fr_cutter s) \<and> length (remaining s) \<le> length (fr_file s)"

lemma cut_some_shorter:
  assumes "next_article c = Inr (Some a, c')" and "cutter_inv c"
  shows "cutter_inv c' \<and> length (cutter_avail c') < length (cutter_avail c)"
proof -
  have "0 < ac_record_len c" using assms(2) by (simp add: cutter_inv_def)
  with next_article_refines [OF assms(2)] assms(1) show ?thesis
    using cut_next_shorter by (fastforce split: sum.splits option.splits prod.splits)
qed

lemma cut_none_same: "next_article c = Inr (None, c') \<Longrightarrow> cutter_inv c \<Longrightarrow> c' = c"
  using next_article_refines [of c] by (auto split: sum.splits option.splits prod.splits)

lemma finish_some_shorter:
  assumes "cutter_finish c = (Inr (Some a), c')" and "cutter_inv c"
  shows "cutter_inv c' \<and> length (cutter_avail c') < length (cutter_avail c)"
proof -
  have c': "c' = c\<lparr>ac_pos := length (ac_buf c)\<rparr>" using cutter_finish_refines(2) [of c] assms(1) by simp
  have "cutter_avail c \<noteq> []"
    using assms(1) by (auto simp: cutter_finish_def cutter_avail_def Let_def split: if_splits)
  with c' assms(2) show ?thesis by (simp add: cutter_inv_def cutter_avail_def)
qed

lemma fill_same:
  assumes "source_fill s = (Inr b, s')" and "cutter_inv (fr_cutter s)"
  shows "cutter_inv (fr_cutter s') \<and> length (remaining s') = length (remaining s) \<and> fr_file s' = fr_file s"
  using assms cutter_push_avail [OF assms(2)]
  by (auto simp: source_fill_def remaining_def Let_def split: prod.splits sum.splits if_splits)

lemma source_next_smaller:
  "source_next s = (Inr (Some a), s') \<Longrightarrow> cutter_inv (fr_cutter s) \<Longrightarrow>
    cutter_inv (fr_cutter s') \<and> length (remaining s') < length (remaining s) \<and> fr_file s' = fr_file s"
proof (induction s rule: source_next.induct)
  case (1 s)
  show ?case
  proof (cases "next_article (fr_cutter s)")
    case (Inr r)
    obtain x c where r: "r = (x, c)" by fastforce
    show ?thesis
    proof (cases x)
      case (Some b)
      with "1.prems" Inr r cut_some_shorter [of "fr_cutter s" b c] show ?thesis
        by (auto simp: source_next.simps [of s] source_took_def remaining_def)
    next
      case None
      with cut_none_same [of "fr_cutter s" c] Inr r "1.prems"(2) have c: "c = fr_cutter s" by simp
      show ?thesis
      proof (cases "fr_eof s")
        case True
        obtain y c2 where y: "cutter_finish c = (y, c2)" by fastforce
        with "1.prems" Inr r None True finish_some_shorter [of c _ c2] c show ?thesis
          by (auto simp: source_next.simps [of s] source_took_def remaining_def split: sum.splits option.splits)
      next
        case False
        obtain y s2 where y: "source_fill (s\<lparr>fr_cutter := c\<rparr>) = (y, s2)" by fastforce
        show ?thesis
        proof (cases y)
          case f: (Inr b)
          have "source_next s2 = (Inr (Some a), s')"
            using "1.prems"(1) Inr r None False y f by (simp add: source_next.simps [of s])
          from "1.IH" [OF Inr r [symmetric] None refl _ y [symmetric] f this] False fill_same [OF y [unfolded f]] "1.prems"(2) c
          show ?thesis by (simp add: remaining_def)
        qed (use "1.prems"(1) Inr r None False y in \<open>simp add: source_next.simps [of s]\<close>)
      qed
    qed
  qed (use "1.prems"(1) in \<open>simp add: source_next.simps [of s]\<close>)
qed

interpretation file_finite: finite_source file_source_ops file_good "\<lambda>s. length (remaining s)" "\<lambda>s. length (fr_file s)"
proof
  show "file_good x' \<and> length (remaining x') < length (remaining x) \<and> length (fr_file x') = length (fr_file x)"
    if "file_good x" "so_next file_source_ops x = (Inr (Some a), x')" for x a x'
    using source_next_smaller [of x a x'] that by (auto simp: file_good_def file_source_ops_def)
  show "file_good x' \<and> length (fr_file x') = length (fr_file x)"
    if "file_good x" "so_rewind file_source_ops pos x = (Inr (), x')" for x pos x'
    using that by (auto simp: file_good_def file_source_ops_def source_rewind_def remaining_def cutter_inv_def cutter_new_def
        cutter_avail_def split: prod.splits sum.splits)
qed (simp add: file_good_def)

interpretation vec_finite: finite_source vec_source_ops "\<lambda>_. True" "\<lambda>s. length (vs_articles s) - vs_index s"
  "\<lambda>s. length (vs_articles s)"
  by unfold_locales (auto simp: vec_source_ops_def vec_next_def vec_rewind_def Let_def split: if_splits)

text \<open>C6: sending a file always ends. Whatever the peer sends (acknowledgements, restart requests, an
  interruption, garbage), whatever faults the file system and the connection have and whenever the
  transfer is cancelled, the sending loop returns after a number of turns bounded by the size of the
  file times the amount that arrives, with a result or an error.\<close>

theorem send_data_returns:
  assumes "source_open (Inr data) fmt rl script = Inr src" and "(backlog c + 1) * (length data + 1) \<le> fuel"
  shows "\<exists>r s. send_data fuel p file_source_ops st start c (source_with_ebcdic e src) store cancel = Some (r, s)"
proof -
  have src: "fr_file src = data" "file_good (source_with_ebcdic e src)"
    using assms(1)
    by (auto simp: source_open_def and_then_eq_Inr source_with_ebcdic_def file_good_def remaining_def cutter_inv_def
        cutter_new_def cutter_avail_def)
  then have "fr_file (source_with_ebcdic e src) = data" by (simp add: source_with_ebcdic_def)
  with file_finite.send_data_ends [OF src(2), of c fuel p st start store cancel] assms(2) show ?thesis by auto
qed

theorem send_data_returns_witness:
  "\<exists>src. source_open (Inr [1, 2, 3, 4, 5]) Bu 2 [] = Inr src \<and>
     (\<exists>r s. send_data 6 \<lparr>dp_peer_id = 7, dp_sync = SYNC_NONE, dp_resync = False, dp_compression = Comp_None, dp_crc = False,
         dp_max_entity = 1024, dp_multi_article = True, dp_max_article = 80, dp_role = Requester\<rparr>
       file_source_ops memory_store_ops checkpoint_default
       \<lparr>cn_link = link_new \<lparr>wr_out = [], wr_script = [], wr_framing = LengthPrefixed\<rparr> [],
          cn_machine = \<lparr>m_role = Requester, m_state = Tde02A\<rparr>\<rparr>
       (source_with_ebcdic False src) mc_new [] = Some (r, s))"
proof -
  obtain src where src: "source_open (Inr [1, 2, 3, 4, 5]) Bu 2 [] = Inr src"
    by (simp add: source_open_def map_err_def os_call_def)
  with send_data_returns [OF src, of
      "\<lparr>cn_link = link_new \<lparr>wr_out = [], wr_script = [], wr_framing = LengthPrefixed\<rparr> [],
          cn_machine = \<lparr>m_role = Requester, m_state = Tde02A\<rparr>\<rparr>" 6]
  show ?thesis by (simp add: backlog_def link_backlog_def link_new_def)
qed

end
