(* ===== verification/Datapath_Live.thy ===== *)
theory Datapath_Live
  imports Datapath_Term
begin

text \<open>
  A transfer that nothing disturbs completes: no fault of the connection, nothing that arrives, no
  cancellation and no acknowledgement to wait for.
\<close>

section \<open>Output succeeds\<close>

definition wr_ok :: "('s, 'c) send_state \<Rightarrow> bool" where
  "wr_ok s \<longleftrightarrow> script_ok (wr_script (lk_writer (cn_link s)))"

lemma sn_send_entity_ok:
  assumes "tx_out p out s fs pend" and "dp_max_entity p \<le> MAX_FPDU_LEN" and "wr_ok s"
  shows "\<exists>s'. sn_send_entity s = (Inr (), s') \<and> wr_ok s'"
proof -
  have "length (fst (builder_take (sn_entity s))) \<le> 65535"
    using assms(1,2) by (auto simp: tx_out_def builder_holds_def builder_take_def MAX_FPDU_LEN_def)
  from write_entity_ok [OF _ this, of "lk_writer (cn_link s)"] assms(3) show ?thesis
    by (auto simp: sn_send_entity_def on_link_def link_send_entity_def act_on_def wr_ok_def split: prod.splits)
qed

lemma sn_push_ok:
  assumes "tx_out p out s fs pend" and "fpdu_fits p f" and "dp_max_entity p \<le> MAX_FPDU_LEN" and "wr_ok s"
  shows "\<exists>s'. sn_push f s = (Inr (), s') \<and> wr_ok s'"
proof -
  have push: "\<exists>s'. act_on sn_entity (\<lambda>b s. s\<lparr>sn_entity := b\<rparr>) (\<lambda>e. S_Negotiation (N_Encode e)) (builder_push f) s1 = (Inr (), s') \<and> wr_ok s'"
    if 1: "tx_out p out s1 fs pend1" "builder_fits (sn_entity s1) (encoded_len f)" "wr_ok s1" for s1 pend1
  proof -
    have "builder_holds (sn_entity s1) pend1" using 1(1) by (simp add: tx_out_def)
    from builder_push_spec [OF this _ 1(2)] assms(2) 1(3) show ?thesis by (auto simp: fpdu_fits_def act_on_def wr_ok_def)
  qed
  show ?thesis
  proof (cases "builder_fits (sn_entity s) (encoded_len f)")
    case True
    with push [OF assms(1) True assms(4)] show ?thesis by (simp add: sn_push_def)
  next
    case False
    have ne: "pend \<noteq> []"
    proof
      assume "pend = []"
      with assms(1,2) have "builder_fits (sn_entity s) (encoded_len f)"
        by (auto simp: tx_out_def builder_holds_def builder_fits_def builder_cost_def fpdu_fits_def entity_of_def)
      with False show False by simp
    qed
    obtain s1 where s1: "sn_send_entity s = (Inr (), s1)" "wr_ok s1" using sn_send_entity_ok [OF assms(1,3,4)] by blast
    note o = conjunct1 [OF sn_send_entity_out [OF assms(1) ne s1(1)]]
    with assms(2) have "builder_fits (sn_entity s1) (encoded_len f)"
      by (auto simp: tx_out_def builder_holds_def builder_fits_def builder_cost_def fpdu_fits_def entity_of_def)
    from push [OF o this s1(2)] s1(1) False show ?thesis by (simp add: sn_push_def act_then_def act_bind_def)
  qed
qed

lemma sn_push_all_ok:
  assumes "tx_out p out s fs pend" and "list_all (fpdu_fits p) gs" and "dp_max_entity p \<le> MAX_FPDU_LEN" and "wr_ok s"
  shows "\<exists>s'. act_each sn_push gs s = (Inr (), s') \<and> wr_ok s'"
  using assms(1,2,4)
proof (induction gs arbitrary: s fs pend)
  case (Cons g gs)
  then have g: "fpdu_fits p g" by simp
  obtain s1 where s1: "sn_push g s = (Inr (), s1)" "wr_ok s1" using sn_push_ok [OF Cons.prems(1) g assms(3) Cons.prems(3)] by blast
  from sn_push_out [OF Cons.prems(1) g s1(1)] obtain pend1 where "tx_out p out s1 (fs @ [g]) pend1" by blast
  from Cons.IH [OF this _ s1(2)] Cons.prems(2) s1(1) show ?case by (simp add: act_then_def act_bind_def)
qed (simp add: act_return_def)

lemma sn_flush_ok:
  assumes "tx_out p out s fs pend" and "packer_ok p (sn_packer s) held" and "dp_max_entity p \<le> MAX_FPDU_LEN" and "wr_ok s"
  shows "\<exists>s'. sn_flush_packer s = (Inr (), s') \<and> wr_ok s'"
proof -
  let ?r = "reassembler_new 0"
  have "packer_inv (sn_packer s) held" "ra_partial ?r = None" using assms(2) by (simp_all add: packer_ok_def reassembler_new_def)
  from flush_into_spec [OF this, of "[]"] obtain gs q where
    q: "packer_flush_into [] (sn_packer s) = (gs, q)" "list_all (fits_entity (ap_max_dtf_len (sn_packer s))) gs" by auto
  show ?thesis
  proof (cases gs)
    case Nil
    with q(1) assms(4) show ?thesis by (simp add: sn_flush_packer_def packer_flush_def wr_ok_def)
  next
    case (Cons g gs')
    have "fpdu_fits p (last gs)" using packer_ok_fits(1) [OF assms(2) q(2)] Cons by (auto simp: list_all_iff)
    from sn_push_ok [of p out "s\<lparr>sn_packer := q\<rparr>" fs pend, OF _ this assms(3)] assms(1,4) q(1) Cons show ?thesis
      by (simp add: sn_flush_packer_def packer_flush_def wr_ok_def)
  qed
qed

section \<open>An undisturbed sender\<close>

text \<open>
  Nothing disturbs the sender, which began in the state \<open>K\<close>: nothing is queued, the next polls of the link, one
  for each of \<open>n\<close> turns, find nothing, and what arrives later is \<open>rx\<close>.
\<close>

definition silent :: "nat \<Rightarrow> rx_event list \<Rightarrow> rx_event list \<Rightarrow> bool" where
  "silent n evs rx \<longleftrightarrow> evs = replicate n Rx_Nothing @ rx \<or> evs = [] \<and> rx = []"

definition link_core :: "link \<Rightarrow> fpdu list \<times> bool \<times> usize \<times> bool" where
  "link_core l = (lk_pending l, lk_crc l, lk_max_entity l, lk_closed l)"

definition calm :: "nat \<Rightarrow> rx_event list \<Rightarrow> conn \<Rightarrow> ('c \<Rightarrow> bool) \<Rightarrow> ('s, 'c) send_state \<Rightarrow> bool" where
  "calm k rx K live s \<longleftrightarrow> silent k (lk_rx (cn_link s)) rx \<and> link_core (cn_link s) = link_core (cn_link K) \<and>
     lk_pending (cn_link s) = [] \<and> \<not> lk_closed (cn_link s) \<and> wr_ok s \<and> cn_machine s = cn_machine K \<and> is_sending (m_state (cn_machine K)) \<and>
     list_all Not (sn_cancel s) \<and> live (sn_store s)"

lemma calm_moved:
  assumes "calm k rx K live s" and "tx_moved s s'" and "wr_ok s'"
  shows "calm k rx K live s'"
  using assms by (auto simp: calm_def tx_moved_def link_core_def)

text \<open>The machine after the end of the data.\<close>

definition after_sending :: "machine \<Rightarrow> machine" where
  "after_sending m = m\<lparr>m_state := (if m_state m = Tde02A then Tde07A else Tdl07B)\<rparr>"

lemma sending_local:
  assumes "is_sending (m_state (cn_machine s))"
  shows "apply_local L_SendData s = (Inr (), s)" and "apply_local L_Sync s = (Inr (), s)"
    and "apply_local L_DataEnd s = (Inr (), s\<lparr>cn_machine := after_sending (cn_machine s)\<rparr>)"
  using assms
  by (auto simp: is_sending_def apply_local_def act_bind_def act_on_def act_return_def machine_apply_def state_apply_def
      is_abort_def apply_Tde02A_Tdl02B_def Let_def after_sending_def recv_def)

lemma sn_put_syn_ok:
  assumes base: "tx_base p r start out s fs pend its held n" and r: "ra_partial r = None"
    and bound: "unat (cp_sync start) + n + 1 < 2 ^ 24"
    and size: "13 \<le> dp_max_entity p" "dp_max_entity p \<le> MAX_FPDU_LEN" and calm: "calm k rx K live s"
  shows "\<exists>s'. sn_put_syn p s = (Inr (), s') \<and> calm k rx K live s'"
proof -
  have b: "tx_out p out s fs pend" "packer_ok p (sn_packer s) held" "sn_sync_no s = last_sync_of (cp_sync start) its"
    "unat (last_sync_of (cp_sync start) its) \<le> unat (cp_sync start) + n"
    using base by (simp_all add: tx_base_def)
  have w: "wr_ok s" using calm by (simp add: calm_def)
  obtain s1 where s1: "sn_flush_packer s = (Inr (), s1)" "wr_ok s1" using sn_flush_ok [OF b(1,2) size(2) w] by blast
  from sn_flush_out [OF b(1,2) r s1(1)] obtain gs pend1 where
    f: "tx_out p out s1 (fs @ gs) pend1" "tx_moved s s1" by blast
  let ?n = "sn_sync_no s + 1"
  let ?s1 = "s1\<lparr>sn_sync_no := ?n\<rparr>"
  have n: "unat ?n < 2 ^ 24" using b(3,4) bound by (auto simp: unat_word_ariths)
  have fit: "fpdu_fits p (syn (dp_peer_id p) ?n)"
    using transfer_sendable(1) [OF n] transfer_lengths(1) [OF n, of "dp_peer_id p"] size(1)
    by (simp add: fpdu_fits_def CRC_LEN_def)
  have w1: "wr_ok ?s1" "tx_out p out ?s1 (fs @ gs) pend1" using s1(2) f(1) by (simp_all add: wr_ok_def)
  obtain s2 where s2: "sn_push (syn (dp_peer_id p) ?n) ?s1 = (Inr (), s2)" "wr_ok s2"
    using sn_push_ok [OF w1(2) fit size(2) w1(1)] by blast
  from sn_push_moved [OF w1(2) fit s2(1)] obtain pend2 where
    p2: "pend2 \<noteq> []" "tx_out p out s2 ((fs @ gs) @ [syn (dp_peer_id p) ?n]) pend2" "tx_moved ?s1 s2" by blast
  obtain s3 where s3: "sn_send_entity s2 = (Inr (), s3)" "wr_ok s3" using sn_send_entity_ok [OF p2(2) size(2) s2(2)] by blast
  note m = conjunct1 [OF conjunct2 [OF sn_send_entity_moved [OF p2(2,1) s3(1)]]]
  have "calm k rx K live ?s1" using calm_moved [OF calm f(2) s1(2)] by (simp add: calm_def wr_ok_def)
  from calm_moved [OF calm_moved [OF this p2(3) s2(2)] m s3(2)] have "calm k rx K live s3" .
  moreover have "sn_put_syn p s = (Inr (), s3)"
    using s1(1) s2(1) s3(1) moved_fields(6) [OF f(2)]
    by (simp add: sn_put_syn_def act_then_def act_bind_def act_modify_def act_get_def)
  ultimately show ?thesis by blast
qed

locale live_source = sending_source yields origin so
  for yields :: "'s \<Rightarrow> bytes list \<Rightarrow> bool" and origin :: "'s \<Rightarrow> 'o" and so :: "'s source_ops" +
  fixes st :: "'c store_ops" and store_live :: "'c \<Rightarrow> bool"
  assumes next_ok: "yields x as \<Longrightarrow> \<exists>r x'. so_next so x = (Inr r, x')"
    and rewind_ok: "yields x as \<Longrightarrow> \<exists>x'. so_rewind so pos x = (Inr (), x')"
    and record_ok: "store_live c \<Longrightarrow> \<exists>c'. to_record st cp c = (Inr (), c') \<and> store_live c'"
begin

lemma sn_mark_sync_ok:
  assumes "calm k rx K store_live s"
  shows "\<exists>s'. sn_mark_sync p st s = (Inr (), s') \<and> calm k rx K store_live s' \<and> sn_compressor s' = sn_compressor s"
proof -
  have m: "apply_local L_Sync s = (Inr (), s)" using sending_local(2) [of s] assms by (simp add: calm_def)
  obtain c where c: "to_record st \<lparr>cp_sync = sn_sync_no s, cp_file_offset = po_file_offset (sn_prev_pos s),
      cp_data_bytes = sn_data_bytes s, cp_articles = sn_articles s\<rparr> (sn_store s) = (Inr (), c)" "store_live c"
    using record_ok assms by (auto simp: calm_def)
  from m c assms show ?thesis
    by (simp add: sn_mark_sync_def act_then_def act_bind_def act_get_def sn_on_store_def act_on_def act_modify_def
        calm_def wr_ok_def)
qed

lemma sn_compress_ok:
  assumes "coupled m (sn_compressor s) d" and "sn_compressor s \<noteq> None \<Longrightarrow> length a \<le> max m 1" and "calm k rx K store_live s"
  shows "\<exists>w s'. sn_compress a s = (Inr w, s') \<and> calm k rx K store_live s'"
  using assms(1)
proof (cases rule: coupled_cases)
  case (2 c e)
  from in_step_article [OF 2(3), of a] assms(2) 2(1) obtain w c' where "compressor_compress a c = Some (w, c')" by auto
  with 2(1) assms(3) show ?thesis by (simp add: sn_compress_def calm_def wr_ok_def)
qed (use assms(3) in \<open>simp add: sn_compress_def\<close>)

lemma sn_wire_ok:
  assumes b: "tx_base p r start out s fs pend its held (length sent)" "coupled (ra_max_len r) (sn_compressor s) d"
    and r: "ra_partial r = None" and len: "sn_compressor s \<noteq> None \<Longrightarrow> length a \<le> max (ra_max_len r) 1"
    and bound: "unat (cp_sync start) + length sent + 1 < 2 ^ 24"
    and size: "13 \<le> dp_max_entity p" "dp_max_entity p \<le> MAX_FPDU_LEN" and calm: "calm k rx K store_live s"
  shows "\<exists>w s'. sn_wire p st a s = (Inr w, s') \<and> calm k rx K store_live s'"
proof -
  obtain w s1 where 1: "sn_compress a s = (Inr w, s1)" "calm k rx K store_live s1" using sn_compress_ok [OF b(2) len calm] by blast
  from sn_compress_coupled [OF b(2) len 1(1)] obtain c1 d1 where
    c1: "s1 = s\<lparr>sn_compressor := c1\<rparr>" "unwire d [w] = Some ([a], d1)" "coupled (ra_max_len r) c1 d1" by blast
  have "c1 \<noteq> None \<Longrightarrow> sn_compressor s \<noteq> None"
    using unwire_None [OF c1(2)] c1(3) b(2) by (auto simp: coupled_def split: option.splits)
  with len have len1: "sn_compressor s1 \<noteq> None \<Longrightarrow> length a \<le> max (ra_max_len r) 1" by (simp add: c1(1))
  have b1: "tx_base p r start out s1 fs pend its held (length sent)" using b(1) by (simp add: c1(1) tx_base_def)
  have "\<exists>w' s2. sn_sync_point p st a w s1 = (Inr w', s2) \<and> calm k rx K store_live s2"
  proof -
    obtain s2 where 2: "sn_put_syn p s1 = (Inr (), s2)" "calm k rx K store_live s2"
      using sn_put_syn_ok [OF b1 r bound size 1(2)] by blast
    have "sn_compressor s2 = sn_compressor s1" using sn_put_syn_base [OF b1 r 2(1) bound size(1)] by auto
    moreover obtain s3 where 3: "sn_mark_sync p st s2 = (Inr (), s3)" "calm k rx K store_live s3" "sn_compressor s3 = sn_compressor s2"
      using sn_mark_sync_ok [OF 2(2), of p] by blast
    ultimately have cs: "sn_compressor s3 = sn_compressor s1" by simp
    show ?thesis
    proof (cases "sn_compressor s3")
      case None
      with 2(1) 3(1,2) show ?thesis
        by (simp add: sn_sync_point_def act_then_def act_bind_def act_get_def act_return_def)
    next
      case (Some c)
      let ?s3 = "s3\<lparr>sn_compressor := Some (compressor_sync_point c)\<rparr>"
      have "coupled (ra_max_len r) (sn_compressor ?s3) d1" "calm k rx K store_live ?s3"
        using c1(1,3) cs Some 3(2) by (auto simp: coupled_def calm_def wr_ok_def in_step_sync_point split: option.splits)
      moreover have "sn_compressor s1 \<noteq> None" using cs Some by (metis option.distinct(1))
      note len1 [OF this]
      ultimately obtain w' s4 where "sn_compress a ?s3 = (Inr w', s4)" "calm k rx K store_live s4"
        using sn_compress_ok [of "ra_max_len r" ?s3 d1 a] by blast
      with 2(1) 3(1) Some show ?thesis
        by (simp add: sn_sync_point_def act_then_def act_bind_def act_get_def act_modify_def)
    qed
  qed
  with 1 show ?thesis
    by (auto simp: sn_wire_def act_bind_def act_get_def act_return_def split: option.splits)
qed

lemma sn_pack_ok:
  assumes out: "tx_out p out s fs pend" and ok: "packer_ok p (sn_packer s) held" and r: "ra_partial r = None"
    and acc: "packer_max_single (sn_packer s) < length w \<Longrightarrow> accepts r w"
    and size: "13 \<le> dp_max_entity p" "dp_max_entity p \<le> MAX_FPDU_LEN" and calm: "calm k rx K store_live s"
  shows "\<exists>s'. sn_pack w s = (Inr (), s') \<and> wr_ok s'"
proof -
  have inv: "packer_inv (sn_packer s) held" "\<not> ap_multi_article (sn_packer s) \<Longrightarrow> held = []"
    using ok by (auto simp: packer_ok_def)
  from push_spec [OF inv(1) r acc inv(2)] obtain gs q where
    q: "packer_push w (sn_packer s) = (gs, q)" "list_all (fits_entity (ap_max_dtf_len (sn_packer s))) gs" by auto
  let ?s = "s\<lparr>sn_packer := q\<rparr>"
  have o: "tx_out p out ?s fs pend" "wr_ok ?s" using out calm by (simp_all add: calm_def wr_ok_def)
  note fits = packer_ok_fits(1) [OF ok q(2)]
  obtain s1 where s1: "act_each sn_push gs ?s = (Inr (), s1)" "wr_ok s1" using sn_push_all_ok [OF o(1) fits size(2) o(2)] by blast
  from sn_push_all_out [OF o(1) fits s1(1)] obtain pend1 where "tx_out p out s1 (fs @ gs) pend1" by blast
  from sn_send_entity_ok [OF this size(2) s1(2)] q(1) s1 show ?thesis
    by (cases "builder_remaining (sn_entity s1) < HEADER_LEN + 1")
      (simp_all add: sn_pack_def act_bind_def act_then_def act_get_def act_return_def)
qed

lemma sn_article_ok:
  assumes inv: "tx_inv p r d0 start out s sent" and r: "ra_partial r = None"
    and d0: "(d0 = None) = (dp_compression p = Comp_None)" and adm: "admissible p (ra_max_len r) a"
    and bound: "unat (cp_sync start) + length sent + 1 < 2 ^ 24"
    and size: "13 \<le> dp_max_entity p" "dp_max_entity p \<le> MAX_FPDU_LEN" and calm: "calm k rx K store_live s"
  shows "\<exists>s'. sn_article p so st a s = (Inr (), s') \<and> calm k rx K store_live s'"
proof -
  from inv obtain fs pend its held d where
    b: "tx_base p r start out s fs pend its held (length sent)" "unwire d0 (wires_of its @ held) = Some (sent, d)"
      "coupled (ra_max_len r) (sn_compressor s) d"
    by (auto simp: tx_inv_def)
  have comp: "(sn_compressor s = None) = (dp_compression p = Comp_None)"
    using b(3) unwire_None [OF b(2)] d0 by (auto simp: coupled_def split: option.splits)
  then have len: "sn_compressor s \<noteq> None \<Longrightarrow> length a \<le> max (ra_max_len r) 1"
    using adm by (simp add: admissible_def)
  obtain w s2 where 2: "sn_wire p st a s = (Inr w, s2)" "calm k rx K store_live s2"
    using sn_wire_ok [OF b(1,3) r len bound size calm] by blast
  from sn_wire_base [OF b(1,3) r comp adm 2(1) bound size(1)] obtain fs' pend' its' held' where
    b2: "tx_out p out s2 fs' pend'" "packer_ok p (sn_packer s2) held'" "transmits (dp_peer_id p) r fs' its'" "length w \<le> wire_bound p a"
    by (auto simp: tx_base_def)
  have acc: "accepts r w" if "packer_max_single (sn_packer s2) < length w"
    using that adm b2(2,4) by (auto simp: accepts_def admissible_def packer_ok_def packer_max_single_def)
  obtain s3 where 3: "sn_pack w s2 = (Inr (), s3)" "wr_ok s3" using sn_pack_ok [OF b2(1,2) r acc size 2(2)] by blast
  from sn_pack_out [OF b2(1,3,2) r acc 3(1) size(1)] have "tx_moved s2 s3" by blast
  from calm_moved [OF 2(2) this 3(2)] have c3: "calm k rx K store_live s3" .
  then have m: "apply_local L_SendData s3 = (Inr (), s3)" using sending_local(1) [of s3] by (simp add: calm_def)
  from 2 3 m c3 show ?thesis
    by (simp add: sn_article_def act_bind_def act_then_def act_modify_def sn_report_def calm_def wr_ok_def)
qed

lemma send_step_calm:
  assumes calm: "calm (Suc k) rx K store_live s" and ready: "ready p r d0 start out s sent rest" and r: "ra_partial r = None"
    and d0: "(d0 = None) = (dp_compression p = Comp_None)"
    and size: "13 \<le> dp_max_entity p" "dp_max_entity p \<le> MAX_FPDU_LEN" and window: "send_window p = 0"
  shows "\<exists>s'. send_step p so st s = (Inr (if rest = [] then Tx_Eof else Tx_Continue), s') \<and> calm k rx K store_live s' \<and>
    (rest \<noteq> [] \<longrightarrow> ready p r d0 start out s' (sent @ [hd rest]) (tl rest))"
proof -
  let ?l = "(cn_link s)\<lparr>lk_rx := tl (lk_rx (cn_link s))\<rparr>"
  let ?s = "s\<lparr>cn_link := ?l, sn_cancel := tl (sn_cancel s)\<rparr>"
  have quiet: "link_try_recv (cn_link s) = (Inr None, ?l)"
    using calm by (auto simp: calm_def silent_def link_try_recv_def pop_pending_def link_next_event_def)
  have nc: "\<not> (case sn_cancel s of [] \<Rightarrow> False | c # _ \<Rightarrow> c)" "list_all Not (tl (sn_cancel s))"
    using calm by (cases "sn_cancel s"; auto simp: calm_def)+
  have y: "yields (sn_source s) rest" using ready by (simp add: ready_def)
  obtain a x where x: "so_next so (sn_source s) = (Inr a, x)" using next_ok [OF y] by blast
  let ?s2 = "?s\<lparr>sn_source := x\<rparr>"
  have c2: "calm k rx K store_live ?s2" using calm nc(2) by (auto simp: calm_def wr_ok_def link_core_def silent_def)
  have step: "send_step p so st s = (case a of None \<Rightarrow> act_return Tx_Eof
      | Some article \<Rightarrow> act_then (sn_article p so st article) (act_return Tx_Continue)) ?s2"
    using quiet nc(1) window x
    by (simp add: send_step_def act_bind_def on_link_def act_get_def sn_on_source_def act_on_def)
  show ?thesis
  proof (cases rest)
    case Nil
    with next_none y x have "a = None" by blast
    with step Nil c2 show ?thesis by (simp add: act_return_def)
  next
    case (Cons b bs)
    with next_some y x have a: "a = Some b" by blast
    have "no_resyn (cn_link s) \<Longrightarrow> no_resyn ?l" by (cases "lk_rx (cn_link s)") (auto simp: no_resyn_def)
    then have "ready p r d0 start out (s\<lparr>cn_link := ?l\<rparr>) sent rest"
      using ready_link [OF ready, of ?l] ready by (auto simp: ready_def)
    then have rd: "ready p r d0 start out ?s sent rest" by (simp add: ready_def)
    then have "tx_inv p r d0 start out ?s2 sent" "admissible p (ra_max_len r) b" "unat (cp_sync start) + length sent + 1 < 2 ^ 24"
      using Cons by (auto simp: ready_def)
    then obtain s' where s': "sn_article p so st b ?s2 = (Inr (), s')" "calm k rx K store_live s'"
      using sn_article_ok [OF _ r d0 _ _ size c2] by blast
    have "sn_on_source (so_next so) ?s = (Inr (Some b), ?s2)" using x a by (simp add: sn_on_source_def act_on_def)
    with rd have "ready p r d0 start out s' (sent @ [b]) bs"
      using send_article_ready [OF _ s'(1) _ r d0 size(1)] Cons by blast
    with s' step a Cons show ?thesis by (simp add: act_then_def act_bind_def act_return_def)
  qed
qed

lemma sn_finish_ok:
  assumes inv: "tx_inv p r d0 start out s sent" and r: "ra_partial r = None"
    and size: "13 \<le> dp_max_entity p" "dp_max_entity p \<le> MAX_FPDU_LEN" and calm: "calm k rx K store_live s"
  shows "\<exists>s'. sn_finish p s = (Inr (), s') \<and> lk_rx (cn_link s') = lk_rx (cn_link s) \<and>
    link_core (cn_link s') = link_core (cn_link K) \<and> wr_ok s' \<and> cn_machine s' = after_sending (cn_machine K) \<and>
    store_live (sn_store s')"
proof -
  from inv obtain fs pend held where b: "tx_out p out s fs pend" "packer_ok p (sn_packer s) held"
    by (auto simp: tx_inv_def tx_base_def)
  have w: "wr_ok s" using calm by (simp add: calm_def)
  obtain s1 where s1: "sn_flush_packer s = (Inr (), s1)" "wr_ok s1" using sn_flush_ok [OF b size(2) w] by blast
  from sn_flush_out [OF b r s1(1)] obtain gs pend1 where f: "tx_out p out s1 (fs @ gs) pend1" "tx_moved s s1" by blast
  have fit: "fpdu_fits p (dtf_end (dp_peer_id p) D_OK)"
    using transfer_sendable(3) transfer_lengths(2) [of "dp_peer_id p" D_OK] size(1) by (simp add: fpdu_fits_def CRC_LEN_def)
  obtain s2 where s2: "sn_push (dtf_end (dp_peer_id p) D_OK) s1 = (Inr (), s2)" "wr_ok s2"
    using sn_push_ok [OF f(1) fit size(2) s1(2)] by blast
  from sn_push_moved [OF f(1) fit s2(1)] obtain pend2 where
    p2: "pend2 \<noteq> []" "tx_out p out s2 ((fs @ gs) @ [dtf_end (dp_peer_id p) D_OK]) pend2" "tx_moved s1 s2" by blast
  obtain s3 where s3: "sn_send_entity s2 = (Inr (), s3)" "wr_ok s3" using sn_send_entity_ok [OF p2(2) size(2) s2(2)] by blast
  note m = conjunct1 [OF conjunct2 [OF sn_send_entity_moved [OF p2(2,1) s3(1)]]]
  have c: "calm k rx K store_live s3"
    by (rule calm_moved [OF calm_moved [OF calm_moved [OF calm f(2) s1(2)] p2(3) s2(2)] m s3(2)])
  have rx: "lk_rx (cn_link s3) = lk_rx (cn_link s)"
    using tx_moved_trans [OF tx_moved_trans [OF f(2) p2(3)] m] by (auto simp: tx_moved_def)
  from c have "apply_local L_DataEnd s3 = (Inr (), s3\<lparr>cn_machine := after_sending (cn_machine K)\<rparr>)"
    using sending_local(3) [of s3] by (simp add: calm_def)
  with s1(1) s2(1) s3(1) c rx show ?thesis
    by (simp add: sn_finish_def act_then_def act_bind_def sn_report_def act_modify_def calm_def wr_ok_def)
qed

text \<open>How an undisturbed phase that began in \<open>K\<close> leaves the session.\<close>

definition phase_done :: "rx_event list \<Rightarrow> conn \<Rightarrow> ('s, 'c) send_state \<Rightarrow> bool" where
  "phase_done rx K s \<longleftrightarrow> lk_rx (cn_link s) = rx \<and> link_core (cn_link s) = link_core (cn_link K) \<and> wr_ok s \<and>
     cn_machine s = after_sending (cn_machine K) \<and> store_live (sn_store s)"

lemma send_loop_completes:
  assumes "calm (Suc (length rest)) rx K store_live s" and "ready p r d0 start out s sent rest" and "length rest < n" and "ra_partial r = None"
    and "(d0 = None) = (dp_compression p = Comp_None)"
    and "13 \<le> dp_max_entity p" "dp_max_entity p \<le> MAX_FPDU_LEN" and "send_window p = 0"
  shows "\<exists>res s'. send_loop n p so st s = Some (Inr res, s') \<and> dr_end res = Completed \<and> phase_done rx K s'"
  using assms(1-3)
proof (induction n arbitrary: s sent rest)
  case (Suc n)
  obtain s1 where s1: "send_step p so st s = (Inr (if rest = [] then Tx_Eof else Tx_Continue), s1)"
      "calm (length rest) rx K store_live s1"
      "rest \<noteq> [] \<longrightarrow> ready p r d0 start out s1 (sent @ [hd rest]) (tl rest)"
    using send_step_calm [OF Suc.prems(1,2) assms(4-8)] by blast
  show ?case
  proof (cases "rest = []")
    case True
    with send_step_ready [OF s1(1) Suc.prems(2) assms(4-6)] have "tx_inv p r d0 start out s1 sent" by simp
    from sn_finish_ok [OF this assms(4,6,7) s1(2)] obtain s2 where
      "sn_finish p s1 = (Inr (), s2)" "lk_rx (cn_link s2) = lk_rx (cn_link s1)" "link_core (cn_link s2) = link_core (cn_link K)"
      "wr_ok s2" "cn_machine s2 = after_sending (cn_machine K)" "store_live (sn_store s2)" by blast
    with s1(1,2) True show ?thesis by (auto simp: act_bind_def sn_result_def phase_done_def calm_def silent_def)
  next
    case False
    then obtain a as where rest: "rest = a # as" by (cases rest) auto
    with Suc.IH [of as s1 "sent @ [a]"] s1 Suc.prems(3) show ?thesis by simp
  qed
qed simp

lemma send_data_completes:
  assumes y: "yields src as" and pos: "position_of start = so_position so src"
    and "list_all (admissible p (dp_max_article p)) as" and "unat (cp_sync start) + length as < 2 ^ 24"
    and link: "silent (Suc (length as)) (lk_rx (cn_link c)) rx" "lk_pending (cn_link c) = []" "\<not> lk_closed (cn_link c)"
      "script_ok (wr_script (lk_writer (cn_link c)))" "dp_resync p \<Longrightarrow> no_resyn (cn_link c)"
    and fr: "wr_framing (lk_writer (cn_link c)) = LengthPrefixed" and "is_sending (m_state (cn_machine c))"
    and size: "13 \<le> dp_max_entity p" "dp_max_entity p \<le> MAX_FPDU_LEN" and "send_window p = 0"
    and "list_all Not cancel" and "store_live store" and "length as < fuel"
  shows "\<exists>res s'. send_data fuel p so st start c src store cancel = Some (Inr res, s') \<and> dr_end res = Completed \<and> phase_done rx c s'"
proof -
  let ?s = "send_init p so start c src store cancel"
  obtain x where x: "so_rewind so (position_of start) src = (Inr (), x)" using rewind_ok [OF y] by blast
  let ?s1 = "?s\<lparr>sn_source := x, sn_prev_pos := so_position so x\<rparr>"
  have "yields x as" using rewind_yields [OF y y refl] x pos by simp
  with send_init_inv [OF fr size, of start src store cancel] assms(3,4) link
  have rd: "ready p (reassembler_new (dp_max_article p)) (receiver_decompressor p) start (wr_out (lk_writer (cn_link c))) ?s1 [] as"
    by (simp add: ready_def reassembler_new_def) (simp add: send_init_def conn.defs)
  have cm: "calm (Suc (length as)) rx c store_live ?s1"
    using link assms(11,15,16) by (simp add: calm_def wr_ok_def send_init_def conn.defs)
  have ra: "ra_partial (reassembler_new (dp_max_article p)) = None" by (simp add: reassembler_new_def)
  have d: "(receiver_decompressor p = None) = (dp_compression p = Comp_None)" by (simp add: receiver_decompressor_def)
  obtain res s' where "send_loop fuel p so st ?s1 = Some (Inr res, s')" "dr_end res = Completed" "phase_done rx c s'"
    using send_loop_completes [OF cm rd assms(17) ra d size assms(14)] by blast
  moreover have "send_data fuel p so st start c src store cancel = send_loop fuel p so st ?s1"
    using x by (simp add: send_data_def sn_on_source_def act_on_def) (simp add: send_init_def conn.defs)
  ultimately show ?thesis by metis
qed

end

section \<open>The sources of the development\<close>

lemma file_next_live:
  assumes "file_yields s as"
  shows "\<exists>r s'. source_next s = (Inr r, s')"
proof -
  have "next_spec s (source_next s)" using source_next_ok assms by (metis file_yields_def)
  with file_yields_step [OF assms] show ?thesis by (cases "source_next s") (auto simp: next_spec_def)
qed

interpretation file_live: live_source file_yields file_origin file_source_ops memory_store_ops "\<lambda>_. True"
proof
  show "\<exists>r x'. so_next file_source_ops x = (Inr r, x')" if "file_yields x as" for x as
    using file_next_live [OF that] by (simp add: file_source_ops_def)
  show "\<exists>x'. so_rewind file_source_ops pos x = (Inr (), x')" if "file_yields x as" for x as pos
    using file_yields_rewind_ok [OF that] by (simp add: file_source_ops_def)
qed (use memory_record_ok in simp)

interpretation vec_live: live_source vec_yields vs_articles vec_source_ops memory_store_ops "\<lambda>_. True"
  using memory_record_ok
  by unfold_locales (auto simp: vec_source_ops_def vec_next_def vec_rewind_def Let_def)

lemma file_open_yields:
  assumes "source_open (Inr data) fmt rl script = Inr src" and "script_ok script" and "length data < 2 ^ 64"
    and "run_cutter (cutter_new fmt rl) [data] = (as, None)"
  shows "file_yields (source_with_ebcdic e src) (map (on_wire (source_with_ebcdic e src)) as)"
    and "position_of checkpoint_default = so_position file_source_ops (source_with_ebcdic e src)"
proof -
  have "cut_file fmt (max rl 1) data = (as, None)" using assms(4) by (simp add: cutter_new_run)
  with source_open_ok [OF assms(1-3)] show "file_yields (source_with_ebcdic e src) (map (on_wire (source_with_ebcdic e src)) as)"
    by (simp add: file_yields_def)
  show "position_of checkpoint_default = so_position file_source_ops (source_with_ebcdic e src)"
    using assms(1)
    by (auto simp: source_open_def and_then_eq_Inr source_with_ebcdic_def file_source_ops_def source_position_def
        position_of_def checkpoint_default_def position_default_def)
qed

lemma admissible_wire: "list_all (admissible p m) as \<Longrightarrow> list_all (admissible p m) (map (on_wire s) as)"
  using admissible_length [of "on_wire s _"] by (auto simp: list_all_iff on_wire_def)

lemma file_send_completes:
  assumes "source_open (Inr data) fmt rl script = Inr src" and "script_ok script" and "length data < 2 ^ 64"
    and "run_cutter (cutter_new fmt rl) [data] = (as, None)"
    and "list_all (admissible p (dp_max_article p)) as" and "length as < 2 ^ 24"
    and "silent (Suc (length as)) (lk_rx (cn_link c)) rx" and "lk_pending (cn_link c) = []" and "\<not> lk_closed (cn_link c)"
    and "script_ok (wr_script (lk_writer (cn_link c)))" and "dp_resync p \<Longrightarrow> no_resyn (cn_link c)"
    and "wr_framing (lk_writer (cn_link c)) = LengthPrefixed" and "is_sending (m_state (cn_machine c))"
    and "13 \<le> dp_max_entity p" and "dp_max_entity p \<le> MAX_FPDU_LEN" and "send_window p = 0"
    and "list_all Not cancel" and "length as < fuel"
  shows "\<exists>res s. send_data fuel p file_source_ops memory_store_ops checkpoint_default c (source_with_ebcdic e src) store cancel =
    Some (Inr res, s) \<and> dr_end res = Completed \<and> file_live.phase_done rx c s"
proof -
  note y = file_open_yields [OF assms(1-4), of e]
  let ?as = "map (on_wire (source_with_ebcdic e src)) as"
  have n: "unat (cp_sync checkpoint_default) + length ?as < 2 ^ 24" "length ?as < fuel"
    "silent (Suc (length ?as)) (lk_rx (cn_link c)) rx"
    using assms(6,7,18) by (simp_all add: checkpoint_default_def)
  show ?thesis
    by (rule file_live.send_data_completes [OF y admissible_wire [OF assms(5)] n(1,3) assms(8-15) assms(16,17) _ n(2)]) simp_all
qed

section \<open>Whole transfers\<close>

definition sample_params :: data_params where
  "sample_params = \<lparr>dp_peer_id = 7, dp_sync = \<lparr>interval_kb = 36, so_window = 0\<rparr>, dp_resync = False,
     dp_compression = Comp_Mixed, dp_crc = True, dp_max_entity = 1024, dp_multi_article = True, dp_max_article = 80,
     dp_role = Requester\<rparr>"

definition sample_sender :: conn where
  "sample_sender = \<lparr>cn_link = link_new \<lparr>wr_out = [], wr_script = [], wr_framing = LengthPrefixed\<rparr> [],
     cn_machine = \<lparr>m_role = Requester, m_state = Tde02A\<rparr>\<rparr>"

definition sample_receiver :: "bytes \<Rightarrow> conn" where
  "sample_receiver stream = \<lparr>cn_link = set_crc True (link_new \<lparr>wr_out = [], wr_script = [], wr_framing = LengthPrefixed\<rparr>
       (reader_task \<lparr>rd_inner = stream, rd_end = None, rd_framing = LengthPrefixed, rd_crc = True, rd_max_len = 65535,
          rd_first = False, rd_probe_crc = False\<rparr>)),
     cn_machine = \<lparr>m_role = Server, m_state = Tde02B\<rparr>\<rparr>"

lemmas sample_defs = sample_params_def sample_sender_def sample_receiver_def link_new_def set_crc_def

text \<open>C5: an undisturbed transfer completes. When the file can be read, the connection takes what is
  written, nothing arrives, nobody cancels and no acknowledgement has to be waited for, sending a file
  whose articles are within the negotiated limits ends with the result Completed after one turn of the
  loop per article and one more.\<close>

theorem undisturbed_send_completes:
  assumes "source_open (Inr data) fmt rl script = Inr src" and "script_ok script" and "length data < 2 ^ 64"
    and "run_cutter (cutter_new fmt rl) [data] = (as, None)"
    and "list_all (admissible p (dp_max_article p)) as" and "length as < 2 ^ 24"
    and "lk_rx (cn_link c) = []" and "lk_pending (cn_link c) = []" and "\<not> lk_closed (cn_link c)"
    and "script_ok (wr_script (lk_writer (cn_link c)))"
    and "wr_framing (lk_writer (cn_link c)) = LengthPrefixed" and "is_sending (m_state (cn_machine c))"
    and "13 \<le> dp_max_entity p" and "dp_max_entity p \<le> MAX_FPDU_LEN" and "send_window p = 0"
    and "list_all Not cancel"
  shows "\<exists>res s. send_data (length as + 1) p file_source_ops memory_store_ops checkpoint_default c
    (source_with_ebcdic e src) store cancel = Some (Inr res, s) \<and> dr_end res = Completed"
proof -
  have "silent (Suc (length as)) (lk_rx (cn_link c)) []" "no_resyn (cn_link c)"
    using assms(7,8) by (simp_all add: silent_def no_resyn_def)
  then show ?thesis using file_send_completes [OF assms(1-6) _ assms(8-10) _ assms(11-16), of "[]" "length as + 1" e store] by auto
qed

lemma sample_cut: "run_cutter (cutter_new Bu 2) [[1, 2, 3, 4, 5]] = ([[1, 2], [3, 4], [5]], None)"
  by code_simp

lemma sample_admissible: "list_all (admissible sample_params (dp_max_article sample_params)) [[1, 2], [3, 4], [5]]"
  by (simp add: admissible_def wire_bound_def sample_params_def)

lemma sample_open: "\<exists>src. source_open (Inr [1, 2, 3, 4, 5]) Bu 2 [] = Inr src"
  by (simp add: source_open_def map_err_def os_call_def)

lemmas sample_simps = script_ok_def is_sending_def send_window_def MAX_FPDU_LEN_def sample_defs

theorem undisturbed_send_completes_witness:
  "\<exists>src res s. source_open (Inr [1, 2, 3, 4, 5]) Bu 2 [] = Inr src \<and>
     send_data (length [[1, 2], [3, 4], [5 :: u8]] + 1) sample_params file_source_ops memory_store_ops checkpoint_default sample_sender
       (source_with_ebcdic True src) mc_new [] = Some (Inr res, s) \<and> dr_end res = Completed"
proof -
  obtain src where src: "source_open (Inr [1, 2, 3, 4, 5]) Bu 2 [] = Inr src" using sample_open by blast
  from undisturbed_send_completes [OF src _ _ sample_cut sample_admissible, of sample_sender "[]" True mc_new] src
  show ?thesis by (simp add: sample_simps)
qed

text \<open>C4: a file goes through the whole stack unchanged. A sender reads a file without format error
  through a file source, translates and compresses its articles as negotiated, packs them into data
  FPDUs with synchronisation points between them, and writes entities to the stream; whatever arrives
  from the peer meanwhile (if resynchronisation was negotiated, no RESYN), let the phase complete. A
  receiver that reads this stream, with the same compression, error control and article limit, then
  completes as well with exactly the same result: byte and article counts and last synchronisation
  point. Its file sink, once finished, holds the articles of the file under the final name.\<close>

theorem file_transfer:
  assumes "source_open (Inr data) fmt rl script = Inr src" and "script_ok script" and "length data < 2 ^ 64"
    and "run_cutter (cutter_new fmt rl) [data] = (as, None)"
    and "send_data fuel p file_source_ops st checkpoint_default c (source_with_ebcdic e src) store cancel = Some (Inr res, s)"
    and "dr_end res = Completed"
    and "wr_framing (lk_writer (cn_link c)) = LengthPrefixed" and "dp_resync p \<Longrightarrow> no_resyn (cn_link c)"
    and "13 \<le> dp_max_entity p" and "dp_max_entity p \<le> MAX_FPDU_LEN"
    and "list_all (admissible p (dp_max_article p)) as" and "length as < 2 ^ 24"
    and "dp_compression q = dp_compression p" and "dp_max_article q = dp_max_article p"
    and "reads_from (cn_link c') (lk_writer (cn_link s)) (length (wr_out (lk_writer (cn_link c))))"
    and "lk_crc (cn_link c') = dp_crc p" and "script_ok (wr_script (lk_writer (cn_link c')))" and "receiving (cn_machine c')"
    and "sink_create part final fmt None script' = (Inr (), k)" and "script_ok script'"
    and "length (concat (map (article_to_bytes fmt) as)) < 2 ^ 64"
  shows "\<exists>s' k'. receive_data q file_sink_ops memory_store_ops checkpoint_default c' (sink_with_ebcdic e k) cps [] = (Inr res, s') \<and>
    sink_finish (rv_sink s') = (Inr (), k') \<and> fw_final k' = Some (concat (map (article_to_bytes fmt) as))"
proof -
  let ?src = "source_with_ebcdic e src"
  let ?ws = "map (on_wire ?src) as"
  let ?k = "sink_with_ebcdic e k"
  note y = file_open_yields [OF assms(1-4), of e]
  note adm = admissible_wire [OF assms(11), of ?src]
  from file_sending.send_data_done [OF assms(5,6) y adm _ assms(8,7,9,10)] assms(12)
  obtain fs its d where d: "tx_out p (wr_out (lk_writer (cn_link c))) s (fs @ [dtf_end (dp_peer_id p) D_OK]) []"
      "transmits (dp_peer_id p) (reassembler_new (dp_max_article p)) fs its"
      "unwire (receiver_decompressor p) (wires_of its) = Some (?ws, d)"
      "res = \<lparr>dr_end = Completed,
          dr_data_bytes = cp_data_bytes checkpoint_default + word_of_nat (sum_list (map length (wires_of its))),
          dr_articles = cp_articles checkpoint_default + word_of_nat (length (wires_of its)),
          dr_last_sync = last_sync_of (cp_sync checkpoint_default) its\<rparr>"
    by (auto simp: tx_done_def checkpoint_default_def)
  have k: "sink_holds ?k []" "fw_format ?k = fmt" "fw_ebcdic ?k = e" "script_ok (fw_script ?k)"
    using file_create_holds [OF assms(19)] runs_create [OF assms(20), of part final fmt None] assms(19)
    by (simp_all add: sink_with_ebcdic_def sink_holds_def sink_bytes_def sink_pos_def sink_room_def runs_def)
  have dl: "delivers (cn_link c') (fs @ [dtf_end (dp_peer_id p) D_OK])"
    by (rule tx_done_delivers [OF d(1) assms(15,16,10)])
  have ok: "file_receiving.rv_ok q (recv_init q checkpoint_default c' ?k cps []) (fs @ [dtf_end (dp_peer_id p) D_OK]) []
      (recv_init q checkpoint_default c' ?k cps [])"
    unfolding file_receiving.rv_ok_def using dl assms(17,18) k by (simp add: recv_init_def conn.defs)
  have "off_wire ?k (on_wire ?src a) = a" for a
    by (simp add: off_wire_def on_wire_def k(3) source_with_ebcdic_def)
  then have bytes: "sink_bytes ?k ?ws = concat (map (article_to_bytes fmt) as)"
    by (simp add: sink_bytes_def k(2) comp_def)
  then have room: "sink_room ?k ([] @ ?ws)" using assms(21) by (simp add: sink_room_def)
  have q: "receiver_decompressor q = receiver_decompressor p" using assms(13,14) by (simp add: receiver_decompressor_def)
  from file_receiving.receive_data_done [OF d(2) [folded assms(14)] _ ok room] d(3,4) q obtain s' where
    r: "receive_data q file_sink_ops memory_store_ops checkpoint_default c' ?k cps [] = (Inr res, s')"
      "file_receiving.rv_ended q s' [] ?ws (recv_init q checkpoint_default c' ?k cps [])" by auto
  have "rv_sink (recv_init q checkpoint_default c' ?k cps []) = ?k" by (simp add: recv_init_def conn.defs)
  with r(2) have s': "sink_holds (rv_sink s') ?ws" "script_ok (fw_script (rv_sink s'))"
      "fw_format (rv_sink s') = fw_format ?k" "fw_ebcdic (rv_sink s') = fw_ebcdic ?k"
    by (simp_all add: file_receiving.rv_ended_def)
  obtain k' where k': "sink_finish (rv_sink s') = (Inr (), k')" using runs_finish [OF s'(2)] by (auto simp: runs_def)
  have "sink_bytes (rv_sink s') ?ws = sink_bytes ?k ?ws"
    using s'(3,4) by (simp add: sink_bytes_def off_wire_def)
  with file_finish_holds [OF s'(1) k'] bytes have "fw_final k' = Some (concat (map (article_to_bytes fmt) as))" by simp
  with r(1) k' show ?thesis by blast
qed

theorem file_transfer_witness:
  "\<exists>src k res s s' k'. source_open (Inr [1, 2, 3, 4, 5]) Bu 2 [] = Inr src \<and> sink_create None None Bu None [] = (Inr (), k) \<and>
     send_data 4 sample_params file_source_ops memory_store_ops checkpoint_default sample_sender
       (source_with_ebcdic True src) mc_new [] = Some (Inr res, s) \<and>
     receive_data sample_params file_sink_ops memory_store_ops checkpoint_default
       (sample_receiver (wr_out (lk_writer (cn_link s)))) (sink_with_ebcdic True k) mc_new [] = (Inr res, s') \<and>
     sink_finish (rv_sink s') = (Inr (), k') \<and> fw_final k' = Some [1, 2, 3, 4, 5]"
proof -
  obtain src where src: "source_open (Inr [1, 2, 3, 4, 5]) Bu 2 [] = Inr src" using sample_open by blast
  obtain k where k: "sink_create None None Bu None [] = (Inr (), k)"
    using runs_create [of "[]" None None Bu None] by (auto simp: runs_def script_ok_def)
  from file_send_completes [OF src _ _ sample_cut sample_admissible, of sample_sender "[]" "[]" 4 True mc_new]
  obtain res s where s: "send_data 4 sample_params file_source_ops memory_store_ops checkpoint_default sample_sender
       (source_with_ebcdic True src) mc_new [] = Some (Inr res, s)" "dr_end res = Completed"
    by (auto simp: sample_simps silent_def)
  let ?c = "sample_receiver (wr_out (lk_writer (cn_link s)))"
  have reads: "reads_from (cn_link ?c) (lk_writer (cn_link s)) (length (wr_out (lk_writer (cn_link sample_sender))))"
    by (auto simp: reads_from_def sample_defs
        intro!: exI [where x = "\<lparr>rd_inner = _, rd_end = None, rd_framing = LengthPrefixed, rd_crc = True, rd_max_len = 65535,
          rd_first = False, rd_probe_crc = False\<rparr>"])
  have same: "concat (map (article_to_bytes Bu) [[1, 2], [3, 4], [5]]) = [1, 2, 3, 4, 5]" by code_simp
  have rest: "script_ok []" "length ([1, 2, 3, 4, 5] :: bytes) < 2 ^ 64" "wr_framing (lk_writer (cn_link sample_sender)) = LengthPrefixed"
    "dp_resync sample_params \<Longrightarrow> no_resyn (cn_link sample_sender)" "13 \<le> dp_max_entity sample_params"
    "dp_max_entity sample_params \<le> MAX_FPDU_LEN" "length [[1, 2], [3, 4], [5 :: u8]] < 2 ^ 24"
    "lk_crc (cn_link ?c) = dp_crc sample_params" "script_ok (wr_script (lk_writer (cn_link ?c)))" "receiving (cn_machine ?c)"
    "length (concat (map (article_to_bytes Bu) [[1, 2], [3, 4], [5]])) < 2 ^ 64"
    unfolding same by (simp_all add: sample_simps receiving_def is_receiving_def)
  note t = file_transfer [OF src rest(1,2) sample_cut s rest(3-6) sample_admissible rest(7) refl refl reads rest(8-10) k rest(1,11)]
  from t [of mc_new] src k s(1) show ?thesis unfolding same by blast
qed

end
