(* ===== verification/Requester_Session.thy ===== *)
theory Requester_Session
  imports Datapath Builder Ebcdic
begin

text \<open>
  \<^verbatim>\<open>crates/pesit-io/src/requester.rs\<close>: the requester side of a session. The state of a session extends
  the link and the machine; during a transfer it is extended by the source or sink and the checkpoint
  store the caller lends. Operations around the sending loop, which takes fuel, are partial actions:
  \<open>None\<close> means that the fuel does not suffice. Time limits are events of the link.
\<close>

section \<open>Partial actions\<close>

type_synonym ('s, 'a) pact = "'s \<Rightarrow> ((session_error, 'a) result \<times> 's) option"

definition pact_of :: "('s, 'a) act \<Rightarrow> ('s, 'a) pact" where
  "pact_of m s = Some (m s)"

definition pact_bind :: "('s, 'a) pact \<Rightarrow> ('a \<Rightarrow> ('s, 'b) pact) \<Rightarrow> ('s, 'b) pact" where
  "pact_bind m f s =
     (case m s of
        None \<Rightarrow> None
      | Some (Inl e, s') \<Rightarrow> Some (Inl e, s')
      | Some (Inr x, s') \<Rightarrow> f x s')"

definition act_pbind :: "('s, 'a) act \<Rightarrow> ('a \<Rightarrow> ('s, 'b) pact) \<Rightarrow> ('s, 'b) pact" where
  "act_pbind m f = pact_bind (pact_of m) f"

lemma act_pbind_eq: "act_pbind m f s = (case m s of (Inl e, s') \<Rightarrow> Some (Inl e, s') | (Inr x, s') \<Rightarrow> f x s')"
  by (simp add: act_pbind_def pact_bind_def pact_of_def)

lemma pact_bind_eq_Inr:
  "pact_bind m f s = Some (Inr y, s') \<longleftrightarrow> (\<exists>x s1. m s = Some (Inr x, s1) \<and> f x s1 = Some (Inr y, s'))"
  by (auto simp: pact_bind_def split: option.splits sum.splits)

lemma act_pbind_eq_Inr:
  "act_pbind m f s = Some (Inr y, s') \<longleftrightarrow> (\<exists>x s1. m s = (Inr x, s1) \<and> f x s1 = Some (Inr y, s'))"
  by (auto simp: act_pbind_eq split: prod.splits sum.splits)

section \<open>Configuration and results\<close>

record preconnect =
  pc_identifier :: rstring
  pc_password :: rstring

record requester_config =
  rc_requester_id :: rstring
  rc_server_id :: rstring
  rc_password :: "rstring option"
  rc_version :: pesit_version
  rc_sync :: sync_option
  rc_resync :: bool
  rc_crc :: bool
  rc_compression :: compression
  rc_max_entity :: u16
  rc_multi_article :: bool
  rc_preconnect :: "preconnect option"
  rc_free_message :: "rstring option"
  rc_access :: access_type

definition requester_config_default :: requester_config where
  "requester_config_default = \<lparr>rc_requester_id = [], rc_server_id = [], rc_password = None, rc_version = Version_E,
     rc_sync = \<lparr>interval_kb = 32, so_window = 4\<rparr>, rc_resync = True, rc_crc = False, rc_compression = Comp_None,
     rc_max_entity = 0xFFFF, rc_multi_article = True, rc_preconnect = None, rc_free_message = None,
     rc_access = Access_Mixed\<rparr>"

record negotiated =
  ng_version :: pesit_version
  ng_sync :: sync_option
  ng_resync :: bool
  ng_crc :: bool

record transfer_spec =
  ts_file :: file_spec
  ts_restart :: "checkpoint option"

record transfer_outcome =
  ot_transfer_id :: u32
  ot_data :: data_result
  ot_remote :: file_spec
  ot_started_from :: checkpoint
  ot_diag :: diagnostic

definition is_complete :: "transfer_outcome \<Rightarrow> bool" where
  "is_complete o' \<longleftrightarrow> dr_end (ot_data o') = Completed \<and> diag_is_ok (ot_diag o')"

record message_outcome =
  mo_diag :: diagnostic
  mo_reply :: "bytes option"

record requester = conn +
  rq_cfg :: requester_config
  rq_my_id :: u8
  rq_peer_id :: u8
  rq_negotiated :: negotiated
  rq_max_entity :: usize

section \<open>Connection\<close>

definition receive_event :: "fpdu_kind \<Rightarrow> bool \<Rightarrow> ('x conn_scheme, bool) act" where
  "receive_event k negative s =
     (case machine_apply (Received k negative) (cn_machine s) of
        (Inl _, m) \<Rightarrow> (Inl (S_Protocol (m_state m) k), s\<lparr>cn_machine := m\<rparr>)
      | (Inr ignored, m) \<Rightarrow> (Inr ignored, s\<lparr>cn_machine := m\<rparr>))"

definition quiet_event :: "event \<Rightarrow> ('x conn_scheme, unit) act" where
  \<comment> \<open>\<^verbatim>\<open>machine.apply(..).ok()\<close>\<close>
  "quiet_event e = act_modify (\<lambda>s. s\<lparr>cn_machine := snd (machine_apply e (cn_machine s))\<rparr>)"

definition aborted_by :: "fpdu \<Rightarrow> session_error" where
  "aborted_by f = S_Aborted (diag_or_ok f) (fpdu_get_text f Pi_FreeMessage)"

definition rq_preconnect :: "requester_config \<Rightarrow> (conn, unit) act" where
  "rq_preconnect cfg =
     (case rc_preconnect cfg of
        None \<Rightarrow> act_return ()
      | Some pc \<Rightarrow>
         act_then (on_link (link_send_entity (preconnect_message (pc_identifier pc) (pc_password pc))))
         (act_bind (on_link link_recv_entity) (\<lambda>reply.
          if length reply < length PRECONNECT_ACK \<or> take 4 reply \<noteq> PRECONNECT_ACK
          then act_fail S_PreconnectRefused else act_return ())))"

definition rq_connect_fpdu :: "requester_config \<Rightarrow> fpdu" where
  "rq_connect_fpdu cfg =
     connect_build \<lparr>cp_requester = rc_requester_id cfg, cp_server = rc_server_id cfg, cp_password = rc_password cfg,
       cp_version = rc_version cfg, connect_params.cp_sync = rc_sync cfg, cp_access = rc_access cfg,
       cp_resync = rc_resync cfg, cp_crc = rc_crc cfg, cp_timeout = None, cp_free_message = rc_free_message cfg\<rparr> 1"

definition rq_connect_reply :: "fpdu \<Rightarrow> ('x conn_scheme, unit) act" where
  "rq_connect_reply reply =
     (if f_kind reply = K_Aconnect then act_then (receive_event K_Aconnect False) (act_return ())
      else if f_kind reply = K_Rconnect then
        act_then (quiet_event (Received K_Rconnect False))
          (act_fail (S_Refused K_Connect (diag_or_ok reply) (fpdu_get_text reply Pi_FreeMessage)))
      else if f_kind reply = K_Abort then act_fail (aborted_by reply)
      else act_bind act_get (\<lambda>s. act_fail (S_Protocol (m_state (cn_machine s)) (f_kind reply))))"

definition rq_negotiate :: "requester_config \<Rightarrow> fpdu \<Rightarrow> negotiated" where
  "rq_negotiate cfg reply =
     \<lparr>ng_version = unwrap_or (rc_version cfg) (get_version reply),
      ng_sync = sync_negotiate (rc_sync cfg) (unwrap_or SYNC_NONE (get_sync_option reply)),
      ng_resync = (rc_resync cfg \<and> unwrap_or 0 (fpdu_get_num reply Pi_Resync) = 1),
      ng_crc = rc_crc cfg\<rparr>"

definition requester_connect :: "requester_config \<Rightarrow> (conn, requester) act" where
  "requester_connect cfg =
     act_then (rq_preconnect cfg)
     (act_then (act_modify (\<lambda>s. s\<lparr>cn_link := set_crc (rc_crc cfg) (cn_link s)\<rparr>))
     (act_then (apply_local L_Connect)
     (act_then (conn_send (rq_connect_fpdu cfg))
     (act_bind conn_recv (\<lambda>reply.
      act_then (rq_connect_reply reply)
      (act_bind act_get (\<lambda>s.
       act_return (conn.extend s \<lparr>rq_cfg = cfg, rq_my_id = 1, rq_peer_id = id_src reply,
         rq_negotiated = rq_negotiate cfg reply, rq_max_entity = unat (rc_max_entity cfg)\<rparr>))))))))"

text \<open>\<^verbatim>\<open>Requester::connect\<close> on a connected stream: the writer of the stream and what its reader task queues.\<close>

definition requester_open :: "frame_writer \<Rightarrow> rx_event list \<Rightarrow> requester_config \<Rightarrow> (session_error, requester) result" where
  "requester_open w rx cfg =
     fst (requester_connect cfg \<lparr>cn_link = link_new w rx, cn_machine = machine_new Requester\<rparr>)"

section \<open>Requests\<close>

definition refused_by :: "fpdu_kind \<Rightarrow> fpdu \<Rightarrow> session_error" where
  "refused_by request reply = S_Refused request (diag_or_ok reply) (peer_message reply)"

lemma receive_event_backlog: "receive_event k n s = (r, s') \<Longrightarrow> backlog s' = backlog s"
  by (auto simp: receive_event_def backlog_def split: prod.splits sum.splits)

text \<open>The loop of \<^verbatim>\<open>Requester::request\<close> that waits for the answer.\<close>

function await_reply :: "fpdu_kind \<Rightarrow> fpdu_kind \<Rightarrow> ('x conn_scheme, fpdu) act" where
  "await_reply request expect s =
     (case conn_recv s of
        (Inl e, s') \<Rightarrow> (Inl e, s')
      | (Inr reply, s') \<Rightarrow>
         if f_kind reply = K_Abort then
           act_then (quiet_event (Received K_Abort False)) (act_fail (aborted_by reply)) s'
         else
           (case receive_event (f_kind reply) (fpdu_is_negative reply) s' of
              (Inl e, s'') \<Rightarrow> (Inl e, s'')
            | (Inr ignored, s'') \<Rightarrow>
               if ignored then await_reply request expect s''
               else if f_kind reply \<noteq> expect then (Inl (S_Protocol (m_state (cn_machine s'')) (f_kind reply)), s'')
               else if fpdu_is_negative reply then (Inl (refused_by request reply), s'')
               else (Inr reply, s'')))"
  by pat_completeness auto
termination
  by (relation "measure (\<lambda>(r, e, s). backlog s)")
    (auto dest!: conn_recv_backlog(1) [OF sym] receive_event_backlog [OF sym])

declare await_reply.simps [simp del]

definition request :: "fpdu \<Rightarrow> local_event \<Rightarrow> fpdu_kind \<Rightarrow> ('x conn_scheme, fpdu) act" where
  "request f event expect =
     act_then (apply_local event) (act_then (conn_send f) (await_reply (f_kind f) expect))"

definition rq_data_params :: "'x requester_scheme \<Rightarrow> compression \<Rightarrow> usize \<Rightarrow> usize \<Rightarrow> data_params" where
  "rq_data_params s compression max_entity max_article =
     \<lparr>dp_peer_id = rq_peer_id s, dp_sync = ng_sync (rq_negotiated s), dp_resync = ng_resync (rq_negotiated s),
      dp_compression = compression, dp_crc = ng_crc (rq_negotiated s), dp_max_entity = max_entity,
      dp_multi_article = rc_multi_article (rq_cfg s), dp_max_article = max_article, dp_role = Requester\<rparr>"

section \<open>Closing a transfer\<close>

text \<open>A refused request of the closing phase is recorded as its diagnostic, every other error ends the session.\<close>

definition or_refused :: "('s, diagnostic) act \<Rightarrow> ('s, diagnostic) act" where
  "or_refused m s =
     (case m s of
        (Inl (S_Refused _ d _), s') \<Rightarrow> (Inr d, s')
      | (Inl e, s') \<Rightarrow> (Inl e, s')
      | (Inr d, s') \<Rightarrow> (Inr d, s'))"

definition rq_trans_end :: "data_result \<Rightarrow> diagnostic \<Rightarrow> ('x requester_scheme, diagnostic) act" where
  "rq_trans_end d diag s =
     (case request (trans_end (rq_peer_id s) (Some (dr_data_bytes d)) (Some (dr_articles d)))
         L_TransferEnd K_AckTransEnd s of
        (Inr ack, s') \<Rightarrow>
          (case check_counts ack (dr_data_bytes d) (dr_articles d) of
             Inl e \<Rightarrow> (Inl e, s')
           | Inr _ \<Rightarrow> (Inr diag, s'))
      | (Inl e, s') \<Rightarrow> or_refused (act_fail e) s')"

definition rq_closing :: "fpdu \<Rightarrow> local_event \<Rightarrow> fpdu_kind \<Rightarrow> diagnostic \<Rightarrow> ('x requester_scheme, diagnostic) act" where
  "rq_closing f event expect diag = or_refused (act_then (request f event expect) (act_return diag))"

definition rq_close_transfer :: "data_result \<Rightarrow> ('x requester_scheme, diagnostic) act" where
  "rq_close_transfer d =
     act_bind (case dr_end d of Interrupted _ _ _ \<Rightarrow> act_return D_OK | _ \<Rightarrow> rq_trans_end d D_OK) (\<lambda>diag.
     act_bind act_get (\<lambda>s.
     act_bind (rq_closing (crf (rq_peer_id s) D_OK) L_Close K_AckCrf diag) (\<lambda>diag.
     rq_closing (deselect (rq_peer_id s) D_OK) L_Deselect K_AckDeselect diag)))"

section \<open>Transfers\<close>

record ('f, 'c) rq_transfer = requester +
  xf_file :: 'f
  xf_store :: 'c
  xf_progress :: "progress list"

definition xf_on_file :: "('f \<Rightarrow> (io_error, 'a) result \<times> 'f) \<Rightarrow> (('f, 'c) rq_transfer, 'a) act" where
  "xf_on_file = act_on xf_file (\<lambda>x s. s\<lparr>xf_file := x\<rparr>) S_Io"

definition xf_on_store :: "('c \<Rightarrow> (io_error, 'a) result \<times> 'c) \<Rightarrow> (('f, 'c) rq_transfer, 'a) act" where
  "xf_on_store = act_on xf_store (\<lambda>x s. s\<lparr>xf_store := x\<rparr>) S_Io"

definition rq_send_data :: "nat \<Rightarrow> data_params \<Rightarrow> 'f source_ops \<Rightarrow> 'c store_ops \<Rightarrow> checkpoint \<Rightarrow> bool list \<Rightarrow>
    (('f, 'c) rq_transfer, data_result) pact" where
  "rq_send_data fuel p so st start cancel s =
     (case send_data fuel p so st start \<lparr>cn_link = cn_link s, cn_machine = cn_machine s\<rparr> (xf_file s) (xf_store s) cancel of
        None \<Rightarrow> None
      | Some (r, t) \<Rightarrow>
         Some (r, s\<lparr>cn_link := cn_link t, cn_machine := cn_machine t, xf_file := sn_source t, xf_store := sn_store t,
           xf_progress := xf_progress s @ sn_progress t\<rparr>))"

definition rq_receive_data :: "data_params \<Rightarrow> 'f sink_ops \<Rightarrow> 'c store_ops \<Rightarrow> checkpoint \<Rightarrow> bool list \<Rightarrow>
    (('f, 'c) rq_transfer, data_result) act" where
  "rq_receive_data p ko st start cancel s =
     (case receive_data p ko st start \<lparr>cn_link = cn_link s, cn_machine = cn_machine s\<rparr> (xf_file s) (xf_store s) cancel of
        (r, t) \<Rightarrow>
         (r, s\<lparr>cn_link := cn_link t, cn_machine := cn_machine t, xf_file := rv_sink t, xf_store := rv_store t,
           xf_progress := xf_progress s @ rv_progress t\<rparr>))"

text \<open>The parts the two directions share: the file announced, the size of entities, the compression.\<close>

definition rq_file :: "requester_config \<Rightarrow> transfer_spec \<Rightarrow> file_spec" where
  "rq_file cfg spec =
     (let f = (ts_file spec)\<lparr>fs_restarted := (ts_restart spec \<noteq> None)\<rparr>
      in if fs_max_entity_size f = 0 then f\<lparr>fs_max_entity_size := rc_max_entity cfg\<rparr> else f)"

definition rq_entity_size :: "file_spec \<Rightarrow> fpdu \<Rightarrow> usize" where
  "rq_entity_size f ack =
     (case get_max_entity_size ack of
        None \<Rightarrow> unat (fs_max_entity_size f)
      | Some m \<Rightarrow> min (unat m) (unat (fs_max_entity_size f)))"

definition rq_select_file :: "file_spec \<Rightarrow> fpdu \<Rightarrow> local_event \<Rightarrow> fpdu_kind \<Rightarrow> ('x requester_scheme, fpdu) act" where
  "rq_select_file f req event expect =
     act_bind (request req event expect) (\<lambda>ack.
     act_then (act_modify (\<lambda>s. s\<lparr>rq_max_entity := rq_entity_size f ack\<rparr>)) (act_return ack))"

definition rq_open_file :: "('x requester_scheme, compression) act" where
  "rq_open_file =
     act_bind act_get (\<lambda>s.
     act_bind (request (orf (rq_peer_id s) (rc_compression (rq_cfg s))) L_Open K_AckOrf) (\<lambda>ack.
     act_return (compression_negotiate (rc_compression (rq_cfg s)) (unwrap_or Comp_None (get_compression ack)))))"

definition rq_write_start :: "'c store_ops \<Rightarrow> file_spec \<Rightarrow> (('f, 'c) rq_transfer, checkpoint) act" where
  "rq_write_start st f =
     act_bind act_get (\<lambda>s.
     act_bind (request (write_fpdu (rq_peer_id s)) L_Write K_AckWrite) (\<lambda>ack.
     act_bind act_get (\<lambda>s.
     let point = unwrap_or 0 (get_restart_point ack) in
     act_bind (if fs_restarted f \<and> point \<noteq> 0 then
         (case to_get st point (xf_store s) of
            None \<Rightarrow> act_fail (S_Negotiation (N_Invalid ''server requested restart at unknown sync point'' (ucast point)))
          | Some cp \<Rightarrow> act_return cp)
       else act_return checkpoint_default) (\<lambda>start.
     act_then (act_when (cp_sync start = 0) (xf_on_store (to_clear st))) (act_return start)))))"

definition rq_read_start :: "'f sink_ops \<Rightarrow> 'c store_ops \<Rightarrow> transfer_spec \<Rightarrow> (('f, 'c) rq_transfer, checkpoint) act" where
  "rq_read_start ko st spec =
     act_bind act_get (\<lambda>s.
     let requested = (case ts_restart spec of None \<Rightarrow> 0 | Some c \<Rightarrow> cp_sync c) in
     act_bind (if requested = 0 then act_return checkpoint_default
       else case to_get st requested (xf_store s) of
         None \<Rightarrow> act_fail (S_Negotiation (N_Invalid ''unknown local sync point'' (ucast requested)))
       | Some cp \<Rightarrow> act_return cp) (\<lambda>start.
     act_then (request (read_fpdu (rq_peer_id s) (cp_sync start)) L_Read K_AckRead)
     (act_then (if cp_sync start = 0
        then act_then (xf_on_store (to_clear st)) (xf_on_file (ko_truncate ko position_default))
        else xf_on_file (ko_truncate ko (position_of start)))
     (act_return start))))"

definition transfer_start :: "requester \<Rightarrow> 'f \<Rightarrow> 'c \<Rightarrow> ('f, 'c) rq_transfer" where
  "transfer_start s x c = requester.extend s \<lparr>xf_file = x, xf_store = c, xf_progress = []\<rparr>"

definition rq_outcome :: "file_spec \<Rightarrow> fpdu \<Rightarrow> checkpoint \<Rightarrow> data_result \<Rightarrow> diagnostic \<Rightarrow> transfer_outcome" where
  "rq_outcome f ack start d diag =
     \<lparr>ot_transfer_id = unwrap_or (fs_transfer_id f) (get_transfer_id ack), ot_data = d, ot_remote = spec_from_fpdu ack,
      ot_started_from = start, ot_diag = diag\<rparr>"

definition send_file_end :: "'c store_ops \<Rightarrow> file_spec \<Rightarrow> fpdu \<Rightarrow> checkpoint \<Rightarrow> data_result \<Rightarrow>
    (('f, 'c) rq_transfer, transfer_outcome) act" where
  "send_file_end st f ack start d =
     act_bind (rq_close_transfer d) (\<lambda>diag.
     act_then (act_when (dr_end d = Completed \<and> diag_is_ok diag) (xf_on_store (to_clear st)))
     (act_return (rq_outcome f ack start d diag)))"

definition send_file :: "nat \<Rightarrow> 'f source_ops \<Rightarrow> 'c store_ops \<Rightarrow> transfer_spec \<Rightarrow> bool list \<Rightarrow>
    (('f, 'c) rq_transfer, transfer_outcome) pact" where
  "send_file fuel so st spec cancel =
     act_pbind act_get (\<lambda>s.
     let f = rq_file (rq_cfg s) spec in
     act_pbind (rq_select_file f (spec_create f (rq_peer_id s)) L_Create K_AckCreate) (\<lambda>ack.
     act_pbind rq_open_file (\<lambda>compression.
     act_pbind (rq_write_start st f) (\<lambda>start.
     let p = rq_data_params s compression (rq_entity_size f ack) (unat (fs_article_length f)) in
     pact_bind (rq_send_data fuel p so st start cancel) (\<lambda>d.
     pact_of (send_file_end st f ack start d))))))"

definition receive_file_end :: "'f sink_ops \<Rightarrow> 'c store_ops \<Rightarrow> file_spec \<Rightarrow> fpdu \<Rightarrow> checkpoint \<Rightarrow> data_result \<Rightarrow>
    (('f, 'c) rq_transfer, transfer_outcome) act" where
  "receive_file_end ko st f ack start d =
     act_bind (rq_close_transfer d) (\<lambda>diag.
     act_then (act_when (dr_end d = Completed \<and> diag_is_ok diag)
       (act_then (xf_on_file (ko_finish ko)) (xf_on_store (to_clear st))))
     (act_return (rq_outcome f ack start d diag)))"

definition receive_file :: "'f sink_ops \<Rightarrow> 'c store_ops \<Rightarrow> transfer_spec \<Rightarrow> bool list \<Rightarrow>
    (('f, 'c) rq_transfer, transfer_outcome) act" where
  "receive_file ko st spec cancel =
     act_bind act_get (\<lambda>s.
     let f = rq_file (rq_cfg s) spec in
     act_bind (rq_select_file f (spec_select f (rq_peer_id s) ATTRIBUTES_ALL) L_Select K_AckSelect) (\<lambda>ack.
     act_bind rq_open_file (\<lambda>compression.
     act_bind (rq_read_start ko st spec) (\<lambda>start.
     let p = rq_data_params s compression (rq_entity_size f ack)
               (unat (max (fs_article_length (spec_from_fpdu ack)) (fs_article_length f))) in
     act_bind (rq_receive_data p ko st start cancel) (\<lambda>d.
     receive_file_end ko st f ack start d)))))"

section \<open>Messages\<close>

fun byte_chunks :: "nat \<Rightarrow> bytes \<Rightarrow> bytes list" where
  "byte_chunks n [] = []"
| "byte_chunks n (b # bs) = take (max n 1) (b # bs) # byte_chunks n (drop (max n 1) (b # bs))"

definition crc_room :: "'x requester_scheme \<Rightarrow> nat" where
  "crc_room s = (if ng_crc (rq_negotiated s) then 2 else 0)"

definition message_room :: "'x requester_scheme \<Rightarrow> file_spec \<Rightarrow> bool \<Rightarrow> nat" where
  "message_room s f expects_reply =
     max (rq_max_entity s - (encoded_len (msg K_Msg (rq_peer_id s) f expects_reply None) + 3 + crc_room s)) 1"

definition segment_room :: "'x requester_scheme \<Rightarrow> nat" where
  "segment_room s = max (rq_max_entity s - (HEADER_LEN + 3 + 3 + crc_room s)) 1"

text \<open>The segments after the first: the last one closes the message.\<close>

fun message_segments :: "u8 \<Rightarrow> bytes list \<Rightarrow> fpdu list" where
  "message_segments peer [] = []"
| "message_segments peer [c] = [msg_segment K_MsgFm peer c]"
| "message_segments peer (c # cs) = msg_segment K_MsgMm peer c # message_segments peer cs"

definition await_ack_msg :: "('x conn_scheme, fpdu) act" where
  "await_ack_msg =
     act_bind conn_recv (\<lambda>reply.
     if f_kind reply = K_Abort then act_then (quiet_event (Received K_Abort False)) (act_fail (aborted_by reply))
     else
       act_then (receive_event (f_kind reply) (fpdu_is_negative reply))
       (act_bind act_get (\<lambda>s.
        if f_kind reply \<noteq> K_AckMsg then act_fail (S_Protocol (m_state (cn_machine s)) (f_kind reply))
        else if fpdu_is_negative reply then
          act_fail (S_Refused K_Msg (diag_or_ok reply) (fpdu_get_text reply Pi_FreeMessage))
        else act_return reply)))"

definition send_message :: "file_spec \<Rightarrow> bytes \<Rightarrow> bool \<Rightarrow> ('x requester_scheme, message_outcome) act" where
  "send_message f message expects_reply =
     act_bind act_get (\<lambda>s.
     let peer = rq_peer_id s; room = message_room s f expects_reply in
     act_bind
       (if length message \<le> room
        then request (msg K_Msg peer f expects_reply (Some message)) L_Message K_AckMsg
        else
          act_then (apply_local L_Message)
          (act_then (conn_send (msg K_MsgDm peer f expects_reply (Some (take room message))))
          (act_then (act_each conn_send (message_segments peer (byte_chunks (segment_room s) (drop room message))))
          (act_then (apply_local L_DataEnd) await_ack_msg)))) (\<lambda>ack.
     act_return \<lparr>mo_diag = diag_or_ok ack, mo_reply = fpdu_get ack Pi_Message\<rparr>))"

section \<open>End of the session\<close>

definition requester_release :: "('x requester_scheme, unit) act" where
  "requester_release =
     act_bind act_get (\<lambda>s.
     act_then (request (release (rq_peer_id s) (rq_my_id s) D_OK) L_Release K_Relconf) (act_return ()))"

definition requester_abort :: "diagnostic \<Rightarrow> 'x requester_scheme \<Rightarrow> 'x requester_scheme" where
  "requester_abort diag s =
     snd (act_then (quiet_event (Local L_Abort)) (conn_send (abort (rq_peer_id s) (rq_my_id s) diag)) s)"

definition requester_cancel_code :: end_code where
  "requester_cancel_code = End_CancelByRequester"

end
