(* ===== verification/Requester_Term.thy ===== *)
theory Requester_Term
  imports Requester_Session Datapath_Term
begin

text \<open>
  Sending a file with a session of the requester returns: the exchanges around the data phase only take from what arrives on
  the connection, so that the bound of the sending loop holds for the whole transfer.
\<close>

section \<open>The exchanges take from what arrives\<close>

lemma await_reply_backlog: "backlog (snd (await_reply req expect s)) \<le> backlog s"
proof (induction req expect s rule: await_reply.induct)
  case (1 req expect s)
  obtain r s1 where r: "conn_recv s = (r, s1)" by fastforce
  have le: "backlog s1 \<le> backlog s" using act_keepsD [OF keeps_recv r] by (simp add: no_growth_def)
  show ?case
  proof (cases r)
    case (Inr reply)
    show ?thesis
    proof (cases "f_kind reply = K_Abort")
      case True
      with r Inr le show ?thesis
        by (subst await_reply.simps) (simp add: act_then_def act_bind_def quiet_event_def act_modify_def act_fail_def backlog_def)
    next
      case False
      obtain q s2 where q: "receive_event (f_kind reply) (fpdu_is_negative reply) s1 = (q, s2)" by fastforce
      note same = receive_event_backlog [OF q]
      show ?thesis
      proof (cases q)
        case ig: (Inr ignored)
        with "1.IH" [OF r [symmetric] Inr False q [symmetric] ig] r Inr False q le same show ?thesis
          by (subst await_reply.simps) auto
      qed (use r Inr False q le same in \<open>subst await_reply.simps, simp\<close>)
    qed
  qed (use r le in \<open>subst await_reply.simps, simp\<close>)
qed

text \<open>What an exchange keeps of a transfer: nothing more arrives, and the file is left alone.\<close>

definition xf_steady :: "('f, 'c) rq_transfer \<Rightarrow> ('f, 'c) rq_transfer \<Rightarrow> bool" where
  "xf_steady s s' \<longleftrightarrow> backlog s' \<le> backlog s \<and> xf_file s' = xf_file s"

lemma xf_steady_order: "reflp xf_steady" "transp xf_steady"
  by (auto simp: xf_steady_def reflp_def transp_def)

lemmas xf_intros = act_keeps_bind [OF xf_steady_order(2)] act_keeps_then [OF xf_steady_order(2)]
  act_keeps_pure [OF xf_steady_order(1)] act_keeps_when [OF xf_steady_order(1)]

lemma xf_steadyI: "(\<And>s r s'. m s = (r, s') \<Longrightarrow> backlog s' \<le> backlog s \<and> xf_file s' = xf_file s) \<Longrightarrow> act_keeps xf_steady m"
  unfolding act_keeps_def xf_steady_def by (metis prod.collapse)

lemma conn_recv_file: "conn_recv s = (r, s') \<Longrightarrow> xf_file s' = xf_file s"
  by (auto simp: conn_recv_def on_link_def split: prod.splits)

lemma receive_event_file: "receive_event k n s = (r, s') \<Longrightarrow> xf_file s' = xf_file s"
  by (auto simp: receive_event_def split: prod.splits sum.splits)

lemma await_reply_file: "xf_file (snd (await_reply req expect s)) = xf_file s"
proof (induction req expect s rule: await_reply.induct)
  case (1 req expect s)
  obtain r s1 where r: "conn_recv s = (r, s1)" by fastforce
  note f1 = conn_recv_file [OF r]
  show ?case
  proof (cases r)
    case (Inr reply)
    show ?thesis
    proof (cases "f_kind reply = K_Abort")
      case True
      with r Inr f1 show ?thesis
        by (subst await_reply.simps) (simp add: act_then_def act_bind_def quiet_event_def act_modify_def act_fail_def)
    next
      case False
      obtain q s2 where q: "receive_event (f_kind reply) (fpdu_is_negative reply) s1 = (q, s2)" by fastforce
      note f2 = receive_event_file [OF q]
      show ?thesis
      proof (cases q)
        case ig: (Inr ignored)
        with "1.IH" [OF r [symmetric] Inr False q [symmetric] ig] r Inr False q f1 f2 show ?thesis
          by (subst await_reply.simps) auto
      qed (use r Inr False q f1 f2 in \<open>subst await_reply.simps, simp\<close>)
    qed
  qed (use r f1 in \<open>subst await_reply.simps, simp\<close>)
qed

lemma xf_request: "act_keeps xf_steady (request f event expect)"
proof -
  have "act_keeps xf_steady (await_reply k expect)" for k
    by (simp add: act_keeps_def xf_steady_def await_reply_backlog await_reply_file)
  moreover have "act_keeps xf_steady (conn_send f)"
    by (rule xf_steadyI, rule conjI, drule conn_send_backlog, simp) (auto simp: conn_send_def on_link_def split: prod.splits)
  moreover have "act_keeps xf_steady (apply_local event)"
    by (rule xf_steadyI, rule conjI, drule apply_local_backlog, simp)
      (auto simp: apply_local_def act_bind_def act_on_def split: prod.splits sum.splits)
  ultimately show ?thesis unfolding request_def by (intro xf_intros)
qed

lemma xf_exchanges:
  "act_keeps xf_steady (rq_select_file f req event expect)" "act_keeps xf_steady rq_open_file" "act_keeps xf_steady (rq_write_start st f)"
proof -
  show "act_keeps xf_steady (rq_select_file f req event expect)"
    unfolding rq_select_file_def by (intro xf_intros xf_request) (auto intro!: xf_steadyI simp: backlog_def)
  show "act_keeps xf_steady rq_open_file"
    unfolding rq_open_file_def by (intro xf_intros xf_request)
  have "act_keeps xf_steady (xf_on_store g)" for g
    by (auto intro!: xf_steadyI simp: xf_on_store_def act_on_def backlog_def split: prod.splits)
  then show "act_keeps xf_steady (rq_write_start st f)"
    unfolding rq_write_start_def Let_def
    by (intro xf_intros xf_request) (auto intro!: xf_intros split: option.split)
qed

section \<open>Sending returns\<close>

context finite_source
begin

lemma send_file_ends:
  assumes "good (xf_file s)" and "(backlog s + 1) * (most (xf_file s) + 1) \<le> fuel"
  shows "send_file fuel so st spec cancel s \<noteq> None"
proof -
  have data: "rq_send_data fuel p so st start cancel s' \<noteq> None" if "xf_steady s s'" for p start s'
  proof -
    let ?c = "\<lparr>cn_link = cn_link s', cn_machine = cn_machine s'\<rparr>"
    have "backlog ?c \<le> backlog s" "xf_file s' = xf_file s" using that by (simp_all add: xf_steady_def backlog_def)
    then have "(backlog ?c + 1) * (most (xf_file s') + 1) \<le> (backlog s + 1) * (most (xf_file s) + 1)"
      using \<open>xf_file s' = xf_file s\<close> by (simp only: mult_le_mono1 add_le_mono1)
    also note assms(2)
    finally have "(backlog ?c + 1) * (most (xf_file s') + 1) \<le> fuel" .
    from send_data_ends [of "xf_file s'" ?c fuel p st start "xf_store s'" cancel, OF _ this] assms(1) \<open>xf_file s' = xf_file s\<close>
    show ?thesis by (auto simp: rq_send_data_def split: option.split)
  qed
  have trans: "xf_steady s s2" if "xf_steady s s1" "xf_steady s1 s2" for s1 s2
    using that xf_steady_order(2) by (metis transpD)
  obtain r1 s1 where 1: "rq_select_file (rq_file (rq_cfg s) spec) (spec_create (rq_file (rq_cfg s) spec) (rq_peer_id s)) L_Create K_AckCreate s = (r1, s1)"
    by fastforce
  obtain r2 s2 where 2: "rq_open_file s1 = (r2, s2)" by fastforce
  obtain r3 s3 where 3: "rq_write_start st (rq_file (rq_cfg s) spec) s2 = (r3, s3)" by fastforce
  have "xf_steady s s3"
    using trans [OF trans [OF act_keepsD [OF xf_exchanges(1) 1] act_keepsD [OF xf_exchanges(2) 2]] act_keepsD [OF xf_exchanges(3) 3]] .
  note data = data [OF this]
  show ?thesis
    unfolding send_file_def Let_def act_pbind_eq act_get_def prod.case sum.case 1 2 3
    by (cases r1; cases r2; cases r3) (simp_all add: 1 2 3 pact_bind_def pact_of_def data split: option.split sum.split)
qed

end

text \<open>Opening a session takes from what arrives as well.\<close>

lemma requester_open_backlog:
  assumes "requester_open w rx cfg = Inr s"
  shows "backlog s \<le> sum_list (map event_size rx)"
proof -
  let ?c = "\<lparr>cn_link = link_new w rx, cn_machine = machine_new Requester\<rparr>"
  have entity: "act_keeps no_growth (on_link link_recv_entity)"
  proof (rule no_growthI)
    fix s :: "'x conn_scheme" and r s' assume "on_link link_recv_entity s = (r, s')"
    then obtain l where l: "link_recv_entity (cn_link s) = (r, l)" "s' = s\<lparr>cn_link := l\<rparr>" by (auto simp: on_link_def split: prod.splits)
    show "backlog s' \<le> backlog s" using recv_entity_backlog [OF l(1)] l(2) by (cases r) (auto simp: backlog_def)
  qed
  have send: "act_keeps no_growth (on_link (link_send_entity e))" for e
    by (rule no_growth_same) (auto simp: on_link_def link_send_entity_def act_on_def backlog_def link_backlog_def split: prod.splits)
  have pre: "act_keeps no_growth (rq_preconnect cfg)"
    unfolding rq_preconnect_def by (auto intro!: keeps_intros entity send split: option.split)
  have event: "act_keeps no_growth (receive_event k n)" "act_keeps no_growth (quiet_event ev)" for k n ev
    by (rule no_growth_same, erule receive_event_backlog) (auto intro!: no_growth_same simp: quiet_event_def backlog_def)
  have reply: "act_keeps no_growth (rq_connect_reply reply)" for reply
    unfolding rq_connect_reply_def by (auto intro!: keeps_intros event)
  have crc: "act_keeps no_growth (act_modify (\<lambda>s. s\<lparr>cn_link := set_crc b (cn_link s)\<rparr>))" for b
    by (rule no_growth_same) (auto simp: backlog_def link_backlog_def set_crc_def)
  from assms obtain c where c: "requester_connect cfg ?c = (Inr s, c)" by (cases "requester_connect cfg ?c") (simp add: requester_open_def)
  have "act_keeps no_growth (requester_connect cfg)"
    unfolding requester_connect_def by (intro keeps_intros pre crc keeps_basic keeps_recv reply)
  from act_keepsD [OF this c] have "backlog c \<le> backlog ?c" by (simp add: no_growth_def)
  moreover have "cn_link s = cn_link c"
    using c by (auto simp: requester_connect_def act_then_eq_Inr act_bind_eq_Inr conn.defs)
  ultimately show ?thesis by (simp add: backlog_def link_backlog_def link_new_def)
qed

text \<open>A file that was opened and a session that was opened: the transfer returns.\<close>

lemma send_file_returns:
  assumes "source_open (Inr data) fmt rl script = Inr src" "requester_open w rx cfg = Inr session"
    "(sum_list (map event_size rx) + 1) * (length data + 1) \<le> fuel"
  shows "\<exists>r s. send_file fuel file_source_ops st spec cancel (transfer_start session (source_with_ebcdic b src) cps) = Some (r, s)"
proof -
  let ?x = "source_with_ebcdic b src" and ?s = "transfer_start session (source_with_ebcdic b src) cps"
  have src: "fr_file ?x = data" "file_good ?x"
    using assms(1)
    by (auto simp: source_open_def and_then_eq_Inr source_with_ebcdic_def file_good_def remaining_def cutter_inv_def
        cutter_new_def cutter_avail_def)
  have "backlog ?s \<le> sum_list (map event_size rx)"
    using requester_open_backlog [OF assms(2)] by (simp add: transfer_start_def requester.defs backlog_def)
  then have "(backlog ?s + 1) * (length (fr_file ?x) + 1) \<le> (sum_list (map event_size rx) + 1) * (length data + 1)"
    unfolding src(1) by (intro mult_le_mono1) simp
  also note assms(3)
  finally have "(backlog ?s + 1) * (length (fr_file ?x) + 1) \<le> fuel" .
  moreover have "xf_file ?s = ?x" by (simp add: transfer_start_def requester.defs)
  ultimately show ?thesis using file_finite.send_file_ends [of ?s fuel st spec cancel] src(2) by auto
qed

end
