(* ===== verification/Responder_Session.thy ===== *)
theory Responder_Session
  imports Requester_Session Datapath_Term
begin

text \<open>
  \<^verbatim>\<open>crates/pesit-io/src/responder.rs\<close>: the server side of a session. The application behind it is a trait
  object, here a record of operations over a state of its own; the cancellation flag it hands out is the
  list of the values its readings give. The calls of the progress callback reach the application in
  their order when the data phase returns, since it is not called otherwise meanwhile. A source or sink
  is dropped at the end of its transfer; the session state keeps what was dropped.
\<close>

unbundle bit_operations_syntax

section \<open>The application\<close>

record refusal =
  rf_diag :: diagnostic
  rf_message :: "rstring option"

definition refusal_new :: "diagnostic \<Rightarrow> refusal" where
  "refusal_new diag = \<lparr>rf_diag = diag, rf_message = None\<rparr>"

definition refusal_with_message :: "diagnostic \<Rightarrow> rstring \<Rightarrow> refusal" where
  "refusal_with_message diag message = \<lparr>rf_diag = diag, rf_message = Some message\<rparr>"

record connect_request =
  cr_requester :: rstring
  cr_server :: rstring
  cr_password :: "rstring option"
  cr_version :: pesit_version
  cr_sync :: sync_option
  cr_access :: access_type
  cr_resync :: bool
  cr_crc :: bool
  cr_free_message :: "rstring option"
  cr_preconnect :: "(rstring \<times> rstring) option"
  cr_remote_addr :: rstring

record connect_accept =
  ca_sync :: sync_option
  ca_resync :: bool
  ca_compression :: compression
  ca_multi_article :: bool
  ca_max_entity :: u16
  ca_free_message :: "rstring option"

definition connect_accept_default :: connect_accept where
  "connect_accept_default = \<lparr>ca_sync = \<lparr>interval_kb = 32, so_window = 4\<rparr>, ca_resync = True, ca_compression = Comp_None,
     ca_multi_article = True, ca_max_entity = 0xFFFF, ca_free_message = None\<rparr>"

record session_info =
  si_id :: rstring
  si_requester :: rstring
  si_server :: rstring
  si_remote_addr :: rstring
  si_negotiated :: negotiated

record ('k, 'c) create_accept =
  cra_sink :: 'k
  cra_checkpoints :: 'c
  cra_transfer_id :: "u32 option"
  cra_restart :: "checkpoint option"
  cra_max_article :: usize
  cra_handle :: u64
  cra_free_message :: "rstring option"

record ('f, 'c) select_accept =
  sa_source :: 'f
  sa_checkpoints :: 'c
  sa_spec :: file_spec
  sa_handle :: u64

datatype transfer_event =
    Ev_Started u32 checkpoint
  | Ev_Progress progress
  | Ev_Ended data_result diagnostic
  | Ev_Failed session_error

record ('h, 'k, 'f, 'c) server_handler =
  hd_authenticate :: "connect_request \<Rightarrow> 'h \<Rightarrow> (refusal, connect_accept) result \<times> 'h"
  hd_create :: "session_info \<Rightarrow> file_spec \<Rightarrow> 'h \<Rightarrow> (refusal, ('k, 'c) create_accept) result \<times> 'h"
  hd_select :: "session_info \<Rightarrow> file_spec \<Rightarrow> requested_attributes \<Rightarrow> 'h \<Rightarrow> (refusal, ('f, 'c) select_accept) result \<times> 'h"
  hd_message :: "session_info \<Rightarrow> file_spec \<Rightarrow> bytes \<Rightarrow> bool \<Rightarrow> 'h \<Rightarrow> (refusal, bytes option) result \<times> 'h"
  hd_transfer_event :: "session_info \<Rightarrow> u64 \<Rightarrow> transfer_event \<Rightarrow> 'h \<Rightarrow> 'h"
  hd_session_closed :: "session_info \<Rightarrow> session_error option \<Rightarrow> 'h \<Rightarrow> 'h"
  hd_cancel_flag :: "session_info \<Rightarrow> u64 \<Rightarrow> 'h \<Rightarrow> bool list \<times> 'h"

record responder_config =
  sc_session_id :: rstring
  sc_conn_id :: u8
  sc_remote_addr :: rstring

record ('h, 'k, 'f, 'c) responder = conn +
  rs_cfg :: responder_config
  rs_handler :: 'h
  rs_peer_id :: u8
  rs_info :: "session_info option"
  rs_accept :: connect_accept
  rs_sinks :: "('k \<times> 'c) list"
  rs_sources :: "('f \<times> 'c) list"

text \<open>A call of the application.\<close>

definition on_handler :: "('h \<Rightarrow> 'a \<times> 'h) \<Rightarrow> (('h, 'k, 'f, 'c, 'x) responder_scheme, 'a) act" where
  "on_handler f s = (case f (rs_handler s) of (r, h) \<Rightarrow> (Inr r, s\<lparr>rs_handler := h\<rparr>))"

definition rs_event :: "('h, 'k, 'f, 'c) server_handler \<Rightarrow> session_info \<Rightarrow> u64 \<Rightarrow> transfer_event \<Rightarrow>
    (('h, 'k, 'f, 'c, 'x) responder_scheme, unit) act" where
  "rs_event h info handle e = act_modify (\<lambda>s. s\<lparr>rs_handler := hd_transfer_event h info handle e (rs_handler s)\<rparr>)"

definition rs_progress :: "('h, 'k, 'f, 'c) server_handler \<Rightarrow> session_info \<Rightarrow> u64 \<Rightarrow> progress list \<Rightarrow> 'h \<Rightarrow> 'h" where
  "rs_progress h info handle ps = fold (\<lambda>p. hd_transfer_event h info handle (Ev_Progress p)) ps"

section \<open>Waiting for the requester\<close>

definition rs_info_of :: "(('h, 'k, 'f, 'c, 'x) responder_scheme, session_info) act" where
  "rs_info_of s =
     (case rs_info s of
        None \<Rightarrow> (Inl (S_Protocol Cn01 K_Connect), s)
      | Some i \<Rightarrow> (Inr i, s))"

definition rs_apply_received :: "fpdu \<Rightarrow> ('x conn_scheme, bool) act" where
  "rs_apply_received f =
     (if f_kind f = K_Abort
      then act_then (quiet_event (Received K_Abort False)) (act_fail (aborted_by f))
      else receive_event (f_kind f) (fpdu_is_negative f))"

definition unexpected :: "fpdu \<Rightarrow> ('x conn_scheme, 'a) act" where
  "unexpected f s = (Inl (S_Protocol (m_state (cn_machine s)) (f_kind f)), s)"

lemma quiet_event_backlog: "quiet_event e s = (r, s') \<Longrightarrow> backlog s' = backlog s"
  by (auto simp: quiet_event_def backlog_def)

lemma rs_apply_received_backlog: "rs_apply_received f s = (r, s') \<Longrightarrow> backlog s' = backlog s"
  by (auto simp: rs_apply_received_def act_then_def act_bind_def dest: receive_event_backlog quiet_event_backlog
      split: if_splits prod.splits sum.splits)

text \<open>A received FPDU, without those the state tables ignore.\<close>

function rs_next :: "('x conn_scheme, fpdu) act" where
  "rs_next s =
     (case conn_recv s of
        (Inl e, s') \<Rightarrow> (Inl e, s')
      | (Inr f, s') \<Rightarrow>
         (case rs_apply_received f s' of
            (Inl e, s'') \<Rightarrow> (Inl e, s'')
          | (Inr ignored, s'') \<Rightarrow> if ignored then rs_next s'' else (Inr f, s'')))"
  by pat_completeness auto
termination
  by (relation "measure backlog") (auto dest!: conn_recv_backlog(1) [OF sym] rs_apply_received_backlog [OF sym])

declare rs_next.simps [simp del]

definition rs_expect :: "fpdu_kind \<Rightarrow> ('x conn_scheme, fpdu) act" where
  "rs_expect expect = act_bind rs_next (\<lambda>f. if f_kind f \<noteq> expect then unexpected f else act_return f)"

definition rs_accept_with :: "fpdu \<Rightarrow> ('x conn_scheme, unit) act" where
  \<comment> \<open>\<^verbatim>\<open>self.apply_local(LocalEvent::Accept)?; self.link.send(..).await?\<close>\<close>
  "rs_accept_with f = act_then (apply_local L_Accept) (conn_send f)"

definition rs_reject_with :: "fpdu \<Rightarrow> ('x conn_scheme, unit) act" where
  "rs_reject_with f = act_then (apply_local L_Reject) (conn_send f)"

section \<open>End of a transfer\<close>

definition rs_close_step :: "data_result \<Rightarrow> fpdu \<Rightarrow> diagnostic \<Rightarrow>
    (('h, 'k, 'f, 'c, 'x) responder_scheme, diagnostic \<times> bool) act" where
  "rs_close_step d f diag s =
     (let peer = rs_peer_id s; diag' = (if diag_is_ok (diag_or_ok f) then diag else diag_or_ok f)
      in if f_kind f = K_TransEnd then
        (case check_counts f (dr_data_bytes d) (dr_articles d) of
           Inr _ \<Rightarrow>
             act_then (rs_accept_with (ack_trans_end peer D_OK (Some (dr_data_bytes d)) (Some (dr_articles d))))
               (act_return (diag', False)) s
         | Inl _ \<Rightarrow>
             act_then (rs_accept_with (ack_trans_end peer D_INVALID_COUNTS (Some (dr_data_bytes d)) (Some (dr_articles d))))
               (act_return (D_INVALID_COUNTS, False)) s)
      else if f_kind f = K_Crf then act_then (rs_accept_with (ack_crf peer D_OK)) (act_return (diag', False)) s
      else if f_kind f = K_Deselect then act_then (rs_accept_with (ack_deselect peer D_OK)) (act_return (diag, True)) s
      else unexpected f s)"

lemma rs_next_backlog: "rs_next s = (Inr f, s') \<Longrightarrow> backlog s' < backlog s"
proof (induction s rule: rs_next.induct)
  case (1 s)
  obtain r s1 where 2: "conn_recv s = (r, s1)" by fastforce
  show ?case
  proof (cases r)
    case (Inr g)
    obtain q s2 where 3: "rs_apply_received g s1 = (q, s2)" by fastforce
    with rs_apply_received_backlog [OF this] conn_recv_backlog(1) [of s g s1] 2 Inr "1.IH" "1.prems" show ?thesis
      by (subst (asm) (2) rs_next.simps) (fastforce intro: less_trans split: sum.splits if_splits)
  qed (use 2 "1.prems" in \<open>subst (asm) rs_next.simps, simp\<close>)
qed

lemma rs_accept_with_backlog: "rs_accept_with f s = (r, s') \<Longrightarrow> backlog s' = backlog s"
  by (auto simp: rs_accept_with_def act_then_def act_bind_def dest!: same_backlog split: prod.splits sum.splits)

lemma rs_close_step_backlog: "rs_close_step d f diag s = (r, s') \<Longrightarrow> backlog s' = backlog s"
  by (auto simp: rs_close_step_def Let_def act_then_def act_bind_def unexpected_def dest!: rs_accept_with_backlog
      split: prod.splits sum.splits if_splits)

function rs_close_transfer :: "data_result \<Rightarrow> diagnostic \<Rightarrow> (('h, 'k, 'f, 'c, 'x) responder_scheme, diagnostic) act" where
  "rs_close_transfer d diag s =
     (case rs_next s of
        (Inl e, s') \<Rightarrow> (Inl e, s')
      | (Inr f, s') \<Rightarrow>
         (case rs_close_step d f diag s' of
            (Inl e, s'') \<Rightarrow> (Inl e, s'')
          | (Inr (diag', done'), s'') \<Rightarrow> if done' then (Inr diag', s'') else rs_close_transfer d diag' s''))"
  by pat_completeness auto
termination
  by (relation "measure (\<lambda>(d, g, s). backlog s)") (auto dest!: rs_next_backlog [OF sym] rs_close_step_backlog [OF sym])

declare rs_close_transfer.simps [simp del]

section \<open>Transfers\<close>

record ('h, 'k, 'f, 'c, 't) rs_transfer = "('h, 'k, 'f, 'c) responder" +
  rt_file :: 't
  rt_store :: 'c

definition rt_on_file :: "('t \<Rightarrow> (io_error, 'a) result \<times> 't) \<Rightarrow> (('h, 'k, 'f, 'c, 't) rs_transfer, 'a) act" where
  "rt_on_file = act_on rt_file (\<lambda>x s. s\<lparr>rt_file := x\<rparr>) S_Io"

definition rt_on_store :: "('c \<Rightarrow> (io_error, 'a) result \<times> 'c) \<Rightarrow> (('h, 'k, 'f, 'c, 't) rs_transfer, 'a) act" where
  "rt_on_store = act_on rt_store (\<lambda>x s. s\<lparr>rt_store := x\<rparr>) S_Io"

definition rs_receive_data :: "('h, 'k, 'f, 'c) server_handler \<Rightarrow> session_info \<Rightarrow> u64 \<Rightarrow> data_params \<Rightarrow> 't sink_ops \<Rightarrow>
    'c store_ops \<Rightarrow> checkpoint \<Rightarrow> bool list \<Rightarrow> (('h, 'k, 'f, 'c, 't) rs_transfer, data_result) act" where
  "rs_receive_data h info handle p ko st start cancel s =
     (case receive_data p ko st start \<lparr>cn_link = cn_link s, cn_machine = cn_machine s\<rparr> (rt_file s) (rt_store s) cancel of
        (r, t) \<Rightarrow>
         (r, s\<lparr>cn_link := cn_link t, cn_machine := cn_machine t,
           rs_handler := rs_progress h info handle (rv_progress t) (rs_handler s),
           rt_file := rv_sink t, rt_store := rv_store t\<rparr>))"

definition rs_send_data :: "nat \<Rightarrow> ('h, 'k, 'f, 'c) server_handler \<Rightarrow> session_info \<Rightarrow> u64 \<Rightarrow> data_params \<Rightarrow> 't source_ops \<Rightarrow>
    'c store_ops \<Rightarrow> checkpoint \<Rightarrow> bool list \<Rightarrow> (('h, 'k, 'f, 'c, 't) rs_transfer, data_result) pact" where
  "rs_send_data fuel h info handle p so st start cancel s =
     (case send_data fuel p so st start \<lparr>cn_link = cn_link s, cn_machine = cn_machine s\<rparr> (rt_file s) (rt_store s) cancel of
        None \<Rightarrow> None
      | Some (r, t) \<Rightarrow>
         Some (r, s\<lparr>cn_link := cn_link t, cn_machine := cn_machine t,
           rs_handler := rs_progress h info handle (sn_progress t) (rs_handler s),
           rt_file := sn_source t, rt_store := sn_store t\<rparr>))"

definition rs_data_params :: "('h, 'k, 'f, 'c, 'x) responder_scheme \<Rightarrow> session_info \<Rightarrow> compression \<Rightarrow> usize \<Rightarrow> usize \<Rightarrow> data_params" where
  "rs_data_params s info compression max_entity max_article =
     \<lparr>dp_peer_id = rs_peer_id s, dp_sync = ng_sync (si_negotiated info), dp_resync = ng_resync (si_negotiated info),
      dp_compression = compression, dp_crc = ng_crc (si_negotiated info), dp_max_entity = max_entity,
      dp_multi_article = ca_multi_article (rs_accept s), dp_max_article = max_article, dp_role = Server\<rparr>"

text \<open>ORF: both directions negotiate the compression.\<close>

definition rs_open_file :: "(('h, 'k, 'f, 'c, 'x) responder_scheme, compression) act" where
  "rs_open_file =
     act_bind (rs_expect K_Orf) (\<lambda>f.
     act_bind act_get (\<lambda>s.
     let c = compression_negotiate (unwrap_or Comp_None (get_compression f)) (ca_compression (rs_accept s)) in
     act_then (rs_accept_with (ack_orf (rs_peer_id s) D_OK c)) (act_return c)))"

definition run_write :: "('h, 'k, 'f, 'c) server_handler \<Rightarrow> 't sink_ops \<Rightarrow> 'c store_ops \<Rightarrow> session_info \<Rightarrow> file_spec \<Rightarrow>
    checkpoint option \<Rightarrow> usize \<Rightarrow> usize \<Rightarrow> u32 \<Rightarrow> u64 \<Rightarrow>
    (('h, 'k, 'f, 'c, 't) rs_transfer, data_result \<times> diagnostic) act" where
  "run_write h ko st info spec restart max_article max_entity transfer_id handle =
     act_bind rs_open_file (\<lambda>compression.
     act_then (rs_expect K_Write)
     (let start = (if fs_restarted spec then unwrap_or checkpoint_default restart else checkpoint_default) in
     act_bind act_get (\<lambda>s.
     act_then (rs_accept_with (ack_write (rs_peer_id s) D_OK (cp_sync start)))
     (act_then (rt_on_file (ko_truncate ko (position_of start)))
     (act_then (act_when (cp_sync start = 0) (rt_on_store (to_clear st)))
     (act_then (rs_event h info handle (Ev_Started transfer_id start))
     (act_bind (on_handler (hd_cancel_flag h info handle)) (\<lambda>cancel.
     act_bind (rs_receive_data h info handle
       (rs_data_params s info compression max_entity
         (if max_article = 0 then unat (fs_article_length spec) else max_article)) ko st start cancel) (\<lambda>d.
     act_bind (rs_close_transfer d D_OK) (\<lambda>diag. act_return (d, diag)))))))))))"

definition rs_read_start :: "'c store_ops \<Rightarrow> (('h, 'k, 'f, 'c, 't) rs_transfer, checkpoint) act" where
  "rs_read_start st =
     act_bind (rs_expect K_Read) (\<lambda>f.
     act_bind act_get (\<lambda>s.
     let point = unwrap_or 0 (get_restart_point f) in
     act_bind (if point = 0 then act_return checkpoint_default
       else case to_get st point (rt_store s) of
         Some cp \<Rightarrow> act_return cp
       | None \<Rightarrow>
          act_then (rs_reject_with (ack_read (rs_peer_id s) D_RESTART_UNKNOWN_SYNC))
            (act_fail (S_Negotiation
              (N_Invalid ''requester asked to restart at unknown sync point'' (ucast point))))) (\<lambda>start.
     act_then (rs_accept_with (ack_read (rs_peer_id s) D_OK))
     (act_then (act_when (cp_sync start = 0) (rt_on_store (to_clear st))) (act_return start)))))"

definition run_read :: "nat \<Rightarrow> ('h, 'k, 'f, 'c) server_handler \<Rightarrow> 't source_ops \<Rightarrow> 'c store_ops \<Rightarrow> session_info \<Rightarrow> file_spec \<Rightarrow>
    usize \<Rightarrow> u32 \<Rightarrow> u64 \<Rightarrow> (('h, 'k, 'f, 'c, 't) rs_transfer, data_result \<times> diagnostic) pact" where
  "run_read fuel h so st info spec max_entity transfer_id handle =
     act_pbind rs_open_file (\<lambda>compression.
     act_pbind (rs_read_start st) (\<lambda>start.
     act_pbind (rs_event h info handle (Ev_Started transfer_id start)) (\<lambda>_.
     act_pbind act_get (\<lambda>s.
     act_pbind (on_handler (hd_cancel_flag h info handle)) (\<lambda>cancel.
     pact_bind (rs_send_data fuel h info handle
       (rs_data_params s info compression max_entity (unat (fs_article_length spec))) so st start cancel) (\<lambda>d.
     act_pbind (rs_close_transfer d D_OK) (\<lambda>diag. pact_of (act_return (d, diag)))))))))"

section \<open>File selection\<close>

definition refuse_create :: "refusal \<Rightarrow> u32 \<Rightarrow> (('h, 'k, 'f, 'c, 'x) responder_scheme, unit) act" where
  "refuse_create r transfer_id =
     act_bind act_get (\<lambda>s.
     rs_reject_with (ack_create (rs_peer_id s) (rf_diag r) (Some transfer_id) 0 (rf_message r)))"

definition rs_entity_size :: "file_spec \<Rightarrow> connect_accept \<Rightarrow> usize" where
  "rs_entity_size spec a = min (unat (max (fs_max_entity_size spec) (word_of_nat HEADER_LEN + 1))) (unat (ca_max_entity a))"

text \<open>The end of a transfer as both handlers have it: an error is reported and returned.\<close>

definition rs_create_end :: "('h, 'k, 'f, 'c) server_handler \<Rightarrow> 't sink_ops \<Rightarrow> 'c store_ops \<Rightarrow> session_info \<Rightarrow> u64 \<Rightarrow>
    (session_error, data_result \<times> diagnostic) result \<Rightarrow> (('h, 'k, 'f, 'c, 't) rs_transfer, unit) act" where
  "rs_create_end h ko st info handle r =
     (case r of
        Inr (d, diag) \<Rightarrow>
          act_then (act_when (dr_end d = Completed \<and> diag_is_ok diag)
            (act_then (rt_on_file (ko_finish ko)) (rt_on_store (to_clear st))))
          (rs_event h info handle (Ev_Ended d diag))
      | Inl e \<Rightarrow> act_then (rs_event h info handle (Ev_Failed e)) (act_fail e))"

definition rs_select_end :: "('h, 'k, 'f, 'c) server_handler \<Rightarrow> 'c store_ops \<Rightarrow> session_info \<Rightarrow> u64 \<Rightarrow>
    (session_error, data_result \<times> diagnostic) result \<Rightarrow> (('h, 'k, 'f, 'c, 't) rs_transfer, unit) act" where
  "rs_select_end h st info handle r =
     (case r of
        Inr (d, diag) \<Rightarrow>
          act_then (act_when (dr_end d = Completed \<and> diag_is_ok diag) (rt_on_store (to_clear st)))
          (rs_event h info handle (Ev_Ended d diag))
      | Inl e \<Rightarrow> act_then (rs_event h info handle (Ev_Failed e)) (act_fail e))"

definition rs_lend :: "('h, 'k, 'f, 'c) responder \<Rightarrow> 't \<Rightarrow> 'c \<Rightarrow> ('h, 'k, 'f, 'c, 't) rs_transfer" where
  "rs_lend s x c = responder.extend s \<lparr>rt_file = x, rt_store = c\<rparr>"

definition drop_sink :: "('h, 'k, 'f, 'c, 'k) rs_transfer \<Rightarrow> ('h, 'k, 'f, 'c) responder" where
  "drop_sink t = (responder.truncate t)\<lparr>rs_sinks := rs_sinks t @ [(rt_file t, rt_store t)]\<rparr>"

definition drop_source :: "('h, 'k, 'f, 'c, 'f) rs_transfer \<Rightarrow> ('h, 'k, 'f, 'c) responder" where
  "drop_source t = (responder.truncate t)\<lparr>rs_sources := rs_sources t @ [(rt_file t, rt_store t)]\<rparr>"

definition handle_create :: "('h, 'k, 'f, 'c) server_handler \<Rightarrow> 'k sink_ops \<Rightarrow> 'c store_ops \<Rightarrow> fpdu \<Rightarrow>
    (('h, 'k, 'f, 'c) responder, unit) act" where
  "handle_create h ko st f =
     (let spec = spec_from_fpdu f in
     act_bind rs_info_of (\<lambda>info.
     act_bind (on_handler (hd_create h info spec)) (\<lambda>answer.
     case answer of
       Inl r \<Rightarrow> refuse_create r (fs_transfer_id spec)
     | Inr a \<Rightarrow>
        act_bind act_get (\<lambda>s.
        let transfer_id = unwrap_or (fs_transfer_id spec) (cra_transfer_id a);
            max_entity = rs_entity_size spec (rs_accept s) in
        act_then (rs_accept_with (ack_create (rs_peer_id s) D_OK (Some transfer_id) (word_of_nat max_entity) (cra_free_message a)))
        (\<lambda>s. case run_write h ko st info spec (cra_restart a) (cra_max_article a) max_entity transfer_id (cra_handle a)
                (rs_lend s (cra_sink a) (cra_checkpoints a)) of
           (r, t) \<Rightarrow> apsnd drop_sink (rs_create_end h ko st info (cra_handle a) r t))))))"

definition handle_select :: "nat \<Rightarrow> ('h, 'k, 'f, 'c) server_handler \<Rightarrow> 'f source_ops \<Rightarrow> 'c store_ops \<Rightarrow> fpdu \<Rightarrow>
    (('h, 'k, 'f, 'c) responder, unit) pact" where
  "handle_select fuel h so st f =
     (let spec = spec_from_fpdu f;
          attrs = (case fpdu_get_num f Pi_RequestedAttributes of None \<Rightarrow> ATTRIBUTES_ALL
                   | Some n \<Rightarrow> attributes_from_code (ucast n)) in
     act_pbind rs_info_of (\<lambda>info.
     act_pbind (on_handler (hd_select h info spec attrs)) (\<lambda>answer.
     act_pbind act_get (\<lambda>s.
     case answer of
       Inl r \<Rightarrow> pact_of (rs_reject_with (nack_select (rs_peer_id s) (rf_diag r) (rf_message r)))
     | Inr a \<Rightarrow>
        let max_entity = rs_entity_size spec (rs_accept s);
            answer = (sa_spec a)\<lparr>fs_max_entity_size := word_of_nat max_entity\<rparr>;
            answer = (if fs_transfer_id answer = 0 then answer\<lparr>fs_transfer_id := fs_transfer_id spec\<rparr> else answer) in
        act_pbind (rs_accept_with (spec_ack_select answer (rs_peer_id s) attrs)) (\<lambda>_ s.
          case run_read fuel h so st info answer max_entity (fs_transfer_id answer) (sa_handle a)
                 (rs_lend s (sa_source a) (sa_checkpoints a)) of
            None \<Rightarrow> None
          | Some (r, t) \<Rightarrow> Some (apsnd drop_source (rs_select_end h st info (sa_handle a) r t)))))))"

section \<open>Messages\<close>

text \<open>The segments of a message, appended to what was received so far.\<close>

function rs_segments :: "bytes \<Rightarrow> ('x conn_scheme, bytes) act" where
  "rs_segments message s =
     (case rs_next s of
        (Inl e, s') \<Rightarrow> (Inl e, s')
      | (Inr seg, s') \<Rightarrow>
         if f_kind seg = K_MsgMm then rs_segments (message @ unwrap_or [] (fpdu_get seg Pi_Message)) s'
         else if f_kind seg = K_MsgFm then (Inr (message @ unwrap_or [] (fpdu_get seg Pi_Message)), s')
         else unexpected seg s')"
  by pat_completeness auto
termination
  by (relation "measure (\<lambda>(m, s). backlog s)") (auto dest!: rs_next_backlog [OF sym])

declare rs_segments.simps [simp del]

definition handle_message :: "('h, 'k, 'f, 'c) server_handler \<Rightarrow> fpdu \<Rightarrow> (('h, 'k, 'f, 'c) responder, unit) act" where
  "handle_message h first =
     (let spec = spec_from_fpdu first;
          expects_reply = (case fpdu_get_num first Pi_RequestedAttributes of None \<Rightarrow> False | Some a \<Rightarrow> a AND 1 = 1);
          message = unwrap_or [] (fpdu_get first Pi_Message) in
     act_bind (if f_kind first = K_MsgDm then rs_segments message else act_return message) (\<lambda>message.
     act_bind rs_info_of (\<lambda>info.
     act_bind (on_handler (hd_message h info spec message expects_reply)) (\<lambda>answer.
     act_bind act_get (\<lambda>s.
     rs_accept_with
       (case answer of
          Inr reply \<Rightarrow> ack_msg (rs_peer_id s) D_OK (Some (fs_transfer_id spec)) reply
        | Inl r \<Rightarrow> ack_msg (rs_peer_id s) (rf_diag r) (Some (fs_transfer_id spec)) (map_option str_bytes (rf_message r))))))))"

section \<open>Connection\<close>

definition rs_first_entity :: "(('h, 'k, 'f, 'c) responder, bytes \<times> (rstring \<times> rstring) option) act" where
  "rs_first_entity =
     act_bind (on_link link_recv_entity) (\<lambda>entity.
     if is_preconnect entity then
       act_then (on_link (link_send_entity PRECONNECT_ACK))
       (act_bind (on_link link_recv_entity) (\<lambda>e. act_return (e, parse_preconnect entity)))
     else act_return (entity, None))"

definition carries_crc :: "bytes \<Rightarrow> bool" where
  "carries_crc entity \<longleftrightarrow>
     length entity = (case entity of b0 # b1 # _ \<Rightarrow> unat (from_be_bytes16 b0 b1) | _ \<Rightarrow> 0) + CRC_LEN"

definition rs_decode_connect :: "bytes \<Rightarrow> bool \<Rightarrow> (session_error, fpdu) result" where
  "rs_decode_connect entity crc =
     and_then (map_err S_Decode (split_entity entity crc)) (\<lambda>slices.
     case slices of
       [] \<Rightarrow> Inl (S_Transport (T_Invalid (length entity)))
     | b # _ \<Rightarrow> map_err S_Decode (decode b))"

definition connect_request_of :: "fpdu \<Rightarrow> (rstring \<times> rstring) option \<Rightarrow> rstring \<Rightarrow> connect_request" where
  "connect_request_of c preconnect remote_addr =
     \<lparr>cr_requester = unwrap_or [] (fpdu_get_text c Pi_Requester), cr_server = unwrap_or [] (fpdu_get_text c Pi_Server),
      cr_password = fpdu_get_text c Pi_AccessControl, cr_version = unwrap_or Version_E (get_version c),
      cr_sync = unwrap_or SYNC_NONE (get_sync_option c), cr_access = unwrap_or Access_Mixed (get_access_type c),
      cr_resync = (unwrap_or 0 (fpdu_get_num c Pi_Resync) = 1), cr_crc = (unwrap_or 0 (fpdu_get_num c Pi_Crc) = 1),
      cr_free_message = fpdu_get_text c Pi_FreeMessage, cr_preconnect = preconnect, cr_remote_addr = remote_addr\<rparr>"

definition rs_negotiate :: "connect_request \<Rightarrow> connect_accept \<Rightarrow> bool \<Rightarrow> negotiated" where
  "rs_negotiate req a crc =
     \<lparr>ng_version = (if cr_version req = Version_D then Version_D else Version_E),
      ng_sync = sync_negotiate (cr_sync req) (ca_sync a), ng_resync = (cr_resync req \<and> ca_resync a), ng_crc = crc\<rparr>"

definition rs_establish :: "connect_request \<Rightarrow> connect_accept \<Rightarrow> bool \<Rightarrow> (('h, 'k, 'f, 'c) responder, unit) act" where
  "rs_establish req a crc =
     (let n = rs_negotiate req a crc in
     act_then (act_modify (\<lambda>s. s\<lparr>rs_info := Some \<lparr>si_id = sc_session_id (rs_cfg s), si_requester = cr_requester req,
         si_server = cr_server req, si_remote_addr = cr_remote_addr req, si_negotiated = n\<rparr>, rs_accept := a\<rparr>))
     (act_bind act_get (\<lambda>s.
      rs_accept_with (aconnect (rs_peer_id s) (sc_conn_id (rs_cfg s)) (ng_version n) (ng_sync n) (ng_resync n)
        (ca_free_message a)))))"

definition rs_connection :: "('h, 'k, 'f, 'c) server_handler \<Rightarrow> (('h, 'k, 'f, 'c) responder, connect_request) act" where
  "rs_connection h =
     act_bind rs_first_entity (\<lambda>(entity, preconnect).
     let crc = carries_crc entity in
     act_then (act_modify (\<lambda>s. s\<lparr>cn_link := set_crc crc (cn_link s)\<rparr>))
     (case rs_decode_connect entity crc of
        Inl e \<Rightarrow> act_fail e
      | Inr c \<Rightarrow>
         if f_kind c \<noteq> K_Connect then unexpected c
         else
           act_then (rs_apply_received c)
           (act_then (act_modify (\<lambda>s. s\<lparr>rs_peer_id := id_src c\<rparr>))
           (act_bind act_get (\<lambda>s.
            let req = connect_request_of c preconnect (sc_remote_addr (rs_cfg s)) in
            if cr_crc req \<noteq> crc then act_fail (S_Decode (err_param CrcParameterMismatch))
            else
              act_bind (on_handler (hd_authenticate h req)) (\<lambda>answer.
              case answer of
                Inl r \<Rightarrow>
                  act_then (rs_reject_with (rconnect (rs_peer_id s) (rf_diag r) (rf_message r)))
                    (act_fail (S_Refused K_Connect (rf_diag r) (rf_message r)))
              | Inr a \<Rightarrow> act_then (rs_establish req a crc) (act_return req)))))))"

section \<open>The session\<close>

text \<open>One turn of the loop of the selection phase; the result tells whether it was released.\<close>

definition serve_fpdu :: "nat \<Rightarrow> ('h, 'k, 'f, 'c) server_handler \<Rightarrow> 'k sink_ops \<Rightarrow> 'f source_ops \<Rightarrow> 'c store_ops \<Rightarrow>
    access_type \<Rightarrow> fpdu \<Rightarrow> (('h, 'k, 'f, 'c) responder, bool) pact" where
  "serve_fpdu fuel h ko so st access f =
     (if f_kind f = K_Create then
       act_pbind (rs_apply_received f) (\<lambda>_.
       act_pbind (if \<not> allows_write access
         then refuse_create (refusal_new D_SELECT_NEGOTIATION) (unwrap_or 0 (get_transfer_id f))
         else handle_create h ko st f) (\<lambda>_. pact_of (act_return False)))
     else if f_kind f = K_Select then
       act_pbind (rs_apply_received f) (\<lambda>_.
       pact_bind (if \<not> allows_read access
         then pact_of (act_bind act_get (\<lambda>s. rs_reject_with (nack_select (rs_peer_id s) D_SELECT_NEGOTIATION None)))
         else handle_select fuel h so st f) (\<lambda>_. pact_of (act_return False)))
     else if f_kind f = K_Msg \<or> f_kind f = K_MsgDm then
       act_pbind (rs_apply_received f) (\<lambda>_.
       act_pbind (handle_message h f) (\<lambda>_. pact_of (act_return False)))
     else if f_kind f = K_Release then
       act_pbind (rs_apply_received f) (\<lambda>_.
       act_pbind act_get (\<lambda>s.
       act_pbind (rs_accept_with (relconf (rs_peer_id s) (sc_conn_id (rs_cfg s)))) (\<lambda>_. pact_of (act_return True))))
     else
       act_pbind (rs_apply_received f) (\<lambda>ignored.
       if ignored then pact_of (act_return False) else pact_of (unexpected f)))"

definition serve_step :: "nat \<Rightarrow> ('h, 'k, 'f, 'c) server_handler \<Rightarrow> 'k sink_ops \<Rightarrow> 'f source_ops \<Rightarrow> 'c store_ops \<Rightarrow>
    access_type \<Rightarrow> (('h, 'k, 'f, 'c) responder, bool) pact" where
  "serve_step fuel h ko so st access = act_pbind conn_recv (serve_fpdu fuel h ko so st access)"

end
