(* ===== verification/Server_Session.thy ===== *)
theory Server_Session
  imports Responder_Session
begin

text \<open>
  The loop of the server session and \<^verbatim>\<open>serve\<close>. Every turn of the loop takes an FPDU from what may still
  arrive and nothing the session does puts any back, so the loop is total up to the fuel of the sending
  loops in it.
\<close>

section \<open>Nothing a session does makes more arrive\<close>

definition pact_keeps :: "('s \<Rightarrow> 's \<Rightarrow> bool) \<Rightarrow> ('s, 'a) pact \<Rightarrow> bool" where
  "pact_keeps R m \<longleftrightarrow> (\<forall>s r s'. m s = Some (r, s') \<longrightarrow> R s s')"

lemma pact_keepsI: "(\<And>s r s'. m s = Some (r, s') \<Longrightarrow> R s s') \<Longrightarrow> pact_keeps R m"
  by (auto simp: pact_keeps_def)

lemma pact_keepsD: "pact_keeps R m \<Longrightarrow> m s = Some (r, s') \<Longrightarrow> R s s'"
  by (auto simp: pact_keeps_def)

lemma pact_keeps_of: "act_keeps R m \<Longrightarrow> pact_keeps R (pact_of m)"
  by (auto simp: pact_keeps_def pact_of_def act_keeps_def) (metis snd_conv)

lemma pact_keeps_bind:
  assumes "transp R" and m: "pact_keeps R m" and f: "\<And>x. pact_keeps R (f x)"
  shows "pact_keeps R (pact_bind m f)"
proof (rule pact_keepsI)
  fix s r s'
  assume "pact_bind m f s = Some (r, s')"
  then consider e where "m s = Some (Inl e, s')" | x s1 where "m s = Some (Inr x, s1)" "f x s1 = Some (r, s')"
    by (auto simp: pact_bind_def split: option.splits prod.splits sum.splits)
  then show "R s s'"
    by cases (use pact_keepsD [OF m] pact_keepsD [OF f] transpD [OF assms(1)] in blast)+
qed

lemma act_pbind_keeps:
  "transp R \<Longrightarrow> act_keeps R m \<Longrightarrow> (\<And>x. pact_keeps R (f x)) \<Longrightarrow> pact_keeps R (act_pbind m f)"
  unfolding act_pbind_def by (intro pact_keeps_bind pact_keeps_of)

lemmas pkeeps_intros = pact_keeps_bind [OF no_growth_order(2)] act_pbind_keeps [OF no_growth_order(2)] pact_keeps_of

lemma no_growth_modify: "(\<And>s. backlog (g s) = backlog s) \<Longrightarrow> act_keeps no_growth (act_modify g)"
  by (rule no_growth_same) auto

lemma no_growth_rule: "act_keeps no_growth m \<Longrightarrow> m s = (r, s') \<Longrightarrow> backlog s' \<le> backlog s"
  using act_keepsD [of no_growth m s r s'] by (simp add: no_growth_def)

section \<open>The data phase\<close>

lemma steady_no_growth: "act_keeps tx_steady m \<Longrightarrow> act_keeps no_growth m"
  by (simp add: act_keeps_def tx_steady_def no_growth_def)

lemma await_idt_backlog: "backlog (snd (await_idt peer (s :: 'x conn_scheme))) \<le> backlog s"
proof (induction peer s rule: await_idt.induct)
  case (1 peer s)
  obtain r s1 where 2: "conn_recv s = (r, s1)" by fastforce
  note le = no_growth_rule [OF keeps_recv 2]
  show ?case
  proof (cases r)
    case (Inr f)
    obtain q s2 where 3: "apply_received f s1 = (q, s2)" by fastforce
    note eq = apply_received_backlog [OF 3]
    show ?thesis
    proof (cases q)
      case q: (Inr b)
      note IH = "1.IH" [OF 2 [symmetric] Inr 3 [symmetric] q]
      let ?ack = "act_then (conn_send (ack_idt peer)) (\<lambda>s.
               (Inr (), s\<lparr>cn_machine := snd (machine_apply (Local L_Accept) (cn_machine s))\<rparr>)) :: ('x conn_scheme, unit) act"
      have "act_keeps no_growth ?ack"
        by (intro keeps_intros keeps_basic no_growth_same) (auto simp: backlog_def)
      then have "backlog (snd (?ack s2)) \<le> backlog s2" by (simp add: act_keeps_def no_growth_def)
      with 2 3 Inr q le eq IH show ?thesis by (subst await_idt.simps) auto
    qed (use 2 3 Inr le eq in \<open>subst await_idt.simps, simp\<close>)
  qed (use 2 le in \<open>subst await_idt.simps, simp\<close>)
qed

lemma keeps_await_idt: "act_keeps no_growth (await_idt peer)"
  by (simp add: act_keeps_def no_growth_def await_idt_backlog)

lemma try_recv_no_growth:
  assumes "link_try_recv l = (r, l')"
  shows "link_backlog l' \<le> link_backlog l"
proof (cases "pop_pending l")
  case (Pair q l1)
  show ?thesis
  proof (cases "q = None \<and> \<not> lk_closed l")
    case True
    with pop_pending_backlog(2) [of l l1] Pair have [simp]: "l1 = l" by simp
    obtain ev l2 where ev: "link_next_event l = (ev, l2)" by fastforce
    have le: "link_backlog l2 + (if lk_rx l = [] then 0 else event_size ev) \<le> link_backlog l"
      using next_event_backlog [OF ev] by (cases "lk_rx l = []") auto
    show ?thesis
    proof (cases ev)
      case (Rx_Entity e on)
      then have "lk_rx l \<noteq> []" using next_event_backlog(2) [OF ev] by auto
      obtain rq l3 where rq: "queue_entity e l2 = (rq, l3)" by fastforce
      have "link_backlog l' \<le> link_backlog l3"
        using assms Pair True ev Rx_Entity rq pop_pending_backlog [of l3]
        by (auto simp: link_try_recv_def act_then_def act_bind_def less_imp_le split: sum.splits prod.splits)
          (metis less_imp_le not_None_eq order_refl)
      with queue_entity_backlog [OF rq] le Rx_Entity \<open>lk_rx l \<noteq> []\<close> show ?thesis by simp
    qed (use assms Pair True ev le in \<open>auto simp: link_try_recv_def link_backlog_def\<close>)
  qed (use assms Pair pop_pending_backlog [of l] in \<open>auto simp: link_try_recv_def less_imp_le split: option.splits\<close>)
qed

lemma keeps_source: "act_keeps no_growth (sn_on_source g)"
  by (auto intro!: no_growth_same simp: sn_on_source_def act_on_def backlog_def split: prod.splits)

lemma keeps_handle_async: "act_keeps no_growth (handle_async p so st f)"
proof -
  note sn = steady_link [THEN steady_no_growth] steady_field [THEN steady_no_growth] keeps_source
  have restart: "act_keeps no_growth (sn_restart_at so cp)" for cp
    unfolding sn_restart_at_def by (intro keeps_intros sn no_growth_modify) (simp add: backlog_def)
  have "act_keeps no_growth (sn_handle_ack_syn st f)" "act_keeps no_growth (sn_handle_idt p f)"
    "act_keeps no_growth (sn_handle_resyn p so st f)"
    unfolding sn_handle_ack_syn_def sn_handle_idt_def sn_handle_resyn_def Let_def
    by (intro keeps_intros sn restart no_growth_modify; simp add: backlog_def keeps_intros sn restart)+
  then show ?thesis unfolding handle_async_def by (auto intro!: keeps_intros sn)
qed

lemma keeps_send_step: "act_keeps no_growth (send_step p so st)"
proof -
  note sn = steady_link [THEN steady_no_growth] steady_article [THEN steady_no_growth] keeps_source
    keeps_handle_async keeps_recv
  have poll: "act_keeps no_growth (on_link link_try_recv)"
    using try_recv_no_growth
    by (fastforce intro!: no_growthI simp: on_link_def backlog_def split: prod.splits)
  have cancel: "act_keeps no_growth (\<lambda>s. (Inr (case sn_cancel s of [] \<Rightarrow> False | c # _ \<Rightarrow> c), s\<lparr>sn_cancel := tl (sn_cancel s)\<rparr>))"
    by (rule no_growth_same) (auto simp: backlog_def)
  show ?thesis unfolding send_step_def interrupt_def
    by (auto intro!: keeps_intros sn poll cancel keeps_await_idt split: option.splits)
qed

lemma send_loop_backlog: "send_loop n p so st s = Some (r, s') \<Longrightarrow> backlog s' \<le> backlog s"
proof (induction n arbitrary: s)
  case (Suc n)
  obtain c s1 where step: "send_step p so st s = (c, s1)" by fastforce
  note le = no_growth_rule [OF keeps_send_step step]
  have fin: "backlog s' \<le> backlog s1" if "act_bind (sn_finish p) (\<lambda>_ s. (Inr (sn_result Completed s), s)) s1 = (r, s')"
  proof (rule no_growth_rule [of "act_bind (sn_finish p) (\<lambda>_ s. (Inr (sn_result Completed s), s))" s1 r s', OF _ that])
    show "act_keeps no_growth (act_bind (sn_finish p) (\<lambda>_ s. (Inr (sn_result Completed s), s)))"
      unfolding sn_finish_def
      by (intro keeps_intros steady_flush [THEN steady_no_growth] steady_push [THEN steady_no_growth]
          steady_link [THEN steady_no_growth] steady_field [THEN steady_no_growth] no_growth_same) auto
  qed
  show ?case
    using Suc.prems Suc.IH [of s1] step le fin by (auto split: sum.splits send_ctl.splits)
qed simp

lemma send_data_backlog:
  assumes "send_data fuel p so st start c x store cancel = Some (r, t)"
  shows "backlog t \<le> backlog c"
proof -
  obtain q s1 where s1: "sn_on_source (so_rewind so (position_of start)) (send_init p so start c x store cancel) = (q, s1)"
    by fastforce
  have "backlog s1 \<le> backlog c"
    using no_growth_rule [OF keeps_source s1] by (simp add: backlog_def send_init_def conn.defs)
  moreover have "backlog t \<le> backlog s1"
    using assms s1 by (cases q) (auto simp: send_data_def backlog_def dest!: send_loop_backlog)
  ultimately show ?thesis by simp
qed

lemma receive_data_backlog:
  assumes "receive_data p ko st start c x store cancel = (r, t)"
  shows "backlog t \<le> backlog c"
proof -
  have step: "act_keeps no_growth (recv_step p ko st)"
  proof (rule no_growthI)
    fix s r s'
    assume run: "recv_step p ko st s = (r, s')"
    let ?s = "s\<lparr>rv_cancel := tl (rv_cancel s)\<rparr>"
    have eq: "backlog ?s = backlog s" by (simp add: backlog_def)
    show "backlog s' \<le> backlog s"
    proof (cases "case rv_cancel s of [] \<Rightarrow> False | c # _ \<Rightarrow> c")
      case True
      let ?m = "act_then (interrupt p D_VOLUNTARY_STOP (cancel_code p))
         (act_return (Some (Interrupted (cancel_code p) D_VOLUNTARY_STOP False)))"
      have "act_keeps no_growth ?m" unfolding interrupt_def by (intro keeps_intros keeps_basic keeps_await_idt)
      from no_growth_rule [of ?m, OF this, of ?s r s'] run True eq show ?thesis by (simp add: recv_step_def act_bind_def)
    next
      case False
      obtain q s1 where q: "conn_recv ?s = (q, s1)" by fastforce
      have res: "act_keeps no_growth (act_then (rv_resynchronise p ko st) (act_return None))"
        by (intro keeps_intros keeps_resynchronise)
      have "backlog s' \<le> backlog s1"
        using run False q no_growth_rule [OF keeps_handle, of p ko st _ s1 r s']
          no_growth_rule [of "act_then (rv_resynchronise p ko st) (act_return None)" s1 r s', OF res]
        by (auto simp: recv_step_def act_bind_def split: sum.splits session_error.splits if_splits)
      with no_growth_rule [OF keeps_recv q] eq show ?thesis by simp
    qed
  qed
  have loop: "receive_loop p ko st s = (r, t) \<Longrightarrow> backlog t \<le> backlog s" for s
  proof (induction "backlog s" arbitrary: s rule: less_induct)
    case less
    obtain q s1 where q: "recv_step p ko st s = (q, s1)" by fastforce
    note le = no_growth_rule [OF step q]
    show ?case
    proof (cases "q = Inr None")
      case True
      from less.hyps [of s1] recv_step_backlog [of p ko st s s1] q True less.prems show ?thesis
        by (subst (asm) (2) receive_loop.simps) simp
    next
      case False
      with less.prems q le show ?thesis
        by (subst (asm) receive_loop.simps) (auto split: sum.splits option.splits)
    qed
  qed
  from loop [of "recv_init p start c x store cancel"] assms show ?thesis
    by (simp add: receive_data_def recv_init_def backlog_def conn.defs)
qed

section \<open>The operations of the server\<close>

lemma keeps_event: "act_keeps no_growth (quiet_event e)" "act_keeps no_growth (receive_event k n)"
  "act_keeps no_growth (rs_apply_received f)" "act_keeps no_growth (rs_accept_with g)" "act_keeps no_growth (unexpected f)"
  by (rule no_growth_same, erule quiet_event_backlog receive_event_backlog rs_apply_received_backlog rs_accept_with_backlog)+
    (auto intro!: no_growth_same simp: unexpected_def)

lemma keeps_reject: "act_keeps no_growth (rs_reject_with f)"
  unfolding rs_reject_with_def by (intro keeps_intros keeps_basic)

lemma keeps_handler: "act_keeps no_growth (on_handler g)" "act_keeps no_growth (rs_event h i n e)" "act_keeps no_growth rs_info_of"
  "act_keeps no_growth (rt_on_file u)" "act_keeps no_growth (rt_on_store v)"
  by (auto intro!: no_growth_same simp: on_handler_def rs_event_def rs_info_of_def rt_on_file_def rt_on_store_def act_on_def
      act_modify_def backlog_def split: prod.splits option.splits)

lemma rs_next_no_growth: "backlog (snd (rs_next s)) \<le> backlog s"
proof (induction s rule: rs_next.induct)
  case (1 s)
  obtain r s1 where 2: "conn_recv s = (r, s1)" by fastforce
  note le = no_growth_rule [OF keeps_recv 2]
  show ?case
  proof (cases r)
    case (Inr f)
    obtain q s2 where 3: "rs_apply_received f s1 = (q, s2)" by fastforce
    from 2 3 Inr le rs_apply_received_backlog [OF 3] "1.IH" [OF 2 [symmetric] Inr 3 [symmetric]] show ?thesis
      by (subst rs_next.simps) (fastforce intro: order_trans split: sum.splits)
  qed (use 2 le in \<open>subst rs_next.simps, simp\<close>)
qed

lemma keeps_next: "act_keeps no_growth rs_next"
  by (simp add: act_keeps_def no_growth_def rs_next_no_growth)

lemma rs_close_no_growth: "backlog (snd (rs_close_transfer d diag s)) \<le> backlog s"
proof (induction d diag s rule: rs_close_transfer.induct)
  case (1 d diag s)
  obtain r s1 where 2: "rs_next s = (r, s1)" by fastforce
  note le = no_growth_rule [OF keeps_next 2]
  show ?case
  proof (cases r)
    case (Inr f)
    obtain q s2 where 3: "rs_close_step d f diag s1 = (q, s2)" by fastforce
    from 2 3 Inr le rs_close_step_backlog [OF 3] "1.IH" [OF 2 [symmetric] Inr 3 [symmetric]] show ?thesis
      by (subst rs_close_transfer.simps) (fastforce intro: order_trans split: sum.splits)
  qed (use 2 le in \<open>subst rs_close_transfer.simps, simp\<close>)
qed

lemma rs_segments_no_growth: "backlog (snd (rs_segments m s)) \<le> backlog s"
proof (induction m s rule: rs_segments.induct)
  case (1 m s)
  obtain r s1 where 2: "rs_next s = (r, s1)" by fastforce
  note le = no_growth_rule [OF keeps_next 2]
  show ?case
  proof (cases r)
    case (Inr f)
    from 2 Inr le "1.IH" [OF 2 [symmetric] Inr] show ?thesis
      by (subst rs_segments.simps) (auto simp: unexpected_def)
  qed (use 2 le in \<open>subst rs_segments.simps, simp\<close>)
qed

lemma keeps_loops: "act_keeps no_growth (rs_close_transfer d diag)" "act_keeps no_growth (rs_segments m)"
  by (simp_all add: act_keeps_def no_growth_def rs_close_no_growth rs_segments_no_growth)

lemma keeps_expect: "act_keeps no_growth (rs_expect k)" "act_keeps no_growth rs_open_file"
proof -
  show *: "act_keeps no_growth (rs_expect k)" for k
    unfolding rs_expect_def by (intro keeps_intros keeps_next) (auto intro!: keeps_intros keeps_event)
  show "act_keeps no_growth rs_open_file"
    unfolding rs_open_file_def Let_def by (intro keeps_intros * keeps_event)
qed

lemma keeps_data: "act_keeps no_growth (rs_receive_data h i n p ko st start cancel)"
  "pact_keeps no_growth (rs_send_data fuel h i n p so st start cancel)"
  by (auto intro!: no_growthI pact_keepsI simp: rs_receive_data_def rs_send_data_def no_growth_def backlog_def
      dest!: receive_data_backlog send_data_backlog split: prod.splits option.splits)

lemmas keeps_server = keeps_intros keeps_basic keeps_event keeps_reject keeps_handler keeps_next keeps_loops keeps_expect
  keeps_data

lemma keeps_run: "act_keeps no_growth (run_write h ko st info spec restart ma me tid handle)"
  "pact_keeps no_growth (run_read fuel h so st info spec me tid handle)"
proof -
  show "act_keeps no_growth (run_write h ko st info spec restart ma me tid handle)"
    unfolding run_write_def Let_def by (intro keeps_server)
  have "act_keeps no_growth (rs_read_start st)"
    unfolding rs_read_start_def Let_def by (auto intro!: keeps_server split: option.splits)
  then show "pact_keeps no_growth (run_read fuel h so st info spec me tid handle)"
    unfolding run_read_def by (intro pkeeps_intros keeps_server)
qed

lemma truncate_backlog: "backlog (responder.truncate t) = backlog t" "backlog (rs_lend s x c) = backlog s"
  by (simp_all add: backlog_def responder.defs rs_lend_def)

lemma drop_backlog: "backlog (drop_sink t) = backlog t" "backlog (drop_source u) = backlog u"
  using truncate_backlog(1) by (simp_all add: drop_sink_def drop_source_def backlog_def)

lemma keeps_end: "act_keeps no_growth (rs_create_end h ko st i n r)" "act_keeps no_growth (rs_select_end h st i n r)"
  unfolding rs_create_end_def rs_select_end_def by (auto intro!: keeps_server split: sum.splits)

lemma lent_backlog:
  assumes "run_write h ko st info spec restart ma me tid handle (rs_lend s x c) = (r, t)"
    and "rs_create_end h ko st info n r t = (q, u)"
  shows "backlog (drop_sink u) \<le> backlog s"
  using no_growth_rule [OF keeps_run(1) assms(1)] no_growth_rule [OF keeps_end(1) assms(2)]
  by (simp add: drop_backlog truncate_backlog)

lemma lent_source_backlog:
  assumes "run_read fuel h so st info spec me tid handle (rs_lend s x c) = Some (r, t)"
    and "rs_select_end h st info n r t = (q, u)"
  shows "backlog (drop_source u) \<le> backlog s"
  using pact_keepsD [OF keeps_run(2) assms(1)] no_growth_rule [OF keeps_end(2) assms(2)]
  by (simp add: drop_backlog truncate_backlog no_growth_def)

lemma keeps_refuse: "act_keeps no_growth (refuse_create r n)"
  unfolding refuse_create_def by (intro keeps_server)

lemma keeps_create: "act_keeps no_growth (handle_create h ko st f)"
proof -
  have "act_keeps no_growth (\<lambda>s. case run_write h ko st info spec restart ma me tid handle (rs_lend s x c) of
      (r, t) \<Rightarrow> apsnd drop_sink (rs_create_end h ko st info n r t))" for info spec restart ma me tid handle x c n
    by (rule no_growthI) (auto simp: apsnd_def map_prod_def dest: lent_backlog split: prod.splits)
  then show ?thesis
    unfolding handle_create_def Let_def by (auto intro!: keeps_server keeps_refuse split: sum.splits)
qed

lemma keeps_select: "pact_keeps no_growth (handle_select fuel h so st f)"
proof -
  have "pact_keeps no_growth (\<lambda>s. case run_read fuel h so st info spec me tid handle (rs_lend s x c) of
      None \<Rightarrow> None | Some (r, t) \<Rightarrow> Some (apsnd drop_source (rs_select_end h st info n r t)))"
    for info spec me tid handle x c n
    by (rule pact_keepsI)
      (auto simp: apsnd_def map_prod_def no_growth_def dest: lent_source_backlog split: prod.splits option.splits)
  then show ?thesis
    unfolding handle_select_def Let_def by (auto intro!: pkeeps_intros keeps_server split: sum.splits)
qed

lemma keeps_message: "act_keeps no_growth (handle_message h f)"
  unfolding handle_message_def Let_def by (auto intro!: keeps_server)

lemma serve_step_backlog:
  assumes "serve_step fuel h ko so st access s = Some (Inr b, s')"
  shows "backlog s' < backlog s"
proof -
  from assms obtain f s1 where f: "conn_recv s = (Inr f, s1)"
    by (auto simp: serve_step_def act_pbind_eq_Inr)
  with assms have "serve_fpdu fuel h ko so st access f s1 = Some (Inr b, s')"
    by (simp add: serve_step_def act_pbind_eq)
  moreover have "pact_keeps no_growth (serve_fpdu fuel h ko so st access f)"
    unfolding serve_fpdu_def
    by (auto intro!: pkeeps_intros keeps_server keeps_refuse keeps_create keeps_select keeps_message)
  ultimately have "backlog s' \<le> backlog s1" using pact_keepsD by (metis no_growth_def)
  with conn_recv_backlog(1) [OF f] show ?thesis by simp
qed

section \<open>The session\<close>

function serve_loop :: "nat \<Rightarrow> ('h, 'k, 'f, 'c) server_handler \<Rightarrow> 'k sink_ops \<Rightarrow> 'f source_ops \<Rightarrow> 'c store_ops \<Rightarrow>
    access_type \<Rightarrow> (('h, 'k, 'f, 'c) responder, unit) pact" where
  "serve_loop fuel h ko so st access s =
     (case serve_step fuel h ko so st access s of
        None \<Rightarrow> None
      | Some (Inl e, s') \<Rightarrow> Some (Inl e, s')
      | Some (Inr released, s') \<Rightarrow> if released then Some (Inr (), s') else serve_loop fuel h ko so st access s')"
  by pat_completeness auto
termination
  by (relation "measure (\<lambda>(n, h, ko, so, st, a, s). backlog s)") (auto dest: serve_step_backlog)

declare serve_loop.simps [simp del]

definition rs_run :: "nat \<Rightarrow> ('h, 'k, 'f, 'c) server_handler \<Rightarrow> 'k sink_ops \<Rightarrow> 'f source_ops \<Rightarrow> 'c store_ops \<Rightarrow>
    (('h, 'k, 'f, 'c) responder, unit) pact" where
  "rs_run fuel h ko so st = act_pbind (rs_connection h) (\<lambda>req. serve_loop fuel h ko so st (cr_access req))"

definition responder_new :: "frame_writer \<Rightarrow> rx_event list \<Rightarrow> responder_config \<Rightarrow> 'h \<Rightarrow> ('h, 'k, 'f, 'c) responder" where
  "responder_new w rx cfg hs =
     \<lparr>cn_link = link_new w rx, cn_machine = machine_new Server, rs_cfg = cfg, rs_handler = hs, rs_peer_id = 0,
      rs_info = None, rs_accept = connect_accept_default, rs_sinks = [], rs_sources = []\<rparr>"

text \<open>What \<^verbatim>\<open>serve\<close> does when the session has ended: the application learns it, the requester may get an ABORT.\<close>

definition aborts :: "session_error \<Rightarrow> bool" where
  "aborts e \<longleftrightarrow> \<not> (\<exists>d m. e = S_Aborted d m) \<and> \<not> (\<exists>t. e = S_Transport t)"

lemma aborts_code [code]:
  "aborts e = (case e of S_Aborted _ _ \<Rightarrow> False | S_Transport _ \<Rightarrow> False | _ \<Rightarrow> True)"
  by (cases e) (auto simp: aborts_def)

definition serve_end :: "('h, 'k, 'f, 'c) server_handler \<Rightarrow> (session_error, unit) result \<Rightarrow> ('h, 'k, 'f, 'c) responder \<Rightarrow>
    ('h, 'k, 'f, 'c) responder" where
  "serve_end h r s =
     (let s = (case rs_info s of
          None \<Rightarrow> s
        | Some info \<Rightarrow> s\<lparr>rs_handler := hd_session_closed h info (case r of Inl e \<Rightarrow> Some e | Inr _ \<Rightarrow> None) (rs_handler s)\<rparr>)
      in case r of
        Inr _ \<Rightarrow> s
      | Inl e \<Rightarrow>
         if m_state (cn_machine s) \<noteq> Cn01 \<and> aborts e
         then snd (conn_send (abort (rs_peer_id s) (sc_conn_id (rs_cfg s)) (abort_diag e)) s) else s)"

definition serve :: "nat \<Rightarrow> ('h, 'k, 'f, 'c) server_handler \<Rightarrow> 'k sink_ops \<Rightarrow> 'f source_ops \<Rightarrow> 'c store_ops \<Rightarrow>
    frame_writer \<Rightarrow> rx_event list \<Rightarrow> responder_config \<Rightarrow> 'h \<Rightarrow>
    ((session_error, unit) result \<times> ('h, 'k, 'f, 'c) responder) option" where
  "serve fuel h ko so st w rx cfg hs =
     (case rs_run fuel h ko so st (responder_new w rx cfg hs) of
        None \<Rightarrow> None
      | Some (r, s) \<Rightarrow> Some (r, serve_end h r s))"

end
