(* ===== verification/Datapath_Quiet.thy ===== *)
theory Datapath_Quiet
  imports Datapath_Live
begin

text \<open>
  What an undisturbed sender does depends on nothing that arrives after its phase: the polls of its turns
  find nothing, and the rest of the queue is still there when the phase has ended.
\<close>

section \<open>Actions that do not read the queue\<close>

definition with_rx :: "rx_event list \<Rightarrow> 'x conn_scheme \<Rightarrow> 'x conn_scheme" where
  "with_rx evs s = s\<lparr>cn_link := (cn_link s)\<lparr>lk_rx := evs\<rparr>\<rparr>"

lemma with_rx_simps [simp]:
  "cn_machine (with_rx evs s) = cn_machine s" "lk_rx (cn_link (with_rx evs s)) = evs"
  "lk_pending (cn_link (with_rx evs s)) = lk_pending (cn_link s)" "lk_closed (cn_link (with_rx evs s)) = lk_closed (cn_link s)"
  "lk_crc (cn_link (with_rx evs s)) = lk_crc (cn_link s)" "lk_writer (cn_link (with_rx evs s)) = lk_writer (cn_link s)"
  "with_rx evs (with_rx evs' s) = with_rx evs s" "lk_rx (cn_link s) = evs \<Longrightarrow> with_rx evs s = s"
  by (auto simp: with_rx_def)

lemma with_rx_send_fields [simp]:
  "sn_entity (with_rx evs s) = sn_entity s" "sn_packer (with_rx evs s) = sn_packer s" "sn_store (with_rx evs s) = sn_store s"
  "sn_source (with_rx evs s) = sn_source s" "sn_compressor (with_rx evs s) = sn_compressor s"
  "sn_sync_no (with_rx evs s) = sn_sync_no s" "sn_prev_pos (with_rx evs s) = sn_prev_pos s"
  "sn_data_bytes (with_rx evs s) = sn_data_bytes s" "sn_articles (with_rx evs s) = sn_articles s"
  "sn_bytes_since_sync (with_rx evs s) = sn_bytes_since_sync s" "sn_cancel (with_rx evs s) = sn_cancel s"
  "sn_unacked (with_rx evs s) = sn_unacked s" "sn_progress (with_rx evs s) = sn_progress s"
  "sn_total_hint (with_rx evs s) = sn_total_hint s"
  by (simp_all add: with_rx_def)

definition act_blind :: "('x conn_scheme, 'a) act \<Rightarrow> bool" where
  "act_blind m \<longleftrightarrow> (\<forall>evs s. m (with_rx evs s) = apsnd (with_rx evs) (m s))"

lemma act_blindD: "act_blind m \<Longrightarrow> m (with_rx evs s) = apsnd (with_rx evs) (m s)"
  by (simp add: act_blind_def)

lemma blind_bind: "act_blind m \<Longrightarrow> (\<And>x. act_blind (f x)) \<Longrightarrow> act_blind (act_bind m f)"
  unfolding act_blind_def act_bind_def by (auto split: prod.splits sum.splits)

lemma blind_then: "act_blind m \<Longrightarrow> act_blind n \<Longrightarrow> act_blind (act_then m n)"
  unfolding act_then_def by (rule blind_bind)

lemma blind_get: "(\<And>evs s. f (with_rx evs s) = f s) \<Longrightarrow> (\<And>s. act_blind (f s)) \<Longrightarrow> act_blind (act_bind act_get f)"
  by (simp add: act_blind_def)

lemma blind_pure: "act_blind (act_return x)" "act_blind (act_fail e)"
  by (simp_all add: act_blind_def act_return_def act_fail_def)

lemma blind_modify: "(\<And>evs s. g (with_rx evs s) = with_rx evs (g s)) \<Longrightarrow> act_blind (act_modify g)"
  by (simp add: act_blind_def act_modify_def)

lemma blind_when: "(b \<Longrightarrow> act_blind m) \<Longrightarrow> act_blind (act_when b m)"
  by (simp add: act_when_def blind_pure)

lemma blind_each: "(\<And>x. act_blind (f x)) \<Longrightarrow> act_blind (act_each f xs)"
  by (induction xs) (auto intro: blind_then blind_pure)

lemma blind_on:
  "(\<And>evs s. get (with_rx evs s) = get s) \<Longrightarrow> (\<And>p evs s. put p (with_rx evs s) = with_rx evs (put p s)) \<Longrightarrow>
    act_blind (act_on get put h f)"
  by (simp add: act_blind_def act_on_def split: prod.splits)

lemmas blind_intros = blind_then blind_pure blind_when blind_each

lemma blind_local: "act_blind (apply_local e)"
  unfolding apply_local_def by (intro blind_bind blind_on blind_pure) (simp_all add: with_rx_def)

lemma blind_send: "act_blind (on_link (link_send_entity e))"
  by (auto simp: act_blind_def on_link_def link_send_entity_def act_on_def with_rx_def split: prod.splits)

section \<open>The actions of the sender\<close>

text \<open>Updates of the fields of a sender commute with \<open>with_rx\<close>.\<close>

lemma with_rx_send_updates [simp]:
  "with_rx evs (s\<lparr>sn_entity := b\<rparr>) = (with_rx evs s)\<lparr>sn_entity := b\<rparr>"
  "with_rx evs (s\<lparr>sn_packer := q\<rparr>) = (with_rx evs s)\<lparr>sn_packer := q\<rparr>"
  "with_rx evs (s\<lparr>sn_compressor := c\<rparr>) = (with_rx evs s)\<lparr>sn_compressor := c\<rparr>"
  "with_rx evs (s\<lparr>sn_source := x\<rparr>) = (with_rx evs s)\<lparr>sn_source := x\<rparr>"
  "with_rx evs (s\<lparr>sn_store := k\<rparr>) = (with_rx evs s)\<lparr>sn_store := k\<rparr>"
  "with_rx evs (s\<lparr>sn_cancel := bs\<rparr>) = (with_rx evs s)\<lparr>sn_cancel := bs\<rparr>"
  "with_rx evs (s\<lparr>sn_sync_no := n\<rparr>) = (with_rx evs s)\<lparr>sn_sync_no := n\<rparr>"
  "with_rx evs (s\<lparr>sn_progress := ps\<rparr>) = (with_rx evs s)\<lparr>sn_progress := ps\<rparr>"
  "with_rx evs (s\<lparr>sn_prev_pos := q'\<rparr>) = (with_rx evs s)\<lparr>sn_prev_pos := q'\<rparr>"
  "with_rx evs (s\<lparr>sn_unacked := us\<rparr>) = (with_rx evs s)\<lparr>sn_unacked := us\<rparr>"
  "with_rx evs (s\<lparr>sn_bytes_since_sync := m\<rparr>) = (with_rx evs s)\<lparr>sn_bytes_since_sync := m\<rparr>"
  "with_rx evs (s\<lparr>sn_data_bytes := m\<rparr>) = (with_rx evs s)\<lparr>sn_data_bytes := m\<rparr>"
  "with_rx evs (s\<lparr>sn_articles := m\<rparr>) = (with_rx evs s)\<lparr>sn_articles := m\<rparr>"
  by (cases s; simp add: with_rx_def)+

lemma sn_send_entity_get:
  "sn_send_entity = act_bind act_get (\<lambda>s. act_then (act_modify (\<lambda>s. s\<lparr>sn_entity := snd (builder_take (sn_entity s))\<rparr>))
     (on_link (link_send_entity (fst (builder_take (sn_entity s))))))"
  by (rule ext) (simp add: sn_send_entity_def Let_def split: prod.splits)

lemma blind_sender:
  "act_blind sn_send_entity" "act_blind (sn_push f)" "act_blind sn_flush_packer" "act_blind (sn_compress a)" "act_blind sn_report"
  "act_blind (sn_on_store k)" "act_blind (sn_on_source j)"
proof -
  show e: "act_blind sn_send_entity"
    unfolding sn_send_entity_get by (intro blind_get blind_then blind_modify blind_send) simp_all
  show p: "act_blind (sn_push f)" for f
    unfolding sn_push_get by (intro blind_get blind_then blind_when blind_on e) simp_all
  show "act_blind sn_flush_packer"
    unfolding sn_flush_get
    by (intro blind_bind) (auto simp: act_blind_def intro: blind_pure [THEN act_blindD] p [THEN act_blindD] split: option.splits)
  show "act_blind (sn_compress a)" by (simp add: act_blind_def sn_compress_def split: option.splits prod.splits)
  show "act_blind sn_report" unfolding sn_report_def by (rule blind_modify) simp
  show "act_blind (sn_on_store k)" "act_blind (sn_on_source j)" unfolding sn_on_store_def sn_on_source_def by (rule blind_on; simp)+
qed

lemma blind_article: "act_blind (sn_article p so st a)"
proof -
  have syn: "act_blind (sn_put_syn p)" "act_blind (sn_mark_sync p st)"
    unfolding sn_put_syn_def sn_mark_sync_def by (intro blind_intros blind_get blind_sender blind_local blind_modify; simp)+
  have sync: "act_blind (sn_sync_point p st a w)" for w
    unfolding sn_sync_point_def
    by (intro blind_then blind_get syn) (auto intro!: blind_intros blind_sender blind_modify)
  have pack: "act_blind (sn_pack w)" for w
    unfolding sn_pack_def
    by (intro blind_bind blind_intros blind_get blind_sender) (auto simp: act_blind_def Let_def split: prod.splits)
  have wire: "act_blind (sn_wire p st a)"
    unfolding sn_wire_def
    by (intro blind_bind blind_get blind_sender) (auto intro!: blind_pure sync split: option.splits)
  show ?thesis
    unfolding sn_article_def by (intro blind_bind blind_then blind_sender blind_local pack wire blind_modify) simp
qed

lemma blind_finish: "act_blind (sn_finish p)"
  unfolding sn_finish_def by (intro blind_then blind_sender blind_local)

section \<open>The phase\<close>

lemma send_step_rx:
  assumes "lk_pending (cn_link s) = []" and "\<not> lk_closed (cn_link s)" and "lk_rx (cn_link s) = []"
    and "list_all Not (sn_cancel s)" and "send_window p = 0" and "evs = [] \<or> hd evs = Rx_Nothing"
  shows "send_step p so st (with_rx evs s) = apsnd (with_rx (tl evs)) (send_step p so st s)"
proof -
  let ?m = "act_bind (sn_on_source (so_next so)) (\<lambda>a. case a of None \<Rightarrow> act_return Tx_Eof
      | Some article \<Rightarrow> act_then (sn_article p so st article) (act_return Tx_Continue))"
  have blind: "act_blind ?m"
    by (intro blind_bind blind_sender) (auto intro!: blind_then blind_pure blind_article split: option.splits)
  have nc: "\<not> (case sn_cancel s of [] \<Rightarrow> False | c # _ \<Rightarrow> c)" using assms(4) by (cases "sn_cancel s") auto
  have step: "send_step p so st (with_rx evs' s) = ?m (with_rx (tl evs') (s\<lparr>sn_cancel := tl (sn_cancel s)\<rparr>))"
    if "evs' = [] \<or> hd evs' = Rx_Nothing" for evs'
  proof -
    have "on_link link_try_recv (with_rx evs' s) = (Inr None, with_rx (tl evs') s)"
      using that assms(1,2)
      by (cases evs') (auto simp: on_link_def link_try_recv_def pop_pending_def link_next_event_def with_rx_def)
    with nc assms(5) show ?thesis by (simp add: send_step_def act_bind_def act_get_def)
  qed
  have "send_step p so st s = ?m (s\<lparr>sn_cancel := tl (sn_cancel s)\<rparr>)"
    using step [of "[]"] assms(3) by (simp add: with_rx_simps(8))
  with step [OF assms(6)] show ?thesis by (simp only: act_blindD [OF blind])
qed

context live_source
begin

lemma send_loop_rx:
  assumes "calm (Suc (length rest)) [] K store_live s" and "lk_rx (cn_link s) = []" and "ready p r d0 start out s sent rest"
    and "ra_partial r = None" and "(d0 = None) = (dp_compression p = Comp_None)"
    and "13 \<le> dp_max_entity p" "dp_max_entity p \<le> MAX_FPDU_LEN" and "send_window p = 0"
  shows "send_loop n p so st (with_rx (replicate (Suc (length rest)) Rx_Nothing @ rx) s) =
    map_option (apsnd (with_rx rx)) (send_loop n p so st s)"
  using assms(1-3)
proof (induction n arbitrary: s sent rest)
  case (Suc n)
  have q: "lk_pending (cn_link s) = []" "\<not> lk_closed (cn_link s)" "list_all Not (sn_cancel s)"
    using Suc.prems(1) by (simp_all add: calm_def)
  note rx = send_step_rx [OF q(1,2) Suc.prems(2) q(3) assms(8)]
  obtain s1 where s1: "send_step p so st s = (Inr (if rest = [] then Tx_Eof else Tx_Continue), s1)"
      "calm (length rest) [] K store_live s1" "rest \<noteq> [] \<longrightarrow> ready p r d0 start out s1 (sent @ [hd rest]) (tl rest)"
    using send_step_calm [OF Suc.prems(1,3) assms(4-8)] by blast
  have rx1: "lk_rx (cn_link s1) = []"
    using rx [of "[]" so st] s1(1) Suc.prems(2) by (metis apsnd_conv list.sel(2) prod.inject with_rx_simps(2,8))
  have step: "send_step p so st (with_rx (replicate (Suc (length rest)) Rx_Nothing @ rx) s) =
      (Inr (if rest = [] then Tx_Eof else Tx_Continue), with_rx (replicate (length rest) Rx_Nothing @ rx) s1)"
    using rx [of "replicate (Suc (length rest)) Rx_Nothing @ rx" so st] s1(1) by simp
  show ?case
  proof (cases rest)
    case Nil
    then show ?thesis using step s1(1) act_blindD [OF blind_finish, of p rx s1]
      by (auto simp: act_bind_def sn_result_def split: prod.splits sum.splits)
  next
    case (Cons a as)
    with Suc.IH [of as s1 "sent @ [a]"] s1 rx1 step show ?thesis by simp
  qed
qed simp

text \<open>
  A phase that nothing disturbs, and the same phase with the queue \<open>rx\<close> behind the polls that find nothing.
\<close>

lemma send_data_any_rx:
  assumes y: "yields src as" and pos: "position_of start = so_position so src"
    and "list_all (admissible p (dp_max_article p)) as" and "unat (cp_sync start) + length as < 2 ^ 24"
    and link: "lk_rx (cn_link c) = []" "lk_pending (cn_link c) = []" "\<not> lk_closed (cn_link c)"
      "script_ok (wr_script (lk_writer (cn_link c)))"
    and fr: "wr_framing (lk_writer (cn_link c)) = LengthPrefixed" and "is_sending (m_state (cn_machine c))"
    and size: "13 \<le> dp_max_entity p" "dp_max_entity p \<le> MAX_FPDU_LEN" and "send_window p = 0"
    and "list_all Not cancel" and "store_live store" and "length as < fuel"
  shows "\<exists>res s'. send_data fuel p so st start c src store cancel = Some (Inr res, s') \<and> dr_end res = Completed \<and>
    phase_done [] c s' \<and> (\<forall>rx. send_data fuel p so st start (with_rx (replicate (Suc (length as)) Rx_Nothing @ rx) c) src store cancel =
      Some (Inr res, with_rx rx s'))"
proof -
  let ?s = "send_init p so start c src store cancel"
  obtain x where x: "so_rewind so (position_of start) src = (Inr (), x)" using rewind_ok [OF y] by blast
  let ?s1 = "?s\<lparr>sn_source := x, sn_prev_pos := so_position so x\<rparr>"
  have silent: "silent (Suc (length as)) (lk_rx (cn_link c)) []" "no_resyn (cn_link c)"
    using link(1,2) by (simp_all add: silent_def no_resyn_def)
  have "yields x as" using rewind_yields [OF y y refl] x pos by simp
  with send_init_inv [OF fr size, of start src store cancel] assms(3,4) link silent(2)
  have rd: "ready p (reassembler_new (dp_max_article p)) (receiver_decompressor p) start (wr_out (lk_writer (cn_link c))) ?s1 [] as"
    by (simp add: ready_def reassembler_new_def) (simp add: send_init_def conn.defs)
  have cm: "calm (Suc (length as)) [] c store_live ?s1" "lk_rx (cn_link ?s1) = []"
    using link silent(1) assms(10,14,15) by (simp_all add: calm_def wr_ok_def send_init_def conn.defs)
  have ra: "ra_partial (reassembler_new (dp_max_article p)) = None" by (simp add: reassembler_new_def)
  have d: "(receiver_decompressor p = None) = (dp_compression p = Comp_None)" by (simp add: receiver_decompressor_def)
  obtain res s' where s': "send_loop fuel p so st ?s1 = Some (Inr res, s')" "dr_end res = Completed" "phase_done [] c s'"
    using send_loop_completes [OF cm(1) rd assms(16) ra d size assms(13)] by blast
  have eq: "send_data fuel p so st start (with_rx evs c) src store cancel = send_loop fuel p so st (with_rx evs ?s1)" for evs
    using x by (simp add: send_data_def sn_on_source_def act_on_def) (simp add: send_init_def conn.defs with_rx_def)
  have "send_data fuel p so st start (with_rx (replicate (Suc (length as)) Rx_Nothing @ rx) c) src store cancel =
      Some (Inr res, with_rx rx s')" for rx
    using eq s'(1) send_loop_rx [OF cm rd ra d size assms(13), of fuel rx] by simp
  moreover have "send_data fuel p so st start c src store cancel = Some (Inr res, s')"
    using eq [of "[]"] s'(1) cm(2) link(1) by (simp add: with_rx_simps(8))
  ultimately show ?thesis using s'(2,3) by blast
qed

end

end
