(* ===== verification/Session_Exchange.thy ===== *)
theory Session_Exchange
  imports Server_Session Datapath_Quiet
begin

text \<open>
  One exchange of a session: what a request does when its answer arrives, and what the server does with
  the requests that arrive, as equations between states.
\<close>

section \<open>Writing\<close>

text \<open>A writer that has written the entities of the FPDUs \<open>gss\<close> after \<open>w\<close>, without a fault so far.\<close>

definition wrote :: "bool \<Rightarrow> fpdu list list \<Rightarrow> frame_writer \<Rightarrow> frame_writer \<Rightarrow> bool" where
  "wrote crc gss w w' \<longleftrightarrow> script_ok (wr_script w') \<and> wr_framing w' = LengthPrefixed \<and>
     wr_out w' = wr_out w @ concat (map (\<lambda>gs. prefixed (entity_of crc gs)) gss)"

lemma wrote_refl: "script_ok (wr_script w) \<Longrightarrow> wr_framing w = LengthPrefixed \<Longrightarrow> wrote crc [] w w"
  by (simp add: wrote_def)

lemma wrote_trans: "wrote crc gss w w' \<Longrightarrow> wrote crc gss' w' w'' \<Longrightarrow> wrote crc (gss @ gss') w w''"
  by (simp add: wrote_def)

lemma wroteD: "wrote crc gss w w' \<Longrightarrow> script_ok (wr_script w') \<and> wr_framing w' = LengthPrefixed"
  by (simp add: wrote_def)

text \<open>The writer after one more entity.\<close>

definition written :: "bool \<Rightarrow> fpdu \<Rightarrow> frame_writer \<Rightarrow> frame_writer" where
  "written crc f w = snd (write_entity (entity_of crc [f]) w)"

lemma conn_send_wrote:
  assumes "compact f" and "script_ok (wr_script (lk_writer (cn_link s)))" and "wr_framing (lk_writer (cn_link s)) = LengthPrefixed"
  shows "conn_send f s = (Inr (), s\<lparr>cn_link := (cn_link s)\<lparr>lk_writer := written (lk_crc (cn_link s)) f (lk_writer (cn_link s))\<rparr>\<rparr>)"
    and "wrote (lk_crc (cn_link s)) [[f]] (lk_writer (cn_link s)) (written (lk_crc (cn_link s)) f (lk_writer (cn_link s)))"
proof -
  let ?l = "cn_link s"
  let ?e = "entity_of (lk_crc ?l) [f]"
  have f: "sendable f" "encoded_len f \<le> 6000" using assms(1) by (simp_all add: compact_def)
  have e: "single_entity f (lk_crc ?l) = Inr ?e"
    using sendable_encode [OF f(1)] by (simp add: single_entity_def entity_of_def entity_emit_def crc_append_def)
  have len: "length ?e \<le> 65535" using f(2) by (simp add: entity_of_def entity_emit_def crc_append_def CRC_LEN_def)
  obtain w where w: "write_entity ?e (lk_writer ?l) = (Inr (), w)" "script_ok (wr_script w)"
    using write_entity_ok [OF assms(2) len] by blast
  then have eq: "written (lk_crc ?l) f (lk_writer ?l) = w" by (simp add: written_def)
  show "conn_send f s = (Inr (), s\<lparr>cn_link := ?l\<lparr>lk_writer := written (lk_crc ?l) f (lk_writer ?l)\<rparr>\<rparr>)"
    using e w(1) by (simp add: eq conn_send_def on_link_def link_send_def link_send_entity_def act_on_def)
  show "wrote (lk_crc ?l) [[f]] (lk_writer ?l) (written (lk_crc ?l) f (lk_writer ?l))"
    using write_entity_prefixed [OF w(1) assms(3)] w(2) by (simp add: eq wrote_def prefixed_def)
qed

section \<open>The requester\<close>

text \<open>A link ready for the next exchange: nothing is queued, and writing works.\<close>

definition at_rest :: "link \<Rightarrow> bool" where
  "at_rest l \<longleftrightarrow> lk_pending l = [] \<and> \<not> lk_closed l \<and> script_ok (wr_script (lk_writer l)) \<and> wr_framing (lk_writer l) = LengthPrefixed"

definition entity_event :: "bool \<Rightarrow> fpdu \<Rightarrow> rx_event" where
  "entity_event crc g = Rx_Entity (entity_of crc [g]) False"

lemma conn_recv_event:
  assumes "lk_pending (cn_link s) = []" and "\<not> lk_closed (cn_link s)" and "sendable g"
    and "lk_rx (cn_link s) = entity_event (lk_crc (cn_link s)) g # rx"
  shows "conn_recv s = (Inr g, s\<lparr>cn_link := (cn_link s)\<lparr>lk_rx := rx\<rparr>\<rparr>)"
proof -
  let ?l = "(cn_link s)\<lparr>lk_rx := rx\<rparr>"
  have "queue_entity (entity_of (lk_crc (cn_link s)) [g]) ?l = (Inr (), ?l\<lparr>lk_pending := [g]\<rparr>)"
    using queue_entity_ok [of "[g]" ?l] assms(1,3) by simp
  then have "link_recv (cn_link s) = (Inr g, ?l\<lparr>lk_pending := []\<rparr>)"
    using assms(1,2,4)
    by (simp add: link_recv_def pop_pending_def act_bind_def act_then_def link_recv_entity_def link_next_event_def entity_event_def)
  moreover have "?l\<lparr>lk_pending := []\<rparr> = ?l" using assms(1) by simp
  ultimately show ?thesis by (simp add: conn_recv_def on_link_def)
qed

lemma await_reply_ok:
  assumes "lk_pending (cn_link s) = []" and "\<not> lk_closed (cn_link s)" and "sendable g"
    and "lk_rx (cn_link s) = entity_event (lk_crc (cn_link s)) g # rx"
    and "f_kind g = expect" and "expect \<noteq> K_Abort" and "\<not> fpdu_is_negative g"
    and "machine_apply (Received expect False) (cn_machine s) = (Inr False, m)"
  shows "await_reply k expect s = (Inr g, s\<lparr>cn_link := (cn_link s)\<lparr>lk_rx := rx\<rparr>, cn_machine := m\<rparr>)"
  using conn_recv_event [OF assms(1-4)] assms(5-8) by (subst await_reply.simps) (simp add: receive_event_def)

lemma request_ok:
  assumes rest: "at_rest (cn_link s)" and g: "compact f" "compact g" "f_kind g = expect" "expect \<noteq> K_Abort" "\<not> fpdu_is_negative g"
    and rx: "lk_rx (cn_link s) = entity_event (lk_crc (cn_link s)) g # rx"
    and m: "machine_apply (Local e) (cn_machine s) = (Inr x, m)" "machine_apply (Received expect False) m = (Inr False, m')"
  shows "request f e expect s = (Inr g,
    s\<lparr>cn_link := (cn_link s)\<lparr>lk_writer := written (lk_crc (cn_link s)) f (lk_writer (cn_link s)), lk_rx := rx\<rparr>, cn_machine := m'\<rparr>)"
proof -
  let ?s = "s\<lparr>cn_machine := m\<rparr>"
  let ?w = "written (lk_crc (cn_link s)) f (lk_writer (cn_link s))"
  let ?s' = "?s\<lparr>cn_link := (cn_link s)\<lparr>lk_writer := ?w\<rparr>\<rparr>"
  have w: "conn_send f ?s = (Inr (), ?s')"
    using conn_send_wrote(1) [OF g(1), of ?s] rest by (simp add: at_rest_def)
  have l: "apply_local e s = (Inr (), ?s)" using m(1) by (simp add: apply_local_def act_bind_def act_on_def act_return_def)
  have "await_reply (f_kind f) expect ?s' = (Inr g, ?s'\<lparr>cn_link := (cn_link s)\<lparr>lk_writer := ?w, lk_rx := rx\<rparr>, cn_machine := m'\<rparr>)"
    using await_reply_ok [of ?s' g rx expect m' "f_kind f"] rest g rx m(2) by (simp add: at_rest_def compact_sendable)
  with l w show ?thesis by (simp add: request_def act_then_def act_bind_def)
qed

lemma at_rest_next: "at_rest l \<Longrightarrow> wrote crc gss (lk_writer l) w \<Longrightarrow> at_rest (l\<lparr>lk_writer := w, lk_rx := rx\<rparr>)"
  by (simp add: at_rest_def wrote_def)

section \<open>The server\<close>

lemma rs_next_ok:
  assumes "delivers (cn_link s) (f # fs)" and "f_kind f \<noteq> K_Abort" and "\<not> fpdu_is_negative f"
    and "machine_apply (Received (f_kind f) False) (cn_machine s) = (Inr False, m)"
  shows "\<exists>l. rs_next s = (Inr f, s\<lparr>cn_link := l, cn_machine := m\<rparr>) \<and> delivers l fs \<and>
    lk_writer l = lk_writer (cn_link s) \<and> lk_crc l = lk_crc (cn_link s)"
proof -
  from link_recv_delivers [OF assms(1)] obtain l where
    l: "link_recv (cn_link s) = (Inr f, l)" "delivers l fs" "lk_writer l = lk_writer (cn_link s)" "lk_crc l = lk_crc (cn_link s)" by blast
  then have "rs_next s = (Inr f, s\<lparr>cn_link := l, cn_machine := m\<rparr>)"
    using assms(2-4)
    by (subst rs_next.simps) (simp add: conn_recv_def on_link_def rs_apply_received_def receive_event_def)
  with l show ?thesis by blast
qed

lemma rs_accept_ok:
  assumes "compact f" and "script_ok (wr_script (lk_writer (cn_link s)))" and "wr_framing (lk_writer (cn_link s)) = LengthPrefixed"
    and "machine_apply (Local L_Accept) (cn_machine s) = (Inr x, m)"
  shows "rs_accept_with f s = (Inr (), s\<lparr>cn_machine := m,
    cn_link := (cn_link s)\<lparr>lk_writer := written (lk_crc (cn_link s)) f (lk_writer (cn_link s))\<rparr>\<rparr>)"
proof -
  let ?s = "s\<lparr>cn_machine := m\<rparr>"
  have l: "apply_local L_Accept s = (Inr (), ?s)" using assms(4) by (simp add: apply_local_def act_bind_def act_on_def act_return_def)
  with conn_send_wrote(1) [OF assms(1), of ?s] assms(2,3) show ?thesis
    by (simp add: rs_accept_with_def act_then_def act_bind_def)
qed

section \<open>States and answers of a transfer\<close>

lemmas state_tables = state_apply_def is_abort_def recv_def is_data_event_def is_data_def Let_def

lemma machine_next: "state_apply (m_state m) e = Next q \<Longrightarrow> machine_apply e m = (Inr False, m\<lparr>m_state := q\<rparr>)"
  by (simp add: machine_apply_def)

lemma requester_write_path:
  "state_apply Cn03 (Local L_Create) = Next Sf01A" "state_apply Sf01A (Received K_AckCreate False) = Next Sf03"
  "state_apply Sf03 (Local L_Open) = Next Of01A" "state_apply Of01A (Received K_AckOrf False) = Next Of02"
  "state_apply Of02 (Local L_Write) = Next Tde01A" "state_apply Tde01A (Received K_AckWrite False) = Next Tde02A"
  "state_apply Tde07A (Local L_TransferEnd) = Next Tde08A" "state_apply Tde08A (Received K_AckTransEnd False) = Next Of02"
  "state_apply Of02 (Local L_Close) = Next Of03A" "state_apply Of03A (Received K_AckCrf False) = Next Sf03"
  "state_apply Sf03 (Local L_Deselect) = Next Sf04A" "state_apply Sf04A (Received K_AckDeselect False) = Next Cn03"
  by (simp_all add: state_tables apply_Cn03_def apply_Sf01A_def apply_Sf03_def apply_Of01A_def apply_Of02_def apply_Tde01A_def
      apply_Tde07A_def apply_Tde08A_def apply_Of03A_def apply_Sf04A_def)

lemma server_write_path:
  "state_apply Cn03 (Received K_Create False) = Next Sf01B" "state_apply Sf01B (Local L_Accept) = Next Sf03"
  "state_apply Sf03 (Received K_Orf False) = Next Of01B" "state_apply Of01B (Local L_Accept) = Next Of02"
  "state_apply Of02 (Received K_Write False) = Next Tde01B" "state_apply Tde01B (Local L_Accept) = Next Tde02B"
  "state_apply Tde07B (Received K_TransEnd False) = Next Tde08B" "state_apply Tde08B (Local L_Accept) = Next Of02"
  "state_apply Of02 (Received K_Crf False) = Next Of03B" "state_apply Of03B (Local L_Accept) = Next Sf03"
  "state_apply Sf03 (Received K_Deselect False) = Next Sf04B" "state_apply Sf04B (Local L_Accept) = Next Cn03"
  by (simp_all add: state_tables apply_Cn03_def apply_Sf01B_Sf02B_def apply_Sf03_def apply_Of01B_def apply_Of02_def apply_Tde01B_def
      apply_Tde07B_def apply_Tde08B_def apply_Of03B_def apply_Sf04B_Mg04B_def)

lemma service_kinds [simp]:
  "f_kind (orf dst c) = K_Orf" "f_kind (ack_orf dst d c) = K_AckOrf" "f_kind (write_fpdu dst) = K_Write"
  "f_kind (ack_write dst d n) = K_AckWrite" "f_kind (trans_end dst bs arts) = K_TransEnd"
  "f_kind (ack_trans_end dst d bs arts) = K_AckTransEnd" "f_kind (crf dst d) = K_Crf" "f_kind (ack_crf dst d) = K_AckCrf"
  "f_kind (deselect dst d) = K_Deselect" "f_kind (ack_deselect dst d) = K_AckDeselect"
  "f_kind (release dst src d) = K_Release" "f_kind (relconf dst src) = K_Relconf"
  by (simp_all add: service_defs setter_funs)

lemmas diag_defs = diag_or_ok_def fpdu_diag_def fpdu_get_def

lemma service_diags [simp]:
  "diag_or_ok (ack_orf dst D_OK c) = D_OK" "diag_or_ok (ack_write dst D_OK n) = D_OK" "diag_or_ok (trans_end dst bs arts) = D_OK"
  "diag_or_ok (ack_trans_end dst D_OK bs arts) = D_OK" "diag_or_ok (crf dst D_OK) = D_OK" "diag_or_ok (ack_crf dst D_OK) = D_OK"
  "diag_or_ok (deselect dst D_OK) = D_OK" "diag_or_ok (ack_deselect dst D_OK) = D_OK"
  by (simp_all add: diag_defs service_defs setter_funs pi_tables get_param_append split: option.split)

lemma not_negative: "diag_or_ok f = D_OK \<Longrightarrow> \<not> fpdu_is_negative f"
  by (auto simp: diag_or_ok_def fpdu_is_negative_def diag_is_ok_iff split: option.splits)

lemma service_gets [simp]:
  "get_compression (orf dst c) = (if c = Comp_None then None else Some c)"
  "get_compression (ack_orf dst d c) = (if c = Comp_None then None else Some c)"
  "get_restart_point (ack_write dst d n) = Some n"
  "check_counts (trans_end dst (Some b) (Some a)) b a = Inr ()"
  "check_counts (ack_trans_end dst d (Some b) (Some a)) b a = Inr ()"
  by (simp_all add: get_compression_def get_restart_point_def check_counts_def fpdu_get_num_def fpdu_get_def service_defs setter_funs
      pi_tables get_param_append on_some_def on_flag_def)

end
