(* ===== verification/Requester_Run.thy ===== *)
theory Requester_Run
  imports Session_Exchange
begin

text \<open>
  A requester that sends a file, followed over the answers of a server that accepts every request: the
  FPDUs it writes and the state it reaches (\<open>send_file_run\<close>).
\<close>

section \<open>The requester\<close>

text \<open>
  A requester in the state \<open>q\<close> that has written the entities of \<open>gss\<close> since its writer was \<open>w0\<close>; \<open>rx\<close> is
  what its link finds next.
\<close>

definition rq_at :: "bool \<Rightarrow> frame_writer \<Rightarrow> fpdu list list \<Rightarrow> rx_event list \<Rightarrow> state \<Rightarrow> 'x conn_scheme \<Rightarrow> bool" where
  "rq_at crc w0 gss rx q s \<longleftrightarrow> at_rest (cn_link s) \<and> lk_crc (cn_link s) = crc \<and> lk_rx (cn_link s) = rx \<and>
     wrote crc gss w0 (lk_writer (cn_link s)) \<and> m_state (cn_machine s) = q"

definition rq_same :: "('f, 'c) rq_transfer \<Rightarrow> ('f, 'c) rq_transfer \<Rightarrow> bool" where
  "rq_same s s' \<longleftrightarrow> rq_cfg s' = rq_cfg s \<and> rq_my_id s' = rq_my_id s \<and> rq_peer_id s' = rq_peer_id s \<and>
     rq_negotiated s' = rq_negotiated s \<and> m_role (cn_machine s') = m_role (cn_machine s)"

lemma rq_same_trans: "rq_same s s' \<Longrightarrow> rq_same s' s'' \<Longrightarrow> rq_same s s''"
  by (simp add: rq_same_def)

text \<open>The link after the exchanges in which the FPDUs \<open>fs\<close> were sent.\<close>

definition link_after :: "fpdu list \<Rightarrow> rx_event list \<Rightarrow> link \<Rightarrow> link" where
  "link_after fs rx l = l\<lparr>lk_writer := fold (written (lk_crc l)) fs (lk_writer l), lk_rx := rx\<rparr>"

lemma link_after_after [simp]: "link_after gs rx' (link_after fs rx l) = link_after (fs @ gs) rx' l"
  by (simp add: link_after_def)

lemma request_at:
  fixes s :: "('f, 'c) rq_transfer"
  assumes "rq_at crc w0 gss (entity_event crc g # rx) q s" and "compact f" and "compact g" and "f_kind g = expect"
    and "expect \<noteq> K_Abort" and "diag_or_ok g = D_OK"
    and "state_apply q (Local e) = Next q1" and "state_apply q1 (Received expect False) = Next q2"
  shows "\<exists>s'. request f e expect s = (Inr g, s') \<and> rq_at crc w0 (gss @ [[f]]) rx q2 s' \<and> rq_same s s' \<and>
    xf_file s' = xf_file s \<and> xf_store s' = xf_store s \<and> cn_link s' = link_after [f] rx (cn_link s)"
proof -
  have at: "at_rest (cn_link s)" "lk_rx (cn_link s) = entity_event (lk_crc (cn_link s)) g # rx" "lk_crc (cn_link s) = crc"
    "wrote crc gss w0 (lk_writer (cn_link s))" "m_state (cn_machine s) = q"
    using assms(1) by (simp_all add: rq_at_def)
  let ?m = "(cn_machine s)\<lparr>m_state := q1\<rparr>"
  let ?w = "written crc f (lk_writer (cn_link s))"
  have m: "machine_apply (Local e) (cn_machine s) = (Inr False, ?m)"
    "machine_apply (Received expect False) ?m = (Inr False, ?m\<lparr>m_state := q2\<rparr>)"
    using assms(7,8) at(5) by (simp_all add: machine_next)
  note r = request_ok [OF at(1) assms(2-5) not_negative [OF assms(6)] at(2) m]
  have w: "wrote crc [[f]] (lk_writer (cn_link s)) ?w"
    using conn_send_wrote(2) [OF assms(2), of s] at(1,3) by (simp add: at_rest_def)
  from r at_rest_next [OF at(1) w] wrote_trans [OF at(4) w] at(3) show ?thesis
    by (simp add: rq_at_def rq_same_def link_after_def)
qed

text \<open>The exchanges before the data phase: CREATE, ORF and WRITE.\<close>

lemma service_compacts:
  assumes "unat n < 2 ^ 24"
  shows "compact (orf dst c)" "compact (ack_orf dst d c)" "compact (write_fpdu dst)" "compact (ack_write dst d n)"
    "compact (crf dst d)" "compact (ack_crf dst d)" "compact (deselect dst d)" "compact (ack_deselect dst d)"
  using service_compact [OF assms, of None] by simp_all

lemma counts_compact:
  assumes "unat a < 2 ^ 32"
  shows "compact (trans_end dst (Some b) (Some a))" "compact (ack_trans_end dst d (Some b) (Some a))"
  using service_compact [of 0 "Some a"] assms by simp_all

lemma negotiate_again [simp]:
  "compression_negotiate c (compression_negotiate c l) = compression_negotiate c l"
  by (cases c; cases l) (simp_all add: compression_negotiate_def)

text \<open>What the server answers before the data, and after them.\<close>

definition opening_acks :: "u8 \<Rightarrow> u32 \<Rightarrow> u16 \<Rightarrow> rstring option \<Rightarrow> compression \<Rightarrow> fpdu list" where
  "opening_acks peer tid esz m c = [ack_create peer D_OK (Some tid) esz m, ack_orf peer D_OK c, ack_write peer D_OK 0]"

definition closing_acks :: "u8 \<Rightarrow> data_result \<Rightarrow> fpdu list" where
  "closing_acks peer d = [ack_trans_end peer D_OK (Some (dr_data_bytes d)) (Some (dr_articles d)), ack_crf peer D_OK, ack_deselect peer D_OK]"

definition opening_fpdus :: "u8 \<Rightarrow> file_spec \<Rightarrow> compression \<Rightarrow> fpdu list" where
  "opening_fpdus peer f c = [spec_create f peer, orf peer c, write_fpdu peer]"

definition closing_fpdus :: "u8 \<Rightarrow> data_result \<Rightarrow> fpdu list" where
  "closing_fpdus peer d = [trans_end peer (Some (dr_data_bytes d)) (Some (dr_articles d)), crf peer D_OK, deselect peer D_OK]"

definition singles :: "fpdu list \<Rightarrow> fpdu list list" where
  "singles fs = map (\<lambda>f. [f]) fs"

lemma singles_simps [simp]: "singles [] = []" "singles (f # fs) = [f] # singles fs" "concat (singles fs) = fs"
  by (induction fs) (simp_all add: singles_def)

lemma rq_opening:
  fixes s :: "('f, 'c) rq_transfer"
  assumes at: "rq_at crc w0 [] (map (entity_event crc) (opening_acks peer tid esz m c) @ rx) Cn03 s"
    and f: "spec_ok f" "\<not> fs_restarted f" and ack: "plain_opt 254 m" "unat tid < 2 ^ 24"
    and st: "to_clear st = (\<lambda>k. (Inr (), clear k))"
  shows "\<exists>s1 s2 s3. rq_select_file f (spec_create f (rq_peer_id s)) L_Create K_AckCreate s = (Inr (ack_create peer D_OK (Some tid) esz m), s1) \<and>
    rq_open_file s1 = (Inr (compression_negotiate (rc_compression (rq_cfg s)) c), s2) \<and>
    rq_write_start st f s2 = (Inr checkpoint_default, s3) \<and>
    rq_at crc w0 (singles (opening_fpdus (rq_peer_id s) f (rc_compression (rq_cfg s)))) rx Tde02A s3 \<and> rq_same s s3 \<and>
    xf_file s3 = xf_file s \<and> xf_store s3 = clear (xf_store s) \<and>
    cn_link s3 = link_after (opening_fpdus (rq_peer_id s) f (rc_compression (rq_cfg s))) rx (cn_link s)"
proof -
  note compacts = service_compacts [of 0]
  note path = requester_write_path
  note create = create_compact [OF f(1)] ack_create_compact [OF ack] ack_create_params(3) [OF ack(1)] _ ack_create_gets(3) [OF ack(1)]
  from request_at [OF at [unfolded opening_acks_def list.map append.simps] create path(1,2), of "rq_peer_id s" ] obtain s1 where
    1: "request (spec_create f (rq_peer_id s)) L_Create K_AckCreate s = (Inr (ack_create peer D_OK (Some tid) esz m), s1)"
      "rq_at crc w0 [[spec_create f (rq_peer_id s)]] (entity_event crc (ack_orf peer D_OK c) # entity_event crc (ack_write peer D_OK 0) # rx) Sf03 s1"
      "rq_same s s1" "xf_file s1 = xf_file s" "xf_store s1 = xf_store s"
      "cn_link s1 = link_after [spec_create f (rq_peer_id s)] (entity_event crc (ack_orf peer D_OK c) # entity_event crc (ack_write peer D_OK 0) # rx) (cn_link s)"
    by auto
  let ?s1 = "s1\<lparr>rq_max_entity := rq_entity_size f (ack_create peer D_OK (Some tid) esz m)\<rparr>"
  have at1: "rq_at crc w0 [[spec_create f (rq_peer_id s)]] (entity_event crc (ack_orf peer D_OK c) # entity_event crc (ack_write peer D_OK 0) # rx) Sf03 ?s1"
    "rq_same s ?s1" using 1(2,3) by (simp_all add: rq_at_def rq_same_def)
  obtain s2 where
    2: "request (orf (rq_peer_id s) (rc_compression (rq_cfg s))) L_Open K_AckOrf ?s1 = (Inr (ack_orf peer D_OK c), s2)"
      "rq_at crc w0 ([[spec_create f (rq_peer_id s)]] @ [[orf (rq_peer_id s) (rc_compression (rq_cfg s))]]) (entity_event crc (ack_write peer D_OK 0) # rx) Of02 s2"
      "rq_same ?s1 s2" "xf_file s2 = xf_file ?s1" "xf_store s2 = xf_store ?s1"
      "cn_link s2 = link_after [orf (rq_peer_id s) (rc_compression (rq_cfg s))] (entity_event crc (ack_write peer D_OK 0) # rx) (cn_link ?s1)"
    using request_at [OF at1(1) compacts(1,2) _ _ _ path(3,4)] by auto
  obtain s3 where
    3: "request (write_fpdu (rq_peer_id s)) L_Write K_AckWrite s2 = (Inr (ack_write peer D_OK 0), s3)"
      "rq_at crc w0 (([[spec_create f (rq_peer_id s)]] @ [[orf (rq_peer_id s) (rc_compression (rq_cfg s))]]) @ [[write_fpdu (rq_peer_id s)]]) rx Tde02A s3"
      "rq_same s2 s3" "xf_file s3 = xf_file s2" "xf_store s3 = xf_store s2"
      "cn_link s3 = link_after [write_fpdu (rq_peer_id s)] rx (cn_link s2)"
    using request_at [OF 2(2) compacts(3,4) _ _ _ path(5,6)] by auto
  have "rq_select_file f (spec_create f (rq_peer_id s)) L_Create K_AckCreate s = (Inr (ack_create peer D_OK (Some tid) esz m), ?s1)"
    using 1(1) by (simp add: rq_select_file_def act_bind_def act_return_def)
  moreover have "rq_open_file ?s1 = (Inr (compression_negotiate (rc_compression (rq_cfg s)) c), s2)"
    using 2(1) at1(2) by (simp add: rq_open_file_def act_bind_def act_get_def act_return_def rq_same_def unwrap_or_def)
  moreover have "rq_write_start st f s2 = (Inr checkpoint_default, s3\<lparr>xf_store := clear (xf_store s3)\<rparr>)"
    using 3(1) 2(3) at1(2) f(2) st
    by (simp add: rq_write_start_def act_bind_def act_then_def act_get_def act_return_def rq_same_def Let_def checkpoint_default_def
        xf_on_store_def act_on_def)
  moreover have "rq_at crc w0 (singles (opening_fpdus (rq_peer_id s) f (rc_compression (rq_cfg s)))) rx Tde02A (s3\<lparr>xf_store := clear (xf_store s3)\<rparr>)"
    using 3(2) by (simp add: opening_fpdus_def rq_at_def)
  moreover have "rq_same s (s3\<lparr>xf_store := clear (xf_store s3)\<rparr>)"
    using rq_same_trans [OF rq_same_trans [OF at1(2) 2(3)] 3(3)] by (simp add: rq_same_def)
  ultimately show ?thesis using 1(4-6) 2(4-6) 3(4-6) by (intro exI conjI) (assumption | simp add: opening_fpdus_def)+
qed

lemma rq_finishing:
  fixes s :: "('f, 'c) rq_transfer"
  assumes at: "rq_at crc w0 gss (map (entity_event crc) (closing_acks peer d) @ rx) Tde07A s"
    and d: "dr_end d = Completed" "unat (dr_articles d) < 2 ^ 32"
  shows "\<exists>s'. rq_close_transfer d s = (Inr D_OK, s') \<and> rq_at crc w0 (gss @ singles (closing_fpdus (rq_peer_id s) d)) rx Cn03 s' \<and>
    rq_same s s' \<and> xf_file s' = xf_file s \<and> xf_store s' = xf_store s"
proof -
  let ?b = "dr_data_bytes d" and ?a = "dr_articles d" and ?p = "rq_peer_id s"
  note path = requester_write_path and compacts = service_compacts [of 0] and counts = counts_compact [OF d(2)]
  from request_at [OF at [unfolded closing_acks_def list.map append.simps] counts _ _ _ path(7,8), of ?p ?b] obtain s1 where
    1: "request (trans_end ?p (Some ?b) (Some ?a)) L_TransferEnd K_AckTransEnd s = (Inr (ack_trans_end peer D_OK (Some ?b) (Some ?a)), s1)"
      "rq_at crc w0 (gss @ [[trans_end ?p (Some ?b) (Some ?a)]]) (entity_event crc (ack_crf peer D_OK) # entity_event crc (ack_deselect peer D_OK) # rx) Of02 s1"
      "rq_same s s1" "xf_file s1 = xf_file s" "xf_store s1 = xf_store s"
    by auto
  from request_at [OF 1(2) compacts(5,6) _ _ _ path(9,10), of ?p D_OK] obtain s2 where
    2: "request (crf ?p D_OK) L_Close K_AckCrf s1 = (Inr (ack_crf peer D_OK), s2)"
      "rq_at crc w0 ((gss @ [[trans_end ?p (Some ?b) (Some ?a)]]) @ [[crf ?p D_OK]]) (entity_event crc (ack_deselect peer D_OK) # rx) Sf03 s2"
      "rq_same s1 s2" "xf_file s2 = xf_file s1" "xf_store s2 = xf_store s1"
    by auto
  from request_at [OF 2(2) compacts(7,8) _ _ _ path(11,12), of ?p D_OK] obtain s3 where
    3: "request (deselect ?p D_OK) L_Deselect K_AckDeselect s2 = (Inr (ack_deselect peer D_OK), s3)"
      "rq_at crc w0 (((gss @ [[trans_end ?p (Some ?b) (Some ?a)]]) @ [[crf ?p D_OK]]) @ [[deselect ?p D_OK]]) rx Cn03 s3"
      "rq_same s2 s3" "xf_file s3 = xf_file s2" "xf_store s3 = xf_store s2"
    by auto
  have "rq_close_transfer d s = (Inr D_OK, s3)"
    using 1(1,3) 2(1) 3(1) d(1)
    by (simp add: rq_close_transfer_def rq_trans_end_def rq_closing_def or_refused_def act_bind_def act_then_def act_get_def act_return_def
        rq_same_def)
  moreover have "rq_same s s3" using 1(3) 2(3) 3(3) by (blast intro: rq_same_trans)
  moreover have "rq_at crc w0 (gss @ singles (closing_fpdus ?p d)) rx Cn03 s3" using 3(2) by (simp add: closing_fpdus_def)
  ultimately show ?thesis using 1(4,5) 2(4,5) 3(4,5) by (intro exI [of _ s3]) simp
qed

text \<open>The data phase, and the entities \<open>gss\<close> it writes.\<close>

definition carries :: "data_params \<Rightarrow> bytes list \<Rightarrow> data_result \<Rightarrow> fpdu list list \<Rightarrow> bool" where
  "carries p ws d gss \<longleftrightarrow> list_all (entity_ok (dp_max_entity p) (dp_crc p)) gss \<and>
     (\<exists>fs its c. concat gss = fs @ [dtf_end (dp_peer_id p) D_OK] \<and> transmits (dp_peer_id p) (reassembler_new (dp_max_article p)) fs its \<and>
        unwire (receiver_decompressor p) (wires_of its) = Some (ws, c) \<and>
        d = \<lparr>dr_end = Completed, dr_data_bytes = word_of_nat (sum_list (map length (wires_of its))),
          dr_articles = word_of_nat (length (wires_of its)), dr_last_sync = last_sync_of 0 its\<rparr>)"

lemma carries_result: "carries p ws d gss \<Longrightarrow> dr_end d = Completed" "carries p ws d gss \<Longrightarrow> length ws < 2 ^ 24 \<Longrightarrow> unat (dr_articles d) < 2 ^ 32"
  by (auto simp: carries_def unat_of_nat dest!: unwire_length intro: le_less_trans [OF mod_less_eq_dividend])

lemma rq_data_phase:
  fixes c :: conn
  assumes "file_yields src ws" and "position_of checkpoint_default = so_position file_source_ops src"
    and "list_all (admissible p (dp_max_article p)) ws" and "length ws < 2 ^ 24"
    and c: "at_rest (cn_link c)" "lk_rx (cn_link c) = []" "lk_crc (cn_link c) = dp_crc p" "m_state (cn_machine c) = Tde02A"
    and p: "13 \<le> dp_max_entity p" "dp_max_entity p \<le> MAX_FPDU_LEN" "send_window p = 0"
    and "list_all Not cancel" and "length ws < fuel"
  shows "\<exists>d gss t. carries p ws d gss \<and>
    (\<forall>rx. send_data fuel p file_source_ops memory_store_ops checkpoint_default
        (with_rx (replicate (Suc (length ws)) Rx_Nothing @ rx) c) src store cancel = Some (Inr d, with_rx rx t) \<and>
      rq_at (dp_crc p) (lk_writer (cn_link c)) gss rx Tde07A (with_rx rx t)) \<and> m_role (cn_machine t) = m_role (cn_machine c)"
proof -
  have sync: "unat (cp_sync checkpoint_default) + length ws < 2 ^ 24" using assms(4) by (simp add: checkpoint_default_def)
  have l: "lk_pending (cn_link c) = []" "\<not> lk_closed (cn_link c)" "script_ok (wr_script (lk_writer (cn_link c)))"
    "wr_framing (lk_writer (cn_link c)) = LengthPrefixed" using c(1) by (simp_all add: at_rest_def)
  have "is_sending (m_state (cn_machine c))" using c(4) by (simp add: is_sending_def)
  note run = file_live.send_data_any_rx [OF assms(1-3) sync c(2) l this p assms(12) TrueI assms(13)]
  from run [of store] obtain d t where
    t: "send_data fuel p file_source_ops memory_store_ops checkpoint_default c src store cancel = Some (Inr d, t)"
      "dr_end d = Completed" "file_live.phase_done [] c t"
      "\<And>rx. send_data fuel p file_source_ops memory_store_ops checkpoint_default
        (with_rx (replicate (Suc (length ws)) Rx_Nothing @ rx) c) src store cancel = Some (Inr d, with_rx rx t)" by blast
  have "no_resyn (cn_link c)" using c(2) l(1) by (simp add: no_resyn_def)
  then obtain fs its dc where x: "tx_out p (wr_out (lk_writer (cn_link c))) t (fs @ [dtf_end (dp_peer_id p) D_OK]) []"
      "transmits (dp_peer_id p) (reassembler_new (dp_max_article p)) fs its"
      "unwire (receiver_decompressor p) (wires_of its) = Some (ws, dc)"
      "d = \<lparr>dr_end = Completed, dr_data_bytes = word_of_nat (sum_list (map length (wires_of its))),
          dr_articles = word_of_nat (length (wires_of its)), dr_last_sync = last_sync_of 0 its\<rparr>"
    using file_sending.send_data_done [OF t(1,2) assms(1-3) sync _ l(4) p(1,2)]
    by (auto simp: tx_done_def checkpoint_default_def)
  from x(1) obtain gss where g: "fs @ [dtf_end (dp_peer_id p) D_OK] = concat gss" "wr_framing (lk_writer (cn_link t)) = LengthPrefixed"
      "wr_out (lk_writer (cn_link t)) = wr_out (lk_writer (cn_link c)) @ concat (map (\<lambda>gs. prefixed (entity_of (dp_crc p) gs)) gss)"
      "list_all (entity_ok (dp_max_entity p) (dp_crc p)) gss"
    by (auto simp: tx_out_def)
  have "carries p ws d gss" using g(1,4) x(2-4) unfolding carries_def by metis
  moreover have "rq_at (dp_crc p) (lk_writer (cn_link c)) gss rx Tde07A (with_rx rx t)" for rx
    using t(3) c(3,4) l(1,2) g(2,3)
    by (simp add: rq_at_def at_rest_def wrote_def file_live.phase_done_def link_core_def wr_ok_def after_sending_def)
  moreover have "m_role (cn_machine t) = m_role (cn_machine c)" using t(3) by (simp add: file_live.phase_done_def after_sending_def)
  ultimately show ?thesis using t(4) by blast
qed

text \<open>What a requester finds in its queue during a transfer that nothing disturbs.\<close>

definition requester_events :: "bool \<Rightarrow> fpdu list \<Rightarrow> nat \<Rightarrow> fpdu list \<Rightarrow> rx_event list" where
  "requester_events crc before polls after =
     map (entity_event crc) before @ replicate polls Rx_Nothing @ map (entity_event crc) after"

lemma memory_clear: "to_clear memory_store_ops = (\<lambda>k. (Inr (), snd (mc_clear k)))"
  by (simp add: memory_store_ops_def mc_clear_def fun_eq_iff)

lemma rq_entity_size_bounds: "rq_entity_size f ack \<le> MAX_FPDU_LEN"
proof -
  have "unat (fs_max_entity_size f) < 65536" by (rule order_less_le_trans [OF unsigned_less]) simp
  then show ?thesis by (auto simp: rq_entity_size_def MAX_FPDU_LEN_def split: option.split)
qed

lemma send_file_run:
  fixes s :: "(file_source, memory_checkpoints) rq_transfer"
  assumes src: "file_yields (xf_file s) ws" "position_of checkpoint_default = so_position file_source_ops (xf_file s)"
    and s: "at_rest (cn_link s)" "m_state (cn_machine s) = Cn03" "lk_crc (cn_link s) = ng_crc (rq_negotiated s)"
    and f: "f = rq_file (rq_cfg s) spec" "spec_ok f" "ts_restart spec = None"
    and ack: "ack = ack_create peer D_OK (Some tid) esz m" "plain_opt 254 m" "unat tid < 2 ^ 24"
    and p: "p = rq_data_params s (compression_negotiate (rc_compression (rq_cfg s)) c) (rq_entity_size f ack) (unat (fs_article_length f))"
      "13 \<le> dp_max_entity p" "send_window p = 0"
    and ws: "list_all (admissible p (dp_max_article p)) ws" "length ws < 2 ^ 24"
    and "list_all Not cancel" and "length ws < fuel"
  shows "\<exists>d gss s'. carries p ws d gss \<and>
    send_file fuel file_source_ops memory_store_ops spec cancel
      (with_rx (requester_events (dp_crc p) (opening_acks peer tid esz m c) (Suc (length ws)) (closing_acks peer d) @ rx) s) =
      Some (Inr (rq_outcome f ack checkpoint_default d D_OK), s') \<and>
    rq_at (dp_crc p) (lk_writer (cn_link s))
      (singles (opening_fpdus (rq_peer_id s) f (rc_compression (rq_cfg s))) @ gss @ singles (closing_fpdus (rq_peer_id s) d)) rx Cn03 s' \<and>
    rq_same s s'"
proof -
  let ?crc = "dp_crc p"
  have crc: "lk_crc (cn_link s) = ?crc" using s(3) by (simp add: p(1) rq_data_params_def)
  let ?open = "opening_fpdus (rq_peer_id s) f (rc_compression (rq_cfg s))"
  let ?c = "\<lparr>cn_link = link_after ?open [] (cn_link s), cn_machine = (cn_machine s)\<lparr>m_state := Tde02A\<rparr>\<rparr>"
  have at: "rq_at ?crc (lk_writer (cn_link s)) [] rx Cn03 (with_rx rx s)" for rx
    using s(1,2) crc by (simp add: rq_at_def at_rest_def wrote_def)
  have nr: "\<not> fs_restarted f" using f(3) by (simp add: f(1) rq_file_def Let_def)
  have opened: "\<exists>s1 s2 s3. rq_select_file f (spec_create f (rq_peer_id s)) L_Create K_AckCreate (with_rx (map (entity_event ?crc) (opening_acks peer tid esz m c) @ rx) s) = (Inr ack, s1) \<and>
      rq_open_file s1 = (Inr (dp_compression p), s2) \<and> rq_write_start memory_store_ops f s2 = (Inr checkpoint_default, s3) \<and>
      rq_at ?crc (lk_writer (cn_link s)) (singles ?open) rx Tde02A s3 \<and> rq_same s s3 \<and> xf_file s3 = xf_file s \<and>
      xf_store s3 = snd (mc_clear (xf_store s)) \<and> cn_link s3 = link_after ?open rx (cn_link s)" for rx
  proof -
    let ?s = "with_rx (map (entity_event ?crc) (opening_acks peer tid esz m c) @ rx) s"
    have same: "rq_peer_id ?s = rq_peer_id s" "rq_cfg ?s = rq_cfg s" "xf_file ?s = xf_file s" "xf_store ?s = xf_store s" "\<And>t. rq_same ?s t = rq_same s t"
      "\<And>fs evs. link_after fs evs (cn_link ?s) = link_after fs evs (cn_link s)"
      by (simp_all add: with_rx_def rq_same_def link_after_def)
    have comp: "dp_compression p = compression_negotiate (rc_compression (rq_cfg s)) c" by (simp add: p(1) rq_data_params_def)
    from rq_opening [OF at [of "map (entity_event ?crc) (opening_acks peer tid esz m c) @ rx"] f(2) nr ack(2,3) memory_clear, unfolded same]
    show ?thesis unfolding ack(1) comp by blast
  qed
  from opened [of "[]"] obtain s0 :: "(file_source, memory_checkpoints) rq_transfer" where s0: "rq_at ?crc (lk_writer (cn_link s)) (singles ?open) [] Tde02A s0"
      "cn_link s0 = link_after ?open [] (cn_link s)" by blast
  have c: "at_rest (cn_link ?c)" "lk_rx (cn_link ?c) = []" "lk_crc (cn_link ?c) = ?crc" "m_state (cn_machine ?c) = Tde02A"
    using s0 crc by (simp_all add: rq_at_def link_after_def)
  have size: "dp_max_entity p \<le> MAX_FPDU_LEN" by (simp add: p(1) rq_data_params_def rq_entity_size_bounds)
  from rq_data_phase [OF src ws c p(2) size p(3) assms(17,18), of "snd (mc_clear (xf_store s))"] obtain d gss t where
    t: "carries p ws d gss" "\<And>rx. send_data fuel p file_source_ops memory_store_ops checkpoint_default
        (with_rx (replicate (Suc (length ws)) Rx_Nothing @ rx) ?c) (xf_file s) (snd (mc_clear (xf_store s))) cancel = Some (Inr d, with_rx rx t)"
      "\<And>rx. rq_at ?crc (lk_writer (cn_link ?c)) gss rx Tde07A (with_rx rx t)" "m_role (cn_machine t) = m_role (cn_machine s)"
    by auto
  let ?rx = "map (entity_event ?crc) (closing_acks peer d) @ rx"
  from opened [of "replicate (Suc (length ws)) Rx_Nothing @ ?rx"] obtain s1 s2 s3 where
    3: "rq_select_file f (spec_create f (rq_peer_id s)) L_Create K_AckCreate
        (with_rx (requester_events ?crc (opening_acks peer tid esz m c) (Suc (length ws)) (closing_acks peer d) @ rx) s) = (Inr ack, s1)"
      "rq_open_file s1 = (Inr (dp_compression p), s2)" "rq_write_start memory_store_ops f s2 = (Inr checkpoint_default, s3)"
      "rq_at ?crc (lk_writer (cn_link s)) (singles ?open) (replicate (Suc (length ws)) Rx_Nothing @ ?rx) Tde02A s3"
      "rq_same s s3" "xf_file s3 = xf_file s" "xf_store s3 = snd (mc_clear (xf_store s))"
      "cn_link s3 = link_after ?open (replicate (Suc (length ws)) Rx_Nothing @ ?rx) (cn_link s)"
    unfolding requester_events_def append_assoc by blast
  have mc: "cn_machine s3 = (cn_machine s)\<lparr>m_state := Tde02A\<rparr>"
    using 3(4,5) by (intro machine.equality) (simp_all add: rq_at_def rq_same_def)
  have conn: "\<lparr>cn_link = cn_link s3, cn_machine = cn_machine s3\<rparr> = with_rx (replicate (Suc (length ws)) Rx_Nothing @ ?rx) ?c"
    by (simp add: 3(8) mc with_rx_def link_after_def)
  let ?t = "with_rx ?rx t"
  let ?s4 = "s3\<lparr>cn_link := cn_link ?t, cn_machine := cn_machine ?t, xf_file := sn_source ?t, xf_store := sn_store ?t,
    xf_progress := xf_progress s3 @ sn_progress ?t\<rparr>"
  have 4: "rq_send_data fuel p file_source_ops memory_store_ops checkpoint_default cancel s3 = Some (Inr d, ?s4)"
    unfolding rq_send_data_def conn 3(6,7) t(2) by simp
  have "lk_writer (cn_link s3) = lk_writer (cn_link ?c)" by (simp add: 3(8) link_after_def)
  then have w3: "wrote ?crc (singles ?open) (lk_writer (cn_link s)) (lk_writer (cn_link ?c))" using 3(4) by (metis rq_at_def)
  have at4: "rq_at ?crc (lk_writer (cn_link s)) (singles ?open @ gss) (map (entity_event ?crc) (closing_acks peer d) @ rx) Tde07A ?s4"
    using t(3) [of ?rx] wrote_trans [OF w3, of gss "lk_writer (cn_link t)"] by (simp add: rq_at_def)
  have same4: "rq_same s ?s4" using 3(5) t(4) by (simp add: rq_same_def)
  note d = carries_result(1) [OF t(1)] carries_result(2) [OF t(1) ws(2)]
  from rq_finishing [OF at4 d] obtain s5 where
    5: "rq_close_transfer d ?s4 = (Inr D_OK, s5)" "rq_same ?s4 s5"
      "rq_at ?crc (lk_writer (cn_link s)) ((singles ?open @ gss) @ singles (closing_fpdus (rq_peer_id ?s4) d)) rx Cn03 s5" by blast
  let ?s6 = "s5\<lparr>xf_store := snd (mc_clear (xf_store s5))\<rparr>"
  have 6: "send_file_end memory_store_ops f ack checkpoint_default d ?s4 = (Inr (rq_outcome f ack checkpoint_default d D_OK), ?s6)"
    using 5(1) d(1)
    by (simp add: send_file_end_def act_bind_def act_then_def act_return_def xf_on_store_def act_on_def memory_clear diag_is_ok_iff)
  have params: "rq_data_params (with_rx evs s) (dp_compression p) (rq_entity_size f ack) (unat (fs_article_length f)) = p" for evs
    by (simp add: p(1) rq_data_params_def with_rx_def)
  have fs: "rq_peer_id (with_rx evs s) = rq_peer_id s" "rq_cfg (with_rx evs s) = rq_cfg s" for evs by (simp_all add: with_rx_def)
  have "send_file fuel file_source_ops memory_store_ops spec cancel
      (with_rx (requester_events ?crc (opening_acks peer tid esz m c) (Suc (length ws)) (closing_acks peer d) @ rx) s) =
      Some (Inr (rq_outcome f ack checkpoint_default d D_OK), ?s6)"
    using 3(1-3) 4 6
    by (simp add: send_file_def act_pbind_eq act_get_def fs f(1) [symmetric] Let_def params pact_bind_def pact_of_def)
  moreover have "rq_at ?crc (lk_writer (cn_link s)) (singles ?open @ gss @ singles (closing_fpdus (rq_peer_id s) d)) rx Cn03 ?s6"
    using 5(3) same4 by (simp add: rq_at_def rq_same_def)
  moreover have "rq_same s ?s6" using rq_same_trans [OF same4 5(2)] by (simp add: rq_same_def)
  ultimately show ?thesis using t(1) by blast
qed

end
