(* ===== verification/Server_Run.thy ===== *)
theory Server_Run
  imports Requester_Run
begin

text \<open>
  A server whose application accepts the creation of a file, followed over the FPDUs of a requester: the
  answers it writes and the file it stores (\<open>serve_create_run\<close>, \<open>handle_create_run\<close>).
\<close>

section \<open>The server\<close>

text \<open>A server in the state \<open>q\<close> that has written the entities of \<open>gss\<close>; the FPDUs \<open>up\<close> are still to come.\<close>

definition rs_at :: "bool \<Rightarrow> frame_writer \<Rightarrow> fpdu list list \<Rightarrow> fpdu list \<Rightarrow> state \<Rightarrow> link \<Rightarrow> machine \<Rightarrow> bool" where
  "rs_at crc w0 gss up q l m \<longleftrightarrow> delivers l up \<and> lk_crc l = crc \<and> wrote crc gss w0 (lk_writer l) \<and> m_state m = q"

lemma rs_expect_at:
  assumes "rs_at crc w0 gss (f # up) q (cn_link s) (cn_machine s)" and "f_kind f = expect" and "expect \<noteq> K_Abort" and "diag_or_ok f = D_OK"
    and "state_apply q (Received expect False) = Next q'"
  shows "\<exists>l m. rs_next s = (Inr f, s\<lparr>cn_link := l, cn_machine := m\<rparr>) \<and> rs_expect expect s = (Inr f, s\<lparr>cn_link := l, cn_machine := m\<rparr>) \<and>
    rs_at crc w0 gss up q' l m"
proof -
  have m: "machine_apply (Received (f_kind f) False) (cn_machine s) = (Inr False, (cn_machine s)\<lparr>m_state := q'\<rparr>)"
    using assms(1,2,5) by (simp add: machine_next rs_at_def)
  have d: "delivers (cn_link s) (f # up)" "f_kind f \<noteq> K_Abort" using assms(1-3) by (simp_all add: rs_at_def)
  from rs_next_ok [OF d not_negative [OF assms(4)] m] obtain l where
    "rs_next s = (Inr f, s\<lparr>cn_link := l, cn_machine := (cn_machine s)\<lparr>m_state := q'\<rparr>\<rparr>)" "delivers l up"
    "lk_writer l = lk_writer (cn_link s)" "lk_crc l = lk_crc (cn_link s)" by blast
  with assms(1,2) show ?thesis
    by (intro exI [of _ l] exI [of _ "(cn_machine s)\<lparr>m_state := q'\<rparr>"])
      (simp add: rs_at_def rs_expect_def act_bind_def act_return_def)
qed

lemma rs_accept_at:
  assumes "rs_at crc w0 gss up q (cn_link s) (cn_machine s)" and "compact g" and "state_apply q (Local L_Accept) = Next q'"
  shows "\<exists>l m. rs_accept_with g s = (Inr (), s\<lparr>cn_machine := m, cn_link := l\<rparr>) \<and> rs_at crc w0 (gss @ [[g]]) up q' l m"
proof -
  have at: "lk_crc (cn_link s) = crc" "wrote crc gss w0 (lk_writer (cn_link s))" "delivers (cn_link s) up"
    "machine_apply (Local L_Accept) (cn_machine s) = (Inr False, (cn_machine s)\<lparr>m_state := q'\<rparr>)"
    using assms(1,3) by (simp_all add: rs_at_def machine_next)
  note w = conjunct1 [OF wroteD [OF at(2)]] conjunct2 [OF wroteD [OF at(2)]]
  let ?l = "(cn_link s)\<lparr>lk_writer := written crc g (lk_writer (cn_link s))\<rparr>"
  from rs_accept_ok [OF assms(2) w at(4)] wrote_trans [OF at(2) conn_send_wrote(2) [OF assms(2) w, unfolded at(1)]] at show ?thesis
    by (intro exI [of _ ?l] exI [of _ "(cn_machine s)\<lparr>m_state := q'\<rparr>"]) (simp add: rs_at_def)
qed

lemma rs_open_file_at:
  assumes "rs_at crc w0 gss (orf peer c # up) Sf03 (cn_link s) (cn_machine s)"
  shows "\<exists>l m. rs_open_file s = (Inr (compression_negotiate c (ca_compression (rs_accept s))), s\<lparr>cn_machine := m, cn_link := l\<rparr>) \<and>
    rs_at crc w0 (gss @ [[ack_orf (rs_peer_id s) D_OK (compression_negotiate c (ca_compression (rs_accept s)))]]) up Of02 l m"
proof -
  from rs_expect_at [OF assms, of K_Orf Of01B] obtain l1 m1 where
    1: "rs_expect K_Orf s = (Inr (orf peer c), s\<lparr>cn_link := l1, cn_machine := m1\<rparr>)" "rs_at crc w0 gss up Of01B l1 m1"
    by (auto simp: server_write_path diag_defs orf_def)
  let ?c = "compression_negotiate c (ca_compression (rs_accept s))"
  let ?s = "s\<lparr>cn_link := l1, cn_machine := m1\<rparr>"
  have "compact (ack_orf (rs_peer_id s) D_OK ?c)" using service_compacts(2) [of 0] by simp
  from rs_accept_at [of crc w0 gss up Of01B ?s, OF _ this server_write_path(4)] 1(2) obtain l m where
    2: "rs_accept_with (ack_orf (rs_peer_id s) D_OK ?c) ?s = (Inr (), ?s\<lparr>cn_machine := m, cn_link := l\<rparr>)"
      "rs_at crc w0 (gss @ [[ack_orf (rs_peer_id s) D_OK ?c]]) up Of02 l m" by auto
  have "compression_negotiate Comp_None x = Comp_None" for x by (simp add: compression_negotiate_def)
  with 1(1) 2 show ?thesis
    by (intro exI [of _ l] exI [of _ m])
      (auto simp: rs_open_file_def act_bind_def act_then_def act_get_def act_return_def unwrap_or_def Let_def)
qed

lemma rs_close_turn:
  assumes "rs_at crc w0 gss (f # up) q (cn_link s) (cn_machine s)" and "f_kind f \<noteq> K_Abort" and "diag_or_ok f = D_OK" and "compact g"
    and "state_apply q (Received (f_kind f) False) = Next q1" and "state_apply q1 (Local L_Accept) = Next q2"
    and step: "\<And>l m. rs_close_step d f D_OK (s\<lparr>cn_link := l, cn_machine := m\<rparr>) =
      act_then (rs_accept_with g) (act_return (D_OK, finished)) (s\<lparr>cn_link := l, cn_machine := m\<rparr>)"
  shows "\<exists>l m. rs_close_transfer d D_OK s =
      (if finished then (Inr D_OK, s\<lparr>cn_machine := m, cn_link := l\<rparr>) else rs_close_transfer d D_OK (s\<lparr>cn_machine := m, cn_link := l\<rparr>)) \<and>
    rs_at crc w0 (gss @ [[g]]) up q2 l m"
proof -
  from rs_expect_at [OF assms(1) refl assms(2,3,5)] obtain l1 m1 where
    1: "rs_next s = (Inr f, s\<lparr>cn_link := l1, cn_machine := m1\<rparr>)" "rs_at crc w0 gss up q1 l1 m1" by blast
  let ?s = "s\<lparr>cn_link := l1, cn_machine := m1\<rparr>"
  from rs_accept_at [of crc w0 gss up q1 ?s, OF _ assms(4,6)] 1(2) obtain l m where
    2: "rs_accept_with g ?s = (Inr (), ?s\<lparr>cn_machine := m, cn_link := l\<rparr>)" "rs_at crc w0 (gss @ [[g]]) up q2 l m" by auto
  have "rs_close_step d f D_OK ?s = (Inr (D_OK, finished), s\<lparr>cn_machine := m, cn_link := l\<rparr>)"
    using step [of m1 l1] 2(1) by (simp add: act_then_def act_bind_def act_return_def)
  with 1(1) 2(2) show ?thesis
    by (intro exI [of _ l] exI [of _ m] conjI, subst rs_close_transfer.simps) simp_all
qed

lemma rs_finishing:
  assumes at: "rs_at crc w0 gss (closing_fpdus peer d @ up) Tde07B (cn_link s) (cn_machine s)" and d: "unat (dr_articles d) < 2 ^ 32"
  shows "\<exists>l m. rs_close_transfer d D_OK s = (Inr D_OK, s\<lparr>cn_machine := m, cn_link := l\<rparr>) \<and>
    rs_at crc w0 (gss @ singles (closing_acks (rs_peer_id s) d)) up Cn03 l m"
proof -
  let ?p = "rs_peer_id s"
  let ?a = "ack_trans_end ?p D_OK (Some (dr_data_bytes d)) (Some (dr_articles d))"
  note path = server_write_path
  have ok [simp]: "diag_is_ok D_OK" by (simp add: diag_is_ok_iff)
  from at have at1: "rs_at crc w0 gss (trans_end peer (Some (dr_data_bytes d)) (Some (dr_articles d)) # crf peer D_OK # deselect peer D_OK # up) Tde07B
    (cn_link s) (cn_machine s)" by (simp add: closing_fpdus_def)
  from rs_close_turn [OF at1 _ _ counts_compact(2) [OF d, of ?p D_OK "dr_data_bytes d"], of Tde08B Of02 d False] obtain l1 m1 where
    1: "rs_close_transfer d D_OK s = rs_close_transfer d D_OK (s\<lparr>cn_machine := m1, cn_link := l1\<rparr>)"
      "rs_at crc w0 (gss @ [[?a]]) (crf peer D_OK # deselect peer D_OK # up) Of02 l1 m1"
    by (auto simp: path rs_close_step_def Let_def)
  let ?s1 = "s\<lparr>cn_machine := m1, cn_link := l1\<rparr>"
  from rs_close_turn [of crc w0 "gss @ [[?a]]" "crf peer D_OK" "deselect peer D_OK # up" Of02 ?s1 "ack_crf ?p D_OK" Of03B Sf03 d False]
    1(2) service_compacts [of 0] obtain l2 m2 where
    2: "rs_close_transfer d D_OK ?s1 = rs_close_transfer d D_OK (s\<lparr>cn_machine := m2, cn_link := l2\<rparr>)"
      "rs_at crc w0 ((gss @ [[?a]]) @ [[ack_crf ?p D_OK]]) (deselect peer D_OK # up) Sf03 l2 m2"
    by (auto simp: path rs_close_step_def Let_def)
  let ?s2 = "s\<lparr>cn_machine := m2, cn_link := l2\<rparr>"
  from rs_close_turn [of crc w0 "(gss @ [[?a]]) @ [[ack_crf ?p D_OK]]" "deselect peer D_OK" up Sf03 ?s2 "ack_deselect ?p D_OK" Sf04B Cn03 d True]
    2(2) service_compacts [of 0] obtain l3 m3 where
    3: "rs_close_transfer d D_OK ?s2 = (Inr D_OK, s\<lparr>cn_machine := m3, cn_link := l3\<rparr>)"
      "rs_at crc w0 (((gss @ [[?a]]) @ [[ack_crf ?p D_OK]]) @ [[ack_deselect ?p D_OK]]) up Cn03 l3 m3"
    by (auto simp: path rs_close_step_def Let_def)
  from 1(1) 2(1) 3 show ?thesis by (intro exI [of _ l3] exI [of _ m3]) (simp add: closing_acks_def)
qed

text \<open>What the server's own fields keep during a transfer.\<close>

definition rs_same :: "('h, 'k, 'f, 'c, 'x) responder_scheme \<Rightarrow> ('h, 'k, 'f, 'c, 'x) responder_scheme \<Rightarrow> bool" where
  "rs_same s s' \<longleftrightarrow> rs_cfg s' = rs_cfg s \<and> rs_peer_id s' = rs_peer_id s \<and> rs_info s' = rs_info s \<and> rs_accept s' = rs_accept s \<and>
     rs_sinks s' = rs_sinks s \<and> rs_sources s' = rs_sources s"

text \<open>A fresh file that can be written.\<close>

definition fresh_sink :: "file_sink \<Rightarrow> bool" where
  "fresh_sink k \<longleftrightarrow> sink_holds k [] \<and> script_ok (fw_script k)"

lemma fresh_truncate:
  assumes "fresh_sink k"
  shows "\<exists>k'. sink_truncate (position_of checkpoint_default) k = (Inr (), k') \<and> fresh_sink k' \<and> sink_same k k'"
proof -
  obtain x k' where k': "sink_truncate (position_of checkpoint_default) k = (Inr x, k')" "script_ok (fw_script k')"
    using runs_truncate [of k "position_of checkpoint_default"] assms by (auto simp: runs_def fresh_sink_def)
  have pos: "position_of checkpoint_default = sink_pos k []"
    by (simp add: position_of_def checkpoint_default_def sink_pos_def sink_bytes_def)
  have "sink_holds k' [] \<and> sink_same k k'"
    by (rule file_truncate_holds [of k "[]" "[]" k']) (use assms k'(1) in \<open>simp_all add: fresh_sink_def pos\<close>)
  with k' show ?thesis by (simp add: fresh_sink_def)
qed

text \<open>The reception of the data the entities \<open>dss\<close> carry.\<close>

lemma receive_carried:
  assumes dss: "carries p ws d dss" and at: "rs_at crc w0 gss (concat dss @ up) Tde02B (cn_link c) (cn_machine c)"
    and q: "dp_compression q = dp_compression p" "dp_max_article q = dp_max_article p" "\<not> acknowledges q"
    and k: "fresh_sink k" "sink_room k ws" and "list_all Not cancel"
  shows "\<exists>t. receive_data q file_sink_ops memory_store_ops checkpoint_default c k cps cancel = (Inr d, t) \<and>
    rs_at crc w0 gss up Tde07B (cn_link t) (cn_machine t) \<and> sink_holds (rv_sink t) ws \<and> script_ok (fw_script (rv_sink t)) \<and>
    fw_format (rv_sink t) = fw_format k \<and> fw_ebcdic (rv_sink t) = fw_ebcdic k"
proof -
  from dss obtain fs its dc where
    x: "concat dss = fs @ [dtf_end (dp_peer_id p) D_OK]" "transmits (dp_peer_id p) (reassembler_new (dp_max_article p)) fs its"
      "unwire (receiver_decompressor p) (wires_of its) = Some (ws, dc)"
      "d = \<lparr>dr_end = Completed, dr_data_bytes = word_of_nat (sum_list (map length (wires_of its))),
          dr_articles = word_of_nat (length (wires_of its)), dr_last_sync = last_sync_of 0 its\<rparr>"
    by (auto simp: carries_def)
  let ?K = "recv_init q checkpoint_default c k cps cancel"
  have K: "rv_sink ?K = k" "cn_link ?K = cn_link c" "cn_machine ?K = cn_machine c" "rv_cancel ?K = cancel" "rv_store ?K = cps"
    by (simp_all add: recv_init_def conn.defs)
  have "receiving (cn_machine c)" using at by (simp add: rs_at_def receiving_def is_receiving_def)
  then have ok: "file_receiving.rv_ok q ?K (fs @ dtf_end (dp_peer_id p) D_OK # up) [] ?K"
    using at k assms(8) x(1) by (simp add: file_receiving.rv_ok_def K rs_at_def fresh_sink_def wrote_def)
  have dq: "receiver_decompressor q = receiver_decompressor p" using q(1,2) by (simp add: receiver_decompressor_def)
  have room: "sink_room k ([] @ ws)" using k(2) by simp
  from file_receiving.receive_data_done [OF x(2) [folded q(2)] x(3) [folded dq] ok room] obtain t where
    t: "receive_data q file_sink_ops memory_store_ops checkpoint_default c k cps cancel = (Inr d, t)"
      "file_receiving.rv_ended q t up ws ?K"
    by (auto simp: x(4) checkpoint_default_def)
  from t(2) q(3) at have "rs_at crc w0 gss up Tde07B (cn_link t) (cn_machine t) \<and> sink_holds (rv_sink t) ws \<and>
      script_ok (fw_script (rv_sink t)) \<and> fw_format (rv_sink t) = fw_format k \<and> fw_ebcdic (rv_sink t) = fw_ebcdic k"
    by (simp add: file_receiving.rv_ended_def rs_at_def K after_data_def)
  with t(1) show ?thesis by blast
qed

lemma run_write_run:
  fixes s :: "('h, file_sink, 'f, memory_checkpoints, file_sink) rs_transfer"
  assumes at: "rs_at crc w0 gss (orf peer c # write_fpdu peer # concat dss @ closing_fpdus peer d @ up) Sf03 (cn_link s) (cn_machine s)"
    and dss: "carries p ws d dss" "length ws < 2 ^ 24"
    and q: "dp_compression p = compression_negotiate c (ca_compression (rs_accept s))"
      "dp_max_article p = (if ma = 0 then unat (fs_article_length spec) else ma)"
      "so_window (ng_sync (si_negotiated info)) = 0" "sync_enabled (ng_sync (si_negotiated info))"
    and k: "fresh_sink (rt_file s)" "sink_room (rt_file s) ws" and "\<not> fs_restarted spec"
    and cancel: "\<And>x. list_all Not (fst (hd_cancel_flag h info handle x))"
  shows "\<exists>s'. run_write h file_sink_ops memory_store_ops info spec restart ma me tid handle s = (Inr (d, D_OK), s') \<and>
    rs_at crc w0 (gss @ singles [ack_orf (rs_peer_id s) D_OK (dp_compression p), ack_write (rs_peer_id s) D_OK 0] @
      singles (closing_acks (rs_peer_id s) d)) up Cn03 (cn_link s') (cn_machine s') \<and> rs_same s s' \<and>
    sink_holds (rt_file s') ws \<and> script_ok (fw_script (rt_file s')) \<and>
    fw_format (rt_file s') = fw_format (rt_file s) \<and> fw_ebcdic (rt_file s') = fw_ebcdic (rt_file s)"
proof -
  let ?p = "rs_peer_id s"
  let ?g1 = "gss @ [[ack_orf ?p D_OK (dp_compression p)]]" and ?g2 = "(gss @ [[ack_orf ?p D_OK (dp_compression p)]]) @ [[ack_write ?p D_OK 0]]"
  from rs_open_file_at [OF at] obtain l1 m1 where
    1: "rs_open_file s = (Inr (dp_compression p), s\<lparr>cn_machine := m1, cn_link := l1\<rparr>)"
      "rs_at crc w0 ?g1 (write_fpdu peer # concat dss @ closing_fpdus peer d @ up) Of02 l1 m1"
    unfolding q(1) by blast
  let ?s1 = "s\<lparr>cn_machine := m1, cn_link := l1\<rparr>"
  from rs_expect_at [of crc w0 ?g1 "write_fpdu peer" "concat dss @ closing_fpdus peer d @ up" Of02 ?s1 K_Write Tde01B] 1(2) obtain l2 m2 where
    2: "rs_expect K_Write ?s1 = (Inr (write_fpdu peer), s\<lparr>cn_link := l2, cn_machine := m2\<rparr>)"
      "rs_at crc w0 ?g1 (concat dss @ closing_fpdus peer d @ up) Tde01B l2 m2"
    by (auto simp: server_write_path diag_defs write_fpdu_def)
  let ?s2 = "s\<lparr>cn_link := l2, cn_machine := m2\<rparr>"
  from rs_accept_at [of crc w0 ?g1 "concat dss @ closing_fpdus peer d @ up" Tde01B ?s2 "ack_write ?p D_OK 0" Tde02B] 2(2)
    service_compacts(4) [of 0 ?p D_OK] server_write_path(6) obtain l3 m3 where
    3: "rs_accept_with (ack_write ?p D_OK 0) ?s2 = (Inr (), s\<lparr>cn_machine := m3, cn_link := l3\<rparr>)"
      "rs_at crc w0 ?g2 (concat dss @ closing_fpdus peer d @ up) Tde02B l3 m3" by auto
  from fresh_truncate [OF k(1)] obtain k' where
    k': "sink_truncate (position_of checkpoint_default) (rt_file s) = (Inr (), k')" "fresh_sink k'" "sink_same (rt_file s) k'" by blast
  have room: "sink_room k' ws" using k(2) sink_same_fun [OF k'(3)] by metis
  let ?h1 = "hd_transfer_event h info handle (Ev_Started tid checkpoint_default) (rs_handler s)"
  obtain cs h2 where h2: "hd_cancel_flag h info handle ?h1 = (cs, h2)" by fastforce
  with cancel [of ?h1] have cs: "list_all Not cs" by simp
  let ?q = "rs_data_params s info (dp_compression p) me (if ma = 0 then unat (fs_article_length spec) else ma)"
  have qs: "dp_compression ?q = dp_compression p" "dp_max_article ?q = dp_max_article p" "\<not> acknowledges ?q"
    using q(2-4) by (simp_all add: rs_data_params_def acknowledges_def)
  from receive_carried [OF dss(1) _ qs k'(2) room cs, of crc w0 ?g2 "closing_fpdus peer d @ up" "\<lparr>cn_link = l3, cn_machine = m3\<rparr>"
      "snd (mc_clear (rt_store s))"] 3(2) obtain t where
    t: "receive_data ?q file_sink_ops memory_store_ops checkpoint_default \<lparr>cn_link = l3, cn_machine = m3\<rparr> k' (snd (mc_clear (rt_store s))) cs = (Inr d, t)"
      "rs_at crc w0 ?g2 (closing_fpdus peer d @ up) Tde07B (cn_link t) (cn_machine t)" "sink_holds (rv_sink t) ws"
      "script_ok (fw_script (rv_sink t))" "fw_format (rv_sink t) = fw_format k'" "fw_ebcdic (rv_sink t) = fw_ebcdic k'" by auto
  let ?s4 = "s\<lparr>cn_machine := m3, cn_link := l3, rt_file := k', rt_store := snd (mc_clear (rt_store s)), rs_handler := h2\<rparr>"
  let ?s5 = "?s4\<lparr>cn_link := cn_link t, cn_machine := cn_machine t, rs_handler := rs_progress h info handle (rv_progress t) h2,
    rt_file := rv_sink t, rt_store := rv_store t\<rparr>"
  from rs_finishing [of crc w0 ?g2 peer d up ?s5] t(2) carries_result(2) [OF dss] obtain l6 m6 where
    6: "rs_close_transfer d D_OK ?s5 = (Inr D_OK, ?s5\<lparr>cn_machine := m6, cn_link := l6\<rparr>)"
      "rs_at crc w0 (?g2 @ singles (closing_acks ?p d)) up Cn03 l6 m6" by auto
  have rc: "rs_receive_data h info handle ?q file_sink_ops memory_store_ops checkpoint_default cs ?s4 = (Inr d, ?s5)"
    by (simp add: rs_receive_data_def t(1))
  have params: "rs_data_params (s\<lparr>cn_link := l2, cn_machine := m2\<rparr>) info = rs_data_params s info"
    by (simp add: rs_data_params_def fun_eq_iff)
  have ko: "ko_truncate file_sink_ops = sink_truncate" by (simp add: file_sink_ops_def)
  have start: "cp_sync checkpoint_default = 0" by (simp add: checkpoint_default_def)
  have "run_write h file_sink_ops memory_store_ops info spec restart ma me tid handle s = (Inr (d, D_OK), ?s5\<lparr>cn_machine := m6, cn_link := l6\<rparr>)"
    using 1(1) 2(1) 3(1) k'(1) h2 rc 6(1) assms(10)
    by (simp add: run_write_def act_bind_def act_then_def act_get_def act_return_def rt_on_file_def rt_on_store_def act_on_def ko start
        memory_clear rs_event_def act_modify_def on_handler_def params Let_def)
  moreover have "rs_same s (?s5\<lparr>cn_machine := m6, cn_link := l6\<rparr>)" by (simp add: rs_same_def)
  ultimately show ?thesis using 6(2) t(3-6) k'(3) by (intro exI [of _ "?s5\<lparr>cn_machine := m6, cn_link := l6\<rparr>"]) (simp add: sink_same_def)
qed

text \<open>The server's limit on the size of entities.\<close>

lemma rs_entity_size_word: "unat (word_of_nat (rs_entity_size f a) :: u16) = rs_entity_size f a"
proof -
  have "unat (ca_max_entity a) < 65536" by (rule order_less_le_trans [OF unsigned_less]) simp
  then have "rs_entity_size f a < 65536" by (simp add: rs_entity_size_def)
  then show ?thesis by (simp add: unat_of_nat)
qed

lemma handle_create_run:
  fixes s :: "('h, file_sink, 'f, memory_checkpoints) responder"
  assumes at: "rs_at crc w0 [] (orf peer c # write_fpdu peer # concat dss @ closing_fpdus peer d @ up) Sf01B (cn_link s) (cn_machine s)"
    and f: "spec_from_fpdu g = f" "\<not> fs_restarted f" and info: "rs_info s = Some info"
    and a: "hd_create h info f (rs_handler s) = (Inr a, h')" "plain_opt 254 (cra_free_message a)"
      "tid = unwrap_or (fs_transfer_id f) (cra_transfer_id a)" "unat tid < 2 ^ 24"
    and dss: "carries p ws d dss" "length ws < 2 ^ 24"
    and q: "dp_compression p = compression_negotiate c (ca_compression (rs_accept s))"
      "dp_max_article p = (if cra_max_article a = 0 then unat (fs_article_length f) else cra_max_article a)"
      "so_window (ng_sync (si_negotiated info)) = 0" "sync_enabled (ng_sync (si_negotiated info))"
    and k: "fresh_sink (cra_sink a)" "sink_room (cra_sink a) ws"
    and cancel: "\<And>x. list_all Not (fst (hd_cancel_flag h info (cra_handle a) x))"
  shows "\<exists>s' k' cps. handle_create h file_sink_ops memory_store_ops g s = (Inr (), s') \<and>
    rs_at crc w0 (singles (opening_acks (rs_peer_id s) tid (word_of_nat (rs_entity_size f (rs_accept s))) (cra_free_message a) (dp_compression p) @
      closing_acks (rs_peer_id s) d)) up Cn03 (cn_link s') (cn_machine s') \<and>
    rs_sinks s' = rs_sinks s @ [(k', cps)] \<and> fw_final k' = Some (sink_bytes (cra_sink a) ws) \<and>
    rs_info s' = rs_info s \<and> rs_accept s' = rs_accept s \<and> rs_peer_id s' = rs_peer_id s \<and> rs_cfg s' = rs_cfg s"
proof -
  let ?p = "rs_peer_id s" and ?me = "rs_entity_size f (rs_accept s)"
  let ?ack = "ack_create ?p D_OK (Some tid) (word_of_nat ?me) (cra_free_message a)"
  let ?s1 = "s\<lparr>rs_handler := h'\<rparr>"
  from rs_accept_at [of crc w0 "[]" _ Sf01B ?s1, OF _ ack_create_compact [OF a(2,4)] server_write_path(2)] at obtain l2 m2 where
    2: "rs_accept_with ?ack ?s1 = (Inr (), ?s1\<lparr>cn_machine := m2, cn_link := l2\<rparr>)"
      "rs_at crc w0 [[?ack]] (orf peer c # write_fpdu peer # concat dss @ closing_fpdus peer d @ up) Sf03 l2 m2" by fastforce
  let ?t = "rs_lend (?s1\<lparr>cn_machine := m2, cn_link := l2\<rparr>) (cra_sink a) (cra_checkpoints a)"
  have t: "cn_link ?t = l2" "cn_machine ?t = m2" "rs_accept ?t = rs_accept s" "rt_file ?t = cra_sink a" "rs_peer_id ?t = ?p"
    "rs_info ?t = rs_info s" "rs_sinks ?t = rs_sinks s" "rs_cfg ?t = rs_cfg s"
    by (simp_all add: rs_lend_def responder.defs)
  from run_write_run [of crc w0 "[[?ack]]" peer c dss d up ?t p ws "cra_max_article a" f info h "cra_handle a" "cra_restart a" ?me tid,
      unfolded t, OF 2(2) dss q k f(2) cancel] obtain s3 where
    3: "run_write h file_sink_ops memory_store_ops info f (cra_restart a) (cra_max_article a) ?me tid (cra_handle a) ?t = (Inr (d, D_OK), s3)"
      "rs_at crc w0 ([[?ack]] @ singles [ack_orf ?p D_OK (dp_compression p), ack_write ?p D_OK 0] @ singles (closing_acks ?p d)) up Cn03
        (cn_link s3) (cn_machine s3)" "rs_same ?t s3"
      "sink_holds (rt_file s3) ws" "script_ok (fw_script (rt_file s3))"
      "fw_format (rt_file s3) = fw_format (cra_sink a)" "fw_ebcdic (rt_file s3) = fw_ebcdic (cra_sink a)" by blast
  obtain k' where k': "sink_finish (rt_file s3) = (Inr (), k')" using runs_finish [OF 3(5)] by (auto simp: runs_def)
  have final: "fw_final k' = Some (sink_bytes (cra_sink a) ws)"
    using file_finish_holds [OF 3(4) k'] 3(6,7) by (simp add: sink_bytes_def off_wire_def)
  let ?s4 = "s3\<lparr>rt_file := k', rt_store := snd (mc_clear (rt_store s3)),
    rs_handler := hd_transfer_event h info (cra_handle a) (Ev_Ended d D_OK) (rs_handler s3)\<rparr>"
  have 4: "rs_create_end h file_sink_ops memory_store_ops info (cra_handle a) (Inr (d, D_OK)) s3 = (Inr (), ?s4)"
    using k' carries_result(1) [OF dss(1)]
    by (simp add: rs_create_end_def act_then_def act_bind_def rt_on_file_def rt_on_store_def act_on_def memory_clear file_sink_ops_def
        rs_event_def act_modify_def diag_is_ok_iff)
  have 5: "handle_create h file_sink_ops memory_store_ops g s = (Inr (), drop_sink ?s4)"
    using a(1) 2(1) 3(1) 4
    by (simp add: handle_create_def f(1) rs_info_of_def info act_bind_def act_then_def act_get_def on_handler_def a(3) Let_def)
  have fields: "cn_link (drop_sink ?s4) = cn_link s3" "cn_machine (drop_sink ?s4) = cn_machine s3"
      "rs_sinks (drop_sink ?s4) = rs_sinks s @ [(k', snd (mc_clear (rt_store s3)))]" "rs_info (drop_sink ?s4) = rs_info s"
      "rs_accept (drop_sink ?s4) = rs_accept s" "rs_peer_id (drop_sink ?s4) = ?p" "rs_cfg (drop_sink ?s4) = rs_cfg s"
    using 3(3) t by (simp_all add: drop_sink_def responder.defs rs_same_def)
  show ?thesis
    by (intro exI [of _ "drop_sink ?s4"] exI [of _ k'] exI [of _ "snd (mc_clear (rt_store s3))"], unfold fields)
      (use 5 3(2) final in \<open>simp add: opening_acks_def closing_acks_def\<close>)
qed

lemma serve_create_run:
  fixes s :: "('h, file_sink, 'f, memory_checkpoints) responder"
  assumes at: "rs_at crc w0 [] (spec_create f peer # up) Cn03 (cn_link s) (cn_machine s)" and "allows_write access" and f: "spec_ok f"
    and run: "\<And>l m. rs_at crc w0 [] up Sf01B l m \<Longrightarrow>
      handle_create h ko st (spec_create f peer) (s\<lparr>cn_link := l, cn_machine := m\<rparr>) = (Inr (), P l m)"
  shows "\<exists>l m. rs_at crc w0 [] up Sf01B l m \<and> serve_step fuel h ko so st access s = Some (Inr False, P l m)"
proof -
  have at': "delivers (cn_link s) (spec_create f peer # up)" "m_state (cn_machine s) = Cn03" using at by (simp_all add: rs_at_def)
  from link_recv_delivers [OF at'(1)] obtain l where
    l: "link_recv (cn_link s) = (Inr (spec_create f peer), l)" "delivers l up" "lk_writer l = lk_writer (cn_link s)" "lk_crc l = lk_crc (cn_link s)"
    by blast
  let ?m = "(cn_machine s)\<lparr>m_state := Sf01B\<rparr>"
  have m: "machine_apply (Received K_Create False) (cn_machine s) = (Inr False, ?m)"
    using at'(2) by (simp add: machine_next server_write_path)
  have kind: "f_kind (spec_create f peer) = K_Create" "\<not> fpdu_is_negative (spec_create f peer)"
    using create_params_of(3) [OF f] by (simp_all add: fpdu_is_negative_def is_ack_def)
  have r: "rs_at crc w0 [] up Sf01B l ?m" using at l by (simp add: rs_at_def)
  have "rs_apply_received (spec_create f peer) (s\<lparr>cn_link := l\<rparr>) = (Inr False, s\<lparr>cn_link := l, cn_machine := ?m\<rparr>)"
    using m kind by (simp add: rs_apply_received_def receive_event_def)
  with run [OF r] l(1) kind(1) assms(2)
  have "serve_step fuel h ko so st access s = Some (Inr False, P l ?m)"
    by (simp add: serve_step_def serve_fpdu_def act_pbind_eq conn_recv_def on_link_def pact_of_def act_return_def)
  with r show ?thesis by blast
qed

end
