(* ===== verification/Session_Transfer.thy ===== *)
theory Session_Transfer
  imports Server_Run
begin

text \<open>
  A whole transfer between two connected sessions: the requester sends a file, the server stores it, and
  each receives what the other writes.
\<close>

section \<open>Both sides\<close>

text \<open>Two sessions connected to each other, between two transfers.\<close>

definition connected :: "'x requester_scheme \<Rightarrow> ('h, 'k, 'f, 'c, 'y) responder_scheme \<Rightarrow> session_info \<Rightarrow> bool" where
  "connected rq rs info \<longleftrightarrow>
     at_rest (cn_link rq) \<and> m_state (cn_machine rq) = Cn03 \<and> lk_crc (cn_link rq) = ng_crc (rq_negotiated rq) \<and>
     at_rest (cn_link rs) \<and> m_state (cn_machine rs) = Cn03 \<and> lk_crc (cn_link rs) = ng_crc (rq_negotiated rq) \<and>
     rs_info rs = Some info \<and> si_negotiated info = rq_negotiated rq"

text \<open>
  The events \<open>evs\<close> of a queue are the entities the other side wrote while its writer went from \<open>w\<close> to \<open>w'\<close>, and
  polls that found nothing.
\<close>

fun entities_of :: "rx_event list \<Rightarrow> bytes list" where
  "entities_of [] = []"
| "entities_of (Rx_Entity e _ # evs) = e # entities_of evs"
| "entities_of (_ # evs) = entities_of evs"

fun undisturbed_event :: "rx_event \<Rightarrow> bool" where
  "undisturbed_event (Rx_Entity e on) = (\<not> on)"
| "undisturbed_event Rx_Nothing = True"
| "undisturbed_event _ = False"

definition exchanged :: "rx_event list \<Rightarrow> frame_writer \<Rightarrow> frame_writer \<Rightarrow> bool" where
  "exchanged evs w w' \<longleftrightarrow> list_all undisturbed_event evs \<and> wr_out w' = wr_out w @ concat (map prefixed (entities_of evs))"

lemma entities_of_append [simp]: "entities_of (xs @ ys) = entities_of xs @ entities_of ys"
  by (induction xs rule: entities_of.induct) simp_all

lemma entities_of_simps [simp]:
  "entities_of (map (entity_event crc) fs) = map (\<lambda>f. entity_of crc [f]) fs" "entities_of (replicate n Rx_Nothing) = []"
  "entities_of (map (\<lambda>gs. Rx_Entity (entity_of crc gs) False) gss) = map (entity_of crc) gss"
proof -
  show "entities_of (replicate n Rx_Nothing) = []" by (induction n) simp_all
  show "entities_of (map (entity_event crc) fs) = map (\<lambda>f. entity_of crc [f]) fs" by (induction fs) (simp_all add: entity_event_def)
  show "entities_of (map (\<lambda>gs. Rx_Entity (entity_of crc gs) False) gss) = map (entity_of crc) gss" by (induction gss) simp_all
qed

lemma exchanged_requester:
  "wrote crc (singles (fs @ gs)) w w' \<Longrightarrow> exchanged (requester_events crc fs n gs) w w'"
  by (auto simp: wrote_def exchanged_def requester_events_def singles_def comp_def list_all_iff entity_event_def)

text \<open>The queue of the server: the entities of the requester one after the other.\<close>

definition server_events :: "bool \<Rightarrow> fpdu list list \<Rightarrow> rx_event list" where
  "server_events crc gss = map (\<lambda>gs. Rx_Entity (entity_of crc gs) False) gss"

lemma exchanged_server: "wrote crc gss w w' \<Longrightarrow> exchanged (server_events crc gss) w w'"
  by (auto simp: wrote_def exchanged_def server_events_def comp_def list_all_iff)

lemma delivers_server:
  assumes "lk_pending l = []" and "\<not> lk_closed l" and "lk_crc l = crc" and "list_all (\<lambda>gs. gs \<noteq> [] \<and> list_all sendable gs) gss"
    and "lk_rx l = server_events crc gss"
  shows "delivers l (concat gss)"
  using assms unfolding delivers_def server_events_def by (intro conjI exI [of _ gss] exI [of _ "[]"]) simp_all

text \<open>The parameters of the data phase the two sessions agree on for a file announced as \<open>f\<close>.\<close>

definition session_params :: "'x requester_scheme \<Rightarrow> connect_accept \<Rightarrow> file_spec \<Rightarrow> data_params" where
  "session_params rq accept f =
     rq_data_params rq (compression_negotiate (rc_compression (rq_cfg rq)) (ca_compression accept))
       (min (rs_entity_size f accept) (unat (fs_max_entity_size f))) (unat (fs_article_length f))"

lemma entity_ok_sendable: "list_all (entity_ok n crc) gss \<Longrightarrow> list_all (\<lambda>gs. gs \<noteq> [] \<and> list_all sendable gs) gss"
  by (auto simp: list_all_iff entity_ok_def)

lemma singles_sendable: "list_all compact fs \<Longrightarrow> list_all (\<lambda>gs. gs \<noteq> [] \<and> list_all sendable gs) (singles fs)"
  by (auto simp: list_all_iff singles_def compact_sendable)

lemma sink_bytes_of_wire:
  assumes "fw_format k = fmt" and "fw_ebcdic k = e"
  shows "sink_bytes k (map (on_wire (source_with_ebcdic e src)) as) = concat (map (article_to_bytes fmt) as)"
proof -
  have "off_wire k (on_wire (source_with_ebcdic e src) a) = a" for a
    by (simp add: off_wire_def on_wire_def assms(2) source_with_ebcdic_def)
  then show ?thesis by (simp add: sink_bytes_def assms(1) comp_def)
qed

lemma created_sink:
  assumes "sink_create part final fmt None script = (Inr (), k)" and "script_ok script"
  shows "fresh_sink (sink_with_ebcdic e k)" "fw_format (sink_with_ebcdic e k) = fmt" "fw_ebcdic (sink_with_ebcdic e k) = e"
  using file_create_holds [OF assms(1)] runs_create [OF assms(2), of part final fmt None] assms(1)
  by (simp_all add: fresh_sink_def sink_with_ebcdic_def sink_holds_def sink_bytes_def sink_pos_def sink_room_def runs_def)

lemma carries_sendable: "carries p ws d gss \<Longrightarrow> list_all (\<lambda>gs. gs \<noteq> [] \<and> list_all sendable gs) gss"
  unfolding carries_def by (blast intro: entity_ok_sendable)

text \<open>One turn of the serving loop over a whole transfer.\<close>

lemma serve_transfer_run:
  fixes s :: "('h, file_sink, 'f, memory_checkpoints) responder"
  assumes s: "at_rest (cn_link s)" "m_state (cn_machine s) = Cn03" "lk_crc (cn_link s) = crc" "rs_info s = Some info"
    and f: "spec_ok f" "\<not> fs_restarted f"
    and a: "hd_create h info f (rs_handler s) = (Inr a, h')" "plain_opt 254 (cra_free_message a)"
      "tid = unwrap_or (fs_transfer_id f) (cra_transfer_id a)" "unat tid < 2 ^ 24"
    and dss: "carries p ws d gss" "length ws < 2 ^ 24"
    and q: "dp_compression p = compression_negotiate c (ca_compression (rs_accept s))"
      "dp_max_article p = (if cra_max_article a = 0 then unat (fs_article_length f) else cra_max_article a)"
      "so_window (ng_sync (si_negotiated info)) = 0" "sync_enabled (ng_sync (si_negotiated info))"
    and k: "fresh_sink (cra_sink a)" "sink_room (cra_sink a) ws"
    and cancel: "\<And>x. list_all Not (fst (hd_cancel_flag h info (cra_handle a) x))" and access: "allows_write access"
    and up: "list_all compact up"
  shows "\<exists>s' k' cps. serve_step fuel h file_sink_ops so memory_store_ops access
      (with_rx (server_events crc (singles (opening_fpdus peer f c) @ gss @ singles (closing_fpdus peer d) @ singles up)) s) = Some (Inr False, s') \<and>
    rs_at crc (lk_writer (cn_link s)) (singles (opening_acks (rs_peer_id s) tid (word_of_nat (rs_entity_size f (rs_accept s)))
      (cra_free_message a) (dp_compression p) @ closing_acks (rs_peer_id s) d)) up Cn03 (cn_link s') (cn_machine s') \<and>
    rs_sinks s' = rs_sinks s @ [(k', cps)] \<and> fw_final k' = Some (sink_bytes (cra_sink a) ws) \<and> rs_info s' = rs_info s \<and>
    rs_peer_id s' = rs_peer_id s \<and> rs_cfg s' = rs_cfg s"
proof -
  let ?gss = "singles (opening_fpdus peer f c) @ gss @ singles (closing_fpdus peer d) @ singles up" and ?w = "lk_writer (cn_link s)"
  let ?s = "with_rx (server_events crc ?gss) s"
  let ?up = "orf peer c # write_fpdu peer # concat gss @ closing_fpdus peer d @ up"
  have fields: "rs_accept ?s = rs_accept s" "rs_info ?s = rs_info s" "rs_handler ?s = rs_handler s" "rs_sinks ?s = rs_sinks s"
    "rs_peer_id ?s = rs_peer_id s" "rs_cfg ?s = rs_cfg s" by (simp_all add: with_rx_def)
  have "list_all compact (opening_fpdus peer f c)" "list_all compact (closing_fpdus peer d)"
    using create_compact [OF f(1)] service_compacts [of 0] counts_compact(1) [OF carries_result(2) [OF dss]]
    by (simp_all add: opening_fpdus_def closing_fpdus_def)
  then have "list_all (\<lambda>gs. gs \<noteq> [] \<and> list_all sendable gs) ?gss"
    using singles_sendable carries_sendable [OF dss(1)] up by simp
  then have "delivers (cn_link ?s) (concat ?gss)" using s by (intro delivers_server) (simp_all add: at_rest_def)
  then have at: "rs_at crc ?w [] (spec_create f peer # ?up) Cn03 (cn_link ?s) (cn_machine ?s)"
    using s by (simp add: rs_at_def at_rest_def wrote_def opening_fpdus_def)
  let ?run = "\<lambda>l m. handle_create h file_sink_ops memory_store_ops (spec_create f peer) (?s\<lparr>cn_link := l, cn_machine := m\<rparr>)"
  have run: "\<exists>s' k' cps. ?run l m = (Inr (), s') \<and>
      rs_at crc ?w (singles (opening_acks (rs_peer_id s) tid (word_of_nat (rs_entity_size f (rs_accept s))) (cra_free_message a)
        (dp_compression p) @ closing_acks (rs_peer_id s) d)) up Cn03 (cn_link s') (cn_machine s') \<and>
      rs_sinks s' = rs_sinks s @ [(k', cps)] \<and> fw_final k' = Some (sink_bytes (cra_sink a) ws) \<and> rs_info s' = rs_info s \<and>
      rs_peer_id s' = rs_peer_id s \<and> rs_cfg s' = rs_cfg s"
    if "rs_at crc ?w [] ?up Sf01B l m" for l m
    using handle_create_run [of crc ?w peer c gss d up "?s\<lparr>cn_link := l, cn_machine := m\<rparr>" "spec_create f peer" f info h a h' tid p ws,
        OF _ spec_from_create [OF f(1)] f(2) _ _ a(2-4) dss _ q(2-4) k cancel] that a(1) q(1) s(4)
    by (simp add: fields) blast
  have "?run l m = (Inr (), snd (?run l m))" if "rs_at crc ?w [] ?up Sf01B l m" for l m
    using run [OF that] by (metis snd_conv)
  from serve_create_run [OF at access f(1) this] obtain l m where
    l: "rs_at crc ?w [] ?up Sf01B l m" "serve_step fuel h file_sink_ops so memory_store_ops access ?s = Some (Inr False, snd (?run l m))"
    by blast
  from run [OF l(1)] l(2) show ?thesis by auto
qed

text \<open>Both sides of a transfer, with what the queues hold behind it.\<close>

lemma transfer_between:
  fixes rq :: requester and rs :: "('h, file_sink, 'f, memory_checkpoints) responder"
  assumes conn: "connected rq rs info"
    and sync: "so_window (ng_sync (rq_negotiated rq)) = 0" "sync_enabled (ng_sync (rq_negotiated rq))"
    and src: "source_open (Inr data) fmt rl script = Inr src" "script_ok script" "length data < 2 ^ 64"
      "run_cutter (cutter_new fmt rl) [data] = (as, None)"
    and f: "f = rq_file (rq_cfg rq) spec" "spec_ok f" "ts_restart spec = None"
    and a: "hd_create h info f (rs_handler rs) = (Inr a, h')" "plain_opt 254 (cra_free_message a)"
      "unat (unwrap_or (fs_transfer_id f) (cra_transfer_id a)) < 2 ^ 24"
      "cra_max_article a = 0 \<or> cra_max_article a = unat (fs_article_length f)"
    and snk: "sink_create part final fmt None script' = (Inr (), k)" "script_ok script'" "cra_sink a = sink_with_ebcdic e k"
      "length (concat (map (article_to_bytes fmt) as)) < 2 ^ 64"
    and p: "p = session_params rq (rs_accept rs) f" "13 \<le> dp_max_entity p"
    and as: "list_all (admissible p (dp_max_article p)) as" "length as < 2 ^ 24"
    and cancel: "\<And>x. list_all Not (fst (hd_cancel_flag h info (cra_handle a) x))" "list_all Not flags"
    and "allows_write access"
    and up: "list_all compact up"
  shows "\<exists>evs gss acks outcome rq' rs' k' cps.
    send_file (length as + 1) file_source_ops memory_store_ops spec flags
      (transfer_start (with_rx (evs @ rx) rq) (source_with_ebcdic e src) store) = Some (Inr outcome, rq') \<and>
    serve_step fuel h file_sink_ops so memory_store_ops access (with_rx (server_events (dp_crc p) (gss @ singles up)) rs) = Some (Inr False, rs') \<and>
    rq_at (dp_crc p) (lk_writer (cn_link rq)) gss rx Cn03 rq' \<and> rq_same (transfer_start rq (source_with_ebcdic e src) store) rq' \<and>
    rs_at (dp_crc p) (lk_writer (cn_link rs)) acks up Cn03 (cn_link rs') (cn_machine rs') \<and> rs_info rs' = Some info \<and>
    exchanged evs (lk_writer (cn_link rs)) (lk_writer (cn_link rs')) \<and> is_complete outcome \<and>
    rs_sinks rs' = rs_sinks rs @ [(k', cps)] \<and> fw_final k' = Some (concat (map (article_to_bytes fmt) as)) \<and>
    rs_peer_id rs' = rs_peer_id rs \<and> rs_cfg rs' = rs_cfg rs"
proof -
  let ?src = "source_with_ebcdic e src"
  let ?ws = "map (on_wire ?src) as"
  let ?tid = "unwrap_or (fs_transfer_id f) (cra_transfer_id a)" and ?m = "cra_free_message a"
  let ?esz = "word_of_nat (rs_entity_size f (rs_accept rs)) :: u16" and ?peer = "rs_peer_id rs"
  let ?ack = "ack_create ?peer D_OK (Some ?tid) ?esz ?m"
  let ?rc = "rc_compression (rq_cfg rq)"
  let ?c = "compression_negotiate ?rc (ca_compression (rs_accept rs))"
  let ?s = "transfer_start rq ?src store"
  have s: "cn_link ?s = cn_link rq" "cn_machine ?s = cn_machine rq" "rq_cfg ?s = rq_cfg rq" "rq_peer_id ?s = rq_peer_id rq"
    "rq_negotiated ?s = rq_negotiated rq" "xf_file ?s = ?src"
    by (simp_all add: transfer_start_def requester.defs)
  have rx: "transfer_start (with_rx evs rq) ?src store = with_rx evs ?s" for evs
    by (simp add: transfer_start_def requester.defs with_rx_def)
  note y = file_open_yields [OF src, of e] and adm = admissible_wire [OF as(1), of ?src]
  have pp: "p = rq_data_params ?s (compression_negotiate (rc_compression (rq_cfg ?s)) ?c) (rq_entity_size f ?ack) (unat (fs_article_length f))"
    by (simp add: p(1) session_params_def rq_data_params_def s rq_entity_size_def ack_create_gets [OF a(2)] rs_entity_size_word)
  have pf: "dp_crc p = ng_crc (rq_negotiated rq)" "dp_compression p = ?c" "dp_max_article p = unat (fs_article_length f)"
      "dp_sync p = ng_sync (rq_negotiated rq)"
    by (simp_all add: p(1) session_params_def rq_data_params_def)
  have win: "send_window p = 0" using sync(1) by (simp add: send_window_def pf)
  have len: "length ?ws = length as" by simp
  obtain d gss s' where
    1: "carries p ?ws d gss"
      "send_file (length as + 1) file_source_ops memory_store_ops spec flags
        (with_rx (requester_events (dp_crc p) (opening_acks ?peer ?tid ?esz ?m ?c) (Suc (length ?ws)) (closing_acks ?peer d) @ rx) ?s) =
        Some (Inr (rq_outcome f ?ack checkpoint_default d D_OK), s')"
      "rq_at (dp_crc p) (lk_writer (cn_link rq))
        (singles (opening_fpdus (rq_peer_id rq) f ?rc) @ gss @ singles (closing_fpdus (rq_peer_id rq) d)) rx Cn03 s'" "rq_same ?s s'"
    using send_file_run [of ?s ?ws f spec ?ack ?peer ?tid ?esz ?m p ?c flags "length as + 1", unfolded s, OF y _ _ _ f refl a(2,3) pp [unfolded s] p(2) win adm, of rx]
      conn as(2) cancel(2) by (auto simp: connected_def)
  have info: "rs_info rs = Some info" "si_negotiated info = rq_negotiated rq" using conn by (simp_all add: connected_def)
  have fmt: "fresh_sink (cra_sink a)" "sink_bytes (cra_sink a) ?ws = concat (map (article_to_bytes fmt) as)"
    using created_sink [OF snk(1,2), of e] sink_bytes_of_wire [of "cra_sink a" fmt e src as] by (simp_all add: snk(3))
  then have room: "sink_room (cra_sink a) ?ws" using snk(4) by (simp add: sink_room_def)
  have nr: "\<not> fs_restarted f" using f(3) by (simp add: f(1) rq_file_def Let_def)
  have ws: "length ?ws < 2 ^ 24" using as(2) by simp
  have art: "dp_max_article p = (if cra_max_article a = 0 then unat (fs_article_length f) else cra_max_article a)"
    using a(4) pf(3) by auto
  let ?gss = "singles (opening_fpdus (rq_peer_id rq) f ?rc) @ gss @ singles (closing_fpdus (rq_peer_id rq) d)"
  from serve_transfer_run [OF _ _ _ info(1) f(2) nr a(1,2) refl a(3) 1(1) ws pf(2) art _ _ fmt(1) room cancel(1) assms(25) up,
      of "dp_crc p" fuel so "rq_peer_id rq"] conn sync info(2) pf(1,2)
  obtain s2 k' cps where
    2: "serve_step fuel h file_sink_ops so memory_store_ops access (with_rx (server_events (dp_crc p) (?gss @ singles up)) rs) = Some (Inr False, s2)"
      "rs_at (dp_crc p) (lk_writer (cn_link rs)) (singles (opening_acks ?peer ?tid ?esz ?m ?c @ closing_acks ?peer d)) up Cn03
        (cn_link s2) (cn_machine s2)"
      "rs_sinks s2 = rs_sinks rs @ [(k', cps)]" "fw_final k' = Some (sink_bytes (cra_sink a) ?ws)" "rs_info s2 = rs_info rs"
      "rs_peer_id s2 = rs_peer_id rs" "rs_cfg s2 = rs_cfg rs"
    by (auto simp: connected_def)
  have "is_complete (rq_outcome f ?ack checkpoint_default d D_OK)"
    using carries_result(1) [OF 1(1)] by (simp add: is_complete_def rq_outcome_def diag_is_ok_iff)
  moreover have "exchanged (requester_events (dp_crc p) (opening_acks ?peer ?tid ?esz ?m ?c) (Suc (length ?ws)) (closing_acks ?peer d))
      (lk_writer (cn_link rs)) (lk_writer (cn_link s2))"
    using exchanged_requester 2(2) by (simp add: rs_at_def)
  ultimately show ?thesis using 1(2-4) 2 info(1) unfolding rx fmt(2) by metis
qed

text \<open>C2: a whole transfer between two connected sessions. A requester and a server that are connected,
  between two transfers, with the same negotiated options (synchronisation points without
  acknowledgement) exchange a file. The requester is given a readable file whose articles are within
  the negotiated limits and an announcement within the catalogue lengths; the application behind the
  server accepts the creation with a new file and does not cancel. Then there is a run of both sides in which each
  finds in its queue exactly the entities the other one writes: the requester announces, opens, sends,
  ends, closes and deselects the file and reports a complete transfer; the server goes through the
  same phases and hands over the file, which holds the articles of the file sent under its final
  name. Afterwards both are connected as before, ready for the next transfer.\<close>

theorem session_transfer:
  fixes rq :: requester and rs :: "('h, file_sink, 'f, memory_checkpoints) responder"
  assumes conn: "connected rq rs info"
    and sync: "so_window (ng_sync (rq_negotiated rq)) = 0" "sync_enabled (ng_sync (rq_negotiated rq))"
    and src: "source_open (Inr data) fmt rl script = Inr src" "script_ok script" "length data < 2 ^ 64"
      "run_cutter (cutter_new fmt rl) [data] = (as, None)"
    and f: "f = rq_file (rq_cfg rq) spec" "spec_ok f" "ts_restart spec = None"
    and a: "hd_create h info f (rs_handler rs) = (Inr a, h')" "plain_opt 254 (cra_free_message a)"
      "unat (unwrap_or (fs_transfer_id f) (cra_transfer_id a)) < 2 ^ 24"
      "cra_max_article a = 0 \<or> cra_max_article a = unat (fs_article_length f)"
    and snk: "sink_create part final fmt None script' = (Inr (), k)" "script_ok script'" "cra_sink a = sink_with_ebcdic e k"
      "length (concat (map (article_to_bytes fmt) as)) < 2 ^ 64"
    and p: "p = session_params rq (rs_accept rs) f" "13 \<le> dp_max_entity p"
    and as: "list_all (admissible p (dp_max_article p)) as" "length as < 2 ^ 24"
    and cancel: "\<And>x. list_all Not (fst (hd_cancel_flag h info (cra_handle a) x))" "list_all Not flags"
    and "allows_write access"
  shows "\<exists>rq_rx rs_rx outcome rq' rs' k' cps.
    send_file (length as + 1) file_source_ops memory_store_ops spec flags
      (transfer_start (with_rx rq_rx rq) (source_with_ebcdic e src) store) = Some (Inr outcome, rq') \<and>
    serve_step fuel h file_sink_ops so memory_store_ops access (with_rx rs_rx rs) = Some (Inr False, rs') \<and>
    exchanged rq_rx (lk_writer (cn_link rs)) (lk_writer (cn_link rs')) \<and>
    exchanged rs_rx (lk_writer (cn_link rq)) (lk_writer (cn_link rq')) \<and>
    is_complete outcome \<and> connected rq' rs' info \<and>
    rs_sinks rs' = rs_sinks rs @ [(k', cps)] \<and> fw_final k' = Some (concat (map (article_to_bytes fmt) as))"
proof -
  from transfer_between [OF assms, of "[]" "[]" store fuel so] obtain evs gss acks outcome rq' rs' k' cps where
    1: "send_file (length as + 1) file_source_ops memory_store_ops spec flags
        (transfer_start (with_rx evs rq) (source_with_ebcdic e src) store) = Some (Inr outcome, rq')"
      "serve_step fuel h file_sink_ops so memory_store_ops access (with_rx (server_events (dp_crc p) gss) rs) = Some (Inr False, rs')"
      "rq_at (dp_crc p) (lk_writer (cn_link rq)) gss [] Cn03 rq'" "rq_same (transfer_start rq (source_with_ebcdic e src) store) rq'"
      "rs_at (dp_crc p) (lk_writer (cn_link rs)) acks [] Cn03 (cn_link rs') (cn_machine rs')" "rs_info rs' = Some info"
      "exchanged evs (lk_writer (cn_link rs)) (lk_writer (cn_link rs'))" "is_complete outcome"
      "rs_sinks rs' = rs_sinks rs @ [(k', cps)]" "fw_final k' = Some (concat (map (article_to_bytes fmt) as))"
    by auto
  have "dp_crc p = ng_crc (rq_negotiated rq)" by (simp add: p(1) session_params_def rq_data_params_def)
  then have "connected rq' rs' info"
    using 1(3-6) conn
    by (auto simp: connected_def rq_at_def rq_same_def rs_at_def at_rest_def delivers_def wrote_def transfer_start_def requester.defs)
  moreover have "exchanged (server_events (dp_crc p) gss) (lk_writer (cn_link rq)) (lk_writer (cn_link rq'))"
    using exchanged_server 1(3) by (simp add: rq_at_def)
  ultimately show ?thesis using 1(1,2,7-10) by blast
qed

definition sample_requester :: requester where
  "sample_requester = \<lparr>cn_link = set_crc True (link_new \<lparr>wr_out = [], wr_script = [], wr_framing = LengthPrefixed\<rparr> []),
     cn_machine = \<lparr>m_role = Requester, m_state = Cn03\<rparr>, rq_cfg = requester_config_default\<lparr>rc_compression := Comp_Mixed\<rparr>, rq_my_id = 1, rq_peer_id = 7,
     rq_negotiated = \<lparr>ng_version = Version_E, ng_sync = \<lparr>interval_kb = 36, so_window = 0\<rparr>, ng_resync = True, ng_crc = True\<rparr>,
     rq_max_entity = 0\<rparr>"

definition sample_info :: session_info where
  "sample_info = \<lparr>si_id = [], si_requester = [65], si_server = [66], si_remote_addr = [], si_negotiated = rq_negotiated sample_requester\<rparr>"

definition sample_server :: "(unit, file_sink, vec_source, memory_checkpoints) responder" where
  "sample_server = \<lparr>cn_link = set_crc True (link_new \<lparr>wr_out = [], wr_script = [], wr_framing = LengthPrefixed\<rparr> []),
     cn_machine = \<lparr>m_role = Server, m_state = Cn03\<rparr>, rs_cfg = \<lparr>sc_session_id = [], sc_conn_id = 7, sc_remote_addr = []\<rparr>, rs_handler = (), rs_peer_id = 1,
     rs_info = Some sample_info, rs_accept = connect_accept_default\<lparr>ca_compression := Comp_Horizontal\<rparr>, rs_sinks = [], rs_sources = []\<rparr>"

definition sample_handler :: "file_sink \<Rightarrow> (unit, file_sink, vec_source, memory_checkpoints) server_handler" where
  "sample_handler k =
     \<lparr>hd_authenticate = (\<lambda>_ x. (Inr connect_accept_default, x)),
      hd_create = (\<lambda>_ f x. (Inr \<lparr>cra_sink = k, cra_checkpoints = mc_new, cra_transfer_id = None, cra_restart = None, cra_max_article = 0,
        cra_handle = 1, cra_free_message = None\<rparr>, x)),
      hd_select = (\<lambda>_ _ _ x. (Inl (refusal_new D_SELECT_NEGOTIATION), x)), hd_message = (\<lambda>_ _ m _ x. (Inr (Some m), x)),
      hd_transfer_event = (\<lambda>_ _ _ x. x), hd_session_closed = (\<lambda>_ _ x. x), hd_cancel_flag = (\<lambda>_ _ x. ([], x))\<rparr>"

lemmas sample_session_defs = sample_requester_def sample_info_def sample_server_def sample_handler_def link_new_def set_crc_def
  requester_config_default_def connect_accept_default_def

lemma sample_connected: "connected sample_requester sample_server sample_info"
  by (simp add: connected_def sample_session_defs at_rest_def script_ok_def)

lemma sample_spec_ok: "spec_ok (rq_file (rq_cfg sample_requester) \<lparr>ts_file = sample_spec, ts_restart = None\<rparr>)"
  by (simp add: spec_ok_def rq_file_def sample_spec_def plain_def plain_opt_def trim_end_def is_whitespace_def)

theorem session_transfer_witness:
  "\<exists>src k rq_rx rs_rx outcome rq' rs' k' cps.
    source_open (Inr [1, 2, 3, 4, 5]) Bu 2 [] = Inr src \<and> sink_create None None Bu None [] = (Inr (), k) \<and>
    send_file (length [[1, 2], [3, 4], [5 :: u8]] + 1) file_source_ops memory_store_ops \<lparr>ts_file = sample_spec, ts_restart = None\<rparr> []
      (transfer_start (with_rx rq_rx sample_requester) (source_with_ebcdic True src) mc_new) = Some (Inr outcome, rq') \<and>
    serve_step 0 (sample_handler (sink_with_ebcdic True k)) file_sink_ops vec_source_ops memory_store_ops Access_Mixed
      (with_rx rs_rx sample_server) = Some (Inr False, rs') \<and>
    exchanged rq_rx (lk_writer (cn_link sample_server)) (lk_writer (cn_link rs')) \<and>
    exchanged rs_rx (lk_writer (cn_link sample_requester)) (lk_writer (cn_link rq')) \<and>
    is_complete outcome \<and> connected rq' rs' sample_info \<and>
    rs_sinks rs' = rs_sinks sample_server @ [(k', cps)] \<and> fw_final k' = Some [1, 2, 3, 4, 5]"
proof -
  obtain src where src: "source_open (Inr [1, 2, 3, 4, 5]) Bu 2 [] = Inr src" using sample_open by blast
  obtain k where k: "sink_create None None Bu None [] = (Inr (), k)"
    using runs_create [of "[]" None None Bu None] by (auto simp: runs_def script_ok_def)
  let ?spec = "\<lparr>ts_file = sample_spec, ts_restart = None\<rparr> :: transfer_spec"
  let ?f = "rq_file (rq_cfg sample_requester) ?spec" and ?h = "sample_handler (sink_with_ebcdic True k)"
  let ?p = "session_params sample_requester (rs_accept sample_server) ?f"
  let ?a = "\<lparr>cra_sink = sink_with_ebcdic True k, cra_checkpoints = mc_new, cra_transfer_id = None, cra_restart = None, cra_max_article = 0,
    cra_handle = 1, cra_free_message = None\<rparr>"
  have f: "fs_max_entity_size ?f = 4096" "fs_article_length ?f = 256" "fs_transfer_id ?f = 42" by (simp_all add: rq_file_def sample_spec_def)
  have a: "hd_create ?h sample_info ?f (rs_handler sample_server) = (Inr ?a, ())" "plain_opt 254 (cra_free_message ?a)"
    "unat (unwrap_or (fs_transfer_id ?f) (cra_transfer_id ?a)) < 2 ^ 24" "cra_max_article ?a = 0 \<or> cra_max_article ?a = unat (fs_article_length ?f)"
    "\<And>x. list_all Not (fst (hd_cancel_flag ?h sample_info (cra_handle ?a) x))" "cra_sink ?a = sink_with_ebcdic True k"
    by (simp_all add: sample_handler_def plain_opt_def f unwrap_or_def)
  have same: "concat (map (article_to_bytes Bu) [[1, 2], [3, 4], [5]]) = [1, 2, 3, 4, 5]" by code_simp
  have acc: "ca_max_entity (rs_accept sample_server) = 0xFFFF" by (simp add: sample_server_def connect_accept_default_def)
  have p: "dp_max_entity ?p = 4096" "dp_max_article ?p = 256"
    by (simp_all add: session_params_def rq_data_params_def f rs_entity_size_def acc HEADER_LEN_def)
  have adm: "list_all (admissible ?p (dp_max_article ?p)) [[1, 2], [3, 4], [5]]" by (simp add: admissible_def wire_bound_def p)
  have rest: "so_window (ng_sync (rq_negotiated sample_requester)) = 0" "sync_enabled (ng_sync (rq_negotiated sample_requester))"
    "script_ok []" "length ([1, 2, 3, 4, 5] :: bytes) < 2 ^ 64" "ts_restart ?spec = None" "allows_write Access_Mixed"
    "length (concat (map (article_to_bytes Bu) [[1, 2], [3, 4], [5]])) < 2 ^ 64" "13 \<le> dp_max_entity ?p"
    "length [[1, 2], [3, 4], [5 :: u8]] < 2 ^ 24" "list_all Not []"
    unfolding same p by (simp_all add: sample_requester_def sync_enabled_def script_ok_def allows_write_def)
  from session_transfer [OF sample_connected rest(1,2) src rest(3,4) sample_cut refl sample_spec_ok rest(5) a(1-4) k rest(3) a(6) rest(7)
      refl rest(8) adm rest(9) a(5) rest(10,6), of mc_new 0 vec_source_ops] src k
  show ?thesis unfolding same by blast
qed

end
