(* ===== verification/Session_Connect.thy ===== *)
theory Session_Connect
  imports Session_Transfer
begin

text \<open>
  The connection phase of both sides, with and without a pre-connection message: the application is
  asked with the parameters of the requester, and both sides end with the same negotiated options.
\<close>

section \<open>Negotiation\<close>

lemma sync_negotiate_again:
  "sync_negotiate s (sync_negotiate s t) = sync_negotiate s t"
  by (auto simp: sync_negotiate_def sync_enabled_def SYNC_NONE_def Let_def min_def)

lemma sync_none [simp]: "\<not> sync_enabled SYNC_NONE"
  by (simp add: sync_enabled_def SYNC_NONE_def)

lemma sync_negotiate_disabled: "\<not> sync_enabled s \<or> \<not> sync_enabled t \<Longrightarrow> sync_negotiate s t = SYNC_NONE"
  by (auto simp: sync_negotiate_def)

text \<open>The request the application of the server sees.\<close>

definition announced :: "requester_config \<Rightarrow> rstring \<Rightarrow> connect_request" where
  "announced cfg addr =
     \<lparr>cr_requester = rc_requester_id cfg, cr_server = rc_server_id cfg, cr_password = rc_password cfg, cr_version = rc_version cfg,
      cr_sync = (if sync_enabled (rc_sync cfg) then rc_sync cfg else SYNC_NONE), cr_access = rc_access cfg, cr_resync = rc_resync cfg,
      cr_crc = rc_crc cfg, cr_free_message = rc_free_message cfg,
      cr_preconnect = map_option (\<lambda>pc. (trim_end (pc_identifier pc), trim_end (pc_password pc))) (rc_preconnect cfg),
      cr_remote_addr = addr\<rparr>"

definition config_ok :: "requester_config \<Rightarrow> bool" where
  "config_ok cfg \<longleftrightarrow> plain 24 (rc_requester_id cfg) \<and> plain 24 (rc_server_id cfg) \<and> plain_opt 16 (rc_password cfg) \<and>
     plain_opt 254 (rc_free_message cfg) \<and>
     (case rc_preconnect cfg of None \<Rightarrow> True
      | Some pc \<Rightarrow> (\<forall>c\<in>set (pc_identifier pc) \<union> set (pc_password pc). c < 128) \<and> length (pc_identifier pc) \<le> 8 \<and> length (pc_password pc) \<le> 8)"

text \<open>What both sides negotiate from the configuration and the acceptance.\<close>

definition agreed :: "requester_config \<Rightarrow> connect_accept \<Rightarrow> negotiated" where
  "agreed cfg a = \<lparr>ng_version = rc_version cfg, ng_sync = sync_negotiate (rc_sync cfg) (ca_sync a),
     ng_resync = (rc_resync cfg \<and> ca_resync a), ng_crc = rc_crc cfg\<rparr>"

lemma connect_request_announced:
  assumes "config_ok cfg" and "pre = map_option (\<lambda>pc. (trim_end (pc_identifier pc), trim_end (pc_password pc))) (rc_preconnect cfg)"
  shows "connect_request_of (rq_connect_fpdu cfg) pre addr = announced cfg addr" and "compact (rq_connect_fpdu cfg)"
    and "f_kind (rq_connect_fpdu cfg) = K_Connect" and "id_src (rq_connect_fpdu cfg) = 1"
proof -
  let ?c = "\<lparr>cp_requester = rc_requester_id cfg, cp_server = rc_server_id cfg, cp_password = rc_password cfg,
       cp_version = rc_version cfg, connect_params.cp_sync = rc_sync cfg, cp_access = rc_access cfg,
       cp_resync = rc_resync cfg, cp_crc = rc_crc cfg, cp_timeout = None, cp_free_message = rc_free_message cfg\<rparr>"
  have ok: "connect_ok ?c" using assms(1) by (simp add: connect_ok_def config_ok_def)
  have texts: "text_from_bytes (text_to_bytes s) = s"
    if "s = cp_requester ?c \<or> s = cp_server ?c \<or> cp_password ?c = Some s \<or> cp_free_message ?c = Some s" for s
    using ok that by (auto simp: connect_ok_def plain_opt_def intro: plain_bytes(3))
  show "connect_request_of (rq_connect_fpdu cfg) pre addr = announced cfg addr"
    by (intro connect_request.equality)
      (simp_all add: connect_request_of_def rq_connect_fpdu_def announced_def connect_params_of(1) [OF ok] texts fpdu_get_text_def
        fpdu_get_num_def fpdu_get_def get_version_def get_sync_option_def get_access_type_def get_param_append assms(2) unwrap_or_def
        version_wire.from_code_code access_wire.from_code_code split: option.split)
  show "compact (rq_connect_fpdu cfg)" using connect_compact [OF ok] by (simp add: rq_connect_fpdu_def)
  show "f_kind (rq_connect_fpdu cfg) = K_Connect" "id_src (rq_connect_fpdu cfg) = 1"
    by (simp_all add: rq_connect_fpdu_def connect_build_def setter_funs)
qed

lemma rs_negotiate_agreed: "rs_negotiate (announced cfg addr) a (rc_crc cfg) = agreed cfg a"
  by (cases "rc_version cfg") (simp_all add: rs_negotiate_def announced_def agreed_def sync_negotiate_disabled)

lemma rq_negotiate_agreed:
  assumes "plain_opt 254 m"
  shows "rq_negotiate cfg (aconnect dst src (rc_version cfg) (ng_sync (agreed cfg a)) (ng_resync (agreed cfg a)) m) = agreed cfg a"
  using assms sync_negotiate_again [of "rc_sync cfg" "ca_sync a"]
  by (auto simp: rq_negotiate_def aconnect_gets agreed_def unwrap_or_def sync_negotiate_disabled sync_enabled_def SYNC_NONE_def)

section \<open>Entities\<close>

text \<open>A writer that has written the entities \<open>es\<close> after \<open>w\<close>, without a fault so far.\<close>

definition wrote_bytes :: "bytes list \<Rightarrow> frame_writer \<Rightarrow> frame_writer \<Rightarrow> bool" where
  "wrote_bytes es w w' \<longleftrightarrow> script_ok (wr_script w') \<and> wr_framing w' = LengthPrefixed \<and> wr_out w' = wr_out w @ concat (map prefixed es)"

lemma wrote_bytes_trans: "wrote_bytes es w w' \<Longrightarrow> wrote_bytes es' w' w'' \<Longrightarrow> wrote_bytes (es @ es') w w''"
  by (simp add: wrote_bytes_def)

lemma wrote_wrote_bytes: "wrote crc [[f]] w w' \<Longrightarrow> wrote_bytes [entity_of crc [f]] w w'"
  by (simp add: wrote_def wrote_bytes_def)

lemma send_entity_wrote:
  assumes "at_rest (cn_link s)" and "length e < 65536"
  shows "on_link (link_send_entity e) s = (Inr (), s\<lparr>cn_link := (cn_link s)\<lparr>lk_writer := snd (write_entity e (lk_writer (cn_link s)))\<rparr>\<rparr>)"
    and "wrote_bytes [e] (lk_writer (cn_link s)) (snd (write_entity e (lk_writer (cn_link s))))"
proof -
  obtain w where w: "write_entity e (lk_writer (cn_link s)) = (Inr (), w)" "script_ok (wr_script w)"
    using write_entity_ok [of "lk_writer (cn_link s)" e] assms by (auto simp: at_rest_def)
  with write_entity_prefixed [OF w(1)] assms(1)
  show "on_link (link_send_entity e) s = (Inr (), s\<lparr>cn_link := (cn_link s)\<lparr>lk_writer := snd (write_entity e (lk_writer (cn_link s)))\<rparr>\<rparr>)"
    "wrote_bytes [e] (lk_writer (cn_link s)) (snd (write_entity e (lk_writer (cn_link s))))"
    by (auto simp: on_link_def link_send_entity_def act_on_def wrote_bytes_def prefixed_def at_rest_def)
qed

lemma recv_entity_event:
  assumes "\<not> lk_closed (cn_link s)" and "lk_rx (cn_link s) = Rx_Entity e False # rx"
  shows "on_link link_recv_entity s = (Inr e, s\<lparr>cn_link := (cn_link s)\<lparr>lk_rx := rx\<rparr>\<rparr>)"
  using assms by (simp add: on_link_def link_recv_entity_def link_next_event_def)

section \<open>The requester\<close>

lemma connect_path:
  "state_apply Cn01 (Local L_Connect) = Next Cn02A" "state_apply Cn02A (Received K_Aconnect False) = Next Cn03"
  "state_apply Cn01 (Received K_Connect False) = Next Cn02B" "state_apply Cn02B (Local L_Accept) = Next Cn03"
  by (simp_all add: state_tables apply_Cn01_def apply_Cn02A_def apply_Cn02B_def)

text \<open>The entities of the pre-connection: the message of the requester and the answer of the server.\<close>

definition preconnect_sent :: "requester_config \<Rightarrow> bytes list" where
  "preconnect_sent cfg = (case rc_preconnect cfg of None \<Rightarrow> [] | Some pc \<Rightarrow> [preconnect_message (pc_identifier pc) (pc_password pc)])"

definition preconnect_answer :: "requester_config \<Rightarrow> bytes list" where
  "preconnect_answer cfg = (case rc_preconnect cfg of None \<Rightarrow> [] | Some _ \<Rightarrow> [PRECONNECT_ACK])"

text \<open>The writers behind these entities.\<close>

definition write_all :: "bytes list \<Rightarrow> frame_writer \<Rightarrow> frame_writer" where
  "write_all es w = fold (\<lambda>e w. snd (write_entity e w)) es w"

definition entity_events :: "bytes list \<Rightarrow> rx_event list" where
  "entity_events es = map (\<lambda>e. Rx_Entity e False) es"

lemma rq_preconnect_ok:
  assumes "at_rest (cn_link s)" and "lk_rx (cn_link s) = entity_events (preconnect_answer cfg) @ rx"
  shows "rq_preconnect cfg s = (Inr (), s\<lparr>cn_link := (cn_link s)\<lparr>lk_writer := write_all (preconnect_sent cfg) (lk_writer (cn_link s)), lk_rx := rx\<rparr>\<rparr>)"
    and "wrote_bytes (preconnect_sent cfg) (lk_writer (cn_link s)) (write_all (preconnect_sent cfg) (lk_writer (cn_link s)))"
proof -
  let ?w = "write_all (preconnect_sent cfg) (lk_writer (cn_link s))"
  have "rq_preconnect cfg s = (Inr (), s\<lparr>cn_link := (cn_link s)\<lparr>lk_writer := ?w, lk_rx := rx\<rparr>\<rparr>) \<and> wrote_bytes (preconnect_sent cfg) (lk_writer (cn_link s)) ?w"
  proof (cases "rc_preconnect cfg")
    case None
    with assms show ?thesis
      by (simp add: rq_preconnect_def preconnect_sent_def preconnect_answer_def entity_events_def act_return_def wrote_bytes_def at_rest_def write_all_def)
  next
    case (Some pc)
    let ?m = "preconnect_message (pc_identifier pc) (pc_password pc)"
    have w: "?w = snd (write_entity ?m (lk_writer (cn_link s)))" by (simp add: write_all_def preconnect_sent_def Some)
    have "length ?m < 65536" by (simp add: length_preconnect_message PRECONNECT_LEN_def)
    note sent = send_entity_wrote [OF assms(1) this, folded w]
    let ?s = "s\<lparr>cn_link := (cn_link s)\<lparr>lk_writer := ?w\<rparr>\<rparr>"
    have "on_link link_recv_entity ?s = (Inr PRECONNECT_ACK, s\<lparr>cn_link := (cn_link s)\<lparr>lk_writer := ?w, lk_rx := rx\<rparr>\<rparr>)"
      using recv_entity_event [of ?s PRECONNECT_ACK rx] assms Some by (simp add: at_rest_def preconnect_answer_def entity_events_def)
    with sent Some show ?thesis
      by (simp add: rq_preconnect_def act_then_def act_bind_def act_return_def preconnect_sent_def PRECONNECT_ACK_def)
  qed
  then show "rq_preconnect cfg s = (Inr (), s\<lparr>cn_link := (cn_link s)\<lparr>lk_writer := ?w, lk_rx := rx\<rparr>\<rparr>)"
    "wrote_bytes (preconnect_sent cfg) (lk_writer (cn_link s)) ?w" by blast+
qed

lemma requester_open_ok:
  assumes cfg: "config_ok cfg" and w: "script_ok (wr_script w)" "wr_framing w = LengthPrefixed"
    and m: "plain_opt 254 m" and reply: "reply = aconnect dst src (rc_version cfg) (ng_sync (agreed cfg a)) (ng_resync (agreed cfg a)) m"
  shows "\<exists>rq. (\<forall>rx. requester_open w (entity_events (preconnect_answer cfg @ [entity_of (rc_crc cfg) [reply]]) @ rx) cfg = Inr (with_rx rx rq)) \<and>
    rq_negotiated rq = agreed cfg a \<and> rq_cfg rq = cfg \<and> rq_peer_id rq = src \<and> at_rest (cn_link rq) \<and> lk_crc (cn_link rq) = rc_crc cfg \<and>
    cn_machine rq = \<lparr>m_role = Requester, m_state = Cn03\<rparr> \<and>
    wrote_bytes (preconnect_sent cfg @ [entity_of (rc_crc cfg) [rq_connect_fpdu cfg]]) w (lk_writer (cn_link rq))"
proof -
  let ?w1 = "write_all (preconnect_sent cfg) w" and ?ev = "entity_event (rc_crc cfg) reply"
  let ?w2 = "written (rc_crc cfg) (rq_connect_fpdu cfg) ?w1"
  let ?l = "\<lambda>rx. \<lparr>lk_writer = ?w1, lk_rx = rx, lk_pending = [], lk_crc = rc_crc cfg, lk_max_entity = 0xFFFF, lk_closed = False\<rparr>"
  let ?s = "\<lambda>rx. \<lparr>cn_link = link_new w (entity_events (preconnect_answer cfg @ [entity_of (rc_crc cfg) [reply]]) @ rx), cn_machine = machine_new Requester\<rparr>"
  let ?rq = "\<lparr>cn_link = (?l [])\<lparr>lk_writer := ?w2\<rparr>, cn_machine = \<lparr>m_role = Requester, m_state = Cn03\<rparr>, rq_cfg = cfg, rq_my_id = 1,
    rq_peer_id = src, rq_negotiated = agreed cfg a, rq_max_entity = unat (rc_max_entity cfg)\<rparr>"
  have s: "at_rest (cn_link (?s rx))" "lk_rx (cn_link (?s rx)) = entity_events (preconnect_answer cfg) @ ?ev # rx" for rx
    using w by (simp_all add: at_rest_def link_new_def entity_events_def entity_event_def)
  note pre = rq_preconnect_ok [OF s]
  have w1: "wrote_bytes (preconnect_sent cfg) w ?w1" using pre(2) by (simp add: link_new_def)
  note connect = connect_request_announced [OF cfg refl]
  let ?m = "\<lparr>m_role = Requester, m_state = Cn02A\<rparr>"
  let ?s1 = "\<lambda>rx. \<lparr>cn_link = ?l (?ev # rx), cn_machine = ?m\<rparr> :: conn"
  have local: "apply_local L_Connect \<lparr>cn_link = ?l rx, cn_machine = machine_new Requester\<rparr> = (Inr (), \<lparr>cn_link = ?l rx, cn_machine = ?m\<rparr>)" for rx
    by (simp add: apply_local_def act_bind_def act_on_def act_return_def machine_apply_def machine_new_def INITIAL_def connect_path)
  have sent: "conn_send (rq_connect_fpdu cfg) (?s1 rx) = (Inr (), (?s1 rx)\<lparr>cn_link := (?l (?ev # rx))\<lparr>lk_writer := ?w2\<rparr>\<rparr>)"
      "wrote (rc_crc cfg) [[rq_connect_fpdu cfg]] ?w1 ?w2" for rx
    using conn_send_wrote [OF connect(2), of "?s1 rx"] w1 by (simp_all add: wrote_bytes_def)
  have reply_ok: "sendable reply" "f_kind reply = K_Aconnect" "id_src reply = src"
    using aconnect_compact [OF m] aconnect_params [OF m] by (simp_all add: reply compact_def)
  have recv: "conn_recv ((?s1 rx)\<lparr>cn_link := (?l (?ev # rx))\<lparr>lk_writer := ?w2\<rparr>\<rparr>) = (Inr reply, \<lparr>cn_link = (?l rx)\<lparr>lk_writer := ?w2\<rparr>, cn_machine = ?m\<rparr>)" for rx
    using conn_recv_event [of "(?s1 rx)\<lparr>cn_link := (?l (?ev # rx))\<lparr>lk_writer := ?w2\<rparr>\<rparr>" reply rx] reply_ok(1) by simp
  have answer: "rq_connect_reply reply \<lparr>cn_link = l, cn_machine = ?m\<rparr> = (Inr (), \<lparr>cn_link = l, cn_machine = \<lparr>m_role = Requester, m_state = Cn03\<rparr>\<rparr>)" for l
    using reply_ok(2)
    by (simp add: rq_connect_reply_def receive_event_def act_then_def act_bind_def act_return_def machine_apply_def connect_path)
  have "requester_open w (entity_events (preconnect_answer cfg @ [entity_of (rc_crc cfg) [reply]]) @ rx) cfg = Inr (with_rx rx ?rq)" for rx
  proof -
    have "set_crc (rc_crc cfg) ((cn_link (?s rx))\<lparr>lk_writer := ?w1, lk_rx := ?ev # rx\<rparr>) = ?l (?ev # rx)" "lk_writer (cn_link (?s rx)) = w"
      by (simp_all add: link_new_def set_crc_def)
    with pre(1) [of rx] local sent(1) recv answer reply_ok(3) rq_negotiate_agreed [OF m, of cfg dst src a, folded reply] show ?thesis
      by (simp add: requester_open_def requester_connect_def act_then_def act_bind_def act_modify_def act_get_def act_return_def
          conn.defs with_rx_def)
  qed
  moreover have "wrote_bytes (preconnect_sent cfg @ [entity_of (rc_crc cfg) [rq_connect_fpdu cfg]]) w ?w2"
    by (rule wrote_bytes_trans [OF w1 wrote_wrote_bytes [OF sent(2)]])
  ultimately show ?thesis using wroteD [OF sent(2)] by (intro exI [of _ ?rq]) (simp add: at_rest_def)
qed

section \<open>The server\<close>

lemma entity_of_one: "entity_of crc [f] = fpdu_bytes f @ (if crc then crc_compute (fpdu_bytes f) else [])"
  by (simp add: entity_of_def entity_emit_def)

lemma carries_crc_one:
  assumes "sendable f"
  shows "carries_crc (entity_of crc [f]) = crc"
proof -
  obtain b0 b1 b2 b3 b4 b5 body where "fpdu_bytes f = b0 # b1 # b2 # b3 # b4 # b5 # body" "be_len b0 b1 = length (fpdu_bytes f)"
    using sendable_framed [OF assms] by (rule framed_cases)
  then show ?thesis by (auto simp: carries_crc_def entity_of_one be_len_def CRC_LEN_def)
qed

lemma decode_connect_one:
  assumes "sendable f"
  shows "rs_decode_connect (entity_of crc [f]) crc = Inr f"
proof -
  have "split_entity (entity_of crc [f]) crc = Inr [fpdu_bytes f]"
    using entity_stream.read_all_emit [of "[fpdu_bytes f]" _ crc] sendable_framed [OF assms]
    by (simp add: split_entity_def entity_of_def)
  then show ?thesis using sendable_decode [OF assms] by (simp add: rs_decode_connect_def)
qed

lemma not_preconnect:
  assumes "config_ok cfg"
  shows "\<not> is_preconnect (entity_of crc [rq_connect_fpdu cfg])"
proof -
  let ?f = "rq_connect_fpdu cfg"
  have "\<not> special_head (take 2 (fpdu_bytes ?f))"
    unfolding rq_connect_fpdu_def by (rule connect_head) (use assms in \<open>simp add: config_ok_def connect_ok_def\<close>)
  moreover have "6 \<le> length (fpdu_bytes ?f)"
    using sendable_framed [OF compact_sendable [OF connect_request_announced(2) [OF assms refl]]] by (simp add: framed_def HEADER_LEN_def)
  moreover have "take 2 (take 5 x) = take 2 x" for x :: bytes by simp
  ultimately show ?thesis
    by (auto simp: is_preconnect_def special_head_def entity_of_one dest!: arg_cong [of "take 5 _" _ "take 2"])
qed

lemma preconnect_message_is: "is_preconnect (preconnect_message i p)"
  using parse_preconnect_message [of i p] by (auto simp: parse_preconnect_def split: if_splits)

definition preconnect_data :: "requester_config \<Rightarrow> (rstring \<times> rstring) option" where
  "preconnect_data cfg = map_option (\<lambda>pc. (trim_end (pc_identifier pc), trim_end (pc_password pc))) (rc_preconnect cfg)"

lemma rs_first_entity_ok:
  assumes cfg: "config_ok cfg" and s: "at_rest (cn_link s)"
    and rx: "lk_rx (cn_link s) = entity_events (preconnect_sent cfg @ [entity_of crc [rq_connect_fpdu cfg]]) @ rx"
  shows "rs_first_entity s = (Inr (entity_of crc [rq_connect_fpdu cfg], preconnect_data cfg),
      s\<lparr>cn_link := (cn_link s)\<lparr>lk_writer := write_all (preconnect_answer cfg) (lk_writer (cn_link s)), lk_rx := rx\<rparr>\<rparr>) \<and>
    wrote_bytes (preconnect_answer cfg) (lk_writer (cn_link s)) (write_all (preconnect_answer cfg) (lk_writer (cn_link s)))"
proof (cases "rc_preconnect cfg")
  case None
  let ?e = "entity_of crc [rq_connect_fpdu cfg]"
  have "on_link link_recv_entity s = (Inr ?e, s\<lparr>cn_link := (cn_link s)\<lparr>lk_rx := rx\<rparr>\<rparr>)"
    using recv_entity_event [of s ?e rx] s rx None by (simp add: at_rest_def preconnect_sent_def entity_events_def)
  with None s not_preconnect [OF cfg, of crc] show ?thesis
    by (simp add: rs_first_entity_def act_bind_def act_return_def preconnect_answer_def preconnect_data_def wrote_bytes_def at_rest_def write_all_def)
next
  case (Some pc)
  let ?e = "entity_of crc [rq_connect_fpdu cfg]" and ?m = "preconnect_message (pc_identifier pc) (pc_password pc)"
  let ?w = "write_all (preconnect_answer cfg) (lk_writer (cn_link s))"
  have w: "snd (write_entity PRECONNECT_ACK (lk_writer (cn_link s))) = ?w" by (simp add: write_all_def preconnect_answer_def Some)
  have 1: "on_link link_recv_entity s = (Inr ?m, s\<lparr>cn_link := (cn_link s)\<lparr>lk_rx := entity_events [?e] @ rx\<rparr>\<rparr>)"
    using recv_entity_event [of s ?m "entity_events [?e] @ rx"] s rx Some by (simp add: at_rest_def preconnect_sent_def entity_events_def)
  let ?s = "s\<lparr>cn_link := (cn_link s)\<lparr>lk_rx := entity_events [?e] @ rx\<rparr>\<rparr>"
  have "at_rest (cn_link ?s)" "length PRECONNECT_ACK < 65536" using s by (simp_all add: at_rest_def PRECONNECT_ACK_def)
  from send_entity_wrote [OF this] w
  have 2: "on_link (link_send_entity PRECONNECT_ACK) ?s = (Inr (), ?s\<lparr>cn_link := (cn_link ?s)\<lparr>lk_writer := ?w\<rparr>\<rparr>)"
      "wrote_bytes [PRECONNECT_ACK] (lk_writer (cn_link s)) ?w" by simp_all
  let ?s2 = "?s\<lparr>cn_link := (cn_link ?s)\<lparr>lk_writer := ?w\<rparr>\<rparr>"
  have 3: "on_link link_recv_entity ?s2 = (Inr ?e, ?s2\<lparr>cn_link := (cn_link ?s2)\<lparr>lk_rx := rx\<rparr>\<rparr>)"
    using recv_entity_event [of ?s2 ?e rx] s by (simp add: at_rest_def entity_events_def)
  have "parse_preconnect ?m = preconnect_data cfg"
    using parse_preconnect_ascii [of "pc_identifier pc" "pc_password pc"] cfg Some by (simp add: config_ok_def preconnect_data_def)
  with 1 2 3 Some preconnect_message_is show ?thesis
    by (simp add: rs_first_entity_def act_bind_def act_then_def act_return_def preconnect_answer_def)
qed

text \<open>What the server keeps of a session.\<close>

definition info_of :: "requester_config \<Rightarrow> responder_config \<Rightarrow> connect_accept \<Rightarrow> session_info" where
  "info_of cfg scfg a = \<lparr>si_id = sc_session_id scfg, si_requester = rc_requester_id cfg, si_server = rc_server_id cfg,
     si_remote_addr = sc_remote_addr scfg, si_negotiated = agreed cfg a\<rparr>"

lemma rs_connection_ok:
  fixes s :: "('h, 'k, 'f, 'c) responder"
  assumes cfg: "config_ok cfg" and s: "at_rest (cn_link s)" "m_state (cn_machine s) = Cn01"
    and a: "hd_authenticate h (announced cfg (sc_remote_addr (rs_cfg s))) (rs_handler s) = (Inr a, hs)" "plain_opt 254 (ca_free_message a)"
    and reply: "reply = aconnect 1 (sc_conn_id (rs_cfg s)) (rc_version cfg) (ng_sync (agreed cfg a)) (ng_resync (agreed cfg a)) (ca_free_message a)"
  shows "\<exists>s'. (\<forall>rx. rs_connection h (with_rx (entity_events (preconnect_sent cfg @ [entity_of (rc_crc cfg) [rq_connect_fpdu cfg]]) @ rx) s) =
      (Inr (announced cfg (sc_remote_addr (rs_cfg s))), with_rx rx s')) \<and>
    rs_info s' = Some (info_of cfg (rs_cfg s) a) \<and> rs_accept s' = a \<and> rs_peer_id s' = 1 \<and> rs_handler s' = hs \<and>
    rs_cfg s' = rs_cfg s \<and> rs_sinks s' = rs_sinks s \<and> at_rest (cn_link s') \<and> lk_crc (cn_link s') = rc_crc cfg \<and> m_state (cn_machine s') = Cn03 \<and>
    wrote_bytes (preconnect_answer cfg @ [entity_of (rc_crc cfg) [reply]]) (lk_writer (cn_link s)) (lk_writer (cn_link s'))"
proof -
  let ?c = "rq_connect_fpdu cfg" and ?req = "announced cfg (sc_remote_addr (rs_cfg s))" and ?crc = "rc_crc cfg"
  let ?rx = "\<lambda>rx. entity_events (preconnect_sent cfg @ [entity_of ?crc [?c]]) @ rx"
  let ?w1 = "write_all (preconnect_answer cfg) (lk_writer (cn_link s))"
  note connect = connect_request_announced [OF cfg preconnect_data_def]
  note crc = carries_crc_one [OF compact_sendable [OF connect(2)], of ?crc] decode_connect_one [OF compact_sendable [OF connect(2)], of ?crc]
  have 1: "rs_first_entity (with_rx (?rx rx) s) = (Inr (entity_of ?crc [?c], preconnect_data cfg),
        s\<lparr>cn_link := (cn_link s)\<lparr>lk_writer := ?w1, lk_rx := rx\<rparr>\<rparr>)" "wrote_bytes (preconnect_answer cfg) (lk_writer (cn_link s)) ?w1" for rx
    using rs_first_entity_ok [OF cfg, of "with_rx (?rx rx) s" ?crc rx] s(1) by (simp_all add: at_rest_def with_rx_def)
  let ?l = "\<lambda>rx. set_crc ?crc ((cn_link s)\<lparr>lk_writer := ?w1, lk_rx := rx\<rparr>)"
  let ?s2 = "\<lambda>rx. s\<lparr>cn_link := ?l rx, cn_machine := (cn_machine s)\<lparr>m_state := Cn02B\<rparr>, rs_peer_id := 1, rs_handler := hs,
    rs_info := Some (info_of cfg (rs_cfg s) a), rs_accept := a\<rparr>"
  have req: "cr_crc ?req = ?crc" "cr_requester ?req = rc_requester_id cfg" "cr_server ?req = rc_server_id cfg"
    "cr_remote_addr ?req = sc_remote_addr (rs_cfg s)" by (simp_all add: announced_def)
  have applied: "rs_apply_received ?c (s\<lparr>cn_link := l\<rparr>) = (Inr False, s\<lparr>cn_link := l, cn_machine := (cn_machine s)\<lparr>m_state := Cn02B\<rparr>\<rparr>)" for l
    using connect(3) s(2)
    by (simp add: rs_apply_received_def receive_event_def machine_apply_def connect_path fpdu_is_negative_def is_ack_def)
  have w1: "script_ok (wr_script (lk_writer (cn_link (?s2 rx))))" "wr_framing (lk_writer (cn_link (?s2 rx))) = LengthPrefixed" for rx
    using 1(2) by (simp_all add: wrote_bytes_def set_crc_def)
  have reply_ok: "compact reply" using aconnect_compact [OF a(2)] by (simp add: reply)
  have "machine_apply (Local L_Accept) (cn_machine (?s2 rx)) = (Inr False, (cn_machine s)\<lparr>m_state := Cn03\<rparr>)" for rx
    by (simp add: machine_apply_def connect_path)
  note accept = rs_accept_ok [OF reply_ok w1 this] and out = conn_send_wrote(2) [OF reply_ok w1]
  let ?s3 = "\<lambda>rx. (?s2 rx)\<lparr>cn_machine := (cn_machine s)\<lparr>m_state := Cn03\<rparr>, cn_link := (?l rx)\<lparr>lk_writer := written ?crc reply ?w1\<rparr>\<rparr>"
  have acc: "rs_accept_with reply (?s2 rx) = (Inr (), ?s3 rx)" and w3: "wrote ?crc [[reply]] ?w1 (written ?crc reply ?w1)" for rx
    using accept out by (simp_all add: set_crc_def)
  have est: "rs_establish ?req a ?crc (s\<lparr>cn_link := ?l rx, cn_machine := (cn_machine s)\<lparr>m_state := Cn02B\<rparr>, rs_peer_id := 1, rs_handler := hs\<rparr>) =
      (Inr (), ?s3 rx)" for rx
    using acc by (simp add: rs_establish_def rs_negotiate_agreed Let_def req agreed_def reply info_of_def)
  have "rs_connection h (with_rx (?rx rx) s) = (Inr ?req, with_rx rx (?s3 []))" for rx
  proof -
    have "rs_connection h (with_rx (?rx rx) s) = (Inr ?req, ?s3 rx)"
      using 1(1) crc connect(1,3,4) applied a(1) est req(1)
      by (simp add: rs_connection_def act_bind_def act_then_def act_modify_def act_get_def act_return_def Let_def on_handler_def)
    also have "?s3 rx = with_rx rx (?s3 [])" by (cases s) (simp add: with_rx_def set_crc_def)
    finally show ?thesis .
  qed
  moreover have "wrote_bytes (preconnect_answer cfg @ [entity_of ?crc [reply]]) (lk_writer (cn_link s)) (written ?crc reply ?w1)"
    by (rule wrote_bytes_trans [OF 1(2) wrote_wrote_bytes [OF w3]])
  moreover have "at_rest (cn_link (?s3 []))" using s(1) wroteD [OF w3] by (simp add: at_rest_def set_crc_def)
  ultimately show ?thesis by (intro exI [of _ "?s3 []"]) (simp add: set_crc_def)
qed

section \<open>Both sides\<close>

lemma entity_events_simps [simp]: "entities_of (entity_events es) = es" "list_all undisturbed_event (entity_events es)"
  by (induction es) (simp_all add: entity_events_def)

lemma exchanged_entities: "wrote_bytes es w w' \<Longrightarrow> exchanged (entity_events es) w w'"
  by (simp add: wrote_bytes_def exchanged_def)

text \<open>Both sides of a connection, with what the queues hold behind it.\<close>

lemma connection_between:
  assumes "config_ok cfg" and "script_ok (wr_script w)" and "wr_framing w = LengthPrefixed"
    and "script_ok (wr_script v)" and "wr_framing v = LengthPrefixed"
    and "hd_authenticate h (announced cfg (sc_remote_addr scfg)) hs = (Inr a, hs')" and "plain_opt 254 (ca_free_message a)"
  shows "\<exists>es es' rq rs. (\<forall>rx. requester_open w (entity_events es @ rx) cfg = Inr (with_rx rx rq)) \<and>
    (\<forall>rx. rs_connection h (responder_new v (entity_events es' @ rx) scfg hs) =
      (Inr (announced cfg (sc_remote_addr scfg)), with_rx rx (rs :: ('h, 'k, 'f, 'c) responder))) \<and>
    wrote_bytes es v (lk_writer (cn_link rs)) \<and> wrote_bytes es' w (lk_writer (cn_link rq)) \<and> connected rq rs (info_of cfg scfg a) \<and>
    rq_negotiated rq = agreed cfg a \<and> rq_cfg rq = cfg \<and> rq_peer_id rq = sc_conn_id scfg \<and> rs_accept rs = a \<and> rs_peer_id rs = 1 \<and>
    rs_handler rs = hs' \<and> rs_cfg rs = scfg \<and> rs_sinks rs = []"
proof -
  let ?reply = "aconnect 1 (sc_conn_id scfg) (rc_version cfg) (ng_sync (agreed cfg a)) (ng_resync (agreed cfg a)) (ca_free_message a)"
  let ?s = "responder_new v [] scfg hs :: ('h, 'k, 'f, 'c) responder"
  obtain rq where rq: "\<And>rx. requester_open w (entity_events (preconnect_answer cfg @ [entity_of (rc_crc cfg) [?reply]]) @ rx) cfg = Inr (with_rx rx rq)"
      "rq_negotiated rq = agreed cfg a" "rq_cfg rq = cfg" "rq_peer_id rq = sc_conn_id scfg" "at_rest (cn_link rq)" "lk_crc (cn_link rq) = rc_crc cfg"
      "cn_machine rq = \<lparr>m_role = Requester, m_state = Cn03\<rparr>"
      "wrote_bytes (preconnect_sent cfg @ [entity_of (rc_crc cfg) [rq_connect_fpdu cfg]]) w (lk_writer (cn_link rq))"
    using requester_open_ok [OF assms(1-3,7) refl] by blast
  have s: "at_rest (cn_link ?s)" "m_state (cn_machine ?s) = Cn01" "rs_cfg ?s = scfg" "rs_handler ?s = hs" "lk_writer (cn_link ?s) = v" "rs_sinks ?s = []"
      "\<And>rx. with_rx rx ?s = responder_new v rx scfg hs"
    using assms(4,5) by (simp_all add: responder_new_def at_rest_def link_new_def machine_new_def INITIAL_def with_rx_def)
  obtain rs :: "('h, 'k, 'f, 'c) responder" where rs: "\<And>rx. rs_connection h (responder_new v (entity_events (preconnect_sent cfg @ [entity_of (rc_crc cfg) [rq_connect_fpdu cfg]]) @ rx) scfg hs) =
        (Inr (announced cfg (sc_remote_addr scfg)), with_rx rx rs)"
      "rs_info rs = Some (info_of cfg scfg a)" "rs_accept rs = a" "rs_peer_id rs = 1" "rs_handler rs = hs'" "rs_cfg rs = scfg" "rs_sinks rs = []"
      "at_rest (cn_link rs)" "lk_crc (cn_link rs) = rc_crc cfg" "m_state (cn_machine rs) = Cn03"
      "wrote_bytes (preconnect_answer cfg @ [entity_of (rc_crc cfg) [?reply]]) v (lk_writer (cn_link rs))"
    using rs_connection_ok [OF assms(1) s(1,2), unfolded s, OF assms(6,7) refl] by blast
  have "connected rq rs (info_of cfg scfg a)"
    using rq rs by (simp add: connected_def info_of_def agreed_def)
  with rq rs show ?thesis
    by (intro exI [of _ "preconnect_answer cfg @ [entity_of (rc_crc cfg) [?reply]]"]
        exI [of _ "preconnect_sent cfg @ [entity_of (rc_crc cfg) [rq_connect_fpdu cfg]]"] exI [of _ rq] exI [of _ rs]) simp
qed

text \<open>C3: connecting two sessions. A requester whose identifiers, password and messages are within the
  catalogue lengths opens a session, with a pre-connection message if it is configured; the server
  decodes the CONNECT, detects error control, and asks its application with exactly the parameters the
  requester was configured with. When the application accepts, there is a run of both sides in which
  each finds in its queue exactly the entities the other one writes, and both end connected: with the
  same version, error control, resynchronisation and synchronisation options, the ones both wanted.\<close>

theorem sessions_connect:
  assumes "config_ok cfg" and "script_ok (wr_script w)" and "wr_framing w = LengthPrefixed"
    and "script_ok (wr_script v)" and "wr_framing v = LengthPrefixed"
    and "hd_authenticate h (announced cfg (sc_remote_addr scfg)) hs = (Inr a, hs')" and "plain_opt 254 (ca_free_message a)"
  shows "\<exists>rq_rx rs_rx rq rs. requester_open w rq_rx cfg = Inr rq \<and>
    rs_connection h (responder_new v rs_rx scfg hs) = (Inr (announced cfg (sc_remote_addr scfg)), (rs :: ('h, 'k, 'f, 'c) responder)) \<and>
    exchanged rq_rx v (lk_writer (cn_link rs)) \<and> exchanged rs_rx w (lk_writer (cn_link rq)) \<and>
    connected rq rs (info_of cfg scfg a) \<and> rq_negotiated rq = agreed cfg a"
proof -
  obtain es es' rq and rs :: "('h, 'k, 'f, 'c) responder" where
    "\<And>rx. requester_open w (entity_events es @ rx) cfg = Inr (with_rx rx rq)"
    "\<And>rx. rs_connection h (responder_new v (entity_events es' @ rx) scfg hs) = (Inr (announced cfg (sc_remote_addr scfg)), with_rx rx rs)"
    "wrote_bytes es v (lk_writer (cn_link rs))" "wrote_bytes es' w (lk_writer (cn_link rq))"
    "connected rq rs (info_of cfg scfg a)" "rq_negotiated rq = agreed cfg a"
    using connection_between [OF assms] by blast
  moreover from this(1) [of "[]"] this(2) [of "[]"]
  have "requester_open w (entity_events es) cfg = Inr (with_rx [] rq)"
    "rs_connection h (responder_new v (entity_events es') scfg hs) = (Inr (announced cfg (sc_remote_addr scfg)), with_rx [] rs)" by simp_all
  moreover have "connected (with_rx [] rq) (with_rx [] rs) (info_of cfg scfg a)" "rq_negotiated (with_rx [] rq) = rq_negotiated rq"
    using calculation(5) by (simp_all add: connected_def with_rx_def at_rest_def)
  ultimately show ?thesis
    by (intro exI [of _ "entity_events es"] exI [of _ "entity_events es'"] exI [of _ "with_rx [] rq"] exI [of _ "with_rx [] rs"])
      (simp add: exchanged_entities)
qed

definition sample_config :: requester_config where
  "sample_config = requester_config_default\<lparr>rc_requester_id := [65], rc_server_id := [66], rc_crc := True, rc_compression := Comp_Mixed,
     rc_sync := \<lparr>interval_kb = 36, so_window = 0\<rparr>, rc_preconnect := Some \<lparr>pc_identifier = [80], pc_password = [81]\<rparr>\<rparr>"

definition sample_server_config :: responder_config where
  "sample_server_config = \<lparr>sc_session_id = [49], sc_conn_id = 7, sc_remote_addr = [57]\<rparr>"

definition sample_writer :: frame_writer where
  "sample_writer = \<lparr>wr_out = [], wr_script = [], wr_framing = LengthPrefixed\<rparr>"

lemma sample_config_ok: "config_ok sample_config"
  by (simp add: config_ok_def sample_config_def requester_config_default_def plain_def plain_opt_def trim_end_def is_whitespace_def)

lemma sample_writer_ok: "script_ok (wr_script sample_writer)" "wr_framing sample_writer = LengthPrefixed"
  by (simp_all add: sample_writer_def script_ok_def)

lemma sample_auth:
  "hd_authenticate (sample_handler k) (announced sample_config (sc_remote_addr sample_server_config)) () = (Inr connect_accept_default, ())"
  "plain_opt 254 (ca_free_message connect_accept_default)"
  by (simp_all add: sample_handler_def connect_accept_default_def plain_opt_def)

theorem sessions_connect_witness:
  "\<exists>k rq_rx rs_rx rq rs. requester_open sample_writer rq_rx sample_config = Inr rq \<and>
    rs_connection (sample_handler k) (responder_new sample_writer rs_rx sample_server_config ()) =
      (Inr (announced sample_config (sc_remote_addr sample_server_config)), rs) \<and>
    exchanged rq_rx sample_writer (lk_writer (cn_link rs)) \<and> exchanged rs_rx sample_writer (lk_writer (cn_link rq)) \<and>
    connected rq rs (info_of sample_config sample_server_config connect_accept_default) \<and>
    rq_negotiated rq = agreed sample_config connect_accept_default"
  using sessions_connect [OF sample_config_ok sample_writer_ok sample_writer_ok sample_auth] by blast

end
