(* ===== verification/Whole_Session.thy ===== *)
theory Whole_Session
  imports Session_Connect
begin

text \<open>
  A session from its first entity to its last one: the requester connects, sends a file and releases the
  session; the server, as the function that serves a connection, accepts, stores the file and returns.
\<close>

section \<open>Release\<close>

lemma release_path:
  "state_apply Cn03 (Local L_Release) = Next Cn04A" "state_apply Cn04A (Received K_Relconf False) = Next Cn01"
  "state_apply Cn03 (Received K_Release False) = Next Cn04B" "state_apply Cn04B (Local L_Accept) = Next Cn01"
  by (simp_all add: state_tables apply_Cn03_def apply_Cn04A_def apply_Cn04B_def)

lemma release_compact: "compact (release dst src D_OK)" "compact (relconf dst src)"
  using service_compact [of 0 None] by simp_all

lemma release_run:
  fixes s :: "('f, 'c) rq_transfer"
  assumes "rq_at crc w0 gss (entity_event crc (relconf dst src) # rx) Cn03 s"
  shows "\<exists>s'. requester_release s = (Inr (), s') \<and> rq_at crc w0 (gss @ [[release (rq_peer_id s) (rq_my_id s) D_OK]]) rx Cn01 s'"
proof -
  have "diag_or_ok (relconf dst src) = D_OK" by (simp add: diag_defs relconf_def)
  from request_at [OF assms release_compact(1) release_compact(2) _ _ this release_path(1,2), of "rq_peer_id s" "rq_my_id s"]
  show ?thesis by (auto simp: requester_release_def act_bind_def act_then_def act_get_def act_return_def)
qed

lemma serve_release_run:
  fixes s :: "('h, 'k, 'f, 'c) responder"
  assumes "rs_at crc w0 gss (release dst src D_OK # up) Cn03 (cn_link s) (cn_machine s)"
  shows "\<exists>l m. serve_step fuel h ko so st access s = Some (Inr True, s\<lparr>cn_machine := m, cn_link := l\<rparr>) \<and>
    rs_at crc w0 (gss @ [[relconf (rs_peer_id s) (sc_conn_id (rs_cfg s))]]) up Cn01 l m"
proof -
  have at: "delivers (cn_link s) (release dst src D_OK # up)" "m_state (cn_machine s) = Cn03" using assms by (simp_all add: rs_at_def)
  from link_recv_delivers [OF at(1)] obtain l1 where
    l1: "link_recv (cn_link s) = (Inr (release dst src D_OK), l1)" "delivers l1 up" "lk_writer l1 = lk_writer (cn_link s)" "lk_crc l1 = lk_crc (cn_link s)"
    by blast
  let ?m = "(cn_machine s)\<lparr>m_state := Cn04B\<rparr>"
  have neg: "\<not> fpdu_is_negative (release dst src D_OK)" by (simp add: fpdu_is_negative_def is_ack_def)
  have 1: "rs_apply_received (release dst src D_OK) (s\<lparr>cn_link := l1\<rparr>) = (Inr False, s\<lparr>cn_link := l1, cn_machine := ?m\<rparr>)"
    using at(2) neg by (simp add: rs_apply_received_def receive_event_def machine_apply_def release_path)
  have r: "rs_at crc w0 gss up Cn04B l1 ?m" using assms l1 by (simp add: rs_at_def)
  from rs_accept_at [of crc w0 gss up Cn04B "s\<lparr>cn_link := l1, cn_machine := ?m\<rparr>", OF _ release_compact(2) release_path(4),
      of "rs_peer_id s" "sc_conn_id (rs_cfg s)"] r obtain l m where
    2: "rs_accept_with (relconf (rs_peer_id s) (sc_conn_id (rs_cfg s))) (s\<lparr>cn_link := l1, cn_machine := ?m\<rparr>) = (Inr (), s\<lparr>cn_machine := m, cn_link := l\<rparr>)"
      "rs_at crc w0 (gss @ [[relconf (rs_peer_id s) (sc_conn_id (rs_cfg s))]]) up Cn01 l m" by auto
  from l1(1) 1 2 show ?thesis
    by (intro exI [of _ l] exI [of _ m])
      (simp add: serve_step_def serve_fpdu_def act_pbind_eq conn_recv_def on_link_def pact_of_def act_return_def act_get_def)
qed

section \<open>The session\<close>

definition agreed_params :: "requester_config \<Rightarrow> responder_config \<Rightarrow> connect_accept \<Rightarrow> file_spec \<Rightarrow> data_params" where
  "agreed_params cfg scfg a f =
     \<lparr>dp_peer_id = sc_conn_id scfg, dp_sync = ng_sync (agreed cfg a), dp_resync = ng_resync (agreed cfg a),
      dp_compression = compression_negotiate (rc_compression cfg) (ca_compression a), dp_crc = rc_crc cfg,
      dp_max_entity = min (rs_entity_size f a) (unat (fs_max_entity_size f)), dp_multi_article = rc_multi_article cfg,
      dp_max_article = unat (fs_article_length f), dp_role = Requester\<rparr>"

lemma exchanged_append: "exchanged xs w w' \<Longrightarrow> exchanged ys w' w'' \<Longrightarrow> exchanged (xs @ ys) w w''"
  by (simp add: exchanged_def)

lemma exchanged_one: "wrote crc [[f]] w w' \<Longrightarrow> exchanged [entity_event crc f] w w'"
  by (simp add: wrote_def exchanged_def entity_event_def)

text \<open>C1: a whole session. The requester connects (with or without pre-connection), sends a file and
  releases the session; the server is the function that serves a connection, with an application that
  accepts the connection and the creation with a new file and does not cancel. For a configuration and an announcement within
  the catalogue lengths, any compression and error control, and a readable file whose articles are within
  the negotiated limits, with synchronisation points that need no acknowledgement, there is a run in which
  each side finds in its queue exactly the entities the other one writes, and in that run every call
  succeeds: the requester is connected, its transfer is complete, the session is released, the server
  returns without error, and the file it stored holds, under its final name, the articles of the file
  sent. Both end in the initial state of the protocol.\<close>

theorem whole_session:
  fixes h :: "('h, file_sink, 'f, memory_checkpoints) server_handler"
  assumes cfg: "config_ok cfg" "script_ok (wr_script w)" "wr_framing w = LengthPrefixed" "script_ok (wr_script v)" "wr_framing v = LengthPrefixed"
    and auth: "hd_authenticate h (announced cfg (sc_remote_addr scfg)) hs = (Inr a, hs')" "plain_opt 254 (ca_free_message a)"
    and sync: "so_window (ng_sync (agreed cfg a)) = 0" "sync_enabled (ng_sync (agreed cfg a))" and access: "allows_write (rc_access cfg)"
    and src: "source_open (Inr data) fmt rl script = Inr src" "script_ok script" "length data < 2 ^ 64"
      "run_cutter (cutter_new fmt rl) [data] = (as, None)"
    and f: "f = rq_file cfg spec" "spec_ok f" "ts_restart spec = None"
    and b: "hd_create h (info_of cfg scfg a) f hs' = (Inr b, hs'')" "plain_opt 254 (cra_free_message b)"
      "unat (unwrap_or (fs_transfer_id f) (cra_transfer_id b)) < 2 ^ 24"
      "cra_max_article b = 0 \<or> cra_max_article b = unat (fs_article_length f)"
    and snk: "sink_create part final fmt None script' = (Inr (), k)" "script_ok script'" "cra_sink b = sink_with_ebcdic e k"
      "length (concat (map (article_to_bytes fmt) as)) < 2 ^ 64"
    and p: "p = agreed_params cfg scfg a f" "13 \<le> dp_max_entity p"
    and as: "list_all (admissible p (dp_max_article p)) as" "length as < 2 ^ 24"
    and cancel: "\<And>x. list_all Not (fst (hd_cancel_flag h (info_of cfg scfg a) (cra_handle b) x))" "list_all Not flags"
  shows "\<exists>rq_rx rs_rx rq outcome rq' rq'' rs k' cps.
    requester_open w rq_rx cfg = Inr rq \<and>
    send_file (length as + 1) file_source_ops memory_store_ops spec flags (transfer_start rq (source_with_ebcdic e src) store) = Some (Inr outcome, rq') \<and>
    requester_release rq' = (Inr (), rq'') \<and>
    serve fuel h file_sink_ops so memory_store_ops v rs_rx scfg hs = Some (Inr (), rs) \<and>
    exchanged rq_rx v (lk_writer (cn_link rs)) \<and> exchanged rs_rx w (lk_writer (cn_link rq'')) \<and>
    is_complete outcome \<and> rs_sinks rs = [(k', cps)] \<and> fw_final k' = Some (concat (map (article_to_bytes fmt) as)) \<and>
    m_state (cn_machine rq'') = Cn01 \<and> m_state (cn_machine rs) = Cn01"
proof -
  obtain es es' rq0 and rs0 :: "('h, file_sink, 'f, memory_checkpoints) responder" where
    c: "\<And>rx. requester_open w (entity_events es @ rx) cfg = Inr (with_rx rx rq0)"
      "\<And>rx. rs_connection h (responder_new v (entity_events es' @ rx) scfg hs) = (Inr (announced cfg (sc_remote_addr scfg)), with_rx rx rs0)"
      "wrote_bytes es v (lk_writer (cn_link rs0))" "wrote_bytes es' w (lk_writer (cn_link rq0))" "connected rq0 rs0 (info_of cfg scfg a)"
      "rq_negotiated rq0 = agreed cfg a" "rq_cfg rq0 = cfg" "rq_peer_id rq0 = sc_conn_id scfg" "rs_accept rs0 = a" "rs_peer_id rs0 = 1"
      "rs_handler rs0 = hs'" "rs_cfg rs0 = scfg" "rs_sinks rs0 = []"
    using connection_between [OF cfg auth] by blast
  have pp: "p = session_params rq0 (rs_accept rs0) f"
    by (simp add: p(1) agreed_params_def session_params_def rq_data_params_def c agreed_def)
  let ?crc = "dp_crc p"
  let ?rel = "release (rq_peer_id rq0) (rq_my_id rq0) D_OK" and ?conf = "relconf (rs_peer_id rs0) (sc_conn_id scfg)"
  let ?src = "source_with_ebcdic e src"
  obtain evs gss acks outcome rq' rs' k' cps where
    t: "send_file (length as + 1) file_source_ops memory_store_ops spec flags
        (transfer_start (with_rx (evs @ [entity_event ?crc ?conf]) rq0) ?src store) = Some (Inr outcome, rq')"
      "serve_step fuel h file_sink_ops so memory_store_ops (rc_access cfg) (with_rx (server_events ?crc (gss @ singles [?rel])) rs0) = Some (Inr False, rs')"
      "rq_at ?crc (lk_writer (cn_link rq0)) gss [entity_event ?crc ?conf] Cn03 rq'" "rq_same (transfer_start rq0 ?src store) rq'"
      "rs_at ?crc (lk_writer (cn_link rs0)) acks [?rel] Cn03 (cn_link rs') (cn_machine rs')"
      "exchanged evs (lk_writer (cn_link rs0)) (lk_writer (cn_link rs'))" "is_complete outcome"
      "rs_sinks rs' = rs_sinks rs0 @ [(k', cps)]" "fw_final k' = Some (concat (map (article_to_bytes fmt) as))"
      "rs_peer_id rs' = rs_peer_id rs0" "rs_cfg rs' = rs_cfg rs0"
    using transfer_between [OF c(5), unfolded c(6,7,11), OF sync src f b snk pp p(2) as cancel access, of "[?rel]" "[entity_event ?crc ?conf]" store fuel so]
      release_compact(1) by auto
  have ids: "rq_peer_id rq' = rq_peer_id rq0" "rq_my_id rq' = rq_my_id rq0"
    using t(4) by (simp_all add: rq_same_def transfer_start_def requester.defs)
  from release_run [OF t(3)] obtain rq'' where
    r: "requester_release rq' = (Inr (), rq'')" "rq_at ?crc (lk_writer (cn_link rq0)) (gss @ singles [?rel]) [] Cn01 rq''" by (auto simp: ids)
  from serve_release_run [OF t(5), of fuel h file_sink_ops so memory_store_ops "rc_access cfg"] obtain l m where
    s: "serve_step fuel h file_sink_ops so memory_store_ops (rc_access cfg) rs' = Some (Inr True, rs'\<lparr>cn_machine := m, cn_link := l\<rparr>)"
      "rs_at ?crc (lk_writer (cn_link rs0)) (acks @ [[?conf]]) [] Cn01 l m" by (auto simp: t(10,11) c(12))
  let ?rs = "serve_end h (Inr ()) (rs'\<lparr>cn_machine := m, cn_link := l\<rparr>)"
  let ?rs_rx = "entity_events es' @ server_events ?crc (gss @ singles [?rel])" and ?rq_rx = "entity_events es @ evs @ [entity_event ?crc ?conf]"
  have "serve_loop fuel h file_sink_ops so memory_store_ops (rc_access cfg) (with_rx (server_events ?crc (gss @ singles [?rel])) rs0) =
      Some (Inr (), rs'\<lparr>cn_machine := m, cn_link := l\<rparr>)"
    using t(2) s(1) by (simp add: serve_loop.simps)
  then have serve: "serve fuel h file_sink_ops so memory_store_ops v ?rs_rx scfg hs = Some (Inr (), ?rs)"
    by (simp add: serve_def rs_run_def act_pbind_eq c(2)) (simp add: announced_def)
  have rs: "cn_link ?rs = l" "cn_machine ?rs = m" "rs_sinks ?rs = [(k', cps)]"
    using t(8) c(13) by (auto simp: serve_end_def Let_def split: option.splits)
  have "exchanged [entity_event ?crc ?conf] (lk_writer (cn_link rs')) (lk_writer l)"
    using t(5) s(2) by (simp add: exchanged_def rs_at_def wrote_def entity_event_def)
  then have "exchanged ?rq_rx v (lk_writer (cn_link ?rs))"
    unfolding rs by (rule exchanged_append [OF exchanged_entities [OF c(3)] exchanged_append [OF t(6)]])
  moreover have "exchanged ?rs_rx w (lk_writer (cn_link rq''))"
    using r(2) by (intro exchanged_append [OF exchanged_entities [OF c(4)]] exchanged_server) (simp add: rq_at_def)
  moreover have "m_state (cn_machine rq'') = Cn01" "m_state (cn_machine ?rs) = Cn01" using r(2) s(2) by (simp_all add: rq_at_def rs_at_def rs)
  moreover note c(1) [of "evs @ [entity_event ?crc ?conf]"] t(1) r(1) serve t(7,9) rs(3)
  ultimately show ?thesis by blast
qed

theorem whole_session_witness:
  "\<exists>src k rq_rx rs_rx rq outcome rq' rq'' rs k' cps.
    source_open (Inr [1, 2, 3, 4, 5]) Bu 2 [] = Inr src \<and> sink_create None None Bu None [] = (Inr (), k) \<and>
    requester_open sample_writer rq_rx sample_config = Inr rq \<and>
    send_file (length [[1, 2], [3, 4], [5 :: u8]] + 1) file_source_ops memory_store_ops \<lparr>ts_file = sample_spec, ts_restart = None\<rparr> []
      (transfer_start rq (source_with_ebcdic True src) mc_new) = Some (Inr outcome, rq') \<and>
    requester_release rq' = (Inr (), rq'') \<and>
    serve 0 (sample_handler (sink_with_ebcdic True k)) file_sink_ops vec_source_ops memory_store_ops sample_writer rs_rx sample_server_config () =
      Some (Inr (), rs) \<and>
    exchanged rq_rx sample_writer (lk_writer (cn_link rs)) \<and> exchanged rs_rx sample_writer (lk_writer (cn_link rq'')) \<and>
    is_complete outcome \<and> rs_sinks rs = [(k', cps)] \<and> fw_final k' = Some [1, 2, 3, 4, 5]"
proof -
  obtain src where src: "source_open (Inr [1, 2, 3, 4, 5]) Bu 2 [] = Inr src" using sample_open by blast
  obtain k where k: "sink_create None None Bu None [] = (Inr (), k)"
    using runs_create [of "[]" None None Bu None] by (auto simp: runs_def script_ok_def)
  let ?spec = "\<lparr>ts_file = sample_spec, ts_restart = None\<rparr> :: transfer_spec" and ?acc = connect_accept_default
  let ?f = "rq_file sample_config ?spec" and ?h = "sample_handler (sink_with_ebcdic True k)" and ?info = "info_of sample_config sample_server_config ?acc"
  let ?p = "agreed_params sample_config sample_server_config ?acc ?f"
  let ?b = "\<lparr>cra_sink = sink_with_ebcdic True k, cra_checkpoints = mc_new, cra_transfer_id = None, cra_restart = None, cra_max_article = 0,
    cra_handle = 1, cra_free_message = None\<rparr>"
  have f: "fs_max_entity_size ?f = 4096" "fs_article_length ?f = 256" "fs_transfer_id ?f = 42" "spec_ok ?f"
    by (simp_all add: rq_file_def sample_spec_def spec_ok_def plain_def plain_opt_def trim_end_def is_whitespace_def)
  have b: "hd_create ?h ?info ?f () = (Inr ?b, ())" "plain_opt 254 (cra_free_message ?b)"
    "unat (unwrap_or (fs_transfer_id ?f) (cra_transfer_id ?b)) < 2 ^ 24" "cra_max_article ?b = 0 \<or> cra_max_article ?b = unat (fs_article_length ?f)"
    "\<And>x. list_all Not (fst (hd_cancel_flag ?h ?info (cra_handle ?b) x))" "cra_sink ?b = sink_with_ebcdic True k"
    by (simp_all add: sample_handler_def plain_opt_def f unwrap_or_def)
  have same: "concat (map (article_to_bytes Bu) [[1, 2], [3, 4], [5]]) = [1, 2, 3, 4, 5]" by code_simp
  have acc: "ca_max_entity ?acc = 0xFFFF" by (simp add: connect_accept_default_def)
  have p: "dp_max_entity ?p = 4096" "dp_max_article ?p = 256" by (simp_all add: agreed_params_def f rs_entity_size_def acc HEADER_LEN_def)
  have adm: "list_all (admissible ?p (dp_max_article ?p)) [[1, 2], [3, 4], [5]]" by (simp add: admissible_def wire_bound_def p)
  have "ng_sync (agreed sample_config ?acc) = \<lparr>interval_kb = 32, so_window = 0\<rparr>"
    by (simp add: agreed_def sample_config_def connect_accept_default_def sync_negotiate_def sync_enabled_def UNDEFINED_INTERVAL_def Let_def)
  then have rest: "so_window (ng_sync (agreed sample_config ?acc)) = 0" "sync_enabled (ng_sync (agreed sample_config ?acc))"
    "script_ok []" "length ([1, 2, 3, 4, 5] :: bytes) < 2 ^ 64" "ts_restart ?spec = None" "allows_write (rc_access sample_config)"
    "length (concat (map (article_to_bytes Bu) [[1, 2], [3, 4], [5]])) < 2 ^ 64" "13 \<le> dp_max_entity ?p"
    "length [[1, 2], [3, 4], [5 :: u8]] < 2 ^ 24" "list_all Not []"
    unfolding same p by (simp_all add: sync_enabled_def script_ok_def sample_config_def requester_config_default_def allows_write_def)
  from whole_session [OF sample_config_ok sample_writer_ok sample_writer_ok sample_auth rest(1,2,6) src rest(3,4) sample_cut refl f(4) rest(5)
      b(1-4) k rest(3) b(6) rest(7) refl rest(8) adm rest(9) b(5) rest(10), of mc_new 0 vec_source_ops] src k
  show ?thesis unfolding same by blast
qed

end
