(* ===== verification/App_Store.thy ===== *)
theory App_Store
  imports Ebcdic Article "HOL-Library.AList" "HOL-Library.Multiset"
begin

text \<open>
  \<^verbatim>\<open>crates/pesit-app/src/store.rs\<close> and \<^verbatim>\<open>audit.rs\<close>: the document store of the node on SQLite and the audit
  log kept in it. A table is the list of its rows in no particular order; what the statements select
  is computed from the keys and the sequence numbers of the rows. The JSON form of a document is a
  parameter (\<open>codec\<close>: how a type is written and read back). A statement on a table that does not
  exist fails; other failures of the database are not modelled.
\<close>

section \<open>Tables\<close>

record 'j row =
  rw_key :: rstring
  rw_doc :: 'j
  rw_seq :: int

text \<open>\<^verbatim>\<open>SELECT seq FROM t WHERE key = ?1\<close>, \<^verbatim>\<open>SELECT COALESCE(MAX(seq), 0) + 1 FROM t\<close> and
  \<^verbatim>\<open>INSERT OR REPLACE INTO t\<close>.\<close>

definition tb_find :: "rstring \<Rightarrow> 'j row list \<Rightarrow> 'j row option" where
  "tb_find key rows = find (\<lambda>r. rw_key r = key) rows"

definition tb_next_seq :: "'j row list \<Rightarrow> int" where
  "tb_next_seq rows = (if rows = [] then 0 else Max (set (map rw_seq rows))) + 1"

definition tb_put :: "rstring \<Rightarrow> 'j \<Rightarrow> 'j row list \<Rightarrow> 'j row list" where
  "tb_put key doc rows =
     (let seq = (case tb_find key rows of Some r \<Rightarrow> rw_seq r | None \<Rightarrow> tb_next_seq rows)
      in filter (\<lambda>r. rw_key r \<noteq> key) rows @ [\<lparr>rw_key = key, rw_doc = doc, rw_seq = seq\<rparr>])"

definition tb_delete :: "rstring \<Rightarrow> 'j row list \<Rightarrow> 'j row list" where
  "tb_delete key rows = filter (\<lambda>r. rw_key r \<noteq> key) rows"

definition tb_by_seq :: "'j row list \<Rightarrow> 'j row list" where
  "tb_by_seq rows = sort_key rw_seq rows"

definition tb_recent :: "usize \<Rightarrow> 'j row list \<Rightarrow> 'j row list" where
  "tb_recent limit rows = take limit (rev (tb_by_seq rows))"

definition tb_prune :: "usize \<Rightarrow> 'j row list \<Rightarrow> 'j row list" where
  "tb_prune keep rows = filter (\<lambda>r. rw_seq r \<in> set (map rw_seq (tb_recent keep rows))) rows"

section \<open>The store\<close>

datatype store_error = St_Sqlite rstring | St_Json | St_Poisoned

record ('a, 'j) codec =
  cd_to :: "'a \<Rightarrow> 'j"
  cd_from :: "'j \<Rightarrow> 'a option"

record 'j json_store =
  js_tables :: "rstring \<Rightarrow> 'j row list option"
  js_counters :: "rstring \<Rightarrow> int option"

definition js_new :: "'j json_store" where
  "js_new = \<lparr>js_tables = (\<lambda>_. None), js_counters = (\<lambda>_. None)\<rparr>"

definition js_rows :: "rstring \<Rightarrow> 'j json_store \<Rightarrow> (store_error, 'j row list) result" where
  "js_rows table s = ok_or (St_Sqlite table) (js_tables s table)"

definition js_set :: "rstring \<Rightarrow> 'j row list \<Rightarrow> 'j json_store \<Rightarrow> 'j json_store" where
  "js_set table rows s = s\<lparr>js_tables := (js_tables s)(table \<mapsto> rows)\<rparr>"

definition js_ensure_table :: "rstring \<Rightarrow> 'j json_store \<Rightarrow> (store_error, unit) result \<times> 'j json_store" where
  "js_ensure_table table s = (Inr (), case js_tables s table of None \<Rightarrow> js_set table [] s | Some _ \<Rightarrow> s)"

definition js_put :: "('a, 'j) codec \<Rightarrow> rstring \<Rightarrow> rstring \<Rightarrow> 'a \<Rightarrow> 'j json_store \<Rightarrow>
    (store_error, unit) result \<times> 'j json_store" where
  "js_put cd table key doc s =
     (case js_rows table s of
        Inl e \<Rightarrow> (Inl e, s)
      | Inr rows \<Rightarrow> (Inr (), js_set table (tb_put key (cd_to cd doc) rows) s))"

definition js_decode :: "('a, 'j) codec \<Rightarrow> 'j \<Rightarrow> (store_error, 'a) result" where
  "js_decode cd j = ok_or St_Json (cd_from cd j)"

definition js_get :: "('a, 'j) codec \<Rightarrow> rstring \<Rightarrow> rstring \<Rightarrow> 'j json_store \<Rightarrow> (store_error, 'a option) result" where
  "js_get cd table key s =
     and_then (js_rows table s) (\<lambda>rows.
       case tb_find key rows of
         None \<Rightarrow> Inr None
       | Some r \<Rightarrow> and_then (js_decode cd (rw_doc r)) (\<lambda>x. Inr (Some x)))"

definition js_exists :: "rstring \<Rightarrow> rstring \<Rightarrow> 'j json_store \<Rightarrow> (store_error, bool) result" where
  "js_exists table key s =
     and_then (js_rows table s) (\<lambda>rows. Inr (length (filter (\<lambda>r. rw_key r = key) rows) > 0))"

definition js_delete :: "rstring \<Rightarrow> rstring \<Rightarrow> 'j json_store \<Rightarrow> (store_error, bool) result \<times> 'j json_store" where
  "js_delete table key s =
     (case js_rows table s of
        Inl e \<Rightarrow> (Inl e, s)
      | Inr rows \<Rightarrow> (Inr (length rows - length (tb_delete key rows) > 0), js_set table (tb_delete key rows) s))"

definition js_list :: "('a, 'j) codec \<Rightarrow> rstring \<Rightarrow> 'j json_store \<Rightarrow> (store_error, 'a list) result" where
  "js_list cd table s =
     and_then (js_rows table s) (\<lambda>rows. collect_results (map (\<lambda>r. js_decode cd (rw_doc r)) (tb_by_seq rows)))"

definition js_list_recent :: "('a, 'j) codec \<Rightarrow> rstring \<Rightarrow> usize \<Rightarrow> 'j json_store \<Rightarrow> (store_error, 'a list) result" where
  "js_list_recent cd table limit s =
     and_then (js_rows table s) (\<lambda>rows. collect_results (map (\<lambda>r. js_decode cd (rw_doc r)) (tb_recent limit rows)))"

definition js_count :: "rstring \<Rightarrow> 'j json_store \<Rightarrow> (store_error, usize) result" where
  "js_count table s = and_then (js_rows table s) (\<lambda>rows. Inr (length rows))"

definition js_prune_oldest :: "rstring \<Rightarrow> usize \<Rightarrow> 'j json_store \<Rightarrow> (store_error, usize) result \<times> 'j json_store" where
  "js_prune_oldest table keep s =
     (case js_rows table s of
        Inl e \<Rightarrow> (Inl e, s)
      | Inr rows \<Rightarrow> (Inr (length rows - length (tb_prune keep rows)), js_set table (tb_prune keep rows) s))"

definition js_update :: "('a, 'j) codec \<Rightarrow> rstring \<Rightarrow> rstring \<Rightarrow> ('a \<Rightarrow> 'a) \<Rightarrow> 'j json_store \<Rightarrow>
    (store_error, bool) result \<times> 'j json_store" where
  "js_update cd table key f s =
     (case js_get cd table key s of
        Inl e \<Rightarrow> (Inl e, s)
      | Inr None \<Rightarrow> (Inr False, s)
      | Inr (Some doc) \<Rightarrow>
         (case js_put cd table key (f doc) s of
            (Inl e, s') \<Rightarrow> (Inl e, s')
          | (Inr _, s') \<Rightarrow> (Inr True, s')))"

definition js_next_counter :: "rstring \<Rightarrow> 'j json_store \<Rightarrow> (store_error, u64) result \<times> 'j json_store" where
  "js_next_counter name s =
     (let v = (case js_counters s name of None \<Rightarrow> 1 | Some v \<Rightarrow> v + 1)
      in (Inr (word_of_int (max v 0)), s\<lparr>js_counters := (js_counters s)(name \<mapsto> v)\<rparr>))"

section \<open>The audit log\<close>

datatype audit_outcome = Out_Success | Out_Failure

record audit_event =
  ae_id :: rstring
  ae_timestamp :: rstring
  ae_category :: rstring
  ae_action :: rstring
  ae_target :: "rstring option"
  ae_actor :: "rstring option"
  ae_detail :: "rstring option"
  ae_outcome :: audit_outcome

definition AUDIT_TABLE :: rstring where
  "AUDIT_TABLE = rstr ''audit''"

definition DEFAULT_MAX_ENTRIES :: usize where
  "DEFAULT_MAX_ENTRIES = 50000"

definition PRUNE_INTERVAL :: u64 where
  "PRUNE_INTERVAL = 256"

record 'j audit_log =
  al_store :: "'j json_store"
  al_max_entries :: usize
  al_writes :: u64

definition audit_prune :: "usize \<Rightarrow> 'j json_store \<Rightarrow> 'j json_store" where
  \<comment> \<open>a failure is only logged\<close>
  "audit_prune max_entries s = snd (js_prune_oldest AUDIT_TABLE max_entries s)"

definition audit_with_retention :: "'j json_store \<Rightarrow> usize \<Rightarrow> (store_error, 'j audit_log) result" where
  "audit_with_retention s max_entries =
     (case js_ensure_table AUDIT_TABLE s of
        (Inl e, s) \<Rightarrow> Inl e
      | (Inr _, s) \<Rightarrow>
         Inr \<lparr>al_store = (if max_entries > 0 then audit_prune max_entries s else s),
              al_max_entries = max_entries, al_writes = 0\<rparr>)"

definition audit_new :: "'j json_store \<Rightarrow> (store_error, 'j audit_log) result" where
  "audit_new s = audit_with_retention s DEFAULT_MAX_ENTRIES"

text \<open>The identifier and the time of the event are drawn by the caller of the model.\<close>

definition audit_record :: "(audit_event, 'j) codec \<Rightarrow> audit_event \<Rightarrow> 'j audit_log \<Rightarrow> 'j audit_log" where
  "audit_record cd ev a =
     (let a = a\<lparr>al_store := snd (js_put cd AUDIT_TABLE (ae_id ev) ev (al_store a))\<rparr>
      in if al_max_entries a > 0
         then
           let a' = a\<lparr>al_writes := al_writes a + 1\<rparr>
           in if al_writes a mod PRUNE_INTERVAL = 0
              then a'\<lparr>al_store := audit_prune (al_max_entries a) (al_store a')\<rparr>
              else a'
         else a)"

definition audit_success :: "(audit_event, 'j) codec \<Rightarrow> rstring \<Rightarrow> rstring \<Rightarrow> rstring \<Rightarrow> rstring \<Rightarrow> rstring \<Rightarrow>
    'j audit_log \<Rightarrow> 'j audit_log" where
  "audit_success cd ident time category action target =
     audit_record cd \<lparr>ae_id = ident, ae_timestamp = time, ae_category = category, ae_action = action,
       ae_target = Some target, ae_actor = None, ae_detail = None, ae_outcome = Out_Success\<rparr>"

definition audit_failure :: "(audit_event, 'j) codec \<Rightarrow> rstring \<Rightarrow> rstring \<Rightarrow> rstring \<Rightarrow> rstring \<Rightarrow> rstring \<Rightarrow> rstring \<Rightarrow>
    'j audit_log \<Rightarrow> 'j audit_log" where
  "audit_failure cd ident time category action target reason =
     audit_record cd \<lparr>ae_id = ident, ae_timestamp = time, ae_category = category, ae_action = action,
       ae_target = Some target, ae_actor = None, ae_detail = Some reason, ae_outcome = Out_Failure\<rparr>"

definition audit_recent :: "(audit_event, 'j) codec \<Rightarrow> usize \<Rightarrow> 'j audit_log \<Rightarrow> audit_event list" where
  "audit_recent cd limit a = (case js_list_recent cd AUDIT_TABLE limit (al_store a) of Inl _ \<Rightarrow> [] | Inr es \<Rightarrow> es)"

definition ascii_lower_eq :: "rstring \<Rightarrow> rstring \<Rightarrow> bool" where
  \<comment> \<open>\<^verbatim>\<open>str::eq_ignore_ascii_case\<close>\<close>
  "ascii_lower_eq a b \<longleftrightarrow>
     map (\<lambda>c. if 65 \<le> c \<and> c \<le> 90 then c + 32 else c) a = map (\<lambda>c. if 65 \<le> c \<and> c \<le> 90 then c + 32 else c) b"

definition audit_filtered :: "(audit_event, 'j) codec \<Rightarrow> rstring option \<Rightarrow> usize \<Rightarrow> 'j audit_log \<Rightarrow> audit_event list" where
  "audit_filtered cd category limit a =
     take limit (filter (\<lambda>e. case category of None \<Rightarrow> True | Some c \<Rightarrow> ascii_lower_eq (ae_category e) c)
       (audit_recent cd 5000 a))"

definition audit_stats :: "(audit_event, 'j) codec \<Rightarrow> 'j audit_log \<Rightarrow> usize \<times> usize \<times> usize" where
  "audit_stats cd a =
     (let es = (case js_list cd AUDIT_TABLE (al_store a) of Inl _ \<Rightarrow> [] | Inr es \<Rightarrow> es);
          failures = length (filter (\<lambda>e. ae_outcome e = Out_Failure) es)
      in (length es, length es - failures, failures))"

section \<open>What a table promises: documents in insertion order\<close>

lemma alist_update_new: "k \<notin> fst ` set al \<Longrightarrow> AList.update k v al = al @ [(k, v)]"
  by (induction al) auto

lemma alist_update_there: "k \<in> fst ` set al \<Longrightarrow> map fst (AList.update k v al) = map fst al"
  by (simp add: update_keys)

lemma length_alist_update: "length (AList.update k v al) = (if k \<in> fst ` set al then length al else Suc (length al))"
  by (metis alist_update_new alist_update_there length_append_singleton length_map)

text \<open>
  The abstract view of a table is the association list of its keys and documents in the order of
  their first insertion: replacing keeps the place, a new key goes to the end, pruning drops from
  the front.
\<close>

locale document_table =
  fixes wf :: "'t \<Rightarrow> bool"
    and entries :: "'t \<Rightarrow> (rstring \<times> 'j) list"
    and put :: "rstring \<Rightarrow> 'j \<Rightarrow> 't \<Rightarrow> 't"
    and del :: "rstring \<Rightarrow> 't \<Rightarrow> 't"
    and prune :: "nat \<Rightarrow> 't \<Rightarrow> 't"
  assumes wf_put: "wf t \<Longrightarrow> wf (put k d t)"
    and wf_del: "wf t \<Longrightarrow> wf (del k t)"
    and wf_prune: "wf t \<Longrightarrow> wf (prune n t)"
    and entries_keys: "wf t \<Longrightarrow> distinct (map fst (entries t))"
    and entries_put: "wf t \<Longrightarrow> entries (put k d t) = AList.update k d (entries t)"
    and entries_del: "wf t \<Longrightarrow> entries (del k t) = AList.delete k (entries t)"
    and entries_prune: "wf t \<Longrightarrow> entries (prune n t) = drop (length (entries t) - n) (entries t)"
begin

lemma lookup_put: "wf t \<Longrightarrow> map_of (entries (put k d t)) = (map_of (entries t))(k \<mapsto> d)"
  by (simp add: entries_put update_conv')

lemma lookup_del: "wf t \<Longrightarrow> map_of (entries (del k t)) = (map_of (entries t))(k := None)"
  by (simp add: entries_del delete_conv')

lemma length_put: "wf t \<Longrightarrow> length (entries (put k d t)) \<le> Suc (length (entries t))"
  by (simp add: entries_put length_alist_update)

lemma length_prune: "wf t \<Longrightarrow> length (entries (prune n t)) = min n (length (entries t))"
  by (simp add: entries_prune)

lemma put_newest: "wf t \<Longrightarrow> k \<notin> fst ` set (entries t) \<Longrightarrow> entries (put k d t) = entries t @ [(k, d)]"
  by (simp add: entries_put alist_update_new)

lemma prune_keeps_newest:
  "wf t \<Longrightarrow> 0 < n \<Longrightarrow> entries t = es @ [e] \<Longrightarrow> \<exists>es'. entries (prune n t) = es' @ [e]"
  by (simp add: entries_prune)

end

section \<open>The rows keep the promise\<close>

definition tb_wf :: "'j row list \<Rightarrow> bool" where
  "tb_wf rows \<longleftrightarrow> distinct (map rw_key rows) \<and> distinct (map rw_seq rows)"

definition tb_entry :: "'j row \<Rightarrow> rstring \<times> 'j" where
  "tb_entry r = (rw_key r, rw_doc r)"

definition tb_entries :: "'j row list \<Rightarrow> (rstring \<times> 'j) list" where
  "tb_entries rows = map tb_entry (tb_by_seq rows)"

lemma sort_key_unique:
  assumes "mset ys = mset xs" "sorted (map f ys)" "distinct (map f xs)"
  shows "sort_key f xs = ys"
proof (rule properties_for_sort_key)
  have *: "distinct (map f ys)" using assms(1,3) by (metis mset_eq_imp_distinct_iff mset_map)
  fix k assume k: "k \<in> set ys"
  then have "k \<in> set xs" using assms(1) by (metis mset_eq_setD)
  have "filter (\<lambda>x. f k = f x) zs = [k]" if "distinct (map f zs)" "k \<in> set zs" for zs
    using that by (induction zs) (auto simp: filter_empty_conv image_iff intro: rev_image_eqI)
  then show "filter (\<lambda>x. f k = f x) ys = filter (\<lambda>x. f k = f x) xs"
    using * k \<open>k \<in> set xs\<close> assms(3) by simp
qed (use assms in simp_all)

lemma tb_by_seq_simps [simp]:
  "mset (tb_by_seq rows) = mset rows" "set (tb_by_seq rows) = set rows" "length (tb_by_seq rows) = length rows"
  "sorted (map rw_seq (tb_by_seq rows))"
  by (simp_all add: tb_by_seq_def)

lemma tb_by_seq_distinct [simp]:
  "distinct (map f (tb_by_seq rows)) \<longleftrightarrow> distinct (map f rows)"
  by (rule mset_eq_imp_distinct_iff) simp

lemma tb_entries_keys: "fst ` set (tb_entries rows) = rw_key ` set rows"
  by (auto simp: tb_entries_def tb_entry_def image_iff)

lemma tb_find_None_iff: "tb_find key rows = None \<longleftrightarrow> key \<notin> rw_key ` set rows"
  by (auto simp: tb_find_def find_None_iff)

lemma tb_next_seq_greater: "r \<in> set rows \<Longrightarrow> rw_seq r < tb_next_seq rows"
  by (auto simp: tb_next_seq_def intro: Max_ge le_imp_0_less zle_add1_eq_le [THEN iffD2])

lemma tb_put_new:
  assumes "key \<notin> rw_key ` set rows"
  shows "tb_put key doc rows = rows @ [\<lparr>rw_key = key, rw_doc = doc, rw_seq = tb_next_seq rows\<rparr>]"
  using assms by (auto simp: tb_put_def Let_def tb_find_None_iff [THEN iffD2] filter_id_conv)

lemma tb_put_there:
  assumes "distinct (map rw_key rows)" "key \<in> rw_key ` set rows"
  obtains as r bs where "rows = as @ r # bs" "rw_key r = key" "key \<notin> rw_key ` set as" "key \<notin> rw_key ` set bs"
    "tb_put key doc rows = as @ bs @ [r\<lparr>rw_doc := doc\<rparr>]"
proof -
  from assms(2) obtain as r bs where *: "rows = as @ r # bs" "rw_key r = key"
    by (metis image_iff split_list)
  with assms(1) have **: "key \<notin> rw_key ` set as" "key \<notin> rw_key ` set bs" by auto
  with * have "tb_find key rows = Some r" by (induction as arbitrary: rows) (auto simp: tb_find_def)
  moreover have "filter (\<lambda>x. rw_key x \<noteq> key) zs = zs" if "key \<notin> rw_key ` set zs" for zs :: "'a row list"
    by (rule filter_True) (use that in force)
  ultimately have "tb_put key doc rows = as @ bs @ [r\<lparr>rw_doc := doc\<rparr>]"
    using * ** by (simp add: tb_put_def Let_def)
  with * ** show ?thesis by (rule that)
qed

lemma tb_put_wf:
  assumes "tb_wf rows"
  shows "tb_wf (tb_put key doc rows)"
proof (cases "key \<in> rw_key ` set rows")
  case True
  from assms have "distinct (map rw_key rows)" by (simp add: tb_wf_def)
  from tb_put_there [OF this True] obtain as r bs where "rows = as @ r # bs" "rw_key r = key"
    "tb_put key doc rows = as @ bs @ [r\<lparr>rw_doc := doc\<rparr>]" by metis
  with assms show ?thesis by (auto simp: tb_wf_def)
next
  case False
  with assms tb_next_seq_greater [of _ rows] show ?thesis
    by (fastforce simp: tb_wf_def tb_put_new)
qed

lemma tb_put_entries:
  assumes "tb_wf rows"
  shows "tb_entries (tb_put key doc rows) = AList.update key doc (tb_entries rows)"
proof (cases "key \<in> rw_key ` set rows")
  case True
  let ?g = "\<lambda>r :: 'a row. if rw_key r = key then r\<lparr>rw_doc := doc\<rparr> else r"
  from assms have "distinct (map rw_key rows)" by (simp add: tb_wf_def)
  from tb_put_there [OF this True] obtain as r bs where *: "rows = as @ r # bs" "rw_key r = key"
    "key \<notin> rw_key ` set as" "key \<notin> rw_key ` set bs" "tb_put key doc rows = as @ bs @ [r\<lparr>rw_doc := doc\<rparr>]" by metis
  have seq: "map rw_seq (map ?g xs) = map rw_seq xs" for xs by (induction xs) auto
  have id: "map ?g xs = xs" if "key \<notin> rw_key ` set xs" for xs using that by (induction xs) auto
  have "tb_by_seq (tb_put key doc rows) = map ?g (tb_by_seq rows)"
    unfolding tb_by_seq_def
  proof (rule sort_key_unique)
    from *(3,4) have "map ?g as = as" "map ?g bs = bs" by (simp_all add: id)
    moreover have "mset (map ?g (sort_key rw_seq rows)) = mset (map ?g rows)" by simp
    ultimately show "mset (map ?g (sort_key rw_seq rows)) = mset (tb_put key doc rows)"
      unfolding *(5) by (simp add: *(1,2) del: mset_map)
    show "sorted (map rw_seq (map ?g (sort_key rw_seq rows)))" by (simp only: seq) simp
    show "distinct (map rw_seq (tb_put key doc rows))" using tb_put_wf [OF assms] by (simp add: tb_wf_def)
  qed
  moreover have "map tb_entry (map ?g xs) = AList.update key doc (map tb_entry xs)"
    if "distinct (map rw_key xs)" "key \<in> rw_key ` set xs" for xs
    using that by (induction xs) (auto simp: tb_entry_def id rev_image_eqI)
  ultimately show ?thesis using assms True by (simp add: tb_entries_def tb_wf_def)
next
  case False
  let ?r = "\<lparr>rw_key = key, rw_doc = doc, rw_seq = tb_next_seq rows\<rparr>"
  have "tb_by_seq (tb_put key doc rows) = tb_by_seq rows @ [?r]"
    unfolding tb_by_seq_def
  proof (rule sort_key_unique)
    show "distinct (map rw_seq (tb_put key doc rows))" using tb_put_wf [OF assms] by (simp add: tb_wf_def)
    show "sorted (map rw_seq (sort_key rw_seq rows @ [?r]))"
      by (auto simp: sorted_append intro: less_imp_le tb_next_seq_greater)
  qed (simp add: tb_put_new False)
  then have "tb_entries (tb_put key doc rows) = tb_entries rows @ [(key, doc)]"
    by (simp add: tb_entries_def) (simp add: tb_entry_def)
  with False show ?thesis by (simp add: alist_update_new tb_entries_keys)
qed

lemma tb_entries_filter: "tb_entries (filter P rows) = map tb_entry (filter P (tb_by_seq rows))"
  by (simp add: tb_entries_def tb_by_seq_def filter_sort)

lemma tb_delete_entries: "tb_entries (tb_delete key rows) = AList.delete key (tb_entries rows)"
  unfolding tb_delete_def tb_entries_filter
  by (simp add: tb_entries_def AList.delete_eq filter_map comp_def tb_entry_def eq_commute)

lemma filter_image_drop:
  "distinct (map f xs) \<Longrightarrow> filter (\<lambda>x. f x \<in> f ` set (drop m xs)) xs = drop m xs"
proof (induction xs arbitrary: m)
  case (Cons x xs)
  show ?case
  proof (cases m)
    case (Suc n)
    have "set (drop n xs) \<subseteq> set xs" by (rule set_drop_subset)
    with Cons Suc show ?thesis by (auto simp: image_iff)
  qed (simp add: filter_id_conv)
qed simp

lemma tb_prune_entries:
  assumes "tb_wf rows"
  shows "tb_entries (tb_prune keep rows) = drop (length (tb_entries rows) - keep) (tb_entries rows)"
  using assms filter_image_drop [of rw_seq "tb_by_seq rows" "length rows - keep"]
  unfolding tb_prune_def tb_entries_filter
  by (simp add: tb_recent_def take_rev tb_entries_def drop_map tb_wf_def)

lemma tb_filter_wf: "tb_wf rows \<Longrightarrow> tb_wf (filter P rows)"
  by (simp add: tb_wf_def distinct_map_filter)

lemma tb_delete_wf: "tb_wf rows \<Longrightarrow> tb_wf (tb_delete key rows)"
  by (simp add: tb_delete_def tb_filter_wf)

lemma tb_prune_wf: "tb_wf rows \<Longrightarrow> tb_wf (tb_prune keep rows)"
  unfolding tb_prune_def by (rule tb_filter_wf)

lemma tb_entries_distinct: "tb_wf rows \<Longrightarrow> distinct (map fst (tb_entries rows))"
  by (simp add: tb_entries_def tb_entry_def comp_def tb_wf_def)

interpretation row_table: document_table tb_wf tb_entries tb_put tb_delete tb_prune
  by unfold_locales
    (simp_all add: tb_put_wf tb_put_entries tb_delete_entries tb_prune_entries tb_delete_wf tb_prune_wf tb_entries_distinct)

section \<open>Looking up after a change\<close>

lemma tb_find_put:
  "map_option rw_doc (tb_find k' (tb_put k d rows)) = (if k' = k then Some d else map_option rw_doc (tb_find k' rows))"
proof -
  have 1: "find (\<lambda>r. rw_key r = k') (filter (\<lambda>r. rw_key r \<noteq> k) xs @ [r]) =
      (if k' \<noteq> k \<and> find (\<lambda>r. rw_key r = k') xs \<noteq> None then find (\<lambda>r. rw_key r = k') xs
       else if rw_key r = k' then Some r else None)" for xs and r :: "'a row"
    by (induction xs) auto
  show ?thesis by (auto simp: tb_find_def tb_put_def Let_def 1)
qed

lemma js_get_alt:
  "js_get cd table key s =
    (case js_tables s table of
       None \<Rightarrow> Inl (St_Sqlite table)
     | Some rows \<Rightarrow>
        (case map_option rw_doc (tb_find key rows) of
           None \<Rightarrow> Inr None
         | Some j \<Rightarrow> (case cd_from cd j of None \<Rightarrow> Inl St_Json | Some x \<Rightarrow> Inr (Some x))))"
  by (auto simp: js_get_def js_rows_def js_decode_def ok_or_def split: option.splits)

lemma js_put_tables:
  "js_tables (snd (js_put cd table key x s)) =
    (case js_tables s table of None \<Rightarrow> js_tables s | Some rows \<Rightarrow> (js_tables s)(table \<mapsto> tb_put key (cd_to cd x) rows))"
  by (simp add: js_put_def js_rows_def js_set_def ok_or_def split: option.split)

lemma js_put_result: "fst (js_put cd table key x s) = (case js_tables s table of None \<Rightarrow> Inl (St_Sqlite table) | Some _ \<Rightarrow> Inr ())"
  by (simp add: js_put_def js_rows_def ok_or_def split: option.split)

lemma js_update_tables:
  "js_tables (snd (js_update cd table key f s)) =
    (case js_tables s table of
       None \<Rightarrow> js_tables s
     | Some rows \<Rightarrow>
        (case map_option rw_doc (tb_find key rows) of
           None \<Rightarrow> js_tables s
         | Some j \<Rightarrow>
            (case cd_from cd j of
               None \<Rightarrow> js_tables s
             | Some x \<Rightarrow> (js_tables s)(table \<mapsto> tb_put key (cd_to cd (f x)) rows))))"
  by (simp add: js_update_def js_get_alt js_put_def js_rows_def js_set_def split: option.split)

lemma js_next_counter_tables [simp]: "js_tables (snd (js_next_counter name s)) = js_tables s"
  by (simp add: js_next_counter_def Let_def)

section \<open>Sequences of operations on a table\<close>

datatype 'j table_op = Tb_Put rstring 'j | Tb_Delete rstring | Tb_Prune usize

fun tb_apply :: "'j table_op \<Rightarrow> 'j row list \<Rightarrow> 'j row list" where
  "tb_apply (Tb_Put k d) rows = tb_put k d rows"
| "tb_apply (Tb_Delete k) rows = tb_delete k rows"
| "tb_apply (Tb_Prune n) rows = tb_prune n rows"

fun entries_apply :: "'j table_op \<Rightarrow> (rstring \<times> 'j) list \<Rightarrow> (rstring \<times> 'j) list" where
  "entries_apply (Tb_Put k d) es = AList.update k d es"
| "entries_apply (Tb_Delete k) es = AList.delete k es"
| "entries_apply (Tb_Prune n) es = drop (length es - n) es"

lemma tb_apply_refines:
  "tb_wf rows \<Longrightarrow> tb_wf (tb_apply op rows) \<and> tb_entries (tb_apply op rows) = entries_apply op (tb_entries rows)"
  by (cases op) (simp_all add: row_table.wf_put row_table.wf_del row_table.wf_prune
      row_table.entries_put row_table.entries_del row_table.entries_prune)

lemma tb_run_refines:
  "tb_wf rows \<Longrightarrow> tb_wf (fold tb_apply ops rows) \<and>
    tb_entries (fold tb_apply ops rows) = fold entries_apply ops (tb_entries rows)"
  by (induction ops arbitrary: rows) (simp_all add: tb_apply_refines)

lemma tb_find_entries: "tb_wf rows \<Longrightarrow> map_option rw_doc (tb_find key rows) = map_of (tb_entries rows) key"
proof -
  assume wf: "tb_wf rows"
  show ?thesis
  proof (cases "tb_find key rows")
    case None
    then have "map_of (tb_entries rows) key = None"
      by (simp add: tb_find_None_iff map_of_eq_None_iff tb_entries_keys)
    with None show ?thesis by simp
  next
    case (Some r)
    then have "r \<in> set rows" "rw_key r = key" by (auto simp: tb_find_def dest: find_eq_SomeD)
    then have "(key, rw_doc r) \<in> set (tb_entries rows)" by (force simp: tb_entries_def tb_entry_def)
    with Some row_table.entries_keys [OF wf] show ?thesis by (simp add: map_of_is_SomeI)
  qed
qed

text \<open>The store answers from the entries of its tables.\<close>

definition js_entries :: "rstring \<Rightarrow> 'j json_store \<Rightarrow> (rstring \<times> 'j) list" where
  "js_entries table s = (case js_tables s table of None \<Rightarrow> [] | Some rows \<Rightarrow> tb_entries rows)"

definition js_wf :: "'j json_store \<Rightarrow> bool" where
  "js_wf s \<longleftrightarrow> (\<forall>t rows. js_tables s t = Some rows \<longrightarrow> tb_wf rows)"

lemma js_get_entries:
  assumes "js_wf s" "js_tables s table \<noteq> None"
  shows "js_get cd table key s =
    (case map_of (js_entries table s) key of
       None \<Rightarrow> Inr None
     | Some j \<Rightarrow> (case cd_from cd j of None \<Rightarrow> Inl St_Json | Some x \<Rightarrow> Inr (Some x)))"
proof -
  from assms obtain rows where *: "js_tables s table = Some rows" "tb_wf rows" by (auto simp: js_wf_def)
  show ?thesis
    by (cases "tb_find key rows")
      (use tb_find_entries [OF *(2), of key, symmetric] * in
        \<open>auto simp: js_get_def js_rows_def js_entries_def js_decode_def ok_or_def split: option.splits\<close>)
qed

text \<open>C27: A table of the store behaves like a list of documents in the order of their first insertion: after any
  sequence of puts, deletions and prunings of a new table, looking a key up gives the document of the
  list, listing gives the documents in the order of the list, and the most recent documents are its end.
\<close>

theorem table_refines_document_list:
  "map_option rw_doc (tb_find key (fold tb_apply ops [])) = map_of (fold entries_apply ops []) key \<and>
   map rw_doc (tb_by_seq (fold tb_apply ops [])) = map snd (fold entries_apply ops []) \<and>
   map rw_doc (tb_recent n (fold tb_apply ops [])) = take n (rev (map snd (fold entries_apply ops []))) \<and>
   distinct (map fst (fold entries_apply ops []))"
proof -
  let ?rows = "fold tb_apply ops []"
  let ?es = "fold entries_apply ops []"
  have wf: "tb_wf ?rows" and es: "tb_entries ?rows = ?es"
    using tb_run_refines [of "[]" ops] by (simp_all add: tb_wf_def tb_entries_def tb_by_seq_def)
  have 1: "map rw_doc (tb_by_seq ?rows) = map snd ?es"
    by (simp add: es [symmetric] tb_entries_def tb_entry_def comp_def)
  then have "map rw_doc (tb_recent n ?rows) = take n (rev (map snd ?es))"
    by (simp add: tb_recent_def take_map [symmetric] rev_map [symmetric])
  with 1 show ?thesis using tb_find_entries [OF wf] row_table.entries_keys [OF wf] es by simp
qed

section \<open>The audit log is bounded\<close>

definition audit_entries :: "'j audit_log \<Rightarrow> (rstring \<times> 'j) list" where
  "audit_entries a = js_entries AUDIT_TABLE (al_store a)"

definition audit_inv :: "'j audit_log \<Rightarrow> bool" where
  "audit_inv a \<longleftrightarrow>
     (\<exists>rows. js_tables (al_store a) AUDIT_TABLE = Some rows \<and> tb_wf rows \<and>
       (0 < al_max_entries a \<longrightarrow>
         length (tb_entries rows) \<le> al_max_entries a + (unat (al_writes a) + 255) mod 256))"

lemma writes_mod: "(unat (w + 1 :: u64) + 255) mod 256 = unat w mod 256"
proof -
  have "(unat (w + 1) + 255) mod 256 = (unat (w + 1) mod 256 + 255) mod 256" by (simp add: mod_add_left_eq)
  also have "unat (w + 1) mod 256 = (unat w + 1) mod 2 ^ 64 mod 256" by (simp add: unat_word_ariths)
  also have "\<dots> = (unat w + 1) mod 256" by (rule mod_mod_cancel) (simp add: dvd_def)
  also have "((unat w + 1) mod 256 + 255) mod 256 = (unat w + 256) mod 256" by (simp add: mod_add_left_eq)
  finally show ?thesis by simp
qed

lemma mod_pred: "n mod 256 \<noteq> 0 \<Longrightarrow> Suc ((n + 255) mod 256) = n mod 256" for n :: nat
proof -
  assume "n mod 256 \<noteq> 0"
  then obtain r where r: "n mod 256 = Suc r" by (meson not0_implies_Suc)
  moreover have "n mod 256 < 256" by simp
  ultimately have "r < 256" by simp
  have "(n + 255) mod 256 = (Suc r + 255) mod 256" by (metis mod_add_left_eq r)
  also have "\<dots> = r" using \<open>r < 256\<close> by simp
  finally show ?thesis by (simp add: r)
qed

lemma writes_due: "w mod PRUNE_INTERVAL = 0 \<longleftrightarrow> unat w mod 256 = 0"
  by (simp add: PRUNE_INTERVAL_def unat_eq_zero [symmetric] unat_mod_distrib)

lemma audit_store_put:
  "js_tables s AUDIT_TABLE = Some rows \<Longrightarrow>
    js_tables (snd (js_put cd AUDIT_TABLE k ev s)) AUDIT_TABLE = Some (tb_put k (cd_to cd ev) rows)"
  by (simp add: js_put_def js_rows_def js_set_def)

lemma audit_store_prune:
  "js_tables s AUDIT_TABLE = Some rows \<Longrightarrow> js_tables (audit_prune n s) AUDIT_TABLE = Some (tb_prune n rows)"
  by (simp add: audit_prune_def js_prune_oldest_def js_rows_def js_set_def)

lemma audit_record_inv:
  assumes "audit_inv a"
  shows "audit_inv (audit_record cd ev a)"
proof -
  from assms obtain rows where rows: "js_tables (al_store a) AUDIT_TABLE = Some rows" "tb_wf rows"
    and len: "0 < al_max_entries a \<Longrightarrow>
      length (tb_entries rows) \<le> al_max_entries a + (unat (al_writes a) + 255) mod 256"
    by (auto simp: audit_inv_def)
  let ?put = "tb_put (ae_id ev) (cd_to cd ev) rows"
  have put: "tb_wf ?put" "length (tb_entries ?put) \<le> Suc (length (tb_entries rows))"
    using rows(2) by (simp_all add: row_table.wf_put row_table.length_put)
  show ?thesis
  proof (cases "0 < al_max_entries a \<and> al_writes a mod PRUNE_INTERVAL = 0")
    case True
    with rows put show ?thesis
      by (auto simp: audit_inv_def audit_record_def Let_def audit_store_put audit_store_prune row_table.wf_prune
          row_table.length_prune)
  next
    case False
    with rows put len mod_pred [of "unat (al_writes a)"] show ?thesis
      by (auto simp: audit_inv_def audit_record_def Let_def audit_store_put writes_mod writes_due)
  qed
qed

lemma audit_with_retention_inv:
  assumes "js_wf s" "audit_with_retention s m = Inr a"
  shows "audit_inv a" "al_max_entries a = m"
proof -
  let ?s = "case js_tables s AUDIT_TABLE of None \<Rightarrow> js_set AUDIT_TABLE [] s | Some _ \<Rightarrow> s"
  obtain rows where rows: "js_tables ?s AUDIT_TABLE = Some rows" "tb_wf rows"
    using assms(1) by (cases "js_tables s AUDIT_TABLE") (auto simp: js_set_def js_wf_def tb_wf_def)
  with assms(2) show "audit_inv a" "al_max_entries a = m"
    by (auto simp: audit_with_retention_def js_ensure_table_def audit_inv_def audit_store_prune row_table.wf_prune
        row_table.length_prune)
qed

lemma audit_records_inv:
  "audit_inv a \<Longrightarrow> audit_inv (fold (audit_record cd) evs a) \<and>
    al_max_entries (fold (audit_record cd) evs a) = al_max_entries a"
proof (induction evs arbitrary: a)
  case (Cons ev evs)
  moreover have "al_max_entries (audit_record cd ev a) = al_max_entries a" by (simp add: audit_record_def Let_def)
  ultimately show ?case using audit_record_inv by fastforce
qed simp

text \<open>What a capped log holds of the events it was given: the last ones, in order, and at least as many as its cap.\<close>

definition audit_event_entry :: "(audit_event, 'j) codec \<Rightarrow> audit_event \<Rightarrow> rstring \<times> 'j" where
  "audit_event_entry cd ev = (ae_id ev, cd_to cd ev)"

definition audit_suffix :: "(rstring \<times> 'j) list \<Rightarrow> 'j audit_log \<Rightarrow> bool" where
  "audit_suffix all a \<longleftrightarrow>
     (\<exists>rows n. js_tables (al_store a) AUDIT_TABLE = Some rows \<and> tb_wf rows \<and> tb_entries rows = drop n all \<and>
       min (al_max_entries a) (length all) \<le> length (tb_entries rows))"

lemma drop_of_drop: "\<exists>k. drop i (drop j xs) = drop k xs"
  by (metis drop_drop)

lemma audit_record_suffix:
  assumes "audit_suffix all a" "distinct (map fst (all @ [audit_event_entry cd ev]))" "0 < al_max_entries a"
  shows "audit_suffix (all @ [audit_event_entry cd ev]) (audit_record cd ev a)"
proof -
  from assms(1) obtain rows n where rows: "js_tables (al_store a) AUDIT_TABLE = Some rows" "tb_wf rows"
    and es: "tb_entries rows = drop n all" and min: "min (al_max_entries a) (length all) \<le> length (tb_entries rows)"
    by (auto simp: audit_suffix_def)
  let ?all = "all @ [audit_event_entry cd ev]"
  let ?put = "tb_put (ae_id ev) (cd_to cd ev) rows"
  have "fst ` set (tb_entries rows) \<subseteq> fst ` set all" using set_drop_subset [of n all] by (auto simp: es)
  with assms(2) have "ae_id ev \<notin> fst ` set (tb_entries rows)" by (auto simp: audit_event_entry_def)
  from row_table.put_newest [OF rows(2) this] have "tb_entries ?put = tb_entries rows @ [audit_event_entry cd ev]"
    by (simp add: audit_event_entry_def)
  moreover have "tb_entries rows = drop (min n (length all)) all" by (simp add: es min_def)
  ultimately have put: "tb_entries ?put = drop (min n (length all)) ?all" "length (tb_entries ?put) = Suc (length (tb_entries rows))" by simp_all
  show ?thesis
  proof (cases "al_writes a mod PRUNE_INTERVAL = 0")
    case True
    obtain k where k: "tb_entries (tb_prune (al_max_entries a) ?put) = drop k ?all"
      using row_table.entries_prune [OF row_table.wf_put [OF rows(2)], of "al_max_entries a" "ae_id ev" "cd_to cd ev"] drop_of_drop
      unfolding put(1) by metis
    have "length (tb_entries (tb_prune (al_max_entries a) ?put)) = min (al_max_entries a) (Suc (length (tb_entries rows)))"
      by (simp add: row_table.length_prune row_table.wf_put rows(2) put(2))
    then have "min (al_max_entries a) (length ?all) \<le> length (tb_entries (tb_prune (al_max_entries a) ?put))"
      using min by simp
    moreover have "js_tables (al_store (audit_record cd ev a)) AUDIT_TABLE = Some (tb_prune (al_max_entries a) ?put)"
      "al_max_entries (audit_record cd ev a) = al_max_entries a"
      using True rows(1) assms(3) by (simp_all add: audit_record_def Let_def audit_store_put audit_store_prune)
    ultimately show ?thesis unfolding audit_suffix_def using k row_table.wf_prune [OF row_table.wf_put [OF rows(2)]]
      by (intro exI [of _ "tb_prune (al_max_entries a) ?put"] exI [of _ k]) simp
  next
    case False
    then have "js_tables (al_store (audit_record cd ev a)) AUDIT_TABLE = Some ?put" "al_max_entries (audit_record cd ev a) = al_max_entries a"
      using rows(1) assms(3) by (simp_all add: audit_record_def Let_def audit_store_put)
    moreover have "min (al_max_entries a) (length ?all) \<le> length (tb_entries ?put)" using put(2) min by simp
    ultimately show ?thesis unfolding audit_suffix_def using put(1) row_table.wf_put [OF rows(2)]
      by (intro exI [of _ ?put] exI [of _ "min n (length all)"]) simp
  qed
qed

lemma audit_records_suffix:
  assumes "audit_suffix all a" "0 < al_max_entries a" "distinct (map fst (all @ map (audit_event_entry cd) evs))"
  shows "audit_suffix (all @ map (audit_event_entry cd) evs) (fold (audit_record cd) evs a)"
  using assms
proof (induction evs arbitrary: all a)
  case (Cons ev evs)
  have "audit_suffix (all @ [audit_event_entry cd ev]) (audit_record cd ev a)"
    using Cons.prems by (intro audit_record_suffix) auto
  moreover have "al_max_entries (audit_record cd ev a) = al_max_entries a" by (simp add: audit_record_def Let_def)
  ultimately show ?case using Cons.IH [of "all @ [audit_event_entry cd ev]" "audit_record cd ev a"] Cons.prems by simp
qed simp

lemma audit_with_retention_suffix:
  assumes "js_wf s" "audit_with_retention s m = Inr a" "0 < m"
  shows "audit_suffix (js_entries AUDIT_TABLE s) a"
proof -
  let ?s = "case js_tables s AUDIT_TABLE of None \<Rightarrow> js_set AUDIT_TABLE [] s | Some _ \<Rightarrow> s"
  obtain rows where rows: "js_tables ?s AUDIT_TABLE = Some rows" "tb_wf rows" "js_entries AUDIT_TABLE s = tb_entries rows"
    using assms(1) by (cases "js_tables s AUDIT_TABLE") (auto simp: js_set_def js_wf_def tb_wf_def js_entries_def tb_entries_def tb_by_seq_def)
  have a: "al_store a = audit_prune m ?s" "al_max_entries a = m"
    using assms(2,3) by (auto simp: audit_with_retention_def js_ensure_table_def)
  show ?thesis unfolding audit_suffix_def a rows(3)
    using audit_store_prune [OF rows(1), of m] row_table.wf_prune [OF rows(2), of m] row_table.entries_prune [OF rows(2), of m]
      row_table.length_prune [OF rows(2), of m] by auto
qed

text \<open>C28: A capped audit log never holds more than its cap and 255 further events, whatever is recorded and however
  long it runs (the counter of writes wraps). With fresh identifiers it always holds the newest events in the order they were recorded: its
  entries are a suffix of those found at the opening followed by all recorded since, as long as the cap or as all of them.
\<close>

theorem audit_log_bounded:
  assumes "js_wf s" "audit_with_retention s m = Inr a" "0 < m"
  shows "length (audit_entries (fold (audit_record cd) evs a)) \<le> m + 255 \<and>
    (distinct (map fst (js_entries AUDIT_TABLE s @ map (audit_event_entry cd) evs)) \<longrightarrow>
      (\<exists>n. audit_entries (fold (audit_record cd) evs a) = drop n (js_entries AUDIT_TABLE s @ map (audit_event_entry cd) evs)) \<and>
      min m (length (js_entries AUDIT_TABLE s) + length evs) \<le> length (audit_entries (fold (audit_record cd) evs a)))"
proof -
  let ?a = "fold (audit_record cd) evs a"
  have inv: "audit_inv ?a" and m: "al_max_entries ?a = m" "al_max_entries a = m"
    using audit_records_inv [of a cd evs] audit_with_retention_inv [OF assms(1,2)] by auto
  then obtain rows where rows: "js_tables (al_store ?a) AUDIT_TABLE = Some rows"
    and len: "length (tb_entries rows) \<le> m + (unat (al_writes ?a) + 255) mod 256"
    using assms(3) by (auto simp: audit_inv_def)
  have es: "audit_entries ?a = tb_entries rows" using rows(1) by (simp add: audit_entries_def js_entries_def)
  have "(unat (al_writes ?a) + 255) mod 256 < 256" by simp
  with len es have "length (audit_entries ?a) \<le> m + 255" by simp
  moreover have "(\<exists>n. audit_entries ?a = drop n (js_entries AUDIT_TABLE s @ map (audit_event_entry cd) evs)) \<and>
      min m (length (js_entries AUDIT_TABLE s) + length evs) \<le> length (audit_entries ?a)"
    if "distinct (map fst (js_entries AUDIT_TABLE s @ map (audit_event_entry cd) evs))"
    using audit_records_suffix [OF audit_with_retention_suffix [OF assms] _ that] assms(3) m rows
    by (auto simp: audit_suffix_def es)
  ultimately show ?thesis by blast
qed

section \<open>Documents by key\<close>

text \<open>What a client of the store sees of a table: a map from keys to documents.\<close>

definition js_doc :: "('a, 'j) codec \<Rightarrow> rstring \<Rightarrow> 'j json_store \<Rightarrow> rstring \<Rightarrow> 'a option" where
  "js_doc cd table s key = (case js_get cd table key s of Inr r \<Rightarrow> r | Inl _ \<Rightarrow> None)"

definition codec_ok :: "('a, 'j) codec \<Rightarrow> bool" where
  "codec_ok cd \<longleftrightarrow> (\<forall>x. cd_from cd (cd_to cd x) = Some x)"

lemma js_doc_alt:
  "js_doc cd table s key =
    Option.bind (js_tables s table) (\<lambda>rows. Option.bind (map_option rw_doc (tb_find key rows)) (cd_from cd))"
  by (auto simp: js_doc_def js_get_alt split: option.split)

lemma js_doc_put:
  "codec_ok cd \<Longrightarrow> js_tables s table \<noteq> None \<Longrightarrow> js_doc cd table (snd (js_put cd table key x s)) = (js_doc cd table s)(key \<mapsto> x)"
  by (auto simp: js_doc_alt js_put_tables tb_find_put codec_ok_def fun_eq_iff)

lemma js_doc_update:
  "codec_ok cd \<Longrightarrow> js_doc cd table (snd (js_update cd table key f s)) = (js_doc cd table s)(key := map_option f (js_doc cd table s key))"
  by (cases "js_tables s table"; cases "js_doc cd table s key")
    (auto simp: js_doc_alt js_update_tables tb_find_put codec_ok_def fun_eq_iff bind_eq_Some_conv bind_eq_None_conv split: option.splits)

lemma js_doc_cong: "js_tables s' table = js_tables s table \<Longrightarrow> js_doc cd table s' = js_doc cd table s"
  by (simp add: js_doc_alt fun_eq_iff)

lemma js_put_other: "table' \<noteq> table \<Longrightarrow> js_tables (snd (js_put cd table key x s)) table' = js_tables s table'"
  by (simp add: js_put_tables split: option.split)

lemma js_tables_kept:
  "js_tables (snd (js_put cd table key x s)) table' = None \<longleftrightarrow> js_tables s table' = None"
  "js_tables (snd (js_update cd table key f s)) table' = None \<longleftrightarrow> js_tables s table' = None"
  by (auto simp: js_put_tables js_update_tables split: option.splits)

lemma audit_record_other: "table \<noteq> AUDIT_TABLE \<Longrightarrow> js_tables (al_store (audit_record cd ev a)) table = js_tables (al_store a) table"
  by (auto simp: audit_record_def Let_def js_put_other audit_prune_def js_prune_oldest_def js_set_def js_rows_def split: sum.split)

lemma tb_find_delete: "tb_find k (tb_delete key rows) = (if k = key then None else tb_find k rows)"
  by (induction rows) (auto simp: tb_find_def tb_delete_def)

lemma js_delete_tables:
  "js_tables (snd (js_delete table key s)) =
    (case js_tables s table of None \<Rightarrow> js_tables s | Some rows \<Rightarrow> (js_tables s)(table \<mapsto> tb_delete key rows))"
  by (simp add: js_delete_def js_rows_def js_set_def ok_or_def split: option.split)

lemma js_doc_delete: "js_doc cd table (snd (js_delete table key s)) = (js_doc cd table s)(key := None)"
  by (cases "js_tables s table") (auto simp: js_delete_tables js_doc_alt tb_find_delete fun_eq_iff)

text \<open>A table that is there, with unique keys.\<close>

definition js_has :: "rstring \<Rightarrow> 'j json_store \<Rightarrow> bool" where
  "js_has table s \<longleftrightarrow> (\<exists>rows. js_tables s table = Some rows \<and> tb_wf rows)"

lemma js_hasD: "js_has table s \<Longrightarrow> js_tables s table \<noteq> None"
  by (auto simp: js_has_def)

lemma js_has_cong: "js_tables s' table = js_tables s table \<Longrightarrow> js_has table s' = js_has table s"
  by (simp add: js_has_def)

lemma js_has_kept:
  assumes "js_has table s"
  shows "js_has table (snd (js_put cd table' key x s))" "js_has table (snd (js_update cd table' key f s))" "js_has table (snd (js_delete table' key s))"
  using assms by (auto simp: js_has_def js_put_tables js_update_tables js_delete_tables tb_put_wf tb_delete_wf split: option.split)

lemma collect_results_Inr: "collect_results rs = Inr xs \<Longrightarrow> rs = map Inr xs"
  by (induction rs arbitrary: xs rule: collect_results.induct) (auto split: sum.splits)

lemma tb_find_member: "tb_wf rows \<Longrightarrow> r \<in> set rows \<Longrightarrow> tb_find (rw_key r) rows = Some r"
  unfolding tb_wf_def tb_find_def by (induction rows) auto

lemma js_list_docs:
  assumes "js_has table s" and list: "js_list cd table s = Inr xs"
  shows "set xs = ran (js_doc cd table s)"
proof -
  from assms(1) obtain rows where rows: "js_tables s table = Some rows" "tb_wf rows" by (auto simp: js_has_def)
  have "map (\<lambda>r. js_decode cd (rw_doc r)) (tb_by_seq rows) = map Inr xs"
    using list rows(1) by (simp add: js_list_def js_rows_def and_then_def ok_or_def collect_results_Inr)
  then have "(\<lambda>r. js_decode cd (rw_doc r)) ` set rows = Inr ` set xs" by (metis list.set_map tb_by_seq_simps(2))
  then have decoded: "(\<exists>r \<in> set rows. cd_from cd (rw_doc r) = Some x) \<longleftrightarrow> x \<in> set xs" for x
  proof -
    have "(\<exists>r \<in> set rows. cd_from cd (rw_doc r) = Some x) \<longleftrightarrow> Inr x \<in> (\<lambda>r. js_decode cd (rw_doc r)) ` set rows"
      by (auto simp: js_decode_def ok_or_def image_iff split: option.splits)
    also have "\<dots> \<longleftrightarrow> x \<in> set xs" using \<open>_ = Inr ` set xs\<close> by auto
    finally show ?thesis .
  qed
  have doc: "js_doc cd table s k = Some x \<longleftrightarrow> (\<exists>r. tb_find k rows = Some r \<and> cd_from cd (rw_doc r) = Some x)" for k x
    by (auto simp: js_doc_alt rows(1) bind_eq_Some_conv)
  show ?thesis
  proof (intro equalityI subsetI)
    fix x assume "x \<in> set xs"
    then obtain r where r: "r \<in> set rows" "cd_from cd (rw_doc r) = Some x" using decoded by blast
    then have "js_doc cd table s (rw_key r) = Some x" using tb_find_member [OF rows(2)] by (simp add: doc)
    then show "x \<in> ran (js_doc cd table s)" by (rule ranI)
  next
    fix x assume "x \<in> ran (js_doc cd table s)"
    then obtain k r where "tb_find k rows = Some r" "cd_from cd (rw_doc r) = Some x" by (auto simp: ran_def doc)
    then show "x \<in> set xs" using decoded by (force simp: tb_find_def find_Some_iff)
  qed
qed

definition plain_codec :: "('a, 'a) codec" where
  "plain_codec = \<lparr>cd_to = (\<lambda>x. x), cd_from = Some\<rparr>"

definition sample_event :: "nat \<Rightarrow> audit_event" where
  "sample_event n = \<lparr>ae_id = [n], ae_timestamp = [], ae_category = rstr ''config'', ae_action = rstr ''create'',
     ae_target = None, ae_actor = None, ae_detail = None, ae_outcome = Out_Success\<rparr>"

definition sample_log_store :: "nat \<Rightarrow> audit_event json_store" where
  \<comment> \<open>a log with the events 1 to n\<close>
  "sample_log_store n = js_set AUDIT_TABLE (map (\<lambda>i. \<lparr>rw_key = [i], rw_doc = sample_event i, rw_seq = int i\<rparr>) [1..<Suc n]) js_new"

text \<open>A log of three events opened with a cap of two, in which three hundred further events are recorded: it holds between two and 257
  events, the last ones.\<close>

theorem audit_log_bounded_witness:
  "\<exists>a n. audit_with_retention (sample_log_store 3) 2 = Inr a \<and>
    audit_entries (fold (audit_record plain_codec) (map sample_event [4..<304]) a) =
      drop n (map (audit_event_entry plain_codec) (map sample_event [1..<304])) \<and> 46 \<le> n \<and> n \<le> 301"
proof -
  let ?s = "sample_log_store 3" and ?evs = "map sample_event [4..<304]"
  let ?all = "map (audit_event_entry plain_codec) (map sample_event [1..<304])"
  have wf: "js_wf ?s" by (auto simp: js_wf_def sample_log_store_def js_set_def js_new_def tb_wf_def upt_rec)
  obtain a where a: "audit_with_retention ?s 2 = Inr a" by (simp add: audit_with_retention_def js_ensure_table_def)
  have old: "js_entries AUDIT_TABLE ?s = map (audit_event_entry plain_codec) (map sample_event [1..<4])"
    by (simp add: sample_log_store_def js_entries_def js_set_def js_new_def tb_entries_def upt_rec tb_by_seq_def tb_entry_def audit_event_entry_def
        plain_codec_def sample_event_def)
  have split: "[1..<304] = [1..<4] @ [4..<304]" using upt_add_eq_append [of 1 4 300] by simp
  have all: "js_entries AUDIT_TABLE ?s @ map (audit_event_entry plain_codec) ?evs = ?all"
    unfolding old split by simp
  have dist: "distinct (map fst ?all)"
    by (simp add: comp_def audit_event_entry_def sample_event_def distinct_map inj_on_def)
  have len: "length (js_entries AUDIT_TABLE ?s) + length ?evs = 303" unfolding old by simp
  from audit_log_bounded [OF wf a, of plain_codec ?evs] dist
  obtain n where n: "audit_entries (fold (audit_record plain_codec) ?evs a) = drop n ?all"
    "2 \<le> length (audit_entries (fold (audit_record plain_codec) ?evs a))"
    "length (audit_entries (fold (audit_record plain_codec) ?evs a)) \<le> 257"
    unfolding all len by auto
  from n(2,3) have "46 \<le> n" "n \<le> 301" unfolding n(1) by simp_all
  with a n(1) show ?thesis by blast
qed

end
