(* ===== verification/App_Http.thy ===== *)
theory App_Http
  imports App_Store
begin

text \<open>
  \<^verbatim>\<open>crates/pesit-app/src/http.rs\<close> (error envelope, API key, placeholders of path patterns) and the
  operations of the standard library on strings and paths that the application crates use. A path is
  the string of its characters.
\<close>

section \<open>Strings\<close>

definition str_trim :: "rstring \<Rightarrow> rstring" where
  "str_trim s = dropWhile is_whitespace (trim_end s)"

fun str_split :: "nat \<Rightarrow> rstring \<Rightarrow> rstring list" where
  "str_split sep [] = [[]]"
| "str_split sep (c # cs) =
     (if c = sep then [] # str_split sep cs
      else case str_split sep cs of [] \<Rightarrow> [[c]] | w # ws \<Rightarrow> (c # w) # ws)"

definition str_prefix :: "rstring \<Rightarrow> rstring \<Rightarrow> bool" where
  "str_prefix p s \<longleftrightarrow> take (length p) s = p"

text \<open>\<^verbatim>\<open>str::replace\<close> with a pattern that is not empty.\<close>

function str_replace :: "rstring \<Rightarrow> rstring \<Rightarrow> rstring \<Rightarrow> rstring" where
  "str_replace from to [] = []"
| "str_replace from to (c # cs) =
     (if from \<noteq> [] \<and> str_prefix from (c # cs) then to @ str_replace from to (drop (length from) (c # cs))
      else c # str_replace from to cs)"
  by pat_completeness auto
termination
  by (relation "measure (\<lambda>(f, t, s). length s)") (auto simp: neq_Nil_conv)

fun nat_string :: "nat \<Rightarrow> rstring" where
  "nat_string n = (if n < 10 then [48 + n] else nat_string (n div 10) @ [48 + n mod 10])"

declare nat_string.simps [simp del]

definition quoted :: "rstring \<Rightarrow> rstring" where
  \<comment> \<open>\<^verbatim>\<open>'{}'\<close> of a format string\<close>
  "quoted s = 39 # s @ [39]"

definition is_ascii_alphanumeric :: "nat \<Rightarrow> bool" where
  "is_ascii_alphanumeric c \<longleftrightarrow> (48 \<le> c \<and> c \<le> 57) \<or> (65 \<le> c \<and> c \<le> 90) \<or> (97 \<le> c \<and> c \<le> 122)"

section \<open>Paths\<close>

definition path_absolute :: "rstring \<Rightarrow> bool" where
  "path_absolute p \<longleftrightarrow> str_prefix (rstr ''/'') p"

definition path_join :: "rstring \<Rightarrow> rstring \<Rightarrow> rstring" where
  "path_join base p =
     (if path_absolute p then p
      else if base = [] \<or> last base = 47 then base @ p
      else base @ 47 # p)"

definition path_parts :: "rstring \<Rightarrow> rstring list" where
  "path_parts p = filter (\<lambda>c. c \<noteq> [] \<and> c \<noteq> rstr ''.'') (str_split 47 p)"

definition path_file_name :: "rstring \<Rightarrow> rstring option" where
  "path_file_name p =
     (let ps = path_parts p in if ps = [] \<or> last ps = rstr ''..'' then None else Some (last ps))"

text \<open>
  \<^verbatim>\<open>part_path\<close> of \<^verbatim>\<open>pesit-io/src/io.rs\<close>: the last component gets the suffix; a path without one (the
  root, or an end in \<^verbatim>\<open>..\<close>) gets a new component.
\<close>

definition part_path :: "rstring \<Rightarrow> rstring" where
  "part_path p =
     (case path_file_name p of
        Some _ \<Rightarrow> rev (dropWhile (\<lambda>c. c = 47) (rev p)) @ rstr ''.part''
      | None \<Rightarrow> path_join p (rstr ''.part''))"

section \<open>Errors and access to the interface\<close>

record api_error =
  ap_status :: nat
  ap_message :: rstring

definition api_not_found :: "rstring \<Rightarrow> api_error" where
  "api_not_found what = \<lparr>ap_status = 404, ap_message = what\<rparr>"

definition api_bad_request :: "rstring \<Rightarrow> api_error" where
  "api_bad_request msg = \<lparr>ap_status = 400, ap_message = msg\<rparr>"

definition api_conflict :: "rstring \<Rightarrow> api_error" where
  "api_conflict msg = \<lparr>ap_status = 409, ap_message = msg\<rparr>"

definition api_internal :: "rstring \<Rightarrow> api_error" where
  "api_internal msg = \<lparr>ap_status = 500, ap_message = msg\<rparr>"

text \<open>The text of a JSON error, which the JSON library produces, is left out.\<close>

fun store_error_text :: "store_error \<Rightarrow> rstring" where
  "store_error_text (St_Sqlite e) = rstr ''database: '' @ e"
| "store_error_text St_Json = rstr ''json: ''"
| "store_error_text St_Poisoned = rstr ''database lock poisoned''"

definition api_of_store :: "store_error \<Rightarrow> api_error" where
  "api_of_store e = api_internal (store_error_text e)"

text \<open>
  The middleware: \<open>None\<close> lets the request through, otherwise the answer. A request is given by its
  path and the values of the headers \<^verbatim>\<open>x-api-key\<close> and \<^verbatim>\<open>authorization\<close>.
\<close>

record api_request =
  rq_path :: rstring
  rq_x_api_key :: "bytes option"
  rq_authorization :: "bytes option"

definition bearer_prefix :: bytes where
  "bearer_prefix = str_bytes (rstr ''Bearer '')"

definition strip_bytes_prefix :: "bytes \<Rightarrow> bytes \<Rightarrow> bytes option" where
  "strip_bytes_prefix p v = (if take (length p) v = p then Some (drop (length p) v) else None)"

definition require_api_key :: "bytes option \<Rightarrow> api_request \<Rightarrow> api_error option" where
  "require_api_key expected req =
     (case expected of
        None \<Rightarrow> None
      | Some key \<Rightarrow>
         if \<not> str_prefix (rstr ''/api/'') (rq_path req) then None
         else
           let provided = (case rq_x_api_key req of Some v \<Rightarrow> Some v | None \<Rightarrow> rq_authorization req);
               ok = (case provided of None \<Rightarrow> False
                     | Some v \<Rightarrow> v = key \<or> strip_bytes_prefix bearer_prefix v = Some key)
           in if ok then None else Some \<lparr>ap_status = 401, ap_message = rstr ''invalid or missing API key''\<rparr>)"

section \<open>Placeholders\<close>

definition placeholder :: "rstring \<Rightarrow> rstring" where
  "placeholder k = rstr ''${'' @ k @ rstr ''}''"

definition resolve_placeholders :: "rstring \<Rightarrow> (rstring \<times> rstring) list \<Rightarrow> rstring" where
  "resolve_placeholders pattern values = foldl (\<lambda>out (k, v). str_replace (placeholder k) v out) pattern values"

section \<open>Properties\<close>

lemma str_replace_id: "f \<notin> set s \<Longrightarrow> str_replace (f # fs) to s = s"
  by (induction "f # fs" to s rule: str_replace.induct) (auto simp: str_prefix_def)

lemma str_replace_set: "set (str_replace from to s) \<subseteq> set s \<union> set to"
proof (induction "from" to s rule: str_replace.induct)
  case (2 "from" to c cs)
  have "set (drop (length from) (c # cs)) \<subseteq> set (c # cs)" by (rule set_drop_subset)
  with 2 show ?case by (cases "from \<noteq> [] \<and> str_prefix from (c # cs)") auto
qed simp

lemma resolve_placeholders_set:
  "set (resolve_placeholders pattern vals) \<subseteq> set pattern \<union> (\<Union>(k, v) \<in> set vals. set v)"
proof (induction vals arbitrary: pattern)
  case (Cons kv vals)
  obtain k v where kv: "kv = (k, v)" by fastforce
  show ?case
    using Cons [of "str_replace (placeholder k) v pattern"] str_replace_set [of "placeholder k" v pattern]
    by (auto simp: resolve_placeholders_def kv)
qed (simp add: resolve_placeholders_def)

lemma str_split_not_Nil [simp]: "str_split c s \<noteq> []"
  by (induction s) (auto split: list.splits)

lemma str_split_parts: "w \<in> set (str_split c s) \<Longrightarrow> c \<notin> set w \<and> set w \<subseteq> set s"
proof (induction s arbitrary: w)
  case (Cons x s)
  obtain v vs where v: "str_split c s = v # vs" by (meson list.exhaust str_split_not_Nil)
  with Cons.IH have "c \<notin> set u \<and> set u \<subseteq> set s" if "u \<in> set (v # vs)" for u using that by simp
  with Cons.prems v show ?case by (cases "x = c") fastforce+
qed simp

lemma require_api_key_None_iff:
  "require_api_key (Some key) req = None \<longleftrightarrow>
    \<not> str_prefix (rstr ''/api/'') (rq_path req) \<or>
    (\<exists>v. (rq_x_api_key req = Some v \<or> rq_x_api_key req = None \<and> rq_authorization req = Some v) \<and>
      (v = key \<or> v = bearer_prefix @ key))"
proof -
  have "strip_bytes_prefix bearer_prefix v = Some key \<longleftrightarrow> v = bearer_prefix @ key" for v
    by (auto simp: strip_bytes_prefix_def) (metis append_take_drop_id)
  then show ?thesis
    by (auto simp: require_api_key_def Let_def split: option.splits)
qed

end
