(* ===== verification/Node_Model.thy ===== *)
theory Node_Model
  imports App_Http Session
begin

text \<open>
  \<^verbatim>\<open>crates/pesit-node/src/model.rs\<close>: the configuration and the records of the server node, with the
  decisions they make (access rights, glob patterns of the allowed files, record formats).
\<close>

unbundle bit_operations_syntax

section \<open>Partners\<close>

datatype partner_access = Acc_Read | Acc_Write | Acc_Both

fun can_write :: "partner_access \<Rightarrow> bool" where
  "can_write Acc_Read = False"
| "can_write _ = True"

fun can_read :: "partner_access \<Rightarrow> bool" where
  "can_read Acc_Write = False"
| "can_read _ = True"

record partner =
  pt_id :: rstring
  pt_description :: "rstring option"
  pt_password :: "rstring option"
  pt_enabled :: bool
  pt_access_type :: partner_access
  pt_max_connections :: u32
  pt_allowed_files :: "rstring option"
  pt_preconnect_password :: "rstring option"
  pt_created_at :: "rstring option"
  pt_updated_at :: "rstring option"

definition partner_default :: partner where
  "partner_default = \<lparr>pt_id = [], pt_description = None, pt_password = None, pt_enabled = True,
     pt_access_type = Acc_Both, pt_max_connections = 10, pt_allowed_files = None, pt_preconnect_password = None,
     pt_created_at = None, pt_updated_at = None\<rparr>"

definition ascii_lower :: "u8 \<Rightarrow> u8" where
  "ascii_lower b = (if 0x41 \<le> b \<and> b \<le> 0x5A then b + 0x20 else b)"

definition byte_eq_ignore_case :: "u8 \<Rightarrow> u8 \<Rightarrow> bool" where
  "byte_eq_ignore_case a b \<longleftrightarrow> ascii_lower a = ascii_lower b"

definition STAR :: u8 where "STAR = 0x2A"
definition QUERY :: u8 where "QUERY = 0x3F"

function glob_rec :: "bytes \<Rightarrow> bytes \<Rightarrow> bool" where
  "glob_rec [] [] = True"
| "glob_rec [] (b # t) = False"
| "glob_rec (a # p) t =
     (if a = STAR then glob_rec p t \<or> (case t of [] \<Rightarrow> False | _ # t' \<Rightarrow> glob_rec (a # p) t')
      else case t of
        [] \<Rightarrow> False
      | b # t' \<Rightarrow>
         if a = QUERY then glob_rec p t'
         else if byte_eq_ignore_case a b then glob_rec p t'
         else False)"
  by pat_completeness auto
termination
  by (relation "measure (\<lambda>(p, t). length p + length t)") auto

definition glob_match :: "rstring \<Rightarrow> rstring \<Rightarrow> bool" where
  "glob_match pattern txt = glob_rec (str_bytes pattern) (str_bytes txt)"

definition can_access_file :: "partner \<Rightarrow> rstring \<Rightarrow> bool" where
  "can_access_file p file =
     (case pt_allowed_files p of
        None \<Rightarrow> True
      | Some list \<Rightarrow>
         str_trim list = [] \<or> list_ex (\<lambda>pat. glob_match pat file) (map str_trim (str_split 44 list)))"

section \<open>Virtual files\<close>

datatype file_direction = Dir_Receive | Dir_Send | Dir_Both

record virtual_file =
  vf_id :: rstring
  vf_description :: "rstring option"
  vf_enabled :: bool
  vf_direction :: file_direction
  vf_receive_directory :: "rstring option"
  vf_send_file :: "rstring option"
  vf_receive_filename_pattern :: rstring
  vf_overwrite :: bool
  vf_max_file_size :: u64
  vf_file_type :: u32
  vf_record_length :: u32
  vf_record_format :: u32
  vf_text :: bool
  vf_ebcdic :: bool
  vf_connector :: "rstring option"
  vf_connector_path :: "rstring option"
  vf_created_at :: "rstring option"
  vf_updated_at :: "rstring option"

definition virtual_file_default :: virtual_file where
  "virtual_file_default = \<lparr>vf_id = [], vf_description = None, vf_enabled = True, vf_direction = Dir_Both,
     vf_receive_directory = None, vf_send_file = None,
     vf_receive_filename_pattern = rstr ''${virtualFile}_${timestamp}'', vf_overwrite = False, vf_max_file_size = 0,
     vf_file_type = 0, vf_record_length = 1024, vf_record_format = 0x80, vf_text = False, vf_ebcdic = False,
     vf_connector = None, vf_connector_path = None, vf_created_at = None, vf_updated_at = None\<rparr>"

definition can_receive :: "virtual_file \<Rightarrow> bool" where
  "can_receive vf \<longleftrightarrow> vf_direction vf = Dir_Receive \<or> vf_direction vf = Dir_Both"

definition can_send :: "virtual_file \<Rightarrow> bool" where
  "can_send vf \<longleftrightarrow> vf_direction vf = Dir_Send \<or> vf_direction vf = Dir_Both"

definition vf_format :: "virtual_file \<Rightarrow> record_format" where
  "vf_format vf =
     (let variable = (vf_record_format vf AND 0x80 \<noteq> 0)
      in case (vf_text vf, variable) of
           (True, True) \<Rightarrow> Tv
         | (True, False) \<Rightarrow> Tf
         | (False, True) \<Rightarrow> Bu
         | (False, False) \<Rightarrow> Bf)"

section \<open>Remote partners, listeners, connectors\<close>

record remote_partner =
  rp_id :: rstring
  rp_description :: "rstring option"
  rp_host :: rstring
  rp_port :: u16
  rp_local_partner_id :: "rstring option"
  rp_remote_partner_id :: "rstring option"
  rp_enabled :: bool
  rp_max_connections :: u32
  rp_tls_enabled :: bool
  rp_created_at :: "rstring option"
  rp_updated_at :: "rstring option"

definition remote_partner_default :: remote_partner where
  "remote_partner_default = \<lparr>rp_id = [], rp_description = None, rp_host = [], rp_port = 5000,
     rp_local_partner_id = None, rp_remote_partner_id = None, rp_enabled = True, rp_max_connections = 5,
     rp_tls_enabled = False, rp_created_at = None, rp_updated_at = None\<rparr>"

datatype server_status = Srv_Stopped | Srv_Starting | Srv_Running | Srv_Stopping | Srv_Error

record pesit_server_config =
  ps_id :: "u64 option"
  ps_server_id :: rstring
  ps_port :: u16
  ps_bind_address :: rstring
  ps_protocol_version :: u8
  ps_max_connections :: u32
  ps_connection_timeout :: u64
  ps_read_timeout :: u64
  ps_receive_directory :: rstring
  ps_send_directory :: rstring
  ps_max_entity_size :: u16
  ps_sync_points_enabled :: bool
  ps_sync_interval_kb :: u16
  ps_sync_window :: u8
  ps_resync_enabled :: bool
  ps_auto_start :: bool
  ps_ssl_enabled :: bool
  ps_ssl_keystore :: "rstring option"
  ps_ssl_truststore :: "rstring option"
  ps_tcpip_header :: bool
  ps_compression :: u8
  ps_status :: server_status
  ps_created_at :: "rstring option"
  ps_updated_at :: "rstring option"
  ps_last_started_at :: "rstring option"
  ps_last_stopped_at :: "rstring option"

definition pesit_server_config_default :: pesit_server_config where
  "pesit_server_config_default = \<lparr>ps_id = None, ps_server_id = [], ps_port = 5001,
     ps_bind_address = rstr ''0.0.0.0'', ps_protocol_version = 2, ps_max_connections = 100,
     ps_connection_timeout = 30000, ps_read_timeout = 60000, ps_receive_directory = rstr ''/data/received'',
     ps_send_directory = rstr ''/data/send'', ps_max_entity_size = 4096, ps_sync_points_enabled = True,
     ps_sync_interval_kb = 32, ps_sync_window = 4, ps_resync_enabled = True, ps_auto_start = False,
     ps_ssl_enabled = False, ps_ssl_keystore = None, ps_ssl_truststore = None, ps_tcpip_header = True,
     ps_compression = 0, ps_status = Srv_Stopped, ps_created_at = None, ps_updated_at = None,
     ps_last_started_at = None, ps_last_stopped_at = None\<rparr>"

record connector_config =
  cc_id :: rstring
  cc_description :: "rstring option"
  cc_kind :: rstring
  cc_bucket :: "rstring option"
  cc_region :: "rstring option"
  cc_endpoint :: "rstring option"
  cc_access_key :: "rstring option"
  cc_secret_key :: "rstring option"
  cc_path_style :: bool
  cc_host :: "rstring option"
  cc_port :: u16
  cc_user :: "rstring option"
  cc_password :: "rstring option"
  cc_base_path :: "rstring option"
  cc_max_retries :: u32
  cc_created_at :: "rstring option"
  cc_updated_at :: "rstring option"

section \<open>Transfer records\<close>

datatype transfer_direction = Td_Send | Td_Receive | Td_Message

datatype transfer_status =
  Ts_Initiated | Ts_InProgress | Ts_Paused | Ts_Interrupted | Ts_Completed | Ts_Failed | Ts_Cancelled

text \<open>An error message is the values it is built from.\<close>

datatype error_text =
    Et_Diag diagnostic
  | Et_Ended diagnostic end_code bool
  | Et_Session session_error
  | Et_Upload rstring

record transfer_record =
  tr_id :: "u64 option"
  tr_transfer_id :: rstring
  tr_pesit_transfer_id :: u32
  tr_session_id :: "rstring option"
  tr_server_id :: "rstring option"
  tr_node_id :: "rstring option"
  tr_direction :: "transfer_direction option"
  tr_status :: transfer_status
  tr_partner_id :: "rstring option"
  tr_filename :: "rstring option"
  tr_local_path :: "rstring option"
  tr_file_size :: "u64 option"
  tr_bytes_transferred :: u64
  tr_progress_percent :: u8
  tr_last_sync_point :: u32
  tr_bytes_at_last_sync_point :: u64
  tr_started_at :: "rstring option"
  tr_completed_at :: "rstring option"
  tr_updated_at :: "rstring option"
  tr_remote_address :: "rstring option"
  tr_error_code :: "diagnostic option"
  tr_error_message :: "error_text option"
  tr_checksum :: "rstring option"
  tr_checksum_algorithm :: rstring
  tr_parent_transfer_id :: "rstring option"
  tr_metadata :: "rstring option"
  tr_label :: "rstring option"
  tr_free_message :: "rstring option"

text \<open>\<open>tr_error_code\<close> is the diagnostic whose debug form the code stores.\<close>

definition transfer_record_default :: transfer_record where
  "transfer_record_default = \<lparr>tr_id = None, tr_transfer_id = [], tr_pesit_transfer_id = 0, tr_session_id = None,
     tr_server_id = None, tr_node_id = None, tr_direction = None, tr_status = Ts_Initiated, tr_partner_id = None,
     tr_filename = None, tr_local_path = None, tr_file_size = None, tr_bytes_transferred = 0,
     tr_progress_percent = 0, tr_last_sync_point = 0, tr_bytes_at_last_sync_point = 0, tr_started_at = None,
     tr_completed_at = None, tr_updated_at = None, tr_remote_address = None, tr_error_code = None,
     tr_error_message = None, tr_checksum = None, tr_checksum_algorithm = rstr ''SHA-256'',
     tr_parent_transfer_id = None, tr_metadata = None, tr_label = None, tr_free_message = None\<rparr>"

definition T_PARTNERS :: rstring where "T_PARTNERS = rstr ''partners''"
definition T_FILES :: rstring where "T_FILES = rstr ''virtual_files''"
definition T_REMOTE_PARTNERS :: rstring where "T_REMOTE_PARTNERS = rstr ''remote_partners''"
definition T_SERVERS :: rstring where "T_SERVERS = rstr ''servers''"
definition T_TRANSFERS :: rstring where "T_TRANSFERS = rstr ''transfers''"
definition T_CONNECTORS :: rstring where "T_CONNECTORS = rstr ''connectors''"

section \<open>Glob patterns\<close>

text \<open>
  What a pattern means: each of its bytes stands for a piece of the text, any bytes for a star, one
  byte for a question mark, the byte itself in either case otherwise.
\<close>

definition glob_piece :: "u8 \<Rightarrow> bytes \<Rightarrow> bool" where
  "glob_piece a t \<longleftrightarrow>
     (if a = STAR then True else if a = QUERY then length t = 1 else \<exists>b. t = [b] \<and> byte_eq_ignore_case a b)"

lemma some_suffix:
  "(\<exists>u v. t = u @ v \<and> Q v) \<longleftrightarrow> Q t \<or> (\<exists>b t'. t = b # t' \<and> (\<exists>u v. t' = u @ v \<and> Q v))"
  by (cases t) (auto simp: Cons_eq_append_conv)

definition glob_means :: "bytes \<Rightarrow> bytes \<Rightarrow> bool" where
  "glob_means p t \<longleftrightarrow> (\<exists>ts. list_all2 glob_piece p ts \<and> concat ts = t)"

lemma glob_means_Nil: "glob_means [] t \<longleftrightarrow> t = []"
  by (auto simp: glob_means_def)

lemma glob_means_star: "glob_means (STAR # p) t \<longleftrightarrow> glob_means p t \<or> (\<exists>b t'. t = b # t' \<and> glob_means (STAR # p) t')"
proof -
  have *: "glob_means (STAR # p) s \<longleftrightarrow> (\<exists>u v. s = u @ v \<and> glob_means p v)" for s
    by (simp add: glob_means_def list_all2_Cons1 glob_piece_def) (metis concat.simps(2))
  show ?thesis unfolding * by (rule some_suffix)
qed

lemma glob_means_byte: "a \<noteq> STAR \<Longrightarrow>
  glob_means (a # p) t \<longleftrightarrow> (\<exists>b t'. t = b # t' \<and> (a = QUERY \<or> byte_eq_ignore_case a b) \<and> glob_means p t')"
  by (auto simp: glob_means_def list_all2_Cons1 glob_piece_def length_Suc_conv; fastforce)

lemma glob_rec_means: "glob_rec p t \<longleftrightarrow> glob_means p t"
proof (induction p t rule: glob_rec.induct)
  case (3 a p t)
  show ?case
  proof (cases "a = STAR")
    case True
    with 3 glob_means_star [of p t] show ?thesis by (cases t) simp_all
  next
    case False
    with 3 show ?thesis by (cases t) (auto simp: glob_means_byte)
  qed
qed (simp_all add: glob_means_Nil)

lemma list_ex_map_set: "list_ex P (map f xs) \<longleftrightarrow> (\<exists>x\<in>set xs. P (f x))"
  by (induction xs) auto

text \<open>C30: A partner whose list of allowed files is absent or blank may access every file. Otherwise a file is allowed
  exactly when it has the form of a pattern of the list: its bytes cut into one piece per byte of the
  pattern, where a star stands for anything, a question mark for one byte and a letter for either case.
\<close>

theorem allowed_files_spec:
  "can_access_file p file \<longleftrightarrow>
    (case pt_allowed_files p of
       None \<Rightarrow> True
     | Some list \<Rightarrow> str_trim list = [] \<or>
        (\<exists>w \<in> set (str_split 44 list). \<exists>ts. list_all2 glob_piece (str_bytes (str_trim w)) ts \<and>
          concat ts = str_bytes file))"
  by (auto simp: can_access_file_def list_ex_map_set glob_match_def glob_rec_means glob_means_def split: option.splits)

definition sample_partner :: partner where
  "sample_partner = partner_default\<lparr>pt_id := rstr ''P1'', pt_allowed_files := Some (rstr ''A*, b'')\<rparr>"

text \<open>The patterns of the example of the sources: a star, and a literal in the other case.\<close>

lemma allowed_files_sample:
  "can_access_file sample_partner (rstr ''ABC'')" "can_access_file sample_partner (rstr ''B'')"
  "\<not> can_access_file sample_partner (rstr ''C'')"
  by (simp_all add: sample_partner_def partner_default_def can_access_file_def str_trim_def trim_end_def
      is_whitespace_def rstr_def glob_match_def str_bytes_def utf8_char_def STAR_def QUERY_def
      byte_eq_ignore_case_def ascii_lower_def)

end
