(* ===== verification/Connector.thy ===== *)
theory Connector
  imports Node_Model Article_Io
begin

text \<open>
  \<^verbatim>\<open>crates/pesit-connector/src\<close> and \<^verbatim>\<open>crates/pesit-node/src/connector.rs\<close>: storage connectors, their
  retry policy and how they are built from a configuration. What one attempt against a backend
  returns is a parameter of the retry loop (the S3 and SSH clients are packages); the attempt on a
  local directory is defined here, over a map from paths to contents.
\<close>

section \<open>Backends\<close>

record s3_config =
  s3_bucket :: rstring
  s3_region :: "rstring option"
  s3_endpoint :: "rstring option"
  s3_access_key :: "rstring option"
  s3_secret_key :: "rstring option"
  s3_path_style :: bool

text \<open>What the client is configured with.\<close>

record s3_connector =
  sk_region :: rstring
  sk_path_style :: bool
  sk_endpoint :: "rstring option"
  sk_credentials :: "(rstring \<times> rstring) option"
  sk_bucket :: rstring

definition s3_connect :: "s3_config \<Rightarrow> s3_connector" where
  "s3_connect cfg = \<lparr>sk_region = unwrap_or (rstr ''us-east-1'') (s3_region cfg), sk_path_style = s3_path_style cfg,
     sk_endpoint = s3_endpoint cfg,
     sk_credentials = (case (s3_access_key cfg, s3_secret_key cfg) of (Some ak, Some sk) \<Rightarrow> Some (ak, sk) | _ \<Rightarrow> None),
     sk_bucket = s3_bucket cfg\<rparr>"

record sftp_config =
  sf_host :: rstring
  sf_port :: u16
  sf_user :: rstring
  sf_password :: "rstring option"
  sf_base_path :: "rstring option"

definition trim_slashes :: "rstring \<Rightarrow> rstring" where
  \<comment> \<open>\<^verbatim>\<open>trim_start_matches('/')\<close>\<close>
  "trim_slashes s = dropWhile (\<lambda>c. c = 47) s"

definition sftp_path :: "sftp_config \<Rightarrow> rstring \<Rightarrow> rstring" where
  "sftp_path cfg remote =
     (case sf_base_path cfg of
        Some base \<Rightarrow>
          if base \<noteq> [] then rev (dropWhile (\<lambda>c. c = 47) (rev base)) @ rstr ''/'' @ trim_slashes remote else remote
      | None \<Rightarrow> remote)"

datatype connector_backend = Be_Local rstring | Be_S3 s3_connector | Be_Sftp sftp_config

text \<open>
  The local backend is its base directory. The files are a map from paths to contents; a system call
  fails as its script says (\<open>os_call\<close>), and reading a path without a file fails with \<^verbatim>\<open>NotFound\<close>.
\<close>

definition lc_resolve :: "rstring \<Rightarrow> rstring \<Rightarrow> rstring" where
  "lc_resolve base remote = path_join base (trim_slashes remote)"

definition fs_copy :: "rstring \<Rightarrow> rstring \<Rightarrow> os_result list \<Rightarrow> (rstring \<Rightarrow> bytes option) \<Rightarrow>
    (io_error, u64) result \<times> (rstring \<Rightarrow> bytes option)" where
  "fs_copy from to script fs =
     (case os_call script of
        (Inl e, _) \<Rightarrow> (Inl e, fs)
      | (Inr _, _) \<Rightarrow>
         (case fs from of
            None \<Rightarrow> (Inl (Io_Kind Io_NotFound), fs)
          | Some data \<Rightarrow> (Inr (word_of_nat (length data)), fs(to \<mapsto> data))))"

definition lc_copy :: "rstring \<Rightarrow> rstring \<Rightarrow> os_result list \<Rightarrow> (rstring \<Rightarrow> bytes option) \<Rightarrow>
    (io_error, u64) result \<times> (rstring \<Rightarrow> bytes option)" where
  \<comment> \<open>the directory of the destination is created first\<close>
  "lc_copy from to script fs =
     (case os_call script of
        (Inl e, _) \<Rightarrow> (Inl e, fs)
      | (Inr _, script) \<Rightarrow> fs_copy from to script fs)"

definition lc_fetch :: "rstring \<Rightarrow> rstring \<Rightarrow> rstring \<Rightarrow> os_result list \<Rightarrow> (rstring \<Rightarrow> bytes option) \<Rightarrow>
    (io_error, u64) result \<times> (rstring \<Rightarrow> bytes option)" where
  "lc_fetch base remote dest = lc_copy (lc_resolve base remote) dest"

definition lc_store :: "rstring \<Rightarrow> rstring \<Rightarrow> rstring \<Rightarrow> os_result list \<Rightarrow> (rstring \<Rightarrow> bytes option) \<Rightarrow>
    (io_error, unit) result \<times> (rstring \<Rightarrow> bytes option)" where
  "lc_store base src remote script fs =
     (case lc_copy src (lc_resolve base remote) script fs of (r, fs') \<Rightarrow> (and_then r (\<lambda>_. Inr ()), fs'))"

section \<open>Connectors and their retries\<close>

datatype backend_error = Bk_Io io_error | Bk_Ssh rstring | Bk_Remote rstring | Bk_Auth

datatype connector_error = Ce_S3 backend_error | Ce_Sftp backend_error | Ce_Local backend_error

definition DEFAULT_MAX_ATTEMPTS :: u32 where
  "DEFAULT_MAX_ATTEMPTS = 3"

definition RETRY_BASE_DELAY :: nat where
  \<comment> \<open>milliseconds\<close>
  "RETRY_BASE_DELAY = 200"

record connector =
  ct_backend :: connector_backend
  ct_max_attempts :: u32

definition connector_wrap :: "connector_backend \<Rightarrow> connector" where
  "connector_wrap b = \<lparr>ct_backend = b, ct_max_attempts = DEFAULT_MAX_ATTEMPTS\<rparr>"

definition with_max_attempts :: "u32 \<Rightarrow> connector \<Rightarrow> connector" where
  "with_max_attempts attempts c = c\<lparr>ct_max_attempts := max attempts 1\<rparr>"

fun connector_kind :: "connector_backend \<Rightarrow> rstring" where
  "connector_kind (Be_Local _) = rstr ''local''"
| "connector_kind (Be_S3 _) = rstr ''s3''"
| "connector_kind (Be_Sftp _) = rstr ''sftp''"

fun backend_failed :: "connector_backend \<Rightarrow> backend_error \<Rightarrow> connector_error" where
  "backend_failed (Be_Local _) e = Ce_Local e"
| "backend_failed (Be_S3 _) e = Ce_S3 e"
| "backend_failed (Be_Sftp _) e = Ce_Sftp e"

text \<open>
  The loop \<^verbatim>\<open>for attempt in 1..=max_attempts\<close> of \<^verbatim>\<open>fetch\<close> and \<^verbatim>\<open>store\<close>, with the pauses it makes;
  \<open>None\<close> is the end of the loop without a return (\<^verbatim>\<open>unreachable!\<close>). \<open>op n\<close> is what attempt \<open>n\<close> returns.
  The pauses, in milliseconds, double without a bound; a \<^verbatim>\<open>Duration\<close> would overflow only after more than sixty
  failures, when the last pause alone exceeds the age of the universe.
\<close>

function retry_loop :: "(nat \<Rightarrow> ('e, 'a) result) \<Rightarrow> nat \<Rightarrow> nat \<Rightarrow> nat \<Rightarrow> nat list \<Rightarrow> ('e, 'a) result option \<times> nat list" where
  "retry_loop op attempt max_attempts delay pauses =
     (if attempt > max_attempts then (None, pauses)
      else case op attempt of
        Inr v \<Rightarrow> (Some (Inr v), pauses)
      | Inl e \<Rightarrow>
         if attempt < max_attempts
         then retry_loop op (attempt + 1) max_attempts (delay * 2) (pauses @ [delay])
         else (Some (Inl e), pauses))"
  by pat_completeness auto
termination
  by (relation "measure (\<lambda>(op, a, m, d, p). Suc m - a)") auto

declare retry_loop.simps [simp del]

definition connector_attempts :: "connector \<Rightarrow> (nat \<Rightarrow> (backend_error, 'a) result) \<Rightarrow>
    (connector_error, 'a) result option \<times> nat list" where
  "connector_attempts c op =
     retry_loop (\<lambda>n. map_err (backend_failed (ct_backend c)) (op n)) 1 (unat (ct_max_attempts c)) RETRY_BASE_DELAY []"

section \<open>Building a connector\<close>

definition connector_from_config :: "connector_config \<Rightarrow> (api_error, connector) result" where
  "connector_from_config cfg =
     (if cc_kind cfg = rstr ''s3'' then
        and_then (ok_or (api_bad_request (rstr ''S3 connector needs a bucket'')) (non_empty (cc_bucket cfg))) (\<lambda>bucket.
        Inr (with_max_attempts (cc_max_retries cfg) (connector_wrap (Be_S3 (s3_connect
          \<lparr>s3_bucket = bucket, s3_region = cc_region cfg, s3_endpoint = cc_endpoint cfg,
           s3_access_key = cc_access_key cfg, s3_secret_key = cc_secret_key cfg,
           s3_path_style = cc_path_style cfg\<rparr>)))))
      else if cc_kind cfg = rstr ''sftp'' then
        and_then (ok_or (api_bad_request (rstr ''SFTP connector needs a host'')) (non_empty (cc_host cfg))) (\<lambda>host.
        Inr (with_max_attempts (cc_max_retries cfg) (connector_wrap (Be_Sftp
          \<lparr>sf_host = host, sf_port = (if cc_port cfg = 0 then 22 else cc_port cfg),
           sf_user = unwrap_or [] (cc_user cfg), sf_password = cc_password cfg, sf_base_path = cc_base_path cfg\<rparr>))))
      else
        Inr (with_max_attempts (cc_max_retries cfg) (connector_wrap (Be_Local (unwrap_or (rstr ''/'') (cc_base_path cfg))))))"

definition connector_build :: "(connector_config, 'j) codec \<Rightarrow> 'j json_store \<Rightarrow> rstring \<Rightarrow> (api_error, connector) result" where
  "connector_build cd store cid =
     and_then (map_err api_of_store (js_get cd T_CONNECTORS cid store)) (\<lambda>found.
     and_then (ok_or (api_not_found (rstr ''connector '' @ quoted cid @ rstr '' not found'')) found) connector_from_config)"

section \<open>The retry loop\<close>

definition first_success :: "(nat \<Rightarrow> ('e, 'a) result) \<Rightarrow> nat \<Rightarrow> nat option" where
  "first_success op m = find (\<lambda>n. case op n of Inr _ \<Rightarrow> True | Inl _ \<Rightarrow> False) [1..<Suc m]"

definition pauses_before :: "nat \<Rightarrow> nat list" where
  "pauses_before k = map (\<lambda>i. RETRY_BASE_DELAY * 2 ^ i) [0..<k - 1]"

lemma retry_loop_from:
  assumes "1 \<le> a" "a \<le> m"
  shows "retry_loop op a m (RETRY_BASE_DELAY * 2 ^ (a - 1)) (pauses_before a) =
    (case find (\<lambda>n. case op n of Inr _ \<Rightarrow> True | Inl _ \<Rightarrow> False) [a..<Suc m] of
       Some k \<Rightarrow> (Some (op k), pauses_before k)
     | None \<Rightarrow> (Some (op m), pauses_before m))"
  using assms
proof (induction "m - a" arbitrary: a)
  case 0
  then have "a = m" by simp
  then show ?case by (simp add: retry_loop.simps [of op m] split: sum.splits)
next
  case (Suc n)
  then have a: "a < m" by simp
  have p: "pauses_before (Suc a) = pauses_before a @ [RETRY_BASE_DELAY * 2 ^ (a - 1)]"
    using Suc.prems(1) by (cases a) (simp_all add: pauses_before_def)
  have d: "RETRY_BASE_DELAY * 2 ^ (a - 1) * 2 = RETRY_BASE_DELAY * 2 ^ (Suc a - 1)"
    using Suc.prems(1) by (cases a) simp_all
  have u: "[a..<Suc m] = a # [Suc a..<Suc m]" using a by (simp add: upt_conv_Cons)
  show ?case
  proof (cases "op a")
    case (Inl e)
    then have "retry_loop op a m (RETRY_BASE_DELAY * 2 ^ (a - 1)) (pauses_before a) =
      retry_loop op (Suc a) m (RETRY_BASE_DELAY * 2 ^ (Suc a - 1)) (pauses_before (Suc a))"
      using a by (simp only: p d [symmetric]) (simp add: retry_loop.simps [of op a])
    with Suc.hyps(1) [of "Suc a"] Suc.hyps(2) a Inl show ?thesis by (simp add: u del: upt_Suc)
  next
    case (Inr v)
    with a show ?thesis by (simp add: retry_loop.simps [of op a] u del: upt_Suc)
  qed
qed

text \<open>C29: A connector operation always returns. It makes at least one attempt and at most the configured number,
  returns the first success, or the error of the last attempt when all fail, and pauses 200 ms, 400 ms,
  800 ms and so on between the attempts it makes.
\<close>

theorem connector_retries:
  "let c = with_max_attempts attempts c0; m = max (unat attempts) 1;
       op' = (\<lambda>n. map_err (backend_failed (ct_backend c0)) (op n))
   in connector_attempts c op =
     (case first_success op m of
        Some k \<Rightarrow> (Some (op' k), pauses_before k)
      | None \<Rightarrow> (Some (op' m), pauses_before m))"
proof -
  let ?m = "max (unat attempts) 1"
  have m: "unat (max attempts 1) = ?m"
    by (auto simp: max_def word_le_nat_alt)
  have f: "(case map_err h r of Inr _ \<Rightarrow> True | Inl _ \<Rightarrow> False) = (case r of Inr _ \<Rightarrow> True | Inl _ \<Rightarrow> False)"
    for h :: "backend_error \<Rightarrow> connector_error" and r :: "(backend_error, 'a) result"
    by (cases r) simp_all
  show ?thesis
    using retry_loop_from [of 1 ?m "\<lambda>n. map_err (backend_failed (ct_backend c0)) (op n)"]
    by (simp add: connector_attempts_def with_max_attempts_def m Let_def first_success_def f pauses_before_def
        del: upt_Suc split: option.split)
qed

section \<open>The local directory\<close>

lemma trim_slashes_relative: "\<not> path_absolute (trim_slashes remote)"
proof (cases "trim_slashes remote")
  case (Cons c cs)
  then have "c \<noteq> 47" unfolding trim_slashes_def by (metis (mono_tags, lifting) dropWhile_eq_Cons_conv)
  with Cons show ?thesis by (simp add: path_absolute_def str_prefix_def rstr_def)
qed (simp add: path_absolute_def str_prefix_def rstr_def)

lemma lc_resolve_below: "\<exists>rest. lc_resolve base remote = base @ rest"
  by (simp add: lc_resolve_def path_join_def trim_slashes_relative)

text \<open>A leading slash does not leave the base directory, a component \<^verbatim>\<open>..\<close> does.\<close>

lemma lc_resolve_parent: "lc_resolve (rstr ''/data'') (rstr ''/../etc/x'') = rstr ''/data/../etc/x''"
  by (simp add: lc_resolve_def path_join_def trim_slashes_def path_absolute_def str_prefix_def rstr_def)

text \<open>What is stored under a name in a local connector is fetched from it: with both copies successful the
  destination has the content of the source and the returned length; no file but the stored one and the
  destination changes.
\<close>

theorem local_store_fetch:
  assumes "lc_store base src remote script fs = (Inr (), fs1)"
    and "lc_fetch base remote dest script' fs1 = (Inr n, fs2)"
  shows "fs2 dest = fs src \<and> n = word_of_nat (length (the (fs src))) \<and> fs src \<noteq> None \<and>
    (\<forall>p. p \<noteq> dest \<longrightarrow> p \<noteq> lc_resolve base remote \<longrightarrow> fs2 p = fs p)"
  using assms
  by (auto simp: lc_store_def lc_fetch_def lc_copy_def fs_copy_def and_then_def
      split: prod.splits sum.splits option.splits)

theorem local_store_fetch_witness:
  "lc_store (rstr ''/s'') [97] [98] [] [[97] \<mapsto> [1, 2]] = (Inr (), [[97] \<mapsto> [1, 2], rstr ''/s/b'' \<mapsto> [1, 2]]) \<and>
   lc_fetch (rstr ''/s'') [98] [99] [] [[97] \<mapsto> [1, 2], rstr ''/s/b'' \<mapsto> [1, 2]] =
     (Inr 2, [[97] \<mapsto> [1, 2], rstr ''/s/b'' \<mapsto> [1, 2], [99] \<mapsto> [1, 2]]) \<and>
   [[97] \<mapsto> [1, 2], rstr ''/s/b'' \<mapsto> [1, 2], [99] \<mapsto> [1, 2 :: u8]] [99] = Some [1, 2]"
proof -
  have 1: "lc_store (rstr ''/s'') [97] [98] [] [[97] \<mapsto> [1, 2]] = (Inr (), [[97] \<mapsto> [1, 2], rstr ''/s/b'' \<mapsto> [1, 2]])"
    by (simp add: lc_store_def lc_copy_def fs_copy_def os_call_def lc_resolve_def path_join_def path_absolute_def
        str_prefix_def trim_slashes_def rstr_def)
  moreover have 2: "lc_fetch (rstr ''/s'') [98] [99] [] [[97] \<mapsto> [1, 2], rstr ''/s/b'' \<mapsto> [1, 2]] =
     (Inr 2, [[97] \<mapsto> [1, 2], rstr ''/s/b'' \<mapsto> [1, 2], [99] \<mapsto> [1, 2]])"
    by (simp add: lc_fetch_def lc_copy_def fs_copy_def os_call_def lc_resolve_def path_join_def path_absolute_def
        str_prefix_def trim_slashes_def rstr_def)
  moreover have "[[97] \<mapsto> [1, 2], rstr ''/s/b'' \<mapsto> [1, 2], [99] \<mapsto> [1, 2 :: u8]] [99] = [[97 :: nat] \<mapsto> [1, 2 :: u8]] [97]"
    using local_store_fetch [OF 1 2] by (rule conjunct1)
  ultimately show ?thesis by (intro conjI) simp_all
qed

end
