(* ===== verification/Node_Handler.thy ===== *)
theory Node_Handler
  imports Connector Responder_Session
begin

text \<open>
  \<^verbatim>\<open>crates/pesit-node/src/handler.rs\<close>: the application behind a server session. It authenticates
  partners, resolves virtual files to physical ones, opens the files of a transfer and keeps the
  transfer records. Its state is the document store, the table of active transfers and the
  cancellation flags; what a call learns from the clock, the file system, the generator of
  identifiers and the storage backends is a \<open>node_env\<close>, one for each call in turn.
\<close>

unbundle bit_operations_syntax

section \<open>UTF-8 with replacement\<close>

text \<open>\<^verbatim>\<open>String::from_utf8_lossy\<close>: a scalar value with its length, or the length of a rejected prefix.\<close>

definition utf8_cont :: "nat \<Rightarrow> nat \<Rightarrow> nat list \<Rightarrow> nat \<Rightarrow> bool" where
  "utf8_cont lo hi bs i \<longleftrightarrow> i < length bs \<and> lo \<le> bs ! i \<and> bs ! i \<le> hi"

definition utf8_next :: "nat list \<Rightarrow> nat option \<times> nat" where
  "utf8_next bs =
     (let b = hd bs; c = utf8_cont 0x80 0xBF bs; low = (\<lambda>i. bs ! i mod 64) in
      if b < 0x80 then (Some b, 1)
      else if 0xC2 \<le> b \<and> b \<le> 0xDF then
        (if c 1 then (Some (b mod 32 * 64 + low 1), 2) else (None, 1))
      else if 0xE0 \<le> b \<and> b \<le> 0xEF then
        (if utf8_cont (if b = 0xE0 then 0xA0 else 0x80) (if b = 0xED then 0x9F else 0xBF) bs 1
         then if c 2 then (Some (b mod 16 * 4096 + low 1 * 64 + low 2), 3) else (None, 2)
         else (None, 1))
      else if 0xF0 \<le> b \<and> b \<le> 0xF4 then
        (if utf8_cont (if b = 0xF0 then 0x90 else 0x80) (if b = 0xF4 then 0x8F else 0xBF) bs 1
         then if c 2
              then if c 3 then (Some (b mod 8 * 262144 + low 1 * 4096 + low 2 * 64 + low 3), 4) else (None, 3)
              else (None, 2)
         else (None, 1))
      else (None, 1))"

lemma utf8_next_length: "(c, n) = utf8_next bs \<Longrightarrow> 0 < n"
  by (auto simp: utf8_next_def Let_def split: if_splits)

function utf8_decode :: "nat list \<Rightarrow> rstring" where
  "utf8_decode bs =
     (if bs = [] then []
      else case utf8_next bs of (c, n) \<Rightarrow> (case c of Some x \<Rightarrow> x | None \<Rightarrow> 0xFFFD) # utf8_decode (drop n bs))"
  by pat_completeness auto
termination
  by (relation "measure length") (auto dest: utf8_next_length)

declare utf8_decode.simps [simp del]

definition from_utf8_lossy :: "bytes \<Rightarrow> rstring" where
  "from_utf8_lossy bs = utf8_decode (map unat bs)"

section \<open>Environment and state\<close>

record node_env =
  ne_uuid :: rstring
  ne_staging_uuid :: rstring
  ne_now_iso :: rstring
  ne_now_compact :: rstring
  ne_today :: rstring
  ne_now_time :: rstring
  ne_pesit_now :: rstring
  ne_instant :: nat
  ne_temp_dir :: rstring
  ne_metadata :: "rstring \<Rightarrow> (io_kind, u64) result"
  ne_modified :: "rstring \<Rightarrow> rstring option"
  ne_open :: "rstring \<Rightarrow> (io_kind, bytes) result"
  ne_script :: "os_result list"
  ne_disk :: "rstring \<Rightarrow> disk"
  ne_open_fault :: fault
  ne_clear_fault :: fault
  ne_from_slice :: "bytes \<Rightarrow> memory_checkpoints option"
  ne_sha256 :: "rstring \<Rightarrow> rstring option"
  ne_attempt :: "connector_backend \<Rightarrow> rstring \<Rightarrow> rstring \<Rightarrow> nat \<Rightarrow> (backend_error, unit) result"
  ne_io_text :: "io_error \<Rightarrow> rstring"
  ne_connector_text :: "connector_error \<Rightarrow> rstring"

record 'j node_serde =
  sd_partner :: "(partner, 'j) codec"
  sd_file :: "(virtual_file, 'j) codec"
  sd_record :: "(transfer_record, 'j) codec"
  sd_connector :: "(connector_config, 'j) codec"

record active =
  ac_record_id :: rstring
  ac_file_size :: "u64 option"
  ac_last_update :: nat
  ac_last_bytes :: u64
  ac_last_sync :: u32
  ac_connector_upload :: "(rstring \<times> rstring \<times> rstring) option"
  ac_connector_temp :: "rstring option"

record 'j pw_handler =
  ph_store :: "'j json_store"
  ph_server :: pesit_server_config
  ph_checkpoint_dir :: rstring
  ph_node_id :: rstring
  ph_cancels :: "rstring \<Rightarrow> bool option"
  ph_active :: "u64 \<Rightarrow> active option"
  ph_next_handle :: u64
  ph_removed :: "rstring list"
  ph_calls :: nat

text \<open>\<open>ph_removed\<close> are the staging files the handler deleted, \<open>ph_calls\<close> counts its calls.\<close>

definition pw_new :: "'j json_store \<Rightarrow> pesit_server_config \<Rightarrow> rstring \<Rightarrow> rstring \<Rightarrow> (rstring \<Rightarrow> bool option) \<Rightarrow> 'j pw_handler" where
  "pw_new store server checkpoint_dir node_id cancels =
     \<lparr>ph_store = store, ph_server = server, ph_checkpoint_dir = checkpoint_dir, ph_node_id = node_id,
      ph_cancels = cancels, ph_active = (\<lambda>_. None), ph_next_handle = 1, ph_removed = [], ph_calls = 0\<rparr>"

text \<open>Operations of the handler: a result that may be a refusal, and the state they leave.\<close>

type_synonym ('h, 'a) hact = "'h \<Rightarrow> (refusal, 'a) result \<times> 'h"

definition h_return :: "'a \<Rightarrow> ('h, 'a) hact" where
  "h_return x h = (Inr x, h)"

definition h_refuse :: "diagnostic \<Rightarrow> rstring \<Rightarrow> ('h, 'a) hact" where
  "h_refuse diag txt h = (Inl (refusal_with_message diag txt), h)"

definition h_bind :: "('h, 'a) hact \<Rightarrow> ('a \<Rightarrow> ('h, 'b) hact) \<Rightarrow> ('h, 'b) hact" where
  "h_bind m f h = (case m h of (Inl r, h') \<Rightarrow> (Inl r, h') | (Inr x, h') \<Rightarrow> f x h')"

definition h_lift :: "(refusal, 'a) result \<Rightarrow> ('h, 'a) hact" where
  "h_lift r h = (r, h)"

definition h_get :: "('h \<Rightarrow> 'a) \<Rightarrow> ('h, 'a) hact" where
  "h_get f h = (Inr (f h), h)"

definition h_modify :: "('h \<Rightarrow> 'h) \<Rightarrow> ('h, unit) hact" where
  "h_modify f h = (Inr (), f h)"

section \<open>Cancellation\<close>

definition cancel_register :: "rstring \<Rightarrow> 'j pw_handler \<Rightarrow> 'j pw_handler" where
  "cancel_register i h = h\<lparr>ph_cancels := (ph_cancels h)(i \<mapsto> False)\<rparr>"

definition cancel_remove :: "rstring \<Rightarrow> 'j pw_handler \<Rightarrow> 'j pw_handler" where
  "cancel_remove i h = h\<lparr>ph_cancels := (ph_cancels h)(i := None)\<rparr>"

definition cancel_request :: "bool \<Rightarrow> rstring \<Rightarrow> 'j pw_handler \<Rightarrow> bool \<times> 'j pw_handler" where
  \<comment> \<open>\<open>listening\<close>: the data phase has subscribed to the flag; sending fails and leaves the flag without a receiver\<close>
  "cancel_request listening i h =
     (case ph_cancels h i of
        None \<Rightarrow> (False, h)
      | Some _ \<Rightarrow> if listening then (True, h\<lparr>ph_cancels := (ph_cancels h)(i \<mapsto> True)\<rparr>) else (False, h))"

section \<open>Helpers of the handler\<close>

definition io_refusal :: "node_env \<Rightarrow> io_error \<Rightarrow> rstring \<Rightarrow> refusal" where
  "io_refusal env e what =
     refusal_with_message
       (case e of Io_Kind Io_NotFound \<Rightarrow> D_FILE_NOT_FOUND | Io_Kind Io_PermissionDenied \<Rightarrow> D_CANNOT_OPEN
          | _ \<Rightarrow> D_SYSTEM_ERROR)
       (what @ rstr '': '' @ ne_io_text env e)"

definition pw_partner :: "'j node_serde \<Rightarrow> rstring \<Rightarrow> 'j pw_handler \<Rightarrow> partner option" where
  "pw_partner sd i h = (case js_get (sd_partner sd) T_PARTNERS i (ph_store h) of Inr r \<Rightarrow> r | Inl _ \<Rightarrow> None)"

definition pw_virtual_file :: "'j node_serde \<Rightarrow> rstring \<Rightarrow> 'j pw_handler \<Rightarrow> virtual_file option" where
  "pw_virtual_file sd i h = (case js_get (sd_file sd) T_FILES i (ph_store h) of Inr r \<Rightarrow> r | Inl _ \<Rightarrow> None)"

definition checkpoint_path :: "rstring \<Rightarrow> 'j pw_handler \<Rightarrow> rstring" where
  "checkpoint_path key h =
     path_join (path_join (ph_checkpoint_dir h) (ps_server_id (ph_server h))) (key @ rstr ''.json'')"

definition pw_checkpoints :: "node_env \<Rightarrow> rstring \<Rightarrow> 'j pw_handler \<Rightarrow> (io_kind, file_checkpoints) result" where
  "pw_checkpoints env key h = fc_open (ne_from_slice env) (ne_open_fault env) (ne_disk env (checkpoint_path key h))"

definition counter_transfer_id :: "u64 \<Rightarrow> u32" where
  \<comment> \<open>\<^verbatim>\<open>(n % 0x00FF_FFFF).max(1) as u32\<close>\<close>
  "counter_transfer_id n = ucast (max (n mod 0x00FFFFFF) 1)"

definition pesit_transfer_id :: "u32 \<Rightarrow> ('j pw_handler, u32) hact" where
  "pesit_transfer_id requested h =
     (if requested \<noteq> 0 then (Inr requested, h)
      else case js_next_counter (rstr ''pesit_transfer_id'') (ph_store h) of
        (r, store) \<Rightarrow> (Inr (counter_transfer_id (case r of Inr n \<Rightarrow> n | Inl _ \<Rightarrow> 1)), h\<lparr>ph_store := store\<rparr>))"

definition restart_key :: "session_info \<Rightarrow> file_spec \<Rightarrow> u32 \<Rightarrow> rstring" where
  "restart_key session file tid =
     map (\<lambda>c. if is_ascii_alphanumeric c \<or> c = 95 \<or> c = 45 then c else 95)
       (si_requester session @ rstr ''_'' @ fs_file_name file @ rstr ''_'' @ nat_string (unat tid))"

definition interrupted_record :: "'j node_serde \<Rightarrow> rstring \<Rightarrow> rstring \<Rightarrow> u32 \<Rightarrow> 'j pw_handler \<Rightarrow> transfer_record option" where
  "interrupted_record sd partner_id file tid h =
     (case js_list (sd_record sd) T_TRANSFERS (ph_store h) of
        Inl _ \<Rightarrow> None
      | Inr records \<Rightarrow>
         find (\<lambda>r. tr_status r = Ts_Interrupted \<and> tr_pesit_transfer_id r = tid \<and> tr_partner_id r = Some partner_id \<and>
            tr_filename r = Some file \<and> tr_server_id r = Some (ps_server_id (ph_server h))) (rev records))"

definition pattern_values :: "node_env \<Rightarrow> session_info \<Rightarrow> file_spec \<Rightarrow> u32 \<Rightarrow> rstring \<Rightarrow> (rstring \<times> rstring) list" where
  "pattern_values env session file tid server_id =
     [(rstr ''virtualFile'', fs_file_name file), (rstr ''transferId'', nat_string (unat tid)),
      (rstr ''timestamp'', ne_now_compact env), (rstr ''date'', ne_today env), (rstr ''time'', ne_now_time env),
      (rstr ''partnerId'', si_requester session), (rstr ''serverId'', server_id)]"

definition receive_path :: "node_env \<Rightarrow> virtual_file \<Rightarrow> session_info \<Rightarrow> file_spec \<Rightarrow> u32 \<Rightarrow> 'j pw_handler \<Rightarrow> rstring" where
  "receive_path env vf session file tid h =
     (let dir = (case non_empty (vf_receive_directory vf) of Some d \<Rightarrow> d | None \<Rightarrow> ps_receive_directory (ph_server h));
          pattern = (if vf_receive_filename_pattern vf = [] then rstr ''${virtualFile}_${timestamp}''
                     else vf_receive_filename_pattern vf);
          name = resolve_placeholders pattern (pattern_values env session file tid (ps_server_id (ph_server h)))
      in path_join dir name)"

definition connector_key :: "node_env \<Rightarrow> virtual_file \<Rightarrow> session_info \<Rightarrow> file_spec \<Rightarrow> u32 \<Rightarrow> rstring \<Rightarrow> 'j pw_handler \<Rightarrow> rstring" where
  "connector_key env vf session file tid fallback h =
     (case non_empty (vf_connector_path vf) of
        None \<Rightarrow> fallback
      | Some pattern \<Rightarrow>
         resolve_placeholders pattern (pattern_values env session file tid (ps_server_id (ph_server h))))"

definition staging_path :: "node_env \<Rightarrow> rstring \<Rightarrow> rstring" where
  "staging_path env name =
     (let dir = path_join (ne_temp_dir env) (rstr ''pesitwizard-staging'');
          safe = map (\<lambda>c. if is_ascii_alphanumeric c \<or> c = 46 \<or> c = 45 \<or> c = 95 then c else 95) name
      in path_join dir (ne_staging_uuid env @ rstr ''-'' @ safe))"

definition new_record :: "node_env \<Rightarrow> session_info \<Rightarrow> transfer_direction \<Rightarrow> rstring \<Rightarrow> file_spec \<Rightarrow> u32 \<Rightarrow> rstring option \<Rightarrow>
    'j pw_handler \<Rightarrow> transfer_record" where
  "new_record env session direction partner_id file tid local_path h =
     transfer_record_default\<lparr>tr_transfer_id := ne_uuid env, tr_pesit_transfer_id := tid,
       tr_session_id := Some (si_id session), tr_server_id := Some (ps_server_id (ph_server h)),
       tr_node_id := Some (ph_node_id h), tr_direction := Some direction, tr_status := Ts_Initiated,
       tr_partner_id := Some partner_id, tr_filename := Some (fs_file_name file), tr_local_path := local_path,
       tr_file_size := (if fs_max_reservation file > 0 then Some (fs_max_reservation file * 1024) else None),
       tr_started_at := Some (ne_now_iso env), tr_updated_at := Some (ne_now_iso env),
       tr_remote_address := Some (si_remote_addr session), tr_label := non_empty (fs_label file),
       tr_free_message := non_empty (fs_free_message file)\<rparr>"

definition pw_register :: "'j node_serde \<Rightarrow> node_env \<Rightarrow> transfer_record \<Rightarrow> ('j pw_handler, u64) hact" where
  "pw_register sd env r h =
     (let handle = ph_next_handle h; h = h\<lparr>ph_next_handle := handle + 1\<rparr> in
      case js_put (sd_record sd) T_TRANSFERS (tr_transfer_id r) r (ph_store h) of
        (Inl e, store) \<Rightarrow> (Inl (refusal_with_message D_SYSTEM_ERROR (store_error_text e)), h\<lparr>ph_store := store\<rparr>)
      | (Inr _, store) \<Rightarrow>
         (Inr handle, h\<lparr>ph_store := store, ph_active := (ph_active h)(handle \<mapsto>
           \<lparr>ac_record_id = tr_transfer_id r, ac_file_size = tr_file_size r, ac_last_update = ne_instant env,
            ac_last_bytes = 0, ac_last_sync = 0, ac_connector_upload = None, ac_connector_temp = None\<rparr>)\<rparr>))"

definition update_record :: "'j node_serde \<Rightarrow> node_env \<Rightarrow> rstring \<Rightarrow> (transfer_record \<Rightarrow> transfer_record) \<Rightarrow>
    'j pw_handler \<Rightarrow> 'j pw_handler" where
  "update_record sd env record_id f h =
     h\<lparr>ph_store := snd (js_update (sd_record sd) T_TRANSFERS record_id
        (\<lambda>r. (f r)\<lparr>tr_updated_at := Some (ne_now_iso env)\<rparr>) (ph_store h))\<rparr>"

definition set_active :: "u64 \<Rightarrow> (active \<Rightarrow> active) \<Rightarrow> 'j pw_handler \<Rightarrow> 'j pw_handler" where
  "set_active handle f h =
     (case ph_active h handle of None \<Rightarrow> h | Some a \<Rightarrow> h\<lparr>ph_active := (ph_active h)(handle \<mapsto> f a)\<rparr>)"

definition stage_attempts :: "'j node_serde \<Rightarrow> node_env \<Rightarrow> rstring \<Rightarrow> rstring \<Rightarrow> rstring \<Rightarrow> 'j pw_handler \<Rightarrow>
    (api_error + connector_error, unit) result" where
  \<comment> \<open>build the connector, then its fetch or store; the loop of attempts always returns\<close>
  "stage_attempts sd env cid remote path h =
     and_then (map_err Inl (connector_build (sd_connector sd) (ph_store h) cid)) (\<lambda>c.
     case fst (connector_attempts c (ne_attempt env (ct_backend c) remote path)) of
       Some r \<Rightarrow> map_err Inr r
     | None \<Rightarrow> Inr ())"

definition stage_fetch :: "'j node_serde \<Rightarrow> node_env \<Rightarrow> rstring \<Rightarrow> rstring \<Rightarrow> rstring \<Rightarrow> ('j pw_handler, unit) hact" where
  "stage_fetch sd env cid remote dest h =
     (map_err (\<lambda>e. case e of
         Inl a \<Rightarrow> refusal_with_message D_CANNOT_OPEN (rstr ''connector '' @ quoted cid @ rstr '': '' @ ap_message a)
       | Inr c \<Rightarrow> refusal_with_message D_IO_ERROR
           (rstr ''connector fetch '' @ quoted remote @ rstr '': '' @ ne_connector_text env c))
       (stage_attempts sd env cid remote dest h), h)"

definition stage_store :: "'j node_serde \<Rightarrow> node_env \<Rightarrow> rstring \<Rightarrow> rstring \<Rightarrow> rstring \<Rightarrow> 'j pw_handler \<Rightarrow> (rstring, unit) result" where
  "stage_store sd env cid remote src h =
     map_err (\<lambda>e. case e of Inl a \<Rightarrow> ap_message a | Inr c \<Rightarrow> ne_connector_text env c)
       (stage_attempts sd env cid remote src h)"

definition check_partner :: "'j node_serde \<Rightarrow> session_info \<Rightarrow> file_spec \<Rightarrow> bool \<Rightarrow> ('j pw_handler, partner) hact" where
  "check_partner sd session file writing h =
     (case pw_partner sd (si_requester session) h of
        None \<Rightarrow> h_refuse D_CALLER_UNKNOWN (rstr ''partner '' @ quoted (si_requester session) @ rstr '' not configured'') h
      | Some p \<Rightarrow>
         if \<not> (if writing then can_write (pt_access_type p) else can_read (pt_access_type p)) then
           h_refuse D_TRANSFER_REFUSED (rstr ''partner '' @ quoted (pt_id p) @ rstr '' is not allowed to '' @
             (if writing then rstr ''send'' else rstr ''receive'')) h
         else if \<not> can_access_file p (fs_file_name file) then
           h_refuse D_TRANSFER_REFUSED (rstr ''partner '' @ quoted (pt_id p) @ rstr '' may not access '' @
             quoted (fs_file_name file)) h
         else (Inr p, h))"

section \<open>Authentication\<close>

definition access_allowed :: "access_type \<Rightarrow> partner_access \<Rightarrow> bool" where
  "access_allowed requested granted =
     (case requested of
        Access_Write \<Rightarrow> can_write granted
      | Access_Read \<Rightarrow> can_read granted
      | Access_Mixed \<Rightarrow> can_read granted \<or> can_write granted)"

definition server_sync :: "pesit_server_config \<Rightarrow> sync_option" where
  "server_sync server =
     (if ps_sync_points_enabled server
      then \<lparr>interval_kb = ps_sync_interval_kb server, so_window = ps_sync_window server\<rparr>
      else SYNC_NONE)"

definition pw_authenticate :: "'j node_serde \<Rightarrow> connect_request \<Rightarrow> ('j pw_handler, connect_accept) hact" where
  "pw_authenticate sd req h =
     (case pw_partner sd (cr_requester req) h of
        None \<Rightarrow> h_refuse D_CALLER_UNKNOWN (rstr ''partner '' @ quoted (cr_requester req) @ rstr '' not configured'') h
      | Some p \<Rightarrow>
         if \<not> pt_enabled p then
           h_refuse D_CALLER_NOT_AUTHORISED (rstr ''partner '' @ quoted (pt_id p) @ rstr '' is disabled'') h
         else if (case non_empty (pt_password p) of None \<Rightarrow> False
                  | Some expected \<Rightarrow> str_trim (unwrap_or [] (cr_password req)) \<noteq> expected) then
           h_refuse D_CALLER_NOT_AUTHORISED (rstr ''invalid password for partner '' @ quoted (pt_id p)) h
         else if (case (cr_preconnect req, non_empty (pt_preconnect_password p)) of
                    (Some (_, pwd), Some expected) \<Rightarrow> str_trim pwd \<noteq> expected
                  | _ \<Rightarrow> False) then
           h_refuse D_CALLER_NOT_AUTHORISED (rstr ''invalid pre-connection password for partner '' @ quoted (pt_id p)) h
         else if \<not> access_allowed (cr_access req) (pt_access_type p) then
           h_refuse D_CALLER_NOT_AUTHORISED (rstr ''partner '' @ quoted (pt_id p) @ rstr '' not authorised for '' @
             (case cr_access req of Access_Write \<Rightarrow> rstr ''Write'' | Access_Read \<Rightarrow> rstr ''Read'' | Access_Mixed \<Rightarrow> rstr ''Mixed'') @
             rstr '' access'') h
         else
           (Inr \<lparr>ca_sync = server_sync (ph_server h), ca_resync = ps_resync_enabled (ph_server h),
              ca_compression = unwrap_or Comp_None (compression_from_code (ps_compression (ph_server h))),
              ca_multi_article = True, ca_max_entity = ps_max_entity_size (ph_server h), ca_free_message = None\<rparr>, h))"

section \<open>A partner sends a file\<close>

definition ne_exists :: "'x node_env_scheme \<Rightarrow> rstring \<Rightarrow> bool" where
  "ne_exists env p = (case ne_metadata env p of Inr _ \<Rightarrow> True | Inl _ \<Rightarrow> False)"

definition ne_content :: "'x node_env_scheme \<Rightarrow> rstring \<Rightarrow> bytes option" where
  "ne_content env p = (case ne_open env p of Inr d \<Rightarrow> Some d | Inl _ \<Rightarrow> None)"

text \<open>The path of the received file and the checkpoint to restart from.\<close>

definition create_target :: "node_env \<Rightarrow> virtual_file \<Rightarrow> session_info \<Rightarrow> file_spec \<Rightarrow> u32 \<Rightarrow> transfer_record option \<Rightarrow>
    file_checkpoints \<Rightarrow> 'j pw_handler \<Rightarrow> (refusal, rstring \<times> checkpoint option \<times> file_checkpoints) result" where
  "create_target env vf session file tid previous cps h =
     (case previous of
        Some prev \<Rightarrow>
          let path = (case tr_local_path prev of Some p \<Rightarrow> p | None \<Rightarrow> receive_path env vf session file tid h);
              restart = (if ne_exists env (part_path path) then fc_last cps else None)
          in Inr (path, restart, if restart = None then snd (fc_clear (ne_clear_fault env) cps) else cps)
      | None \<Rightarrow>
          let cps = snd (fc_clear (ne_clear_fault env) cps);
              path = receive_path env vf session file tid h
          in if ne_exists env path \<and> \<not> vf_overwrite vf
             then Inl (refusal_with_message D_FILE_EXISTS (path @ rstr '' already exists''))
             else Inr (path, None, cps))"

definition over_quota :: "virtual_file \<Rightarrow> file_spec \<Rightarrow> bool" where
  "over_quota vf file \<longleftrightarrow> vf_max_file_size vf > 0 \<and> fs_max_reservation file * 1024 > vf_max_file_size vf"

definition receivable_file :: "'j node_serde \<Rightarrow> file_spec \<Rightarrow> ('j pw_handler, virtual_file) hact" where
  "receivable_file sd file h =
     (case pw_virtual_file sd (fs_file_name file) h of
        None \<Rightarrow> h_refuse D_TRANSFER_REFUSED
          (rstr ''virtual file '' @ quoted (fs_file_name file) @ rstr '' not configured'') h
      | Some vf \<Rightarrow>
         if \<not> vf_enabled vf \<or> \<not> can_receive vf then
           h_refuse D_TRANSFER_REFUSED
             (rstr ''virtual file '' @ quoted (vf_id vf) @ rstr '' does not accept incoming transfers'') h
         else if over_quota vf file then
           h_refuse D_DISK_QUOTA (rstr ''file larger than the '' @ nat_string (unat (vf_max_file_size vf)) @
             rstr '' bytes allowed for '' @ quoted (vf_id vf)) h
         else (Inr vf, h))"

definition open_sink :: "node_env \<Rightarrow> rstring \<Rightarrow> record_format \<Rightarrow> checkpoint option \<Rightarrow> (refusal, file_sink) result" where
  "open_sink env path format restart =
     (case sink_create (ne_content env (part_path path)) (ne_content env path) format (map_option position_of restart)
             (ne_script env) of
        (Inl e, _) \<Rightarrow> Inl (io_refusal env e (rstr ''cannot create file''))
      | (Inr _, k) \<Rightarrow> Inr k)"

definition create_record :: "node_env \<Rightarrow> session_info \<Rightarrow> rstring \<Rightarrow> file_spec \<Rightarrow> u32 \<Rightarrow> rstring \<Rightarrow> transfer_record option \<Rightarrow>
    checkpoint option \<Rightarrow> 'j pw_handler \<Rightarrow> transfer_record" where
  "create_record env session partner_id file tid path previous restart h =
     (let r = (new_record env session Td_Receive partner_id file tid (Some path) h)
                \<lparr>tr_parent_transfer_id := map_option tr_transfer_id previous\<rparr>
      in case restart of
           None \<Rightarrow> r
         | Some cp \<Rightarrow> r\<lparr>tr_bytes_transferred := cp_data_bytes cp, tr_last_sync_point := cp_sync cp,
             tr_bytes_at_last_sync_point := cp_data_bytes cp\<rparr>)"

definition pw_create :: "'j node_serde \<Rightarrow> node_env \<Rightarrow> session_info \<Rightarrow> file_spec \<Rightarrow>
    ('j pw_handler, (file_sink, file_checkpoints) create_accept) hact" where
  "pw_create sd env session file =
     h_bind (check_partner sd session file True) (\<lambda>p.
     h_bind (receivable_file sd file) (\<lambda>vf.
     h_bind (pesit_transfer_id (fs_transfer_id file)) (\<lambda>tid.
     h_bind (h_get (pw_checkpoints env (restart_key session file tid))) (\<lambda>opened.
     h_bind (h_lift (map_err (\<lambda>e. io_refusal env (Io_Kind e) (rstr ''checkpoint store'')) opened)) (\<lambda>cps.
     h_bind (h_get (\<lambda>h. if fs_restarted file then interrupted_record sd (pt_id p) (fs_file_name file) tid h else None)) (\<lambda>previous.
     h_bind (h_get (create_target env vf session file tid previous cps)) (\<lambda>target.
     h_bind (h_lift target) (\<lambda>(path, restart, cps).
     let connector = non_empty (vf_connector vf);
         path = (if connector = None then path
                 else staging_path env (rstr ''recv-'' @ vf_id vf @ rstr ''-'' @ nat_string (unat tid)));
         restart = (if connector = None then restart else None) in
     h_bind (h_lift (open_sink env path (vf_format vf) restart)) (\<lambda>k.
     h_bind (h_get (create_record env session (pt_id p) file tid path previous restart)) (\<lambda>r.
     h_bind (pw_register sd env r) (\<lambda>handle.
     h_bind (h_modify (\<lambda>h. case connector of
         None \<Rightarrow> h
       | Some cid \<Rightarrow>
          let remote = connector_key env vf session file tid (unwrap_or (vf_id vf) (path_file_name path)) h
          in set_active handle (\<lambda>a. a\<lparr>ac_connector_upload := Some (cid, remote, path)\<rparr>) h)) (\<lambda>_.
     h_bind (h_modify (cancel_register (tr_transfer_id r))) (\<lambda>_.
     h_return \<lparr>cra_sink = sink_with_ebcdic (fs_data_code file = Some 1 \<or> vf_ebcdic vf) k, cra_checkpoints = cps,
       cra_transfer_id = Some tid, cra_restart = restart, cra_max_article = unat (vf_record_length vf),
       cra_handle = handle, cra_free_message = None\<rparr>)))))))))))))"

section \<open>A partner reads a file\<close>

definition sendable_file :: "'j node_serde \<Rightarrow> file_spec \<Rightarrow> ('j pw_handler, virtual_file) hact" where
  "sendable_file sd file h =
     (case pw_virtual_file sd (fs_file_name file) h of
        None \<Rightarrow> h_refuse D_FILE_NOT_FOUND
          (rstr ''virtual file '' @ quoted (fs_file_name file) @ rstr '' not configured'') h
      | Some vf \<Rightarrow>
         if \<not> vf_enabled vf \<or> \<not> can_send vf then
           h_refuse D_TRANSFER_REFUSED (rstr ''virtual file '' @ quoted (vf_id vf) @ rstr '' cannot be read'') h
         else (Inr vf, h))"

definition select_path :: "'j node_serde \<Rightarrow> node_env \<Rightarrow> virtual_file \<Rightarrow> session_info \<Rightarrow> file_spec \<Rightarrow> u32 \<Rightarrow>
    ('j pw_handler, rstring) hact" where
  "select_path sd env vf session file tid h =
     (case non_empty (vf_connector vf) of
        Some cid \<Rightarrow>
          let temp = staging_path env (rstr ''send-'' @ vf_id vf @ rstr ''-'' @ nat_string (unat tid));
              remote = connector_key env vf session file tid (vf_id vf) h
          in h_bind (stage_fetch sd env cid remote temp) (\<lambda>_. h_return temp) h
      | None \<Rightarrow>
          (Inr (case non_empty (vf_send_file vf) of
                  Some p \<Rightarrow> p
                | None \<Rightarrow> path_join (ps_send_directory (ph_server h)) (vf_id vf)), h))"

definition div_ceil :: "u64 \<Rightarrow> u64 \<Rightarrow> u64" where
  "div_ceil a b = a div b + (if a mod b = 0 then 0 else 1)"

definition select_spec :: "node_env \<Rightarrow> virtual_file \<Rightarrow> file_spec \<Rightarrow> u32 \<Rightarrow> rstring \<Rightarrow> u64 \<Rightarrow> file_spec" where
  "select_spec env vf file tid path size' =
     (let s = file\<lparr>fs_transfer_id := tid,
            fs_file_type := (if fs_file_type file \<noteq> 0 then fs_file_type file else ucast (vf_file_type vf)),
            fs_article_format := (if vf_record_format vf AND 0x80 \<noteq> 0 then Format_Variable else Format_Fixed),
            fs_article_length := ucast (min (vf_record_length vf) 0xFFFF)\<rparr>;
          s = (if vf_ebcdic vf then s\<lparr>fs_data_code := Some 1\<rparr> else s)
      in s\<lparr>fs_organisation := Some 0, fs_max_reservation := div_ceil size' 1024, fs_reservation_unit := Some 0,
           fs_creation_date := Some (unwrap_or (ne_pesit_now env) (ne_modified env path)),
           fs_label := map_option (take 80) (non_empty (vf_description vf))\<rparr>)"

definition pw_select :: "'j node_serde \<Rightarrow> node_env \<Rightarrow> session_info \<Rightarrow> file_spec \<Rightarrow> requested_attributes \<Rightarrow>
    ('j pw_handler, (file_source, file_checkpoints) select_accept) hact" where
  "pw_select sd env session file attrs =
     h_bind (check_partner sd session file False) (\<lambda>p.
     h_bind (sendable_file sd file) (\<lambda>vf.
     h_bind (pesit_transfer_id (fs_transfer_id file)) (\<lambda>tid.
     h_bind (select_path sd env vf session file tid) (\<lambda>path.
     h_bind (h_lift (map_err (\<lambda>e. io_refusal env (Io_Kind e) path) (ne_metadata env path))) (\<lambda>size'.
     h_bind (h_lift (map_err (\<lambda>e. io_refusal env e (rstr ''cannot open file''))
       (source_open (ne_open env path) (vf_format vf) (unat (vf_record_length vf)) (ne_script env)))) (\<lambda>source.
     h_bind (h_get (pw_checkpoints env (restart_key session file tid))) (\<lambda>opened.
     h_bind (h_lift (map_err (\<lambda>e. io_refusal env (Io_Kind e) (rstr ''checkpoint store'')) opened)) (\<lambda>cps.
     let cps = (if \<not> fs_restarted file then snd (fc_clear (ne_clear_fault env) cps) else cps) in
     h_bind (h_get (\<lambda>h. (new_record env session Td_Send (pt_id p) file tid (Some path) h)\<lparr>tr_file_size := Some size'\<rparr>)) (\<lambda>r.
     h_bind (pw_register sd env r) (\<lambda>handle.
     h_bind (h_modify (\<lambda>h. if non_empty (vf_connector vf) = None then h
         else set_active handle (\<lambda>a. a\<lparr>ac_connector_temp := Some path\<rparr>) h)) (\<lambda>_.
     h_bind (h_modify (cancel_register (tr_transfer_id r))) (\<lambda>_.
     h_return \<lparr>sa_source = source_with_ebcdic (vf_ebcdic vf) source, sa_checkpoints = cps,
       sa_spec = select_spec env vf file tid path size', sa_handle = handle\<rparr>))))))))))))"

section \<open>Messages\<close>

definition pw_message :: "'j node_serde \<Rightarrow> node_env \<Rightarrow> session_info \<Rightarrow> file_spec \<Rightarrow> bytes \<Rightarrow> bool \<Rightarrow>
    ('j pw_handler, bytes option) hact" where
  "pw_message sd env session file message expects_reply h =
     (let r = (new_record env session Td_Message (si_requester session) file (fs_transfer_id file) None h)
                \<lparr>tr_status := Ts_Completed, tr_bytes_transferred := word_of_nat (length message),
                 tr_completed_at := Some (ne_now_iso env), tr_metadata := Some (from_utf8_lossy message)\<rparr>;
          store = snd (js_put (sd_record sd) T_TRANSFERS (tr_transfer_id r) r (ph_store h))
      in (Inr (if expects_reply then Some (str_bytes (rstr ''OK'')) else None), h\<lparr>ph_store := store\<rparr>))"

section \<open>Events of a transfer\<close>

definition saturating_mul :: "u64 \<Rightarrow> u64 \<Rightarrow> u64" where
  "saturating_mul a b = (if unat a * unat b < 2 ^ 64 then a * b else - 1)"

definition saturating_sub :: "u64 \<Rightarrow> u64 \<Rightarrow> u64" where
  "saturating_sub a b = (if b \<le> a then a - b else 0)"

definition apply_progress :: "progress \<Rightarrow> u64 option \<Rightarrow> bool \<Rightarrow> transfer_record \<Rightarrow> transfer_record" where
  "apply_progress p whole sync_changed r =
     (let r = r\<lparr>tr_status := Ts_InProgress, tr_bytes_transferred := pg_data_bytes p\<rparr>;
          r = (case whole of
                 Some t \<Rightarrow>
                   if t > 0
                   then r\<lparr>tr_progress_percent := ucast (min (saturating_mul (pg_data_bytes p) 100 div t) 100),
                          tr_file_size := Some t\<rparr>
                   else r
               | None \<Rightarrow> r)
      in if sync_changed
         then r\<lparr>tr_last_sync_point := pg_sync p, tr_bytes_at_last_sync_point := pg_data_bytes p\<rparr>
         else r)"

definition started_record :: "u32 \<Rightarrow> checkpoint \<Rightarrow> transfer_record \<Rightarrow> transfer_record" where
  "started_record transfer_id start r =
     r\<lparr>tr_status := Ts_InProgress, tr_pesit_transfer_id := transfer_id, tr_bytes_transferred := cp_data_bytes start,
       tr_last_sync_point := cp_sync start, tr_bytes_at_last_sync_point := cp_data_bytes start\<rparr>"

definition ended_record :: "rstring \<Rightarrow> data_result \<Rightarrow> diagnostic \<Rightarrow> rstring option \<Rightarrow> transfer_record \<Rightarrow> transfer_record" where
  "ended_record now d diag checksum r =
     (let r = r\<lparr>tr_bytes_transferred := dr_data_bytes d, tr_completed_at := Some now, tr_last_sync_point := dr_last_sync d\<rparr>;
          failed = (\<lambda>g. r\<lparr>tr_status := Ts_Failed, tr_error_code := Some g, tr_error_message := Some (Et_Diag g)\<rparr>)
      in case dr_end d of
           Completed \<Rightarrow>
             if diag_is_ok diag
             then r\<lparr>tr_status := Ts_Completed, tr_progress_percent := 100,
                    tr_file_size := (case tr_file_size r of Some s \<Rightarrow> if s > 0 then Some s else Some (dr_data_bytes d)
                                     | None \<Rightarrow> Some (dr_data_bytes d)),
                    tr_checksum := checksum\<rparr>
             else failed diag
         | EndedWithError g \<Rightarrow> failed g
         | Interrupted code g by_peer \<Rightarrow>
             r\<lparr>tr_status := (if by_peer then Ts_Interrupted else Ts_Cancelled), tr_error_code := Some g,
               tr_error_message := Some (Et_Ended g code by_peer)\<rparr>)"

definition failed_record :: "rstring \<Rightarrow> session_error \<Rightarrow> transfer_record \<Rightarrow> transfer_record" where
  "failed_record now e r =
     r\<lparr>tr_status := (if tr_last_sync_point r > 0 then Ts_Interrupted else Ts_Failed), tr_completed_at := Some now,
       tr_error_message := Some (Et_Session e)\<rparr>"

definition remove_staged :: "rstring option \<Rightarrow> 'j pw_handler \<Rightarrow> 'j pw_handler" where
  "remove_staged temp h = (case temp of None \<Rightarrow> h | Some p \<Rightarrow> h\<lparr>ph_removed := ph_removed h @ [p]\<rparr>)"

definition upload_staged :: "'j node_serde \<Rightarrow> node_env \<Rightarrow> rstring \<Rightarrow> bool \<Rightarrow> (rstring \<times> rstring \<times> rstring) option \<Rightarrow>
    'j pw_handler \<Rightarrow> 'j pw_handler" where
  "upload_staged sd env record_id completed upload h =
     (case upload of
        None \<Rightarrow> h
      | Some (cid, remote, temp) \<Rightarrow>
         let h = (if completed
                  then case stage_store sd env cid remote temp h of
                         Inr _ \<Rightarrow> update_record sd env record_id (\<lambda>r. r\<lparr>tr_local_path := Some (cid @ rstr '':'' @ remote)\<rparr>) h
                       | Inl e \<Rightarrow> update_record sd env record_id
                           (\<lambda>r. r\<lparr>tr_status := Ts_Failed, tr_error_message := Some (Et_Upload e)\<rparr>) h
                  else h)
         in remove_staged (Some temp) h)"

definition transfer_ended :: "'j node_serde \<Rightarrow> node_env \<Rightarrow> u64 \<Rightarrow> active \<Rightarrow> data_result \<Rightarrow> diagnostic \<Rightarrow> 'j pw_handler \<Rightarrow> 'j pw_handler" where
  "transfer_ended sd env handle a d diag h =
     (let record_id = ac_record_id a;
          h = cancel_remove record_id (h\<lparr>ph_active := (ph_active h)(handle := None)\<rparr>);
          completed = (dr_end d = Completed \<and> diag_is_ok diag);
          checksum = (case js_get (sd_record sd) T_TRANSFERS record_id (ph_store h) of
              Inr (Some r) \<Rightarrow>
                if completed \<and> tr_direction r = Some Td_Receive then Option.bind (tr_local_path r) (ne_sha256 env) else None
            | _ \<Rightarrow> None);
          h = update_record sd env record_id (ended_record (ne_now_iso env) d diag checksum) h;
          h = upload_staged sd env record_id completed (ac_connector_upload a) h
      in remove_staged (ac_connector_temp a) h)"

definition transfer_failed :: "'j node_serde \<Rightarrow> node_env \<Rightarrow> u64 \<Rightarrow> active \<Rightarrow> session_error \<Rightarrow> 'j pw_handler \<Rightarrow> 'j pw_handler" where
  "transfer_failed sd env handle a e h =
     (let record_id = ac_record_id a;
          h = cancel_remove record_id (h\<lparr>ph_active := (ph_active h)(handle := None)\<rparr>);
          h = update_record sd env record_id (failed_record (ne_now_iso env) e) h;
          h = remove_staged (map_option (\<lambda>(_, _, temp). temp) (ac_connector_upload a)) h
      in remove_staged (ac_connector_temp a) h)"

definition progress_due :: "node_env \<Rightarrow> progress \<Rightarrow> active \<Rightarrow> bool" where
  "progress_due env p a \<longleftrightarrow>
     pg_sync p \<noteq> ac_last_sync a \<or> \<not> saturating_sub (pg_data_bytes p) (ac_last_bytes a) < push_bit 20 1 \<or>
     \<not> (ne_instant env - ac_last_update a) div 1000 < 1"

definition pw_transfer_event :: "'j node_serde \<Rightarrow> node_env \<Rightarrow> session_info \<Rightarrow> u64 \<Rightarrow> transfer_event \<Rightarrow> 'j pw_handler \<Rightarrow> 'j pw_handler" where
  "pw_transfer_event sd env session handle event h =
     (case ph_active h handle of
        None \<Rightarrow> h
      | Some a \<Rightarrow>
         (case event of
            Ev_Started transfer_id start \<Rightarrow>
              update_record sd env (ac_record_id a) (started_record transfer_id start)
                (set_active handle (\<lambda>a. a\<lparr>ac_last_sync := cp_sync start, ac_last_bytes := cp_data_bytes start\<rparr>) h)
          | Ev_Progress p \<Rightarrow>
              if \<not> progress_due env p a then h
              else update_record sd env (ac_record_id a)
                (apply_progress p (case ac_file_size a of Some t \<Rightarrow> Some t | None \<Rightarrow> pg_total_hint p)
                  (pg_sync p \<noteq> ac_last_sync a))
                (set_active handle (\<lambda>a. a\<lparr>ac_last_update := ne_instant env, ac_last_bytes := pg_data_bytes p,
                   ac_last_sync := pg_sync p\<rparr>) h)
          | Ev_Ended d diag \<Rightarrow> transfer_ended sd env handle a d diag h
          | Ev_Failed e \<Rightarrow> transfer_failed sd env handle a e h))"

definition pw_cancel_flag :: "u64 \<Rightarrow> 'j pw_handler \<Rightarrow> bool option" where
  "pw_cancel_flag handle h = Option.bind (ph_active h handle) (\<lambda>a. ph_cancels h (ac_record_id a))"

section \<open>The handler of a session\<close>

text \<open>
  Each call has its environment. The flag is read many times while a transfer runs and may be set
  from outside meanwhile: what those readings give is part of the model's input (\<open>cancels\<close>); a
  transfer without a flag is not cancelled.
\<close>

definition pw_call :: "(nat \<Rightarrow> node_env) \<Rightarrow> (node_env \<Rightarrow> ('j pw_handler, 'a) hact) \<Rightarrow> ('j pw_handler, 'a) hact" where
  "pw_call env f h = apsnd (\<lambda>h. h\<lparr>ph_calls := ph_calls h + 1\<rparr>) (f (env (ph_calls h)) h)"

definition pw_ops :: "'j node_serde \<Rightarrow> (nat \<Rightarrow> node_env) \<Rightarrow> (nat \<Rightarrow> bool list) \<Rightarrow>
    ('j pw_handler, file_sink, file_source, file_checkpoints) server_handler" where
  "pw_ops sd env cancels =
     \<lparr>hd_authenticate = (\<lambda>req. pw_call env (\<lambda>_. pw_authenticate sd req)),
      hd_create = (\<lambda>session file. pw_call env (\<lambda>e. pw_create sd e session file)),
      hd_select = (\<lambda>session file attrs. pw_call env (\<lambda>e. pw_select sd e session file attrs)),
      hd_message = (\<lambda>session file message reply. pw_call env (\<lambda>e. pw_message sd e session file message reply)),
      hd_transfer_event = (\<lambda>session handle event h.
        (pw_transfer_event sd (env (ph_calls h)) session handle event h)\<lparr>ph_calls := ph_calls h + 1\<rparr>),
      hd_session_closed = (\<lambda>session error h. h),
      hd_cancel_flag = (\<lambda>session handle h.
        (if pw_cancel_flag handle h = None then [] else cancels (ph_calls h), h\<lparr>ph_calls := ph_calls h + 1\<rparr>))\<rparr>"

end
