(* ===== verification/Node_Records.thy ===== *)
theory Node_Records
  imports Node_Handler
begin

text \<open>
  The transfer records of the node: which calls of the handler change them. A record belongs to at
  most one active transfer, it is running as long as that transfer is active, and afterwards it stays
  as it is. The serialisation of records is assumed to be faithful and the identifiers that are drawn
  to be new.
\<close>

section \<open>Operations and their effects\<close>

lemma h_bindE:
  assumes "h_bind m f h = (r, h')"
  obtains (refused) e where "m h = (Inl e, h')" "r = Inl e" | (passed) x h1 where "m h = (Inr x, h1)" "f x h1 = (r, h')"
  using assms by (auto simp: h_bind_def split: prod.splits sum.splits)

lemma h_simps [simp]:
  "h_return x h = (Inr x, h)" "h_lift y h = (y, h)" "h_get g h = (Inr (g h), h)" "h_modify m h = (Inr (), m h)"
  "h_refuse diag t h = (Inl (refusal_with_message diag t), h)"
  by (simp_all add: h_return_def h_lift_def h_get_def h_modify_def h_refuse_def)

definition transfers :: "'j pw_handler \<Rightarrow> 'j row list option" where
  "transfers h = js_tables (ph_store h) T_TRANSFERS"

definition node_record :: "'j node_serde \<Rightarrow> rstring \<Rightarrow> 'j pw_handler \<Rightarrow> transfer_record option" where
  "node_record sd i h =
     Option.bind (transfers h) (\<lambda>rows. Option.bind (map_option rw_doc (tb_find i rows)) (cd_from (sd_record sd)))"

definition serde_ok :: "'j node_serde \<Rightarrow> bool" where
  "serde_ok sd \<longleftrightarrow> (\<forall>r. cd_from (sd_record sd) (cd_to (sd_record sd) r) = Some r)"

definition quiet :: "'j pw_handler \<Rightarrow> 'j pw_handler \<Rightarrow> bool" where
  "quiet h h' \<longleftrightarrow> transfers h' = transfers h \<and> ph_active h' = ph_active h \<and> ph_next_handle h' = ph_next_handle h \<and>
     ph_calls h' = ph_calls h"

lemma quiet_refl [simp]: "quiet h h"
  by (simp add: quiet_def)

lemma quiet_trans: "quiet a b \<Longrightarrow> quiet b c \<Longrightarrow> quiet a c"
  by (simp add: quiet_def)

lemma pesit_transfer_id_quiet: "pesit_transfer_id n h = (r, h') \<Longrightarrow> quiet h h' \<and> (\<exists>x. r = Inr x)"
  by (auto simp: pesit_transfer_id_def quiet_def transfers_def js_next_counter_def Let_def split: if_splits)

lemma check_partner_quiet: "check_partner sd session file w h = (r, h') \<Longrightarrow> h' = h"
  by (auto simp: check_partner_def split: option.splits if_splits)

lemma receivable_file_quiet: "receivable_file sd file h = (r, h') \<Longrightarrow> h' = h"
  by (auto simp: receivable_file_def split: option.splits if_splits)

lemma sendable_file_quiet: "sendable_file sd file h = (r, h') \<Longrightarrow> h' = h"
  by (auto simp: sendable_file_def split: option.splits if_splits)

lemma stage_fetch_quiet: "stage_fetch sd env cid remote dest h = (r, h') \<Longrightarrow> h' = h"
  by (simp add: stage_fetch_def)

lemma select_path_quiet: "select_path sd env vf session file tid h = (r, h') \<Longrightarrow> h' = h"
  by (auto simp: select_path_def Let_def elim!: h_bindE dest!: stage_fetch_quiet split: option.splits)

text \<open>The call registered a transfer with the record \<open>r\<close> under a new handle.\<close>

definition registered :: "'j node_serde \<Rightarrow> transfer_record \<Rightarrow> u64 \<Rightarrow> 'j pw_handler \<Rightarrow> 'j pw_handler \<Rightarrow> bool" where
  "registered sd r handle h h' \<longleftrightarrow>
     handle = ph_next_handle h \<and> ph_next_handle h' = ph_next_handle h + 1 \<and>
     (\<exists>rows. transfers h = Some rows \<and> transfers h' = Some (tb_put (tr_transfer_id r) (cd_to (sd_record sd) r) rows)) \<and>
     (\<exists>a. ac_record_id a = tr_transfer_id r \<and> ph_active h' = (ph_active h)(handle \<mapsto> a)) \<and>
     ph_cancels h' (tr_transfer_id r) = Some False \<and> ph_calls h' = ph_calls h"

definition unregistered :: "'j pw_handler \<Rightarrow> 'j pw_handler \<Rightarrow> bool" where
  "unregistered h h' \<longleftrightarrow> transfers h' = transfers h \<and> ph_active h' = ph_active h \<and> ph_calls h' = ph_calls h"

lemma unregistered_refl [simp]: "unregistered h h"
  by (simp add: unregistered_def)

lemma pw_register_cases:
  assumes "pw_register sd env r h = (res, h')"
  obtains (refused) e where "res = Inl e" "unregistered h h'"
  | (passed) a rows where "res = Inr (ph_next_handle h)" "transfers h = Some rows" "ac_record_id a = tr_transfer_id r"
      "transfers h' = Some (tb_put (tr_transfer_id r) (cd_to (sd_record sd) r) rows)"
      "ph_active h' = (ph_active h)(ph_next_handle h \<mapsto> a)" "ph_next_handle h' = ph_next_handle h + 1"
      "ph_calls h' = ph_calls h" "ph_cancels h' = ph_cancels h"
proof (cases "js_tables (ph_store h) T_TRANSFERS")
  case None
  with assms show thesis
    by (intro refused) (auto simp: unregistered_def pw_register_def Let_def js_put_def js_rows_def transfers_def)
next
  case (Some rows)
  with assms show thesis
    by (intro passed [of rows])
      (auto simp: pw_register_def Let_def js_put_def js_rows_def transfers_def js_set_def)
qed

lemma set_active_effect:
  "ph_active h handle = Some a \<Longrightarrow> set_active handle f h = h\<lparr>ph_active := (ph_active h)(handle \<mapsto> f a)\<rparr>"
  by (simp add: set_active_def)

lemma quiet_unregistered: "quiet h h' \<Longrightarrow> unregistered h h'"
  by (simp add: quiet_def unregistered_def)

lemma registered_after: "quiet h h0 \<Longrightarrow> registered sd r handle h0 h' \<Longrightarrow> registered sd r handle h h'"
  by (auto simp: registered_def quiet_def)

lemma quiet_unregistered_trans: "quiet h h0 \<Longrightarrow> unregistered h0 h' \<Longrightarrow> unregistered h h'"
  by (simp add: quiet_def unregistered_def)

lemma registering:
  assumes "pw_register sd env r h = (Inr handle, h1)"
    and "g h1 = h1 \<or> (\<exists>f. g h1 = set_active handle f h1 \<and> (\<forall>a. ac_record_id (f a) = ac_record_id a))"
  shows "registered sd r handle h (cancel_register (tr_transfer_id r) (g h1))"
  using assms(1)
proof (cases rule: pw_register_cases)
  case (passed a rows)
  have "\<exists>a'. ac_record_id a' = tr_transfer_id r \<and> g h1 = h1\<lparr>ph_active := (ph_active h)(ph_next_handle h \<mapsto> a')\<rparr>"
    using assms(2)
  proof (elim disjE exE conjE)
    assume "g h1 = h1"
    then show ?thesis using passed(3,5) by (intro exI [of _ a]) (simp flip: passed(5))
  next
    fix f assume "g h1 = set_active handle f h1" "\<forall>a. ac_record_id (f a) = ac_record_id a"
    then show ?thesis using passed(1,3,5) by (intro exI [of _ "f a"]) (simp add: set_active_effect)
  qed
  then obtain a' where "ac_record_id a' = tr_transfer_id r" "g h1 = h1\<lparr>ph_active := (ph_active h)(ph_next_handle h \<mapsto> a')\<rparr>"
    by blast
  with passed show ?thesis
    by (simp add: registered_def cancel_register_def transfers_def) blast
qed simp

lemma create_record_fields [simp]:
  "tr_transfer_id (create_record env session pid file tid path previous restart h) = ne_uuid env"
  "tr_status (create_record env session pid file tid path previous restart h) = Ts_Initiated"
  by (simp_all add: create_record_def new_record_def Let_def split: option.split)

lemma new_record_fields [simp]:
  "tr_transfer_id (new_record env session d pid file tid path h) = ne_uuid env"
  "tr_status (new_record env session d pid file tid path h) = Ts_Initiated"
  by (simp_all add: new_record_def)

lemma registering_refused: "pw_register sd env r h = (Inl e, h1) \<Longrightarrow> unregistered h h1"
  by (erule pw_register_cases) simp_all

text \<open>Operations that leave the transfers alone, and operations that register one at their end.\<close>

definition h_quiet :: "('j pw_handler, 'a) hact \<Rightarrow> bool" where
  "h_quiet m \<longleftrightarrow> (\<forall>h. quiet h (snd (m h)))"

definition h_registers :: "'j node_serde \<Rightarrow> node_env \<Rightarrow> ('a \<Rightarrow> u64) \<Rightarrow> ('j pw_handler, 'a) hact \<Rightarrow> bool" where
  "h_registers sd env handle_of m \<longleftrightarrow>
     (\<forall>h. case m h of
        (Inl e, h') \<Rightarrow> unregistered h h'
      | (Inr x, h') \<Rightarrow> \<exists>r. registered sd r (handle_of x) h h' \<and> tr_transfer_id r = ne_uuid env \<and> tr_status r = Ts_Initiated)"

lemma h_registersD:
  "h_registers sd env handle_of m \<Longrightarrow> m h = (Inl e, h') \<Longrightarrow> unregistered h h'"
  "h_registers sd env handle_of m \<Longrightarrow> m h = (Inr x, h') \<Longrightarrow>
    \<exists>r. registered sd r (handle_of x) h h' \<and> tr_transfer_id r = ne_uuid env \<and> tr_status r = Ts_Initiated"
  unfolding h_registers_def by (drule spec [of _ h], simp)+

lemma h_registers_bind:
  assumes "h_quiet m" and "\<And>x. h_registers sd env handle_of (f x)"
  shows "h_registers sd env handle_of (h_bind m f)"
  unfolding h_registers_def
proof
  fix h
  obtain q h1 where m: "m h = (q, h1)" by fastforce
  then have q: "quiet h h1" using assms(1) by (metis h_quiet_def snd_conv)
  show "case h_bind m f h of
      (Inl e, h') \<Rightarrow> unregistered h h'
    | (Inr x, h') \<Rightarrow> \<exists>r. registered sd r (handle_of x) h h' \<and> tr_transfer_id r = ne_uuid env \<and> tr_status r = Ts_Initiated"
  proof (cases q)
    case (Inr x)
    obtain q' h2 where f: "f x h1 = (q', h2)" by fastforce
    show ?thesis
      using h_registersD [OF assms(2), of x h1] f m Inr quiet_unregistered_trans [OF q] registered_after [OF q]
      by (cases q') (fastforce simp: h_bind_def)+
  qed (use m q in \<open>simp add: h_bind_def quiet_unregistered\<close>)
qed

lemma h_registers_end:
  assumes "tr_transfer_id r = ne_uuid env" "tr_status r = Ts_Initiated"
    and "\<And>handle h. g handle h = h \<or> (\<exists>f. g handle h = set_active handle f h \<and> (\<forall>a. ac_record_id (f a) = ac_record_id a))"
    and "\<And>handle. handle_of (acc handle) = handle"
  shows "h_registers sd env handle_of
    (h_bind (pw_register sd env r) (\<lambda>handle. h_bind (h_modify (g handle)) (\<lambda>_.
     h_bind (h_modify (cancel_register (tr_transfer_id r))) (\<lambda>_. h_return (acc handle)))))"
  unfolding h_registers_def
proof
  fix h
  obtain q h1 where q: "pw_register sd env r h = (q, h1)" by fastforce
  show "case h_bind (pw_register sd env r) (\<lambda>handle. h_bind (h_modify (g handle)) (\<lambda>_.
      h_bind (h_modify (cancel_register (tr_transfer_id r))) (\<lambda>_. h_return (acc handle)))) h of
      (Inl e, h') \<Rightarrow> unregistered h h'
    | (Inr x, h') \<Rightarrow> \<exists>r. registered sd r (handle_of x) h h' \<and> tr_transfer_id r = ne_uuid env \<and> tr_status r = Ts_Initiated"
    using q registering_refused [of sd env r h] registering [of sd env r h _ h1 "g _", OF _ assms(3)] assms(1,2,4)
    by (cases q) (auto simp: h_bind_def)
qed

lemma h_quiet_simps [simp]:
  "h_quiet (h_get g)" "h_quiet (h_lift r)" "h_quiet (h_return x)" "h_quiet (pesit_transfer_id n)"
  "h_quiet (check_partner sd session file w)" "h_quiet (receivable_file sd file)" "h_quiet (sendable_file sd file)"
  "h_quiet (select_path sd env vf session file tid)"
proof -
  show "h_quiet (pesit_transfer_id n)"
    by (auto simp: h_quiet_def pesit_transfer_id_def quiet_def transfers_def js_next_counter_def Let_def)
  show "h_quiet (check_partner sd session file w)" unfolding h_quiet_def by (metis check_partner_quiet prod.collapse quiet_refl)
  show "h_quiet (receivable_file sd file)" unfolding h_quiet_def by (metis receivable_file_quiet prod.collapse quiet_refl)
  show "h_quiet (sendable_file sd file)" unfolding h_quiet_def by (metis sendable_file_quiet prod.collapse quiet_refl)
  show "h_quiet (select_path sd env vf session file tid)"
    unfolding h_quiet_def by (metis select_path_quiet prod.collapse quiet_refl)
qed (simp_all add: h_quiet_def)

lemma h_registers_get:
  "(\<And>h. h_registers sd env handle_of (f (g h))) \<Longrightarrow> h_registers sd env handle_of (h_bind (h_get g) f)"
  by (simp add: h_registers_def h_bind_def)

lemma h_registers_case:
  "(\<And>a b. h_registers sd env handle_of (f a b)) \<Longrightarrow> h_registers sd env handle_of (case p of (a, b) \<Rightarrow> f a b)"
  by (cases p) simp

lemma pw_create_registers: "h_registers sd env cra_handle (pw_create sd env session file)"
  unfolding pw_create_def Let_def
  by (rule h_registers_case h_registers_end h_registers_get h_registers_bind h_quiet_simps)+
    (auto split: option.split)

lemma pw_select_registers: "h_registers sd env sa_handle (pw_select sd env session file attrs)"
  unfolding pw_select_def Let_def
  by (rule h_registers_case h_registers_end h_registers_get h_registers_bind h_quiet_simps)+ auto

section \<open>Updates of a record\<close>

definition has_key :: "'j pw_handler \<Rightarrow> rstring \<Rightarrow> bool" where
  "has_key h k \<longleftrightarrow> (\<exists>rows. transfers h = Some rows \<and> tb_find k rows \<noteq> None)"

lemma node_record_has_key: "node_record sd i h = Some r \<Longrightarrow> has_key h i"
  by (auto simp: node_record_def has_key_def split: bind_splits)

lemma transfers_update:
  "transfers (update_record sd env i f h) =
    (case transfers h of
       None \<Rightarrow> None
     | Some rows \<Rightarrow>
        (case node_record sd i h of
           None \<Rightarrow> Some rows
         | Some r \<Rightarrow> Some (tb_put i (cd_to (sd_record sd) ((f r)\<lparr>tr_updated_at := Some (ne_now_iso env)\<rparr>)) rows)))"
  by (auto simp: transfers_def update_record_def js_update_tables node_record_def transfers_def split: option.split)

lemma find_put_None: "tb_find k' (tb_put k d rows) = None \<longleftrightarrow> k' \<noteq> k \<and> tb_find k' rows = None"
  using tb_find_put [of k' k d rows] by (metis option.distinct(1) option.map_disc_iff)

lemma update_record_simps [simp]:
  "ph_active (update_record sd env i f h) = ph_active h" "ph_calls (update_record sd env i f h) = ph_calls h"
  "transfers (update_record sd env i f h) = None \<longleftrightarrow> transfers h = None"
proof -
  show "transfers (update_record sd env i f h) = None \<longleftrightarrow> transfers h = None"
    by (simp add: transfers_update split: option.split)
qed (simp_all add: update_record_def)

lemma find_put_Some: "(\<exists>y. tb_find k' (tb_put k d rows) = Some y) \<longleftrightarrow> k' = k \<or> (\<exists>y. tb_find k' rows = Some y)"
  using find_put_None [of k' k d rows] by auto

lemma has_key_update [simp]: "has_key (update_record sd env i f h) k = has_key h k"
  using node_record_has_key [of sd i h]
  by (auto simp: has_key_def transfers_update find_put_Some split: option.splits)

lemma node_record_update:
  assumes "serde_ok sd"
  shows "node_record sd k (update_record sd env i f h) =
    (if k = i then map_option (\<lambda>r. (f r)\<lparr>tr_updated_at := Some (ne_now_iso env)\<rparr>) (node_record sd i h) else node_record sd k h)"
proof (cases "transfers h")
  case (Some rows)
  with assms show ?thesis
    by (cases "node_record sd i h")
      (auto simp: node_record_def [of sd k "update_record sd env i f h"] transfers_update tb_find_put serde_ok_def
        node_record_def [of sd k h] node_record_def [of sd i h])
qed (simp add: node_record_def transfers_update)

lemma remove_staged_simps [simp]:
  "ph_active (remove_staged t h) = ph_active h" "ph_calls (remove_staged t h) = ph_calls h"
  "transfers (remove_staged t h) = transfers h" "has_key (remove_staged t h) = has_key h"
  "node_record sd i (remove_staged t h) = node_record sd i h"
  by (simp_all add: remove_staged_def transfers_def has_key_def node_record_def fun_eq_iff split: option.split)

section \<open>Events\<close>

text \<open>The calls of a session change at most the record of the transfer they are about.\<close>

definition touches :: "'j node_serde \<Rightarrow> rstring \<Rightarrow> (transfer_record \<Rightarrow> transfer_record) \<Rightarrow> 'j pw_handler \<Rightarrow> 'j pw_handler \<Rightarrow> bool" where
  "touches sd i f h h' \<longleftrightarrow>
     (\<forall>k. node_record sd k h' = (if k = i then map_option f (node_record sd i h) else node_record sd k h)) \<and>
     has_key h' = has_key h \<and> (transfers h' = None \<longleftrightarrow> transfers h = None) \<and> ph_calls h' = ph_calls h"

lemma touches_update:
  "serde_ok sd \<Longrightarrow> transfers h0 = transfers h \<Longrightarrow> ph_calls h0 = ph_calls h \<Longrightarrow>
    touches sd i (\<lambda>r. (f r)\<lparr>tr_updated_at := Some (ne_now_iso env)\<rparr>) h (update_record sd env i f h0)"
  by (simp add: touches_def node_record_update fun_eq_iff) (simp add: node_record_def has_key_def)

lemma touches_then: "touches sd i f h h1 \<Longrightarrow> touches sd i g h1 h2 \<Longrightarrow> touches sd i (g \<circ> f) h h2"
  by (auto simp: touches_def option.map_comp)

lemma touches_none: "transfers h' = transfers h \<Longrightarrow> ph_calls h' = ph_calls h \<Longrightarrow> touches sd i (\<lambda>r. r) h h'"
  by (auto simp: touches_def node_record_def has_key_def fun_eq_iff option.map_ident)

lemma upload_staged_touches:
  assumes "serde_ok sd"
  shows "\<exists>f. touches sd i f h (upload_staged sd env i completed upload h) \<and>
    (\<forall>r. tr_status (f r) = tr_status r \<or> completed \<and> upload \<noteq> None \<and> tr_status (f r) = Ts_Failed) \<and>
    ph_active (upload_staged sd env i completed upload h) = ph_active h"
proof (cases "completed \<and> upload \<noteq> None")
  case True
  then obtain cid remote temp where u: "upload = Some (cid, remote, temp)" by auto
  show ?thesis
  proof (cases "stage_store sd env cid remote temp h")
    case (Inl e)
    with True u touches_update [OF assms, of h h i env "\<lambda>r. r\<lparr>tr_status := Ts_Failed, tr_error_message := Some (Et_Upload e)\<rparr>"]
    show ?thesis by (auto simp: upload_staged_def Let_def touches_def)
  next
    case (Inr x)
    with True u touches_update [OF assms, of h h i env "\<lambda>r. r\<lparr>tr_local_path := Some (cid @ rstr '':'' @ remote)\<rparr>"]
    show ?thesis by (auto simp: upload_staged_def Let_def touches_def)
  qed
next
  case False
  then have "touches sd i (\<lambda>r. r) h (upload_staged sd env i completed upload h)"
    "ph_active (upload_staged sd env i completed upload h) = ph_active h"
    by (auto simp: upload_staged_def Let_def intro!: touches_none split: option.split)
  then show ?thesis by (intro exI [of _ "\<lambda>r. r"]) simp
qed

definition ended_status :: "data_result \<Rightarrow> diagnostic \<Rightarrow> transfer_status" where
  "ended_status d diag =
     (case dr_end d of
        Completed \<Rightarrow> if diag_is_ok diag then Ts_Completed else Ts_Failed
      | EndedWithError _ \<Rightarrow> Ts_Failed
      | Interrupted _ _ by_peer \<Rightarrow> if by_peer then Ts_Interrupted else Ts_Cancelled)"

lemma ended_record_status [simp]: "tr_status (ended_record now d diag checksum r) = ended_status d diag"
  by (simp add: ended_record_def ended_status_def Let_def split: data_end.split)

lemma transfer_ended_effect:
  assumes "serde_ok sd" "ph_active h handle = Some a"
  shows "\<exists>f. touches sd (ac_record_id a) f h (transfer_ended sd env handle a d diag h) \<and>
    (\<forall>r. tr_status (f r) = ended_status d diag \<or> ac_connector_upload a \<noteq> None \<and> tr_status (f r) = Ts_Failed) \<and>
    ph_active (transfer_ended sd env handle a d diag h) = (ph_active h)(handle := None)"
proof -
  let ?h0 = "cancel_remove (ac_record_id a) (h\<lparr>ph_active := (ph_active h)(handle := None)\<rparr>)"
  let ?sum = "case js_get (sd_record sd) T_TRANSFERS (ac_record_id a) (ph_store ?h0) of
      Inr (Some r) \<Rightarrow> if (dr_end d = Completed \<and> diag_is_ok diag) \<and> tr_direction r = Some Td_Receive
        then Option.bind (tr_local_path r) (ne_sha256 env) else None
    | _ \<Rightarrow> None"
  let ?h1 = "update_record sd env (ac_record_id a) (ended_record (ne_now_iso env) d diag ?sum) ?h0"
  let ?c = "dr_end d = Completed \<and> diag_is_ok diag"
  have "touches sd (ac_record_id a) (\<lambda>r. (ended_record (ne_now_iso env) d diag ?sum r)\<lparr>tr_updated_at := Some (ne_now_iso env)\<rparr>) h ?h1"
    by (rule touches_update [OF assms(1)]) (simp_all add: cancel_remove_def transfers_def)
  moreover obtain f where "touches sd (ac_record_id a) f ?h1 (upload_staged sd env (ac_record_id a) ?c (ac_connector_upload a) ?h1)"
    and f: "\<And>r. tr_status (f r) = tr_status r \<or> ?c \<and> ac_connector_upload a \<noteq> None \<and> tr_status (f r) = Ts_Failed"
    and act: "ph_active (upload_staged sd env (ac_record_id a) ?c (ac_connector_upload a) ?h1) = ph_active ?h1"
    using upload_staged_touches [OF assms(1)] by blast
  ultimately have "touches sd (ac_record_id a)
      (f \<circ> (\<lambda>r. (ended_record (ne_now_iso env) d diag ?sum r)\<lparr>tr_updated_at := Some (ne_now_iso env)\<rparr>)) h
      (transfer_ended sd env handle a d diag h)"
    by (simp add: transfer_ended_def Let_def touches_then) (drule (1) touches_then, simp add: touches_def)
  moreover have "ph_active (transfer_ended sd env handle a d diag h) = (ph_active h)(handle := None)"
    using act by (simp add: transfer_ended_def Let_def) (simp add: cancel_remove_def)
  moreover have "tr_status (f ((ended_record (ne_now_iso env) d diag ?sum r)\<lparr>tr_updated_at := Some (ne_now_iso env)\<rparr>)) =
      ended_status d diag \<or> ac_connector_upload a \<noteq> None \<and>
      tr_status (f ((ended_record (ne_now_iso env) d diag ?sum r)\<lparr>tr_updated_at := Some (ne_now_iso env)\<rparr>)) = Ts_Failed" for r
    using f [of "(ended_record (ne_now_iso env) d diag ?sum r)\<lparr>tr_updated_at := Some (ne_now_iso env)\<rparr>"] by auto
  ultimately show ?thesis
    by (intro exI [of _ "f \<circ> (\<lambda>r. (ended_record (ne_now_iso env) d diag ?sum r)\<lparr>tr_updated_at := Some (ne_now_iso env)\<rparr>)"]) simp
qed

lemma transfer_failed_effect:
  assumes "serde_ok sd" "ph_active h handle = Some a"
  shows "touches sd (ac_record_id a) (\<lambda>r. (failed_record (ne_now_iso env) e r)\<lparr>tr_updated_at := Some (ne_now_iso env)\<rparr>) h
      (transfer_failed sd env handle a e h) \<and>
    ph_active (transfer_failed sd env handle a e h) = (ph_active h)(handle := None)"
proof -
  let ?h0 = "cancel_remove (ac_record_id a) (h\<lparr>ph_active := (ph_active h)(handle := None)\<rparr>)"
  have "touches sd (ac_record_id a) (\<lambda>r. (failed_record (ne_now_iso env) e r)\<lparr>tr_updated_at := Some (ne_now_iso env)\<rparr>) h
      (update_record sd env (ac_record_id a) (failed_record (ne_now_iso env) e) ?h0)"
    by (rule touches_update [OF assms(1)]) (simp_all add: cancel_remove_def transfers_def)
  then show ?thesis
    by (simp add: transfer_failed_def Let_def touches_def) (simp add: cancel_remove_def)
qed

definition running :: "transfer_status \<Rightarrow> bool" where
  "running s \<longleftrightarrow> s = Ts_Initiated \<or> s = Ts_InProgress"

fun finishes :: "transfer_event \<Rightarrow> bool" where
  "finishes (Ev_Ended d diag) = True"
| "finishes (Ev_Failed e) = True"
| "finishes _ = False"

lemma transfer_event_effect:
  assumes "serde_ok sd" "ph_active h handle = Some a"
  shows "\<exists>f a'. touches sd (ac_record_id a) f h (pw_transfer_event sd env session handle ev h) \<and>
    ac_record_id a' = ac_record_id a \<and>
    ph_active (pw_transfer_event sd env session handle ev h) = (ph_active h)(handle := if finishes ev then None else Some a') \<and>
    (\<forall>r. if finishes ev then \<not> running (tr_status (f r)) else running (tr_status r) \<longrightarrow> running (tr_status (f r)))"
proof (cases ev)
  case (Ev_Started tid start)
  let ?h0 = "set_active handle (\<lambda>a. a\<lparr>ac_last_sync := cp_sync start, ac_last_bytes := cp_data_bytes start\<rparr>) h"
  show ?thesis
    using touches_update [OF assms(1), of ?h0 h "ac_record_id a" env "started_record tid start"] assms(2) Ev_Started
    by (intro exI [of _ "\<lambda>r. (started_record tid start r)\<lparr>tr_updated_at := Some (ne_now_iso env)\<rparr>"]
        exI [of _ "a\<lparr>ac_last_sync := cp_sync start, ac_last_bytes := cp_data_bytes start\<rparr>"])
      (simp add: pw_transfer_event_def set_active_def transfers_def started_record_def running_def)
next
  case (Ev_Progress p)
  show ?thesis
  proof (cases "progress_due env p a")
    case True
    let ?g = "\<lambda>a. a\<lparr>ac_last_update := ne_instant env, ac_last_bytes := pg_data_bytes p, ac_last_sync := pg_sync p\<rparr>"
    let ?f = "apply_progress p (case ac_file_size a of Some t \<Rightarrow> Some t | None \<Rightarrow> pg_total_hint p) (pg_sync p \<noteq> ac_last_sync a)"
    show ?thesis
      using touches_update [OF assms(1), of "set_active handle ?g h" h "ac_record_id a" env ?f] assms(2) Ev_Progress True
      by (intro exI [of _ "\<lambda>r. (?f r)\<lparr>tr_updated_at := Some (ne_now_iso env)\<rparr>"] exI [of _ "?g a"])
        (simp add: pw_transfer_event_def set_active_def transfers_def apply_progress_def running_def Let_def split: option.split)
  next
    case False
    with assms(2) Ev_Progress show ?thesis
      by (intro exI [of _ "\<lambda>r. r"] exI [of _ a]) (auto simp: pw_transfer_event_def intro!: touches_none)
  qed
next
  case (Ev_Ended d diag)
  have "\<not> running (ended_status d diag)" by (simp add: running_def ended_status_def split: data_end.split)
  with transfer_ended_effect [OF assms, of env d diag] assms(2) Ev_Ended show ?thesis
    by (simp add: pw_transfer_event_def) (metis running_def transfer_status.distinct(9) transfer_status.distinct(19))
next
  case (Ev_Failed e)
  with transfer_failed_effect [OF assms, of env e] assms(2) show ?thesis
    by (intro exI [of _ "\<lambda>r. (failed_record (ne_now_iso env) e r)\<lparr>tr_updated_at := Some (ne_now_iso env)\<rparr>"] exI [of _ a])
      (simp add: pw_transfer_event_def failed_record_def running_def)
qed

section \<open>Sequences of calls\<close>

text \<open>The calls the sessions of a listener make, in any interleaving, and the cancellations of the operator.\<close>

datatype node_call =
    Call_Authenticate connect_request
  | Call_Create session_info file_spec
  | Call_Select session_info file_spec requested_attributes
  | Call_Message session_info file_spec bytes bool
  | Call_Event session_info u64 transfer_event
  | Call_Flag session_info u64
  | Call_Cancel bool rstring

fun node_step :: "'j node_serde \<Rightarrow> (nat \<Rightarrow> node_env) \<Rightarrow> (nat \<Rightarrow> bool list) \<Rightarrow> node_call \<Rightarrow> 'j pw_handler \<Rightarrow> 'j pw_handler" where
  "node_step sd env c (Call_Authenticate req) h = snd (hd_authenticate (pw_ops sd env c) req h)"
| "node_step sd env c (Call_Create session file) h = snd (hd_create (pw_ops sd env c) session file h)"
| "node_step sd env c (Call_Select session file attrs) h = snd (hd_select (pw_ops sd env c) session file attrs h)"
| "node_step sd env c (Call_Message session file m reply) h = snd (hd_message (pw_ops sd env c) session file m reply h)"
| "node_step sd env c (Call_Event session handle ev) h = hd_transfer_event (pw_ops sd env c) session handle ev h"
| "node_step sd env c (Call_Flag session handle) h = snd (hd_cancel_flag (pw_ops sd env c) session handle h)"
| "node_step sd env c (Call_Cancel listening i) h = snd (cancel_request listening i h)"

definition node_inv :: "'j node_serde \<Rightarrow> (nat \<Rightarrow> node_env) \<Rightarrow> 'j pw_handler \<Rightarrow> bool" where
  "node_inv sd env h \<longleftrightarrow>
     transfers h \<noteq> None \<and> (\<forall>n \<ge> ph_calls h. \<not> has_key h (ne_uuid (env n))) \<and>
     (\<forall>handle a. ph_active h handle = Some a \<longrightarrow>
        (\<exists>r. node_record sd (ac_record_id a) h = Some r \<and> running (tr_status r))) \<and>
     (\<forall>n m a b. ph_active h n = Some a \<longrightarrow> ph_active h m = Some b \<longrightarrow> ac_record_id a = ac_record_id b \<longrightarrow> n = m)"

definition inactive :: "'j pw_handler \<Rightarrow> rstring \<Rightarrow> bool" where
  "inactive h i \<longleftrightarrow> (\<forall>handle a. ph_active h handle = Some a \<longrightarrow> ac_record_id a \<noteq> i)"

lemma node_inv_active:
  assumes "node_inv sd env h" "ph_active h handle = Some a"
  obtains r where "node_record sd (ac_record_id a) h = Some r" "running (tr_status r)" "has_key h (ac_record_id a)"
  using assms node_record_has_key unfolding node_inv_def by metis

text \<open>A call that leaves records and active transfers alone.\<close>

lemma node_inv_unregistered:
  assumes "node_inv sd env h" "transfers h' = transfers h" "ph_active h' = ph_active h" "ph_calls h \<le> ph_calls h'"
  shows "node_inv sd env h' \<and> node_record sd i h' = node_record sd i h \<and> inactive h' = inactive h"
  using assms by (auto simp: node_inv_def node_record_def has_key_def inactive_def fun_eq_iff)

lemma node_record_put:
  assumes "serde_ok sd" "transfers h = Some rows" "transfers h' = Some (tb_put k (cd_to (sd_record sd) r) rows)"
  shows "node_record sd i h' = (if i = k then Some r else node_record sd i h)"
    and "has_key h' i \<longleftrightarrow> i = k \<or> has_key h i"
  using assms by (auto simp: node_record_def serde_ok_def tb_find_put has_key_def find_put_Some)

text \<open>A call that adds a record under a new identifier, active or not.\<close>

lemma node_inv_added:
  assumes inv: "node_inv sd env h" and ok: "serde_ok sd" "inj (\<lambda>n. ne_uuid (env n))"
    and rows: "transfers h = Some rows" "transfers h' = Some (tb_put (ne_uuid (env (ph_calls h))) (cd_to (sd_record sd) r) rows)"
    and act: "ph_active h' = ph_active h \<or>
      (\<exists>handle a. ph_active h' = (ph_active h)(handle \<mapsto> a) \<and> ac_record_id a = ne_uuid (env (ph_calls h)) \<and> running (tr_status r))"
    and calls: "ph_calls h' = ph_calls h + 1"
  shows "node_inv sd env h' \<and> (has_key h i \<longrightarrow> node_record sd i h' = node_record sd i h \<and> (inactive h i \<longrightarrow> inactive h' i))"
proof -
  let ?u = "ne_uuid (env (ph_calls h))"
  note put = node_record_put [OF ok(1) rows]
  have new: "\<not> has_key h ?u" using inv by (simp add: node_inv_def)
  have old: "ac_record_id a \<noteq> ?u" "node_record sd (ac_record_id a) h' = node_record sd (ac_record_id a) h"
    if "ph_active h n = Some a" for n a
    using node_inv_active [OF inv that] new by (metis, metis put(1))
  have fresh: "\<not> has_key h' (ne_uuid (env n))" if "ph_calls h' \<le> n" for n
  proof -
    have "ne_uuid (env n) \<noteq> ?u" using injD [OF ok(2)] that calls by fastforce
    with inv that calls show ?thesis by (simp add: put node_inv_def)
  qed
  from act show ?thesis
  proof (elim disjE exE conjE)
    assume "ph_active h' = ph_active h"
    with inv old fresh new rows show ?thesis
      by (auto simp: node_inv_def put inactive_def; metis)
  next
    fix handle a assume a: "ph_active h' = (ph_active h)(handle \<mapsto> a)" "ac_record_id a = ?u" "running (tr_status r)"
    have "\<exists>r. node_record sd (ac_record_id b) h' = Some r \<and> running (tr_status r)" if "ph_active h' n = Some b" for n b
      using that a inv old by (auto simp: put node_inv_def split: if_splits)
    moreover have "n = m" if "ph_active h' n = Some b" "ph_active h' m = Some b'" "ac_record_id b = ac_record_id b'" for n m b b'
      using that a inv old by (auto simp: node_inv_def split: if_splits)
    ultimately have "node_inv sd env h'" using rows fresh by (simp add: node_inv_def)
    with a new show ?thesis by (auto simp: put inactive_def)
  qed
qed

text \<open>An event of an active transfer.\<close>

lemma node_inv_touched:
  assumes inv: "node_inv sd env h" and a: "ph_active h handle = Some a" and t: "touches sd (ac_record_id a) f h h'"
    and act: "ac_record_id a' = ac_record_id a" "ph_active h' = (ph_active h)(handle := if fin then None else Some a')"
    and run: "\<And>r. \<not> fin \<Longrightarrow> running (tr_status r) \<Longrightarrow> running (tr_status (f r))" and that: "ph_calls h \<le> n"
  shows "node_inv sd env (h'\<lparr>ph_calls := n\<rparr>)"
proof -
  have v: "transfers (h'\<lparr>ph_calls := n\<rparr>) = transfers h'" "has_key (h'\<lparr>ph_calls := n\<rparr>) = has_key h'"
    "node_record sd i (h'\<lparr>ph_calls := n\<rparr>) = node_record sd i h'" for i
    by (simp_all add: transfers_def has_key_def node_record_def fun_eq_iff)
  have other: "ac_record_id b \<noteq> ac_record_id a" if "ph_active h m = Some b" "m \<noteq> handle" for m b
    using inv that a by (auto simp: node_inv_def)
  show ?thesis
    unfolding node_inv_def v
  proof (intro conjI allI impI)
    fix m b assume b: "ph_active (h'\<lparr>ph_calls := n\<rparr>) m = Some b"
    show "\<exists>r. node_record sd (ac_record_id b) h' = Some r \<and> running (tr_status r)"
    proof (cases "m = handle")
      case True
      with b act have "\<not> fin" "ac_record_id b = ac_record_id a" by (auto split: if_splits)
      with node_inv_active [OF inv a] t run show ?thesis unfolding touches_def by (metis option.simps(9))
    next
      case False
      with b act have m: "ph_active h m = Some b" by simp
      with node_inv_active [OF inv m] other [OF m False] t show ?thesis unfolding touches_def by metis
    qed
  next
    fix m k b c assume "ph_active (h'\<lparr>ph_calls := n\<rparr>) m = Some b" "ph_active (h'\<lparr>ph_calls := n\<rparr>) k = Some c"
      "ac_record_id b = ac_record_id c"
    with act other inv show "m = k" by (auto simp: node_inv_def split: if_splits; metis)
  qed (use inv t that in \<open>auto simp: touches_def node_inv_def\<close>)
qed

lemma node_step_inv:
  assumes inv: "node_inv sd env h" and ok: "serde_ok sd" "inj (\<lambda>n. ne_uuid (env n))"
  shows "node_inv sd env (node_step sd env c call h) \<and>
    (has_key h i \<longrightarrow> inactive h i \<longrightarrow>
      node_record sd i (node_step sd env c call h) = node_record sd i h \<and> inactive (node_step sd env c call h) i)"
proof -
  have view: "transfers (h\<lparr>ph_calls := n\<rparr>) = transfers h" "ph_active (h\<lparr>ph_calls := n\<rparr>) = ph_active h" for n and h :: "'a pw_handler"
    by (simp_all add: transfers_def)
  have reg: ?thesis if r: "h_registers sd (env (ph_calls h)) hof m"
    and step: "node_step sd env c call h = snd (pw_call env (\<lambda>e. m' e) h)" "m' (env (ph_calls h)) = m" for hof m m'
  proof -
    obtain q h1 where q: "m h = (q, h1)" by fastforce
    let ?h' = "h1\<lparr>ph_calls := ph_calls h1 + 1\<rparr>"
    have s: "node_step sd env c call h = ?h'" by (simp add: step pw_call_def q)
    show ?thesis
    proof (cases q)
      case (Inl e)
      with h_registersD(1) [OF r] q have "unregistered h h1" by simp
      then show ?thesis unfolding s
        using node_inv_unregistered [OF inv, of ?h'] by (simp add: view unregistered_def)
    next
      case (Inr x)
      with h_registersD(2) [OF r] q obtain rec where rec: "registered sd rec (hof x) h h1"
        "tr_transfer_id rec = ne_uuid (env (ph_calls h))" "tr_status rec = Ts_Initiated" by blast
      then obtain rows a where "transfers h = Some rows"
        "transfers h1 = Some (tb_put (ne_uuid (env (ph_calls h))) (cd_to (sd_record sd) rec) rows)"
        "ac_record_id a = ne_uuid (env (ph_calls h))" "ph_active h1 = (ph_active h)(hof x \<mapsto> a)" "ph_calls h1 = ph_calls h"
        by (auto simp: registered_def)
      then show ?thesis unfolding s
        using node_inv_added [OF inv ok, of rows ?h' rec i] rec(3) by (simp add: view running_def) blast
    qed
  qed
  show ?thesis
  proof (cases call)
    case (Call_Authenticate req)
    have "snd (pw_authenticate sd req h) = h"
      by (simp add: pw_authenticate_def split: option.split)
    then show ?thesis using Call_Authenticate node_inv_unregistered [OF inv, of "h\<lparr>ph_calls := ph_calls h + 1\<rparr>"]
      by (simp add: pw_ops_def pw_call_def view)
  next
    case (Call_Create session fs)
    show ?thesis
      by (rule reg [OF pw_create_registers [of _ _ session fs], of "\<lambda>e. pw_create sd e session fs"]) (simp_all add: Call_Create pw_ops_def)
  next
    case (Call_Select session fs attrs)
    show ?thesis
      by (rule reg [OF pw_select_registers [of _ _ session fs attrs], of "\<lambda>e. pw_select sd e session fs attrs"]) (simp_all add: Call_Select pw_ops_def)
  next
    case (Call_Message session fs m reply)
    from inv obtain rows where rows: "transfers h = Some rows" by (auto simp: node_inv_def)
    obtain r where "transfers (node_step sd env c call h) =
        Some (tb_put (ne_uuid (env (ph_calls h))) (cd_to (sd_record sd) r) rows)"
      "ph_active (node_step sd env c call h) = ph_active h" "ph_calls (node_step sd env c call h) = ph_calls h + 1"
      using rows by (auto simp: Call_Message pw_ops_def pw_call_def pw_message_def Let_def transfers_def js_put_tables)
    then show ?thesis using node_inv_added [OF inv ok rows] by blast
  next
    case (Call_Event session handle ev)
    let ?h1 = "pw_transfer_event sd (env (ph_calls h)) session handle ev h"
    have s: "node_step sd env c call h = ?h1\<lparr>ph_calls := ph_calls h + 1\<rparr>" by (simp add: Call_Event pw_ops_def)
    show ?thesis
    proof (cases "ph_active h handle")
      case None
      then have "?h1 = h" by (simp add: pw_transfer_event_def)
      then show ?thesis unfolding s using node_inv_unregistered [OF inv, of "h\<lparr>ph_calls := ph_calls h + 1\<rparr>"] by (simp add: view)
    next
      case (Some a)
      from transfer_event_effect [OF ok(1) Some, of "env (ph_calls h)" session ev] obtain f a' where
        t: "touches sd (ac_record_id a) f h ?h1" "ac_record_id a' = ac_record_id a"
          "ph_active ?h1 = (ph_active h)(handle := if finishes ev then None else Some a')"
          "\<forall>r. if finishes ev then \<not> running (tr_status (f r)) else running (tr_status r) \<longrightarrow> running (tr_status (f r))"
        by blast
      have "node_inv sd env (node_step sd env c call h)"
        unfolding s by (rule node_inv_touched [OF inv Some t(1-3)]) (use t(4) in auto)
      moreover have "node_record sd i (node_step sd env c call h) = node_record sd i h \<and> inactive (node_step sd env c call h) i"
        if "inactive h i"
      proof -
        from that Some have "i \<noteq> ac_record_id a" by (auto simp: inactive_def)
        with t(1) have "node_record sd i ?h1 = node_record sd i h" by (simp add: touches_def)
        with that t(2,3) Some show ?thesis
          unfolding s by (auto simp: inactive_def node_record_def view split: if_splits)
      qed
      ultimately show ?thesis by blast
    qed
  next
    case (Call_Flag session handle)
    then show ?thesis using node_inv_unregistered [OF inv, of "h\<lparr>ph_calls := ph_calls h + 1\<rparr>"]
      by (simp add: pw_ops_def view)
  next
    case (Call_Cancel k)
    then show ?thesis using node_inv_unregistered [OF inv, of "node_step sd env c call h"]
      by (auto simp: cancel_request_def transfers_def split: option.splits)
  qed
qed

lemma node_run_inv:
  assumes "serde_ok sd" "inj (\<lambda>n. ne_uuid (env n))"
  shows "node_inv sd env h \<Longrightarrow> node_inv sd env (fold (node_step sd env c) calls h) \<and>
    (node_record sd i h = Some r \<longrightarrow> inactive h i \<longrightarrow>
      node_record sd i (fold (node_step sd env c) calls h) = Some r \<and> inactive (fold (node_step sd env c) calls h) i)"
proof (induction calls arbitrary: h)
  case (Cons call calls)
  from node_step_inv [OF Cons.prems assms, of c call i] node_record_has_key [of sd i h r]
    Cons.IH [of "node_step sd env c call h"] show ?case by auto
qed simp

text \<open>C13: The transfer records of a node are final. Whatever calls the sessions make, in any order and interleaving:
  each active transfer has a record of its own that says it is initiated or in progress, and once a
  transfer has ended or failed its record has a final status and no later call changes it. The
  identifiers drawn are assumed to be distinct and new, and records to be read back as written.
\<close>

theorem finished_records_final:
  assumes ok: "serde_ok sd" "inj (\<lambda>n. ne_uuid (env n))" and inv: "node_inv sd env h"
    and a: "ph_active h handle = Some a" and fin: "finishes ev"
  shows "\<exists>r. \<not> running (tr_status r) \<and>
    (\<forall>calls. let h' = fold (node_step sd env c) calls (node_step sd env c (Call_Event session handle ev) h) in
       node_record sd (ac_record_id a) h' = Some r \<and> node_inv sd env h' \<and>
       (\<forall>n b. ph_active h' n = Some b \<longrightarrow> ac_record_id b \<noteq> ac_record_id a \<and>
         (\<exists>q. node_record sd (ac_record_id b) h' = Some q \<and> running (tr_status q))))"
proof -
  let ?e = "env (ph_calls h)"
  let ?h1 = "node_step sd env c (Call_Event session handle ev) h"
  from transfer_event_effect [OF ok(1) a, of ?e session ev] fin obtain f where
    t: "touches sd (ac_record_id a) f h (pw_transfer_event sd ?e session handle ev h)"
      "ph_active (pw_transfer_event sd ?e session handle ev h) = (ph_active h)(handle := None)" "\<And>r. \<not> running (tr_status (f r))"
    by auto
  obtain r where r: "node_record sd (ac_record_id a) h = Some r" using node_inv_active [OF inv a] by metis
  have rec: "node_record sd (ac_record_id a) ?h1 = Some (f r)"
    using t(1) r by (simp add: touches_def pw_ops_def node_record_def transfers_def)
  have "inactive ?h1 (ac_record_id a)"
    using t(2) inv a by (auto simp: inactive_def pw_ops_def node_inv_def split: if_splits)
  moreover have inv1: "node_inv sd env ?h1" using node_step_inv [OF inv ok] by blast
  ultimately have "node_record sd (ac_record_id a) (fold (node_step sd env c) calls ?h1) = Some (f r)"
    "inactive (fold (node_step sd env c) calls ?h1) (ac_record_id a)"
    "node_inv sd env (fold (node_step sd env c) calls ?h1)" for calls
    using node_run_inv [OF ok inv1, of c calls "ac_record_id a" "f r"] rec by blast+
  with t(3) show ?thesis
    unfolding Let_def by (intro exI [of _ "f r"]) (auto simp: inactive_def; metis node_inv_active)
qed

definition sample_serde :: "transfer_record node_serde" where
  "sample_serde = \<lparr>sd_partner = \<lparr>cd_to = (\<lambda>_. transfer_record_default), cd_from = (\<lambda>_. None)\<rparr>,
     sd_file = \<lparr>cd_to = (\<lambda>_. transfer_record_default), cd_from = (\<lambda>_. None)\<rparr>, sd_record = plain_codec,
     sd_connector = \<lparr>cd_to = (\<lambda>_. transfer_record_default), cd_from = (\<lambda>_. None)\<rparr>\<rparr>"

definition sample_env :: "nat \<Rightarrow> node_env" where
  "sample_env n = \<lparr>ne_uuid = [0, n], ne_staging_uuid = [1, n], ne_now_iso = rstr ''2026-01-01T00:00:00.000Z'',
     ne_now_compact = rstr ''20260101_000000'', ne_today = rstr ''2026-01-01'', ne_now_time = rstr ''00-00-00'',
     ne_pesit_now = rstr ''260101000000'', ne_instant = 1000 * n, ne_temp_dir = rstr ''/tmp'',
     ne_metadata = (\<lambda>_. Inl Io_NotFound), ne_modified = (\<lambda>_. None), ne_open = (\<lambda>_. Inl Io_NotFound), ne_script = [],
     ne_disk = (\<lambda>_. \<lparr>dk_file = None, dk_tmp = None\<rparr>), ne_open_fault = No_Fault, ne_clear_fault = No_Fault,
     ne_from_slice = (\<lambda>_. None), ne_sha256 = (\<lambda>_. None), ne_attempt = (\<lambda>_ _ _ _. Inr ()), ne_io_text = (\<lambda>_. []),
     ne_connector_text = (\<lambda>_. [])\<rparr>"

definition sample_session :: session_info where
  "sample_session = \<lparr>si_id = rstr ''s1'', si_requester = rstr ''P1'', si_server = rstr ''S'', si_remote_addr = rstr ''test'',
     si_negotiated = \<lparr>ng_version = Version_E, ng_sync = SYNC_NONE, ng_resync = True, ng_crc = False\<rparr>\<rparr>"

definition sample_active :: active where
  "sample_active = \<lparr>ac_record_id = [7], ac_file_size = None, ac_last_update = 0, ac_last_bytes = 0, ac_last_sync = 0,
     ac_connector_upload = None, ac_connector_temp = None\<rparr>"

definition sample_node :: "transfer_record pw_handler" where
  "sample_node =
     (pw_new (js_set T_TRANSFERS [\<lparr>rw_key = [7], rw_doc = transfer_record_default\<lparr>tr_transfer_id := [7]\<rparr>, rw_seq = 1\<rparr>] js_new)
        pesit_server_config_default [] [] (\<lambda>_. None))\<lparr>ph_active := [1 \<mapsto> sample_active]\<rparr>"

lemma sample_node_ok: "serde_ok sample_serde" "inj (\<lambda>n. ne_uuid (sample_env n))" "node_inv sample_serde sample_env sample_node"
proof -
  have "transfers sample_node = Some [\<lparr>rw_key = [7], rw_doc = transfer_record_default\<lparr>tr_transfer_id := [7]\<rparr>, rw_seq = 1\<rparr>]"
    by (simp add: transfers_def sample_node_def pw_new_def js_set_def)
  then show "node_inv sample_serde sample_env sample_node"
    by (auto simp: node_inv_def has_key_def tb_find_def sample_env_def sample_node_def node_record_def sample_active_def
        sample_serde_def plain_codec_def running_def transfer_record_default_def split: if_splits)
qed (simp_all add: serde_ok_def sample_serde_def plain_codec_def inj_def sample_env_def)

text \<open>A transfer that fails before its first synchronisation point.\<close>

theorem finished_records_final_witness:
  "\<exists>r. \<not> running (tr_status r) \<and>
    node_record sample_serde [7]
      (node_step sample_serde sample_env (\<lambda>_. []) (Call_Event sample_session 1 (Ev_Failed S_Cancelled)) sample_node) = Some r"
proof -
  have "ph_active sample_node 1 = Some sample_active" by (simp add: sample_node_def)
  from finished_records_final [OF sample_node_ok this, of "Ev_Failed S_Cancelled" "\<lambda>_. []" sample_session] obtain r where
    r: "\<not> running (tr_status r)" and *: "\<forall>calls. let h' = fold (node_step sample_serde sample_env (\<lambda>_. [])) calls
        (node_step sample_serde sample_env (\<lambda>_. []) (Call_Event sample_session 1 (Ev_Failed S_Cancelled)) sample_node) in
      node_record sample_serde (ac_record_id sample_active) h' = Some r \<and> node_inv sample_serde sample_env h' \<and>
      (\<forall>n b. ph_active h' n = Some b \<longrightarrow> ac_record_id b \<noteq> ac_record_id sample_active \<and>
        (\<exists>q. node_record sample_serde (ac_record_id b) h' = Some q \<and> running (tr_status q)))"
    by (auto simp del: node_step.simps)
  from * [THEN spec, of "[]"] r show ?thesis
    by (simp add: Let_def sample_active_def del: node_step.simps)
qed

end
