(* ===== verification/Node_Access.thy ===== *)
theory Node_Access
  imports Node_Records Builder_Props
begin

text \<open>
  Who may do what on a node: when a connection is accepted, and what the acceptance of a file
  transfer guarantees about the partner, the virtual file and the physical file.
\<close>

section \<open>Connections\<close>

definition expected_text :: "rstring option \<Rightarrow> rstring \<Rightarrow> bool" where
  \<comment> \<open>the configured secret, if there is one, is the given text without surrounding blanks\<close>
  "expected_text secret given \<longleftrightarrow> (\<forall>s. secret = Some s \<longrightarrow> s \<noteq> [] \<longrightarrow> str_trim given = s)"

lemma non_empty_eq_Some: "non_empty m = Some s \<longleftrightarrow> m = Some s \<and> s \<noteq> []"
  by (auto simp: non_empty_def split: option.splits)

lemma wrong_text:
  "(case non_empty m of None \<Rightarrow> False | Some e \<Rightarrow> t \<noteq> e) \<longleftrightarrow> (\<exists>s. m = Some s \<and> s \<noteq> [] \<and> t \<noteq> s)"
  by (auto simp: non_empty_def split: option.splits)

text \<open>C16: A connection is accepted exactly when the requester is a configured and enabled partner, gives the
  configured password (if there is one) and the configured pre-connection password (if there is one
  and the connection was pre-connected), and asks for an access its rights cover. Authentication changes nothing.
\<close>

theorem connection_accepted_iff:
  "((\<exists>a. fst (pw_authenticate sd req h) = Inr a) \<longleftrightarrow>
    (\<exists>p. pw_partner sd (cr_requester req) h = Some p \<and> pt_enabled p \<and>
      expected_text (pt_password p) (unwrap_or [] (cr_password req)) \<and>
      (case cr_preconnect req of None \<Rightarrow> True | Some (i, pwd) \<Rightarrow> expected_text (pt_preconnect_password p) pwd) \<and>
      (case cr_access req of
         Access_Write \<Rightarrow> pt_access_type p \<noteq> Acc_Read
       | Access_Read \<Rightarrow> pt_access_type p \<noteq> Acc_Write
       | Access_Mixed \<Rightarrow> True))) \<and>
   snd (pw_authenticate sd req h) = h"
proof (cases "pw_partner sd (cr_requester req) h")
  case (Some p)
  have acc: "access_allowed (cr_access req) (pt_access_type p) \<longleftrightarrow>
      (case cr_access req of Access_Write \<Rightarrow> pt_access_type p \<noteq> Acc_Read | Access_Read \<Rightarrow> pt_access_type p \<noteq> Acc_Write
        | Access_Mixed \<Rightarrow> True)"
    by (cases "pt_access_type p") (auto simp: access_allowed_def split: access_type.split)
  have pre: "(case cr_preconnect req of None \<Rightarrow> False
        | Some (i, pwd) \<Rightarrow> (case non_empty (pt_preconnect_password p) of None \<Rightarrow> False | Some expected \<Rightarrow> str_trim pwd \<noteq> expected)) \<longleftrightarrow>
      \<not> (case cr_preconnect req of None \<Rightarrow> True | Some (i, pwd) \<Rightarrow> expected_text (pt_preconnect_password p) pwd)"
    by (auto simp: expected_text_def non_empty_def split: option.splits)
  show ?thesis
    by (simp add: pw_authenticate_def Some wrong_text pre acc) (auto simp: expected_text_def)
qed (simp add: pw_authenticate_def)

section \<open>The announced size\<close>

text \<open>
  The quota compares the announced number of kilobytes times 1024 in 64 bits: an announcement that
  overflows passes every quota.
\<close>

lemma over_quota_wraps: "fs_max_reservation file = 2 ^ 54 \<Longrightarrow> \<not> over_quota vf file"
  by (simp add: over_quota_def word_less_nat_alt)

lemma over_quota_exact:
  "unat (fs_max_reservation file) < 2 ^ 54 \<Longrightarrow>
    over_quota vf file \<longleftrightarrow> 0 < unat (vf_max_file_size vf) \<and> unat (vf_max_file_size vf) < unat (fs_max_reservation file) * 1024"
  by (simp add: over_quota_def word_less_nat_alt unat_word_ariths)

section \<open>File transfers\<close>

lemma h_bind_Inr: "h_bind m f h = (Inr y, h') \<longleftrightarrow> (\<exists>x h1. m h = (Inr x, h1) \<and> f x h1 = (Inr y, h'))"
  by (auto simp: h_bind_def split: prod.splits sum.splits)

lemma check_partner_Inr:
  "check_partner sd session file w h = (Inr p, h') \<longleftrightarrow>
    h' = h \<and> pw_partner sd (si_requester session) h = Some p \<and>
    (if w then can_write (pt_access_type p) else can_read (pt_access_type p)) \<and> can_access_file p (fs_file_name file)"
  by (auto simp: check_partner_def split: option.splits)

lemma receivable_file_Inr:
  "receivable_file sd file h = (Inr vf, h') \<longleftrightarrow>
    h' = h \<and> pw_virtual_file sd (fs_file_name file) h = Some vf \<and> vf_enabled vf \<and> can_receive vf \<and> \<not> over_quota vf file"
  by (auto simp: receivable_file_def split: option.splits)

lemma sendable_file_Inr:
  "sendable_file sd file h = (Inr vf, h') \<longleftrightarrow>
    h' = h \<and> pw_virtual_file sd (fs_file_name file) h = Some vf \<and> vf_enabled vf \<and> can_send vf"
  by (auto simp: sendable_file_def split: option.splits)

text \<open>The record that a restarted transfer continues, the path a received file is written to, and where the file that is
  read comes from.\<close>

definition continued_record :: "'j node_serde \<Rightarrow> partner \<Rightarrow> file_spec \<Rightarrow> u32 \<Rightarrow> 'j pw_handler \<Rightarrow> transfer_record option" where
  "continued_record sd p file tid h =
     (if fs_restarted file then interrupted_record sd (pt_id p) (fs_file_name file) tid h else None)"

definition received_file_path :: "node_env \<Rightarrow> virtual_file \<Rightarrow> session_info \<Rightarrow> file_spec \<Rightarrow> u32 \<Rightarrow> transfer_record option \<Rightarrow> 'j pw_handler \<Rightarrow> rstring" where
  "received_file_path env vf session file tid previous h =
     (if non_empty (vf_connector vf) \<noteq> None
      then staging_path env (rstr ''recv-'' @ vf_id vf @ rstr ''-'' @ nat_string (unat tid))
      else case previous of
        Some prev \<Rightarrow> unwrap_or (receive_path env vf session file tid h) (tr_local_path prev)
      | None \<Rightarrow> receive_path env vf session file tid h)"

lemma create_target_Inr:
  assumes "create_target env vf session file tid previous cps h = Inr (path, restart, cps')"
  shows "path = (case previous of Some prev \<Rightarrow> unwrap_or (receive_path env vf session file tid h) (tr_local_path prev)
      | None \<Rightarrow> receive_path env vf session file tid h)"
    and "previous = None \<Longrightarrow> restart = None \<and> (vf_overwrite vf \<or> \<not> ne_exists env (receive_path env vf session file tid h))"
    and "restart \<noteq> None \<Longrightarrow> ne_exists env (part_path path)"
  using assms by (auto simp: create_target_def Let_def unwrap_or_def split: option.splits if_splits)

lemma pesit_transfer_id_tables: "pesit_transfer_id n h = (r, h') \<Longrightarrow> js_tables (ph_store h') = js_tables (ph_store h)"
  by (auto simp: pesit_transfer_id_def js_next_counter_def Let_def split: if_splits prod.splits)

lemma interrupted_record_cong:
  "js_tables (ph_store h') = js_tables (ph_store h) \<Longrightarrow> ph_server h' = ph_server h \<Longrightarrow>
    interrupted_record sd i f tid h' = interrupted_record sd i f tid h"
  by (simp add: interrupted_record_def js_list_def js_rows_def cong: if_cong sum.case_cong)

lemma connector_key_server: "ph_server h' = ph_server h \<Longrightarrow> connector_key env vf session file tid i h' = connector_key env vf session file tid i h"
  by (cases "non_empty (vf_connector_path vf)") (simp_all add: connector_key_def)

lemma stage_attempts_cong:
  "js_tables (ph_store h') = js_tables (ph_store h) \<Longrightarrow> stage_attempts sd env cid remote path h' = stage_attempts sd env cid remote path h"
  by (simp add: stage_attempts_def connector_build_def js_get_def js_rows_def)

lemma receive_path_server: "ph_server h' = ph_server h \<Longrightarrow> receive_path env vf session file tid h' = receive_path env vf session file tid h"
  by (cases "non_empty (vf_receive_directory vf)") (simp_all add: receive_path_def)

lemma map_err_eq_Inr: "map_err f r = Inr x \<longleftrightarrow> r = Inr x"
  by (cases r) (simp_all add: map_err_def)

lemma pesit_transfer_id_server: "pesit_transfer_id n h = (r, h') \<Longrightarrow> ph_server h' = ph_server h"
  by (auto simp: pesit_transfer_id_def split: if_splits prod.splits)

text \<open>C14: Access control of incoming files. When the node accepts a file, the requester is a configured partner with
  the right to send that may access this file name, and the virtual file is configured, enabled and open for
  reception. The announced size is within the quota of the virtual file, if it has one, in exact arithmetic for
  announcements below \<open>2^54\<close> kilobytes (a larger one may pass, see above). The file goes to the
  staging file of the virtual file's connector, if it has one; else, for a restarted transfer, to the path of the interrupted record
  it continues, if there is one; and else to the path the pattern of the virtual file gives. Only a transfer that continues
  no record is tested against a file already there: it is accepted only if the virtual file may be overwritten or there is no such
  file, and it starts at the beginning; one that does continue a record starts at the beginning too, unless a part of the file
  has been kept and no connector is used.
\<close>

theorem create_authorised:
  assumes "pw_create sd env session file h = (Inr acc, h')"
  shows "\<exists>p vf tid k. pw_partner sd (si_requester session) h = Some p \<and> pt_access_type p \<noteq> Acc_Read \<and>
    can_access_file p (fs_file_name file) \<and> pw_virtual_file sd (fs_file_name file) h = Some vf \<and>
    vf_enabled vf \<and> vf_direction vf \<noteq> Dir_Send \<and> cra_transfer_id acc = Some tid \<and>
    (unat (fs_max_reservation file) < 2 ^ 54 \<longrightarrow>
      unat (vf_max_file_size vf) = 0 \<or> 1024 * unat (fs_max_reservation file) \<le> unat (vf_max_file_size vf)) \<and>
    open_sink env (received_file_path env vf session file tid (continued_record sd p file tid h) h) (vf_format vf) (cra_restart acc) = Inr k \<and>
    cra_sink acc = sink_with_ebcdic (fs_data_code file = Some 1 \<or> vf_ebcdic vf) k \<and>
    (continued_record sd p file tid h = None \<longrightarrow>
      cra_restart acc = None \<and> (vf_overwrite vf \<or> \<not> ne_exists env (receive_path env vf session file tid h))) \<and>
    (cra_restart acc \<noteq> None \<longrightarrow> non_empty (vf_connector vf) = None \<and>
      ne_exists env (part_path (received_file_path env vf session file tid (continued_record sd p file tid h) h)))"
proof -
  from assms obtain p vf tid h1 cps path restart cps' k where
    p: "pw_partner sd (si_requester session) h = Some p" "can_write (pt_access_type p)" "can_access_file p (fs_file_name file)"
    and vf: "pw_virtual_file sd (fs_file_name file) h = Some vf" "vf_enabled vf" "can_receive vf" "\<not> over_quota vf file"
    and tid: "pesit_transfer_id (fs_transfer_id file) h = (Inr tid, h1)"
    and target: "create_target env vf session file tid (continued_record sd p file tid h1) cps h1 = Inr (path, restart, cps')"
    and k: "open_sink env (if non_empty (vf_connector vf) = None then path
         else staging_path env (rstr ''recv-'' @ vf_id vf @ rstr ''-'' @ nat_string (unat tid))) (vf_format vf) (cra_restart acc) = Inr k"
    and acc: "cra_transfer_id acc = Some tid" "cra_restart acc = (if non_empty (vf_connector vf) = None then restart else None)"
      "cra_sink acc = sink_with_ebcdic (fs_data_code file = Some 1 \<or> vf_ebcdic vf) k"
    unfolding pw_create_def Let_def continued_record_def
    by (simp add: h_bind_Inr check_partner_Inr receivable_file_Inr) (auto simp: h_bind_Inr)
  note same = pesit_transfer_id_server [OF tid] pesit_transfer_id_tables [OF tid]
  have prev: "continued_record sd p file tid h1 = continued_record sd p file tid h"
    by (simp add: continued_record_def interrupted_record_cong [OF same(2,1)])
  note t = create_target_Inr [OF target, unfolded prev receive_path_server [OF same(1)]]
  have path: "received_file_path env vf session file tid (continued_record sd p file tid h) h = (if non_empty (vf_connector vf) = None then path
         else staging_path env (rstr ''recv-'' @ vf_id vf @ rstr ''-'' @ nat_string (unat tid)))"
    unfolding t(1) by (simp add: received_file_path_def)
  have "unat (fs_max_reservation file) < 2 ^ 54 \<longrightarrow>
      unat (vf_max_file_size vf) = 0 \<or> 1024 * unat (fs_max_reservation file) \<le> unat (vf_max_file_size vf)"
    using vf(4) over_quota_exact [of "file" vf] by auto
  moreover have "pt_access_type p \<noteq> Acc_Read" "vf_direction vf \<noteq> Dir_Send" using p(2) vf(3) by (auto simp: can_receive_def)
  moreover have "continued_record sd p file tid h = None \<longrightarrow>
      cra_restart acc = None \<and> (vf_overwrite vf \<or> \<not> ne_exists env (receive_path env vf session file tid h))"
    using t(2) acc(2) by auto
  moreover have "cra_restart acc \<noteq> None \<longrightarrow> non_empty (vf_connector vf) = None \<and>
      ne_exists env (part_path (received_file_path env vf session file tid (continued_record sd p file tid h) h))"
    unfolding path using t(3) acc(2) by auto
  moreover note p(1,3) vf(1,2) acc(1,3) k [folded path]
  ultimately show ?thesis by (intro exI [of _ p] exI [of _ vf] exI [of _ tid] exI [of _ k] conjI)
qed

text \<open>C15: Access control of outgoing files: an accepted selection is for a partner with the right to read that may access
  the name, of a virtual file that is configured, enabled and open for sending, and the file that is
  read is never a path the partner gives: it is the one configured for the virtual file or the entry of the send directory with its name;
  and with a connector it is the staging file of this transfer, into which the connector the virtual file names has just fetched
  the remote file that the virtual file configures.
\<close>

theorem select_authorised:
  assumes "pw_select sd env session file attrs h = (Inr acc, h')"
  shows "\<exists>p vf tid path. pw_partner sd (si_requester session) h = Some p \<and> pt_access_type p \<noteq> Acc_Write \<and>
    can_access_file p (fs_file_name file) \<and> pw_virtual_file sd (fs_file_name file) h = Some vf \<and>
    vf_enabled vf \<and> vf_direction vf \<noteq> Dir_Receive \<and> fs_transfer_id (sa_spec acc) = tid \<and>
    ne_open env path = Inr (fr_file (sa_source acc)) \<and>
    (case non_empty (vf_connector vf) of
       None \<Rightarrow> path = (case non_empty (vf_send_file vf) of Some q \<Rightarrow> q | None \<Rightarrow> path_join (ps_send_directory (ph_server h)) (vf_id vf))
     | Some cid \<Rightarrow> path = staging_path env (rstr ''send-'' @ vf_id vf @ rstr ''-'' @ nat_string (unat tid)) \<and>
         stage_attempts sd env cid (connector_key env vf session file tid (vf_id vf) h) path h = Inr ())"
proof -
  from assms obtain p vf tid h1 path h2 source where
    p: "pw_partner sd (si_requester session) h = Some p" "can_read (pt_access_type p)" "can_access_file p (fs_file_name file)"
    and vf: "pw_virtual_file sd (fs_file_name file) h = Some vf" "vf_enabled vf" "can_send vf"
    and tid: "pesit_transfer_id (fs_transfer_id file) h = (Inr tid, h1)"
    and path: "select_path sd env vf session file tid h1 = (Inr path, h2)"
    and src: "source_open (ne_open env path) (vf_format vf) (unat (vf_record_length vf)) (ne_script env) = Inr source"
      "sa_source acc = source_with_ebcdic (vf_ebcdic vf) source" "fs_transfer_id (sa_spec acc) = tid"
    unfolding pw_select_def Let_def
    by (simp add: h_bind_Inr check_partner_Inr sendable_file_Inr) (auto simp: h_bind_Inr map_err_eq_Inr select_spec_def Let_def)
  note same = pesit_transfer_id_server [OF tid] pesit_transfer_id_tables [OF tid]
  from src have "ne_open env path = Inr (fr_file (sa_source acc))"
    by (auto simp: source_open_def source_with_ebcdic_def and_then_eq_Inr map_err_def split: sum.splits)
  moreover have "pt_access_type p \<noteq> Acc_Write" "vf_direction vf \<noteq> Dir_Receive" using p(2) vf(3) by (auto simp: can_send_def)
  moreover have "case non_empty (vf_connector vf) of
       None \<Rightarrow> path = (case non_empty (vf_send_file vf) of Some q \<Rightarrow> q | None \<Rightarrow> path_join (ps_send_directory (ph_server h)) (vf_id vf))
     | Some cid \<Rightarrow> path = staging_path env (rstr ''send-'' @ vf_id vf @ rstr ''-'' @ nat_string (unat tid)) \<and>
         stage_attempts sd env cid (connector_key env vf session file tid (vf_id vf) h) path h = Inr ()"
    using path same
    by (auto simp: select_path_def Let_def h_bind_Inr stage_fetch_def map_err_eq_Inr connector_key_server [OF same(1)]
        stage_attempts_cong [OF same(2)] split: option.splits)
  ultimately show ?thesis using p vf src(3) by (intro exI [of _ p] exI [of _ vf] exI [of _ tid] exI [of _ path]) simp
qed

text \<open>A node with one partner, which may read and write \<open>A*\<close> and \<open>b\<close>, and one virtual file for both directions.\<close>

datatype sample_doc = Doc_Partner partner | Doc_File virtual_file | Doc_Record transfer_record | Doc_Connector connector_config

definition sample_codecs :: "sample_doc node_serde" where
  "sample_codecs = \<lparr>
     sd_partner = \<lparr>cd_to = Doc_Partner, cd_from = (\<lambda>d. case d of Doc_Partner p \<Rightarrow> Some p | _ \<Rightarrow> None)\<rparr>,
     sd_file = \<lparr>cd_to = Doc_File, cd_from = (\<lambda>d. case d of Doc_File p \<Rightarrow> Some p | _ \<Rightarrow> None)\<rparr>,
     sd_record = \<lparr>cd_to = Doc_Record, cd_from = (\<lambda>d. case d of Doc_Record p \<Rightarrow> Some p | _ \<Rightarrow> None)\<rparr>,
     sd_connector = \<lparr>cd_to = Doc_Connector, cd_from = (\<lambda>d. case d of Doc_Connector p \<Rightarrow> Some p | _ \<Rightarrow> None)\<rparr>\<rparr>"

definition sample_vf :: virtual_file where
  "sample_vf = virtual_file_default\<lparr>vf_id := rstr ''ABC''\<rparr>"

definition configured_node :: "sample_doc pw_handler" where
  "configured_node = pw_new
     (js_set T_TRANSFERS []
       (js_set T_FILES [\<lparr>rw_key = rstr ''ABC'', rw_doc = Doc_File sample_vf, rw_seq = 1\<rparr>]
         (js_set T_PARTNERS [\<lparr>rw_key = rstr ''P1'', rw_doc = Doc_Partner sample_partner, rw_seq = 1\<rparr>] js_new)))
     pesit_server_config_default [] [] (\<lambda>_. None)"

definition file_env :: node_env where
  "file_env = (sample_env 0)\<lparr>ne_open := (\<lambda>_. Inr [1, 2, 3]), ne_metadata := (\<lambda>_. Inr 3)\<rparr>"

definition sample_file :: file_spec where
  "sample_file = sample_spec\<lparr>fs_file_name := rstr ''ABC'', fs_transfer_id := 5, fs_restarted := False, fs_max_reservation := 1\<rparr>"

lemma configured_node_rows:
  "pw_partner sample_codecs (si_requester sample_session) configured_node = Some sample_partner"
  "pw_virtual_file sample_codecs (fs_file_name sample_file) configured_node = Some sample_vf"
  "js_rows T_TRANSFERS (ph_store configured_node) = Inr []"
proof -
  have "T_TRANSFERS \<noteq> T_FILES" "T_TRANSFERS \<noteq> T_PARTNERS" "T_FILES \<noteq> T_PARTNERS"
    by (simp_all add: T_TRANSFERS_def T_FILES_def T_PARTNERS_def rstr_def)
  then show "pw_partner sample_codecs (si_requester sample_session) configured_node = Some sample_partner"
    "pw_virtual_file sample_codecs (fs_file_name sample_file) configured_node = Some sample_vf"
    "js_rows T_TRANSFERS (ph_store configured_node) = Inr []"
    by (simp_all add: configured_node_def pw_new_def pw_partner_def pw_virtual_file_def js_get_def js_rows_def js_set_def
        tb_find_def js_decode_def sample_codecs_def sample_session_def sample_file_def)
qed

lemma configured_node_checks:
  "check_partner sample_codecs sample_session sample_file w configured_node = (Inr sample_partner, configured_node)"
  "receivable_file sample_codecs sample_file configured_node = (Inr sample_vf, configured_node)"
  "sendable_file sample_codecs sample_file configured_node = (Inr sample_vf, configured_node)"
  "pesit_transfer_id (fs_transfer_id sample_file) configured_node = (Inr 5, configured_node)"
  "\<not> fs_restarted sample_file" "non_empty (vf_connector sample_vf) = None"
  using allowed_files_sample(1)
  by (simp_all add: check_partner_Inr receivable_file_Inr sendable_file_Inr configured_node_rows pesit_transfer_id_def)
    (simp_all add: sample_file_def sample_partner_def partner_default_def sample_vf_def virtual_file_default_def
      can_receive_def can_send_def over_quota_def non_empty_def)

lemma configured_node_create:
  "\<exists>acc h'. pw_create sample_codecs (sample_env 0) sample_session sample_file configured_node = (Inr acc, h')"
proof -
  have "\<exists>cps. pw_checkpoints (sample_env 0) k configured_node = Inr cps" for k
    by (simp add: pw_checkpoints_def fc_open_def sample_env_def)
  moreover have "\<exists>path cps'. create_target (sample_env 0) vf sample_session sample_file 5 None cps configured_node =
      Inr (path, None, cps')" for cps vf
    by (simp add: create_target_def ne_exists_def sample_env_def)
  moreover have "\<exists>k. open_sink (sample_env 0) path format None = Inr k" for path format
    by (simp add: open_sink_def sample_env_def ne_content_def sink_create_def Let_def then_sink_def sink_call_def os_call_def)
  ultimately show ?thesis
    by (simp add: pw_create_def h_bind_Inr configured_node_checks Let_def pw_register_def js_put_def configured_node_rows
        map_err_eq_Inr) metis
qed

lemma configured_node_select:
  "\<exists>acc h'. pw_select sample_codecs file_env sample_session sample_file ATTRIBUTES_ALL configured_node = (Inr acc, h')"
proof -
  obtain cps where cps: "pw_checkpoints file_env (restart_key sample_session sample_file 5) configured_node = Inr cps"
    by (simp add: pw_checkpoints_def fc_open_def file_env_def sample_env_def)
  obtain path where path: "select_path sample_codecs file_env sample_vf sample_session sample_file 5 configured_node = (Inr path, configured_node)"
    by (simp add: select_path_def configured_node_checks)
  obtain k where k: "source_open (ne_open file_env path) (vf_format sample_vf) (unat (vf_record_length sample_vf)) (ne_script file_env) = Inr k"
    by (simp add: source_open_def file_env_def sample_env_def os_call_def map_err_def)
  have "ne_metadata file_env path = Inr 3" by (simp add: file_env_def)
  with cps path k show ?thesis
    by (simp add: pw_select_def h_bind_Inr configured_node_checks Let_def pw_register_def js_put_def configured_node_rows
        map_err_eq_Inr)
qed

theorem create_authorised_witness:
  "\<exists>acc p vf. fst (pw_create sample_codecs (sample_env 0) sample_session sample_file configured_node) = Inr acc \<and>
    pw_partner sample_codecs (rstr ''P1'') configured_node = Some p \<and> pt_access_type p \<noteq> Acc_Read \<and>
    can_access_file p (rstr ''ABC'') \<and> pw_virtual_file sample_codecs (rstr ''ABC'') configured_node = Some vf \<and> vf_enabled vf"
proof -
  obtain acc h' where "pw_create sample_codecs (sample_env 0) sample_session sample_file configured_node = (Inr acc, h')"
    using configured_node_create by blast
  from create_authorised [OF this] this show ?thesis by (auto simp: sample_file_def sample_session_def)
qed

theorem select_authorised_witness:
  "\<exists>acc p vf. fst (pw_select sample_codecs file_env sample_session sample_file ATTRIBUTES_ALL configured_node) = Inr acc \<and>
    pw_partner sample_codecs (rstr ''P1'') configured_node = Some p \<and> pt_access_type p \<noteq> Acc_Write \<and>
    can_access_file p (rstr ''ABC'') \<and> pw_virtual_file sample_codecs (rstr ''ABC'') configured_node = Some vf \<and> vf_enabled vf"
proof -
  obtain acc h' where "pw_select sample_codecs file_env sample_session sample_file ATTRIBUTES_ALL configured_node = (Inr acc, h')"
    using configured_node_select by blast
  from select_authorised [OF this] this show ?thesis by (auto simp: sample_file_def sample_session_def)
qed

end
