(* ===== verification/Client_Model.thy ===== *)
theory Client_Model
  imports Node_Model
begin

text \<open>
  The documents of the transfer client (\<^verbatim>\<open>pesit-client/src/model.rs\<close>): servers, credentials, requests, the
  history of transfers. An error message is the value it shows, as in \<open>Node_Model\<close>.
\<close>

section \<open>Servers and credentials\<close>

record pesit_server =
  sv_id :: rstring
  sv_name :: rstring
  sv_host :: rstring
  sv_port :: u16
  sv_server_id :: rstring
  sv_description :: "rstring option"
  sv_tls_enabled :: bool
  sv_hostname_verification :: bool
  sv_insecure :: bool
  sv_ca_file :: "rstring option"
  sv_cert_file :: "rstring option"
  sv_key_file :: "rstring option"
  sv_tcpip_header :: bool
  sv_truststore_configured :: bool
  sv_keystore_configured :: bool
  sv_connection_timeout :: u64
  sv_read_timeout :: u64
  sv_enabled :: bool
  sv_default_server :: bool
  sv_crc_enabled :: bool
  sv_preconnect_id :: "rstring option"
  sv_preconnect_password :: "rstring option"
  sv_created_at :: "rstring option"
  sv_updated_at :: "rstring option"

definition pesit_server_default :: pesit_server where
  "pesit_server_default = \<lparr>sv_id = [], sv_name = [], sv_host = [], sv_port = 5000, sv_server_id = [], sv_description = None,
     sv_tls_enabled = False, sv_hostname_verification = True, sv_insecure = False, sv_ca_file = None, sv_cert_file = None,
     sv_key_file = None, sv_tcpip_header = True, sv_truststore_configured = False, sv_keystore_configured = False,
     sv_connection_timeout = 30000, sv_read_timeout = 60000, sv_enabled = True, sv_default_server = False,
     sv_crc_enabled = False, sv_preconnect_id = None, sv_preconnect_password = None, sv_created_at = None,
     sv_updated_at = None\<rparr>"

record client_partner =
  cl_id :: rstring
  cl_partner_id :: rstring
  cl_description :: "rstring option"
  cl_password :: "rstring option"
  cl_created_at :: "rstring option"
  cl_updated_at :: "rstring option"

section \<open>Requests\<close>

record transfer_request =
  tq_server :: "rstring option"
  tq_partner_id :: "rstring option"
  tq_password :: "rstring option"
  tq_filename :: "rstring option"
  tq_remote_filename :: "rstring option"
  tq_virtual_file :: "rstring option"
  tq_file_type :: "u64 option"
  tq_transfer_config :: "rstring option"
  tq_correlation_id :: "rstring option"
  tq_compression_enabled :: "bool option"
  tq_priority :: "u8 option"
  tq_sync_points_enabled :: "bool option"
  tq_sync_point_interval_bytes :: "u64 option"
  tq_sync_point_interval :: "u64 option"
  tq_resync_enabled :: "bool option"
  tq_resume_from_transfer_id :: "rstring option"
  tq_record_length :: "u32 option"
  tq_text :: "bool option"
  tq_ebcdic :: "bool option"
  tq_crc_enabled :: "bool option"
  tq_max_entity_size :: "u16 option"
  tq_label :: "rstring option"
  tq_client_id :: "rstring option"
  tq_bank_id :: "rstring option"
  tq_free_message :: "rstring option"

definition transfer_request_default :: transfer_request where
  "transfer_request_default = \<lparr>tq_server = None, tq_partner_id = None, tq_password = None, tq_filename = None,
     tq_remote_filename = None, tq_virtual_file = None, tq_file_type = None, tq_transfer_config = None,
     tq_correlation_id = None, tq_compression_enabled = None, tq_priority = None, tq_sync_points_enabled = None,
     tq_sync_point_interval_bytes = None, tq_sync_point_interval = None, tq_resync_enabled = None,
     tq_resume_from_transfer_id = None, tq_record_length = None, tq_text = None, tq_ebcdic = None, tq_crc_enabled = None,
     tq_max_entity_size = None, tq_label = None, tq_client_id = None, tq_bank_id = None, tq_free_message = None\<rparr>"

definition req_virtual_file :: "transfer_request \<Rightarrow> rstring option" where
  "req_virtual_file q =
     non_empty (case tq_remote_filename q of Some n \<Rightarrow> Some n | None \<Rightarrow> tq_virtual_file q)"

definition clamp_interval :: "u64 \<Rightarrow> u16" where
  \<comment> \<open>\<^verbatim>\<open>clamp(1, 0xFFFE) as u16\<close>\<close>
  "clamp_interval v = ucast (min (max v 1) 0xFFFE)"

definition req_sync_interval_kb :: "u16 \<Rightarrow> transfer_request \<Rightarrow> u16" where
  "req_sync_interval_kb default_kb q =
     (case tq_sync_point_interval_bytes q of
        Some b \<Rightarrow> clamp_interval (b div 1024)
      | None \<Rightarrow>
         (case tq_sync_point_interval q of
            Some v \<Rightarrow>
              if v > 0xFFFF then clamp_interval (v div 1024)
              else if v > 0 then ucast (min v 0xFFFE)
              else default_kb
          | None \<Rightarrow> default_kb))"

record message_request =
  mq_server :: "rstring option"
  mq_partner_id :: "rstring option"
  mq_password :: "rstring option"
  mq_message :: rstring
  mq_message_name :: "rstring option"
  mq_correlation_id :: "rstring option"
  mq_expects_reply :: bool

section \<open>History\<close>

datatype xfer_direction = Xd_Send | Xd_Receive | Xd_Message

datatype xfer_status = Xs_Pending | Xs_InProgress | Xs_Completed | Xs_Failed | Xs_Cancelled | Xs_Interrupted

definition is_final :: "xfer_status \<Rightarrow> bool" where
  "is_final s = (\<not> (case s of Xs_Pending \<Rightarrow> True | Xs_InProgress \<Rightarrow> True | _ \<Rightarrow> False))"

record transfer_history =
  th_id :: rstring
  th_server_id :: "rstring option"
  th_server_name :: "rstring option"
  th_partner_id :: "rstring option"
  th_direction :: "xfer_direction option"
  th_local_filename :: "rstring option"
  th_remote_filename :: "rstring option"
  th_file_size :: "u64 option"
  th_bytes_transferred :: u64
  th_status :: xfer_status
  th_error_message :: "error_text option"
  th_diagnostic_code :: "diagnostic option"
  th_checksum :: "rstring option"
  th_correlation_id :: "rstring option"
  th_sync_points_enabled :: bool
  th_last_sync_point :: u32
  th_bytes_at_last_sync_point :: u64
  th_pesit_transfer_id :: u32
  th_request :: "transfer_request option"
  th_started_at :: "rstring option"
  th_completed_at :: "rstring option"
  th_created_at :: "rstring option"

definition transfer_history_default :: transfer_history where
  "transfer_history_default = \<lparr>th_id = [], th_server_id = None, th_server_name = None, th_partner_id = None,
     th_direction = None, th_local_filename = None, th_remote_filename = None, th_file_size = None,
     th_bytes_transferred = 0, th_status = Xs_Pending, th_error_message = None, th_diagnostic_code = None,
     th_checksum = None, th_correlation_id = None, th_sync_points_enabled = False, th_last_sync_point = 0,
     th_bytes_at_last_sync_point = 0, th_pesit_transfer_id = 0, th_request = None, th_started_at = None,
     th_completed_at = None, th_created_at = None\<rparr>"

record transfer_response =
  rp_transfer_id :: rstring
  rp_correlation_id :: "rstring option"
  rp_direction :: "xfer_direction option"
  rp_status :: xfer_status
  rp_server_name :: "rstring option"
  rp_local_filename :: "rstring option"
  rp_remote_filename :: "rstring option"
  rp_file_size :: "u64 option"
  rp_bytes_transferred :: u64
  rp_checksum :: "rstring option"
  rp_error_message :: "error_text option"
  rp_diagnostic_code :: "diagnostic option"
  rp_started_at :: "rstring option"
  rp_completed_at :: "rstring option"
  rp_duration_ms :: "int option"
  rp_reply :: "rstring option"

text \<open>\<open>millis\<close> parses a time stamp (\<^verbatim>\<open>parse_millis\<close>); the difference of two stamps is far from the bounds of an \<^verbatim>\<open>i64\<close>.\<close>

definition response_of :: "(rstring \<Rightarrow> int option) \<Rightarrow> transfer_history \<Rightarrow> transfer_response" where
  "response_of millis h =
     \<lparr>rp_transfer_id = th_id h, rp_correlation_id = th_correlation_id h, rp_direction = th_direction h,
      rp_status = th_status h, rp_server_name = th_server_name h, rp_local_filename = th_local_filename h,
      rp_remote_filename = th_remote_filename h, rp_file_size = th_file_size h,
      rp_bytes_transferred = th_bytes_transferred h, rp_checksum = th_checksum h,
      rp_error_message = th_error_message h, rp_diagnostic_code = th_diagnostic_code h,
      rp_started_at = th_started_at h, rp_completed_at = th_completed_at h,
      rp_duration_ms =
        (case (th_started_at h, th_completed_at h) of
           (Some s, Some e) \<Rightarrow>
             (case (millis e, millis s) of (Some e, Some s) \<Rightarrow> Some (e - s) | _ \<Rightarrow> None)
         | _ \<Rightarrow> None),
      rp_reply = None\<rparr>"

definition C_SERVERS :: rstring where "C_SERVERS = rstr ''remote_servers''"
definition C_PARTNERS :: rstring where "C_PARTNERS = rstr ''client_partners''"
definition C_TRANSFERS :: rstring where "C_TRANSFERS = rstr ''outbound_transfers''"

section \<open>The synchronisation interval of a request\<close>

lemma unat_ucast_u16: "unat (v :: u64) < 65536 \<Longrightarrow> unat (ucast v :: u16) = unat v"
  by (simp add: unsigned_ucast_eq take_bit_nat_eq_self)

lemma u16_interval:
  assumes "1 \<le> v" "v \<le> (0xFFFE :: u64)"
  shows "1 \<le> (ucast v :: u16)" "(ucast v :: u16) \<le> 0xFFFE"
proof -
  from assms have "1 \<le> unat v" "unat v \<le> 0xFFFE" by (simp_all add: word_le_nat_alt)
  then show "1 \<le> (ucast v :: u16)" "(ucast v :: u16) \<le> 0xFFFE"
    by (simp_all add: word_le_nat_alt unat_ucast_u16)
qed

lemma clamp_interval_bounds: "1 \<le> clamp_interval v" "clamp_interval v \<le> 0xFFFE"
  using u16_interval [of "min (max v 1) 0xFFFE"] by (simp_all add: clamp_interval_def)

lemma clamp_interval_exact:
  assumes "1 \<le> v" "v \<le> 0xFFFE"
  shows "unat (clamp_interval v) = unat v"
proof -
  from assms(2) have "unat v < 65536" by (simp add: word_le_nat_alt)
  then show ?thesis using assms by (simp add: clamp_interval_def unat_ucast_u16 max_absorb1 min_absorb1)
qed

lemma default_interval: "tq_sync_point_interval_bytes q = None \<Longrightarrow> tq_sync_point_interval q \<in> {None, Some 0} \<Longrightarrow>
    req_sync_interval_kb d q = d"
  by (auto simp: req_sync_interval_kb_def)

lemma requested_interval_bounds:
  assumes "tq_sync_point_interval_bytes q \<noteq> None \<or> tq_sync_point_interval q \<notin> {None, Some 0}"
  shows "1 \<le> req_sync_interval_kb d q \<and> req_sync_interval_kb d q \<le> 0xFFFE"
proof -
  have "1 \<le> (ucast (min v 0xFFFE) :: u16) \<and> (ucast (min v 0xFFFE) :: u16) \<le> 0xFFFE" if "0 < v" for v :: u64
    using that u16_interval [of "min v 0xFFFE"] by (simp add: min_def word_le_nat_alt word_less_nat_alt)
  with assms clamp_interval_bounds show ?thesis
    by (auto simp: req_sync_interval_kb_def word_greater_zero_iff split: option.splits)
qed

end
