(* ===== verification/Client_Engine.thy ===== *)
theory Client_Engine
  imports Client_Model Node_Handler
begin

text \<open>
  The engine of the transfer client (\<^verbatim>\<open>pesit-client/src/engine.rs\<close>): requests are validated and recorded, then a
  job connects to the server and drives a requester session. The state holds the audit log with the
  document store both share, the settings and the cancellation flags; what was written on each
  connection, the files received, the checkpoint files cleared and the files removed are kept in
  \<open>en_wires\<close>, \<open>en_sinks\<close>, \<open>en_cleared\<close> and \<open>en_removed\<close>.
\<close>

section \<open>State and surroundings\<close>

datatype tls_version = Tls_V1_2 | Tls_V1_3

record tls_client_settings =
  tc_ca_file :: "rstring option"
  tc_cert_file :: "rstring option"
  tc_key_file :: "rstring option"
  tc_verify_hostname :: "bool option"
  tc_insecure :: bool
  tc_min_version :: "tls_version option"

record engine_settings =
  es_checkpoint_dir :: rstring
  es_receive_dir :: rstring
  es_requester_id :: rstring
  es_sync_interval_kb :: u16
  es_sync_window :: u8
  es_record_length :: u32
  es_max_entity_size :: u16
  es_tls_defaults :: tls_client_settings

record 'j engine =
  en_audit :: "'j audit_log"
  en_settings :: engine_settings
  en_cancels :: "rstring \<Rightarrow> bool option"
  en_wires :: "frame_writer list"
  en_sinks :: "file_sink list"
  en_cleared :: "(rstring \<times> file_checkpoints) list"
  en_removed :: "rstring list"

abbreviation en_store :: "'j engine \<Rightarrow> 'j json_store" where
  "en_store e \<equiv> al_store (en_audit e)"

definition set_store :: "'j json_store \<Rightarrow> 'j engine \<Rightarrow> 'j engine" where
  "set_store s e = e\<lparr>en_audit := (en_audit e)\<lparr>al_store := s\<rparr>\<rparr>"

definition engine_new :: "'j audit_log \<Rightarrow> engine_settings \<Rightarrow> 'j engine" where
  "engine_new a st = \<lparr>en_audit = a, en_settings = st, en_cancels = Map.empty, en_wires = [], en_sinks = [],
     en_cleared = [], en_removed = []\<rparr>"

record 'j client_serde =
  ds_server :: "(pesit_server, 'j) codec"
  ds_partner :: "(client_partner, 'j) codec"
  ds_history :: "(transfer_history, 'j) codec"
  ds_event :: "(audit_event, 'j) codec"

text \<open>
  The surroundings of an attempt: what the handler of the node gets, whether a path is a regular file,
  what the connection (TCP and, with its settings, TLS) gives, the operations of the checkpoint files
  during the transfer, the readings of the cancellation flag, the time of each progress report, texts,
  and the fuel of the sending loop.
\<close>

record client_env = node_env +
  cv_is_file :: "rstring \<Rightarrow> bool"
  cv_connect :: "pesit_server \<Rightarrow> tls_client_settings option \<Rightarrow> (session_error, os_result list \<times> rx_event list) result"
  cv_store :: "file_checkpoints store_ops"
  cv_cancel :: "bool list"
  cv_reported :: "nat \<Rightarrow> nat"
  cv_text :: "error_text \<Rightarrow> rstring"
  cv_audit_uuid :: rstring
  cv_millis :: "rstring \<Rightarrow> int option"
  cv_fuel :: nat

section \<open>Servers, credentials and the configuration of a session\<close>

definition resolve_server :: "'j client_serde \<Rightarrow> rstring option \<Rightarrow> 'j engine \<Rightarrow> (api_error, pesit_server) result" where
  "resolve_server ds name e =
     and_then (map_err api_of_store (js_list (ds_server ds) C_SERVERS (en_store e))) (\<lambda>servers.
     ok_or (api_not_found (rstr ''server '' @ quoted (unwrap_or (rstr ''<default>'') name) @ rstr '' not found''))
       (case non_empty name of
          Some n \<Rightarrow> find (\<lambda>s. sv_name s = n \<or> sv_id s = n) servers
        | None \<Rightarrow> find (\<lambda>s. sv_default_server s \<and> sv_enabled s) servers))"

definition password_for :: "'j client_serde \<Rightarrow> rstring \<Rightarrow> rstring option \<Rightarrow> 'j engine \<Rightarrow> rstring option" where
  "password_for ds partner_id explicit e =
     (case non_empty explicit of
        Some p \<Rightarrow> Some p
      | None \<Rightarrow>
         let partners = (case js_list (ds_partner ds) C_PARTNERS (en_store e) of Inl _ \<Rightarrow> [] | Inr ps \<Rightarrow> ps)
         in non_empty (Option.bind (find (\<lambda>p. cl_partner_id p = partner_id) partners) cl_password))"

definition engine_requester_config :: "'j client_serde \<Rightarrow> pesit_server \<Rightarrow> rstring \<Rightarrow> rstring option \<Rightarrow> transfer_request \<Rightarrow>
    access_type \<Rightarrow> 'j engine \<Rightarrow> requester_config" where
  "engine_requester_config ds server partner_id password req access e =
     \<lparr>rc_requester_id = partner_id, rc_server_id = sv_server_id server, rc_password = password_for ds partner_id password e,
      rc_version = Version_E,
      rc_sync = (if unwrap_or True (tq_sync_points_enabled req)
                 then \<lparr>interval_kb = req_sync_interval_kb (es_sync_interval_kb (en_settings e)) req,
                       so_window = es_sync_window (en_settings e)\<rparr>
                 else SYNC_NONE),
      rc_resync = unwrap_or True (tq_resync_enabled req), rc_crc = unwrap_or (sv_crc_enabled server) (tq_crc_enabled req),
      rc_compression = (if unwrap_or False (tq_compression_enabled req) then Comp_Mixed else Comp_None),
      rc_max_entity = unwrap_or (es_max_entity_size (en_settings e)) (tq_max_entity_size req), rc_multi_article = True,
      rc_preconnect = map_option (\<lambda>i. \<lparr>pc_identifier = i, pc_password = unwrap_or [] (sv_preconnect_password server)\<rparr>)
        (non_empty (sv_preconnect_id server)),
      rc_free_message = None, rc_access = access\<rparr>"

definition or_else :: "'a option \<Rightarrow> 'a option \<Rightarrow> 'a option" where
  "or_else a b = (case a of Some x \<Rightarrow> Some x | None \<Rightarrow> b)"

definition server_tls :: "pesit_server \<Rightarrow> tls_client_settings \<Rightarrow> tls_client_settings option" where
  "server_tls server d =
     (if \<not> sv_tls_enabled server then None
      else Some \<lparr>tc_ca_file = or_else (sv_ca_file server) (tc_ca_file d),
        tc_cert_file = or_else (sv_cert_file server) (tc_cert_file d), tc_key_file = or_else (sv_key_file server) (tc_key_file d),
        tc_verify_hostname = Some (sv_hostname_verification server), tc_insecure = (sv_insecure server \<or> tc_insecure d),
        tc_min_version = or_else (tc_min_version d) (Some Tls_V1_2)\<rparr>)"

definition server_framing :: "pesit_server \<Rightarrow> framing" where
  "server_framing server = (if \<not> sv_tls_enabled server \<or> sv_tcpip_header server then LengthPrefixed else Raw)"

definition engine_open :: "client_env \<Rightarrow> pesit_server \<Rightarrow> 'j engine \<Rightarrow> (session_error, frame_writer \<times> rx_event list) result" where
  "engine_open env server e =
     and_then (cv_connect env server (server_tls server (es_tls_defaults (en_settings e)))) (\<lambda>(script, rx).
     Inr (\<lparr>wr_out = [], wr_script = script, wr_framing = server_framing server\<rparr>, rx))"

section \<open>History and cancellation\<close>

definition engine_save :: "'j client_serde \<Rightarrow> transfer_history \<Rightarrow> 'j engine \<Rightarrow> 'j engine" where
  \<comment> \<open>a failure is only logged\<close>
  "engine_save ds h e = set_store (snd (js_put (ds_history ds) C_TRANSFERS (th_id h) h (en_store e))) e"

definition engine_update :: "'j client_serde \<Rightarrow> rstring \<Rightarrow> (transfer_history \<Rightarrow> transfer_history) \<Rightarrow> 'j engine \<Rightarrow> 'j engine" where
  "engine_update ds i f e = set_store (snd (js_update (ds_history ds) C_TRANSFERS i f (en_store e))) e"

definition engine_get :: "'j client_serde \<Rightarrow> rstring \<Rightarrow> 'j engine \<Rightarrow> (api_error, transfer_history option) result" where
  "engine_get ds i e = map_err api_of_store (js_get (ds_history ds) C_TRANSFERS i (en_store e))"

definition engine_cancel :: "bool \<Rightarrow> rstring \<Rightarrow> 'j engine \<Rightarrow> bool \<times> 'j engine" where
  \<comment> \<open>\<open>listening\<close>: the job still holds the receiver of the flag\<close>
  "engine_cancel listening i e =
     (case en_cancels e i of
        None \<Rightarrow> (False, e)
      | Some _ \<Rightarrow> if listening then (True, e\<lparr>en_cancels := (en_cancels e)(i \<mapsto> True)\<rparr>) else (False, e))"

definition register_cancel :: "rstring \<Rightarrow> 'j engine \<Rightarrow> 'j engine" where
  "register_cancel i e = e\<lparr>en_cancels := (en_cancels e)(i \<mapsto> False)\<rparr>"

definition unregister_cancel :: "rstring \<Rightarrow> 'j engine \<Rightarrow> 'j engine" where
  "unregister_cancel i e = e\<lparr>en_cancels := (en_cancels e)(i := None)\<rparr>"

definition engine_checkpoints :: "client_env \<Rightarrow> rstring \<Rightarrow> 'j engine \<Rightarrow> (session_error, file_checkpoints) result" where
  "engine_checkpoints env i e =
     map_err (\<lambda>k. S_Io (Io_Kind k)) (fc_open (ne_from_slice env) (ne_open_fault env)
       (ne_disk env (path_join (es_checkpoint_dir (en_settings e)) (i @ rstr ''.json''))))"

definition engine_transfer_id :: "'j engine \<Rightarrow> u32 \<times> 'j engine" where
  "engine_transfer_id e =
     (case js_next_counter (rstr ''pesit_transfer_id'') (en_store e) of
        (r, s) \<Rightarrow> (counter_transfer_id (case r of Inr n \<Rightarrow> n | Inl _ \<Rightarrow> 1), set_store s e))"

section \<open>Submitting a transfer\<close>

record client_job =
  jb_history :: transfer_history
  jb_server :: pesit_server
  jb_request :: transfer_request
  jb_resume :: "transfer_history option"

definition requester_of :: "transfer_request \<Rightarrow> 'j engine \<Rightarrow> rstring" where
  "requester_of req e = unwrap_or (es_requester_id (en_settings e)) (non_empty (tq_partner_id req))"

definition new_history :: "client_env \<Rightarrow> xfer_direction \<Rightarrow> pesit_server \<Rightarrow> transfer_request \<Rightarrow> rstring \<Rightarrow> rstring \<Rightarrow> rstring \<Rightarrow>
    u64 option \<Rightarrow> transfer_history" where
  "new_history env direction server req partner_id local_name remote size' =
     transfer_history_default\<lparr>th_id := ne_uuid env, th_server_id := Some (sv_id server), th_server_name := Some (sv_name server),
       th_partner_id := Some partner_id, th_direction := Some direction, th_local_filename := Some local_name,
       th_remote_filename := Some remote, th_file_size := size', th_status := Xs_InProgress,
       th_correlation_id := tq_correlation_id req, th_sync_points_enabled := unwrap_or True (tq_sync_points_enabled req),
       th_request := Some req, th_started_at := Some (ne_now_iso env), th_created_at := Some (ne_now_iso env)\<rparr>"

definition resumed :: "'j client_serde \<Rightarrow> transfer_request \<Rightarrow> 'j engine \<Rightarrow> transfer_history option" where
  "resumed ds req e =
     Option.bind (tq_resume_from_transfer_id req) (\<lambda>i. case engine_get ds i e of Inr r \<Rightarrow> r | Inl _ \<Rightarrow> None)"

definition continue_from :: "transfer_history \<Rightarrow> transfer_history \<Rightarrow> transfer_history" where
  "continue_from prev h =
     h\<lparr>th_pesit_transfer_id := th_pesit_transfer_id prev, th_last_sync_point := th_last_sync_point prev,
       th_bytes_at_last_sync_point := th_bytes_at_last_sync_point prev\<rparr>"

definition engine_submit :: "'j client_serde \<Rightarrow> transfer_history \<Rightarrow> pesit_server \<Rightarrow> transfer_request \<Rightarrow> transfer_history option \<Rightarrow>
    'j engine \<Rightarrow> (api_error, client_job) result \<times> 'j engine" where
  \<comment> \<open>the record is saved and the job is spawned\<close>
  "engine_submit ds h server req resume e =
     (Inr \<lparr>jb_history = h, jb_server = server, jb_request = req, jb_resume = resume\<rparr>, engine_save ds h e)"

definition submit_send :: "'j client_serde \<Rightarrow> client_env \<Rightarrow> transfer_request \<Rightarrow> 'j engine \<Rightarrow> (api_error, client_job) result \<times> 'j engine" where
  "submit_send ds env req e =
     (case
        and_then (resolve_server ds (tq_server req) e) (\<lambda>server.
        and_then (ok_or (api_bad_request (rstr ''filename is required'')) (non_empty (tq_filename req))) (\<lambda>local_name.
        and_then (ok_or (api_bad_request (rstr ''remoteFilename is required'')) (req_virtual_file req)) (\<lambda>remote.
        and_then (map_err (\<lambda>k. api_bad_request (rstr ''file not found: '' @ local_name @ rstr '' ('' @ ne_io_text env (Io_Kind k) @ rstr '')''))
          (ne_metadata env local_name)) (\<lambda>len.
        if \<not> cv_is_file env local_name then Inl (api_bad_request (local_name @ rstr '' is not a regular file''))
        else Inr (server, local_name, remote, len))))) of
        Inl err \<Rightarrow> (Inl err, e)
      | Inr (server, local_name, remote, len) \<Rightarrow>
         let h = new_history env Xd_Send server req (requester_of req e) local_name remote (Some len);
             resume = resumed ds req e;
             h = (case resume of None \<Rightarrow> h | Some prev \<Rightarrow> continue_from prev h)
         in engine_submit ds h server req resume e)"

definition submit_receive :: "'j client_serde \<Rightarrow> client_env \<Rightarrow> transfer_request \<Rightarrow> 'j engine \<Rightarrow> (api_error, client_job) result \<times> 'j engine" where
  "submit_receive ds env req e =
     (case
        and_then (resolve_server ds (tq_server req) e) (\<lambda>server.
        and_then (ok_or (api_bad_request (rstr ''remoteFilename is required'')) (req_virtual_file req)) (\<lambda>remote.
        Inr (server, remote))) of
        Inl err \<Rightarrow> (Inl err, e)
      | Inr (server, remote) \<Rightarrow>
         let local_name = (case non_empty (tq_filename req) of
               Some f \<Rightarrow> if path_absolute f then f else path_join (es_receive_dir (en_settings e)) f
             | None \<Rightarrow> path_join (es_receive_dir (en_settings e)) (remote @ rstr ''_'' @ ne_now_compact env));
             h = new_history env Xd_Receive server req (requester_of req e) local_name remote None;
             resume = resumed ds req e;
             h = (case resume of None \<Rightarrow> h
                  | Some prev \<Rightarrow> (continue_from prev h)\<lparr>th_local_filename := th_local_filename prev\<rparr>)
         in engine_submit ds h server req resume e)"

definition retry_request :: "rstring \<Rightarrow> transfer_history \<Rightarrow> transfer_request" where
  "retry_request i prev =
     (let q = unwrap_or transfer_request_default (th_request prev)
      in q\<lparr>tq_server := or_else (th_server_id prev) (tq_server q), tq_filename := th_local_filename prev,
           tq_remote_filename := th_remote_filename prev, tq_partner_id := th_partner_id prev,
           tq_resume_from_transfer_id :=
             (if th_last_sync_point prev > 0 \<and> th_status prev \<in> {Xs_Interrupted, Xs_Failed, Xs_Cancelled}
              then Some i else None)\<rparr>)"

definition engine_retry :: "'j client_serde \<Rightarrow> client_env \<Rightarrow> rstring \<Rightarrow> 'j engine \<Rightarrow> (api_error, client_job) result \<times> 'j engine" where
  "engine_retry ds env i e =
     (case engine_get ds i e of
        Inl err \<Rightarrow> (Inl err, e)
      | Inr None \<Rightarrow> (Inl (api_not_found (rstr ''transfer '' @ quoted i @ rstr '' not found'')), e)
      | Inr (Some prev) \<Rightarrow>
         if \<not> is_final (th_status prev) then (Inl (api_conflict (rstr ''transfer '' @ quoted i @ rstr '' is still running'')), e)
         else case th_direction prev of
                Some Xd_Receive \<Rightarrow> submit_receive ds env (retry_request i prev) e
              | _ \<Rightarrow> submit_send ds env (retry_request i prev) e)"

section \<open>The specification of a transfer\<close>

definition file_spec_empty :: file_spec where
  \<comment> \<open>\<^verbatim>\<open>FileSpec::default()\<close>\<close>
  "file_spec_empty = \<lparr>fs_requester = None, fs_server = None, fs_file_type = 0, fs_file_name = [], fs_transfer_id = 0,
     fs_restarted = False, fs_data_code = None, fs_priority = 0, fs_max_entity_size = 0, fs_article_format = Format_Fixed,
     fs_article_length = 0, fs_organisation = None, fs_label = None, fs_reservation_unit = None, fs_max_reservation = 0,
     fs_creation_date = None, fs_extraction_date = None, fs_client_id = None, fs_bank_id = None,
     fs_file_access_control = None, fs_free_message = None\<rparr>"

definition record_length_of :: "u32 \<Rightarrow> u16" where
  \<comment> \<open>\<^verbatim>\<open>clamp(1, 0xFFFF) as u16\<close>\<close>
  "record_length_of n = ucast (min (max n 1) 0xFFFF)"

definition engine_file_spec :: "client_env \<Rightarrow> transfer_request \<Rightarrow> rstring \<Rightarrow> u64 option \<Rightarrow> u32 \<Rightarrow> bool \<Rightarrow> 'j engine \<Rightarrow> file_spec" where
  "engine_file_spec env req remote size' pesit_id resume e =
     file_spec_empty\<lparr>fs_file_type := unwrap_or 0 (tq_file_type req), fs_file_name := remote, fs_transfer_id := pesit_id,
       fs_restarted := resume, fs_priority := unwrap_or 0 (tq_priority req),
       fs_max_entity_size := unwrap_or (es_max_entity_size (en_settings e)) (tq_max_entity_size req),
       fs_article_format := Format_Variable,
       fs_article_length := record_length_of (unwrap_or (es_record_length (en_settings e)) (tq_record_length req)),
       fs_organisation := Some 0, fs_reservation_unit := map_option (\<lambda>_. 0) size',
       fs_max_reservation := (case size' of None \<Rightarrow> 0 | Some s \<Rightarrow> div_ceil s 1024),
       fs_creation_date := Some (ne_pesit_now env),
       fs_data_code := (if unwrap_or False (tq_ebcdic req) then Some 1 else None),
       fs_label := non_empty (tq_label req), fs_client_id := non_empty (tq_client_id req),
       fs_bank_id := non_empty (tq_bank_id req), fs_free_message := non_empty (tq_free_message req)\<rparr>"

definition request_format :: "transfer_request \<Rightarrow> record_format" where
  "request_format req = (if unwrap_or False (tq_text req) then Tv else Bu)"

section \<open>Progress and the end of a transfer\<close>

definition progress_history :: "progress \<Rightarrow> bool \<Rightarrow> transfer_history \<Rightarrow> transfer_history" where
  "progress_history p sync_changed h =
     (let h = h\<lparr>th_bytes_transferred := pg_data_bytes p\<rparr>;
          h = (if th_file_size h = None then h\<lparr>th_file_size := pg_total_hint p\<rparr> else h)
      in if sync_changed
         then h\<lparr>th_last_sync_point := pg_sync p, th_bytes_at_last_sync_point := pg_data_bytes p\<rparr>
         else h)"

text \<open>The closure of \<^verbatim>\<open>progress_updater\<close>: the time, bytes and point of the last report that was stored.\<close>

fun progress_updates :: "'j client_serde \<Rightarrow> client_env \<Rightarrow> rstring \<Rightarrow> nat \<Rightarrow> nat \<Rightarrow> u64 \<Rightarrow> u32 \<Rightarrow> progress list \<Rightarrow> 'j engine \<Rightarrow> 'j engine" where
  "progress_updates ds env i k time0 bytes0 sync0 [] e = e"
| "progress_updates ds env i k time0 bytes0 sync0 (p # ps) e =
     (let sync_changed = (pg_sync p \<noteq> sync0) in
      if \<not> sync_changed \<and> saturating_sub (pg_data_bytes p) bytes0 < push_bit 20 1 \<and> cv_reported env k - time0 < 1000
      then progress_updates ds env i (k + 1) time0 bytes0 sync0 ps e
      else progress_updates ds env i (k + 1) (cv_reported env k) (pg_data_bytes p) (pg_sync p) ps
             (engine_update ds i (progress_history p sync_changed) e))"

record xfer_result =
  xr_bytes :: u64
  xr_end :: data_end
  xr_diag :: diagnostic
  xr_checksum :: "rstring option"

definition xfer_ok :: "(session_error, xfer_result) result \<Rightarrow> bool" where
  "xfer_ok r = (case r of Inl _ \<Rightarrow> False | Inr x \<Rightarrow> xr_end x = Completed \<and> diag_is_ok (xr_diag x))"

definition finish_history :: "rstring \<Rightarrow> (session_error, xfer_result) result \<Rightarrow> transfer_history \<Rightarrow> transfer_history" where
  "finish_history now r h =
     (let h = h\<lparr>th_completed_at := Some now\<rparr> in
      case r of
        Inl err \<Rightarrow> h\<lparr>th_status := Xs_Failed, th_diagnostic_code := Some (abort_diag err), th_error_message := Some (Et_Session err)\<rparr>
      | Inr x \<Rightarrow>
         (case xr_end x of
            Completed \<Rightarrow>
              if diag_is_ok (xr_diag x)
              then h\<lparr>th_status := Xs_Completed, th_bytes_transferred := xr_bytes x, th_checksum := xr_checksum x,
                     th_file_size := (if th_file_size h = None then Some (xr_bytes x) else th_file_size h)\<rparr>
              else h\<lparr>th_status := Xs_Failed, th_bytes_transferred := xr_bytes x, th_diagnostic_code := Some (xr_diag x),
                     th_error_message := Some (Et_Diag (xr_diag x))\<rparr>
          | Interrupted code d by_peer \<Rightarrow>
              h\<lparr>th_status := (if by_peer then Xs_Interrupted else Xs_Cancelled), th_bytes_transferred := xr_bytes x,
                th_diagnostic_code := Some d, th_error_message := Some (Et_Diag d)\<rparr>
          | EndedWithError d \<Rightarrow>
              h\<lparr>th_status := Xs_Failed, th_bytes_transferred := xr_bytes x, th_diagnostic_code := Some d,
                th_error_message := Some (Et_Diag d)\<rparr>))"

definition direction_action :: "xfer_direction option \<Rightarrow> rstring" where
  "direction_action d =
     (case d of None \<Rightarrow> rstr ''transfer'' | Some Xd_Send \<Rightarrow> rstr ''send'' | Some Xd_Receive \<Rightarrow> rstr ''receive''
      | Some Xd_Message \<Rightarrow> rstr ''message'')"

definition history_event :: "client_env \<Rightarrow> bool \<Rightarrow> transfer_history \<Rightarrow> audit_event" where
  "history_event env ok h =
     \<lparr>ae_id = cv_audit_uuid env, ae_timestamp = ne_now_iso env, ae_category = rstr ''transfer'',
      ae_action = direction_action (th_direction h),
      ae_target = Some (unwrap_or (rstr ''-'') (th_local_filename h) @ rstr '' -> '' @ unwrap_or (rstr ''-'') (th_server_name h)),
      ae_actor = th_partner_id h, ae_detail = map_option (cv_text env) (th_error_message h),
      ae_outcome = (if ok then Out_Success else Out_Failure)\<rparr>"

definition engine_finish :: "'j client_serde \<Rightarrow> client_env \<Rightarrow> rstring \<Rightarrow> (session_error, xfer_result) result \<Rightarrow> 'j engine \<Rightarrow> 'j engine" where
  "engine_finish ds env i r e =
     (let e = unregister_cancel i e;
          e = engine_update ds i (finish_history (ne_now_iso env) r) e
      in case engine_get ds i e of
           Inr (Some h) \<Rightarrow> e\<lparr>en_audit := audit_record (ds_event ds) (history_event env (xfer_ok r) h) (en_audit e)\<rparr>
         | _ \<Rightarrow> e)"

end
