(* ===== verification/Client_Session.thy ===== *)
theory Client_Session
  imports Client_Engine
begin

text \<open>
  The jobs of the client's engine (\<^verbatim>\<open>engine.rs\<close>, from \<^verbatim>\<open>run_send\<close>): an attempt opens the file, registers the
  cancellation flag, finds the checkpoint to restart from, connects and runs the transfer; when the
  peer refuses the restart, a second attempt starts at the beginning. The surroundings of the two
  attempts are \<open>env 0\<close> and \<open>env 1\<close>. \<open>None\<close> is the result of a sending loop that runs out of fuel.
\<close>

section \<open>Closing a session\<close>

definition is_restart_refusal :: "session_error \<Rightarrow> bool" where
  "is_restart_refusal err =
     (case err of S_Refused k _ _ \<Rightarrow> k = K_Create \<or> k = K_Select | _ \<Rightarrow> False)"

definition close_after_error :: "session_error \<Rightarrow> 'x requester_scheme \<Rightarrow> 'x requester_scheme" where
  "close_after_error err s =
     (case err of
        S_Refused _ _ _ \<Rightarrow> snd (requester_release s)
      | S_Aborted _ _ \<Rightarrow> s
      | S_Transport _ \<Rightarrow> s
      | _ \<Rightarrow> requester_abort (abort_diag err) s)"

definition close_session :: "(session_error, 'a) result \<Rightarrow> 'x requester_scheme \<Rightarrow> 'x requester_scheme" where
  "close_session r s = (case r of Inr _ \<Rightarrow> snd (requester_release s) | Inl err \<Rightarrow> close_after_error err s)"

definition session_over :: "'j client_serde \<Rightarrow> client_env \<Rightarrow> rstring \<Rightarrow> (session_error, transfer_outcome) result \<Rightarrow>
    ('f, file_checkpoints) rq_transfer \<Rightarrow> 'j engine \<Rightarrow> 'j engine" where
  \<comment> \<open>the progress reports of the transfer, and the connection after it is closed\<close>
  "session_over ds env i r s e =
     (let e = progress_updates ds env i 0 (ne_instant env) 0 0 (xf_progress s) e
      in e\<lparr>en_wires := en_wires e @ [lk_writer (cn_link (close_session r s))]\<rparr>)"

definition xfer_result_of :: "client_env \<Rightarrow> rstring \<Rightarrow> transfer_outcome \<Rightarrow> xfer_result" where
  "xfer_result_of env local_name out =
     \<lparr>xr_bytes = dr_data_bytes (ot_data out), xr_end = dr_end (ot_data out), xr_diag = ot_diag out,
      xr_checksum = (if is_complete out then ne_sha256 env local_name else None)\<rparr>"

definition reset_for_full_retry :: "'j client_serde \<Rightarrow> client_env \<Rightarrow> rstring \<Rightarrow> 'j engine \<Rightarrow> 'j engine" where
  "reset_for_full_retry ds env i e =
     (let e = engine_update ds i (\<lambda>h. h\<lparr>th_last_sync_point := 0, th_bytes_at_last_sync_point := 0, th_bytes_transferred := 0\<rparr>) e
      in case engine_checkpoints env i e of
           Inl _ \<Rightarrow> e
         | Inr cps \<Rightarrow> e\<lparr>en_cleared := en_cleared e @ [(i, snd (fc_clear (ne_clear_fault env) cps))]\<rparr>)"

definition remove_file :: "rstring \<Rightarrow> 'j engine \<Rightarrow> 'j engine" where
  "remove_file path e = e\<lparr>en_removed := en_removed e @ [path]\<rparr>"

section \<open>Sending\<close>

definition lift_result :: "('s \<Rightarrow> (session_error, 'a) result) \<Rightarrow> ('s, 'a) act" where
  "lift_result f s = (f s, s)"

definition send_restart :: "client_env \<Rightarrow> transfer_history \<Rightarrow> transfer_history option \<Rightarrow> 'j engine \<Rightarrow>
    (session_error, rstring \<times> checkpoint option) result" where
  "send_restart env h resume e =
     (case resume of
        None \<Rightarrow> Inr (th_id h, None)
      | Some prev \<Rightarrow>
         and_then (engine_checkpoints env (th_id prev) e) (\<lambda>cps.
         Inr (th_id prev, or_else (fc_last_acknowledged cps) (fc_last cps))))"

definition send_transfer_id :: "'j client_serde \<Rightarrow> transfer_history \<Rightarrow> checkpoint option \<Rightarrow> ('j engine, u32) act" where
  "send_transfer_id ds h restart e =
     (let (pid, e) = (if restart \<noteq> None \<and> th_pesit_transfer_id h \<noteq> 0 then (th_pesit_transfer_id h, e) else engine_transfer_id e)
      in (Inr pid, engine_update ds (th_id h) (\<lambda>h. h\<lparr>th_pesit_transfer_id := pid\<rparr>) e))"

definition send_session :: "'j client_serde \<Rightarrow> client_env \<Rightarrow> rstring \<Rightarrow> transfer_spec \<Rightarrow> file_source \<Rightarrow> file_checkpoints \<Rightarrow> requester \<Rightarrow>
    ('j engine, (session_error, transfer_outcome) result) pact" where
  "send_session ds env i spec source cps session e =
     (case send_file (cv_fuel env) file_source_ops (cv_store env) spec (cv_cancel env) (transfer_start session source cps) of
        None \<Rightarrow> None
      | Some (r, s) \<Rightarrow> Some (Inr r, session_over ds env i r s e))"

definition send_attempt :: "'j client_serde \<Rightarrow> client_env \<Rightarrow> client_job \<Rightarrow> transfer_history option \<Rightarrow>
    ('j engine, (session_error, transfer_outcome) result) pact" where
  "send_attempt ds env job resume =
     (let h = jb_history job; req = jb_request job; local_name = unwrap_or [] (th_local_filename h);
          remote = unwrap_or [] (th_remote_filename h); partner_id = unwrap_or [] (th_partner_id h) in
      act_pbind (lift_result (\<lambda>e. map_err S_Io (source_open (ne_open env local_name) (request_format req)
        (unat (unwrap_or (es_record_length (en_settings e)) (tq_record_length req))) (ne_script env)))) (\<lambda>source.
      act_pbind (act_modify (register_cancel (th_id h))) (\<lambda>_.
      act_pbind (lift_result (send_restart env h resume)) (\<lambda>(cps_id, restart).
      act_pbind (lift_result (engine_checkpoints env cps_id)) (\<lambda>cps.
      act_pbind (send_transfer_id ds h restart) (\<lambda>pid.
      act_pbind act_get (\<lambda>e.
      let spec = \<lparr>ts_file = engine_file_spec env req remote (th_file_size h) pid (restart \<noteq> None) e, ts_restart = restart\<rparr> in
      act_pbind (lift_result (engine_open env (jb_server job))) (\<lambda>(w, rx).
      act_pbind (lift_result (\<lambda>e. requester_open w rx
        (engine_requester_config ds (jb_server job) partner_id (tq_password req) req Access_Write e))) (\<lambda>session.
      send_session ds env (th_id h) spec (source_with_ebcdic (unwrap_or False (tq_ebcdic req)) source) cps session)))))))))"

definition do_send :: "'j client_serde \<Rightarrow> (nat \<Rightarrow> client_env) \<Rightarrow> client_job \<Rightarrow> ('j engine, xfer_result) pact" where
  "do_send ds env job =
     (let i = th_id (jb_history job); local_name = unwrap_or [] (th_local_filename (jb_history job)) in
      pact_bind (send_attempt ds (env 0) job (jb_resume job)) (\<lambda>r.
      case r of
        Inr out \<Rightarrow> pact_of (act_return (xfer_result_of (env 0) local_name out))
      | Inl err \<Rightarrow>
         if jb_resume job \<noteq> None \<and> is_restart_refusal err then
           act_pbind (act_modify (reset_for_full_retry ds (env 0) i)) (\<lambda>_.
           pact_bind (send_attempt ds (env 1) job None) (\<lambda>r.
           pact_of (lift_result (\<lambda>_. case r of Inr out \<Rightarrow> Inr (xfer_result_of (env 1) local_name out) | Inl err \<Rightarrow> Inl err))))
         else pact_of (act_fail err)))"

definition run_send :: "'j client_serde \<Rightarrow> (nat \<Rightarrow> client_env) \<Rightarrow> client_job \<Rightarrow> 'j engine \<Rightarrow> 'j engine option" where
  "run_send ds env job e =
     (case do_send ds env job e of
        None \<Rightarrow> None
      | Some (r, e) \<Rightarrow> Some (engine_finish ds (env 2) (th_id (jb_history job)) r e))"

section \<open>Receiving\<close>

definition receive_restart :: "client_env \<Rightarrow> rstring \<Rightarrow> transfer_history \<Rightarrow> transfer_history option \<Rightarrow> 'j engine \<Rightarrow>
    (session_error, rstring \<times> checkpoint option) result" where
  "receive_restart env local_name h resume e =
     (case resume of
        None \<Rightarrow> Inr (th_id h, None)
      | Some prev \<Rightarrow>
         and_then (engine_checkpoints env (th_id prev) e) (\<lambda>cps.
         Inr (th_id prev, if ne_exists env (part_path local_name) then fc_last cps else None)))"

definition client_sink :: "client_env \<Rightarrow> rstring \<Rightarrow> transfer_request \<Rightarrow> checkpoint option \<Rightarrow> (session_error, file_sink) result" where
  "client_sink env path req restart =
     (case sink_create (ne_content env (part_path path)) (ne_content env path) (request_format req) (map_option position_of restart)
             (ne_script env) of
        (Inl err, _) \<Rightarrow> Inl (S_Io err)
      | (Inr _, k) \<Rightarrow> Inr (sink_with_ebcdic (unwrap_or False (tq_ebcdic req)) k))"

definition receive_session :: "'j client_serde \<Rightarrow> client_env \<Rightarrow> rstring \<Rightarrow> transfer_spec \<Rightarrow> file_sink \<Rightarrow> file_checkpoints \<Rightarrow> requester \<Rightarrow>
    ('j engine, (session_error, transfer_outcome) result) act" where
  "receive_session ds env i spec k cps session e =
     (case receive_file file_sink_ops (cv_store env) spec (cv_cancel env) (transfer_start session k cps) of
        (r, s) \<Rightarrow>
          let e = session_over ds env i r s e; e = e\<lparr>en_sinks := en_sinks e @ [xf_file s]\<rparr>
          in (Inr r, case r of Inl _ \<Rightarrow> e
              | Inr out \<Rightarrow> engine_update ds i (\<lambda>h. h\<lparr>th_pesit_transfer_id := ot_transfer_id out\<rparr>) e))"

definition receive_attempt :: "'j client_serde \<Rightarrow> client_env \<Rightarrow> client_job \<Rightarrow> transfer_history option \<Rightarrow>
    ('j engine, (session_error, transfer_outcome) result) act" where
  "receive_attempt ds env job resume =
     (let h = jb_history job; req = jb_request job; local_name = unwrap_or [] (th_local_filename h);
          remote = unwrap_or [] (th_remote_filename h); partner_id = unwrap_or [] (th_partner_id h) in
      act_then (act_modify (register_cancel (th_id h)))
      (act_bind (lift_result (receive_restart env local_name h resume)) (\<lambda>(cps_id, restart).
      act_bind (lift_result (engine_checkpoints env cps_id)) (\<lambda>cps.
      act_bind (lift_result (\<lambda>_. client_sink env local_name req restart)) (\<lambda>k.
      act_bind act_get (\<lambda>e.
      let pid = (if restart \<noteq> None then th_pesit_transfer_id h else 0);
          spec = \<lparr>ts_file = engine_file_spec env req remote None pid (restart \<noteq> None) e, ts_restart = restart\<rparr> in
      act_bind (lift_result (engine_open env (jb_server job))) (\<lambda>(w, rx).
      act_bind (lift_result (\<lambda>e. requester_open w rx
        (engine_requester_config ds (jb_server job) partner_id (tq_password req) req Access_Read e))) (\<lambda>session.
      receive_session ds env (th_id h) spec k cps session))))))))"

definition do_receive :: "'j client_serde \<Rightarrow> (nat \<Rightarrow> client_env) \<Rightarrow> client_job \<Rightarrow> ('j engine, xfer_result) act" where
  "do_receive ds env job =
     (let i = th_id (jb_history job); local_name = unwrap_or [] (th_local_filename (jb_history job)) in
      act_bind (receive_attempt ds (env 0) job (jb_resume job)) (\<lambda>r.
      case r of
        Inr out \<Rightarrow> act_return (xfer_result_of (env 0) local_name out)
      | Inl err \<Rightarrow>
         if jb_resume job \<noteq> None \<and> is_restart_refusal err then
           act_then (act_modify (\<lambda>e. remove_file (part_path local_name) (reset_for_full_retry ds (env 0) i e)))
           (act_bind (receive_attempt ds (env 1) job None) (\<lambda>r.
            lift_result (\<lambda>_. case r of Inr out \<Rightarrow> Inr (xfer_result_of (env 1) local_name out) | Inl err \<Rightarrow> Inl err)))
         else act_fail err))"

definition run_receive :: "'j client_serde \<Rightarrow> (nat \<Rightarrow> client_env) \<Rightarrow> client_job \<Rightarrow> 'j engine \<Rightarrow> 'j engine" where
  "run_receive ds env job e =
     (case do_receive ds env job e of (r, e) \<Rightarrow> engine_finish ds (env 2) (th_id (jb_history job)) r e)"

section \<open>Messages\<close>

definition message_request_of :: "message_request \<Rightarrow> transfer_request" where
  "message_request_of q = transfer_request_default\<lparr>tq_password := mq_password q, tq_sync_points_enabled := Some False\<rparr>"

definition message_session :: "'j client_serde \<Rightarrow> client_env \<Rightarrow> pesit_server \<Rightarrow> rstring \<Rightarrow> message_request \<Rightarrow>
    ('j engine, message_outcome) act" where
  "message_session ds env server partner_id q =
     act_bind (lift_result (engine_open env server)) (\<lambda>(w, rx).
     act_bind (lift_result (\<lambda>e. requester_open w rx
       (engine_requester_config ds server partner_id (mq_password q) (message_request_of q) Access_Mixed e))) (\<lambda>session.
     act_bind (\<lambda>e. apfst Inr (engine_transfer_id e)) (\<lambda>tid e.
     let f = file_spec_empty\<lparr>fs_file_name := unwrap_or (rstr ''MESSAGE'') (mq_message_name q), fs_transfer_id := tid\<rparr>
     in case send_message f (str_bytes (mq_message q)) (mq_expects_reply q) session of
          (r, s) \<Rightarrow> (r, e\<lparr>en_wires := en_wires e @ [lk_writer (cn_link (close_session r s))]\<rparr>))))"

definition message_history :: "client_env \<Rightarrow> pesit_server \<Rightarrow> rstring \<Rightarrow> message_request \<Rightarrow> transfer_history" where
  "message_history env server partner_id q =
     transfer_history_default\<lparr>th_id := ne_uuid env, th_server_id := Some (sv_id server), th_server_name := Some (sv_name server),
       th_partner_id := Some partner_id, th_direction := Some Xd_Message, th_remote_filename := mq_message_name q,
       th_file_size := Some (word_of_nat (length (str_bytes (mq_message q)))), th_status := Xs_InProgress,
       th_correlation_id := mq_correlation_id q, th_started_at := Some (ne_now_iso env), th_created_at := Some (ne_now_iso env)\<rparr>"

definition message_finished :: "client_env \<Rightarrow> message_request \<Rightarrow> (session_error, message_outcome) result \<Rightarrow> transfer_history \<Rightarrow> transfer_history" where
  "message_finished env q r h =
     (let h = h\<lparr>th_completed_at := Some (ne_now_iso env)\<rparr> in
      case r of
        Inr m \<Rightarrow>
          if diag_is_ok (mo_diag m)
          then h\<lparr>th_status := Xs_Completed, th_bytes_transferred := word_of_nat (length (str_bytes (mq_message q)))\<rparr>
          else h\<lparr>th_status := Xs_Failed, th_diagnostic_code := Some (mo_diag m), th_error_message := Some (Et_Diag (mo_diag m))\<rparr>
      | Inl err \<Rightarrow> h\<lparr>th_status := Xs_Failed, th_diagnostic_code := Some (abort_diag err), th_error_message := Some (Et_Session err)\<rparr>)"

definition message_reply :: "(session_error, message_outcome) result \<Rightarrow> rstring option" where
  "message_reply r =
     (case r of Inr m \<Rightarrow> if diag_is_ok (mo_diag m) then map_option from_utf8_lossy (mo_reply m) else None | Inl _ \<Rightarrow> None)"

definition engine_send_message :: "'j client_serde \<Rightarrow> client_env \<Rightarrow> message_request \<Rightarrow> 'j engine \<Rightarrow>
    (api_error, transfer_response) result \<times> 'j engine" where
  "engine_send_message ds env q e =
     (case resolve_server ds (mq_server q) e of
        Inl err \<Rightarrow> (Inl err, e)
      | Inr server \<Rightarrow>
         let partner_id = unwrap_or (es_requester_id (en_settings e)) (non_empty (mq_partner_id q));
             h = message_history env server partner_id q;
             e = engine_save ds h e
         in case message_session ds env server partner_id q e of
              (r, e) \<Rightarrow>
                let h = message_finished env q r h
                in (Inr ((response_of (cv_millis env) h)\<lparr>rp_reply := message_reply r\<rparr>), engine_save ds h e))"

end
