(* ===== verification/Client_Props.thy ===== *)
theory Client_Props
  imports Client_Session Node_Records Builder_Props Session_Connect Requester_Term
begin

text \<open>
  What the engine of the client guarantees about its history: a job changes only its own record, keeps
  it running until the end and leaves it in a final status that says how the session ended.
\<close>

section \<open>The history\<close>

definition history :: "'j client_serde \<Rightarrow> 'j engine \<Rightarrow> rstring \<Rightarrow> transfer_history option" where
  "history ds e = js_doc (ds_history ds) C_TRANSFERS (en_store e)"

lemma C_TRANSFERS_not_audit: "C_TRANSFERS \<noteq> AUDIT_TABLE"
  by (simp add: C_TRANSFERS_def AUDIT_TABLE_def rstr_def)

lemma history_cong: "en_store e' = en_store e \<Longrightarrow> history ds e' = history ds e"
  by (simp add: history_def)

lemma history_eq_get: "history ds e i = (case engine_get ds i e of Inr r \<Rightarrow> r | Inl _ \<Rightarrow> None)"
  by (simp add: history_def js_doc_def engine_get_def map_err_def split: sum.split)

lemma history_save:
  "codec_ok (ds_history ds) \<Longrightarrow> js_tables (en_store e) C_TRANSFERS \<noteq> None \<Longrightarrow>
    history ds (engine_save ds h e) = (history ds e)(th_id h \<mapsto> h)"
  by (simp add: history_def engine_save_def set_store_def js_doc_put)

lemma history_update:
  "codec_ok (ds_history ds) \<Longrightarrow> history ds (engine_update ds i f e) = (history ds e)(i := map_option f (history ds e i))"
  by (simp add: history_def engine_update_def set_store_def js_doc_update)

lemma history_audit: "history ds (e\<lparr>en_audit := audit_record cd ev (en_audit e)\<rparr>) = history ds e"
  unfolding history_def by (rule js_doc_cong) (simp add: audit_record_other C_TRANSFERS_not_audit)

lemma history_transfer_id: "history ds (snd (engine_transfer_id e)) = history ds e"
  unfolding history_def by (rule js_doc_cong) (simp add: engine_transfer_id_def set_store_def js_next_counter_def Let_def)

section \<open>What a job changes\<close>

definition job_changes :: "'j client_serde \<Rightarrow> rstring \<Rightarrow> 'j engine \<Rightarrow> 'j engine \<Rightarrow> bool" where
  "job_changes ds i e e' \<longleftrightarrow>
     (\<forall>k. k \<noteq> i \<longrightarrow> history ds e' k = history ds e k) \<and>
     map_option th_status (history ds e' i) = map_option th_status (history ds e i)"

lemma job_changes_refl [intro]: "history ds e' = history ds e \<Longrightarrow> job_changes ds i e e'"
  by (simp add: job_changes_def)

lemma job_changes_trans [trans]: "job_changes ds i e e1 \<Longrightarrow> job_changes ds i e1 e2 \<Longrightarrow> job_changes ds i e e2"
  by (simp add: job_changes_def)

lemma job_changes_update:
  "codec_ok (ds_history ds) \<Longrightarrow> (\<And>h. th_status (f h) = th_status h) \<Longrightarrow> job_changes ds i e (engine_update ds i f e)"
  by (simp add: job_changes_def history_update option.map_comp comp_def)

lemma progress_history_status [simp]: "th_status (progress_history p b h) = th_status h"
  by (simp add: progress_history_def Let_def)

lemma job_changes_progress:
  assumes "codec_ok (ds_history ds)"
  shows "job_changes ds i e (progress_updates ds env i k t b n ps e)"
proof (induction ps arbitrary: k t b n e)
  case (Cons p ps)
  have "job_changes ds i e (engine_update ds i (progress_history p c) e)" for c
    using assms by (rule job_changes_update) simp
  then show ?case using Cons.IH job_changes_trans by (simp add: Let_def) blast
qed auto

text \<open>Actions of a job, total and with fuel.\<close>

definition job_act :: "'j client_serde \<Rightarrow> rstring \<Rightarrow> ('j engine, 'a) act \<Rightarrow> bool" where
  "job_act ds i m \<longleftrightarrow> (\<forall>e. job_changes ds i e (snd (m e)))"

definition job_pact :: "'j client_serde \<Rightarrow> rstring \<Rightarrow> ('j engine, 'a) pact \<Rightarrow> bool" where
  "job_pact ds i m \<longleftrightarrow> (\<forall>e r e'. m e = Some (r, e') \<longrightarrow> job_changes ds i e e')"

named_theorems job_rules

lemma job_bind [job_rules]: "job_act ds i m \<Longrightarrow> (\<And>x. job_act ds i (f x)) \<Longrightarrow> job_act ds i (act_bind m f)"
  unfolding job_act_def act_bind_def
  by (auto split: prod.split sum.split) (metis job_changes_trans snd_conv)+

lemma job_then [job_rules]: "job_act ds i m \<Longrightarrow> job_act ds i n \<Longrightarrow> job_act ds i (act_then m n)"
  by (simp add: act_then_def job_bind)

lemma job_lift [job_rules]: "job_act ds i (lift_result f)" "job_act ds i act_get" "job_act ds i (act_return x)" "job_act ds i (act_fail err)"
  by (auto simp: job_act_def lift_result_def act_get_def act_return_def act_fail_def)

lemma job_modify [job_rules]: "(\<And>e. job_changes ds i e (f e)) \<Longrightarrow> job_act ds i (act_modify f)"
  by (simp add: job_act_def act_modify_def)

lemma job_pact_of [job_rules]: "job_act ds i m \<Longrightarrow> job_pact ds i (pact_of m)"
  unfolding job_act_def job_pact_def pact_of_def by (metis option.inject snd_conv)

lemma job_pact_bind [job_rules]: "job_pact ds i m \<Longrightarrow> (\<And>x. job_pact ds i (f x)) \<Longrightarrow> job_pact ds i (pact_bind m f)"
  unfolding job_pact_def pact_bind_def
  by (auto split: option.splits sum.splits) (blast intro: job_changes_trans)+

lemma job_act_pbind [job_rules]: "job_act ds i m \<Longrightarrow> (\<And>x. job_pact ds i (f x)) \<Longrightarrow> job_pact ds i (act_pbind m f)"
  unfolding act_pbind_def by (intro job_rules)

lemma job_case_prod [job_rules]:
  "(\<And>x y. job_act ds i (f x y)) \<Longrightarrow> job_act ds i (case_prod f p)" "(\<And>x y. job_pact ds i (g x y)) \<Longrightarrow> job_pact ds i (case_prod g p)"
  by (simp_all split: prod.split)

lemma job_changes_register: "job_changes ds i e (register_cancel k e)" "job_changes ds i e (unregister_cancel k e)"
    "job_changes ds i e (remove_file path e)"
  by (auto simp: register_cancel_def unregister_cancel_def remove_file_def intro!: job_changes_refl history_cong)

lemma job_changes_over:
  assumes "codec_ok (ds_history ds)"
  shows "job_changes ds i e (session_over ds env i r s e)"
  using job_changes_progress [OF assms] unfolding session_over_def Let_def
  by (rule job_changes_trans) (auto intro!: job_changes_refl history_cong)

lemma job_changes_reset:
  assumes "codec_ok (ds_history ds)"
  shows "job_changes ds i e (reset_for_full_retry ds env i e)"
proof -
  let ?e = "engine_update ds i (\<lambda>h. h\<lparr>th_last_sync_point := 0, th_bytes_at_last_sync_point := 0, th_bytes_transferred := 0\<rparr>) e"
  have "job_changes ds i e ?e" using assms by (rule job_changes_update) simp
  moreover have "job_changes ds i ?e (reset_for_full_retry ds env i e)"
    by (auto simp: reset_for_full_retry_def Let_def intro!: job_changes_refl history_cong split: sum.split)
  ultimately show ?thesis by (rule job_changes_trans)
qed

lemma job_send_transfer_id:
  assumes "codec_ok (ds_history ds)"
  shows "job_act ds (th_id h) (send_transfer_id ds h restart)"
proof -
  have 1: "job_changes ds (th_id h) e (engine_update ds (th_id h) (\<lambda>h. h\<lparr>th_pesit_transfer_id := pid\<rparr>) e1)"
    if "history ds e1 = history ds e" for e e1 pid
    using job_changes_refl [OF that] job_changes_update [OF assms] by (rule job_changes_trans) simp
  have "job_changes ds (th_id h) e (snd (send_transfer_id ds h restart e))" for e
  proof (cases "restart \<noteq> None \<and> th_pesit_transfer_id h \<noteq> 0")
    case False
    then show ?thesis using 1 [OF history_transfer_id] by (auto simp: send_transfer_id_def Let_def split_beta)
  qed (simp add: send_transfer_id_def Let_def 1)
  then show ?thesis by (simp add: job_act_def)
qed

lemma job_send_attempt:
  assumes "codec_ok (ds_history ds)"
  shows "job_pact ds (th_id (jb_history job)) (send_attempt ds env job resume)"
proof -
  have "job_pact ds i (send_session ds env i spec source cps session)" for i spec source cps session
    using job_changes_over [OF assms] by (auto simp: job_pact_def send_session_def split: option.splits)
  then show ?thesis
    unfolding send_attempt_def Let_def
    by (intro job_rules job_changes_register job_send_transfer_id assms)
qed

lemma job_do_send:
  assumes "codec_ok (ds_history ds)"
  shows "job_pact ds (th_id (jb_history job)) (do_send ds env job)"
  unfolding do_send_def Let_def
  by (intro job_rules job_send_attempt assms) (auto intro!: job_rules job_send_attempt job_changes_reset assms split: sum.split)

lemma job_receive_attempt:
  assumes "codec_ok (ds_history ds)"
  shows "job_act ds (th_id (jb_history job)) (receive_attempt ds env job resume)"
proof -
  have "job_changes ds i e (engine_update ds i (\<lambda>h. h\<lparr>th_pesit_transfer_id := pid\<rparr>) (session_over ds env i r s e\<lparr>en_sinks := ks\<rparr>))"
      "job_changes ds i e (session_over ds env i r s e\<lparr>en_sinks := ks\<rparr>)" for i e r s ks pid
  proof -
    show *: "job_changes ds i e (session_over ds env i r s e\<lparr>en_sinks := ks\<rparr>)"
      using job_changes_over [OF assms] by (rule job_changes_trans) (auto intro!: job_changes_refl history_cong)
    then show "job_changes ds i e (engine_update ds i (\<lambda>h. h\<lparr>th_pesit_transfer_id := pid\<rparr>) (session_over ds env i r s e\<lparr>en_sinks := ks\<rparr>))"
      using job_changes_update [OF assms] by (rule job_changes_trans) simp
  qed
  then have "job_act ds i (receive_session ds env i spec k cps session)" for i spec k cps session
    by (auto simp: job_act_def receive_session_def Let_def split: prod.split sum.split)
  then show ?thesis
    unfolding receive_attempt_def Let_def by (intro job_rules job_changes_register)
qed

lemma job_do_receive:
  assumes "codec_ok (ds_history ds)"
  shows "job_act ds (th_id (jb_history job)) (do_receive ds env job)"
  unfolding do_receive_def Let_def
  by (intro job_rules job_receive_attempt assms)
    (auto intro!: job_rules job_receive_attempt job_changes_trans [OF job_changes_reset job_changes_register(3)] assms split: sum.split)

section \<open>The end of a job\<close>

lemma finish_history_status:
  "is_final (th_status (finish_history now r h))"
  "th_status (finish_history now r h) = Xs_Completed \<longleftrightarrow> xfer_ok r"
  by (auto simp: finish_history_def Let_def is_final_def xfer_ok_def split: sum.splits data_end.splits)

lemma engine_finish_history:
  assumes "codec_ok (ds_history ds)"
  shows "history ds (engine_finish ds env i r e) = (history ds e)(i := map_option (finish_history (ne_now_iso env) r) (history ds e i))"
proof -
  let ?e = "engine_update ds i (finish_history (ne_now_iso env) r) (unregister_cancel i e)"
  have "history ds (unregister_cancel i e) = history ds e" by (simp add: unregister_cancel_def history_def)
  then have "history ds ?e = (history ds e)(i := map_option (finish_history (ne_now_iso env) r) (history ds e i))"
    by (simp add: history_update assms)
  moreover have "history ds (engine_finish ds env i r e) = history ds ?e"
    by (simp add: engine_finish_def Let_def history_audit split: sum.split option.split)
  ultimately show ?thesis by simp
qed

lemma engine_finish_cancels: "en_cancels (engine_finish ds env i r e) i = None"
  by (simp add: engine_finish_def Let_def engine_update_def set_store_def unregister_cancel_def split: sum.split option.split)

lemma finished_job:
  assumes "codec_ok (ds_history ds)" "history ds e0 i \<noteq> None" "job_changes ds i e0 e"
  shows "\<exists>h. history ds (engine_finish ds env i r e) = (history ds e0)(i \<mapsto> h) \<and> is_final (th_status h) \<and>
    (th_status h = Xs_Completed \<longleftrightarrow> xfer_ok r)"
proof -
  from assms(2,3) obtain h where h: "history ds e i = Some h" and other: "\<And>k. k \<noteq> i \<Longrightarrow> history ds e k = history ds e0 k"
    by (auto simp: job_changes_def)
  let ?h = "finish_history (ne_now_iso env) r h"
  have "history ds (engine_finish ds env i r e) = (history ds e0)(i \<mapsto> ?h)"
    using other by (auto simp: engine_finish_history [OF assms(1)] h)
  then show ?thesis using finish_history_status by blast
qed

text \<open>Fuel for the sending loop: one turn for each byte of the file, for each byte that arrives on the connection.\<close>

definition fuel_suffices :: "client_env \<Rightarrow> rstring \<Rightarrow> bool" where
  "fuel_suffices env path \<longleftrightarrow>
     (\<forall>data server tls script rx. ne_open env path = Inr data \<longrightarrow> cv_connect env server tls = Inr (script, rx) \<longrightarrow>
       (sum_list (map event_size rx) + 1) * (length data + 1) \<le> cv_fuel env)"

lemma act_pbind_returns:
  assumes "\<And>x s'. m s = (Inr x, s') \<Longrightarrow> f x s' \<noteq> None"
  shows "act_pbind m f s \<noteq> None"
  using assms by (cases "m s"; cases "fst (m s)") (auto simp: act_pbind_eq)

lemma pair_returns: "(\<And>a b. p = (a, b) \<Longrightarrow> f a b s \<noteq> None) \<Longrightarrow> (case p of (a, b) \<Rightarrow> f a b) s \<noteq> None"
  by (cases p) simp

lemma pact_bind_returns:
  assumes "m s \<noteq> None" "\<And>x s'. m s = Some (Inr x, s') \<Longrightarrow> f x s' \<noteq> None"
  shows "pact_bind m f s \<noteq> None"
  using assms by (auto simp: pact_bind_def split: sum.split)

lemma send_attempt_returns:
  assumes fuel: "fuel_suffices env (unwrap_or [] (th_local_filename (jb_history job)))"
  shows "send_attempt ds env job resume e \<noteq> None"
proof -
  have session: "\<exists>r s. send_session ds env i spec (source_with_ebcdic b source) cps session e' = Some (r, s)"
    if source: "source_open (ne_open env (unwrap_or [] (th_local_filename (jb_history job)))) fmt rl (ne_script env) = Inr source"
      and opened: "engine_open env server e1 = Inr (w, rx)" and session: "requester_open w rx cfg = Inr session"
    for i spec b source cps session e' fmt rl server e1 w rx cfg
  proof -
    obtain data where data: "ne_open env (unwrap_or [] (th_local_filename (jb_history job))) = Inr data"
      using source by (auto simp: source_open_def and_then_def map_err_def split: sum.splits)
    obtain script tls where "cv_connect env server tls = Inr (script, rx)"
      using opened by (auto simp: engine_open_def and_then_eq_Inr)
    with fuel data have "(sum_list (map event_size rx) + 1) * (length data + 1) \<le> cv_fuel env" unfolding fuel_suffices_def by blast
    from send_file_returns [OF source [unfolded data] session this, of "cv_store env" spec "cv_cancel env" b cps]
    obtain r s where "send_file (cv_fuel env) file_source_ops (cv_store env) spec (cv_cancel env)
        (transfer_start session (source_with_ebcdic b source) cps) = Some (r, s)" by blast
    then show ?thesis by (simp add: send_session_def)
  qed
  have opened: "map_err S_Io r = Inr x \<Longrightarrow> r = Inr x" for r and x :: file_source by (cases r) (simp_all add: map_err_def)
  show ?thesis
    unfolding send_attempt_def Let_def
    by (intro act_pbind_returns pair_returns)
      (auto simp: lift_result_def simp del: not_None_eq dest!: opened intro: session)
qed

lemma do_send_returns:
  assumes "fuel_suffices (env 0) (unwrap_or [] (th_local_filename (jb_history job)))"
    and "fuel_suffices (env 1) (unwrap_or [] (th_local_filename (jb_history job)))"
  obtains r e1 where "do_send ds env job e = Some (r, e1)"
proof -
  have returns: "send_attempt ds (env 0) job resume e' \<noteq> None" "send_attempt ds (env 1) job resume e' \<noteq> None" for resume e'
    using send_attempt_returns assms by blast+
  have "do_send ds env job e \<noteq> None"
    unfolding do_send_def Let_def
  proof (intro pact_bind_returns returns)
    fix r e'
    have "act_pbind (act_modify (reset_for_full_retry ds (env 0) (th_id (jb_history job)))) (\<lambda>_.
        pact_bind (send_attempt ds (env 1) job None) (\<lambda>r. pact_of (lift_result (g r)))) e' \<noteq> None" for g :: "_ \<Rightarrow> 'a engine \<Rightarrow> (session_error, xfer_result) result"
      by (intro act_pbind_returns pact_bind_returns returns) (simp add: pact_of_def)
    then show "(case r of
        Inr out \<Rightarrow> pact_of (act_return (xfer_result_of (env 0) (unwrap_or [] (th_local_filename (jb_history job))) out))
      | Inl err \<Rightarrow>
         if jb_resume job \<noteq> None \<and> is_restart_refusal err then
           act_pbind (act_modify (reset_for_full_retry ds (env 0) (th_id (jb_history job)))) (\<lambda>_.
           pact_bind (send_attempt ds (env 1) job None) (\<lambda>r.
           pact_of (lift_result (\<lambda>_. case r of
             Inr out \<Rightarrow> Inr (xfer_result_of (env 1) (unwrap_or [] (th_local_filename (jb_history job))) out) | Inl err \<Rightarrow> Inl err))))
         else pact_of (act_fail err)) e' \<noteq> None"
      by (cases r) (simp_all add: pact_of_def)
  qed
  then show ?thesis using that by auto
qed

text \<open>C17: The jobs of the client end, and its history tells how. Whatever the files, the connection and the peer
  do, a job that sends returns when the sending loop has one turn for each byte of the file (and one more) for each byte that arrives on the
  connection (and one more), and a job that receives always returns; either ends with its own record in a final
  status, which is \<open>Xs_Completed\<close> exactly when the session completed the transfer and the peer reported no
  error; no other record changes, and the transfer can no longer be cancelled.\<close>

theorem client_jobs_end:
  assumes ok: "codec_ok (ds_history ds)" and known: "history ds e (th_id (jb_history job)) \<noteq> None"
    and fuel: "\<And>k. k < 2 \<Longrightarrow> fuel_suffices (env k) (unwrap_or [] (th_local_filename (jb_history job)))"
  shows "(\<exists>r e1 e' h. do_send ds env job e = Some (r, e1) \<and> run_send ds env job e = Some e' \<and>
        history ds e' = (history ds e)(th_id (jb_history job) \<mapsto> h) \<and>
        is_final (th_status h) \<and> (th_status h = Xs_Completed \<longleftrightarrow> xfer_ok r) \<and> en_cancels e' (th_id (jb_history job)) = None) \<and>
    (\<exists>h. history ds (run_receive ds env job e) = (history ds e)(th_id (jb_history job) \<mapsto> h) \<and> is_final (th_status h) \<and>
      (th_status h = Xs_Completed \<longleftrightarrow> xfer_ok (fst (do_receive ds env job e))) \<and>
      en_cancels (run_receive ds env job e) (th_id (jb_history job)) = None)"
proof -
  obtain r e1 where r: "do_send ds env job e = Some (r, e1)" by (rule do_send_returns [of env job ds e]) (use fuel in auto)
  have "\<exists>e' h. run_send ds env job e = Some e' \<and> history ds e' = (history ds e)(th_id (jb_history job) \<mapsto> h) \<and>
      is_final (th_status h) \<and> (th_status h = Xs_Completed \<longleftrightarrow> xfer_ok r) \<and> en_cancels e' (th_id (jb_history job)) = None"
    using finished_job [OF ok known, of e1 "env 2" r] job_do_send [OF ok, of job env] r
    by (auto simp: run_send_def job_pact_def engine_finish_cancels)
  moreover have "job_changes ds (th_id (jb_history job)) e (snd (do_receive ds env job e))"
    using job_do_receive [OF ok, of job env] by (simp add: job_act_def)
  then have "\<exists>h. history ds (run_receive ds env job e) = (history ds e)(th_id (jb_history job) \<mapsto> h) \<and> is_final (th_status h) \<and>
      (th_status h = Xs_Completed \<longleftrightarrow> xfer_ok (fst (do_receive ds env job e))) \<and>
      en_cancels (run_receive ds env job e) (th_id (jb_history job)) = None"
    using finished_job [OF ok known, of "snd (do_receive ds env job e)" "env 2" "fst (do_receive ds env job e)"]
    by (simp add: run_receive_def split_beta engine_finish_cancels)
  ultimately show ?thesis using r by blast
qed

datatype client_doc = Cd_Server pesit_server | Cd_Partner client_partner | Cd_History transfer_history | Cd_Event audit_event

definition sample_client_serde :: "client_doc client_serde" where
  "sample_client_serde =
     \<lparr>ds_server = \<lparr>cd_to = Cd_Server, cd_from = (\<lambda>d. case d of Cd_Server x \<Rightarrow> Some x | _ \<Rightarrow> None)\<rparr>,
      ds_partner = \<lparr>cd_to = Cd_Partner, cd_from = (\<lambda>d. case d of Cd_Partner x \<Rightarrow> Some x | _ \<Rightarrow> None)\<rparr>,
      ds_history = \<lparr>cd_to = Cd_History, cd_from = (\<lambda>d. case d of Cd_History x \<Rightarrow> Some x | _ \<Rightarrow> None)\<rparr>,
      ds_event = \<lparr>cd_to = Cd_Event, cd_from = (\<lambda>d. case d of Cd_Event x \<Rightarrow> Some x | _ \<Rightarrow> None)\<rparr>\<rparr>"

definition sample_settings :: engine_settings where
  "sample_settings = \<lparr>es_checkpoint_dir = rstr ''/cp'', es_receive_dir = rstr ''/in'', es_requester_id = rstr ''CLIENT'',
     es_sync_interval_kb = 32, es_sync_window = 4, es_record_length = 1024, es_max_entity_size = 4096,
     es_tls_defaults = \<lparr>tc_ca_file = None, tc_cert_file = None, tc_key_file = None, tc_verify_hostname = None,
       tc_insecure = False, tc_min_version = None\<rparr>\<rparr>"

definition sample_client_env :: client_env where
  "sample_client_env = node_env.extend (sample_env 0)
     \<lparr>cv_is_file = (\<lambda>_. True), cv_connect = (\<lambda>_ _. Inl (S_Timeout ''TCP connection'')),
      cv_store = \<lparr>to_record = (\<lambda>_ c. (Inr (), c)), to_get = (\<lambda>_ _. None), to_last = fc_last,
        to_last_acknowledged = fc_last_acknowledged, to_acknowledge = (\<lambda>_ c. (Inr (), c)), to_clear = (\<lambda>c. (Inr (), c))\<rparr>,
      cv_cancel = [], cv_reported = (\<lambda>_. 0), cv_text = (\<lambda>_. []), cv_audit_uuid = [], cv_millis = (\<lambda>_. None), cv_fuel = 0\<rparr>"

definition failed_history :: transfer_history where
  "failed_history = transfer_history_default\<lparr>th_id := [7], th_status := Xs_Failed, th_last_sync_point := 3, th_server_id := Some [1],
     th_local_filename := Some (rstr ''/data/a''), th_remote_filename := Some (rstr ''FILE''), th_direction := Some Xd_Receive\<rparr>"

definition sample_engine :: "client_doc engine" where
  "sample_engine = engine_new
     \<lparr>al_store = js_set C_TRANSFERS [\<lparr>rw_key = [7], rw_doc = Cd_History failed_history, rw_seq = 1\<rparr>]
        (js_set C_SERVERS [\<lparr>rw_key = [1], rw_doc = Cd_Server (pesit_server_default\<lparr>sv_id := [1]\<rparr>), rw_seq = 1\<rparr>] js_new),
       al_max_entries = 0, al_writes = 0\<rparr>
     sample_settings"

definition sample_job :: client_job where
  "sample_job = \<lparr>jb_history = failed_history\<lparr>th_status := Xs_InProgress\<rparr>, jb_server = pesit_server_default,
     jb_request = transfer_request_default, jb_resume = None\<rparr>"

lemma sample_client_ok: "codec_ok (ds_history sample_client_serde)" "history sample_client_serde sample_engine [7] = Some failed_history"
  by (simp_all add: codec_ok_def sample_client_serde_def history_def js_doc_def js_get_def js_rows_def js_set_def
      sample_engine_def engine_new_def tb_find_def js_decode_def ok_or_def)

text \<open>The surroundings of a job with a file of three bytes and a connection on which these events arrive.\<close>

definition live_client_env :: "rx_event list \<Rightarrow> client_env" where
  "live_client_env rx = sample_client_env\<lparr>ne_open := (\<lambda>_. Inr [1, 2, 3]), cv_connect := (\<lambda>_ _. Inr ([], rx)),
     cv_fuel := (sum_list (map event_size rx) + 1) * 4\<rparr>"

theorem client_jobs_end_witness:
  "\<forall>rx. (\<exists>e' h. run_send sample_client_serde (\<lambda>_. live_client_env rx) sample_job sample_engine = Some e' \<and>
      history sample_client_serde e' [7] = Some h \<and> is_final (th_status h)) \<and>
    (\<exists>h. history sample_client_serde (run_receive sample_client_serde (\<lambda>_. live_client_env rx) sample_job sample_engine) [7] = Some h \<and>
      is_final (th_status h))"
proof
  fix rx
  have i: "th_id (jb_history sample_job) = [7]" by (simp add: sample_job_def failed_history_def)
  have "fuel_suffices (live_client_env rx) path" for path by (simp add: fuel_suffices_def live_client_env_def)
  from client_jobs_end [of sample_client_serde sample_engine sample_job "\<lambda>_. live_client_env rx", OF _ _ this] sample_client_ok
  show "(\<exists>e' h. run_send sample_client_serde (\<lambda>_. live_client_env rx) sample_job sample_engine = Some e' \<and>
      history sample_client_serde e' [7] = Some h \<and> is_final (th_status h)) \<and>
    (\<exists>h. history sample_client_serde (run_receive sample_client_serde (\<lambda>_. live_client_env rx) sample_job sample_engine) [7] = Some h \<and>
      is_final (th_status h))"
    unfolding i by auto
qed

section \<open>Retrying\<close>

lemma submit_history:
  assumes "codec_ok (ds_history ds)" "js_tables (en_store e) C_TRANSFERS \<noteq> None" "engine_submit ds h server req resume e = (Inr job, e')"
  shows "jb_history job = h" "jb_resume job = resume" "jb_request job = req" "history ds e' = (history ds e)(th_id h \<mapsto> h)"
  using assms by (auto simp: engine_submit_def history_save)

lemma new_history_simps [simp]:
  "th_id (new_history env d server req p l r n) = ne_uuid env" "th_status (new_history env d server req p l r n) = Xs_InProgress"
  "th_direction (new_history env d server req p l r n) = Some d" "th_local_filename (new_history env d server req p l r n) = Some l"
  "th_remote_filename (new_history env d server req p l r n) = Some r"
  by (simp_all add: new_history_def)

lemma continue_from_simps [simp]:
  "th_id (continue_from p h) = th_id h" "th_status (continue_from p h) = th_status h" "th_direction (continue_from p h) = th_direction h"
  "th_local_filename (continue_from p h) = th_local_filename h" "th_remote_filename (continue_from p h) = th_remote_filename h"
  "th_pesit_transfer_id (continue_from p h) = th_pesit_transfer_id p" "th_last_sync_point (continue_from p h) = th_last_sync_point p"
  by (simp_all add: continue_from_def)

lemma submit_send_accepted:
  assumes ok: "codec_ok (ds_history ds)" "js_tables (en_store e) C_TRANSFERS \<noteq> None" and s: "submit_send ds env req e = (Inr job, e')"
  shows "history ds e' = (history ds e)(ne_uuid env \<mapsto> jb_history job)" "jb_resume job = resumed ds req e"
    "th_id (jb_history job) = ne_uuid env" "th_status (jb_history job) = Xs_InProgress"
    "th_local_filename (jb_history job) = non_empty (tq_filename req)" "th_remote_filename (jb_history job) = req_virtual_file req"
    "jb_resume job = Some prev \<Longrightarrow> th_pesit_transfer_id (jb_history job) = th_pesit_transfer_id prev \<and>
      th_last_sync_point (jb_history job) = th_last_sync_point prev"
proof -
  from s obtain server l r n where *: "non_empty (tq_filename req) = Some l" "req_virtual_file req = Some r"
    "engine_submit ds (case resumed ds req e of None \<Rightarrow> new_history env Xd_Send server req (requester_of req e) l r (Some n)
      | Some prev \<Rightarrow> continue_from prev (new_history env Xd_Send server req (requester_of req e) l r (Some n))) server req
      (resumed ds req e) e = (Inr job, e')"
    by (auto simp: submit_send_def Let_def and_then_eq_Inr ok_or_def split: sum.splits option.splits if_splits)
  note sub = submit_history [OF ok *(3)]
  from sub *(1,2) show "history ds e' = (history ds e)(ne_uuid env \<mapsto> jb_history job)" "jb_resume job = resumed ds req e"
    "th_id (jb_history job) = ne_uuid env" "th_status (jb_history job) = Xs_InProgress"
    "th_local_filename (jb_history job) = non_empty (tq_filename req)" "th_remote_filename (jb_history job) = req_virtual_file req"
    by (simp_all split: option.split)
  from sub show "jb_resume job = Some prev \<Longrightarrow> th_pesit_transfer_id (jb_history job) = th_pesit_transfer_id prev \<and>
      th_last_sync_point (jb_history job) = th_last_sync_point prev"
    by simp
qed

lemma submit_receive_accepted:
  assumes ok: "codec_ok (ds_history ds)" "js_tables (en_store e) C_TRANSFERS \<noteq> None" and s: "submit_receive ds env req e = (Inr job, e')"
  shows "history ds e' = (history ds e)(ne_uuid env \<mapsto> jb_history job)" "jb_resume job = resumed ds req e"
    "th_id (jb_history job) = ne_uuid env" "th_status (jb_history job) = Xs_InProgress"
    "th_remote_filename (jb_history job) = req_virtual_file req"
    "jb_resume job = Some prev \<Longrightarrow> th_pesit_transfer_id (jb_history job) = th_pesit_transfer_id prev \<and>
      th_last_sync_point (jb_history job) = th_last_sync_point prev \<and> th_local_filename (jb_history job) = th_local_filename prev"
proof -
  from s obtain server l r where *: "req_virtual_file req = Some r"
    "engine_submit ds (case resumed ds req e of None \<Rightarrow> new_history env Xd_Receive server req (requester_of req e) l r None
      | Some prev \<Rightarrow> (continue_from prev (new_history env Xd_Receive server req (requester_of req e) l r None))\<lparr>th_local_filename := th_local_filename prev\<rparr>)
      server req (resumed ds req e) e = (Inr job, e')"
    by (auto simp: submit_receive_def Let_def and_then_eq_Inr ok_or_def split: sum.splits option.splits if_splits)
  note sub = submit_history [OF ok *(2)]
  from sub *(1) show "history ds e' = (history ds e)(ne_uuid env \<mapsto> jb_history job)" "jb_resume job = resumed ds req e"
    "th_id (jb_history job) = ne_uuid env" "th_status (jb_history job) = Xs_InProgress" "th_remote_filename (jb_history job) = req_virtual_file req"
    by (simp_all split: option.split)
  from sub show "jb_resume job = Some prev \<Longrightarrow> th_pesit_transfer_id (jb_history job) = th_pesit_transfer_id prev \<and>
      th_last_sync_point (jb_history job) = th_last_sync_point prev \<and> th_local_filename (jb_history job) = th_local_filename prev"
    by simp
qed

lemma final_not_completed: "is_final st \<Longrightarrow> st \<in> {Xs_Interrupted, Xs_Failed, Xs_Cancelled} \<longleftrightarrow> st \<noteq> Xs_Completed"
  by (cases st) (auto simp: is_final_def)

lemma history_SomeD: "history ds e i = Some h \<Longrightarrow> engine_get ds i e = Inr (Some h)"
  by (auto simp: history_eq_get split: sum.splits)

text \<open>C18: A retry is a new transfer with a record of its own, and only of a transfer that is over. It continues the old
  transfer exactly when that one did not complete and had passed a synchronisation point, then with its
  identifier, its last point and (when receiving) its file; a file sent is the same file in any case.\<close>

theorem retry_resumes:
  assumes ok: "codec_ok (ds_history ds)" "js_tables (en_store e) C_TRANSFERS \<noteq> None" and prev: "history ds e i = Some prev"
    and retry: "engine_retry ds env i e = (Inr job, e')"
  shows "is_final (th_status prev) \<and> history ds e' = (history ds e)(ne_uuid env \<mapsto> jb_history job) \<and>
    th_status (jb_history job) = Xs_InProgress \<and>
    jb_resume job = (if th_status prev \<noteq> Xs_Completed \<and> 0 < th_last_sync_point prev then Some prev else None) \<and>
    (jb_resume job \<noteq> None \<longrightarrow> th_pesit_transfer_id (jb_history job) = th_pesit_transfer_id prev \<and>
      th_last_sync_point (jb_history job) = th_last_sync_point prev) \<and>
    (jb_resume job \<noteq> None \<or> th_direction prev \<noteq> Some Xd_Receive \<longrightarrow>
      th_local_filename prev \<noteq> Some [] \<longrightarrow> th_local_filename (jb_history job) = th_local_filename prev) \<and>
    (th_remote_filename prev \<noteq> None \<longrightarrow> th_remote_filename (jb_history job) = th_remote_filename prev)"
proof -
  let ?q = "retry_request i prev"
  have final: "is_final (th_status prev)" and sub: "if th_direction prev = Some Xd_Receive then submit_receive ds env ?q e = (Inr job, e')
      else submit_send ds env ?q e = (Inr job, e')"
    using retry history_SomeD [OF prev] by (auto simp: engine_retry_def split: if_splits option.splits xfer_direction.splits)
  have res: "resumed ds ?q e = (if th_status prev \<noteq> Xs_Completed \<and> 0 < th_last_sync_point prev then Some prev else None)"
    using final_not_completed [OF final] history_SomeD [OF prev] by (auto simp: resumed_def retry_request_def Let_def)
  have q: "tq_filename ?q = th_local_filename prev" "tq_remote_filename ?q = th_remote_filename prev" by (simp_all add: retry_request_def Let_def)
  have vf: "req_virtual_file ?q = Some r \<Longrightarrow> th_remote_filename prev \<noteq> None \<Longrightarrow> th_remote_filename prev = Some r" for r
    by (auto simp: req_virtual_file_def q non_empty_def split: option.splits if_splits)
  show ?thesis
  proof (cases "th_direction prev = Some Xd_Receive")
    case True
    with sub have "submit_receive ds env ?q e = (Inr job, e')" by simp
    note acc = submit_receive_accepted [OF ok this]
    have r: "req_virtual_file ?q \<noteq> None" using \<open>submit_receive ds env ?q e = (Inr job, e')\<close>
      by (auto simp: submit_receive_def and_then_def ok_or_def split: sum.splits option.splits)
    show ?thesis using True final res acc(1-5) acc(6) [of prev] vf r by auto
  next
    case False
    with sub have "submit_send ds env ?q e = (Inr job, e')" by simp
    note acc = submit_send_accepted [OF ok this]
    have r: "req_virtual_file ?q \<noteq> None" "th_local_filename prev \<noteq> None" using \<open>submit_send ds env ?q e = (Inr job, e')\<close>
      by (auto simp: submit_send_def and_then_def ok_or_def q non_empty_def split: sum.splits option.splits if_splits)
    have "th_local_filename prev \<noteq> Some [] \<Longrightarrow> non_empty (th_local_filename prev) = th_local_filename prev"
      by (auto simp: non_empty_def split: option.splits)
    then show ?thesis using False final res acc(1-4) acc(5,6) [unfolded q] acc(7) [of prev] vf r by auto
  qed
qed

theorem retry_resumes_witness:
  "\<exists>job. fst (engine_retry sample_client_serde sample_client_env [7] sample_engine) = Inr job \<and> jb_resume job = Some failed_history \<and>
    th_last_sync_point (jb_history job) = 3 \<and> th_local_filename (jb_history job) = Some (rstr ''/data/a'')"
proof -
  let ?q = "retry_request [7] failed_history"
  have "C_TRANSFERS \<noteq> C_SERVERS" by (simp add: C_TRANSFERS_def C_SERVERS_def rstr_def)
  then have "resolve_server sample_client_serde (Some [1]) sample_engine = Inr (pesit_server_default\<lparr>sv_id := [1]\<rparr>)"
    and t: "js_tables (en_store sample_engine) C_TRANSFERS \<noteq> None"
    by (simp_all add: resolve_server_def sample_engine_def engine_new_def js_list_def js_rows_def js_set_def js_decode_def ok_or_def
        tb_by_seq_def sample_client_serde_def and_then_def map_err_def non_empty_def)
  moreover have "tq_server ?q = Some [1]" "req_virtual_file ?q = Some (rstr ''FILE'')"
    by (simp_all add: retry_request_def Let_def failed_history_def or_else_def req_virtual_file_def non_empty_def rstr_def)
  ultimately obtain job e' where r: "engine_retry sample_client_serde sample_client_env [7] sample_engine = (Inr job, e')"
    using history_SomeD [OF sample_client_ok(2)]
    by (simp add: engine_retry_def is_final_def failed_history_def submit_receive_def and_then_def ok_or_def Let_def engine_submit_def)
  from retry_resumes [OF sample_client_ok(1) t sample_client_ok(2) r] r show ?thesis
    by (simp add: failed_history_def rstr_def)
qed

section \<open>What the client announces\<close>

lemma counter_transfer_id_bounds: "0 < counter_transfer_id n" "unat (counter_transfer_id n) < 2 ^ 24"
proof -
  let ?v = "max (n mod 0x00FFFFFF) 1"
  have "unat (n mod 0x00FFFFFF) < 0x00FFFFFF" by (simp add: unat_mod)
  then have v: "1 \<le> unat ?v" "unat ?v < 2 ^ 24" by (auto simp: max_def word_le_nat_alt)
  then have "unat (ucast ?v :: u32) = unat ?v" by (simp add: unsigned_ucast_eq take_bit_nat_eq_self)
  with v show "0 < counter_transfer_id n" "unat (counter_transfer_id n) < 2 ^ 24"
    by (simp_all add: counter_transfer_id_def word_less_nat_alt)
qed

text \<open>The texts of a request, its server and the settings, within the lengths of the catalogue; empty optional texts count as absent.\<close>

definition request_ok :: "'j client_serde \<Rightarrow> client_env \<Rightarrow> pesit_server \<Rightarrow> rstring \<Rightarrow> rstring \<Rightarrow> transfer_request \<Rightarrow> 'j engine \<Rightarrow> bool" where
  "request_ok ds env server partner_id remote req e \<longleftrightarrow>
     plain 24 partner_id \<and> plain 24 (sv_server_id server) \<and> plain_opt 16 (password_for ds partner_id (tq_password req) e) \<and>
     (\<forall>i. non_empty (sv_preconnect_id server) = Some i \<longrightarrow>
        list_all (\<lambda>c. c < 128) (i @ unwrap_or [] (sv_preconnect_password server)) \<and> length i \<le> 8 \<and>
        length (unwrap_or [] (sv_preconnect_password server)) \<le> 8) \<and>
     plain 76 remote \<and> plain 12 (ne_pesit_now env) \<and> plain_opt 80 (non_empty (tq_label req)) \<and>
     plain_opt 24 (non_empty (tq_client_id req)) \<and> plain_opt 24 (non_empty (tq_bank_id req)) \<and>
     plain_opt 254 (non_empty (tq_free_message req))"

text \<open>C19: What the client announces arrives. For a request within the lengths of the catalogue, the configuration of the
  session is one the connection theorems cover, and the specification of the file, under a
  transfer identifier that is not zero and fits its three bytes, is read back unchanged by a strict
  peer from the CREATE the session sends; a synchronisation interval in the request is never announced
  as zero or as undefined.\<close>

theorem client_announcement_arrives:
  assumes "request_ok ds env server partner_id remote req e" and "engine_transfer_id e = (pid, e1)"
  shows "config_ok (engine_requester_config ds server partner_id (tq_password req) req access e) \<and>
    (let spec = \<lparr>ts_file = engine_file_spec env req remote size' pid False e, ts_restart = None\<rparr>;
         f = rq_file (engine_requester_config ds server partner_id (tq_password req) req access e) spec
     in fs_file_name f = remote \<and> 0 < fs_transfer_id f \<and>
       (\<exists>bs g. encode (spec_create f dst) = Inr bs \<and> decode bs = Inr g \<and> spec_from_fpdu g = f)) \<and>
    (unwrap_or True (tq_sync_points_enabled req) \<longrightarrow> tq_sync_point_interval req \<notin> {None, Some 0} \<longrightarrow>
      interval_kb (rc_sync (engine_requester_config ds server partner_id (tq_password req) req access e)) \<in> {1..0xFFFE})"
proof -
  let ?cfg = "engine_requester_config ds server partner_id (tq_password req) req access e"
  let ?spec = "\<lparr>ts_file = engine_file_spec env req remote size' pid False e, ts_restart = None\<rparr> :: transfer_spec"
  let ?f = "rq_file ?cfg ?spec"
  have pid: "0 < pid" "unat pid < 2 ^ 24"
    using assms(2) counter_transfer_id_bounds by (auto simp: engine_transfer_id_def split: prod.splits)
  have cfg: "config_ok ?cfg"
    using assms(1) by (cases "non_empty (sv_preconnect_id server)")
      (auto simp: config_ok_def request_ok_def engine_requester_config_def plain_opt_def list_all_iff)
  have f: "spec_ok ?f" "fs_file_name ?f = remote" "fs_transfer_id ?f = pid"
    using assms(1) pid by (simp_all add: spec_ok_def request_ok_def rq_file_def Let_def engine_file_spec_def file_spec_empty_def plain_opt_def)
  have "\<exists>bs g. encode (spec_create ?f dst) = Inr bs \<and> decode bs = Inr g \<and> spec_from_fpdu g = ?f"
    using sendable_wire [OF compact_sendable [OF create_compact [OF f(1)]]] spec_from_create [OF f(1)] by blast
  moreover have "interval_kb (rc_sync ?cfg) \<in> {1..0xFFFE}"
    if "unwrap_or True (tq_sync_points_enabled req)" "tq_sync_point_interval req \<notin> {None, Some 0}"
    using requested_interval_bounds [of req] that by (auto simp: engine_requester_config_def)
  ultimately show ?thesis using cfg f(2,3) pid(1) by (auto simp: Let_def)
qed

theorem client_announcement_arrives_witness:
  "config_ok (engine_requester_config sample_client_serde (pesit_server_default\<lparr>sv_server_id := [83]\<rparr>) [67] None
      (transfer_request_default\<lparr>tq_sync_point_interval := Some 100000\<rparr>) Access_Write sample_engine) \<and>
   interval_kb (rc_sync (engine_requester_config sample_client_serde (pesit_server_default\<lparr>sv_server_id := [83]\<rparr>) [67] None
      (transfer_request_default\<lparr>tq_sync_point_interval := Some 100000\<rparr>) Access_Write sample_engine)) \<in> {1..0xFFFE}"
proof -
  let ?q = "transfer_request_default\<lparr>tq_sync_point_interval := Some 100000\<rparr>" and ?sv = "pesit_server_default\<lparr>sv_server_id := [83]\<rparr>"
  have "password_for sample_client_serde [67] None sample_engine = None"
    by (simp add: password_for_def sample_engine_def engine_new_def js_list_def js_rows_def js_set_def and_then_def ok_or_def non_empty_def
        C_PARTNERS_def C_SERVERS_def C_TRANSFERS_def rstr_def js_new_def)
  then have "request_ok sample_client_serde sample_client_env ?sv [67] [70] ?q sample_engine"
    by (simp add: request_ok_def plain_def trim_end_def is_whitespace_def pesit_server_default_def transfer_request_default_def non_empty_def
        plain_opt_def sample_client_env_def node_env.defs sample_env_def rstr_def)
  moreover obtain pid e1 where "engine_transfer_id sample_engine = (pid, e1)" by fastforce
  ultimately show ?thesis
    using client_announcement_arrives [of sample_client_serde sample_client_env ?sv "[67]" "[70]" ?q sample_engine pid e1 Access_Write None 0]
    by (simp add: transfer_request_default_def unwrap_or_def)
qed

end
