(* ===== verification/Client_Api.thy ===== *)
theory Client_Api
  imports Client_Props
begin

text \<open>
  The operations of the client's API (\<^verbatim>\<open>pesit-client/src/api.rs\<close>) behind the HTTP routes: servers with their certificates,
  credentials, transfers and their history. A handler gives its answer and the state; texts of JSON answers
  are constructors. At most one server is the default one.
\<close>

type_synonym ('j, 'a) client_answer = "(api_error, 'a) result \<times> 'j engine"

section \<open>Servers\<close>

definition store_answer :: "(store_error, 'a) result \<Rightarrow> (api_error, 'a) result" where
  "store_answer = map_err api_of_store"

definition list_servers :: "'j client_serde \<Rightarrow> 'j engine \<Rightarrow> (api_error, pesit_server list) result" where
  "list_servers ds e = store_answer (js_list (ds_server ds) C_SERVERS (en_store e))"

definition find_server :: "'j client_serde \<Rightarrow> rstring \<Rightarrow> 'j engine \<Rightarrow> (api_error, pesit_server) result" where
  "find_server ds i e =
     and_then (store_answer (js_get (ds_server ds) C_SERVERS i (en_store e))) (\<lambda>found.
     case found of
       Some s \<Rightarrow> Inr s
     | None \<Rightarrow>
        and_then (list_servers ds e) (\<lambda>servers.
        ok_or (api_not_found (rstr ''server '' @ quoted i @ rstr '' not found'')) (find (\<lambda>s. sv_name s = i) servers)))"

definition validate_server :: "pesit_server \<Rightarrow> (api_error, unit) result" where
  "validate_server s =
     (if str_trim (sv_name s) = [] then Inl (api_bad_request (rstr ''name is required''))
      else if str_trim (sv_host s) = [] then Inl (api_bad_request (rstr ''host is required''))
      else if sv_port s = 0 then Inl (api_bad_request (rstr ''port is required''))
      else Inr ())"

definition refresh_tls_flags :: "pesit_server \<Rightarrow> pesit_server" where
  "refresh_tls_flags s =
     s\<lparr>sv_truststore_configured := (sv_ca_file s \<noteq> None),
       sv_keystore_configured := (sv_cert_file s \<noteq> None \<and> sv_key_file s \<noteq> None)\<rparr>"

definition enabled_servers :: "'j client_serde \<Rightarrow> 'j engine \<Rightarrow> (api_error, pesit_server list) result" where
  "enabled_servers ds e = and_then (list_servers ds e) (\<lambda>servers. Inr (filter sv_enabled servers))"

definition default_server :: "'j client_serde \<Rightarrow> 'j engine \<Rightarrow> (api_error, pesit_server) result" where
  "default_server ds e = resolve_server ds None e"

definition put_server :: "'j client_serde \<Rightarrow> pesit_server \<Rightarrow> 'j engine \<Rightarrow> (store_error, unit) result \<times> 'j engine" where
  "put_server ds s e = apsnd (\<lambda>st. set_store st e) (js_put (ds_server ds) C_SERVERS (sv_id s) s (en_store e))"

text \<open>A loop that stores servers and returns at the first error.\<close>

fun put_servers :: "'j client_serde \<Rightarrow> pesit_server list \<Rightarrow> 'j engine \<Rightarrow> (store_error, unit) result \<times> 'j engine" where
  "put_servers ds [] e = (Inr (), e)"
| "put_servers ds (s # ss) e =
     (case put_server ds s e of
        (Inl err, e) \<Rightarrow> (Inl err, e)
      | (Inr _, e) \<Rightarrow> put_servers ds ss e)"

definition api_audit :: "'j client_serde \<Rightarrow> client_env \<Rightarrow> rstring \<Rightarrow> rstring \<Rightarrow> 'j engine \<Rightarrow> 'j engine" where
  "api_audit ds env action target e =
     e\<lparr>en_audit := audit_success (ds_event ds) (cv_audit_uuid env) (ne_now_iso env) (rstr ''config'') action target (en_audit e)\<rparr>"

definition store_server :: "'j client_serde \<Rightarrow> pesit_server \<Rightarrow> 'a \<Rightarrow> 'j engine \<Rightarrow> ('j, 'a) client_answer" where
  "store_server ds s answer e =
     (case put_server ds s e of (Inl err, e) \<Rightarrow> (Inl (api_of_store err), e) | (Inr _, e) \<Rightarrow> (Inr answer, e))"

definition create_server :: "'j client_serde \<Rightarrow> client_env \<Rightarrow> pesit_server \<Rightarrow> 'j engine \<Rightarrow> ('j, pesit_server) client_answer" where
  "create_server ds env s e =
     (case and_then (validate_server s) (\<lambda>_. list_servers ds e) of
        Inl err \<Rightarrow> (Inl err, e)
      | Inr servers \<Rightarrow>
         if \<exists>x \<in> set servers. sv_name x = sv_name s
         then (Inl (api_conflict (rstr ''server '' @ quoted (sv_name s) @ rstr '' already exists'')), e)
         else
           let s = refresh_tls_flags (s\<lparr>sv_id := ne_uuid env, sv_created_at := Some (ne_now_iso env), sv_updated_at := Some (ne_now_iso env)\<rparr>);
               others = (if sv_default_server s
                 then map (\<lambda>x. x\<lparr>sv_default_server := False\<rparr>) (filter sv_default_server servers) else [])
           in case put_servers ds others e of
                (Inl err, e) \<Rightarrow> (Inl (api_of_store err), e)
              | (Inr _, e) \<Rightarrow>
                 (case store_server ds s s e of
                    (Inl err, e) \<Rightarrow> (Inl err, e)
                  | (Inr s, e) \<Rightarrow> (Inr s, api_audit ds env (rstr ''create'') (rstr ''remote-server:'' @ sv_name s) e)))"

definition update_server :: "'j client_serde \<Rightarrow> client_env \<Rightarrow> rstring \<Rightarrow> pesit_server \<Rightarrow> 'j engine \<Rightarrow> ('j, pesit_server) client_answer" where
  "update_server ds env i s e =
     (case find_server ds i e of
        Inl err \<Rightarrow> (Inl err, e)
      | Inr existing \<Rightarrow>
         (case validate_server s of
            Inl err \<Rightarrow> (Inl err, e)
          | Inr _ \<Rightarrow>
             let s = s\<lparr>sv_id := sv_id existing, sv_created_at := sv_created_at existing, sv_updated_at := Some (ne_now_iso env)\<rparr>;
                 s = (if sv_ca_file s = None then s\<lparr>sv_ca_file := sv_ca_file existing\<rparr> else s);
                 s = (if sv_cert_file s = None
                      then s\<lparr>sv_cert_file := sv_cert_file existing, sv_key_file := sv_key_file existing\<rparr> else s);
                 s = refresh_tls_flags s
             in store_server ds s s e))"

definition delete_server :: "'j client_serde \<Rightarrow> client_env \<Rightarrow> rstring \<Rightarrow> 'j engine \<Rightarrow> ('j, unit) client_answer" where
  "delete_server ds env i e =
     (case find_server ds i e of
        Inl err \<Rightarrow> (Inl err, e)
      | Inr s \<Rightarrow>
         (case js_delete C_SERVERS (sv_id s) (en_store e) of
            (Inl err, st) \<Rightarrow> (Inl (api_of_store err), set_store st e)
          | (Inr _, st) \<Rightarrow> (Inr (), api_audit ds env (rstr ''delete'') (rstr ''remote-server:'' @ sv_name s) (set_store st e))))"

definition as_default :: "client_env \<Rightarrow> rstring \<Rightarrow> pesit_server \<Rightarrow> pesit_server" where
  \<comment> \<open>the flag of a server when the one with identifier \<open>i\<close> becomes the default\<close>
  "as_default env i x =
     (if sv_default_server x \<noteq> (sv_id x = i)
      then x\<lparr>sv_default_server := (sv_id x = i), sv_updated_at := Some (ne_now_iso env)\<rparr> else x)"

definition set_default :: "'j client_serde \<Rightarrow> client_env \<Rightarrow> rstring \<Rightarrow> 'j engine \<Rightarrow> ('j, pesit_server) client_answer" where
  "set_default ds env i e =
     (case find_server ds i e of
        Inl err \<Rightarrow> (Inl err, e)
      | Inr target \<Rightarrow>
         (case list_servers ds e of
            Inl err \<Rightarrow> (Inl err, e)
          | Inr servers \<Rightarrow>
             let i = sv_id target;
                 changed = map (as_default env i) (filter (\<lambda>x. sv_default_server x \<noteq> (sv_id x = i)) servers);
                 answer = fold (\<lambda>x r. if sv_id x = i then as_default env i x else r) servers target
             in case put_servers ds changed e of
                  (Inl err, e) \<Rightarrow> (Inl (api_of_store err), e)
                | (Inr _, e) \<Rightarrow> (Inr answer, e)))"

section \<open>Certificates\<close>

text \<open>
  The parts of a multipart upload: the name of the field, the name of the file, its bytes or the text of the error, its text.
  The list ends with the text of an error when reading the next part fails.
\<close>

record upload_part =
  up_name :: "rstring option"
  up_file_name :: "rstring option"
  up_bytes :: "(rstring, bytes) result"
  up_text :: "rstring option"

fun read_parts :: "(rstring, upload_part) result list \<Rightarrow> bytes \<times> rstring \<times> rstring option \<Rightarrow> (api_error, bytes \<times> rstring \<times> rstring option) result" where
  "read_parts [] acc = Inr acc"
| "read_parts (Inl err # ps) acc = Inl (api_bad_request err)"
| "read_parts (Inr p # ps) (data, name, password) =
     (if unwrap_or [] (up_name p) = rstr ''file''
      then (case up_bytes p of
              Inl err \<Rightarrow> Inl (api_bad_request err)
            | Inr bs \<Rightarrow> read_parts ps (bs, unwrap_or (rstr ''upload'') (up_file_name p), password))
      else if unwrap_or [] (up_name p) = rstr ''password'' then read_parts ps (data, name, non_empty (up_text p))
      else read_parts ps (data, name, password))"

definition read_upload :: "(rstring, upload_part) result list \<Rightarrow> (api_error, bytes \<times> rstring \<times> rstring option) result" where
  "read_upload ps =
     and_then (read_parts ps ([], [], None)) (\<lambda>(data, name, password).
     if data = [] then Inl (api_bad_request (rstr ''missing '' @ quoted (rstr ''file'') @ rstr '' part''))
     else Inr (data, name, password))"

definition windows :: "nat \<Rightarrow> 'a list \<Rightarrow> 'a list list" where
  "windows n xs = map (\<lambda>i. take n (drop i xs)) [0..<length xs + 1 - n]"

definition is_pem :: "bytes \<Rightarrow> bool" where
  "is_pem data \<longleftrightarrow> (\<exists>w \<in> set (windows 11 data). w = str_bytes (rstr ''-----BEGIN ''))"

definition rustls_pem_count :: "bytes \<Rightarrow> nat" where
  "rustls_pem_count data = length (filter (\<lambda>w. w = str_bytes (rstr ''-----BEGIN CERTIFICATE-----'')) (windows 27 data))"

datatype upload_answer = Up_NotPem rstring | Up_NoCertificate | Up_Stored nat

text \<open>What creating a directory and writing a file give, and the files that are written.\<close>

record tls_files =
  tf_create_dir :: "rstring \<Rightarrow> (io_kind, unit) result"
  tf_write :: "rstring \<Rightarrow> (io_kind, unit) result"

definition store_pem :: "tls_files \<Rightarrow> client_env \<Rightarrow> rstring \<Rightarrow> rstring \<Rightarrow> (api_error, rstring) result" where
  "store_pem fs env dir name =
     (let io = map_err (\<lambda>k. api_internal (ne_io_text env (Io_Kind k)))
      in and_then (io (tf_create_dir fs dir)) (\<lambda>_.
         and_then (io (tf_write fs (path_join dir name))) (\<lambda>_.
         Inr (path_join dir name))))"

definition upload_truststore :: "'j client_serde \<Rightarrow> client_env \<Rightarrow> tls_files \<Rightarrow> rstring \<Rightarrow> rstring \<Rightarrow> (rstring, upload_part) result list \<Rightarrow>
    'j engine \<Rightarrow> ('j, upload_answer \<times> (rstring \<times> bytes) list) client_answer" where
  "upload_truststore ds env fs tls_dir i parts e =
     (case and_then (find_server ds i e) (\<lambda>s. and_then (read_upload parts) (\<lambda>u. Inr (s, u))) of
        Inl err \<Rightarrow> (Inl err, e)
      | Inr (s, data, name, _) \<Rightarrow>
         if \<not> is_pem data then (Inr (Up_NotPem name, []), e)
         else if rustls_pem_count data = 0 then (Inr (Up_NoCertificate, []), e)
         else case store_pem fs env (path_join tls_dir (sv_id s)) (rstr ''ca.pem'') of
                Inl err \<Rightarrow> (Inl err, e)
              | Inr path \<Rightarrow>
                 let s = refresh_tls_flags (s\<lparr>sv_ca_file := Some path, sv_tls_enabled := True\<rparr>)
                 in store_server ds (s\<lparr>sv_updated_at := Some (ne_now_iso env)\<rparr>) (Up_Stored (rustls_pem_count data), [(path, data)]) e)"

definition delete_truststore :: "'j client_serde \<Rightarrow> rstring \<Rightarrow> 'j engine \<Rightarrow> ('j, unit) client_answer" where
  "delete_truststore ds i e =
     (case find_server ds i e of
        Inl err \<Rightarrow> (Inl err, e)
      | Inr s \<Rightarrow>
         let e = (case sv_ca_file s of Some p \<Rightarrow> remove_file p e | None \<Rightarrow> e)
         in store_server ds (refresh_tls_flags (s\<lparr>sv_ca_file := None\<rparr>)) () e)"

definition upload_keystore :: "'j client_serde \<Rightarrow> client_env \<Rightarrow> tls_files \<Rightarrow> rstring \<Rightarrow> rstring \<Rightarrow> (rstring, upload_part) result list \<Rightarrow>
    'j engine \<Rightarrow> ('j, upload_answer \<times> (rstring \<times> bytes) list) client_answer" where
  "upload_keystore ds env fs tls_dir i parts e =
     (case and_then (find_server ds i e) (\<lambda>s. and_then (read_upload parts) (\<lambda>u. Inr (s, u))) of
        Inl err \<Rightarrow> (Inl err, e)
      | Inr (s, data, name, _) \<Rightarrow>
         if \<not> is_pem data then (Inr (Up_NotPem name, []), e)
         else case store_pem fs env (path_join tls_dir (sv_id s)) (rstr ''client.pem'') of
                Inl err \<Rightarrow> (Inl err, e)
              | Inr path \<Rightarrow>
                 let s = refresh_tls_flags (s\<lparr>sv_cert_file := Some path, sv_key_file := Some path\<rparr>)
                 in store_server ds (s\<lparr>sv_updated_at := Some (ne_now_iso env)\<rparr>) (Up_Stored 0, [(path, data)]) e)"

section \<open>Credentials\<close>

definition list_partners :: "'j client_serde \<Rightarrow> 'j engine \<Rightarrow> (api_error, client_partner list) result" where
  "list_partners ds e = store_answer (js_list (ds_partner ds) C_PARTNERS (en_store e))"

definition get_partner :: "'j client_serde \<Rightarrow> rstring \<Rightarrow> 'j engine \<Rightarrow> (api_error, client_partner) result" where
  "get_partner ds i e =
     and_then (store_answer (js_get (ds_partner ds) C_PARTNERS i (en_store e)))
       (ok_or (api_not_found (rstr ''partner '' @ quoted i @ rstr '' not found'')))"

definition store_partner :: "'j client_serde \<Rightarrow> client_partner \<Rightarrow> 'j engine \<Rightarrow> ('j, client_partner) client_answer" where
  "store_partner ds p e =
     (case js_put (ds_partner ds) C_PARTNERS (cl_id p) p (en_store e) of
        (Inl err, st) \<Rightarrow> (Inl (api_of_store err), set_store st e)
      | (Inr _, st) \<Rightarrow> (Inr p, set_store st e))"

definition create_partner :: "'j client_serde \<Rightarrow> client_env \<Rightarrow> client_partner \<Rightarrow> 'j engine \<Rightarrow> ('j, client_partner) client_answer" where
  "create_partner ds env p e =
     (if str_trim (cl_partner_id p) = [] then (Inl (api_bad_request (rstr ''partnerId is required'')), e)
      else case list_partners ds e of
        Inl err \<Rightarrow> (Inl err, e)
      | Inr partners \<Rightarrow>
         if \<exists>x \<in> set partners. cl_partner_id x = cl_partner_id p
         then (Inl (api_conflict (rstr ''partner '' @ quoted (cl_partner_id p) @ rstr '' already exists'')), e)
         else store_partner ds (p\<lparr>cl_id := ne_uuid env, cl_created_at := Some (ne_now_iso env), cl_updated_at := Some (ne_now_iso env)\<rparr>) e)"

definition update_partner :: "'j client_serde \<Rightarrow> client_env \<Rightarrow> rstring \<Rightarrow> client_partner \<Rightarrow> 'j engine \<Rightarrow> ('j, client_partner) client_answer" where
  "update_partner ds env i p e =
     (case get_partner ds i e of
        Inl err \<Rightarrow> (Inl err, e)
      | Inr existing \<Rightarrow>
         store_partner ds (p\<lparr>cl_id := cl_id existing, cl_created_at := cl_created_at existing, cl_updated_at := Some (ne_now_iso env)\<rparr>) e)"

definition delete_partner :: "rstring \<Rightarrow> 'j engine \<Rightarrow> ('j, unit) client_answer" where
  "delete_partner i e =
     (case js_delete C_PARTNERS i (en_store e) of
        (Inl err, st) \<Rightarrow> (Inl (api_of_store err), set_store st e)
      | (Inr True, st) \<Rightarrow> (Inr (), set_store st e)
      | (Inr False, st) \<Rightarrow> (Inl (api_not_found (rstr ''partner '' @ quoted i @ rstr '' not found'')), set_store st e))"

section \<open>Transfers\<close>

text \<open>A transfer that is accepted is answered with its record; the job is started.\<close>

definition accepted :: "client_env \<Rightarrow> (api_error, client_job) result \<times> 'j engine \<Rightarrow> ('j, transfer_response \<times> client_job) client_answer" where
  "accepted env a =
     (case a of
        (Inl err, e) \<Rightarrow> (Inl err, e)
      | (Inr job, e) \<Rightarrow> (Inr (response_of (cv_millis env) (jb_history job), job), e))"

definition api_send :: "'j client_serde \<Rightarrow> client_env \<Rightarrow> transfer_request \<Rightarrow> 'j engine \<Rightarrow> ('j, transfer_response \<times> client_job) client_answer" where
  "api_send ds env req e = accepted env (submit_send ds env req e)"

definition api_receive :: "'j client_serde \<Rightarrow> client_env \<Rightarrow> transfer_request \<Rightarrow> 'j engine \<Rightarrow> ('j, transfer_response \<times> client_job) client_answer" where
  "api_receive ds env req e = accepted env (submit_receive ds env req e)"

definition api_message :: "'j client_serde \<Rightarrow> client_env \<Rightarrow> message_request \<Rightarrow> 'j engine \<Rightarrow> ('j, transfer_response) client_answer" where
  "api_message ds env req e = engine_send_message ds env req e"

fun status_name :: "xfer_status \<Rightarrow> rstring" where
  "status_name Xs_Pending = rstr ''PENDING''"
| "status_name Xs_InProgress = rstr ''IN_PROGRESS''"
| "status_name Xs_Completed = rstr ''COMPLETED''"
| "status_name Xs_Failed = rstr ''FAILED''"
| "status_name Xs_Cancelled = rstr ''CANCELLED''"
| "status_name Xs_Interrupted = rstr ''INTERRUPTED''"

fun direction_name :: "xfer_direction \<Rightarrow> rstring" where
  "direction_name Xd_Send = rstr ''SEND''"
| "direction_name Xd_Receive = rstr ''RECEIVE''"
| "direction_name Xd_Message = rstr ''MESSAGE''"

record list_query =
  lq_limit :: "usize option"
  lq_status :: "rstring option"
  lq_direction :: "rstring option"

definition recent_transfers :: "'j client_serde \<Rightarrow> 'j engine \<Rightarrow> (api_error, transfer_history list) result" where
  "recent_transfers ds e = store_answer (js_list_recent (ds_history ds) C_TRANSFERS 10000 (en_store e))"

definition list_transfers :: "'j client_serde \<Rightarrow> list_query \<Rightarrow> 'j engine \<Rightarrow> (api_error, transfer_history list) result" where
  "list_transfers ds q e =
     and_then (recent_transfers ds e) (\<lambda>hs.
     Inr (take (unwrap_or 100 (lq_limit q))
       (filter (\<lambda>h. case lq_direction q of None \<Rightarrow> True
          | Some d \<Rightarrow> map_option direction_name (th_direction h) = Some (to_ascii_uppercase d))
       (filter (\<lambda>h. case lq_status q of None \<Rightarrow> True | Some s \<Rightarrow> status_name (th_status h) = to_ascii_uppercase s) hs))))"

definition transfer_not_found :: "rstring \<Rightarrow> api_error" where
  "transfer_not_found i = api_not_found (rstr ''transfer '' @ quoted i @ rstr '' not found'')"

definition get_transfer :: "'j client_serde \<Rightarrow> rstring \<Rightarrow> 'j engine \<Rightarrow> (api_error, transfer_history) result" where
  "get_transfer ds i e = and_then (engine_get ds i e) (ok_or (transfer_not_found i))"

definition by_correlation :: "'j client_serde \<Rightarrow> rstring \<Rightarrow> 'j engine \<Rightarrow> (api_error, transfer_history list) result" where
  "by_correlation ds cid e =
     and_then (recent_transfers ds e) (\<lambda>hs.
     let found = filter (\<lambda>h. th_correlation_id h = Some cid) hs
     in if found = [] then Inl (api_not_found (rstr ''no transfer with correlation id '' @ quoted cid)) else Inr found)"

definition is_resumable :: "transfer_history \<Rightarrow> bool" where
  "is_resumable h \<longleftrightarrow> th_last_sync_point h > 0 \<and> th_status h \<in> {Xs_Interrupted, Xs_Failed, Xs_Cancelled}"

definition resumable :: "'j client_serde \<Rightarrow> 'j engine \<Rightarrow> (api_error, transfer_history list) result" where
  "resumable ds e = and_then (recent_transfers ds e) (\<lambda>hs. Inr (filter is_resumable hs))"

definition api_cancel :: "'j client_serde \<Rightarrow> (xfer_status \<Rightarrow> rstring) \<Rightarrow> bool \<Rightarrow> rstring \<Rightarrow> 'j engine \<Rightarrow> ('j, unit) client_answer" where
  \<comment> \<open>\<open>debug\<close> gives the name of a status\<close>
  "api_cancel ds debug listening i e =
     (case get_transfer ds i e of
        Inl err \<Rightarrow> (Inl err, e)
      | Inr h \<Rightarrow>
         (case engine_cancel listening i e of
            (True, e) \<Rightarrow> (Inr (), e)
          | (False, e) \<Rightarrow>
             (Inl (api_conflict (rstr ''transfer '' @ quoted i @ rstr '' is not running (status '' @ debug (th_status h) @ rstr '')'')), e)))"

definition api_retry :: "'j client_serde \<Rightarrow> client_env \<Rightarrow> rstring \<Rightarrow> 'j engine \<Rightarrow> ('j, transfer_response \<times> client_job) client_answer" where
  "api_retry ds env i e = accepted env (engine_retry ds env i e)"

definition api_replay :: "'j client_serde \<Rightarrow> client_env \<Rightarrow> rstring \<Rightarrow> 'j engine \<Rightarrow> ('j, transfer_response \<times> client_job) client_answer" where
  "api_replay ds env i e =
     (case get_transfer ds i e of
        Inl err \<Rightarrow> (Inl err, e)
      | Inr prev \<Rightarrow>
         let q = unwrap_or transfer_request_default (th_request prev);
             q = q\<lparr>tq_server := or_else (th_server_id prev) (tq_server q), tq_filename := th_local_filename prev,
               tq_remote_filename := th_remote_filename prev, tq_partner_id := th_partner_id prev,
               tq_resume_from_transfer_id := None\<rparr>
         in accepted env (case th_direction prev of
              Some Xd_Receive \<Rightarrow> submit_receive ds env q e
            | _ \<Rightarrow> submit_send ds env q e))"

record transfer_totals =
  tt_total :: nat
  tt_completed :: nat
  tt_failed :: nat
  tt_in_progress :: nat
  tt_cancelled :: nat
  tt_interrupted :: nat
  tt_bytes_transferred :: u64

definition stats :: "'j client_serde \<Rightarrow> 'j engine \<Rightarrow> (api_error, transfer_totals) result" where
  \<comment> \<open>the sum wraps around\<close>
  "stats ds e =
     and_then (store_answer (js_list (ds_history ds) C_TRANSFERS (en_store e))) (\<lambda>hs.
     let count = (\<lambda>s. length (filter (\<lambda>h. th_status h = s) hs))
     in Inr \<lparr>tt_total = length hs, tt_completed = count Xs_Completed, tt_failed = count Xs_Failed,
          tt_in_progress = count Xs_InProgress + count Xs_Pending, tt_cancelled = count Xs_Cancelled,
          tt_interrupted = count Xs_Interrupted,
          tt_bytes_transferred = sum_list (map th_bytes_transferred (filter (\<lambda>h. th_status h = Xs_Completed) hs))\<rparr>)"

section \<open>The default server\<close>

definition servers :: "'j client_serde \<Rightarrow> 'j engine \<Rightarrow> rstring \<Rightarrow> pesit_server option" where
  "servers ds e = js_doc (ds_server ds) C_SERVERS (en_store e)"

text \<open>
  The table of servers is there and every server is stored under its identifier. The default servers are those with the flag.
\<close>

definition servers_inv :: "'j client_serde \<Rightarrow> 'j engine \<Rightarrow> bool" where
  "servers_inv ds e \<longleftrightarrow> js_has C_SERVERS (en_store e) \<and> (\<forall>k s. servers ds e k = Some s \<longrightarrow> sv_id s = k)"

definition defaults :: "'j client_serde \<Rightarrow> 'j engine \<Rightarrow> rstring set" where
  "defaults ds e = {k. \<exists>s. servers ds e k = Some s \<and> sv_default_server s}"

lemma list_servers_ran:
  "js_has C_SERVERS (en_store e) \<Longrightarrow> list_servers ds e = Inr ss \<Longrightarrow> set ss = ran (servers ds e)"
  unfolding servers_def by (rule js_list_docs) (auto simp: list_servers_def store_answer_def map_err_def split: sum.splits)

lemma put_server_stores:
  assumes "codec_ok (ds_server ds)" "js_has C_SERVERS (en_store e)"
  shows "fst (put_server ds s e) = Inr ()" "servers ds (snd (put_server ds s e)) = (servers ds e)(sv_id s \<mapsto> s)"
    "js_has C_SERVERS (en_store (snd (put_server ds s e)))"
  using assms js_hasD [OF assms(2)]
  by (auto simp: put_server_def js_put_result servers_def set_store_def js_doc_put js_has_kept)

definition add_server :: "pesit_server \<Rightarrow> (rstring \<Rightarrow> pesit_server option) \<Rightarrow> rstring \<Rightarrow> pesit_server option" where
  "add_server s m = m(sv_id s \<mapsto> s)"

lemma add_server_apply: "add_server s m k = (if k = sv_id s then Some s else m k)"
  by (simp add: add_server_def)

lemma put_servers_stores:
  assumes "codec_ok (ds_server ds)" "js_has C_SERVERS (en_store e)"
  shows "fst (put_servers ds ss e) = Inr () \<and> servers ds (snd (put_servers ds ss e)) = fold add_server ss (servers ds e) \<and>
    js_has C_SERVERS (en_store (snd (put_servers ds ss e)))"
  using assms(2)
proof (induction ss arbitrary: e)
  case (Cons s ss)
  from put_server_stores [OF assms(1) Cons.prems, of s] obtain e1 where
    "put_server ds s e = (Inr (), e1)" "servers ds e1 = (servers ds e)(sv_id s \<mapsto> s)" "js_has C_SERVERS (en_store e1)"
    by (cases "put_server ds s e") auto
  with Cons.IH [of e1] show ?case by (simp add: add_server_def [symmetric])
qed simp

text \<open>Changing the listed servers that need it changes every stored server.\<close>

lemma fold_put_filtered:
  assumes keyed: "\<And>k s. m k = Some s \<Longrightarrow> sv_id s = k" and "set ss \<subseteq> ran m" and f: "\<And>s. sv_id (f s) = sv_id s"
  shows "fold add_server (map f (filter P ss)) m =
    (\<lambda>k. if \<exists>s\<in>set ss. sv_id s = k \<and> P s then map_option f (m k) else m k)"
  using assms(2)
proof (induction ss rule: rev_induct)
  case (snoc s ss)
  then have s: "m (sv_id s) = Some s" using keyed by (auto simp: ran_def)
  from snoc have IH: "fold add_server (map f (filter P ss)) m =
    (\<lambda>k. if \<exists>s\<in>set ss. sv_id s = k \<and> P s then map_option f (m k) else m k)"
    by (intro snoc.IH) simp
  have "fold add_server (map f (filter P (ss @ [s]))) m =
      (if P s then add_server (f s) else id) (fold add_server (map f (filter P ss)) m)" by simp
  also have "\<dots> = (\<lambda>k. if \<exists>s\<in>set (ss @ [s]). sv_id s = k \<and> P s then map_option f (m k) else m k)"
    unfolding IH by (rule ext) (cases "P s"; auto simp: f s add_server_apply)
  finally show ?case .
qed simp

lemma put_changed:
  assumes ok: "codec_ok (ds_server ds)" and inv: "servers_inv ds e" and list: "list_servers ds e = Inr ss"
    and f: "\<And>s. sv_id (f s) = sv_id s" "\<And>s. \<not> P s \<Longrightarrow> f s = s"
  obtains e' where "put_servers ds (map f (filter P ss)) e = (Inr (), e')" "servers ds e' = map_option f \<circ> servers ds e"
    "js_has C_SERVERS (en_store e')"
proof -
  have has: "js_has C_SERVERS (en_store e)" and keyed: "\<And>k s. servers ds e k = Some s \<Longrightarrow> sv_id s = k" using inv by (auto simp: servers_inv_def)
  have ran: "set ss = ran (servers ds e)" using list_servers_ran [OF has list] .
  have "(\<lambda>k. if \<exists>s\<in>set ss. sv_id s = k \<and> P s then map_option f (servers ds e k) else servers ds e k) = map_option f \<circ> servers ds e"
  proof
    fix k
    show "(if \<exists>s\<in>set ss. sv_id s = k \<and> P s then map_option f (servers ds e k) else servers ds e k) = (map_option f \<circ> servers ds e) k"
    proof (cases "servers ds e k")
      case (Some s)
      then have "s \<in> set ss" "sv_id s = k" using ran keyed by (auto intro: ranI)
      then show ?thesis using Some f(2) [of s] by auto
    qed simp
  qed
  with put_servers_stores [OF ok has, of "map f (filter P ss)"] fold_put_filtered [of "servers ds e" ss f P] keyed ran f(1)
  show ?thesis by (cases "put_servers ds (map f (filter P ss)) e") (auto intro: that)
qed

lemma refresh_tls_flags_simps [simp]: "sv_id (refresh_tls_flags s) = sv_id s" "sv_default_server (refresh_tls_flags s) = sv_default_server s"
  by (simp_all add: refresh_tls_flags_def)

lemma servers_cong: "js_tables (en_store e') C_SERVERS = js_tables (en_store e) C_SERVERS \<Longrightarrow> servers ds e' = servers ds e"
  unfolding servers_def by (rule js_doc_cong)

lemma servers_inv_cong: "js_tables (en_store e') C_SERVERS = js_tables (en_store e) C_SERVERS \<Longrightarrow> servers_inv ds e' = servers_inv ds e"
  using servers_cong [of e' e ds] js_has_cong [of "en_store e'" C_SERVERS "en_store e"] by (simp only: servers_inv_def)

lemma api_audit_servers:
  "js_tables (en_store (api_audit ds env action target e)) C_SERVERS = js_tables (en_store e) C_SERVERS"
  by (simp add: api_audit_def audit_success_def audit_record_other C_SERVERS_def AUDIT_TABLE_def rstr_def)

lemma api_audit_defaults [simp]: "defaults ds (api_audit ds' env action target e) = defaults ds e"
  unfolding defaults_def servers_cong [OF api_audit_servers] ..

lemma api_audit_servers_inv [simp]: "servers_inv ds (api_audit ds' env action target e) = servers_inv ds e"
  by (rule servers_inv_cong [OF api_audit_servers])

lemma store_server_outcome:
  assumes "codec_ok (ds_server ds)" "servers_inv ds e"
  obtains e' where "store_server ds s a e = (Inr a, e')" "servers ds e' = (servers ds e)(sv_id s \<mapsto> s)" "servers_inv ds e'"
proof -
  have has: "js_has C_SERVERS (en_store e)" using assms(2) by (simp add: servers_inv_def)
  obtain e' where e': "put_server ds s e = (Inr (), e')" "servers ds e' = (servers ds e)(sv_id s \<mapsto> s)" "js_has C_SERVERS (en_store e')"
    using put_server_stores [OF assms(1) has, of s] by (cases "put_server ds s e") auto
  have "servers_inv ds e'" using assms(2) e'(2,3) by (auto simp: servers_inv_def split: if_splits)
  with e' show ?thesis by (intro that) (simp_all add: store_server_def)
qed

lemma defaults_upd:
  "servers ds e' = (servers ds e)(sv_id s \<mapsto> s) \<Longrightarrow>
    defaults ds e' = (if sv_default_server s then insert (sv_id s) (defaults ds e) else defaults ds e - {sv_id s})"
  by (auto simp: defaults_def)

lemma find_server_stored:
  assumes "servers_inv ds e" "find_server ds i e = Inr s"
  shows "servers ds e (sv_id s) = Some s"
proof -
  have keyed: "\<And>k t. servers ds e k = Some t \<Longrightarrow> sv_id t = k" and has: "js_has C_SERVERS (en_store e)" using assms(1) by (auto simp: servers_inv_def)
  have "s \<in> ran (servers ds e)"
  proof (cases "servers ds e i")
    case (Some t)
    then have "s = t" using assms(2)
      by (auto simp: find_server_def servers_def js_doc_def store_answer_def map_err_def and_then_def split: sum.splits)
    then show ?thesis using Some by (auto intro: ranI)
  next
    case None
    then obtain ss where "list_servers ds e = Inr ss" "find (\<lambda>s. sv_name s = i) ss = Some s" using assms(2)
      by (auto simp: find_server_def servers_def js_doc_def store_answer_def map_err_def and_then_def ok_or_def split: sum.splits option.splits)
    then show ?thesis using list_servers_ran [OF has] by (auto dest: find_eq_SomeD)
  qed
  then show ?thesis using keyed by (auto simp: ran_def)
qed

text \<open>Creating a server: a refusal changes nothing; a new default server is the only one.\<close>

lemma create_server_outcome:
  assumes ok: "codec_ok (ds_server ds)" and inv: "servers_inv ds e"
  obtains (refused) err where "create_server ds env s e = (Inl err, e)"
  | (created) t e' where "create_server ds env s e = (Inr t, e')" "servers_inv ds e'"
    "defaults ds e' = (if sv_default_server s then {ne_uuid env} else defaults ds e - {ne_uuid env})"
proof (cases "and_then (validate_server s) (\<lambda>_. list_servers ds e)")
  case (Inr ss)
  then have list: "list_servers ds e = Inr ss" by (auto simp: and_then_def split: sum.splits)
  show ?thesis
  proof (cases "\<exists>x \<in> set ss. sv_name x = sv_name s")
    case False
    let ?s = "refresh_tls_flags (s\<lparr>sv_id := ne_uuid env, sv_created_at := Some (ne_now_iso env), sv_updated_at := Some (ne_now_iso env)\<rparr>)"
    let ?clear = "\<lambda>x :: pesit_server. x\<lparr>sv_default_server := False\<rparr>"
    let ?others = "if sv_default_server ?s then map ?clear (filter sv_default_server ss) else []"
    obtain e1 where e1: "put_servers ds ?others e = (Inr (), e1)" "servers_inv ds e1"
      "defaults ds e1 = (if sv_default_server s then {} else defaults ds e)"
    proof (cases "sv_default_server s")
      case True
      obtain e1 where e1: "put_servers ds (map ?clear (filter sv_default_server ss)) e = (Inr (), e1)"
        "servers ds e1 = map_option ?clear \<circ> servers ds e" "js_has C_SERVERS (en_store e1)"
        using put_changed [OF ok inv list, of ?clear sv_default_server] by auto
      moreover have "servers_inv ds e1" using inv e1 by (auto simp: servers_inv_def)
      moreover have "defaults ds e1 = {}" by (auto simp: defaults_def e1(2))
      ultimately show ?thesis using True that by simp
    qed (use inv that in simp)
    obtain e2 where e2: "store_server ds ?s ?s e1 = (Inr ?s, e2)" "servers ds e2 = (servers ds e1)(sv_id ?s \<mapsto> ?s)" "servers_inv ds e2"
      by (rule store_server_outcome [OF ok e1(2), of ?s ?s])
    let ?e' = "api_audit ds env (rstr ''create'') (rstr ''remote-server:'' @ sv_name ?s) e2"
    show ?thesis
    proof (rule created)
      show "create_server ds env s e = (Inr ?s, ?e')" using Inr False e1(1) e2(1) by (simp add: create_server_def Let_def)
      show "servers_inv ds ?e'" using e2(3) by simp
      show "defaults ds ?e' = (if sv_default_server s then {ne_uuid env} else defaults ds e - {ne_uuid env})"
        using defaults_upd [OF e2(2)] e1(3) by simp
    qed
  next
    case True
    show ?thesis by (rule refused) (use Inr True in \<open>simp add: create_server_def\<close>)
  qed
next
  case (Inl err)
  show ?thesis by (rule refused) (use Inl in \<open>simp add: create_server_def\<close>)
qed

lemma as_default_simps [simp]: "sv_id (as_default env i s) = sv_id s" "sv_default_server (as_default env i s) = (sv_id s = i)"
  "sv_enabled (as_default env i s) = sv_enabled s"
  by (auto simp: as_default_def)

lemma set_default_servers:
  assumes ok: "codec_ok (ds_server ds)" and inv: "servers_inv ds e" and set: "set_default ds env i e = (Inr s, e')"
  shows "servers ds e' = map_option (as_default env (sv_id s)) \<circ> servers ds e" "js_has C_SERVERS (en_store e')"
    "servers ds e' (sv_id s) = Some s" "\<exists>target. find_server ds i e = Inr target \<and> sv_id s = sv_id target"
proof -
  obtain target ss where t: "find_server ds i e = Inr target" "list_servers ds e = Inr ss"
    using set by (auto simp: set_default_def split: sum.splits)
  let ?f = "as_default env (sv_id target)"
  let ?answer = "fold (\<lambda>x r. if sv_id x = sv_id target then ?f x else r) ss target"
  obtain e1 where e1: "put_servers ds (map ?f (filter (\<lambda>x. sv_default_server x \<noteq> (sv_id x = sv_id target)) ss)) e = (Inr (), e1)"
      "servers ds e1 = map_option ?f \<circ> servers ds e" "js_has C_SERVERS (en_store e1)"
  proof (rule put_changed [OF ok inv t(2), of ?f "\<lambda>x. sv_default_server x \<noteq> (sv_id x = sv_id target)"])
    show "\<not> (sv_default_server x \<noteq> (sv_id x = sv_id target)) \<Longrightarrow> ?f x = x" for x by (simp add: as_default_def)
  qed simp_all
  have stored: "servers ds e (sv_id target) = Some target" by (rule find_server_stored [OF inv t(1)])
  have keyed: "\<And>k t. servers ds e k = Some t \<Longrightarrow> sv_id t = k" and has: "js_has C_SERVERS (en_store e)" using inv by (auto simp: servers_inv_def)
  have ran: "set ss = ran (servers ds e)" by (rule list_servers_ran [OF has t(2)])
  have only: "x \<in> set ss \<Longrightarrow> sv_id x = sv_id target \<Longrightarrow> x = target" for x using ran keyed [of _ x] stored by (fastforce simp: ran_def)
  have "set xs \<subseteq> set ss \<Longrightarrow> fold (\<lambda>x r. if sv_id x = sv_id target then ?f x else r) xs target =
      (if sv_id target \<in> sv_id ` set xs then ?f target else target)" for xs
  proof (induction xs rule: rev_induct)
    case (snoc x xs)
    then have "sv_id x = sv_id target \<Longrightarrow> x = target" by (intro only) simp_all
    moreover from snoc have "fold (\<lambda>x r. if sv_id x = sv_id target then ?f x else r) xs target =
      (if sv_id target \<in> sv_id ` set xs then ?f target else target)" by simp
    moreover have "sv_id x \<noteq> sv_id target \<Longrightarrow> sv_id target \<in> sv_id ` set (xs @ [x]) \<longleftrightarrow> sv_id target \<in> sv_id ` set xs" by auto
    ultimately show ?case by (cases "sv_id x = sv_id target") simp_all
  qed simp
  from this [OF order_refl] have "?answer = ?f target" using stored ran by (auto intro: ranI)
  then have se: "s = ?f target" "e' = e1" using set t e1(1) by (simp_all add: set_default_def Let_def)
  show "servers ds e' = map_option (as_default env (sv_id s)) \<circ> servers ds e" "js_has C_SERVERS (en_store e')"
    "servers ds e' (sv_id s) = Some s" "\<exists>target. find_server ds i e = Inr target \<and> sv_id s = sv_id target"
    using e1(2,3) stored t(1) by (simp_all add: se)
qed

lemma set_default_outcome:
  assumes ok: "codec_ok (ds_server ds)" and inv: "servers_inv ds e"
  obtains (refused) err where "set_default ds env i e = (Inl err, e)"
  | (done_so) s e' where "set_default ds env i e = (Inr s, e')" "servers_inv ds e'" "defaults ds e' = {sv_id s}" "servers ds e' (sv_id s) = Some s"
proof (cases "set_default ds env i e")
  case (Pair r e')
  show ?thesis
  proof (cases r)
    case (Inr s)
    note d = set_default_servers [OF ok inv, of env i s e']
    have set: "set_default ds env i e = (Inr s, e')" using Pair Inr by simp
    have keyed: "sv_id t = k" if "servers ds e k = Some t" for k t using inv that by (simp add: servers_inv_def)
    have "defaults ds e' = {sv_id s}"
    proof (intro equalityI subsetI)
      fix k assume "k \<in> defaults ds e'"
      then obtain t where "servers ds e k = Some t" "sv_id t = sv_id s" by (auto simp: defaults_def d(1) [OF set])
      then show "k \<in> {sv_id s}" using keyed by auto
    next
      fix k assume k: "k \<in> {sv_id s}"
      obtain z where z: "servers ds e (sv_id s) = Some z" "s = as_default env (sv_id s) z" using d(1,3) [OF set] by auto
      have "sv_default_server (as_default env (sv_id s) z)" using keyed [OF z(1)] by simp
      then show "k \<in> defaults ds e'" using k z(2) d(3) [OF set] by (simp add: defaults_def)
    qed
    moreover have "servers_inv ds e'" using d(1,2) [OF set] keyed by (auto simp: servers_inv_def)
    ultimately show ?thesis using done_so set d(3) [OF set] by blast
  next
    case (Inl err)
    have "e' = e"
    proof (cases "find_server ds i e")
      case (Inr target)
      show ?thesis
      proof (cases "list_servers ds e")
        case (Inr ss)
        have "fst (put_servers ds (map (as_default env (sv_id target))
            (filter (\<lambda>x. sv_default_server x \<noteq> (sv_id x = sv_id target)) ss)) e) = Inr ()"
          using put_servers_stores [OF ok] inv by (simp add: servers_inv_def)
        then show ?thesis using Pair Inl Inr \<open>find_server ds i e = Inr target\<close>
          by (auto simp: set_default_def Let_def split: prod.splits)
      qed (use Pair Inr in \<open>simp add: set_default_def\<close>)
    qed (use Pair in \<open>simp add: set_default_def\<close>)
    with Pair Inl refused show ?thesis by simp
  qed
qed

lemma update_server_outcome:
  assumes ok: "codec_ok (ds_server ds)" and inv: "servers_inv ds e"
  obtains (refused) err where "update_server ds env i s e = (Inl err, e)"
  | (updated) t e' where "update_server ds env i s e = (Inr t, e')" "servers_inv ds e'"
    "defaults ds e' = (if sv_default_server s then insert (sv_id t) (defaults ds e) else defaults ds e - {sv_id t})"
proof (cases "find_server ds i e")
  case (Inr existing)
  show ?thesis
  proof (cases "validate_server s")
    case Valid: (Inr u)
    have "\<exists>t. update_server ds env i s e = store_server ds t t e \<and> sv_default_server t = sv_default_server s"
      unfolding update_server_def Let_def Inr Valid sum.case by (intro exI conjI, rule refl) simp
    then obtain t where t: "update_server ds env i s e = store_server ds t t e" "sv_default_server t = sv_default_server s" by blast
    obtain e' where e': "store_server ds t t e = (Inr t, e')" "servers ds e' = (servers ds e)(sv_id t \<mapsto> t)" "servers_inv ds e'"
      by (rule store_server_outcome [OF ok inv, of t t])
    with t updated defaults_upd [OF e'(2)] show ?thesis by simp
  qed (use Inr refused in \<open>simp add: update_server_def\<close>)
qed (use refused in \<open>simp add: update_server_def\<close>)

lemma delete_server_outcome:
  assumes inv: "servers_inv ds e"
  obtains (refused) err where "delete_server ds env i e = (Inl err, e)"
  | (deleted) s e' where "find_server ds i e = Inr s" "delete_server ds env i e = (Inr (), e')" "servers_inv ds e'" "defaults ds e' = defaults ds e - {sv_id s}"
proof (cases "find_server ds i e")
  case (Inr s)
  let ?e1 = "set_store (snd (js_delete C_SERVERS (sv_id s) (en_store e))) e"
  let ?e' = "api_audit ds env (rstr ''delete'') (rstr ''remote-server:'' @ sv_name s) ?e1"
  have "\<exists>b. fst (js_delete C_SERVERS (sv_id s) (en_store e)) = Inr b" using inv
    by (auto simp: servers_inv_def js_has_def js_delete_def js_rows_def ok_or_def)
  then have del: "delete_server ds env i e = (Inr (), ?e')"
    using Inr by (cases "js_delete C_SERVERS (sv_id s) (en_store e)") (auto simp: delete_server_def)
  have map: "servers ds ?e1 = (servers ds e)(sv_id s := None)" by (simp add: servers_def set_store_def js_doc_delete)
  then have "servers_inv ds ?e1" using inv by (auto simp: servers_inv_def set_store_def js_has_kept)
  moreover have "defaults ds ?e1 = defaults ds e - {sv_id s}" by (auto simp: defaults_def map)
  ultimately show ?thesis
    using deleted [OF Inr del] by simp
qed (use refused in \<open>simp add: delete_server_def\<close>)

text \<open>The uploads change neither the identifier nor the flag of a server.\<close>

lemma store_same_defaults:
  assumes "codec_ok (ds_server ds)" "servers_inv ds e" "find_server ds i e = Inr s" "sv_id t = sv_id s"
    "sv_default_server t = sv_default_server s" "js_tables (en_store e1) C_SERVERS = js_tables (en_store e) C_SERVERS"
  shows "servers_inv ds (snd (store_server ds t a e1)) \<and> defaults ds (snd (store_server ds t a e1)) = defaults ds e"
proof -
  have e1: "servers_inv ds e1" "servers ds e1 = servers ds e" using servers_inv_cong [OF assms(6)] servers_cong [OF assms(6)] assms(2) by auto
  obtain e' where e': "store_server ds t a e1 = (Inr a, e')" "servers ds e' = (servers ds e1)(sv_id t \<mapsto> t)" "servers_inv ds e'"
    by (rule store_server_outcome [OF assms(1) e1(1), of t a])
  have "defaults ds e' = defaults ds e"
    using find_server_stored [OF assms(2,3)] assms(4,5) by (auto simp: defaults_def e'(2) e1(2))
  with e' show ?thesis by simp
qed

lemma uploads_same_defaults:
  assumes ok: "codec_ok (ds_server ds)" and inv: "servers_inv ds e"
  shows "servers_inv ds (snd (upload_truststore ds env fs dir i ps e)) \<and> defaults ds (snd (upload_truststore ds env fs dir i ps e)) = defaults ds e"
    "servers_inv ds (snd (upload_keystore ds env fs dir i ps e)) \<and> defaults ds (snd (upload_keystore ds env fs dir i ps e)) = defaults ds e"
    "servers_inv ds (snd (delete_truststore ds i e)) \<and> defaults ds (snd (delete_truststore ds i e)) = defaults ds e"
proof -
  show "servers_inv ds (snd (upload_truststore ds env fs dir i ps e)) \<and> defaults ds (snd (upload_truststore ds env fs dir i ps e)) = defaults ds e"
    unfolding upload_truststore_def using inv
    by (auto simp: Let_def and_then_def store_same_defaults [OF ok inv] split: sum.split)
  show "servers_inv ds (snd (upload_keystore ds env fs dir i ps e)) \<and> defaults ds (snd (upload_keystore ds env fs dir i ps e)) = defaults ds e"
    unfolding upload_keystore_def using inv
    by (auto simp: Let_def and_then_def store_same_defaults [OF ok inv] split: sum.split)
  show "servers_inv ds (snd (delete_truststore ds i e)) \<and> defaults ds (snd (delete_truststore ds i e)) = defaults ds e"
    unfolding delete_truststore_def using inv
    by (auto simp: Let_def store_same_defaults [OF ok inv] remove_file_def split: sum.split option.split)
qed

text \<open>The calls of the API that change servers.\<close>

datatype server_call =
    Sc_Create client_env pesit_server
  | Sc_Update client_env rstring pesit_server
  | Sc_Delete client_env rstring
  | Sc_Default client_env rstring
  | Sc_Upload_Truststore client_env tls_files rstring rstring "(rstring, upload_part) result list"
  | Sc_Delete_Truststore rstring
  | Sc_Upload_Keystore client_env tls_files rstring rstring "(rstring, upload_part) result list"

fun run_call :: "'j client_serde \<Rightarrow> server_call \<Rightarrow> 'j engine \<Rightarrow> 'j engine" where
  "run_call ds (Sc_Create env s) e = snd (create_server ds env s e)"
| "run_call ds (Sc_Update env i s) e = snd (update_server ds env i s e)"
| "run_call ds (Sc_Delete env i) e = snd (delete_server ds env i e)"
| "run_call ds (Sc_Default env i) e = snd (set_default ds env i e)"
| "run_call ds (Sc_Upload_Truststore env fs dir i ps) e = snd (upload_truststore ds env fs dir i ps e)"
| "run_call ds (Sc_Delete_Truststore i) e = snd (delete_truststore ds i e)"
| "run_call ds (Sc_Upload_Keystore env fs dir i ps) e = snd (upload_keystore ds env fs dir i ps e)"


text \<open>The default servers after a call, by its answer and the default servers before it.\<close>

fun defaults_after :: "'j client_serde \<Rightarrow> server_call \<Rightarrow> 'j engine \<Rightarrow> rstring set" where
  "defaults_after ds (Sc_Create env s) e =
     (case fst (create_server ds env s e) of
        Inl _ \<Rightarrow> defaults ds e
      | Inr t \<Rightarrow> if sv_default_server s then {ne_uuid env} else defaults ds e - {ne_uuid env})"
| "defaults_after ds (Sc_Update env i s) e =
     (case fst (update_server ds env i s e) of
        Inl _ \<Rightarrow> defaults ds e
      | Inr t \<Rightarrow> if sv_default_server s then insert (sv_id t) (defaults ds e) else defaults ds e - {sv_id t})"
| "defaults_after ds (Sc_Delete env i) e =
     (case (find_server ds i e, fst (delete_server ds env i e)) of
        (Inr s, Inr _) \<Rightarrow> defaults ds e - {sv_id s}
      | _ \<Rightarrow> defaults ds e)"
| "defaults_after ds (Sc_Default env i) e =
     (case fst (set_default ds env i e) of Inl _ \<Rightarrow> defaults ds e | Inr t \<Rightarrow> {sv_id t})"
| "defaults_after ds _ e = defaults ds e"

lemma server_call_defaults:
  assumes ok: "codec_ok (ds_server ds)" and inv: "servers_inv ds e"
  shows "servers_inv ds (run_call ds c e) \<and> defaults ds (run_call ds c e) = defaults_after ds c e"
proof (cases c)
  case (Sc_Create env s)
  show ?thesis by (rule create_server_outcome [OF ok inv, of env s]) (simp_all add: Sc_Create inv)
next
  case (Sc_Update env i s)
  show ?thesis by (rule update_server_outcome [OF ok inv, of env i s]) (simp_all add: Sc_Update inv)
next
  case (Sc_Delete env i)
  show ?thesis by (rule delete_server_outcome [OF inv, of env i]) (simp_all add: Sc_Delete inv split: sum.split)
next
  case (Sc_Default env i)
  show ?thesis by (rule set_default_outcome [OF ok inv, of env i]) (simp_all add: Sc_Default inv)
qed (simp_all add: uploads_same_defaults [OF ok inv])










text \<open>An update that carries the flag is stored as it is, so that two servers can be the default.\<close>

lemma update_second_default:
  assumes ok: "codec_ok (ds_server ds)" and inv: "servers_inv ds e" and old: "j \<in> defaults ds e"
    and set: "update_server ds env i s e = (Inr t, e')" "sv_default_server s" "sv_id t \<noteq> j"
  shows "{j, sv_id t} \<subseteq> defaults ds e'"
  using server_call_defaults [OF ok inv, of "Sc_Update env i s"] set old by simp

end
