(* ===== verification/Cluster.thy ===== *)
theory Cluster
  imports Node_Handler "HOL-Library.List_Lexorder"
begin

text \<open>
  The cluster of nodes (\<^verbatim>\<open>pesit-cluster/src/lib.rs\<close>, \<^verbatim>\<open>pesit-node/src/cluster.rs\<close> and the tables of \<^verbatim>\<open>backup.rs\<close>): configuration
  changes are published and applied, a joining node restores the snapshot of a peer, one node holds the
  lease of the leader. The key-value buckets and subjects of NATS are parameters.
\<close>

section \<open>Configuration changes\<close>

record 'j config_change =
  ch_origin :: rstring
  ch_op :: rstring
  ch_table :: rstring
  ch_key :: rstring
  ch_doc :: "'j option"

definition CONFIG_TABLES :: "rstring list" where
  "CONFIG_TABLES = map rstr [''partners'', ''virtual_files'', ''remote_partners'', ''servers'', ''remote_servers'',
     ''client_partners'', ''connectors'', ''schedules'', ''pki'']"

definition CLUSTER_TABLES :: "rstring list" where
  "CLUSTER_TABLES = map rstr [''partners'', ''virtual_files'', ''remote_partners'', ''schedules'']"

definition raw_codec :: "('j, 'j) codec" where
  \<comment> \<open>documents as JSON values\<close>
  "raw_codec = \<lparr>cd_to = (\<lambda>j. j), cd_from = Some\<rparr>"

definition publish_config :: "rstring \<Rightarrow> rstring \<Rightarrow> rstring \<Rightarrow> rstring \<Rightarrow> 'j option \<Rightarrow> 'j config_change" where
  "publish_config node_id op' table key doc =
     \<lparr>ch_origin = node_id, ch_op = op', ch_table = table, ch_key = key, ch_doc = doc\<rparr>"

definition cluster_publish :: "rstring option \<Rightarrow> rstring \<Rightarrow> rstring \<Rightarrow> rstring \<Rightarrow> 'j option \<Rightarrow> 'j config_change list" where
  \<comment> \<open>the change that is published, if the node is in a cluster\<close>
  "cluster_publish node op' table key doc =
     (if table \<notin> set CLUSTER_TABLES then []
      else case node of None \<Rightarrow> [] | Some node_id \<Rightarrow> [publish_config node_id op' table key doc])"

definition nc_apply :: "'j config_change \<Rightarrow> 'j json_store \<Rightarrow> 'j json_store" where
  \<comment> \<open>a failure is only logged\<close>
  "nc_apply c s =
     (if ch_table c \<notin> set CLUSTER_TABLES then s
      else
        let s = snd (js_ensure_table (ch_table c) s)
        in if ch_op c = rstr ''delete'' then snd (js_delete (ch_table c) (ch_key c) s)
           else case ch_doc c of
             Some doc \<Rightarrow> snd (js_put raw_codec (ch_table c) (ch_key c) doc s)
           | None \<Rightarrow> s)"

definition on_config_message :: "rstring \<Rightarrow> 'j config_change \<Rightarrow> 'j json_store \<Rightarrow> 'j json_store" where
  \<comment> \<open>the loop of \<^verbatim>\<open>spawn_config_subscriber\<close>: a node skips its own changes\<close>
  "on_config_message node_id c s = (if ch_origin c = node_id then s else nc_apply c s)"

section \<open>Snapshots\<close>

definition dump_step :: "rstring \<Rightarrow> (rstring \<times> 'j list) list \<times> 'j json_store \<Rightarrow> (store_error, (rstring \<times> 'j list) list \<times> 'j json_store) result" where
  "dump_step table acc =
     (let s = snd (js_ensure_table table (snd acc))
      in and_then (js_list raw_codec table s) (\<lambda>rows. Inr (fst acc @ [(table, rows)], s)))"

fun dump_loop :: "rstring list \<Rightarrow> (rstring \<times> 'j list) list \<times> 'j json_store \<Rightarrow> (store_error, (rstring \<times> 'j list) list \<times> 'j json_store) result" where
  "dump_loop [] acc = Inr acc"
| "dump_loop (t # ts) acc = and_then (dump_step t acc) (dump_loop ts)"

definition dump_only :: "rstring list \<Rightarrow> 'j json_store \<Rightarrow> (api_error, (rstring \<times> 'j list) list \<times> 'j json_store) result" where
  "dump_only which s = map_err api_of_store (dump_loop which ([], s))"

definition dump :: "'j json_store \<Rightarrow> (api_error, (rstring \<times> 'j list) list \<times> 'j json_store) result" where
  "dump = dump_only CONFIG_TABLES"

text \<open>\<open>field\<close> reads a string field of a JSON object.\<close>

definition backup_key :: "(rstring \<Rightarrow> 'j \<Rightarrow> rstring option) \<Rightarrow> rstring \<Rightarrow> 'j \<Rightarrow> rstring option" where
  "backup_key field table item =
     (if table = rstr ''servers'' then field (rstr ''serverId'') item
      else if table = rstr ''pki'' then Some (rstr ''vault'')
      else field (rstr ''id'') item)"

fun apply_rows :: "(rstring \<Rightarrow> 'j \<Rightarrow> rstring option) \<Rightarrow> rstring \<Rightarrow> 'j list \<Rightarrow> nat \<Rightarrow> 'j json_store \<Rightarrow> (store_error, nat) result \<times> 'j json_store" where
  "apply_rows field table [] n s = (Inr n, s)"
| "apply_rows field table (item # items) n s =
     (case backup_key field table item of
        None \<Rightarrow> apply_rows field table items n s
      | Some key \<Rightarrow>
         (case js_put raw_codec table key item s of
            (Inl e, s) \<Rightarrow> (Inl e, s)
          | (Inr _, s) \<Rightarrow> apply_rows field table items (n + 1) s))"

text \<open>A value that is not an array of rows is \<open>None\<close>.\<close>

fun apply_loop :: "(rstring \<Rightarrow> 'j \<Rightarrow> rstring option) \<Rightarrow> (rstring \<times> 'j list option) list \<Rightarrow> nat \<Rightarrow> 'j json_store \<Rightarrow> (store_error, nat) result \<times> 'j json_store" where
  "apply_loop field [] n s = (Inr n, s)"
| "apply_loop field ((table, rows) # tables) n s =
     (if table \<notin> set CONFIG_TABLES then apply_loop field tables n s
      else
        let s = snd (js_ensure_table table s)
        in case rows of
             None \<Rightarrow> apply_loop field tables n s
           | Some items \<Rightarrow>
              (case apply_rows field table items n s of
                 (Inl e, s) \<Rightarrow> (Inl e, s)
               | (Inr n, s) \<Rightarrow> apply_loop field tables n s))"

definition apply_tables :: "(rstring \<Rightarrow> 'j \<Rightarrow> rstring option) \<Rightarrow> (rstring \<times> 'j list option) list \<Rightarrow> 'j json_store \<Rightarrow>
    (api_error, nat) result \<times> 'j json_store" where
  "apply_tables field tables s = apfst (map_err api_of_store) (apply_loop field tables 0 s)"

definition nc_snapshot :: "'j json_store \<Rightarrow> (rstring \<times> 'j list) list option" where
  \<comment> \<open>\<open>None\<close> for the null value of a failed dump\<close>
  "nc_snapshot s = (case dump_only CLUSTER_TABLES s of Inl _ \<Rightarrow> None | Inr (tables, _) \<Rightarrow> Some tables)"

definition nc_restore :: "(rstring \<Rightarrow> 'j \<Rightarrow> rstring option) \<Rightarrow> (rstring \<times> 'j list) list option \<Rightarrow> 'j json_store \<Rightarrow> 'j json_store" where
  "nc_restore field snapshot s =
     (case snapshot of
        None \<Rightarrow> s
      | Some tables \<Rightarrow> snd (apply_tables field (map (apsnd Some) tables) s))"

section \<open>Members and the leader\<close>

record member_info =
  mi_node_id :: rstring
  mi_addr :: rstring
  mi_version :: rstring
  mi_last_seen :: rstring

definition cluster_members :: "member_info list \<Rightarrow> member_info list" where
  \<comment> \<open>of the members found in the bucket\<close>
  "cluster_members found = sort_key mi_node_id found"

text \<open>The operations of the bucket of the lease: reading, writing and creating the entry of the leader, the
  latter two with whether they report success. Reading may fail as well: \<open>Inl\<close>.\<close>

record 's lease_ops =
  lo_entry :: "'s \<Rightarrow> bytes option"
  lo_put :: "bytes \<Rightarrow> 's \<Rightarrow> bool \<times> 's"
  lo_create :: "bytes \<Rightarrow> 's \<Rightarrow> bool \<times> 's"

text \<open>One turn of \<^verbatim>\<open>spawn_leader\<close> is a read of the entry and, later, an act on what was read; other nodes take
  steps in between.\<close>

definition leader_held :: "unit + bytes option \<Rightarrow> rstring option" where
  "leader_held entry = (case entry of Inr (Some v) \<Rightarrow> Some (from_utf8_lossy v) | _ \<Rightarrow> None)"

definition leader_act :: "'s lease_ops \<Rightarrow> rstring \<Rightarrow> rstring option \<Rightarrow> 's \<Rightarrow> bool \<times> 's" where
  \<comment> \<open>the new value of \<^verbatim>\<open>is_leader\<close>, the bucket; a failure to renew is ignored\<close>
  "leader_act lo node_id held s =
     (case held of
        Some holder \<Rightarrow>
          if holder = node_id then (True, snd (lo_put lo (str_bytes node_id) s)) else (False, s)
      | None \<Rightarrow> lo_create lo (str_bytes node_id) s)"

definition cluster_leader :: "'s lease_ops \<Rightarrow> 's \<Rightarrow> rstring option" where
  "cluster_leader lo s = map_option from_utf8_lossy (lo_entry lo s)"

section \<open>Replication\<close>

lemma raw_codec_ok [simp]: "codec_ok raw_codec"
  by (simp add: codec_ok_def raw_codec_def)

abbreviation docs :: "rstring \<Rightarrow> 'j json_store \<Rightarrow> rstring \<Rightarrow> 'j option" where
  "docs table s \<equiv> js_doc raw_codec table s"

lemma ensure_table_simps [simp]:
  "fst (js_ensure_table table s) = Inr ()" "js_tables (snd (js_ensure_table table s)) table \<noteq> None"
  "table' \<noteq> table \<Longrightarrow> js_tables (snd (js_ensure_table table s)) table' = js_tables s table'"
  "docs table' (snd (js_ensure_table table s)) = docs table' s"
  by (auto simp: js_ensure_table_def js_set_def js_doc_alt fun_eq_iff tb_find_def split: option.split)

lemma docs_put: "js_tables s table \<noteq> None \<Longrightarrow> docs table (snd (js_put raw_codec table key x s)) = (docs table s)(key \<mapsto> x)"
  by (rule js_doc_put) simp_all

lemma docs_other: "table' \<noteq> table \<Longrightarrow> docs table' (snd (js_put raw_codec table key x s)) = docs table' s"
  by (rule js_doc_cong) (simp add: js_put_other)

lemma docs_delete: "docs table (snd (js_delete table key s)) = (docs table s)(key := None)"
  by (cases "js_tables s table")
    (auto simp: js_delete_def js_rows_def ok_or_def js_doc_alt js_set_def tb_find_delete fun_eq_iff)

lemma docs_delete_other: "table' \<noteq> table \<Longrightarrow> docs table' (snd (js_delete table key s)) = docs table' s"
  by (rule js_doc_cong) (auto simp: js_delete_def js_rows_def ok_or_def js_set_def split: option.split)

lemma nc_apply_docs:
  assumes "ch_table c \<in> set CLUSTER_TABLES"
  shows "docs table (nc_apply c s) =
    (if table \<noteq> ch_table c then docs table s
     else if ch_op c = rstr ''delete'' then (docs table s)(ch_key c := None)
     else case ch_doc c of Some d \<Rightarrow> (docs table s)(ch_key c \<mapsto> d) | None \<Rightarrow> docs table s)"
  using assms by (auto simp: nc_apply_def Let_def docs_delete docs_delete_other docs_put docs_other split: option.split)

text \<open>A node changes its own store and publishes the change.\<close>

datatype 'j config_op = Cf_Put rstring rstring 'j | Cf_Delete rstring rstring

fun local_change :: "'j config_op \<Rightarrow> 'j json_store \<Rightarrow> 'j json_store" where
  "local_change (Cf_Put table key doc) s = snd (js_put raw_codec table key doc s)"
| "local_change (Cf_Delete table key) s = snd (js_delete table key s)"

fun published :: "rstring \<Rightarrow> 'j config_op \<Rightarrow> 'j config_change list" where
  "published node_id (Cf_Put table key doc) = cluster_publish (Some node_id) (rstr ''put'') table key (Some doc)"
| "published node_id (Cf_Delete table key) = cluster_publish (Some node_id) (rstr ''delete'') table key None"

definition replicas :: "'j json_store \<Rightarrow> 'j json_store \<Rightarrow> bool" where
  "replicas s t \<longleftrightarrow> (\<forall>table\<in>set CLUSTER_TABLES. js_tables s table \<noteq> None \<and> docs table s = docs table t)"

lemma delete_not_put: "rstr ''put'' \<noteq> rstr ''delete''"
  by (simp add: rstr_def)

lemma local_change_tables: "js_tables s table \<noteq> None \<Longrightarrow> js_tables (local_change c s) table \<noteq> None"
  by (cases c) (auto simp: js_put_tables js_delete_def js_rows_def ok_or_def js_set_def split: option.splits)

lemma replicas_step:
  assumes "replicas s t" and "origin \<noteq> node_id"
  shows "replicas (local_change c s) (fold (on_config_message node_id) (published origin c) t)"
proof -
  have tables: "js_tables (local_change c s) table \<noteq> None" if "table \<in> set CLUSTER_TABLES" for table
    using assms(1) that by (intro local_change_tables) (simp add: replicas_def)
  have "docs table (local_change c s) = docs table (fold (on_config_message node_id) (published origin c) t)"
    if table: "table \<in> set CLUSTER_TABLES" for table
  proof (cases c)
    case (Cf_Put table' key doc)
    from assms(1) table have same: "docs table s = docs table t" and ex: "js_tables s table \<noteq> None" by (simp_all add: replicas_def)
    show ?thesis
      using same ex table assms(2) unfolding Cf_Put
      by (cases "table' = table"; cases "table' \<in> set CLUSTER_TABLES")
        (simp_all add: cluster_publish_def publish_config_def on_config_message_def nc_apply_docs docs_put docs_other delete_not_put)
  next
    case (Cf_Delete table' key)
    from assms(1) table have same: "docs table s = docs table t" by (simp add: replicas_def)
    then show ?thesis
      using table assms(2) unfolding Cf_Delete
      by (cases "table' = table"; cases "table' \<in> set CLUSTER_TABLES")
        (simp_all add: cluster_publish_def publish_config_def on_config_message_def nc_apply_docs docs_delete docs_delete_other)
  qed
  with tables show ?thesis by (simp add: replicas_def)
qed

text \<open>Rows are stored under the key that a restore computes from the document.\<close>

definition keyed :: "(rstring \<Rightarrow> 'j \<Rightarrow> rstring option) \<Rightarrow> 'j json_store \<Rightarrow> bool" where
  "keyed field s \<longleftrightarrow> (\<forall>table\<in>set CLUSTER_TABLES. \<forall>rows. js_tables s table = Some rows \<longrightarrow>
     tb_wf rows \<and> (\<forall>r\<in>set rows. backup_key field table (rw_doc r) = Some (rw_key r)))"

lemma list_raw: "js_tables s table = Some rows \<Longrightarrow> js_list raw_codec table s = Inr (map rw_doc (tb_by_seq rows))"
proof -
  have "collect_results (map (\<lambda>r. js_decode raw_codec (rw_doc r)) rs) = Inr (map rw_doc rs)" for rs :: "'a row list"
    by (induction rs) (simp_all add: js_decode_def raw_codec_def ok_or_def)
  then show "js_tables s table = Some rows \<Longrightarrow> js_list raw_codec table s = Inr (map rw_doc (tb_by_seq rows))"
    by (simp add: js_list_def js_rows_def ok_or_def)
qed

definition table_rows :: "'j json_store \<Rightarrow> rstring \<Rightarrow> 'j row list" where
  "table_rows s table = (case js_tables s table of None \<Rightarrow> [] | Some rows \<Rightarrow> tb_by_seq rows)"

lemma dump_loop_rows:
  assumes "distinct ts"
  shows "\<exists>s'. dump_loop ts (acc, s) = Inr (acc @ map (\<lambda>t. (t, map rw_doc (table_rows s t))) ts, s')"
  using assms
proof (induction ts arbitrary: acc s)
  case (Cons t ts)
  let ?s = "snd (js_ensure_table t s)"
  obtain rows where rows: "js_tables ?s t = Some rows" by (cases "js_tables ?s t") (auto simp: js_ensure_table_def js_set_def split: option.splits)
  have same: "table_rows ?s t' = table_rows s t'" for t'
    by (auto simp: table_rows_def js_ensure_table_def js_set_def tb_by_seq_def split: option.split)
  then have "map rw_doc (tb_by_seq rows) = map rw_doc (table_rows s t)" using rows by (metis table_rows_def option.simps(5))
  with Cons.IH [of "acc @ [(t, map rw_doc (table_rows s t))]" ?s] Cons.prems show ?case
    by (auto simp: dump_step_def Let_def list_raw [OF rows] same)
qed simp

lemma CLUSTER_TABLES_distinct: "distinct CLUSTER_TABLES" "set CLUSTER_TABLES \<subseteq> set CONFIG_TABLES"
  by (simp_all add: CLUSTER_TABLES_def CONFIG_TABLES_def rstr_def)

lemma nc_snapshot_rows: "nc_snapshot s = Some (map (\<lambda>t. (t, map rw_doc (table_rows s t))) CLUSTER_TABLES)"
  using dump_loop_rows [OF CLUSTER_TABLES_distinct(1), of "[]" s]
  by (auto simp: nc_snapshot_def dump_only_def map_err_def)

lemma apply_rows_docs:
  assumes "js_tables s table \<noteq> None"
  shows "\<exists>n' s'. apply_rows field table items n s = (Inr n', s') \<and>
    docs table s' = fold (\<lambda>item m. case backup_key field table item of None \<Rightarrow> m | Some k \<Rightarrow> m(k \<mapsto> item)) items (docs table s) \<and>
    (\<forall>t. t \<noteq> table \<longrightarrow> js_tables s' t = js_tables s t)"
  using assms
proof (induction items arbitrary: n s)
  case (Cons item items)
  show ?case
  proof (cases "backup_key field table item")
    case (Some k)
    from Cons.prems obtain s1 where put: "js_put raw_codec table k item s = (Inr (), s1)"
      using js_put_result [of raw_codec table k item s] by (cases "js_put raw_codec table k item s") auto
    then have s1: "js_tables s1 table \<noteq> None" "docs table s1 = (docs table s)(k \<mapsto> item)" "t \<noteq> table \<Longrightarrow> js_tables s1 t = js_tables s t" for t
      using Cons.prems js_tables_kept(1) [of raw_codec table k item s table] docs_put [OF Cons.prems, of k item] js_put_other [of t table raw_codec k item s]
      by simp_all
    from Cons.IH [OF s1(1), of "n + 1"] show ?thesis by (simp add: Some put s1(2,3) fun_upd_def)
  qed (use Cons in simp)
qed simp

lemma fold_keyed_docs:
  assumes "distinct (map rw_key rs)" "\<forall>r\<in>set rs. key (rw_doc r) = Some (rw_key r)"
  shows "fold (\<lambda>item m. case key item of None \<Rightarrow> m | Some k \<Rightarrow> m(k \<mapsto> item)) (map rw_doc rs) m =
    m ++ map_of (map (\<lambda>r. (rw_key r, rw_doc r)) rs)"
  using assms
proof (induction rs arbitrary: m)
  case (Cons r rs)
  from Cons.prems(1) have "rw_key r \<notin> dom (map_of (map (\<lambda>r. (rw_key r, rw_doc r)) rs))"
    by (auto simp: dom_map_of_conv_image_fst)
  with Cons show ?case by (auto simp: fun_eq_iff map_add_def split: option.split)
qed simp

lemma docs_rows:
  assumes "\<And>rows. js_tables s table = Some rows \<Longrightarrow> tb_wf rows"
  shows "docs table s = map_of (map (\<lambda>r. (rw_key r, rw_doc r)) (table_rows s table))"
proof (cases "js_tables s table")
  case (Some rows)
  have "docs table s k = map_of (tb_entries rows) k" for k
    using tb_find_entries [OF assms [OF Some], of k] by (simp add: js_doc_alt Some raw_codec_def)
  then show ?thesis by (auto simp: table_rows_def Some tb_entries_def tb_entry_def [abs_def])
qed (simp add: js_doc_alt table_rows_def fun_eq_iff)

lemma restore_loop_docs:
  assumes "distinct ts" "set ts \<subseteq> set CLUSTER_TABLES" "keyed field s"
  shows "\<exists>n' t'. apply_loop field (map (\<lambda>table. (table, Some (map rw_doc (table_rows s table)))) ts) n t = (Inr n', t') \<and>
    (\<forall>table. docs table t' = (if table \<in> set ts then docs table t ++ docs table s else docs table t))"
  using assms(1,2)
proof (induction ts arbitrary: n t)
  case (Cons table ts)
  let ?t = "snd (js_ensure_table table t)" and ?items = "map rw_doc (table_rows s table)"
  have table: "table \<in> set CLUSTER_TABLES" "table \<in> set CONFIG_TABLES" using Cons.prems(2) CLUSTER_TABLES_distinct(2) by auto
  obtain n1 t1 where t1: "apply_rows field table ?items n ?t = (Inr n1, t1)"
    "docs table t1 = fold (\<lambda>item m. case backup_key field table item of None \<Rightarrow> m | Some k \<Rightarrow> m(k \<mapsto> item)) ?items (docs table ?t)"
    "\<And>t'. t' \<noteq> table \<Longrightarrow> js_tables t1 t' = js_tables ?t t'"
    using apply_rows_docs [of ?t table field ?items n] by auto
  have wf: "tb_wf rows" if "js_tables s table = Some rows" for rows
    using assms(3) table(1) that by (simp add: keyed_def)
  have "distinct (map rw_key (table_rows s table))" "\<forall>r\<in>set (table_rows s table). backup_key field table (rw_doc r) = Some (rw_key r)"
    using assms(3) table(1) by (cases "js_tables s table"; auto simp: keyed_def table_rows_def tb_wf_def)+
  from fold_keyed_docs [OF this] t1(2) have d1: "docs table t1 = docs table t ++ docs table s"
    by (simp add: docs_rows [OF wf])
  have other: "docs t' t1 = docs t' t" if "t' \<noteq> table" for t'
    using t1(3) [OF that] js_doc_cong [of t1 t' ?t raw_codec] by simp
  from Cons.IH [of n1 t1] Cons.prems obtain n' t' where
    "apply_loop field (map (\<lambda>table. (table, Some (map rw_doc (table_rows s table)))) ts) n1 t1 = (Inr n', t')"
    "\<forall>table. docs table t' = (if table \<in> set ts then docs table t1 ++ docs table s else docs table t1)" by auto
  moreover have "docs tb t1 = docs tb t" if "tb \<in> set ts" for tb using other [of tb] that Cons.prems(1) by auto
  ultimately show ?case using table(2) t1(1) d1 other Cons.prems(1) by (auto simp: Let_def)
qed simp

lemma restore_docs:
  assumes "keyed field s"
  shows "docs table (nc_restore field (nc_snapshot s) t) = (if table \<in> set CLUSTER_TABLES then docs table t ++ docs table s else docs table t)"
  using restore_loop_docs [OF CLUSTER_TABLES_distinct(1) subset_refl assms, of 0 t]
  by (auto simp: nc_restore_def nc_snapshot_rows apply_tables_def comp_def)

text \<open>What a sequence of changes leaves of the document of one key: the last change of the key decides.\<close>

fun config_target :: "'j config_op \<Rightarrow> rstring \<times> rstring" where
  "config_target (Cf_Put table key doc) = (table, key)"
| "config_target (Cf_Delete table key) = (table, key)"

fun config_value :: "'j config_op \<Rightarrow> 'j option" where
  "config_value (Cf_Put table key doc) = Some doc"
| "config_value (Cf_Delete table key) = None"

definition last_value :: "rstring \<times> rstring \<Rightarrow> 'j config_op list \<Rightarrow> 'j option \<Rightarrow> 'j option" where
  "last_value target ops v = fold (\<lambda>c v. if config_target c = target then config_value c else v) ops v"

definition changed_keys :: "'j config_op list \<Rightarrow> (rstring \<times> rstring) set" where
  "changed_keys ops = config_target ` set ops"

lemma last_value_snoc [simp]:
  "last_value target (ops @ [c]) v = (if config_target c = target then config_value c else last_value target ops v)"
  by (simp add: last_value_def)

lemma last_value_append: "last_value target (ops @ ops') v = last_value target ops' (last_value target ops v)"
  by (simp add: last_value_def)

lemma changed_keys_snoc [simp]: "changed_keys (ops @ [c]) = insert (config_target c) (changed_keys ops)"
  by (simp add: changed_keys_def)

lemma last_value_unchanged: "target \<notin> changed_keys ops \<Longrightarrow> last_value target ops v = v"
  by (induction ops rule: rev_induct) (auto simp: last_value_def)

lemma last_value_changed: "target \<in> changed_keys ops \<Longrightarrow> last_value target ops v = last_value target ops w"
  by (induction ops rule: rev_induct) (auto simp: changed_keys_def last_value_def)

lemma local_change_docs:
  assumes "js_tables s table \<noteq> None"
  shows "docs table (local_change c s) key = (if config_target c = (table, key) then config_value c else docs table s key)"
proof (cases c)
  case (Cf_Put table' key' doc)
  then show ?thesis using assms by (cases "table' = table") (simp_all add: docs_put docs_other)
next
  case (Cf_Delete table' key')
  then show ?thesis by (cases "table' = table") (simp_all add: docs_delete docs_delete_other)
qed

lemma message_docs:
  assumes "table \<in> set CLUSTER_TABLES" "origin \<noteq> node_id"
  shows "docs table (fold (on_config_message node_id) (published origin c) t) key =
    (if config_target c = (table, key) then config_value c else docs table t key)"
proof (cases c)
  case (Cf_Put table' key' doc)
  then show ?thesis using assms
    by (cases "table' = table"; cases "table' \<in> set CLUSTER_TABLES")
      (simp_all add: cluster_publish_def publish_config_def on_config_message_def nc_apply_docs delete_not_put)
next
  case (Cf_Delete table' key')
  then show ?thesis using assms
    by (cases "table' = table"; cases "table' \<in> set CLUSTER_TABLES")
      (simp_all add: cluster_publish_def publish_config_def on_config_message_def nc_apply_docs)
qed

lemma local_changes_docs:
  assumes "js_tables s table \<noteq> None"
  shows "js_tables (fold local_change ops s) table \<noteq> None \<and>
    docs table (fold local_change ops s) key = last_value (table, key) ops (docs table s key)"
proof (induction ops rule: rev_induct)
  case (snoc c ops)
  then have "js_tables (fold local_change ops s) table \<noteq> None" by blast
  from local_change_docs [OF this] local_change_tables [OF this] snoc show ?case by simp
qed (simp add: assms last_value_def)

lemma messages_docs:
  assumes "table \<in> set CLUSTER_TABLES" "origin \<noteq> node_id"
  shows "docs table (fold (on_config_message node_id) (concat (map (published origin) ops)) t) key =
    last_value (table, key) ops (docs table t key)"
  by (induction ops rule: rev_induct) (simp_all add: message_docs [OF assms], simp add: last_value_def)

text \<open>C22: Configuration replication. A node with any configuration \<open>t\<close> restores the snapshot of a peer \<open>s\<close>; the peer
  goes on with any sequence of puts and deletions, of which the node misses the first ones (those before it
  subscribes) and receives the others in order. Then, in every replicated table, the node holds exactly the document of the
  peer (or none, as the peer) for each key that a change it received concerns, and for each other key the document
  of the snapshot, or else the document it had itself before it joined: rows deleted while it was away survive.
  So the node is a replica of the peer exactly when every key whose change it missed has changed again or was restored as it is
  now, and every row of its own that the snapshot lacks is one the peer has as well.\<close>

theorem joined_node_follows:
  fixes s t :: "'j json_store" and missed ops :: "'j config_op list" and origin node_id :: rstring and field :: "rstring \<Rightarrow> 'j \<Rightarrow> rstring option"
  assumes "keyed field s" and "\<forall>table\<in>set CLUSTER_TABLES. js_tables s table \<noteq> None" and "origin \<noteq> node_id"
  defines "peer \<equiv> fold local_change (missed @ ops) s"
    and "node \<equiv> fold (on_config_message node_id) (concat (map (published origin) ops)) (nc_restore field (nc_snapshot s) t)"
  shows "(\<forall>table\<in>set CLUSTER_TABLES. \<forall>key. docs table node key =
      (if (table, key) \<in> changed_keys ops then docs table peer key
       else if docs table s key \<noteq> None then docs table s key else docs table t key)) \<and>
    (missed = [] \<longrightarrow> (\<forall>table\<in>set CLUSTER_TABLES. \<forall>key. docs table s key \<noteq> None \<or> (table, key) \<in> changed_keys ops \<longrightarrow>
       docs table node key = docs table peer key)) \<and>
    (replicas peer node \<longleftrightarrow> (\<forall>table\<in>set CLUSTER_TABLES. \<forall>key. (table, key) \<notin> changed_keys ops \<longrightarrow>
       docs table peer key = (if docs table s key \<noteq> None then docs table s key else docs table t key)))"
proof -
  have peer: "js_tables peer table \<noteq> None \<and> docs table peer key = last_value (table, key) (missed @ ops) (docs table s key)"
    if "table \<in> set CLUSTER_TABLES" for table key
    unfolding peer_def using assms(2) that by (intro local_changes_docs) simp
  have node: "docs table node key = last_value (table, key) ops (if docs table s key \<noteq> None then docs table s key else docs table t key)"
    if "table \<in> set CLUSTER_TABLES" for table key
    unfolding node_def messages_docs [OF that assms(3)] restore_docs [OF assms(1)]
    using that by (simp add: map_add_def split: option.split)
  have exact: "docs table node key = (if (table, key) \<in> changed_keys ops then docs table peer key
       else if docs table s key \<noteq> None then docs table s key else docs table t key)"
    if "table \<in> set CLUSTER_TABLES" for table key
    unfolding node [OF that] using peer [OF that, of key] last_value_changed [of "(table, key)" ops]
    by (simp add: last_value_append last_value_unchanged)
  have seen: "docs table node key = docs table peer key"
    if "missed = []" "table \<in> set CLUSTER_TABLES" "docs table s key \<noteq> None \<or> (table, key) \<in> changed_keys ops" for table key
    using exact [OF that(2), of key] peer [OF that(2), of key] that(1,3) by (auto simp: last_value_unchanged)
  have "replicas peer node \<longleftrightarrow> (\<forall>table\<in>set CLUSTER_TABLES. \<forall>key. docs table peer key = docs table node key)"
    using peer by (auto simp: replicas_def fun_eq_iff)
  also have "\<dots> \<longleftrightarrow> (\<forall>table\<in>set CLUSTER_TABLES. \<forall>key. (table, key) \<notin> changed_keys ops \<longrightarrow>
       docs table peer key = (if docs table s key \<noteq> None then docs table s key else docs table t key))"
    using exact by simp
  finally show ?thesis using exact seen by blast
qed

text \<open>Two limits of the replication: a row the peer has deleted while the node was away survives its return, and two
  nodes that change the same document at the same time exchange their versions and never agree.\<close>

lemma restore_keeps_deleted:
  assumes "keyed field s" "table \<in> set CLUSTER_TABLES" "docs table s key = None"
  shows "docs table (nc_restore field (nc_snapshot s) t) key = docs table t key"
  using assms by (simp add: restore_docs map_add_def)

lemma concurrent_puts_swap:
  assumes "table \<in> set CLUSTER_TABLES" "js_tables s table \<noteq> None" "a \<noteq> b"
  shows "docs table (fold (on_config_message a) (published b (Cf_Put table key y)) (local_change (Cf_Put table key x) s)) key = Some y"
    and "docs table (fold (on_config_message b) (published a (Cf_Put table key x)) (local_change (Cf_Put table key y) s)) key = Some x"
  using assms by (auto simp: cluster_publish_def publish_config_def on_config_message_def nc_apply_docs delete_not_put)

definition sample_config_store :: "rstring json_store" where
  \<comment> \<open>documents are their own keys\<close>
  "sample_config_store = fold (\<lambda>t. js_set t [\<lparr>rw_key = rstr ''P1'', rw_doc = rstr ''P1'', rw_seq = 1\<rparr>]) CLUSTER_TABLES js_new"

definition sample_own_store :: "rstring json_store" where
  \<comment> \<open>a node with a partner the peer does not have\<close>
  "sample_own_store = fold (\<lambda>t. js_set t [\<lparr>rw_key = rstr ''P9'', rw_doc = rstr ''P9'', rw_seq = 1\<rparr>]) CLUSTER_TABLES js_new"

lemma sample_config_tables:
  assumes "table \<in> set CLUSTER_TABLES"
  shows "js_tables sample_config_store table = Some [\<lparr>rw_key = rstr ''P1'', rw_doc = rstr ''P1'', rw_seq = 1\<rparr>]"
    and "js_tables sample_own_store table = Some [\<lparr>rw_key = rstr ''P9'', rw_doc = rstr ''P9'', rw_seq = 1\<rparr>]"
  using assms by (auto simp: sample_config_store_def sample_own_store_def CLUSTER_TABLES_def js_set_def)

theorem joined_node_follows_witness:
  "\<exists>node. node = fold (on_config_message [66]) (published [65] (Cf_Put (rstr ''partners'') (rstr ''P2'') (rstr ''P2'')))
      (nc_restore (\<lambda>_. Some) (nc_snapshot sample_config_store) sample_own_store) \<and>
    docs (rstr ''partners'') node (rstr ''P1'') = Some (rstr ''P1'') \<and> docs (rstr ''partners'') node (rstr ''P2'') = Some (rstr ''P2'') \<and>
    docs (rstr ''partners'') node (rstr ''P9'') = Some (rstr ''P9'')"
proof -
  let ?op = "Cf_Put (rstr ''partners'') (rstr ''P2'') (rstr ''P2'')"
  note t = sample_config_tables
  have p: "rstr ''partners'' \<in> set CLUSTER_TABLES" by (simp add: CLUSTER_TABLES_def)
  have "backup_key (\<lambda>_. Some) table d = Some d" if "table \<in> set CLUSTER_TABLES" for table and d :: rstring
    using that by (auto simp: backup_key_def CLUSTER_TABLES_def rstr_def)
  then have keyed: "keyed (\<lambda>_. Some) sample_config_store" using t(1) by (auto simp: keyed_def tb_wf_def)
  have doc: "docs (rstr ''partners'') sample_config_store key = (if key = rstr ''P1'' then Some (rstr ''P1'') else None)"
    "docs (rstr ''partners'') sample_own_store key = (if key = rstr ''P9'' then Some (rstr ''P9'') else None)" for key
    by (simp_all add: js_doc_alt t [OF p] tb_find_def raw_codec_def)
  have keys: "rstr ''P1'' \<noteq> rstr ''P2''" "rstr ''P9'' \<noteq> rstr ''P1''" "rstr ''P9'' \<noteq> rstr ''P2''" by (simp_all add: rstr_def)
  have new: "docs (rstr ''partners'') (fold local_change [?op] sample_config_store) (rstr ''P2'') = Some (rstr ''P2'')"
    using t(1) [OF p] by (simp add: docs_put)
  from joined_node_follows [where field = "\<lambda>_. Some" and s = sample_config_store and origin = "[65]" and node_id = "[66]" and missed = "[]" and ops = "[?op]" and t = sample_own_store] keyed t(1) p
  have "docs (rstr ''partners'') (fold (on_config_message [66]) (concat (map (published [65]) [?op])) (nc_restore (\<lambda>_. Some) (nc_snapshot sample_config_store) sample_own_store)) key =
      (if (rstr ''partners'', key) \<in> changed_keys [?op] then docs (rstr ''partners'') (fold local_change ([] @ [?op]) sample_config_store) key
       else if docs (rstr ''partners'') sample_config_store key \<noteq> None then docs (rstr ''partners'') sample_config_store key
       else docs (rstr ''partners'') sample_own_store key)" for key by simp
  from this [of "rstr ''P1''"] this [of "rstr ''P2''"] this [of "rstr ''P9''"] show ?thesis
    using new keys by (simp add: changed_keys_def doc)
qed

section \<open>One leader\<close>

text \<open>
  What the code relies on of the bucket: a put that succeeds leaves its value there; a creation succeeds only when there is no
  entry, and then leaves its value; an operation that reports a failure changed nothing or, when only its answer was
  lost, did its work; an expired entry is gone.
\<close>

definition lease_laws :: "'s lease_ops \<Rightarrow> ('s \<Rightarrow> 's) \<Rightarrow> bool" where
  "lease_laws lo expire \<longleftrightarrow>
     (\<forall>v s. fst (lo_put lo v s) \<longrightarrow> lo_entry lo (snd (lo_put lo v s)) = Some v) \<and>
     (\<forall>v s. lo_entry lo (snd (lo_put lo v s)) \<in> {lo_entry lo s, Some v}) \<and>
     (\<forall>v s. fst (lo_create lo v s) \<longrightarrow> lo_entry lo s = None \<and> lo_entry lo (snd (lo_create lo v s)) = Some v) \<and>
     (\<forall>v s. lo_entry lo (snd (lo_create lo v s)) = lo_entry lo s \<or>
        lo_entry lo s = None \<and> lo_entry lo (snd (lo_create lo v s)) = Some v) \<and>
     (\<forall>s. lo_entry lo (expire s) = None)"

text \<open>
  The nodes of a cluster: the bucket, the flag \<^verbatim>\<open>is_leader\<close> of each node, and what each node has read in the turn it has
  begun. A step is a read (which may fail) or an act of one node, the stop of a node (its process is gone, and with it
  its flag), or the expiration of the lease at any moment. Node identifiers are keys of a bucket, which are ASCII.
\<close>

record 's lease_state =
  ls_bucket :: 's
  ls_leader :: "rstring \<Rightarrow> bool"
  ls_held :: "rstring \<Rightarrow> rstring option option"

datatype lease_label = Lease_Read rstring | Lease_Act rstring | Lease_Stop rstring | Lease_Expire

inductive lease_step :: "'s lease_ops \<Rightarrow> ('s \<Rightarrow> 's) \<Rightarrow> 's lease_state \<Rightarrow> lease_label \<Rightarrow> 's lease_state \<Rightarrow> bool"
  for lo :: "'s lease_ops" and expire :: "'s \<Rightarrow> 's" where
  read: "entry = Inl () \<or> entry = Inr (lo_entry lo (ls_bucket st)) \<Longrightarrow>
     lease_step lo expire st (Lease_Read n) (st\<lparr>ls_held := (ls_held st)(n \<mapsto> leader_held entry)\<rparr>)"
| act: "list_all (\<lambda>c. c < 128) n \<Longrightarrow> ls_held st n = Some held \<Longrightarrow> leader_act lo n held (ls_bucket st) = (b, s') \<Longrightarrow>
     lease_step lo expire st (Lease_Act n)
       (st\<lparr>ls_bucket := s', ls_leader := (ls_leader st)(n := b), ls_held := (ls_held st)(n := None)\<rparr>)"
| stop: "lease_step lo expire st (Lease_Stop n) (st\<lparr>ls_leader := (ls_leader st)(n := False), ls_held := (ls_held st)(n := None)\<rparr>)"
| expire: "lease_step lo expire st Lease_Expire (st\<lparr>ls_bucket := expire (ls_bucket st)\<rparr>)"

inductive_cases lease_stepE: "lease_step lo expire st l st'"

inductive lease_run :: "'s lease_ops \<Rightarrow> ('s \<Rightarrow> 's) \<Rightarrow> 's lease_state \<Rightarrow> lease_label list \<Rightarrow> 's lease_state \<Rightarrow> bool"
  for lo :: "'s lease_ops" and expire :: "'s \<Rightarrow> 's" and st :: "'s lease_state" where
  start: "lease_run lo expire st [] st"
| more: "lease_run lo expire st tr st' \<Longrightarrow> lease_step lo expire st' l st'' \<Longrightarrow> lease_run lo expire st (tr @ [l]) st''"

lemma from_utf8_ascii: "list_all (\<lambda>c. c < 128) s \<Longrightarrow> from_utf8_lossy (str_bytes s) = s"
proof (induction s)
  case Nil
  show ?case by (simp add: from_utf8_lossy_def str_bytes_def utf8_decode.simps)
next
  case (Cons c s)
  then have "unat (word_of_nat c :: u8) = c" by (simp add: unsigned_of_nat take_bit_nat_eq_self)
  with Cons show ?case
    by (simp add: from_utf8_lossy_def str_bytes_def utf8_char_def utf8_decode.simps [of "c # _"] utf8_next_def)
qed

abbreviation lease_holder :: "'s lease_ops \<Rightarrow> 's lease_state \<Rightarrow> rstring option" where
  "lease_holder lo st \<equiv> cluster_leader lo (ls_bucket st)"

definition no_stale_renewal :: "'s lease_ops \<Rightarrow> 's lease_state \<Rightarrow> bool" where
  \<comment> \<open>a node about to renew the lease still holds it\<close>
  "no_stale_renewal lo st \<longleftrightarrow> (\<forall>n. ls_held st n = Some (Some n) \<longrightarrow> lease_holder lo st = Some n)"

definition lease_inv :: "'s lease_ops \<Rightarrow> rstring set \<Rightarrow> 's lease_state \<Rightarrow> bool" where
  "lease_inv lo D st \<longleftrightarrow> no_stale_renewal lo st \<and> (\<forall>n\<in>D. ls_leader st n \<longrightarrow> lease_holder lo st = Some n)"

lemma lease_lawsD:
  assumes "lease_laws lo expire"
  shows "lo_entry lo (snd (lo_put lo v s)) \<in> {lo_entry lo s, Some v}"
    and "fst (lo_create lo v s) \<Longrightarrow> lo_entry lo (snd (lo_create lo v s)) = Some v"
    and "lo_entry lo s \<noteq> None \<Longrightarrow> lo_entry lo (snd (lo_create lo v s)) = lo_entry lo s"
proof -
  note laws = assms [unfolded lease_laws_def]
  show "lo_entry lo (snd (lo_put lo v s)) \<in> {lo_entry lo s, Some v}" using laws [THEN conjunct2, THEN conjunct1] by blast
  show "lo_entry lo (snd (lo_create lo v s)) = Some v" if "fst (lo_create lo v s)"
    using laws [THEN conjunct2, THEN conjunct2, THEN conjunct1] that by blast
  show "lo_entry lo (snd (lo_create lo v s)) = lo_entry lo s" if "lo_entry lo s \<noteq> None"
    using laws [THEN conjunct2, THEN conjunct2, THEN conjunct2, THEN conjunct1] that by metis
qed

lemma leader_act_holder:
  assumes laws: "lease_laws lo expire" and n: "list_all (\<lambda>c. c < 128) n" and act: "leader_act lo n held s = (b, s')"
    and renew: "held = Some n \<Longrightarrow> cluster_leader lo s = Some n"
  shows "(b \<longrightarrow> cluster_leader lo s' = Some n) \<and> (\<forall>h. cluster_leader lo s = Some h \<longrightarrow> cluster_leader lo s' = Some h)"
proof (cases held)
  case None
  with act have create: "lo_create lo (str_bytes n) s = (b, s')" by (simp add: leader_act_def)
  have "b \<Longrightarrow> lo_entry lo s' = Some (str_bytes n)" "lo_entry lo s' = lo_entry lo s \<or> lo_entry lo s = None"
    using lease_lawsD(2,3) [OF laws, where v = "str_bytes n" and s = s] unfolding create by auto
  then show ?thesis using from_utf8_ascii [OF n] by (auto simp: cluster_leader_def)
next
  case (Some holder)
  show ?thesis
  proof (cases "holder = n")
    case True
    with Some act have b: "b" "s' = snd (lo_put lo (str_bytes n) s)" by (simp_all add: leader_act_def)
    have "lo_entry lo s' \<in> {lo_entry lo s, Some (str_bytes n)}" unfolding b(2) by (rule lease_lawsD(1) [OF laws])
    moreover have "cluster_leader lo s = Some n" using renew Some True by simp
    ultimately show ?thesis using from_utf8_ascii [OF n] by (auto simp: cluster_leader_def)
  qed (use Some act in \<open>auto simp: leader_act_def\<close>)
qed

lemma lease_step_inv:
  assumes "lease_step lo expire st l st'" "lease_laws lo expire" "lease_inv lo D st" "l \<noteq> Lease_Expire"
  shows "lease_inv lo (D \<union> {n. l = Lease_Act n}) st' \<and> (\<forall>h. lease_holder lo st = Some h \<longrightarrow> lease_holder lo st' = Some h)"
  using assms(1)
proof (cases rule: lease_step.cases)
  case (read entry n)
  have "lease_holder lo st = Some n" if "leader_held entry = Some n"
    using read(3) that by (auto simp: leader_held_def cluster_leader_def split: option.splits sum.splits)
  with read assms(3) show ?thesis by (auto simp: lease_inv_def no_stale_renewal_def)
next
  case (act n held b s')
  have "cluster_leader lo (ls_bucket st) = Some n" if "held = Some n"
    using assms(3) act(4) that by (simp add: lease_inv_def no_stale_renewal_def)
  note h = leader_act_holder [OF assms(2) act(3,5) this]
  from h act assms(3) show ?thesis by (auto simp: lease_inv_def no_stale_renewal_def)
qed (use assms in \<open>auto simp: lease_inv_def no_stale_renewal_def\<close>)

lemma lease_run_inv:
  assumes "lease_run lo expire st tr st'" "lease_laws lo expire" "lease_inv lo D st" "Lease_Expire \<notin> set tr"
  shows "lease_inv lo (D \<union> {n. Lease_Act n \<in> set tr}) st' \<and> (\<forall>h. lease_holder lo st = Some h \<longrightarrow> lease_holder lo st' = Some h)"
  using assms(1,4)
proof (induction rule: lease_run.induct)
  case (more tr st' l st'')
  then have IH: "lease_inv lo (D \<union> {n. Lease_Act n \<in> set tr}) st'"
      "\<forall>h. lease_holder lo st = Some h \<longrightarrow> lease_holder lo st' = Some h" and l: "l \<noteq> Lease_Expire" by auto
  have "D \<union> {n. Lease_Act n \<in> set (tr @ [l])} = D \<union> {n. Lease_Act n \<in> set tr} \<union> {n. l = Lease_Act n}" by auto
  then show ?case using lease_step_inv [OF more.hyps(2) assms(2) IH(1) l] IH(2) by (simp add: Un_assoc)
qed (use assms(3) in simp)

text \<open>C23: Leader election. The nodes of a cluster read and act on the lease in any interleaving; reads, puts and
  creations may fail and nodes may stop. Take any state, whatever the flags are, in which no node is about to renew a lease
  it does not hold any more, and any run from there during which the lease does not expire. Then a lease that is
  held stays with its holder, and every node that considers itself leader in the end holds the lease, if it
  was not a leader in the beginning or has acted since: of these nodes at most one is a leader, and once every node
  has acted there is at most one leader at all. A node that acts on its own lease considers itself leader, and
  so does one that creates the lease, which then names it.\<close>

theorem one_leader:
  assumes laws: "lease_laws lo expire" and stale: "no_stale_renewal lo st"
    and run: "lease_run lo expire st tr st'" and unexpired: "Lease_Expire \<notin> set tr"
  shows "(\<forall>h. lease_holder lo st = Some h \<longrightarrow> lease_holder lo st' = Some h) \<and>
    (\<forall>n. (\<not> ls_leader st n \<or> Lease_Act n \<in> set tr) \<longrightarrow> ls_leader st' n \<longrightarrow> lease_holder lo st' = Some n) \<and>
    ((\<forall>n. ls_leader st n \<longrightarrow> Lease_Act n \<in> set tr) \<longrightarrow> (\<forall>n m. ls_leader st' n \<longrightarrow> ls_leader st' m \<longrightarrow> n = m)) \<and>
    (\<forall>n s. fst (leader_act lo n (Some n) s)) \<and>
    (\<forall>n s. list_all (\<lambda>c. c < 128) n \<longrightarrow> fst (lo_create lo (str_bytes n) s) \<longrightarrow>
       fst (leader_act lo n None s) \<and> cluster_leader lo (snd (leader_act lo n None s)) = Some n)"
proof -
  let ?D = "{n. \<not> ls_leader st n}"
  have "lease_inv lo ?D st" using stale by (simp add: lease_inv_def)
  note inv = lease_run_inv [OF run laws this unexpired]
  then have holder: "\<forall>h. lease_holder lo st = Some h \<longrightarrow> lease_holder lo st' = Some h"
    and settled: "\<forall>n. (\<not> ls_leader st n \<or> Lease_Act n \<in> set tr) \<longrightarrow> ls_leader st' n \<longrightarrow> lease_holder lo st' = Some n"
    by (auto simp: lease_inv_def)
  have one: "n = m" if "\<forall>n. ls_leader st n \<longrightarrow> Lease_Act n \<in> set tr" "ls_leader st' n" "ls_leader st' m" for n m
  proof -
    from settled that have "lease_holder lo st' = Some n" "lease_holder lo st' = Some m" by blast+
    then show ?thesis by simp
  qed
  have created: "fst (leader_act lo n None s) \<and> cluster_leader lo (snd (leader_act lo n None s)) = Some n"
    if "list_all (\<lambda>c. c < 128) n" "fst (lo_create lo (str_bytes n) s)" for n s
    using lease_lawsD(2) [OF laws that(2)] that(2) from_utf8_ascii [OF that(1)] by (simp add: leader_act_def cluster_leader_def)
  from holder settled one created show ?thesis by (simp add: leader_act_def)
qed

text \<open>A bucket that keeps its value until it expires.\<close>

definition sample_lease :: "bytes option lease_ops" where
  "sample_lease = \<lparr>lo_entry = (\<lambda>s. s), lo_put = (\<lambda>v _. (True, Some v)), lo_create = (\<lambda>v s. if s = None then (True, Some v) else (False, s))\<rparr>"

definition sample_lease_state :: "bytes option \<Rightarrow> (rstring \<Rightarrow> bool) \<Rightarrow> (rstring \<Rightarrow> rstring option option) \<Rightarrow> bytes option lease_state" where
  "sample_lease_state s flags held = \<lparr>ls_bucket = s, ls_leader = flags, ls_held = held\<rparr>"

lemma sample_lossy: "from_utf8_lossy [65] = [65]" "from_utf8_lossy [66] = [66]" "str_bytes [65] = [65]" "str_bytes [66] = [66]"
  using from_utf8_ascii [of "[65]"] from_utf8_ascii [of "[66]"] by (simp_all add: str_bytes_def utf8_char_def)

lemma sample_lease_read:
  "lease_run sample_lease (\<lambda>_. None) st tr (sample_lease_state s flags held) \<Longrightarrow>
    lease_run sample_lease (\<lambda>_. None) st (tr @ [Lease_Read n]) (sample_lease_state s flags (held(n \<mapsto> map_option from_utf8_lossy s)))"
  using lease_step.read [of "Inr s" sample_lease "sample_lease_state s flags held" "\<lambda>_. None" n]
  by (auto simp: sample_lease_def sample_lease_state_def leader_held_def intro: lease_run.more split: option.splits)

lemma sample_lease_act:
  assumes "lease_run sample_lease (\<lambda>_. None) st tr (sample_lease_state s flags held)" "held n = Some h"
    "leader_act sample_lease n h s = (b, s')" "list_all (\<lambda>c. c < 128) n"
  shows "lease_run sample_lease (\<lambda>_. None) st (tr @ [Lease_Act n]) (sample_lease_state s' (flags(n := b)) (held(n := None)))"
  using assms lease_step.act [of n "sample_lease_state s flags held" h sample_lease b s' "\<lambda>_. None"]
  by (auto simp: sample_lease_state_def intro: lease_run.more)

text \<open>The limit of the election: a holder that has read its lease and is delayed until the lease has expired and
  another node has created it takes it over, and both consider themselves leader until the other one acts again.\<close>

lemma delayed_renewal_two_leaders:
  "\<exists>tr st. lease_run sample_lease (\<lambda>_. None) (sample_lease_state None (\<lambda>_. False) (\<lambda>_. None)) tr st \<and> ls_leader st [65] \<and> ls_leader st [66]"
proof -
  let ?run = "lease_run sample_lease (\<lambda>_. None) (sample_lease_state None (\<lambda>_. False) (\<lambda>_. None))"
  note simps = leader_act_def sample_lease_def sample_lossy
  note r1 = sample_lease_read [OF lease_run.start, of None "\<lambda>_. False" "\<lambda>_. None" "[65]"]
  note a1 = sample_lease_act [OF r1, of "[65]" None True "Some [65]"]
  note r2 = sample_lease_read [OF a1, of "[65]"]
  have "?run [Lease_Read [65], Lease_Act [65], Lease_Read [65]]
      (sample_lease_state (Some [65]) ((\<lambda>_. False)([65] := True)) (((\<lambda>_. None)([65] := None))([65] \<mapsto> Some [65])))"
    using r2 by (simp add: simps)
  from lease_run.more [OF this, of Lease_Expire "sample_lease_state None ((\<lambda>_. False)([65] := True)) (((\<lambda>_. None)([65] := None))([65] \<mapsto> Some [65]))"]
  have e: "?run [Lease_Read [65], Lease_Act [65], Lease_Read [65], Lease_Expire]
      (sample_lease_state None ((\<lambda>_. False)([65] := True)) (((\<lambda>_. None)([65] := None))([65] \<mapsto> Some [65])))"
    using lease_step.expire [of sample_lease "\<lambda>_. None" "sample_lease_state (Some [65]) _ _"] by (simp add: sample_lease_state_def)
  note r3 = sample_lease_read [OF e, of "[66]"]
  note a3 = sample_lease_act [OF r3, of "[66]" None True "Some [66]"]
  note a4 = sample_lease_act [OF a3, of "[65]" "Some [65]" True "Some [65]"]
  show ?thesis
    by (intro exI conjI, rule a4) (simp_all add: simps sample_lease_state_def)
qed

theorem one_leader_witness:
  "\<exists>st'. lease_run sample_lease (\<lambda>_. None) (sample_lease_state None ((\<lambda>_. False)([65] := True)) (\<lambda>_. None))
      [Lease_Read [66], Lease_Act [66], Lease_Read [65], Lease_Act [65]] st' \<and>
    ls_leader st' [66] \<and> (\<forall>n. ls_leader st' n \<longrightarrow> n = [66])"
proof -
  let ?st = "sample_lease_state None ((\<lambda>_. False)([65] := True)) (\<lambda>_. None)"
  note simps = leader_act_def sample_lease_def sample_lossy
  note r1 = sample_lease_read [OF lease_run.start, of None "(\<lambda>_. False)([65] := True)" "\<lambda>_. None" "[66]"]
  note a1 = sample_lease_act [OF r1, of "[66]" None True "Some [66]"]
  note r2 = sample_lease_read [OF a1, of "[65]"]
  note a2 = sample_lease_act [OF r2, of "[65]" "Some [66]" False "Some [66]"]
  let ?held = "(\<lambda>_. None)([66] \<mapsto> None, [66] := None, [65] \<mapsto> Some [66], [65] := None)"
  let ?fin = "sample_lease_state (Some [66]) ((\<lambda>_. False)([65] := True, [66] := True, [65] := False)) ?held"
  have "lease_run sample_lease (\<lambda>_. None) ?st ((([] @ [Lease_Read [66]]) @ [Lease_Act [66]]) @ [Lease_Read [65]] @ [Lease_Act [65]]) ?fin"
    using a2 by (simp add: simps del: fun_upd_upd append.simps)
  then have run: "lease_run sample_lease (\<lambda>_. None) ?st [Lease_Read [66], Lease_Act [66], Lease_Read [65], Lease_Act [65]] ?fin" by simp
  have leader: "ls_leader ?fin [66]" by (simp add: sample_lease_state_def)
  have laws: "lease_laws sample_lease (\<lambda>_. None)" by (simp add: lease_laws_def sample_lease_def)
  have stale: "no_stale_renewal sample_lease ?st" by (simp add: no_stale_renewal_def sample_lease_state_def)
  have acted: "\<forall>n. ls_leader ?st n \<longrightarrow> Lease_Act n \<in> set [Lease_Read [66], Lease_Act [66], Lease_Read [65], Lease_Act [65]]"
    by (simp add: sample_lease_state_def)
  have "Lease_Expire \<notin> set [Lease_Read [66], Lease_Act [66], Lease_Read [65], Lease_Act [65]]" by simp
  note one = one_leader [OF laws stale run this, THEN conjunct2, THEN conjunct2, THEN conjunct1, THEN mp, OF acted]
  show ?thesis by (rule exI [of _ ?fin], rule conjI [OF run], rule conjI [OF leader]) (use one leader in blast)
qed

end
