(* ===== verification/Schedule.thy ===== *)
theory Schedule
  imports Cluster Client_Session "HOL-Library.Multiset"
begin

text \<open>
  Scheduled transfers (\<^verbatim>\<open>pesit-node/src/schedule.rs\<close>): jobs with an interval or a cron expression, edited through the API
  and fired by a periodic tick on the member of the cluster that owns them. The parser of cron
  expressions is a parameter: it rejects an expression with a text or gives the next occurrence after a time.
\<close>

section \<open>Schedules\<close>

definition SCHEDULES :: rstring where "SCHEDULES = rstr ''schedules''"

record scheduled_transfer =
  sj_id :: rstring
  sj_name :: rstring
  sj_enabled :: bool
  sj_direction :: rstring
  sj_request :: transfer_request
  sj_interval_seconds :: u64
  sj_cron :: "rstring option"
  sj_last_run :: "rstring option"
  sj_last_status :: "rstring option"
  sj_next_run_ms :: int
  sj_created_at :: "rstring option"
  sj_updated_at :: "rstring option"

definition scheduled_transfer_default :: scheduled_transfer where
  "scheduled_transfer_default = \<lparr>sj_id = [], sj_name = [], sj_enabled = True, sj_direction = rstr ''send'',
     sj_request = transfer_request_default, sj_interval_seconds = 3600, sj_cron = None, sj_last_run = None,
     sj_last_status = None, sj_next_run_ms = 0, sj_created_at = None, sj_updated_at = None\<rparr>"

fun split_blanks :: "rstring \<Rightarrow> rstring list" where
  "split_blanks [] = [[]]"
| "split_blanks (c # cs) =
     (if is_whitespace c then [] # split_blanks cs
      else case split_blanks cs of [] \<Rightarrow> [[c]] | w # ws \<Rightarrow> (c # w) # ws)"

definition split_whitespace :: "rstring \<Rightarrow> rstring list" where
  "split_whitespace s = filter (\<lambda>w. w \<noteq> []) (split_blanks s)"

definition cron_expr :: "rstring \<Rightarrow> rstring" where
  "cron_expr raw =
     (let raw = str_trim raw
      in if length (split_whitespace raw) = 5 then rstr ''0 '' @ raw else raw)"

type_synonym cron_parser = "rstring \<Rightarrow> (rstring, int \<Rightarrow> int option) result"

definition parse_cron :: "cron_parser \<Rightarrow> rstring \<Rightarrow> (rstring, int \<Rightarrow> int option) result" where
  "parse_cron cron expr = cron (cron_expr expr)"

definition cron_of :: "scheduled_transfer \<Rightarrow> rstring option" where
  \<comment> \<open>\<^verbatim>\<open>s.cron.as_deref().filter(|e| !e.trim().is_empty())\<close>\<close>
  "cron_of s = (case sj_cron s of Some e \<Rightarrow> (if str_trim e = [] then None else Some e) | None \<Rightarrow> None)"

definition i64 :: "int \<Rightarrow> int" where
  \<comment> \<open>two's complement\<close>
  "i64 n = (n + 2 ^ 63) mod 2 ^ 64 - 2 ^ 63"

definition next_run_after :: "cron_parser \<Rightarrow> scheduled_transfer \<Rightarrow> int \<Rightarrow> int" where
  "next_run_after cron s from_ms =
     (let interval = i64 (from_ms + i64 (i64 (int (unat (max (sj_interval_seconds s) 1))) * 1000)) in
      case cron_of s of
        None \<Rightarrow> interval
      | Some expr \<Rightarrow>
         (case parse_cron cron expr of
            Inl _ \<Rightarrow> interval
          | Inr occurrence \<Rightarrow> (case occurrence from_ms of Some n \<Rightarrow> n | None \<Rightarrow> interval)))"

definition fnv_step :: "u64 \<Rightarrow> u8 \<Rightarrow> u64" where
  "fnv_step h b = xor h (ucast b) * 0x00000100000001b3"

definition owner_index :: "rstring \<Rightarrow> nat \<Rightarrow> nat" where
  "owner_index i member_count =
     (if member_count \<le> 1 then 0
      else unat (foldl fnv_step 0xcbf29ce484222325 (str_bytes i) mod word_of_nat member_count))"

section \<open>Running a schedule\<close>

definition trigger :: "'j client_serde \<Rightarrow> client_env \<Rightarrow> scheduled_transfer \<Rightarrow> 'j engine \<Rightarrow> rstring \<times> client_job list \<times> 'j engine" where
  "trigger ds env s e =
     (case (if ascii_lower_eq (sj_direction s) (rstr ''receive'') then submit_receive ds env (sj_request s) e
            else submit_send ds env (sj_request s) e) of
        (Inr job, e) \<Rightarrow> (rstr ''queued '' @ th_id (jb_history job), [job], e)
      | (Inl err, e) \<Rightarrow> (rstr ''error: '' @ ap_message err, [], e))"

definition schedule_put :: "(scheduled_transfer, 'j) codec \<Rightarrow> rstring \<Rightarrow> scheduled_transfer \<Rightarrow> 'j engine \<Rightarrow> (store_error, unit) result \<times> 'j engine" where
  "schedule_put sc key s e = apsnd (\<lambda>st. set_store st e) (js_put sc SCHEDULES key s (en_store e))"

definition schedule_audit :: "'j client_serde \<Rightarrow> client_env \<Rightarrow> rstring \<Rightarrow> rstring \<Rightarrow> 'j engine \<Rightarrow> 'j engine" where
  "schedule_audit ds env action target e =
     e\<lparr>en_audit := audit_success (ds_event ds) (cv_audit_uuid env) (ne_now_iso env) (rstr ''schedule'') action target (en_audit e)\<rparr>"

section \<open>The API\<close>

text \<open>Handlers give their answer, the state and the changes they publish; \<open>node\<close> is the identifier of a node in a cluster.\<close>

type_synonym ('j, 'a) schedule_answer = "(api_error, 'a) result \<times> 'j engine \<times> 'j config_change list"

definition check_cron :: "cron_parser \<Rightarrow> scheduled_transfer \<Rightarrow> (api_error, unit) result" where
  "check_cron cron s =
     (case cron_of s of
        None \<Rightarrow> Inr ()
      | Some expr \<Rightarrow>
         (case parse_cron cron expr of
            Inl e \<Rightarrow> Inl (api_bad_request (rstr ''invalid cron expression: '' @ e))
          | Inr _ \<Rightarrow> Inr ()))"

definition schedule_not_found :: "rstring \<Rightarrow> api_error" where
  "schedule_not_found i = api_not_found (rstr ''schedule '' @ quoted i @ rstr '' not found'')"

definition schedule_get :: "(scheduled_transfer, 'j) codec \<Rightarrow> rstring \<Rightarrow> 'j engine \<Rightarrow> (api_error, scheduled_transfer) result" where
  "schedule_get sc i e =
     and_then (map_err api_of_store (js_get sc SCHEDULES i (en_store e))) (ok_or (schedule_not_found i))"

definition schedule_list :: "(scheduled_transfer, 'j) codec \<Rightarrow> 'j engine \<Rightarrow> (api_error, scheduled_transfer list) result \<times> 'j engine" where
  "schedule_list sc e =
     (let e = set_store (snd (js_ensure_table SCHEDULES (en_store e))) e
      in (map_err api_of_store (js_list sc SCHEDULES (en_store e)), e))"

definition schedule_save :: "(scheduled_transfer, 'j) codec \<Rightarrow> rstring option \<Rightarrow> rstring \<Rightarrow> scheduled_transfer \<Rightarrow> 'j engine \<Rightarrow>
    ('j, scheduled_transfer) schedule_answer" where
  "schedule_save sc node key s e =
     (case schedule_put sc key s e of
        (Inl err, e) \<Rightarrow> (Inl (api_of_store err), e, [])
      | (Inr _, e) \<Rightarrow> (Inr s, e, cluster_publish node (rstr ''put'') SCHEDULES key (Some (cd_to sc s))))"

definition schedule_create :: "'j client_serde \<Rightarrow> (scheduled_transfer, 'j) codec \<Rightarrow> cron_parser \<Rightarrow> client_env \<Rightarrow> int \<Rightarrow> rstring option \<Rightarrow>
    scheduled_transfer \<Rightarrow> 'j engine \<Rightarrow> ('j, scheduled_transfer) schedule_answer" where
  "schedule_create ds sc cron env now node s e =
     (if str_trim (sj_name s) = [] then (Inl (api_bad_request (rstr ''name is required'')), e, [])
      else case
        (if cron_of s = None \<and> sj_interval_seconds s = 0
         then Inl (api_bad_request (rstr ''intervalSeconds must be at least 1, or set a cron expression''))
         else check_cron cron s) of
        Inl err \<Rightarrow> (Inl err, e, [])
      | Inr _ \<Rightarrow>
         let e = set_store (snd (js_ensure_table SCHEDULES (en_store e))) e;
             s = s\<lparr>sj_id := ne_uuid env, sj_created_at := Some (ne_now_iso env), sj_updated_at := Some (ne_now_iso env)\<rparr>;
             s = s\<lparr>sj_next_run_ms := next_run_after cron s now\<rparr>
         in case schedule_save sc node (sj_id s) s e of
              (Inl err, e, ms) \<Rightarrow> (Inl err, e, ms)
            | (Inr s, e, ms) \<Rightarrow> (Inr s, schedule_audit ds env (rstr ''create'') (sj_name s) e, ms))"

definition schedule_update :: "(scheduled_transfer, 'j) codec \<Rightarrow> cron_parser \<Rightarrow> client_env \<Rightarrow> int \<Rightarrow> rstring option \<Rightarrow> rstring \<Rightarrow>
    scheduled_transfer \<Rightarrow> 'j engine \<Rightarrow> ('j, scheduled_transfer) schedule_answer" where
  "schedule_update sc cron env now node i s e =
     (case schedule_get sc i e of
        Inl err \<Rightarrow> (Inl err, e, [])
      | Inr existing \<Rightarrow>
         let s = s\<lparr>sj_id := sj_id existing, sj_created_at := sj_created_at existing, sj_last_run := sj_last_run existing,
               sj_last_status := sj_last_status existing, sj_updated_at := Some (ne_now_iso env)\<rparr>
         in case check_cron cron s of
              Inl err \<Rightarrow> (Inl err, e, [])
            | Inr _ \<Rightarrow>
               schedule_save sc node i (if sj_next_run_ms s = 0 then s\<lparr>sj_next_run_ms := next_run_after cron s now\<rparr> else s) e)"

definition schedule_delete :: "'j client_serde \<Rightarrow> client_env \<Rightarrow> rstring option \<Rightarrow> rstring \<Rightarrow> 'j engine \<Rightarrow> ('j, unit) schedule_answer" where
  "schedule_delete ds env node i e =
     (case js_delete SCHEDULES i (en_store e) of
        (Inl err, st) \<Rightarrow> (Inl (api_of_store err), set_store st e, [])
      | (Inr False, st) \<Rightarrow> (Inl (schedule_not_found i), set_store st e, [])
      | (Inr True, st) \<Rightarrow>
         (Inr (), schedule_audit ds env (rstr ''delete'') i (set_store st e), cluster_publish node (rstr ''delete'') SCHEDULES i None))"

definition schedule_run_now :: "'j client_serde \<Rightarrow> (scheduled_transfer, 'j) codec \<Rightarrow> client_env \<Rightarrow> rstring \<Rightarrow> 'j engine \<Rightarrow>
    (api_error, rstring \<times> client_job list) result \<times> 'j engine" where
  "schedule_run_now ds sc env i e =
     (case schedule_get sc i e of
        Inl err \<Rightarrow> (Inl err, e)
      | Inr s \<Rightarrow>
         (case trigger ds env s e of
            (outcome, jobs, e) \<Rightarrow>
              (case schedule_put sc i (s\<lparr>sj_last_run := Some (ne_now_iso env), sj_last_status := Some outcome\<rparr>) e of
                 (Inl err, e) \<Rightarrow> (Inl (api_of_store err), e)
               | (Inr _, e) \<Rightarrow> (Inr (outcome, jobs), schedule_audit ds env (rstr ''run'') (sj_name s) e))))"

section \<open>The tick\<close>

fun position_in :: "'a \<Rightarrow> 'a list \<Rightarrow> nat option" where
  "position_in x [] = None"
| "position_in x (y # ys) = (if y = x then Some 0 else map_option Suc (position_in x ys))"

text \<open>The slot of a node among the members and their number, for a node of a cluster with these members.\<close>

definition tick_slot :: "(rstring \<times> rstring list) option \<Rightarrow> nat \<times> nat" where
  "tick_slot cluster =
     (case cluster of
        None \<Rightarrow> (0, 1)
      | Some (node_id, members) \<Rightarrow>
         let ids = sort members
         in (case position_in node_id ids of Some k \<Rightarrow> k | None \<Rightarrow> 0, max (length ids) 1))"

definition fires :: "(rstring \<times> rstring list) option \<Rightarrow> int \<Rightarrow> scheduled_transfer \<Rightarrow> bool" where
  "fires cluster now s \<longleftrightarrow>
     \<not> (\<not> sj_enabled s \<or> sj_next_run_ms s > now \<or> owner_index (sj_id s) (snd (tick_slot cluster)) \<noteq> fst (tick_slot cluster))"

record 'j tick_state =
  tk_engine :: "'j engine"
  tk_published :: "'j config_change list"
  tk_jobs :: "client_job list"
  tk_fired :: "rstring list"
  tk_count :: nat

definition fired_schedule :: "cron_parser \<Rightarrow> client_env \<Rightarrow> int \<Rightarrow> rstring \<Rightarrow> scheduled_transfer \<Rightarrow> scheduled_transfer" where
  "fired_schedule cron env now outcome s =
     s\<lparr>sj_last_run := Some (ne_now_iso env), sj_last_status := Some outcome, sj_next_run_ms := next_run_after cron s now,
       sj_updated_at := Some (ne_now_iso env)\<rparr>"

definition fire_event :: "client_env \<Rightarrow> scheduled_transfer \<Rightarrow> rstring \<Rightarrow> audit_event" where
  "fire_event env s outcome =
     \<lparr>ae_id = cv_audit_uuid env, ae_timestamp = ne_now_iso env, ae_category = rstr ''schedule'', ae_action = rstr ''run'',
      ae_target = Some (sj_name s), ae_actor = None, ae_detail = Some outcome,
      ae_outcome = (if str_prefix (rstr ''queued'') outcome then Out_Success else Out_Failure)\<rparr>"

definition tick_one :: "'j client_serde \<Rightarrow> (scheduled_transfer, 'j) codec \<Rightarrow> cron_parser \<Rightarrow> (nat \<Rightarrow> client_env) \<Rightarrow>
    (rstring \<times> rstring list) option \<Rightarrow> int \<Rightarrow> scheduled_transfer \<Rightarrow> 'j tick_state \<Rightarrow> 'j tick_state" where
  "tick_one ds sc cron envs cluster now s t =
     (if \<not> fires cluster now s then t
      else
        let env = envs (tk_count t) in
        case trigger ds env s (tk_engine t) of
          (outcome, jobs, e) \<Rightarrow>
            let e = e\<lparr>en_audit := audit_record (ds_event ds) (fire_event env s outcome) (en_audit e)\<rparr>;
                s' = fired_schedule cron env now outcome s;
                e = snd (schedule_put sc (sj_id s') s' e)
            in \<lparr>tk_engine = e,
                tk_published = tk_published t @ (case cluster of None \<Rightarrow> []
                  | Some (node_id, _) \<Rightarrow> [publish_config node_id (rstr ''put'') SCHEDULES (sj_id s') (Some (cd_to sc s'))]),
                tk_jobs = tk_jobs t @ jobs, tk_fired = tk_fired t @ [sj_id s], tk_count = tk_count t + 1\<rparr>)"

definition tick :: "'j client_serde \<Rightarrow> (scheduled_transfer, 'j) codec \<Rightarrow> cron_parser \<Rightarrow> (nat \<Rightarrow> client_env) \<Rightarrow>
    (rstring \<times> rstring list) option \<Rightarrow> int \<Rightarrow> 'j engine \<Rightarrow> 'j tick_state" where
  "tick ds sc cron envs cluster now e =
     fold (tick_one ds sc cron envs cluster now) (case js_list sc SCHEDULES (en_store e) of Inl _ \<Rightarrow> [] | Inr ss \<Rightarrow> ss)
       \<lparr>tk_engine = e, tk_published = [], tk_jobs = [], tk_fired = [], tk_count = 0\<rparr>"

section \<open>Who fires\<close>

lemma position_in_bound: "position_in x xs = Some k \<Longrightarrow> k < length xs \<and> xs ! k = x"
  by (induction xs arbitrary: k) (auto split: if_splits simp: nth_Cons)

lemma position_in_nth: "distinct xs \<Longrightarrow> k < length xs \<Longrightarrow> position_in (xs ! k) xs = Some k"
  by (induction xs arbitrary: k) (auto simp: nth_Cons split: nat.split)

lemma position_in_member: "x \<in> set xs \<Longrightarrow> \<exists>k. position_in x xs = Some k"
  by (induction xs) auto

lemma owner_index_bound:
  assumes "0 < n" "n < 2 ^ 64"
  shows "owner_index i n < n"
proof -
  have "unat (word_of_nat n :: u64) = n" using assms by (simp add: unsigned_of_nat take_bit_nat_eq_self_iff)
  then show ?thesis using assms by (simp add: owner_index_def unat_mod)
qed

text \<open>The slots of the members are the positions of the sorted list, each taken once.\<close>

lemma one_owner:
  assumes "distinct ids" "ids \<noteq> []" "length ids < 2 ^ 64"
  shows "\<exists>!m. m \<in> set ids \<and> owner_index i (snd (tick_slot (Some (m, ids)))) = fst (tick_slot (Some (m, ids)))"
proof -
  let ?o = "owner_index i (length ids)"
  have n: "0 < length ids" using assms(2) by simp
  have lt: "?o < length (sort ids)" using owner_index_bound [OF n assms(3)] by simp
  have slot: "tick_slot (Some (m, ids)) = (case position_in m (sort ids) of Some k \<Rightarrow> k | None \<Rightarrow> 0, length ids)" for m
    using n by (cases "length ids") (simp_all add: tick_slot_def Let_def)
  have d: "distinct (sort ids)" using assms(1) by simp
  show ?thesis
  proof (rule ex1I [of _ "sort ids ! ?o"])
    show "sort ids ! ?o \<in> set ids \<and> owner_index i (snd (tick_slot (Some (sort ids ! ?o, ids)))) = fst (tick_slot (Some (sort ids ! ?o, ids)))"
      using nth_mem [OF lt] by (simp add: slot position_in_nth [OF d lt])
  next
    fix m assume m: "m \<in> set ids \<and> owner_index i (snd (tick_slot (Some (m, ids)))) = fst (tick_slot (Some (m, ids)))"
    then obtain k where k: "position_in m (sort ids) = Some k" using position_in_member [of m "sort ids"] by auto
    then show "m = sort ids ! ?o" using m position_in_bound [OF k] by (simp add: slot)
  qed
qed

definition due :: "int \<Rightarrow> scheduled_transfer \<Rightarrow> bool" where
  "due now s \<longleftrightarrow> sj_enabled s \<and> sj_next_run_ms s \<le> now"

lemma fires_iff_due:
  "fires cluster now s \<longleftrightarrow> due now s \<and> owner_index (sj_id s) (snd (tick_slot cluster)) = fst (tick_slot cluster)"
  by (auto simp: fires_def due_def)

lemma tick_one_fired:
  "tk_fired (tick_one ds sc cron envs cluster now s t) = tk_fired t @ (if fires cluster now s then [sj_id s] else [])"
  by (simp add: tick_one_def Let_def split: prod.split)

lemma fold_tick_fired:
  "tk_fired (fold (tick_one ds sc cron envs cluster now) ss t) = tk_fired t @ map sj_id (filter (fires cluster now) ss)"
  by (induction ss arbitrary: t) (simp_all add: tick_one_fired)

lemma tick_fired:
  assumes "js_list sc SCHEDULES (en_store e) = Inr ss"
  shows "tk_fired (tick ds sc cron envs cluster now e) = map sj_id (filter (fires cluster now) ss)"
  using assms by (simp add: tick_def fold_tick_fired)

lemma sum_one_member:
  assumes "distinct ms" "\<exists>!m. m \<in> set ms \<and> P m"
  shows "(\<Sum>m\<leftarrow>ms. if P m then x else {#}) = x"
proof -
  obtain m where m: "m \<in> set ms" "P m" "\<And>k. k \<in> set ms \<Longrightarrow> P k \<Longrightarrow> k = m" using assms(2) by blast
  have "(\<Sum>m\<leftarrow>ms. if P m then x else {#}) = (\<Sum>m \<in> set ms. if P m then x else {#})"
    using assms(1) by (rule sum_list_distinct_conv_sum_set)
  also have "\<dots> = (\<Sum>k \<in> set ms. if k = m then x else {#})"
  proof (rule sum.cong [OF refl])
    fix k assume "k \<in> set ms"
    then have "P k \<longleftrightarrow> k = m" using m(2,3) by blast
    then show "(if P k then x else {#}) = (if k = m then x else {#})" by simp
  qed
  finally show ?thesis using m(1) by simp
qed

lemma shares_add_up:
  assumes "distinct ms" "\<And>s. s \<in> set ss \<Longrightarrow> \<exists>!m. m \<in> set ms \<and> P m s"
  shows "(\<Sum>m\<leftarrow>ms. mset (map f (filter (\<lambda>s. Q s \<and> P m s) ss))) = mset (map f (filter Q ss))"
  using assms(2)
proof (induction ss)
  case (Cons s ss)
  have one: "(\<Sum>m\<leftarrow>ms. if P m s then {#f s#} else {#}) = {#f s#}"
    by (rule sum_one_member [OF assms(1)]) (rule Cons.prems, simp)
  have "(\<Sum>m\<leftarrow>ms. mset (map f (filter (\<lambda>s. Q s \<and> P m s) (s # ss)))) =
      (\<Sum>m\<leftarrow>ms. (if Q s then if P m s then {#f s#} else {#} else {#}) + mset (map f (filter (\<lambda>s. Q s \<and> P m s) ss)))"
    by (rule arg_cong [where f = sum_list], rule map_cong) auto
  then show ?case using Cons one by (cases "Q s") (simp_all add: sum_list_addf)
qed simp

text \<open>C20: A due schedule fires exactly once in the cluster. When the members have the same schedules and each sees
  the same list of members at its tick, all of them together fire every enabled schedule that is due, each once, and nothing else,
  whatever the transfers, the cron expressions and the state of their engines.\<close>

theorem schedule_fires_once:
  assumes "distinct ids" "ids \<noteq> []" "length ids < 2 ^ 64"
    and "\<And>m. m \<in> set ids \<Longrightarrow> js_list sc SCHEDULES (en_store (engines m)) = Inr ss"
  shows "mset (concat (map (\<lambda>m. tk_fired (tick ds sc cron envs (Some (m, ids)) now (engines m))) ids)) =
    mset (map sj_id (filter (\<lambda>s. sj_enabled s \<and> sj_next_run_ms s \<le> now) ss))"
proof -
  let ?own = "\<lambda>m s. owner_index (sj_id s) (snd (tick_slot (Some (m, ids)))) = fst (tick_slot (Some (m, ids)))"
  have "mset (concat (map (\<lambda>m. tk_fired (tick ds sc cron envs (Some (m, ids)) now (engines m))) ids)) =
      (\<Sum>m\<leftarrow>ids. mset (map sj_id (filter (\<lambda>s. due now s \<and> ?own m s) ss)))"
    unfolding mset_concat map_map comp_def
    by (rule arg_cong [where f = sum_list], rule map_cong [OF refl]) (simp add: tick_fired [OF assms(4)] fires_iff_due [abs_def])
  also have "\<dots> = mset (map sj_id (filter (due now) ss))"
    by (rule shares_add_up [OF assms(1)]) (rule one_owner [OF assms(1-3)])
  finally show ?thesis by (simp add: due_def [abs_def])
qed

text \<open>A node that the list of members does not name (its own heartbeat is missing) takes the slot of the first member and
  fires that member's schedules as well.\<close>

lemma absent_node_takes_first_slot:
  assumes "n \<notin> set ids" "ids \<noteq> []" "distinct ids"
  shows "tick_slot (Some (n, ids)) = tick_slot (Some (hd (sort ids), ids))"
proof -
  have "position_in n (sort ids) = None"
  proof (rule ccontr)
    assume "position_in n (sort ids) \<noteq> None"
    then obtain k where "k < length (sort ids)" "sort ids ! k = n" using position_in_bound by fast
    then show False using assms(1) nth_mem [of k "sort ids"] by simp
  qed
  moreover have "sort ids \<noteq> []" using assms(2) by (metis set_empty set_sort)
  then have "position_in (hd (sort ids)) (sort ids) = Some 0" by (cases "sort ids") auto
  ultimately show ?thesis by (simp add: tick_slot_def Let_def)
qed

section \<open>Rescheduling\<close>

definition schedules :: "(scheduled_transfer, 'j) codec \<Rightarrow> 'j engine \<Rightarrow> rstring \<Rightarrow> scheduled_transfer option" where
  "schedules sc e = js_doc sc SCHEDULES (en_store e)"

lemma SCHEDULES_other: "SCHEDULES \<noteq> C_TRANSFERS" "SCHEDULES \<noteq> AUDIT_TABLE"
  by (simp_all add: SCHEDULES_def C_TRANSFERS_def AUDIT_TABLE_def rstr_def)

lemma submit_keeps_table:
  assumes "table \<noteq> C_TRANSFERS"
  shows "js_tables (en_store (snd (submit_send ds env req e))) table = js_tables (en_store e) table"
    "js_tables (en_store (snd (submit_receive ds env req e))) table = js_tables (en_store e) table"
  using assms by (simp_all add: submit_send_def submit_receive_def engine_submit_def engine_save_def set_store_def Let_def
      js_put_other split: sum.split prod.split)

lemma trigger_keeps_table:
  assumes "trigger ds env s e = (outcome, jobs, e')" "table \<noteq> C_TRANSFERS"
  shows "js_tables (en_store e') table = js_tables (en_store e) table"
proof -
  let ?r = "if ascii_lower_eq (sj_direction s) (rstr ''receive'') then submit_receive ds env (sj_request s) e
    else submit_send ds env (sj_request s) e"
  have "e' = snd ?r" using assms(1) by (simp only: trigger_def split: sum.splits prod.splits) (auto split: if_splits)
  then show ?thesis using assms(2) by (simp add: submit_keeps_table)
qed

lemma schedules_put:
  assumes "codec_ok sc" "js_tables (en_store e) SCHEDULES \<noteq> None"
  shows "schedules sc (snd (schedule_put sc k s e)) = (schedules sc e)(k \<mapsto> s)"
    and "js_tables (en_store (snd (schedule_put sc k s e))) SCHEDULES \<noteq> None"
  using assms by (simp_all add: schedules_def schedule_put_def set_store_def js_doc_put js_tables_kept)

lemma tick_one_schedules:
  assumes "codec_ok sc" "js_tables (en_store (tk_engine t)) SCHEDULES \<noteq> None"
  obtains env outcome where
    "schedules sc (tk_engine (tick_one ds sc cron envs cluster now s t)) =
      (if fires cluster now s then (schedules sc (tk_engine t))(sj_id s \<mapsto> fired_schedule cron env now outcome s)
       else schedules sc (tk_engine t))"
    "js_tables (en_store (tk_engine (tick_one ds sc cron envs cluster now s t))) SCHEDULES \<noteq> None"
proof (cases "fires cluster now s")
  case True
  let ?env = "envs (tk_count t)"
  obtain outcome jobs e where tr: "trigger ds ?env s (tk_engine t) = (outcome, jobs, e)" by (metis prod_cases3)
  let ?e = "e\<lparr>en_audit := audit_record (ds_event ds) (fire_event ?env s outcome) (en_audit e)\<rparr>"
  let ?s = "fired_schedule cron ?env now outcome s"
  have "js_tables (en_store ?e) SCHEDULES = js_tables (en_store (tk_engine t)) SCHEDULES"
    using trigger_keeps_table [OF tr SCHEDULES_other(1)] by (simp add: audit_record_other SCHEDULES_other)
  moreover from this have "schedules sc ?e = schedules sc (tk_engine t)" unfolding schedules_def by (rule js_doc_cong)
  moreover have "tk_engine (tick_one ds sc cron envs cluster now s t) = snd (schedule_put sc (sj_id s) ?s ?e)"
    using True tr by (simp add: tick_one_def Let_def fired_schedule_def)
  ultimately show ?thesis using that [of ?env outcome] True schedules_put [OF assms(1), of ?e "sj_id s" ?s] assms(2) by simp
next
  case False
  then show ?thesis using that [of undefined undefined] assms(2) by (simp add: tick_one_def)
qed

lemma fold_tick_schedules:
  assumes "codec_ok sc" "js_tables (en_store (tk_engine t)) SCHEDULES \<noteq> None" "distinct (map sj_id ss)"
  shows "(\<forall>s \<in> set ss. fires cluster now s \<longrightarrow>
      (\<exists>env outcome. schedules sc (tk_engine (fold (tick_one ds sc cron envs cluster now) ss t)) (sj_id s) =
        Some (fired_schedule cron env now outcome s))) \<and>
    (\<forall>k. k \<notin> sj_id ` {s \<in> set ss. fires cluster now s} \<longrightarrow>
      schedules sc (tk_engine (fold (tick_one ds sc cron envs cluster now) ss t)) k = schedules sc (tk_engine t) k)"
  using assms(2,3)
proof (induction ss arbitrary: t)
  case (Cons s ss)
  obtain env outcome where one:
    "schedules sc (tk_engine (tick_one ds sc cron envs cluster now s t)) =
      (if fires cluster now s then (schedules sc (tk_engine t))(sj_id s \<mapsto> fired_schedule cron env now outcome s)
       else schedules sc (tk_engine t))"
    "js_tables (en_store (tk_engine (tick_one ds sc cron envs cluster now s t))) SCHEDULES \<noteq> None"
    by (rule tick_one_schedules [OF assms(1) Cons.prems(1)])
  have d: "distinct (map sj_id ss)" and new: "sj_id s \<notin> sj_id ` set ss" using Cons.prems(2) by simp_all
  let ?t = "tick_one ds sc cron envs cluster now s t"
  note IH = Cons.IH [OF one(2) d]
  have "schedules sc (tk_engine (fold (tick_one ds sc cron envs cluster now) ss ?t)) (sj_id s) = schedules sc (tk_engine ?t) (sj_id s)"
    using IH new by blast
  then have hd: "fires cluster now s \<Longrightarrow> schedules sc (tk_engine (fold (tick_one ds sc cron envs cluster now) ss ?t)) (sj_id s) =
      Some (fired_schedule cron env now outcome s)"
    by (simp add: one(1))
  have other: "k \<notin> sj_id ` {s' \<in> set (s # ss). fires cluster now s'} \<Longrightarrow>
      schedules sc (tk_engine ?t) k = schedules sc (tk_engine t) k" for k
    using one(1) by (cases "fires cluster now s") auto
  show ?case
  proof (intro conjI ballI allI impI)
    fix s' assume s': "s' \<in> set (s # ss)" "fires cluster now s'"
    show "\<exists>env outcome. schedules sc (tk_engine (fold (tick_one ds sc cron envs cluster now) (s # ss) t)) (sj_id s') =
        Some (fired_schedule cron env now outcome s')"
      using s' hd IH by (cases "s' = s") auto
  next
    fix k assume k: "k \<notin> sj_id ` {s' \<in> set (s # ss). fires cluster now s'}"
    then have "k \<notin> sj_id ` {s' \<in> set ss. fires cluster now s'}" by auto
    then show "schedules sc (tk_engine (fold (tick_one ds sc cron envs cluster now) (s # ss) t)) k = schedules sc (tk_engine t) k"
      using IH other [OF k] by simp
  qed
qed simp

text \<open>The next run by interval, exact for the intervals and times in reach; an interval of \<open>2 ^ 63\<close> seconds wraps to no delay.\<close>

lemma i64_id: "- (2 ^ 63) \<le> n \<Longrightarrow> n < 2 ^ 63 \<Longrightarrow> i64 n = n"
  by (simp add: i64_def)

lemma next_run_interval:
  assumes "cron_of s = None" "unat (sj_interval_seconds s) < 2 ^ 52" "0 \<le> now" "now < 2 ^ 62"
  shows "next_run_after cron s now = now + 1000 * int (max (unat (sj_interval_seconds s)) 1)"
proof -
  have m: "unat (max (sj_interval_seconds s) 1) = max (unat (sj_interval_seconds s)) 1"
    by (simp add: max_def word_le_nat_alt)
  let ?n = "int (max (unat (sj_interval_seconds s)) 1)"
  have n: "0 \<le> ?n" "?n < 2 ^ 52" using assms(2) by auto
  then have "i64 (i64 ?n * 1000) = ?n * 1000" using i64_id [of ?n] i64_id [of "?n * 1000"] by simp
  moreover have "i64 (now + ?n * 1000) = now + ?n * 1000" using n assms(3,4) by (intro i64_id) simp_all
  ultimately show ?thesis using assms(1) by (simp add: next_run_after_def Let_def m)
qed

lemma interval_wraps:
  assumes "cron_of s = None" "sj_interval_seconds s = 2 ^ 63" "0 \<le> now" "now < 2 ^ 63"
  shows "next_run_after cron s now = now"
proof -
  have "max (sj_interval_seconds s) 1 = 2 ^ 63" by (simp add: assms(2) max_def word_le_nat_alt)
  then have "i64 (i64 (int (unat (max (sj_interval_seconds s) 1))) * 1000) = 0" by (simp add: i64_def)
  then show ?thesis using assms(1,3,4) i64_id [of now] by (simp add: next_run_after_def Let_def)
qed

lemma fired_not_due: "now' < next_run_after cron s now \<Longrightarrow> \<not> fires cluster now' (fired_schedule cron env now outcome s)"
  by (simp add: fires_def fired_schedule_def)

text \<open>C21: A tick moves exactly the schedules it fires. Each of them keeps its definition, has its run
  recorded and does not fire again, on any member, before its next run, which for an interval is that many
  seconds later; every other schedule stays as it was.\<close>

theorem tick_reschedules:
  assumes "codec_ok sc" "js_list sc SCHEDULES (en_store e) = Inr ss" "distinct (map sj_id ss)"
  shows "(\<forall>s \<in> set ss. fires cluster now s \<longrightarrow>
      (\<exists>(env :: client_env) outcome s'. schedules sc (tk_engine (tick ds sc cron envs cluster now e)) (sj_id s) = Some s' \<and>
        s' = s\<lparr>sj_last_run := Some (ne_now_iso env), sj_last_status := Some outcome,
          sj_next_run_ms := next_run_after cron s now, sj_updated_at := Some (ne_now_iso env)\<rparr> \<and>
        (\<forall>cluster' now'. now' < next_run_after cron s now \<longrightarrow> \<not> fires cluster' now' s') \<and>
        (cron_of s = None \<and> unat (sj_interval_seconds s) < 2 ^ 52 \<and> 0 \<le> now \<and> now < 2 ^ 62 \<longrightarrow>
          next_run_after cron s now = now + 1000 * int (max (unat (sj_interval_seconds s)) 1)))) \<and>
    (\<forall>k. k \<notin> sj_id ` {s \<in> set ss. fires cluster now s} \<longrightarrow>
      schedules sc (tk_engine (tick ds sc cron envs cluster now e)) k = schedules sc e k)"
proof -
  let ?t = "\<lparr>tk_engine = e, tk_published = [], tk_jobs = [], tk_fired = [], tk_count = 0\<rparr>"
  have "js_tables (en_store (tk_engine ?t)) SCHEDULES \<noteq> None"
    using assms(2) by (auto simp: js_list_def js_rows_def and_then_def ok_or_def split: option.splits)
  from fold_tick_schedules [OF assms(1) this assms(3)] assms(2) have
    fired: "\<And>s. s \<in> set ss \<Longrightarrow> fires cluster now s \<Longrightarrow>
      \<exists>env outcome. schedules sc (tk_engine (tick ds sc cron envs cluster now e)) (sj_id s) = Some (fired_schedule cron env now outcome s)" and
    "\<forall>k. k \<notin> sj_id ` {s \<in> set ss. fires cluster now s} \<longrightarrow>
      schedules sc (tk_engine (tick ds sc cron envs cluster now e)) k = schedules sc e k"
    by (simp_all add: tick_def)
  moreover have "\<exists>(env :: client_env) outcome s'. schedules sc (tk_engine (tick ds sc cron envs cluster now e)) (sj_id s) = Some s' \<and>
        s' = s\<lparr>sj_last_run := Some (ne_now_iso env), sj_last_status := Some outcome,
          sj_next_run_ms := next_run_after cron s now, sj_updated_at := Some (ne_now_iso env)\<rparr> \<and>
        (\<forall>cluster' now'. now' < next_run_after cron s now \<longrightarrow> \<not> fires cluster' now' s') \<and>
        (cron_of s = None \<and> unat (sj_interval_seconds s) < 2 ^ 52 \<and> 0 \<le> now \<and> now < 2 ^ 62 \<longrightarrow>
          next_run_after cron s now = now + 1000 * int (max (unat (sj_interval_seconds s)) 1))"
    if s: "s \<in> set ss" "fires cluster now s" for s
  proof -
    from fired [OF s] obtain env outcome where
      "schedules sc (tk_engine (tick ds sc cron envs cluster now e)) (sj_id s) = Some (fired_schedule cron env now outcome s)" by blast
    then show ?thesis using fired_not_due [of _ cron s now _ env outcome] next_run_interval [of s now cron]
      by - (rule exI [of _ env], rule exI [of _ outcome], rule exI [of _ "fired_schedule cron env now outcome s"],
        intro conjI, simp_all add: fired_schedule_def)
  qed
  ultimately show ?thesis by simp
qed

text \<open>Two nodes with the same enabled schedules, one of them due at time 5000.\<close>

definition sample_schedules :: "scheduled_transfer list" where
  "sample_schedules = [scheduled_transfer_default\<lparr>sj_id := rstr ''a'', sj_next_run_ms := 1000\<rparr>,
     scheduled_transfer_default\<lparr>sj_id := rstr ''b'', sj_next_run_ms := 9000\<rparr>]"

definition sample_engine :: "engine_settings \<Rightarrow> scheduled_transfer engine" where
  "sample_engine = engine_new \<lparr>al_store = js_set SCHEDULES
       (map2 (\<lambda>n s. \<lparr>rw_key = sj_id s, rw_doc = s, rw_seq = n\<rparr>) [1, 2] sample_schedules) js_new,
     al_max_entries = 0, al_writes = 0\<rparr>"

lemma sample_engine_list: "js_list plain_codec SCHEDULES (en_store (sample_engine st)) = Inr sample_schedules"
  by (simp add: sample_engine_def engine_new_def js_list_def js_rows_def js_set_def and_then_def ok_or_def tb_by_seq_def
      js_decode_def plain_codec_def sample_schedules_def)

theorem schedule_fires_once_witness:
  "\<forall>ds cron envs st. mset (concat (map (\<lambda>m. tk_fired (tick ds plain_codec cron envs (Some (m, [[66], [65]])) 5000 (sample_engine st))) [[66], [65]]))
    = {#rstr ''a''#}"
  using schedule_fires_once [of "[[66], [65]]" plain_codec "\<lambda>_. sample_engine st" sample_schedules _ _ _ 5000 for st, OF _ _ _ sample_engine_list]
  by (simp add: sample_schedules_def scheduled_transfer_default_def)

theorem tick_reschedules_witness:
  "\<forall>ds cron envs st. map_option sj_next_run_ms (schedules plain_codec (tk_engine (tick ds plain_codec cron envs None 5000 (sample_engine st))) (rstr ''a''))
      = Some 3605000 \<and>
    schedules plain_codec (tk_engine (tick ds plain_codec cron envs None 5000 (sample_engine st))) (rstr ''b'') =
      schedules plain_codec (sample_engine st) (rstr ''b'')"
proof (intro allI)
  fix ds :: "scheduled_transfer client_serde" and cron :: cron_parser and envs :: "nat \<Rightarrow> client_env" and st :: engine_settings
  have ok: "codec_ok (plain_codec :: (scheduled_transfer, scheduled_transfer) codec)" by (simp add: codec_ok_def plain_codec_def)
  have "distinct (map sj_id sample_schedules)" by (simp add: sample_schedules_def rstr_def)
  note t = tick_reschedules [OF ok sample_engine_list this, of None 5000 ds cron envs st]
  let ?a = "scheduled_transfer_default\<lparr>sj_id := rstr ''a'', sj_next_run_ms := 1000\<rparr>"
  have a: "?a \<in> set sample_schedules" "fires None 5000 ?a"
    by (simp_all add: sample_schedules_def fires_def tick_slot_def owner_index_def scheduled_transfer_default_def)
  have "cron_of ?a = None" "unat (sj_interval_seconds ?a) = 3600" by (simp_all add: cron_of_def scheduled_transfer_default_def)
  with conjunct1 [OF t, THEN bspec, OF a(1)] a(2) have
    "map_option sj_next_run_ms (schedules plain_codec (tk_engine (tick ds plain_codec cron envs None 5000 (sample_engine st))) (sj_id ?a)) = Some 3605000"
    by auto
  moreover have "rstr ''b'' \<notin> sj_id ` {s \<in> set sample_schedules. fires None 5000 s}"
    by (auto simp: sample_schedules_def fires_def rstr_def scheduled_transfer_default_def)
  ultimately show "map_option sj_next_run_ms (schedules plain_codec (tk_engine (tick ds plain_codec cron envs None 5000 (sample_engine st))) (rstr ''a''))
      = Some 3605000 \<and>
    schedules plain_codec (tk_engine (tick ds plain_codec cron envs None 5000 (sample_engine st))) (rstr ''b'') =
      schedules plain_codec (sample_engine st) (rstr ''b'')"
    using conjunct2 [OF t] by simp
qed

end
