(* ===== verification/Node_Manager.thy ===== *)
theory Node_Manager
  imports Cluster Client_Engine
begin

text \<open>
  The listeners of the node (\<^verbatim>\<open>pesit-node/src/manager.rs\<close>): starting and stopping them, their stored status, TLS settings
  and the configuration of each accepted connection. Binding a socket, building a TLS acceptor and the
  certificate store are parameters.
\<close>

section \<open>State\<close>

record tls_server_settings =
  tv_cert_file :: rstring
  tv_key_file :: rstring
  tv_ca_file :: "rstring option"
  tv_require_client_cert :: bool
  tv_min_version :: "tls_version option"

datatype manager_error =
    Mg_NotFound rstring
  | Mg_AlreadyRunning rstring
  | Mg_NotRunning rstring
  | Mg_Bind rstring io_kind
  | Mg_Tls rstring
  | Mg_Store store_error

text \<open>The files of the keystores (certificate and key) and of the truststores of the certificate store.\<close>

record pki_files =
  pk_keystore_files :: "rstring \<Rightarrow> (rstring \<times> rstring) option"
  pk_truststore_file :: "rstring \<Rightarrow> rstring option"

record listener_settings =
  ls_checkpoint_dir :: rstring
  ls_node_id :: rstring
  ls_tls :: "tls_server_settings option"
  ls_pki :: "pki_files option"

record running =
  rn_active :: nat
  rn_port :: u16

record 'j server_manager =
  sm_audit :: "'j audit_log"
  sm_settings :: listener_settings
  sm_running :: "rstring \<Rightarrow> running option"
  sm_shutdown :: "rstring list"
  sm_cancels :: "rstring \<Rightarrow> bool option"
  sm_conn_counter :: u32

text \<open>\<open>sm_shutdown\<close> are the listeners whose accepting loop was told to end, in order. The store is shared with the audit log.\<close>

abbreviation sm_store :: "'j server_manager \<Rightarrow> 'j json_store" where
  "sm_store m \<equiv> al_store (sm_audit m)"

definition sm_set_store :: "'j json_store \<Rightarrow> 'j server_manager \<Rightarrow> 'j server_manager" where
  "sm_set_store s m = m\<lparr>sm_audit := (sm_audit m)\<lparr>al_store := s\<rparr>\<rparr>"

definition manager_new :: "'j audit_log \<Rightarrow> listener_settings \<Rightarrow> 'j server_manager" where
  "manager_new a st = \<lparr>sm_audit = a, sm_settings = st, sm_running = Map.empty, sm_shutdown = [], sm_cancels = Map.empty, sm_conn_counter = 0\<rparr>"

text \<open>The surroundings of a call: the time, the result of building an acceptor and of binding an address, texts.\<close>

record manager_env =
  mv_now_iso :: rstring
  mv_uuid :: rstring
  mv_acceptor :: "tls_server_settings \<Rightarrow> (rstring, unit) result"
  mv_bind :: "rstring \<Rightarrow> (io_kind, unit) result"
  mv_io_text :: "io_kind \<Rightarrow> rstring"

section \<open>Status\<close>

definition is_running :: "rstring \<Rightarrow> 'j server_manager \<Rightarrow> bool" where
  "is_running server_id m \<longleftrightarrow> sm_running m server_id \<noteq> None"

record server_status_response =
  sr_server_id :: rstring
  sr_status :: server_status
  sr_running :: bool
  sr_active_connections :: nat
  sr_port :: u16

definition manager_status :: "pesit_server_config \<Rightarrow> 'j server_manager \<Rightarrow> server_status_response" where
  "manager_status cfg m =
     (let r = sm_running m (ps_server_id cfg)
      in \<lparr>sr_server_id = ps_server_id cfg,
          sr_status = (if r \<noteq> None then Srv_Running else if ps_status cfg = Srv_Error then Srv_Error else Srv_Stopped),
          sr_running = (r \<noteq> None), sr_active_connections = (case r of None \<Rightarrow> 0 | Some r \<Rightarrow> rn_active r),
          sr_port = (case r of None \<Rightarrow> ps_port cfg | Some r \<Rightarrow> rn_port r)\<rparr>)"

definition stamped_status :: "rstring \<Rightarrow> server_status \<Rightarrow> pesit_server_config \<Rightarrow> pesit_server_config" where
  "stamped_status now status c =
     (let c = c\<lparr>ps_status := status, ps_updated_at := Some now\<rparr>
      in case status of
           Srv_Running \<Rightarrow> c\<lparr>ps_last_started_at := Some now\<rparr>
         | Srv_Stopped \<Rightarrow> c\<lparr>ps_last_stopped_at := Some now\<rparr>
         | _ \<Rightarrow> c)"

definition set_status :: "(pesit_server_config, 'j) codec \<Rightarrow> manager_env \<Rightarrow> rstring \<Rightarrow> server_status \<Rightarrow> 'j server_manager \<Rightarrow> 'j server_manager" where
  "set_status cd env server_id status m =
     sm_set_store (snd (js_update cd T_SERVERS server_id (stamped_status (mv_now_iso env) status) (sm_store m))) m"

section \<open>Starting and stopping\<close>

definition listener_tls :: "listener_settings \<Rightarrow> pesit_server_config \<Rightarrow> (manager_error, tls_server_settings) result" where
  "listener_tls st cfg =
     (case non_empty (ps_ssl_keystore cfg) of
        Some ks \<Rightarrow>
          and_then (ok_or (Mg_Tls (rstr ''listener references a keystore but certificate management is disabled'')) (ls_pki st)) (\<lambda>pki.
          and_then (ok_or (Mg_Tls (rstr ''keystore '' @ quoted ks @ rstr '' not found'')) (pk_keystore_files pki ks)) (\<lambda>(cert, key).
          Inr \<lparr>tv_cert_file = cert, tv_key_file = key,
             tv_ca_file = or_else (Option.bind (non_empty (ps_ssl_truststore cfg)) (pk_truststore_file pki))
               (Option.bind (ls_tls st) tv_ca_file),
             tv_require_client_cert = (case ls_tls st of None \<Rightarrow> False | Some t \<Rightarrow> tv_require_client_cert t),
             tv_min_version = (case ls_tls st of None \<Rightarrow> Some Tls_V1_2 | Some t \<Rightarrow> tv_min_version t)\<rparr>))
      | None \<Rightarrow>
          ok_or (Mg_Tls (rstr ''listener requires TLS but no certificate is configured (set a keystore or PESIT_SSL_CERT_PATH/KEY_PATH)''))
            (ls_tls st))"

definition listener_addr :: "pesit_server_config \<Rightarrow> rstring" where
  "listener_addr cfg = ps_bind_address cfg @ rstr '':'' @ nat_string (unat (ps_port cfg))"

definition manager_get :: "(pesit_server_config, 'j) codec \<Rightarrow> rstring \<Rightarrow> 'j server_manager \<Rightarrow> (manager_error, pesit_server_config) result" where
  "manager_get cd server_id m =
     and_then (map_err Mg_Store (js_get cd T_SERVERS server_id (sm_store m))) (ok_or (Mg_NotFound server_id))"

text \<open>The acceptor of a listener, and whether a failure is recorded as its status.\<close>

definition listener_acceptor :: "manager_env \<Rightarrow> listener_settings \<Rightarrow> pesit_server_config \<Rightarrow> (manager_error \<times> bool, unit) result" where
  "listener_acceptor env st cfg =
     (if ps_ssl_enabled cfg
      then and_then (map_err (\<lambda>e. (e, True)) (listener_tls st cfg)) (\<lambda>settings.
           map_err (\<lambda>e. (Mg_Tls e, False)) (mv_acceptor env settings))
      else Inr ())"

definition manager_start :: "(pesit_server_config, 'j) codec \<Rightarrow> manager_env \<Rightarrow> rstring \<Rightarrow> 'j server_manager \<Rightarrow>
    (manager_error, unit) result \<times> 'j server_manager" where
  "manager_start cd env server_id m =
     (if is_running server_id m then (Inl (Mg_AlreadyRunning server_id), m)
      else case manager_get cd server_id m of
        Inl err \<Rightarrow> (Inl err, m)
      | Inr cfg \<Rightarrow>
         (case listener_acceptor env (sm_settings m) cfg of
            Inl (err, recorded) \<Rightarrow> (Inl err, if recorded then set_status cd env server_id Srv_Error m else m)
          | Inr _ \<Rightarrow>
             (case mv_bind env (listener_addr cfg) of
                Inl e \<Rightarrow> (Inl (Mg_Bind (listener_addr cfg) e), set_status cd env server_id Srv_Error m)
              | Inr _ \<Rightarrow>
                 let m = m\<lparr>sm_conn_counter := sm_conn_counter m + 1000,
                       sm_running := (sm_running m)(server_id \<mapsto> \<lparr>rn_active = 0, rn_port = ps_port cfg\<rparr>)\<rparr>
                 in (Inr (), set_status cd env server_id Srv_Running m))))"

definition manager_stop :: "(pesit_server_config, 'j) codec \<Rightarrow> manager_env \<Rightarrow> rstring \<Rightarrow> 'j server_manager \<Rightarrow>
    (manager_error, unit) result \<times> 'j server_manager" where
  "manager_stop cd env server_id m =
     (case sm_running m server_id of
        None \<Rightarrow>
          ((case js_exists T_SERVERS server_id (sm_store m) of
              Inl err \<Rightarrow> Inl (Mg_Store err)
            | Inr True \<Rightarrow> Inl (Mg_NotRunning server_id)
            | Inr False \<Rightarrow> Inl (Mg_NotFound server_id)), m)
      | Some r \<Rightarrow>
          (Inr (), set_status cd env server_id Srv_Stopped
             (m\<lparr>sm_running := (sm_running m)(server_id := None), sm_shutdown := sm_shutdown m @ [server_id]\<rparr>)))"

definition start_one :: "(pesit_server_config, 'j) codec \<Rightarrow> manager_env \<Rightarrow> pesit_server_config \<Rightarrow> 'j server_manager \<Rightarrow> 'j server_manager" where
  "start_one cd env s m =
     (if ps_auto_start s then snd (manager_start cd env (ps_server_id s) m)
      else set_status cd env (ps_server_id s) Srv_Stopped m)"

definition start_auto :: "(pesit_server_config, 'j) codec \<Rightarrow> manager_env \<Rightarrow> 'j server_manager \<Rightarrow> 'j server_manager" where
  "start_auto cd env m =
     fold (start_one cd env) (case js_list cd T_SERVERS (sm_store m) of Inl _ \<Rightarrow> [] | Inr ss \<Rightarrow> ss) m"

definition stop_all :: "(pesit_server_config, 'j) codec \<Rightarrow> manager_env \<Rightarrow> rstring list \<Rightarrow> 'j server_manager \<Rightarrow> 'j server_manager" where
  \<comment> \<open>\<open>ids\<close> are the keys of the map, in the order of its iteration\<close>
  "stop_all cd env ids m = fold (\<lambda>i m. snd (manager_stop cd env i m)) ids m"

section \<open>Accepting connections\<close>

text \<open>
  The accepting loop starts a task for a connection when the sessions that are counted are fewer than the limit; the
  task counts itself when it runs, and the end of the session is counted as well. The state is the number of tasks
  that have not run yet and the counter.
\<close>

definition admits :: "pesit_server_config \<Rightarrow> nat \<Rightarrow> bool" where
  "admits cfg active \<longleftrightarrow> \<not> active \<ge> unat (ps_max_connections cfg)"

inductive accept_step :: "pesit_server_config \<Rightarrow> nat \<times> nat \<Rightarrow> nat \<times> nat \<Rightarrow> bool" for cfg :: pesit_server_config where
  accepted: "admits cfg active \<Longrightarrow> accept_step cfg (waiting, active) (Suc waiting, active)"
| refused: "\<not> admits cfg active \<Longrightarrow> accept_step cfg (waiting, active) (waiting, active)"
| task_runs: "accept_step cfg (Suc waiting, active) (waiting, Suc active)"
| session_ends: "accept_step cfg (waiting, Suc active) (waiting, active)"

text \<open>Connections that arrive before their tasks run are all accepted: the limit does not bound the sessions.\<close>

lemma accepts_burst:
  assumes "admits cfg 0"
  shows "(accept_step cfg)\<^sup>*\<^sup>* (0, 0) (n, 0)"
proof (induction n)
  case (Suc n)
  then show ?case using accept_step.accepted [OF assms, of n] by (rule rtranclp.rtrancl_into_rtrancl)
qed simp

lemma tasks_run: "(accept_step cfg)\<^sup>*\<^sup>* (n, k) (0, n + k)"
proof (induction n arbitrary: k)
  case (Suc n)
  have "(accept_step cfg)\<^sup>*\<^sup>* (n, Suc k) (0, Suc n + k)" using Suc.IH [of "Suc k"] by simp
  with accept_step.task_runs show ?case by (rule converse_rtranclp_into_rtranclp)
qed simp

lemma sessions_exceed_limit:
  assumes "0 < ps_max_connections cfg"
  shows "\<exists>active > unat (ps_max_connections cfg). (accept_step cfg)\<^sup>*\<^sup>* (0, 0) (0, active)"
proof -
  have "admits cfg 0" using assms by (simp add: admits_def word_less_nat_alt)
  then show ?thesis using rtranclp_trans [OF accepts_burst tasks_run [of cfg _ 0]] by (metis add_0_right lessI)
qed

definition zero_padded :: "nat \<Rightarrow> nat \<Rightarrow> rstring" where
  "zero_padded w n = replicate (w - length (nat_string n)) 48 @ nat_string n"

definition connection_framing :: "pesit_server_config \<Rightarrow> framing" where
  "connection_framing cfg = (if \<not> ps_ssl_enabled cfg \<or> ps_tcpip_header cfg then LengthPrefixed else Raw)"

definition connection_config :: "pesit_server_config \<Rightarrow> u32 \<Rightarrow> rstring \<Rightarrow> responder_config" where
  "connection_config cfg n addr =
     \<lparr>sc_session_id = ps_server_id cfg @ rstr ''-'' @ zero_padded 6 (unat n), sc_conn_id = ucast (n mod 254 + 1), sc_remote_addr = addr\<rparr>"

text \<open>The identifier of a connection is never 0 and never 255.\<close>

lemma connection_id_bounds: "1 \<le> unat (sc_conn_id (connection_config cfg n addr))" "unat (sc_conn_id (connection_config cfg n addr)) \<le> 254"
proof -
  have 1: "unat (n mod 254) < 254" by (simp add: unat_mod)
  then have "unat (n mod 254 + 1) = unat (n mod 254) + 1" by (simp add: unat_word_ariths)
  moreover have "unat (ucast (n mod 254 + 1) :: u8) = unat (n mod 254 + 1)"
    using 1 calculation by (simp add: unsigned_ucast_eq take_bit_nat_eq_self)
  ultimately show "1 \<le> unat (sc_conn_id (connection_config cfg n addr))" "unat (sc_conn_id (connection_config cfg n addr)) \<le> 254"
    using 1 by (simp_all add: connection_config_def)
qed

end
