(* ===== verification/Node_Api.thy ===== *)
theory Node_Api
  imports Node_Manager Schedule
begin

text \<open>
  The operations of the node's API (\<^verbatim>\<open>pesit-node/src/api.rs\<close>) behind the HTTP routes: configuration entities, listeners and
  transfers. What a node changes in a replicated table is what it publishes, and the stored status of a
  listener follows the listeners that run.
\<close>

type_synonym ('j, 'a) node_answer = "(api_error, 'a) result \<times> 'j server_manager \<times> 'j config_change list"

fun manager_error_text :: "manager_env \<Rightarrow> manager_error \<Rightarrow> rstring" where
  "manager_error_text env (Mg_NotFound i) = rstr ''server '' @ quoted i @ rstr '' not found''"
| "manager_error_text env (Mg_AlreadyRunning i) = rstr ''server '' @ quoted i @ rstr '' is already running''"
| "manager_error_text env (Mg_NotRunning i) = rstr ''server '' @ quoted i @ rstr '' is not running''"
| "manager_error_text env (Mg_Bind addr e) = rstr ''cannot listen on '' @ addr @ rstr '': '' @ mv_io_text env e"
| "manager_error_text env (Mg_Tls e) = rstr ''TLS: '' @ e"
| "manager_error_text env (Mg_Store e) = store_error_text e"

fun api_of_manager :: "manager_env \<Rightarrow> manager_error \<Rightarrow> api_error" where
  "api_of_manager env (Mg_NotFound i) = api_not_found (manager_error_text env (Mg_NotFound i))"
| "api_of_manager env (Mg_AlreadyRunning i) = api_conflict (manager_error_text env (Mg_AlreadyRunning i))"
| "api_of_manager env (Mg_NotRunning i) = api_conflict (manager_error_text env (Mg_NotRunning i))"
| "api_of_manager env e = api_internal (manager_error_text env e)"

section \<open>Configuration entities\<close>

text \<open>The trait \<^verbatim>\<open>Entity\<close>: table, name, identifier, and the stamps of a creation or a change.\<close>

record 'a entity =
  et_table :: rstring
  et_name :: rstring
  et_id :: "'a \<Rightarrow> rstring"
  et_set_id :: "rstring \<Rightarrow> 'a \<Rightarrow> 'a"
  et_touch :: "bool \<Rightarrow> rstring \<Rightarrow> 'a \<Rightarrow> 'a"

definition touched :: "bool \<Rightarrow> rstring \<Rightarrow> rstring option \<Rightarrow> rstring option" where
  "touched created now created_at = (if created \<or> created_at = None then Some now else created_at)"

definition partner_entity :: "partner entity" where
  "partner_entity = \<lparr>et_table = T_PARTNERS, et_name = rstr ''Partner'', et_id = pt_id, et_set_id = (\<lambda>i x. x\<lparr>pt_id := i\<rparr>),
     et_touch = (\<lambda>created now x. x\<lparr>pt_created_at := touched created now (pt_created_at x), pt_updated_at := Some now\<rparr>)\<rparr>"

definition virtual_file_entity :: "virtual_file entity" where
  "virtual_file_entity = \<lparr>et_table = T_FILES, et_name = rstr ''Virtual file'', et_id = vf_id, et_set_id = (\<lambda>i x. x\<lparr>vf_id := i\<rparr>),
     et_touch = (\<lambda>created now x. x\<lparr>vf_created_at := touched created now (vf_created_at x), vf_updated_at := Some now\<rparr>)\<rparr>"

definition remote_partner_entity :: "remote_partner entity" where
  "remote_partner_entity = \<lparr>et_table = T_REMOTE_PARTNERS, et_name = rstr ''Remote partner'', et_id = rp_id,
     et_set_id = (\<lambda>i x. x\<lparr>rp_id := i\<rparr>),
     et_touch = (\<lambda>created now x. x\<lparr>rp_created_at := touched created now (rp_created_at x), rp_updated_at := Some now\<rparr>)\<rparr>"

definition connector_entity :: "connector_config entity" where
  "connector_entity = \<lparr>et_table = T_CONNECTORS, et_name = rstr ''Connector'', et_id = cc_id, et_set_id = (\<lambda>i x. x\<lparr>cc_id := i\<rparr>),
     et_touch = (\<lambda>created now x. x\<lparr>cc_created_at := touched created now (cc_created_at x), cc_updated_at := Some now\<rparr>)\<rparr>"

definition entity_validate :: "'a entity \<Rightarrow> 'a \<Rightarrow> (api_error, unit) result" where
  "entity_validate et x = (if str_trim (et_id et x) = [] then Inl (api_bad_request (rstr ''id is required'')) else Inr ())"

definition entity_not_found :: "'a entity \<Rightarrow> rstring \<Rightarrow> api_error" where
  "entity_not_found et i = api_not_found (et_name et @ rstr '' '' @ quoted i @ rstr '' not found'')"

definition entity_list :: "('a, 'j) codec \<Rightarrow> 'a entity \<Rightarrow> 'j server_manager \<Rightarrow> (api_error, 'a list) result" where
  "entity_list cd et m = map_err api_of_store (js_list cd (et_table et) (sm_store m))"

definition entity_get :: "('a, 'j) codec \<Rightarrow> 'a entity \<Rightarrow> rstring \<Rightarrow> 'j server_manager \<Rightarrow> (api_error, 'a) result" where
  "entity_get cd et i m =
     and_then (map_err api_of_store (js_get cd (et_table et) i (sm_store m))) (ok_or (entity_not_found et i))"

definition node_audit :: "(audit_event, 'j) codec \<Rightarrow> manager_env \<Rightarrow> rstring \<Rightarrow> rstring \<Rightarrow> rstring \<Rightarrow> 'j server_manager \<Rightarrow> 'j server_manager" where
  "node_audit ev env category action target m =
     m\<lparr>sm_audit := audit_success ev (mv_uuid env) (mv_now_iso env) category action target (sm_audit m)\<rparr>"

definition entity_save :: "('a, 'j) codec \<Rightarrow> 'a entity \<Rightarrow> rstring option \<Rightarrow> rstring \<Rightarrow> 'a \<Rightarrow> 'j server_manager \<Rightarrow> ('j, 'a) node_answer" where
  "entity_save cd et node key x m =
     (case js_put cd (et_table et) key x (sm_store m) of
        (Inl err, s) \<Rightarrow> (Inl (api_of_store err), sm_set_store s m, [])
      | (Inr _, s) \<Rightarrow> (Inr x, sm_set_store s m, cluster_publish node (rstr ''put'') (et_table et) key (Some (cd_to cd x))))"

definition entity_create :: "('a, 'j) codec \<Rightarrow> (audit_event, 'j) codec \<Rightarrow> 'a entity \<Rightarrow> manager_env \<Rightarrow> rstring option \<Rightarrow> 'a \<Rightarrow>
    'j server_manager \<Rightarrow> ('j, 'a) node_answer" where
  "entity_create cd ev et env node x m =
     (case and_then (entity_validate et x) (\<lambda>_. map_err api_of_store (js_exists (et_table et) (et_id et x) (sm_store m))) of
        Inl err \<Rightarrow> (Inl err, m, [])
      | Inr True \<Rightarrow> (Inl (api_conflict (et_name et @ rstr '' '' @ quoted (et_id et x) @ rstr '' already exists'')), m, [])
      | Inr False \<Rightarrow>
         let x = et_touch et True (mv_now_iso env) x
         in case entity_save cd et node (et_id et x) x m of
              (Inl err, m, ms) \<Rightarrow> (Inl err, m, ms)
            | (Inr x, m, ms) \<Rightarrow> (Inr x, node_audit ev env (rstr ''config'') (rstr ''create'') (et_name et @ rstr '':'' @ et_id et x) m, ms))"

definition entity_update :: "('a, 'j) codec \<Rightarrow> 'a entity \<Rightarrow> manager_env \<Rightarrow> rstring option \<Rightarrow> rstring \<Rightarrow> 'a \<Rightarrow> 'j server_manager \<Rightarrow> ('j, 'a) node_answer" where
  "entity_update cd et env node i x m =
     (case entity_get cd et i m of
        Inl err \<Rightarrow> (Inl err, m, [])
      | Inr existing \<Rightarrow>
         let x = et_set_id et i x
         in case entity_validate et x of
              Inl err \<Rightarrow> (Inl err, m, [])
            | Inr _ \<Rightarrow> entity_save cd et node i (et_touch et False (mv_now_iso env) x) m)"

definition entity_delete :: "(audit_event, 'j) codec \<Rightarrow> 'a entity \<Rightarrow> manager_env \<Rightarrow> rstring option \<Rightarrow> rstring \<Rightarrow> 'j server_manager \<Rightarrow> ('j, unit) node_answer" where
  "entity_delete ev et env node i m =
     (case js_delete (et_table et) i (sm_store m) of
        (Inl err, s) \<Rightarrow> (Inl (api_of_store err), sm_set_store s m, [])
      | (Inr False, s) \<Rightarrow> (Inl (entity_not_found et i), sm_set_store s m, [])
      | (Inr True, s) \<Rightarrow>
         (Inr (), node_audit ev env (rstr ''config'') (rstr ''delete'') (et_name et @ rstr '':'' @ i) (sm_set_store s m),
          cluster_publish node (rstr ''delete'') (et_table et) i None))"

section \<open>Listeners\<close>

text \<open>Listeners are local to a node: nothing is published.\<close>

definition listener_not_found :: "rstring \<Rightarrow> api_error" where
  "listener_not_found i = api_not_found (rstr ''server '' @ quoted i @ rstr '' not found'')"

definition listener_find :: "(pesit_server_config, 'j) codec \<Rightarrow> rstring \<Rightarrow> 'j server_manager \<Rightarrow> (api_error, pesit_server_config) result" where
  "listener_find cd i m =
     and_then (map_err api_of_store (js_get cd T_SERVERS i (sm_store m))) (ok_or (listener_not_found i))"

definition listener_list :: "(pesit_server_config, 'j) codec \<Rightarrow> 'j server_manager \<Rightarrow> (api_error, pesit_server_config list) result" where
  "listener_list cd m =
     and_then (map_err api_of_store (js_list cd T_SERVERS (sm_store m))) (\<lambda>ss.
     Inr (map (\<lambda>s. s\<lparr>ps_status := sr_status (manager_status s m)\<rparr>) ss))"

definition validate_listener :: "pesit_server_config \<Rightarrow> (api_error, unit) result" where
  "validate_listener cfg =
     (if str_trim (ps_server_id cfg) = [] then Inl (api_bad_request (rstr ''serverId is required''))
      else if ps_port cfg = 0 then Inl (api_bad_request (rstr ''port is required''))
      else if ps_max_entity_size cfg < 64 then Inl (api_bad_request (rstr ''maxEntitySize must be at least 64''))
      else if ps_sync_window cfg > 16 then Inl (api_bad_request (rstr ''syncWindow must be between 0 and 16''))
      else Inr ())"

text \<open>The checks before a listener is created.\<close>

definition listener_new_ok :: "(pesit_server_config, 'j) codec \<Rightarrow> pesit_server_config \<Rightarrow> 'j server_manager \<Rightarrow> (api_error, unit) result" where
  "listener_new_ok cd cfg m =
     and_then (validate_listener cfg) (\<lambda>_.
     and_then (map_err api_of_store (js_exists T_SERVERS (ps_server_id cfg) (sm_store m))) (\<lambda>there.
     if there then Inl (api_conflict (rstr ''server '' @ quoted (ps_server_id cfg) @ rstr '' already exists''))
     else and_then (map_err api_of_store (js_list cd T_SERVERS (sm_store m))) (\<lambda>others.
       if \<exists>x \<in> set others. ps_port x = ps_port cfg \<and> ps_bind_address x = ps_bind_address cfg
       then Inl (api_conflict (rstr ''port '' @ nat_string (unat (ps_port cfg)) @ rstr '' is already used by another server''))
       else Inr ())))"

definition listener_create :: "(pesit_server_config, 'j) codec \<Rightarrow> (audit_event, 'j) codec \<Rightarrow> manager_env \<Rightarrow> pesit_server_config \<Rightarrow>
    'j server_manager \<Rightarrow> (api_error, pesit_server_config) result \<times> 'j server_manager" where
  "listener_create cd ev env cfg m =
     (case listener_new_ok cd cfg m of
        Inl err \<Rightarrow> (Inl err, m)
      | Inr _ \<Rightarrow>
         (case js_next_counter (rstr ''server_id'') (sm_store m) of
            (Inl err, s) \<Rightarrow> (Inl (api_of_store err), sm_set_store s m)
          | (Inr n, s) \<Rightarrow>
             let cfg = cfg\<lparr>ps_id := Some n, ps_created_at := Some (mv_now_iso env), ps_updated_at := Some (mv_now_iso env), ps_status := Srv_Stopped\<rparr>
             in case js_put cd T_SERVERS (ps_server_id cfg) cfg s of
                  (Inl err, s) \<Rightarrow> (Inl (api_of_store err), sm_set_store s m)
                | (Inr _, s) \<Rightarrow>
                   let m = node_audit ev env (rstr ''listener'') (rstr ''create'') (ps_server_id cfg) (sm_set_store s m);
                       m = (if ps_auto_start cfg then snd (manager_start cd env (ps_server_id cfg) m) else m)
                   in (and_then (map_err api_of_store (js_get cd T_SERVERS (ps_server_id cfg) (sm_store m))) (\<lambda>found.
                       Inr (unwrap_or cfg found)), m)))"

definition listener_get :: "(pesit_server_config, 'j) codec \<Rightarrow> rstring \<Rightarrow> 'j server_manager \<Rightarrow> (api_error, pesit_server_config) result" where
  "listener_get cd i m =
     and_then (listener_find cd i m) (\<lambda>cfg. Inr (cfg\<lparr>ps_status := sr_status (manager_status cfg m)\<rparr>))"

definition listener_update :: "(pesit_server_config, 'j) codec \<Rightarrow> manager_env \<Rightarrow> rstring \<Rightarrow> pesit_server_config \<Rightarrow>
    'j server_manager \<Rightarrow> (api_error, pesit_server_config) result \<times> 'j server_manager" where
  "listener_update cd env i cfg m =
     (case listener_find cd i m of
        Inl err \<Rightarrow> (Inl err, m)
      | Inr existing \<Rightarrow>
         let cfg = cfg\<lparr>ps_server_id := i\<rparr>
         in case validate_listener cfg of
              Inl err \<Rightarrow> (Inl err, m)
            | Inr _ \<Rightarrow>
               let cfg = cfg\<lparr>ps_id := ps_id existing, ps_created_at := ps_created_at existing,
                     ps_last_started_at := ps_last_started_at existing, ps_last_stopped_at := ps_last_stopped_at existing,
                     ps_status := ps_status existing, ps_updated_at := Some (mv_now_iso env)\<rparr>
               in case js_put cd T_SERVERS i cfg (sm_store m) of
                    (Inl err, s) \<Rightarrow> (Inl (api_of_store err), sm_set_store s m)
                  | (Inr _, s) \<Rightarrow> (Inr cfg, sm_set_store s m))"

definition listener_delete :: "(pesit_server_config, 'j) codec \<Rightarrow> manager_env \<Rightarrow> rstring \<Rightarrow>
    'j server_manager \<Rightarrow> (api_error, unit) result \<times> 'j server_manager" where
  "listener_delete cd env i m =
     (case (if is_running i m then manager_stop cd env i m else (Inr (), m)) of
        (Inl err, m) \<Rightarrow> (Inl (api_of_manager env err), m)
      | (Inr _, m) \<Rightarrow>
         (case js_delete T_SERVERS i (sm_store m) of
            (Inl err, s) \<Rightarrow> (Inl (api_of_store err), sm_set_store s m)
          | (Inr True, s) \<Rightarrow> (Inr (), sm_set_store s m)
          | (Inr False, s) \<Rightarrow> (Inl (listener_not_found i), sm_set_store s m)))"

definition listener_start :: "(pesit_server_config, 'j) codec \<Rightarrow> manager_env \<Rightarrow> rstring \<Rightarrow> 'j server_manager \<Rightarrow> (api_error, unit) result \<times> 'j server_manager" where
  "listener_start cd env i m = apfst (map_err (api_of_manager env)) (manager_start cd env i m)"

definition listener_stop :: "(pesit_server_config, 'j) codec \<Rightarrow> manager_env \<Rightarrow> rstring \<Rightarrow> 'j server_manager \<Rightarrow> (api_error, unit) result \<times> 'j server_manager" where
  "listener_stop cd env i m = apfst (map_err (api_of_manager env)) (manager_stop cd env i m)"

definition listener_status :: "(pesit_server_config, 'j) codec \<Rightarrow> rstring \<Rightarrow> 'j server_manager \<Rightarrow> (api_error, server_status_response) result" where
  "listener_status cd i m = and_then (listener_find cd i m) (\<lambda>cfg. Inr (manager_status cfg m))"

section \<open>Transfers\<close>

record transfer_query =
  tf_limit :: "usize option"
  tf_direction :: "rstring option"
  tf_status :: "rstring option"
  tf_partner_id :: "rstring option"
  tf_server_id :: "rstring option"

definition transfer_query_default :: transfer_query where
  "transfer_query_default = \<lparr>tf_limit = None, tf_direction = None, tf_status = None, tf_partner_id = None, tf_server_id = None\<rparr>"

fun record_status_name :: "transfer_status \<Rightarrow> rstring" where
  "record_status_name Ts_Initiated = rstr ''INITIATED''"
| "record_status_name Ts_InProgress = rstr ''IN_PROGRESS''"
| "record_status_name Ts_Paused = rstr ''PAUSED''"
| "record_status_name Ts_Interrupted = rstr ''INTERRUPTED''"
| "record_status_name Ts_Completed = rstr ''COMPLETED''"
| "record_status_name Ts_Failed = rstr ''FAILED''"
| "record_status_name Ts_Cancelled = rstr ''CANCELLED''"

fun record_direction_name :: "transfer_direction \<Rightarrow> rstring" where
  "record_direction_name Td_Send = rstr ''SEND''"
| "record_direction_name Td_Receive = rstr ''RECEIVE''"
| "record_direction_name Td_Message = rstr ''MESSAGE''"

definition filter_transfers :: "transfer_query \<Rightarrow> transfer_record list \<Rightarrow> transfer_record list" where
  "filter_transfers q rs =
     take (unwrap_or 100 (tf_limit q))
       (filter (\<lambda>r. case tf_server_id q of None \<Rightarrow> True | Some s \<Rightarrow> tr_server_id r = Some s)
       (filter (\<lambda>r. case tf_partner_id q of None \<Rightarrow> True | Some p \<Rightarrow> tr_partner_id r = Some p)
       (filter (\<lambda>r. case tf_status q of None \<Rightarrow> True | Some s \<Rightarrow> record_status_name (tr_status r) = to_ascii_uppercase s)
       (filter (\<lambda>r. case tf_direction q of None \<Rightarrow> True
          | Some d \<Rightarrow> map_option record_direction_name (tr_direction r) = Some (to_ascii_uppercase d)) rs))))"

definition recent_records :: "(transfer_record, 'j) codec \<Rightarrow> 'j server_manager \<Rightarrow> (api_error, transfer_record list) result" where
  "recent_records cd m = map_err api_of_store (js_list_recent cd T_TRANSFERS 10000 (sm_store m))"

definition node_list_transfers :: "(transfer_record, 'j) codec \<Rightarrow> transfer_query \<Rightarrow> 'j server_manager \<Rightarrow> (api_error, transfer_record list) result" where
  "node_list_transfers cd q m = and_then (recent_records cd m) (\<lambda>rs. Inr (filter_transfers q rs))"

definition active_transfers :: "(transfer_record, 'j) codec \<Rightarrow> 'j server_manager \<Rightarrow> (api_error, transfer_record list) result" where
  "active_transfers cd m =
     and_then (recent_records cd m) (\<lambda>rs. Inr (filter (\<lambda>r. tr_status r \<in> {Ts_Initiated, Ts_InProgress, Ts_Paused}) rs))"

definition transfers_by_partner :: "(transfer_record, 'j) codec \<Rightarrow> rstring \<Rightarrow> 'j server_manager \<Rightarrow> (api_error, transfer_record list) result" where
  "transfers_by_partner cd p m = node_list_transfers cd (transfer_query_default\<lparr>tf_partner_id := Some p\<rparr>) m"

definition transfers_by_status :: "(transfer_record, 'j) codec \<Rightarrow> rstring \<Rightarrow> 'j server_manager \<Rightarrow> (api_error, transfer_record list) result" where
  "transfers_by_status cd s m = node_list_transfers cd (transfer_query_default\<lparr>tf_status := Some s\<rparr>) m"

definition node_get_transfer :: "(transfer_record, 'j) codec \<Rightarrow> rstring \<Rightarrow> 'j server_manager \<Rightarrow> (api_error, transfer_record) result" where
  "node_get_transfer cd i m =
     and_then (map_err api_of_store (js_get cd T_TRANSFERS i (sm_store m)))
       (ok_or (api_not_found (rstr ''transfer '' @ quoted i @ rstr '' not found'')))"

definition cancel_transfer :: "(transfer_record, 'j) codec \<Rightarrow> (transfer_status \<Rightarrow> rstring) \<Rightarrow> bool \<Rightarrow> rstring \<Rightarrow>
    'j server_manager \<Rightarrow> (api_error, unit) result \<times> 'j server_manager" where
  \<comment> \<open>\<open>listening\<close>: the data phase of the transfer has subscribed to its flag; \<open>debug\<close> gives the name of a status\<close>
  "cancel_transfer cd debug listening i m =
     (case node_get_transfer cd i m of
        Inl err \<Rightarrow> (Inl err, m)
      | Inr r \<Rightarrow>
         if sm_cancels m i \<noteq> None \<and> listening then (Inr (), m\<lparr>sm_cancels := (sm_cancels m)(i \<mapsto> True)\<rparr>)
         else (Inl (api_conflict (rstr ''transfer '' @ quoted i @ rstr '' is not in progress (status '' @ debug (tr_status r) @ rstr '')'')), m))"

record record_totals =
  rt_total :: nat
  rt_completed :: nat
  rt_failed :: nat
  rt_in_progress :: nat
  rt_interrupted :: nat
  rt_cancelled :: nat
  rt_bytes_transferred :: u64

definition transfer_stats :: "(transfer_record, 'j) codec \<Rightarrow> 'j server_manager \<Rightarrow> (api_error, record_totals) result" where
  \<comment> \<open>the sum wraps around\<close>
  "transfer_stats cd m =
     and_then (map_err api_of_store (js_list cd T_TRANSFERS (sm_store m))) (\<lambda>rs.
     let count = (\<lambda>s. length (filter (\<lambda>r. tr_status r = s) rs))
     in Inr \<lparr>rt_total = length rs, rt_completed = count Ts_Completed, rt_failed = count Ts_Failed,
          rt_in_progress = count Ts_InProgress + count Ts_Initiated, rt_interrupted = count Ts_Interrupted,
          rt_cancelled = count Ts_Cancelled,
          rt_bytes_transferred = sum_list (map tr_bytes_transferred (filter (\<lambda>r. tr_status r = Ts_Completed) rs))\<rparr>)"

section \<open>Restoring a backup\<close>

text \<open>
  The bundle of a backup (\<^verbatim>\<open>backup.rs\<close>): the result of verifying its signature, its tables (\<open>None\<close> for a value that is not an
  array, no tables when the bundle has none), and the result of importing its certificate material, which succeeds when there is none.
\<close>

record 'j backup_bundle =
  bd_verify :: "(rstring, unit) result"
  bd_tables :: "(rstring \<times> 'j list option) list"
  bd_import :: "(rstring, unit) result"

definition restore_event :: "manager_env \<Rightarrow> nat \<Rightarrow> audit_event" where
  "restore_event env restored =
     \<lparr>ae_id = mv_uuid env, ae_timestamp = mv_now_iso env, ae_category = rstr ''system'', ae_action = rstr ''restore'',
      ae_target = None, ae_actor = None, ae_detail = Some (nat_string restored @ rstr '' records''), ae_outcome = Out_Success\<rparr>"

definition backup_restore :: "(audit_event, 'j) codec \<Rightarrow> (rstring \<Rightarrow> 'j \<Rightarrow> rstring option) \<Rightarrow> manager_env \<Rightarrow> 'j backup_bundle \<Rightarrow>
    'j server_manager \<Rightarrow> (api_error, nat) result \<times> 'j server_manager" where
  \<comment> \<open>nothing is published\<close>
  "backup_restore ev field env bundle m =
     (case bd_verify bundle of
        Inl e \<Rightarrow> (Inl (api_bad_request (rstr ''backup rejected: '' @ e)), m)
      | Inr _ \<Rightarrow>
         (case apply_tables field (bd_tables bundle) (sm_store m) of
            (Inl err, s) \<Rightarrow> (Inl err, sm_set_store s m)
          | (Inr restored, s) \<Rightarrow>
             let m = sm_set_store s m
             in case bd_import bundle of
                  Inl e \<Rightarrow> (Inl (api_internal e), m)
                | Inr _ \<Rightarrow> (Inr restored, m\<lparr>sm_audit := audit_record ev (restore_event env restored) (sm_audit m)\<rparr>)))"

end
