(* ===== verification/Node_Api_Props.thy ===== *)
theory Node_Api_Props
  imports Node_Api
begin

text \<open>
  What the API of the node guarantees: what it changes in the replicated tables it publishes, so that the
  other nodes follow; and the stored status of a listener tells whether it runs.
\<close>

section \<open>Replicated changes\<close>

lemma replicas_cong:
  assumes "\<And>table. table \<in> set CLUSTER_TABLES \<Longrightarrow> js_tables s' table = js_tables s table"
  shows "replicas s' t \<longleftrightarrow> replicas s t"
proof -
  have "table \<in> set CLUSTER_TABLES \<Longrightarrow> docs table s' = docs table s" for table using assms by (intro js_doc_cong)
  then show ?thesis using assms by (auto simp: replicas_def)
qed

lemma other_tables: "C_TRANSFERS \<notin> set CLUSTER_TABLES" "AUDIT_TABLE \<notin> set CLUSTER_TABLES" "SCHEDULES \<in> set CLUSTER_TABLES"
  by (simp_all add: CLUSTER_TABLES_def C_TRANSFERS_def AUDIT_TABLE_def SCHEDULES_def rstr_def)

lemma audit_replicas: "replicas (al_store (audit_record cd ev a)) t \<longleftrightarrow> replicas (al_store a) t"
  by (rule replicas_cong) (metis audit_record_other other_tables(2))

lemma put_is_change: "js_put cd table key x s = js_put raw_codec table key (cd_to cd x) s"
  by (cases "js_rows table s") (simp_all add: js_put_def raw_codec_def)

text \<open>A put or a deletion and the change that is published for it.\<close>

lemma put_published:
  assumes "replicas s t" "origin \<noteq> node_id"
  shows "replicas (snd (js_put cd table key x s))
    (fold (on_config_message node_id) (cluster_publish (Some origin) (rstr ''put'') table key (Some (cd_to cd x))) t)"
  using replicas_step [OF assms, of "Cf_Put table key (cd_to cd x)"] by (simp add: put_is_change [of cd])

lemma delete_published:
  assumes "replicas s t" "origin \<noteq> node_id"
  shows "replicas (snd (js_delete table key s)) (fold (on_config_message node_id) (cluster_publish (Some origin) (rstr ''delete'') table key None) t)"
  using replicas_step [OF assms, of "Cf_Delete table key"] by simp

lemma failed_put: "js_put cd table key x s = (Inl err, s') \<Longrightarrow> s' = s"
  by (auto simp: js_put_def split: sum.splits)

lemma failed_delete: "js_delete table key s = (Inl err, s') \<Longrightarrow> s' = s"
  by (auto simp: js_delete_def split: sum.splits)

lemma delete_nothing:
  assumes "js_delete table key s = (Inr False, s')"
  shows "replicas s' t \<longleftrightarrow> replicas s t"
proof -
  from assms obtain rows where rows: "js_tables s table = Some rows" "length (tb_delete key rows) \<ge> length rows" "s' = js_set table (tb_delete key rows) s"
    by (auto simp: js_delete_def js_rows_def ok_or_def split: option.splits)
  then have "tb_delete key rows = rows" by (metis filter_True length_filter_less linorder_not_less tb_delete_def)
  then show ?thesis using rows by (intro replicas_cong) (auto simp: js_set_def)
qed

definition follows :: "rstring \<Rightarrow> 'j json_store \<Rightarrow> 'j config_change list \<Rightarrow> 'j json_store \<Rightarrow> bool" where
  \<comment> \<open>the store and a peer that receives the changes\<close>
  "follows node_id s ms t \<longleftrightarrow> replicas s (fold (on_config_message node_id) ms t)"

lemma entity_save_follows:
  assumes "replicas (sm_store m) t" "origin \<noteq> node_id" "entity_save cd et (Some origin) key x m = (r, m', ms)"
  shows "follows node_id (sm_store m') ms t"
  using assms put_published [OF assms(1,2), of cd "et_table et" key x]
  by (auto simp: entity_save_def follows_def sm_set_store_def dest: failed_put split: prod.splits sum.splits)

lemma entity_create_follows:
  assumes "replicas (sm_store m) t" "origin \<noteq> node_id" "entity_create cd ev et env (Some origin) x m = (r, m', ms)"
  shows "follows node_id (sm_store m') ms t"
  using assms entity_save_follows [OF assms(1,2), of cd et]
  by (auto simp: entity_create_def follows_def Let_def node_audit_def audit_success_def audit_replicas split: prod.splits sum.splits bool.splits)

lemma entity_update_follows:
  assumes "replicas (sm_store m) t" "origin \<noteq> node_id" "entity_update cd et env (Some origin) i x m = (r, m', ms)"
  shows "follows node_id (sm_store m') ms t"
  using assms entity_save_follows [OF assms(1,2), of cd et]
  by (auto simp: entity_update_def follows_def Let_def split: sum.splits)

lemma entity_delete_follows:
  assumes "replicas (sm_store m) t" "origin \<noteq> node_id" "entity_delete ev et env (Some origin) i m = (r, m', ms)"
  shows "follows node_id (sm_store m') ms t"
  using assms delete_published [OF assms(1,2), of "et_table et" i]
  by (auto simp: entity_delete_def follows_def sm_set_store_def node_audit_def audit_success_def audit_replicas
      dest: failed_delete delete_nothing split: prod.splits sum.splits bool.splits)

section \<open>Replicated schedules\<close>

lemma ensure_replicas: "replicas s t \<Longrightarrow> replicas (snd (js_ensure_table SCHEDULES s)) t"
  using other_tables(3) by (cases "js_tables s SCHEDULES") (auto simp: js_ensure_table_def replicas_def)

lemma set_store_store [simp]: "en_store (set_store s e) = s"
  by (simp add: set_store_def)

lemma schedule_save_follows:
  assumes "replicas (en_store e) t" "origin \<noteq> node_id" "schedule_save sc (Some origin) key s e = (r, e', ms)"
  shows "follows node_id (en_store e') ms t"
  using assms put_published [OF assms(1,2), of sc SCHEDULES key s]
  by (auto simp: schedule_save_def schedule_put_def follows_def apsnd_def map_prod_def dest: failed_put split: prod.splits sum.splits)

lemma schedule_create_follows:
  assumes "replicas (en_store e) t" "origin \<noteq> node_id" "schedule_create ds sc cron env now (Some origin) s e = (r, e', ms)"
  shows "follows node_id (en_store e') ms t"
proof -
  let ?e = "set_store (snd (js_ensure_table SCHEDULES (en_store e))) e"
  have "replicas (en_store ?e) t" using ensure_replicas [OF assms(1)] by simp
  note save = schedule_save_follows [OF this assms(2), of sc]
  show ?thesis using assms(1,3) save
    by (auto simp: schedule_create_def follows_def Let_def schedule_audit_def audit_success_def audit_replicas split: prod.splits sum.splits if_splits)
qed

lemma schedule_update_follows:
  assumes "replicas (en_store e) t" "origin \<noteq> node_id" "schedule_update sc cron env now (Some origin) i s e = (r, e', ms)"
  shows "follows node_id (en_store e') ms t"
  using assms schedule_save_follows [OF assms(1,2), of sc]
  by (auto simp: schedule_update_def follows_def Let_def split: sum.splits if_splits)

lemma schedule_delete_follows:
  assumes "replicas (en_store e) t" "origin \<noteq> node_id" "schedule_delete ds env (Some origin) i e = (r, e', ms)"
  shows "follows node_id (en_store e') ms t"
  using assms delete_published [OF assms(1,2), of SCHEDULES i]
  by (auto simp: schedule_delete_def follows_def schedule_audit_def audit_success_def audit_replicas
      dest: failed_delete delete_nothing split: prod.splits sum.splits bool.splits)

lemma tick_one_follows:
  assumes "follows node_id (en_store (tk_engine k)) (tk_published k) t" "origin \<noteq> node_id"
  shows "follows node_id (en_store (tk_engine (tick_one ds sc cron envs (Some (origin, ids)) now s k)))
    (tk_published (tick_one ds sc cron envs (Some (origin, ids)) now s k)) t"
proof (cases "fires (Some (origin, ids)) now s")
  case True
  let ?env = "envs (tk_count k)"
  obtain outcome jobs e where tr: "trigger ds ?env s (tk_engine k) = (outcome, jobs, e)" by (metis prod_cases3)
  let ?e = "e\<lparr>en_audit := audit_record (ds_event ds) (fire_event ?env s outcome) (en_audit e)\<rparr>"
  let ?s = "fired_schedule cron ?env now outcome s"
  let ?t = "fold (on_config_message node_id) (tk_published k) t"
  have "replicas (en_store e) ?t \<longleftrightarrow> replicas (en_store (tk_engine k)) ?t"
    by (rule replicas_cong) (metis trigger_keeps_table [OF tr] other_tables(1))
  then have "replicas (en_store ?e) ?t" using assms(1) by (simp add: audit_replicas follows_def)
  from put_published [OF this assms(2), of sc SCHEDULES "sj_id ?s" ?s] True tr show ?thesis
    by (simp add: tick_one_def Let_def follows_def schedule_put_def cluster_publish_def other_tables)
qed (use assms in \<open>simp add: tick_one_def\<close>)

lemma tick_follows:
  assumes "replicas (en_store e) t" "origin \<noteq> node_id"
  shows "follows node_id (en_store (tk_engine (tick ds sc cron envs (Some (origin, ids)) now e)))
    (tk_published (tick ds sc cron envs (Some (origin, ids)) now e)) t"
proof -
  have "follows node_id (en_store (tk_engine (fold (tick_one ds sc cron envs (Some (origin, ids)) now) ss k)))
      (tk_published (fold (tick_one ds sc cron envs (Some (origin, ids)) now) ss k)) t"
    if "follows node_id (en_store (tk_engine k)) (tk_published k) t" for ss k
    using that by (induction ss arbitrary: k) (simp_all add: tick_one_follows [OF _ assms(2)])
  then show ?thesis using assms(1) by (simp add: tick_def follows_def)
qed

section \<open>Changes that are not published\<close>

lemma doc_of_docs: "js_doc cd table s key = Option.bind (docs table s key) (cd_from cd)"
  by (simp add: js_doc_alt raw_codec_def split: bind_split)

text \<open>The store and a peer agree in the replicated tables except for some keys.\<close>

definition replicas_except :: "(rstring \<times> rstring) set \<Rightarrow> 'j json_store \<Rightarrow> 'j json_store \<Rightarrow> bool" where
  "replicas_except K s t \<longleftrightarrow> (\<forall>table\<in>set CLUSTER_TABLES. js_tables s table \<noteq> None \<and>
     (\<forall>key. (table, key) \<notin> K \<longrightarrow> docs table s key = docs table t key))"

lemma replicas_exceptI:
  assumes "replicas s t" "\<And>table. table \<in> set CLUSTER_TABLES \<Longrightarrow> js_tables s table \<noteq> None \<Longrightarrow> js_tables s' table \<noteq> None"
    "\<And>table key. table \<in> set CLUSTER_TABLES \<Longrightarrow> (table, key) \<notin> K \<Longrightarrow> docs table s' key = docs table s key"
  shows "replicas_except K s' t"
  using assms by (auto simp: replicas_except_def replicas_def)

text \<open>The keys a restore writes.\<close>

definition restored_keys :: "(rstring \<Rightarrow> 'j \<Rightarrow> rstring option) \<Rightarrow> (rstring \<times> 'j list option) list \<Rightarrow> (rstring \<times> rstring) set" where
  "restored_keys field tables =
     {(table, key). \<exists>rows item. (table, Some rows) \<in> set tables \<and> item \<in> set rows \<and> backup_key field table item = Some key}"

lemma apply_rows_frame:
  assumes "key \<notin> {k. \<exists>item\<in>set items. backup_key field table item = Some k} \<or> table' \<noteq> table"
  shows "docs table' (snd (apply_rows field table items n s)) key = docs table' s key \<and>
    (js_has table'' s \<longrightarrow> js_has table'' (snd (apply_rows field table items n s))) \<and>
    (js_tables s table'' \<noteq> None \<longrightarrow> js_tables (snd (apply_rows field table items n s)) table'' \<noteq> None)"
  using assms
proof (induction items arbitrary: n s)
  case (Cons item items)
  then have IH: "docs table' (snd (apply_rows field table items n s)) key = docs table' s key \<and>
    (js_has table'' s \<longrightarrow> js_has table'' (snd (apply_rows field table items n s))) \<and>
    (js_tables s table'' \<noteq> None \<longrightarrow> js_tables (snd (apply_rows field table items n s)) table'' \<noteq> None)" for n s
    by (intro Cons.IH) auto
  show ?case
  proof (cases "backup_key field table item")
    case (Some k)
    obtain r s1 where put: "js_put raw_codec table k item s = (r, s1)" by force
    have tables: "js_tables s1 table'' \<noteq> None \<longleftrightarrow> js_tables s table'' \<noteq> None"
      using js_tables_kept(1) [of raw_codec table k item s table''] put by simp
    have has: "js_has table'' s \<Longrightarrow> js_has table'' s1" using js_has_kept(1) [of table'' s raw_codec table k item] put by simp
    have "docs table' s1 key = docs table' s key"
    proof (cases "table' = table")
      case True
      then have "key \<noteq> k" using Cons.prems Some by auto
      then show ?thesis using docs_put [of s table k item] failed_put [of raw_codec table k item s] put True
        by (cases "js_tables s table") (auto simp: js_put_def js_rows_def ok_or_def)
    qed (use docs_other [of table' table k item s] put in simp)
    with IH [of "n + 1" s1] tables has put Some show ?thesis by (cases r) auto
  qed (use IH in simp)
qed simp

lemma apply_loop_frame:
  assumes "(table, key) \<notin> restored_keys field tables"
  shows "docs table (snd (apply_loop field tables n s)) key = docs table s key \<and>
    (js_has table'' s \<longrightarrow> js_has table'' (snd (apply_loop field tables n s))) \<and>
    (js_tables s table'' \<noteq> None \<longrightarrow> js_tables (snd (apply_loop field tables n s)) table'' \<noteq> None)"
  using assms
proof (induction field tables n s rule: apply_loop.induct)
  case (2 field t rows tables n s)
  let ?s = "snd (js_ensure_table t s)"
  have rest: "(table, key) \<notin> restored_keys field tables" using 2(4) by (fastforce simp: restored_keys_def)
  have ensure: "docs table ?s = docs table s" "js_has table'' s \<Longrightarrow> js_has table'' ?s" "js_tables s table'' \<noteq> None \<Longrightarrow> js_tables ?s table'' \<noteq> None"
    by (simp_all) (auto simp: js_ensure_table_def js_has_def js_set_def split: option.splits)
  show ?case
  proof (cases "t \<in> set CONFIG_TABLES")
    case True
    show ?thesis
    proof (cases rows)
      case None
      with 2(2) [of ?s] True rest ensure show ?thesis by (simp add: Let_def)
    next
      case (Some items)
      have "key \<notin> {k. \<exists>item\<in>set items. backup_key field t item = Some k} \<or> table \<noteq> t"
        using 2(4) Some by (auto simp: restored_keys_def)
      note frame = apply_rows_frame [OF this, where n = n and s = ?s and table'' = table'']
      obtain r s1 where rows: "apply_rows field t items n ?s = (r, s1)" by force
      show ?thesis
      proof (cases r)
        case (Inr n1)
        from 2(3) [of ?s items, OF _ _ Some rows [symmetric] Inr] True rest
        have "docs table (snd (apply_loop field tables n1 s1)) key = docs table s1 key \<and>
          (js_has table'' s1 \<longrightarrow> js_has table'' (snd (apply_loop field tables n1 s1))) \<and>
          (js_tables s1 table'' \<noteq> None \<longrightarrow> js_tables (snd (apply_loop field tables n1 s1)) table'' \<noteq> None)" by auto
        with frame ensure rows True Some Inr show ?thesis by (simp add: Let_def)
      qed (use frame ensure rows True Some in \<open>simp add: Let_def\<close>)
    qed
  qed (use 2(1) rest in simp)
qed simp

lemma backup_restore_frame:
  assumes "table \<noteq> AUDIT_TABLE"
  shows "(table, key) \<notin> restored_keys field (bd_tables bk) \<Longrightarrow>
      docs table (sm_store (snd (backup_restore ev field env bk m))) key = docs table (sm_store m) key"
    and "js_has table (sm_store m) \<Longrightarrow> js_has table (sm_store (snd (backup_restore ev field env bk m)))"
    and "js_tables (sm_store m) table \<noteq> None \<Longrightarrow> js_tables (sm_store (snd (backup_restore ev field env bk m))) table \<noteq> None"
    and "sm_running (snd (backup_restore ev field env bk m)) = sm_running m"
proof -
  let ?s = "snd (apply_loop field (bd_tables bk) 0 (sm_store m))"
  have "js_tables (sm_store (snd (backup_restore ev field env bk m))) table \<in> {js_tables (sm_store m) table, js_tables ?s table}"
    by (cases "apply_loop field (bd_tables bk) 0 (sm_store m)")
      (auto simp: backup_restore_def apply_tables_def Let_def sm_set_store_def map_err_def audit_record_other [OF assms] split: sum.splits)
  then have or: "js_tables (sm_store (snd (backup_restore ev field env bk m))) table = js_tables (sm_store m) table \<or>
      js_tables (sm_store (snd (backup_restore ev field env bk m))) table = js_tables ?s table" by blast
  have unused: "\<exists>k. (table, k) \<notin> restored_keys field (bd_tables bk)"
  proof -
    have "{k. (table, k) \<in> restored_keys field (bd_tables bk)} \<subseteq>
        (\<Union>(t, rows)\<in>set (bd_tables bk). case rows of None \<Rightarrow> {} | Some items \<Rightarrow> set (List.map_filter (backup_key field table) items))"
      by (force simp: restored_keys_def map_filter_def image_iff)
    then have "finite {k. (table, k) \<in> restored_keys field (bd_tables bk)}" by (rule finite_subset) (auto split: option.split)
    then show ?thesis using ex_new_if_finite [OF infinite_UNIV_listI] by blast
  qed
  show "docs table (sm_store (snd (backup_restore ev field env bk m))) key = docs table (sm_store m) key"
    if "(table, key) \<notin> restored_keys field (bd_tables bk)"
    using or apply_loop_frame [OF that, of 0 "sm_store m" table] js_doc_cong [of _ table] by metis
  show "js_has table (sm_store (snd (backup_restore ev field env bk m)))" if "js_has table (sm_store m)"
    using or unused that apply_loop_frame [of table _ field "bd_tables bk" 0 "sm_store m" table] js_has_cong by metis
  show "js_tables (sm_store (snd (backup_restore ev field env bk m))) table \<noteq> None" if "js_tables (sm_store m) table \<noteq> None"
    using or unused that apply_loop_frame [of table _ field "bd_tables bk" 0 "sm_store m" table] by metis
  show "sm_running (snd (backup_restore ev field env bk m)) = sm_running m"
    by (auto simp: backup_restore_def Let_def sm_set_store_def split: sum.split prod.split)
qed

text \<open>A schedule that is run on request changes the last run and status of its stored record, if anything, and publishes nothing.\<close>

lemma run_now_outcome:
  assumes run: "schedule_run_now ds sc env i e = (r, e')" and ok: "codec_ok sc" and there: "js_tables (en_store e) SCHEDULES \<noteq> None"
  shows "(\<forall>table\<in>set CLUSTER_TABLES. js_tables (en_store e') table \<noteq> None \<longleftrightarrow> js_tables (en_store e) table \<noteq> None) \<and>
    (\<forall>table\<in>set CLUSTER_TABLES. \<forall>key. (table, key) \<noteq> (SCHEDULES, i) \<longrightarrow> docs table (en_store e') key = docs table (en_store e) key) \<and>
    (\<forall>outcome jobs. r = Inr (outcome, jobs) \<longrightarrow> (\<exists>s. js_doc sc SCHEDULES (en_store e) i = Some s \<and>
      js_doc sc SCHEDULES (en_store e') i = Some (s\<lparr>sj_last_run := Some (ne_now_iso env), sj_last_status := Some outcome\<rparr>)))"
proof (cases "schedule_get sc i e")
  case (Inl err)
  then show ?thesis using run by (auto simp: schedule_run_now_def)
next
  case (Inr s)
  obtain outcome jobs e1 where tr: "trigger ds env s e = (outcome, jobs, e1)" by (metis prod_cases3)
  let ?s = "s\<lparr>sj_last_run := Some (ne_now_iso env), sj_last_status := Some outcome\<rparr>"
  have kept: "js_tables (en_store e1) table = js_tables (en_store e) table" if "table \<in> set CLUSTER_TABLES" for table
    using trigger_keeps_table [OF tr] other_tables(1) that by metis
  have there1: "js_tables (en_store e1) SCHEDULES \<noteq> None" using there kept [OF other_tables(3)] by simp
  obtain st where put: "js_put sc SCHEDULES i ?s (en_store e1) = (Inr (), st)"
    using js_put_result [of sc SCHEDULES i ?s "en_store e1"] there1 by (cases "js_put sc SCHEDULES i ?s (en_store e1)") auto
  have e': "r = Inr (outcome, jobs)" "e' = schedule_audit ds env (rstr ''run'') (sj_name s) (set_store st e1)"
    using run Inr tr put by (simp_all add: schedule_run_now_def schedule_put_def)
  have tables: "js_tables (en_store e') table = js_tables st table" if "table \<in> set CLUSTER_TABLES" for table
  proof -
    have "table \<noteq> AUDIT_TABLE" using other_tables(2) that by blast
    then show ?thesis by (simp add: e'(2) schedule_audit_def audit_success_def audit_record_other)
  qed
  have raw: "js_put raw_codec SCHEDULES i (cd_to sc ?s) (en_store e1) = (Inr (), st)" using put by (simp add: put_is_change [of sc])
  have "docs table (en_store e') key = docs table (en_store e) key" if "table \<in> set CLUSTER_TABLES" "(table, key) \<noteq> (SCHEDULES, i)" for table key
  proof -
    have "docs table (en_store e') = docs table st" using tables [OF that(1)] by (rule js_doc_cong)
    moreover have "docs table st key = docs table (en_store e1) key"
      using raw docs_put [OF there1, of i "cd_to sc ?s"] docs_other [of table SCHEDULES i "cd_to sc ?s" "en_store e1"] that(2)
      by (cases "table = SCHEDULES") auto
    moreover have "docs table (en_store e1) = docs table (en_store e)" using kept [OF that(1)] by (rule js_doc_cong)
    ultimately show ?thesis by simp
  qed
  moreover have "js_tables (en_store e') table \<noteq> None \<longleftrightarrow> js_tables (en_store e) table \<noteq> None" if "table \<in> set CLUSTER_TABLES" for table
    using tables [OF that] kept [OF that] js_tables_kept(1) [of sc SCHEDULES i ?s "en_store e1" table] put by simp
  moreover have "js_doc sc SCHEDULES (en_store e) i = Some s"
    using Inr by (auto simp: schedule_get_def js_doc_def and_then_def map_err_def ok_or_def split: sum.splits option.splits)
  moreover have "js_doc sc SCHEDULES (en_store e') i = Some ?s"
    using js_doc_put [OF ok there1, of i ?s] put js_doc_cong [of "en_store e'" SCHEDULES st sc, OF tables [OF other_tables(3)]] by simp
  ultimately show ?thesis using e'(1) by simp
qed

lemma run_now_replicas:
  assumes rep: "replicas (en_store e) t" and ok: "codec_ok sc" and run: "schedule_run_now ds sc env i e = (r, e')"
  shows "replicas_except {(SCHEDULES, i)} (en_store e') t"
    and "r = Inr (outcome, jobs) \<Longrightarrow> \<exists>s. js_doc sc SCHEDULES t i = Some s \<and>
      js_doc sc SCHEDULES (en_store e') i = Some (s\<lparr>sj_last_run := Some (ne_now_iso env), sj_last_status := Some outcome\<rparr>)"
proof -
  have there: "js_tables (en_store e) SCHEDULES \<noteq> None" and same: "docs SCHEDULES (en_store e) = docs SCHEDULES t"
    using rep other_tables(3) by (simp_all add: replicas_def)
  note outcome = run_now_outcome [OF run ok there]
  show "replicas_except {(SCHEDULES, i)} (en_store e') t" using rep
  proof (rule replicas_exceptI)
    fix table key assume table: "table \<in> set CLUSTER_TABLES"
    show "js_tables (en_store e) table \<noteq> None \<Longrightarrow> js_tables (en_store e') table \<noteq> None"
      using outcome [THEN conjunct1] table by simp
    show "(table, key) \<notin> {(SCHEDULES, i)} \<Longrightarrow> docs table (en_store e') key = docs table (en_store e) key"
      using outcome [THEN conjunct2, THEN conjunct1] table by blast
  qed
  have "js_doc sc SCHEDULES (en_store e) i = js_doc sc SCHEDULES t i" by (simp only: doc_of_docs [of sc] same)
  note settled = outcome [THEN conjunct2, THEN conjunct2, unfolded this]
  show "\<exists>s. js_doc sc SCHEDULES t i = Some s \<and>
      js_doc sc SCHEDULES (en_store e') i = Some (s\<lparr>sj_last_run := Some (ne_now_iso env), sj_last_status := Some outcome\<rparr>)"
    if "r = Inr (outcome, jobs)"
    using settled that by blast
qed

lemma restore_replicas:
  assumes "replicas (sm_store m) t" "backup_restore ev field env bk m = (r, m')"
  shows "replicas_except (restored_keys field (bd_tables bk)) (sm_store m') t"
  using assms(1)
proof (rule replicas_exceptI)
  fix table key assume "table \<in> set CLUSTER_TABLES"
  then have "table \<noteq> AUDIT_TABLE" using other_tables(2) by blast
  note frame = backup_restore_frame [OF this, where field = field and bk = bk and ev = ev and env = env and m = m]
  show "js_tables (sm_store m) table \<noteq> None \<Longrightarrow> js_tables (sm_store m') table \<noteq> None" using frame(3) assms(2) by simp
  show "(table, key) \<notin> restored_keys field (bd_tables bk) \<Longrightarrow> docs table (sm_store m') key = docs table (sm_store m) key"
    using frame(1) assms(2) by simp
qed

text \<open>C24: What a node changes in its replicated tables it publishes, with two exceptions. Whatever the API of a node of a cluster does with partners,
  virtual files, remote partners, connectors and schedules by creating, updating and deleting them, accepted or not, and whatever the tick of
  its schedules fires, a peer that held the same replicated documents holds the same ones again when it has received
  the changes published. The exceptions publish nothing: running a schedule on request, after which the peer differs at most in
  the record of that schedule, by its last run and status; and restoring a backup, after which it
  differs at most in the rows of the bundle.\<close>

theorem api_changes_replicate:
  assumes "origin \<noteq> node_id"
  shows "(replicas (sm_store m) t \<longrightarrow>
      (\<forall>r m' ms. (\<exists>x. entity_create cd ev et env (Some origin) x m = (r, m', ms)) \<or>
          (\<exists>i x. entity_update cd et env (Some origin) i x m = (r, m', ms)) \<longrightarrow> follows node_id (sm_store m') ms t) \<and>
      (\<forall>i r m' ms. entity_delete ev et env (Some origin) i m = (r, m', ms) \<longrightarrow> follows node_id (sm_store m') ms t) \<and>
      (\<forall>bk r m'. backup_restore ev field env bk m = (r, m') \<longrightarrow>
        replicas_except (restored_keys field (bd_tables bk)) (sm_store m') t)) \<and>
    (replicas (en_store e) t \<longrightarrow>
      (\<forall>r e' ms. (\<exists>s. schedule_create ds sc cron cenv now (Some origin) s e = (r, e', ms)) \<or>
          (\<exists>i s. schedule_update sc cron cenv now (Some origin) i s e = (r, e', ms)) \<longrightarrow> follows node_id (en_store e') ms t) \<and>
      (\<forall>i r e' ms. schedule_delete ds cenv (Some origin) i e = (r, e', ms) \<longrightarrow> follows node_id (en_store e') ms t) \<and>
      (let k = tick ds sc cron envs (Some (origin, ids)) now e in follows node_id (en_store (tk_engine k)) (tk_published k) t) \<and>
      (\<forall>i r e'. codec_ok sc \<longrightarrow> schedule_run_now ds sc cenv i e = (r, e') \<longrightarrow>
        replicas_except {(SCHEDULES, i)} (en_store e') t \<and>
        (\<forall>outcome jobs. r = Inr (outcome, jobs) \<longrightarrow> (\<exists>s. js_doc sc SCHEDULES t i = Some s \<and>
          js_doc sc SCHEDULES (en_store e') i = Some (s\<lparr>sj_last_run := Some (ne_now_iso cenv), sj_last_status := Some outcome\<rparr>)))))"
proof (intro conjI impI allI)
  show "follows node_id (sm_store m') ms t"
    if "replicas (sm_store m) t" "(\<exists>x. entity_create cd ev et env (Some origin) x m = (r, m', ms)) \<or>
      (\<exists>i x. entity_update cd et env (Some origin) i x m = (r, m', ms))" for r m' ms
    using that(2) entity_create_follows [OF that(1) assms, where cd = cd and ev = ev and et = et and env = env]
      entity_update_follows [OF that(1) assms, where cd = cd and et = et and env = env] by blast
  show "follows node_id (sm_store m') ms t"
    if "replicas (sm_store m) t" "entity_delete ev et env (Some origin) i m = (r, m', ms)" for i r m' ms
    by (rule entity_delete_follows [OF that(1) assms that(2)])
  show "replicas_except (restored_keys field (bd_tables bk)) (sm_store m') t"
    if "replicas (sm_store m) t" "backup_restore ev field env bk m = (r, m')" for bk r m'
    by (rule restore_replicas [OF that])
  show "follows node_id (en_store e') ms t"
    if "replicas (en_store e) t" "(\<exists>s. schedule_create ds sc cron cenv now (Some origin) s e = (r, e', ms)) \<or>
      (\<exists>i s. schedule_update sc cron cenv now (Some origin) i s e = (r, e', ms))" for r e' ms
    using that(2) schedule_create_follows [OF that(1) assms] schedule_update_follows [OF that(1) assms] by blast
  show "follows node_id (en_store e') ms t"
    if "replicas (en_store e) t" "schedule_delete ds cenv (Some origin) i e = (r, e', ms)" for i r e' ms
    by (rule schedule_delete_follows [OF that(1) assms that(2)])
  show "let k = tick ds sc cron envs (Some (origin, ids)) now e in follows node_id (en_store (tk_engine k)) (tk_published k) t"
    if "replicas (en_store e) t"
    using tick_follows [OF that assms] by (simp add: Let_def)
  show "replicas_except {(SCHEDULES, i)} (en_store e') t"
    if "replicas (en_store e) t" "codec_ok sc" "schedule_run_now ds sc cenv i e = (r, e')" for i r e'
    by (rule run_now_replicas(1) [OF that])
  show "\<exists>s. js_doc sc SCHEDULES t i = Some s \<and>
      js_doc sc SCHEDULES (en_store e') i = Some (s\<lparr>sj_last_run := Some (ne_now_iso cenv), sj_last_status := Some outcome\<rparr>)"
    if "replicas (en_store e) t" "codec_ok sc" "schedule_run_now ds sc cenv i e = (r, e')" "r = Inr (outcome, jobs)" for i r e' outcome jobs
    by (rule run_now_replicas(2) [OF that])
qed

theorem api_changes_replicate_witness:
  "\<forall>cd ev env x st. let m = manager_new \<lparr>al_store = sample_config_store, al_max_entries = 0, al_writes = 0\<rparr> st in
    case entity_create cd ev partner_entity env (Some [65]) x m of (r, m', ms) \<Rightarrow> follows [66] (sm_store m') ms sample_config_store"
proof (intro allI)
  fix cd :: "(partner, rstring) codec" and ev env x st
  let ?m = "manager_new \<lparr>al_store = sample_config_store, al_max_entries = 0, al_writes = 0\<rparr> st"
  have "replicas (sm_store ?m) sample_config_store"
    by (simp add: replicas_def manager_new_def sample_config_store_def CLUSTER_TABLES_def js_set_def rstr_def)
  moreover have "[65 :: nat] \<noteq> [66]" by simp
  ultimately have f: "\<And>r m' ms. entity_create cd ev partner_entity env (Some [65]) x ?m = (r, m', ms) \<Longrightarrow> follows [66] (sm_store m') ms sample_config_store"
    using conjunct1 [OF api_changes_replicate [of "[65]" "[66]"], of ?m sample_config_store cd ev partner_entity env] by fast
  obtain r m' ms where "entity_create cd ev partner_entity env (Some [65]) x ?m = (r, m', ms)" by (metis prod_cases3)
  with f show "let m = ?m in case entity_create cd ev partner_entity env (Some [65]) x m of (r, m', ms) \<Rightarrow> follows [66] (sm_store m') ms sample_config_store"
    by (simp add: Let_def)
qed

section \<open>The status of listeners\<close>

definition listeners :: "(pesit_server_config, 'j) codec \<Rightarrow> 'j server_manager \<Rightarrow> rstring \<Rightarrow> pesit_server_config option" where
  "listeners cd m = js_doc cd T_SERVERS (sm_store m)"

text \<open>The listener runs exactly when its stored status says so.\<close>

definition status_right :: "(pesit_server_config, 'j) codec \<Rightarrow> 'j server_manager \<Rightarrow> rstring \<Rightarrow> bool" where
  "status_right cd m i \<longleftrightarrow> (is_running i m \<longleftrightarrow> (\<exists>c. listeners cd m i = Some c \<and> ps_status c = Srv_Running))"

text \<open>The status of some listeners is right.\<close>

definition manager_inv :: "(pesit_server_config, 'j) codec \<Rightarrow> rstring set \<Rightarrow> 'j server_manager \<Rightarrow> bool" where
  "manager_inv cd I m \<longleftrightarrow> js_has T_SERVERS (sm_store m) \<and> (\<forall>i\<in>I. status_right cd m i)"

lemma stamped_status_simps [simp]: "ps_status (stamped_status now st c) = st" "ps_auto_start (stamped_status now st c) = ps_auto_start c"
  "ps_server_id (stamped_status now st c) = ps_server_id c"
  by (cases st; simp add: stamped_status_def)+

lemma set_status_listeners:
  assumes "codec_ok cd"
  shows "listeners cd (set_status cd env i st m) = (listeners cd m)(i := map_option (stamped_status (mv_now_iso env) st) (listeners cd m i))"
    and "sm_running (set_status cd env i st m) = sm_running m"
    and "js_has T_SERVERS (sm_store m) \<Longrightarrow> js_has T_SERVERS (sm_store (set_status cd env i st m))"
  using assms by (simp_all add: listeners_def set_status_def sm_set_store_def js_doc_update js_has_kept)

lemma manager_get_listeners: "manager_get cd i m = Inr c \<longleftrightarrow> listeners cd m i = Some c"
  by (auto simp: manager_get_def listeners_def js_doc_def and_then_def map_err_def ok_or_def split: sum.splits option.splits)

lemma node_audit_listeners [simp]:
  "listeners cd (node_audit ev env c a x m) = listeners cd m" "sm_running (node_audit ev env c a x m) = sm_running m"
  "js_has T_SERVERS (sm_store (node_audit ev env c a x m)) = js_has T_SERVERS (sm_store m)"
proof -
  have "js_tables (sm_store (node_audit ev env c a x m)) T_SERVERS = js_tables (sm_store m) T_SERVERS"
    by (simp add: node_audit_def audit_success_def audit_record_other T_SERVERS_def AUDIT_TABLE_def rstr_def)
  then show "listeners cd (node_audit ev env c a x m) = listeners cd m" "js_has T_SERVERS (sm_store (node_audit ev env c a x m)) = js_has T_SERVERS (sm_store m)"
    by (auto simp: listeners_def js_has_def intro: js_doc_cong)
qed (simp add: node_audit_def)

text \<open>Starting and stopping.\<close>

lemma start_outcome:
  obtains (unchanged) err where "manager_start cd env i m = (Inl err, m)"
  | (failed) err where "manager_start cd env i m = (Inl err, set_status cd env i Srv_Error m)" "\<not> is_running i m"
  | (started) c n r where "manager_start cd env i m = (Inr (), set_status cd env i Srv_Running (m\<lparr>sm_conn_counter := n, sm_running := (sm_running m)(i \<mapsto> r)\<rparr>))"
      "\<not> is_running i m" "listeners cd m i = Some c"
proof (cases "is_running i m")
  case running: False
  show thesis
  proof (cases "manager_get cd i m")
    case c: (Inr c)
    show thesis
    proof (cases "listener_acceptor env (sm_settings m) c")
      case (Inl p)
      then show thesis using running c unchanged failed by (cases p; cases "snd p") (simp_all add: manager_start_def)
    next
      case (Inr u)
      then show thesis
        using running c failed started [unfolded manager_get_listeners [symmetric], OF _ running c]
        by (cases "mv_bind env (listener_addr c)") (simp_all add: manager_start_def Let_def)
    qed
  qed (use running unchanged in \<open>simp add: manager_start_def\<close>)
qed (use unchanged in \<open>simp add: manager_start_def\<close>)

lemma stop_outcome:
  obtains (unchanged) err where "manager_stop cd env i m = (Inl err, m)" "\<not> is_running i m"
  | (stopped) l where "manager_stop cd env i m = (Inr (), set_status cd env i Srv_Stopped (m\<lparr>sm_running := (sm_running m)(i := None), sm_shutdown := l\<rparr>))"
      "is_running i m"
proof (cases "sm_running m i")
  case None
  then have "\<exists>err. manager_stop cd env i m = (Inl err, m)" by (auto simp: manager_stop_def split: sum.split bool.split)
  then show thesis using None unchanged by (auto simp: is_running_def)
qed (use stopped in \<open>simp add: manager_stop_def is_running_def\<close>)

text \<open>A status set for a listener, with what runs then.\<close>

lemma set_status_right:
  assumes "codec_ok cd" "listeners cd m' = listeners cd m" "\<And>j. j \<noteq> i \<Longrightarrow> sm_running m' j = sm_running m j"
  shows "j \<noteq> i \<Longrightarrow> status_right cd (set_status cd env i st m') j = status_right cd m j"
    and "status_right cd (set_status cd env i st m') i \<longleftrightarrow> (sm_running m' i \<noteq> None \<longleftrightarrow> st = Srv_Running \<and> listeners cd m i \<noteq> None)"
  using assms(2,3) set_status_listeners [OF assms(1)] by (auto simp: status_right_def is_running_def)

lemma listeners_running [simp]:
  "listeners cd (m\<lparr>sm_conn_counter := n, sm_running := r\<rparr>) = listeners cd m" "listeners cd (m\<lparr>sm_running := r, sm_shutdown := l\<rparr>) = listeners cd m"
  by (simp_all add: listeners_def)

lemma manager_start_inv:
  assumes ok: "codec_ok cd" and inv: "manager_inv cd I m"
  shows "manager_inv cd I (snd (manager_start cd env i m))"
proof (cases rule: start_outcome [of cd env i m])
  case (failed err)
  have "status_right cd (set_status cd env i Srv_Error m) j" if "j \<in> I" for j
    using that inv failed(2) set_status_right(1) [OF ok, of m m i j env Srv_Error] set_status_right(2) [OF ok, of m m i env Srv_Error]
    by (cases "j = i") (auto simp: manager_inv_def is_running_def)
  then show ?thesis using failed inv set_status_listeners(3) [OF ok] by (simp add: manager_inv_def)
next
  case (started c n r)
  let ?m = "m\<lparr>sm_conn_counter := n, sm_running := (sm_running m)(i \<mapsto> r)\<rparr>"
  have "status_right cd (set_status cd env i Srv_Running ?m) j" if "j \<in> I" for j
    using that inv started(3) set_status_right(1) [OF ok, of ?m m i j env Srv_Running] set_status_right(2) [OF ok, of ?m m i env Srv_Running]
    by (cases "j = i") (auto simp: manager_inv_def)
  then show ?thesis using started(1) inv set_status_listeners(3) [OF ok, of ?m] by (simp add: manager_inv_def)
qed (use inv in simp)

lemma manager_stop_inv:
  assumes ok: "codec_ok cd" and inv: "manager_inv cd I m"
  shows "manager_inv cd I (snd (manager_stop cd env i m))"
proof (cases rule: stop_outcome [of cd env i m])
  case (stopped l)
  let ?m = "m\<lparr>sm_running := (sm_running m)(i := None), sm_shutdown := l\<rparr>"
  have "status_right cd (set_status cd env i Srv_Stopped ?m) j" if "j \<in> I" for j
    using that inv set_status_right(1) [OF ok, of ?m m i j env Srv_Stopped] set_status_right(2) [OF ok, of ?m m i env Srv_Stopped]
    by (cases "j = i") (auto simp: manager_inv_def)
  then show ?thesis using stopped(1) inv set_status_listeners(3) [OF ok, of ?m] by (simp add: manager_inv_def)
qed (use inv in simp)

text \<open>The calls of the API on listeners.\<close>

datatype 'j listener_call =
    Lc_Create manager_env pesit_server_config
  | Lc_Update manager_env rstring pesit_server_config
  | Lc_Delete manager_env rstring
  | Lc_Start manager_env rstring
  | Lc_Stop manager_env rstring
  | Lc_Restore "rstring \<Rightarrow> 'j \<Rightarrow> rstring option" manager_env "'j backup_bundle"

fun run_listener_call :: "(pesit_server_config, 'j) codec \<Rightarrow> (audit_event, 'j) codec \<Rightarrow> 'j listener_call \<Rightarrow> 'j server_manager \<Rightarrow> 'j server_manager" where
  "run_listener_call cd ev (Lc_Create env cfg) m = snd (listener_create cd ev env cfg m)"
| "run_listener_call cd ev (Lc_Update env i cfg) m = snd (listener_update cd env i cfg m)"
| "run_listener_call cd ev (Lc_Delete env i) m = snd (listener_delete cd env i m)"
| "run_listener_call cd ev (Lc_Start env i) m = snd (listener_start cd env i m)"
| "run_listener_call cd ev (Lc_Stop env i) m = snd (listener_stop cd env i m)"
| "run_listener_call cd ev (Lc_Restore field env bk) m = snd (backup_restore ev field env bk m)"

text \<open>The listeners whose rows a call takes from a backup.\<close>

fun overwrites :: "'j listener_call \<Rightarrow> rstring set" where
  "overwrites (Lc_Restore field env bk) = {i. (T_SERVERS, i) \<in> restored_keys field (bd_tables bk)}"
| "overwrites _ = {}"

lemma sm_set_store_kept: "sm_running (sm_set_store s m) = sm_running m" "sm_store (sm_set_store s m) = s"
  by (simp_all add: sm_set_store_def)

lemma listeners_put:
  assumes "codec_ok cd" "js_has T_SERVERS s"
  obtains s' where "js_put cd T_SERVERS i c s = (Inr (), s')" "\<And>m. listeners cd (sm_set_store s' m) = (js_doc cd T_SERVERS s)(i \<mapsto> c)"
    "js_has T_SERVERS s'"
proof
  show "js_put cd T_SERVERS i c s = (Inr (), snd (js_put cd T_SERVERS i c s))"
    using js_hasD [OF assms(2)] js_put_result [of cd T_SERVERS i c s] by (auto simp: prod_eq_iff)
  show "listeners cd (sm_set_store (snd (js_put cd T_SERVERS i c s)) m) = (js_doc cd T_SERVERS s)(i \<mapsto> c)" for m
    using assms js_hasD [OF assms(2)] by (simp add: listeners_def sm_set_store_def js_doc_put)
qed (use assms in \<open>simp add: js_has_kept\<close>)

lemma not_there:
  assumes "listener_new_ok cd cfg m = Inr ()"
  shows "listeners cd m (ps_server_id cfg) = None"
  using assms
  by (auto simp: listener_new_ok_def and_then_def map_err_def js_exists_def js_rows_def ok_or_def listeners_def js_doc_alt
      tb_find_def filter_empty_conv find_None_iff [THEN iffD2] split: sum.splits option.splits if_splits)

lemma listener_create_inv:
  assumes ok: "codec_ok cd" and inv: "manager_inv cd I m"
  shows "manager_inv cd I (snd (listener_create cd ev env cfg m))"
proof (cases "listener_new_ok cd cfg m")
  case (Inr u)
  obtain n s where n: "js_next_counter (rstr ''server_id'') (sm_store m) = (Inr n, s)"
    by (auto simp: js_next_counter_def Let_def)
  have tables: "js_tables s = js_tables (sm_store m)" using js_next_counter_tables [of "rstr ''server_id''" "sm_store m"] n by simp
  let ?c = "cfg\<lparr>ps_id := Some n, ps_created_at := Some (mv_now_iso env), ps_updated_at := Some (mv_now_iso env), ps_status := Srv_Stopped\<rparr>"
  let ?i = "ps_server_id cfg"
  have has: "js_has T_SERVERS s" using inv tables by (simp add: manager_inv_def js_has_def)
  obtain s1 where put: "js_put cd T_SERVERS ?i ?c s = (Inr (), s1)" "listeners cd (sm_set_store s1 m) = (js_doc cd T_SERVERS s)(?i \<mapsto> ?c)"
    "js_has T_SERVERS s1" by (rule listeners_put [OF ok has, of ?i ?c]) blast
  let ?m = "node_audit ev env (rstr ''listener'') (rstr ''create'') ?i (sm_set_store s1 m)"
  have same: "js_doc cd T_SERVERS s = listeners cd m" unfolding listeners_def using tables by (intro js_doc_cong) simp
  have "?i \<in> I \<Longrightarrow> \<not> is_running ?i m" using inv not_there [of cd cfg m] Inr by (simp add: manager_inv_def status_right_def)
  moreover have "sm_running ?m = sm_running m" by (simp add: sm_set_store_def)
  moreover have "listeners cd ?m = (listeners cd m)(?i \<mapsto> ?c)" using put(2) same by simp
  moreover have "js_has T_SERVERS (sm_store ?m)" using put(3) by (simp add: sm_set_store_def)
  ultimately have "manager_inv cd I ?m" using inv not_there [of cd cfg m] Inr
    by (auto simp: manager_inv_def status_right_def is_running_def simp del: node_audit_listeners)
  then have "manager_inv cd I (if ps_auto_start cfg then snd (manager_start cd env ?i ?m) else ?m)" using manager_start_inv [OF ok] by simp
  moreover have "snd (listener_create cd ev env cfg m) = (if ps_auto_start cfg then snd (manager_start cd env ?i ?m) else ?m)"
    by (simp add: listener_create_def Inr n put(1) Let_def)
  ultimately show ?thesis by simp
qed (use inv in \<open>simp add: listener_create_def\<close>)

lemma listener_find_listeners: "listener_find cd i m = Inr c \<longleftrightarrow> listeners cd m i = Some c"
  by (auto simp: listener_find_def listeners_def js_doc_def and_then_def map_err_def ok_or_def split: sum.splits option.splits)

lemma listener_update_inv:
  assumes ok: "codec_ok cd" and inv: "manager_inv cd I m"
  shows "manager_inv cd I (snd (listener_update cd env i cfg m))"
proof -
  have has: "js_has T_SERVERS (sm_store m)" using inv by (simp add: manager_inv_def)
  have put: "\<exists>s. js_put cd T_SERVERS i c (sm_store m) = (Inr (), s) \<and> manager_inv cd I (sm_set_store s m)"
    if "listeners cd m i = Some x" "ps_status c = ps_status x" for x c
  proof -
    obtain s where s: "js_put cd T_SERVERS i c (sm_store m) = (Inr (), s)" "listeners cd (sm_set_store s m) = (js_doc cd T_SERVERS (sm_store m))(i \<mapsto> c)"
      "js_has T_SERVERS s" by (rule listeners_put [OF ok has, of i c]) blast
    have "listeners cd (sm_set_store s m) = (listeners cd m)(i \<mapsto> c)" using s(2) by (simp add: listeners_def)
    then have "manager_inv cd I (sm_set_store s m)"
      using inv that s(3) sm_set_store_kept [of s m] by (auto simp: manager_inv_def status_right_def is_running_def)
    with s(1) show ?thesis by blast
  qed
  show ?thesis
  proof (cases "listener_find cd i m")
    case (Inr x)
    then have x: "listeners cd m i = Some x" by (simp add: listener_find_listeners)
    let ?c = "cfg\<lparr>ps_server_id := i, ps_id := ps_id x, ps_created_at := ps_created_at x, ps_last_started_at := ps_last_started_at x,
      ps_last_stopped_at := ps_last_stopped_at x, ps_status := ps_status x, ps_updated_at := Some (mv_now_iso env)\<rparr>"
    obtain s where "js_put cd T_SERVERS i ?c (sm_store m) = (Inr (), s)" "manager_inv cd I (sm_set_store s m)" using put [OF x, of ?c] by auto
    with inv Inr show ?thesis by (simp add: listener_update_def Let_def split: sum.split)
  qed (use inv in \<open>simp add: listener_update_def\<close>)
qed

lemma listener_delete_inv:
  assumes ok: "codec_ok cd" and inv: "manager_inv cd I m"
  shows "manager_inv cd I (snd (listener_delete cd env i m))"
proof -
  have *: "manager_inv cd I (sm_set_store (snd (js_delete T_SERVERS i (sm_store m))) m)" if "manager_inv cd I m" "\<not> is_running i m" for m
  proof -
    have "listeners cd (sm_set_store (snd (js_delete T_SERVERS i (sm_store m))) m) = (listeners cd m)(i := None)"
      by (simp add: listeners_def sm_set_store_def js_doc_delete)
    then show ?thesis using that sm_set_store_kept [of "snd (js_delete T_SERVERS i (sm_store m))" m]
      by (auto simp: manager_inv_def status_right_def is_running_def js_has_kept)
  qed
  have deleted: "manager_inv cd I (snd (case js_delete T_SERVERS i (sm_store m) of
      (Inl err, s) \<Rightarrow> (Inl (api_of_store err), sm_set_store s m)
    | (Inr True, s) \<Rightarrow> (Inr (), sm_set_store s m)
    | (Inr False, s) \<Rightarrow> (Inl (listener_not_found i), sm_set_store s m)))" if "manager_inv cd I m" "\<not> is_running i m" for m
    using * [OF that] by (cases "js_delete T_SERVERS i (sm_store m)") (auto split: sum.split bool.split)
  show ?thesis
  proof (cases rule: stop_outcome [of cd env i m])
    case (stopped l)
    obtain m1 where m1: "manager_stop cd env i m = (Inr (), m1)" "\<not> is_running i m1" "manager_inv cd I m1"
      using stopped(1) set_status_listeners(2) [OF ok] manager_stop_inv [OF ok inv, of env i] by (auto simp: is_running_def)
    with deleted [OF m1(3,2)] stopped(2) show ?thesis by (simp add: listener_delete_def)
  next
    case (unchanged err)
    with deleted [OF inv] show ?thesis by (simp add: listener_delete_def)
  qed
qed

lemma backup_restore_inv:
  assumes inv: "manager_inv cd I m" and free: "I \<inter> {i. (T_SERVERS, i) \<in> restored_keys field (bd_tables bk)} = {}"
  shows "manager_inv cd I (snd (backup_restore ev field env bk m))"
proof -
  have "T_SERVERS \<noteq> AUDIT_TABLE" by (simp add: T_SERVERS_def AUDIT_TABLE_def rstr_def)
  note frame = backup_restore_frame [OF this, where field = field and bk = bk and ev = ev and env = env and m = m]
  have "listeners cd (snd (backup_restore ev field env bk m)) i = listeners cd m i" if "i \<in> I" for i
    unfolding listeners_def doc_of_docs [of cd] using frame(1) [of i] free that by fastforce
  then show ?thesis using inv frame(2,4) by (auto simp: manager_inv_def status_right_def is_running_def)
qed

lemma listener_call_inv:
  assumes "codec_ok cd" "manager_inv cd I m" "I \<inter> overwrites c = {}"
  shows "manager_inv cd I (run_listener_call cd ev c m)"
  using assms
  by (cases c) (simp_all add: listener_create_inv listener_update_inv listener_delete_inv listener_start_def listener_stop_def
      manager_start_inv manager_stop_inv backup_restore_inv)

text \<open>A call on one listener that succeeds settles its status, whatever it was.\<close>

lemma start_settled:
  assumes ok: "codec_ok cd" and start: "listener_start cd env i m = (Inr (), m')"
  shows "is_running i m' \<and> status_right cd m' i"
proof (cases rule: start_outcome [of cd env i m])
  case (started c n r)
  let ?m = "m\<lparr>sm_conn_counter := n, sm_running := (sm_running m)(i \<mapsto> r)\<rparr>"
  have m': "m' = set_status cd env i Srv_Running ?m" using start started(1) by (simp add: listener_start_def)
  show ?thesis unfolding m' using started(3) set_status_right(2) [OF ok, of ?m m i env Srv_Running] set_status_listeners(2) [OF ok]
    by (simp add: is_running_def)
qed (use start in \<open>simp_all add: listener_start_def map_err_def\<close>)

lemma stop_settled:
  assumes ok: "codec_ok cd" and stop: "manager_stop cd env i m = (Inr (), m')"
  shows "\<not> is_running i m' \<and> status_right cd m' i"
proof (cases rule: stop_outcome [of cd env i m])
  case (stopped l)
  let ?m = "m\<lparr>sm_running := (sm_running m)(i := None), sm_shutdown := l\<rparr>"
  have m': "m' = set_status cd env i Srv_Stopped ?m" using stop stopped(1) by simp
  show ?thesis unfolding m' using set_status_right(2) [OF ok, of ?m m i env Srv_Stopped] set_status_listeners(2) [OF ok]
    by (simp add: is_running_def)
qed (use stop in simp)

lemma delete_settled:
  assumes ok: "codec_ok cd" and del: "listener_delete cd env i m = (Inr (), m')"
  shows "\<not> is_running i m' \<and> listeners cd m' i = None"
proof -
  obtain m1 where m1: "\<not> is_running i m1" "js_delete T_SERVERS i (sm_store m1) = (Inr True, sm_store m')" "m' = sm_set_store (sm_store m') m1"
  proof (cases "is_running i m")
    case True
    then obtain m1 where stop: "manager_stop cd env i m = (Inr (), m1)" by (cases rule: stop_outcome [of cd env i m]) auto
    with stop_settled [OF ok stop] del True show ?thesis
      by (intro that [of m1]) (auto simp: listener_delete_def sm_set_store_def split: prod.splits sum.splits bool.splits)
  next
    case False
    with del show ?thesis
      by (intro that [of m]) (auto simp: listener_delete_def sm_set_store_def split: prod.splits sum.splits bool.splits)
  qed
  have "listeners cd m' i = None"
    using js_doc_delete [of cd T_SERVERS i "sm_store m1"] m1(2) by (simp add: listeners_def)
  moreover have "sm_running m' = sm_running m1" by (subst m1(3)) (simp add: sm_set_store_def)
  ultimately show ?thesis using m1(1) by (simp add: is_running_def)
qed

text \<open>The start of the node: every listener of the table is started or marked as stopped.\<close>

definition local_to :: "(pesit_server_config, 'j) codec \<Rightarrow> rstring \<Rightarrow> 'j server_manager \<Rightarrow> 'j server_manager \<Rightarrow> bool" where
  "local_to cd i m m' \<longleftrightarrow> (\<forall>j. j \<noteq> i \<longrightarrow> sm_running m' j = sm_running m j \<and> listeners cd m' j = listeners cd m j) \<and>
     sm_settings m' = sm_settings m \<and> (js_has T_SERVERS (sm_store m) \<longrightarrow> js_has T_SERVERS (sm_store m'))"

lemma set_status_local:
  assumes "codec_ok cd" "listeners cd m' = listeners cd m" "\<And>j. j \<noteq> i \<Longrightarrow> sm_running m' j = sm_running m j"
    "sm_audit m' = sm_audit m" "sm_settings m' = sm_settings m"
  shows "local_to cd i m (set_status cd env i st m')"
  using assms(2-5) set_status_listeners [OF assms(1)] by (auto simp: local_to_def) (simp add: set_status_def sm_set_store_def)

lemma start_local: "codec_ok cd \<Longrightarrow> local_to cd i m (snd (manager_start cd env i m))"
  by (cases rule: start_outcome [of cd env i m]) (auto intro!: set_status_local simp: local_to_def [of cd i m m])

text \<open>The one failure of a start that is not recorded: the TLS acceptor cannot be built.\<close>

definition silent_failure :: "manager_env \<Rightarrow> listener_settings \<Rightarrow> pesit_server_config \<Rightarrow> bool" where
  "silent_failure env st c \<longleftrightarrow> (\<exists>settings e. ps_ssl_enabled c \<and> listener_tls st c = Inr settings \<and> mv_acceptor env settings = Inl e)"

lemma start_one_settles:
  assumes ok: "codec_ok cd" and there: "listeners cd m (ps_server_id s) = Some s" and idle: "\<not> is_running (ps_server_id s) m"
    and recorded: "\<not> (ps_auto_start s \<and> silent_failure env (sm_settings m) s)"
  shows "status_right cd (start_one cd env s m) (ps_server_id s)"
proof -
  let ?i = "ps_server_id s"
  have e: "status_right cd (set_status cd env ?i st m) ?i" if "st \<noteq> Srv_Running" for st
    using idle that set_status_right(2) [OF ok, of m m] by (auto simp: is_running_def)
  show ?thesis
  proof (cases "ps_auto_start s")
    case True
    have r: "status_right cd (set_status cd env ?i Srv_Running (m\<lparr>sm_conn_counter := n, sm_running := (sm_running m)(?i \<mapsto> r)\<rparr>)) ?i" for n r
      using there set_status_right(2) [OF ok, of "m\<lparr>sm_conn_counter := n, sm_running := (sm_running m)(?i \<mapsto> r)\<rparr>" m ?i env Srv_Running] by simp
    have "b" if "listener_acceptor env (sm_settings m) s = Inl (err, b)" for err b
      using recorded True that by (auto simp: silent_failure_def listener_acceptor_def and_then_def map_err_def split: sum.splits if_splits)
    then show ?thesis using True idle there [folded manager_get_listeners] e [of Srv_Error] r
      by (auto simp: start_one_def manager_start_def Let_def split: sum.split)
  qed (use e [of Srv_Stopped] in \<open>simp add: start_one_def\<close>)
qed

lemma start_fold_right:
  assumes ok: "codec_ok cd" and "distinct (map ps_server_id ss)" "js_has T_SERVERS (sm_store m)"
    and "\<And>s. s \<in> set ss \<Longrightarrow> listeners cd m (ps_server_id s) = Some s \<and> \<not> is_running (ps_server_id s) m"
  shows "js_has T_SERVERS (sm_store (fold (start_one cd env) ss m)) \<and>
    (\<forall>i. i \<notin> ps_server_id ` set ss \<longrightarrow> status_right cd (fold (start_one cd env) ss m) i = status_right cd m i) \<and>
    (\<forall>s\<in>set ss. \<not> (ps_auto_start s \<and> silent_failure env (sm_settings m) s) \<longrightarrow> status_right cd (fold (start_one cd env) ss m) (ps_server_id s))"
  using assms(2-)
proof (induction ss arbitrary: m)
  case (Cons s ss)
  let ?i = "ps_server_id s" and ?m = "start_one cd env s m"
  have s: "listeners cd m ?i = Some s" "\<not> is_running ?i m" using Cons.prems(3) [of s] by simp_all
  have loc: "local_to cd ?i m ?m" using ok by (simp add: start_one_def start_local set_status_local)
  have other: "j \<noteq> ?i \<Longrightarrow> status_right cd ?m j = status_right cd m j \<and> is_running j ?m = is_running j m \<and> listeners cd ?m j = listeners cd m j" for j
    using loc by (simp add: local_to_def status_right_def is_running_def)
  have fresh: "?i \<notin> ps_server_id ` set ss" using Cons.prems(1) by simp
  have settings: "sm_settings ?m = sm_settings m" and has: "js_has T_SERVERS (sm_store ?m)" using loc Cons.prems(2) by (simp_all add: local_to_def)
  have rest: "listeners cd ?m (ps_server_id x) = Some x \<and> \<not> is_running (ps_server_id x) ?m" if "x \<in> set ss" for x
  proof -
    have "ps_server_id x \<noteq> ?i" using fresh that by (metis image_eqI)
    then show ?thesis using other [of "ps_server_id x"] Cons.prems(3) [of x] that by simp
  qed
  have IH: "js_has T_SERVERS (sm_store (fold (start_one cd env) ss ?m)) \<and>
    (\<forall>i. i \<notin> ps_server_id ` set ss \<longrightarrow> status_right cd (fold (start_one cd env) ss ?m) i = status_right cd ?m i) \<and>
    (\<forall>s\<in>set ss. \<not> (ps_auto_start s \<and> silent_failure env (sm_settings ?m) s) \<longrightarrow> status_right cd (fold (start_one cd env) ss ?m) (ps_server_id s))"
    using Cons.prems(1) by (intro Cons.IH has rest) simp
  show ?case unfolding fold_Cons comp_apply
  proof (intro conjI allI impI ballI)
    show "js_has T_SERVERS (sm_store (fold (start_one cd env) ss ?m))" using IH by blast
    show "status_right cd (fold (start_one cd env) ss ?m) i = status_right cd m i" if "i \<notin> ps_server_id ` set (s # ss)" for i
      using IH [THEN conjunct2, THEN conjunct1] other [of i] that by simp
    fix x assume x: "x \<in> set (s # ss)" "\<not> (ps_auto_start x \<and> silent_failure env (sm_settings m) x)"
    show "status_right cd (fold (start_one cd env) ss ?m) (ps_server_id x)"
    proof (cases "x = s")
      case True
      then show ?thesis using IH [THEN conjunct2, THEN conjunct1] fresh start_one_settles [OF ok s] x(2) by simp
    next
      case False
      then show ?thesis using IH [THEN conjunct2, THEN conjunct2] x settings by simp
    qed
  qed
qed simp

text \<open>A table whose rows are stored under their identifiers lists each of them once.\<close>

lemma listed_distinct:
  fixes cd :: "(pesit_server_config, 'j) codec"
  assumes has: "js_has T_SERVERS s" and list: "js_list cd T_SERVERS s = Inr ss"
    and keys: "\<And>i c. js_doc cd T_SERVERS s i = Some c \<Longrightarrow> ps_server_id c = i"
  shows "distinct (map ps_server_id ss)"
proof -
  from has obtain rows where rows: "js_tables s T_SERVERS = Some rows" "tb_wf rows" by (auto simp: js_has_def)
  have dec: "map (\<lambda>r. js_decode cd (rw_doc r)) (tb_by_seq rows) = map Inr ss"
    using list rows(1) by (simp add: js_list_def js_rows_def and_then_def ok_or_def collect_results_Inr)
  have "ps_server_id c = rw_key r" if "r \<in> set rows" "js_decode cd (rw_doc r) = Inr c" for r c
  proof (rule keys)
    show "js_doc cd T_SERVERS s (rw_key r) = Some c"
      using tb_find_member [OF rows(2) that(1)] rows(1) that(2) by (auto simp: js_doc_alt js_decode_def ok_or_def split: option.splits)
  qed
  then have same: "(case js_decode cd (rw_doc r) of Inr c \<Rightarrow> ps_server_id c | Inl _ \<Rightarrow> []) = rw_key r"
    if "r \<in> set rows" "js_decode cd (rw_doc r) \<in> range Inr" for r
    using that by (auto split: sum.split)
  have "map ps_server_id ss = map (\<lambda>x. case x of Inr c \<Rightarrow> ps_server_id c | Inl _ \<Rightarrow> []) (map Inr ss :: (store_error + pesit_server_config) list)" by simp
  also have "\<dots> = map (\<lambda>r. case js_decode cd (rw_doc r) of Inr c \<Rightarrow> ps_server_id c | Inl _ \<Rightarrow> []) (tb_by_seq rows)"
    unfolding dec [symmetric] by simp
  also have "\<dots> = map rw_key (tb_by_seq rows)"
  proof (rule map_cong [OF refl], rule same)
    fix r assume r: "r \<in> set (tb_by_seq rows)"
    then show "r \<in> set rows" by simp
    have "js_decode cd (rw_doc r) \<in> set (map Inr ss)" using r unfolding dec [symmetric] by simp
    then show "js_decode cd (rw_doc r) \<in> range Inr" by auto
  qed
  finally show ?thesis using rows(2) by (simp add: tb_wf_def)
qed

text \<open>C25: The stored status of a listener tells whether it runs: it is the status of a running listener exactly for those that run. From any
  state, a successful start or stop of a listener makes this so for it (it runs, and does not run, afterwards), and a
  deletion leaves neither a row nor a running listener. Once it is so for a listener, it stays so under every sequence of calls of the API
  that create, update, delete, start and stop listeners, whether they succeed or fail, and that restore backups without a row for this
  listener (a restore stores the status in the backup). And the start of the node makes it so for every
  listener except those that it starts automatically and whose TLS acceptor cannot be built, which keep the status they had.\<close>

theorem listener_status_right:
  assumes ok: "codec_ok cd" and has: "js_has T_SERVERS (sm_store m)"
  shows "(\<forall>env i m'. listener_start cd env i m = (Inr (), m') \<longrightarrow> is_running i m' \<and> status_right cd m' i) \<and>
    (\<forall>env i m'. listener_stop cd env i m = (Inr (), m') \<longrightarrow> \<not> is_running i m' \<and> status_right cd m' i) \<and>
    (\<forall>env i m'. listener_delete cd env i m = (Inr (), m') \<longrightarrow> \<not> is_running i m' \<and> js_doc cd T_SERVERS (sm_store m') i = None) \<and>
    (\<forall>i calls. status_right cd m i \<longrightarrow> (\<forall>c\<in>set calls. i \<notin> overwrites c) \<longrightarrow>
      status_right cd (fold (run_listener_call cd ev) calls m) i) \<and>
    (\<forall>env ss i. (\<forall>j. \<not> is_running j m) \<longrightarrow> js_list cd T_SERVERS (sm_store m) = Inr ss \<longrightarrow>
      (\<forall>j c. js_doc cd T_SERVERS (sm_store m) j = Some c \<longrightarrow> ps_server_id c = j) \<longrightarrow>
      (\<forall>c. js_doc cd T_SERVERS (sm_store m) i = Some c \<longrightarrow> ps_auto_start c \<longrightarrow> \<not> silent_failure env (sm_settings m) c) \<longrightarrow>
      status_right cd (start_auto cd env m) i)"
proof (intro conjI allI impI)
  fix env i m'
  show "is_running i m'" "status_right cd m' i" if "listener_start cd env i m = (Inr (), m')" using start_settled [OF ok that] by simp_all
  show "\<not> is_running i m'" "status_right cd m' i" if "listener_stop cd env i m = (Inr (), m')"
  proof -
    have "manager_stop cd env i m = (Inr (), m')" using that by (cases "manager_stop cd env i m"; cases "fst (manager_stop cd env i m)") (auto simp: listener_stop_def map_err_def)
    from stop_settled [OF ok this] show "\<not> is_running i m'" "status_right cd m' i" by simp_all
  qed
  show "\<not> is_running i m'" "js_doc cd T_SERVERS (sm_store m') i = None" if "listener_delete cd env i m = (Inr (), m')"
    using delete_settled [OF ok that] by (simp_all add: listeners_def)
next
  fix i and calls :: "'a listener_call list" assume right: "status_right cd m i" and free: "\<forall>c\<in>set calls. i \<notin> overwrites c"
  have "manager_inv cd {i} (fold (run_listener_call cd ev) calls m)"
    using free
  proof (induction calls rule: rev_induct)
    case (snoc c calls)
    then show ?case using listener_call_inv [OF ok, of "{i}" _ c ev] by simp
  qed (use right has in \<open>simp add: manager_inv_def\<close>)
  then show "status_right cd (fold (run_listener_call cd ev) calls m) i" by (simp add: manager_inv_def)
next
  fix env ss i
  assume idle: "\<forall>j. \<not> is_running j m" and list: "js_list cd T_SERVERS (sm_store m) = Inr ss"
    and keys: "\<forall>j c. js_doc cd T_SERVERS (sm_store m) j = Some c \<longrightarrow> ps_server_id c = j"
    and acc: "\<forall>c. js_doc cd T_SERVERS (sm_store m) i = Some c \<longrightarrow> ps_auto_start c \<longrightarrow> \<not> silent_failure env (sm_settings m) c"
  have dist: "distinct (map ps_server_id ss)" using listed_distinct [OF has list] keys by blast
  have ran: "set ss = ran (js_doc cd T_SERVERS (sm_store m))" by (rule js_list_docs [OF has list])
  have rows: "listeners cd m (ps_server_id s) = Some s \<and> \<not> is_running (ps_server_id s) m" if "s \<in> set ss" for s
    using that idle keys by (auto simp: ran ran_def listeners_def)
  note settled = start_fold_right [OF ok dist has rows, where env = env]
  have start: "start_auto cd env m = fold (start_one cd env) ss m" using list by (simp add: start_auto_def)
  show "status_right cd (start_auto cd env m) i"
  proof (cases "js_doc cd T_SERVERS (sm_store m) i")
    case None
    have "i \<notin> ps_server_id ` set ss" using rows None by (auto simp: listeners_def)
    moreover have "status_right cd m i" using None idle by (simp add: status_right_def listeners_def)
    ultimately show ?thesis unfolding start using settled by blast
  next
    case (Some c)
    then have "c \<in> set ss" "ps_server_id c = i" using keys ran by (auto intro: ranI)
    then show ?thesis unfolding start using settled acc Some by blast
  qed
qed

text \<open>A table with one listener that starts automatically.\<close>

definition sample_listener_log :: "pesit_server_config audit_log" where
  "sample_listener_log = \<lparr>al_store = js_set T_SERVERS
       [\<lparr>rw_key = [65], rw_doc = pesit_server_config_default\<lparr>ps_server_id := [65], ps_auto_start := True\<rparr>, rw_seq = 1\<rparr>] js_new,
     al_max_entries = 0, al_writes = 0\<rparr>"

definition sample_manager_env :: manager_env where
  "sample_manager_env = \<lparr>mv_now_iso = [], mv_uuid = [], mv_acceptor = (\<lambda>_. Inr ()), mv_bind = (\<lambda>_. Inr ()), mv_io_text = (\<lambda>_. [])\<rparr>"

theorem listener_status_right_witness:
  "\<forall>settings. let m = start_auto plain_codec sample_manager_env (manager_new sample_listener_log settings) in
    is_running [65] m \<and> (\<exists>c. js_doc plain_codec T_SERVERS (sm_store m) [65] = Some c \<and> ps_status c = Srv_Running)"
proof (intro allI)
  fix settings
  let ?fresh = "manager_new sample_listener_log settings"
  let ?m = "start_auto plain_codec sample_manager_env ?fresh"
  let ?c = "pesit_server_config_default\<lparr>ps_server_id := [65], ps_auto_start := True\<rparr>"
  have ok: "codec_ok (plain_codec :: (pesit_server_config, pesit_server_config) codec)" by (simp add: codec_ok_def plain_codec_def)
  have has: "js_has T_SERVERS (sm_store ?fresh)" by (simp add: js_has_def sample_listener_log_def manager_new_def js_set_def tb_wf_def)
  have list: "js_list plain_codec T_SERVERS (sm_store ?fresh) = Inr [?c]"
    by (simp add: js_list_def js_rows_def manager_new_def sample_listener_log_def js_set_def and_then_def ok_or_def tb_by_seq_def js_decode_def plain_codec_def)
  have doc: "js_doc plain_codec T_SERVERS (sm_store ?fresh) i = (if i = [65] then Some ?c else None)" for i
    by (simp add: js_doc_alt manager_new_def sample_listener_log_def js_set_def tb_find_def plain_codec_def)
  have idle: "\<not> is_running j ?fresh" for j by (simp add: is_running_def manager_new_def)
  have keys: "\<forall>j c. js_doc plain_codec T_SERVERS (sm_store ?fresh) j = Some c \<longrightarrow> ps_server_id c = j" using doc by simp
  have "\<not> silent_failure sample_manager_env (sm_settings ?fresh) c" for c by (simp add: silent_failure_def sample_manager_env_def)
  then have right: "status_right plain_codec ?m [65]"
    using listener_status_right [OF ok has] idle list keys by blast
  have "is_running [65] (snd (manager_start plain_codec sample_manager_env [65] ?fresh))"
  proof -
    have "manager_get plain_codec [65] ?fresh = Inr ?c" using doc [of "[65]"] by (simp add: manager_get_listeners listeners_def)
    then show ?thesis using idle [of "[65]"]
      by (simp add: manager_start_def listener_acceptor_def sample_manager_env_def Let_def pesit_server_config_default_def)
        (simp add: is_running_def set_status_def sm_set_store_def)
  qed
  then have "is_running [65] ?m" using list by (simp add: start_auto_def start_one_def)
  with right show "let m = ?m in is_running [65] m \<and> (\<exists>c. js_doc plain_codec T_SERVERS (sm_store m) [65] = Some c \<and> ps_status c = Srv_Running)"
    by (simp add: Let_def status_right_def listeners_def)
qed

end
