(* ===== verification/Spec2Isabelle.thy ===== *)
theory Spec2Isabelle
  imports Prelude Crc Diag Pi Fpdu_Kind Fpdu Fpdu_Params Fpdu_Codec Ebcdic Params Compress
    Article Article_Pack Article_Cut Frame State State_Machine Builder Builder_Props
    Checkpoint Article_Io Article_Io_Props Article_Sink Transport
    Session Datapath Datapath_Send Datapath_Recv Datapath_Props Datapath_Term Datapath_Live
    Requester_Session Requester_Term Responder_Session Server_Session
    Datapath_Quiet Session_Exchange Requester_Run Server_Run Session_Transfer Session_Connect Whole_Session
    App_Store App_Http Node_Model Connector Node_Handler Node_Records Node_Access
    Client_Model Client_Engine Client_Session Client_Props Client_Api Cluster Schedule
    Node_Manager Node_Api Node_Api_Props
begin

text \<open>
  Verification of the PeSIT E file transfer protocol as implemented by the crates under
  \<^verbatim>\<open>src/crates\<close>: \<^verbatim>\<open>pesit-core\<close> (formats, negotiation, compression, articles, state machine; no
  input or output), \<^verbatim>\<open>pesit-io\<close> (transport, link, files, checkpoints, the data transfer phase and the sessions of
  requester and server), and of the applications around the sessions: \<^verbatim>\<open>pesit-app\<close> (document store, audit log),
  \<^verbatim>\<open>pesit-connector\<close> (file stores), \<^verbatim>\<open>pesit-node\<close> (configuration, access control, transfer records, schedules),
  \<^verbatim>\<open>pesit-client\<close> (transfer jobs and their history) and \<^verbatim>\<open>pesit-cluster\<close> (replication and leader election).

  \<^bold>\<open>The program and its theories.\<close> A session exchanges FPDUs, which are lists of parameters with a
  header. FPDUs are collected in entities, entities are framed on a byte stream. A file is cut into
  articles, articles are compressed, packed into data FPDUs, and synchronisation points between them
  let an interrupted transfer be resumed.

  \<^item> \<open>Prelude\<close>: types of the model (bytes, machine words, results), the helpers all components share.
  \<^item> \<open>Crc\<close> (\<^verbatim>\<open>crc.rs\<close>): the Fletcher checksum at the level of the two sums; a changed byte is detected.
  \<^item> \<open>Pi\<close>, \<open>Diag\<close> (\<^verbatim>\<open>pi.rs\<close>, \<^verbatim>\<open>diag.rs\<close>): the catalogues of parameters and diagnostics.
  \<^item> \<open>Fpdu_Kind\<close>, \<open>Fpdu\<close>, \<open>Fpdu_Params\<close>, \<open>Fpdu_Codec\<close> (\<^verbatim>\<open>fpdu.rs\<close>): kinds and templates, the parameter
    list with its setters and getters, encoder and decoder; round trip in both directions, exact error
    behaviour.
  \<^item> \<open>Ebcdic\<close>, \<open>Params\<close> (\<^verbatim>\<open>ebcdic.rs\<close>, \<^verbatim>\<open>params.rs\<close>): translation tables, the pre-connection message, typed
    parameters and their negotiation.
  \<^item> \<open>Compress\<close> (\<^verbatim>\<open>compress.rs\<close>): horizontal, vertical and mixed compression with the reference article;
    the two ends stay in step.
  \<^item> \<open>Article\<close>, \<open>Article_Pack\<close>, \<open>Article_Cut\<close> (\<^verbatim>\<open>article.rs\<close>): cutter, packer, reassembler.
  \<^item> \<open>Frame\<close> (\<^verbatim>\<open>frame.rs\<close>): entities and their builder.
  \<^item> \<open>State\<close>, \<open>State_Machine\<close> (\<^verbatim>\<open>state.rs\<close>): the state tables of both ends, one definition per state, and
    properties of all runs as an inductive reachability relation.
  \<^item> \<open>Builder\<close>, \<open>Builder_Props\<close> (\<^verbatim>\<open>builder.rs\<close>): the FPDU constructors; what they build is accepted by a strict
    peer and carries its parameters.
  \<^item> \<open>Checkpoint\<close> (\<^verbatim>\<open>checkpoint.rs\<close>): the memory store refines a finite map; the file store survives every
    fault of the file system.
  \<^item> \<open>Article_Io\<close>, \<open>Article_Io_Props\<close>, \<open>Article_Sink\<close> (\<^verbatim>\<open>io.rs\<close>): sources and sinks. The locales
    \<open>article_source\<close> and \<open>article_sink\<close> state what a transfer relies on; files and vectors are
    interpretations.
  \<^item> \<open>Transport\<close> (\<^verbatim>\<open>transport.rs\<close>): framed reading and writing.
  \<^item> \<open>Session\<close> (\<^verbatim>\<open>error.rs\<close>, \<^verbatim>\<open>link.rs\<close>): session errors, actions (functions of a state that fail with a
    session error), the link with the queue its reader task fills.
  \<^item> \<open>Datapath\<close> (\<^verbatim>\<open>datapath.rs\<close>): the two loops of the data phase. \<open>Datapath_Send\<close> shows what a completed
    sender has written (locale \<open>sending_source\<close>), \<open>Datapath_Recv\<close> what a receiver makes of it (locale
    \<open>receiving_sink\<close>), \<open>Datapath_Props\<close> gives the interpretations, \<open>Datapath_Term\<close> that sending always
    ends (locale \<open>finite_source\<close>), \<open>Datapath_Live\<close> that an undisturbed transfer completes (locale
    \<open>live_source\<close>) and that a file arrives unchanged at the other end. \<open>Datapath_Quiet\<close> adds that such a
    sender does not depend on what arrives after its phase.
  \<^item> \<open>Requester_Session\<close> (\<^verbatim>\<open>requester.rs\<close>): a session extends the link and the machine (record \<open>requester\<close>),
    during a transfer by the file and the checkpoint store (\<open>rq_transfer\<close>); connection, requests, both
    directions of a transfer, messages, release. \<open>Requester_Term\<close>: a connection opened over a byte stream and a
    file sent over it return, with fuel given by the size of the file and of the stream.
  \<^item> \<open>Responder_Session\<close>, \<open>Server_Session\<close> (\<^verbatim>\<open>responder.rs\<close>): the record \<open>responder\<close> with the state of the application,
    whose callbacks are the record \<open>server_handler\<close>; connection, creation, selection, messages, the serving
    loop, which ends because every turn takes something from what may still arrive. What a transfer
    drops at its end, the sink or source and the store, is kept in \<open>rs_sinks\<close> and \<open>rs_sources\<close>.
  \<^item> \<open>Session_Exchange\<close>, \<open>Requester_Run\<close>, \<open>Server_Run\<close>: one exchange as an equation between states, then the
    requester over the answers of a server and the server over the FPDUs of a requester.
    \<open>Session_Transfer\<close>, \<open>Session_Connect\<close> and \<open>Whole_Session\<close> put the two together: transfers between connected
    sessions, connections, and whole sessions, in which each side receives what the other one writes.
  \<^item> \<open>App_Store\<close> (\<^verbatim>\<open>store.rs\<close>, \<^verbatim>\<open>audit.rs\<close>): the tables of the document store, which refine an ordered list of
    documents (locale \<open>document_table\<close>), and the audit log, which keeps the newest events up to its retention. \<open>App_Http\<close> (\<^verbatim>\<open>http.rs\<close>): errors of
    the API, the API key, file name patterns, and what is used of strings and paths.
  \<^item> \<open>Node_Model\<close> (\<^verbatim>\<open>model.rs\<close>): partners, virtual files, listeners, connectors, transfer records; which files a
    partner may access. \<open>Connector\<close> (\<^verbatim>\<open>pesit-connector\<close>, \<^verbatim>\<open>connector.rs\<close>): the local store, the retry loop, building a
    connector from its configuration.
  \<^item> \<open>Node_Handler\<close> (\<^verbatim>\<open>handler.rs\<close>): the callbacks of the server session, as the record \<open>pw_ops\<close> of type
    \<open>server_handler\<close>, over the state \<open>pw_handler\<close> with the document store, the transfers in progress and the
    cancellation flags. \<open>Node_Records\<close>: every sequence of callbacks keeps one running record per transfer in
    progress and never changes a finished one. \<open>Node_Access\<close>: what an accepted connection, creation or selection
    guarantees.
  \<^item> \<open>Client_Model\<close>, \<open>Client_Engine\<close>, \<open>Client_Session\<close> (\<^verbatim>\<open>pesit-client\<close>): servers, requests and the history of transfers;
    submitting, retrying and finishing a transfer over the state \<open>engine\<close> with the document store; the jobs that open
    a connection, run a requester session with files and checkpoints, and fall back to a full transfer when a
    restart is refused. \<open>Client_Props\<close>: jobs return and how they leave the history, what a retry continues, and that what the
    client announces arrives. \<open>Client_Api\<close> (\<^verbatim>\<open>api.rs\<close>): the handlers of its API; which servers are the default after
    every call.
  \<^item> \<open>Cluster\<close> (\<^verbatim>\<open>pesit-cluster\<close>, \<^verbatim>\<open>cluster.rs\<close>, \<^verbatim>\<open>backup.rs\<close>): published changes, snapshots and the lease of the
    leader. For a node that joins, with any configuration of its own and missing any first changes, the document it holds
    for every key. The election as a step relation in which nodes read the lease and act on what they read, calls
    fail, nodes stop and the lease expires; while it does not expire, there is at most one leader, and a lemma
    shows the two leaders that a delayed renewal leaves after an expiry.
    \<open>Schedule\<close> (\<^verbatim>\<open>schedule.rs\<close>): editing, firing and rescheduling recurring transfers; the members of a
    cluster together fire every due schedule once.
  \<^item> \<open>Node_Manager\<close> (\<^verbatim>\<open>manager.rs\<close>), \<open>Node_Api\<close> (\<^verbatim>\<open>api.rs\<close>): listeners and the handlers of the API of the node
    with the restore of a backup (\<^verbatim>\<open>backup.rs\<close>). \<open>Node_Api_Props\<close>: changes of replicated tables are published, so
    that peers follow, except those of a schedule run on request and of a restored backup; the stored status of a
    listener tells whether it runs, except after a restore that overwrites it and for a TLS acceptor that cannot be built.

  \<^bold>\<open>Conventions.\<close> A struct is a record, an enum a datatype, \<open>Result\<close> a sum with the error on the left.
  Machine integers are words where they wrap or are encoded; lengths and indices (\<open>usize\<close>) are natural
  numbers, since they measure buffers in memory. The file system and the connection are lists of bytes
  with a script of the results their calls give, so that every theorem covers every sequence of
  faults. What the peer sends is the list of events of the reader task; a time limit that expires is
  the event \<open>Rx_Nothing\<close>. A call of the node's handler gets the record \<open>node_env\<close>: clock, random identifiers and
  the file system at that call; JSON documents are values of a type parameter with a codec for each
  kind of document (\<open>node_serde\<close>). That a record is decoded from what was encoded (\<open>serde_ok\<close>) and that random
  identifiers differ are named hypotheses of the theorem that needs them. Of the errors of SQLite only a
  missing table occurs, and a mutex is not poisoned.

  \<^bold>\<open>Loops and fuel.\<close> Every loop of the core is a total function. The receiving loop and the loops that
  wait for an acknowledgement end because every turn takes something from what may still arrive. The
  sending loop takes fuel, since a peer can ask for restarts; \<open>send_data_returns\<close> gives the fuel that
  suffices: the size of the file plus one, times what arrives plus one. Operations of the sessions that
  contain a sending loop take its fuel and give \<open>None\<close> when it does not suffice; \<open>Requester_Term\<close> and
  \<open>Client_Props\<close> carry the bound over to a session and to the jobs of the client.

  \<^bold>\<open>Not modelled.\<close> Texts of errors and traces; TLS configurations, sockets and processes of the node, HTTP
  routing, the texts of metrics, certificates and signatures of backups, the S3, SSH and NATS libraries and the parser of cron
  expressions: process management and third-party code around these crates, the latter parameters of the
  definitions that use it. The theorems on pairs of sessions are about undisturbed runs without
  acknowledged synchronisation points; what interruptions and resynchronisation do is in the model of the
  data phase and in the theorems on its termination and its output.
\<close>

end
